(* ===== verification/Rust_Prelude.thy ===== *)
theory Rust_Prelude
  imports Main "HOL-Library.Word" "HOL-Library.AList" "HOL-Library.Multiset"
begin

text \<open>
  The vocabulary the component theories share: Rust's fixed-width integers as words with the
  checked, saturating and panicking operations of the standard library; hash maps as
  association lists; decimal printing and parsing of unsigned integers; fallible operations that
  mutate their receiver; and the generic locales (invariants of a run, absorbing states, keyed
  maps) that the components interpret.
\<close>

section \<open>Collections of rewrite rules\<close>

named_theorems unat_simps \<open>reading word operations as natural numbers\<close>
named_theorems hm_simps \<open>lookups in hash maps\<close>

section \<open>Fixed-width integers\<close>

type_synonym u8 = "8 word"
type_synonym u16 = "16 word"
type_synonym u32 = "32 word"
type_synonym u64 = "64 word"
type_synonym u128 = "128 word"

text \<open>Identifiers of the uuid crate.\<close>

type_synonym uuid = u128

text \<open>\<open>std::net::IpAddr\<close>: an IPv4 address by its octets, an IPv6 address by its eight segments.\<close>

datatype ip_addr =
    V4 u8 u8 u8 u8
  | V6 u16 u16 u16 u16 u16 u16 u16 u16

text \<open>\<open>MAX\<close> of an unsigned type.\<close>

abbreviation u64_max :: u64 where
  "u64_max \<equiv> 18446744073709551615"

definition checked_add :: "'a::len word \<Rightarrow> 'a word \<Rightarrow> 'a word option" where
  "checked_add a b = (if unat a + unat b < 2 ^ LENGTH('a) then Some (a + b) else None)"

definition checked_sub :: "'a::len word \<Rightarrow> 'a word \<Rightarrow> 'a word option" where
  "checked_sub a b = (if b \<le> a then Some (a - b) else None)"

definition checked_mul :: "'a::len word \<Rightarrow> 'a word \<Rightarrow> 'a word option" where
  "checked_mul a b = (if unat a * unat b < 2 ^ LENGTH('a) then Some (a * b) else None)"

definition checked_div :: "'a::len word \<Rightarrow> 'a word \<Rightarrow> 'a word option" where
  "checked_div a b = (if b = 0 then None else Some (a div b))"

definition saturating_add :: "'a::len word \<Rightarrow> 'a word \<Rightarrow> 'a word" where
  "saturating_add a b = (if unat a + unat b < 2 ^ LENGTH('a) then a + b else - 1)"

definition saturating_sub :: "'a::len word \<Rightarrow> 'a word \<Rightarrow> 'a word" where
  "saturating_sub a b = (if b \<le> a then a - b else 0)"

text \<open>
  The operators \<open>+\<close>, \<open>-\<close> and \<open>*\<close> themselves. The flag says whether the build checks
  overflow: the development and test profiles do (an overflow panics, here \<open>None\<close>), the
  release profile of this workspace does not (the result wraps).
\<close>

definition add_op :: "bool \<Rightarrow> 'a::len word \<Rightarrow> 'a word \<Rightarrow> 'a word option" where
  "add_op checks a b = (if checks then checked_add a b else Some (a + b))"

definition sub_op :: "bool \<Rightarrow> 'a::len word \<Rightarrow> 'a word \<Rightarrow> 'a word option" where
  "sub_op checks a b = (if checks then checked_sub a b else Some (a - b))"

definition mul_op :: "bool \<Rightarrow> 'a::len word \<Rightarrow> 'a word \<Rightarrow> 'a word option" where
  "mul_op checks a b = (if checks then checked_mul a b else Some (a * b))"

lemma unat_add_exact [unat_simps]:
  fixes a b :: "'a::len word"
  shows "unat a + unat b < 2 ^ LENGTH('a) \<Longrightarrow> unat (a + b) = unat a + unat b"
  by (simp add: unat_word_ariths)

lemma unat_mul_exact [unat_simps]:
  fixes a b :: "'a::len word"
  shows "unat a * unat b < 2 ^ LENGTH('a) \<Longrightarrow> unat (a * b) = unat a * unat b"
  by (simp add: unat_word_ariths)

lemma unat_sub_exact [unat_simps]:
  fixes a b :: "'a::len word"
  shows "b \<le> a \<Longrightarrow> unat (a - b) = unat a - unat b"
  by (rule unat_sub)

lemma unat_lt_len: "unat (a :: 'a::len word) < 2 ^ LENGTH('a)"
  by (rule unsigned_less)

text \<open>The cast \<open>as\<close> between unsigned types: truncation, exact when the value fits.\<close>

lemma unat_cast:
  fixes a :: "'a::len word"
  shows "unat (ucast a :: 'b::len word) = unat a mod 2 ^ LENGTH('b)"
  by (simp add: unsigned_ucast_eq take_bit_eq_mod)

lemma unat_cast_up [unat_simps]:
  fixes a :: "'a::len word"
  assumes "LENGTH('a) \<le> LENGTH('b::len)"
  shows "unat (ucast a :: 'b word) = unat a"
proof -
  have "unat a < 2 ^ LENGTH('b)"
    using unat_lt_len [of a] assms by (meson less_le_trans one_le_numeral power_increasing)
  then show ?thesis by (simp add: unat_cast)
qed

lemma unat_saturating_sub [unat_simps, simp]:
  "unat (saturating_sub a b) = unat a - unat b"
  by (auto simp: saturating_sub_def unat_sub_exact word_le_nat_alt)

lemma unat_saturating_add [unat_simps]:
  fixes a b :: "'a::len word"
  shows "unat (saturating_add a b) = min (unat a + unat b) (2 ^ LENGTH('a) - 1)"
  by (auto simp: saturating_add_def unat_add_exact unsigned_minus_1_eq_mask mask_eq_exp_minus_1)

lemma saturating_add_exact:
  fixes a b :: "'a::len word"
  shows "unat a + unat b < 2 ^ LENGTH('a) \<Longrightarrow> saturating_add a b = a + b"
  by (simp add: saturating_add_def)

lemma saturating_sub_le: "saturating_sub a b \<le> a"
  by (simp add: word_le_nat_alt)

lemma checked_add_Some:
  "checked_add a b = Some c \<Longrightarrow> unat c = unat a + unat b"
  by (auto simp: checked_add_def unat_add_exact split: if_splits)

lemma checked_sub_Some:
  "checked_sub a b = Some c \<Longrightarrow> unat c + unat b = unat a"
  by (auto simp: checked_sub_def unat_sub_exact word_le_nat_alt split: if_splits)

lemma checked_mul_Some:
  "checked_mul a b = Some c \<Longrightarrow> unat c = unat a * unat b"
  by (auto simp: checked_mul_def unat_mul_exact split: if_splits)

lemma checked_add_None_iff:
  fixes a b :: "'a::len word"
  shows "checked_add a b = None \<longleftrightarrow> 2 ^ LENGTH('a) \<le> unat a + unat b"
  by (auto simp: checked_add_def)

lemma unat_u64_max: "unat (x :: u64) \<le> 18446744073709551615"
  using unat_lt_len [of x] by simp

section \<open>Fallible operations that mutate their receiver\<close>

text \<open>
  A Rust method \<open>fn f(&mut self, ..) -> Result<T, E>\<close> returns a result and leaves a receiver
  behind, also when it returns an error: the two are a pair.
\<close>

type_synonym ('e, 'a, 's) outcome = "('e + 'a) \<times> 's"

fun is_ok :: "'e + 'a \<Rightarrow> bool" where
  "is_ok (Inr _) = True"
| "is_ok (Inl _) = False"

lemma is_ok_iff: "is_ok r \<longleftrightarrow> (\<exists>v. r = Inr v)"
  by (cases r) auto

section \<open>Hash maps\<close>

text \<open>
  A \<open>HashMap\<close> is an association list with distinct keys (\<open>hm_wf\<close>). The order of the list
  stands for the unspecified iteration order; the theorems of the development quantify over all
  lists and so over all orders.
\<close>

type_synonym ('k, 'v) hashmap = "('k \<times> 'v) list"

abbreviation hm_wf :: "('k, 'v) hashmap \<Rightarrow> bool" where
  "hm_wf m \<equiv> distinct (map fst m)"

abbreviation hm_get :: "('k, 'v) hashmap \<Rightarrow> 'k \<Rightarrow> 'v option" where
  "hm_get m k \<equiv> map_of m k"

definition hm_insert :: "'k \<Rightarrow> 'v \<Rightarrow> ('k, 'v) hashmap \<Rightarrow> ('k, 'v) hashmap" where
  "hm_insert k v m = AList.update k v m"

definition hm_remove :: "'k \<Rightarrow> ('k, 'v) hashmap \<Rightarrow> ('k, 'v) hashmap" where
  "hm_remove k m = AList.delete k m"

definition hm_contains :: "('k, 'v) hashmap \<Rightarrow> 'k \<Rightarrow> bool" where
  "hm_contains m k \<longleftrightarrow> hm_get m k \<noteq> None"

abbreviation hm_values :: "('k, 'v) hashmap \<Rightarrow> 'v list" where
  "hm_values m \<equiv> map snd m"

text \<open>\<open>retain\<close> with a predicate that does not change the values.\<close>

definition hm_retain :: "('k \<Rightarrow> 'v \<Rightarrow> bool) \<Rightarrow> ('k, 'v) hashmap \<Rightarrow> ('k, 'v) hashmap" where
  "hm_retain P m = filter (\<lambda>(k, v). P k v) m"

lemma hm_get_insert [hm_simps, simp]:
  "hm_get (hm_insert k v m) k' = (if k' = k then Some v else hm_get m k')"
  by (simp add: hm_insert_def update_conv')

lemma hm_get_remove [hm_simps, simp]:
  "hm_get (hm_remove k m) k' = (if k' = k then None else hm_get m k')"
  by (simp add: hm_remove_def delete_conv')

lemma hm_wf_insert [simp]: "hm_wf m \<Longrightarrow> hm_wf (hm_insert k v m)"
  by (simp add: hm_insert_def distinct_update)

lemma hm_wf_remove [simp]: "hm_wf m \<Longrightarrow> hm_wf (hm_remove k m)"
  by (simp add: hm_remove_def distinct_delete)

lemma hm_get_Some_iff: "hm_wf m \<Longrightarrow> hm_get m k = Some v \<longleftrightarrow> (k, v) \<in> set m"
  by (rule map_of_eq_Some_iff)

lemma hm_contains_insert [simp]:
  "hm_contains (hm_insert k v m) k' \<longleftrightarrow> k' = k \<or> hm_contains m k'"
  by (auto simp: hm_contains_def)

lemma hm_insert_new: "hm_get m k = None \<Longrightarrow> hm_insert k v m = m @ [(k, v)]"
  unfolding hm_insert_def by (induction m) (auto split: if_splits)

lemma hm_insert_same: "hm_get m k = Some v \<Longrightarrow> hm_insert k v m = m"
  unfolding hm_insert_def by (induction m) (auto split: if_splits)

lemma hm_insert_twice [simp]: "hm_insert k v (hm_insert k w m) = hm_insert k v m"
  unfolding hm_insert_def by (induction m) auto

lemma hm_len_insert: "length (hm_insert k v m) = (if hm_contains m k then length m else Suc (length m))"
  unfolding hm_insert_def hm_contains_def by (induction m) auto

lemma hm_wf_retain [simp]: "hm_wf m \<Longrightarrow> hm_wf (hm_retain P m)"
  unfolding hm_retain_def by (induction m) auto

lemma hm_keys_retain: "fst ` set (hm_retain P m) \<subseteq> fst ` set m"
  by (auto simp: hm_retain_def)

lemma hm_get_retain:
  "hm_wf m \<Longrightarrow> hm_get (hm_retain P m) k =
     (case hm_get m k of None \<Rightarrow> None | Some v \<Rightarrow> if P k v then Some v else None)"
proof (induction m)
  case (Cons p m)
  have "k \<notin> fst ` set m \<Longrightarrow> hm_get (hm_retain P m) k = None"
    using hm_keys_retain [of P m] by (auto simp: map_of_eq_None_iff)
  with Cons show ?case
    by (cases p) (auto simp: hm_retain_def map_of_eq_None_iff)
qed (simp add: hm_retain_def)

text \<open>
  Sums of a measure over the values: how insertion and removal change them. They carry the
  counting invariants of the components.
\<close>

definition hm_sum :: "('v \<Rightarrow> nat) \<Rightarrow> ('k, 'v) hashmap \<Rightarrow> nat" where
  "hm_sum f m = sum_list (map (\<lambda>(k, v). f v) m)"

definition opt_sum :: "('v \<Rightarrow> nat) \<Rightarrow> 'v option \<Rightarrow> nat" where
  "opt_sum f x = (case x of None \<Rightarrow> 0 | Some v \<Rightarrow> f v)"

lemma opt_sum_simps [simp]: "opt_sum f None = 0" "opt_sum f (Some v) = f v"
  by (simp_all add: opt_sum_def)

lemma hm_sum_Nil [simp]: "hm_sum f [] = 0"
  by (simp add: hm_sum_def)

lemma hm_sum_Cons [simp]: "hm_sum f (p # m) = f (snd p) + hm_sum f m"
  by (cases p) (simp add: hm_sum_def)

lemma hm_sum_insert: "hm_wf m \<Longrightarrow> hm_sum f (hm_insert k v m) + opt_sum f (hm_get m k) = hm_sum f m + f v"
  unfolding hm_insert_def by (induction m) (auto simp: map_of_eq_None_iff)

lemma hm_sum_member: "hm_get m k = Some v \<Longrightarrow> f v \<le> hm_sum f m"
  by (induction m) (auto split: if_splits)

lemma hm_sum_remove: "hm_wf m \<Longrightarrow> hm_sum f (hm_remove k m) + opt_sum f (hm_get m k) = hm_sum f m"
proof (induction m)
  case (Cons p m)
  have "k \<notin> fst ` set m \<Longrightarrow> AList.delete k m = m"
    by (simp add: AList.delete_id)
  with Cons show ?case
    by (cases p) (auto simp: hm_remove_def AList.delete_eq map_of_eq_None_iff)
qed (simp add: hm_remove_def)

section \<open>Generic contracts\<close>

text \<open>A run of a deterministic step function over a list of events.\<close>

primrec run :: "('s \<Rightarrow> 'e \<Rightarrow> 's) \<Rightarrow> 's \<Rightarrow> 'e list \<Rightarrow> 's" where
  "run step s [] = s"
| "run step s (e # es) = run step (step s e) es"

lemma run_append: "run step s (es @ fs) = run step (run step s es) fs"
  by (induction es arbitrary: s) auto

text \<open>
  The contract of a component whose every operation keeps an invariant; its clients may rely on
  the invariant after any sequence of operations.
\<close>

locale invariant_steps =
  fixes step :: "'s \<Rightarrow> 'e \<Rightarrow> 's"
    and inv :: "'s \<Rightarrow> bool"
  assumes step_inv: "inv s \<Longrightarrow> inv (step s e)"
begin

lemma run_inv: "inv s \<Longrightarrow> inv (run step s es)"
  by (induction es arbitrary: s) (auto intro: step_inv)

end

text \<open>
  The contract of a component with final states: what an observer sees of a final state never
  changes again, whatever operations are still called.
\<close>

locale final_steps =
  fixes step :: "'s \<Rightarrow> 'e \<Rightarrow> 's"
    and final :: "'s \<Rightarrow> bool"
    and obs :: "'s \<Rightarrow> 'o"
  assumes final_step: "final s \<Longrightarrow> final (step s e)"
    and final_obs: "final s \<Longrightarrow> obs (step s e) = obs s"
begin

lemma run_final: "final s \<Longrightarrow> final (run step s es) \<and> obs (run step s es) = obs s"
  by (induction es arbitrary: s) (auto simp: final_step final_obs)

end

text \<open>The contract of a map keyed by names, as the stores and the order book use it.\<close>

locale keyed_map =
  fixes get :: "'m \<Rightarrow> 'k \<Rightarrow> 'v option"
    and insert :: "'k \<Rightarrow> 'v \<Rightarrow> 'm \<Rightarrow> 'm"
    and remove :: "'k \<Rightarrow> 'm \<Rightarrow> 'm"
    and wf :: "'m \<Rightarrow> bool"
  assumes get_insert: "wf m \<Longrightarrow> get (insert k v m) k' = (if k' = k then Some v else get m k')"
    and get_remove: "wf m \<Longrightarrow> get (remove k m) k' = (if k' = k then None else get m k')"
    and wf_insert: "wf m \<Longrightarrow> wf (insert k v m)"
    and wf_remove: "wf m \<Longrightarrow> wf (remove k m)"
begin

lemma insert_then_remove:
  "wf m \<Longrightarrow> get m k = None \<Longrightarrow> get (remove k (insert k v m)) = get m"
  by (rule ext) (simp add: get_remove get_insert wf_insert)

lemma insert_overwrites:
  "wf m \<Longrightarrow> get (insert k v' (insert k v m)) = get (insert k v' m)"
  by (rule ext) (simp add: get_insert wf_insert)

end

interpretation hm: keyed_map map_of hm_insert hm_remove hm_wf
  by unfold_locales (simp_all split: if_splits)

end
