(* ===== verification/Decimal.thy ===== *)
theory Decimal
  imports Rust_Prelude
begin

text \<open>
  Decimal text: \<open>Display\<close> of unsigned integers, the zero-padding format \<open>{:09}\<close>,
  \<open>str::parse\<close> for \<open>u64\<close>, \<open>split\<close> and \<open>trim_end_matches\<close>, with the round trips the
  amount and identifier formats rest on. Strings are the bytes of the UTF-8 text.
\<close>

section \<open>Digits\<close>

definition digit_char :: "nat \<Rightarrow> char" where
  "digit_char d = char_of (48 + d)"

definition is_digit :: "char \<Rightarrow> bool" where
  "is_digit c \<longleftrightarrow> 48 \<le> (of_char c :: nat) \<and> (of_char c :: nat) \<le> 57"

definition digit_val :: "char \<Rightarrow> nat" where
  "digit_val c = of_char c - 48"

lemma digit_char_props [simp]:
  assumes "d < 10"
  shows "is_digit (digit_char d)" and "digit_val (digit_char d) = d"
  using assms by (simp_all add: is_digit_def digit_val_def digit_char_def)

lemma digit_char_inj: "c < 10 \<Longrightarrow> d < 10 \<Longrightarrow> digit_char c = digit_char d \<longleftrightarrow> c = d"
  by (metis digit_char_props(2))

lemma digit_char_0: "digit_char 0 = CHR ''0''"
  by code_simp

text \<open>Marks that are not digits.\<close>

lemma not_digit [simp]:
  "\<not> is_digit CHR ''.''" "\<not> is_digit CHR ''-''" "\<not> is_digit CHR ''+''" "\<not> is_digit CHR '' ''"
  by (simp_all add: is_digit_def)

lemma replicate_numeral_unfold: "replicate (numeral k) x = x # replicate (pred_numeral k) x"
  by (simp add: numeral_eq_Suc)

section \<open>Printing\<close>

fun show_nat :: "nat \<Rightarrow> string" where
  "show_nat n = (if n < 10 then [digit_char n] else show_nat (n div 10) @ [digit_char (n mod 10)])"

declare show_nat.simps [simp del]

text \<open>\<open>{:0<w>}\<close>: pad with zeros on the left to at least \<open>w\<close> characters.\<close>

definition show_padded :: "nat \<Rightarrow> nat \<Rightarrow> string" where
  "show_padded w n = replicate (w - length (show_nat n)) CHR ''0'' @ show_nat n"

section \<open>Parsing\<close>

definition digits_val :: "string \<Rightarrow> nat" where
  "digits_val s = foldl (\<lambda>acc c. acc * 10 + digit_val c) 0 s"

text \<open>
  \<open>u64::from_str\<close>: an optional plus sign, then at least one digit and nothing else, and the
  value must fit.
\<close>

definition parse_u64 :: "string \<Rightarrow> u64 option" where
  "parse_u64 s =
     (let ds = (case s of c # cs \<Rightarrow> if c = CHR ''+'' then cs else s | [] \<Rightarrow> [])
      in if ds \<noteq> [] \<and> list_all is_digit ds \<and> digits_val ds < 2 ^ 64
         then Some (of_nat (digits_val ds)) else None)"

text \<open>\<open>str::split\<close> at a character: never empty, \<open>n\<close> separators give \<open>n + 1\<close> parts.\<close>

fun split_on :: "char \<Rightarrow> string \<Rightarrow> string list" where
  "split_on c [] = [[]]"
| "split_on c (x # xs) =
     (if x = c then [] # split_on c xs
      else (case split_on c xs of [] \<Rightarrow> [[x]] | p # ps \<Rightarrow> (x # p) # ps))"

text \<open>\<open>str::trim_end_matches\<close> for one character.\<close>

definition trim_end :: "char \<Rightarrow> string \<Rightarrow> string" where
  "trim_end c s = rev (dropWhile (\<lambda>x. x = c) (rev s))"

text \<open>Lower-case hexadecimal.\<close>

definition hex_digit :: "nat \<Rightarrow> char" where
  "hex_digit d = (if d < 10 then char_of (48 + d) else char_of (87 + d))"

fun show_hex :: "nat \<Rightarrow> string" where
  "show_hex n = (if n < 16 then [hex_digit n] else show_hex (n div 16) @ [hex_digit (n mod 16)])"

declare show_hex.simps [simp del]

text \<open>\<open>to_lowercase\<close> on ASCII.\<close>

definition to_lower :: "char \<Rightarrow> char" where
  "to_lower c = (if 65 \<le> (of_char c :: nat) \<and> (of_char c :: nat) \<le> 90 then char_of ((of_char c :: nat) + 32) else c)"

text \<open>\<open>char::is_whitespace\<close> on ASCII, and \<open>str::trim\<close>.\<close>

definition is_space :: "char \<Rightarrow> bool" where
  "is_space c \<longleftrightarrow> c = CHR '' '' \<or> (9 \<le> (of_char c :: nat) \<and> (of_char c :: nat) \<le> 13)"

definition trim :: "string \<Rightarrow> string" where
  "trim s = rev (dropWhile is_space (rev (dropWhile is_space s)))"

text \<open>\<open>str::lines\<close> (a final line break ends the last line; a carriage return before a break is dropped).\<close>

fun text_lines_aux :: "string \<Rightarrow> string \<Rightarrow> string list" where
  "text_lines_aux cur [] = (if cur = [] then [] else [rev cur])"
| "text_lines_aux cur (c # cs) =
     (if c = CHR 0x0A
      then rev (if cur \<noteq> [] \<and> hd cur = CHR 0x0D then tl cur else cur) # text_lines_aux [] cs
      else text_lines_aux (c # cur) cs)"

definition text_lines :: "string \<Rightarrow> string list" where
  "text_lines s = text_lines_aux [] s"

text \<open>The items of \<open>split_whitespace\<close>.\<close>

fun words_aux :: "string \<Rightarrow> string \<Rightarrow> string list" where
  "words_aux cur [] = (if cur = [] then [] else [rev cur])"
| "words_aux cur (c # cs) =
     (if is_space c
      then (if cur = [] then words_aux [] cs else rev cur # words_aux [] cs)
      else words_aux (c # cur) cs)"

definition split_whitespace :: "string \<Rightarrow> string list" where
  "split_whitespace s = words_aux [] s"

text \<open>Printing of signed numbers.\<close>

definition show_int :: "int \<Rightarrow> string" where
  "show_int i = (if i < 0 then CHR ''-'' # show_nat (nat (- i)) else show_nat (nat i))"

text \<open>\<open>str::starts_with\<close> and \<open>str::contains\<close>.\<close>

definition has_prefix :: "string \<Rightarrow> string \<Rightarrow> bool" where
  "has_prefix p s \<longleftrightarrow> take (length p) s = p"

fun contains_text :: "string \<Rightarrow> string \<Rightarrow> bool" where
  "contains_text [] t = (t = [])"
| "contains_text (c # cs) t = (take (length t) (c # cs) = t \<or> contains_text cs t)"

lemma digit_not_space: "is_digit c \<Longrightarrow> \<not> is_space c"
  by (auto simp: is_digit_def is_space_def)

lemma contains_set: "contains_text s t \<Longrightarrow> set t \<subseteq> set s"
proof (induction s t rule: contains_text.induct)
  case (2 c cs t)
  have "set t \<subseteq> set (c # cs)" if "take (length t) (c # cs) = t"
    using set_take_subset [of "length t" "c # cs"] that by simp
  with 2 show ?case by auto
qed simp

lemma contains_prefix: "contains_text (t @ v) t"
proof (cases "t @ v")
  case (Cons c cs)
  have "take (length t) (t @ v) = t" by simp
  then show ?thesis unfolding Cons by simp
qed simp

lemma contains_append: "contains_text v t \<Longrightarrow> contains_text (u @ v) t"
  by (induction u) simp_all

lemma trim_id: "s \<noteq> [] \<Longrightarrow> \<not> is_space (hd s) \<Longrightarrow> \<not> is_space (last s) \<Longrightarrow> trim s = s"
  by (simp add: trim_def hd_rev dropWhile_eq_self_iff [THEN iffD2])

section \<open>Round trips\<close>

lemma digits_val_snoc: "digits_val (s @ [c]) = digits_val s * 10 + digit_val c"
  by (simp add: digits_val_def)

lemma digits_val_Nil [simp]: "digits_val [] = 0"
  by (simp add: digits_val_def)

lemma digits_val_append: "digits_val (s @ t) = digits_val s * 10 ^ length t + digits_val t"
proof (induction t rule: rev_induct)
  case (snoc c t)
  have "digits_val (s @ t @ [c]) = digits_val (s @ t) * 10 + digit_val c"
    by (simp only: append_assoc [symmetric] digits_val_snoc)
  then show ?case by (simp add: snoc digits_val_snoc algebra_simps)
qed simp

lemma digits_val_zeros [simp]: "digits_val (replicate n CHR ''0'') = 0"
proof (induction n)
  case (Suc n)
  have "digits_val (replicate (Suc n) CHR ''0'') = digits_val (''0'' @ replicate n CHR ''0'')"
    by simp
  also have "\<dots> = 0"
    unfolding digits_val_append by (simp add: Suc) (simp add: digits_val_def digit_val_def)
  finally show ?case .
qed simp

lemma show_nat_digits: "list_all is_digit (show_nat n)"
  by (induction n rule: show_nat.induct) (subst show_nat.simps, simp)

lemma show_nat_nonempty [simp]: "show_nat n \<noteq> []"
  by (subst show_nat.simps) simp

lemma digits_val_show_nat [simp]: "digits_val (show_nat n) = n"
proof (induction n rule: show_nat.induct)
  case (1 n)
  show ?case
  proof (cases "n < 10")
    case True
    then show ?thesis
      by (subst show_nat.simps) (simp add: digits_val_def)
  next
    case False
    then have "digits_val (show_nat n) = digits_val (show_nat (n div 10)) * 10 + n mod 10"
      by (subst show_nat.simps) (simp add: digits_val_snoc)
    also have "\<dots> = n" using 1 False by simp
    finally show ?thesis .
  qed
qed

lemma inj_show_nat: "inj show_nat"
  by (rule inj_on_inverseI [of _ digits_val]) simp

lemma show_nat_length_le: "n < 10 ^ k \<Longrightarrow> 0 < k \<Longrightarrow> length (show_nat n) \<le> k"
proof (induction n arbitrary: k rule: show_nat.induct)
  case (1 n)
  show ?case
  proof (cases "n < 10")
    case True
    with 1 show ?thesis by (subst show_nat.simps) simp
  next
    case False
    with 1 obtain j where j: "k = Suc j" "0 < j" by (cases k; cases "k - 1"; auto)
    with 1 have "n div 10 < 10 ^ j" by (simp add: less_mult_imp_div_less mult.commute)
    with 1 False j have "length (show_nat (n div 10)) \<le> j" by simp
    with False j show ?thesis by (subst show_nat.simps) simp
  qed
qed

lemma show_nat_head: "show_nat n = c # cs \<Longrightarrow> is_digit c"
  using show_nat_digits [of n] by simp

lemma parse_u64_digits:
  assumes "list_all is_digit s" and "s \<noteq> []" and "digits_val s < 2 ^ 64"
  shows "parse_u64 s = Some (of_nat (digits_val s))"
  using assms by (cases s) (auto simp: parse_u64_def Let_def)

lemma parse_show_u64: "parse_u64 (show_nat (unat (x :: u64))) = Some x"
  using unat_lt_len [of x]
  by (subst parse_u64_digits) (simp_all add: show_nat_digits)

lemma split_on_no_sep: "c \<notin> set s \<Longrightarrow> split_on c s = [s]"
  by (induction s) auto

lemma split_on_one: "c \<notin> set s \<Longrightarrow> c \<notin> set t \<Longrightarrow> split_on c (s @ c # t) = [s, t]"
  by (induction s) (auto simp: split_on_no_sep)

lemma digits_no_dot: "list_all is_digit s \<Longrightarrow> CHR ''.'' \<notin> set s"
  by (induction s) auto

lemma trim_end_append: "\<exists>n. s = trim_end c s @ replicate n c"
proof -
  have "set (takeWhile (\<lambda>x. x = c) (rev s)) \<subseteq> {c}"
    by (auto dest: set_takeWhileD)
  then have "takeWhile (\<lambda>x. x = c) (rev s) = replicate (length (takeWhile (\<lambda>x. x = c) (rev s))) c"
    by (metis replicate_length_same singletonD subsetD)
  moreover have "rev s = takeWhile (\<lambda>x. x = c) (rev s) @ dropWhile (\<lambda>x. x = c) (rev s)"
    by simp
  ultimately show ?thesis
    unfolding trim_end_def by (metis rev_append rev_replicate rev_rev_ident)
qed

end
