(* ===== verification/Molt_Amount.thy ===== *)
theory Molt_Amount
  imports Decimal
begin

text \<open>
  The fixed-point MOLT amount of \<open>crates/molt-core/src/amount.rs\<close> (nano-MOLT in a \<open>u64\<close>) and
  the lamport amount of \<open>crates/molt-token/src/amount.rs\<close>: construction, checked and saturating
  arithmetic, the textual forms and their parser. The conversions of the lamport amount from and
  to \<open>f64\<close> are not modelled.
\<close>

section \<open>Data\<close>

datatype molt_error =
    InvalidAmount string
  | Crypto string
  | InvalidSignature
  | WalletError string
  | PolicyViolation string
  | Serialization string

definition DECIMALS :: nat where
  "DECIMALS = 9"

definition NANO_PER_MOLT :: u64 where
  "NANO_PER_MOLT = 1000000000"

datatype amount = Amount (as_nano: u64)

definition amount_ZERO :: amount where
  "amount_ZERO = Amount 0"

definition amount_MAX :: amount where
  "amount_MAX = Amount u64_max"

section \<open>Construction and arithmetic\<close>

definition from_nano :: "u64 \<Rightarrow> amount" where
  "from_nano n = Amount n"

text \<open>The multiplication of \<open>from_molt\<close> is unchecked: it panics or wraps with the build.\<close>

definition from_molt :: "bool \<Rightarrow> u64 \<Rightarrow> amount option" where
  "from_molt checks molt = map_option Amount (mul_op checks molt NANO_PER_MOLT)"

definition as_molt :: "amount \<Rightarrow> u64" where
  "as_molt a = as_nano a div NANO_PER_MOLT"

definition amount_checked_add :: "amount \<Rightarrow> amount \<Rightarrow> amount option" where
  "amount_checked_add a b =
     (case checked_add (as_nano a) (as_nano b) of Some v \<Rightarrow> Some (Amount v) | None \<Rightarrow> None)"

definition amount_checked_sub :: "amount \<Rightarrow> amount \<Rightarrow> amount option" where
  "amount_checked_sub a b =
     (case checked_sub (as_nano a) (as_nano b) of Some v \<Rightarrow> Some (Amount v) | None \<Rightarrow> None)"

definition amount_checked_mul :: "amount \<Rightarrow> u64 \<Rightarrow> amount option" where
  "amount_checked_mul a k =
     (case checked_mul (as_nano a) k of Some v \<Rightarrow> Some (Amount v) | None \<Rightarrow> None)"

definition amount_checked_div :: "amount \<Rightarrow> u64 \<Rightarrow> amount option" where
  "amount_checked_div a k =
     (case checked_div (as_nano a) k of Some v \<Rightarrow> Some (Amount v) | None \<Rightarrow> None)"

definition amount_is_zero :: "amount \<Rightarrow> bool" where
  "amount_is_zero a \<longleftrightarrow> as_nano a = 0"

section \<open>Text\<close>

definition amount_display :: "amount \<Rightarrow> string" where
  "amount_display a =
     (let whole = as_nano a div NANO_PER_MOLT; frac = as_nano a mod NANO_PER_MOLT
      in show_nat (unat whole) @ ''.'' @ show_padded 9 (unat frac) @ '' MOLT'')"

definition amount_serialize :: "amount \<Rightarrow> string" where
  "amount_serialize a =
     (let whole = as_nano a div NANO_PER_MOLT; frac = as_nano a mod NANO_PER_MOLT
      in if frac = 0 then show_nat (unat whole)
         else show_nat (unat whole) @ ''.'' @ trim_end CHR ''0'' (show_padded 9 (unat frac)))"

text \<open>
  The format \<open>{frac_str:0<9}\<close> pads to nine characters; a character is counted at its first
  byte, which is every byte except the continuation bytes 128 to 191.
\<close>

definition char_count :: "string \<Rightarrow> nat" where
  "char_count s = length (filter (\<lambda>c. (of_char c :: nat) div 64 \<noteq> 2) s)"

definition pad_right_zeros :: "nat \<Rightarrow> string \<Rightarrow> string" where
  "pad_right_zeros w s = s @ replicate (w - char_count s) CHR ''0''"

definition starts_with_minus :: "string \<Rightarrow> bool" where
  "starts_with_minus s = (case s of [] \<Rightarrow> False | c # _ \<Rightarrow> c = CHR ''-'')"

definition from_str :: "string \<Rightarrow> molt_error + amount" where
  "from_str s =
     (if starts_with_minus s then Inl (InvalidAmount ''negative values not allowed'')
      else case split_on CHR ''.'' s of
        [p0] \<Rightarrow>
          (case parse_u64 p0 of
             None \<Rightarrow> Inl (InvalidAmount (''invalid number: '' @ s))
           | Some whole \<Rightarrow>
               (case checked_mul whole NANO_PER_MOLT of
                  None \<Rightarrow> Inl (InvalidAmount ''overflow'')
                | Some v \<Rightarrow> Inr (Amount v)))
      | [p0, frac_str] \<Rightarrow>
          (case (if p0 = [] then Some 0 else parse_u64 p0) of
             None \<Rightarrow> Inl (InvalidAmount (''invalid whole part: '' @ s))
           | Some whole \<Rightarrow>
               if length frac_str > DECIMALS
               then Inl (InvalidAmount ''too many decimal places'')
               else
                 (case parse_u64 (take 9 (pad_right_zeros 9 frac_str)) of
                    None \<Rightarrow> Inl (InvalidAmount (''invalid fractional part: '' @ s))
                  | Some frac \<Rightarrow>
                      (case checked_mul whole NANO_PER_MOLT of
                         None \<Rightarrow> Inl (InvalidAmount ''overflow'')
                       | Some whole_nano \<Rightarrow>
                           (case checked_add whole_nano frac of
                              None \<Rightarrow> Inl (InvalidAmount ''overflow'')
                            | Some v \<Rightarrow> Inr (Amount v)))))
      | _ \<Rightarrow> Inl (InvalidAmount (''invalid format: '' @ s)))"

text \<open>\<open>Deserialize\<close> parses the string the JSON holds and wraps the error.\<close>

definition amount_deserialize :: "string \<Rightarrow> molt_error + amount" where
  "amount_deserialize s = from_str s"

section \<open>The lamport amount of molt-token\<close>

datatype lamport_amount = Lamports (lamports: u64)

definition lamport_ZERO :: lamport_amount where
  "lamport_ZERO = Lamports 0"

definition from_lamports :: "u64 \<Rightarrow> lamport_amount" where
  "from_lamports n = Lamports n"

definition lamport_is_zero :: "lamport_amount \<Rightarrow> bool" where
  "lamport_is_zero a \<longleftrightarrow> lamports a = 0"

definition lamport_saturating_add :: "lamport_amount \<Rightarrow> lamport_amount \<Rightarrow> lamport_amount" where
  "lamport_saturating_add a b = Lamports (saturating_add (lamports a) (lamports b))"

definition lamport_saturating_sub :: "lamport_amount \<Rightarrow> lamport_amount \<Rightarrow> lamport_amount" where
  "lamport_saturating_sub a b = Lamports (saturating_sub (lamports a) (lamports b))"

definition lamport_checked_add :: "lamport_amount \<Rightarrow> lamport_amount \<Rightarrow> lamport_amount option" where
  "lamport_checked_add a b =
     (case checked_add (lamports a) (lamports b) of Some l \<Rightarrow> Some (Lamports l) | None \<Rightarrow> None)"

definition lamport_checked_sub :: "lamport_amount \<Rightarrow> lamport_amount \<Rightarrow> lamport_amount option" where
  "lamport_checked_sub a b =
     (case checked_sub (lamports a) (lamports b) of Some l \<Rightarrow> Some (Lamports l) | None \<Rightarrow> None)"

definition lamport_add :: "bool \<Rightarrow> lamport_amount \<Rightarrow> lamport_amount \<Rightarrow> lamport_amount option" where
  "lamport_add checks a b = map_option Lamports (add_op checks (lamports a) (lamports b))"

definition lamport_sub :: "bool \<Rightarrow> lamport_amount \<Rightarrow> lamport_amount \<Rightarrow> lamport_amount option" where
  "lamport_sub checks a b = map_option Lamports (sub_op checks (lamports a) (lamports b))"

section \<open>Lemmas\<close>

abbreviation nano :: "amount \<Rightarrow> nat" where
  "nano a \<equiv> unat (as_nano a)"

abbreviation lam :: "lamport_amount \<Rightarrow> nat" where
  "lam a \<equiv> unat (lamports a)"

lemma unat_NANO [simp]: "unat NANO_PER_MOLT = 10 ^ 9"
  by (simp add: NANO_PER_MOLT_def)

lemma lam_saturating_sub [simp]: "lam (lamport_saturating_sub a b) = lam a - lam b"
  by (simp add: lamport_saturating_sub_def)

lemma lam_saturating_add:
  "lam (lamport_saturating_add a b) = min (lam a + lam b) (2 ^ 64 - 1)"
  by (simp add: lamport_saturating_add_def unat_saturating_add)

lemma is_digit_below: "is_digit c \<Longrightarrow> (of_char c :: nat) div 64 = 0"
  by (simp add: is_digit_def)

lemma char_count_digits: "list_all is_digit s \<Longrightarrow> char_count s = length s"
  by (induction s) (simp_all add: char_count_def is_digit_below)

lemma pad_right_digits:
  assumes "list_all is_digit f" and "length f \<le> 9"
  shows "take 9 (pad_right_zeros 9 f) = f @ replicate (9 - length f) CHR ''0''"
  using assms by (simp add: pad_right_zeros_def char_count_digits)

lemma list_all_zeros: "list_all is_digit (replicate n CHR ''0'')"
  by (induction n) (simp_all add: is_digit_def)

lemma digits_val_bound: "list_all is_digit s \<Longrightarrow> digits_val s < 10 ^ length s"
proof (induction s rule: rev_induct)
  case (snoc c s)
  then have "digit_val c < 10" by (auto simp: digit_val_def is_digit_def)
  with snoc show ?case by (simp add: digits_val_snoc)
qed simp

text \<open>The value of a fraction's digits, scaled to nine decimals.\<close>

definition frac_nano :: "string \<Rightarrow> nat" where
  "frac_nano f = digits_val f * 10 ^ (9 - length f)"

lemma frac_nano_bound:
  assumes "list_all is_digit f" and "length f \<le> 9"
  shows "frac_nano f < 10 ^ 9"
proof -
  have "frac_nano f < 10 ^ length f * (10 ^ (9 - length f) :: nat)"
    using digits_val_bound [OF assms(1)] by (simp add: frac_nano_def)
  also have "\<dots> = 10 ^ 9"
    using assms(2) by (simp add: power_add [symmetric])
  finally show ?thesis .
qed

lemma parse_padded_fraction:
  assumes "list_all is_digit f" and "length f \<le> 9"
  shows "parse_u64 (take 9 (pad_right_zeros 9 f)) = Some (of_nat (frac_nano f))"
proof -
  let ?p = "f @ replicate (9 - length f) CHR ''0''"
  have v: "digits_val ?p = frac_nano f"
    by (simp add: digits_val_append frac_nano_def)
  have "?p \<noteq> []" using assms(2) by (cases f) auto
  moreover have "digits_val ?p < 2 ^ 64"
    using frac_nano_bound [OF assms] v by simp
  ultimately have "parse_u64 ?p = Some (of_nat (frac_nano f))"
    using assms v by (subst parse_u64_digits) (simp_all add: list_all_zeros)
  then show ?thesis using assms by (simp add: pad_right_digits)
qed

lemma not_minus_digits: "list_all is_digit w \<Longrightarrow> w \<noteq> [] \<Longrightarrow> \<not> starts_with_minus (w @ s)"
  by (cases w) (auto simp: starts_with_minus_def)

text \<open>The parser on decimal text, before the overflow checks are read as a bound.\<close>

lemma from_str_digits:
  assumes "list_all is_digit w" "w \<noteq> []" "digits_val w < 2 ^ 64"
    and "list_all is_digit f" "length f \<le> 9"
  shows "from_str (w @ ''.'' @ f) =
    (case checked_mul (of_nat (digits_val w)) NANO_PER_MOLT of
       None \<Rightarrow> Inl (InvalidAmount ''overflow'')
     | Some whole_nano \<Rightarrow>
         (case checked_add whole_nano (of_nat (frac_nano f)) of
            None \<Rightarrow> Inl (InvalidAmount ''overflow'')
          | Some v \<Rightarrow> Inr (Amount v)))"
proof -
  have "split_on CHR ''.'' (w @ ''.'' @ f) = [w, f]"
    using assms by (simp add: split_on_one digits_no_dot)
  then show ?thesis
    using assms
    by (simp add: from_str_def not_minus_digits parse_u64_digits parse_padded_fraction DECIMALS_def)
qed

lemma from_str_whole:
  assumes "list_all is_digit w" "w \<noteq> []" "digits_val w < 2 ^ 64"
  shows "from_str w =
    (case checked_mul (of_nat (digits_val w)) NANO_PER_MOLT of
       None \<Rightarrow> Inl (InvalidAmount ''overflow'') | Some v \<Rightarrow> Inr (Amount v))"
proof -
  have "split_on CHR ''.'' w = [w]"
    using assms by (simp add: split_on_no_sep digits_no_dot)
  moreover have "\<not> starts_with_minus w"
    using not_minus_digits [OF assms(1,2), of "[]"] by simp
  ultimately show ?thesis
    using assms by (simp add: from_str_def parse_u64_digits)
qed

lemma checked_mul_nano:
  assumes "n < 2 ^ 64"
  shows "checked_mul (of_nat n) NANO_PER_MOLT =
    (if n * 10 ^ 9 < 2 ^ 64 then Some (of_nat (n * 10 ^ 9)) else None)"
  using assms by (simp add: checked_mul_def unat_of_nat) (simp add: NANO_PER_MOLT_def)

lemma checked_add_of_nat:
  assumes "m < 2 ^ 64" and "n < 2 ^ 64"
  shows "checked_add (of_nat m :: u64) (of_nat n) =
    (if m + n < 2 ^ 64 then Some (of_nat (m + n)) else None)"
  using assms by (simp add: checked_add_def unat_of_nat)

lemma from_str_value:
  assumes "list_all is_digit w" "w \<noteq> []" "digits_val w < 2 ^ 64"
    and "list_all is_digit f" "length f \<le> 9"
  defines "v \<equiv> digits_val w * 10 ^ 9 + frac_nano f"
  shows "from_str (w @ ''.'' @ f) =
    (if v < 2 ^ 64 then Inr (Amount (of_nat v)) else Inl (InvalidAmount ''overflow''))"
proof -
  have "frac_nano f < 2 ^ 64"
    using frac_nano_bound [OF assms(4,5)] by simp
  then show ?thesis
    unfolding from_str_digits [OF assms(1-5)] checked_mul_nano [OF assms(3)]
    by (auto simp: checked_add_of_nat v_def simp del: of_nat_add of_nat_mult)
qed

text \<open>The serialised fraction is nine digits with the trailing zeros cut off.\<close>

lemma length_show_padded: "n < 10 ^ 9 \<Longrightarrow> length (show_padded 9 n) = 9"
  using show_nat_length_le [of n 9] by (simp add: show_padded_def)

lemma trimmed_fraction:
  assumes "n < 10 ^ 9"
  defines "f \<equiv> trim_end CHR ''0'' (show_padded 9 n)"
  shows "list_all is_digit f" and "length f \<le> 9" and "frac_nano f = n"
proof -
  obtain k where k: "show_padded 9 n = f @ replicate k CHR ''0''"
    unfolding f_def using trim_end_append by blast
  have "list_all is_digit (show_padded 9 n)"
    by (simp add: show_padded_def show_nat_digits list_all_zeros)
  then show "list_all is_digit f" using k by simp
  have len: "length f + k = 9"
    using length_show_padded [OF assms(1)] k by simp
  then have k9: "9 - length f = k" by simp
  from len show "length f \<le> 9" by simp
  show "frac_nano f = n"
    using arg_cong [OF k, of digits_val]
    by (simp add: frac_nano_def k9 digits_val_append show_padded_def)
qed

lemma word_div_mod_nano:
  "unat (a div NANO_PER_MOLT) = unat a div 10 ^ 9" "unat (a mod NANO_PER_MOLT) = unat a mod 10 ^ 9"
  by (simp_all add: unat_div unat_mod)

section \<open>Properties\<close>

text \<open>
  Serialising an amount to its decimal string and parsing the string back gives the same
  amount, for every one of the 2^64 amounts: no precision is lost and no serialised amount is
  rejected.
\<close>
theorem amount_serde_roundtrip: "amount_deserialize (amount_serialize a) = Inr a"
proof -
  let ?n = "nano a"
  let ?w = "show_nat (?n div 10 ^ 9)"
  let ?f = "trim_end CHR ''0'' (show_padded 9 (?n mod 10 ^ 9))"
  have n: "?n < 2 ^ 64" using unat_lt_len [of "as_nano a"] by simp
  then have w: "list_all is_digit ?w" "?w \<noteq> []" "digits_val ?w < 2 ^ 64"
    by (simp_all add: show_nat_digits)
  have frac: "as_nano a mod NANO_PER_MOLT = 0 \<longleftrightarrow> ?n mod 10 ^ 9 = 0"
    by (simp add: unat_eq_0 [symmetric] word_div_mod_nano)
  have sum: "?n div 10 ^ 9 * 10 ^ 9 + ?n mod 10 ^ 9 = ?n" by (rule div_mult_mod_eq)
  show ?thesis
  proof (cases "?n mod 10 ^ 9 = 0")
    case True
    with sum have "?n div 10 ^ 9 * 10 ^ 9 = ?n" by linarith
    with True frac n from_str_whole [OF w] show ?thesis
      by (simp add: amount_deserialize_def amount_serialize_def word_div_mod_nano
          checked_mul_nano del: of_nat_mult)
  next
    case False
    have "from_str (?w @ ''.'' @ ?f) = Inr (Amount (of_nat ?n))"
      using trimmed_fraction [of "?n mod 10 ^ 9"] sum n
      by (subst from_str_value [OF w]) simp_all
    with False frac show ?thesis
      by (simp add: amount_deserialize_def amount_serialize_def word_div_mod_nano)
  qed
qed

text \<open>
  On decimal text \<open>w.f\<close> (digits only, at most nine of them after the point) the parser
  computes exactly \<open>w * 10^9 + f * 10^(9 - |f|)\<close> nano-MOLT, and it reports an overflow exactly
  when that value does not fit a \<open>u64\<close>: it never wraps.
\<close>
theorem from_str_decimal:
  assumes "list_all is_digit w" "w \<noteq> []" "digits_val w < 2 ^ 64"
    and "list_all is_digit f" "length f \<le> 9"
  shows "from_str (w @ ''.'' @ f) =
    (let v = digits_val w * 10 ^ 9 + digits_val f * 10 ^ (9 - length f)
     in if v < 2 ^ 64 then Inr (Amount (of_nat v)) else Inl (InvalidAmount ''overflow''))"
  using from_str_value [OF assms] by (simp add: Let_def frac_nano_def)

theorem from_str_decimal_witness:
  "from_str (''12'' @ ''.'' @ ''5'') = Inr (Amount 12500000000)
   \<and> from_str (''18446744074'' @ ''.'' @ ''0'') = Inl (InvalidAmount ''overflow'')"
proof -
  have d: "digits_val ''12'' = 12" "digits_val ''5'' = 5"
    "digits_val ''18446744074'' = 18446744074" "digits_val ''0'' = 0"
    by (simp_all add: digits_val_def digit_val_def)
  show ?thesis
    using from_str_decimal [of "''12''" "''5''"] from_str_decimal [of "''18446744074''" "''0''"]
    by (simp add: d is_digit_def)
qed

text \<open>
  The checked operations of the amount are exact: each returns a value if and only if the
  mathematical result is representable, and then it is that result; division fails only on a
  zero divisor.
\<close>
theorem amount_checked_exact:
  "(amount_checked_add a b = Some c \<longleftrightarrow> nano c = nano a + nano b) \<and>
   (amount_checked_sub a b = Some c \<longleftrightarrow> nano a = nano b + nano c) \<and>
   (amount_checked_mul a k = Some c \<longleftrightarrow> nano c = nano a * unat k) \<and>
   (amount_checked_div a k = Some c \<longleftrightarrow> k \<noteq> 0 \<and> nano c = nano a div unat k)"
proof -
  have b: "nano c < 2 ^ 64" using unat_lt_len [of "as_nano c"] by simp
  have eq: "x = as_nano c \<longleftrightarrow> unat x = nano c" for x by (simp add: word_unat_eq_iff)
  have some: "Amount x = c \<longleftrightarrow> x = as_nano c" for x by (cases c) auto
  show ?thesis
    using b
    by (auto simp: amount_checked_add_def amount_checked_sub_def amount_checked_mul_def
        amount_checked_div_def checked_add_def checked_sub_def checked_mul_def checked_div_def
        some eq unat_add_exact unat_sub_exact unat_mul_exact unat_div word_le_nat_alt)
qed

text \<open>
  The parser is laxer than the decimal format: a sign is accepted in front of the
  fractional digits and shifts their value, and a lone point is read as zero.
\<close>
theorem from_str_lenient:
  "from_str ''1.+5'' = Inr (Amount 1050000000) \<and> from_str ''.'' = Inr (Amount 0)"
  by (simp add: from_str_def parse_u64_def digits_val_def digit_val_def is_digit_def
      pad_right_zeros_def char_count_def checked_mul_def checked_add_def NANO_PER_MOLT_def
      starts_with_minus_def DECIMALS_def replicate_numeral_unfold)

end
