(* ===== verification/Token_Escrow.thy ===== *)
theory Token_Escrow
  imports Molt_Amount
begin

text \<open>
  The escrow of the token layer, \<open>crates/molt-token/src/escrow.rs\<close>: the fee arithmetic in basis
  points with 128-bit intermediates, and the state machine of one escrow. Clock readings
  (\<open>Utc::now()\<close>) and generated identifiers are arguments; time points are integers. The display
  percentage \<open>fee_rate_percent\<close> (an \<open>f64\<close>) is not modelled.
\<close>

section \<open>Fees\<close>

definition MAX_FEE_RATE_BPS :: u32 where
  "MAX_FEE_RATE_BPS = 10000"

definition calculate_fee_lamports :: "u64 \<Rightarrow> u32 \<Rightarrow> u64" where
  "calculate_fee_lamports amount_lamports fee_rate_bps =
     (let amount_wide = (ucast amount_lamports :: u128);
          rate_wide = (ucast fee_rate_bps :: u128);
          fee_wide = amount_wide * rate_wide div ucast MAX_FEE_RATE_BPS
      in ucast fee_wide)"

definition calculate_fee_and_payout :: "u64 \<Rightarrow> u32 \<Rightarrow> u64 \<times> u64" where
  "calculate_fee_and_payout amount_lamports fee_rate_bps =
     (let fee = calculate_fee_lamports amount_lamports fee_rate_bps
      in (fee, saturating_sub amount_lamports fee))"

section \<open>Data\<close>

text \<open>The errors of \<open>crates/molt-token/src/error.rs\<close> that the modelled operations return. The
  two amounts of \<open>InsufficientBalance\<close> are kept in lamports; the code prints them as \<open>f64\<close>.\<close>

datatype token_error =
    InsufficientBalance lamport_amount lamport_amount
  | TransactionNotFound string
  | EscrowError string
  | EscrowNotFound string
  | EscrowFinalized string string
  | NetworkError string

type_synonym time = int

datatype token_escrow_state =
    T_Creating | T_Active | T_Releasing | T_Released | T_Refunding | T_Refunded | T_Disputed | T_Expired

fun is_terminal :: "token_escrow_state \<Rightarrow> bool" where
  "is_terminal s = (s \<in> {T_Released, T_Refunded, T_Expired})"

fun can_release :: "token_escrow_state \<Rightarrow> bool" where
  "can_release s = (s = T_Active)"

fun can_refund :: "token_escrow_state \<Rightarrow> bool" where
  "can_refund s = (s \<in> {T_Active, T_Disputed})"

fun can_dispute :: "token_escrow_state \<Rightarrow> bool" where
  "can_dispute s = (s \<in> {T_Active, T_Releasing, T_Refunding})"

fun show_token_state :: "token_escrow_state \<Rightarrow> string" where
  "show_token_state T_Creating = ''creating''"
| "show_token_state T_Active = ''active''"
| "show_token_state T_Releasing = ''releasing''"
| "show_token_state T_Released = ''released''"
| "show_token_state T_Refunding = ''refunding''"
| "show_token_state T_Refunded = ''refunded''"
| "show_token_state T_Disputed = ''disputed''"
| "show_token_state T_Expired = ''expired''"

record token_escrow =
  te_id :: string
  te_buyer :: string
  te_provider :: string
  te_amount :: lamport_amount
  te_fee_rate_bps :: u32
  te_state :: token_escrow_state
  te_job_id :: string
  te_created_at :: time
  te_updated_at :: time
  te_expires_at :: time
  te_release_signature :: "string option"
  te_refund_signature :: "string option"
  te_dispute_reason :: "string option"

section \<open>Operations\<close>

definition DEFAULT_DURATION_HOURS :: int where
  "DEFAULT_DURATION_HOURS = 24"

definition DEFAULT_FEE_RATE_BPS :: u32 where
  "DEFAULT_FEE_RATE_BPS = 500"

text \<open>Time points and durations are counted in nanoseconds.\<close>

definition hours :: "int \<Rightarrow> time" where
  "hours h = h * 3600 * 1000000000"

definition escrow_new ::
  "string \<Rightarrow> time \<Rightarrow> string \<Rightarrow> string \<Rightarrow> lamport_amount \<Rightarrow> string \<Rightarrow> int option \<Rightarrow> token_escrow" where
  "escrow_new fresh_id now buyer provider amount job_id duration_hours =
     \<lparr>te_id = fresh_id, te_buyer = buyer, te_provider = provider, te_amount = amount,
      te_fee_rate_bps = DEFAULT_FEE_RATE_BPS, te_state = T_Creating, te_job_id = job_id,
      te_created_at = now, te_updated_at = now,
      te_expires_at = now + hours (case duration_hours of Some h \<Rightarrow> h | None \<Rightarrow> DEFAULT_DURATION_HOURS),
      te_release_signature = None, te_refund_signature = None, te_dispute_reason = None\<rparr>"

definition with_fee_rate ::
  "string \<Rightarrow> time \<Rightarrow> string \<Rightarrow> string \<Rightarrow> lamport_amount \<Rightarrow> string \<Rightarrow> int option \<Rightarrow> u32 \<Rightarrow> token_escrow option" where
  "with_fee_rate fresh_id now buyer provider amount job_id duration_hours fee_rate_bps =
     (if fee_rate_bps > MAX_FEE_RATE_BPS then None
      else Some ((escrow_new fresh_id now buyer provider amount job_id duration_hours)
                   \<lparr>te_fee_rate_bps := fee_rate_bps\<rparr>))"

definition network_fee :: "token_escrow \<Rightarrow> lamport_amount" where
  "network_fee e = from_lamports (calculate_fee_lamports (lamports (te_amount e)) (te_fee_rate_bps e))"

definition provider_payout :: "token_escrow \<Rightarrow> lamport_amount" where
  "provider_payout e =
     (let fee_lamports = calculate_fee_lamports (lamports (te_amount e)) (te_fee_rate_bps e)
      in from_lamports (saturating_sub (lamports (te_amount e)) fee_lamports))"

definition te_is_expired :: "time \<Rightarrow> token_escrow \<Rightarrow> bool" where
  "te_is_expired now e \<longleftrightarrow> now > te_expires_at e"

definition activate :: "time \<Rightarrow> token_escrow \<Rightarrow> (token_error, unit, token_escrow) outcome" where
  "activate now e =
     (if te_state e \<noteq> T_Creating
      then (Inl (EscrowError (''cannot activate escrow in state '' @ show_token_state (te_state e))), e)
      else (Inr (), e\<lparr>te_state := T_Active, te_updated_at := now\<rparr>))"

definition start_release :: "time \<Rightarrow> token_escrow \<Rightarrow> (token_error, unit, token_escrow) outcome" where
  "start_release now e =
     (if \<not> can_release (te_state e)
      then (Inl (EscrowFinalized (te_id e) (show_token_state (te_state e))), e)
      else (Inr (), e\<lparr>te_state := T_Releasing, te_updated_at := now\<rparr>))"

definition complete_release ::
  "time \<Rightarrow> string \<Rightarrow> token_escrow \<Rightarrow> (token_error, unit, token_escrow) outcome" where
  "complete_release now signature e =
     (if te_state e \<noteq> T_Releasing
      then (Inl (EscrowError (''cannot complete release in state '' @ show_token_state (te_state e))), e)
      else (Inr (), e\<lparr>te_state := T_Released, te_release_signature := Some signature, te_updated_at := now\<rparr>))"

definition start_refund :: "time \<Rightarrow> token_escrow \<Rightarrow> (token_error, unit, token_escrow) outcome" where
  "start_refund now e =
     (if \<not> can_refund (te_state e)
      then (Inl (EscrowFinalized (te_id e) (show_token_state (te_state e))), e)
      else (Inr (), e\<lparr>te_state := T_Refunding, te_updated_at := now\<rparr>))"

definition complete_refund ::
  "time \<Rightarrow> string \<Rightarrow> token_escrow \<Rightarrow> (token_error, unit, token_escrow) outcome" where
  "complete_refund now signature e =
     (if te_state e \<noteq> T_Refunding
      then (Inl (EscrowError (''cannot complete refund in state '' @ show_token_state (te_state e))), e)
      else (Inr (), e\<lparr>te_state := T_Refunded, te_refund_signature := Some signature, te_updated_at := now\<rparr>))"

definition te_dispute ::
  "time \<Rightarrow> string \<Rightarrow> token_escrow \<Rightarrow> (token_error, unit, token_escrow) outcome" where
  "te_dispute now reason e =
     (if \<not> can_dispute (te_state e)
      then (Inl (EscrowError (''cannot dispute escrow in state '' @ show_token_state (te_state e))), e)
      else (Inr (), e\<lparr>te_state := T_Disputed, te_dispute_reason := Some reason, te_updated_at := now\<rparr>))"

definition mark_expired :: "time \<Rightarrow> token_escrow \<Rightarrow> token_escrow" where
  "mark_expired now e = e\<lparr>te_state := T_Expired, te_updated_at := now\<rparr>"

text \<open>All calls a holder of the escrow can make, as events of one step function.\<close>

datatype token_op =
    Op_activate time
  | Op_start_release time
  | Op_complete_release time string
  | Op_start_refund time
  | Op_complete_refund time string
  | Op_dispute time string
  | Op_mark_expired time

fun token_step :: "token_escrow \<Rightarrow> token_op \<Rightarrow> token_escrow" where
  "token_step e (Op_activate t) = snd (activate t e)"
| "token_step e (Op_start_release t) = snd (start_release t e)"
| "token_step e (Op_complete_release t sig) = snd (complete_release t sig e)"
| "token_step e (Op_start_refund t) = snd (start_refund t e)"
| "token_step e (Op_complete_refund t sig) = snd (complete_refund t sig e)"
| "token_step e (Op_dispute t r) = snd (te_dispute t r e)"
| "token_step e (Op_mark_expired t) = mark_expired t e"

lemmas token_op_defs = activate_def start_release_def complete_release_def start_refund_def
  complete_refund_def te_dispute_def mark_expired_def

section \<open>Invariants\<close>

text \<open>
  A settlement signature is set only on the way into its final state: an escrow carries a
  release signature only if it was released, a refund signature only if it was refunded.
\<close>

definition settlement_inv :: "token_escrow \<Rightarrow> bool" where
  "settlement_inv e \<longleftrightarrow>
     (te_release_signature e \<noteq> None \<longrightarrow> te_state e \<in> {T_Released, T_Expired}) \<and>
     (te_refund_signature e \<noteq> None \<longrightarrow> te_state e \<in> {T_Refunded, T_Expired}) \<and>
     (te_release_signature e = None \<or> te_refund_signature e = None)"

lemma settlement_inv_new: "settlement_inv (escrow_new i t b p a j d)"
  by (simp add: settlement_inv_def escrow_new_def)

interpretation tes: invariant_steps token_step settlement_inv
proof
  fix e op
  assume "settlement_inv e"
  then show "settlement_inv (token_step e op)"
    by (cases op) (auto simp: settlement_inv_def token_op_defs)
qed

text \<open>The terms of the deal never change.\<close>

definition terms :: "token_escrow \<Rightarrow> string \<times> string \<times> string \<times> lamport_amount \<times> u32 \<times> time" where
  "terms e = (te_id e, te_buyer e, te_provider e, te_amount e, te_fee_rate_bps e, te_expires_at e)"

lemma terms_step: "terms (token_step e op) = terms e"
  by (cases op) (auto simp: terms_def token_op_defs)

lemma terms_run: "terms (run token_step e ops) = terms e"
  by (induction ops arbitrary: e) (auto simp: terms_step)

text \<open>Final states: every call except \<open>mark_expired\<close> is rejected there and changes nothing.\<close>

fun guarded :: "token_op \<Rightarrow> bool" where
  "guarded (Op_mark_expired _) = False"
| "guarded _ = True"

definition guarded_step :: "token_escrow \<Rightarrow> token_op \<Rightarrow> token_escrow" where
  "guarded_step e op = (if guarded op then token_step e op else e)"

interpretation tef: final_steps guarded_step "\<lambda>e. is_terminal (te_state e)" "\<lambda>e. e"
proof
  fix e :: token_escrow and op
  assume t: "is_terminal (te_state e)"
  show "guarded_step e op = e"
    using t by (cases op) (auto simp: guarded_step_def token_op_defs)
  then show "is_terminal (te_state (guarded_step e op))" using t by simp
qed

lemma run_guarded: "list_all guarded ops \<Longrightarrow> run token_step e ops = run guarded_step e ops"
  by (induction ops arbitrary: e) (auto simp: guarded_step_def)

section \<open>Fee lemmas\<close>

lemma unat_fee_wide:
  fixes a :: u64 and r :: u32
  shows "unat ((ucast a :: u128) * ucast r div ucast MAX_FEE_RATE_BPS) = unat a * unat r div 10000"
proof -
  have "unat a * unat r < 2 ^ 64 * 2 ^ 32"
    using unat_lt_len [of a] unat_lt_len [of r] by (intro mult_strict_mono) simp_all
  then have "unat a * unat r < 2 ^ LENGTH(128)" by simp
  then have "unat ((ucast a :: u128) * ucast r) = unat a * unat r"
    by (subst unat_mul_exact) (simp_all add: unat_cast_up)
  then show ?thesis by (simp add: unat_div MAX_FEE_RATE_BPS_def)
qed

lemma unat_fee: "unat (calculate_fee_lamports a r) = (unat a * unat r div 10000) mod 2 ^ 64"
  using unat_fee_wide [of a r] by (simp add: calculate_fee_lamports_def Let_def unat_cast)

lemma fee_le:
  assumes "r \<le> MAX_FEE_RATE_BPS"
  shows "unat a * unat r div 10000 \<le> unat (a :: u64)"
proof -
  have "unat r \<le> 10000" using assms by (simp add: word_le_nat_alt MAX_FEE_RATE_BPS_def)
  then have "unat a * unat r div 10000 \<le> unat a * 10000 div 10000"
    by (intro div_le_mono mult_le_mono2)
  then show ?thesis by simp
qed

lemma unat_fee_valid:
  assumes "r \<le> MAX_FEE_RATE_BPS"
  shows "unat (calculate_fee_lamports a r) = unat a * unat r div 10000"
proof -
  have "unat a * unat r div 10000 < 2 ^ 64"
    using fee_le [OF assms, of a] unat_lt_len [of a] by simp
  then show ?thesis by (simp add: unat_fee)
qed

lemma run_te_simps:
  "te_amount (run token_step e ops) = te_amount e"
  "te_fee_rate_bps (run token_step e ops) = te_fee_rate_bps e"
  using terms_run [of e ops] by (simp_all add: terms_def)

section \<open>Properties\<close>

text \<open>
  C4. For every amount and every fee rate up to 100 percent the fee is the exact floor of
  \<open>amount * rate / 10000\<close> (no overflow, although the product can exceed 64 bits) and fee and
  payout add up to the amount: nothing is created or lost in the split.
\<close>
theorem fee_split_exact:
  assumes "fee_rate_bps \<le> MAX_FEE_RATE_BPS"
  shows "unat (calculate_fee_lamports amount fee_rate_bps) = unat amount * unat fee_rate_bps div 10000 \<and>
    (case calculate_fee_and_payout amount fee_rate_bps of
       (fee, payout) \<Rightarrow> unat fee + unat payout = unat amount \<and> fee \<le> amount)"
  using fee_le [OF assms, of amount]
  by (simp add: calculate_fee_and_payout_def Let_def unat_fee_valid [OF assms] word_le_nat_alt)

theorem fee_split_exact_witness:
  "unat (calculate_fee_lamports u64_max 10000) = 18446744073709551615 \<and>
   calculate_fee_and_payout 999 500 = (49, 950)"
proof -
  have r: "(10000 :: u32) \<le> MAX_FEE_RATE_BPS" by (simp add: MAX_FEE_RATE_BPS_def)
  have "calculate_fee_and_payout 999 500 = (49, 950)"
    by (simp add: calculate_fee_and_payout_def calculate_fee_lamports_def MAX_FEE_RATE_BPS_def
        saturating_sub_def)
  then show ?thesis using fee_split_exact [OF r, of u64_max] by simp
qed

text \<open>
  An escrow built with an accepted fee rate splits its amount exactly into the network fee
  and the provider's payout, and it still does after any sequence of calls on it.
\<close>
theorem escrow_fee_conserved:
  assumes "with_fee_rate fresh now buyer provider amount job hrs rate = Some e"
  shows "lam (network_fee (run token_step e ops)) + lam (provider_payout (run token_step e ops)) = lam amount"
proof -
  have rate: "rate \<le> MAX_FEE_RATE_BPS" and e: "te_amount e = amount" "te_fee_rate_bps e = rate"
    using assms by (auto simp: with_fee_rate_def escrow_new_def split: if_splits)
  then show ?thesis
    using fee_le [OF rate, of "lamports amount"]
    by (simp add: network_fee_def provider_payout_def from_lamports_def run_te_simps
        unat_fee_valid [OF rate])
qed

theorem escrow_fee_conserved_witness:
  "lam (network_fee (run token_step (the (with_fee_rate ''e'' 0 ''b'' ''p'' (Lamports 999) ''j'' None 250)) [Op_activate 1]))
   + lam (provider_payout (run token_step (the (with_fee_rate ''e'' 0 ''b'' ''p'' (Lamports 999) ''j'' None 250)) [Op_activate 1])) = 999"
proof -
  have "with_fee_rate ''e'' 0 ''b'' ''p'' (Lamports 999) ''j'' None 250 =
    Some (the (with_fee_rate ''e'' 0 ''b'' ''p'' (Lamports 999) ''j'' None 250))"
    by (simp add: with_fee_rate_def MAX_FEE_RATE_BPS_def)
  from escrow_fee_conserved [OF this, of "[Op_activate 1]"] show ?thesis by simp
qed

text \<open>
  C5. Whatever sequence of calls is made on a new escrow, it never carries both a release and a
  refund signature: the held amount is paid out at most one way. Its parties, amount, fee rate
  and expiry never change.
\<close>
theorem escrow_settles_once:
  "let e = run token_step (escrow_new fresh now buyer provider amount job hrs) ops
   in \<not> (te_release_signature e \<noteq> None \<and> te_refund_signature e \<noteq> None) \<and>
      terms e = terms (escrow_new fresh now buyer provider amount job hrs)"
  using tes.run_inv [OF settlement_inv_new]
  by (simp add: Let_def terms_run settlement_inv_def)

text \<open>
  A released, refunded or expired escrow is final for every guarded call: any sequence of
  activate, release, refund and dispute calls leaves the whole escrow unchanged.
\<close>
theorem terminal_escrow_frozen:
  assumes "is_terminal (te_state e)" and "list_all guarded ops"
  shows "run token_step e ops = e"
  using tef.run_final [OF assms(1)] by (simp add: run_guarded [OF assms(2)])

definition example_escrow :: token_escrow where
  "example_escrow = escrow_new ''e1'' 0 ''buyer'' ''provider'' (Lamports 1000) ''job'' None"

theorem terminal_escrow_frozen_witness:
  "run token_step (example_escrow\<lparr>te_state := T_Released\<rparr>) [Op_start_refund 5, Op_dispute 6 ''late'']
     = example_escrow\<lparr>te_state := T_Released\<rparr>"
  by (rule terminal_escrow_frozen) simp_all

text \<open>
  The exception is \<open>mark_expired\<close>, which has no guard: called on an escrow that was already
  paid out it replaces the state \<open>Released\<close> by \<open>Expired\<close>, so that the escrow reads as expired
  although its release signature is set.
\<close>
theorem mark_expired_overwrites_released:
  "te_state (run token_step example_escrow
       [Op_activate 1, Op_start_release 2, Op_complete_release 3 ''sig'']) = T_Released \<and>
   te_state (run token_step example_escrow
       [Op_activate 1, Op_start_release 2, Op_complete_release 3 ''sig'', Op_mark_expired 4]) = T_Expired"
  by (simp add: token_op_defs example_escrow_def escrow_new_def)

text \<open>
  The arithmetic functions themselves do not enforce the 100 percent cap: for a rate of 200
  percent the fee alone exceeds the amount, against the documented \<open>fee + payout <= amount\<close>.
\<close>
theorem fee_above_cap_overpays:
  "calculate_fee_and_payout 10000 20000 = (20000, 0)"
  by (simp add: calculate_fee_and_payout_def calculate_fee_lamports_def MAX_FEE_RATE_BPS_def
      saturating_sub_def)

end
