(* ===== verification/Token_Client.thy ===== *)
theory Token_Client
  imports Token_Escrow
begin

text \<open>
  The token client with its simulated ledger, \<open>crates/molt-token/src/client.rs\<close>, and the
  transactions of \<open>crates/molt-token/src/transaction.rs\<close>. The ledger sits behind an asynchronous
  mutex; every critical section is one definition, so that the calls made of two critical
  sections (\<open>transfer\<close>, \<open>create_escrow\<close>) can also be interleaved. A wallet is represented by its
  address. Log output is not modelled.
\<close>

section \<open>Transactions\<close>

datatype transaction_status = Pending | Submitted | Processing | Confirmed | Finalized | Failed

fun tx_is_terminal :: "transaction_status \<Rightarrow> bool" where
  "tx_is_terminal s = (s \<in> {Confirmed, Finalized, Failed})"

fun tx_is_success :: "transaction_status \<Rightarrow> bool" where
  "tx_is_success s = (s \<in> {Confirmed, Finalized})"

datatype transaction_type = Transfer | EscrowCreate | EscrowRelease | EscrowRefund | Deposit | Withdraw

record transaction =
  tx_id :: string
  tx_type :: transaction_type
  tx_from :: string
  tx_to :: "string option"
  tx_amount :: lamport_amount
  tx_status :: transaction_status
  tx_signature :: "string option"
  tx_created_at :: time
  tx_updated_at :: time
  tx_error :: "string option"
  tx_escrow_id :: "string option"

definition tx_transfer :: "string \<Rightarrow> time \<Rightarrow> string \<Rightarrow> string \<Rightarrow> lamport_amount \<Rightarrow> transaction" where
  "tx_transfer fresh now from to amount =
     \<lparr>tx_id = fresh, tx_type = Transfer, tx_from = from, tx_to = Some to, tx_amount = amount,
      tx_status = Pending, tx_signature = None, tx_created_at = now, tx_updated_at = now,
      tx_error = None, tx_escrow_id = None\<rparr>"

definition tx_escrow_create :: "string \<Rightarrow> time \<Rightarrow> string \<Rightarrow> lamport_amount \<Rightarrow> string \<Rightarrow> transaction" where
  "tx_escrow_create fresh now from amount escrow_id =
     \<lparr>tx_id = fresh, tx_type = EscrowCreate, tx_from = from, tx_to = None, tx_amount = amount,
      tx_status = Pending, tx_signature = None, tx_created_at = now, tx_updated_at = now,
      tx_error = None, tx_escrow_id = Some escrow_id\<rparr>"

definition tx_escrow_release ::
  "string \<Rightarrow> time \<Rightarrow> string \<Rightarrow> string \<Rightarrow> lamport_amount \<Rightarrow> string \<Rightarrow> transaction" where
  "tx_escrow_release fresh now escrow_address to amount escrow_id =
     \<lparr>tx_id = fresh, tx_type = EscrowRelease, tx_from = escrow_address, tx_to = Some to,
      tx_amount = amount, tx_status = Pending, tx_signature = None, tx_created_at = now,
      tx_updated_at = now, tx_error = None, tx_escrow_id = Some escrow_id\<rparr>"

definition mark_submitted :: "time \<Rightarrow> string \<Rightarrow> transaction \<Rightarrow> transaction" where
  "mark_submitted now signature tx =
     tx\<lparr>tx_status := Submitted, tx_signature := Some signature, tx_updated_at := now\<rparr>"

definition mark_confirmed :: "time \<Rightarrow> transaction \<Rightarrow> transaction" where
  "mark_confirmed now tx = tx\<lparr>tx_status := Confirmed, tx_updated_at := now\<rparr>"

definition mark_finalized :: "time \<Rightarrow> transaction \<Rightarrow> transaction" where
  "mark_finalized now tx = tx\<lparr>tx_status := Finalized, tx_updated_at := now\<rparr>"

definition mark_failed :: "time \<Rightarrow> string \<Rightarrow> transaction \<Rightarrow> transaction" where
  "mark_failed now err tx = tx\<lparr>tx_status := Failed, tx_error := Some err, tx_updated_at := now\<rparr>"

section \<open>The client\<close>

datatype network = Mainnet | Devnet | Testnet | Localnet

record simulated_state =
  accounts :: "(string, lamport_amount) hashmap"
  transactions :: "(string, transaction) hashmap"
  escrows :: "(string, token_escrow) hashmap"

definition empty_state :: simulated_state where
  "empty_state = \<lparr>accounts = [], transactions = [], escrows = []\<rparr>"

definition balance :: "simulated_state \<Rightarrow> string \<Rightarrow> lamport_amount" where
  "balance st address = (case hm_get (accounts st) address of None \<Rightarrow> lamport_ZERO | Some b \<Rightarrow> b)"

text \<open>\<open>entry(..).or_insert(ZERO)\<close> followed by a saturating addition.\<close>

definition credit :: "string \<Rightarrow> lamport_amount \<Rightarrow> simulated_state \<Rightarrow> simulated_state" where
  "credit address amount st =
     st\<lparr>accounts := hm_insert address (lamport_saturating_add (balance st address) amount) (accounts st)\<rparr>"

text \<open>\<open>get_mut\<close> followed by a saturating subtraction: no account, no effect.\<close>

definition debit :: "string \<Rightarrow> lamport_amount \<Rightarrow> simulated_state \<Rightarrow> simulated_state" where
  "debit address amount st =
     (case hm_get (accounts st) address of
        None \<Rightarrow> st
      | Some b \<Rightarrow> st\<lparr>accounts := hm_insert address (lamport_saturating_sub b amount) (accounts st)\<rparr>)"

definition airdrop ::
  "network \<Rightarrow> string \<Rightarrow> lamport_amount \<Rightarrow> simulated_state \<Rightarrow> (token_error, unit, simulated_state) outcome" where
  "airdrop net address amount st =
     (if net = Mainnet then (Inl (NetworkError ''airdrop not available on mainnet''), st)
      else (Inr (), credit address amount st))"

text \<open>The second critical section of \<open>transfer\<close>: it does not look at the balance again.\<close>

definition transfer_commit ::
  "string \<Rightarrow> time \<Rightarrow> time \<Rightarrow> time \<Rightarrow> string \<Rightarrow> string \<Rightarrow> lamport_amount \<Rightarrow> simulated_state
   \<Rightarrow> transaction \<times> simulated_state" where
  "transfer_commit fresh t1 t2 t3 from to amount st =
     (let tx = tx_transfer fresh t1 from to amount;
          st1 = debit from amount st;
          st2 = credit to amount st1;
          tx = mark_finalized t3 (mark_submitted t2 (''sig_'' @ tx_id tx) tx)
      in (tx, st2\<lparr>transactions := hm_insert (tx_id tx) tx (transactions st2)\<rparr>))"

definition transfer ::
  "string \<Rightarrow> time \<Rightarrow> time \<Rightarrow> time \<Rightarrow> string \<Rightarrow> string \<Rightarrow> lamport_amount \<Rightarrow> simulated_state
   \<Rightarrow> (token_error, transaction, simulated_state) outcome" where
  "transfer fresh t1 t2 t3 from to amount st =
     (if lamports (balance st from) < lamports amount
      then (Inl (InsufficientBalance (balance st from) amount), st)
      else (case transfer_commit fresh t1 t2 t3 from to amount st of (tx, st') \<Rightarrow> (Inr tx, st')))"

definition get_transaction :: "string \<Rightarrow> simulated_state \<Rightarrow> token_error + transaction" where
  "get_transaction i st =
     (case hm_get (transactions st) i of Some tx \<Rightarrow> Inr tx | None \<Rightarrow> Inl (TransactionNotFound i))"

definition create_escrow_commit ::
  "string \<Rightarrow> time \<Rightarrow> time \<Rightarrow> string \<Rightarrow> string \<Rightarrow> lamport_amount \<Rightarrow> string \<Rightarrow> simulated_state
   \<Rightarrow> (token_error, token_escrow, simulated_state) outcome" where
  "create_escrow_commit fresh t1 t2 buyer provider amount job_id st =
     (let escrow = escrow_new fresh t1 buyer provider amount job_id None;
          st1 = debit buyer amount st
      in case activate t2 escrow of
           (Inl e, _) \<Rightarrow> (Inl e, st1)
         | (Inr _, escrow') \<Rightarrow>
             (Inr escrow', st1\<lparr>escrows := hm_insert (te_id escrow') escrow' (escrows st1)\<rparr>))"

definition create_escrow ::
  "string \<Rightarrow> time \<Rightarrow> time \<Rightarrow> string \<Rightarrow> string \<Rightarrow> lamport_amount \<Rightarrow> string \<Rightarrow> simulated_state
   \<Rightarrow> (token_error, token_escrow, simulated_state) outcome" where
  "create_escrow fresh t1 t2 buyer provider amount job_id st =
     (if lamports (balance st buyer) < lamports amount
      then (Inl (InsufficientBalance (balance st buyer) amount), st)
      else create_escrow_commit fresh t1 t2 buyer provider amount job_id st)"

definition get_escrow :: "string \<Rightarrow> simulated_state \<Rightarrow> token_error + token_escrow" where
  "get_escrow i st = (case hm_get (escrows st) i of Some e \<Rightarrow> Inr e | None \<Rightarrow> Inl (EscrowNotFound i))"

definition put_escrow :: "string \<Rightarrow> token_escrow \<Rightarrow> simulated_state \<Rightarrow> simulated_state" where
  "put_escrow i e st = st\<lparr>escrows := hm_insert i e (escrows st)\<rparr>"

definition release_escrow ::
  "time \<Rightarrow> time \<Rightarrow> string \<Rightarrow> simulated_state \<Rightarrow> (token_error, token_escrow, simulated_state) outcome" where
  "release_escrow t1 t2 i st =
     (case hm_get (escrows st) i of
        None \<Rightarrow> (Inl (EscrowNotFound i), st)
      | Some escrow \<Rightarrow>
          (case start_release t1 escrow of
             (Inl e, escrow1) \<Rightarrow> (Inl e, put_escrow i escrow1 st)
           | (Inr _, escrow1) \<Rightarrow>
               (let st1 = credit (te_provider escrow1) (provider_payout escrow1) (put_escrow i escrow1 st)
                in case hm_get (escrows st1) i of
                     None \<Rightarrow> (Inl (EscrowNotFound i), st1)
                   | Some escrow2 \<Rightarrow>
                       (case complete_release t2 (''release_'' @ i) escrow2 of
                          (Inl e, escrow3) \<Rightarrow> (Inl e, put_escrow i escrow3 st1)
                        | (Inr _, escrow3) \<Rightarrow> (Inr escrow3, put_escrow i escrow3 st1)))))"

definition refund_escrow ::
  "time \<Rightarrow> time \<Rightarrow> string \<Rightarrow> simulated_state \<Rightarrow> (token_error, token_escrow, simulated_state) outcome" where
  "refund_escrow t1 t2 i st =
     (case hm_get (escrows st) i of
        None \<Rightarrow> (Inl (EscrowNotFound i), st)
      | Some escrow \<Rightarrow>
          (case start_refund t1 escrow of
             (Inl e, escrow1) \<Rightarrow> (Inl e, put_escrow i escrow1 st)
           | (Inr _, escrow1) \<Rightarrow>
               (let st1 = credit (te_buyer escrow1) (te_amount escrow1) (put_escrow i escrow1 st)
                in case hm_get (escrows st1) i of
                     None \<Rightarrow> (Inl (EscrowNotFound i), st1)
                   | Some escrow2 \<Rightarrow>
                       (case complete_refund t2 (''refund_'' @ i) escrow2 of
                          (Inl e, escrow3) \<Rightarrow> (Inl e, put_escrow i escrow3 st1)
                        | (Inr _, escrow3) \<Rightarrow> (Inr escrow3, put_escrow i escrow3 st1)))))"

definition list_escrows :: "string \<Rightarrow> simulated_state \<Rightarrow> token_escrow list" where
  "list_escrows address st =
     filter (\<lambda>e. te_buyer e = address \<or> te_provider e = address) (hm_values (escrows st))"

definition list_active_escrows :: "simulated_state \<Rightarrow> token_escrow list" where
  "list_active_escrows st = filter (\<lambda>e. te_state e = T_Active) (hm_values (escrows st))"

section \<open>What the calls do\<close>

lemma put_escrow_same: "hm_get (escrows st) i = Some e \<Longrightarrow> put_escrow i e st = st"
  by (simp add: put_escrow_def hm_insert_same)

lemma escrows_credit [simp]: "escrows (credit a x st) = escrows st"
  by (simp add: credit_def)

lemma escrows_debit [simp]: "escrows (debit a x st) = escrows st"
  by (simp add: debit_def split: option.split)

lemma transactions_credit [simp]: "transactions (credit a x st) = transactions st"
  by (simp add: credit_def)

lemma transactions_debit [simp]: "transactions (debit a x st) = transactions st"
  by (simp add: debit_def split: option.split)

lemma put_escrow_simps [simp]:
  "escrows (put_escrow i e st) = hm_insert i e (escrows st)"
  "accounts (put_escrow i e st) = accounts st"
  "transactions (put_escrow i e st) = transactions st"
  by (simp_all add: put_escrow_def)

lemma credit_put [simp]: "credit a x (put_escrow i e st) = put_escrow i e (credit a x st)"
  by (simp add: credit_def put_escrow_def balance_def)

lemma put_put [simp]: "put_escrow i e (put_escrow i e' st) = put_escrow i e st"
  by (simp add: put_escrow_def)

definition released :: "time \<Rightarrow> string \<Rightarrow> token_escrow \<Rightarrow> token_escrow" where
  "released t i e =
     e\<lparr>te_state := T_Released, te_release_signature := Some (''release_'' @ i), te_updated_at := t\<rparr>"

definition refunded :: "time \<Rightarrow> string \<Rightarrow> token_escrow \<Rightarrow> token_escrow" where
  "refunded t i e =
     e\<lparr>te_state := T_Refunded, te_refund_signature := Some (''refund_'' @ i), te_updated_at := t\<rparr>"

text \<open>Each call as one case distinction: what it answers and what it leaves behind.\<close>

lemma release_escrow_eq:
  "release_escrow t1 t2 i st =
     (case hm_get (escrows st) i of
        None \<Rightarrow> (Inl (EscrowNotFound i), st)
      | Some e \<Rightarrow>
          if te_state e = T_Active
          then (Inr (released t2 i e),
                put_escrow i (released t2 i e) (credit (te_provider e) (provider_payout e) st))
          else (Inl (EscrowFinalized (te_id e) (show_token_state (te_state e))), st))"
  by (simp add: release_escrow_def start_release_def complete_release_def released_def Let_def
      provider_payout_def put_escrow_same split: option.split)

lemma refund_escrow_eq:
  "refund_escrow t1 t2 i st =
     (case hm_get (escrows st) i of
        None \<Rightarrow> (Inl (EscrowNotFound i), st)
      | Some e \<Rightarrow>
          if can_refund (te_state e)
          then (Inr (refunded t2 i e),
                put_escrow i (refunded t2 i e) (credit (te_buyer e) (te_amount e) st))
          else (Inl (EscrowFinalized (te_id e) (show_token_state (te_state e))), st))"
  by (simp add: refund_escrow_def start_refund_def complete_refund_def refunded_def Let_def
      put_escrow_same split: option.split)

definition opened :: "string \<Rightarrow> time \<Rightarrow> time \<Rightarrow> string \<Rightarrow> string \<Rightarrow> lamport_amount \<Rightarrow> string \<Rightarrow> token_escrow" where
  "opened fresh t1 t2 buyer provider amount job =
     (escrow_new fresh t1 buyer provider amount job None)\<lparr>te_state := T_Active, te_updated_at := t2\<rparr>"

lemma create_escrow_eq:
  "create_escrow fresh t1 t2 buyer provider amount job st =
     (if lamports (balance st buyer) < lamports amount
      then (Inl (InsufficientBalance (balance st buyer) amount), st)
      else (Inr (opened fresh t1 t2 buyer provider amount job),
            put_escrow fresh (opened fresh t1 t2 buyer provider amount job) (debit buyer amount st)))"
  by (simp add: create_escrow_def create_escrow_commit_def activate_def opened_def escrow_new_def
      put_escrow_def Let_def)

section \<open>Money\<close>

text \<open>The lamports an escrow holds, and all lamports of a ledger.\<close>

definition held :: "token_escrow \<Rightarrow> nat" where
  "held e = (if te_state e \<in> {T_Active, T_Releasing, T_Refunding, T_Disputed} then lam (te_amount e) else 0)"

definition total_lamports :: "simulated_state \<Rightarrow> nat" where
  "total_lamports st = hm_sum lam (accounts st) + hm_sum held (escrows st)"

definition ledger_wf :: "simulated_state \<Rightarrow> bool" where
  "ledger_wf st \<longleftrightarrow> hm_wf (accounts st) \<and> hm_wf (transactions st) \<and> hm_wf (escrows st)"

lemma lam_balance: "lam (balance st a) = opt_sum lam (hm_get (accounts st) a)"
  by (simp add: balance_def lamport_ZERO_def split: option.split)

lemma balance_le_sum: "lam (balance st a) \<le> hm_sum lam (accounts st)"
  by (cases "hm_get (accounts st) a")
    (simp_all add: lam_balance hm_sum_member [where f = lam])

lemma sum_credit:
  assumes "hm_wf (accounts st)"
  shows "hm_sum lam (accounts (credit a x st)) \<le> hm_sum lam (accounts st) + lam x"
    and "hm_sum lam (accounts st) + lam x < 2 ^ 64 \<Longrightarrow>
         hm_sum lam (accounts (credit a x st)) = hm_sum lam (accounts st) + lam x"
proof -
  have eq: "hm_sum lam (accounts (credit a x st)) + lam (balance st a) =
      hm_sum lam (accounts st) + min (lam (balance st a) + lam x) (2 ^ 64 - 1)"
    using hm_sum_insert [OF assms, of lam a "lamport_saturating_add (balance st a) x"]
    by (simp add: credit_def lam_balance lam_saturating_add)
  then show "hm_sum lam (accounts (credit a x st)) \<le> hm_sum lam (accounts st) + lam x"
    by linarith
  assume "hm_sum lam (accounts st) + lam x < 2 ^ 64"
  with balance_le_sum [of st a] have "lam (balance st a) + lam x \<le> 2 ^ 64 - 1" by simp
  with eq show "hm_sum lam (accounts (credit a x st)) = hm_sum lam (accounts st) + lam x"
    by linarith
qed

lemma sum_debit:
  assumes "hm_wf (accounts st)" and "\<not> lamports (balance st a) < lamports x"
  shows "hm_sum lam (accounts (debit a x st)) + lam x = hm_sum lam (accounts st)"
proof (cases "hm_get (accounts st) a")
  case None
  with assms(2) have "lam x = 0"
    by (simp add: balance_def lamport_ZERO_def word_less_nat_alt)
  with None show ?thesis by (simp add: debit_def)
next
  case (Some b)
  with assms(2) have "lam x \<le> lam b" by (simp add: balance_def word_less_nat_alt)
  with Some hm_sum_insert [OF assms(1), of lam a "lamport_saturating_sub b x"] show ?thesis
    by (simp add: debit_def)
qed

lemma wf_credit [simp]: "hm_wf (accounts st) \<Longrightarrow> hm_wf (accounts (credit a x st))"
  by (simp add: credit_def)

lemma wf_debit [simp]: "hm_wf (accounts st) \<Longrightarrow> hm_wf (accounts (debit a x st))"
  by (simp add: debit_def split: option.split)

lemma payout_le: "lam (provider_payout e) \<le> lam (te_amount e)"
  by (simp add: provider_payout_def from_lamports_def)

section \<open>Sequences of calls\<close>

datatype ledger_op =
    L_airdrop string lamport_amount
  | L_transfer string time time time string string lamport_amount
  | L_create_escrow string time time string string lamport_amount string
  | L_release_escrow time time string
  | L_refund_escrow time time string

fun ledger_call :: "network \<Rightarrow> simulated_state \<Rightarrow> ledger_op \<Rightarrow> bool \<times> simulated_state" where
  "ledger_call net st (L_airdrop a x) = map_prod is_ok id (airdrop net a x st)"
| "ledger_call net st (L_transfer i t1 t2 t3 f t x) = map_prod is_ok id (transfer i t1 t2 t3 f t x st)"
| "ledger_call net st (L_create_escrow i t1 t2 b p x j) =
     map_prod is_ok id (create_escrow i t1 t2 b p x j st)"
| "ledger_call net st (L_release_escrow t1 t2 i) = map_prod is_ok id (release_escrow t1 t2 i st)"
| "ledger_call net st (L_refund_escrow t1 t2 i) = map_prod is_ok id (refund_escrow t1 t2 i st)"

definition ledger_step :: "network \<Rightarrow> simulated_state \<Rightarrow> ledger_op \<Rightarrow> simulated_state" where
  "ledger_step net st op = snd (ledger_call net st op)"

text \<open>What a call may mint.\<close>

fun minted :: "network \<Rightarrow> ledger_op \<Rightarrow> nat" where
  "minted net (L_airdrop a x) = (if net = Mainnet then 0 else lam x)"
| "minted net _ = 0"

lemma transfer_commit_state:
  "snd (transfer_commit i t1 t2 t3 f t x st) =
     (credit t x (debit f x st))\<lparr>transactions := hm_insert i
        (mark_finalized t3 (mark_submitted t2 (''sig_'' @ i) (tx_transfer i t1 f t x))) (transactions st)\<rparr>"
  by (simp add: transfer_commit_def Let_def mark_finalized_def mark_submitted_def tx_transfer_def)

lemma ledger_step_wf: "ledger_wf st \<Longrightarrow> ledger_wf (ledger_step net st op)"
  by (cases op)
    (auto simp: ledger_step_def ledger_wf_def airdrop_def transfer_def transfer_commit_def Let_def
      create_escrow_eq release_escrow_eq refund_escrow_eq split: option.split)

interpretation ledger: invariant_steps "ledger_step net" ledger_wf for net
  by unfold_locales (rule ledger_step_wf)

lemma total_put:
  assumes "hm_wf (escrows st)"
  shows "total_lamports (put_escrow i e st) + opt_sum held (hm_get (escrows st) i) = total_lamports st + held e"
  using hm_sum_insert [OF assms, of held i e] by (simp add: total_lamports_def)

lemma total_credit:
  assumes "hm_wf (accounts st)"
  shows "total_lamports (credit a x st) \<le> total_lamports st + lam x"
    and "total_lamports st + lam x < 2 ^ 64 \<Longrightarrow> total_lamports (credit a x st) = total_lamports st + lam x"
  using sum_credit [OF assms, where a = a and x = x] by (simp_all add: total_lamports_def)

lemma total_debit:
  assumes "hm_wf (accounts st)" and "\<not> lamports (balance st a) < lamports x"
  shows "total_lamports (debit a x st) + lam x = total_lamports st"
  using sum_debit [OF assms] by (simp add: total_lamports_def)

lemma total_transactions [simp]: "total_lamports (st\<lparr>transactions := ts\<rparr>) = total_lamports st"
  by (simp add: total_lamports_def)

lemma held_settled [simp]: "held (released t i e) = 0" "held (refunded t i e) = 0"
  by (simp_all add: held_def released_def refunded_def)

lemma held_active: "te_state e \<in> {T_Active, T_Disputed} \<Longrightarrow> held e = lam (te_amount e)"
  by (auto simp: held_def)

lemma held_opened [simp]: "held (opened i t1 t2 b p x j) = lam x"
  by (simp add: held_def opened_def escrow_new_def)

text \<open>Releasing and refunding move what the escrow holds into one account.\<close>

lemma held_le_total: "hm_get (escrows st) i = Some e \<Longrightarrow> held e \<le> total_lamports st"
  by (simp add: total_lamports_def hm_sum_member [where f = held] trans_le_add2)

lemma total_settle:
  assumes wf: "ledger_wf st" and e: "hm_get (escrows st) i = Some e" and s: "held e' = 0"
    and h: "held e = lam (te_amount e)" and x: "lam x \<le> lam (te_amount e)"
  shows "total_lamports (put_escrow i e' (credit a x st)) \<le> total_lamports st"
    and "total_lamports st < 2 ^ 64 \<Longrightarrow>
         total_lamports (put_escrow i e' (credit a x st)) + (lam (te_amount e) - lam x) = total_lamports st"
proof -
  have p: "total_lamports (put_escrow i e' (credit a x st)) + held e = total_lamports (credit a x st)"
    using total_put [of "credit a x st" i e'] wf e s by (simp add: ledger_wf_def)
  show "total_lamports (put_escrow i e' (credit a x st)) \<le> total_lamports st"
    using p total_credit(1) [where st = st and a = a and x = x] wf h x by (simp add: ledger_wf_def)
  assume small: "total_lamports st < 2 ^ 64"
  have "hm_sum lam (accounts st) + lam x < 2 ^ 64"
    using small x h hm_sum_member [OF e, of held] by (simp add: total_lamports_def)
  then have "total_lamports (credit a x st) = total_lamports st + lam x"
    using sum_credit(2) [where st = st and a = a and x = x] wf by (simp add: ledger_wf_def total_lamports_def)
  with p h x show "total_lamports (put_escrow i e' (credit a x st)) + (lam (te_amount e) - lam x) = total_lamports st"
    by linarith
qed

lemma ledger_step_total_le:
  assumes wf: "ledger_wf st"
  shows "total_lamports (ledger_step net st op) \<le> total_lamports st + minted net op"
proof (cases op)
  case (L_airdrop a x)
  then show ?thesis
    using total_credit(1) [of st a x] wf by (simp add: ledger_step_def airdrop_def ledger_wf_def)
next
  case (L_transfer i t1 t2 t3 f t x)
  show ?thesis
  proof (cases "lamports (balance st f) < lamports x")
    case False
    have "total_lamports (credit t x (debit f x st)) \<le> total_lamports st"
      using total_credit(1) [of "debit f x st" t x] total_debit [of st f x] False wf
      by (simp add: ledger_wf_def)
    with False L_transfer show ?thesis
      by (simp add: ledger_step_def transfer_def case_prod_beta transfer_commit_state)
  qed (simp add: L_transfer ledger_step_def transfer_def)
next
  case (L_create_escrow i t1 t2 b p x j)
  show ?thesis
  proof (cases "lamports (balance st b) < lamports x")
    case False
    then show ?thesis
      using total_put [of "debit b x st" i "opened i t1 t2 b p x j"] total_debit [of st b x] wf
      by (simp add: L_create_escrow ledger_step_def create_escrow_eq ledger_wf_def)
  qed (simp add: L_create_escrow ledger_step_def create_escrow_eq)
next
  case (L_release_escrow t1 t2 i)
  have "total_lamports (put_escrow i (released t2 i e) (credit (te_provider e) (provider_payout e) st))
      \<le> total_lamports st"
    if "hm_get (escrows st) i = Some e" "te_state e = T_Active" for e
    by (rule total_settle(1) [OF wf that(1)]) (simp_all add: that(2) payout_le held_active)
  with L_release_escrow show ?thesis
    by (auto simp: ledger_step_def release_escrow_eq split: option.split)
next
  case (L_refund_escrow t1 t2 i)
  have "total_lamports (put_escrow i (refunded t2 i e) (credit (te_buyer e) (te_amount e) st))
      \<le> total_lamports st"
    if "hm_get (escrows st) i = Some e" "can_refund (te_state e)" for e
    by (rule total_settle(1) [OF wf that(1)]) (use that(2) in \<open>auto simp: held_active\<close>)
  with L_refund_escrow show ?thesis
    by (auto simp: ledger_step_def refund_escrow_eq split: option.split)
qed

section \<open>Properties\<close>

text \<open>
  C1. No sequence of ledger calls made one after the other creates money: the lamports in
  accounts and open escrows never exceed what was there plus what was airdropped, whatever the
  calls are, whichever of them fail and whichever identifiers are reused.
\<close>
theorem ledger_never_inflates:
  assumes "ledger_wf st"
  shows "total_lamports (run (ledger_step net) st ops) \<le> total_lamports st + sum_list (map (minted net) ops)"
  using assms
proof (induction ops arbitrary: st)
  case (Cons op ops)
  from ledger_step_wf [OF Cons.prems] Cons.IH
  have "total_lamports (run (ledger_step net) (ledger_step net st op) ops)
      \<le> total_lamports (ledger_step net st op) + sum_list (map (minted net) ops)" by blast
  also have "\<dots> \<le> total_lamports st + minted net op + sum_list (map (minted net) ops)"
    using ledger_step_total_le [OF Cons.prems] by simp
  finally show ?case by simp
qed simp

theorem ledger_never_inflates_witness:
  "total_lamports (run (ledger_step Devnet) empty_state
     [L_airdrop ''b'' (Lamports 100), L_create_escrow ''e'' 0 0 ''b'' ''p'' (Lamports 60) ''j'',
      L_release_escrow 1 1 ''e'']) \<le> 100"
proof -
  have "ledger_wf empty_state" by (simp add: ledger_wf_def empty_state_def)
  from ledger_never_inflates [OF this, of Devnet
      "[L_airdrop ''b'' (Lamports 100), L_create_escrow ''e'' 0 0 ''b'' ''p'' (Lamports 60) ''j'',
        L_release_escrow 1 1 ''e'']"]
  show ?thesis by (simp add: total_lamports_def empty_state_def)
qed

text \<open>
  C2. Below the 64-bit ceiling the accounting is exact: transfers, refunds and escrow creation
  under a fresh identifier keep the total, an airdrop adds exactly its amount, and a successful
  release takes exactly the network fee out of the ledger (the fee is credited to no account).
\<close>
theorem ledger_exact:
  assumes wf: "ledger_wf st" and small: "total_lamports st < 2 ^ 64"
  shows "total_lamports (snd (transfer i t1 t2 t3 f t x st)) = total_lamports st \<and>
    (hm_get (escrows st) j = None \<longrightarrow>
       total_lamports (snd (create_escrow j t1 t2 b p x job st)) = total_lamports st) \<and>
    total_lamports (snd (refund_escrow t1 t2 k st)) = total_lamports st \<and>
    (total_lamports st + lam x < 2 ^ 64 \<longrightarrow> net \<noteq> Mainnet \<longrightarrow>
       total_lamports (snd (airdrop net a x st)) = total_lamports st + lam x) \<and>
    (hm_get (escrows st) k = Some e \<longrightarrow> te_state e = T_Active \<longrightarrow> te_fee_rate_bps e \<le> MAX_FEE_RATE_BPS \<longrightarrow>
       total_lamports (snd (release_escrow t1 t2 k st)) + lam (network_fee e) = total_lamports st)"
proof (intro conjI impI)
  have wfa: "hm_wf (accounts st)" "hm_wf (escrows st)" using wf by (simp_all add: ledger_wf_def)
  show "total_lamports (snd (transfer i t1 t2 t3 f t x st)) = total_lamports st"
    using total_credit(2) [of "debit f x st" x t] total_debit [OF wfa(1), of f x] wfa small
    by (cases "lamports (balance st f) < lamports x")
      (simp_all add: transfer_def case_prod_beta transfer_commit_state)
  show "total_lamports (snd (create_escrow j t1 t2 b p x job st)) = total_lamports st"
    if "hm_get (escrows st) j = None"
    using that total_put [of "debit b x st" j "opened j t1 t2 b p x job"] total_debit [OF wfa(1), of b x] wfa
    by (cases "lamports (balance st b) < lamports x") (simp_all add: create_escrow_eq)
  have "total_lamports (put_escrow k (refunded t2 k e) (credit (te_buyer e) (te_amount e) st)) = total_lamports st"
    if "hm_get (escrows st) k = Some e" "can_refund (te_state e)" for e
    using total_settle(2) [OF wf that(1) held_settled(2) [of t2 k e] held_active order.refl small,
        where a = "te_buyer e"]
      that(2) by auto
  then show "total_lamports (snd (refund_escrow t1 t2 k st)) = total_lamports st"
    by (auto simp: refund_escrow_eq split: option.split)
  show "total_lamports (snd (airdrop net a x st)) = total_lamports st + lam x"
    if "total_lamports st + lam x < 2 ^ 64" "net \<noteq> Mainnet"
    using that total_credit(2) [OF wfa(1), of x a] by (simp add: airdrop_def)
  assume e: "hm_get (escrows st) k = Some e" and act: "te_state e = T_Active"
    and fee: "te_fee_rate_bps e \<le> MAX_FEE_RATE_BPS"
  have "lam (te_amount e) - lam (provider_payout e) = lam (network_fee e)"
    using fee_le [OF fee, of "lamports (te_amount e)"]
    by (simp add: network_fee_def provider_payout_def from_lamports_def unat_fee_valid [OF fee])
  then show "total_lamports (snd (release_escrow t1 t2 k st)) + lam (network_fee e) = total_lamports st"
    using total_settle(2) [OF wf e held_settled(1) [of t2 k e] held_active payout_le small,
        where a = "te_provider e"] act e
    by (simp add: release_escrow_eq)
qed

definition example_ledger :: simulated_state where
  "example_ledger =
     \<lparr>accounts = [(''alice'', Lamports 100), (''bob'', Lamports 5)], transactions = [],
      escrows = [(''e1'', opened ''e1'' 0 0 ''alice'' ''bob'' (Lamports 1000) ''job'')]\<rparr>"

lemma example_ledger_ok: "ledger_wf example_ledger" "total_lamports example_ledger = 1105"
  by (simp_all add: ledger_wf_def example_ledger_def total_lamports_def)

theorem ledger_exact_witness:
  "total_lamports (snd (transfer ''t'' 0 0 0 ''alice'' ''bob'' (Lamports 40) example_ledger)) = 1105 \<and>
   total_lamports (snd (release_escrow 1 1 ''e1'' example_ledger)) + 50 = 1105"
proof -
  let ?e = "opened ''e1'' 0 0 ''alice'' ''bob'' (Lamports 1000) ''job''"
  have e: "hm_get (escrows example_ledger) ''e1'' = Some ?e" "te_state ?e = T_Active"
    "te_fee_rate_bps ?e \<le> MAX_FEE_RATE_BPS"
    by (simp_all add: example_ledger_def opened_def escrow_new_def DEFAULT_FEE_RATE_BPS_def
        MAX_FEE_RATE_BPS_def)
  have fee: "lam (network_fee ?e) = 50"
    by (simp add: network_fee_def from_lamports_def opened_def escrow_new_def DEFAULT_FEE_RATE_BPS_def
        calculate_fee_lamports_def MAX_FEE_RATE_BPS_def)
  have "total_lamports example_ledger < 2 ^ 64" by (simp add: example_ledger_ok)
  note ex = ledger_exact [OF example_ledger_ok(1) this]
  show ?thesis
    using ex [of "''t''" 0 0 0 "''alice''" "''bob''" "Lamports 40"] ex [where k = "''e1''" and e = ?e] e fee
    by (simp add: example_ledger_ok)
qed

text \<open>
  The identifier under which a call opens an escrow: the code draws a fresh UUID for each
  creation. A settled escrow is left alone by every call that does not open one in its place.
\<close>

fun opens :: "string \<Rightarrow> ledger_op \<Rightarrow> bool" where
  "opens i (L_create_escrow j t1 t2 b p x job) = (j = i)"
| "opens i op = False"

definition settled :: "string \<Rightarrow> token_escrow \<Rightarrow> simulated_state \<Rightarrow> bool" where
  "settled i e st \<longleftrightarrow> hm_get (escrows st) i = Some e \<and> te_state e \<in> {T_Released, T_Refunded}"

lemma settled_by_success:
  assumes "release_escrow t1 t2 i st = (Inr e, st') \<or> refund_escrow t1 t2 i st = (Inr e, st')"
  shows "settled i e st'"
  using assms
  by (auto simp: settled_def release_escrow_eq refund_escrow_eq released_def refunded_def
      split: option.splits if_splits)

lemma settled_step:
  assumes "settled i e st" "\<not> opens i op"
  shows "settled i e (ledger_step net st op)"
  using assms
  by (cases op)
    (auto simp: settled_def ledger_step_def airdrop_def transfer_def create_escrow_eq release_escrow_eq
      refund_escrow_eq case_prod_beta transfer_commit_state split: option.splits if_splits)

lemma settled_run:
  assumes "settled i e st" "\<not> list_ex (opens i) ops"
  shows "settled i e (run (ledger_step net) st ops)"
  using assms by (induction ops arbitrary: st) (auto intro: settled_step)

lemma settled_refused:
  assumes "settled i e st"
  shows "\<exists>err. release_escrow t1 t2 i st = (Inl err, st)" "\<exists>err. refund_escrow t1 t2 i st = (Inl err, st)"
  using assms by (auto simp: settled_def release_escrow_eq refund_escrow_eq)

text \<open>
  C3. An escrow is paid out once: after a successful release or refund, and after any further
  ledger calls none of which opens a new escrow under the same identifier (the code draws a fresh
  UUID for each), the escrow is still recorded as it was settled, and every release or refund of
  it is refused and leaves the ledger as it is.
\<close>
theorem no_double_payout:
  assumes "release_escrow t1 t2 i st = (Inr e, st') \<or> refund_escrow t1 t2 i st = (Inr e, st')"
    and "\<not> list_ex (opens i) ops"
  shows "let later = run (ledger_step net) st' ops in hm_get (escrows later) i = Some e \<and>
    (\<exists>err. release_escrow t3 t4 i later = (Inl err, later)) \<and>
    (\<exists>err. refund_escrow t3 t4 i later = (Inl err, later))"
proof -
  have "settled i e (run (ledger_step net) st' ops)"
    by (rule settled_run [OF settled_by_success [OF assms(1)] assms(2)])
  from settled_refused [OF this] this show ?thesis by (simp add: settled_def Let_def)
qed

theorem no_double_payout_witness:
  "let st = snd (release_escrow 1 2 ''e1'' example_ledger);
       later = run (ledger_step Devnet) st
         [L_transfer ''t'' 3 3 3 ''bob'' ''alice'' (Lamports 900), L_refund_escrow 4 4 ''e1'',
          L_create_escrow ''e2'' 5 5 ''alice'' ''bob'' (Lamports 70) ''job'']
   in \<exists>err. refund_escrow 6 6 ''e1'' later = (Inl err, later)"
proof -
  have "release_escrow 1 2 ''e1'' example_ledger =
      (Inr (the (hm_get (escrows (snd (release_escrow 1 2 ''e1'' example_ledger))) ''e1'')),
       snd (release_escrow 1 2 ''e1'' example_ledger))"
    by (simp add: release_escrow_eq example_ledger_def opened_def escrow_new_def)
  from no_double_payout [OF disjI1, OF this, of
      "[L_transfer ''t'' 3 3 3 ''bob'' ''alice'' (Lamports 900), L_refund_escrow 4 4 ''e1'',
        L_create_escrow ''e2'' 5 5 ''alice'' ''bob'' (Lamports 70) ''job'']" Devnet 6 6]
  show ?thesis unfolding Let_def by simp
qed

text \<open>
  C40. A call that returns an error leaves the ledger exactly as it was: balances, escrows and
  the transaction log.
\<close>
theorem failed_call_changes_nothing:
  assumes "fst (ledger_call net st op) = False"
  shows "ledger_step net st op = st"
  using assms
  by (cases op)
    (auto simp: ledger_step_def airdrop_def transfer_def create_escrow_eq release_escrow_eq
      refund_escrow_eq case_prod_beta split: option.splits if_splits)

theorem failed_call_changes_nothing_witness:
  "ledger_step Mainnet example_ledger (L_airdrop ''eve'' (Lamports 7)) = example_ledger"
  by (rule failed_call_changes_nothing) (simp add: airdrop_def)

text \<open>
  The balance check and the debit of \<open>transfer\<close> are separate critical sections. Two transfers
  of the same 100 lamports that both pass the check before either commits both succeed, and the
  ledger holds 200 lamports afterwards: interleaved calls can double-spend.
\<close>
theorem interleaved_transfers_double_spend:
  "let st = \<lparr>accounts = [(''alice'', Lamports 100)], transactions = [], escrows = []\<rparr>;
       st1 = snd (transfer_commit ''t1'' 0 0 0 ''alice'' ''bob'' (Lamports 100) st);
       st2 = snd (transfer_commit ''t2'' 0 0 0 ''alice'' ''carol'' (Lamports 100) st1)
   in \<not> lamports (balance st ''alice'') < 100 \<and> total_lamports st = 100 \<and> total_lamports st2 = 200"
  by (simp add: transfer_commit_state total_lamports_def balance_def debit_def credit_def hm_insert_def
      lamport_saturating_sub_def lamport_saturating_add_def saturating_sub_def saturating_add_def
      lamport_ZERO_def)

end
