(* ===== verification/Market_Escrow.thy ===== *)
theory Market_Escrow
  imports Rust_Prelude
begin

text \<open>
  The escrow account of the marketplace, \<open>crates/molt-market/src/escrow.rs\<close>: who may move the
  funds of a job, in which state, and what the timeout does. Clock readings are arguments; time
  points and durations are integers counted in nanoseconds. Serialisation of durations is not
  modelled.
\<close>

section \<open>Data\<close>

text \<open>The errors of \<open>crates/molt-market/src/error.rs\<close>.\<close>

datatype market_error =
    InsufficientFunds u64 u64
  | OrderNotFound string
  | MarketEscrow string
  | Settlement string
  | InvalidStateTransition string string
  | PaymentError string
  | MarketWallet string
  | Unauthorized string string string
  | EscrowExpired string u64

datatype escrow_state = Created | Funded | Released | Refunded | Disputed | Expired

fun can_transition_to :: "escrow_state \<Rightarrow> escrow_state \<Rightarrow> bool" where
  "can_transition_to Created Funded = True"
| "can_transition_to Funded Released = True"
| "can_transition_to Disputed Released = True"
| "can_transition_to Funded Refunded = True"
| "can_transition_to Disputed Refunded = True"
| "can_transition_to Funded Disputed = True"
| "can_transition_to Funded Expired = True"
| "can_transition_to Disputed Expired = True"
| "can_transition_to _ _ = False"

fun show_escrow_state :: "escrow_state \<Rightarrow> string" where
  "show_escrow_state Created = ''Created''"
| "show_escrow_state Funded = ''Funded''"
| "show_escrow_state Released = ''Released''"
| "show_escrow_state Refunded = ''Refunded''"
| "show_escrow_state Disputed = ''Disputed''"
| "show_escrow_state Expired = ''Expired''"

record escrow_account =
  job_id :: string
  buyer :: string
  provider :: string
  amount :: u64
  state :: escrow_state
  disputed_by :: "string option"
  created_at :: int
  timeout_duration :: int

section \<open>Operations\<close>

definition nanos_per_day :: int where
  "nanos_per_day = 86400 * 1000000000"

definition DEFAULT_TIMEOUT_DAYS :: int where
  "DEFAULT_TIMEOUT_DAYS = 7"

definition with_timeout ::
  "int \<Rightarrow> string \<Rightarrow> string \<Rightarrow> string \<Rightarrow> u64 \<Rightarrow> int \<Rightarrow> escrow_account" where
  "with_timeout now job b p amt timeout =
     \<lparr>job_id = job, buyer = b, provider = p, amount = amt, state = Created, disputed_by = None,
      created_at = now, timeout_duration = timeout\<rparr>"

definition account_new :: "int \<Rightarrow> string \<Rightarrow> string \<Rightarrow> string \<Rightarrow> u64 \<Rightarrow> escrow_account" where
  "account_new now job b p amt =
     with_timeout now job b p amt (DEFAULT_TIMEOUT_DAYS * nanos_per_day)"

definition transition_to :: "escrow_state \<Rightarrow> escrow_account \<Rightarrow> (market_error, unit, escrow_account) outcome" where
  "transition_to target e =
     (if can_transition_to (state e) target then (Inr (), e\<lparr>state := target\<rparr>)
      else (Inl (InvalidStateTransition (show_escrow_state (state e)) (show_escrow_state target)), e))"

definition expires_at :: "escrow_account \<Rightarrow> int" where
  "expires_at e = created_at e + timeout_duration e"

text \<open>\<open>is_expired()\<close> is \<open>is_expired_at(Utc::now())\<close>.\<close>

definition is_expired_at :: "int \<Rightarrow> escrow_account \<Rightarrow> bool" where
  "is_expired_at at_time e \<longleftrightarrow> at_time > created_at e + timeout_duration e"

text \<open>\<open>num_days() as u64\<close>: whole days, rounded towards zero, in two's complement.\<close>

definition timeout_days :: "escrow_account \<Rightarrow> u64" where
  "timeout_days e = of_int (sgn (timeout_duration e) * (\<bar>timeout_duration e\<bar> div nanos_per_day))"

definition expire_at :: "int \<Rightarrow> escrow_account \<Rightarrow> (market_error, unit, escrow_account) outcome" where
  "expire_at at_time e =
     (if state e = Expired then (Inl (EscrowExpired (job_id e) (timeout_days e)), e)
      else if \<not> is_expired_at at_time e then (Inl (MarketEscrow ''escrow has not timed out yet''), e)
      else transition_to Expired e)"

definition expire :: "int \<Rightarrow> escrow_account \<Rightarrow> (market_error, unit, escrow_account) outcome" where
  "expire now e = expire_at now e"

definition check_not_expired :: "int \<Rightarrow> escrow_account \<Rightarrow> market_error + unit" where
  "check_not_expired now e =
     (if state e = Expired then Inl (EscrowExpired (job_id e) (timeout_days e))
      else if is_expired_at now e \<and> state e \<in> {Funded, Disputed}
      then Inl (EscrowExpired (job_id e) (timeout_days e))
      else Inr ())"

definition fund :: "int \<Rightarrow> string \<Rightarrow> escrow_account \<Rightarrow> (market_error, unit, escrow_account) outcome" where
  "fund now caller e =
     (case check_not_expired now e of
        Inl err \<Rightarrow> (Inl err, e)
      | Inr _ \<Rightarrow>
          if caller \<noteq> buyer e
          then (Inl (Unauthorized ''fund escrow'' ''buyer''
                       (if caller = provider e then ''provider'' else ''unknown'')), e)
          else transition_to Funded e)"

definition release :: "int \<Rightarrow> string \<Rightarrow> escrow_account \<Rightarrow> (market_error, unit, escrow_account) outcome" where
  "release now caller e =
     (case check_not_expired now e of
        Inl err \<Rightarrow> (Inl err, e)
      | Inr _ \<Rightarrow>
          if caller \<noteq> buyer e
          then (Inl (Unauthorized ''release escrow'' ''buyer''
                       (if caller = provider e then ''provider'' else ''unknown'')), e)
          else transition_to Released e)"

definition refund :: "int \<Rightarrow> string \<Rightarrow> escrow_account \<Rightarrow> (market_error, unit, escrow_account) outcome" where
  "refund now caller e =
     (case check_not_expired now e of
        Inl err \<Rightarrow> (Inl err, e)
      | Inr _ \<Rightarrow>
          if caller \<noteq> provider e
          then (Inl (Unauthorized ''refund escrow'' ''provider''
                       (if caller = buyer e then ''buyer'' else ''unknown'')), e)
          else transition_to Refunded e)"

definition dispute :: "int \<Rightarrow> string \<Rightarrow> escrow_account \<Rightarrow> (market_error, unit, escrow_account) outcome" where
  "dispute now caller e =
     (case check_not_expired now e of
        Inl err \<Rightarrow> (Inl err, e)
      | Inr _ \<Rightarrow>
          if caller \<noteq> buyer e \<and> caller \<noteq> provider e
          then (Inl (Unauthorized ''dispute escrow'' ''buyer or provider'' ''unknown''), e)
          else transition_to Disputed (e\<lparr>disputed_by := Some caller\<rparr>))"

definition is_finalized :: "escrow_account \<Rightarrow> bool" where
  "is_finalized e \<longleftrightarrow> state e \<in> {Released, Refunded, Expired}"

section \<open>Sequences of calls\<close>

datatype market_op =
    M_fund int string
  | M_release int string
  | M_refund int string
  | M_dispute int string
  | M_expire int

fun market_step :: "escrow_account \<Rightarrow> market_op \<Rightarrow> escrow_account" where
  "market_step e (M_fund now c) = snd (fund now c e)"
| "market_step e (M_release now c) = snd (release now c e)"
| "market_step e (M_refund now c) = snd (refund now c e)"
| "market_step e (M_dispute now c) = snd (dispute now c e)"
| "market_step e (M_expire now) = snd (expire now e)"

lemmas market_op_defs = fund_def release_def refund_def dispute_def expire_def expire_at_def
  transition_to_def check_not_expired_def

lemma can_transition_iff:
  "can_transition_to s t \<longleftrightarrow>
     s = Created \<and> t = Funded \<or> s = Funded \<and> t \<in> {Released, Refunded, Disputed, Expired} \<or>
     s = Disputed \<and> t \<in> {Released, Refunded, Expired}"
  by (cases s; cases t) auto

text \<open>The parties, the amount and the deadline never change.\<close>

definition deal :: "escrow_account \<Rightarrow> string \<times> string \<times> string \<times> u64 \<times> int \<times> int" where
  "deal e = (job_id e, buyer e, provider e, amount e, created_at e, timeout_duration e)"

lemma deal_step [simp]: "deal (market_step e op) = deal e"
  by (cases op) (auto simp: deal_def market_op_defs)

lemma deal_run [simp]: "deal (run market_step e ops) = deal e"
  by (induction ops arbitrary: e) auto

text \<open>A call moves the state along an edge of the transition table, or not at all.\<close>

lemma step_edge: "state (market_step e op) = state e \<or> can_transition_to (state e) (state (market_step e op))"
  by (cases op) (auto simp: market_op_defs)

interpretation mef: final_steps market_step is_finalized "\<lambda>e. (state e, deal e)"
proof
  fix e op
  assume f: "is_finalized e"
  then have "state (market_step e op) = state e"
    using step_edge [of e op] by (auto simp: is_finalized_def can_transition_iff)
  then show "is_finalized (market_step e op)" and "(state (market_step e op), deal (market_step e op)) = (state e, deal e)"
    using f by (simp_all add: is_finalized_def)
qed

text \<open>Progress towards a final state, as a rank that every state change raises.\<close>

fun rank :: "escrow_state \<Rightarrow> nat" where
  "rank Created = 0"
| "rank Funded = 1"
| "rank Disputed = 2"
| "rank _ = 3"

lemma rank_edge: "can_transition_to s t \<Longrightarrow> rank s < rank t"
  by (auto simp: can_transition_iff)

lemma rank_le: "rank s \<le> 3"
  by (cases s) auto

fun state_changes :: "escrow_account \<Rightarrow> market_op list \<Rightarrow> nat" where
  "state_changes e [] = 0"
| "state_changes e (op # ops) =
     (if state (market_step e op) \<noteq> state e then 1 else 0) + state_changes (market_step e op) ops"

lemma state_changes_rank: "state_changes e ops + rank (state e) \<le> rank (state (run market_step e ops))"
proof (induction ops arbitrary: e)
  case (Cons op ops)
  show ?case
    using Cons [of "market_step e op"] step_edge [of e op] rank_edge by fastforce
qed simp

section \<open>Properties\<close>

text \<open>
  C6. Who can move the money. A call that brings an escrow into \<open>Released\<close> is a release by its
  buyer before the deadline; into \<open>Refunded\<close>, a refund by its provider before the deadline; into
  \<open>Disputed\<close>, a dispute by one of the two parties before the deadline; into \<open>Expired\<close>, an
  expiry call after the deadline; and only the buyer funds it.
\<close>
theorem escrow_authorisation:
  assumes "state e \<noteq> s" and "state (market_step e op) = s"
  shows "case s of
      Created \<Rightarrow> False
    | Funded \<Rightarrow> (\<exists>now. op = M_fund now (buyer e) \<and> state e = Created)
    | Released \<Rightarrow> (\<exists>now. op = M_release now (buyer e) \<and> now \<le> expires_at e)
    | Refunded \<Rightarrow> (\<exists>now. op = M_refund now (provider e) \<and> now \<le> expires_at e)
    | Disputed \<Rightarrow> (\<exists>now c. op = M_dispute now c \<and> c \<in> {buyer e, provider e} \<and> now \<le> expires_at e)
    | Expired \<Rightarrow> (\<exists>now. op = M_expire now \<and> expires_at e < now)"
  using assms
  by (cases op; cases s)
    (auto simp: market_op_defs can_transition_iff is_expired_at_def expires_at_def
      split: if_splits sum.splits)

definition example_account :: escrow_account where
  "example_account = with_timeout 0 ''job'' ''buyer'' ''provider'' 500 1000"

theorem escrow_authorisation_witness:
  "\<exists>now. M_release 10 ''buyer'' = M_release now (buyer (example_account\<lparr>state := Funded\<rparr>)) \<and>
     now \<le> expires_at (example_account\<lparr>state := Funded\<rparr>)"
proof -
  let ?e = "example_account\<lparr>state := Funded\<rparr>"
  have "state ?e \<noteq> Released" and "state (market_step ?e (M_release 10 ''buyer'')) = Released"
    by (simp_all add: market_op_defs is_expired_at_def example_account_def with_timeout_def)
  from escrow_authorisation [OF this] show ?thesis by simp
qed

text \<open>
  Funds cannot be locked for ever: once the deadline of a funded or disputed escrow has
  passed, an expiry call by anyone succeeds and ends in \<open>Expired\<close>; before the deadline, or in any
  other state, it fails and changes nothing.
\<close>
theorem expire_complete:
  "expire now e =
     (if state e \<in> {Funded, Disputed} \<and> expires_at e < now then (Inr (), e\<lparr>state := Expired\<rparr>)
      else (fst (expire now e), e)) \<and>
   (is_ok (fst (expire now e)) \<longleftrightarrow> state e \<in> {Funded, Disputed} \<and> expires_at e < now)"
  by (cases "state e") (auto simp: market_op_defs is_expired_at_def expires_at_def)

text \<open>
  Final states are final: whatever calls follow a release, a refund or an expiry, the state,
  the parties and the amount stay as they are.
\<close>
theorem finalized_stays_finalized:
  assumes "is_finalized e"
  shows "state (run market_step e ops) = state e \<and> deal (run market_step e ops) = deal e"
  using mef.run_final [OF assms] by simp

theorem finalized_stays_finalized_witness:
  "state (run market_step (example_account\<lparr>state := Refunded\<rparr>) [M_release 1 ''buyer'', M_expire 5000]) = Refunded"
proof -
  have "is_finalized (example_account\<lparr>state := Refunded\<rparr>)" by (simp add: is_finalized_def)
  from finalized_stays_finalized [OF this, of "[M_release 1 ''buyer'', M_expire 5000]"]
  show ?thesis by (simp del: run.simps)
qed

text \<open>
  C39. The life of an escrow is short: along any sequence of calls its state changes at most
  three times, and every change follows an edge of the transition table.
\<close>
theorem at_most_three_state_changes:
  "state_changes e ops \<le> 3 \<and>
   (state (market_step e op) = state e \<or> can_transition_to (state e) (state (market_step e op)))"
  using state_changes_rank [of e ops] rank_le [of "state (run market_step e ops)"] step_edge
  by auto

text \<open>
  A dispute call that is rejected still writes: when the buyer has disputed and the provider
  disputes again, the second call returns an invalid-transition error and nevertheless replaces
  the recorded initiator, which the field documents as tracking accountability.
\<close>
theorem failed_dispute_overwrites_initiator:
  "let e1 = snd (dispute 10 ''buyer'' (example_account\<lparr>state := Funded\<rparr>))
   in state e1 = Disputed \<and> disputed_by e1 = Some ''buyer'' \<and>
      dispute 20 ''provider'' e1 =
        (Inl (InvalidStateTransition ''Disputed'' ''Disputed''), e1\<lparr>disputed_by := Some ''provider''\<rparr>)"
  by (simp add: market_op_defs is_expired_at_def example_account_def with_timeout_def)

text \<open>
  The expiry check of \<open>fund\<close> only looks at funded and disputed escrows: an escrow whose
  deadline has passed before it was funded can still be funded, and from then on no party can
  release, refund or dispute it.
\<close>
theorem funding_after_deadline:
  assumes "state e = Created" and "expires_at e < now"
  shows "fund now (buyer e) e = (Inr (), e\<lparr>state := Funded\<rparr>) \<and>
    (\<forall>later c. now \<le> later \<longrightarrow>
       fst (release later c (e\<lparr>state := Funded\<rparr>)) = Inl (EscrowExpired (job_id e) (timeout_days e)) \<and>
       fst (refund later c (e\<lparr>state := Funded\<rparr>)) = Inl (EscrowExpired (job_id e) (timeout_days e)) \<and>
       fst (dispute later c (e\<lparr>state := Funded\<rparr>)) = Inl (EscrowExpired (job_id e) (timeout_days e)))"
  using assms
  by (auto simp: market_op_defs is_expired_at_def expires_at_def timeout_days_def)

theorem funding_after_deadline_witness:
  "fund 2000 ''buyer'' example_account = (Inr (), example_account\<lparr>state := Funded\<rparr>)"
  using funding_after_deadline [of example_account 2000]
  by (simp add: example_account_def with_timeout_def expires_at_def)

end
