(* ===== verification/Payment.thy ===== *)
theory Payment
  imports Token_Client Market_Escrow
begin

text \<open>
  The payment service, \<open>crates/molt-market/src/payment.rs\<close>: the bridge from the marketplace's view of
  an escrow (theory \<open>Market_Escrow\<close>) to the token ledger (theory \<open>Token_Client\<close>). The text of a
  token error (its derived \<open>Display\<close>, which prints amounts as floating-point numbers) is the
  parameter \<open>to_string\<close>. The marketplace wallet is stored and never used; it is not modelled.
\<close>

section \<open>Data\<close>

record market_token_escrow =
  mte_id :: string
  mte_job_id :: string
  mte_buyer :: string
  mte_provider :: string
  mte_amount :: lamport_amount
  mte_state :: escrow_state

fun market_state_from :: "token_escrow_state \<Rightarrow> escrow_state" where
  "market_state_from T_Creating = Created"
| "market_state_from T_Active = Funded"
| "market_state_from T_Releasing = Funded"
| "market_state_from T_Released = Released"
| "market_state_from T_Refunding = Funded"
| "market_state_from T_Refunded = Refunded"
| "market_state_from T_Disputed = Disputed"
| "market_state_from T_Expired = Refunded"

definition from_token_escrow :: "token_escrow \<Rightarrow> market_token_escrow" where
  "from_token_escrow e =
     \<lparr>mte_id = te_id e, mte_job_id = te_job_id e, mte_buyer = te_buyer e, mte_provider = te_provider e,
      mte_amount = te_amount e, mte_state = market_state_from (te_state e)\<rparr>"

definition to_escrow_account :: "int \<Rightarrow> market_token_escrow \<Rightarrow> escrow_account" where
  "to_escrow_account now e =
     account_new now (mte_job_id e) (mte_buyer e) (mte_provider e) (lamports (mte_amount e))"

section \<open>Operations\<close>

text \<open>\<open>map_err(|e| MarketError::PaymentError(e.to_string()))\<close>.\<close>

definition payment_err :: "(token_error \<Rightarrow> string) \<Rightarrow> token_error + 'a \<Rightarrow> market_error + 'a" where
  "payment_err to_string r = (case r of Inl e \<Rightarrow> Inl (PaymentError (to_string e)) | Inr v \<Rightarrow> Inr v)"

definition pay_get_balance :: "string \<Rightarrow> simulated_state \<Rightarrow> market_error + lamport_amount" where
  "pay_get_balance address st = Inr (balance st address)"

definition pay_create_escrow ::
  "(token_error \<Rightarrow> string) \<Rightarrow> string \<Rightarrow> time \<Rightarrow> time \<Rightarrow> string \<Rightarrow> string \<Rightarrow> lamport_amount \<Rightarrow> string
   \<Rightarrow> simulated_state \<Rightarrow> (market_error, market_token_escrow, simulated_state) outcome" where
  "pay_create_escrow to_string fresh t1 t2 b p amt job st =
     (case create_escrow fresh t1 t2 b p amt job st of
        (Inl e, st') \<Rightarrow> (Inl (PaymentError (to_string e)), st')
      | (Inr escrow, st') \<Rightarrow>
          (Inr \<lparr>mte_id = te_id escrow, mte_job_id = job, mte_buyer = b, mte_provider = p, mte_amount = amt,
                mte_state = market_state_from (te_state escrow)\<rparr>, st'))"

definition pay_release_escrow ::
  "(token_error \<Rightarrow> string) \<Rightarrow> time \<Rightarrow> time \<Rightarrow> string \<Rightarrow> simulated_state
   \<Rightarrow> (market_error, market_token_escrow, simulated_state) outcome" where
  "pay_release_escrow to_string t1 t2 i st =
     (case release_escrow t1 t2 i st of
        (Inl e, st') \<Rightarrow> (Inl (PaymentError (to_string e)), st')
      | (Inr escrow, st') \<Rightarrow> (Inr (from_token_escrow escrow), st'))"

definition pay_refund_escrow ::
  "(token_error \<Rightarrow> string) \<Rightarrow> time \<Rightarrow> time \<Rightarrow> string \<Rightarrow> simulated_state
   \<Rightarrow> (market_error, market_token_escrow, simulated_state) outcome" where
  "pay_refund_escrow to_string t1 t2 i st =
     (case refund_escrow t1 t2 i st of
        (Inl e, st') \<Rightarrow> (Inl (PaymentError (to_string e)), st')
      | (Inr escrow, st') \<Rightarrow> (Inr (from_token_escrow escrow), st'))"

definition pay_get_escrow ::
  "(token_error \<Rightarrow> string) \<Rightarrow> string \<Rightarrow> simulated_state \<Rightarrow> market_error + market_token_escrow" where
  "pay_get_escrow to_string i st =
     (case get_escrow i st of
        Inl e \<Rightarrow> Inl (PaymentError (to_string e))
      | Inr escrow \<Rightarrow> Inr (from_token_escrow escrow))"

definition pay_airdrop ::
  "(token_error \<Rightarrow> string) \<Rightarrow> network \<Rightarrow> string \<Rightarrow> lamport_amount \<Rightarrow> simulated_state
   \<Rightarrow> (market_error, unit, simulated_state) outcome" where
  "pay_airdrop to_string net address amt st =
     (case airdrop net address amt st of (r, st') \<Rightarrow> (payment_err to_string r, st'))"

section \<open>The marketplace's view of the ledger\<close>

definition market_view :: "simulated_state \<Rightarrow> string \<Rightarrow> escrow_state option" where
  "market_view st i = map_option (\<lambda>e. market_state_from (te_state e)) (hm_get (escrows st) i)"

text \<open>A payment call, with the answer dropped.\<close>

datatype pay_op =
    P_create string time time string string lamport_amount string
  | P_release time time string
  | P_refund time time string
  | P_airdrop network string lamport_amount

fun pay_step :: "simulated_state \<Rightarrow> pay_op \<Rightarrow> simulated_state" where
  "pay_step st (P_create i t1 t2 b p x j) = snd (pay_create_escrow (\<lambda>_. []) i t1 t2 b p x j st)"
| "pay_step st (P_release t1 t2 i) = snd (pay_release_escrow (\<lambda>_. []) t1 t2 i st)"
| "pay_step st (P_refund t1 t2 i) = snd (pay_refund_escrow (\<lambda>_. []) t1 t2 i st)"
| "pay_step st (P_airdrop net a x) = snd (pay_airdrop (\<lambda>_. []) net a x st)"

lemmas pay_defs = pay_create_escrow_def pay_release_escrow_def pay_refund_escrow_def pay_airdrop_def

lemma pay_view_edge:
  assumes "market_view st i = Some s" and "\<forall>i' t1 t2 b p x j. op = P_create i' t1 t2 b p x j \<longrightarrow> i' \<noteq> i"
  shows "\<exists>s'. market_view (pay_step st op) i = Some s' \<and> (s' = s \<or> can_transition_to s s')"
  using assms
  by (cases op)
    (auto simp: market_view_def pay_defs create_escrow_eq release_escrow_eq refund_escrow_eq airdrop_def
      released_def refunded_def split: option.splits if_splits)

section \<open>Properties\<close>

text \<open>
  C10. The ledger simulates the marketplace's state machine: a payment call that does not reuse the
  identifier of an escrow leaves the marketplace's view of that escrow as it is or moves it along
  an edge of the marketplace's own transition table; and a release or refund that succeeds
  returns the escrow with the state the ledger now shows for it.
\<close>
theorem payment_simulates_market:
  assumes "market_view st i = Some s" and "\<forall>i' t1 t2 b p x j. op = P_create i' t1 t2 b p x j \<longrightarrow> i' \<noteq> i"
  shows "(\<exists>s'. market_view (pay_step st op) i = Some s' \<and> (s' = s \<or> can_transition_to s s')) \<and>
    (\<forall>t1 t2 m st'. pay_release_escrow to_string t1 t2 i st = (Inr m, st') \<longrightarrow>
       mte_state m = Released \<and> market_view st' i = Some Released) \<and>
    (\<forall>t1 t2 m st'. pay_refund_escrow to_string t1 t2 i st = (Inr m, st') \<longrightarrow>
       mte_state m = Refunded \<and> market_view st' i = Some Refunded)"
  using pay_view_edge [OF assms]
  by (auto simp: market_view_def pay_defs release_escrow_eq refund_escrow_eq
      released_def refunded_def from_token_escrow_def split: option.splits if_splits)

theorem payment_simulates_market_witness:
  "\<exists>s'. market_view (pay_step example_ledger (P_release 1 2 ''e1'')) ''e1'' = Some s' \<and>
     (s' = Funded \<or> can_transition_to Funded s')"
proof -
  have "market_view example_ledger ''e1'' = Some Funded"
    by (simp add: market_view_def example_ledger_def opened_def)
  from payment_simulates_market [OF this, where op = "P_release 1 2 ''e1''"] show ?thesis by blast
qed

text \<open>
  The conversion to a marketplace account forgets the state: an escrow whose funds the ledger has
  already paid out becomes, by \<open>to_escrow_account\<close>, an account in \<open>Created\<close> with a fresh seven-day timeout,
  which its buyer can fund and release a second time, while the ledger itself refuses to.
\<close>
theorem paid_escrow_reopens:
  "let st = snd (release_escrow 1 2 ''e1'' example_ledger);
       m = from_token_escrow (released 2 ''e1'' (opened ''e1'' 0 0 ''alice'' ''bob'' (Lamports 1000) ''job''));
       acc = to_escrow_account 100 m
   in pay_get_escrow to_string ''e1'' st = Inr m \<and> mte_state m = Released \<and> state acc = Created \<and>
      state (run market_step acc [M_fund 101 ''alice'', M_release 102 ''alice'']) = Released"
  by (simp add: pay_get_escrow_def get_escrow_def release_escrow_eq example_ledger_def opened_def
      escrow_new_def released_def from_token_escrow_def to_escrow_account_def account_new_def
      with_timeout_def market_op_defs is_expired_at_def DEFAULT_TIMEOUT_DAYS_def nanos_per_day_def)

end
