(* ===== verification/Settlement.thy ===== *)
theory Settlement
  imports Market_Escrow
begin

text \<open>
  Settlement of a completed job, \<open>crates/molt-market/src/settlement.rs\<close>: the price of a duration
  at an hourly rate, in 128-bit intermediates with rounding towards the provider, saturated at
  64 bits and capped by the escrow.
\<close>

section \<open>Data\<close>

type_synonym i64 = "64 word"

text \<open>An \<open>i64\<close> is a 64-bit word read by \<^const>\<open>sint\<close>.\<close>

record job_settlement_input =
  input_job_id :: string
  start_time :: i64
  end_time :: i64
  rate_per_hour :: u64
  escrow_amount :: u64

record settlement_result =
  result_job_id :: string
  amount_paid :: u64
  duration_seconds :: u64
  success :: bool

definition SECONDS_PER_HOUR :: u128 where
  "SECONDS_PER_HOUR = 3600"

section \<open>Operations\<close>

definition calculate_payment :: "u64 \<Rightarrow> u64 \<Rightarrow> u64" where
  "calculate_payment dur rate =
     (if dur = 0 \<or> rate = 0 then 0
      else let numerator = (ucast dur :: u128) * ucast rate;
               payment_u128 = (numerator + SECONDS_PER_HOUR - 1) div SECONDS_PER_HOUR
           in if payment_u128 > ucast u64_max then u64_max else ucast payment_u128)"

definition calculate_payment_with_rounding :: "u64 \<Rightarrow> u64 \<Rightarrow> bool \<Rightarrow> u64" where
  "calculate_payment_with_rounding dur rate round_up =
     (if dur = 0 \<or> rate = 0 then 0
      else let numerator = (ucast dur :: u128) * ucast rate;
               payment_u128 =
                 (if round_up then (numerator + SECONDS_PER_HOUR - 1) div SECONDS_PER_HOUR
                  else numerator div SECONDS_PER_HOUR)
           in if payment_u128 > ucast u64_max then u64_max else ucast payment_u128)"

text \<open>Subtraction of \<open>i64\<close> values: it panics on overflow when the build checks, and wraps otherwise.\<close>

definition i64_sub :: "bool \<Rightarrow> i64 \<Rightarrow> i64 \<Rightarrow> i64 option" where
  "i64_sub checks a b =
     (if checks \<and> \<not> (- (2 ^ 63) \<le> sint a - sint b \<and> sint a - sint b < 2 ^ 63) then None
      else Some (a - b))"

text \<open>\<^const>\<open>None\<close> is a panic of \<open>end_time - start_time\<close>.\<close>

definition settle_job :: "bool \<Rightarrow> job_settlement_input \<Rightarrow> (market_error + settlement_result) option" where
  "settle_job checks inp =
     (if sint (end_time inp) < sint (start_time inp)
      then Some (Inl (Settlement ''end time cannot be before start time''))
      else case i64_sub checks (end_time inp) (start_time inp) of
        None \<Rightarrow> None
      | Some dur \<Rightarrow>
          let calculated_payment = calculate_payment dur (rate_per_hour inp)
          in Some (Inr \<lparr>result_job_id = input_job_id inp,
                        amount_paid = min calculated_payment (escrow_amount inp),
                        duration_seconds = dur, success = True\<rparr>))"

section \<open>The arithmetic, read as natural numbers\<close>

text \<open>What the module promises: \<open>ceiling(duration * rate / 3600)\<close>, saturated.\<close>

definition hourly_price :: "nat \<Rightarrow> nat \<Rightarrow> nat" where
  "hourly_price dur rate = (dur * rate + 3599) div 3600"

lemma u64_product: "unat (a :: u64) * unat (b :: u64) \<le> (2 ^ 64 - 1) * (2 ^ 64 - 1)"
  using unat_lt_len [of a] unat_lt_len [of b] by (intro mult_le_mono) simp_all

lemma unat_wide_product:
  "unat ((ucast (a :: u64) :: u128) * ucast (b :: u64)) = unat a * unat b"
  using u64_product [of a b] by (simp add: unat_word_ariths unat_cast_up)

lemma unat_wide_ceiling:
  assumes "0 < unat (a :: u64) * unat (b :: u64)"
  shows "unat ((((ucast a :: u128) * ucast b) + SECONDS_PER_HOUR - 1) div SECONDS_PER_HOUR) =
     hourly_price (unat a) (unat b)"
proof -
  let ?n = "(ucast a :: u128) * ucast b"
  have n: "unat ?n = unat a * unat b" by (rule unat_wide_product)
  have s: "unat (?n + 3600) = unat a * unat b + 3600"
    using u64_product [of a b] by (subst unat_add_exact) (simp_all add: n)
  have "(1 :: u128) \<le> ?n + 3600" by (simp add: word_le_nat_alt s)
  from unat_sub [OF this] have "unat (?n + 3600 - 1) = unat a * unat b + 3599"
    unfolding s by simp
  then show ?thesis by (simp add: SECONDS_PER_HOUR_def hourly_price_def unat_div)
qed

lemma unat_saturate:
  "unat (if p > (ucast u64_max :: u128) then u64_max else ucast p :: u64) = min (unat p) (2 ^ 64 - 1)"
  by (auto simp: word_less_nat_alt unat_cast unat_cast_up)

lemma unat_calculate_payment:
  "unat (calculate_payment dur rate) = min (hourly_price (unat dur) (unat rate)) (2 ^ 64 - 1)"
proof (cases "dur = 0 \<or> rate = 0")
  case True
  then show ?thesis by (auto simp: calculate_payment_def hourly_price_def)
next
  case False
  then have "0 < unat dur * unat rate" by (simp add: unat_gt_0)
  with False show ?thesis
    by (simp only: calculate_payment_def Let_def if_False unat_saturate unat_wide_ceiling)
qed

lemma hourly_price_ceiling: "dur * rate \<le> 3600 * hourly_price dur rate \<and> 3600 * hourly_price dur rate < dur * rate + 3600"
  unfolding hourly_price_def by linarith

text \<open>The wrapped difference of two ordered \<open>i64\<close> values is their exact distance as a \<open>u64\<close>.\<close>

lemma unat_ordered_sub:
  assumes "sint (b :: i64) \<le> sint a"
  shows "int (unat (a - b)) = sint a - sint b"
proof -
  have "sint a < 2 ^ 63" and "- (2 ^ 63) \<le> sint b"
    using sint_lt [of a] sint_ge [of b] by simp_all
  then have m: "(sint a - sint b) mod 2 ^ 64 = sint a - sint b" using assms by simp
  have "uint (a - b) = uint (word_of_int (sint a - sint b) :: i64)" by simp
  also have "\<dots> = sint a - sint b" unfolding uint_word_of_int using m by simp
  finally have "uint (a - b) = sint a - sint b" .
  then show ?thesis by simp
qed


lemma unat_floor_payment:
  "unat (calculate_payment_with_rounding dur rate False) =
     min ((unat dur * unat rate) div 3600) (2 ^ 64 - 1)"
proof (cases "dur = 0 \<or> rate = 0")
  case True
  then show ?thesis by (auto simp: calculate_payment_with_rounding_def)
next
  case False
  then show ?thesis
    by (simp only: calculate_payment_with_rounding_def Let_def if_False unat_saturate
        SECONDS_PER_HOUR_def unat_div unat_wide_product unat_numeral) simp
qed

lemma unat_min_word: "unat (min a b) = min (unat a) (unat (b :: 'a::len word))"
  by (simp add: min_def word_le_nat_alt)

lemma settlement_amount:
  "min (calculate_payment dur rate) escrow =
     of_nat (min (hourly_price (unat dur) (unat rate)) (unat escrow))"
proof -
  have "unat (min (calculate_payment dur rate) escrow) =
      min (hourly_price (unat dur) (unat rate)) (unat escrow)"
    using unat_u64_max [of escrow] by (simp add: unat_min_word unat_calculate_payment)
  then have "of_nat (unat (min (calculate_payment dur rate) escrow)) =
      (of_nat (min (hourly_price (unat dur) (unat rate)) (unat escrow)) :: u64)" by simp
  then show ?thesis unfolding unsigned_of_nat by simp
qed

section \<open>Properties\<close>

text \<open>
  The price is exact: the payment for a duration at an hourly rate is the least whole amount
  that is not below \<open>duration * rate / 3600\<close>, whatever the two 64-bit inputs are, unless that amount
  does not fit in 64 bits, when it is the largest 64-bit value. No intermediate result overflows.
\<close>
theorem payment_is_ceiling:
  "let p = unat (calculate_payment dur rate); exact = unat dur * unat rate
   in (if p = 2 ^ 64 - 1 then 3600 * p < exact + 3600
       else exact \<le> 3600 * p \<and> 3600 * p < exact + 3600) \<and>
      calculate_payment dur rate = calculate_payment_with_rounding dur rate True \<and>
      calculate_payment_with_rounding dur rate False \<le> calculate_payment dur rate"
proof -
  have "hourly_price (unat dur) (unat rate) \<ge> (unat dur * unat rate) div 3600"
    unfolding hourly_price_def by (rule div_le_mono) simp
  then have "calculate_payment_with_rounding dur rate False \<le> calculate_payment dur rate"
    by (simp only: word_le_nat_alt unat_floor_payment unat_calculate_payment)
  moreover have "calculate_payment dur rate = calculate_payment_with_rounding dur rate True"
    by (simp only: calculate_payment_def calculate_payment_with_rounding_def if_True)
  moreover have "if min h (2 ^ 64 - 1) = 2 ^ 64 - 1 then 3600 * min h (2 ^ 64 - 1) < exact + 3600
      else exact \<le> 3600 * min h (2 ^ 64 - 1) \<and> 3600 * min h (2 ^ 64 - 1) < exact + 3600"
    if "exact \<le> 3600 * h \<and> 3600 * h < exact + 3600" for h exact :: nat
    using that by (auto simp: min_def split: if_splits)
  ultimately show ?thesis
    unfolding Let_def unat_calculate_payment using hourly_price_ceiling by blast
qed

lemma settle_job_value:
  "settle_job checks inp =
     (let d = sint (end_time inp) - sint (start_time inp)
      in if d < 0 then Some (Inl (Settlement ''end time cannot be before start time''))
         else if checks \<and> 2 ^ 63 \<le> d then None
         else Some (Inr \<lparr>result_job_id = input_job_id inp,
                         amount_paid = of_nat (min (hourly_price (nat d) (unat (rate_per_hour inp)))
                                                   (unat (escrow_amount inp))),
                         duration_seconds = of_int d, success = True\<rparr>))"
proof (cases "sint (end_time inp) < sint (start_time inp)")
  case True
  then show ?thesis by (simp add: settle_job_def)
next
  case False
  let ?w = "end_time inp - start_time inp" and ?d = "sint (end_time inp) - sint (start_time inp)"
  have d: "int (unat ?w) = ?d" using False by (simp only: unat_ordered_sub)
  then have "nat ?d = unat ?w" by (metis nat_int)
  moreover have "(of_int ?d :: u64) = ?w" by simp
  ultimately show ?thesis using False
    by (simp add: settle_job_def i64_sub_def settlement_amount Let_def not_less)
qed

text \<open>
  C7. Settlement pays what is due and never more than the escrow holds. For times in order, in a
  build without overflow checks the duration is the exact distance of the two time stamps, however
  far they are apart, and the amount paid is the smaller of the exact price and the escrow; a build with
  overflow checks gives the same result when the distance is below \<open>2 ^ 63\<close> seconds and panics
  otherwise; times out of order are an error.
\<close>
theorem settle_job_exact:
  "settle_job checks inp =
     (let d = sint (end_time inp) - sint (start_time inp)
      in if d < 0 then Some (Inl (Settlement ''end time cannot be before start time''))
         else if checks \<and> 2 ^ 63 \<le> d then None
         else Some (Inr \<lparr>result_job_id = input_job_id inp,
                         amount_paid = of_nat (min (hourly_price (nat d) (unat (rate_per_hour inp)))
                                                   (unat (escrow_amount inp))),
                         duration_seconds = of_int d, success = True\<rparr>))"
  by (rule settle_job_value)

end
