(* ===== verification/Order_Book.thy ===== *)
theory Order_Book
  imports Settlement
begin

text \<open>
  The matching engine of the marketplace, \<open>crates/molt-market/src/orderbook.rs\<close>: orders and
  capacity offers keyed by their identifiers, and the ranked list of offers that an order can
  afford. Fresh identifiers and clock readings are arguments.
\<close>

section \<open>Data\<close>

record job_requirements =
  min_gpus :: u32
  gpu_model :: "string option"
  min_memory_gb :: u32
  max_duration_hours :: u32

record job_order =
  order_id :: string
  order_buyer :: string
  requirements :: job_requirements
  max_price :: u64
  order_created_at :: i64

record gpu_capacity =
  count :: u32
  model :: string
  memory_gb :: u32

record capacity_offer =
  offer_id :: string
  offer_provider :: string
  gpus :: gpu_capacity
  price_per_hour :: u64
  reputation :: u32

record order_match =
  match_order_id :: string
  match_offer_id :: string
  score :: u32

record order_book =
  orders :: "(string, job_order) hashmap"
  offers :: "(string, capacity_offer) hashmap"

section \<open>Operations\<close>

definition job_order_new :: "string \<Rightarrow> i64 \<Rightarrow> string \<Rightarrow> job_requirements \<Rightarrow> u64 \<Rightarrow> job_order" where
  "job_order_new uuid now b reqs price =
     \<lparr>order_id = uuid, order_buyer = b, requirements = reqs, max_price = price, order_created_at = now\<rparr>"

definition capacity_offer_new :: "string \<Rightarrow> string \<Rightarrow> gpu_capacity \<Rightarrow> u64 \<Rightarrow> u32 \<Rightarrow> capacity_offer" where
  "capacity_offer_new uuid p g price rep =
     \<lparr>offer_id = uuid, offer_provider = p, gpus = g, price_per_hour = price, reputation = rep\<rparr>"

definition satisfies :: "capacity_offer \<Rightarrow> job_requirements \<Rightarrow> bool" where
  "satisfies off reqs =
     (if count (gpus off) < min_gpus reqs then False
      else if (case gpu_model reqs of Some m \<Rightarrow> model (gpus off) \<noteq> m | None \<Rightarrow> False) then False
      else if memory_gb (gpus off) < min_memory_gb reqs then False
      else True)"

definition order_book_new :: order_book where
  "order_book_new = \<lparr>orders = [], offers = []\<rparr>"

definition insert_order :: "job_order \<Rightarrow> order_book \<Rightarrow> order_book" where
  "insert_order ord b = b\<lparr>orders := hm_insert (order_id ord) ord (orders b)\<rparr>"

definition insert_offer :: "capacity_offer \<Rightarrow> order_book \<Rightarrow> order_book" where
  "insert_offer off b = b\<lparr>offers := hm_insert (offer_id off) off (offers b)\<rparr>"

definition get_order :: "order_book \<Rightarrow> string \<Rightarrow> job_order option" where
  "get_order b oid = hm_get (orders b) oid"

definition get_offer :: "order_book \<Rightarrow> string \<Rightarrow> capacity_offer option" where
  "get_offer b oid = hm_get (offers b) oid"

definition remove_order :: "string \<Rightarrow> order_book \<Rightarrow> job_order option \<times> order_book" where
  "remove_order oid b = (hm_get (orders b) oid, b\<lparr>orders := hm_remove oid (orders b)\<rparr>)"

definition remove_offer :: "string \<Rightarrow> order_book \<Rightarrow> capacity_offer option \<times> order_book" where
  "remove_offer oid b = (hm_get (offers b) oid, b\<lparr>offers := hm_remove oid (offers b)\<rparr>)"

text \<open>
  The filter of \<open>find_matches\<close>: \<open>price_per_hour * u64::from(max_duration_hours) <= max_price\<close>, where
  the product panics on overflow (\<^const>\<open>None\<close>) or wraps, by the build.
\<close>

definition affordable :: "bool \<Rightarrow> job_order \<Rightarrow> capacity_offer \<Rightarrow> bool option" where
  "affordable checks ord off =
     (if satisfies off (requirements ord)
      then map_option (\<lambda>cost. cost \<le> max_price ord)
             (mul_op checks (price_per_hour off) (ucast (max_duration_hours (requirements ord))))
      else Some False)"

text \<open>\<open>reputation.saturating_sub((price_per_hour / 10) as u32)\<close>; the cast truncates.\<close>

definition match_score :: "capacity_offer \<Rightarrow> u32" where
  "match_score off = saturating_sub (reputation off) (ucast (price_per_hour off div 10))"

text \<open>The iterator chain \<open>values().filter(..).map(..).collect()\<close>, which a panic ends.\<close>

fun collect_matches :: "bool \<Rightarrow> job_order \<Rightarrow> string \<Rightarrow> capacity_offer list \<Rightarrow> order_match list option" where
  "collect_matches checks ord oid [] = Some []"
| "collect_matches checks ord oid (off # offs) =
     (case affordable checks ord off of
        None \<Rightarrow> None
      | Some ok \<Rightarrow>
          map_option
            (\<lambda>ms. if ok
                   then \<lparr>match_order_id = oid, match_offer_id = offer_id off, score = match_score off\<rparr> # ms
                   else ms)
            (collect_matches checks ord oid offs))"

text \<open>\<open>sort_by\<close> is stable; \<open>b.score.cmp(&a.score)\<close> sorts in descending order.\<close>

definition sort_matches :: "order_match list \<Rightarrow> order_match list" where
  "sort_matches ms = sort_key (\<lambda>m. - int (unat (score m))) ms"

definition find_matches :: "bool \<Rightarrow> order_book \<Rightarrow> string \<Rightarrow> (market_error + order_match list) option" where
  "find_matches checks b oid =
     (case hm_get (orders b) oid of
        None \<Rightarrow> Some (Inl (OrderNotFound oid))
      | Some ord \<Rightarrow>
          map_option (\<lambda>ms. Inr (sort_matches ms))
            (collect_matches checks ord oid (hm_values (offers b))))"

section \<open>Invariant\<close>

text \<open>Entries are filed under their own identifiers.\<close>

definition book_wf :: "order_book \<Rightarrow> bool" where
  "book_wf b \<longleftrightarrow>
     hm_wf (orders b) \<and> hm_wf (offers b) \<and>
     list_all (\<lambda>(k, ord). order_id ord = k) (orders b) \<and>
     list_all (\<lambda>(k, off). offer_id off = k) (offers b)"

datatype book_op =
    Insert_order job_order
  | Insert_offer capacity_offer
  | Remove_order string
  | Remove_offer string

fun book_step :: "order_book \<Rightarrow> book_op \<Rightarrow> order_book" where
  "book_step b (Insert_order ord) = insert_order ord b"
| "book_step b (Insert_offer off) = insert_offer off b"
| "book_step b (Remove_order oid) = snd (remove_order oid b)"
| "book_step b (Remove_offer oid) = snd (remove_offer oid b)"

lemma hm_insert_all:
  "list_all P m \<Longrightarrow> P (k, v) \<Longrightarrow> list_all P (hm_insert k v m)"
  unfolding hm_insert_def by (induction m) auto

lemma hm_remove_all: "list_all P m \<Longrightarrow> list_all P (hm_remove k m)"
  unfolding hm_remove_def by (auto simp: AList.delete_eq list_all_iff)

interpretation ob: invariant_steps book_step book_wf
proof
  fix b op
  assume "book_wf b"
  then show "book_wf (book_step b op)"
    by (cases op)
      (simp_all add: book_wf_def insert_order_def insert_offer_def remove_order_def remove_offer_def
        hm_insert_all hm_remove_all)
qed

lemma book_wf_new: "book_wf order_book_new"
  by (simp add: book_wf_def order_book_new_def)


section \<open>What the engine collects\<close>

text \<open>The contract of the filter, without machine arithmetic.\<close>

definition suitable :: "job_order \<Rightarrow> capacity_offer \<Rightarrow> bool" where
  "suitable ord off \<longleftrightarrow>
     min_gpus (requirements ord) \<le> count (gpus off) \<and>
     (gpu_model (requirements ord) = None \<or> gpu_model (requirements ord) = Some (model (gpus off))) \<and>
     min_memory_gb (requirements ord) \<le> memory_gb (gpus off) \<and>
     unat (price_per_hour off) * unat (max_duration_hours (requirements ord)) \<le> unat (max_price ord)"

definition cost_fits :: "job_order \<Rightarrow> capacity_offer \<Rightarrow> bool" where
  "cost_fits ord off \<longleftrightarrow>
     unat (price_per_hour off) * unat (max_duration_hours (requirements ord)) < 2 ^ 64"

definition match_of :: "string \<Rightarrow> capacity_offer \<Rightarrow> order_match" where
  "match_of oid off = \<lparr>match_order_id = oid, match_offer_id = offer_id off, score = match_score off\<rparr>"

lemma satisfies_iff:
  "satisfies off reqs \<longleftrightarrow>
     min_gpus reqs \<le> count (gpus off) \<and>
     (gpu_model reqs = None \<or> gpu_model reqs = Some (model (gpus off))) \<and>
     min_memory_gb reqs \<le> memory_gb (gpus off)"
  by (auto simp: satisfies_def not_less split: option.splits)

lemma affordable_fits:
  assumes "cost_fits ord off"
  shows "affordable checks ord off = Some (suitable ord off)"
proof -
  have "unat (price_per_hour off * ucast (max_duration_hours (requirements ord))) =
      unat (price_per_hour off) * unat (max_duration_hours (requirements ord))"
    using assms by (simp add: cost_fits_def unat_mul_exact unat_cast_up)
  with assms show ?thesis
    by (auto simp: affordable_def satisfies_iff suitable_def mul_op_def checked_mul_def cost_fits_def
        word_le_nat_alt unat_cast_up)
qed

lemma collect_matches_fits:
  "list_all (cost_fits ord) offs \<Longrightarrow>
   collect_matches checks ord oid offs = Some (map (match_of oid) (filter (suitable ord) offs))"
  by (induction offs) (auto simp: affordable_fits match_of_def)

text \<open>With overflow checks, a collection that returns has met no overflow.\<close>

lemma affordable_checked:
  assumes "affordable True ord off = Some ok"
  shows "ok = suitable ord off"
proof (cases "cost_fits ord off")
  case True
  with assms show ?thesis by (simp add: affordable_fits)
next
  case False
  with assms show ?thesis
    by (auto simp: affordable_def mul_op_def checked_mul_def cost_fits_def unat_cast_up
        suitable_def satisfies_iff split: if_splits)
qed

lemma collect_matches_checked:
  "collect_matches True ord oid offs = Some ms \<Longrightarrow> ms = map (match_of oid) (filter (suitable ord) offs)"
  by (induction offs arbitrary: ms)
    (auto simp: match_of_def dest!: affordable_checked split: option.splits if_splits)

lemma sort_matches_ranked:
  "sorted_wrt (\<lambda>m m'. score m' \<le> score m) (sort_matches ms)"
proof -
  have "sorted (map (\<lambda>m. - int (unat (score m))) (sort_matches ms))"
    by (simp add: sort_matches_def)
  then show ?thesis by (simp add: sorted_map word_le_def)
qed

lemma mset_sort_matches [simp]: "mset (sort_matches ms) = mset ms"
  by (simp add: sort_matches_def)

lemma mset_values_filter:
  "image_mset f (filter_mset P (mset (hm_values m))) = mset (map f (filter P (hm_values m)))"
  by simp

section \<open>Properties\<close>

text \<open>
  C9. Matching is sound, complete and ranked. For an order whose offered costs all fit in 64 bits, in either
  build, the engine returns, as a multiset, one match for every offer in the book that has the GPUs, the
  model and the memory asked for and whose price over the maximum duration is within the order's
  budget, and no other, in descending order of score.
\<close>
theorem find_matches_correct:
  assumes "get_order b oid = Some ord"
    and "list_all (cost_fits ord) (hm_values (offers b))"
  shows "\<exists>ms. find_matches checks b oid = Some (Inr ms) \<and>
     mset ms = image_mset (match_of oid) (filter_mset (suitable ord) (mset (hm_values (offers b)))) \<and>
     sorted_wrt (\<lambda>m m'. score m' \<le> score m) ms"
  using assms
  by (simp add: find_matches_def get_order_def collect_matches_fits sort_matches_ranked)

definition example_order :: job_order where
  "example_order = job_order_new ''o1'' 0 ''buyer''
     \<lparr>min_gpus = 4, gpu_model = Some ''A100'', min_memory_gb = 80, max_duration_hours = 16\<rparr> 1000"

definition example_offer :: "u64 \<Rightarrow> capacity_offer" where
  "example_offer price = capacity_offer_new ''p1'' ''provider''
     \<lparr>count = 8, model = ''A100'', memory_gb = 80\<rparr> price 850"

theorem find_matches_correct_witness:
  "\<exists>ms. find_matches True (insert_offer (example_offer 50) (insert_order example_order order_book_new)) ''o1'' =
     Some (Inr ms) \<and> mset ms = {#match_of ''o1'' (example_offer 50)#}"
proof -
  let ?b = "insert_offer (example_offer 50) (insert_order example_order order_book_new)"
  have o1: "get_order ?b ''o1'' = Some example_order"
    and o2: "list_all (cost_fits example_order) (hm_values (offers ?b))"
    and o3: "hm_values (offers ?b) = [example_offer 50]"
    and o4: "suitable example_order (example_offer 50)"
    by (simp_all add: get_order_def insert_offer_def insert_order_def order_book_new_def hm_insert_def
        cost_fits_def suitable_def example_order_def example_offer_def job_order_new_def
        capacity_offer_new_def)
  from find_matches_correct [OF o1 o2] show ?thesis unfolding o3 using o4 by auto
qed

text \<open>
  A build that checks overflow never returns a wrong match: whatever the prices are, the search either panics or
  returns exactly the suitable offers.
\<close>
theorem find_matches_checked_sound:
  assumes "get_order b oid = Some ord" and "find_matches True b oid = Some (Inr ms)"
  shows "mset ms = image_mset (match_of oid) (filter_mset (suitable ord) (mset (hm_values (offers b))))"
  using assms
  by (auto simp: find_matches_def get_order_def split: option.splits dest!: collect_matches_checked)

text \<open>
  A build without overflow checks matches an order to an offer it cannot pay: 16 hours at
  \<open>2 ^ 60\<close> tokens an hour wrap to a cost of zero, which is within a budget of 1000, while the
  build with checks panics on the same book.
\<close>
theorem wrapped_cost_matches:
  "let b = insert_offer (example_offer (2 ^ 60)) (insert_order example_order order_book_new)
   in \<not> suitable example_order (example_offer (2 ^ 60)) \<and>
      find_matches False b ''o1'' = Some (Inr [match_of ''o1'' (example_offer (2 ^ 60))]) \<and>
      find_matches True b ''o1'' = None"
  by (simp add: suitable_def find_matches_def insert_offer_def insert_order_def order_book_new_def
      hm_insert_def affordable_def satisfies_def mul_op_def checked_mul_def match_of_def sort_matches_def
      example_order_def example_offer_def job_order_new_def capacity_offer_new_def)

text \<open>
  The ranking is not monotone in the price: the penalty \<open>(price / 10) as u32\<close> is truncated to 32 bits, so of
  two offers with the same reputation the one that costs 42949672960 tokens an hour gets a
  higher score than the one that costs 50.
\<close>
theorem dearer_offer_ranks_higher:
  "price_per_hour (example_offer 50) < price_per_hour (example_offer 42949672960) \<and>
   reputation (example_offer 50) = reputation (example_offer 42949672960) \<and>
   match_score (example_offer 50) < match_score (example_offer 42949672960)"
  by (simp add: example_offer_def capacity_offer_new_def match_score_def saturating_sub_def)

text \<open>
  The books stay filed by identifier: after any sequence of insertions and removals from an
  empty book, the order and the offer found under an identifier carry that identifier, and each is
  found once.
\<close>
theorem book_filed_by_id:
  "book_wf (run book_step order_book_new ops) \<and>
   (get_order (run book_step order_book_new (ops @ [Insert_order ord])) (order_id ord) = Some ord) \<and>
   (get_offer (run book_step order_book_new (ops @ [Remove_offer oid])) oid = None)"
  by (simp add: ob.run_inv book_wf_new run_append get_order_def get_offer_def insert_order_def
      remove_offer_def)

end
