(* ===== verification/Autonomy.thy ===== *)
theory Autonomy
  imports Decimal
begin

text \<open>
  What an agent may do on its own, \<open>crates/molt-agent/src/autonomy/mod.rs\<close>: autonomy modes, policy
  bounds, the evaluation of a proposed action, and the tracker that enforces an hourly spending
  budget. Clock readings are arguments. Floating-point risk scores are not modelled; reading and
  parsing the state file is a parameter (its result is an argument of \<open>try_load_state\<close>).
\<close>

section \<open>Modes, decisions, thresholds\<close>

datatype autonomy_mode = Conservative | Moderate | Aggressive

fun max_auto_approve :: "autonomy_mode \<Rightarrow> u64" where
  "max_auto_approve Conservative = 100"
| "max_auto_approve Moderate = 10000"
| "max_auto_approve Aggressive = 1000000"

fun allows_counter_offers :: "autonomy_mode \<Rightarrow> bool" where
  "allows_counter_offers Conservative = False"
| "allows_counter_offers Moderate = True"
| "allows_counter_offers Aggressive = True"

datatype job_decision =
    Accept
  | Reject string
  | NeedApproval string
  | Counter u64 string

record decision_thresholds =
  max_auto_accept_price :: u64
  th_min_reputation :: u8
  th_max_duration_secs :: u64

fun thresholds_for_mode :: "autonomy_mode \<Rightarrow> decision_thresholds" where
  "thresholds_for_mode Conservative =
     \<lparr>max_auto_accept_price = 100, th_min_reputation = 80, th_max_duration_secs = 600\<rparr>"
| "thresholds_for_mode Moderate =
     \<lparr>max_auto_accept_price = 10000, th_min_reputation = 50, th_max_duration_secs = 3600\<rparr>"
| "thresholds_for_mode Aggressive =
     \<lparr>max_auto_accept_price = 1000000, th_min_reputation = 20, th_max_duration_secs = 86400\<rparr>"

record policy_bounds =
  max_spend_per_action :: u64
  max_spend_per_hour :: u64
  max_concurrent_jobs :: u32
  max_job_duration_secs :: u64
  min_counterparty_reputation :: u8
  allow_new_counterparties :: bool
  allow_price_negotiation :: bool

fun bounds_for_mode :: "autonomy_mode \<Rightarrow> policy_bounds" where
  "bounds_for_mode Conservative =
     \<lparr>max_spend_per_action = 100, max_spend_per_hour = 500, max_concurrent_jobs = 1,
      max_job_duration_secs = 600, min_counterparty_reputation = 80,
      allow_new_counterparties = False, allow_price_negotiation = False\<rparr>"
| "bounds_for_mode Moderate =
     \<lparr>max_spend_per_action = 10000, max_spend_per_hour = 50000, max_concurrent_jobs = 5,
      max_job_duration_secs = 3600, min_counterparty_reputation = 50,
      allow_new_counterparties = True, allow_price_negotiation = True\<rparr>"
| "bounds_for_mode Aggressive =
     \<lparr>max_spend_per_action = 1000000, max_spend_per_hour = 10000000, max_concurrent_jobs = 100,
      max_job_duration_secs = 86400, min_counterparty_reputation = 20,
      allow_new_counterparties = True, allow_price_negotiation = True\<rparr>"

definition is_amount_within_bounds :: "policy_bounds \<Rightarrow> u64 \<Rightarrow> bool" where
  "is_amount_within_bounds b amount \<longleftrightarrow> amount \<le> max_spend_per_action b"

definition is_duration_within_bounds :: "policy_bounds \<Rightarrow> u64 \<Rightarrow> bool" where
  "is_duration_within_bounds b secs \<longleftrightarrow> secs \<le> max_job_duration_secs b"

definition is_reputation_acceptable :: "policy_bounds \<Rightarrow> u8 \<Rightarrow> bool" where
  "is_reputation_acceptable b rep \<longleftrightarrow> rep \<ge> min_counterparty_reputation b"

section \<open>Policies\<close>

record autonomy_policy =
  mode :: autonomy_mode
  bounds :: policy_bounds
  require_approval_for_all :: bool
  auto_accept_profitable_jobs :: bool
  auto_optimize_pricing :: bool
  thresholds :: decision_thresholds

definition policy_conservative :: autonomy_policy where
  "policy_conservative =
     \<lparr>mode = Conservative, bounds = bounds_for_mode Conservative, require_approval_for_all = True,
      auto_accept_profitable_jobs = False, auto_optimize_pricing = False,
      thresholds = thresholds_for_mode Conservative\<rparr>"

definition policy_moderate :: autonomy_policy where
  "policy_moderate =
     \<lparr>mode = Moderate, bounds = bounds_for_mode Moderate, require_approval_for_all = False,
      auto_accept_profitable_jobs = False, auto_optimize_pricing = False,
      thresholds = thresholds_for_mode Moderate\<rparr>"

definition policy_aggressive :: autonomy_policy where
  "policy_aggressive =
     \<lparr>mode = Aggressive, bounds = bounds_for_mode Aggressive, require_approval_for_all = False,
      auto_accept_profitable_jobs = True, auto_optimize_pricing = True,
      thresholds = thresholds_for_mode Aggressive\<rparr>"

fun policy_for_mode :: "autonomy_mode \<Rightarrow> autonomy_policy" where
  "policy_for_mode Conservative = policy_conservative"
| "policy_for_mode Moderate = policy_moderate"
| "policy_for_mode Aggressive = policy_aggressive"

definition with_bounds :: "policy_bounds \<Rightarrow> autonomy_policy \<Rightarrow> autonomy_policy" where
  "with_bounds b p = p\<lparr>bounds := b\<rparr>"

definition with_mode :: "autonomy_mode \<Rightarrow> autonomy_policy \<Rightarrow> autonomy_policy" where
  "with_mode m p = p\<lparr>mode := m\<rparr>"

definition with_approval_required :: "bool \<Rightarrow> autonomy_policy \<Rightarrow> autonomy_policy" where
  "with_approval_required r p = p\<lparr>require_approval_for_all := r\<rparr>"

definition with_auto_accept :: "bool \<Rightarrow> autonomy_policy \<Rightarrow> autonomy_policy" where
  "with_auto_accept a p = p\<lparr>auto_accept_profitable_jobs := a\<rparr>"

definition with_auto_pricing :: "bool \<Rightarrow> autonomy_policy \<Rightarrow> autonomy_policy" where
  "with_auto_pricing a p = p\<lparr>auto_optimize_pricing := a\<rparr>"

section \<open>Evaluation\<close>

datatype proposed_action =
    AcceptJob u64 u64 u8
  | SubmitBid u64
  | CounterOffer u64 u64
  | AcceptNewCounterparty u8

datatype evaluation_result =
    Approved
  | NeedsApproval string
  | Rejected string

definition show_word :: "'a::len word \<Rightarrow> string" where
  "show_word w = show_nat (unat w)"

definition evaluate_accept_job :: "autonomy_policy \<Rightarrow> u64 \<Rightarrow> u64 \<Rightarrow> u8 \<Rightarrow> evaluation_result" where
  "evaluate_accept_job p price secs rep =
     (if \<not> is_amount_within_bounds (bounds p) price
      then NeedsApproval (''price '' @ show_word price @ '' exceeds maximum '' @
             show_word (max_spend_per_action (bounds p)))
      else if \<not> is_duration_within_bounds (bounds p) secs
      then NeedsApproval (''duration '' @ show_word secs @ '' exceeds maximum '' @
             show_word (max_job_duration_secs (bounds p)))
      else if \<not> is_reputation_acceptable (bounds p) rep
      then NeedsApproval (''counterparty reputation '' @ show_word rep @ '' below minimum '' @
             show_word (min_counterparty_reputation (bounds p)))
      else Approved)"

definition evaluate_spend :: "autonomy_policy \<Rightarrow> u64 \<Rightarrow> evaluation_result" where
  "evaluate_spend p amount =
     (if \<not> is_amount_within_bounds (bounds p) amount
      then NeedsApproval (''amount '' @ show_word amount @ '' exceeds maximum '' @
             show_word (max_spend_per_action (bounds p)))
      else Approved)"

definition evaluate :: "autonomy_policy \<Rightarrow> proposed_action \<Rightarrow> evaluation_result" where
  "evaluate p action =
     (if require_approval_for_all p
      then NeedsApproval ''conservative mode requires approval for all actions''
      else case action of
        AcceptJob price secs rep \<Rightarrow> evaluate_accept_job p price secs rep
      | SubmitBid amount \<Rightarrow> evaluate_spend p amount
      | CounterOffer original proposed \<Rightarrow>
          if \<not> allow_price_negotiation (bounds p)
          then NeedsApproval ''price negotiation not allowed by policy''
          else evaluate_spend p proposed
      | AcceptNewCounterparty rep \<Rightarrow>
          if \<not> allow_new_counterparties (bounds p)
          then NeedsApproval ''new counterparties not allowed by policy''
          else if \<not> is_reputation_acceptable (bounds p) rep
          then NeedsApproval (''counterparty reputation '' @ show_word rep @ '' below minimum '' @
                 show_word (min_counterparty_reputation (bounds p)))
          else Approved)"

section \<open>The spending tracker\<close>

record spending_tracker_state =
  st_hourly_budget :: u64
  st_spent_this_hour :: u64
  st_hour_start :: u64
  schema_version :: u32

definition CURRENT_SCHEMA_VERSION :: u32 where
  "CURRENT_SCHEMA_VERSION = 1"

datatype spending_tracker_error = Io string | Json string | CorruptState string

datatype budget_exceeded = BudgetExceeded u64 u64

record spending_tracker =
  hourly_budget :: u64
  spent_this_hour :: u64
  hour_start_timestamp :: u64

definition tracker_new :: "u64 \<Rightarrow> u64 \<Rightarrow> spending_tracker" where
  "tracker_new now budget =
     \<lparr>hourly_budget = budget, spent_this_hour = 0, hour_start_timestamp = now\<rparr>"

definition maybe_reset_hour :: "u64 \<Rightarrow> spending_tracker \<Rightarrow> spending_tracker" where
  "maybe_reset_hour now tr =
     (if saturating_sub now (hour_start_timestamp tr) \<ge> 3600
      then tr\<lparr>spent_this_hour := 0, hour_start_timestamp := now\<rparr>
      else tr)"

definition remaining_budget :: "spending_tracker \<Rightarrow> u64" where
  "remaining_budget tr = saturating_sub (hourly_budget tr) (spent_this_hour tr)"

definition spent_this_hour_checked :: "u64 \<Rightarrow> spending_tracker \<Rightarrow> u64 \<times> spending_tracker" where
  "spent_this_hour_checked now tr = (let tr' = maybe_reset_hour now tr in (spent_this_hour tr', tr'))"

definition remaining_budget_checked :: "u64 \<Rightarrow> spending_tracker \<Rightarrow> u64 \<times> spending_tracker" where
  "remaining_budget_checked now tr =
     (let tr' = maybe_reset_hour now tr
      in (saturating_sub (hourly_budget tr') (spent_this_hour tr'), tr'))"

definition can_afford :: "spending_tracker \<Rightarrow> u64 \<Rightarrow> bool" where
  "can_afford tr amount \<longleftrightarrow> amount \<le> remaining_budget tr"

definition can_afford_checked :: "u64 \<Rightarrow> u64 \<Rightarrow> spending_tracker \<Rightarrow> bool \<times> spending_tracker" where
  "can_afford_checked now amount tr =
     (let tr' = maybe_reset_hour now tr in (amount \<le> remaining_budget tr', tr'))"

definition record_spend :: "u64 \<Rightarrow> u64 \<Rightarrow> spending_tracker \<Rightarrow> (budget_exceeded, unit, spending_tracker) outcome" where
  "record_spend now amount tr =
     (let tr' = maybe_reset_hour now tr
      in if \<not> can_afford tr' amount then (Inl (BudgetExceeded amount (remaining_budget tr')), tr')
         else (Inr (), tr'\<lparr>spent_this_hour := saturating_add (spent_this_hour tr') amount\<rparr>))"

definition reset_hour :: "u64 \<Rightarrow> spending_tracker \<Rightarrow> spending_tracker" where
  "reset_hour now tr = tr\<lparr>spent_this_hour := 0, hour_start_timestamp := now\<rparr>"

definition set_hourly_budget :: "u64 \<Rightarrow> spending_tracker \<Rightarrow> spending_tracker" where
  "set_hourly_budget budget tr = tr\<lparr>hourly_budget := budget\<rparr>"

definition to_state :: "spending_tracker \<Rightarrow> spending_tracker_state" where
  "to_state tr =
     \<lparr>st_hourly_budget = hourly_budget tr, st_spent_this_hour = spent_this_hour tr,
      st_hour_start = hour_start_timestamp tr, schema_version = CURRENT_SCHEMA_VERSION\<rparr>"

definition from_state :: "u64 \<Rightarrow> spending_tracker_state \<Rightarrow> spending_tracker" where
  "from_state now s =
     maybe_reset_hour now
       \<lparr>hourly_budget = st_hourly_budget s, spent_this_hour = st_spent_this_hour s,
        hour_start_timestamp = st_hour_start s\<rparr>"

text \<open>The first argument is what reading and parsing the file gave.\<close>

definition try_load_state ::
  "spending_tracker_error + spending_tracker_state \<Rightarrow> u64 \<Rightarrow> spending_tracker_error + spending_tracker" where
  "try_load_state file now =
     (case file of
        Inl e \<Rightarrow> Inl e
      | Inr s \<Rightarrow>
          if st_spent_this_hour s > st_hourly_budget s
          then Inl (CorruptState (''spent ('' @ show_word (st_spent_this_hour s) @ '') exceeds budget ('' @
                 show_word (st_hourly_budget s) @ '')''))
          else Inr (from_state now s))"

definition load_state ::
  "spending_tracker_error + spending_tracker_state \<Rightarrow> u64 \<Rightarrow> u64 \<Rightarrow> spending_tracker \<times> bool" where
  "load_state file now default_budget =
     (case try_load_state file now of
        Inr tr \<Rightarrow> (tr, True)
      | Inl _ \<Rightarrow> (tracker_new now default_budget, False))"


section \<open>Lemmas\<close>

lemmas evaluate_defs = evaluate_def evaluate_accept_job_def evaluate_spend_def
  is_amount_within_bounds_def is_duration_within_bounds_def is_reputation_acceptable_def

subsection \<open>The budget of an hour\<close>

definition within_budget :: "spending_tracker \<Rightarrow> bool" where
  "within_budget tr \<longleftrightarrow> spent_this_hour tr \<le> hourly_budget tr"

text \<open>What is left to spend, as a number.\<close>

abbreviation left :: "spending_tracker \<Rightarrow> nat" where
  "left tr \<equiv> unat (hourly_budget tr) - unat (spent_this_hour tr)"

lemma reset_budget [simp]: "hourly_budget (maybe_reset_hour now tr) = hourly_budget tr"
  by (simp add: maybe_reset_hour_def)

lemma record_budget [simp]: "hourly_budget (snd (record_spend now x tr)) = hourly_budget tr"
  by (simp add: record_spend_def Let_def)

lemma record_cases:
  "snd (record_spend now x tr) =
     (if is_ok (fst (record_spend now x tr))
      then (maybe_reset_hour now tr)\<lparr>spent_this_hour := spent_this_hour (maybe_reset_hour now tr) + x\<rparr>
      else maybe_reset_hour now tr) \<and>
   (is_ok (fst (record_spend now x tr)) \<longleftrightarrow> unat x \<le> left (maybe_reset_hour now tr))"
proof -
  have "saturating_add s x = s + x" if "unat x \<le> unat b - unat s" "s \<le> b" for s b :: u64
    using that unat_lt_len [of b] by (intro saturating_add_exact) (simp add: word_le_nat_alt)
  moreover have "saturating_add s x = s + x" if "unat x \<le> unat b - unat s" "\<not> s \<le> b" for s b :: u64
    using that using unat_lt_len [of s] by (auto simp: word_le_nat_alt saturating_add_def unat_eq_zero)
  ultimately have "saturating_add s x = s + x" if "unat x \<le> unat b - unat s" for s b :: u64
    using that by blast
  then show ?thesis
    by (simp add: record_spend_def can_afford_def remaining_budget_def Let_def word_le_nat_alt)
qed

lemma reset_iff: "maybe_reset_hour now tr =
    (if unat (hour_start_timestamp tr) + 3600 \<le> unat now
     then tr\<lparr>spent_this_hour := 0, hour_start_timestamp := now\<rparr> else tr)"
  by (auto simp: maybe_reset_hour_def word_le_nat_alt)

lemma reset_within: "within_budget tr \<Longrightarrow> within_budget (maybe_reset_hour now tr)"
  by (auto simp: maybe_reset_hour_def within_budget_def)

lemma spend_left:
  assumes "within_budget tr" and "unat x \<le> left tr"
  shows "within_budget (tr\<lparr>spent_this_hour := spent_this_hour tr + x\<rparr>)"
    and "left (tr\<lparr>spent_this_hour := spent_this_hour tr + x\<rparr>) + unat x = left tr"
proof -
  have "unat (spent_this_hour tr + x) = unat (spent_this_hour tr) + unat x"
    using assms unat_lt_len [of "hourly_budget tr"]
    by (intro unat_add_exact) (simp add: within_budget_def word_le_nat_alt)
  then show "within_budget (tr\<lparr>spent_this_hour := spent_this_hour tr + x\<rparr>)"
    and "left (tr\<lparr>spent_this_hour := spent_this_hour tr + x\<rparr>) + unat x = left tr"
    using assms by (simp_all add: within_budget_def word_le_nat_alt)
qed

lemma record_within: "within_budget tr \<Longrightarrow> within_budget (snd (record_spend now x tr))"
  using record_cases [of now x tr] reset_within [of tr now] spend_left(1) [of "maybe_reset_hour now tr" x]
  by (auto split: if_splits)

text \<open>A schedule of attempts to spend, and the amounts accepted from it, with their times.\<close>

fun accepted :: "spending_tracker \<Rightarrow> (u64 \<times> u64) list \<Rightarrow> (u64 \<times> u64) list" where
  "accepted tr [] = []"
| "accepted tr ((now, x) # xs) =
     (case record_spend now x tr of
        (Inr _, tr') \<Rightarrow> (now, x) # accepted tr' xs
      | (Inl _, tr') \<Rightarrow> accepted tr' xs)"

definition spent_between :: "nat \<Rightarrow> nat \<Rightarrow> (u64 \<times> u64) list \<Rightarrow> nat" where
  "spent_between a b xs = sum_list (map (\<lambda>(t, x). if a \<le> unat t \<and> unat t < b then unat x else 0) xs)"

lemma spent_between_simps [simp]:
  "spent_between a b [] = 0"
  "spent_between a b ((t, x) # xs) = (if a \<le> unat t \<and> unat t < b then unat x else 0) + spent_between a b xs"
  by (simp_all add: spent_between_def)

lemma accepted_Cons:
  "spent_between a b (accepted tr ((t, x) # xs)) =
     (if is_ok (fst (record_spend t x tr)) \<and> a \<le> unat t \<and> unat t < b then unat x else 0) +
     spent_between a b (accepted (snd (record_spend t x tr)) xs)"
  by (cases "record_spend t x tr") (auto split: sum.split)

lemma spent_between_late:
  "list_all (\<lambda>(t, x). b \<le> unat t) xs \<Longrightarrow> spent_between a b (accepted tr xs) = 0"
proof (induction xs arbitrary: tr)
  case (Cons p xs)
  then show ?case by (cases p) (simp only: accepted_Cons, auto)
qed simp

text \<open>Before the current hour ends, at most what is left of its budget.\<close>

lemma spent_in_hour:
  assumes "within_budget tr" and "b \<le> unat (hour_start_timestamp tr) + 3600"
    and "sorted (map (\<lambda>(t, x). unat t) xs)"
  shows "spent_between a b (accepted tr xs) \<le> left tr"
  using assms
proof (induction xs arbitrary: tr)
  case (Cons p xs)
  obtain t x where p: "p = (t, x)" by (cases p)
  let ?tr = "snd (record_spend t x tr)"
  show ?case
  proof (cases "unat (hour_start_timestamp tr) + 3600 \<le> unat t")
    case True
    then have "list_all (\<lambda>(t, x). b \<le> unat t) (p # xs)"
      using Cons.prems(2,3) p by (fastforce simp: list_all_iff)
    then show ?thesis by (simp add: spent_between_late)
  next
    case False
    then have r: "maybe_reset_hour t tr = tr" by (simp add: reset_iff)
    have "within_budget ?tr" by (rule record_within [OF Cons.prems(1)])
    moreover have "hour_start_timestamp ?tr = hour_start_timestamp tr"
      using record_cases [of t x tr] r by (auto split: if_splits)
    ultimately have "spent_between a b (accepted ?tr xs) \<le> left ?tr"
      using Cons.IH [of ?tr] Cons.prems p by simp
    then show ?thesis
      using record_cases [of t x tr] r spend_left(2) [OF Cons.prems(1), of x]
      unfolding p accepted_Cons by (auto split: if_splits)
  qed
qed simp


text \<open>A window of an hour meets at most two budget hours.\<close>

lemma spent_two_hours:
  assumes "within_budget tr" and "list_all (\<lambda>(t, x). a \<le> unat t) xs"
    and "sorted (map (\<lambda>(t, x). unat t) xs)"
  shows "spent_between a (a + 3600) (accepted tr xs) \<le> unat (hourly_budget tr) + left tr"
  using assms
proof (induction xs arbitrary: tr)
  case (Cons p xs)
  obtain t x where p: "p = (t, x)" by (cases p)
  let ?tr = "snd (record_spend t x tr)" and ?r = "maybe_reset_hour t tr"
  have wf: "within_budget ?tr" "within_budget ?r"
    using record_within reset_within Cons.prems(1) by blast+
  have x: "left ?tr + (if is_ok (fst (record_spend t x tr)) then unat x else 0) = left ?r"
    using record_cases [of t x tr] spend_left(2) [OF wf(2), of x] by (auto split: if_splits)
  show ?case
  proof (cases "unat (hour_start_timestamp tr) + 3600 \<le> unat t")
    case True
    then have "hour_start_timestamp ?tr = t"
      using record_cases [of t x tr] by (auto simp: reset_iff split: if_splits)
    then have "spent_between a (a + 3600) (accepted ?tr xs) \<le> left ?tr"
      using Cons.prems p by (intro spent_in_hour [OF wf(1)]) auto
    moreover have "left ?r \<le> unat (hourly_budget tr)" by simp
    ultimately have "(if is_ok (fst (record_spend t x tr)) then unat x else 0) +
        spent_between a (a + 3600) (accepted ?tr xs) \<le> unat (hourly_budget tr)"
      using x by linarith
    then show ?thesis unfolding p accepted_Cons by (simp split: if_splits)
  next
    case False
    then have "?r = tr" by (simp add: reset_iff)
    moreover have "spent_between a (a + 3600) (accepted ?tr xs) \<le> unat (hourly_budget tr) + left ?tr"
      using Cons.IH [OF wf(1)] Cons.prems p by simp
    ultimately show ?thesis using x unfolding p accepted_Cons by (auto split: if_splits)
  qed
qed simp

lemma spent_any_window:
  assumes "within_budget tr" and "sorted (map (\<lambda>(t, x). unat t) xs)"
  shows "spent_between a (a + 3600) (accepted tr xs) \<le> 2 * unat (hourly_budget tr)"
  using assms
proof (induction xs arbitrary: tr)
  case (Cons p xs)
  obtain t x where p: "p = (t, x)" by (cases p)
  show ?case
  proof (cases "a \<le> unat t")
    case True
    then have "list_all (\<lambda>(t, x). a \<le> unat t) (p # xs)"
      using Cons.prems(2) p by (fastforce simp: list_all_iff)
    from spent_two_hours [OF Cons.prems(1) this Cons.prems(2)] show ?thesis by simp
  next
    case False
    with Cons.IH [OF record_within [OF Cons.prems(1)]] Cons.prems(2) show ?thesis
      unfolding p accepted_Cons by simp
  qed
qed simp

section \<open>Properties\<close>

text \<open>
  The stock policies: the evaluator never rejects an action outright, the conservative policy approves nothing, and what
  the moderate policy approves the aggressive one approves too.
\<close>
lemma stock_policies:
  "(\<nexists>r. evaluate p action = Rejected r)" "evaluate policy_conservative action \<noteq> Approved"
  "evaluate policy_moderate action = Approved \<Longrightarrow> evaluate policy_aggressive action = Approved"
  by (auto simp: evaluate_defs policy_conservative_def policy_moderate_def policy_aggressive_def word_le_nat_alt
      split: proposed_action.splits if_splits)

text \<open>
  The mode of a policy is not what the evaluator obeys: an aggressive policy switched to the
  conservative mode by \<open>with_mode\<close> still approves a bid of a million base units, although the
  documentation of the mode says that the agent then never takes autonomous action.
\<close>
theorem mode_is_ignored:
  "let p = with_mode Conservative policy_aggressive
   in mode p = Conservative \<and> evaluate p (SubmitBid 1000000) = Approved \<and> max_auto_approve (mode p) = 100"
  by (simp add: with_mode_def policy_aggressive_def evaluate_defs)

text \<open>
  The budget hour an accepted amount is charged to: the start of the tracker's hour window at that moment, with the time
  and the amount.
\<close>

fun charges :: "spending_tracker \<Rightarrow> (u64 \<times> u64) list \<Rightarrow> (u64 \<times> u64 \<times> u64) list" where
  "charges tr [] = []"
| "charges tr ((now, x) # xs) =
     (case record_spend now x tr of
        (Inr _, tr') \<Rightarrow> (hour_start_timestamp tr', now, x) # charges tr' xs
      | (Inl _, tr') \<Rightarrow> charges tr' xs)"

definition charged_to :: "u64 \<Rightarrow> (u64 \<times> u64 \<times> u64) list \<Rightarrow> nat" where
  "charged_to h cs = sum_list (map (\<lambda>(h', t, x). if h' = h then unat x else 0) cs)"

lemma charged_to_simps [simp]:
  "charged_to h [] = 0" "charged_to h ((h', t, x) # cs) = (if h' = h then unat x else 0) + charged_to h cs"
  by (simp_all add: charged_to_def)

lemma charges_accepted: "map snd (charges tr xs) = accepted tr xs"
  by (induction tr xs rule: charges.induct) (auto split: prod.split sum.split)

lemma charges_Cons:
  "charges tr ((t, x) # xs) =
     (if is_ok (fst (record_spend t x tr)) then [(hour_start_timestamp (maybe_reset_hour t tr), t, x)] else []) @
     charges (snd (record_spend t x tr)) xs"
  using record_cases [of t x tr] by (cases "record_spend t x tr") (auto split: sum.split if_splits)

lemma record_hour: "hour_start_timestamp (snd (record_spend t x tr)) = hour_start_timestamp (maybe_reset_hour t tr)"
  using record_cases [of t x tr] by (auto split: if_splits)

text \<open>Every later hour starts at least 3600 seconds after the current one.\<close>

definition hour_after :: "u64 \<Rightarrow> u64 \<Rightarrow> bool" where
  "hour_after h h' \<longleftrightarrow> h' = h \<or> unat h + 3600 \<le> unat h'"

lemma hour_after_trans: "hour_after a b \<Longrightarrow> hour_after b c \<Longrightarrow> hour_after a c"
  by (auto simp: hour_after_def)

lemma hour_after_reset: "hour_after (hour_start_timestamp tr) (hour_start_timestamp (maybe_reset_hour t tr))"
  by (simp add: hour_after_def reset_iff)

lemma charges_after: "list_all (\<lambda>(h, t, x). hour_after (hour_start_timestamp tr) h) (charges tr xs)"
proof (induction xs arbitrary: tr)
  case (Cons p xs)
  obtain t x where p: "p = (t, x)" by (cases p)
  show ?case
    using Cons.IH [of "snd (record_spend t x tr)"] hour_after_reset [of tr t]
    unfolding p charges_Cons record_hour by (auto simp: list_all_iff intro: hour_after_trans)
qed simp

lemma charges_in_hour: "list_all (\<lambda>(h, t, x). unat t < unat h + 3600) (charges tr xs)"
proof (induction xs arbitrary: tr)
  case (Cons p xs)
  obtain t x where p: "p = (t, x)" by (cases p)
  show ?case using Cons.IH unfolding p charges_Cons by (simp add: reset_iff)
qed simp

lemma charges_ordered: "sorted_wrt (\<lambda>(h, t, x) (h', t', x'). hour_after h h') (charges tr xs)"
proof (induction xs arbitrary: tr)
  case (Cons p xs)
  obtain t x where p: "p = (t, x)" by (cases p)
  show ?case
    using Cons.IH [of "snd (record_spend t x tr)"] charges_after [of "snd (record_spend t x tr)" xs]
    unfolding p charges_Cons record_hour by (auto simp: list_all_iff)
qed simp

lemma charged_later: "list_all (\<lambda>(h', t, x). h' \<noteq> h) cs \<Longrightarrow> charged_to h cs = 0"
  by (induction cs) auto

lemma charged_le_budget:
  assumes "within_budget tr"
  shows "charged_to h (charges tr xs) \<le> (if h = hour_start_timestamp tr then left tr else unat (hourly_budget tr))"
  using assms
proof (induction xs arbitrary: tr)
  case (Cons p xs)
  obtain t x where p: "p = (t, x)" by (cases p)
  let ?tr = "snd (record_spend t x tr)" and ?r = "maybe_reset_hour t tr"
  have wf: "within_budget ?tr" "within_budget ?r"
    using record_within reset_within Cons.prems by blast+
  have x: "left ?tr + (if is_ok (fst (record_spend t x tr)) then unat x else 0) = left ?r"
    using record_cases [of t x tr] spend_left(2) [OF wf(2), of x] by (auto split: if_splits)
  have le: "charged_to h (charges tr (p # xs)) \<le> (if h = hour_start_timestamp ?r then left ?r else unat (hourly_budget tr))"
    using Cons.IH [OF wf(1)] x unfolding p charges_Cons record_hour by (auto split: if_splits)
  show ?case
  proof (cases "?r = tr")
    case False
    then have late: "unat (hour_start_timestamp tr) + 3600 \<le> unat (hour_start_timestamp ?r)"
      by (auto simp: reset_iff split: if_splits)
    then have "charged_to (hour_start_timestamp tr) (charges tr (p # xs)) = 0"
      using charges_after [of ?tr xs] unfolding p charges_Cons record_hour
      by (intro charged_later) (auto simp: list_all_iff hour_after_def)
    then show ?thesis using le by (auto split: if_splits)
  qed (use le in \<open>auto split: if_splits\<close>)
qed simp

text \<open>
  C25. The hourly budget is enforced: for a tracker within its budget and any attempts to spend, each accepted amount is
  charged to the hour window that is current at its time, two windows are the same or start at least 3600 seconds apart, no
  amount is charged to a window that is over, and what is charged to one window is at most the budget (for the window
  already begun, what was left of it). For attempts at non-decreasing times, what is accepted in any 3600 seconds,
  across the border of two windows, is then at most twice the budget.
\<close>
theorem hourly_spending_bounded:
  assumes "within_budget tr"
  shows "map snd (charges tr attempts) = accepted tr attempts \<and>
    list_all (\<lambda>(h, t, x). unat t < unat h + 3600) (charges tr attempts) \<and>
    sorted_wrt (\<lambda>(h, t, x) (h', t', x'). h' = h \<or> unat h + 3600 \<le> unat h') (charges tr attempts) \<and>
    charged_to h (charges tr attempts) \<le> (if h = hour_start_timestamp tr then left tr else unat (hourly_budget tr)) \<and>
    (sorted (map (\<lambda>(t, x). unat t) attempts) \<longrightarrow>
       spent_between a (a + 3600) (accepted tr attempts) \<le> 2 * unat (hourly_budget tr))"
  using charged_le_budget [OF assms] charges_in_hour charges_accepted
    charges_ordered [unfolded hour_after_def] spent_any_window [OF assms]
  by blast

text \<open>The factor two is reached: two budgets within two seconds, at the border of the hours.\<close>

theorem hourly_spending_bounded_witness:
  "spent_between 4599 8199 (accepted (tracker_new 1000 500) [(4599, 500), (4599, 1), (4600, 500)]) = 1000 \<and>
   spent_between 4599 (4599 + 3600) (accepted (tracker_new 1000 500) [(4599, 500), (4599, 1), (4600, 500)])
     \<le> 2 * 500 \<and>
   charged_to 4600 (charges (tracker_new 1000 500) [(4599, 500), (4599, 1), (4600, 500)]) \<le> 500"
proof (intro conjI)
  show "spent_between 4599 8199 (accepted (tracker_new 1000 500) [(4599, 500), (4599, 1), (4600, 500)]) = 1000"
    by (simp add: record_spend_def maybe_reset_hour_def can_afford_def remaining_budget_def tracker_new_def
        saturating_sub_def saturating_add_def Let_def)
  have "within_budget (tracker_new 1000 500)" by (simp add: within_budget_def tracker_new_def)
  note b = hourly_spending_bounded [OF this, of "[(4599, 500), (4599, 1), (4600, 500)]" 4600 4599]
  from b show "spent_between 4599 (4599 + 3600) (accepted (tracker_new 1000 500) [(4599, 500), (4599, 1), (4600, 500)])
     \<le> 2 * 500"
    by (simp add: tracker_new_def del: accepted.simps charges.simps)
  from b show "charged_to 4600 (charges (tracker_new 1000 500) [(4599, 500), (4599, 1), (4600, 500)]) \<le> 500"
    by (simp add: tracker_new_def del: accepted.simps charges.simps)
qed

text \<open>
  Persistence keeps the budget: a tracker within its budget, saved and loaded again before its
  hour is over, is the same tracker, and after the hour it is the same with the spending reset.
\<close>
theorem tracker_state_roundtrip:
  assumes "within_budget tr"
  shows "load_state (Inr (to_state tr)) now dflt = (maybe_reset_hour now tr, True) \<and>
    (unat now < unat (hour_start_timestamp tr) + 3600 \<longrightarrow>
       load_state (Inr (to_state tr)) now dflt = (tr, True))"
  using assms
  by (auto simp: load_state_def try_load_state_def to_state_def from_state_def within_budget_def reset_iff)

theorem tracker_state_roundtrip_witness:
  "load_state (Inr (to_state (tracker_new 1000 500))) 1001 7 = (tracker_new 1000 500, True)"
proof -
  have "within_budget (tracker_new 1000 500)" by (simp add: within_budget_def tracker_new_def)
  from tracker_state_roundtrip [OF this, of 1001 7] show ?thesis by (auto simp: tracker_new_def)
qed

text \<open>
  Lowering the budget below what was spent and restarting forgets the spending: the saved
  state is then rejected as corrupt and replaced by a fresh tracker, which lets the agent spend the whole default budget
  again in the same hour.
\<close>
theorem lowered_budget_forgets_spending:
  "let tr = set_hourly_budget 100 (snd (record_spend 1001 500 (tracker_new 1000 500)));
       (tr', loaded) = load_state (Inr (to_state tr)) 1002 500
   in spent_this_hour tr = 500 \<and> \<not> can_afford tr 1 \<and> \<not> loaded \<and> spent_this_hour tr' = 0 \<and> can_afford tr' 500"
  by (simp add: record_spend_def maybe_reset_hour_def can_afford_def remaining_budget_def tracker_new_def
      saturating_sub_def saturating_add_def Let_def set_hourly_budget_def load_state_def try_load_state_def
      to_state_def)

end
