(* ===== verification/Agents.thy ===== *)
theory Agents
  imports Autonomy
begin

text \<open>
  The provider and buyer agents and their negotiation, \<open>crates/molt-agent/src/provider.rs\<close>,
  \<open>buyer.rs\<close> and \<open>negotiation.rs\<close>. Floating-point expressions are parameters: the comparison of a
  price per unit with the policy's minimum, the price of a counter-offer, the flexible price
  limit, and the scores, which only need a linear order (none of them is ever not-a-number).
  Fresh identifiers and clock readings are arguments.
\<close>

section \<open>Choosing the best candidate\<close>

text \<open>
  \<open>Iterator::max_by\<close>: a reduction that keeps the earlier element only when it is strictly greater, so that
  the last of several maxima wins.
\<close>

fun max_by :: "('a \<Rightarrow> 'f::linorder) \<Rightarrow> 'a list \<Rightarrow> 'a option" where
  "max_by sc [] = None"
| "max_by sc (x # xs) = Some (fold (\<lambda>y best. if sc best > sc y then best else y) xs x)"

lemma max_by_fold:
  "fold (\<lambda>y best. if sc best > sc y then best else y) xs x \<in> set (x # xs) \<and>
   (\<forall>y \<in> set (x # xs). sc y \<le> sc (fold (\<lambda>y best. if sc best > sc y then best else y) xs x))"
  for sc :: "'a \<Rightarrow> 'f::linorder"
proof (induction xs arbitrary: x)
  case (Cons z xs)
  let ?b = "if sc x > sc z then x else z"
  show ?case using Cons [of ?b] by (auto split: if_splits intro: order.trans less_imp_le)
qed simp

lemma max_by_Some: "max_by sc xs = Some x \<Longrightarrow> x \<in> set xs \<and> (\<forall>y \<in> set xs. sc y \<le> sc x)"
  using max_by_fold [of sc] by (cases xs) fastforce+

lemma max_by_None_iff [simp]: "max_by sc xs = None \<longleftrightarrow> xs = []"
  by (cases xs) auto

text \<open>The contract of a selection: the best of the acceptable candidates, if there is one.\<close>

locale selection =
  fixes valid :: "'a \<Rightarrow> bool"
    and sc :: "'a \<Rightarrow> 'f::linorder"
    and pick :: "'a list \<Rightarrow> 'a option"
  assumes pick_eq: "pick xs = max_by sc (filter valid xs)"
begin

lemma pick_sound:
  "pick xs = Some x \<Longrightarrow> x \<in> set xs \<and> valid x \<and> (\<forall>y \<in> set xs. valid y \<longrightarrow> sc y \<le> sc x)"
  unfolding pick_eq by (drule max_by_Some) auto

lemma pick_None: "pick xs = None \<longleftrightarrow> (\<forall>x \<in> set xs. \<not> valid x)"
  by (simp add: pick_eq filter_empty_conv)

end

section \<open>Provider\<close>

record provider_state =
  prov_id :: string
  capacity :: u64
  allocated :: u64
  prov_active_jobs :: u32
  max_jobs :: u32
  earnings :: u64

datatype provider_error = InsufficientCapacity u64 u64 | ProviderMaxJobs u32

definition provider_new :: "string \<Rightarrow> u64 \<Rightarrow> u32 \<Rightarrow> provider_state" where
  "provider_new uuid cap mx =
     \<lparr>prov_id = uuid, capacity = cap, allocated = 0, prov_active_jobs = 0, max_jobs = mx, earnings = 0\<rparr>"

definition available_capacity :: "provider_state \<Rightarrow> u64" where
  "available_capacity s = saturating_sub (capacity s) (allocated s)"

definition can_accept_jobs :: "provider_state \<Rightarrow> bool" where
  "can_accept_jobs s \<longleftrightarrow> prov_active_jobs s < max_jobs s \<and> available_capacity s > 0"

text \<open>The two additions may panic in a build with overflow checks (\<^const>\<open>None\<close>).\<close>

definition allocate ::
  "bool \<Rightarrow> u64 \<Rightarrow> provider_state \<Rightarrow> (provider_error, unit, provider_state) outcome option" where
  "allocate checks amount s =
     (if amount > available_capacity s
      then Some (Inl (InsufficientCapacity amount (available_capacity s)), s)
      else if prov_active_jobs s \<ge> max_jobs s
      then Some (Inl (ProviderMaxJobs (max_jobs s)), s)
      else case add_op checks (allocated s) amount of
        None \<Rightarrow> None
      | Some a \<Rightarrow> map_option (\<lambda>n. (Inr (), s\<lparr>allocated := a, prov_active_jobs := n\<rparr>))
                   (add_op checks (prov_active_jobs s) 1))"

text \<open>The capacity is given back before the addition of the payment, which may panic (\<^const>\<open>None\<close> as the result).\<close>

definition prov_release :: "bool \<Rightarrow> u64 \<Rightarrow> u64 \<Rightarrow> provider_state \<Rightarrow> unit option \<times> provider_state" where
  "prov_release checks amount payment s =
     (let s' = s\<lparr>allocated := saturating_sub (allocated s) amount, prov_active_jobs := saturating_sub (prov_active_jobs s) 1\<rparr>
      in case add_op checks (earnings s') payment of
           None \<Rightarrow> (None, s')
         | Some e \<Rightarrow> (Some (), s'\<lparr>earnings := e\<rparr>))"

record job_spec =
  js_id :: string
  js_resources :: u64
  js_price :: u64
  js_duration_secs :: u64
  js_buyer_reputation :: u8

text \<open>
  \<open>ProviderDecisionMaker::evaluate\<close>. The parameters stand for \<open>price_per_unit < min_price_per_unit\<close>
  and for \<open>ceil(resources * min_price_per_unit) as u64\<close>.
\<close>

definition provider_evaluate ::
  "(job_spec \<Rightarrow> bool) \<Rightarrow> (job_spec \<Rightarrow> u64) \<Rightarrow> provider_state option \<Rightarrow> job_spec \<Rightarrow> autonomy_mode
   \<Rightarrow> decision_thresholds \<Rightarrow> job_decision" where
  "provider_evaluate below_minimum min_price st job m th =
     (let early = (case st of
        Some s \<Rightarrow>
          if js_resources job > available_capacity s then Some (Reject ''insufficient capacity'')
          else if prov_active_jobs s \<ge> max_jobs s then Some (Reject ''max jobs reached'')
          else None
      | None \<Rightarrow> None)
      in case early of
        Some d \<Rightarrow> d
      | None \<Rightarrow>
          if below_minimum job
          then (if allows_counter_offers m then Counter (min_price job) ''price below minimum''
                else Reject ''price below minimum'')
          else if js_buyer_reputation job < th_min_reputation th
          then NeedApproval ''buyer reputation too low''
          else if js_duration_secs job > th_max_duration_secs th
          then NeedApproval ''job duration exceeds threshold''
          else if js_price job > max_auto_accept_price th
          then NeedApproval ''price exceeds auto-approval threshold''
          else Accept)"

definition evaluate_job where
  "evaluate_job below_minimum min_price job m th = provider_evaluate below_minimum min_price None job m th"

definition evaluate_job_with_state where
  "evaluate_job_with_state below_minimum min_price job s m th =
     provider_evaluate below_minimum min_price (Some s) job m th"

section \<open>Buyer\<close>

record buyer_state =
  buyer_id :: string
  pending_jobs :: u32
  buyer_active_jobs :: u32
  max_active_jobs :: u32
  spent :: u64
  budget :: u64

datatype buyer_error = BuyerMaxJobs u32 | NoPendingJobs | InsufficientBudget u64 u64

definition buyer_new :: "string \<Rightarrow> u64 \<Rightarrow> u32 \<Rightarrow> buyer_state" where
  "buyer_new uuid bud mx =
     \<lparr>buyer_id = uuid, pending_jobs = 0, buyer_active_jobs = 0, max_active_jobs = mx, spent = 0, budget = bud\<rparr>"

definition buyer_remaining_budget :: "buyer_state \<Rightarrow> u64" where
  "buyer_remaining_budget s = saturating_sub (budget s) (spent s)"

definition can_submit_jobs :: "buyer_state \<Rightarrow> bool" where
  "can_submit_jobs s \<longleftrightarrow> buyer_active_jobs s < max_active_jobs s \<and> buyer_remaining_budget s > 0"

definition total_jobs :: "bool \<Rightarrow> buyer_state \<Rightarrow> u32 option" where
  "total_jobs checks s = add_op checks (pending_jobs s) (buyer_active_jobs s)"

definition submit_job :: "bool \<Rightarrow> buyer_state \<Rightarrow> (buyer_error, unit, buyer_state) outcome option" where
  "submit_job checks s =
     (if buyer_active_jobs s \<ge> max_active_jobs s
      then Some (Inl (BuyerMaxJobs (max_active_jobs s)), s)
      else map_option (\<lambda>n. (Inr (), s\<lparr>pending_jobs := n\<rparr>)) (add_op checks (pending_jobs s) 1))"

definition activate_job :: "bool \<Rightarrow> u64 \<Rightarrow> buyer_state \<Rightarrow> (buyer_error, unit, buyer_state) outcome option" where
  "activate_job checks price s =
     (if pending_jobs s = 0 then Some (Inl NoPendingJobs, s)
      else if price > buyer_remaining_budget s
      then Some (Inl (InsufficientBudget price (buyer_remaining_budget s)), s)
      else case (sub_op checks (pending_jobs s) 1, add_op checks (buyer_active_jobs s) 1,
                 add_op checks (spent s) price) of
        (Some p, Some a, Some sp) \<Rightarrow>
          Some (Inr (), s\<lparr>pending_jobs := p, buyer_active_jobs := a, spent := sp\<rparr>)
      | _ \<Rightarrow> None)"

definition complete_job :: "buyer_state \<Rightarrow> buyer_state" where
  "complete_job s = s\<lparr>buyer_active_jobs := saturating_sub (buyer_active_jobs s) 1\<rparr>"

definition cancel_pending :: "buyer_state \<Rightarrow> buyer_state" where
  "cancel_pending s = s\<lparr>pending_jobs := saturating_sub (pending_jobs s) 1\<rparr>"

record buyer_requirements =
  req_resources :: u64
  req_max_price :: u64
  req_max_duration_secs :: u64
  min_provider_reputation :: u8

record provider_offer =
  provider_id :: string
  offer_price :: u64
  estimated_duration_secs :: u64
  provider_reputation :: u8
  expires_in_secs :: u64

text \<open>\<open>flexible\<close> stands for \<open>ceil(max_price * price_flexibility) as u64\<close>.\<close>

definition evaluate_offer :: "(u64 \<Rightarrow> u64) \<Rightarrow> buyer_requirements \<Rightarrow> provider_offer \<Rightarrow> bool" where
  "evaluate_offer flexible req off =
     (if offer_price off > flexible (req_max_price req) then False
      else if estimated_duration_secs off > req_max_duration_secs req then False
      else if provider_reputation off < min_provider_reputation req then False
      else True)"

definition select_best_offer ::
  "(u64 \<Rightarrow> u64) \<Rightarrow> (provider_offer \<Rightarrow> buyer_requirements \<Rightarrow> 'f::linorder) \<Rightarrow> buyer_requirements
   \<Rightarrow> provider_offer list \<Rightarrow> provider_offer option" where
  "select_best_offer flexible score_offer req offs =
     max_by (\<lambda>off. score_offer off req) (filter (evaluate_offer flexible req) offs)"


section \<open>Negotiation\<close>

record bid =
  bid_id :: string
  bid_provider :: string
  bid_price :: u64
  available_at :: int
  bid_expires_at :: int
  bid_reputation :: u8

definition bid_is_expired :: "bid \<Rightarrow> int \<Rightarrow> bool" where
  "bid_is_expired b now \<longleftrightarrow> now \<ge> bid_expires_at b"

definition bid_is_available :: "bid \<Rightarrow> int \<Rightarrow> bool" where
  "bid_is_available b now \<longleftrightarrow> now \<ge> available_at b"

text \<open>Times are in nanoseconds; \<open>num_seconds\<close> rounds towards zero.\<close>

definition wait_time_secs :: "bid \<Rightarrow> int \<Rightarrow> int" where
  "wait_time_secs b now =
     max (sgn (available_at b - now) * (\<bar>available_at b - now\<bar> div 1000000000)) 0"

datatype negotiation_strategy = LowestPrice | HighestReputation | FastestAvailability | Balanced

record 'f selected_bid =
  sel_bid :: bid
  sel_score :: 'f
  reason :: string

record negotiation_job =
  nj_id :: string
  nj_resources :: u64
  nj_max_price :: u64
  nj_min_reputation :: u8

fun selection_reason :: "negotiation_strategy \<Rightarrow> string" where
  "selection_reason LowestPrice = ''lowest price bid''"
| "selection_reason HighestReputation = ''highest reputation provider''"
| "selection_reason FastestAvailability = ''fastest availability''"
| "selection_reason Balanced = ''best balanced score''"

definition negotiate_at ::
  "(negotiation_strategy \<Rightarrow> bid \<Rightarrow> u64 \<Rightarrow> int \<Rightarrow> 'f::linorder) \<Rightarrow> negotiation_job \<Rightarrow> bid list
   \<Rightarrow> negotiation_strategy \<Rightarrow> int \<Rightarrow> 'f selected_bid option" where
  "negotiate_at score_bid job bs strategy now =
     (let valid_bids = filter (\<lambda>b. bid_reputation b \<ge> nj_min_reputation job)
                         (filter (\<lambda>b. bid_price b \<le> nj_max_price job)
                           (filter (\<lambda>b. \<not> bid_is_expired b now) bs))
      in if valid_bids = [] then None
         else map_option (\<lambda>(b, s). \<lparr>sel_bid = b, sel_score = s, reason = selection_reason strategy\<rparr>)
                (max_by snd (map (\<lambda>b. (b, score_bid strategy b (nj_max_price job) now)) valid_bids)))"

datatype negotiation_phase = CollectingBids | Evaluating | Completed | Failed | Cancelled

record 'f negotiation_state =
  neg_id :: string
  neg_job :: negotiation_job
  bids :: "bid list"
  phase :: negotiation_phase
  selected :: "'f selected_bid option"
  started_at :: int
  deadline :: int

datatype negotiation_error = NotCollectingBids | AlreadyFinalized

definition negotiation_new :: "string \<Rightarrow> int \<Rightarrow> negotiation_job \<Rightarrow> int \<Rightarrow> 'f negotiation_state" where
  "negotiation_new uuid now job dl =
     \<lparr>neg_id = uuid, neg_job = job, bids = [], phase = CollectingBids, selected = None,
      started_at = now, deadline = dl\<rparr>"

definition add_bid ::
  "bid \<Rightarrow> 'f negotiation_state \<Rightarrow> (negotiation_error, unit, 'f negotiation_state) outcome" where
  "add_bid b s =
     (if phase s \<noteq> CollectingBids then (Inl NotCollectingBids, s)
      else (Inr (), s\<lparr>bids := bids s @ [b]\<rparr>))"

definition finalize ::
  "(negotiation_strategy \<Rightarrow> bid \<Rightarrow> u64 \<Rightarrow> int \<Rightarrow> 'f::linorder) \<Rightarrow> negotiation_strategy \<Rightarrow> int
   \<Rightarrow> 'f negotiation_state \<Rightarrow> (negotiation_error, 'f selected_bid option, 'f negotiation_state) outcome" where
  "finalize score_bid strategy now s =
     (if phase s \<noteq> CollectingBids then (Inl AlreadyFinalized, s)
      else let s1 = s\<lparr>phase := Evaluating\<rparr>;
               s2 = s1\<lparr>selected := negotiate_at score_bid (neg_job s1) (bids s1) strategy now\<rparr>;
               s3 = (if selected s2 \<noteq> None then s2\<lparr>phase := Completed\<rparr> else s2\<lparr>phase := Failed\<rparr>)
           in (Inr (selected s3), s3))"

definition cancel :: "'f negotiation_state \<Rightarrow> 'f negotiation_state" where
  "cancel s = s\<lparr>phase := Cancelled\<rparr>"

definition is_active :: "'f negotiation_state \<Rightarrow> bool" where
  "is_active s \<longleftrightarrow> phase s \<in> {CollectingBids, Evaluating}"

section \<open>Invariants of the agents\<close>

subsection \<open>Provider\<close>

definition provider_inv :: "provider_state \<Rightarrow> bool" where
  "provider_inv s \<longleftrightarrow> allocated s \<le> capacity s \<and> prov_active_jobs s \<le> max_jobs s"

text \<open>An addition that stays below a word of the same width does not overflow.\<close>

lemma add_op_below:
  fixes a b c :: "'a::len word"
  assumes "unat a + unat b \<le> unat c"
  shows "add_op checks a b = Some (a + b)" and "unat (a + b) = unat a + unat b"
proof -
  have "unat a + unat b < 2 ^ LENGTH('a)" using assms unat_lt_len [of c] by (rule le_less_trans)
  then show "add_op checks a b = Some (a + b)" and "unat (a + b) = unat a + unat b"
    by (simp_all add: add_op_def checked_add_def unat_add_exact)
qed

lemma count_up:
  assumes "(a :: 'a::len word) < b"
  shows "add_op checks a 1 = Some (a + 1)" and "unat (a + 1) = unat a + 1"
proof -
  have "unat a + unat (1 :: 'a word) \<le> unat b"
    using assms by (simp add: word_less_nat_alt)
  from add_op_below [OF this] show "add_op checks a 1 = Some (a + 1)" and "unat (a + 1) = unat a + 1"
    by simp_all
qed

lemma allocate_eq:
  "allocate checks amount s =
     Some (if amount > available_capacity s then (Inl (InsufficientCapacity amount (available_capacity s)), s)
           else if prov_active_jobs s \<ge> max_jobs s then (Inl (ProviderMaxJobs (max_jobs s)), s)
           else (Inr (), s\<lparr>allocated := allocated s + amount, prov_active_jobs := prov_active_jobs s + 1\<rparr>))"
proof -
  have "add_op checks (allocated s) amount = Some (allocated s + amount)"
    if "\<not> amount > available_capacity s"
  proof (cases "allocated s \<le> capacity s")
    case True
    with that have "unat (allocated s) + unat amount \<le> unat (capacity s)"
      by (simp add: available_capacity_def word_le_nat_alt not_less)
    then show ?thesis by (rule add_op_below)
  next
    case False
    with that have "amount = 0"
      by (simp add: available_capacity_def saturating_sub_def word_le_nat_alt not_less unat_eq_zero)
    then show ?thesis using unat_lt_len [of "allocated s"] by (simp add: add_op_def checked_add_def)
  qed
  moreover have "add_op checks (prov_active_jobs s) 1 = Some (prov_active_jobs s + 1)"
    if "\<not> prov_active_jobs s \<ge> max_jobs s"
    using that by (intro count_up(1)) (simp add: not_le)
  ultimately show ?thesis by (simp add: allocate_def)
qed

datatype provider_op = Allocate u64 | Free u64 u64

text \<open>A call that panics ends the run, with the state that it had reached by then.\<close>

fun provider_step :: "bool \<Rightarrow> provider_state \<Rightarrow> provider_op \<Rightarrow> provider_state" where
  "provider_step checks s (Allocate x) = (case allocate checks x s of None \<Rightarrow> s | Some (_, s') \<Rightarrow> s')"
| "provider_step checks s (Free x pay) = snd (prov_release checks x pay s)"

lemma provider_inv_step: "provider_inv s \<Longrightarrow> provider_inv (provider_step checks s op)"
proof (cases op)
  case (Allocate x)
  assume inv: "provider_inv s"
  have "provider_inv (s\<lparr>allocated := allocated s + x, prov_active_jobs := prov_active_jobs s + 1\<rparr>)"
    if "\<not> x > available_capacity s" "\<not> prov_active_jobs s \<ge> max_jobs s"
    using that inv count_up(2) [of "prov_active_jobs s" "max_jobs s"]
      add_op_below(2) [of "allocated s" x "capacity s"]
    by (simp add: provider_inv_def available_capacity_def word_le_nat_alt word_less_nat_alt)
  with inv Allocate show ?thesis by (simp add: allocate_eq)
next
  case (Free x pay)
  assume "provider_inv s"
  then show ?thesis
    using Free saturating_sub_le [of "allocated s" x] saturating_sub_le [of "prov_active_jobs s" 1]
    by (cases "add_op checks (earnings s) pay")
      (auto simp: provider_inv_def prov_release_def Let_def intro: order.trans)
qed

interpretation prov: invariant_steps "provider_step checks" provider_inv for checks
  by unfold_locales (rule provider_inv_step)

subsection \<open>Buyer\<close>

datatype buyer_op = Submit | Activate_job u64 | Complete | Cancel_pending

fun buyer_step :: "bool \<Rightarrow> buyer_state \<Rightarrow> buyer_op \<Rightarrow> buyer_state" where
  "buyer_step checks s Submit = (case submit_job checks s of None \<Rightarrow> s | Some (_, s') \<Rightarrow> s')"
| "buyer_step checks s (Activate_job x) = (case activate_job checks x s of None \<Rightarrow> s | Some (_, s') \<Rightarrow> s')"
| "buyer_step checks s Complete = complete_job s"
| "buyer_step checks s Cancel_pending = cancel_pending s"

definition buyer_inv :: "u64 \<Rightarrow> buyer_state \<Rightarrow> bool" where
  "buyer_inv b s \<longleftrightarrow> budget s = b \<and> spent s \<le> b"

lemma activate_job_spent:
  assumes "spent s \<le> budget s" and "activate_job checks price s = Some (Inr (), s')"
  shows "unat (spent s') = unat (spent s) + unat price \<and> spent s' \<le> budget s \<and> budget s' = budget s"
proof -
  from assms have p: "unat (spent s) + unat price \<le> unat (budget s)"
    by (auto simp: activate_job_def buyer_remaining_budget_def word_le_nat_alt not_less
        split: if_splits option.splits)
  from add_op_below [OF p] assms(2) p show ?thesis
    by (auto simp: activate_job_def word_le_nat_alt split: if_splits option.splits)
qed

lemma activate_job_err:
  "activate_job checks price s = Some (Inl e, s') \<Longrightarrow> s' = s"
  by (auto simp: activate_job_def split: if_splits option.splits)

lemma buyer_inv_step: "buyer_inv b s \<Longrightarrow> buyer_inv b (buyer_step checks s op)"
proof (cases op)
  case (Activate_job x)
  assume inv: "buyer_inv b s"
  show ?thesis
  proof (cases "activate_job checks x s")
    case (Some r)
    obtain v s' where r: "r = (v, s')" by (cases r)
    with Some inv Activate_job show ?thesis
      using activate_job_err [of checks x s _ s'] activate_job_spent [of s checks x s']
      by (cases v) (auto simp: buyer_inv_def)
  qed (use inv Activate_job in simp)
qed (auto simp: buyer_inv_def submit_job_def complete_job_def cancel_pending_def split: option.splits)

interpretation buy: invariant_steps "buyer_step checks" "buyer_inv b" for checks b
  by unfold_locales (rule buyer_inv_step)

interpretation best_offer: selection "evaluate_offer flexible req" "\<lambda>off. score_offer off req"
  "select_best_offer flexible score_offer req" for flexible req score_offer
  by unfold_locales (simp add: select_best_offer_def)


subsection \<open>Negotiation\<close>

definition bid_valid :: "negotiation_job \<Rightarrow> int \<Rightarrow> bid \<Rightarrow> bool" where
  "bid_valid job now b \<longleftrightarrow>
     now < bid_expires_at b \<and> bid_price b \<le> nj_max_price job \<and> nj_min_reputation job \<le> bid_reputation b"

definition negotiated_bid where
  "negotiated_bid score_bid job strategy now bs =
     map_option sel_bid (negotiate_at score_bid job bs strategy now)"

lemma max_by_map: "max_by sc (map f xs) = map_option f (max_by (\<lambda>x. sc (f x)) xs)"
proof (cases xs)
  case (Cons y ys)
  have "fold (\<lambda>y best. if sc best > sc y then best else y) (map f ys) (f y) =
      f (fold (\<lambda>y best. if sc (f best) > sc (f y) then best else y) ys y)" for y
    by (induction ys arbitrary: y) (auto simp: if_distrib)
  with Cons show ?thesis by simp
qed simp

lemma negotiate_at_eq:
  "negotiate_at score_bid job bs strategy now =
     map_option (\<lambda>b. \<lparr>sel_bid = b, sel_score = score_bid strategy b (nj_max_price job) now,
                        reason = selection_reason strategy\<rparr>)
       (max_by (\<lambda>b. score_bid strategy b (nj_max_price job) now) (filter (bid_valid job now) bs))"
proof -
  have "filter (\<lambda>b. nj_min_reputation job \<le> bid_reputation b)
      (filter (\<lambda>b. bid_price b \<le> nj_max_price job) (filter (\<lambda>b. \<not> bid_is_expired b now) bs)) =
      filter (bid_valid job now) bs"
    unfolding filter_filter
    by (rule arg_cong [where f = "\<lambda>P. filter P bs"]) (auto simp: bid_valid_def bid_is_expired_def not_le)
  then show ?thesis
    by (simp add: negotiate_at_def Let_def max_by_map option.map_comp comp_def)
qed

interpretation best_bid: selection "bid_valid job now" "\<lambda>b. score_bid strategy b (nj_max_price job) now"
  "negotiated_bid score_bid job strategy now" for job now score_bid strategy
  by unfold_locales (simp add: negotiated_bid_def negotiate_at_eq option.map_comp comp_def option.map_ident)

datatype negotiation_op = N_bid bid | N_finalize negotiation_strategy int | N_cancel

fun negotiation_step where
  "negotiation_step score_bid s (N_bid b) = snd (add_bid b s)"
| "negotiation_step score_bid s (N_finalize st now) = snd (finalize score_bid st now s)"
| "negotiation_step score_bid s N_cancel = cancel s"

text \<open>What is selected is a bid that was made and that satisfies the job; while bids are collected nothing is.\<close>

definition negotiation_inv :: "negotiation_job \<Rightarrow> 'f negotiation_state \<Rightarrow> bool" where
  "negotiation_inv job s \<longleftrightarrow>
     neg_job s = job \<and> phase s \<noteq> Evaluating \<and>
     (phase s = CollectingBids \<longrightarrow> selected s = None) \<and>
     (phase s = Completed \<longrightarrow> selected s \<noteq> None) \<and>
     (phase s = Failed \<longrightarrow> selected s = None) \<and>
     (\<forall>sb. selected s = Some sb \<longrightarrow>
        sel_bid sb \<in> set (bids s) \<and> bid_price (sel_bid sb) \<le> nj_max_price job \<and>
        nj_min_reputation job \<le> bid_reputation (sel_bid sb))"

lemma negotiate_at_sound:
  assumes "negotiate_at score_bid job bs strategy now = Some sb"
  shows "sel_bid sb \<in> set bs \<and> bid_valid job now (sel_bid sb) \<and>
    (\<forall>b \<in> set bs. bid_valid job now b \<longrightarrow>
       score_bid strategy b (nj_max_price job) now \<le> score_bid strategy (sel_bid sb) (nj_max_price job) now)"
proof -
  from assms have "negotiated_bid score_bid job strategy now bs = Some (sel_bid sb)"
    by (simp add: negotiated_bid_def)
  from best_bid.pick_sound [OF this] show ?thesis .
qed

lemma negotiation_inv_step:
  assumes inv: "negotiation_inv job s"
  shows "negotiation_inv job (negotiation_step score_bid s op)"
proof (cases op)
  case (N_finalize st now)
  show ?thesis
  proof (cases "negotiate_at score_bid job (bids s) st now")
    case None
    with inv N_finalize show ?thesis by (auto simp: negotiation_inv_def finalize_def Let_def)
  next
    case (Some sb)
    with inv N_finalize negotiate_at_sound [OF Some] show ?thesis
      by (auto simp: negotiation_inv_def finalize_def Let_def bid_valid_def)
  qed
qed (use inv in \<open>auto simp: negotiation_inv_def add_bid_def cancel_def\<close>)

interpretation neg: invariant_steps "negotiation_step score_bid" "negotiation_inv job" for score_bid job
  by unfold_locales (rule negotiation_inv_step)

section \<open>Properties\<close>

text \<open>
  C26. A provider never overcommits: after any sequence of allocations and releases the allocated
  capacity is at most the capacity and the active jobs at most the maximum, in either build; allocation itself
  never overflows; and a job that the decision maker accepts for the provider's current state can be
  allocated, within the thresholds of the policy.
\<close>
theorem provider_never_overcommits:
  "provider_inv (run (provider_step checks) (provider_new uuid cap mx) ops) \<and>
   allocate checks x s \<noteq> None \<and>
   (evaluate_job_with_state below_minimum min_price job s m th = Accept \<longrightarrow>
      js_price job \<le> max_auto_accept_price th \<and> th_min_reputation th \<le> js_buyer_reputation job \<and>
      js_duration_secs job \<le> th_max_duration_secs th \<and> \<not> below_minimum job \<and>
      (\<exists>s'. allocate checks (js_resources job) s = Some (Inr (), s')))"
proof (intro conjI impI)
  show "provider_inv (run (provider_step checks) (provider_new uuid cap mx) ops)"
    by (rule prov.run_inv) (simp add: provider_inv_def provider_new_def)
qed (auto simp: allocate_eq evaluate_job_with_state_def provider_evaluate_def Let_def not_less not_le
    split: option.splits if_splits)

theorem provider_never_overcommits_witness:
  "\<exists>s'. allocate True 300 (provider_new ''p'' 1000 2) = Some (Inr (), s')"
proof -
  let ?job = "\<lparr>js_id = ''j'', js_resources = 300, js_price = 50, js_duration_secs = 60, js_buyer_reputation = 90\<rparr>"
  have "evaluate_job_with_state (\<lambda>j. js_price j < 10) (\<lambda>_. 10) ?job (provider_new ''p'' 1000 2) Moderate
      (thresholds_for_mode Moderate) = Accept"
    by (simp add: evaluate_job_with_state_def provider_evaluate_def provider_new_def available_capacity_def
        saturating_sub_def)
  with provider_never_overcommits [of True "''p''" 1000 2 "[]" 300 "provider_new ''p'' 1000 2"
      "\<lambda>j. js_price j < 10" "\<lambda>_. 10" ?job Moderate "thresholds_for_mode Moderate"]
  show ?thesis by simp
qed

text \<open>
  A buyer never spends more than its budget, whatever is submitted, activated, completed and cancelled,
  in either build; an activation that succeeds adds exactly its price to what was spent.
\<close>
theorem buyer_within_budget:
  assumes "buyer_inv b s"
  shows "spent (run (buyer_step checks) s ops) \<le> b \<and>
    (activate_job checks price s = Some (Inr (), s') \<longrightarrow> unat (spent s') = unat (spent s) + unat price)"
  using buy.run_inv [OF assms] activate_job_spent [of s checks price s'] assms
  by (auto simp: buyer_inv_def)

theorem buyer_within_budget_witness:
  "spent (run (buyer_step False) (buyer_new ''b'' 100 1) [Submit, Activate_job 70, Submit, Activate_job 70]) \<le> 100"
proof -
  have "buyer_inv 100 (buyer_new ''b'' 100 1)" by (simp add: buyer_inv_def buyer_new_def)
  from buyer_within_budget [OF this] show ?thesis by blast
qed

text \<open>
  The limit on a buyer's active jobs is not enforced: submission compares only the active jobs
  with the maximum and activation does not compare at all, so two jobs submitted before the first is activated
  are both activated under a maximum of one.
\<close>
theorem active_jobs_exceed_maximum:
  "let s = run (buyer_step checks) (buyer_new ''b'' 100 1) [Submit, Submit, Activate_job 10, Activate_job 10]
   in buyer_active_jobs s = 2 \<and> max_active_jobs s = 1"
  by (simp add: submit_job_def activate_job_def buyer_new_def add_op_def sub_op_def checked_add_def
      checked_sub_def buyer_remaining_budget_def saturating_sub_def)

text \<open>
  Selection is sound, complete and optimal: a negotiation returns a bid exactly when one is unexpired, within the
  price and of sufficient reputation, and the bid returned is such a bid, with a score that no
  other such bid exceeds; the same holds for the buyer's choice among offers.
\<close>
theorem best_candidate_selected:
  "(negotiate_at score_bid job bs strategy now = None \<longleftrightarrow> filter (bid_valid job now) bs = []) \<and>
   (negotiate_at score_bid job bs strategy now = Some sb \<longrightarrow>
      sel_bid sb \<in> set bs \<and> bid_valid job now (sel_bid sb) \<and>
      (\<forall>b \<in> set bs. bid_valid job now b \<longrightarrow>
         score_bid strategy b (nj_max_price job) now \<le> score_bid strategy (sel_bid sb) (nj_max_price job) now)) \<and>
   (select_best_offer flexible score_offer req offs = Some off \<longrightarrow>
      off \<in> set offs \<and> evaluate_offer flexible req off \<and>
      (\<forall>off' \<in> set offs. evaluate_offer flexible req off' \<longrightarrow> score_offer off' req \<le> score_offer off req)) \<and>
   (select_best_offer flexible score_offer req offs = None \<longleftrightarrow> filter (evaluate_offer flexible req) offs = [])"
  using negotiate_at_sound [of score_bid job bs strategy now sb]
    best_offer.pick_sound [of flexible score_offer req offs off]
  by (simp add: negotiate_at_eq select_best_offer_def)

definition example_bid :: "string \<Rightarrow> u64 \<Rightarrow> bid" where
  "example_bid p price =
     \<lparr>bid_id = p, bid_provider = p, bid_price = price, available_at = 0, bid_expires_at = 100, bid_reputation = 80\<rparr>"

definition example_job :: negotiation_job where
  "example_job = \<lparr>nj_id = ''j'', nj_resources = 10, nj_max_price = 1000, nj_min_reputation = 50\<rparr>"

definition cheapest :: "negotiation_strategy \<Rightarrow> bid \<Rightarrow> u64 \<Rightarrow> int \<Rightarrow> int" where
  "cheapest strategy b mx now = int (unat mx) - int (unat (bid_price b))"

theorem best_candidate_selected_witness:
  "bid_valid example_job 10
     (sel_bid (the (negotiate_at cheapest example_job [example_bid ''p'' 900, example_bid ''q'' 300] LowestPrice 10)))"
proof -
  obtain sb where "negotiate_at cheapest example_job [example_bid ''p'' 900, example_bid ''q'' 300] LowestPrice 10 = Some sb"
    by (simp add: negotiate_at_def example_job_def example_bid_def bid_is_expired_def)
  with best_candidate_selected [of cheapest example_job "[example_bid ''p'' 900, example_bid ''q'' 300]" LowestPrice 10 sb
      "\<lambda>x. x" "\<lambda>_ _. 0 :: int"]
  show ?thesis by simp
qed

text \<open>
  A negotiation keeps its promises: along any sequence of bids, finalisations and cancellations, a
  completed negotiation has selected one of the bids made to it, within the job's price and
  reputation, a failed one has selected none, and bids are taken only before it is finalised.
\<close>
theorem negotiation_invariant:
  "negotiation_inv job (run (negotiation_step score_bid) (negotiation_new uuid now job dl) ops) \<and>
   (phase s = CollectingBids \<or> add_bid b s = (Inl NotCollectingBids, s) \<and>
      finalize score_bid strategy now s = (Inl AlreadyFinalized, s))"
proof
  show "negotiation_inv job (run (negotiation_step score_bid) (negotiation_new uuid now job dl) ops)"
    by (rule neg.run_inv) (simp add: negotiation_inv_def negotiation_new_def)
qed (simp add: add_bid_def finalize_def)

text \<open>
  Cancelling has no guard: a completed negotiation can be cancelled, and still names the bid it
  had selected.
\<close>
theorem completed_negotiation_cancelled:
  "let s = run (negotiation_step cheapest) (negotiation_new ''n'' 0 example_job 50)
             [N_bid (example_bid ''p'' 900), N_finalize LowestPrice 10];
       s' = cancel s
   in phase s = Completed \<and> phase s' = Cancelled \<and> selected s' \<noteq> None \<and> selected s' = selected s"
  by (simp add: add_bid_def finalize_def negotiate_at_def example_job_def example_bid_def bid_is_expired_def
      negotiation_new_def cancel_def Let_def)

end
