(* ===== verification/Diversity.thy ===== *)
theory Diversity
  imports Decimal
begin

text \<open>
  The peer diversity tracker, \<open>crates/molt-p2p/src/diversity.rs\<close>: limits on the number of peers per
  IPv4 subnet, IPv6 prefix and autonomous system, against eclipse attacks. Counts (\<open>usize\<close>) are
  natural numbers. The floating-point diversity score is not modelled.
\<close>

section \<open>Data\<close>

record diversity_config =
  max_per_ipv4_subnet :: nat
  max_per_ipv6_prefix :: nat
  max_per_asn :: nat
  enable_geo_diversity :: bool
  min_geo_regions :: nat
  allow_private_ips :: bool
  div_enabled :: bool

definition diversity_default :: diversity_config where
  "diversity_default = \<lparr>max_per_ipv4_subnet = 2, max_per_ipv6_prefix = 2, max_per_asn = 5,
     enable_geo_diversity = True, min_geo_regions = 3, allow_private_ips = True, div_enabled = True\<rparr>"

definition diversity_strict :: diversity_config where
  "diversity_strict = \<lparr>max_per_ipv4_subnet = 1, max_per_ipv6_prefix = 1, max_per_asn = 3,
     enable_geo_diversity = True, min_geo_regions = 5, allow_private_ips = False, div_enabled = True\<rparr>"

definition diversity_permissive :: diversity_config where
  "diversity_permissive = \<lparr>max_per_ipv4_subnet = 10, max_per_ipv6_prefix = 10, max_per_asn = 20,
     enable_geo_diversity = False, min_geo_regions = 0, allow_private_ips = True, div_enabled = True\<rparr>"

definition diversity_disabled :: diversity_config where
  "diversity_disabled = diversity_default\<lparr>div_enabled := False\<rparr>"

datatype ipv4_subnet = Ipv4Subnet u8 u8 u8
datatype ipv6_prefix = Ipv6Prefix u8 u8 u8 u8 u8 u8
datatype asn = Asn u32
datatype geo_region = GeoRegion string

definition subnet_from_addr :: "u8 \<Rightarrow> u8 \<Rightarrow> u8 \<Rightarrow> u8 \<Rightarrow> ipv4_subnet" where
  "subnet_from_addr a b c d = Ipv4Subnet a b c"

definition prefix_from_addr :: "u16 \<Rightarrow> u16 \<Rightarrow> u16 \<Rightarrow> ipv6_prefix" where
  "prefix_from_addr s0 s1 s2 =
     Ipv6Prefix (ucast (drop_bit 8 s0)) (ucast s0) (ucast (drop_bit 8 s1)) (ucast s1)
       (ucast (drop_bit 8 s2)) (ucast s2)"

definition show_u8 :: "u8 \<Rightarrow> string" where
  "show_u8 b = show_nat (unat b)"

definition show_hex2 :: "u8 \<Rightarrow> string" where
  "show_hex2 b = [hex_digit (unat b div 16), hex_digit (unat b mod 16)]"

fun show_subnet :: "ipv4_subnet \<Rightarrow> string" where
  "show_subnet (Ipv4Subnet a b c) = show_u8 a @ ''.'' @ show_u8 b @ ''.'' @ show_u8 c @ ''.0/24''"

fun show_prefix :: "ipv6_prefix \<Rightarrow> string" where
  "show_prefix (Ipv6Prefix a b c d e f) =
     show_hex2 a @ show_hex2 b @ '':'' @ show_hex2 c @ show_hex2 d @ '':'' @ show_hex2 e @ show_hex2 f @ ''::/48''"

fun show_asn :: "asn \<Rightarrow> string" where
  "show_asn (Asn n) = ''AS'' @ show_nat (unat n)"

datatype diversity_result =
    Accepted
  | RejectedSubnetLimit string nat nat
  | RejectedPrefixLimit string nat nat
  | RejectedAsnLimit string nat nat
  | RejectedPrivateIp
  | Disabled

definition is_accepted :: "diversity_result \<Rightarrow> bool" where
  "is_accepted r \<longleftrightarrow> r \<in> {Accepted, Disabled}"

fun rejection_reason :: "diversity_result \<Rightarrow> string option" where
  "rejection_reason Accepted = None"
| "rejection_reason Disabled = None"
| "rejection_reason (RejectedSubnetLimit s c l) =
     Some (''subnet '' @ s @ '' has '' @ show_nat c @ ''/'' @ show_nat l @ '' peers'')"
| "rejection_reason (RejectedPrefixLimit p c l) =
     Some (''prefix '' @ p @ '' has '' @ show_nat c @ ''/'' @ show_nat l @ '' peers'')"
| "rejection_reason (RejectedAsnLimit a c l) =
     Some (a @ '' has '' @ show_nat c @ ''/'' @ show_nat l @ '' peers'')"
| "rejection_reason RejectedPrivateIp = Some ''private IPs not allowed''"

record peer_diversity_info =
  info_ip :: ip_addr
  info_asn :: "asn option"
  info_region :: "geo_region option"

record diversity_tracker =
  div_config :: diversity_config
  ipv4_subnet_counts :: "(ipv4_subnet, nat) hashmap"
  ipv6_prefix_counts :: "(ipv6_prefix, nat) hashmap"
  asn_counts :: "(asn, nat) hashmap"
  geo_region_counts :: "(geo_region, nat) hashmap"
  tracked_peers :: "(ip_addr, peer_diversity_info) hashmap"

section \<open>Operations\<close>

text \<open>The address classes of the standard library, and the check built from them.\<close>

fun is_private_ip :: "ip_addr \<Rightarrow> bool" where
  "is_private_ip (V4 a b c d) =
     (a = 10 \<or> (a = 172 \<and> 16 \<le> b \<and> b \<le> 31) \<or> (a = 192 \<and> b = 168) \<or> a = 127 \<or> (a = 169 \<and> b = 254) \<or>
      (a = 255 \<and> b = 255 \<and> c = 255 \<and> d = 255) \<or> (a = 0 \<and> b = 0 \<and> c = 0 \<and> d = 0))"
| "is_private_ip (V6 s0 s1 s2 s3 s4 s5 s6 s7) =
     (s0 = 0 \<and> s1 = 0 \<and> s2 = 0 \<and> s3 = 0 \<and> s4 = 0 \<and> s5 = 0 \<and> s6 = 0 \<and> (s7 = 1 \<or> s7 = 0))"

definition diversity_tracker_new :: "diversity_config \<Rightarrow> diversity_tracker" where
  "diversity_tracker_new cfg = \<lparr>div_config = cfg, ipv4_subnet_counts = [], ipv6_prefix_counts = [], asn_counts = [],
     geo_region_counts = [], tracked_peers = []\<rparr>"

definition set_config :: "diversity_config \<Rightarrow> diversity_tracker \<Rightarrow> diversity_tracker" where
  "set_config cfg t = t\<lparr>div_config := cfg\<rparr>"

text \<open>\<open>get(..).copied().unwrap_or(0)\<close>.\<close>

definition count_of :: "('k, nat) hashmap \<Rightarrow> 'k \<Rightarrow> nat" where
  "count_of m k = (case hm_get m k of None \<Rightarrow> 0 | Some n \<Rightarrow> n)"

definition check_address :: "diversity_tracker \<Rightarrow> ip_addr \<Rightarrow> diversity_result option" where
  "check_address t ip = (case ip of
       V4 a b c d \<Rightarrow>
         let subnet = subnet_from_addr a b c d;
             current = count_of (ipv4_subnet_counts t) subnet;
             limit = max_per_ipv4_subnet (div_config t)
         in if current \<ge> limit then Some (RejectedSubnetLimit (show_subnet subnet) current limit) else None
     | V6 s0 s1 s2 s3 s4 s5 s6 s7 \<Rightarrow>
         let prefix = prefix_from_addr s0 s1 s2;
             current = count_of (ipv6_prefix_counts t) prefix;
             limit = max_per_ipv6_prefix (div_config t)
         in if current \<ge> limit then Some (RejectedPrefixLimit (show_prefix prefix) current limit) else None)"

definition check_asn :: "diversity_tracker \<Rightarrow> asn option \<Rightarrow> diversity_result option" where
  "check_asn t as =
     (if max_per_asn (div_config t) > 0 then
        (case as of
           None \<Rightarrow> None
         | Some n \<Rightarrow>
             let current = count_of (asn_counts t) n; limit = max_per_asn (div_config t)
             in if current \<ge> limit then Some (RejectedAsnLimit (show_asn n) current limit) else None)
      else None)"

definition check :: "diversity_tracker \<Rightarrow> ip_addr \<Rightarrow> asn option \<Rightarrow> diversity_result" where
  "check t ip as =
     (if \<not> div_enabled (div_config t) then Disabled
      else if \<not> allow_private_ips (div_config t) \<and> is_private_ip ip then RejectedPrivateIp
      else case check_address t ip of
        Some r \<Rightarrow> r
      | None \<Rightarrow> (case check_asn t as of Some r \<Rightarrow> r | None \<Rightarrow> Accepted))"

text \<open>\<open>*entry(k).or_insert(0) += 1\<close>, and its inverse that drops a count of zero.\<close>

definition bump :: "'k option \<Rightarrow> ('k, nat) hashmap \<Rightarrow> ('k, nat) hashmap" where
  "bump k m = (case k of None \<Rightarrow> m | Some k \<Rightarrow> hm_insert k (count_of m k + 1) m)"

definition unbump :: "'k option \<Rightarrow> ('k, nat) hashmap \<Rightarrow> ('k, nat) hashmap" where
  "unbump k m =
     (case k of
        None \<Rightarrow> m
      | Some k \<Rightarrow>
          (case hm_get m k of
             None \<Rightarrow> m
           | Some n \<Rightarrow> if n - 1 = 0 then hm_remove k m else hm_insert k (n - 1) m))"

fun subnet_key :: "ip_addr \<Rightarrow> ipv4_subnet option" where
  "subnet_key (V4 a b c d) = Some (subnet_from_addr a b c d)"
| "subnet_key (V6 s0 s1 s2 s3 s4 s5 s6 s7) = None"

fun prefix_key :: "ip_addr \<Rightarrow> ipv6_prefix option" where
  "prefix_key (V4 a b c d) = None"
| "prefix_key (V6 s0 s1 s2 s3 s4 s5 s6 s7) = Some (prefix_from_addr s0 s1 s2)"

definition add_peer_internal ::
  "ip_addr \<Rightarrow> asn option \<Rightarrow> geo_region option \<Rightarrow> diversity_tracker \<Rightarrow> diversity_tracker" where
  "add_peer_internal ip as geo t =
     t\<lparr>ipv4_subnet_counts := bump (subnet_key ip) (ipv4_subnet_counts t),
       ipv6_prefix_counts := bump (prefix_key ip) (ipv6_prefix_counts t),
       asn_counts := bump as (asn_counts t),
       geo_region_counts := bump geo (geo_region_counts t),
       tracked_peers := hm_insert ip \<lparr>info_ip = ip, info_asn = as, info_region = geo\<rparr> (tracked_peers t)\<rparr>"

definition check_and_add ::
  "ip_addr \<Rightarrow> asn option \<Rightarrow> geo_region option \<Rightarrow> diversity_tracker \<Rightarrow> diversity_result \<times> diversity_tracker" where
  "check_and_add ip as geo t =
     (let result = check t ip as
      in (result, if is_accepted result \<and> div_enabled (div_config t) then add_peer_internal ip as geo t else t))"

definition add_unchecked ::
  "ip_addr \<Rightarrow> asn option \<Rightarrow> geo_region option \<Rightarrow> diversity_tracker \<Rightarrow> diversity_tracker" where
  "add_unchecked ip as geo t = (if div_enabled (div_config t) then add_peer_internal ip as geo t else t)"

definition div_remove :: "ip_addr \<Rightarrow> diversity_tracker \<Rightarrow> bool \<times> diversity_tracker" where
  "div_remove ip t =
     (case hm_get (tracked_peers t) ip of
        None \<Rightarrow> (False, t)
      | Some info \<Rightarrow>
          (True, t\<lparr>ipv4_subnet_counts := unbump (subnet_key (info_ip info)) (ipv4_subnet_counts t),
                   ipv6_prefix_counts := unbump (prefix_key (info_ip info)) (ipv6_prefix_counts t),
                   asn_counts := unbump (info_asn info) (asn_counts t),
                   geo_region_counts := unbump (info_region info) (geo_region_counts t),
                   tracked_peers := hm_remove ip (tracked_peers t)\<rparr>))"

definition div_clear :: "diversity_tracker \<Rightarrow> diversity_tracker" where
  "div_clear t = t\<lparr>ipv4_subnet_counts := [], ipv6_prefix_counts := [], asn_counts := [],
     geo_region_counts := [], tracked_peers := []\<rparr>"

definition would_improve_geo_diversity :: "diversity_tracker \<Rightarrow> geo_region \<Rightarrow> bool" where
  "would_improve_geo_diversity t region =
     (if \<not> enable_geo_diversity (div_config t) then False
      else if \<not> hm_contains (geo_region_counts t) region then True
      else if length (geo_region_counts t) < min_geo_regions (div_config t) then True
      else False)"

record diversity_stats =
  total_peers :: nat
  distinct_subnets :: nat
  distinct_prefixes :: nat
  distinct_asns :: nat
  distinct_regions :: nat
  max_peers_per_subnet :: nat
  max_peers_per_prefix :: nat
  max_peers_per_asn :: nat

definition max_count :: "('k, nat) hashmap \<Rightarrow> nat" where
  "max_count m = foldr max (hm_values m) 0"

definition div_stats :: "diversity_tracker \<Rightarrow> diversity_stats" where
  "div_stats t =
     \<lparr>total_peers = length (tracked_peers t), distinct_subnets = length (ipv4_subnet_counts t),
      distinct_prefixes = length (ipv6_prefix_counts t), distinct_asns = length (asn_counts t),
      distinct_regions = length (geo_region_counts t), max_peers_per_subnet = max_count (ipv4_subnet_counts t),
      max_peers_per_prefix = max_count (ipv6_prefix_counts t), max_peers_per_asn = max_count (asn_counts t)\<rparr>"

definition is_healthy :: "diversity_stats \<Rightarrow> diversity_config \<Rightarrow> bool" where
  "is_healthy st cfg \<longleftrightarrow>
     max_peers_per_subnet st \<le> max_per_ipv4_subnet cfg \<and> max_peers_per_prefix st \<le> max_per_ipv6_prefix cfg \<and>
     (max_per_asn cfg = 0 \<or> max_peers_per_asn st \<le> max_per_asn cfg)"


section \<open>Counts against the tracked peers\<close>

text \<open>How many tracked peers have a given key.\<close>

definition tracked_with :: "(peer_diversity_info \<Rightarrow> 'k option) \<Rightarrow> (ip_addr, peer_diversity_info) hashmap \<Rightarrow> 'k \<Rightarrow> nat" where
  "tracked_with key peers k = hm_sum (\<lambda>i. if key i = Some k then 1 else 0) peers"

text \<open>
  A count table covers the tracked peers when no key counts fewer than there are. It is exact
  when the numbers agree.
\<close>

definition covers :: "(peer_diversity_info \<Rightarrow> 'k option) \<Rightarrow> (ip_addr, peer_diversity_info) hashmap \<Rightarrow> ('k, nat) hashmap \<Rightarrow> bool" where
  "covers key peers counts \<longleftrightarrow> hm_wf counts \<and> (\<forall>k. tracked_with key peers k \<le> count_of counts k)"

definition exact :: "(peer_diversity_info \<Rightarrow> 'k option) \<Rightarrow> (ip_addr, peer_diversity_info) hashmap \<Rightarrow> ('k, nat) hashmap \<Rightarrow> bool" where
  "exact key peers counts \<longleftrightarrow> hm_wf counts \<and> (\<forall>k. tracked_with key peers k = count_of counts k)"

lemma count_of_bump:
  "count_of (bump k' m) k = count_of m k + (if k' = Some k then 1 else 0)"
  by (auto simp: count_of_def bump_def split: option.splits)

lemma wf_bump [simp]: "hm_wf m \<Longrightarrow> hm_wf (bump k m)"
  by (simp add: bump_def split: option.split)

lemma count_of_unbump:
  "count_of (unbump k' m) k = count_of m k - (if k' = Some k then 1 else 0)"
  by (auto simp: count_of_def unbump_def split: option.splits)

lemma wf_unbump [simp]: "hm_wf m \<Longrightarrow> hm_wf (unbump k m)"
  by (simp add: unbump_def split: option.split)

lemma tracked_insert:
  "hm_wf peers \<Longrightarrow>
   tracked_with key (hm_insert ip i peers) k + opt_sum (\<lambda>i. if key i = Some k then 1 else 0) (hm_get peers ip) =
     tracked_with key peers k + (if key i = Some k then 1 else 0)"
  unfolding tracked_with_def by (rule hm_sum_insert)

lemma tracked_remove:
  "hm_wf peers \<Longrightarrow>
   tracked_with key (hm_remove ip peers) k + opt_sum (\<lambda>i. if key i = Some k then 1 else 0) (hm_get peers ip) =
     tracked_with key peers k"
  unfolding tracked_with_def by (rule hm_sum_remove)

lemma covers_add:
  assumes "covers key peers counts" and "hm_wf peers" and "key i = v"
  shows "covers key (hm_insert ip i peers) (bump v counts)"
proof -
  have "tracked_with key (hm_insert ip i peers) k \<le> count_of (bump v counts) k" for k
  proof -
    have "tracked_with key peers k \<le> count_of counts k" using assms(1) by (simp add: covers_def)
    then show ?thesis
      using tracked_insert [OF assms(2), of key ip i k] unfolding count_of_bump assms(3) by linarith
  qed
  with assms(1) show ?thesis by (simp add: covers_def)
qed

lemma covers_remove:
  assumes "covers key peers counts" and "hm_wf peers" and "hm_get peers ip = Some i" and "key i = v"
  shows "covers key (hm_remove ip peers) (unbump v counts)"
proof -
  have "tracked_with key (hm_remove ip peers) k = tracked_with key peers k - (if key i = Some k then 1 else 0)" for k
    using tracked_remove [OF assms(2), of key ip k] assms(3) by simp
  with assms(1,4) show ?thesis by (simp add: covers_def count_of_unbump diff_le_mono)
qed

lemma exact_add:
  assumes "exact key peers counts" and "hm_wf peers" and "hm_get peers ip = None" and "key i = v"
  shows "exact key (hm_insert ip i peers) (bump v counts)"
  using assms tracked_insert [OF assms(2), of key ip i] by (simp add: exact_def count_of_bump)

lemma exact_remove:
  assumes "exact key peers counts" and "hm_wf peers" and "hm_get peers ip = Some i" and "key i = v"
  shows "exact key (hm_remove ip peers) (unbump v counts)"
proof -
  have "tracked_with key (hm_remove ip peers) k = tracked_with key peers k - (if key i = Some k then 1 else 0)" for k
    using tracked_remove [OF assms(2), of key ip k] assms(3) by simp
  with assms(1,4) show ?thesis by (simp add: exact_def count_of_unbump)
qed

section \<open>The invariant\<close>

definition bounded_by :: "('k, nat) hashmap \<Rightarrow> nat \<Rightarrow> bool" where
  "bounded_by counts limit \<longleftrightarrow> (\<forall>k. count_of counts k \<le> limit)"

definition all_cover :: "diversity_tracker \<Rightarrow> bool" where
  "all_cover t \<longleftrightarrow>
     hm_wf (tracked_peers t) \<and>
     covers (\<lambda>i. subnet_key (info_ip i)) (tracked_peers t) (ipv4_subnet_counts t) \<and>
     covers (\<lambda>i. prefix_key (info_ip i)) (tracked_peers t) (ipv6_prefix_counts t) \<and>
     covers info_asn (tracked_peers t) (asn_counts t) \<and>
     covers info_region (tracked_peers t) (geo_region_counts t)"

definition all_exact :: "diversity_tracker \<Rightarrow> bool" where
  "all_exact t \<longleftrightarrow>
     hm_wf (tracked_peers t) \<and>
     exact (\<lambda>i. subnet_key (info_ip i)) (tracked_peers t) (ipv4_subnet_counts t) \<and>
     exact (\<lambda>i. prefix_key (info_ip i)) (tracked_peers t) (ipv6_prefix_counts t) \<and>
     exact info_asn (tracked_peers t) (asn_counts t) \<and>
     exact info_region (tracked_peers t) (geo_region_counts t)"

definition within_limits :: "diversity_config \<Rightarrow> diversity_tracker \<Rightarrow> bool" where
  "within_limits cfg t \<longleftrightarrow>
     div_config t = cfg \<and> bounded_by (ipv4_subnet_counts t) (max_per_ipv4_subnet cfg) \<and>
     bounded_by (ipv6_prefix_counts t) (max_per_ipv6_prefix cfg) \<and>
     (max_per_asn cfg > 0 \<longrightarrow> bounded_by (asn_counts t) (max_per_asn cfg)) \<and>
     (\<not> allow_private_ips cfg \<longrightarrow> (\<forall>ip. hm_contains (tracked_peers t) ip \<longrightarrow> \<not> is_private_ip ip))"

definition div_inv :: "diversity_config \<Rightarrow> diversity_tracker \<Rightarrow> bool" where
  "div_inv cfg t \<longleftrightarrow> all_cover t \<and> within_limits cfg t"

datatype div_op = D_add ip_addr "asn option" "geo_region option" | D_remove ip_addr | D_clear

fun div_step :: "diversity_tracker \<Rightarrow> div_op \<Rightarrow> diversity_tracker" where
  "div_step t (D_add ip as geo) = snd (check_and_add ip as geo t)"
| "div_step t (D_remove ip) = snd (div_remove ip t)"
| "div_step t D_clear = div_clear t"

lemma all_cover_step: "all_cover t \<Longrightarrow> all_cover (div_step t op)"
proof (cases op)
  case (D_add ip as geo)
  assume "all_cover t"
  then have "all_cover (add_peer_internal ip as geo t)"
    by (auto simp: all_cover_def add_peer_internal_def intro!: covers_add)
  with \<open>all_cover t\<close> D_add show ?thesis by (simp add: check_and_add_def Let_def)
next
  case (D_remove ip)
  assume "all_cover t"
  with D_remove show ?thesis
    by (cases "hm_get (tracked_peers t) ip")
      (auto simp: all_cover_def div_remove_def intro!: covers_remove)
qed (simp add: all_cover_def div_clear_def covers_def tracked_with_def)

lemma bounded_bump:
  "bounded_by m n \<Longrightarrow> (\<And>k'. k = Some k' \<Longrightarrow> count_of m k' < n) \<Longrightarrow> bounded_by (bump k m) n"
  by (auto simp: bounded_by_def count_of_bump Suc_le_eq)

lemma bounded_unbump: "bounded_by m n \<Longrightarrow> bounded_by (unbump k m) n"
  by (auto simp: bounded_by_def count_of_unbump intro: le_trans [OF diff_le_self])

lemma check_address_pass:
  assumes "check_address t ip = None"
  shows "subnet_key ip = Some k \<Longrightarrow> count_of (ipv4_subnet_counts t) k < max_per_ipv4_subnet (div_config t)"
    and "prefix_key ip = Some p \<Longrightarrow> count_of (ipv6_prefix_counts t) p < max_per_ipv6_prefix (div_config t)"
  using assms by (cases ip; simp add: check_address_def Let_def not_le split: if_splits)+

lemma check_asn_pass:
  assumes "check_asn t as = None" and "max_per_asn (div_config t) > 0" and "as = Some n"
  shows "count_of (asn_counts t) n < max_per_asn (div_config t)"
  using assms by (simp add: check_asn_def Let_def not_le split: if_splits)

lemma check_accepted:
  assumes "is_accepted (check t ip as)" and "div_enabled (div_config t)"
  shows "(allow_private_ips (div_config t) \<or> \<not> is_private_ip ip) \<and> check_address t ip = None \<and> check_asn t as = None"
proof -
  have "check_address t ip = Some r \<Longrightarrow> \<not> is_accepted r" and "check_asn t as = Some r \<Longrightarrow> \<not> is_accepted r" for r
    by (cases ip; auto simp: check_address_def is_accepted_def Let_def split: if_splits)
      (auto simp: check_asn_def is_accepted_def Let_def split: if_splits option.splits)
  moreover have "\<not> is_accepted RejectedPrivateIp" by (simp add: is_accepted_def)
  ultimately show ?thesis
    using assms by (auto simp: check_def split: if_splits option.splits)
qed

lemma within_limits_step:
  assumes "within_limits cfg t"
  shows "within_limits cfg (div_step t op)"
proof (cases op)
  case (D_add ip as geo)
  have "within_limits cfg (add_peer_internal ip as geo t)"
    if "is_accepted (check t ip as)" "div_enabled (div_config t)"
    using assms check_accepted [OF that] check_address_pass [of t ip] check_asn_pass [of t as]
    by (auto simp: within_limits_def add_peer_internal_def intro!: bounded_bump)
  then show ?thesis using assms D_add by (simp add: check_and_add_def Let_def)
next
  case (D_remove ip)
  with assms show ?thesis
    by (cases "hm_get (tracked_peers t) ip")
      (auto simp: within_limits_def div_remove_def hm_contains_def bounded_unbump split: if_splits)
qed (use assms in \<open>auto simp: within_limits_def div_clear_def bounded_by_def count_of_def hm_contains_def\<close>)

interpretation div: invariant_steps div_step "div_inv cfg" for cfg
  by unfold_locales (simp add: div_inv_def all_cover_step within_limits_step)

lemma div_inv_new: "div_inv cfg (diversity_tracker_new cfg)"
  by (simp add: div_inv_def all_cover_def within_limits_def diversity_tracker_new_def covers_def
      tracked_with_def bounded_by_def count_of_def hm_contains_def)

lemma max_count_bounded: "hm_wf m \<Longrightarrow> bounded_by m n \<Longrightarrow> max_count m \<le> n"
proof -
  assume wf: "hm_wf m" and b: "bounded_by m n"
  have "v \<le> n" if "(k, v) \<in> set m" for k v
    using b wf that by (auto simp: bounded_by_def count_of_def dest!: spec [of _ k] map_of_is_SomeI)
  then have "list_all (\<lambda>v. v \<le> n) (hm_values m)" by (auto simp: list_all_iff)
  moreover have "list_all (\<lambda>v. v \<le> n) vs \<Longrightarrow> foldr max vs 0 \<le> n" for vs by (induction vs) auto
  ultimately show ?thesis by (simp add: max_count_def)
qed

section \<open>Properties\<close>

text \<open>
  C14. Eclipse protection: after any sequence of checked additions, removals and clearings the tracked
  peers of one IPv4 subnet, one IPv6 prefix and (when limited) one autonomous system are at
  most the configured maximum, none is private when private addresses are not allowed, and the
  tracker reports itself healthy.
\<close>
theorem diversity_limits_hold:
  "let t = run div_step (diversity_tracker_new cfg) ops
   in tracked_with (\<lambda>i. subnet_key (info_ip i)) (tracked_peers t) k \<le> max_per_ipv4_subnet cfg \<and>
      tracked_with (\<lambda>i. prefix_key (info_ip i)) (tracked_peers t) p \<le> max_per_ipv6_prefix cfg \<and>
      (max_per_asn cfg = 0 \<or> tracked_with info_asn (tracked_peers t) n \<le> max_per_asn cfg) \<and>
      (allow_private_ips cfg \<or> filter is_private_ip (map fst (tracked_peers t)) = []) \<and>
      is_healthy (div_stats t) cfg"
proof -
  let ?t = "run div_step (diversity_tracker_new cfg) ops"
  have inv: "div_inv cfg ?t" by (rule div.run_inv [OF div_inv_new])
  have m: "max_count (ipv4_subnet_counts ?t) \<le> max_per_ipv4_subnet cfg"
    "max_count (ipv6_prefix_counts ?t) \<le> max_per_ipv6_prefix cfg"
    "max_per_asn cfg = 0 \<or> max_count (asn_counts ?t) \<le> max_per_asn cfg"
    using inv max_count_bounded
    by (auto simp: div_inv_def within_limits_def all_cover_def covers_def)
  have "\<forall>ip \<in> fst ` set (tracked_peers ?t). hm_contains (tracked_peers ?t) ip"
    by (auto simp: hm_contains_def weak_map_of_SomeI)
  then have "allow_private_ips cfg \<or> filter is_private_ip (map fst (tracked_peers ?t)) = []"
    using inv by (fastforce simp: div_inv_def within_limits_def filter_empty_conv)
  with inv m show ?thesis
    unfolding Let_def is_healthy_def div_stats_def
    by (auto simp: div_inv_def within_limits_def all_cover_def covers_def bounded_by_def intro: order.trans)
qed

text \<open>
  The counts are exact as long as no address is added twice: adding an untracked peer and removing a peer keep every
  count equal to the number of tracked peers it stands for, and adding a new peer and removing it restores the counts.
\<close>
theorem diversity_counts_exact:
  assumes "all_exact t" and "hm_get (tracked_peers t) ip = None"
  shows "all_exact (snd (check_and_add ip as geo t)) \<and> all_exact (snd (div_remove ip' t)) \<and>
    count_of (ipv4_subnet_counts (snd (div_remove ip (add_peer_internal ip as geo t)))) k =
      count_of (ipv4_subnet_counts t) k"
proof (intro conjI)
  have "all_exact (add_peer_internal ip as geo t)"
    using assms by (auto simp: all_exact_def add_peer_internal_def intro!: exact_add)
  with assms show "all_exact (snd (check_and_add ip as geo t))" by (simp add: check_and_add_def Let_def)
  show "all_exact (snd (div_remove ip' t))"
    using assms
    by (cases "hm_get (tracked_peers t) ip'")
      (auto simp: all_exact_def div_remove_def intro!: exact_remove)
  show "count_of (ipv4_subnet_counts (snd (div_remove ip (add_peer_internal ip as geo t)))) k =
      count_of (ipv4_subnet_counts t) k"
    by (simp add: div_remove_def add_peer_internal_def count_of_unbump count_of_bump)
qed

theorem diversity_counts_exact_witness:
  "all_exact (snd (check_and_add (V4 8 8 8 8) None None (diversity_tracker_new diversity_default)))"
proof -
  have "all_exact (diversity_tracker_new diversity_default)"
    by (simp add: all_exact_def diversity_tracker_new_def exact_def tracked_with_def count_of_def)
  moreover have "hm_get (tracked_peers (diversity_tracker_new diversity_default)) (V4 8 8 8 8) = None"
    by (simp add: diversity_tracker_new_def)
  ultimately show ?thesis using diversity_counts_exact by blast
qed

text \<open>A tracker that counts \<open>n\<close> peers of the subnet 8.8.8.0/24.\<close>

definition example_tracker :: "nat \<Rightarrow> (ip_addr, peer_diversity_info) hashmap \<Rightarrow> diversity_tracker" where
  "example_tracker n peers = (diversity_tracker_new diversity_default)
     \<lparr>ipv4_subnet_counts := (if n = 0 then [] else [(Ipv4Subnet 8 8 8, n)]), tracked_peers := peers\<rparr>"

lemma example_count: "count_of (ipv4_subnet_counts (example_tracker n peers)) (Ipv4Subnet 8 8 8) = n"
  by (simp add: example_tracker_def count_of_def)

lemma example_add:
  "n < 2 \<Longrightarrow> div_step (example_tracker n peers) (D_add (V4 8 8 8 d) None None) =
     example_tracker (n + 1)
       (hm_insert (V4 8 8 8 d) \<lparr>info_ip = V4 8 8 8 d, info_asn = None, info_region = None\<rparr> peers)"
  by (simp add: check_and_add_def check_def check_address_def check_asn_def subnet_from_addr_def
      is_accepted_def add_peer_internal_def bump_def count_of_def hm_insert_def
      example_tracker_def diversity_tracker_new_def diversity_default_def)

lemma example_remove:
  "hm_get peers (V4 8 8 8 d) = Some i \<Longrightarrow> info_ip i = V4 8 8 8 d \<Longrightarrow> info_asn i = None \<Longrightarrow> info_region i = None \<Longrightarrow>
   div_step (example_tracker (Suc n) peers) (D_remove (V4 8 8 8 d)) = example_tracker n (hm_remove (V4 8 8 8 d) peers)"
  by (simp add: div_remove_def unbump_def subnet_from_addr_def hm_insert_def hm_remove_def
      example_tracker_def diversity_tracker_new_def)

text \<open>
  A peer that is added twice leaks a slot: after the same address is added twice and removed, the tracker
  tracks nobody and still counts one peer in the subnet, so under a limit of two only one peer of
  the subnet is accepted at a time from then on.
\<close>
theorem readded_peer_leaks:
  "let ip = V4 8 8 8 8;
       cycle = [D_add ip None None, D_add ip None None, D_remove ip];
       t = run div_step (diversity_tracker_new diversity_default) cycle;
       t' = run div_step t [D_add ip None None, D_remove ip, D_add (V4 8 8 8 9) None None]
   in tracked_peers t = [] \<and> count_of (ipv4_subnet_counts t) (Ipv4Subnet 8 8 8) = 1 \<and>
      length (tracked_peers t') = 1 \<and> check t' ip None = RejectedSubnetLimit ''8.8.8.0/24'' 2 2"
proof -
  let ?ip = "V4 8 8 8 8"
  have new: "diversity_tracker_new diversity_default = example_tracker 0 []"
    by (simp add: example_tracker_def diversity_tracker_new_def)
  have t: "run div_step (example_tracker 0 []) [D_add ?ip None None, D_add ?ip None None, D_remove ?ip] =
      example_tracker 1 []"
    by (simp add: example_add example_remove del: div_step.simps) (simp add: hm_insert_def hm_remove_def)
  have t': "run div_step (example_tracker 1 [])
      [D_add ?ip None None, D_remove ?ip, D_add (V4 8 8 8 9) None None] =
      example_tracker 2 [(V4 8 8 8 9, \<lparr>info_ip = V4 8 8 8 9, info_asn = None, info_region = None\<rparr>)]"
    by (simp add: example_add example_remove numeral_2_eq_2 del: div_step.simps)
      (simp add: hm_insert_def hm_remove_def)
  have "show_nat 8 = ''8''" by (subst show_nat.simps) (simp add: digit_char_def char_of_eq_iff take_bit_eq_mod)
  then have "check (example_tracker 2 ps) ?ip None = RejectedSubnetLimit ''8.8.8.0/24'' 2 2" for ps
    using example_count [of 2 ps]
    by (simp add: check_def check_address_def subnet_from_addr_def show_u8_def)
      (simp add: example_tracker_def diversity_tracker_new_def diversity_default_def show_u8_def)
  then show ?thesis
    unfolding Let_def new t t'
    by (simp add: example_count) (simp add: example_tracker_def diversity_tracker_new_def)
qed

end
