(* ===== verification/Rate_Limit.thy ===== *)
theory Rate_Limit
  imports Rust_Prelude
begin

text \<open>
  The per-peer rate limiter of the gossip layer, \<open>crates/molt-p2p/src/gossip/rate_limit.rs\<close>: a
  sliding window of message times per peer, violations, and temporary bans. An \<open>Instant\<close> is a
  natural number of nanoseconds since the earliest instant the platform can represent, so that
  \<open>checked_sub\<close> fails below it; a \<open>Duration\<close> is a natural number of nanoseconds. The clock reading
  of a call is an argument.
\<close>

section \<open>Data\<close>

type_synonym peer_id = string
type_synonym instant = nat
type_synonym duration = nat

definition secs :: "nat \<Rightarrow> duration" where
  "secs s = s * 1000000000"

record rate_limit_config =
  max_messages_per_window :: u32
  window_duration :: duration
  violations_before_ban :: u32
  ban_duration :: duration
  enabled :: bool

definition config_default :: rate_limit_config where
  "config_default = \<lparr>max_messages_per_window = 100, window_duration = secs 1, violations_before_ban = 5,
     ban_duration = secs 60, enabled = True\<rparr>"

definition config_permissive :: rate_limit_config where
  "config_permissive = \<lparr>max_messages_per_window = 1000, window_duration = secs 1, violations_before_ban = 100,
     ban_duration = secs 10, enabled = True\<rparr>"

definition config_strict :: rate_limit_config where
  "config_strict = \<lparr>max_messages_per_window = 50, window_duration = secs 1, violations_before_ban = 3,
     ban_duration = secs 300, enabled = True\<rparr>"

definition config_disabled :: rate_limit_config where
  "config_disabled = \<lparr>max_messages_per_window = 0, window_duration = secs 0, violations_before_ban = 0,
     ban_duration = secs 0, enabled = False\<rparr>"

datatype rate_limit_result = Allowed | RateLimited | Banned instant

record peer_rate_state =
  message_times :: "instant list"
  violation_count :: u32
  banned_until :: "instant option"

definition peer_rate_state_new :: peer_rate_state where
  "peer_rate_state_new = \<lparr>message_times = [], violation_count = 0, banned_until = None\<rparr>"

record rate_limiter =
  rl_config :: rate_limit_config
  peer_states :: "(peer_id, peer_rate_state) hashmap"
  rl_last_cleanup :: instant

section \<open>Operations\<close>

definition rate_limiter_new :: "instant \<Rightarrow> rate_limit_config \<Rightarrow> rate_limiter" where
  "rate_limiter_new now cfg = \<lparr>rl_config = cfg, peer_states = [], rl_last_cleanup = now\<rparr>"

text \<open>\<open>now.checked_sub(window).unwrap_or(now)\<close>.\<close>

definition window_start :: "duration \<Rightarrow> instant \<Rightarrow> instant" where
  "window_start window now = (if window \<le> now then now - window else now)"

definition ban_active :: "instant \<Rightarrow> peer_rate_state \<Rightarrow> bool" where
  "ban_active now s = (case banned_until s of None \<Rightarrow> False | Some until \<Rightarrow> now < until)"

text \<open>The closure of \<open>retain\<close> in \<open>cleanup\<close>: \<^const>\<open>None\<close> drops the peer, and the times are pruned on the way.\<close>

definition cleanup_peer :: "duration \<Rightarrow> instant \<Rightarrow> peer_rate_state \<Rightarrow> peer_rate_state option" where
  "cleanup_peer window now s =
     (if ban_active now s then Some s
      else let s' = s\<lparr>message_times := filter (\<lambda>t. t \<ge> window_start window now) (message_times s)\<rparr>
           in if message_times s' \<noteq> [] \<or> violation_count s' > 0 then Some s' else None)"

definition rl_cleanup :: "instant \<Rightarrow> rate_limiter \<Rightarrow> rate_limiter" where
  "rl_cleanup now l =
     l\<lparr>rl_last_cleanup := now,
       peer_states := List.map_filter
         (\<lambda>(p, s). map_option (Pair p) (cleanup_peer (window_duration (rl_config l)) now s)) (peer_states l)\<rparr>"

definition rl_maybe_cleanup :: "instant \<Rightarrow> rate_limiter \<Rightarrow> rate_limiter" where
  "rl_maybe_cleanup now l =
     (if now - rl_last_cleanup l < secs 10 then l else rl_cleanup now l)"

text \<open>The part of \<open>check_and_record\<close> after the peer's entry has been looked up.\<close>

definition check_peer ::
  "rate_limit_config \<Rightarrow> instant \<Rightarrow> peer_rate_state \<Rightarrow> rate_limit_result \<times> peer_rate_state" where
  "check_peer cfg now s =
     (if ban_active now s then (Banned (the (banned_until s)), s)
      else let s1 = (if banned_until s \<noteq> None
                     then s\<lparr>banned_until := None, violation_count := 0, message_times := []\<rparr> else s);
               s2 = s1\<lparr>message_times :=
                      filter (\<lambda>t. t \<ge> window_start (window_duration cfg) now) (message_times s1)\<rparr>
           in if length (message_times s2) \<ge> unat (max_messages_per_window cfg)
              then let s3 = s2\<lparr>violation_count := saturating_add (violation_count s2) 1\<rparr>
                   in if violation_count s3 \<ge> violations_before_ban cfg
                      then (Banned (now + ban_duration cfg), s3\<lparr>banned_until := Some (now + ban_duration cfg)\<rparr>)
                      else (RateLimited, s3)
              else (Allowed, s2\<lparr>message_times := message_times s2 @ [now]\<rparr>))"

text \<open>\<open>entry(peer).or_insert_with(PeerRateState::new)\<close>.\<close>

definition peer_entry :: "rate_limiter \<Rightarrow> peer_id \<Rightarrow> peer_rate_state" where
  "peer_entry l p = (case hm_get (peer_states l) p of Some s \<Rightarrow> s | None \<Rightarrow> peer_rate_state_new)"

definition check_and_record :: "instant \<Rightarrow> peer_id \<Rightarrow> rate_limiter \<Rightarrow> rate_limit_result \<times> rate_limiter" where
  "check_and_record now p l =
     (if \<not> enabled (rl_config l) then (Allowed, l)
      else let l1 = rl_maybe_cleanup now l;
               (r, s) = check_peer (rl_config l1) now (peer_entry l1 p)
           in (r, l1\<lparr>peer_states := hm_insert p s (peer_states l1)\<rparr>))"

definition is_banned :: "instant \<Rightarrow> rate_limiter \<Rightarrow> peer_id \<Rightarrow> bool" where
  "is_banned now l p = (case hm_get (peer_states l) p of None \<Rightarrow> False | Some s \<Rightarrow> ban_active now s)"

definition ban_peer :: "instant \<Rightarrow> peer_id \<Rightarrow> rate_limiter \<Rightarrow> rate_limiter" where
  "ban_peer now p l =
     l\<lparr>peer_states := hm_insert p
         ((peer_entry l p)\<lparr>banned_until := Some (now + ban_duration (rl_config l))\<rparr>) (peer_states l)\<rparr>"

definition unban_peer :: "peer_id \<Rightarrow> rate_limiter \<Rightarrow> rate_limiter" where
  "unban_peer p l =
     (case hm_get (peer_states l) p of
        None \<Rightarrow> l
      | Some s \<Rightarrow>
          l\<lparr>peer_states := hm_insert p
              (s\<lparr>banned_until := None, violation_count := 0, message_times := []\<rparr>) (peer_states l)\<rparr>)"

definition tracked_peer_count :: "rate_limiter \<Rightarrow> nat" where
  "tracked_peer_count l = length (peer_states l)"

definition message_count :: "instant \<Rightarrow> rate_limiter \<Rightarrow> peer_id \<Rightarrow> nat" where
  "message_count now l p =
     (case hm_get (peer_states l) p of
        None \<Rightarrow> 0
      | Some s \<Rightarrow> length (filter (\<lambda>t. t \<ge> window_start (window_duration (rl_config l)) now) (message_times s)))"

definition rl_remove_peer :: "peer_id \<Rightarrow> rate_limiter \<Rightarrow> rate_limiter" where
  "rl_remove_peer p l = l\<lparr>peer_states := hm_remove p (peer_states l)\<rparr>"

definition rl_stats :: "instant \<Rightarrow> rate_limiter \<Rightarrow> nat \<times> nat \<times> nat" where
  "rl_stats now l =
     (length (peer_states l), length (filter (ban_active now) (hm_values (peer_states l))),
      sum_list (map (\<lambda>s. unat (violation_count s)) (hm_values (peer_states l))))"

section \<open>What the calls do to one peer\<close>

lemma get_map_filter:
  assumes "hm_wf m"
  shows "hm_get (List.map_filter (\<lambda>(k, v). map_option (Pair k) (f v)) m) k = Option.bind (hm_get m k) f"
  using assms
proof (induction m)
  case (Cons kv m)
  obtain k0 v where kv: "kv = (k0, v)" by (cases kv)
  have "hm_get m k0 = None" using Cons.prems kv by (simp add: map_of_eq_None_iff)
  with Cons kv show ?case by (cases "f v") (auto simp: List.map_filter_simps)
qed (simp add: List.map_filter_simps)

lemma wf_map_filter:
  assumes "hm_wf m"
  shows "hm_wf (List.map_filter (\<lambda>(k, v). map_option (Pair k) (f v)) m)"
  using assms
proof (induction m)
  case (Cons kv m)
  obtain k v where kv: "kv = (k, v)" by (cases kv)
  have "fst ` set (List.map_filter (\<lambda>(k, v). map_option (Pair k) (f v)) m) \<subseteq> fst ` set m"
    by (force simp: List.map_filter_def)
  with Cons.prems kv have "k \<notin> fst ` set (List.map_filter (\<lambda>(k, v). map_option (Pair k) (f v)) m)"
    by auto
  with Cons kv show ?case by (cases "f v") (simp_all add: List.map_filter_simps)
qed (simp add: List.map_filter_simps)

lemma config_check [simp]: "rl_config (snd (check_and_record now p l)) = rl_config l"
  by (simp add: check_and_record_def rl_maybe_cleanup_def rl_cleanup_def Let_def case_prod_beta)

lemma wf_check: "hm_wf (peer_states l) \<Longrightarrow> hm_wf (peer_states (snd (check_and_record now p l)))"
  by (simp add: check_and_record_def rl_maybe_cleanup_def rl_cleanup_def Let_def case_prod_beta wf_map_filter)

text \<open>
  The limiter's memory of a peer against the log of its allowed messages: the messages of the last
  window are all remembered, and a ban outlasts the window of every message before it.
\<close>

definition remembers :: "duration \<Rightarrow> instant \<Rightarrow> peer_rate_state \<Rightarrow> instant list \<Rightarrow> bool" where
  "remembers w now s log \<longleftrightarrow>
     filter (\<lambda>t. now \<le> t + w) log = filter (\<lambda>t. now \<le> t + w) (message_times s) \<and>
     list_all (\<lambda>t. t \<le> now) (message_times s) \<and>
     (\<forall>u. banned_until s = Some u \<longrightarrow> list_all (\<lambda>t. t + w < u) (message_times s))"

lemma filter_later: "now \<le> (now' :: nat) \<Longrightarrow>
    filter (\<lambda>t. now' \<le> t + w) xs = filter (\<lambda>t. now' \<le> t + w) (filter (\<lambda>t. now \<le> t + w) xs)"
  by (simp add: filter_filter) (rule filter_cong, auto)

lemma remembers_later:
  assumes "remembers w now s log" and "now \<le> now'"
  shows "remembers w now' s log"
  using assms filter_later [OF assms(2), of w log] filter_later [OF assms(2), of w "message_times s"]
  by (auto simp: remembers_def list_all_iff)

lemma in_window: "w \<le> now \<Longrightarrow> (\<lambda>t. t \<ge> window_start w now) = (\<lambda>t. now \<le> t + w)"
  by (rule ext) (auto simp: window_start_def)

lemma remembers_cleanup:
  assumes "remembers w now s log" and "w \<le> now"
  shows "remembers w now (case cleanup_peer w now s of Some s' \<Rightarrow> s' | None \<Rightarrow> peer_rate_state_new) log"
  using assms
  by (auto simp: cleanup_peer_def in_window Let_def remembers_def peer_rate_state_new_def list_all_iff)

lemma remembers_maybe_cleanup:
  assumes "remembers (window_duration (rl_config l)) now (peer_entry l p) log"
    and "window_duration (rl_config l) \<le> now" and "hm_wf (peer_states l)"
  shows "remembers (window_duration (rl_config l)) now (peer_entry (rl_maybe_cleanup now l) p) log"
proof (cases "hm_get (peer_states l) p")
  case None
  then show ?thesis using assms
    by (simp add: rl_maybe_cleanup_def rl_cleanup_def peer_entry_def get_map_filter)
next
  case (Some s)
  then show ?thesis using assms remembers_cleanup [of "window_duration (rl_config l)" now s log]
    by (simp add: rl_maybe_cleanup_def rl_cleanup_def peer_entry_def get_map_filter)
qed

lemma remembers_check:
  assumes "remembers w now s log" and "w \<le> now" and "w = window_duration cfg" and "w < ban_duration cfg"
    and "check_peer cfg now s = (r, s')"
  shows "remembers w now s' (if r = Allowed then log @ [now] else log) \<and>
    (r = Allowed \<longrightarrow> length (filter (\<lambda>t. now \<le> t + w) log) < unat (max_messages_per_window cfg))"
proof (cases "ban_active now s")
  case True
  with assms show ?thesis by (auto simp: check_peer_def)
next
  case False
  let ?s1 = "if banned_until s \<noteq> None then s\<lparr>banned_until := None, violation_count := 0, message_times := []\<rparr> else s"
  have rem: "remembers w now ?s1 log"
    using assms(1) False
    by (auto simp: remembers_def ban_active_def list_all_iff filter_empty_conv split: option.splits)
  then have "\<forall>t \<in> set (message_times ?s1). t + window_duration cfg < now + ban_duration cfg"
    using assms(3,4) unfolding remembers_def list_all_iff by (meson add_le_less_mono)
  moreover have "banned_until ?s1 = None" by simp
  ultimately show ?thesis
    using assms(2-) False rem
    by (auto simp: check_peer_def Let_def remembers_def in_window list_all_iff split: if_splits)
qed

text \<open>A log is paced when no closed window holds more than the maximum.\<close>

definition paced :: "duration \<Rightarrow> nat \<Rightarrow> instant list \<Rightarrow> bool" where
  "paced w mx log \<longleftrightarrow> (\<forall>a. length (filter (\<lambda>t. a \<le> t \<and> t \<le> a + w) log) \<le> mx)"

lemma filter_length_mono: "(\<And>x. P x \<Longrightarrow> Q x) \<Longrightarrow> length (filter P xs) \<le> length (filter Q xs)"
  by (induction xs) auto

lemma paced_snoc:
  assumes "paced w mx log" and "length (filter (\<lambda>t. now \<le> t + w) log) < mx"
  shows "paced w mx (log @ [now])"
proof -
  have "length (filter (\<lambda>t. a \<le> t \<and> t \<le> a + w) log) < mx" if "now \<le> a + w" for a
    using filter_length_mono [of "\<lambda>t. a \<le> t \<and> t \<le> a + w" "\<lambda>t. now \<le> t + w" log] that assms(2)
    by (auto simp: le_less_trans)
  with assms(1) show ?thesis by (auto simp: paced_def Suc_le_eq)
qed

text \<open>The times at which messages of a peer are allowed, in a schedule of messages from all peers.\<close>

fun allowed_log :: "peer_id \<Rightarrow> rate_limiter \<Rightarrow> (instant \<times> peer_id) list \<Rightarrow> instant list" where
  "allowed_log p l [] = []"
| "allowed_log p l ((now, q) # xs) =
     (case check_and_record now q l of
        (r, l') \<Rightarrow> (if q = p \<and> r = Allowed then [now] else []) @ allowed_log p l' xs)"

lemma check_entry:
  assumes "enabled (rl_config l)" and "check_and_record now q l = (r, l')"
  shows "peer_entry l' p =
      (if p = q then snd (check_peer (rl_config l) now (peer_entry (rl_maybe_cleanup now l) q))
       else peer_entry (rl_maybe_cleanup now l) p) \<and>
    r = fst (check_peer (rl_config l) now (peer_entry (rl_maybe_cleanup now l) q))"
proof -
  have "rl_config (rl_maybe_cleanup now l) = rl_config l"
    by (simp add: rl_maybe_cleanup_def rl_cleanup_def)
  with assms show ?thesis
    by (auto simp: check_and_record_def Let_def peer_entry_def split: prod.splits)
qed

lemma allowed_log_paced:
  assumes "hm_wf (peer_states l)" and "enabled (rl_config l)"
    and "w = window_duration (rl_config l)" and "w < ban_duration (rl_config l)"
    and "mx = unat (max_messages_per_window (rl_config l))"
    and "remembers w prev (peer_entry l p) log" and "paced w mx log"
    and "sorted (prev # map fst xs)" and "list_all (\<lambda>(t, q). w \<le> t) xs"
  shows "paced w mx (log @ allowed_log p l xs)"
  using assms
proof (induction xs arbitrary: l log prev)
  case (Cons x xs)
  obtain now q where x: "x = (now, q)" by (cases x)
  obtain r l' where c: "check_and_record now q l = (r, l')" by (cases "check_and_record now q l")
  have l': "hm_wf (peer_states l')" "rl_config l' = rl_config l"
    using wf_check [OF Cons.prems(1), of now q] config_check [of now q l] c by simp_all
  have "remembers w now (peer_entry l p) log"
    using Cons.prems(8) x by (intro remembers_later [OF Cons.prems(6)]) simp
  then have rem: "remembers w now (peer_entry (rl_maybe_cleanup now l) p) log"
    using remembers_maybe_cleanup [of l now p log] Cons.prems(1,3,9) x by simp
  let ?log = "log @ (if q = p \<and> r = Allowed then [now] else [])"
  have "remembers w now (peer_entry l' p) ?log \<and> paced w mx ?log"
  proof (cases "q = p")
    case True
    then obtain s' where "check_peer (rl_config l) now (peer_entry (rl_maybe_cleanup now l) p) = (r, s')"
      and "peer_entry l' p = s'"
      using check_entry [OF Cons.prems(2) c, of p] by (metis prod.collapse)
    with remembers_check [OF rem _ Cons.prems(3,4), of r s'] True Cons.prems(5,7,9) x paced_snoc
    show ?thesis by auto
  qed (use rem check_entry [OF Cons.prems(2) c, of p] Cons.prems(7) in auto)
  then have "paced w mx (?log @ allowed_log p l' xs)"
    using Cons.prems(2-5,8,9) l' x by (intro Cons.IH [where prev = now]) auto
  then show ?case by (simp add: x c)
qed simp

section \<open>Properties\<close>

text \<open>
  C13. The limiter holds its limit: whatever the messages of all peers are, at non-decreasing times, no
  closed window of the configured duration contains more allowed messages of a peer than the configured maximum,
  provided a ban lasts longer than the window (as in every enabled stock configuration) and the clock
  is at least one window past the earliest representable instant.
\<close>
theorem sliding_window_holds:
  assumes "enabled cfg" and "window_duration cfg < ban_duration cfg"
    and "sorted (t0 # map fst msgs)" and "list_all (\<lambda>(t, q). window_duration cfg \<le> t) msgs"
  shows "length (filter (\<lambda>t. a \<le> t \<and> t \<le> a + window_duration cfg)
           (allowed_log p (rate_limiter_new t0 cfg) msgs)) \<le> unat (max_messages_per_window cfg)"
proof -
  have "paced (window_duration cfg) (unat (max_messages_per_window cfg))
      ([] @ allowed_log p (rate_limiter_new t0 cfg) msgs)"
    using assms
    by (intro allowed_log_paced [where prev = t0])
      (simp_all add: rate_limiter_new_def peer_entry_def remembers_def peer_rate_state_new_def paced_def)
  then show ?thesis by (simp add: paced_def)
qed

theorem sliding_window_holds_witness:
  "length (filter (\<lambda>t. 2000000000 \<le> t \<and> t \<le> 2000000000 + window_duration config_strict)
     (allowed_log ''p'' (rate_limiter_new 2000000000 config_strict) (replicate 60 (2000000000, ''p''))))
   \<le> unat (max_messages_per_window config_strict)"
  by (rule sliding_window_holds)
    (simp_all add: config_strict_def secs_def list_all_iff)

text \<open>
  A ban is a ban: while it lasts, every message of the peer is refused with the same expiry and the
  peer's record stays as it is; the first check at or after the expiry forgets violations and history; and
  a peer over its limit whose violations reach the threshold is banned for the configured duration.
\<close>
theorem ban_lasts_until_expiry:
  assumes "banned_until s = Some u"
  shows "(now < u \<longrightarrow> check_peer cfg now s = (Banned u, s)) \<and>
    (u \<le> now \<longrightarrow> check_peer cfg now s = check_peer cfg now peer_rate_state_new) \<and>
    (banned_until s' = None \<longrightarrow> w = window_duration cfg \<longrightarrow>
     unat (max_messages_per_window cfg) \<le> length (filter (\<lambda>t. t \<ge> window_start w now) (message_times s')) \<longrightarrow>
     violations_before_ban cfg \<le> saturating_add (violation_count s') 1 \<longrightarrow>
     fst (check_peer cfg now s') = Banned (now + ban_duration cfg))"
  using assms
  by (auto simp: check_peer_def ban_active_def peer_rate_state_new_def Let_def)

theorem ban_lasts_until_expiry_witness:
  "check_peer config_strict 5 (peer_rate_state_new\<lparr>banned_until := Some 7\<rparr>) =
     (Banned 7, peer_rate_state_new\<lparr>banned_until := Some 7\<rparr>)"
  using ban_lasts_until_expiry [of "peer_rate_state_new\<lparr>banned_until := Some 7\<rparr>" 7 5 config_strict] by simp

end
