(* ===== verification/Byte_Encoding.thy ===== *)
theory Byte_Encoding
  imports Decimal
begin

text \<open>
  Bytes of text and of integers, as the signed and hashed messages are built from them, with the injectivity that signatures rely
  on.
\<close>

definition bytes_of :: "string \<Rightarrow> u8 list" where
  "bytes_of s = map (\<lambda>c. of_nat (of_char c)) s"

text \<open>\<open>to_le_bytes\<close> of an integer of \<open>n\<close> bytes.\<close>

definition le_bytes :: "nat \<Rightarrow> 'a::len word \<Rightarrow> u8 list" where
  "le_bytes n w = map (\<lambda>i. ucast (drop_bit (8 * i) w)) [0..<n]"

lemma length_le_bytes [simp]: "length (le_bytes n w) = n"
  by (simp add: le_bytes_def)

lemma bit_le_bytes:
  "i < n \<Longrightarrow> j < 8 \<Longrightarrow> bit (le_bytes n w ! i) j = bit w (8 * i + j)"
  by (simp add: le_bytes_def bit_ucast_iff bit_drop_bit_eq add.commute)

lemma le_bytes_inj:
  fixes v w :: "'a::len word"
  assumes "le_bytes n v = le_bytes n w" and "LENGTH('a) \<le> 8 * n"
  shows "v = w"
proof (rule bit_word_eqI)
  fix k assume "k < LENGTH('a)"
  then have "k div 8 < n" using assms(2) by (simp add: div_less_iff_less_mult mult.commute)
  then show "bit v k = bit w k"
    using bit_le_bytes [of "k div 8" n "k mod 8" v] bit_le_bytes [of "k div 8" n "k mod 8" w] assms(1) by simp
qed

lemma bytes_of_inj: "bytes_of s = bytes_of t \<Longrightarrow> s = t"
proof (induction s arbitrary: t)
  case (Cons c s)
  then obtain d t' where t: "t = d # t'" by (cases t) (auto simp: bytes_of_def)
  have "(of_nat (of_char c) :: u8) = of_nat (of_char d)" and "bytes_of s = bytes_of t'"
    using Cons.prems t by (simp_all add: bytes_of_def)
  then have "unat (of_nat (of_char c) :: u8) = unat (of_nat (of_char d) :: u8)" by simp
  then have "(of_char c :: nat) = of_char d" by (simp add: unat_of_nat)
  with Cons.IH [OF \<open>bytes_of s = bytes_of t'\<close>] t show ?case by simp
qed (simp add: bytes_of_def)

lemma length_bytes_of [simp]: "length (bytes_of s) = length s"
  by (simp add: bytes_of_def)

text \<open>Lists of blocks of the same length are determined by their concatenation.\<close>

lemma blocks_inj:
  assumes "concat (map f xs) = concat (map f ys)" and "list_all P xs" and "list_all P ys"
    and len: "\<And>x. P x \<Longrightarrow> length (f x) = Suc n" and inj: "\<And>x y. P x \<Longrightarrow> P y \<Longrightarrow> f x = f y \<Longrightarrow> g x = g y"
  shows "map g xs = map g ys"
  using assms(1-3)
proof (induction xs arbitrary: ys)
  case Nil
  then show ?case using len by (cases ys) force+
next
  case (Cons x xs)
  then obtain y ys' where ys: "ys = y # ys'" using len [of x] by (cases ys) auto
  with Cons.prems len [of x] len [of y] have "f x = f y" "concat (map f xs) = concat (map f ys')" by simp_all
  with Cons.IH [of ys'] Cons.prems ys inj [of x y] show ?case by simp
qed

end
