(* ===== verification/Gossip_Message.thy ===== *)
theory Gossip_Message
  imports Rate_Limit Byte_Encoding
begin

text \<open>
  Gossip announcements and messages, \<open>crates/molt-p2p/src/gossip/announcement.rs\<close> and \<open>message.rs\<close>:
  what a signature covers, expiry, filtering, protocol versions and the wire envelope. The
  signature scheme (\<open>ed25519_dalek\<close>), \<open>serde_json\<close> and \<open>prost\<close> are parameters. Strings are byte
  strings; points of time are integers in nanoseconds.
\<close>

section \<open>Errors\<close>

datatype p2p_error =
    P2pConnection string
  | P2pDiscovery string
  | P2pGossip string
  | PeerNotFound string
  | P2pProtocol string
  | P2pIo string
  | P2pRateLimited peer_id
  | PeerBanned peer_id
  | DiversityLimitExceeded string
  | PrivateIpRejected

section \<open>Announcements\<close>

record gpu_info =
  gpu_model_name :: string
  vram_gb :: u32
  gpu_count :: u32

record pricing =
  gpu_hour_cents :: u64
  cpu_hour_cents :: u64

record announcement =
  ann_peer_id :: peer_id
  ann_gpus :: "gpu_info list"
  ann_pricing :: pricing
  ann_job_types :: "string list"
  ann_ttl :: duration
  ann_created_at :: int
  ann_signature :: "u8 list option"

definition announcement_new ::
  "int \<Rightarrow> peer_id \<Rightarrow> gpu_info list \<Rightarrow> pricing \<Rightarrow> string list \<Rightarrow> duration \<Rightarrow> announcement" where
  "announcement_new now p gs pr jts ttl =
     \<lparr>ann_peer_id = p, ann_gpus = gs, ann_pricing = pr, ann_job_types = jts, ann_ttl = ttl,
      ann_created_at = now, ann_signature = None\<rparr>"

definition DURATION_MAX :: duration where
  "DURATION_MAX = 18446744073709551615 * 1000000000 + 999999999"

text \<open>\<open>to_std()\<close> fails on a negative difference, which then counts as \<open>Duration::MAX\<close>.\<close>

definition ann_is_expired :: "int \<Rightarrow> announcement \<Rightarrow> bool" where
  "ann_is_expired now a =
     (let elapsed = (if now - ann_created_at a \<ge> 0 then nat (now - ann_created_at a) else DURATION_MAX)
      in elapsed > ann_ttl a)"

definition ttl_secs :: "announcement \<Rightarrow> u64" where
  "ttl_secs a = of_nat (ann_ttl a div 1000000000)"

definition created_secs :: "announcement \<Rightarrow> u64" where
  "created_secs a = of_int (ann_created_at a div 1000000000)"

definition signing_message :: "announcement \<Rightarrow> u8 list" where
  "signing_message a =
     bytes_of (ann_peer_id a) @ le_bytes 8 (ttl_secs a) @ le_bytes 8 (created_secs a) @
     concat (map (\<lambda>g. bytes_of (gpu_model_name g) @ le_bytes 4 (vram_gb g) @ le_bytes 4 (gpu_count g)) (ann_gpus a)) @
     le_bytes 8 (gpu_hour_cents (ann_pricing a)) @ le_bytes 8 (cpu_hour_cents (ann_pricing a)) @
     concat (map bytes_of (ann_job_types a))"

definition ann_sign :: "(u8 list \<Rightarrow> u8 list) \<Rightarrow> announcement \<Rightarrow> announcement" where
  "ann_sign sign a = a\<lparr>ann_signature := Some (sign (signing_message a))\<rparr>"

definition ann_is_signed :: "announcement \<Rightarrow> bool" where
  "ann_is_signed a \<longleftrightarrow> ann_signature a \<noteq> None"

text \<open>\<open>verify_strict\<close> gives the text of its error, if any.\<close>

definition ann_verify :: "(u8 list \<Rightarrow> u8 list \<Rightarrow> string option) \<Rightarrow> announcement \<Rightarrow> p2p_error + unit" where
  "ann_verify verify_strict a =
     (case ann_signature a of
        None \<Rightarrow> Inl (P2pProtocol ''Missing signature'')
      | Some sig \<Rightarrow>
          (case verify_strict (signing_message a) sig of
             None \<Rightarrow> Inr ()
           | Some e \<Rightarrow> Inl (P2pProtocol (''Invalid signature: '' @ e))))"

record query_filter =
  qf_gpu_model :: "string option"
  qf_min_vram_gb :: "u32 option"
  qf_job_type :: "string option"
  qf_max_gpu_hour_cents :: "u64 option"

definition filter_any :: query_filter where
  "filter_any = \<lparr>qf_gpu_model = None, qf_min_vram_gb = None, qf_job_type = None, qf_max_gpu_hour_cents = None\<rparr>"

definition filter_is_empty :: "query_filter \<Rightarrow> bool" where
  "filter_is_empty f \<longleftrightarrow>
     qf_gpu_model f = None \<and> qf_min_vram_gb f = None \<and> qf_job_type f = None \<and> qf_max_gpu_hour_cents f = None"

definition matches_filter :: "query_filter \<Rightarrow> announcement \<Rightarrow> bool" where
  "matches_filter f a =
     (if (case qf_gpu_model f of Some m \<Rightarrow> \<not> list_ex (\<lambda>g. gpu_model_name g = m) (ann_gpus a) | None \<Rightarrow> False) then False
      else if (case qf_min_vram_gb f of Some v \<Rightarrow> \<not> list_ex (\<lambda>g. vram_gb g \<ge> v) (ann_gpus a) | None \<Rightarrow> False) then False
      else if (case qf_job_type f of Some j \<Rightarrow> \<not> List.member (ann_job_types a) j | None \<Rightarrow> False) then False
      else if (case qf_max_gpu_hour_cents f of Some c \<Rightarrow> gpu_hour_cents (ann_pricing a) > c | None \<Rightarrow> False) then False
      else True)"

section \<open>Messages\<close>

type_synonym message_id = "u8 list"

record gossip_query =
  query_id :: message_id
  gq_from_peer :: peer_id
  gq_filter :: query_filter
  gq_max_results :: u32
  gq_ttl_hops :: u8

definition decrement_ttl :: "gossip_query \<Rightarrow> gossip_query option" where
  "decrement_ttl q = (if gq_ttl_hops q = 0 then None else Some (q\<lparr>gq_ttl_hops := gq_ttl_hops q - 1\<rparr>))"

datatype gossip_message =
    Announce message_id announcement u8
  | Query gossip_query
  | Response message_id peer_id "announcement list"
  | Heartbeat peer_id u64
  | SyncRequest peer_id u64
  | SyncResponse "announcement list"

fun message_type :: "gossip_message \<Rightarrow> string" where
  "message_type (Announce _ _ _) = ''Announce''"
| "message_type (Query _) = ''Query''"
| "message_type (Response _ _ _) = ''Response''"
| "message_type (Heartbeat _ _) = ''Heartbeat''"
| "message_type (SyncRequest _ _) = ''SyncRequest''"
| "message_type (SyncResponse _) = ''SyncResponse''"

fun message_id_of :: "gossip_message \<Rightarrow> message_id option" where
  "message_id_of (Announce i _ _) = Some i"
| "message_id_of (Query q) = Some (query_id q)"
| "message_id_of (Response i _ _) = Some i"
| "message_id_of _ = None"

fun wire_type :: "gossip_message \<Rightarrow> u32" where
  "wire_type (Announce _ _ _) = 1"
| "wire_type (Query _) = 2"
| "wire_type (Response _ _ _) = 3"
| "wire_type (Heartbeat _ _) = 4"
| "wire_type (SyncRequest _ _) = 5"
| "wire_type (SyncResponse _) = 6"

section \<open>Protocol versions and the wire envelope\<close>

datatype protocol_version = V1

definition CURRENT :: protocol_version where "CURRENT = V1"

fun version_as_u32 :: "protocol_version \<Rightarrow> u32" where
  "version_as_u32 V1 = 1"

definition show_u32 :: "u32 \<Rightarrow> string" where
  "show_u32 v = show_nat (unat v)"

definition version_from_u32 :: "u32 \<Rightarrow> p2p_error + protocol_version" where
  "version_from_u32 v =
     (if v = 0 then Inl (P2pProtocol ''Protocol version 0 is invalid'')
      else if v = 1 then Inr V1
      else if v > version_as_u32 CURRENT
      then Inl (P2pProtocol (''Unsupported protocol version: '' @ show_u32 v @ '' (max supported: '' @
             show_u32 (version_as_u32 CURRENT) @ '')''))
      else Inl (P2pProtocol (''Unknown protocol version: '' @ show_u32 v)))"

text \<open>\<open>MIN_COMPATIBLE\<close> is version 1 as well.\<close>

definition is_compatible_with :: "protocol_version \<Rightarrow> protocol_version \<Rightarrow> bool" where
  "is_compatible_with a b \<longleftrightarrow> version_as_u32 a \<ge> version_as_u32 V1 \<and> version_as_u32 b \<ge> version_as_u32 V1"

fun is_valid_message_type :: "protocol_version \<Rightarrow> u32 \<Rightarrow> bool" where
  "is_valid_message_type V1 t = (t \<in> {1, 2, 3, 4, 5, 6})"

fun supported_message_types :: "protocol_version \<Rightarrow> string" where
  "supported_message_types V1 = ''Announce, Query, Response, Heartbeat, SyncRequest, SyncResponse''"

definition show_version :: "protocol_version \<Rightarrow> string" where
  "show_version v = ''v'' @ show_u32 (version_as_u32 v)"

record wire_message =
  wm_msg_type :: u32
  wm_payload :: "u8 list"
  wm_version :: u32

text \<open>
  The parameters: \<open>to_json\<close> and \<open>prost_encode\<close> of the encoder, \<open>from_json\<close> and \<open>prost_decode\<close> of the
  decoder; an error is its text.
\<close>

definition encode_wire_with_version ::
  "(gossip_message \<Rightarrow> string + u8 list) \<Rightarrow> (wire_message \<Rightarrow> u8 list) \<Rightarrow> protocol_version \<Rightarrow> gossip_message
   \<Rightarrow> p2p_error + u8 list" where
  "encode_wire_with_version to_json prost_encode ver m =
     (if \<not> is_valid_message_type ver (wire_type m)
      then Inl (P2pProtocol (''Message type '' @ message_type m @ '' is not supported by protocol '' @ show_version ver))
      else case to_json m of
        Inl e \<Rightarrow> Inl (P2pProtocol (''Failed to serialize message: '' @ e))
      | Inr payload \<Rightarrow>
          Inr (prost_encode \<lparr>wm_msg_type = wire_type m, wm_payload = payload, wm_version = version_as_u32 ver\<rparr>))"

definition encode_wire where
  "encode_wire to_json prost_encode m = encode_wire_with_version to_json prost_encode CURRENT m"

definition decode_wire_with_version ::
  "(u8 list \<Rightarrow> string + gossip_message) \<Rightarrow> (u8 list \<Rightarrow> string + wire_message) \<Rightarrow> u8 list
   \<Rightarrow> p2p_error + gossip_message \<times> protocol_version" where
  "decode_wire_with_version from_json prost_decode bytes =
     (case prost_decode bytes of
        Inl e \<Rightarrow> Inl (P2pProtocol (''Failed to decode wire message: '' @ e))
      | Inr w \<Rightarrow>
          (case version_from_u32 (wm_version w) of
             Inl e \<Rightarrow> Inl e
           | Inr ver \<Rightarrow>
               if \<not> is_compatible_with CURRENT ver
               then Inl (P2pProtocol (''Protocol version '' @ show_version ver @
                      '' is not compatible with current version '' @ show_version CURRENT))
               else if \<not> is_valid_message_type ver (wm_msg_type w)
               then Inl (P2pProtocol (''Unknown message type '' @ show_u32 (wm_msg_type w) @ '' for protocol version '' @
                      show_version ver @ '' (supported: '' @ supported_message_types ver @ '')''))
               else (case from_json (wm_payload w) of
                       Inl e \<Rightarrow> Inl (P2pProtocol (''Failed to deserialize message: '' @ e))
                     | Inr m \<Rightarrow> Inr (m, ver))))"

text \<open>\<open>decode_wire\<close> repeats the same steps and returns the message alone.\<close>

definition decode_wire where
  "decode_wire from_json prost_decode bytes =
     (case decode_wire_with_version from_json prost_decode bytes of Inl e \<Rightarrow> Inl e | Inr (m, _) \<Rightarrow> Inr m)"

section \<open>What a signature covers\<close>

lemma append_eq_len: "xs @ ys = xs' @ ys' \<Longrightarrow> length xs = length xs' \<Longrightarrow> xs = xs' \<and> ys = ys'"
  by simp

lemma signing_header:
  assumes "signing_message a = signing_message b" and "length (ann_peer_id a) = length (ann_peer_id b)"
  shows "ann_peer_id a = ann_peer_id b" and "ttl_secs a = ttl_secs b" and "created_secs a = created_secs b"
    and "ann_gpus a = ann_gpus b \<Longrightarrow> ann_pricing a = ann_pricing b \<and>
           concat (map bytes_of (ann_job_types a)) = concat (map bytes_of (ann_job_types b))"
proof -
  have p: "bytes_of (ann_peer_id a) = bytes_of (ann_peer_id b)"
    and t: "le_bytes 8 (ttl_secs a) = le_bytes 8 (ttl_secs b)"
    and c: "le_bytes 8 (created_secs a) = le_bytes 8 (created_secs b)"
    using assms by (auto simp: signing_message_def)
  then show "ann_peer_id a = ann_peer_id b" and "ttl_secs a = ttl_secs b" and "created_secs a = created_secs b"
    by (simp_all add: bytes_of_inj le_bytes_inj)
  assume "ann_gpus a = ann_gpus b"
  with assms p t c have "le_bytes 8 (gpu_hour_cents (ann_pricing a)) = le_bytes 8 (gpu_hour_cents (ann_pricing b)) \<and>
      le_bytes 8 (cpu_hour_cents (ann_pricing a)) = le_bytes 8 (cpu_hour_cents (ann_pricing b)) \<and>
      concat (map bytes_of (ann_job_types a)) = concat (map bytes_of (ann_job_types b))"
    by (simp add: signing_message_def)
  then show "ann_pricing a = ann_pricing b \<and>
      concat (map bytes_of (ann_job_types a)) = concat (map bytes_of (ann_job_types b))"
    using le_bytes_inj [of 8 "gpu_hour_cents (ann_pricing a)"] le_bytes_inj [of 8 "cpu_hour_cents (ann_pricing a)"]
    by (auto intro!: pricing.equality)
qed

section \<open>Properties\<close>

text \<open>
  What a signature binds: two announcements with the same signed bytes have the same announcer,
  the same lifetime and the same creation time in whole seconds, and, if they list the same
  GPUs, the same prices and the same bytes of job types; verification looks at nothing else.
\<close>
theorem signature_binds_header:
  assumes "signing_message a = signing_message b"
    and "length (ann_peer_id a) = 32" and "length (ann_peer_id b) = 32"
  shows "ann_peer_id a = ann_peer_id b \<and> ttl_secs a = ttl_secs b \<and> created_secs a = created_secs b \<and>
    (ann_gpus a = ann_gpus b \<longrightarrow> ann_pricing a = ann_pricing b \<and>
       concat (map bytes_of (ann_job_types a)) = concat (map bytes_of (ann_job_types b))) \<and>
    (ann_signature a = ann_signature b \<longrightarrow> ann_verify verify_strict a = ann_verify verify_strict b)"
proof -
  have "ann_signature a = ann_signature b \<Longrightarrow> ann_verify verify_strict a = ann_verify verify_strict b"
    unfolding ann_verify_def assms(1) by simp
  then show ?thesis using signing_header [OF assms(1)] assms(2,3) by simp
qed

definition example_announcement :: "int \<Rightarrow> string list \<Rightarrow> announcement" where
  "example_announcement now jts =
     announcement_new now (replicate 32 CHR ''k'') [] \<lparr>gpu_hour_cents = 100, cpu_hour_cents = 10\<rparr> jts (secs 300)"

theorem signature_binds_header_witness:
  "ttl_secs (example_announcement 5 [''train'']) = ttl_secs (example_announcement 7 [''tr'', ''ain''])"
proof -
  have "signing_message (example_announcement 5 [''train'']) = signing_message (example_announcement 7 [''tr'', ''ain''])"
    by (simp add: signing_message_def example_announcement_def announcement_new_def ttl_secs_def created_secs_def
        bytes_of_def)
  from signature_binds_header [OF this] show ?thesis
    by (simp add: example_announcement_def announcement_new_def)
qed

text \<open>
  The signed bytes are ambiguous: the variable-length fields are concatenated without lengths and times are
  truncated to seconds, so an announcement for the job type \<open>train\<close> and one for the two job types \<open>tr\<close> and \<open>ain\<close>, created
  two nanoseconds apart, have the same signature, and a filter for \<open>train\<close> tells them apart.
\<close>
theorem signature_ambiguous:
  "let a = ann_sign sign (example_announcement 5 [''train'']);
       b = a\<lparr>ann_job_types := [''tr'', ''ain''], ann_created_at := 7\<rparr>;
       f = filter_any\<lparr>qf_job_type := Some ''train''\<rparr>
   in ann_verify verify_strict b = ann_verify verify_strict a \<and> ann_created_at b \<noteq> ann_created_at a \<and>
      matches_filter f a \<and> \<not> matches_filter f b"
  by (simp add: ann_verify_def ann_sign_def signing_message_def example_announcement_def announcement_new_def
      ttl_secs_def created_secs_def bytes_of_def matches_filter_def filter_any_def)

text \<open>
  Messages survive the wire: given that the two serialisers invert each other on this message, decoding the
  encoding of a message gives the message back with the current version; and whatever is decoded came in an
  envelope of version 1 with a known message type.
\<close>
theorem wire_roundtrip:
  assumes "to_json m = Inr payload" and "from_json payload = Inr m"
    and "prost_decode (prost_encode \<lparr>wm_msg_type = wire_type m, wm_payload = payload, wm_version = 1\<rparr>) =
           Inr \<lparr>wm_msg_type = wire_type m, wm_payload = payload, wm_version = 1\<rparr>"
  shows "(\<exists>bytes. encode_wire to_json prost_encode m = Inr bytes \<and>
            decode_wire_with_version from_json prost_decode bytes = Inr (m, CURRENT) \<and>
            decode_wire from_json prost_decode bytes = Inr m) \<and>
    (decode_wire_with_version from_json prost_decode bs = Inr (m', ver) \<longrightarrow>
       (\<exists>w. prost_decode bs = Inr w \<and> wm_version w = 1 \<and> wm_msg_type w \<in> {1, 2, 3, 4, 5, 6}))"
proof -
  have "is_valid_message_type CURRENT (wire_type m)" by (cases m) (simp_all add: CURRENT_def)
  then have "encode_wire to_json prost_encode m =
      Inr (prost_encode \<lparr>wm_msg_type = wire_type m, wm_payload = payload, wm_version = 1\<rparr>)"
    using assms(1) by (simp add: encode_wire_def encode_wire_with_version_def CURRENT_def)
  moreover have "decode_wire_with_version from_json prost_decode
      (prost_encode \<lparr>wm_msg_type = wire_type m, wm_payload = payload, wm_version = 1\<rparr>) = Inr (m, CURRENT)"
    using assms(2,3) \<open>is_valid_message_type CURRENT (wire_type m)\<close>
    by (simp add: decode_wire_with_version_def version_from_u32_def is_compatible_with_def CURRENT_def)
  ultimately have "\<exists>bytes. encode_wire to_json prost_encode m = Inr bytes \<and>
      decode_wire_with_version from_json prost_decode bytes = Inr (m, CURRENT) \<and>
      decode_wire from_json prost_decode bytes = Inr m" by (simp add: decode_wire_def)
  moreover have "\<exists>w. prost_decode bs = Inr w \<and> wm_version w = 1 \<and> wm_msg_type w \<in> {1, 2, 3, 4, 5, 6}"
    if "decode_wire_with_version from_json prost_decode bs = Inr (m', ver)"
    using that
    by (cases ver)
      (auto simp: decode_wire_with_version_def version_from_u32_def CURRENT_def split: sum.splits if_splits)
  ultimately show ?thesis by blast
qed

text \<open>An envelope as two fixed-width fields and the payload, to instantiate the parameters.\<close>

definition envelope :: "wire_message \<Rightarrow> u8 list" where
  "envelope w = [ucast (wm_msg_type w), ucast (wm_version w)] @ wm_payload w"

definition heartbeat_decode :: "u8 list \<Rightarrow> string + wire_message" where
  "heartbeat_decode bs = Inr \<lparr>wm_msg_type = 4, wm_payload = drop 2 bs, wm_version = 1\<rparr>"

theorem wire_roundtrip_witness:
  "\<exists>bytes. encode_wire (\<lambda>_. Inr [7]) envelope (Heartbeat ''p'' 9) = Inr bytes \<and>
     decode_wire (\<lambda>_. Inr (Heartbeat ''p'' 9)) heartbeat_decode bytes = Inr (Heartbeat ''p'' 9)"
proof -
  have "heartbeat_decode (envelope \<lparr>wm_msg_type = wire_type (Heartbeat ''p'' 9), wm_payload = [7], wm_version = 1\<rparr>) =
      Inr \<lparr>wm_msg_type = wire_type (Heartbeat ''p'' 9), wm_payload = [7], wm_version = 1\<rparr>"
    by (simp add: heartbeat_decode_def envelope_def)
  then show ?thesis
    using wire_roundtrip [where to_json = "\<lambda>_. Inr [7]" and from_json = "\<lambda>_. Inr (Heartbeat ''p'' 9)" and
        m = "Heartbeat ''p'' 9" and payload = "[7]" and prost_decode = heartbeat_decode and prost_encode = envelope]
    by blast
qed

text \<open>
  The type tag of the envelope is not compared with its payload: an envelope tagged as a heartbeat whose
  payload is an announcement decodes to the announcement.
\<close>
theorem type_tag_not_checked:
  "let m = Announce [] (example_announcement 5 []) 3;
       w = \<lparr>wm_msg_type = 4, wm_payload = [7], wm_version = 1\<rparr>
   in decode_wire (\<lambda>_. Inr m) heartbeat_decode (envelope w) = Inr m \<and>
      heartbeat_decode (envelope w) = Inr w \<and> wire_type m \<noteq> wm_msg_type w"
  by (simp add: decode_wire_def decode_wire_with_version_def heartbeat_decode_def envelope_def
      version_from_u32_def is_compatible_with_def CURRENT_def)

end
