(* ===== verification/Gossip_Broadcast.thy ===== *)
theory Gossip_Broadcast
  imports Gossip_Message
begin

text \<open>
  The gossip broadcaster, \<open>crates/molt-p2p/src/gossip/broadcast.rs\<close>: rate limiting, deduplication by
  message identifier, the bounded announcement cache with its eviction order, and the choice of
  peers to forward to. What the code takes from outside is gathered in a record: the verification
  function of a peer's key, the shuffle of the random number generator, and the text form of a peer
  identifier. A call takes one reading of the monotonic clock and one of the wall clock, and the
  identifier that \<open>MessageId::new\<close> gives.
\<close>

section \<open>Data\<close>

record gossip_env =
  to_verifying_key :: "peer_id \<Rightarrow> (u8 list \<Rightarrow> u8 list \<Rightarrow> string option) option"
  shuffle :: "peer_id list \<Rightarrow> peer_id list"
  show_peer :: "peer_id \<Rightarrow> string"

record broadcast_config =
  fanout :: nat
  max_ttl_hops :: u8
  seen_cache_ttl :: duration
  max_seen_cache :: nat
  announcement_cache_ttl :: duration
  max_announcements_per_peer :: nat
  max_total_announcements :: nat
  cleanup_interval :: duration
  bc_rate_limit :: rate_limit_config

definition broadcast_default :: broadcast_config where
  "broadcast_default = \<lparr>fanout = 3, max_ttl_hops = 6, seen_cache_ttl = secs 300, max_seen_cache = 10000,
     announcement_cache_ttl = secs 600, max_announcements_per_peer = 5, max_total_announcements = 10000,
     cleanup_interval = secs 60, bc_rate_limit = config_default\<rparr>"

definition small_network :: broadcast_config where
  "small_network = broadcast_default\<lparr>fanout := 2, max_ttl_hops := 4\<rparr>"

definition large_network :: broadcast_config where
  "large_network = broadcast_default\<lparr>fanout := 5, max_ttl_hops := 8, max_seen_cache := 50000\<rparr>"

record broadcast_result =
  br_message_id :: message_id
  target_peers :: "peer_id list"
  was_duplicate :: bool

record seen_entry =
  added_at :: instant
  seen_from_peer :: peer_id

record announcement_key =
  key_peer_id :: peer_id
  key_seq :: u64

record cached_announcement =
  ca_announcement :: announcement
  cached_at :: instant
  ca_key :: announcement_key

type_synonym ann_cache = "(peer_id, cached_announcement list) hashmap"

record broadcaster =
  local_peer_id :: peer_id
  bc_config :: broadcast_config
  known_peers :: "peer_id list"
  seen_messages :: "(message_id, seen_entry) hashmap"
  seen_order :: "message_id list"
  announcement_cache :: ann_cache
  announcement_order :: "announcement_key list"
  next_announcement_seq :: u64
  last_cleanup :: instant
  bc_rate_limiter :: rate_limiter

section \<open>Operations\<close>

definition broadcaster_new :: "instant \<Rightarrow> peer_id \<Rightarrow> broadcast_config \<Rightarrow> broadcaster" where
  "broadcaster_new now p cfg =
     \<lparr>local_peer_id = p, bc_config = cfg, known_peers = [], seen_messages = [], seen_order = [],
      announcement_cache = [], announcement_order = [], next_announcement_seq = 0, last_cleanup = now,
      bc_rate_limiter = rate_limiter_new now (bc_rate_limit cfg)\<rparr>"

definition bc_add_peer :: "peer_id \<Rightarrow> broadcaster \<Rightarrow> broadcaster" where
  "bc_add_peer p g = (if p \<noteq> local_peer_id g then g\<lparr>known_peers := List.insert p (known_peers g)\<rparr> else g)"

definition bc_remove_peer :: "peer_id \<Rightarrow> broadcaster \<Rightarrow> broadcaster" where
  "bc_remove_peer p g =
     g\<lparr>known_peers := removeAll p (known_peers g),
       announcement_cache := hm_remove p (announcement_cache g),
       announcement_order := filter (\<lambda>k. key_peer_id k \<noteq> p) (announcement_order g)\<rparr>"

definition has_seen :: "broadcaster \<Rightarrow> message_id \<Rightarrow> bool" where
  "has_seen g i = hm_contains (seen_messages g) i"

definition cache_count :: "ann_cache \<Rightarrow> nat" where
  "cache_count c = hm_sum length c"

definition cached_announcement_count :: "broadcaster \<Rightarrow> nat" where
  "cached_announcement_count g = cache_count (announcement_cache g)"

text \<open>The common end of \<open>select_fanout_peers\<close> and \<open>select_fanout_peers_excluding\<close>.\<close>

definition pick_fanout :: "gossip_env \<Rightarrow> nat \<Rightarrow> peer_id list \<Rightarrow> peer_id list" where
  "pick_fanout env n candidates =
     (if length candidates \<le> n then candidates else take n (shuffle env candidates))"

definition select_fanout_peers :: "gossip_env \<Rightarrow> broadcaster \<Rightarrow> peer_id option \<Rightarrow> peer_id list" where
  "select_fanout_peers env g exclude =
     pick_fanout env (fanout (bc_config g))
       (filter (\<lambda>p. case exclude of None \<Rightarrow> True | Some e \<Rightarrow> p \<noteq> e) (known_peers g))"

definition select_fanout_peers_excluding :: "gossip_env \<Rightarrow> broadcaster \<Rightarrow> peer_id list \<Rightarrow> peer_id list" where
  "select_fanout_peers_excluding env g exclude =
     pick_fanout env (fanout (bc_config g)) (filter (\<lambda>p. p \<notin> set exclude) (known_peers g))"

definition mark_seen :: "instant \<Rightarrow> message_id \<Rightarrow> peer_id \<Rightarrow> broadcaster \<Rightarrow> broadcaster" where
  "mark_seen now i p g =
     (let g1 = (if length (seen_messages g) \<ge> max_seen_cache (bc_config g)
                then (case seen_order g of
                        [] \<Rightarrow> g
                      | old # rest \<Rightarrow> g\<lparr>seen_order := rest, seen_messages := hm_remove old (seen_messages g)\<rparr>)
                else g)
      in g1\<lparr>seen_messages := hm_insert i \<lparr>added_at = now, seen_from_peer = p\<rparr> (seen_messages g1),
            seen_order := seen_order g1 @ [i]\<rparr>)"

text \<open>\<open>entry(..).or_default()\<close>.\<close>

definition entries_of :: "ann_cache \<Rightarrow> peer_id \<Rightarrow> cached_announcement list" where
  "entries_of c p = (case hm_get c p of None \<Rightarrow> [] | Some es \<Rightarrow> es)"

text \<open>The eviction loop of \<open>cache_announcement\<close>; it ends because the queue gets shorter.\<close>

definition drop_key :: "announcement_key \<Rightarrow> ann_cache \<Rightarrow> ann_cache" where
  "drop_key k c =
     (case hm_get c (key_peer_id k) of
        None \<Rightarrow> c
      | Some es \<Rightarrow>
          let es' = filter (\<lambda>e. ca_key e \<noteq> k) es
          in if es' = [] then hm_remove (key_peer_id k) c else hm_insert (key_peer_id k) es' c)"

fun evict_oldest :: "nat \<Rightarrow> ann_cache \<Rightarrow> announcement_key list \<Rightarrow> ann_cache \<times> announcement_key list" where
  "evict_oldest mx c [] = (c, [])"
| "evict_oldest mx c (k # ks) =
     (if cache_count c \<ge> mx then evict_oldest mx (drop_key k c) ks else (c, k # ks))"

text \<open>The loop that trims a peer's entries, oldest first.\<close>

fun trim_entries ::
  "nat \<Rightarrow> cached_announcement list \<Rightarrow> announcement_key list
   \<Rightarrow> cached_announcement list \<times> announcement_key list" where
  "trim_entries mx [] ord = ([], ord)"
| "trim_entries mx (e # es) ord =
     (if length (e # es) > mx then trim_entries mx es (filter (\<lambda>k. k \<noteq> ca_key e) ord) else (e # es, ord))"

definition cache_announcement :: "instant \<Rightarrow> announcement \<Rightarrow> broadcaster \<Rightarrow> broadcaster" where
  "cache_announcement now a g =
     (let p = ann_peer_id a;
          key = \<lparr>key_peer_id = p, key_seq = next_announcement_seq g\<rparr>;
          cached = \<lparr>ca_announcement = a, cached_at = now, ca_key = key\<rparr>;
          entries = entries_of (announcement_cache g) p;
          same = (\<lambda>c. ann_created_at (ca_announcement c) = ann_created_at a);
          removed = map ca_key (filter same entries);
          cache1 = hm_insert p (filter (\<lambda>c. \<not> same c) entries) (announcement_cache g);
          order1 = filter (\<lambda>k. k \<notin> set removed) (announcement_order g);
          (cache2, order2) = evict_oldest (max_total_announcements (bc_config g)) cache1 order1;
          (es, order3) = trim_entries (max_announcements_per_peer (bc_config g))
                           (entries_of cache2 p @ [cached]) (order2 @ [key])
      in g\<lparr>next_announcement_seq := next_announcement_seq g + 1,
           announcement_cache := hm_insert p es cache2, announcement_order := order3\<rparr>)"

definition prepare_announce ::
  "gossip_env \<Rightarrow> instant \<Rightarrow> message_id \<Rightarrow> announcement \<Rightarrow> broadcaster \<Rightarrow> broadcast_result \<times> broadcaster" where
  "prepare_announce env now fresh a g =
     (let targets = select_fanout_peers env g None
      in (\<lparr>br_message_id = fresh, target_peers = targets, was_duplicate = False\<rparr>,
          cache_announcement now a (mark_seen now fresh (local_peer_id g) g)))"

text \<open>The derived \<open>Display\<close> of an error.\<close>

fun show_p2p_error :: "gossip_env \<Rightarrow> p2p_error \<Rightarrow> string" where
  "show_p2p_error env (P2pConnection s) = ''connection failed: '' @ s"
| "show_p2p_error env (P2pDiscovery s) = ''discovery failed: '' @ s"
| "show_p2p_error env (P2pGossip s) = ''gossip error: '' @ s"
| "show_p2p_error env (PeerNotFound s) = ''peer not found: '' @ s"
| "show_p2p_error env (P2pProtocol s) = ''protocol error: '' @ s"
| "show_p2p_error env (P2pIo s) = ''io error: '' @ s"
| "show_p2p_error env (P2pRateLimited p) = ''peer '' @ show_peer env p @ '' is rate limited''"
| "show_p2p_error env (PeerBanned p) = ''peer '' @ show_peer env p @ '' is temporarily banned''"
| "show_p2p_error env (DiversityLimitExceeded r) = ''peer diversity limit exceeded: '' @ r"
| "show_p2p_error env PrivateIpRejected = ''private IP addresses are not allowed''"

definition handle_announce ::
  "gossip_env \<Rightarrow> instant \<Rightarrow> int \<Rightarrow> message_id \<Rightarrow> announcement \<Rightarrow> u8 \<Rightarrow> peer_id \<Rightarrow> broadcaster
   \<Rightarrow> (p2p_error, broadcast_result, broadcaster) outcome" where
  "handle_announce env now utc i a ttl from g =
     (if has_seen g i
      then (Inr \<lparr>br_message_id = i, target_peers = [], was_duplicate = True\<rparr>, g)
      else case to_verifying_key env (ann_peer_id a) of
        None \<Rightarrow> (Inl (P2pProtocol ''Invalid peer ID: cannot derive verifying key''), g)
      | Some verify_strict \<Rightarrow>
          (case ann_verify verify_strict a of
             Inl e \<Rightarrow> (Inl (P2pGossip (''Announcement signature verification failed: '' @ show_p2p_error env e)), g)
           | Inr _ \<Rightarrow>
               if ttl = 0
               then (Inr \<lparr>br_message_id = i, target_peers = [], was_duplicate = False\<rparr>,
                     cache_announcement now a (mark_seen now i from g))
               else if ann_is_expired utc a
               then (Inl (P2pGossip ''Received expired announcement''), g)
               else let g2 = cache_announcement now a (mark_seen now i from g)
                    in (Inr \<lparr>br_message_id = i, target_peers = select_fanout_peers env g2 (Some from),
                             was_duplicate = False\<rparr>, g2)))"

definition handle_query ::
  "gossip_env \<Rightarrow> instant \<Rightarrow> gossip_query \<Rightarrow> peer_id \<Rightarrow> broadcaster
   \<Rightarrow> (p2p_error, broadcast_result, broadcaster) outcome" where
  "handle_query env now q from g =
     (if has_seen g (query_id q)
      then (Inr \<lparr>br_message_id = query_id q, target_peers = [], was_duplicate = True\<rparr>, g)
      else let g1 = mark_seen now (query_id q) from g
           in if gq_ttl_hops q = 0
              then (Inr \<lparr>br_message_id = query_id q, target_peers = [], was_duplicate = False\<rparr>, g1)
              else (Inr \<lparr>br_message_id = query_id q,
                         target_peers = select_fanout_peers_excluding env g1 [from, gq_from_peer q],
                         was_duplicate = False\<rparr>, g1))"

definition entry_expired :: "duration \<Rightarrow> instant \<Rightarrow> int \<Rightarrow> cached_announcement \<Rightarrow> bool" where
  "entry_expired cache_ttl now utc e \<longleftrightarrow> now - cached_at e \<ge> cache_ttl \<or> ann_is_expired utc (ca_announcement e)"

text \<open>
  Every \<open>is_expired()\<close> reads the wall clock anew: the clean-up once for each entry while it collects the keys to
  forget and once more for each entry while it retains the others, and the handler of an announcement once. The readings
  of one call are a record.
\<close>

record utc_clock =
  utc_collect :: "cached_announcement \<Rightarrow> int"
  utc_retain :: "cached_announcement \<Rightarrow> int"
  utc_check :: int

definition bc_cleanup :: "instant \<Rightarrow> utc_clock \<Rightarrow> broadcaster \<Rightarrow> broadcaster" where
  "bc_cleanup now utc g =
     (let seen = hm_retain (\<lambda>_ e. now - added_at e < seen_cache_ttl (bc_config g)) (seen_messages g);
          cache_ttl = announcement_cache_ttl (bc_config g);
          removed = concat (map (\<lambda>es. map ca_key (filter (\<lambda>e. entry_expired cache_ttl now (utc_collect utc e) e) es))
                      (hm_values (announcement_cache g)));
          cache = filter (\<lambda>(p, es). es \<noteq> [])
                    (map (\<lambda>(p, es). (p, filter (\<lambda>e. \<not> entry_expired cache_ttl now (utc_retain utc e) e) es))
                      (announcement_cache g))
      in g\<lparr>last_cleanup := now, seen_messages := seen,
           seen_order := filter (hm_contains seen) (seen_order g),
           announcement_cache := cache,
           announcement_order := filter (\<lambda>k. k \<notin> set removed) (announcement_order g)\<rparr>)"

definition bc_maybe_cleanup :: "instant \<Rightarrow> utc_clock \<Rightarrow> broadcaster \<Rightarrow> broadcaster" where
  "bc_maybe_cleanup now utc g =
     (if now - last_cleanup g < cleanup_interval (bc_config g) then g else bc_cleanup now utc g)"

definition handle_message ::
  "gossip_env \<Rightarrow> instant \<Rightarrow> utc_clock \<Rightarrow> message_id \<Rightarrow> gossip_message \<Rightarrow> peer_id \<Rightarrow> broadcaster
   \<Rightarrow> (p2p_error, broadcast_result, broadcaster) outcome" where
  "handle_message env now utc fresh m from g =
     (case check_and_record now from (bc_rate_limiter g) of
        (r, rl) \<Rightarrow>
          let g0 = g\<lparr>bc_rate_limiter := rl\<rparr>
          in case r of
               RateLimited \<Rightarrow> (Inl (P2pRateLimited from), g0)
             | Banned _ \<Rightarrow> (Inl (PeerBanned from), g0)
             | Allowed \<Rightarrow>
                 (let g1 = bc_maybe_cleanup now utc g0
                  in case m of
                       Announce i a ttl \<Rightarrow> handle_announce env now (utc_check utc) i a ttl from g1
                     | Query q \<Rightarrow> handle_query env now q from g1
                     | Response qid _ _ \<Rightarrow>
                         (Inr \<lparr>br_message_id = qid, target_peers = [], was_duplicate = False\<rparr>,
                          mark_seen now qid from g1)
                     | _ \<Rightarrow> (Inr \<lparr>br_message_id = fresh, target_peers = [], was_duplicate = False\<rparr>, g1)))"

text \<open>The two loops of \<open>query_cache\<close> stop as soon as enough results are collected.\<close>

fun collect_results :: "nat \<Rightarrow> (announcement \<Rightarrow> bool) \<Rightarrow> announcement list \<Rightarrow> announcement list \<Rightarrow> announcement list" where
  "collect_results mx P acc [] = acc"
| "collect_results mx P acc (a # as) =
     (if P a
      then (if length (acc @ [a]) \<ge> mx then acc @ [a] else collect_results mx P (acc @ [a]) as)
      else collect_results mx P acc as)"

definition query_cache :: "int \<Rightarrow> broadcaster \<Rightarrow> query_filter \<Rightarrow> u32 \<Rightarrow> announcement list" where
  "query_cache utc g f max_results =
     collect_results (unat max_results) (\<lambda>a. \<not> ann_is_expired utc a \<and> matches_filter f a) []
       (map ca_announcement (concat (hm_values (announcement_cache g))))"


section \<open>The announcement cache\<close>

text \<open>Every cached entry is filed under its peer, queued for eviction, and has a key used once.\<close>

definition list_ok :: "announcement_key list \<Rightarrow> nat \<Rightarrow> peer_id \<Rightarrow> cached_announcement list \<Rightarrow> bool" where
  "list_ok ord nxt p es \<longleftrightarrow>
     (\<forall>e \<in> set es. key_peer_id (ca_key e) = p \<and> ca_key e \<in> set ord \<and> unat (key_seq (ca_key e)) < nxt) \<and>
     distinct (map ca_key es)"

definition cache_ok :: "announcement_key list \<Rightarrow> nat \<Rightarrow> ann_cache \<Rightarrow> bool" where
  "cache_ok ord nxt c \<longleftrightarrow> hm_wf c \<and> (\<forall>p. list_ok ord nxt p (entries_of c p))"

lemma list_ok_Nil [simp]: "list_ok ord nxt p []"
  by (simp add: list_ok_def)

lemma list_ok_filter: "list_ok ord nxt p es \<Longrightarrow> list_ok ord nxt p (filter P es)"
  by (auto simp: list_ok_def distinct_map_filter)

text \<open>The queue may lose keys that no remaining entry has.\<close>

lemma list_ok_order:
  "list_ok ord nxt p es \<Longrightarrow> (\<And>e. e \<in> set es \<Longrightarrow> ca_key e \<in> set ord \<Longrightarrow> ca_key e \<in> set ord') \<Longrightarrow> nxt \<le> nxt' \<Longrightarrow>
   list_ok ord' nxt' p es"
  by (fastforce simp: list_ok_def)

lemma entries_insert [simp]: "entries_of (hm_insert p es c) q = (if q = p then es else entries_of c q)"
  by (simp add: entries_of_def)

lemma entries_remove [simp]: "entries_of (hm_remove p c) q = (if q = p then [] else entries_of c q)"
  by (simp add: entries_of_def)

lemma entries_drop_key:
  "entries_of (drop_key k c) q =
     (if q = key_peer_id k then filter (\<lambda>e. ca_key e \<noteq> k) (entries_of c q) else entries_of c q)"
  by (auto simp: drop_key_def Let_def entries_of_def split: option.splits)

lemma wf_drop_key [simp]: "hm_wf c \<Longrightarrow> hm_wf (drop_key k c)"
  by (simp add: drop_key_def Let_def split: option.split)

lemma count_insert:
  "hm_wf c \<Longrightarrow> cache_count (hm_insert p es c) + length (entries_of c p) = cache_count c + length es"
  using hm_sum_insert [of c length p es]
  by (cases "hm_get c p") (simp_all add: cache_count_def entries_of_def)

lemma count_empty: "hm_wf c \<Longrightarrow> (\<And>p. entries_of c p = []) \<Longrightarrow> cache_count c = 0"
proof -
  assume wf: "hm_wf c" and e: "\<And>p. entries_of c p = []"
  have "snd x = []" if "x \<in> set c" for x
    using e [of "fst x"] map_of_is_SomeI [OF wf, of "fst x" "snd x"] that by (simp add: entries_of_def)
  then show ?thesis unfolding cache_count_def by (induction c) auto
qed

lemma evict_oldest_ok:
  assumes "cache_ok ks nxt c" and "1 \<le> mx" and "evict_oldest mx c ks = (c', ks')"
  shows "cache_ok ks' nxt c' \<and> cache_count c' < mx \<and> (\<forall>p. set (entries_of c' p) \<subseteq> set (entries_of c p)) \<and>
    (\<forall>p. length (entries_of c' p) \<le> length (entries_of c p))"
  using assms
proof (induction ks arbitrary: c)
  case Nil
  then have "\<And>p. entries_of c p = []"
    by (auto simp: cache_ok_def list_ok_def neq_Nil_conv)
  then have "cache_count c = 0" using Nil by (intro count_empty) (simp_all add: cache_ok_def)
  with Nil show ?case by simp
next
  case (Cons k ks)
  show ?case
  proof (cases "cache_count c \<ge> mx")
    case True
    have "list_ok ks nxt p (entries_of (drop_key k c) p)" for p
      using Cons.prems(1) unfolding cache_ok_def entries_drop_key
      by (auto simp: list_ok_def distinct_map_filter)
    then have "cache_ok ks nxt (drop_key k c)"
      using Cons.prems(1) by (simp add: cache_ok_def)
    from Cons.IH [OF this] Cons.prems(2,3) True
    have ih: "cache_ok ks' nxt c' \<and> cache_count c' < mx"
      "\<And>p. set (entries_of c' p) \<subseteq> set (entries_of (drop_key k c) p)"
      "\<And>p. length (entries_of c' p) \<le> length (entries_of (drop_key k c) p)" by auto
    have "set (entries_of (drop_key k c) p) \<subseteq> set (entries_of c p) \<and>
        length (entries_of (drop_key k c) p) \<le> length (entries_of c p)" for p
      unfolding entries_drop_key by auto
    with ih show ?thesis by (meson order.trans)
  qed (use Cons.prems in auto)
qed

lemma trim_entries_eq:
  "trim_entries mx es ord = (es', ord') \<Longrightarrow>
   length es' \<le> mx \<and> (\<exists>n. es' = drop n es \<and> ord' = filter (\<lambda>k. k \<notin> ca_key ` set (take n es)) ord)"
proof (induction mx es ord rule: trim_entries.induct)
  case (2 mx e es ord)
  show ?case
  proof (cases "length (e # es) > mx")
    case True
    with 2 obtain n where n: "length es' \<le> mx" "es' = drop n es"
      "ord' = filter (\<lambda>k. k \<notin> ca_key ` set (take n es)) (filter (\<lambda>k. k \<noteq> ca_key e) ord)" by auto
    then have "es' = drop (Suc n) (e # es) \<and> ord' = filter (\<lambda>k. k \<notin> ca_key ` set (take (Suc n) (e # es))) ord"
      by (auto simp: filter_filter intro!: filter_cong)
    with n(1) show ?thesis by blast
  next
    case False
    with "2.prems" have "es' = drop 0 (e # es) \<and> ord' = filter (\<lambda>k. k \<notin> ca_key ` set (take 0 (e # es))) ord" by simp
    with False "2.prems" show ?thesis by (metis not_less trim_entries.simps(2) prod.inject)
  qed
qed auto

definition cache_inv :: "broadcast_config \<Rightarrow> broadcaster \<Rightarrow> bool" where
  "cache_inv cfg g \<longleftrightarrow>
     bc_config g = cfg \<and>
     cache_ok (announcement_order g) (unat (next_announcement_seq g)) (announcement_cache g) \<and>
     cached_announcement_count g \<le> max_total_announcements cfg \<and>
     (\<forall>p. length (entries_of (announcement_cache g) p) \<le> max_announcements_per_peer cfg)"

lemma list_ok_drop_trim:
  assumes ok: "list_ok ord nxt p es"
  shows "list_ok (filter (\<lambda>k. k \<notin> ca_key ` set (take n es)) ord) nxt p (drop n es)"
proof -
  have "distinct (map ca_key (take n es) @ map ca_key (drop n es))"
    using ok by (metis append_take_drop_id list_ok_def map_append)
  then have "ca_key e \<notin> ca_key ` set (take n es)" if "e \<in> set (drop n es)" for e
    using that by (auto simp: image_iff)
  with ok show ?thesis
    unfolding list_ok_def by (auto simp: distinct_drop [of "map ca_key es", simplified drop_map] dest: in_set_dropD)
qed

lemma list_ok_other:
  assumes "list_ok ord nxt q es" and "q \<noteq> p" and "\<And>k. k \<in> K \<Longrightarrow> key_peer_id k = p"
  shows "list_ok (filter (\<lambda>k. k \<notin> K) ord) nxt q es"
  using assms by (auto simp: list_ok_def)

lemma list_ok_split:
  assumes "list_ok ord nxt p es"
  shows "list_ok (filter (\<lambda>k. k \<notin> ca_key ` set (filter P es)) ord) nxt p (filter (\<lambda>e. \<not> P e) es)"
proof -
  have "ca_key e \<notin> ca_key ` set (filter P es)" if "e \<in> set es" "\<not> P e" for e
    using assms that by (auto simp: list_ok_def distinct_map inj_on_def)
  with assms show ?thesis by (auto simp: list_ok_def distinct_map_filter)
qed

lemma list_ok_snoc:
  assumes "list_ok ord nxt p es" and "key_peer_id (ca_key e) = p" and "unat (key_seq (ca_key e)) = nxt"
  shows "list_ok (ord @ [ca_key e]) (Suc nxt) p (es @ [e])"
proof -
  have "ca_key e \<notin> ca_key ` set es"
  proof
    assume "ca_key e \<in> ca_key ` set es"
    then obtain e' where "e' \<in> set es" "ca_key e' = ca_key e" by (metis imageE)
    then have "unat (key_seq (ca_key e)) < nxt" using assms(1) by (auto simp: list_ok_def)
    with assms(3) show False by simp
  qed
  moreover have "\<forall>x \<in> set es. key_peer_id (ca_key x) = p \<and> ca_key x \<in> set ord \<and> unat (key_seq (ca_key x)) < nxt"
    "distinct (map ca_key es)"
    using assms(1) by (simp_all add: list_ok_def)
  ultimately show ?thesis using assms(2,3) by (simp add: list_ok_def less_SucI)
qed


text \<open>The three phases of \<open>cache_announcement\<close>: forget the replaced entries, evict, append and trim.\<close>

lemma forget_ok:
  assumes "cache_ok ord nxt c"
  shows "cache_ok (filter (\<lambda>k. k \<notin> ca_key ` set (filter P (entries_of c p))) ord) nxt
           (hm_insert p (filter (\<lambda>e. \<not> P e) (entries_of c p)) c)"
proof -
  let ?ord = "filter (\<lambda>k. k \<notin> ca_key ` set (filter P (entries_of c p))) ord"
  have l: "list_ok ord nxt q (entries_of c q)" for q using assms by (simp add: cache_ok_def)
  have "key_peer_id k = p" if "k \<in> ca_key ` set (filter P (entries_of c p))" for k
    using l [of p] that by (auto simp: list_ok_def)
  then have "list_ok ?ord nxt q (entries_of c q)" if "q \<noteq> p" for q
    by (rule list_ok_other [OF l that])
  then show ?thesis using list_ok_split [OF l [of p], of P] assms by (simp add: cache_ok_def)
qed

lemma push_ok:
  assumes ok: "cache_ok ord nxt c" and key: "key_peer_id (ca_key e) = p" "unat (key_seq (ca_key e)) = nxt"
    and tr: "trim_entries m (entries_of c p @ [e]) (ord @ [ca_key e]) = (es, ord')"
  shows "cache_ok ord' (Suc nxt) (hm_insert p es c) \<and> length es \<le> m \<and> length es \<le> Suc (length (entries_of c p))"
proof -
  have new: "list_ok (ord @ [ca_key e]) (Suc nxt) p (entries_of c p @ [e])"
    using list_ok_snoc [OF _ key] ok by (simp add: cache_ok_def)
  from trim_entries_eq [OF tr] obtain n where es: "length es \<le> m" "es = drop n (entries_of c p @ [e])"
    "ord' = filter (\<lambda>k. k \<notin> ca_key ` set (take n (entries_of c p @ [e]))) (ord @ [ca_key e])" by blast
  have peer: "key_peer_id k = p" if "k \<in> ca_key ` set (take n (entries_of c p @ [e]))" for k
    using new that unfolding list_ok_def by (metis imageE in_set_takeD)
  have "list_ok ord' (Suc nxt) q (entries_of c q)" if "q \<noteq> p" for q
  proof -
    have "list_ok (ord @ [ca_key e]) (Suc nxt) q (entries_of c q)"
      by (rule list_ok_order [of ord nxt]) (use ok in \<open>simp_all add: cache_ok_def\<close>)
    then show ?thesis unfolding es(3) using that peer by (rule list_ok_other)
  qed
  moreover have "list_ok ord' (Suc nxt) p es" using list_ok_drop_trim [OF new, of n] es by simp
  moreover have "length es \<le> Suc (length (entries_of c p))" unfolding es(2) by simp
  ultimately show ?thesis using ok es(1) by (simp add: cache_ok_def)
qed

lemma cache_announcement_inv:
  assumes inv: "cache_inv cfg g" and mx: "1 \<le> max_total_announcements cfg"
    and seq: "unat (next_announcement_seq g) + 1 < 2 ^ 64"
  shows "cache_inv cfg (cache_announcement now a g)"
proof -
  let ?p = "ann_peer_id a" and ?nxt = "unat (next_announcement_seq g)" and ?c = "announcement_cache g"
  let ?new = "\<lparr>ca_announcement = a, cached_at = now,
      ca_key = \<lparr>key_peer_id = ?p, key_seq = next_announcement_seq g\<rparr>\<rparr>"
  let ?same = "\<lambda>c. ann_created_at (ca_announcement c) = ann_created_at a"
  let ?c1 = "hm_insert ?p (filter (\<lambda>c. \<not> ?same c) (entries_of ?c ?p)) ?c"
  let ?o1 = "filter (\<lambda>k. k \<notin> ca_key ` set (filter ?same (entries_of ?c ?p))) (announcement_order g)"
  have cfg: "bc_config g = cfg" using inv by (simp add: cache_inv_def)
  have ok1: "cache_ok ?o1 ?nxt ?c1" using inv by (intro forget_ok) (simp add: cache_inv_def)
  obtain c2 o2 where ev: "evict_oldest (max_total_announcements cfg) ?c1 ?o1 = (c2, o2)"
    by (cases "evict_oldest (max_total_announcements cfg) ?c1 ?o1")
  have e2: "cache_ok o2 ?nxt c2" "cache_count c2 < max_total_announcements cfg"
    "\<And>q. length (entries_of c2 q) \<le> length (entries_of ?c1 q)"
    using evict_oldest_ok [OF ok1 mx ev] by blast+
  obtain es o3 where tr: "trim_entries (max_announcements_per_peer cfg) (entries_of c2 ?p @ [?new])
      (o2 @ [ca_key ?new]) = (es, o3)"
    by (cases "trim_entries (max_announcements_per_peer cfg) (entries_of c2 ?p @ [?new]) (o2 @ [ca_key ?new])")
  have p3: "cache_ok o3 (Suc ?nxt) (hm_insert ?p es c2)" "length es \<le> max_announcements_per_peer cfg"
    "length es \<le> Suc (length (entries_of c2 ?p))"
    using push_ok [OF e2(1) _ _ tr] by simp_all
  have "length (entries_of c2 q) \<le> max_announcements_per_peer cfg" if "q \<noteq> ?p" for q
  proof -
    have "length (entries_of ?c q) \<le> max_announcements_per_peer cfg" using inv by (simp add: cache_inv_def)
    with e2(3) [of q] that show ?thesis by simp
  qed
  moreover have "cache_count (hm_insert ?p es c2) \<le> max_total_announcements cfg"
    using count_insert [of c2 ?p es] e2(1,2) p3(3) by (simp add: cache_ok_def)
  moreover have "unat (next_announcement_seq g + 1) = Suc ?nxt"
    using seq by (subst unat_add_exact) simp_all
  moreover have "cache_announcement now a g =
      g\<lparr>next_announcement_seq := next_announcement_seq g + 1,
        announcement_cache := hm_insert ?p es c2, announcement_order := o3\<rparr>"
    using ev tr by (simp add: cache_announcement_def Let_def cfg)
  ultimately show ?thesis using p3 cfg by (simp add: cache_inv_def cached_announcement_count_def)
qed


subsection \<open>The other operations\<close>

lemma mark_seen_fields [simp]:
  "bc_config (mark_seen now i p g) = bc_config g"
  "announcement_cache (mark_seen now i p g) = announcement_cache g"
  "announcement_order (mark_seen now i p g) = announcement_order g"
  "next_announcement_seq (mark_seen now i p g) = next_announcement_seq g"
  "known_peers (mark_seen now i p g) = known_peers g"
  by (simp_all add: mark_seen_def Let_def split: list.split)

lemma cache_announcement_fields [simp]:
  "known_peers (cache_announcement now a g) = known_peers g"
  "bc_config (cache_announcement now a g) = bc_config g"
  "next_announcement_seq (cache_announcement now a g) = next_announcement_seq g + 1"
  "seen_messages (cache_announcement now a g) = seen_messages g"
  "seen_order (cache_announcement now a g) = seen_order g"
  by (simp_all add: cache_announcement_def Let_def case_prod_beta)

lemma cache_inv_mark_seen [simp]: "cache_inv cfg (mark_seen now i p g) = cache_inv cfg g"
  by (simp add: cache_inv_def cached_announcement_count_def)

lemma cache_inv_limiter [simp]: "cache_inv cfg (g\<lparr>bc_rate_limiter := rl\<rparr>) = cache_inv cfg g"
  by (simp add: cache_inv_def cached_announcement_count_def)

lemma cache_inv_remove_peer:
  assumes "cache_inv cfg g"
  shows "cache_inv cfg (bc_remove_peer p g)"
proof -
  let ?ord = "filter (\<lambda>k. k \<notin> {k. key_peer_id k = p}) (announcement_order g)"
  have ok: "cache_ok (announcement_order g) (unat (next_announcement_seq g)) (announcement_cache g)"
    and wf: "hm_wf (announcement_cache g)"
    using assms by (simp_all add: cache_inv_def cache_ok_def)
  have "list_ok ?ord (unat (next_announcement_seq g)) q (entries_of (announcement_cache g) q)" if "q \<noteq> p" for q
    by (rule list_ok_other [OF _ that]) (use ok in \<open>simp_all add: cache_ok_def\<close>)
  then have "cache_ok ?ord (unat (next_announcement_seq g)) (hm_remove p (announcement_cache g))"
    using wf by (simp add: cache_ok_def)
  moreover have "cache_count (hm_remove p (announcement_cache g)) \<le> cache_count (announcement_cache g)"
    using hm_sum_remove [OF wf, of length p] by (simp add: cache_count_def)
  ultimately show ?thesis
    using assms by (simp add: cache_inv_def cached_announcement_count_def bc_remove_peer_def)
qed

text \<open>A cleaned cache is the old one with the expired entries filtered out of every list.\<close>

definition clean_cache :: "(cached_announcement \<Rightarrow> bool) \<Rightarrow> ann_cache \<Rightarrow> ann_cache" where
  "clean_cache expired c =
     filter (\<lambda>(p, es). es \<noteq> []) (map (\<lambda>(p, es). (p, filter (\<lambda>e. \<not> expired e) es)) c)"

lemma clean_cache_wf: "hm_wf c \<Longrightarrow> hm_wf (clean_cache ex c)"
proof (induction c)
  case (Cons x c)
  have "fst ` set (clean_cache ex c) \<subseteq> fst ` set c" by (force simp: clean_cache_def)
  with Cons show ?case by (cases x) (auto simp: clean_cache_def)
qed (simp add: clean_cache_def)

lemma entries_clean:
  "hm_wf c \<Longrightarrow> entries_of (clean_cache ex c) p = filter (\<lambda>e. \<not> ex e) (entries_of c p)"
proof (induction c)
  case (Cons x c)
  have "fst ` set (clean_cache ex c) \<subseteq> fst ` set c" by (force simp: clean_cache_def)
  then have "fst x \<notin> fst ` set (clean_cache ex c)" using Cons.prems by auto
  then have "hm_get (clean_cache ex c) (fst x) = None" by (simp add: map_of_eq_None_iff)
  moreover have "clean_cache ex (x # c) =
      (if filter (\<lambda>e. \<not> ex e) (snd x) = [] then clean_cache ex c
       else (fst x, filter (\<lambda>e. \<not> ex e) (snd x)) # clean_cache ex c)"
    by (cases x) (simp add: clean_cache_def)
  ultimately show ?case using Cons by (cases x) (auto simp: entries_of_def)
qed (simp add: clean_cache_def entries_of_def)

lemma count_clean: "cache_count (clean_cache ex c) \<le> cache_count c"
proof (induction c)
  case (Cons x c)
  then show ?case
    using length_filter_le [of "\<lambda>e. \<not> ex e" "snd x"]
    by (cases x) (auto simp: clean_cache_def cache_count_def intro: add_le_mono)
qed (simp add: clean_cache_def)

lemma cache_inv_cleanup:
  assumes inv: "cache_inv cfg g"
    and steady: "\<And>p e. e \<in> set (entries_of (announcement_cache g) p) \<Longrightarrow>
      ann_is_expired (utc_collect utc e) (ca_announcement e) \<Longrightarrow> ann_is_expired (utc_retain utc e) (ca_announcement e)"
  shows "cache_inv cfg (bc_cleanup now utc g)"
proof -
  let ?c = "announcement_cache g" and ?ttl = "announcement_cache_ttl (bc_config g)"
  let ?ex = "\<lambda>e. entry_expired ?ttl now (utc_collect utc e) e" and ?ex' = "\<lambda>e. entry_expired ?ttl now (utc_retain utc e) e"
  let ?removed = "concat (map (\<lambda>es. map ca_key (filter ?ex es)) (hm_values ?c))"
  let ?ord = "filter (\<lambda>k. k \<notin> set ?removed) (announcement_order g)"
  have wf: "hm_wf ?c" and l: "\<And>p. list_ok (announcement_order g) (unat (next_announcement_seq g)) p (entries_of ?c p)"
    using inv by (simp_all add: cache_inv_def cache_ok_def)
  have "ca_key e \<notin> set ?removed" if e: "e \<in> set (entries_of ?c p)" "\<not> ?ex' e" for e p
  proof
    assume "ca_key e \<in> set ?removed"
    then obtain q es e' where "(q, es) \<in> set ?c" "e' \<in> set es" "?ex e'" "ca_key e' = ca_key e" by auto
    then have e': "e' \<in> set (entries_of ?c q)" "?ex e'" "ca_key e' = ca_key e"
      using wf by (simp_all add: entries_of_def)
    then have "q = p" using l [of p] l [of q] e(1) by (auto simp: list_ok_def)
    then have "e' = e" using e' e(1) l [of p] by (auto simp: list_ok_def distinct_map inj_on_def)
    with e' e steady show False by (auto simp: entry_expired_def)
  qed
  then have "list_ok ?ord (unat (next_announcement_seq g)) p (filter (\<lambda>e. \<not> ?ex' e) (entries_of ?c p))" for p
    using list_ok_filter [OF l [of p], of "\<lambda>e. \<not> ?ex' e"] by (auto simp: list_ok_def)
  then have "cache_ok ?ord (unat (next_announcement_seq g)) (clean_cache ?ex' ?c)"
    using wf by (simp add: cache_ok_def clean_cache_wf entries_clean)
  moreover have "length (entries_of (clean_cache ?ex' ?c) p) \<le> max_announcements_per_peer cfg" for p
    using inv length_filter_le [of "\<lambda>e. \<not> ?ex' e" "entries_of ?c p"] wf
    unfolding cache_inv_def by (metis entries_clean order.trans)
  ultimately show ?thesis
    using inv count_clean [of ?ex' ?c]
    by (simp add: cache_inv_def cached_announcement_count_def bc_cleanup_def Let_def clean_cache_def)
qed

text \<open>
  What the cache holds whatever the clock says: announcements that were cached before or are cached now, and no more of
  one peer than its limit.
\<close>

lemma evict_oldest_subset:
  "hm_wf c \<Longrightarrow> evict_oldest mx c ks = (c', ks') \<Longrightarrow>
   hm_wf c' \<and> set (entries_of c' p) \<subseteq> set (entries_of c p) \<and> length (entries_of c' p) \<le> length (entries_of c p)"
proof (induction ks arbitrary: c)
  case (Cons k ks)
  have "set (entries_of (drop_key k c) p) \<subseteq> set (entries_of c p) \<and>
      length (entries_of (drop_key k c) p) \<le> length (entries_of c p)" by (auto simp: entries_drop_key)
  with Cons.IH [of "drop_key k c"] Cons.prems show ?case
    by (cases "cache_count c \<ge> mx") auto
qed simp

lemma cache_announcement_subset:
  assumes wf: "hm_wf (announcement_cache g)"
  shows "hm_wf (announcement_cache (cache_announcement now a g)) \<and>
    (\<forall>e \<in> set (entries_of (announcement_cache (cache_announcement now a g)) q).
       e \<in> set (entries_of (announcement_cache g) q) \<or> ca_announcement e = a) \<and>
    length (entries_of (announcement_cache (cache_announcement now a g)) q) \<le>
      max (length (entries_of (announcement_cache g) q)) (max_announcements_per_peer (bc_config g))"
proof -
  let ?p = "ann_peer_id a" and ?c = "announcement_cache g"
  let ?key = "\<lparr>key_peer_id = ?p, key_seq = next_announcement_seq g\<rparr>"
  let ?new = "\<lparr>ca_announcement = a, cached_at = now, ca_key = ?key\<rparr>"
  let ?same = "\<lambda>c. ann_created_at (ca_announcement c) = ann_created_at a"
  let ?c1 = "hm_insert ?p (filter (\<lambda>c. \<not> ?same c) (entries_of ?c ?p)) ?c"
  let ?o1 = "filter (\<lambda>k. k \<notin> set (map ca_key (filter ?same (entries_of ?c ?p)))) (announcement_order g)"
  obtain c2 o2 where ev: "evict_oldest (max_total_announcements (bc_config g)) ?c1 ?o1 = (c2, o2)"
    by (cases "evict_oldest (max_total_announcements (bc_config g)) ?c1 ?o1")
  obtain es o3 where tr: "trim_entries (max_announcements_per_peer (bc_config g)) (entries_of c2 ?p @ [?new])
      (o2 @ [?key]) = (es, o3)"
    by (cases "trim_entries (max_announcements_per_peer (bc_config g)) (entries_of c2 ?p @ [?new]) (o2 @ [?key])")
  have c2: "hm_wf c2" "set (entries_of c2 q) \<subseteq> set (entries_of ?c q)"
    "q \<noteq> ?p \<Longrightarrow> length (entries_of c2 q) \<le> length (entries_of ?c q)" for q
    using evict_oldest_subset [OF _ ev, of q] wf by (auto split: if_splits)
  have "set es \<subseteq> insert ?new (set (entries_of c2 ?p))" "length es \<le> max_announcements_per_peer (bc_config g)"
    using trim_entries_eq [OF tr] by (fastforce dest: in_set_dropD)+
  moreover have "announcement_cache (cache_announcement now a g) = hm_insert ?p es c2"
    using ev tr by (simp add: cache_announcement_def Let_def)
  ultimately show ?thesis using c2(1) c2(2,3) [of q] by (cases "q = ?p") auto
qed

definition peer_inv :: "announcement set \<Rightarrow> broadcast_config \<Rightarrow> broadcaster \<Rightarrow> bool" where
  "peer_inv A cfg g \<longleftrightarrow>
     bc_config g = cfg \<and> hm_wf (announcement_cache g) \<and>
     (\<forall>p. length (entries_of (announcement_cache g) p) \<le> max_announcements_per_peer cfg \<and>
       (\<forall>e \<in> set (entries_of (announcement_cache g) p). ca_announcement e \<in> A))"

lemma peer_inv_new: "peer_inv A cfg (broadcaster_new now p cfg)"
  by (simp add: peer_inv_def broadcaster_new_def entries_of_def)

lemma peer_inv_cache: "peer_inv A cfg g \<Longrightarrow> a \<in> A \<Longrightarrow> peer_inv A cfg (cache_announcement now a g)"
  using cache_announcement_subset [of g now a] by (fastforce simp: peer_inv_def)

lemma peer_inv_simps [simp]:
  "peer_inv A cfg (mark_seen now i p g) = peer_inv A cfg g"
  "peer_inv A cfg (g\<lparr>bc_rate_limiter := rl\<rparr>) = peer_inv A cfg g"
  by (simp_all add: peer_inv_def)

lemma peer_inv_cleanup: "peer_inv A cfg g \<Longrightarrow> peer_inv A cfg (bc_cleanup now utc g)"
  by (auto simp: bc_cleanup_def Let_def peer_inv_def clean_cache_def [symmetric] clean_cache_wf entries_clean
      intro: order.trans [OF length_filter_le])

section \<open>Sequences of calls\<close>

datatype gossip_op =
    G_handle instant utc_clock message_id gossip_message peer_id
  | G_announce instant message_id announcement
  | G_add_peer peer_id
  | G_remove_peer peer_id
  | G_cleanup instant utc_clock

fun gossip_step :: "gossip_env \<Rightarrow> broadcaster \<Rightarrow> gossip_op \<Rightarrow> broadcaster" where
  "gossip_step env g (G_handle now utc fresh m snd_peer) = snd (handle_message env now utc fresh m snd_peer g)"
| "gossip_step env g (G_announce now fresh a) = snd (prepare_announce env now fresh a g)"
| "gossip_step env g (G_add_peer p) = bc_add_peer p g"
| "gossip_step env g (G_remove_peer p) = bc_remove_peer p g"
| "gossip_step env g (G_cleanup now utc) = bc_cleanup now utc g"

text \<open>What a handled announcement leaves behind: the old state, or the state with it marked and cached.\<close>

lemma handle_announce_state:
  "snd (handle_announce env now utc i a ttl snd_peer g) = g \<or>
   snd (handle_announce env now utc i a ttl snd_peer g) = cache_announcement now a (mark_seen now i snd_peer g)"
  by (auto simp: handle_announce_def Let_def split: option.split sum.split)

lemma handle_query_state:
  "snd (handle_query env now q snd_peer g) = g \<or> snd (handle_query env now q snd_peer g) = mark_seen now (query_id q) snd_peer g"
  by (auto simp: handle_query_def Let_def)

text \<open>A state change that a handled message can cause, after rate limiting and cleanup.\<close>

definition after_limits :: "instant \<Rightarrow> utc_clock \<Rightarrow> peer_id \<Rightarrow> broadcaster \<Rightarrow> broadcaster" where
  "after_limits now utc snd_peer g =
     bc_maybe_cleanup now utc (g\<lparr>bc_rate_limiter := snd (check_and_record now snd_peer (bc_rate_limiter g))\<rparr>)"

lemma handle_message_state:
  obtains "snd (handle_message env now utc fresh m snd_peer g) =
      g\<lparr>bc_rate_limiter := snd (check_and_record now snd_peer (bc_rate_limiter g))\<rparr>"
  | "snd (handle_message env now utc fresh m snd_peer g) = after_limits now utc snd_peer g"
  | i where "snd (handle_message env now utc fresh m snd_peer g) = mark_seen now i snd_peer (after_limits now utc snd_peer g)"
  | i a ttl where "m = Announce i a ttl"
      "snd (handle_message env now utc fresh m snd_peer g) =
         snd (handle_announce env now (utc_check utc) i a ttl snd_peer (after_limits now utc snd_peer g))"
      "snd (handle_message env now utc fresh m snd_peer g) =
         cache_announcement now a (mark_seen now i snd_peer (after_limits now utc snd_peer g))"
proof -
  obtain r rl where c: "check_and_record now snd_peer (bc_rate_limiter g) = (r, rl)"
    by (cases "check_and_record now snd_peer (bc_rate_limiter g)")
  show ?thesis
  proof (cases "r = Allowed")
    case True
    then have h: "snd (handle_message env now utc fresh m snd_peer g) = (case m of
        Announce i a ttl \<Rightarrow> snd (handle_announce env now (utc_check utc) i a ttl snd_peer (after_limits now utc snd_peer g))
      | Query q \<Rightarrow> snd (handle_query env now q snd_peer (after_limits now utc snd_peer g))
      | Response qid _ _ \<Rightarrow> mark_seen now qid snd_peer (after_limits now utc snd_peer g)
      | _ \<Rightarrow> after_limits now utc snd_peer g)"
      by (simp add: handle_message_def c after_limits_def Let_def split: gossip_message.split)
    show ?thesis
    proof (cases m)
      case (Announce i a ttl)
      with h handle_announce_state [of env now "utc_check utc" i a ttl snd_peer "after_limits now utc snd_peer g"] that
      show ?thesis by auto
    next
      case (Query q)
      with h handle_query_state [of env now q snd_peer "after_limits now utc snd_peer g"] that show ?thesis by auto
    qed (use h that in auto)
  next
    case False
    with that c show ?thesis by (cases r) (simp_all add: handle_message_def Let_def)
  qed
qed

lemma seq_after_limits [simp]: "next_announcement_seq (after_limits now utc snd_peer g) = next_announcement_seq g"
  by (simp add: after_limits_def bc_maybe_cleanup_def bc_cleanup_def Let_def)

text \<open>
  An announcement that counts as expired at one reading counts as expired at a later one, unless it is dated in the
  future of the first reading and not of the second. A clock is steady for an announcement when it does not go back
  between the two readings of a clean-up and the announcement is not dated between them.
\<close>

definition steady :: "utc_clock \<Rightarrow> announcement \<Rightarrow> bool" where
  "steady utc a \<longleftrightarrow>
     (\<forall>e. utc_collect utc e \<le> utc_retain utc e \<and>
          \<not> (utc_collect utc e < ann_created_at a \<and> ann_created_at a \<le> utc_retain utc e))"

lemma steady_expired:
  assumes "steady utc a" "ann_is_expired (utc_collect utc e) a"
  shows "ann_is_expired (utc_retain utc e) a"
proof -
  let ?t1 = "utc_collect utc e" and ?t2 = "utc_retain utc e"
  have "?t1 \<le> ?t2" "\<not> (?t1 < ann_created_at a \<and> ann_created_at a \<le> ?t2)"
    using assms(1) unfolding steady_def by blast+
  with assms(2) show ?thesis by (auto simp: ann_is_expired_def Let_def split: if_splits)
qed

fun op_clocks :: "gossip_op \<Rightarrow> utc_clock list" where
  "op_clocks (G_handle now utc fresh m p) = [utc]"
| "op_clocks (G_cleanup now utc) = [utc]"
| "op_clocks op = []"

fun op_announcements :: "gossip_op \<Rightarrow> announcement list" where
  "op_announcements (G_handle now utc fresh (Announce i a ttl) p) = [a]"
| "op_announcements (G_announce now fresh a) = [a]"
| "op_announcements op = []"

definition steady_ops :: "gossip_op list \<Rightarrow> bool" where
  "steady_ops ops \<longleftrightarrow>
     list_all (\<lambda>utc. list_all (steady utc) (concat (map op_announcements ops))) (concat (map op_clocks ops))"

lemma peer_inv_after_limits: "peer_inv A cfg g \<Longrightarrow> peer_inv A cfg (after_limits now utc p g)"
  by (simp add: after_limits_def bc_maybe_cleanup_def peer_inv_cleanup)

lemma peer_inv_step:
  assumes inv: "peer_inv A cfg g" and A: "set (op_announcements op) \<subseteq> A"
  shows "peer_inv A cfg (gossip_step env g op)"
proof (cases op)
  case (G_handle now utc fresh m p)
  have h: "peer_inv A cfg (after_limits now utc p g)" by (rule peer_inv_after_limits [OF inv])
  show ?thesis
  proof (rule handle_message_state [of env now utc fresh m p g])
    fix i a ttl
    assume "m = Announce i a ttl" and s: "snd (handle_message env now utc fresh m p g) =
      cache_announcement now a (mark_seen now i p (after_limits now utc p g))"
    then have "a \<in> A" using A G_handle by simp
    with h s G_handle show ?thesis by (simp add: peer_inv_cache)
  qed (use inv h G_handle in simp_all)
next
  case (G_remove_peer p)
  with inv show ?thesis by (simp add: bc_remove_peer_def peer_inv_def)
qed (use inv A in \<open>simp_all add: prepare_announce_def Let_def peer_inv_cache bc_add_peer_def peer_inv_cleanup, simp add: peer_inv_def\<close>)

lemma cache_inv_clean_steady:
  assumes "cache_inv cfg g" "peer_inv A cfg g" "\<And>a. a \<in> A \<Longrightarrow> steady utc a"
  shows "cache_inv cfg (bc_cleanup now utc g)"
  using assms by (intro cache_inv_cleanup) (auto simp: peer_inv_def intro: steady_expired)

lemma cache_inv_after_limits:
  assumes "cache_inv cfg g" "peer_inv A cfg g" "\<And>a. a \<in> A \<Longrightarrow> steady utc a"
  shows "cache_inv cfg (after_limits now utc p g)"
  using assms by (auto simp: after_limits_def bc_maybe_cleanup_def intro: cache_inv_clean_steady)

lemma cache_inv_step:
  assumes "cache_inv cfg g" "peer_inv A cfg g" and "1 \<le> max_total_announcements cfg"
    and "unat (next_announcement_seq g) + 1 < 2 ^ 64"
    and steady: "\<And>utc a. utc \<in> set (op_clocks op) \<Longrightarrow> a \<in> A \<Longrightarrow> steady utc a"
  shows "cache_inv cfg (gossip_step env g op) \<and>
    unat (next_announcement_seq (gossip_step env g op)) \<le> unat (next_announcement_seq g) + 1"
proof -
  have s: "unat (next_announcement_seq g + 1) = unat (next_announcement_seq g) + 1"
    using assms(4) by (subst unat_add_exact) simp_all
  have c: "cache_inv cfg (cache_announcement now a (mark_seen now i p h))"
    if "cache_inv cfg h" "next_announcement_seq h = next_announcement_seq g" for now a i p h
    using that assms by (intro cache_announcement_inv) simp_all
  show ?thesis
  proof (cases op)
    case (G_handle now utc fresh m snd_peer)
    have l: "cache_inv cfg (after_limits now utc snd_peer g)"
      by (rule cache_inv_after_limits [OF assms(1,2)]) (simp add: steady G_handle)
    then show ?thesis
      using G_handle assms(1) s c [OF l]
      by (rule_tac handle_message_state [of env now utc fresh m snd_peer g]) (simp_all del: snd_conv)
  next
    case (G_announce now fresh a)
    with c [OF assms(1)] s show ?thesis by (simp add: prepare_announce_def Let_def)
  next
    case (G_add_peer p)
    with assms show ?thesis by (simp add: bc_add_peer_def cache_inv_def cached_announcement_count_def)
  next
    case (G_remove_peer p)
    with cache_inv_remove_peer [OF assms(1), of p] show ?thesis by (simp add: bc_remove_peer_def)
  next
    case (G_cleanup now utc)
    with cache_inv_clean_steady [OF assms(1,2) steady, of utc now] show ?thesis
      by (simp add: bc_cleanup_def Let_def)
  qed
qed

lemma peer_inv_run:
  assumes "peer_inv A cfg g" "\<And>op. op \<in> set ops \<Longrightarrow> set (op_announcements op) \<subseteq> A"
  shows "peer_inv A cfg (run (gossip_step env) g ops)"
  using assms by (induction ops arbitrary: g) (simp_all add: peer_inv_step)

lemma cache_inv_run_in:
  assumes "cache_inv cfg g" "peer_inv A cfg g" and "1 \<le> max_total_announcements cfg"
    and "unat (next_announcement_seq g) + length ops < 2 ^ 64"
    and "\<And>op. op \<in> set ops \<Longrightarrow> set (op_announcements op) \<subseteq> A"
    and "\<And>op utc a. op \<in> set ops \<Longrightarrow> utc \<in> set (op_clocks op) \<Longrightarrow> a \<in> A \<Longrightarrow> steady utc a"
  shows "cache_inv cfg (run (gossip_step env) g ops)"
  using assms
proof (induction ops arbitrary: g)
  case (Cons op ops)
  have "cache_inv cfg (gossip_step env g op) \<and>
      unat (next_announcement_seq (gossip_step env g op)) \<le> unat (next_announcement_seq g) + 1"
    using Cons.prems by (intro cache_inv_step [where A = A]) (simp_all, blast)
  moreover have "peer_inv A cfg (gossip_step env g op)" using Cons.prems by (simp add: peer_inv_step)
  ultimately have "cache_inv cfg (run (gossip_step env) (gossip_step env g op) ops)"
    using Cons.prems by (intro Cons.IH) (auto intro: Cons.prems(6))
  then show ?case by simp
qed simp

lemma cache_inv_new: "cache_inv cfg (broadcaster_new now p cfg)"
  by (simp add: cache_inv_def broadcaster_new_def cache_ok_def entries_of_def cached_announcement_count_def cache_count_def)

lemma seq_new [simp]: "next_announcement_seq (broadcaster_new now p cfg) = 0"
  by (simp add: broadcaster_new_def)

lemma cache_inv_run:
  assumes "steady_ops ops" and "1 \<le> max_total_announcements cfg" and "length ops < 2 ^ 64"
  shows "cache_inv cfg (run (gossip_step env) (broadcaster_new now p cfg) ops)"
  by (rule cache_inv_run_in [where A = "set (concat (map op_announcements ops))"])
    (use assms in \<open>auto simp: cache_inv_new peer_inv_new steady_ops_def list_all_iff\<close>)

lemma peer_bound_run:
  "length (entries_of (announcement_cache (run (gossip_step env) (broadcaster_new now p cfg) ops)) q)
     \<le> max_announcements_per_peer cfg"
  using peer_inv_run [OF peer_inv_new, of ops UNIV cfg env now p] by (simp add: peer_inv_def)

section \<open>Forwarding\<close>

lemma pick_fanout_sound:
  assumes "mset (shuffle env cs) = mset cs" and "distinct cs"
  shows "distinct (pick_fanout env n cs) \<and> length (pick_fanout env n cs) \<le> n \<and> set (pick_fanout env n cs) \<subseteq> set cs"
proof -
  have "distinct (shuffle env cs)" "set (shuffle env cs) = set cs"
    using assms by (metis mset_eq_imp_distinct_iff, metis mset_eq_setD)
  then show ?thesis using assms(2) set_take_subset [of n "shuffle env cs"] by (auto simp: pick_fanout_def)
qed


lemma known_after_limits [simp]: "known_peers (after_limits now utc p g) = known_peers g"
  "bc_config (after_limits now utc p g) = bc_config g"
  by (simp_all add: after_limits_def bc_maybe_cleanup_def bc_cleanup_def Let_def)

lemma announce_targets:
  "fst (handle_announce env now utc i a ttl p g) = Inr r \<Longrightarrow>
   target_peers r = [] \<or>
   target_peers r = pick_fanout env (fanout (bc_config g)) (filter (\<lambda>q. q \<noteq> p) (known_peers g))"
  by (auto simp: handle_announce_def Let_def select_fanout_peers_def split: option.splits sum.splits if_splits)

lemma query_targets:
  "fst (handle_query env now q p g) = Inr r \<Longrightarrow>
   target_peers r = [] \<or>
   target_peers r = pick_fanout env (fanout (bc_config g)) (filter (\<lambda>x. x \<notin> {p, gq_from_peer q}) (known_peers g))"
  by (auto simp: handle_query_def Let_def select_fanout_peers_excluding_def split: if_splits)

lemma handle_message_targets:
  assumes "fst (handle_message env now utc fresh m p g) = Inr r"
  shows "target_peers r = [] \<or>
    (\<exists>X. p \<in> X \<and> target_peers r = pick_fanout env (fanout (bc_config g)) (filter (\<lambda>q. q \<notin> X) (known_peers g)))"
proof -
  obtain lr rl where c: "check_and_record now p (bc_rate_limiter g) = (lr, rl)"
    by (cases "check_and_record now p (bc_rate_limiter g)")
  have lr: "lr = Allowed"
    using assms by (cases lr) (simp_all add: handle_message_def c Let_def)
  have h: "handle_message env now utc fresh m p g = (case m of
      Announce i a ttl \<Rightarrow> handle_announce env now (utc_check utc) i a ttl p (after_limits now utc p g)
    | Query q \<Rightarrow> handle_query env now q p (after_limits now utc p g)
    | Response qid _ _ \<Rightarrow> (Inr \<lparr>br_message_id = qid, target_peers = [], was_duplicate = False\<rparr>,
        mark_seen now qid p (after_limits now utc p g))
    | _ \<Rightarrow> (Inr \<lparr>br_message_id = fresh, target_peers = [], was_duplicate = False\<rparr>, after_limits now utc p g))"
    by (cases m) (simp_all add: handle_message_def c lr after_limits_def Let_def)
  show ?thesis
  proof (cases m)
    case (Announce i a ttl)
    with announce_targets [of env now "utc_check utc" i a ttl p "after_limits now utc p g" r] assms h
    have "target_peers r = [] \<or>
        target_peers r = pick_fanout env (fanout (bc_config g)) (filter (\<lambda>q. q \<notin> {p}) (known_peers g))" by simp
    then show ?thesis by blast
  next
    case (Query q)
    with query_targets [of env now q p "after_limits now utc p g" r] assms h
    have "target_peers r = [] \<or> target_peers r =
        pick_fanout env (fanout (bc_config g)) (filter (\<lambda>x. x \<notin> {p, gq_from_peer q}) (known_peers g))" by simp
    then show ?thesis by blast
  qed (use assms h in auto)
qed

lemma targets_sound:
  assumes "\<And>xs. mset (shuffle env xs) = mset xs" and "distinct (known_peers g)"
    and "fst (handle_message env now utc fresh m p g) = Inr r"
  shows "distinct (target_peers r) \<and> length (target_peers r) \<le> fanout (bc_config g) \<and>
    set (target_peers r) \<subseteq> set (known_peers g) - {p}"
proof -
  let ?pick = "\<lambda>X. pick_fanout env (fanout (bc_config g)) (filter (\<lambda>q. q \<notin> X) (known_peers g))"
  have pick: "distinct (?pick X) \<and> length (?pick X) \<le> fanout (bc_config g) \<and> set (?pick X) \<subseteq> set (known_peers g) - X" for X
    using pick_fanout_sound [OF assms(1) distinct_filter [OF assms(2), of "\<lambda>q. q \<notin> X"],
        of "fanout (bc_config g)"] by auto
  from handle_message_targets [OF assms(3)] show ?thesis
  proof
    assume "\<exists>X. p \<in> X \<and> target_peers r = ?pick X"
    then obtain X where "p \<in> X" "target_peers r = ?pick X" by blast
    with pick [of X] show ?thesis by auto
  qed simp
qed

section \<open>Authenticity\<close>

definition authentic :: "gossip_env \<Rightarrow> announcement \<Rightarrow> bool" where
  "authentic env a \<longleftrightarrow>
     (case to_verifying_key env (ann_peer_id a) of None \<Rightarrow> False | Some v \<Rightarrow> ann_verify v a = Inr ())"

definition all_authentic :: "gossip_env \<Rightarrow> broadcaster \<Rightarrow> bool" where
  "all_authentic env g \<longleftrightarrow>
     hm_wf (announcement_cache g) \<and>
     (\<forall>p. \<forall>e \<in> set (entries_of (announcement_cache g) p). authentic env (ca_announcement e))"

lemma authentic_cache:
  "all_authentic env g \<Longrightarrow> authentic env a \<Longrightarrow> all_authentic env (cache_announcement now a g)"
  using cache_announcement_subset [of g now a] by (fastforce simp: all_authentic_def)

lemma authentic_simps [simp]:
  "all_authentic env (mark_seen now i p g) = all_authentic env g"
  "all_authentic env (g\<lparr>bc_rate_limiter := rl\<rparr>) = all_authentic env g"
  by (simp_all add: all_authentic_def)

lemma authentic_after_limits: "all_authentic env g \<Longrightarrow> all_authentic env (after_limits now utc p g)"
  by (auto simp: after_limits_def bc_maybe_cleanup_def bc_cleanup_def Let_def all_authentic_def
      clean_cache_def [symmetric] clean_cache_wf entries_clean)

lemma handle_announce_authentic:
  assumes "all_authentic env g"
  shows "all_authentic env (snd (handle_announce env now utc i a ttl p g))"
  using assms
  by (auto simp: handle_announce_def Let_def authentic_def split: option.split sum.split
      intro!: authentic_cache)

definition receive :: "gossip_env \<Rightarrow> broadcaster \<Rightarrow> instant \<times> utc_clock \<times> message_id \<times> gossip_message \<times> peer_id \<Rightarrow> broadcaster" where
  "receive env g = (\<lambda>(now, utc, fresh, m, p). snd (handle_message env now utc fresh m p g))"

interpretation auth: invariant_steps "receive env" "all_authentic env" for env
proof
  fix g and x :: "instant \<times> utc_clock \<times> message_id \<times> gossip_message \<times> peer_id"
  assume a: "all_authentic env g"
  obtain now utc fresh m p where x: "x = (now, utc, fresh, m, p)" by (cases x) auto
  note l = authentic_after_limits [OF a, of now utc p]
  show "all_authentic env (receive env g x)"
  proof (rule handle_message_state [of env now utc fresh m p g])
    fix i b ttl
    assume "m = Announce i b ttl" and h: "snd (handle_message env now utc fresh m p g) =
        snd (handle_announce env now (utc_check utc) i b ttl p (after_limits now utc p g))"
    then show ?thesis using handle_announce_authentic [OF l] by (simp add: receive_def x)
  qed (use a l in \<open>simp_all add: receive_def x\<close>)
qed

lemma collect_results_sound:
  "set (collect_results mx P acc as) \<subseteq> set acc \<union> {a \<in> set as. P a}"
  by (induction mx P acc as rule: collect_results.induct) auto

lemma collect_results_length:
  "length acc < max mx 1 \<Longrightarrow> length (collect_results mx P acc as) \<le> max mx 1"
  by (induction mx P acc as rule: collect_results.induct) auto


section \<open>Properties\<close>

definition clock_at :: "int \<Rightarrow> utc_clock" where
  "clock_at t = \<lparr>utc_collect = (\<lambda>_. t), utc_retain = (\<lambda>_. t), utc_check = t\<rparr>"

text \<open>
  C11. The announcement cache cannot be exhausted: whatever peers send and whatever is announced, removed and cleaned up,
  a broadcaster never holds more announcements of one peer than the per-peer limit. With a total limit of at least one
  and for fewer than \<open>2 ^ 64\<close> calls (the sequence number wraps after that) it never holds more announcements than the
  total limit either, and every cached entry is in the eviction queue, on one condition on the wall clock, which a
  clean-up reads twice for each entry: between the two readings it does not go back and does not pass the creation
  time of an announcement sent or received (one dated in the future counts as expired). Without it the total limit
  can be exceeded, which a theorem below shows.
\<close>
theorem announcement_cache_bounded:
  "let g = run (gossip_step env) (broadcaster_new now p cfg) ops
   in length (entries_of (announcement_cache g) q) \<le> max_announcements_per_peer cfg \<and>
      (1 \<le> max_total_announcements cfg \<and> length ops < 2 ^ 64 \<and> steady_ops ops \<longrightarrow>
         cached_announcement_count g \<le> max_total_announcements cfg \<and>
         ca_key ` set (entries_of (announcement_cache g) q) \<subseteq> set (announcement_order g))"
proof -
  have "cache_inv cfg (run (gossip_step env) (broadcaster_new now p cfg) ops)"
    if "1 \<le> max_total_announcements cfg \<and> length ops < 2 ^ 64 \<and> steady_ops ops"
    using that by (intro cache_inv_run) blast+
  then show ?thesis by (auto simp: cache_inv_def Let_def cache_ok_def list_ok_def peer_bound_run)
qed

definition example_env :: gossip_env where
  "example_env = \<lparr>to_verifying_key = (\<lambda>p. Some (\<lambda>_ _. None)), shuffle = rev, show_peer = (\<lambda>p. p)\<rparr>"

theorem announcement_cache_bounded_witness:
  "let g = run (gossip_step example_env) (broadcaster_new 0 ''me'' broadcast_default)
             [G_announce 1 [1] (example_announcement 5 []), G_cleanup 2 (clock_at 7), G_announce 2 [2] (example_announcement 6 [])]
   in cached_announcement_count g \<le> 10000"
proof -
  let ?ops = "[G_announce 1 [1] (example_announcement 5 []), G_cleanup 2 (clock_at 7), G_announce 2 [2] (example_announcement 6 [])]"
  have "1 \<le> max_total_announcements broadcast_default" and "length ?ops < 2 ^ 64"
    by (simp_all add: broadcast_default_def)
  moreover have "steady_ops ?ops"
    by (simp add: steady_ops_def steady_def clock_at_def)
  ultimately show ?thesis
    using announcement_cache_bounded [of example_env 0 "''me''" broadcast_default ?ops "''q''"]
    by (simp add: Let_def broadcast_default_def del: run.simps gossip_step.simps)
qed

text \<open>
  An entry dated between the two readings of a clean-up counts as expired while the keys to forget are collected and as
  live while the entries are retained: it stays in the cache without a place in the eviction queue, and the next
  announcement exceeds a total limit of one.
\<close>

definition tiny_config :: broadcast_config where
  "tiny_config = broadcast_default\<lparr>max_total_announcements := 1\<rparr>"

definition straddling_clock :: utc_clock where
  "straddling_clock = \<lparr>utc_collect = (\<lambda>_. 4), utc_retain = (\<lambda>_. 5), utc_check = 5\<rparr>"

definition demo_entry :: "instant \<Rightarrow> int \<Rightarrow> u64 \<Rightarrow> cached_announcement" where
  "demo_entry now t n = \<lparr>ca_announcement = example_announcement t [], cached_at = now,
     ca_key = \<lparr>key_peer_id = ann_peer_id (example_announcement t []), key_seq = n\<rparr>\<rparr>"

lemma demo_cached:
  assumes "bc_config g = tiny_config" "announcement_cache g = []" "announcement_order g = []" "next_announcement_seq g = 0"
  shows "announcement_cache (cache_announcement 1 (example_announcement 5 []) g) =
           [(ann_peer_id (example_announcement 5 []), [demo_entry 1 5 0])] \<and>
         announcement_order (cache_announcement 1 (example_announcement 5 []) g) = [ca_key (demo_entry 1 5 0)]"
  using assms
  by (simp add: cache_announcement_def Let_def entries_of_def hm_insert_def tiny_config_def broadcast_default_def
      demo_entry_def cache_count_def)

lemma demo_orphaned:
  assumes "bc_config g = tiny_config"
    and "announcement_cache g = [(ann_peer_id (example_announcement 5 []), [demo_entry 1 5 0])]"
    and "announcement_order g = [ca_key (demo_entry 1 5 0)]"
  shows "announcement_cache (bc_cleanup 2 straddling_clock g) = announcement_cache g \<and>
         announcement_order (bc_cleanup 2 straddling_clock g) = []"
  using assms
  by (simp add: bc_cleanup_def Let_def entry_expired_def straddling_clock_def demo_entry_def ann_is_expired_def
      example_announcement_def announcement_new_def DURATION_MAX_def tiny_config_def broadcast_default_def secs_def)

lemma demo_exceeds:
  assumes "bc_config g = tiny_config" "announcement_order g = []"
    and "announcement_cache g = [(ann_peer_id (example_announcement 5 []), [demo_entry 1 5 0])]"
  shows "cached_announcement_count (cache_announcement 3 (example_announcement 6 []) g) = 2"
  using assms
  by (simp add: cache_announcement_def Let_def entries_of_def hm_insert_def tiny_config_def broadcast_default_def
      demo_entry_def cached_announcement_count_def cache_count_def example_announcement_def announcement_new_def)

theorem orphaned_entry_exceeds_limit:
  "let g1 = run (gossip_step example_env) (broadcaster_new 0 ''me'' tiny_config)
              [G_announce 1 [1] (example_announcement 5 []), G_cleanup 2 straddling_clock];
       g2 = gossip_step example_env g1 (G_announce 3 [2] (example_announcement 6 []))
   in cached_announcement_count g1 = 1 \<and> announcement_order g1 = [] \<and>
      max_total_announcements (bc_config g2) = 1 \<and> cached_announcement_count g2 = 2"
proof -
  let ?new = "mark_seen 1 [1] ''me'' (broadcaster_new 0 ''me'' tiny_config)"
  let ?g0 = "cache_announcement 1 (example_announcement 5 []) ?new"
  let ?g1 = "bc_cleanup 2 straddling_clock ?g0"
  have new: "bc_config ?new = tiny_config" "announcement_cache ?new = []" "announcement_order ?new = []"
    "next_announcement_seq ?new = 0" "local_peer_id ?new = ''me''"
    by (simp_all add: broadcaster_new_def mark_seen_def Let_def split: list.split)
  note g0 = demo_cached [OF new(1-4)]
  have cfg: "bc_config ?g1 = tiny_config" "bc_config ?g0 = tiny_config" by (simp_all add: broadcaster_new_def bc_cleanup_def Let_def)
  note g1 = demo_orphaned [OF cfg(2) conjunct1 [OF g0] conjunct2 [OF g0]]
  have "cached_announcement_count (cache_announcement 3 (example_announcement 6 []) (mark_seen 3 [2] q ?g1)) = 2" for q
    by (rule demo_exceeds) (use cfg g0 g1 in simp_all)
  moreover have "cached_announcement_count ?g1 = 1" using g0 g1 by (simp add: cached_announcement_count_def cache_count_def)
  moreover have "gossip_step example_env (broadcaster_new 0 ''me'' tiny_config) (G_announce 1 [1] (example_announcement 5 [])) = ?g0"
    by (simp add: prepare_announce_def Let_def broadcaster_new_def)
  moreover have "max_total_announcements tiny_config = 1" by (simp add: tiny_config_def)
  ultimately show ?thesis using g1 cfg by (simp add: Let_def prepare_announce_def)
qed

text \<open>
  Flooding stops at known messages: a message that was handled is remembered, and while it is
  remembered the same announcement or query is answered as a duplicate, goes to nobody and changes nothing; a
  fresh query is remembered whatever its remaining hops are.
\<close>
theorem duplicates_not_forwarded:
  assumes "has_seen g i"
  shows "handle_announce env now utc i a ttl p g =
      (Inr \<lparr>br_message_id = i, target_peers = [], was_duplicate = True\<rparr>, g) \<and>
    (query_id q = i \<longrightarrow>
       handle_query env now q p g = (Inr \<lparr>br_message_id = i, target_peers = [], was_duplicate = True\<rparr>, g)) \<and>
    (fst (handle_announce env now utc j a ttl p g) = Inr r \<longrightarrow> has_seen (snd (handle_announce env now utc j a ttl p g)) j) \<and>
    has_seen (snd (handle_query env now q p g)) (query_id q)"
proof -
  have m: "has_seen (mark_seen now k x h) k" for k x h
    by (simp add: has_seen_def mark_seen_def Let_def)
  have c: "has_seen (cache_announcement now a h) k = has_seen h k" for h k
    by (simp add: has_seen_def)
  show ?thesis
    using assms m c
    by (auto simp: handle_announce_def handle_query_def Let_def split: option.splits sum.splits if_splits)
qed

theorem duplicates_not_forwarded_witness:
  "handle_announce example_env 2 7 [1] (example_announcement 5 []) 3 ''x'' (mark_seen 1 [1] ''y'' (broadcaster_new 0 ''me'' broadcast_default)) =
     (Inr \<lparr>br_message_id = [1], target_peers = [], was_duplicate = True\<rparr>,
      mark_seen 1 [1] ''y'' (broadcaster_new 0 ''me'' broadcast_default))"
proof -
  have "has_seen (mark_seen 1 [1] ''y'' (broadcaster_new 0 ''me'' broadcast_default)) [1]"
    by (simp add: has_seen_def mark_seen_def Let_def)
  from duplicates_not_forwarded [OF this] show ?thesis by blast
qed

text \<open>
  Forwarding respects the fanout: given that the shuffle permutes, the peers that any received message is forwarded to are distinct
  known peers, at most the configured number of them, and never the sender.
\<close>
theorem fanout_respected:
  assumes "\<And>xs. mset (shuffle env xs) = mset xs" and "distinct (known_peers g)"
    and "fst (handle_message env now utc fresh m p g) = Inr r"
  shows "distinct (target_peers r) \<and> length (target_peers r) \<le> fanout (bc_config g) \<and>
    set (target_peers r) \<subseteq> set (known_peers g) - {p}"
  by (rule targets_sound [OF assms])

theorem fanout_respected_witness:
  "\<exists>r. fst (handle_message example_env 1 (clock_at 6) [9] (Announce [1] (ann_sign (\<lambda>m. []) (example_announcement 5 [])) 3) ''x''
          ((broadcaster_new 0 ''me'' broadcast_default)\<lparr>known_peers := [''x'', ''y'']\<rparr>)) = Inr r \<and>
       set (target_peers r) \<subseteq> {''x'', ''y''} - {''x''}"
proof -
  let ?g = "(broadcaster_new 0 ''me'' broadcast_default)\<lparr>known_peers := [''x'', ''y'']\<rparr>"
  let ?m = "Announce [1] (ann_sign (\<lambda>m. []) (example_announcement 5 [])) 3"
  have "fst (handle_message example_env 1 (clock_at 6) [9] ?m ''x'' ?g) =
      Inr \<lparr>br_message_id = [1], target_peers = [''y''], was_duplicate = False\<rparr>"
    by (simp add: handle_message_def broadcaster_new_def broadcast_default_def rate_limiter_new_def config_default_def
        check_and_record_def rl_maybe_cleanup_def secs_def check_peer_def ban_active_def peer_entry_def
        peer_rate_state_new_def bc_maybe_cleanup_def handle_announce_def has_seen_def hm_contains_def example_env_def
        ann_verify_def ann_sign_def example_announcement_def announcement_new_def ann_is_expired_def Let_def
        select_fanout_peers_def pick_fanout_def clock_at_def)
  moreover have "mset (shuffle example_env xs) = mset xs" for xs by (simp add: example_env_def)
  moreover have "distinct (known_peers ?g)" and "known_peers ?g = [''x'', ''y'']" by simp_all
  ultimately show ?thesis using fanout_respected [of example_env ?g 1 "clock_at 6" "[9]" ?m "''x''"] by fastforce
qed

text \<open>
  C12. Only authentic announcements are believed: after any sequence of received messages every cached
  announcement carries a signature that verifies under the key of the peer it names, and a search of the
  cache returns only unexpired announcements that match the filter, at most the number asked for (at least one).
\<close>
theorem cached_announcements_authentic:
  "let g = run (receive env) (broadcaster_new now p cfg) msgs
   in all_authentic env g \<and>
      list_all (\<lambda>a. authentic env a \<and> \<not> ann_is_expired utc a \<and> matches_filter f a) (query_cache utc g f n) \<and>
      length (query_cache utc g f n) \<le> max (unat n) 1"
proof -
  let ?g = "run (receive env) (broadcaster_new now p cfg) msgs"
  have a: "all_authentic env ?g"
    by (rule auth.run_inv) (simp add: all_authentic_def broadcaster_new_def entries_of_def)
  have "authentic env (ca_announcement e)" if "e \<in> set (concat (hm_values (announcement_cache ?g)))" for e
  proof -
    from that obtain q es where "(q, es) \<in> set (announcement_cache ?g)" "e \<in> set es" by auto
    with a show ?thesis by (auto simp: all_authentic_def entries_of_def dest!: spec [of _ q])
  qed
  then have "list_all (\<lambda>a. authentic env a \<and> \<not> ann_is_expired utc a \<and> matches_filter f a) (query_cache utc ?g f n)"
    using collect_results_sound [of "unat n" "\<lambda>a. \<not> ann_is_expired utc a \<and> matches_filter f a" "[]"
        "map ca_announcement (concat (hm_values (announcement_cache ?g)))"]
    by (fastforce simp: query_cache_def list_all_iff)
  then show ?thesis
    using a collect_results_length [of "[]" "unat n"] unfolding Let_def query_cache_def by simp
qed


text \<open>Repeated responses with one identifier, below the size limit of the map.\<close>

lemma mark_seen_same:
  assumes "seen_messages g = [(i, e)]" and "1 < max_seen_cache (bc_config g)"
  shows "seen_messages (mark_seen now i p g) = [(i, \<lparr>added_at = now, seen_from_peer = p\<rparr>)] \<and>
    seen_order (mark_seen now i p g) = seen_order g @ [i]"
  using assms by (simp add: mark_seen_def Let_def hm_insert_def)

lemma mark_seen_many:
  assumes "seen_messages g = [(i, e)]" and "1 < max_seen_cache (bc_config g)"
  shows "length (seen_messages (((mark_seen now i p) ^^ n) g)) = 1 \<and>
    length (seen_order (((mark_seen now i p) ^^ n) g)) = length (seen_order g) + n"
proof -
  have "(\<exists>e. seen_messages (((mark_seen now i p) ^^ n) g) = [(i, e)]) \<and>
      bc_config (((mark_seen now i p) ^^ n) g) = bc_config g \<and>
      length (seen_order (((mark_seen now i p) ^^ n) g)) = length (seen_order g) + n"
  proof (induction n)
    case (Suc n)
    then obtain e' where "seen_messages (((mark_seen now i p) ^^ n) g) = [(i, e')]" by blast
    with Suc mark_seen_same [OF this, of now p] assms(2) show ?case by simp
  qed (use assms in simp)
  then show ?thesis by auto
qed

text \<open>
  The queue behind the seen-message cache is not bounded by its limit: responses are marked as seen without looking whether they were, so
  \<open>n\<close> responses to one query leave one remembered identifier and a queue of length \<open>n\<close>; and because the queue then holds
  stale copies, eviction removes nothing and the map itself grows past its maximum.
\<close>
theorem seen_cache_exceeds_limit:
  "let g0 = broadcaster_new 0 ''me'' broadcast_default;
       g1 = ((mark_seen 5 [1] ''x'') ^^ n) (mark_seen 5 [1] ''x'' g0);
       h0 = broadcaster_new 0 ''me'' (broadcast_default\<lparr>max_seen_cache := 2\<rparr>);
       h1 = foldl (\<lambda>g i. mark_seen 5 i ''x'' g) h0 [[1], [1], [2], [3], [4]]
   in length (seen_messages g1) = 1 \<and> length (seen_order g1) = n + 1 \<and> length (seen_messages h1) = 3"
proof -
  have "length (seen_messages (((mark_seen 5 [1] ''x'') ^^ n) (mark_seen 5 [1] ''x'' (broadcaster_new 0 ''me'' broadcast_default)))) = 1 \<and>
      length (seen_order (((mark_seen 5 [1] ''x'') ^^ n) (mark_seen 5 [1] ''x'' (broadcaster_new 0 ''me'' broadcast_default)))) =
        length (seen_order (mark_seen 5 [1] ''x'' (broadcaster_new 0 ''me'' broadcast_default))) + n"
    by (rule mark_seen_many [where e = "\<lparr>added_at = 5, seen_from_peer = ''x''\<rparr>"])
      (simp_all add: mark_seen_def broadcaster_new_def broadcast_default_def hm_insert_def)
  moreover have "length (seen_order (mark_seen 5 [1] ''x'' (broadcaster_new 0 ''me'' broadcast_default))) = 1"
    by (simp add: mark_seen_def broadcaster_new_def broadcast_default_def)
  ultimately show ?thesis
    by (simp add: Let_def) (simp add: mark_seen_def broadcaster_new_def broadcast_default_def hm_insert_def hm_remove_def)
qed

text \<open>
  The expiry check is skipped for announcements that have no hops left: the same expired announcement that is refused
  with an error while it can still be forwarded is cached when its hop count is zero.
\<close>
theorem expired_announcement_cached:
  "let a = ann_sign (\<lambda>m. []) (example_announcement 0 []);
       g = broadcaster_new 0 ''me'' broadcast_default
   in ann_is_expired 400000000000 a \<and>
      fst (handle_announce example_env 9 400000000000 [1] a 1 ''x'' g) = Inl (P2pGossip ''Received expired announcement'') \<and>
      cached_announcement_count (snd (handle_announce example_env 9 400000000000 [1] a 0 ''x'' g)) = 1"
  by (simp add: handle_announce_def has_seen_def hm_contains_def example_env_def ann_verify_def ann_sign_def
      example_announcement_def announcement_new_def ann_is_expired_def secs_def broadcaster_new_def
      broadcast_default_def cache_announcement_def mark_seen_def entries_of_def hm_insert_def
      cached_announcement_count_def cache_count_def Let_def)

end
