(* ===== verification/Mesh_Network.thy ===== *)
theory Mesh_Network
  imports Decimal
begin

text \<open>
  The WireGuard mesh, \<open>crates/claw-network/src/lib.rs\<close>: allocation of node addresses from regional
  pools and of workload subnets, the node builder, and the registry of nodes. Base64 decoding and the parser of
  network prefixes are parameters; a mutex is its contents (poisoning is not modelled); endpoints are texts.
\<close>

unbundle bit_operations_syntax

section \<open>Identifiers, regions and keys\<close>

datatype node_id = NodeId u64

definition hex_char :: "nat \<Rightarrow> char" where
  "hex_char d = (if d < 10 then char_of (48 + d) else char_of (87 + d))"

text \<open>\<open>{:016x}\<close>: sixteen hexadecimal digits.\<close>

definition show_hex16 :: "u64 \<Rightarrow> string" where
  "show_hex16 w = map (\<lambda>i. hex_char (unat w div 16 ^ i mod 16)) (rev [0..<16])"

fun show_node_id :: "node_id \<Rightarrow> string" where
  "show_node_id (NodeId v) = ''node-'' @ show_hex16 v"

datatype region = UsWest | UsEast | EuWest | Asia | Molt | Gateway

fun show_region :: "region \<Rightarrow> string" where
  "show_region UsWest = ''us-west''"
| "show_region UsEast = ''us-east''"
| "show_region EuWest = ''eu-west''"
| "show_region Asia = ''asia''"
| "show_region Molt = ''molt''"
| "show_region Gateway = ''gateway''"

datatype wireguard_key = WireGuardKey string

definition wireguard_key_new :: "(string \<Rightarrow> string + u8 list) \<Rightarrow> string \<Rightarrow> string + wireguard_key" where
  "wireguard_key_new decode key =
     (case decode key of
        Inl e \<Rightarrow> Inl (''invalid base64: '' @ e)
      | Inr decoded \<Rightarrow>
          if length decoded \<noteq> 32 then Inl (''expected 32 bytes, got '' @ show_nat (length decoded))
          else Inr (WireGuardKey key))"

section \<open>Mesh nodes\<close>

record 'net mesh_node =
  node_id :: node_id
  mesh_ip :: ip_addr
  workload_subnet :: 'net
  wireguard_key :: wireguard_key
  node_region :: region
  node_endpoint :: "string option"

record 'net mesh_node_builder =
  b_node_id :: "node_id option"
  b_mesh_ip :: "ip_addr option"
  b_workload_subnet :: "'net option"
  b_wireguard_key :: "wireguard_key option"
  b_region :: "region option"
  b_endpoint :: "string option"

definition builder_new :: "'net mesh_node_builder" where
  "builder_new = \<lparr>b_node_id = None, b_mesh_ip = None, b_workload_subnet = None, b_wireguard_key = None,
     b_region = None, b_endpoint = None\<rparr>"

definition builder_node_id :: "node_id \<Rightarrow> 'net mesh_node_builder \<Rightarrow> 'net mesh_node_builder" where
  "builder_node_id i b = b\<lparr>b_node_id := Some i\<rparr>"

definition builder_mesh_ip :: "ip_addr \<Rightarrow> 'net mesh_node_builder \<Rightarrow> 'net mesh_node_builder" where
  "builder_mesh_ip ip b = b\<lparr>b_mesh_ip := Some ip\<rparr>"

definition builder_workload_subnet :: "'net \<Rightarrow> 'net mesh_node_builder \<Rightarrow> 'net mesh_node_builder" where
  "builder_workload_subnet net b = b\<lparr>b_workload_subnet := Some net\<rparr>"

definition builder_wireguard_key :: "wireguard_key \<Rightarrow> 'net mesh_node_builder \<Rightarrow> 'net mesh_node_builder" where
  "builder_wireguard_key k b = b\<lparr>b_wireguard_key := Some k\<rparr>"

definition builder_region :: "region \<Rightarrow> 'net mesh_node_builder \<Rightarrow> 'net mesh_node_builder" where
  "builder_region r b = b\<lparr>b_region := Some r\<rparr>"

definition builder_endpoint :: "string \<Rightarrow> 'net mesh_node_builder \<Rightarrow> 'net mesh_node_builder" where
  "builder_endpoint e b = b\<lparr>b_endpoint := Some e\<rparr>"

definition build :: "'net mesh_node_builder \<Rightarrow> string + 'net mesh_node" where
  "build b =
     (case b_node_id b of None \<Rightarrow> Inl ''node_id required'' | Some i \<Rightarrow>
      case b_mesh_ip b of None \<Rightarrow> Inl ''mesh_ip required'' | Some ip \<Rightarrow>
      case b_workload_subnet b of None \<Rightarrow> Inl ''workload_subnet required'' | Some net \<Rightarrow>
      case b_wireguard_key b of None \<Rightarrow> Inl ''wireguard_key required'' | Some k \<Rightarrow>
      case b_region b of None \<Rightarrow> Inl ''region required'' | Some r \<Rightarrow>
        Inr \<lparr>node_id = i, mesh_ip = ip, workload_subnet = net, wireguard_key = k, node_region = r,
             node_endpoint = b_endpoint b\<rparr>)"

section \<open>The allocator\<close>

record ip_allocator =
  region_counters :: "(region, u32) hashmap"
  workload_counter :: u32

definition allocator_new :: ip_allocator where
  "allocator_new = \<lparr>region_counters = [], workload_counter = 0\<rparr>"

fun region_base :: "region \<Rightarrow> u8" where
  "region_base Gateway = 0"
| "region_base UsWest = 16"
| "region_base UsEast = 32"
| "region_base EuWest = 48"
| "region_base Asia = 64"
| "region_base Molt = 80"

text \<open>The address of an offset in a region's pool.\<close>

definition pool_ip :: "region \<Rightarrow> u32 \<Rightarrow> ip_addr" where
  "pool_ip r offset = V4 10 100 (region_base r + ucast (drop_bit 8 offset)) (ucast (offset AND 0xFF))"

definition allocate_node_ip :: "region \<Rightarrow> ip_allocator \<Rightarrow> (string, ip_addr, ip_allocator) outcome" where
  "allocate_node_ip r al =
     (let counter = (case hm_get (region_counters al) r of None \<Rightarrow> 1 | Some c \<Rightarrow> c);
          al1 = al\<lparr>region_counters := hm_insert r counter (region_counters al)\<rparr>
      in if counter \<ge> 4094 then (Inl (''region '' @ show_region r @ '' IP pool exhausted''), al1)
         else (Inr (pool_ip r counter),
               al1\<lparr>region_counters := hm_insert r (counter + 1) (region_counters al1)\<rparr>))"

definition subnet_text :: "u8 \<Rightarrow> string" where
  "subnet_text third = ''10.200.'' @ show_nat (unat third) @ ''.0/24''"

definition allocate_workload_subnet ::
  "(string \<Rightarrow> string + 'net) \<Rightarrow> node_id \<Rightarrow> ip_allocator \<Rightarrow> (string, 'net, ip_allocator) outcome" where
  "allocate_workload_subnet parse nid al =
     (if workload_counter al \<ge> 255 then (Inl ''workload subnet pool exhausted'', al)
      else let third_octet = ucast (workload_counter al);
               al1 = al\<lparr>workload_counter := workload_counter al + 1\<rparr>
           in case parse (subnet_text third_octet) of
                Inl e \<Rightarrow> (Inl (''subnet parse error: '' @ e), al1)
              | Inr net \<Rightarrow> (Inr net, al1))"

definition allocator_stats :: "ip_allocator \<Rightarrow> (string \<times> u32) list \<times> u32" where
  "allocator_stats al = (map (\<lambda>(r, n). (show_region r, n)) (region_counters al), workload_counter al)"

section \<open>The registry\<close>

record mesh_config =
  mesh_cidr :: string
  workload_cidr :: string

definition mesh_config_default :: mesh_config where
  "mesh_config_default = \<lparr>mesh_cidr = ''10.100.0.0/16'', workload_cidr = ''10.200.0.0/16''\<rparr>"

record 'net wireguard_mesh =
  mesh_configuration :: mesh_config
  mesh_allocator :: ip_allocator
  mesh_nodes :: "(node_id, 'net mesh_node) hashmap"

definition mesh_new :: "mesh_config \<Rightarrow> 'net wireguard_mesh" where
  "mesh_new cfg = \<lparr>mesh_configuration = cfg, mesh_allocator = allocator_new, mesh_nodes = []\<rparr>"

definition add_node :: "'net mesh_node \<Rightarrow> 'net wireguard_mesh \<Rightarrow> (string, unit, 'net wireguard_mesh) outcome" where
  "add_node n m =
     (if hm_contains (mesh_nodes m) (node_id n)
      then (Inl (''node '' @ show_node_id (node_id n) @ '' already registered''), m)
      else (Inr (), m\<lparr>mesh_nodes := hm_insert (node_id n) n (mesh_nodes m)\<rparr>))"

definition remove_node :: "node_id \<Rightarrow> 'net wireguard_mesh \<Rightarrow> (string, unit, 'net wireguard_mesh) outcome" where
  "remove_node i m =
     (case hm_get (mesh_nodes m) i of
        None \<Rightarrow> (Inl (''node '' @ show_node_id i @ '' not found''), m)
      | Some _ \<Rightarrow> (Inr (), m\<lparr>mesh_nodes := hm_remove i (mesh_nodes m)\<rparr>))"

definition get_node :: "'net wireguard_mesh \<Rightarrow> node_id \<Rightarrow> 'net mesh_node option" where
  "get_node m i = hm_get (mesh_nodes m) i"

definition node_count :: "'net wireguard_mesh \<Rightarrow> nat" where
  "node_count m = length (mesh_nodes m)"

definition list_nodes :: "'net wireguard_mesh \<Rightarrow> 'net mesh_node list" where
  "list_nodes m = hm_values (mesh_nodes m)"

section \<open>Addresses\<close>

text \<open>The next offset of a region.\<close>

definition next_offset :: "ip_allocator \<Rightarrow> region \<Rightarrow> nat" where
  "next_offset al r = (case hm_get (region_counters al) r of None \<Rightarrow> 1 | Some c \<Rightarrow> unat c)"

lemma pool_ip_octets:
  assumes "unat off < 4096"
  shows "pool_ip r off = V4 10 100 b c \<Longrightarrow> unat b = unat (region_base r) + unat off div 256 \<and> unat c = unat off mod 256"
proof -
  assume p: "pool_ip r off = V4 10 100 b c"
  have d: "unat (ucast (drop_bit 8 off) :: u8) = unat off div 256"
    using assms by (simp add: unat_cast unat_drop_bit_eq drop_bit_eq_div unat_div)
  have "unat (region_base r) \<le> 80" by (cases r) simp_all
  moreover have "unat off div 256 < 16" using assms by simp
  ultimately have "unat b = unat (region_base r) + unat off div 256"
    using p d by (auto simp: pool_ip_def unat_add_exact)
  moreover have "unat c = unat off mod 256"
  proof -
    have "off AND 0xFF = take_bit 8 off" by (simp add: take_bit_eq_mask mask_eq_exp_minus_1)
    then have "unat (off AND 0xFF) = unat off mod 256" by (simp add: take_bit_eq_mod unat_mod)
    with p show ?thesis by (auto simp: pool_ip_def unat_cast)
  qed
  ultimately show ?thesis by simp
qed

lemma pool_ip_inj:
  assumes "unat off < 4096" and "unat off' < 4096" and "pool_ip r off = pool_ip r' off'"
  shows "r = r' \<and> off = off'"
proof -
  obtain b c where p: "pool_ip r off = V4 10 100 b c" by (simp add: pool_ip_def)
  have e: "unat (region_base r) + unat off div 256 = unat (region_base r') + unat off' div 256"
    and m: "unat off mod 256 = unat off' mod 256"
    using pool_ip_octets [OF assms(1) p] pool_ip_octets [OF assms(2), of r' b c] p assms(3) by simp_all
  have "unat off div 256 < 16" "unat off' div 256 < 16" using assms(1,2) by simp_all
  then have "unat (region_base r) div 16 = unat (region_base r') div 16" and
    d: "unat off div 256 = unat off' div 256"
    using e by (cases r; cases r'; simp)+
  then have "r = r'" by (cases r; cases r'; simp)
  moreover have "unat off = unat off'" using d m by (metis div_mult_mod_eq)
  ultimately show ?thesis by (simp add: word_unat_eq_iff)
qed

text \<open>What one call returns for an offset.\<close>

definition address_at :: "region \<Rightarrow> nat \<Rightarrow> string + ip_addr" where
  "address_at r n =
     (if n \<ge> 4094 then Inl (''region '' @ show_region r @ '' IP pool exhausted'')
      else Inr (pool_ip r (of_nat n)))"

lemma allocate_step:
  "fst (allocate_node_ip r al) = address_at r (next_offset al r)"
  "next_offset (snd (allocate_node_ip r al)) =
     (next_offset al)(r := if next_offset al r \<ge> 4094 then next_offset al r else next_offset al r + 1)"
proof -
  define c :: u32 where "c = (case hm_get (region_counters al) r of None \<Rightarrow> 1 | Some c \<Rightarrow> c)"
  have u: "next_offset al r = unat c" by (simp add: next_offset_def c_def split: option.split)
  have e: "allocate_node_ip r al =
      (if c \<ge> 4094 then (address_at r 4094, al\<lparr>region_counters := hm_insert r c (region_counters al)\<rparr>)
       else (Inr (pool_ip r c), al\<lparr>region_counters := hm_insert r (c + 1) (region_counters al)\<rparr>))"
    by (simp add: allocate_node_ip_def Let_def c_def address_at_def)
  have g: "c \<ge> 4094 \<longleftrightarrow> unat c \<ge> 4094" by (simp add: word_le_nat_alt)
  show "fst (allocate_node_ip r al) = address_at r (next_offset al r)"
    by (simp add: e u g) (simp add: address_at_def)
  have "unat c < 4094 \<Longrightarrow> unat (c + 1) = unat c + 1" by (simp add: unat_add_exact)
  then show "next_offset (snd (allocate_node_ip r al)) =
     (next_offset al)(r := if next_offset al r \<ge> 4094 then next_offset al r else next_offset al r + 1)"
    by (intro ext) (simp add: e u g, simp add: next_offset_def)
qed

text \<open>A sequence of allocations.\<close>

primrec allocate_all :: "region list \<Rightarrow> ip_allocator \<Rightarrow> (string + ip_addr) list \<times> ip_allocator" where
  "allocate_all [] al = ([], al)"
| "allocate_all (r # rs) al =
     (let (res, al1) = allocate_node_ip r al; (more, al2) = allocate_all rs al1 in (res # more, al2))"

lemma allocate_all_Cons:
  "fst (allocate_all (r # rs) al) = address_at r (next_offset al r) # fst (allocate_all rs (snd (allocate_node_ip r al)))"
  using allocate_step(1) [of r al] by (simp add: Let_def case_prod_unfold)

lemma length_allocate_all [simp]: "length (fst (allocate_all rs al)) = length rs"
  by (induction rs arbitrary: al) (simp, simp only: allocate_all_Cons length_Cons)

lemma allocate_all_nth:
  assumes "\<And>r. next_offset al r \<le> 4094" and "i < length rs"
  shows "fst (allocate_all rs al) ! i =
           address_at (rs ! i) (min 4094 (next_offset al (rs ! i) + count_list (take i rs) (rs ! i)))"
  using assms
proof (induction rs arbitrary: al i)
  case (Cons r rs)
  let ?al = "snd (allocate_node_ip r al)"
  have b: "next_offset ?al r' \<le> 4094" for r'
    using Cons.prems(1) [of r'] Cons.prems(1) [of r] by (simp add: allocate_step(2))
  show ?case
  proof (cases i)
    case 0
    then show ?thesis using Cons.prems(1) [of r] by (simp add: allocate_all_Cons min_absorb2 del: allocate_all.simps)
  next
    case (Suc j)
    have "fst (allocate_all rs ?al) ! j =
        address_at (rs ! j) (min 4094 (next_offset ?al (rs ! j) + count_list (take j rs) (rs ! j)))"
      using b Cons.prems(2) Suc by (intro Cons.IH) simp_all
    then show ?thesis using Suc Cons.prems(1) [of r] by (simp add: allocate_all_Cons allocate_step(2) del: allocate_all.simps)
  qed
qed simp

lemma next_offset_new [simp]: "next_offset allocator_new r = 1"
  by (simp add: next_offset_def allocator_new_def)

lemma count_take_less:
  assumes "i < j" and "j < length xs" and "xs ! i = xs ! j"
  shows "count_list (take i xs) (xs ! i) < count_list (take j xs) (xs ! j)"
proof -
  have "take j xs = take i (take j xs) @ take j xs ! i # drop (Suc i) (take j xs)"
    using assms(1,2) by (intro id_take_nth_drop) simp
  then have "take j xs = take i xs @ xs ! i # drop (Suc i) (take j xs)"
    using assms(1,2) by (simp add: min_def)
  then have "count_list (take j xs) (xs ! i) = count_list (take i xs) (xs ! i) + (1 + count_list (drop (Suc i) (take j xs)) (xs ! i))"
    by (metis count_list_append count_list.simps(2) add.commute)
  then show ?thesis using assms(3) by simp
qed

text \<open>The documented block of a region, less its network and broadcast addresses.\<close>

definition in_pool :: "region \<Rightarrow> ip_addr \<Rightarrow> bool" where
  "in_pool r ip =
     (case ip of V6 a b c d e f g h \<Rightarrow> False
      | V4 a b c d \<Rightarrow> a = 10 \<and> b = 100 \<and> unat c div 16 * 16 = unat (region_base r) \<and>
          \<not> (unat c mod 16 = 0 \<and> d = 0) \<and> \<not> (unat c mod 16 = 15 \<and> d = 255))"

lemma unat_of_nat_u32: "n < 4096 \<Longrightarrow> unat (of_nat n :: u32) = n"
  by (simp add: unat_of_nat)

lemma pool_ip_in_pool:
  assumes "0 < n" and "n < 4094"
  shows "in_pool r (pool_ip r (of_nat n))"
proof -
  obtain b c where p: "pool_ip r (of_nat n) = V4 10 100 b c" by (simp add: pool_ip_def)
  have u: "unat b = unat (region_base r) + n div 256" "unat c = n mod 256"
    using pool_ip_octets [OF _ p] assms by (simp_all add: unat_of_nat_u32)
  have d: "n div 256 < 16" using assms by simp
  obtain k where k: "unat (region_base r) = 16 * k"
  proof
    show "unat (region_base r) = 16 * (unat (region_base r) div 16)" by (cases r) simp_all
  qed
  from d have "unat b div 16 * 16 = unat (region_base r)" and m: "unat b mod 16 = n div 256"
    using u(1) by (simp_all add: k)
  moreover have "\<not> (n div 256 = 0 \<and> n mod 256 = 0)" using assms(1) by (metis div_mult_mod_eq mult_0 add_0 less_irrefl)
  moreover have "\<not> (n div 256 = 15 \<and> n mod 256 = 255)"
  proof
    assume "n div 256 = 15 \<and> n mod 256 = 255"
    then have "n = 15 * 256 + 255" by (metis div_mult_mod_eq)
    with assms(2) show False by simp
  qed
  ultimately show ?thesis using u(2) by (auto simp: in_pool_def p)
qed

lemma allocate_all_new:
  assumes "i < length rs"
  shows "fst (allocate_all rs allocator_new) ! i =
           address_at (rs ! i) (min 4094 (1 + count_list (take i rs) (rs ! i)))"
  using assms by (subst allocate_all_nth) simp_all

lemma address_at_Inr: "address_at r n = Inr ip \<longleftrightarrow> n < 4094 \<and> ip = pool_ip r (of_nat n)"
  by (auto simp: address_at_def)

lemma address_at_inj:
  assumes "address_at r n = Inr ip" and "address_at r' n' = Inr ip"
  shows "r = r' \<and> n = n'"
proof -
  have l: "n < 4094" "n' < 4094" and e: "pool_ip r (of_nat n) = pool_ip r' (of_nat n')"
    using assms by (auto simp: address_at_Inr)
  have u: "unat (of_nat n :: u32) = n" "unat (of_nat n' :: u32) = n'"
    using l by (intro unat_of_nat_u32, simp)+
  have "r = r' \<and> (of_nat n :: u32) = of_nat n'"
  proof (rule pool_ip_inj [OF _ _ e])
    show "unat (of_nat n :: u32) < 4096" "unat (of_nat n' :: u32) < 4096" unfolding u using l by simp_all
  qed
  then show ?thesis using u by metis
qed

text \<open>
  \<^bold>\<open>Mesh addresses are unique and stay in their region's pool.\<close> Whatever sequence of regions asks a new
  allocator for node addresses (\<open>IpAllocator::allocate_node_ip\<close>), the \<open>k\<close>-th request of a region
  gets offset \<open>k\<close> of that region's /20 while \<open>k\<close> is at most 4093, and the error \<open>pool exhausted\<close> from then
  on; no two successful requests get the same address; and every address lies in the documented block of its
  region and is neither the network's nor the broadcast address.
\<close>

theorem mesh_addresses_unique:
  assumes "i < length rs"
  shows "fst (allocate_all rs allocator_new) ! i =
           address_at (rs ! i) (min 4094 (1 + count_list (take i rs) (rs ! i)))
    \<and> (\<forall>ip. fst (allocate_all rs allocator_new) ! i = Inr ip \<longrightarrow>
         in_pool (rs ! i) ip \<and>
         (\<forall>j < length rs. fst (allocate_all rs allocator_new) ! j = Inr ip \<longrightarrow> j = i))"
proof (intro conjI allI impI)
  show nth: "fst (allocate_all rs allocator_new) ! i =
      address_at (rs ! i) (min 4094 (1 + count_list (take i rs) (rs ! i)))"
    using assms by (rule allocate_all_new)
  fix ip
  assume ip: "fst (allocate_all rs allocator_new) ! i = Inr ip"
  then have "min 4094 (1 + count_list (take i rs) (rs ! i)) < 4094"
    and "ip = pool_ip (rs ! i) (of_nat (min 4094 (1 + count_list (take i rs) (rs ! i))))"
    by (simp_all only: nth address_at_Inr)
  moreover have "0 < min 4094 (1 + count_list (take i rs) (rs ! i))" by simp
  ultimately show "in_pool (rs ! i) ip" using pool_ip_in_pool by blast
  fix j
  assume j: "j < length rs" and "fst (allocate_all rs allocator_new) ! j = Inr ip"
  then have "rs ! i = rs ! j \<and> min 4094 (1 + count_list (take i rs) (rs ! i)) = min 4094 (1 + count_list (take j rs) (rs ! j))"
    using ip nth allocate_all_new [OF j] address_at_inj by metis
  then have r: "rs ! i = rs ! j" and c: "count_list (take i rs) (rs ! i) = count_list (take j rs) (rs ! j)"
    using ip by (auto simp: nth address_at_Inr min_def split: if_splits)
  show "j = i"
    using count_take_less [OF _ j r] count_take_less [OF _ assms r [symmetric]] c
    by (metis less_irrefl nat_neq_iff)
qed

theorem mesh_addresses_unique_witness:
  "(2 :: nat) < length [Gateway, Asia, Gateway] \<and>
   fst (allocate_all [Gateway, Asia, Gateway] allocator_new) ! 2 = Inr (V4 10 100 0 2) \<and>
   in_pool Gateway (V4 10 100 0 2)"
proof -
  have "address_at Gateway 2 = Inr (V4 10 100 0 2)" by code_simp
  then show ?thesis
    using mesh_addresses_unique [of 2 "[Gateway, Asia, Gateway]"] by (simp add: numeral_2_eq_2 eval_nat_numeral)
qed

section \<open>Workload subnets\<close>

primrec allocate_subnets ::
  "(string \<Rightarrow> string + 'net) \<Rightarrow> node_id list \<Rightarrow> ip_allocator \<Rightarrow> (string + 'net) list \<times> ip_allocator" where
  "allocate_subnets parse [] al = ([], al)"
| "allocate_subnets parse (i # is) al =
     (let (res, al1) = allocate_workload_subnet parse i al; (more, al2) = allocate_subnets parse is al1
      in (res # more, al2))"

lemma subnet_step:
  assumes "parse (subnet_text (of_nat (unat (workload_counter al)))) = Inr net"
  shows "fst (allocate_workload_subnet parse nid al) =
           (if unat (workload_counter al) < 255 then Inr net else Inl ''workload subnet pool exhausted'')"
    and "unat (workload_counter (snd (allocate_workload_subnet parse nid al))) =
           (if unat (workload_counter al) < 255 then unat (workload_counter al) + 1 else unat (workload_counter al))"
proof -
  have g: "workload_counter al \<ge> 255 \<longleftrightarrow> \<not> unat (workload_counter al) < 255"
    by (simp add: word_le_nat_alt not_less)
  have t: "(ucast (workload_counter al) :: u8) = of_nat (unat (workload_counter al))"
    by simp
  have a: "unat (workload_counter al) < 255 \<Longrightarrow> unat (workload_counter al + 1) = unat (workload_counter al) + 1"
    by (simp add: unat_add_exact)
  show "fst (allocate_workload_subnet parse nid al) =
           (if unat (workload_counter al) < 255 then Inr net else Inl ''workload subnet pool exhausted'')"
    using assms unfolding allocate_workload_subnet_def Let_def g t by simp
  show "unat (workload_counter (snd (allocate_workload_subnet parse nid al))) =
           (if unat (workload_counter al) < 255 then unat (workload_counter al) + 1 else unat (workload_counter al))"
    using assms a unfolding allocate_workload_subnet_def Let_def g t by simp
qed

lemma allocate_subnets_nth:
  assumes "\<And>t. parse (subnet_text t) = Inr (net t)" and "i < length ids"
    and "unat (workload_counter al) \<le> 255"
  shows "fst (allocate_subnets parse ids al) ! i =
           (if unat (workload_counter al) + i < 255 then Inr (net (of_nat (unat (workload_counter al) + i)))
            else Inl ''workload subnet pool exhausted'')"
  using assms(2,3)
proof (induction ids arbitrary: al i)
  case (Cons n ids)
  note step = subnet_step [where parse = parse and nid = n, OF assms(1) [of "of_nat (unat (workload_counter al))"]]
  have s: "fst (allocate_subnets parse (n # ids) al) =
      fst (allocate_workload_subnet parse n al) # fst (allocate_subnets parse ids (snd (allocate_workload_subnet parse n al)))"
    by (simp add: Let_def case_prod_unfold)
  show ?case
  proof (cases i)
    case 0
    then show ?thesis by (simp add: s step(1) del: allocate_subnets.simps)
  next
    case (Suc j)
    have "fst (allocate_subnets parse ids (snd (allocate_workload_subnet parse n al))) ! j =
      (let c = unat (workload_counter (snd (allocate_workload_subnet parse n al))) in
       if c + j < 255 then Inr (net (of_nat (c + j))) else Inl ''workload subnet pool exhausted'')"
      unfolding Let_def using Cons.prems Suc by (intro Cons.IH) (simp_all add: step(2))
    then show ?thesis using Suc Cons.prems(2) by (auto simp: s step(2) Let_def add.assoc simp del: allocate_subnets.simps)
  qed
qed simp

lemma subnet_text_inj: "subnet_text a = subnet_text b \<Longrightarrow> a = b"
  by (auto simp: subnet_text_def word_unat_eq_iff dest: injD [OF inj_show_nat])

text \<open>
  \<^bold>\<open>Workload subnets are unique.\<close> With a prefix parser that reads the 256 texts
  \<open>10.200.n.0/24\<close> to different networks, a new allocator hands the \<open>n\<close>-th request (from 0) the network of
  octet \<open>n\<close> for \<open>n < 255\<close> and refuses every later one; no network is handed out twice
  (\<open>IpAllocator::allocate_workload_subnet\<close>).
\<close>

theorem workload_subnets_unique:
  assumes "\<And>t. parse (subnet_text t) = Inr (net t)" and "inj net" and "i < length ids"
  shows "fst (allocate_subnets parse ids allocator_new) ! i =
           (if i < 255 then Inr (net (of_nat i)) else Inl ''workload subnet pool exhausted'')
    \<and> (\<forall>j < length ids. \<forall>n. fst (allocate_subnets parse ids allocator_new) ! i = Inr n \<and>
          fst (allocate_subnets parse ids allocator_new) ! j = Inr n \<longrightarrow> i = j)"
proof -
  have nth: "fst (allocate_subnets parse ids allocator_new) ! k =
      (if k < 255 then Inr (net (of_nat k)) else Inl ''workload subnet pool exhausted'')" if "k < length ids" for k
    using allocate_subnets_nth [where parse = parse and net = net and al = allocator_new, OF assms(1) that] by (simp add: allocator_new_def)
  have "i = j" if "i < 255" "j < 255" "net (of_nat i) = net (of_nat j)" for j
  proof -
    have "unat (of_nat i :: u8) = unat (of_nat j :: u8)" using that(3) assms(2) by (auto dest: injD)
    then show ?thesis using that(1,2) by (simp add: unat_of_nat)
  qed
  then show ?thesis using nth assms(3) by (auto split: if_splits)
qed

theorem workload_subnets_unique_witness:
  "(\<forall>t. (Inr :: string \<Rightarrow> string + string) (subnet_text t) = Inr (subnet_text t)) \<and> inj subnet_text \<and>
   fst (allocate_subnets (Inr :: string \<Rightarrow> string + string) [NodeId 7, NodeId 8] allocator_new) ! 1 = Inr ''10.200.1.0/24''"
proof -
  have i: "inj subnet_text" by (rule injI) (rule subnet_text_inj)
  have "subnet_text 1 = ''10.200.1.0/24''" by code_simp
  then show ?thesis
    using i workload_subnets_unique [where parse = "Inr :: string \<Rightarrow> string + string" and net = subnet_text
        and i = 1 and ids = "[NodeId 7, NodeId 8]"] by simp
qed

section \<open>The registry as a keyed map\<close>

lemma add_node_result:
  "add_node n m =
     (case get_node m (node_id n) of
        Some _ \<Rightarrow> (Inl (''node '' @ show_node_id (node_id n) @ '' already registered''), m)
      | None \<Rightarrow> (Inr (), snd (add_node n m)))"
  by (auto simp: add_node_def get_node_def hm_contains_def split: option.split)

lemma get_node_add:
  "get_node (snd (add_node n m)) i = (if get_node m i = None \<and> i = node_id n then Some n else get_node m i)"
  by (auto simp: add_node_def get_node_def hm_contains_def)

lemma get_node_remove:
  "get_node (snd (remove_node j m)) i = (if i = j then None else get_node m i)"
  by (auto simp: remove_node_def get_node_def split: option.split)

definition mesh_wf :: "'net wireguard_mesh \<Rightarrow> bool" where
  "mesh_wf m \<longleftrightarrow> hm_wf (mesh_nodes m) \<and> (\<forall>i n. get_node m i = Some n \<longrightarrow> node_id n = i)"

lemma mesh_wf_new [simp]: "mesh_wf (mesh_new cfg)"
  by (simp add: mesh_wf_def mesh_new_def get_node_def)

lemma mesh_wf_add: "mesh_wf m \<Longrightarrow> mesh_wf (snd (add_node n m))"
  unfolding mesh_wf_def by (auto simp: get_node_add) (auto simp: add_node_def)

lemma mesh_wf_remove: "mesh_wf m \<Longrightarrow> mesh_wf (snd (remove_node i m))"
  unfolding mesh_wf_def by (auto simp: get_node_remove) (auto simp: remove_node_def split: option.split)

text \<open>Building a node: which field is reported missing.\<close>

lemma build_complete:
  "build (builder_region r (builder_wireguard_key k (builder_workload_subnet net (builder_mesh_ip ip
     (builder_node_id i b))))) =
   Inr \<lparr>node_id = i, mesh_ip = ip, workload_subnet = net, wireguard_key = k, node_region = r,
        node_endpoint = b_endpoint b\<rparr>"
  by (simp add: build_def builder_region_def builder_wireguard_key_def builder_workload_subnet_def
      builder_mesh_ip_def builder_node_id_def)

end
