(* ===== verification/Mesh_Manager.thy ===== *)
theory Mesh_Manager
  imports Mesh_Network
begin

text \<open>
  A node's membership in the mesh, \<open>crates/clawnode/src/mesh.rs\<close>: joining (an address, a subnet, a registry
  entry), tracking the remote peers that the gateway announces, leaving. The identifier that
  \<open>NodeId::new\<close> draws, base64 decoding and the prefix parser are parameters.
\<close>

section \<open>State\<close>

record peer_info =
  peer_node_id :: string
  peer_public_key :: string
  peer_mesh_ip :: string
  peer_endpoint :: "string option"
  peer_workload_subnet :: "string option"
  peer_region :: string

record sync_result =
  added :: "string list"
  removed :: "string list"
  unchanged :: nat

definition sync_result_default :: sync_result where
  "sync_result_default = \<lparr>added = [], removed = [], unchanged = 0\<rparr>"

record mesh_peer_status =
  mps_public_key :: string
  mps_endpoint :: "string option"
  mps_mesh_ip :: string
  last_handshake :: "u64 option"
  rx_bytes :: u64
  tx_bytes :: u64

definition MESH_INTERFACE :: string where "MESH_INTERFACE = ''claw0''"
definition MESH_PORT :: u16 where "MESH_PORT = 51820"

text \<open>A \<open>MeshManager\<close> without its handle to the shared mesh, which the operations take and return.\<close>

record 'net mesh_manager =
  mm_mesh_ip :: ip_addr
  mm_public_key :: string
  mm_interface_name :: string
  mm_node_id :: node_id
  mm_region :: region
  mm_listen_port :: u16
  mm_workload_subnet :: 'net
  active_peers :: "(string, peer_info) hashmap"

section \<open>Joining and leaving\<close>

definition builder_of ::
  "node_id \<Rightarrow> ip_addr \<Rightarrow> 'net \<Rightarrow> wireguard_key \<Rightarrow> region \<Rightarrow> string option \<Rightarrow> 'net mesh_node_builder" where
  "builder_of nid ip net key r endpoint =
     (let b = builder_region r (builder_wireguard_key key (builder_workload_subnet net
                (builder_mesh_ip ip (builder_node_id nid builder_new))))
      in case endpoint of None \<Rightarrow> b | Some ep \<Rightarrow> builder_endpoint ep b)"

definition mesh_init ::
  "(string \<Rightarrow> string + u8 list) \<Rightarrow> (string \<Rightarrow> string + 'net) \<Rightarrow> node_id \<Rightarrow> region \<Rightarrow> string \<Rightarrow> string option
   \<Rightarrow> 'net wireguard_mesh \<Rightarrow> (string, 'net mesh_manager, 'net wireguard_mesh) outcome" where
  "mesh_init decode parse nid r key endpoint m =
     (case allocate_node_ip r (mesh_allocator m) of
        (Inl e, al1) \<Rightarrow> (Inl (''mesh IP allocation failed: '' @ e), m\<lparr>mesh_allocator := al1\<rparr>)
      | (Inr ip, al1) \<Rightarrow>
     (case allocate_workload_subnet parse nid al1 of
        (Inl e, al2) \<Rightarrow> (Inl (''workload subnet allocation failed: '' @ e), m\<lparr>mesh_allocator := al2\<rparr>)
      | (Inr net, al2) \<Rightarrow>
     (let m2 = m\<lparr>mesh_allocator := al2\<rparr> in
      case wireguard_key_new decode key of
        Inl e \<Rightarrow> (Inl (''invalid WireGuard key: '' @ e), m2)
      | Inr wg_key \<Rightarrow>
     (case build (builder_of nid ip net wg_key r endpoint) of
        Inl e \<Rightarrow> (Inl (''mesh node build failed: '' @ e), m2)
      | Inr mesh_node \<Rightarrow>
     (case add_node mesh_node m2 of
        (Inl e, m3) \<Rightarrow> (Inl (''mesh add_node failed: '' @ e), m3)
      | (Inr _, m3) \<Rightarrow>
          (Inr \<lparr>mm_mesh_ip = ip, mm_public_key = key, mm_interface_name = MESH_INTERFACE, mm_node_id = nid,
                mm_region = r, mm_listen_port = MESH_PORT, mm_workload_subnet = net, active_peers = []\<rparr>, m3))))))"

definition shutdown :: "'net mesh_manager \<Rightarrow> 'net wireguard_mesh \<Rightarrow> 'net mesh_manager \<times> 'net wireguard_mesh" where
  "shutdown mgr m = (mgr\<lparr>active_peers := []\<rparr>, snd (remove_node (mm_node_id mgr) m))"

section \<open>Remote peers\<close>

definition add_remote_peer :: "peer_info \<Rightarrow> 'net mesh_manager \<Rightarrow> (string, unit, 'net mesh_manager) outcome" where
  "add_remote_peer peer mgr = (Inr (), mgr\<lparr>active_peers := hm_insert (peer_node_id peer) peer (active_peers mgr)\<rparr>)"

definition remove_remote_peer :: "string \<Rightarrow> 'net mesh_manager \<Rightarrow> (string, unit, 'net mesh_manager) outcome" where
  "remove_remote_peer i mgr =
     (case hm_get (active_peers mgr) i of
        None \<Rightarrow> (Inl (''peer '' @ CHR 0x27 # i @ CHR 0x27 # '' not found''), mgr)
      | Some _ \<Rightarrow> (Inr (), mgr\<lparr>active_peers := hm_remove i (active_peers mgr)\<rparr>))"

text \<open>The announced nodes other than this one, by identifier; a later entry replaces an earlier one.\<close>

definition known_of :: "string \<Rightarrow> peer_info list \<Rightarrow> (string, peer_info) hashmap" where
  "known_of self known_nodes =
     fold (\<lambda>p m. hm_insert (peer_node_id p) p m) (filter (\<lambda>p. peer_node_id p \<noteq> self) known_nodes) []"

definition drop_peer :: "string \<Rightarrow> (string, peer_info) hashmap \<times> sync_result \<Rightarrow> (string, peer_info) hashmap \<times> sync_result" where
  "drop_peer i st = (hm_remove i (fst st), (snd st)\<lparr>removed := removed (snd st) @ [i]\<rparr>)"

definition merge_peer :: "string \<times> peer_info \<Rightarrow> (string, peer_info) hashmap \<times> sync_result \<Rightarrow> (string, peer_info) hashmap \<times> sync_result" where
  "merge_peer kp st =
     (if \<not> hm_contains (fst st) (fst kp)
      then (hm_insert (fst kp) (snd kp) (fst st), (snd st)\<lparr>added := added (snd st) @ [fst kp]\<rparr>)
      else (fst st, (snd st)\<lparr>unchanged := unchanged (snd st) + 1\<rparr>))"

definition sync_peers :: "peer_info list \<Rightarrow> 'net mesh_manager \<Rightarrow> (string, sync_result, 'net mesh_manager) outcome" where
  "sync_peers known_nodes mgr =
     (let known = known_of (show_node_id (mm_node_id mgr)) known_nodes;
          to_remove = filter (\<lambda>i. \<not> hm_contains known i) (map fst (active_peers mgr));
          (peers1, result1) = fold drop_peer to_remove (active_peers mgr, sync_result_default);
          (peers2, result2) = fold merge_peer known (peers1, result1)
      in (Inr result2, mgr\<lparr>active_peers := peers2\<rparr>))"

definition peer_status :: "peer_info \<Rightarrow> mesh_peer_status" where
  "peer_status p = \<lparr>mps_public_key = peer_public_key p, mps_endpoint = peer_endpoint p, mps_mesh_ip = peer_mesh_ip p,
     last_handshake = None, rx_bytes = 0, tx_bytes = 0\<rparr>"

section \<open>Regions by name\<close>

definition parse_region :: "string \<Rightarrow> region" where
  "parse_region s =
     (let t = map (\<lambda>c. if c = CHR ''-'' then CHR ''_'' else c) (map to_lower s)
      in if t \<in> {''us_west'', ''uswest''} then UsWest
         else if t \<in> {''us_east'', ''useast''} then UsEast
         else if t \<in> {''eu_west'', ''euwest''} then EuWest
         else if t \<in> {''asia'', ''asia_pacific'', ''asiapacific'', ''apac''} then Asia
         else if t = ''molt'' then Molt
         else if t = ''gateway'' then Gateway
         else UsWest)"

lemma parse_show_region: "parse_region (show_region r) = r"
  by (cases r; simp only: show_region.simps; code_simp)

section \<open>What synchronisation does\<close>

lemma hm_wf_known [simp]: "hm_wf (known_of self ns)"
proof -
  have "hm_wf m \<Longrightarrow> hm_wf (fold (\<lambda>p m. hm_insert (peer_node_id p) p m) ps m)" for ps :: "peer_info list" and m
    by (induction ps arbitrary: m) simp_all
  then show ?thesis by (simp add: known_of_def)
qed

lemma known_contains: "hm_contains (known_of self ns) i \<longleftrightarrow> i \<noteq> self \<and> i \<in> peer_node_id ` set ns"
proof -
  have "hm_contains (fold (\<lambda>p m. hm_insert (peer_node_id p) p m) ps m) i \<longleftrightarrow> hm_contains m i \<or> i \<in> peer_node_id ` set ps" for ps :: "peer_info list" and m
    by (induction ps arbitrary: m) auto
  then show ?thesis by (auto simp: known_of_def hm_contains_def)
qed

lemma hm_contains_keys: "hm_contains m i \<longleftrightarrow> i \<in> fst ` set m"
  using map_of_eq_None_iff [of m i] by (simp add: hm_contains_def)

lemma fold_drop:
  "fold drop_peer is (m, res) = (fold hm_remove is m, res\<lparr>removed := removed res @ is\<rparr>)"
  by (induction "is" arbitrary: m res) (simp_all add: drop_peer_def)

lemma hm_get_fold_remove: "hm_get (fold hm_remove is m) i = (if i \<in> set is then None else hm_get m i)"
  by (induction "is" arbitrary: m) auto

lemma hm_wf_fold_remove: "hm_wf m \<Longrightarrow> hm_wf (fold hm_remove is m)"
  by (induction "is" arbitrary: m) simp_all

lemma fold_merge:
  assumes "hm_wf kn" and "hm_wf m"
  shows "\<exists>m' res'. fold merge_peer kn (m, res) = (m', res') \<and> hm_wf m' \<and>
    (\<forall>i. hm_get m' i = (case hm_get m i of Some p \<Rightarrow> Some p | None \<Rightarrow> hm_get kn i)) \<and>
    added res' = added res @ filter (\<lambda>i. \<not> hm_contains m i) (map fst kn) \<and>
    removed res' = removed res \<and>
    unchanged res' = unchanged res + length (filter (hm_contains m) (map fst kn))"
  using assms
proof (induction kn arbitrary: m res)
  case (Cons kp kn)
  obtain k p where kp: "kp = (k, p)" by (cases kp)
  have "k \<notin> fst ` set kn" using Cons.prems(1) by (simp add: kp)
  then have kn: "hm_get kn k = None" and f: "filter (\<lambda>i. i \<noteq> k \<and> \<not> hm_contains m i) (map fst kn) = filter (\<lambda>i. \<not> hm_contains m i) (map fst kn)"
    "filter (\<lambda>i. i = k \<or> hm_contains m i) (map fst kn) = filter (hm_contains m) (map fst kn)"
    by (auto simp: map_of_eq_None_iff intro!: filter_cong)
  show ?case
  proof (cases "hm_contains m k")
    case True
    then have s: "fold merge_peer (kp # kn) (m, res) = fold merge_peer kn (m, res\<lparr>unchanged := unchanged res + 1\<rparr>)"
      by (simp add: merge_peer_def kp)
    have k: "hm_get m k \<noteq> None" using True by (simp add: hm_contains_def)
    have "(case hm_get m i of Some p \<Rightarrow> Some p | None \<Rightarrow> hm_get kn i) =
        (case hm_get m i of Some p \<Rightarrow> Some p | None \<Rightarrow> hm_get (kp # kn) i)" for i
      using k by (auto simp: kp split: option.split)
    then show ?thesis unfolding s using Cons.IH [of m "res\<lparr>unchanged := unchanged res + 1\<rparr>"] Cons.prems True
      by (simp add: kp)
  next
    case False
    then have s: "fold merge_peer (kp # kn) (m, res) = fold merge_peer kn (hm_insert k p m, res\<lparr>added := added res @ [k]\<rparr>)"
      by (simp add: merge_peer_def kp)
    have "hm_get m k = None" using False by (simp add: hm_contains_def)
    then have "(case hm_get (hm_insert k p m) i of Some p \<Rightarrow> Some p | None \<Rightarrow> hm_get kn i) =
        (case hm_get m i of Some p \<Rightarrow> Some p | None \<Rightarrow> hm_get (kp # kn) i)" for i
      by (auto simp: kp split: option.split)
    then show ?thesis unfolding s using Cons.IH [of "hm_insert k p m" "res\<lparr>added := added res @ [k]\<rparr>"] Cons.prems False
      by (simp add: kp f)
  qed
qed (auto split: option.split)

text \<open>
  \<^bold>\<open>Synchronisation converges to the announced membership.\<close> After \<open>MeshManager::sync_peers\<close> the node
  tracks exactly the announced identifiers other than its own; the reported additions are the identifiers that
  were not tracked before, the reported removals those tracked and no longer announced, and every other announced
  identifier is counted as unchanged. A peer that stays keeps the information it had; a new one gets the announced
  information.
\<close>

theorem sync_converges:
  assumes "hm_wf (active_peers mgr)"
  shows "\<exists>res mgr'. sync_peers known_nodes mgr = (Inr res, mgr') \<and> hm_wf (active_peers mgr') \<and>
    (let self = show_node_id (mm_node_id mgr); announced = peer_node_id ` set known_nodes - {self} in
     set (map fst (active_peers mgr')) = announced \<and>
     set (added res) = announced - set (map fst (active_peers mgr)) \<and> distinct (added res) \<and>
     set (removed res) = set (map fst (active_peers mgr)) - announced \<and> distinct (removed res) \<and>
     unchanged res + length (added res) = card announced \<and>
     (\<forall>i. hm_get (active_peers mgr') i =
        (if i \<notin> announced then None
         else case hm_get (active_peers mgr) i of Some p \<Rightarrow> Some p | None \<Rightarrow> hm_get (known_of self known_nodes) i)))"
proof -
  let ?kn = "known_of (show_node_id (mm_node_id mgr)) known_nodes"
  let ?rm = "filter (\<lambda>i. \<not> hm_contains ?kn i) (map fst (active_peers mgr))"
  let ?an = "peer_node_id ` set known_nodes - {show_node_id (mm_node_id mgr)}"
  let ?m = "fold hm_remove ?rm (active_peers mgr)"
  have kn: "{i. hm_contains ?kn i} = ?an" by (auto simp: known_contains)
  have get: "hm_get ?m i = (if i \<in> ?an then hm_get (active_peers mgr) i else None)" for i
    using map_of_eq_None_iff [of "active_peers mgr" i]
    by (auto simp: hm_get_fold_remove known_contains)
  obtain m' res where f: "fold merge_peer ?kn (?m, sync_result_default\<lparr>removed := ?rm\<rparr>) = (m', res)"
    and wf: "hm_wf m'" and m': "\<forall>i. hm_get m' i = (case hm_get ?m i of Some p \<Rightarrow> Some p | None \<Rightarrow> hm_get ?kn i)"
    and ad: "added res = filter (\<lambda>i. \<not> hm_contains ?m i) (map fst ?kn)"
    and re: "removed res = ?rm" and un: "unchanged res = length (filter (hm_contains ?m) (map fst ?kn))"
    using fold_merge [OF hm_wf_known [of "show_node_id (mm_node_id mgr)" known_nodes] hm_wf_fold_remove [OF assms],
        of ?rm "sync_result_default\<lparr>removed := ?rm\<rparr>"]
    by (auto simp: sync_result_default_def)
  have s: "sync_peers known_nodes mgr = (Inr res, mgr\<lparr>active_peers := m'\<rparr>)"
    using f by (simp add: sync_peers_def Let_def fold_drop sync_result_default_def)
  have g: "hm_get m' i = (if i \<notin> ?an then None
      else case hm_get (active_peers mgr) i of Some p \<Rightarrow> Some p | None \<Rightarrow> hm_get ?kn i)" for i
    using m' get kn by (auto simp: hm_contains_def split: option.splits)
  have kk: "fst ` set ?kn = ?an" using kn by (auto simp: hm_contains_keys)
  have mk: "hm_contains ?m i \<longleftrightarrow> i \<in> ?an \<and> i \<in> fst ` set (active_peers mgr)" for i
  proof -
    have "hm_contains ?m i \<longleftrightarrow> i \<in> ?an \<and> hm_contains (active_peers mgr) i"
      unfolding hm_contains_def [of ?m] hm_contains_def [of "active_peers mgr"] get by simp
    then show ?thesis by (simp only: hm_contains_keys [of "active_peers mgr"])
  qed
  have "hm_contains m' i \<longleftrightarrow> i \<in> ?an" for i
    using g [of i] kn by (auto simp: hm_contains_def split: option.splits)
  then have k': "set (map fst m') = ?an" by (auto simp: hm_contains_keys)
  have "length (map fst ?kn) = card ?an" using distinct_card [OF hm_wf_known] kk by (metis list.set_map)
  then have "unchanged res + length (added res) = card ?an"
    unfolding un ad by (simp only: sum_length_filter_compl)
  moreover have "set (added res) = ?an - set (map fst (active_peers mgr))" "distinct (added res)"
    using kk mk by (auto simp: ad)
  moreover have "set (removed res) = set (map fst (active_peers mgr)) - ?an" "distinct (removed res)"
    using assms by (auto simp: re known_contains)
  ultimately show ?thesis using s wf k' g by (intro exI [of _ res] exI [of _ "mgr\<lparr>active_peers := m'\<rparr>"] conjI) (simp_all add: Let_def)
qed

text \<open>Identifiers and announcements for concrete runs.\<close>

definition demo_peer :: "string \<Rightarrow> string \<Rightarrow> peer_info" where
  "demo_peer i key = \<lparr>peer_node_id = i, peer_public_key = key, peer_mesh_ip = ''10.100.32.1'', peer_endpoint = None,
     peer_workload_subnet = None, peer_region = ''us-east''\<rparr>"

definition demo_manager :: "(string, peer_info) hashmap \<Rightarrow> unit mesh_manager" where
  "demo_manager ps = \<lparr>mm_mesh_ip = V4 10 100 16 1, mm_public_key = ''K'', mm_interface_name = MESH_INTERFACE,
     mm_node_id = NodeId 1, mm_region = UsWest, mm_listen_port = MESH_PORT, mm_workload_subnet = (), active_peers = ps\<rparr>"

theorem sync_converges_witness:
  "hm_wf (active_peers (demo_manager [(''a'', demo_peer ''a'' ''K'')])) \<and>
   (\<exists>res mgr'. sync_peers [demo_peer ''b'' ''L''] (demo_manager [(''a'', demo_peer ''a'' ''K'')]) = (Inr res, mgr') \<and>
     set (removed res) = {''a''} \<and> set (added res) = {''b''} \<and> set (map fst (active_peers mgr')) = {''b''})"
proof -
  have w: "hm_wf (active_peers (demo_manager [(''a'', demo_peer ''a'' ''K'')]))" by (simp add: demo_manager_def)
  have n: "show_node_id (NodeId 1) \<noteq> ''b''" by simp
  then have "peer_node_id ` set [demo_peer ''b'' ''L''] - {show_node_id (mm_node_id (demo_manager [(''a'', demo_peer ''a'' ''K'')]))} = {''b''}"
    by (auto simp: demo_peer_def demo_manager_def)
  then show ?thesis using w sync_converges [OF w, of "[demo_peer ''b'' ''L'']"]
    by (auto simp: Let_def demo_manager_def)
qed

text \<open>
  \<^bold>\<open>Synchronisation never refreshes a known peer.\<close> A node that already tracks a peer keeps the old
  record when the gateway announces the same identifier with a new key (or address or endpoint), and reports the
  peer as unchanged (\<open>sync_peers\<close> compares identifiers only).
\<close>

theorem sync_keeps_stale_key:
  "sync_peers [demo_peer ''a'' ''new''] (demo_manager [(''a'', demo_peer ''a'' ''old'')]) =
     (Inr \<lparr>added = [], removed = [], unchanged = 1\<rparr>, demo_manager [(''a'', demo_peer ''a'' ''old'')])"
  by (simp add: sync_peers_def known_of_def demo_peer_def demo_manager_def hm_insert_def hm_contains_def
      sync_result_default_def merge_peer_def)

section \<open>Registered nodes do not collide\<close>

definition mesh_inv :: "(u8 \<Rightarrow> 'net) \<Rightarrow> 'net wireguard_mesh \<Rightarrow> bool" where
  "mesh_inv net m \<longleftrightarrow> mesh_wf m \<and>
     (\<forall>r. next_offset (mesh_allocator m) r \<le> 4094) \<and> unat (workload_counter (mesh_allocator m)) \<le> 255 \<and>
     (\<forall>i n. get_node m i = Some n \<longrightarrow>
        (\<exists>k < next_offset (mesh_allocator m) (node_region n). mesh_ip n = pool_ip (node_region n) (of_nat k)) \<and>
        (\<exists>t < unat (workload_counter (mesh_allocator m)). workload_subnet n = net (of_nat t))) \<and>
     (\<forall>i j n n'. get_node m i = Some n \<and> get_node m j = Some n' \<and> i \<noteq> j \<longrightarrow>
        mesh_ip n \<noteq> mesh_ip n' \<and> workload_subnet n \<noteq> workload_subnet n')"

definition allocator_le :: "ip_allocator \<Rightarrow> ip_allocator \<Rightarrow> bool" where
  "allocator_le al al' \<longleftrightarrow> (\<forall>r. next_offset al r \<le> next_offset al' r \<and> next_offset al' r \<le> 4094) \<and>
     unat (workload_counter al) \<le> unat (workload_counter al') \<and> unat (workload_counter al') \<le> 255"

lemma get_node_allocator [simp]: "get_node (m\<lparr>mesh_allocator := al\<rparr>) i = get_node m i"
  by (simp add: get_node_def)

lemma mesh_inv_grow:
  assumes "mesh_inv net m" and "allocator_le (mesh_allocator m) al"
  shows "mesh_inv net (m\<lparr>mesh_allocator := al\<rparr>)"
proof -
  have "mesh_wf (m\<lparr>mesh_allocator := al\<rparr>)" using assms(1) by (simp add: mesh_inv_def mesh_wf_def)
  moreover have "\<exists>k < next_offset al (node_region n). mesh_ip n = pool_ip (node_region n) (of_nat k)"
    "\<exists>t < unat (workload_counter al). workload_subnet n = net (of_nat t)" if "get_node m i = Some n" for i n
    using assms that unfolding mesh_inv_def allocator_le_def by (metis less_le_trans)+
  ultimately show ?thesis using assms unfolding mesh_inv_def allocator_le_def by simp
qed

lemma of_nat_u8_inj: "a < 256 \<Longrightarrow> b < 256 \<Longrightarrow> (of_nat a :: u8) = of_nat b \<Longrightarrow> a = b"
  by (drule arg_cong [where f = unat]) (simp add: unat_of_nat)

lemma mesh_inv_register:
  assumes inv: "mesh_inv net m" and le: "allocator_le (mesh_allocator m) al" and "inj net"
    and ip: "mesh_ip n = pool_ip (node_region n) (of_nat (next_offset (mesh_allocator m) (node_region n)))"
    and ipb: "next_offset (mesh_allocator m) (node_region n) < next_offset al (node_region n)"
    and sn: "workload_subnet n = net (of_nat (unat (workload_counter (mesh_allocator m))))"
    and snb: "unat (workload_counter (mesh_allocator m)) < unat (workload_counter al)"
  shows "mesh_inv net (snd (add_node n (m\<lparr>mesh_allocator := al\<rparr>)))"
proof -
  let ?m = "m\<lparr>mesh_allocator := al\<rparr>"
  have g: "mesh_inv net ?m" using inv le by (rule mesh_inv_grow)
  have fresh: "mesh_ip n \<noteq> mesh_ip n' \<and> workload_subnet n \<noteq> workload_subnet n'" if g': "get_node m i = Some n'" for i n'
  proof -
    obtain k t where k: "k < next_offset (mesh_allocator m) (node_region n')" "mesh_ip n' = pool_ip (node_region n') (of_nat k)"
      and t: "t < unat (workload_counter (mesh_allocator m))" "workload_subnet n' = net (of_nat t)"
      using inv g' unfolding mesh_inv_def by blast
    have "k < 4094" "next_offset (mesh_allocator m) (node_region n) < 4094"
      using k(1) le ipb unfolding allocator_le_def by (meson less_le_trans)+
    then have a: "address_at (node_region n) (next_offset (mesh_allocator m) (node_region n)) = Inr (mesh_ip n)"
      and a': "address_at (node_region n') k = Inr (mesh_ip n')"
      using ip k(2) by (simp_all only: address_at_Inr simp_thms)
    have "mesh_ip n \<noteq> mesh_ip n'"
    proof
      assume "mesh_ip n = mesh_ip n'"
      then have "node_region n = node_region n' \<and> next_offset (mesh_allocator m) (node_region n) = k"
        using a' by (intro address_at_inj [OF a]) simp
      then show False using k(1) by (metis less_irrefl)
    qed
    moreover have "workload_subnet n \<noteq> workload_subnet n'"
      using of_nat_u8_inj [of t "unat (workload_counter (mesh_allocator m))"] t sn snb le injD [OF assms(3)]
      unfolding allocator_le_def by fastforce
    ultimately show ?thesis by blast
  qed
  show ?thesis
  proof (cases "get_node ?m (node_id n)")
    case (Some n')
    then show ?thesis using g by (simp add: add_node_def get_node_def hm_contains_def)
  next
    case None
    have al: "mesh_allocator (snd (add_node n ?m)) = al" by (simp add: add_node_def)
    have "get_node (snd (add_node n ?m)) i = (if i = node_id n then Some n else get_node m i)" for i
      using None get_node_add [of n ?m i] by simp
    moreover have "\<exists>k < next_offset al (node_region n). mesh_ip n = pool_ip (node_region n) (of_nat k)"
      "\<exists>t < unat (workload_counter al). workload_subnet n = net (of_nat t)"
      using ip ipb sn snb by blast+
    moreover have "mesh_ip n' \<noteq> mesh_ip n \<and> workload_subnet n' \<noteq> workload_subnet n" if "get_node m i = Some n'" for i n'
      using fresh [OF that] by metis
    ultimately show ?thesis using g mesh_wf_add [of ?m n] fresh
      unfolding mesh_inv_def al by simp
  qed
qed

lemma allocate_node_ip_le:
  assumes "\<And>r. next_offset al r \<le> 4094" and "unat (workload_counter al) \<le> 255"
  shows "allocator_le al (snd (allocate_node_ip r al))"
    and "workload_counter (snd (allocate_node_ip r al)) = workload_counter al"
proof -
  show w: "workload_counter (snd (allocate_node_ip r al)) = workload_counter al"
    by (simp add: allocate_node_ip_def Let_def)
  show "allocator_le al (snd (allocate_node_ip r al))"
    using assms assms(1) [of r] by (auto simp: allocator_le_def w allocate_step(2))
qed

lemma allocate_subnet_le:
  assumes "\<And>r. next_offset al r \<le> 4094" and "unat (workload_counter al) \<le> 255"
    and "\<And>t. parse (subnet_text t) = Inr (net t)"
  shows "allocator_le al (snd (allocate_workload_subnet parse nid al))"
    and "next_offset (snd (allocate_workload_subnet parse nid al)) = next_offset al"
proof -
  show n: "next_offset (snd (allocate_workload_subnet parse nid al)) = next_offset al"
    by (rule ext) (simp add: allocate_workload_subnet_def Let_def next_offset_def split: sum.split)
  have "unat (workload_counter (snd (allocate_workload_subnet parse nid al))) =
           (if unat (workload_counter al) < 255 then unat (workload_counter al) + 1 else unat (workload_counter al))"
    by (rule subnet_step(2)) (rule assms(3))
  then show "allocator_le al (snd (allocate_workload_subnet parse nid al))"
    using assms by (auto simp: allocator_le_def n)
qed

lemma allocator_le_trans: "allocator_le a b \<Longrightarrow> allocator_le b c \<Longrightarrow> allocator_le a c"
  unfolding allocator_le_def by (meson le_trans)

lemma build_builder_of:
  "build (builder_of nid ip net key r endpoint) =
     Inr \<lparr>node_id = nid, mesh_ip = ip, workload_subnet = net, wireguard_key = key, node_region = r, node_endpoint = endpoint\<rparr>"
  by (cases endpoint) (simp_all add: builder_of_def build_complete Let_def builder_new_def builder_endpoint_def
      build_def builder_region_def builder_wireguard_key_def builder_workload_subnet_def builder_mesh_ip_def builder_node_id_def)

lemma mesh_init_inv:
  assumes inv: "mesh_inv net m" and parse: "\<And>t. parse (subnet_text t) = Inr (net t)" and inj: "inj net"
  shows "mesh_inv net (snd (mesh_init decode parse nid r key endpoint m))"
proof -
  let ?al = "mesh_allocator m"
  obtain ip al1 where a1: "allocate_node_ip r ?al = (ip, al1)" by (cases "allocate_node_ip r ?al")
  obtain sn al2 where a2: "allocate_workload_subnet parse nid al1 = (sn, al2)"
    by (cases "allocate_workload_subnet parse nid al1")
  have b: "\<And>r. next_offset ?al r \<le> 4094" "unat (workload_counter ?al) \<le> 255"
    using inv by (simp_all add: mesh_inv_def)
  have le1: "allocator_le ?al al1" and w1: "workload_counter al1 = workload_counter ?al"
    using allocate_node_ip_le [of ?al r] b a1 by simp_all
  have b1: "\<And>r. next_offset al1 r \<le> 4094" "unat (workload_counter al1) \<le> 255"
    using le1 by (simp_all add: allocator_le_def)
  have le12: "allocator_le al1 al2" and n2: "next_offset al2 = next_offset al1"
    using allocate_subnet_le [where parse = parse and net = net and al = al1 and nid = nid, OF b1 parse] a2 by simp_all
  have le2: "allocator_le ?al al2" using le1 le12 by (rule allocator_le_trans)
  have ip: "ip = address_at r (next_offset ?al r)" and
    o1: "next_offset al1 = (next_offset ?al)(r := if next_offset ?al r \<ge> 4094 then next_offset ?al r else next_offset ?al r + 1)"
    using allocate_step [of r ?al] a1 by simp_all
  note step = subnet_step [where parse = parse and nid = nid and al = al1, OF parse [of "of_nat (unat (workload_counter al1))"]]
  have sn: "sn = (if unat (workload_counter ?al) < 255 then Inr (net (of_nat (unat (workload_counter ?al)))) else Inl ''workload subnet pool exhausted'')"
    and s2: "unat (workload_counter ?al) < 255 \<Longrightarrow> unat (workload_counter al2) = unat (workload_counter ?al) + 1"
    using step a2 w1 by simp_all
  have grow: "mesh_inv net (m\<lparr>mesh_allocator := al1\<rparr>)" "mesh_inv net (m\<lparr>mesh_allocator := al2\<rparr>)"
    using mesh_inv_grow [OF inv] le1 le2 by simp_all
  show ?thesis
  proof (cases ip)
    case (Inr i)
    then have i: "next_offset ?al r < 4094" "i = pool_ip r (of_nat (next_offset ?al r))" using ip by (auto simp: address_at_Inr)
    show ?thesis
    proof (cases sn)
      case (Inr s)
      then have s: "unat (workload_counter ?al) < 255" "s = net (of_nat (unat (workload_counter ?al)))" using sn by (auto split: if_splits)
      have "mesh_inv net (snd (add_node \<lparr>node_id = nid, mesh_ip = i, workload_subnet = s, wireguard_key = k,
              node_region = r, node_endpoint = endpoint\<rparr> (m\<lparr>mesh_allocator := al2\<rparr>)))" for k
        using inv le2 inj i s s2 n2 o1 by (intro mesh_inv_register) simp_all
      then show ?thesis using grow a1 a2 \<open>ip = Inr i\<close> Inr
        by (auto simp: mesh_init_def Let_def build_builder_of split: sum.split prod.split) (metis snd_conv)+
    qed (use grow a1 a2 Inr in \<open>simp add: mesh_init_def\<close>)
  qed (use grow a1 in \<open>simp add: mesh_init_def\<close>)
qed

lemma mesh_remove_inv:
  assumes "mesh_inv net m"
  shows "mesh_inv net (snd (remove_node i m))"
proof -
  have "mesh_allocator (snd (remove_node i m)) = mesh_allocator m"
    by (auto simp: remove_node_def split: option.split)
  then show ?thesis using assms mesh_wf_remove [of m i] unfolding mesh_inv_def
    by (auto simp: get_node_remove)
qed

text \<open>Calls of the nodes that share one mesh.\<close>

datatype mesh_call =
    Join node_id region string "string option"
  | Leave node_id

fun mesh_step :: "(string \<Rightarrow> string + u8 list) \<Rightarrow> (string \<Rightarrow> string + 'net) \<Rightarrow> 'net wireguard_mesh \<Rightarrow> mesh_call \<Rightarrow> 'net wireguard_mesh" where
  "mesh_step decode parse m (Join nid r key endpoint) = snd (mesh_init decode parse nid r key endpoint m)"
| "mesh_step decode parse m (Leave nid) = snd (remove_node nid m)"

lemma mesh_inv_new: "mesh_inv net (mesh_new cfg)"
  by (simp add: mesh_inv_def mesh_new_def get_node_def mesh_wf_def) (simp add: allocator_new_def next_offset_def)

text \<open>The contract of a prefix parser on the texts the allocator prints.\<close>

locale subnet_parser =
  fixes parse :: "string \<Rightarrow> string + 'net" and net :: "u8 \<Rightarrow> 'net"
  assumes parses: "parse (subnet_text t) = Inr (net t)" and net_inj: "inj net"
begin

lemma mesh_run_inv: "mesh_inv net (run (mesh_step decode parse) (mesh_new cfg) cs)"
proof -
  have "mesh_inv net m \<Longrightarrow> mesh_inv net (run (mesh_step decode parse) m cs)" for m
  proof (induction cs arbitrary: m)
    case (Cons c cs)
    then show ?case by (cases c) (simp_all add: mesh_init_inv parses net_inj mesh_remove_inv)
  qed simp
  then show ?thesis using mesh_inv_new by blast
qed

end

interpretation text_subnets: subnet_parser "Inr :: string \<Rightarrow> string + string" subnet_text
  by unfold_locales (auto intro: injI subnet_text_inj)

text \<open>
  C15. \<^bold>\<open>Nodes that share a mesh never share an address.\<close> After any sequence of nodes joining
  (\<open>MeshManager::init\<close>, failed attempts included) and leaving (\<open>shutdown\<close>) one \<open>WireGuardMesh\<close>, two
  different registered nodes have different mesh addresses and different workload subnets.
\<close>

theorem registered_nodes_disjoint:
  assumes "\<And>t. parse (subnet_text t) = Inr (net t)" and "inj net"
    and "m = run (mesh_step decode parse) (mesh_new cfg) cs"
    and "get_node m i = Some n" and "get_node m j = Some n'" and "i \<noteq> j"
  shows "mesh_ip n \<noteq> mesh_ip n' \<and> workload_subnet n \<noteq> workload_subnet n'"
proof -
  have "mesh_inv net m" unfolding assms(3)
    using assms(1,2) by (intro subnet_parser.mesh_run_inv subnet_parser.intro)
  then show ?thesis using assms(4-6) unfolding mesh_inv_def by blast
qed

text \<open>A join that nothing prevents.\<close>

lemma mesh_init_succeeds:
  assumes o: "next_offset (mesh_allocator m) r < 4094" and w: "unat (workload_counter (mesh_allocator m)) < 255"
    and parse: "\<And>t. parse (subnet_text t) = Inr (net t)"
    and key: "decode key = Inr bytes" "length bytes = 32" and new: "get_node m nid = None"
  obtains m' where
    "mesh_init decode parse nid r key endpoint m =
       (Inr \<lparr>mm_mesh_ip = pool_ip r (of_nat (next_offset (mesh_allocator m) r)), mm_public_key = key,
             mm_interface_name = MESH_INTERFACE, mm_node_id = nid, mm_region = r, mm_listen_port = MESH_PORT,
             mm_workload_subnet = net (of_nat (unat (workload_counter (mesh_allocator m)))), active_peers = []\<rparr>, m')"
    and "get_node m' = (get_node m)(nid \<mapsto>
       \<lparr>node_id = nid, mesh_ip = pool_ip r (of_nat (next_offset (mesh_allocator m) r)),
        workload_subnet = net (of_nat (unat (workload_counter (mesh_allocator m)))), wireguard_key = WireGuardKey key,
        node_region = r, node_endpoint = endpoint\<rparr>)"
    and "next_offset (mesh_allocator m') = (next_offset (mesh_allocator m))(r := next_offset (mesh_allocator m) r + 1)"
    and "unat (workload_counter (mesh_allocator m')) = unat (workload_counter (mesh_allocator m)) + 1"
proof -
  let ?al = "mesh_allocator m"
  obtain ip al1 where a1: "allocate_node_ip r ?al = (ip, al1)" by (cases "allocate_node_ip r ?al")
  obtain sn al2 where a2: "allocate_workload_subnet parse nid al1 = (sn, al2)"
    by (cases "allocate_workload_subnet parse nid al1")
  have ip: "ip = Inr (pool_ip r (of_nat (next_offset ?al r)))"
    and o1: "next_offset al1 = (next_offset ?al)(r := next_offset ?al r + 1)"
    using allocate_step [of r ?al] a1 o by (simp_all add: address_at_def)
  have w1: "workload_counter al1 = workload_counter ?al"
    using a1 by (auto simp: allocate_node_ip_def Let_def split: if_splits)
  note step = subnet_step [where parse = parse and nid = nid and al = al1, OF parse [of "of_nat (unat (workload_counter al1))"]]
  have sn: "sn = Inr (net (of_nat (unat (workload_counter ?al))))"
    and w2: "unat (workload_counter al2) = unat (workload_counter ?al) + 1"
    using step a2 w1 w by simp_all
  have o2: "next_offset al2 = next_offset al1"
  proof -
    have "next_offset (snd (allocate_workload_subnet parse nid al1)) = next_offset al1"
      by (rule ext) (simp add: allocate_workload_subnet_def Let_def next_offset_def split: sum.split)
    then show ?thesis using a2 by simp
  qed
  define sv where "sv = net (of_nat (unat (workload_counter ?al)))"
  let ?n = "\<lparr>node_id = nid, mesh_ip = pool_ip r (of_nat (next_offset ?al r)), workload_subnet = sv,
      wireguard_key = WireGuardKey key, node_region = r, node_endpoint = endpoint\<rparr>"
  let ?m = "m\<lparr>mesh_allocator := al2, mesh_nodes := hm_insert nid ?n (mesh_nodes m)\<rparr>"
  have k: "wireguard_key_new decode key = Inr (WireGuardKey key)" using key by (simp add: wireguard_key_new_def)
  have ad: "add_node ?n (m\<lparr>mesh_allocator := al2\<rparr>) = (Inr (), ?m)"
    using new by (simp add: add_node_def get_node_def hm_contains_def)
  have "mesh_init decode parse nid r key endpoint m =
       (Inr \<lparr>mm_mesh_ip = pool_ip r (of_nat (next_offset ?al r)), mm_public_key = key,
             mm_interface_name = MESH_INTERFACE, mm_node_id = nid, mm_region = r, mm_listen_port = MESH_PORT,
             mm_workload_subnet = sv, active_peers = []\<rparr>, ?m)"
    using sn [folded sv_def] by (simp add: mesh_init_def a1 ip a2 k build_builder_of ad Let_def)
  moreover have "get_node ?m = (get_node m)(nid \<mapsto> ?n)" by (rule ext) (simp add: get_node_def)
  moreover have "next_offset (mesh_allocator ?m) = (next_offset ?al)(r := next_offset ?al r + 1)"
    "unat (workload_counter (mesh_allocator ?m)) = unat (workload_counter ?al) + 1"
    by (simp_all add: o1 o2 w2)
  ultimately show ?thesis unfolding sv_def by (rule that)
qed

lemma mesh_init_effect:
  assumes "next_offset (mesh_allocator m) r < 4094" and "unat (workload_counter (mesh_allocator m)) < 255"
    and "\<And>t. parse (subnet_text t) = Inr (net t)"
    and "decode key = Inr bytes" and "length bytes = 32" and "get_node m nid = None"
  shows "get_node (snd (mesh_init decode parse nid r key endpoint m)) nid \<noteq> None"
    and "i \<noteq> nid \<Longrightarrow> get_node (snd (mesh_init decode parse nid r key endpoint m)) i = get_node m i"
    and "next_offset (mesh_allocator (snd (mesh_init decode parse nid r key endpoint m))) r = next_offset (mesh_allocator m) r + 1"
    and "unat (workload_counter (mesh_allocator (snd (mesh_init decode parse nid r key endpoint m)))) =
           unat (workload_counter (mesh_allocator m)) + 1"
  by (rule mesh_init_succeeds [of m r parse net decode key bytes nid endpoint]; (simp add: assms)?)+

text \<open>A decoder and a key for concrete runs.\<close>

definition demo_decode :: "string \<Rightarrow> string + u8 list" where
  "demo_decode key = Inr (replicate 32 0)"

theorem registered_nodes_disjoint_witness:
  "\<exists>n n' :: string mesh_node.
     get_node (run (mesh_step demo_decode Inr) (mesh_new mesh_config_default)
       [Join (NodeId 1) UsWest ''k'' None, Join (NodeId 2) UsWest ''l'' None]) (NodeId 1) = Some n \<and>
     get_node (run (mesh_step demo_decode Inr) (mesh_new mesh_config_default)
       [Join (NodeId 1) UsWest ''k'' None, Join (NodeId 2) UsWest ''l'' None]) (NodeId 2) = Some n' \<and>
     mesh_ip n \<noteq> mesh_ip n' \<and> workload_subnet n \<noteq> workload_subnet n'"
proof -
  let ?m = "mesh_new mesh_config_default :: string wireguard_mesh"
  have al: "next_offset (mesh_allocator ?m) r = 1" "unat (workload_counter (mesh_allocator ?m)) = 0" "get_node ?m i = None" for r i
    by (simp_all add: mesh_new_def get_node_def) (simp add: allocator_new_def)
  have d: "demo_decode k = Inr (replicate 32 0)" "length (replicate 32 (0::u8)) = 32" for k by (simp_all add: demo_decode_def)
  have p: "(Inr :: string \<Rightarrow> string + string) (subnet_text t) = Inr (subnet_text t)" for t by simp
  let ?m1 = "snd (mesh_init demo_decode Inr (NodeId 1) UsWest ''k'' None ?m)"
  let ?m2 = "snd (mesh_init demo_decode Inr (NodeId 2) UsWest ''l'' None ?m1)"
  have m1: "get_node ?m1 (NodeId 1) \<noteq> None" "get_node ?m1 (NodeId 2) = None"
    "next_offset (mesh_allocator ?m1) UsWest = 2" "unat (workload_counter (mesh_allocator ?m1)) = 1"
    using mesh_init_effect [where m = ?m and r = UsWest and parse = Inr and net = subnet_text and decode = demo_decode
        and key = "''k''" and nid = "NodeId 1" and endpoint = None, OF _ _ p d] by (simp_all add: al)
  have m2: "get_node ?m2 (NodeId 1) \<noteq> None" "get_node ?m2 (NodeId 2) \<noteq> None"
    using mesh_init_effect [where m = ?m1 and r = UsWest and parse = Inr and net = subnet_text and decode = demo_decode
        and key = "''l''" and nid = "NodeId 2" and endpoint = None, OF _ _ p d] m1 by simp_all
  have r: "?m2 = run (mesh_step demo_decode Inr) ?m [Join (NodeId 1) UsWest ''k'' None, Join (NodeId 2) UsWest ''l'' None]"
    by simp
  obtain n n' where n: "get_node ?m2 (NodeId 1) = Some n" "get_node ?m2 (NodeId 2) = Some n'"
    using m2 by auto
  have "NodeId 1 \<noteq> NodeId 2" by simp
  then show ?thesis
    using registered_nodes_disjoint [where parse = Inr and net = subnet_text, OF p text_subnets.net_inj r n] n
    unfolding r by blast
qed

text \<open>
  \<^bold>\<open>Every node process gives itself the same address.\<close> \<open>clawnode\<close> creates its own
  \<open>WireGuardMesh\<close> at start-up (\<open>clawnode/src/lib.rs:338\<close>) and \<open>MeshManager::init\<close> allocates from it.
  So two processes of one region, started with any identifiers and keys, both take the first address of the
  region's pool, and any two processes take the workload subnet 10.200.0.0/24.
\<close>

theorem separate_meshes_collide:
  assumes "\<And>t. parse (subnet_text t) = Inr (net t)"
    and "decode key = Inr bytes" and "length bytes = 32" and "decode key' = Inr bytes'" and "length bytes' = 32"
  shows "\<exists>mgr mgr' m m'.
     mesh_init decode parse nid r key ep (mesh_new cfg) = (Inr mgr, m) \<and>
     mesh_init decode parse nid' r key' ep' (mesh_new cfg') = (Inr mgr', m') \<and>
     mm_mesh_ip mgr = pool_ip r 1 \<and> mm_mesh_ip mgr' = pool_ip r 1 \<and>
     mm_workload_subnet mgr = net 0 \<and> mm_workload_subnet mgr' = net 0"
proof -
  have new: "\<exists>mgr m. mesh_init decode parse i r k e (mesh_new c) = (Inr mgr, m) \<and>
      mm_mesh_ip mgr = pool_ip r 1 \<and> mm_workload_subnet mgr = net 0"
    if "decode k = Inr b" "length b = 32" for i k e c b
    by (rule mesh_init_succeeds [of "mesh_new c" r parse net decode k b i e])
      (use assms(1) that in \<open>auto simp: mesh_new_def get_node_def allocator_new_def next_offset_def\<close>)
  show ?thesis using new [OF assms(2,3), of nid ep cfg] new [OF assms(4,5), of nid' ep' cfg'] by blast
qed

theorem separate_meshes_collide_witness:
  "\<exists>mgr mgr' m m'.
     mesh_init demo_decode (Inr :: string \<Rightarrow> string + string) (NodeId 1) Asia ''k'' None (mesh_new mesh_config_default) = (Inr mgr, m) \<and>
     mesh_init demo_decode (Inr :: string \<Rightarrow> string + string) (NodeId 2) Asia ''l'' None (mesh_new mesh_config_default) = (Inr mgr', m') \<and>
     mm_mesh_ip mgr = mm_mesh_ip mgr' \<and> mm_workload_subnet mgr = mm_workload_subnet mgr'"
proof -
  have "demo_decode k = Inr (replicate 32 0)" "length (replicate 32 (0::u8)) = 32" for k by (simp_all add: demo_decode_def)
  then show ?thesis
    using separate_meshes_collide [where parse = "Inr :: string \<Rightarrow> string + string" and net = subnet_text
        and decode = demo_decode and key = "''k''" and key' = "''l''" and bytes = "replicate 32 0" and bytes' = "replicate 32 0"
        and nid = "NodeId 1" and nid' = "NodeId 2" and r = Asia and ep = None and ep' = None
        and cfg = mesh_config_default and cfg' = mesh_config_default] by fastforce
qed

end
