(* ===== verification/Workload_Net.thy ===== *)
theory Workload_Net
  imports Decimal
begin

text \<open>
  Addresses of the containers of a node, \<open>crates/clawnode/src/workload_net.rs\<close>: allocation from the node's /24 with
  reuse of released addresses, and the map from containers to workloads. The prefix type of the \<open>ipnet\<close> crate is a
  parameter with its three accessors, and whether Docker created the bridge is an argument.
\<close>

section \<open>State\<close>

record 'net ipnet_ops =
  network_octets :: "'net \<Rightarrow> u8 \<times> u8 \<times> u8 \<times> u8"
  prefix_len :: "'net \<Rightarrow> u8"
  show_net :: "'net \<Rightarrow> string"

definition DOCKER_NETWORK_NAME :: string where "DOCKER_NETWORK_NAME = ''claw-mesh''"

record 'net workload_net_manager =
  network_name :: string
  wn_subnet :: 'net
  allocated_ips :: "(string, ip_addr) hashmap"
  container_to_workload :: "(string, string) hashmap"
  next_ip :: u8
  free_pool :: "u8 list"
  wg_interface :: string
  docker_network_created :: bool

record container_network_info =
  cni_network :: string
  cni_ip_address :: string
  cni_subnet :: string
  cni_gateway :: string

section \<open>Operations\<close>

definition wn_init ::
  "'net ipnet_ops \<Rightarrow> bool \<Rightarrow> 'net \<Rightarrow> string \<Rightarrow> string + 'net workload_net_manager" where
  "wn_init ops docker_created subnet wg =
     (if prefix_len ops subnet \<noteq> 24
      then Inl (''workload subnet must be /24, got /'' @ show_nat (unat (prefix_len ops subnet)))
      else Inr \<lparr>network_name = DOCKER_NETWORK_NAME, wn_subnet = subnet, allocated_ips = [], container_to_workload = [],
                next_ip = 2, free_pool = [], wg_interface = wg, docker_network_created = docker_created\<rparr>)"

definition host_ip :: "'net ipnet_ops \<Rightarrow> 'net \<Rightarrow> u8 \<Rightarrow> ip_addr" where
  "host_ip ops net suffix = (case network_octets ops net of (a, b, c, d) \<Rightarrow> V4 a b c suffix)"

text \<open>\<open>Vec::pop\<close> takes the end of the free pool, where \<open>push\<close> puts a released suffix.\<close>

definition take_suffix :: "'net workload_net_manager \<Rightarrow> (string, u8, 'net workload_net_manager) outcome" where
  "take_suffix m =
     (if free_pool m \<noteq> [] then (Inr (last (free_pool m)), m\<lparr>free_pool := butlast (free_pool m)\<rparr>)
      else if next_ip m > 254 then (Inl ''workload subnet exhausted (max 253 containers)'', m)
      else (Inr (next_ip m), m\<lparr>next_ip := next_ip m + 1\<rparr>))"

definition allocate_ip ::
  "'net ipnet_ops \<Rightarrow> string \<Rightarrow> 'net workload_net_manager \<Rightarrow> (string, ip_addr, 'net workload_net_manager) outcome" where
  "allocate_ip ops i m =
     (case hm_get (allocated_ips m) i of
        Some ip \<Rightarrow> (Inr ip, m)
      | None \<Rightarrow>
          (case take_suffix m of
             (Inl e, m1) \<Rightarrow> (Inl e, m1)
           | (Inr suffix, m1) \<Rightarrow>
               (let ip = host_ip ops (wn_subnet m1) suffix
                in (Inr ip, m1\<lparr>allocated_ips := hm_insert i ip (allocated_ips m1)\<rparr>))))"

text \<open>\<open>ip.octets()[3]\<close>.\<close>

fun last_octet :: "ip_addr \<Rightarrow> u8" where
  "last_octet (V4 a b c d) = d"
| "last_octet (V6 a b c d e f g h) = ucast h"

definition release_ip :: "string \<Rightarrow> 'net workload_net_manager \<Rightarrow> ip_addr option \<times> 'net workload_net_manager" where
  "release_ip i m =
     (case hm_get (allocated_ips m) i of
        Some ip \<Rightarrow> (Some ip, m\<lparr>allocated_ips := hm_remove i (allocated_ips m), free_pool := free_pool m @ [last_octet ip]\<rparr>)
      | None \<Rightarrow> (None, m))"

definition get_ip :: "'net workload_net_manager \<Rightarrow> string \<Rightarrow> ip_addr option" where
  "get_ip m i = hm_get (allocated_ips m) i"

definition show_ipv4 :: "ip_addr \<Rightarrow> string" where
  "show_ipv4 ip = (case ip of
      V4 a b c d \<Rightarrow> show_nat (unat a) @ ''.'' @ show_nat (unat b) @ ''.'' @ show_nat (unat c) @ ''.'' @ show_nat (unat d)
    | V6 a b c d e f g h \<Rightarrow> [])"

definition network_info :: "'net ipnet_ops \<Rightarrow> 'net workload_net_manager \<Rightarrow> string \<Rightarrow> container_network_info option" where
  "network_info ops m i = map_option (\<lambda>ip.
     \<lparr>cni_network = network_name m, cni_ip_address = show_ipv4 ip, cni_subnet = show_net ops (wn_subnet m),
      cni_gateway = show_ipv4 (host_ip ops (wn_subnet m) 1)\<rparr>) (hm_get (allocated_ips m) i)"

definition track_container :: "string \<Rightarrow> string \<Rightarrow> 'net workload_net_manager \<Rightarrow> 'net workload_net_manager" where
  "track_container c w m = m\<lparr>container_to_workload := hm_insert c w (container_to_workload m)\<rparr>"

definition release_by_container :: "string \<Rightarrow> 'net workload_net_manager \<Rightarrow> ip_addr option \<times> 'net workload_net_manager" where
  "release_by_container c m =
     (case hm_get (container_to_workload m) c of
        Some w \<Rightarrow> release_ip w (m\<lparr>container_to_workload := hm_remove c (container_to_workload m)\<rparr>)
      | None \<Rightarrow> release_ip c m)"

definition allocated_count :: "'net workload_net_manager \<Rightarrow> nat" where
  "allocated_count m = length (allocated_ips m)"

section \<open>Invariant\<close>

text \<open>
  The suffixes handed out so far, 2 up to \<open>next_ip\<close>, are split without repetition between the workloads and the
  free pool.
\<close>

definition used :: "'net workload_net_manager \<Rightarrow> u8 list" where
  "used m = map last_octet (hm_values (allocated_ips m))"

definition hosts :: "u8 \<Rightarrow> u8 set" where
  "hosts n = {s. 2 \<le> unat s \<and> unat s < unat n}"

definition wn_inv :: "'net ipnet_ops \<Rightarrow> 'net workload_net_manager \<Rightarrow> bool" where
  "wn_inv ops m \<longleftrightarrow>
     hm_wf (allocated_ips m) \<and> 2 \<le> unat (next_ip m) \<and>
     mset (used m) + mset (free_pool m) = mset_set (hosts (next_ip m)) \<and>
     (\<forall>i ip. hm_get (allocated_ips m) i = Some ip \<longrightarrow> ip = host_ip ops (wn_subnet m) (last_octet ip))"

lemma last_octet_host_ip [simp]: "last_octet (host_ip ops net s) = s"
  by (simp add: host_ip_def split: prod.split)

lemma finite_hosts [simp]: "finite (hosts n)"
  by (rule finite_subset [OF subset_UNIV]) simp

lemma hosts_Suc:
  assumes "\<not> n > 254" and "2 \<le> unat n"
  shows "hosts (n + 1) = insert n (hosts n)" and "n \<notin> hosts n" and "unat (n + 1) = unat n + 1"
proof -
  have "unat n \<le> 254" using assms(1) by (simp add: word_less_nat_alt)
  then show u: "unat (n + 1) = unat n + 1" by (simp add: unat_add_exact)
  show "hosts (n + 1) = insert n (hosts n)"
    using assms(2) by (auto simp: hosts_def u less_Suc_eq word_unat_eq_iff)
  show "n \<notin> hosts n" by (simp add: hosts_def)
qed

lemma card_hosts: "2 \<le> unat n \<Longrightarrow> card (hosts n) = unat n - 2"
proof -
  have "unat ` hosts n = {2..<unat n}"
  proof (rule set_eqI, rule iffI)
    fix k assume k: "k \<in> {2..<unat n}"
    then have "k < 256" using unat_lt_len [of n] by simp
    then have u: "unat (of_nat k :: u8) = k" by (simp add: unat_of_nat)
    then have "(of_nat k :: u8) \<in> hosts n" using k by (simp add: hosts_def)
    then show "k \<in> unat ` hosts n" using u by force
  qed (auto simp: hosts_def)
  moreover have "inj_on unat (hosts n)" by (simp add: inj_on_def word_unat_eq_iff)
  ultimately show ?thesis by (metis card_atLeastLessThan card_image)
qed

lemma used_insert: "hm_get (allocated_ips m) i = None \<Longrightarrow>
    map last_octet (hm_values (hm_insert i ip (allocated_ips m))) = used m @ [last_octet ip]"
  by (simp add: used_def hm_insert_new)

lemma mset_values_remove:
  assumes "hm_wf m" and "hm_get m i = Some v"
  shows "mset (hm_values m) = add_mset v (mset (hm_values (hm_remove i m)))"
  using assms
proof (induction m)
  case (Cons p m)
  show ?case
  proof (cases "fst p = i")
    case True
    then have "i \<notin> fst ` set m" using Cons.prems(1) by auto
    then have "hm_remove i (p # m) = m" using True by (cases p) (simp add: hm_remove_def AList.delete_id)
    then show ?thesis using Cons.prems(2) True by (cases p) simp
  next
    case False
    then show ?thesis using Cons by (cases p) (auto simp: hm_remove_def)
  qed
qed simp

lemma wn_inv_init: "wn_init ops d net wg = Inr m \<Longrightarrow> wn_inv ops m"
proof -
  have "hosts 2 = {}" by (auto simp: hosts_def)
  then show "wn_init ops d net wg = Inr m \<Longrightarrow> wn_inv ops m"
    by (auto simp: wn_init_def wn_inv_def used_def split: if_splits)
qed

lemma take_suffix_inv:
  assumes "wn_inv ops m" and "take_suffix m = (Inr s, m')"
  shows "allocated_ips m' = allocated_ips m \<and> wn_subnet m' = wn_subnet m \<and> 2 \<le> unat (next_ip m') \<and>
    mset (used m) + mset (free_pool m') + {#s#} = mset_set (hosts (next_ip m'))"
proof (cases "free_pool m = []")
  case True
  then have n: "\<not> next_ip m > 254" "s = next_ip m" "m' = m\<lparr>next_ip := next_ip m + 1\<rparr>"
    using assms(2) by (auto simp: take_suffix_def split: if_splits)
  have "2 \<le> unat (next_ip m)" using assms(1) by (simp add: wn_inv_def)
  note h = hosts_Suc [OF n(1) this]
  show ?thesis using assms(1) True n h by (simp add: wn_inv_def)
next
  case False
  then obtain xs x where "free_pool m = xs @ [x]" by (metis rev_exhaust)
  then show ?thesis using assms by (auto simp: take_suffix_def wn_inv_def)
qed

lemma allocate_ip_inv:
  assumes "wn_inv ops m"
  shows "wn_inv ops (snd (allocate_ip ops i m))"
proof (cases "hm_get (allocated_ips m) i")
  case None
  obtain r m1 where t: "take_suffix m = (r, m1)" by (cases "take_suffix m")
  show ?thesis
  proof (cases r)
    case (Inl e)
    then have "m1 = m" using t by (auto simp: take_suffix_def split: if_splits)
    then show ?thesis using assms None t Inl by (simp add: allocate_ip_def)
  next
    case (Inr s)
    note inv = take_suffix_inv [OF assms t [unfolded Inr]]
    let ?m = "m1\<lparr>allocated_ips := hm_insert i (host_ip ops (wn_subnet m) s) (allocated_ips m)\<rparr>"
    have "used ?m = used m @ [s]" using used_insert [OF None] by (simp add: used_def)
    then have "wn_inv ops ?m" using inv assms by (auto simp: wn_inv_def)
    then show ?thesis using None t Inr inv by (simp add: allocate_ip_def Let_def)
  qed
qed (use assms in \<open>simp add: allocate_ip_def\<close>)

lemma release_ip_inv:
  assumes "wn_inv ops m"
  shows "wn_inv ops (snd (release_ip i m))"
proof (cases "hm_get (allocated_ips m) i")
  case (Some ip)
  have "mset (map last_octet (hm_values (allocated_ips m))) =
      add_mset (last_octet ip) (mset (map last_octet (hm_values (hm_remove i (allocated_ips m)))))"
    using arg_cong [OF mset_values_remove [OF _ Some], of "image_mset last_octet"] assms
    by (simp add: wn_inv_def image_mset.compositionality)
  then show ?thesis using assms Some by (auto simp: release_ip_def wn_inv_def used_def)
qed (use assms in \<open>simp add: release_ip_def\<close>)

lemma wn_inv_containers: "wn_inv ops (m\<lparr>container_to_workload := c\<rparr>) = wn_inv ops m"
  by (simp add: wn_inv_def used_def)

datatype wn_op = Allocate string | Release string | Track string string | Release_container string

fun wn_step :: "'net ipnet_ops \<Rightarrow> 'net workload_net_manager \<Rightarrow> wn_op \<Rightarrow> 'net workload_net_manager" where
  "wn_step ops m (Allocate i) = snd (allocate_ip ops i m)"
| "wn_step ops m (Release i) = snd (release_ip i m)"
| "wn_step ops m (Track c w) = track_container c w m"
| "wn_step ops m (Release_container c) = snd (release_by_container c m)"

lemma wn_step_inv: "wn_inv ops m \<Longrightarrow> wn_inv ops (wn_step ops m e)"
  by (cases e) (auto simp: allocate_ip_inv release_ip_inv track_container_def release_by_container_def wn_inv_containers
      split: option.split)

interpretation wn: invariant_steps "wn_step ops" "wn_inv ops" for ops
  by unfold_locales (rule wn_step_inv)

lemma distinct_values_inj:
  assumes "distinct (map f (hm_values m))" and "hm_get m i = Some v" and "hm_get m j = Some w" and "f v = f w"
  shows "i = j"
  using assms
proof (induction m)
  case (Cons p m)
  have "f (snd p) \<notin> (f \<circ> snd) ` set m" using Cons.prems(1) by auto
  moreover have "hm_get m k = Some u \<Longrightarrow> f u \<in> (f \<circ> snd) ` set m" for k u
    by (drule map_of_SomeD) (force simp: image_iff)
  ultimately have "hm_get m k = Some u \<Longrightarrow> f u \<noteq> f (snd p)" for k u by metis
  then show ?case using Cons by (cases p) (auto split: if_splits)
qed simp

lemma wn_used_distinct: "wn_inv ops m \<Longrightarrow> distinct (used m)"
proof -
  assume "wn_inv ops m"
  then have e: "mset (used m @ free_pool m) = mset_set (hosts (next_ip m))" by (simp add: wn_inv_def)
  have "distinct (used m @ free_pool m)"
  proof -
    obtain ys where ys: "distinct ys" "set ys = hosts (next_ip m)"
      using finite_distinct_list [OF finite_hosts] by blast
    then have "mset (used m @ free_pool m) = mset ys" using e by (simp add: mset_set_set [symmetric] flip: mset_set_set)
    then show ?thesis using ys(1) by (metis mset_eq_imp_distinct_iff)
  qed
  then show "distinct (used m)" by simp
qed

lemma wn_used_hosts: "wn_inv ops m \<Longrightarrow> s \<in> set (used m) \<Longrightarrow> s \<in> hosts (next_ip m)"
proof -
  assume "wn_inv ops m" and s: "s \<in> set (used m)"
  then have "set_mset (mset (used m) + mset (free_pool m)) = hosts (next_ip m)" by (simp add: wn_inv_def)
  then show ?thesis using s by auto
qed

lemma wn_count: "wn_inv ops m \<Longrightarrow> allocated_count m + length (free_pool m) = unat (next_ip m) - 2"
proof -
  assume i: "wn_inv ops m"
  then have "size (mset (used m) + mset (free_pool m)) = card (hosts (next_ip m))" by (simp add: wn_inv_def)
  then show ?thesis using i by (simp add: card_hosts wn_inv_def used_def allocated_count_def)
qed

text \<open>
  C29. \<^bold>\<open>Containers of a node never share an address.\<close> After any sequence of allocations, releases and container
  tracking on a manager that \<open>WorkloadNetManager::init\<close> returned, two different workloads have different
  addresses, and every address is a host of the node's subnet other than the gateway (.1), the network and the
  broadcast address.
\<close>

theorem workload_ips_unique:
  assumes "wn_init ops docker subnet wg = Inr m0" and "m = run (wn_step ops) m0 es" and "get_ip m i = Some ip"
  shows "(\<exists>s. ip = host_ip ops (wn_subnet m) s \<and> 2 \<le> unat s \<and> unat s \<le> 254) \<and>
    (\<forall>j. get_ip m j = Some ip \<longrightarrow> j = i)"
proof (intro conjI allI impI)
  have inv: "wn_inv ops m" unfolding assms(2) using wn_inv_init [OF assms(1)] by (rule wn.run_inv)
  have "last_octet ip \<in> set (used m)"
    using assms(3) by (force simp: get_ip_def used_def dest: map_of_SomeD)
  then have h: "last_octet ip \<in> hosts (next_ip m)" using inv by (rule wn_used_hosts [rotated])
  have "unat (next_ip m) \<le> 255" using unat_lt_len [of "next_ip m"] by simp
  moreover have "ip = host_ip ops (wn_subnet m) (last_octet ip)" using inv assms(3) by (simp add: wn_inv_def get_ip_def)
  ultimately show "\<exists>s. ip = host_ip ops (wn_subnet m) s \<and> 2 \<le> unat s \<and> unat s \<le> 254"
    using h by (intro exI [of _ "last_octet ip"]) (auto simp: hosts_def)
  fix j assume "get_ip m j = Some ip"
  then show "j = i"
    using distinct_values_inj [of last_octet "allocated_ips m" j ip i ip] wn_used_distinct [OF inv] assms(3)
    by (simp add: get_ip_def used_def)
qed

definition demo_ops :: "unit ipnet_ops" where
  "demo_ops = \<lparr>network_octets = (\<lambda>_. (10, 200, 5, 0)), prefix_len = (\<lambda>_. 24), show_net = (\<lambda>_. ''10.200.5.0/24'')\<rparr>"

definition demo_net :: "unit workload_net_manager" where
  "demo_net = \<lparr>network_name = DOCKER_NETWORK_NAME, wn_subnet = (), allocated_ips = [], container_to_workload = [],
     next_ip = 2, free_pool = [], wg_interface = ''claw0'', docker_network_created = True\<rparr>"

theorem workload_ips_unique_witness:
  "wn_init demo_ops True () ''claw0'' = Inr demo_net \<and>
   (let m = run (wn_step demo_ops) demo_net [Allocate ''a'', Allocate ''b'', Release ''a'', Allocate ''c'']
    in get_ip m ''c'' = Some (V4 10 200 5 2) \<and> (\<forall>j. get_ip m j = Some (V4 10 200 5 2) \<longrightarrow> j = ''c''))"
proof -
  let ?m = "run (wn_step demo_ops) demo_net [Allocate ''a'', Allocate ''b'', Release ''a'', Allocate ''c'']"
  have i: "wn_init demo_ops True () ''claw0'' = Inr demo_net" by (simp add: wn_init_def demo_ops_def demo_net_def)
  have g: "get_ip ?m ''c'' = Some (V4 10 200 5 2)"
    by (simp add: demo_net_def allocate_ip_def take_suffix_def host_ip_def demo_ops_def release_ip_def get_ip_def
        hm_insert_def hm_remove_def Let_def)
  show ?thesis using i g workload_ips_unique [OF i refl g] by (simp add: Let_def)
qed

text \<open>
  C30. \<^bold>\<open>The whole /24 is usable.\<close> In every reachable state a workload without an address is refused one exactly
  when 253 workloads hold one, and then nothing changes; otherwise it gets an address and keeps it: asking again returns
  the same address and changes nothing. Released addresses are therefore never lost.
\<close>

theorem workload_ips_complete:
  assumes "wn_init ops docker subnet wg = Inr m0" and "m = run (wn_step ops) m0 es" and "get_ip m i = None"
  shows "if allocated_count m = 253
         then allocate_ip ops i m = (Inl ''workload subnet exhausted (max 253 containers)'', m)
         else \<exists>ip m'. allocate_ip ops i m = (Inr ip, m') \<and> get_ip m' i = Some ip \<and> allocate_ip ops i m' = (Inr ip, m') \<and>
           allocated_count m' = allocated_count m + 1"
proof -
  have inv: "wn_inv ops m" unfolding assms(2) using wn_inv_init [OF assms(1)] by (rule wn.run_inv)
  have c: "allocated_count m + length (free_pool m) = unat (next_ip m) - 2" using inv by (rule wn_count)
  have n: "unat (next_ip m) \<le> 255" "2 \<le> unat (next_ip m)" using unat_lt_len [of "next_ip m"] inv by (simp_all add: wn_inv_def)
  have none: "hm_get (allocated_ips m) i = None" using assms(3) by (simp add: get_ip_def)
  show ?thesis
  proof (cases "free_pool m = [] \<and> next_ip m > 254")
    case True
    then have "unat (next_ip m) = 255" using n by (simp add: word_less_nat_alt)
    then show ?thesis using True c none by (simp add: allocate_ip_def take_suffix_def)
  next
    case False
    then obtain s m1 where t: "take_suffix m = (Inr s, m1)" "allocated_ips m1 = allocated_ips m"
      by (cases "free_pool m = []") (auto simp: take_suffix_def)
    have "allocated_count m \<noteq> 253"
    proof
      assume "allocated_count m = 253"
      then have "length (free_pool m) = 0" "unat (next_ip m) = 255" using c n by linarith+
      then show False using False by (simp add: word_less_nat_alt)
    qed
    then show ?thesis using t none
      by (simp add: allocate_ip_def Let_def get_ip_def allocated_count_def hm_len_insert hm_contains_def)
  qed
qed

theorem workload_ips_complete_witness:
  "wn_init demo_ops True () ''claw0'' = Inr demo_net \<and> get_ip (run (wn_step demo_ops) demo_net []) ''a'' = None \<and>
   (\<exists>ip m'. allocate_ip demo_ops ''a'' demo_net = (Inr ip, m') \<and> get_ip m' ''a'' = Some ip)"
proof -
  have i: "wn_init demo_ops True () ''claw0'' = Inr demo_net" by (simp add: wn_init_def demo_ops_def demo_net_def)
  have g: "get_ip (run (wn_step demo_ops) demo_net []) ''a'' = None" by (simp add: demo_net_def get_ip_def)
  show ?thesis using i g workload_ips_complete [OF i refl g] by (auto simp: allocated_count_def demo_net_def)
qed

end
