(* ===== verification/Firewall.thy ===== *)
theory Firewall
  imports Workload_Net
begin

text \<open>
  Running \<open>iptables\<close>. The command is a parameter: it takes an argument list and the state of the kernel's tables and
  gives its output (\<^const>\<open>None\<close> when it cannot be executed) and the new state. The contract that
  clients rely on, the documented behaviour of appending, deleting and listing rules of one chain, is a
  locale.
\<close>

record cmd_output =
  cmd_success :: bool
  cmd_stdout :: string
  cmd_stderr :: string

type_synonym 'fw runner = "string list \<Rightarrow> 'fw \<Rightarrow> cmd_output option \<times> 'fw"

text \<open>\<open>Ok(output) if output.status.success()\<close>.\<close>

definition succeeded :: "cmd_output option \<Rightarrow> bool" where
  "succeeded r = (case r of Some out \<Rightarrow> cmd_success out | None \<Rightarrow> False)"

text \<open>Commands whose result is only logged, one after another.\<close>

primrec run_all :: "'fw runner \<Rightarrow> string list list \<Rightarrow> 'fw \<Rightarrow> 'fw" where
  "run_all ipt [] fw = fw"
| "run_all ipt (c # cs) fw = run_all ipt cs (snd (ipt c fw))"

lemma run_all_append: "run_all ipt (cs @ ds) fw = run_all ipt ds (run_all ipt cs fw)"
  by (induction cs arbitrary: fw) simp_all

text \<open>
  One chain of one table. \<open>rules\<close> are the rule specifications of the chain in order; appending a
  specification that \<open>iptables\<close> accepts puts it last; deleting by specification removes the first rule with exactly
  that specification and fails when there is none; deleting by number removes the rule with that number, counted
  from 1.
\<close>

locale iptables_chain =
  fixes ipt :: "'fw runner"
    and table :: "string list"
    and chain :: string
    and rules :: "'fw \<Rightarrow> string list list"
    and accepted :: "string list \<Rightarrow> bool"
  assumes append_rule: "accepted spec \<Longrightarrow>
      rules (snd (ipt (table @ [''-A'', chain] @ spec) fw)) = rules fw @ [spec]"
    and delete_rule: "spec \<in> set (rules fw) \<Longrightarrow>
      succeeded (fst (ipt (table @ [''-D'', chain] @ spec) fw)) \<and>
      rules (snd (ipt (table @ [''-D'', chain] @ spec) fw)) = remove1 spec (rules fw)"
    and delete_missing: "spec \<notin> set (rules fw) \<Longrightarrow> hd spec = ''-d'' \<Longrightarrow>
      \<not> succeeded (fst (ipt (table @ [''-D'', chain] @ spec) fw)) \<and>
      rules (snd (ipt (table @ [''-D'', chain] @ spec) fw)) = rules fw"
begin

lemma append_rules:
  "list_all accepted specs \<Longrightarrow>
   rules (run_all ipt (map (\<lambda>s. table @ [''-A'', chain] @ s) specs) fw) = rules fw @ specs"
  by (induction specs arbitrary: fw) (simp_all add: append_rule del: append_Cons append_Nil)

end

text \<open>A chain kept as a list of specifications.\<close>

definition list_ipt :: "string list \<Rightarrow> string \<Rightarrow> string list list runner" where
  "list_ipt tbl chain args fw =
     (let k = length tbl; ok = \<lparr>cmd_success = True, cmd_stdout = [], cmd_stderr = []\<rparr>;
          bad = \<lparr>cmd_success = False, cmd_stdout = [], cmd_stderr = ''Bad rule''\<rparr>
      in if take (k + 2) args = tbl @ [''-A'', chain] then (Some ok, fw @ [drop (k + 2) args])
         else if take (k + 2) args = tbl @ [''-D'', chain] then
           (if drop (k + 2) args \<in> set fw then (Some ok, remove1 (drop (k + 2) args) fw) else (Some bad, fw))
         else (Some bad, fw))"

interpretation list_chain: iptables_chain "list_ipt tbl chain" tbl chain "\<lambda>fw. fw" "\<lambda>_. True" for tbl chain
  by unfold_locales (simp_all add: list_ipt_def Let_def succeeded_def)

end
