(* ===== verification/Service_Discovery.thy ===== *)
theory Service_Discovery
  imports Firewall
begin

text \<open>
  Services of a node, \<open>crates/clawnode/src/service_discovery.rs\<close>: cluster addresses from 10.201.0.0/16, endpoints,
  and the destination-NAT rules that route a cluster address to its healthy backends. The loop that removes the
  rules of an address runs until \<open>iptables -D\<close> fails, so it is partial: \<^const>\<open>None\<close> stands for not returning.
\<close>

unbundle bit_operations_syntax

section \<open>State\<close>

type_synonym labels = "(string, string) hashmap"

record endpoint =
  ep_ip :: ip_addr
  ep_port :: u16
  ep_container_id :: string
  ep_healthy :: bool

record service_record =
  sr_name :: string
  cluster_ip :: ip_addr
  sr_port :: u16
  sr_protocol :: string
  sr_selector :: labels
  sr_endpoints :: "endpoint list"

record service_discovery =
  services :: "(string, service_record) hashmap"
  vip_to_service :: "(ip_addr, string) hashmap"
  next_vip :: u32
  iptables_available :: bool

definition IPTABLES_CHAIN :: string where "IPTABLES_CHAIN = ''CLAW-SERVICES''"

section \<open>Commands\<close>

text \<open>\<open>setup_iptables_chain\<close>: create the chain, and insert a jump to it where there is none.\<close>

definition insert_jump :: "'fw runner \<Rightarrow> string \<Rightarrow> 'fw \<Rightarrow> 'fw" where
  "insert_jump ipt base fw =
     (case ipt [''-t'', ''nat'', ''-C'', base, ''-j'', IPTABLES_CHAIN] fw of
        (None, fw1) \<Rightarrow> fw1
      | (Some out, fw1) \<Rightarrow>
          if \<not> cmd_success out then snd (ipt [''-t'', ''nat'', ''-I'', base, ''-j'', IPTABLES_CHAIN] fw1) else fw1)"

definition setup_iptables_chain :: "'fw runner \<Rightarrow> 'fw \<Rightarrow> bool \<times> 'fw" where
  "setup_iptables_chain ipt fw =
     (case ipt [''-t'', ''nat'', ''-N'', IPTABLES_CHAIN] fw of
        (None, fw1) \<Rightarrow> (False, fw1)
      | (Some out, fw1) \<Rightarrow>
          if cmd_success out \<or> contains_text (cmd_stderr out) ''Chain already exists''
          then (True, insert_jump ipt ''OUTPUT'' (insert_jump ipt ''PREROUTING'' fw1))
          else (False, fw1))"

definition show_backend :: "ip_addr \<times> u16 \<Rightarrow> string" where
  "show_backend b = show_ipv4 (fst b) @ '':'' @ show_nat (unat (snd b))"

text \<open>Backends after the first share the traffic by \<open>-m statistic --mode nth --every (n - i) --packet 0\<close>.\<close>

definition dnat_every :: "nat \<Rightarrow> nat \<Rightarrow> nat option" where
  "dnat_every n i = (if n > 1 then Some (n - i) else None)"

text \<open>The specification of the \<open>i\<close>-th of \<open>n\<close> backends, after the table, \<open>-A\<close> and the chain.\<close>

definition dnat_spec :: "ip_addr \<Rightarrow> u16 \<Rightarrow> string \<Rightarrow> nat \<Rightarrow> nat \<Rightarrow> ip_addr \<times> u16 \<Rightarrow> string list" where
  "dnat_spec vip port protocol n i b =
     [''-d'', show_ipv4 vip @ ''/32'', ''-p'', protocol, ''--dport'', show_nat (unat port)] @
     (case dnat_every n i of
        Some e \<Rightarrow> [''-m'', ''statistic'', ''--mode'', ''nth'', ''--every'', show_nat e, ''--packet'', ''0'']
      | None \<Rightarrow> []) @
     [''-j'', ''DNAT'', ''--to-destination'', show_backend b]"

definition generate_dnat_rule_args :: "ip_addr \<Rightarrow> u16 \<Rightarrow> string \<Rightarrow> (ip_addr \<times> u16) list \<Rightarrow> string list list" where
  "generate_dnat_rule_args vip port protocol backends =
     map (\<lambda>(i, b). [''-t'', ''nat'', ''-A'', IPTABLES_CHAIN] @ dnat_spec vip port protocol (length backends) i b)
       (enumerate 0 backends)"

partial_function (option) remove_dnat_rules :: "'fw runner \<Rightarrow> ip_addr \<Rightarrow> 'fw \<Rightarrow> 'fw option" where
  "remove_dnat_rules ipt vip fw =
     (let r = ipt [''-t'', ''nat'', ''-D'', IPTABLES_CHAIN, ''-d'', show_ipv4 vip @ ''/32''] fw
      in if succeeded (fst r) then remove_dnat_rules ipt vip (snd r) else Some (snd r))"

definition apply_dnat_rules ::
  "'fw runner \<Rightarrow> ip_addr \<Rightarrow> u16 \<Rightarrow> string \<Rightarrow> (ip_addr \<times> u16) list \<Rightarrow> 'fw \<Rightarrow> 'fw option" where
  "apply_dnat_rules ipt vip port protocol backends fw =
     map_option (\<lambda>fw1. if backends = [] then fw1
                       else run_all ipt (generate_dnat_rule_args vip port protocol backends) fw1)
       (remove_dnat_rules ipt vip fw)"

section \<open>Operations\<close>

definition sd_new :: "'fw runner \<Rightarrow> 'fw \<Rightarrow> service_discovery \<times> 'fw" where
  "sd_new ipt fw = (let (ok, fw1) = setup_iptables_chain ipt fw
     in (\<lparr>services = [], vip_to_service = [], next_vip = 1, iptables_available = ok\<rparr>, fw1))"

definition vip_of :: "u32 \<Rightarrow> ip_addr" where
  "vip_of n = V4 10 201 (ucast (drop_bit 8 n)) (ucast (n AND 0xFF))"

definition allocate_vip :: "service_discovery \<Rightarrow> (string, ip_addr, service_discovery) outcome" where
  "allocate_vip sd =
     (if next_vip sd \<ge> 65534 then (Inl ''ClusterIP range exhausted'', sd)
      else (Inr (vip_of (next_vip sd)), sd\<lparr>next_vip := next_vip sd + 1\<rparr>))"

definition register_service ::
  "string \<Rightarrow> u16 \<Rightarrow> string \<Rightarrow> labels \<Rightarrow> service_discovery \<Rightarrow> (string, ip_addr, service_discovery) outcome" where
  "register_service name port protocol selector sd =
     (if hm_contains (services sd) name then (Inl (''service '' @ CHR 0x27 # name @ CHR 0x27 # '' already exists''), sd)
      else case allocate_vip sd of
        (Inl e, sd1) \<Rightarrow> (Inl e, sd1)
      | (Inr vip, sd1) \<Rightarrow>
          (Inr vip, sd1\<lparr>vip_to_service := hm_insert vip name (vip_to_service sd1),
                        services := hm_insert name
                          \<lparr>sr_name = name, cluster_ip = vip, sr_port = port, sr_protocol = protocol,
                           sr_selector = selector, sr_endpoints = []\<rparr> (services sd1)\<rparr>))"

definition healthy_backends :: "endpoint list \<Rightarrow> (ip_addr \<times> u16) list" where
  "healthy_backends eps = map (\<lambda>e. (ep_ip e, ep_port e)) (filter ep_healthy eps)"

definition update_endpoints ::
  "'fw runner \<Rightarrow> string \<Rightarrow> endpoint list \<Rightarrow> service_discovery \<times> 'fw
   \<Rightarrow> (string, unit, service_discovery \<times> 'fw) outcome option" where
  "update_endpoints ipt name eps st =
     (case hm_get (services (fst st)) name of
        None \<Rightarrow> Some (Inl (''service '' @ CHR 0x27 # name @ CHR 0x27 # '' not found''), st)
      | Some r \<Rightarrow>
          let r1 = r\<lparr>sr_endpoints := eps\<rparr>;
              sd1 = (fst st)\<lparr>services := hm_insert name r1 (services (fst st))\<rparr>
          in if iptables_available sd1
             then map_option (\<lambda>fw. (Inr (), (sd1, fw)))
                    (apply_dnat_rules ipt (cluster_ip r1) (sr_port r1) (sr_protocol r1) (healthy_backends eps) (snd st))
             else Some (Inr (), (sd1, snd st)))"

definition remove_service ::
  "'fw runner \<Rightarrow> string \<Rightarrow> service_discovery \<times> 'fw \<Rightarrow> (string, ip_addr, service_discovery \<times> 'fw) outcome option" where
  "remove_service ipt name st =
     (case hm_get (services (fst st)) name of
        None \<Rightarrow> Some (Inl (''service '' @ CHR 0x27 # name @ CHR 0x27 # '' not found''), st)
      | Some r \<Rightarrow>
          let sd1 = (fst st)\<lparr>services := hm_remove name (services (fst st)),
                             vip_to_service := hm_remove (cluster_ip r) (vip_to_service (fst st))\<rparr>
          in if iptables_available sd1
             then map_option (\<lambda>fw. (Inr (cluster_ip r), (sd1, fw))) (remove_dnat_rules ipt (cluster_ip r) (snd st))
             else Some (Inr (cluster_ip r), (sd1, snd st)))"

definition resolve :: "service_discovery \<Rightarrow> string \<Rightarrow> (ip_addr \<times> endpoint list) option" where
  "resolve sd name = map_option (\<lambda>r. (cluster_ip r, sr_endpoints r)) (hm_get (services sd) name)"

definition get_cluster_ip :: "service_discovery \<Rightarrow> string \<Rightarrow> ip_addr option" where
  "get_cluster_ip sd name = map_option cluster_ip (hm_get (services sd) name)"

definition get_selector :: "service_discovery \<Rightarrow> string \<Rightarrow> labels option" where
  "get_selector sd name = map_option sr_selector (hm_get (services sd) name)"

text \<open>An empty selector matches nothing.\<close>

definition matches_selector :: "labels \<Rightarrow> labels \<Rightarrow> bool" where
  "matches_selector lbls selector =
     (if selector = [] then False else list_all (\<lambda>(k, v). hm_get lbls k = Some v) selector)"

type_synonym workload = "string \<times> ip_addr \<times> u16 \<times> labels"

definition endpoints_for :: "labels \<Rightarrow> u16 \<Rightarrow> workload list \<Rightarrow> endpoint list" where
  "endpoints_for selector port ws =
     map (\<lambda>(cid, ip, p, l). \<lparr>ep_ip = ip, ep_port = port, ep_container_id = cid, ep_healthy = True\<rparr>)
       (filter (\<lambda>(cid, ip, p, l). matches_selector l selector) ws)"

fun refresh_names :: "'fw runner \<Rightarrow> workload list \<Rightarrow> string list \<Rightarrow> service_discovery \<times> 'fw \<Rightarrow> (service_discovery \<times> 'fw) option" where
  "refresh_names ipt ws [] st = Some st"
| "refresh_names ipt ws (name # names) st =
     (case hm_get (services (fst st)) name of
        None \<Rightarrow> None
      | Some r \<Rightarrow>
          (case update_endpoints ipt name (endpoints_for (sr_selector r) (sr_port r) ws) st of
             None \<Rightarrow> None
           | Some (_, st1) \<Rightarrow> refresh_names ipt ws names st1))"

text \<open>\<open>unwrap\<close> on a missing name would panic (\<^const>\<open>None\<close> too); the names are the map's own keys.\<close>

definition refresh_all_endpoints ::
  "'fw runner \<Rightarrow> workload list \<Rightarrow> service_discovery \<times> 'fw \<Rightarrow> (service_discovery \<times> 'fw) option" where
  "refresh_all_endpoints ipt ws st = refresh_names ipt ws (map fst (services (fst st))) st"

record service_info =
  si_name :: string
  si_cluster_ip :: ip_addr
  si_port :: u16
  si_protocol :: string
  endpoint_count :: nat
  healthy_count :: nat

definition list_services :: "service_discovery \<Rightarrow> service_info list" where
  "list_services sd = map (\<lambda>r. \<lparr>si_name = sr_name r, si_cluster_ip = cluster_ip r, si_port = sr_port r,
     si_protocol = sr_protocol r, endpoint_count = length (sr_endpoints r),
     healthy_count = length (filter ep_healthy (sr_endpoints r))\<rparr>) (hm_values (services sd))"

section \<open>Cluster addresses\<close>

lemma vip_of_octets:
  fixes n :: u32
  assumes "unat n < 65536"
  shows "unat (ucast (drop_bit 8 n) :: u8) = unat n div 256" and "unat (ucast (n AND 0xFF) :: u8) = unat n mod 256"
proof -
  show "unat (ucast (drop_bit 8 n) :: u8) = unat n div 256"
    using assms by (simp add: unat_cast unat_drop_bit_eq drop_bit_eq_div unat_div)
  have "n AND 0xFF = take_bit 8 n" by (simp add: take_bit_eq_mask mask_eq_exp_minus_1)
  then have "unat (n AND 0xFF) = unat n mod 256" by (simp add: take_bit_eq_mod unat_mod)
  then show "unat (ucast (n AND 0xFF) :: u8) = unat n mod 256" by (simp add: unat_cast)
qed

lemma vip_of_inj:
  assumes "unat n < 65536" and "unat n' < 65536" and "vip_of n = vip_of n'"
  shows "n = n'"
proof -
  have "unat n div 256 = unat n' div 256" "unat n mod 256 = unat n' mod 256"
    using assms(3) vip_of_octets [OF assms(1)] vip_of_octets [OF assms(2)] by (auto simp: vip_of_def)
  then have "unat n = unat n'" by (metis div_mult_mod_eq)
  then show ?thesis by (simp add: word_unat_eq_iff)
qed

definition sd_inv :: "service_discovery \<Rightarrow> bool" where
  "sd_inv sd \<longleftrightarrow>
     hm_wf (services sd) \<and> hm_wf (vip_to_service sd) \<and> unat (next_vip sd) \<le> 65534 \<and>
     (\<forall>name r. hm_get (services sd) name = Some r \<longrightarrow>
        sr_name r = name \<and> hm_get (vip_to_service sd) (cluster_ip r) = Some name) \<and>
     (\<forall>vip name. hm_get (vip_to_service sd) vip = Some name \<longrightarrow>
        (\<exists>r. hm_get (services sd) name = Some r \<and> cluster_ip r = vip) \<and>
        (\<exists>n. 0 < unat n \<and> unat n < unat (next_vip sd) \<and> vip = vip_of n))"

lemma register_service_inv:
  assumes "sd_inv sd" and "0 < unat (next_vip sd)"
  shows "sd_inv (snd (register_service name port protocol sel sd))"
    and "0 < unat (next_vip (snd (register_service name port protocol sel sd)))"
proof -
  let ?n = "next_vip sd"
  consider "hm_contains (services sd) name \<or> ?n \<ge> 65534" | "hm_get (services sd) name = None" "\<not> ?n \<ge> 65534"
    by (auto simp: hm_contains_def)
  then have "sd_inv (snd (register_service name port protocol sel sd)) \<and>
      0 < unat (next_vip (snd (register_service name port protocol sel sd)))"
  proof cases
    case 1
    then have "snd (register_service name port protocol sel sd) = sd"
      by (auto simp: register_service_def allocate_vip_def)
    then show ?thesis using assms by simp
  next
    case 2
    then have b: "unat ?n < 65534" by (simp add: word_le_nat_alt not_le)
    then have u: "unat (?n + 1) = unat ?n + 1" by (simp add: unat_add_exact)
    have fresh: "hm_get (vip_to_service sd) (vip_of ?n) = None"
    proof (cases "hm_get (vip_to_service sd) (vip_of ?n)")
      case (Some nm)
      then obtain n where "unat n < unat ?n" "vip_of ?n = vip_of n" using assms(1) unfolding sd_inv_def by blast
      then show ?thesis using vip_of_inj [of ?n n] b by simp
    qed
    have vip: "cluster_ip r \<noteq> vip_of ?n" if "hm_get (services sd) nm = Some r" for nm r
      using assms(1) that fresh unfolding sd_inv_def by force
    have s: "snd (register_service name port protocol sel sd) =
        sd\<lparr>next_vip := ?n + 1, vip_to_service := hm_insert (vip_of ?n) name (vip_to_service sd),
           services := hm_insert name \<lparr>sr_name = name, cluster_ip = vip_of ?n, sr_port = port, sr_protocol = protocol,
             sr_selector = sel, sr_endpoints = []\<rparr> (services sd)\<rparr>"
      using 2 by (simp add: register_service_def allocate_vip_def hm_contains_def)
    have old: "\<exists>n. 0 < unat n \<and> unat n < unat ?n + 1 \<and> v = vip_of n" if "hm_get (vip_to_service sd) v = Some nm" for v nm
      using assms(1) that unfolding sd_inv_def by (meson less_Suc_eq trans_less_add1)
    have "nm \<noteq> name" if "hm_get (vip_to_service sd) v = Some nm" for v nm
      using assms(1) that 2(1) unfolding sd_inv_def by force
    then show ?thesis using assms b u vip old fresh unfolding s sd_inv_def by (auto split: if_splits)
  qed
  then show "sd_inv (snd (register_service name port protocol sel sd))"
    and "0 < unat (next_vip (snd (register_service name port protocol sel sd)))" by blast+
qed

lemma update_endpoints_inv:
  assumes "sd_inv (fst st)" and "update_endpoints ipt name eps st = Some (res, st')"
  shows "sd_inv (fst st') \<and> next_vip (fst st') = next_vip (fst st) \<and>
    (\<forall>i. map_option (\<lambda>r. r\<lparr>sr_endpoints := []\<rparr>) (hm_get (services (fst st')) i) =
         map_option (\<lambda>r. r\<lparr>sr_endpoints := []\<rparr>) (hm_get (services (fst st)) i))"
proof (cases "hm_get (services (fst st)) name")
  case (Some r)
  then have "fst st' = (fst st)\<lparr>services := hm_insert name (r\<lparr>sr_endpoints := eps\<rparr>) (services (fst st))\<rparr>"
    using assms(2) by (auto simp: update_endpoints_def Let_def split: if_splits)
  moreover have "cluster_ip r = v" if "hm_get (vip_to_service (fst st)) v = Some name" for v
    using assms(1) Some that unfolding sd_inv_def by (metis option.inject)
  ultimately show ?thesis using assms(1) Some unfolding sd_inv_def by (auto split: if_splits)
qed (use assms in \<open>auto simp: update_endpoints_def\<close>)

lemma remove_service_inv:
  assumes "sd_inv (fst st)" and "remove_service ipt name st = Some (res, st')"
  shows "sd_inv (fst st') \<and> next_vip (fst st') = next_vip (fst st)"
proof (cases "hm_get (services (fst st)) name")
  case (Some r)
  then have e: "fst st' = (fst st)\<lparr>services := hm_remove name (services (fst st)),
      vip_to_service := hm_remove (cluster_ip r) (vip_to_service (fst st))\<rparr>"
    using assms(2) by (auto simp: remove_service_def Let_def split: if_splits)
  have "cluster_ip r' \<noteq> cluster_ip r" if "hm_get (services (fst st)) nm = Some r'" "nm \<noteq> name" for nm r'
    using assms(1) Some that unfolding sd_inv_def by (metis option.inject)
  moreover have "nm \<noteq> name" if "hm_get (vip_to_service (fst st)) v = Some nm" "v \<noteq> cluster_ip r" for v nm
    using assms(1) Some that unfolding sd_inv_def by (metis option.inject)
  ultimately show ?thesis using assms(1) unfolding sd_inv_def by (auto simp: e split: if_splits)
qed (use assms in \<open>auto simp: remove_service_def\<close>)

lemma refresh_names_inv:
  assumes "refresh_names ipt ws names st = Some st'" and "sd_inv (fst st)"
  shows "sd_inv (fst st') \<and> next_vip (fst st') = next_vip (fst st)"
  using assms
proof (induction names arbitrary: st)
  case (Cons n names)
  then obtain r res st1 where "hm_get (services (fst st)) n = Some r"
    and u: "update_endpoints ipt n (endpoints_for (sr_selector r) (sr_port r) ws) st = Some (res, st1)"
    and f: "refresh_names ipt ws names st1 = Some st'"
    by (auto split: option.splits)
  then show ?case using Cons.IH [OF f] update_endpoints_inv [OF Cons.prems(2) u] by simp
qed simp

datatype sd_op =
    Register string u16 string labels
  | Update string "endpoint list"
  | Unregister string
  | Refresh "workload list"

fun sd_step :: "'fw runner \<Rightarrow> service_discovery \<times> 'fw \<Rightarrow> sd_op \<Rightarrow> (service_discovery \<times> 'fw) option" where
  "sd_step ipt st (Register n p pr sel) = Some (snd (register_service n p pr sel (fst st)), snd st)"
| "sd_step ipt st (Update n eps) = map_option snd (update_endpoints ipt n eps st)"
| "sd_step ipt st (Unregister n) = map_option snd (remove_service ipt n st)"
| "sd_step ipt st (Refresh ws) = refresh_all_endpoints ipt ws st"

primrec sd_run :: "'fw runner \<Rightarrow> service_discovery \<times> 'fw \<Rightarrow> sd_op list \<Rightarrow> (service_discovery \<times> 'fw) option" where
  "sd_run ipt st [] = Some st"
| "sd_run ipt st (e # es) = (case sd_step ipt st e of None \<Rightarrow> None | Some st1 \<Rightarrow> sd_run ipt st1 es)"

lemma sd_step_inv:
  assumes "sd_step ipt st e = Some st'" and "sd_inv (fst st)" and "0 < unat (next_vip (fst st))"
  shows "sd_inv (fst st') \<and> 0 < unat (next_vip (fst st'))"
proof (cases e)
  case (Register n p pr sel)
  then show ?thesis using assms register_service_inv by auto
next
  case (Update n eps)
  then show ?thesis using assms update_endpoints_inv [of st ipt n eps] by fastforce
next
  case (Unregister n)
  then show ?thesis using assms remove_service_inv [of st ipt n] by fastforce
next
  case (Refresh ws)
  then show ?thesis using assms refresh_names_inv [of ipt ws] by (fastforce simp: refresh_all_endpoints_def)
qed

lemma sd_run_inv:
  "sd_run ipt st es = Some st' \<Longrightarrow> sd_inv (fst st) \<Longrightarrow> 0 < unat (next_vip (fst st)) \<Longrightarrow> sd_inv (fst st')"
  by (induction es arbitrary: st) (auto split: option.splits dest: sd_step_inv)

lemma sd_new_inv: "sd_inv (fst (sd_new ipt fw)) \<and> next_vip (fst (sd_new ipt fw)) = 1"
  by (simp add: sd_new_def sd_inv_def split: prod.split)

text \<open>
  \<^bold>\<open>Cluster addresses are unique and the reverse index is exact.\<close> After any sequence of registrations, endpoint
  updates, removals and refreshes that returns, whatever \<open>iptables\<close> does, the address of a service lies
  in 10.201.0.0/16 with an offset between 1 and 65533, the reverse index maps it back to that service, and no
  other service has it; every entry of the reverse index belongs to a registered service.
\<close>

theorem cluster_ips_unique:
  assumes "sd_run ipt (sd_new ipt fw) es = Some (sd, fw')"
  shows "(\<forall>name vip. get_cluster_ip sd name = Some vip \<longleftrightarrow> hm_get (vip_to_service sd) vip = Some name) \<and>
    (\<forall>name vip. get_cluster_ip sd name = Some vip \<longrightarrow>
       (\<exists>n. 0 < unat n \<and> unat n < 65534 \<and> vip = vip_of n) \<and>
       (\<forall>name'. get_cluster_ip sd name' = Some vip \<longrightarrow> name' = name))"
proof -
  have inv: "sd_inv sd" using sd_run_inv [OF assms] sd_new_inv [of ipt fw] by simp
  have iff: "get_cluster_ip sd name = Some vip \<longleftrightarrow> hm_get (vip_to_service sd) vip = Some name" for name vip
  proof
    assume "get_cluster_ip sd name = Some vip"
    then obtain r where "hm_get (services sd) name = Some r" "vip = cluster_ip r"
      by (cases "hm_get (services sd) name") (simp_all add: get_cluster_ip_def)
    then show "hm_get (vip_to_service sd) vip = Some name" using inv unfolding sd_inv_def by blast
  next
    assume "hm_get (vip_to_service sd) vip = Some name"
    then obtain r where "hm_get (services sd) name = Some r" "cluster_ip r = vip" using inv unfolding sd_inv_def by blast
    then show "get_cluster_ip sd name = Some vip" by (simp add: get_cluster_ip_def)
  qed
  have "\<exists>n. 0 < unat n \<and> unat n < 65534 \<and> vip = vip_of n" if "get_cluster_ip sd name = Some vip" for name vip
    using that inv unfolding iff sd_inv_def by (meson less_le_trans)
  then show ?thesis using iff by (metis option.inject)
qed

definition demo_services :: "sd_op list" where
  "demo_services = [Register ''web'' 80 ''tcp'' [], Register ''db'' 5432 ''tcp'' [], Unregister ''web'',
     Register ''api'' 80 ''tcp'' []]"

text \<open>A firewall that cannot be run.\<close>

definition no_ipt :: "unit runner" where
  "no_ipt args fw = (None, fw)"

theorem cluster_ips_unique_witness:
  "\<exists>sd fw'. sd_run no_ipt (sd_new no_ipt ()) demo_services = Some (sd, fw') \<and>
     get_cluster_ip sd ''api'' = Some (V4 10 201 0 3) \<and> hm_get (vip_to_service sd) (V4 10 201 0 3) = Some ''api''"
proof -
  have e: "map_option (\<lambda>(sd, fw). get_cluster_ip sd ''api'') (sd_run no_ipt (sd_new no_ipt ()) demo_services) =
      Some (Some (V4 10 201 0 3))"
    by code_simp
  then obtain sd fw' where r: "sd_run no_ipt (sd_new no_ipt ()) demo_services = Some (sd, fw')"
    and "get_cluster_ip sd ''api'' = Some (V4 10 201 0 3)"
    by auto
  then show ?thesis using cluster_ips_unique [OF r] by blast
qed

section \<open>Destination NAT\<close>

lemma removeAll_remove1: "removeAll x (remove1 x xs) = removeAll x xs"
  by (induction xs) simp_all

context iptables_chain
begin

text \<open>The loop ends, and removes the rules that consist of the address only.\<close>

lemma remove_loop:
  assumes "table = [''-t'', ''nat'']" and "chain = IPTABLES_CHAIN"
  shows "\<exists>fw'. remove_dnat_rules ipt vip fw = Some fw' \<and>
    rules fw' = removeAll [''-d'', show_ipv4 vip @ ''/32''] (rules fw)"
proof (induction "count_list (rules fw) [''-d'', show_ipv4 vip @ ''/32'']" arbitrary: fw rule: less_induct)
  case less
  let ?s = "[''-d'', show_ipv4 vip @ ''/32'']"
  let ?r = "ipt [''-t'', ''nat'', ''-D'', IPTABLES_CHAIN, ''-d'', show_ipv4 vip @ ''/32''] fw"
  show ?case
  proof (cases "?s \<in> set (rules fw)")
    case True
    have d: "succeeded (fst ?r)" "rules (snd ?r) = remove1 ?s (rules fw)"
      using delete_rule [OF True] assms by simp_all
    have "count_list (remove1 ?s (rules fw)) ?s < count_list (rules fw) ?s"
      using True count_list_0_iff [of "rules fw" ?s] by simp
    then obtain fw' where "remove_dnat_rules ipt vip (snd ?r) = Some fw'" "rules fw' = removeAll ?s (remove1 ?s (rules fw))"
      using less [of "snd ?r"] d(2) by auto
    then show ?thesis using d by (subst remove_dnat_rules.simps) (simp add: Let_def removeAll_remove1)
  next
    case False
    then have "\<not> succeeded (fst ?r)" "rules (snd ?r) = rules fw"
      using delete_missing [OF False] assms by simp_all
    then show ?thesis using False by (subst remove_dnat_rules.simps) (simp add: Let_def removeAll_id)
  qed
qed

lemma update_endpoints_rules:
  assumes "table = [''-t'', ''nat'']" and "chain = IPTABLES_CHAIN"
    and svc: "hm_get (services sd) name = Some r" "iptables_available sd"
    and acc: "list_all accepted (map (\<lambda>(i, b). dnat_spec (cluster_ip r) (sr_port r) (sr_protocol r)
        (length (healthy_backends eps)) i b) (enumerate 0 (healthy_backends eps)))"
  shows "\<exists>sd' fw'. update_endpoints ipt name eps (sd, fw) = Some (Inr (), (sd', fw')) \<and>
    hm_get (services sd') name = Some (r\<lparr>sr_endpoints := eps\<rparr>) \<and>
    rules fw' = removeAll [''-d'', show_ipv4 (cluster_ip r) @ ''/32''] (rules fw) @
      map (\<lambda>(i, b). dnat_spec (cluster_ip r) (sr_port r) (sr_protocol r) (length (healthy_backends eps)) i b)
        (enumerate 0 (healthy_backends eps))"
proof -
  obtain fw1 where fw1: "remove_dnat_rules ipt (cluster_ip r) fw = Some fw1"
    "rules fw1 = removeAll [''-d'', show_ipv4 (cluster_ip r) @ ''/32''] (rules fw)"
    using remove_loop [OF assms(1,2)] by blast
  have g: "generate_dnat_rule_args v p pr bs =
      map (\<lambda>s. table @ [''-A'', chain] @ s) (map (\<lambda>(i, b). dnat_spec v p pr (length bs) i b) (enumerate 0 bs))" for v p pr bs
    unfolding generate_dnat_rule_args_def assms(1,2) by (simp add: case_prod_unfold)
  show ?thesis using svc fw1 append_rules [OF acc, of fw1]
    by (auto simp: update_endpoints_def Let_def apply_dnat_rules_def g simp del: map_map)
qed

end

text \<open>
  \<^bold>\<open>What an endpoint update does to the NAT chain.\<close> Against any \<open>iptables\<close> that appends and deletes rules as
  documented, \<open>update_endpoints\<close> returns (its removal loop ends), records the endpoints, and appends one rule per
  healthy backend, in order. Of the rules that were there before it removes only those whose whole specification is the
  cluster address: \<open>iptables -D\<close> deletes the rule it is given exactly, and every rule that this module adds
  says more than the address. So the rules of earlier updates all stay, ahead of the new ones.
\<close>

theorem update_keeps_old_rules:
  assumes chain: "iptables_chain ipt [''-t'', ''nat''] IPTABLES_CHAIN rules accepted"
    and svc: "hm_get (services sd) name = Some r" "iptables_available sd"
    and acc: "\<And>i b. accepted (dnat_spec (cluster_ip r) (sr_port r) (sr_protocol r) (length (healthy_backends eps)) i b)"
  shows "\<exists>sd' fw'. update_endpoints ipt name eps (sd, fw) = Some (Inr (), (sd', fw')) \<and>
    resolve sd' name = Some (cluster_ip r, eps) \<and>
    rules fw' = filter (\<lambda>s. s \<noteq> [''-d'', show_ipv4 (cluster_ip r) @ ''/32'']) (rules fw) @
      map (\<lambda>(i, b). dnat_spec (cluster_ip r) (sr_port r) (sr_protocol r) (length (healthy_backends eps)) i b)
        (enumerate 0 (healthy_backends eps)) \<and>
    (\<forall>vip port protocol n i b. dnat_spec vip port protocol n i b \<in> set (rules fw) \<longrightarrow>
       dnat_spec vip port protocol n i b \<in> set (rules fw'))"
proof -
  have l: "dnat_spec vip port protocol n i b \<noteq> [''-d'', t]" for vip port protocol n i b t
    by (simp add: dnat_spec_def)
  let ?new = "map (\<lambda>(i, b). dnat_spec (cluster_ip r) (sr_port r) (sr_protocol r) (length (healthy_backends eps)) i b)
      (enumerate 0 (healthy_backends eps))"
  have "list_all accepted ?new" using acc by (auto simp: list_all_iff)
  then obtain sd' fw' where u: "update_endpoints ipt name eps (sd, fw) = Some (Inr (), (sd', fw'))"
    and g: "hm_get (services sd') name = Some (r\<lparr>sr_endpoints := eps\<rparr>)"
    and f: "rules fw' = removeAll [''-d'', show_ipv4 (cluster_ip r) @ ''/32''] (rules fw) @ ?new"
    using iptables_chain.update_endpoints_rules [OF chain refl refl svc, of eps fw] by blast
  have "resolve sd' name = Some (cluster_ip r, eps)" using g by (simp add: resolve_def)
  moreover have "removeAll x xs = filter (\<lambda>s. s \<noteq> x) xs" for x :: "string list" and xs
    by (induction xs) auto
  ultimately show ?thesis using u f l by (intro exI conjI) auto
qed

theorem update_keeps_old_rules_witness:
  "let sd = \<lparr>services = [(''web'', \<lparr>sr_name = ''web'', cluster_ip = V4 10 201 0 1, sr_port = 80, sr_protocol = ''tcp'',
              sr_selector = [], sr_endpoints = []\<rparr>)],
            vip_to_service = [(V4 10 201 0 1, ''web'')], next_vip = 2, iptables_available = True\<rparr>;
       old = dnat_spec (V4 10 201 0 1) 80 ''tcp'' 1 0 (V4 10 200 0 2, 80)
   in \<exists>sd' fw'. update_endpoints (list_ipt [''-t'', ''nat''] IPTABLES_CHAIN) ''web'' [] (sd, [old]) = Some (Inr (), (sd', fw')) \<and>
        resolve sd' ''web'' = Some (V4 10 201 0 1, []) \<and> fw' = [old]"
proof -
  let ?r = "\<lparr>sr_name = ''web'', cluster_ip = V4 10 201 0 1, sr_port = 80, sr_protocol = ''tcp'',
              sr_selector = [], sr_endpoints = []\<rparr>"
  let ?sd = "\<lparr>services = [(''web'', ?r)], vip_to_service = [(V4 10 201 0 1, ''web'')], next_vip = 2, iptables_available = True\<rparr>"
  let ?old = "dnat_spec (V4 10 201 0 1) 80 ''tcp'' 1 0 (V4 10 200 0 2, 80)"
  have "?old \<noteq> [''-d'', t]" for t by (simp add: dnat_spec_def)
  then show ?thesis
    using update_keeps_old_rules [OF list_chain.iptables_chain_axioms, of ?sd "''web''" ?r "[]" "[?old]"]
    by (simp add: Let_def healthy_backends_def)
qed

section \<open>Sharing the traffic\<close>

text \<open>
  Which rule of a chain takes the \<open>k\<close>-th packet that reaches it. \<open>fires e p k\<close> says whether a rule with
  \<open>--every e --packet p\<close> matches the \<open>k\<close>-th packet it sees; a rule without the module takes every packet; a packet that a
  rule does not take goes on to the next.
\<close>

fun dispatch :: "(nat \<Rightarrow> nat \<Rightarrow> nat \<Rightarrow> bool) \<Rightarrow> nat option list \<Rightarrow> nat \<Rightarrow> nat option" where
  "dispatch fires [] k = None"
| "dispatch fires (None # es) k = Some 0"
| "dispatch fires (Some e # es) k =
     (if fires e 0 k then Some 0
      else map_option Suc (dispatch fires es (length (filter (\<lambda>j. \<not> fires e 0 j) [0..<k]))))"

lemma ceiling_div:
  assumes "0 < (e :: nat)"
  shows "(k + e - 1) div e = (if k mod e = 0 then k div e else k div e + 1)"
proof (cases "k mod e = 0")
  case True
  have "k + e - 1 = k div e * e + (e - 1)" using True assms div_mult_mod_eq [of k e] by simp
  then have "(k + e - 1) div e = k div e + (e - 1) div e" using assms by (metis div_mult_self3 add.commute less_numeral_extra(3))
  then show ?thesis using True assms by simp
next
  case False
  have "k + e - 1 = (k mod e - 1) + (k div e + 1) * e"
    using False div_mult_mod_eq [of k e] add_mult_distrib [of "k div e" 1 e] by linarith
  moreover have "k mod e - 1 < e" using assms mod_less_divisor [of e k] by linarith
  moreover have "(x + y * e) div e = y" if "x < e" for x y using that by simp
  ultimately have "(k + e - 1) div e = k div e + 1" by (simp only:)
  then show ?thesis using False by simp
qed

lemma count_not_multiple:
  assumes "0 < (e :: nat)"
  shows "length (filter (\<lambda>j. j mod e \<noteq> 0) [0..<k]) + (k + e - 1) div e = k"
proof (induction k)
  case (Suc k)
  have "(Suc k + e - 1) div e = k div e + 1" using assms by (simp add: div_add_self2)
  then show ?case using Suc ceiling_div [OF assms, of k] by (auto split: if_splits)
qed (use assms in simp)

lemma dispatch_descending:
  assumes "\<And>e k. 0 < e \<Longrightarrow> fires e 0 k \<longleftrightarrow> k mod e = 0" and "0 < m"
  shows "dispatch fires (map (\<lambda>i. Some (m - i)) [0..<m]) k = Some (k mod m)"
  using assms(2)
proof (induction m arbitrary: k)
  case (Suc m)
  have u: "map (\<lambda>i. Some (Suc m - i)) [0..<Suc m] = Some (Suc m) # map (\<lambda>i. Some (m - i)) [0..<m]"
    by (simp add: upt_conv_Cons map_Suc_upt [symmetric] del: upt_Suc)
  show ?case
  proof (cases "k mod Suc m = 0")
    case True
    then show ?thesis unfolding u using assms(1) [of "Suc m" k] by simp
  next
    case False
    let ?q = "k div Suc m" and ?r = "k mod Suc m"
    have "length (filter (\<lambda>j. \<not> fires (Suc m) 0 j) [0..<k]) = length (filter (\<lambda>j. j mod Suc m \<noteq> 0) [0..<k])"
      using assms(1) [of "Suc m"] by simp
    moreover have "length (filter (\<lambda>j. j mod Suc m \<noteq> 0) [0..<k]) + (?q + 1) = k"
      using count_not_multiple [of "Suc m" k] ceiling_div [of "Suc m" k] False by simp
    moreover have "k = ?q * m + ?q + ?r" using div_mult_mod_eq [of k "Suc m"] by simp
    ultimately have l: "length (filter (\<lambda>j. \<not> fires (Suc m) 0 j) [0..<k]) = ?q * m + (?r - 1)"
      using False by linarith
    have r: "?r - 1 < m" "Suc (?r - 1) = ?r" using False mod_less_divisor [of "Suc m" k] by linarith+
    have "(?q * m + x) mod m = x" if "x < m" for x using that by simp
    from this [OF r(1)] have "dispatch fires (map (\<lambda>i. Some (m - i)) [0..<m]) (?q * m + (?r - 1)) = Some (?r - 1)"
      using Suc.IH [of "?q * m + (?r - 1)"] r(1) by (metis less_zeroE gr0I)
    then show ?thesis unfolding u using assms(1) [of "Suc m" k] False l r(2) by simp
  qed
qed simp

text \<open>
  \<^bold>\<open>The rules of a service share its traffic in turn.\<close> With the documented behaviour of the \<open>nth\<close> mode (a rule with
  \<open>--every e --packet 0\<close> matches the packets number 0, e, 2e, ... of those that reach it), the
  \<open>k\<close>-th packet to a cluster address with \<open>n\<close> backends goes to backend \<open>k mod n\<close>: the decreasing
  divisors \<open>n\<close>, \<open>n - 1\<close>, ..., 1 give an exact round robin.
\<close>

theorem dnat_round_robin:
  assumes "\<And>e k. 0 < e \<Longrightarrow> fires e 0 k \<longleftrightarrow> k mod e = 0" and "0 < n"
  shows "dispatch fires (map (dnat_every n) [0..<n]) k = Some (k mod n)"
proof (cases "n = 1")
  case True
  then show ?thesis by (simp add: dnat_every_def)
next
  case False
  then have "map (dnat_every n) [0..<n] = map (\<lambda>i. Some (n - i)) [0..<n]" using assms(2) by (simp add: dnat_every_def)
  then show ?thesis using dispatch_descending [of fires n k] assms by (simp only:)
qed

theorem dnat_round_robin_witness:
  "dispatch (\<lambda>e p k. k mod e = p) (map (dnat_every 3) [0..<3]) 7 = Some 1"
  using dnat_round_robin [of "\<lambda>e p k. k mod e = p" 3 7] by simp

end
