(* ===== verification/Net_Policy.thy ===== *)
theory Net_Policy
  imports Service_Discovery
begin

text \<open>
  Network policies of a node, \<open>crates/clawnode/src/netpolicy.rs\<close>: compilation of JSON rules, the commands that
  enforce a policy in the \<open>CLAW-NETPOL\<close> chain, and the removal of a policy's rules by their comment. The accessors of
  JSON values and the execution of \<open>iptables\<close> are parameters.
\<close>

section \<open>Compilation\<close>

record 'j json_ops =
  json_get :: "'j \<Rightarrow> string \<Rightarrow> 'j option"
  json_u64 :: "'j \<Rightarrow> u64 option"
  json_str :: "'j \<Rightarrow> string option"
  json_labels :: "'j \<Rightarrow> labels option"

record compiled_rule =
  from_selector :: "labels option"
  rule_port :: "u16 option"
  rule_protocol :: "string option"
  rule_cidr :: "string option"

record compiled_policy =
  cp_name :: string
  cp_selector :: labels
  ingress_rules :: "compiled_rule list"
  egress_rules :: "compiled_rule list"
  has_ingress :: bool
  has_egress :: bool

text \<open>\<open>p as u16\<close> truncates.\<close>

definition compile_rule :: "'j json_ops \<Rightarrow> 'j \<Rightarrow> string + compiled_rule" where
  "compile_rule J rule = Inr
     \<lparr>from_selector = Option.bind (json_get J rule ''from'') (\<lambda>f. Option.bind (json_get J f ''selector'') (json_labels J)),
      rule_port = map_option (\<lambda>p. ucast p) (Option.bind (json_get J rule ''port'') (json_u64 J)),
      rule_protocol = Option.bind (json_get J rule ''protocol'') (json_str J),
      rule_cidr = Option.bind (json_get J rule ''from'') (\<lambda>f. Option.bind (json_get J f ''cidr'') (json_str J))\<rparr>"

text \<open>\<open>filter_map(|r| compile_rule(r).ok())\<close>.\<close>

fun compiled_ok :: "(string + compiled_rule) list \<Rightarrow> compiled_rule list" where
  "compiled_ok [] = []"
| "compiled_ok (Inl e # rs) = compiled_ok rs"
| "compiled_ok (Inr r # rs) = r # compiled_ok rs"

definition compile_policy :: "'j json_ops \<Rightarrow> string \<Rightarrow> labels \<Rightarrow> 'j list \<Rightarrow> 'j list \<Rightarrow> string + compiled_policy" where
  "compile_policy J name selector ingress egress = Inr
     \<lparr>cp_name = name, cp_selector = selector, ingress_rules = compiled_ok (map (compile_rule J) ingress),
      egress_rules = compiled_ok (map (compile_rule J) egress), has_ingress = True,
      has_egress = (egress \<noteq> [] \<or> egress = [])\<rparr>"

section \<open>The commands of a policy\<close>

definition POLICY_CHAIN :: string where "POLICY_CHAIN = ''CLAW-NETPOL''"

definition find_matching_ips :: "(ip_addr \<times> labels) list \<Rightarrow> labels \<Rightarrow> ip_addr list" where
  "find_matching_ips workload_ips selector =
     (if selector = [] then []
      else map fst (filter (\<lambda>(ip, l). list_all (\<lambda>(k, v). hm_get l k = Some v) selector) workload_ips))"

definition host32 :: "ip_addr \<Rightarrow> string" where
  "host32 ip = show_ipv4 ip @ ''/32''"

definition tag :: "string \<Rightarrow> string" where
  "tag name = ''claw-policy:'' @ name"

definition verdict_args :: "string \<Rightarrow> string \<Rightarrow> string list" where
  "verdict_args comment target = [''-m'', ''comment'', ''--comment'', comment, ''-j'', target]"

definition port_args :: "compiled_rule \<Rightarrow> string list" where
  "port_args r = (case rule_port r of
       Some p \<Rightarrow> [''-p'', (case rule_protocol r of Some t \<Rightarrow> t | None \<Rightarrow> ''tcp''), ''--dport'', show_nat (unat p)]
     | None \<Rightarrow> [])"

text \<open>The specifications that one ingress rule adds for one target.\<close>

definition ingress_specs :: "string \<Rightarrow> (ip_addr \<times> labels) list \<Rightarrow> ip_addr \<Rightarrow> compiled_rule \<Rightarrow> string list list" where
  "ingress_specs name all_workloads ip r =
     (case rule_cidr r of
        Some cidr \<Rightarrow> [[''-d'', host32 ip] @ [''-s'', cidr] @ port_args r @ verdict_args (tag name) ''ACCEPT'']
      | None \<Rightarrow>
          (case from_selector r of
             Some sel \<Rightarrow> map (\<lambda>src. [''-d'', host32 ip] @ [''-s'', host32 src] @ port_args r @ verdict_args (tag name) ''ACCEPT'')
                           (find_matching_ips all_workloads sel)
           | None \<Rightarrow> [[''-d'', host32 ip] @ port_args r @ verdict_args (tag name) ''ACCEPT'']))"

definition target_specs :: "compiled_policy \<Rightarrow> (ip_addr \<times> labels) list \<Rightarrow> ip_addr \<Rightarrow> string list list" where
  "target_specs p all_workloads ip =
     (if has_ingress p
      then (if ingress_rules p = [] then [[''-d'', host32 ip] @ verdict_args (tag (cp_name p)) ''DROP'']
            else concat (map (ingress_specs (cp_name p) all_workloads ip) (ingress_rules p)) @
                 [[''-d'', host32 ip] @ verdict_args (tag (cp_name p) @ '':default-deny'') ''DROP''])
      else []) @
     (if has_egress p \<and> egress_rules p = []
      then [[''-s'', host32 ip] @ verdict_args (tag (cp_name p)) ''DROP''] else [])"

definition policy_specs :: "compiled_policy \<Rightarrow> ip_addr list \<Rightarrow> (ip_addr \<times> labels) list \<Rightarrow> string list list" where
  "policy_specs p target_ips all_workloads = concat (map (target_specs p all_workloads) target_ips)"

definition apply_policy_rules ::
  "'fw runner \<Rightarrow> compiled_policy \<Rightarrow> ip_addr list \<Rightarrow> (ip_addr \<times> labels) list \<Rightarrow> 'fw \<Rightarrow> 'fw" where
  "apply_policy_rules ipt p target_ips all_workloads fw =
     (if target_ips = [] then fw
      else run_all ipt (map (\<lambda>s. [''-A'', POLICY_CHAIN] @ s) (policy_specs p target_ips all_workloads)) fw)"

section \<open>Removal by comment\<close>

text \<open>The first item of \<open>split_whitespace\<close>.\<close>

definition first_word :: "string \<Rightarrow> string option" where
  "first_word s = (case takeWhile (\<lambda>c. \<not> is_space c) (dropWhile is_space s) of [] \<Rightarrow> None | w \<Rightarrow> Some w)"

definition parse_u32 :: "string \<Rightarrow> u32 option" where
  "parse_u32 s = (case parse_u64 s of Some x \<Rightarrow> if unat x < 2 ^ 32 then Some (ucast x) else None | None \<Rightarrow> None)"

definition find_rule_number :: "string \<Rightarrow> string \<Rightarrow> u32 option" where
  "find_rule_number comment out =
     Option.bind (find (\<lambda>line. contains_text line comment) (text_lines out)) (\<lambda>line. Option.bind (first_word line) parse_u32)"

partial_function (option) remove_policy_rules :: "'fw runner \<Rightarrow> string \<Rightarrow> 'fw \<Rightarrow> 'fw option" where
  "remove_policy_rules ipt name fw =
     (let r = ipt [''-L'', POLICY_CHAIN, ''--line-numbers'', ''-n''] fw
      in case fst r of
           None \<Rightarrow> Some (snd r)
         | Some out \<Rightarrow>
             if cmd_success out
             then (case find_rule_number (tag name) (cmd_stdout out) of
                     Some num \<Rightarrow> remove_policy_rules ipt name (snd (ipt [''-D'', POLICY_CHAIN, show_nat (unat num)] (snd r)))
                   | None \<Rightarrow> Some (snd r))
             else Some (snd r))"

section \<open>The engine\<close>

record policy_engine =
  policies :: "compiled_policy list"
  pe_iptables_available :: bool

definition setup_policy_chain :: "'fw runner \<Rightarrow> 'fw \<Rightarrow> bool \<times> 'fw" where
  "setup_policy_chain ipt fw =
     (case ipt [''-N'', POLICY_CHAIN] fw of
        (None, fw1) \<Rightarrow> (False, fw1)
      | (Some out, fw1) \<Rightarrow>
          if cmd_success out \<or> contains_text (cmd_stderr out) ''Chain already exists''
          then (True, case ipt [''-C'', ''FORWARD'', ''-j'', POLICY_CHAIN] fw1 of
                        (None, fw2) \<Rightarrow> fw2
                      | (Some o2, fw2) \<Rightarrow>
                          if \<not> cmd_success o2 then snd (ipt [''-I'', ''FORWARD'', ''-j'', POLICY_CHAIN] fw2) else fw2)
          else (False, fw1))"

definition engine_new :: "'fw runner \<Rightarrow> 'fw \<Rightarrow> policy_engine \<times> 'fw" where
  "engine_new ipt fw = (let (ok, fw1) = setup_policy_chain ipt fw in (\<lparr>policies = [], pe_iptables_available = ok\<rparr>, fw1))"

definition add_policy ::
  "'j json_ops \<Rightarrow> 'fw runner \<Rightarrow> string \<Rightarrow> labels \<Rightarrow> 'j list \<Rightarrow> 'j list \<Rightarrow> (ip_addr \<times> labels) list
   \<Rightarrow> policy_engine \<times> 'fw \<Rightarrow> (string, unit, policy_engine \<times> 'fw) outcome" where
  "add_policy J ipt name selector ingress egress workload_ips st =
     (if list_ex (\<lambda>p. cp_name p = name) (policies (fst st))
      then (Inl (''policy '' @ CHR 0x27 # name @ CHR 0x27 # '' already exists''), st)
      else case compile_policy J name selector ingress egress of
        Inl e \<Rightarrow> (Inl e, st)
      | Inr compiled \<Rightarrow>
          let fw1 = (if pe_iptables_available (fst st)
                     then apply_policy_rules ipt compiled (find_matching_ips workload_ips (cp_selector compiled)) workload_ips (snd st)
                     else snd st)
          in (Inr (), ((fst st)\<lparr>policies := policies (fst st) @ [compiled]\<rparr>, fw1)))"

text \<open>\<open>position\<close> and \<open>remove\<close>: the first policy with the name.\<close>

fun remove_named :: "string \<Rightarrow> compiled_policy list \<Rightarrow> compiled_policy list option" where
  "remove_named name [] = None"
| "remove_named name (p # ps) = (if cp_name p = name then Some ps else map_option (Cons p) (remove_named name ps))"

definition remove_policy ::
  "'fw runner \<Rightarrow> string \<Rightarrow> policy_engine \<times> 'fw \<Rightarrow> (string, unit, policy_engine \<times> 'fw) outcome option" where
  "remove_policy ipt name st =
     (case remove_named name (policies (fst st)) of
        None \<Rightarrow> Some (Inl (''policy '' @ CHR 0x27 # name @ CHR 0x27 # '' not found''), st)
      | Some ps \<Rightarrow>
          let pe1 = (fst st)\<lparr>policies := ps\<rparr>
          in if pe_iptables_available pe1
             then map_option (\<lambda>fw. (Inr (), (pe1, fw))) (remove_policy_rules ipt name (snd st))
             else Some (Inr (), (pe1, snd st)))"

definition refresh_all :: "'fw runner \<Rightarrow> (ip_addr \<times> labels) list \<Rightarrow> policy_engine \<times> 'fw \<Rightarrow> policy_engine \<times> 'fw" where
  "refresh_all ipt workload_ips st =
     (if \<not> pe_iptables_available (fst st) then st
      else (fst st, fold (\<lambda>p. apply_policy_rules ipt p (find_matching_ips workload_ips (cp_selector p)) workload_ips)
                      (policies (fst st)) (snd (ipt [''-F'', POLICY_CHAIN] (snd st)))))"

definition get_policy :: "policy_engine \<Rightarrow> string \<Rightarrow> compiled_policy option" where
  "get_policy pe name = find (\<lambda>p. cp_name p = name) (policies pe)"

record policy_info =
  pi_name :: string
  pi_selector :: labels
  pi_ingress_rule_count :: nat
  pi_egress_rule_count :: nat
  pi_has_ingress :: bool
  pi_has_egress :: bool

definition list_policies :: "policy_engine \<Rightarrow> policy_info list" where
  "list_policies pe =
     map (\<lambda>p. \<lparr>pi_name = cp_name p, pi_selector = cp_selector p, pi_ingress_rule_count = length (ingress_rules p),
       pi_egress_rule_count = length (egress_rules p), pi_has_ingress = has_ingress p, pi_has_egress = has_egress p\<rparr>) (policies pe)"

definition policy_count :: "policy_engine \<Rightarrow> nat" where
  "policy_count pe = length (policies pe)"

section \<open>What removal removes\<close>

text \<open>
  The documented behaviour of listing and of deleting by number: the listing shows header lines, then
  each rule with its number from 1, and \<open>-D\<close> with a number deletes that rule.
\<close>

locale iptables_listing =
  fixes ipt :: "'fw runner"
    and rules :: "'fw \<Rightarrow> string list list"
    and header :: "'fw \<Rightarrow> string list"
    and render :: "string list \<Rightarrow> string"
  assumes listing: "\<exists>out. fst (ipt [''-L'', POLICY_CHAIN, ''--line-numbers'', ''-n''] fw) = Some out \<and> cmd_success out \<and>
      text_lines (cmd_stdout out) =
        header fw @ map (\<lambda>(n, s). show_nat (n + 1) @ CHR '' '' # render s) (enumerate 0 (rules fw))"
    and listing_keeps: "rules (snd (ipt [''-L'', POLICY_CHAIN, ''--line-numbers'', ''-n''] fw)) = rules fw"
    and delete_number: "k < length (rules fw) \<Longrightarrow>
      rules (snd (ipt [''-D'', POLICY_CHAIN, show_nat (k + 1)] fw)) = take k (rules fw) @ drop (Suc k) (rules fw)"
    and header_plain: "line \<in> set (header fw) \<Longrightarrow> \<not> contains_text line (tag name)"

lemma contains_skip:
  assumes "\<forall>c \<in> set xs. is_digit c \<or> c = CHR '' ''"
  shows "contains_text (xs @ r) (tag name) \<longleftrightarrow> contains_text r (tag name)"
  using assms
proof (induction xs)
  case (Cons x xs)
  then have "x \<noteq> CHR ''c''" by (auto simp: is_digit_def)
  then have "take (length (tag name)) (x # xs @ r) \<noteq> tag name" by (simp add: tag_def)
  then show ?case using Cons by simp
qed simp

lemma number_line: "contains_text (show_nat n @ CHR '' '' # r) (tag name) \<longleftrightarrow> contains_text r (tag name)"
  using contains_skip [of "show_nat n @ '' ''" r name] show_nat_digits [of n] by (auto simp: list_all_iff)

lemma first_word_number: "first_word (show_nat n @ CHR '' '' # r) = Some (show_nat n)"
proof -
  have d: "\<forall>c \<in> set (show_nat n). \<not> is_space c" using show_nat_digits [of n] digit_not_space by (auto simp: list_all_iff)
  obtain c cs where c: "show_nat n = c # cs" by (cases "show_nat n") simp_all
  have "dropWhile is_space (show_nat n @ CHR '' '' # r) = show_nat n @ CHR '' '' # r" using d by (simp add: c)
  moreover have "takeWhile (\<lambda>c. \<not> is_space c) (show_nat n @ CHR '' '' # r) = show_nat n"
    using d by (simp add: takeWhile_append2 is_space_def)
  ultimately show ?thesis by (simp add: first_word_def c)
qed

lemma parse_u32_number:
  assumes "n < 2 ^ 32"
  shows "parse_u32 (show_nat n) = Some (of_nat n)" and "unat (of_nat n :: u32) = n"
proof -
  show v: "unat (of_nat n :: u32) = n" using assms by (simp add: unat_of_nat)
  have u: "unat (of_nat n :: u64) = n" using assms by (simp add: unat_of_nat)
  have "parse_u64 (show_nat (unat (of_nat n :: u64))) = Some (of_nat n)" by (rule parse_show_u64)
  then have "parse_u64 (show_nat n) = Some (of_nat n)" unfolding u .
  moreover have "(ucast (of_nat n :: u64) :: u32) = of_nat n"
    unfolding word_unat_eq_iff v using assms by (simp only: unat_cast u) simp
  ultimately show "parse_u32 (show_nat n) = Some (of_nat n)" using assms u by (simp add: parse_u32_def)
qed

lemma find_first:
  assumes "\<not> P (xs ! k) \<longrightarrow> False" and "k < length xs" and "\<And>j. j < k \<Longrightarrow> \<not> P (xs ! j)"
  shows "find P xs = Some (xs ! k)"
  using assms by (auto simp: find_Some_iff)

lemma find_skip: "\<forall>x \<in> set xs. \<not> P x \<Longrightarrow> find P (xs @ ys) = find P ys"
  by (induction xs) simp_all

lemma find_front: "find P xs \<noteq> None \<Longrightarrow> find P (xs @ ys) = find P xs"
  by (induction xs) auto

lemma find_member: "find P xs = Some x \<Longrightarrow> x \<in> set xs"
  by (induction xs) (auto split: if_splits)

context iptables_listing
begin

lemma removal_step:
  assumes "length (rules fw) < 2 ^ 32 - 1"
    and k: "k < length (rules fw)" "contains_text (render (rules fw ! k)) (tag name)"
    and first: "\<And>j. j < k \<Longrightarrow> \<not> contains_text (render (rules fw ! j)) (tag name)"
  obtains fw1 where "rules fw1 = take k (rules fw) @ drop (Suc k) (rules fw)"
    and "remove_policy_rules ipt name fw = remove_policy_rules ipt name fw1"
proof -
  let ?r = "ipt [''-L'', POLICY_CHAIN, ''--line-numbers'', ''-n''] fw"
  define ls where "ls = map (\<lambda>(n, s). show_nat (n + 1) @ CHR '' '' # render s) (enumerate 0 (rules fw))"
  obtain out where out: "fst ?r = Some out" "cmd_success out" "text_lines (cmd_stdout out) = header fw @ ls"
    using listing unfolding ls_def by blast
  have len: "length ls = length (rules fw)"
    and nth: "\<And>j. j < length (rules fw) \<Longrightarrow> ls ! j = show_nat (j + 1) @ CHR '' '' # render (rules fw ! j)"
    by (simp_all add: ls_def nth_enumerate_eq)
  have "find (\<lambda>l. contains_text l (tag name)) ls = Some (ls ! k)"
    using k first by (intro find_first) (simp_all add: nth number_line len)
  then have "find (\<lambda>l. contains_text l (tag name)) (header fw @ ls) = Some (ls ! k)"
    using header_plain by (subst find_skip) blast+
  then have f: "find_rule_number (tag name) (cmd_stdout out) = Some (of_nat (k + 1))"
    using k(1) assms(1) parse_u32_number [of "k + 1"]
    by (simp add: find_rule_number_def out(3) nth first_word_number)
  let ?d = "ipt [''-D'', POLICY_CHAIN, show_nat (unat (of_nat (k + 1) :: u32))] (snd ?r)"
  have u: "unat (of_nat (k + 1) :: u32) = k + 1" using k(1) assms(1) by (intro parse_u32_number(2)) simp
  have "rules (snd ?d) = take k (rules fw) @ drop (Suc k) (rules fw)"
    unfolding u using delete_number [of k "snd ?r"] k(1) by (simp add: listing_keeps)
  moreover have "remove_policy_rules ipt name fw = remove_policy_rules ipt name (snd ?d)"
    by (subst remove_policy_rules.simps) (simp add: Let_def out f)
  ultimately show ?thesis by (rule that)
qed

lemma removal_ends:
  assumes "\<forall>s \<in> set (rules fw). \<not> contains_text (render s) (tag name)"
  shows "\<exists>fw'. remove_policy_rules ipt name fw = Some fw' \<and> rules fw' = rules fw"
proof -
  let ?r = "ipt [''-L'', POLICY_CHAIN, ''--line-numbers'', ''-n''] fw"
  let ?ls = "map (\<lambda>(n, s). show_nat (n + 1) @ CHR '' '' # render s) (enumerate 0 (rules fw))"
  obtain out where out: "fst ?r = Some out" "cmd_success out" "text_lines (cmd_stdout out) = header fw @ ?ls"
    using listing by blast
  have "find (\<lambda>l. contains_text l (tag name)) (header fw @ ?ls) = None"
    using assms header_plain by (auto simp: find_None_iff number_line dest!: in_set_enumerate_eq [THEN iffD1])
  then have "find_rule_number (tag name) (cmd_stdout out) = None" by (simp add: find_rule_number_def out(3))
  then show ?thesis using listing_keeps by (subst remove_policy_rules.simps) (simp add: Let_def out)
qed

lemma removal_filters:
  assumes "length (rules fw) < 2 ^ 32 - 1"
  shows "\<exists>fw'. remove_policy_rules ipt name fw = Some fw' \<and>
    rules fw' = filter (\<lambda>s. \<not> contains_text (render s) (tag name)) (rules fw)"
  using assms
proof (induction "length (rules fw)" arbitrary: fw rule: less_induct)
  case less
  let ?P = "\<lambda>s. contains_text (render s) (tag name)"
  show ?case
  proof (cases "\<exists>k < length (rules fw). ?P (rules fw ! k)")
    case True
    define k where "k = (LEAST k. k < length (rules fw) \<and> ?P (rules fw ! k))"
    have k: "k < length (rules fw)" "?P (rules fw ! k)"
      unfolding k_def using LeastI_ex [of "\<lambda>k. k < length (rules fw) \<and> ?P (rules fw ! k)"] True by blast+
    have "\<not> ?P (rules fw ! j)" if "j < k" for j
      using that k(1) not_less_Least [of j "\<lambda>k. k < length (rules fw) \<and> ?P (rules fw ! k)"] by (auto simp: k_def [symmetric])
    then obtain fw1 where fw1: "rules fw1 = take k (rules fw) @ drop (Suc k) (rules fw)"
      "remove_policy_rules ipt name fw = remove_policy_rules ipt name fw1"
      using removal_step [OF less.prems k] by blast
    have "rules fw = take k (rules fw) @ rules fw ! k # drop (Suc k) (rules fw)" using k(1) by (rule id_take_nth_drop)
    then have "filter (\<lambda>s. \<not> ?P s) (rules fw) = filter (\<lambda>s. \<not> ?P s) (rules fw1)"
      using k(2) fw1(1) by (metis filter_append filter.simps(2))
    moreover have "length (rules fw1) < length (rules fw)" using fw1(1) k(1) by simp
    ultimately show ?thesis using less.hyps [of fw1] less.prems fw1(2) by simp
  next
    case False
    then have "\<forall>s \<in> set (rules fw). \<not> ?P s" by (metis in_set_conv_nth)
    then show ?thesis using removal_ends [of fw name] by (simp add: filter_id_conv)
  qed
qed

end

text \<open>A chain kept as a list of specifications, with its listing.\<close>

definition line_of :: "nat \<Rightarrow> string list \<Rightarrow> string" where
  "line_of n spec = show_nat n @ CHR '' '' # filter (\<lambda>c. c \<noteq> CHR 0x0A \<and> c \<noteq> CHR 0x0D) (concat (map (\<lambda>a. a @ '' '') spec))"

definition list_policy_ipt :: "string list list runner" where
  "list_policy_ipt args fw =
     (let ok = (\<lambda>out. Some \<lparr>cmd_success = True, cmd_stdout = out, cmd_stderr = []\<rparr>);
          bad = Some \<lparr>cmd_success = False, cmd_stdout = [], cmd_stderr = ''Bad rule''\<rparr>
      in if args = [''-L'', POLICY_CHAIN, ''--line-numbers'', ''-n'']
         then (ok (concat (map (\<lambda>l. l @ [CHR 0x0A])
                (''Chain CLAW-NETPOL (1 references)'' # map (\<lambda>(n, s). line_of (n + 1) s) (enumerate 0 fw)))), fw)
         else if take 2 args = [''-A'', POLICY_CHAIN] then (ok [], fw @ [drop 2 args])
         else if args = [''-F'', POLICY_CHAIN] then (ok [], [])
         else if take 2 args = [''-D'', POLICY_CHAIN] \<and> length args = 3
         then (let n = digits_val (args ! 2) in
               if 0 < n \<and> n \<le> length fw then (ok [], take (n - 1) fw @ drop n fw) else (bad, fw))
         else (bad, fw))"

lemma text_lines_aux_word:
  "\<forall>c \<in> set l. c \<noteq> CHR 0x0A \<Longrightarrow> text_lines_aux cur (l @ xs) = text_lines_aux (rev l @ cur) xs"
  by (induction l arbitrary: cur) simp_all

lemma text_lines_unlines:
  "\<forall>l \<in> set ls. CHR 0x0A \<notin> set l \<and> CHR 0x0D \<notin> set l \<Longrightarrow>
   text_lines (concat (map (\<lambda>l. l @ [CHR 0x0A]) ls)) = ls"
  unfolding text_lines_def
proof (induction ls)
  case (Cons l ls)
  have "\<not> (rev l \<noteq> [] \<and> hd (rev l) = CHR 0x0D)" using Cons.prems by (metis hd_in_set list.set_intros(1) set_rev)
  moreover have "\<forall>c \<in> set l. c \<noteq> CHR 0x0A" using Cons.prems by auto
  ultimately show ?case using Cons text_lines_aux_word [of l "[]" "CHR 0x0A # concat (map (\<lambda>l. l @ [CHR 0x0A]) ls)"]
    by auto
qed simp

lemma line_of_plain: "CHR 0x0A \<notin> set (line_of n s) \<and> CHR 0x0D \<notin> set (line_of n s)"
proof -
  have "\<forall>c \<in> set (show_nat n). is_digit c" using show_nat_digits [of n] by (simp add: list_all_iff)
  moreover have "\<not> is_digit CHR 0x0A" "\<not> is_digit CHR 0x0D" by (simp_all add: is_digit_def)
  ultimately show ?thesis by (auto simp: line_of_def)
qed

interpretation list_listing: iptables_listing list_policy_ipt "\<lambda>fw. fw" "\<lambda>_. [''Chain CLAW-NETPOL (1 references)'']"
  "\<lambda>s. filter (\<lambda>c. c \<noteq> CHR 0x0A \<and> c \<noteq> CHR 0x0D) (concat (map (\<lambda>a. a @ '' '') s))"
proof unfold_locales
  fix fw :: "string list list"
  let ?ls = "''Chain CLAW-NETPOL (1 references)'' # map (\<lambda>(n, s). line_of (n + 1) s) (enumerate 0 fw)"
  have "text_lines (concat (map (\<lambda>l. l @ [CHR 0x0A]) ?ls)) = ?ls"
    using line_of_plain by (intro text_lines_unlines) auto
  moreover have "map (\<lambda>(n, s). line_of (n + 1) s) (enumerate 0 fw) =
      map (\<lambda>(n, s). show_nat (n + 1) @ CHR '' '' # filter (\<lambda>c. c \<noteq> CHR 0x0A \<and> c \<noteq> CHR 0x0D) (concat (map (\<lambda>a. a @ '' '') s)))
        (enumerate 0 fw)"
    by (simp add: line_of_def)
  ultimately show "\<exists>out. fst (list_policy_ipt [''-L'', POLICY_CHAIN, ''--line-numbers'', ''-n''] fw) = Some out \<and> cmd_success out \<and>
      text_lines (cmd_stdout out) = [''Chain CLAW-NETPOL (1 references)''] @
        map (\<lambda>(n, s). show_nat (n + 1) @ CHR '' '' # filter (\<lambda>c. c \<noteq> CHR 0x0A \<and> c \<noteq> CHR 0x0D) (concat (map (\<lambda>a. a @ '' '') s)))
        (enumerate 0 fw)"
    unfolding list_policy_ipt_def Let_def by simp
  show "snd (list_policy_ipt [''-L'', POLICY_CHAIN, ''--line-numbers'', ''-n''] fw) = fw"
    by (simp add: list_policy_ipt_def Let_def)
next
  fix k and fw :: "string list list"
  assume "k < length fw"
  then show "snd (list_policy_ipt [''-D'', POLICY_CHAIN, show_nat (k + 1)] fw) = take k fw @ drop (Suc k) fw"
    by (simp add: list_policy_ipt_def Let_def)
next
  fix line name and fw :: "string list list"
  assume "line \<in> set [''Chain CLAW-NETPOL (1 references)'']"
  then show "\<not> contains_text line (tag name)" by (simp add: tag_def)
qed

text \<open>
  \<^bold>\<open>Removing a policy ends and removes every rule tagged with its name, and more.\<close> Against an \<open>iptables\<close> that lists
  and deletes by number as documented, with fewer than \<open>2 ^ 32 - 1\<close> rules, \<open>remove_policy\<close> of a
  registered policy returns, takes the first policy of that name off the list, and leaves in the chain exactly the rules whose line does not
  contain \<open>claw-policy:\<close> followed by the name. The test is for a substring: the rules of every policy whose name
  begins with the removed name are deleted as well, although that policy stays registered.
\<close>

theorem remove_policy_exact:
  assumes contract: "iptables_listing ipt rules header render"
    and "remove_named name (policies pe) = Some ps" and "pe_iptables_available pe" and "length (rules fw) < 2 ^ 32 - 1"
  shows "\<exists>fw'. remove_policy ipt name (pe, fw) = Some (Inr (), (pe\<lparr>policies := ps\<rparr>, fw')) \<and>
    rules fw' = filter (\<lambda>s. \<not> contains_text (render s) (tag name)) (rules fw)"
  using iptables_listing.removal_filters [OF contract assms(4), of name] assms(2,3)
  by (auto simp: remove_policy_def Let_def)

definition demo_policy :: "string \<Rightarrow> compiled_policy" where
  "demo_policy name = \<lparr>cp_name = name, cp_selector = [(''app'', name)], ingress_rules = [], egress_rules = [],
     has_ingress = True, has_egress = False\<rparr>"

theorem remove_policy_exact_witness:
  "let pe = \<lparr>policies = [demo_policy ''web'', demo_policy ''web-2''], pe_iptables_available = True\<rparr>;
       fw = target_specs (demo_policy ''web-2'') [] (V4 10 200 0 2)
   in \<exists>fw'. remove_policy list_policy_ipt ''web'' (pe, fw) =
              Some (Inr (), (\<lparr>policies = [demo_policy ''web-2''], pe_iptables_available = True\<rparr>, fw')) \<and> fw' = [] \<and> fw \<noteq> []"
proof -
  let ?pe = "\<lparr>policies = [demo_policy ''web'', demo_policy ''web-2''], pe_iptables_available = True\<rparr>"
  let ?fw = "target_specs (demo_policy ''web-2'') [] (V4 10 200 0 2)"
  let ?render = "\<lambda>s. filter (\<lambda>c. c \<noteq> CHR 0x0A \<and> c \<noteq> CHR 0x0D) (concat (map (\<lambda>a. a @ '' '') s))"
  have r: "remove_named ''web'' (policies ?pe) = Some [demo_policy ''web-2'']" by (simp add: demo_policy_def)
  have l: "length ?fw = 1" by (simp add: target_specs_def demo_policy_def)
  have "list_all (\<lambda>s. contains_text (?render s) (tag ''web'')) ?fw" by code_simp
  then have "filter (\<lambda>s. \<not> contains_text (?render s) (tag ''web'')) ?fw = []" by (simp add: list_all_iff filter_empty_conv)
  then show ?thesis using remove_policy_exact [OF list_listing.iptables_listing_axioms r, of ?fw] l by auto
qed

section \<open>Verdicts\<close>

text \<open>
  The verdict of a chain of specifications: the target of the first rule that matches a packet, and
  \<^const>\<open>None\<close> when no rule does. Matching is a parameter.
\<close>

definition chain_verdict :: "(string list \<Rightarrow> 'pkt \<Rightarrow> bool) \<Rightarrow> string list list \<Rightarrow> 'pkt \<Rightarrow> string option" where
  "chain_verdict matches specs pkt = map_option last (find (\<lambda>s. matches s pkt) specs)"

text \<open>
  What matching has to satisfy: a specification that starts with \<open>-d ip/32\<close> matches only packets to that host, one that starts with
  \<open>-s ip/32\<close> only packets from it, and a specification without further conditions (a comment is none) matches all of those.
\<close>

locale packet_matching =
  fixes matches :: "string list \<Rightarrow> 'pkt \<Rightarrow> bool"
    and dest :: "'pkt \<Rightarrow> ip_addr"
    and src :: "'pkt \<Rightarrow> ip_addr"
  assumes match_dest: "matches ([''-d'', host32 ip] @ rest) pkt \<Longrightarrow> dest pkt = ip"
    and match_src: "matches ([''-s'', host32 ip] @ rest) pkt \<Longrightarrow> src pkt = ip"
    and match_plain: "dest pkt = ip \<Longrightarrow> matches ([''-d'', host32 ip] @ verdict_args c t) pkt"
begin

lemma ingress_specs_target:
  "s \<in> set (ingress_specs name ws ip r) \<Longrightarrow> (\<exists>rest. s = [''-d'', host32 ip] @ rest) \<and> last s = ''ACCEPT''"
  by (auto simp: ingress_specs_def verdict_args_def split: option.splits)

lemma other_target:
  assumes "s \<in> set (target_specs p ws ip)" and "dest pkt \<noteq> ip" and "src pkt \<noteq> ip"
  shows "\<not> matches s pkt"
proof -
  have "(\<exists>rest. s = [''-d'', host32 ip] @ rest) \<or> (\<exists>rest. s = [''-s'', host32 ip] @ rest)"
    using assms(1) ingress_specs_target by (auto simp: target_specs_def split: if_splits)
  then show ?thesis using assms(2,3) match_dest match_src by blast
qed

lemma own_target:
  assumes "has_ingress p" and "dest pkt = ip"
  shows "chain_verdict matches (target_specs p ws ip) pkt =
    Some (if \<exists>r \<in> set (ingress_rules p). \<exists>s \<in> set (ingress_specs (cp_name p) ws ip r). matches s pkt
          then ''ACCEPT'' else ''DROP'')"
proof (cases "\<exists>r \<in> set (ingress_rules p). \<exists>s \<in> set (ingress_specs (cp_name p) ws ip r). matches s pkt")
  case True
  let ?in = "concat (map (ingress_specs (cp_name p) ws ip) (ingress_rules p))"
  obtain s where "s \<in> set ?in" "matches s pkt" using True by auto
  then have "find (\<lambda>s. matches s pkt) ?in \<noteq> None" by (auto simp: find_None_iff)
  then obtain s' where s': "find (\<lambda>s. matches s pkt) ?in = Some s'" by blast
  then have "s' \<in> set ?in" by (rule find_member)
  then have l: "last s' = ''ACCEPT''" using ingress_specs_target by auto
  have "target_specs p ws ip = ?in @ drop (length ?in) (target_specs p ws ip)"
    using True assms(1) by (auto simp: target_specs_def)
  then have "find (\<lambda>s. matches s pkt) (target_specs p ws ip) = Some s'"
    using find_front [of "\<lambda>s. matches s pkt" ?in] s' by (metis option.distinct(1))
  then show ?thesis using True l by (simp add: chain_verdict_def)
next
  case False
  let ?in = "concat (map (ingress_specs (cp_name p) ws ip) (ingress_rules p))"
  have "\<forall>s \<in> set ?in. \<not> matches s pkt" using False by auto
  then show ?thesis using False assms match_plain [OF assms(2)]
    by (auto simp: chain_verdict_def target_specs_def find_skip verdict_args_def)
qed

lemma policy_verdict:
  assumes "has_ingress p" and "dest pkt \<in> set ips" and "src pkt \<notin> set ips"
  shows "chain_verdict matches (policy_specs p ips ws) pkt =
    Some (if \<exists>r \<in> set (ingress_rules p). \<exists>s \<in> set (ingress_specs (cp_name p) ws (dest pkt) r). matches s pkt
          then ''ACCEPT'' else ''DROP'')"
  using assms(2,3)
proof (induction ips)
  case (Cons ip ips)
  show ?case
  proof (cases "dest pkt = ip")
    case True
    have "find (\<lambda>s. matches s pkt) (target_specs p ws ip) \<noteq> None"
      using own_target [OF assms(1) True, of ws] by (auto simp: chain_verdict_def)
    from find_front [OF this] show ?thesis using own_target [OF assms(1) True, of ws] True
      by (simp add: chain_verdict_def policy_specs_def)
  next
    case False
    then have "\<forall>s \<in> set (target_specs p ws ip). \<not> matches s pkt" using other_target Cons.prems(2) by auto
    then show ?thesis using Cons False by (simp add: chain_verdict_def policy_specs_def find_skip)
  qed
qed simp

text \<open>
  A packet to a target, wherever it comes from, is accepted by an ingress rule for that target or dropped: a rule for another target
  that matches it can only be the one that drops what comes from there.
\<close>

lemma other_target_drops:
  assumes "dest pkt \<noteq> ip" and "find (\<lambda>s. matches s pkt) (target_specs p ws ip) = Some s"
  shows "last s = ''DROP''"
proof -
  have s: "s \<in> set (target_specs p ws ip)" "matches s pkt"
    using assms(2) by (auto simp: find_Some_iff)
  then have "\<not> (\<exists>rest. s = [''-d'', host32 ip] @ rest)" using assms(1) match_dest by blast
  then have "s = [''-s'', host32 ip] @ verdict_args (tag (cp_name p)) ''DROP''"
    using s(1) by (auto simp: target_specs_def split: if_splits dest!: ingress_specs_target)
  then show ?thesis by (simp add: verdict_args_def)
qed

lemma inbound_verdict:
  assumes "has_ingress p" and "dest pkt \<in> set ips"
  shows "chain_verdict matches (policy_specs p ips ws) pkt \<in> {Some ''ACCEPT'', Some ''DROP''} \<and>
    ((\<exists>r \<in> set (ingress_rules p). \<exists>s \<in> set (ingress_specs (cp_name p) ws (dest pkt) r). matches s pkt) \<or>
     chain_verdict matches (policy_specs p ips ws) pkt = Some ''DROP'')"
  using assms(2)
proof (induction ips)
  case (Cons ip ips)
  let ?f = "find (\<lambda>s. matches s pkt) (target_specs p ws ip)"
  show ?case
  proof (cases ?f)
    case None
    then have "\<forall>s \<in> set (target_specs p ws ip). \<not> matches s pkt" by (auto simp: find_None_iff)
    moreover have "dest pkt \<noteq> ip"
      using None own_target [OF assms(1), of pkt ip ws] by (auto simp: chain_verdict_def)
    ultimately show ?thesis using Cons by (simp add: chain_verdict_def policy_specs_def find_skip)
  next
    case (Some s)
    then have v: "chain_verdict matches (policy_specs p (ip # ips) ws) pkt = Some (last s)"
      using find_front [of "\<lambda>s. matches s pkt" "target_specs p ws ip"] by (simp add: chain_verdict_def policy_specs_def)
    show ?thesis
    proof (cases "dest pkt = ip")
      case True
      from own_target [OF assms(1) True, of ws] Some v True show ?thesis
        by (auto simp: chain_verdict_def split: if_splits)
    qed (use other_target_drops [OF _ Some] v in simp)
  qed
qed simp

end

text \<open>Matching on addresses only, for packets between IPv4 hosts.\<close>

type_synonym demo_packet = "(u8 \<times> u8 \<times> u8 \<times> u8) \<times> (u8 \<times> u8 \<times> u8 \<times> u8)"

definition v4 :: "u8 \<times> u8 \<times> u8 \<times> u8 \<Rightarrow> ip_addr" where
  "v4 q = (case q of (a, b, c, d) \<Rightarrow> V4 a b c d)"

fun demo_matches :: "string list \<Rightarrow> demo_packet \<Rightarrow> bool" where
  "demo_matches (k # h # rest) pkt =
     (if k = ''-d'' then h = host32 (v4 (snd pkt)) \<and> demo_matches rest pkt
      else if k = ''-s'' then h = host32 (v4 (fst pkt)) \<and> demo_matches rest pkt
      else k = ''-m'')"
| "demo_matches spec pkt = (spec = [])"

lemma dotted_inj:
  assumes "show_nat a @ CHR ''.'' # xs = show_nat b @ CHR ''.'' # ys"
  shows "a = b \<and> xs = ys"
proof -
  have d: "\<forall>c \<in> set (show_nat n). c \<noteq> CHR ''.''" for n
    using show_nat_digits [of n] by (auto simp: list_all_iff is_digit_def)
  have "takeWhile (\<lambda>c. c \<noteq> CHR ''.'') (show_nat n @ CHR ''.'' # zs) = show_nat n" for n zs
    using d [of n] by (simp add: takeWhile_append2)
  then have "show_nat a = show_nat b" using assms by metis
  then show ?thesis using assms by (metis append_same_eq digits_val_show_nat list.inject same_append_eq)
qed

lemma host32_v4_inj: "host32 (v4 p) = host32 (v4 q) \<Longrightarrow> p = q"
proof -
  assume "host32 (v4 p) = host32 (v4 q)"
  then have e: "show_ipv4 (v4 p) = show_ipv4 (v4 q)" by (simp add: host32_def)
  obtain a b c d a' b' c' d' where p: "p = (a, b, c, d)" "q = (a', b', c', d')" by (cases p; cases q) auto
  have "show_nat (unat a) @ CHR ''.'' # (show_nat (unat b) @ CHR ''.'' # (show_nat (unat c) @ CHR ''.'' # show_nat (unat d))) =
      show_nat (unat a') @ CHR ''.'' # (show_nat (unat b') @ CHR ''.'' # (show_nat (unat c') @ CHR ''.'' # show_nat (unat d')))"
    using e by (simp add: show_ipv4_def v4_def p)
  from dotted_inj [OF this] have 1: "unat a = unat a'" and r: "show_nat (unat b) @ CHR ''.'' # (show_nat (unat c) @ CHR ''.'' # show_nat (unat d)) =
      show_nat (unat b') @ CHR ''.'' # (show_nat (unat c') @ CHR ''.'' # show_nat (unat d'))" by blast+
  from dotted_inj [OF r] have 2: "unat b = unat b'" and r2: "show_nat (unat c) @ CHR ''.'' # show_nat (unat d) =
      show_nat (unat c') @ CHR ''.'' # show_nat (unat d')" by blast+
  from dotted_inj [OF r2] have "unat c = unat c'" "unat d = unat d'" by (metis digits_val_show_nat)+
  then show "p = q" using 1 2 p by (simp add: word_unat_eq_iff)
qed

lemma host32_v4: "host32 ip = host32 (v4 q) \<Longrightarrow> ip = v4 q"
proof (cases ip)
  case (V4 a b c d)
  then have i: "ip = v4 (a, b, c, d)" by (simp add: v4_def)
  moreover assume "host32 ip = host32 (v4 q)"
  ultimately show "ip = v4 q" using host32_v4_inj [of "(a, b, c, d)" q] by simp
next
  case (V6 a b c d e f g h)
  moreover assume "host32 ip = host32 (v4 q)"
  moreover have "show_ipv4 (v4 q) \<noteq> []" by (cases q) (simp add: v4_def show_ipv4_def)
  ultimately show "ip = v4 q" by (simp add: host32_def show_ipv4_def)
qed

interpretation address_matching: packet_matching demo_matches "\<lambda>p. v4 (snd p)" "\<lambda>p. v4 (fst p)"
  by unfold_locales (auto simp: verdict_args_def dest: host32_v4)

lemma compiled_ok_map: "compiled_ok (map (compile_rule J) rs) = map (\<lambda>r. case compile_rule J r of Inr c \<Rightarrow> c) rs"
  by (induction rs) (simp_all add: compile_rule_def)

text \<open>
  C31. \<^bold>\<open>Inbound traffic is denied by default.\<close> Take the rules that a compiled policy adds for its targets
  (\<open>apply_policy_rules\<close>), and any packet matching that respects destination and source hosts. Every packet to a target, wherever it comes
  from, is accepted or dropped by the chain and does not fall through it; it is dropped unless a rule made from one of the policy's ingress entries
  for that target matches it, so a policy with an empty ingress list drops every packet to its targets. A packet to a target from
  outside the targets is accepted exactly when such a rule matches it (one from another target may also be dropped on leaving that target).
\<close>

theorem inbound_default_deny:
  assumes "packet_matching matches dest src" and "compile_policy J name sel ingress egress = Inr p"
    and "dest pkt \<in> set ips"
  shows "let allowed = (\<exists>r \<in> set (ingress_rules p). \<exists>s \<in> set (ingress_specs name ws (dest pkt) r). matches s pkt);
      verdict = chain_verdict matches (policy_specs p ips ws) pkt
    in verdict \<in> {Some ''ACCEPT'', Some ''DROP''} \<and> (\<not> allowed \<longrightarrow> verdict = Some ''DROP'') \<and>
       (ingress = [] \<longrightarrow> verdict = Some ''DROP'') \<and>
       (src pkt \<notin> set ips \<longrightarrow> verdict = Some (if allowed then ''ACCEPT'' else ''DROP''))"
proof -
  have p: "has_ingress p" "cp_name p = name" "ingress = [] \<longrightarrow> ingress_rules p = []"
    using assms(2) by (auto simp: compile_policy_def)
  show ?thesis
    using packet_matching.inbound_verdict [OF assms(1) p(1) assms(3), of ws]
      packet_matching.policy_verdict [where matches = matches and dest = dest and src = src, OF assms(1) p(1) assms(3), of ws] p(2,3)
    unfolding Let_def by auto
qed

text \<open>JSON values for concrete runs: no member is present.\<close>

definition demo_json :: "unit json_ops" where
  "demo_json = \<lparr>json_get = (\<lambda>_ _. None), json_u64 = (\<lambda>_. None), json_str = (\<lambda>_. None), json_labels = (\<lambda>_. None)\<rparr>"

theorem inbound_default_deny_witness:
  "\<exists>p. compile_policy demo_json ''deny'' [(''app'', ''db'')] [] [] = Inr p \<and>
     chain_verdict demo_matches (policy_specs p [V4 10 200 0 2] []) ((10, 200, 0, 9), (10, 200, 0, 2)) = Some ''DROP''"
proof -
  obtain p where p: "compile_policy demo_json ''deny'' [(''app'', ''db'')] [] [] = Inr p" by (simp add: compile_policy_def)
  have "v4 (snd ((10, 200, 0, 9), (10, 200, 0, 2))) \<in> set [V4 10 200 0 2]" by (simp add: v4_def)
  then show ?thesis
    using p inbound_default_deny [OF address_matching.packet_matching_axioms p,
        where pkt = "((10, 200, 0, 9), (10, 200, 0, 2))" and ips = "[V4 10 200 0 2]" and ws = "[]"]
    unfolding Let_def by blast
qed

text \<open>
  \<^bold>\<open>Outbound rules work the wrong way round.\<close> \<open>compile_policy\<close> sets \<open>has_egress\<close> to
  \<open>!egress.is_empty() || egress.is_empty()\<close>, which is always true, and only an empty egress list produces a rule. A
  policy that says nothing about outbound traffic therefore drops all of it, and a policy that lists egress rules
  restricts none.
\<close>

theorem egress_inverted:
  assumes "compile_policy J name sel ingress egress = Inr p"
  shows "filter (\<lambda>s. hd s = ''-s'') (target_specs p ws ip) =
    (if egress = [] then [[''-s'', host32 ip] @ verdict_args (tag name) ''DROP''] else [])"
proof -
  have p: "p = \<lparr>cp_name = name, cp_selector = sel, ingress_rules = compiled_ok (map (compile_rule J) ingress),
      egress_rules = compiled_ok (map (compile_rule J) egress), has_ingress = True, has_egress = True\<rparr>"
    using assms by (auto simp: compile_policy_def)
  have "hd s \<noteq> ''-s''" if "s \<in> set (ingress_specs name ws ip r)" for s r
    using that by (auto simp: ingress_specs_def split: option.splits)
  then have "filter (\<lambda>s. hd s = ''-s'') (concat (map (ingress_specs name ws ip) rs)) = []" for rs
    by (auto simp: filter_empty_conv)
  then show ?thesis by (simp add: p target_specs_def compiled_ok_map del: map_map)
qed

theorem egress_inverted_witness:
  "\<exists>p q. compile_policy demo_json ''a'' [] [] [] = Inr p \<and> compile_policy demo_json ''a'' [] [] [()] = Inr q \<and>
     filter (\<lambda>s. hd s = ''-s'') (target_specs p [] (V4 10 200 0 2)) \<noteq> [] \<and>
     filter (\<lambda>s. hd s = ''-s'') (target_specs q [] (V4 10 200 0 2)) = []"
proof -
  obtain p q where p: "compile_policy demo_json ''a'' [] [] [] = Inr p" and q: "compile_policy demo_json ''a'' [] [] [()] = Inr q"
    by (simp add: compile_policy_def)
  show ?thesis using p q egress_inverted [OF p, of "[]" "V4 10 200 0 2"] egress_inverted [OF q, of "[]" "V4 10 200 0 2"] by simp
qed

end
