(* ===== verification/Json_Store.thy ===== *)
theory Json_Store
  imports Decimal "HOL-Library.Countable"
begin

text \<open>
  File-backed maps, \<open>crates/claw-persist/src/lib.rs\<close>, and the pattern that all stores built on them share: a map in
  memory that is written out as a whole after every change. JSON encoding is a parameter (a codec);
  a write can fail and then leaves any content, or none, in the file.
\<close>

section \<open>Values of the records\<close>

text \<open>
  Timestamps as integers, JSON values as trees, and floating-point numbers as far as the stores use them: they are kept
  and compared. Comparison is exact on the finite values and false on \<open>NaN\<close>.
\<close>

type_synonym timestamp = int

datatype f64 = NaN | Neg_inf | Fin rat | Pos_inf

fun f64_less :: "f64 \<Rightarrow> f64 \<Rightarrow> bool" where
  "f64_less (Fin x) (Fin y) = (x < y)"
| "f64_less Neg_inf (Fin y) = True"
| "f64_less (Fin x) Pos_inf = True"
| "f64_less Neg_inf Pos_inf = True"
| "f64_less _ _ = False"

datatype json = JNull | JBool bool | JNum int | JFloat f64 | JStr string | JList "json list" | JObj "(string \<times> json) list"

section \<open>Files\<close>

type_synonym path = "string list"
type_synonym disk = "path \<Rightarrow> string option"

datatype write_result = Written | Write_failed "string option"

record 'v codec =
  to_json :: "(string, 'v) hashmap \<Rightarrow> string option"
  from_json :: "string \<Rightarrow> (string, 'v) hashmap option"

definition json_store_new :: "path \<Rightarrow> string \<Rightarrow> path" where
  "json_store_new state_path domain = state_path @ [''state'', domain @ ''.json'']"

definition load :: "'v codec \<Rightarrow> path \<Rightarrow> disk \<Rightarrow> (string, 'v) hashmap" where
  "load C p d =
     (case d p of
        Some content \<Rightarrow> (case from_json C content of Some m \<Rightarrow> m | None \<Rightarrow> [])
      | None \<Rightarrow> [])"

definition save :: "'v codec \<Rightarrow> write_result \<Rightarrow> path \<Rightarrow> (string, 'v) hashmap \<Rightarrow> disk \<Rightarrow> (unit, unit, disk) outcome" where
  "save C w p data d =
     (case to_json C data of
        None \<Rightarrow> (Inl (), d)
      | Some content \<Rightarrow>
          (case w of Written \<Rightarrow> (Inr (), d(p := Some content)) | Write_failed c \<Rightarrow> (Inl (), d(p := c))))"

section \<open>A map with its file\<close>

record 'v file_map =
  entries :: "(string, 'v) hashmap"
  store_path :: path

definition open_store :: "'v codec \<Rightarrow> path \<Rightarrow> string \<Rightarrow> disk \<Rightarrow> 'v file_map" where
  "open_store C state_path domain d =
     (let p = json_store_new state_path domain in \<lparr>entries = load C p d, store_path = p\<rparr>)"

text \<open>\<open>snapshot\<close>: a failed write is only logged.\<close>

definition snapshot :: "'v codec \<Rightarrow> write_result \<Rightarrow> 'v file_map \<times> disk \<Rightarrow> 'v file_map \<times> disk" where
  "snapshot C w st = (fst st, snd (save C w (store_path (fst st)) (entries (fst st)) (snd st)))"

definition put :: "string \<Rightarrow> 'v \<Rightarrow> 'v file_map \<times> disk \<Rightarrow> 'v file_map \<times> disk" where
  "put k v st = ((fst st)\<lparr>entries := hm_insert k v (entries (fst st))\<rparr>, snd st)"

definition quoted :: "string \<Rightarrow> string \<Rightarrow> string \<Rightarrow> string" where
  "quoted noun name what = noun @ '' '' @ CHR 0x27 # name @ CHR 0x27 # '' '' @ what"

definition store_create ::
  "'v codec \<Rightarrow> string \<Rightarrow> string \<Rightarrow> 'v \<Rightarrow> write_result \<Rightarrow> 'v file_map \<times> disk \<Rightarrow> (string, unit, 'v file_map \<times> disk) outcome" where
  "store_create C noun name v w st =
     (if hm_contains (entries (fst st)) name then (Inl (quoted noun name ''already exists''), st)
      else (Inr (), snapshot C w (put name v st)))"

definition store_get :: "'v file_map \<Rightarrow> string \<Rightarrow> 'v option" where
  "store_get s name = hm_get (entries s) name"

definition store_list :: "'v file_map \<Rightarrow> 'v list" where
  "store_list s = hm_values (entries s)"

definition store_remove ::
  "'v codec \<Rightarrow> string \<Rightarrow> write_result \<Rightarrow> 'v file_map \<times> disk \<Rightarrow> 'v option \<times> 'v file_map \<times> disk" where
  "store_remove C name w st =
     (case hm_get (entries (fst st)) name of
        None \<Rightarrow> (None, st)
      | Some v \<Rightarrow> (Some v, snapshot C w ((fst st)\<lparr>entries := hm_remove name (entries (fst st))\<rparr>, snd st)))"

text \<open>Mutation through \<open>get_mut\<close>, which does not write, and the explicit \<open>update\<close> that callers make after it.\<close>

definition store_mutate :: "string \<Rightarrow> ('v \<Rightarrow> 'v) \<Rightarrow> 'v file_map \<times> disk \<Rightarrow> 'v file_map \<times> disk" where
  "store_mutate name f st = (case hm_get (entries (fst st)) name of None \<Rightarrow> st | Some v \<Rightarrow> put name (f v) st)"

definition store_update :: "'v codec \<Rightarrow> string \<Rightarrow> write_result \<Rightarrow> 'v file_map \<times> disk \<Rightarrow> 'v file_map \<times> disk" where
  "store_update C name w st = (if hm_contains (entries (fst st)) name then snapshot C w st else st)"

section \<open>The contract of a codec\<close>

text \<open>
  What the stores rely on of the JSON library: every map is encoded, decoding an encoded map gives a map with the same
  lookups, and whatever is decoded is a map (its keys are distinct).
\<close>

text \<open>Memory and file agree: what \<^const>\<open>load\<close> would read has the same entries.\<close>

definition synced :: "'v codec \<Rightarrow> 'v file_map \<times> disk \<Rightarrow> bool" where
  "synced C st \<longleftrightarrow> hm_wf (entries (fst st)) \<and> hm_wf (load C (store_path (fst st)) (snd st)) \<and>
     hm_get (load C (store_path (fst st)) (snd st)) = hm_get (entries (fst st))"

locale codec_roundtrip =
  fixes C :: "'v codec"
  assumes encodes: "hm_wf m \<Longrightarrow> \<exists>s m'. to_json C m = Some s \<and> from_json C s = Some m' \<and> hm_get m' = hm_get m"
    and decodes: "from_json C s = Some m \<Longrightarrow> hm_wf m"
begin

lemma load_wf: "hm_wf (load C p d)"
  by (auto simp: load_def split: option.splits dest: decodes)

lemma open_synced: "synced C (open_store C sp domain d, d)"
  by (simp add: synced_def open_store_def Let_def load_wf)

lemma snapshot_synced:
  assumes "hm_wf (entries (fst st))"
  shows "synced C (snapshot C Written st)"
proof -
  obtain s m' where "to_json C (entries (fst st)) = Some s" "from_json C s = Some m'" "hm_get m' = hm_get (entries (fst st))"
    using encodes [OF assms] by blast
  then show ?thesis using assms decodes by (simp add: synced_def snapshot_def save_def load_def)
qed

end

text \<open>
  The contract of the stores: an operation either changes nothing or replaces the map and writes it out.
\<close>

definition writes_map :: "'v codec \<Rightarrow> 'v file_map \<times> disk \<Rightarrow> (write_result \<Rightarrow> 'v file_map \<times> disk) \<Rightarrow> bool" where
  "writes_map C st f \<longleftrightarrow> (\<forall>w. f w = st) \<or>
     (\<exists>m. hm_wf m \<and> (\<forall>w. f w = snapshot C w ((fst st)\<lparr>entries := m\<rparr>, snd st)))"

lemma writes_mapI [intro?]:
  "hm_wf m \<Longrightarrow> (\<And>w. f w = snapshot C w ((fst st)\<lparr>entries := m\<rparr>, snd st)) \<Longrightarrow> writes_map C st f"
  by (auto simp: writes_map_def)

lemma writes_map_nothing [simp]: "writes_map C st (\<lambda>w. st)"
  by (simp add: writes_map_def)

locale writing_steps = codec_roundtrip C for C :: "'v codec" +
  fixes step :: "write_result \<Rightarrow> 'v file_map \<times> disk \<Rightarrow> 'op \<Rightarrow> 'v file_map \<times> disk"
  assumes step_writes: "hm_wf (entries (fst st)) \<Longrightarrow> writes_map C st (\<lambda>w. step w st e)"
begin

lemma step_wf: "hm_wf (entries (fst st)) \<Longrightarrow> hm_wf (entries (fst (step w st e)))"
  using step_writes [of st e] by (auto simp: writes_map_def snapshot_def)

lemma step_path: "hm_wf (entries (fst st)) \<Longrightarrow> store_path (fst (step w st e)) = store_path (fst st)"
  using step_writes [of st e] by (auto simp: writes_map_def snapshot_def)

lemma step_recovers:
  "hm_wf (entries (fst st)) \<Longrightarrow> step Written st e \<noteq> st \<Longrightarrow> synced C (step Written st e)"
  using step_writes [of st e] snapshot_synced by (auto simp: writes_map_def)

lemma step_synced: "synced C st \<Longrightarrow> synced C (step Written st e)"
  using step_recovers [of st e] by (cases "step Written st e = st") (auto simp: synced_def)

lemma run_synced: "synced C st \<Longrightarrow> synced C (run (step Written) st es)"
  by (induction es arbitrary: st) (simp_all add: step_synced)

lemma run_path: "hm_wf (entries (fst st)) \<Longrightarrow> store_path (fst (run (step w) st es)) = store_path (fst st)"
  by (induction es arbitrary: st) (simp_all add: step_wf step_path)

text \<open>A restart after any calls whose writes succeeded finds every entry again.\<close>

lemma restart_recovers:
  fixes d es sp domain
  defines "st \<equiv> run (step Written) (open_store C sp domain d, d) es"
  shows "store_get (open_store C sp domain (snd st)) = store_get (fst st)"
proof -
  have "synced C st" unfolding st_def by (rule run_synced) (rule open_synced)
  moreover have "store_path (fst st) = json_store_new sp domain"
    unfolding st_def using run_path [of "(open_store C sp domain d, d)" Written es]
    by (simp add: open_store_def Let_def load_wf)
  ultimately show ?thesis by (simp add: synced_def open_store_def store_get_def Let_def fun_eq_iff)
qed

end

text \<open>The primitive operations satisfy the contract.\<close>

lemma snapshot_writes: "hm_wf (entries (fst st)) \<Longrightarrow> writes_map C st (\<lambda>w. snapshot C w st)"
  by (rule writes_mapI [of "entries (fst st)"]) simp_all

lemma put_writes: "hm_wf (entries (fst st)) \<Longrightarrow> writes_map C st (\<lambda>w. snapshot C w (put k v st))"
  by (rule writes_mapI [of "hm_insert k v (entries (fst st))"]) (simp_all add: put_def)

lemma store_create_writes: "hm_wf (entries (fst st)) \<Longrightarrow> writes_map C st (\<lambda>w. snd (store_create C noun k v w st))"
  by (cases "hm_contains (entries (fst st)) k") (simp_all add: store_create_def put_writes)

lemma store_remove_writes: "hm_wf (entries (fst st)) \<Longrightarrow> writes_map C st (\<lambda>w. snd (store_remove C k w st))"
  by (cases "hm_get (entries (fst st)) k")
    (simp_all add: store_remove_def writes_mapI [of "hm_remove k (entries (fst st))"])

lemma store_edit_writes:
  "hm_wf (entries (fst st)) \<Longrightarrow> writes_map C st (\<lambda>w. store_update C k w (store_mutate k f st))"
  by (cases "hm_get (entries (fst st)) k")
    (simp_all add: store_update_def store_mutate_def hm_contains_def put_writes [unfolded put_def] put_def)

lemma snapshot_entries [simp]: "entries (fst (snapshot C w st)) = entries (fst st)"
  by (simp add: snapshot_def)

lemma put_entries [simp]: "entries (fst (put k v st)) = hm_insert k v (entries (fst st))"
  by (simp add: put_def)

text \<open>A codec from an injective numbering of the entries: a map is written as a text of as many marks as its number.\<close>

definition numbered_codec :: "('v \<Rightarrow> nat) \<Rightarrow> 'v codec" where
  "numbered_codec enc =
     \<lparr>to_json = (\<lambda>m. Some (replicate (to_nat (map (map_prod id enc) m)) CHR ''x'')),
      from_json = (\<lambda>s. let m = map (map_prod id (inv enc)) (from_nat (length s)) in if hm_wf m then Some m else None)\<rparr>"

lemma numbered_codec_roundtrip:
  assumes "inj enc"
  shows "codec_roundtrip (numbered_codec enc)"
proof
  fix m :: "(string, 'a) hashmap"
  assume wf: "hm_wf m"
  have eq: "map (map_prod id (inv enc)) (map (map_prod id enc) m) = m"
    using assms by (induction m) auto
  show "\<exists>s m'. to_json (numbered_codec enc) m = Some s \<and> from_json (numbered_codec enc) s = Some m' \<and> hm_get m' = hm_get m"
    by (rule exI [of _ "replicate (to_nat (map (map_prod id enc) m)) CHR ''x''"], rule exI [of _ m]) (simp add: numbered_codec_def Let_def eq wf del: map_map)
next
  fix s m assume "from_json (numbered_codec enc) s = Some m"
  then show "hm_wf m" by (auto simp: numbered_codec_def Let_def split: if_splits)
qed

interpretation text_codec: codec_roundtrip "numbered_codec (to_nat :: string \<Rightarrow> nat)"
  by (rule numbered_codec_roundtrip) simp

end
