(* ===== verification/Scheduler_Stores.thy ===== *)
theory Scheduler_Stores
  imports Json_Store
begin

text \<open>
  The stores of \<open>crates/claw-scheduler/src/lib.rs\<close>: alerts, batch jobs, cron jobs, namespaces with taints, the audit
  trail and admission policies. Each is a \<^typ>\<open>'v file_map\<close> with its operations; the alert store carries a small state
  machine, the audit store a list that is rebuilt from its file.
\<close>

section \<open>Alerts\<close>

record alert_rule =
  alert_name :: string
  alert_metric :: string
  alert_condition :: string
  alert_threshold :: f64
  alert_state :: string
  alert_created_at :: timestamp
  alert_updated_at :: timestamp

definition alerts_new :: "alert_rule codec \<Rightarrow> path \<Rightarrow> disk \<Rightarrow> alert_rule file_map" where
  "alerts_new C sp d = open_store C sp ''alerts'' d"

definition alerts_create ::
  "alert_rule codec \<Rightarrow> write_result \<Rightarrow> alert_rule \<Rightarrow> alert_rule file_map \<times> disk \<Rightarrow> (string, unit, alert_rule file_map \<times> disk) outcome" where
  "alerts_create C w r st = store_create C ''alert'' (alert_name r) r w st"

definition alerts_get :: "alert_rule file_map \<Rightarrow> string \<Rightarrow> alert_rule option" where
  "alerts_get s name = store_get s name"

definition alerts_get_mut :: "string \<Rightarrow> (alert_rule \<Rightarrow> alert_rule) \<Rightarrow> alert_rule file_map \<times> disk \<Rightarrow> alert_rule file_map \<times> disk" where
  "alerts_get_mut name f st = store_mutate name f st"

definition alerts_list :: "alert_rule file_map \<Rightarrow> alert_rule list" where
  "alerts_list s = store_list s"

definition is_firing :: "alert_rule \<Rightarrow> f64 \<Rightarrow> bool" where
  "is_firing a x =
     (if alert_condition a = ''above'' then f64_less (alert_threshold a) x
      else if alert_condition a = ''below'' then f64_less x (alert_threshold a)
      else False)"

definition alerts_evaluate ::
  "alert_rule codec \<Rightarrow> write_result \<Rightarrow> string \<Rightarrow> f64 \<Rightarrow> timestamp \<Rightarrow> alert_rule file_map \<times> disk \<Rightarrow> alert_rule option \<times> alert_rule file_map \<times> disk" where
  "alerts_evaluate C w name x now st =
     (case hm_get (entries (fst st)) name of
        None \<Rightarrow> (None, st)
      | Some a \<Rightarrow>
          (let was_firing = alert_state a = ''firing'';
               st' = (if is_firing a x \<and> \<not> was_firing
                      then snapshot C w (put name (a\<lparr>alert_state := ''firing'', alert_updated_at := now\<rparr>) st)
                      else if \<not> is_firing a x \<and> was_firing
                      then snapshot C w (put name (a\<lparr>alert_state := ''ok'', alert_updated_at := now\<rparr>) st)
                      else st)
           in (hm_get (entries (fst st')) name, st')))"

definition alerts_acknowledge ::
  "alert_rule codec \<Rightarrow> write_result \<Rightarrow> string \<Rightarrow> timestamp \<Rightarrow> alert_rule file_map \<times> disk \<Rightarrow> (string, unit, alert_rule file_map \<times> disk) outcome" where
  "alerts_acknowledge C w name now st =
     (case hm_get (entries (fst st)) name of
        None \<Rightarrow> (Inl (quoted ''alert'' name ''not found''), st)
      | Some a \<Rightarrow>
          if alert_state a \<noteq> ''firing''
          then (Inl (quoted ''alert'' name (''is not firing (state: '' @ alert_state a @ '')'')), st)
          else (Inr (), snapshot C w (put name (a\<lparr>alert_state := ''acknowledged'', alert_updated_at := now\<rparr>) st)))"

section \<open>Batch jobs\<close>

record job_entry =
  job_name :: string
  job_image :: string
  job_command :: "string list"
  completions :: u32
  completed :: u32
  failed :: u32
  parallelism :: u32
  backoff_limit :: u32
  job_container_ids :: "string list"
  job_state :: string
  job_created_at :: timestamp
  finished_at :: "timestamp option"

definition jobs_new :: "job_entry codec \<Rightarrow> path \<Rightarrow> disk \<Rightarrow> job_entry file_map" where
  "jobs_new C sp d = open_store C sp ''jobs'' d"

definition jobs_create ::
  "job_entry codec \<Rightarrow> write_result \<Rightarrow> job_entry \<Rightarrow> job_entry file_map \<times> disk \<Rightarrow> (string, unit, job_entry file_map \<times> disk) outcome" where
  "jobs_create C w e st = store_create C ''job'' (job_name e) e w st"

definition jobs_get :: "job_entry file_map \<Rightarrow> string \<Rightarrow> job_entry option" where
  "jobs_get s name = store_get s name"

definition jobs_get_mut :: "string \<Rightarrow> (job_entry \<Rightarrow> job_entry) \<Rightarrow> job_entry file_map \<times> disk \<Rightarrow> job_entry file_map \<times> disk" where
  "jobs_get_mut name f st = store_mutate name f st"

definition jobs_delete ::
  "job_entry codec \<Rightarrow> write_result \<Rightarrow> string \<Rightarrow> job_entry file_map \<times> disk \<Rightarrow> (string, job_entry, job_entry file_map \<times> disk) outcome" where
  "jobs_delete C w name st =
     (case store_remove C name w st of
        (None, st') \<Rightarrow> (Inl (quoted ''job'' name ''not found''), st')
      | (Some e, st') \<Rightarrow> (Inr e, st'))"

definition jobs_list :: "job_entry file_map \<Rightarrow> job_entry list" where
  "jobs_list s = store_list s"

definition jobs_update :: "job_entry codec \<Rightarrow> write_result \<Rightarrow> job_entry file_map \<times> disk \<Rightarrow> job_entry file_map \<times> disk" where
  "jobs_update C w st = snapshot C w st"

section \<open>Cron jobs\<close>

record cron_entry =
  cron_name :: string
  cron_schedule :: string
  cron_image :: string
  cron_command :: "string list"
  suspended :: bool
  last_run :: "timestamp option"
  next_run :: "timestamp option"
  cron_created_at :: timestamp

definition crons_new :: "cron_entry codec \<Rightarrow> path \<Rightarrow> disk \<Rightarrow> cron_entry file_map" where
  "crons_new C sp d = open_store C sp ''crons'' d"

definition crons_create ::
  "cron_entry codec \<Rightarrow> write_result \<Rightarrow> cron_entry \<Rightarrow> cron_entry file_map \<times> disk \<Rightarrow> (string, unit, cron_entry file_map \<times> disk) outcome" where
  "crons_create C w e st = store_create C ''cron'' (cron_name e) e w st"

definition crons_get :: "cron_entry file_map \<Rightarrow> string \<Rightarrow> cron_entry option" where
  "crons_get s name = store_get s name"

definition crons_get_mut :: "string \<Rightarrow> (cron_entry \<Rightarrow> cron_entry) \<Rightarrow> cron_entry file_map \<times> disk \<Rightarrow> cron_entry file_map \<times> disk" where
  "crons_get_mut name f st = store_mutate name f st"

definition crons_list :: "cron_entry file_map \<Rightarrow> cron_entry list" where
  "crons_list s = store_list s"

definition crons_update :: "cron_entry codec \<Rightarrow> write_result \<Rightarrow> cron_entry file_map \<times> disk \<Rightarrow> cron_entry file_map \<times> disk" where
  "crons_update C w st = snapshot C w st"

section \<open>Namespaces and taints\<close>

record resource_quota =
  max_cpu :: "f64 option"
  max_memory_mb :: "u64 option"
  max_gpus :: "u32 option"
  max_storage_gb :: "u64 option"

record namespace_entry =
  ns_name :: string
  quotas :: resource_quota
  ns_labels :: "(string, string) hashmap"
  ns_created_at :: timestamp

record taint_entry =
  taint_key :: string
  taint_value :: string
  taint_effect :: string

record namespace_store =
  namespaces :: "namespace_entry file_map"
  taints :: "taint_entry list"

definition namespaces_new :: "namespace_entry codec \<Rightarrow> path \<Rightarrow> disk \<Rightarrow> namespace_store" where
  "namespaces_new C sp d = \<lparr>namespaces = open_store C sp ''namespaces'' d, taints = []\<rparr>"

definition namespaces_create ::
  "namespace_entry codec \<Rightarrow> write_result \<Rightarrow> namespace_entry \<Rightarrow> namespace_store \<times> disk \<Rightarrow> (string, unit, namespace_store \<times> disk) outcome" where
  "namespaces_create C w e st =
     (case store_create C ''namespace'' (ns_name e) e w (namespaces (fst st), snd st) of
        (r, fm, d) \<Rightarrow> (r, (fst st)\<lparr>namespaces := fm\<rparr>, d))"

definition namespaces_get :: "namespace_store \<Rightarrow> string \<Rightarrow> namespace_entry option" where
  "namespaces_get s name = store_get (namespaces s) name"

definition namespaces_get_mut ::
  "string \<Rightarrow> (namespace_entry \<Rightarrow> namespace_entry) \<Rightarrow> namespace_store \<times> disk \<Rightarrow> namespace_store \<times> disk" where
  "namespaces_get_mut name f st =
     (case store_mutate name f (namespaces (fst st), snd st) of (fm, d) \<Rightarrow> ((fst st)\<lparr>namespaces := fm\<rparr>, d))"

definition namespaces_list :: "namespace_store \<Rightarrow> namespace_entry list" where
  "namespaces_list s = store_list (namespaces s)"

definition namespaces_update :: "namespace_entry codec \<Rightarrow> write_result \<Rightarrow> namespace_store \<times> disk \<Rightarrow> namespace_store \<times> disk" where
  "namespaces_update C w st =
     (case snapshot C w (namespaces (fst st), snd st) of (fm, d) \<Rightarrow> ((fst st)\<lparr>namespaces := fm\<rparr>, d))"

section \<open>The audit trail\<close>

record audit_entry =
  principal :: string
  audit_action :: string
  audit_resource :: string
  audit_result :: string
  audit_timestamp :: timestamp

record audit_store =
  audit_entries :: "audit_entry list"
  audit_path :: path

definition audit_new :: "audit_entry codec \<Rightarrow> path \<Rightarrow> disk \<Rightarrow> audit_store" where
  "audit_new C sp d =
     (let p = json_store_new sp ''audit''
      in \<lparr>audit_entries = sort_key audit_timestamp (hm_values (load C p d)), audit_path = p\<rparr>)"

definition audit_map :: "audit_entry list \<Rightarrow> (string, audit_entry) hashmap" where
  "audit_map es = map (\<lambda>(i, e). (show_nat i, e)) (enumerate 0 es)"

definition audit_record ::
  "audit_entry codec \<Rightarrow> write_result \<Rightarrow> audit_store \<times> disk \<Rightarrow> audit_entry \<Rightarrow> audit_store \<times> disk" where
  "audit_record C w st e =
     (let s = (fst st)\<lparr>audit_entries := audit_entries (fst st) @ [e]\<rparr>
      in (s, snd (save C w (audit_path s) (audit_map (audit_entries s)) (snd st))))"

text \<open>
  The cutoff is computed by the date library, which panics on an instant out of its range: \<open>None\<close> of the parameter.
\<close>

definition audit_query ::
  "(timestamp \<Rightarrow> int \<Rightarrow> timestamp option) \<Rightarrow> timestamp \<Rightarrow> string option \<Rightarrow> string option \<Rightarrow> int option \<Rightarrow> audit_store \<Rightarrow> audit_entry list option" where
  "audit_query minus_minutes now prin act minutes s =
     (case (case minutes of None \<Rightarrow> Some None | Some m \<Rightarrow> map_option Some (minus_minutes now m)) of
        None \<Rightarrow> None
      | Some cutoff \<Rightarrow>
          Some (filter (\<lambda>e. case cutoff of None \<Rightarrow> True | Some c \<Rightarrow> c \<le> audit_timestamp e)
            (filter (\<lambda>e. case act of None \<Rightarrow> True | Some a \<Rightarrow> audit_action e = a)
            (filter (\<lambda>e. case prin of None \<Rightarrow> True | Some p \<Rightarrow> principal e = p) (audit_entries s)))))"

section \<open>Admission policies\<close>

record policy_entry =
  pol_name :: string
  pol_type :: string
  pol_rules :: "json list"
  pol_enabled :: bool
  pol_created_at :: timestamp

definition policies_new :: "policy_entry codec \<Rightarrow> path \<Rightarrow> disk \<Rightarrow> policy_entry file_map" where
  "policies_new C sp d = open_store C sp ''policies'' d"

definition policies_create ::
  "policy_entry codec \<Rightarrow> write_result \<Rightarrow> policy_entry \<Rightarrow> policy_entry file_map \<times> disk \<Rightarrow> (string, unit, policy_entry file_map \<times> disk) outcome" where
  "policies_create C w e st = store_create C ''policy'' (pol_name e) e w st"

definition policies_get :: "policy_entry file_map \<Rightarrow> string \<Rightarrow> policy_entry option" where
  "policies_get s name = store_get s name"

definition policies_list :: "policy_entry file_map \<Rightarrow> policy_entry list" where
  "policies_list s = store_list s"

definition policies_list_enabled :: "policy_entry file_map \<Rightarrow> policy_entry list" where
  "policies_list_enabled s = filter pol_enabled (store_list s)"

section \<open>Properties of the alert store\<close>

text \<open>
  An evaluation decides the state of exactly one alert: it fires when the metric is past the threshold, a firing alert
  that is no longer past it is ok again, and an alert in any other state keeps it. Everything else is unchanged.
\<close>

definition evaluated :: "alert_rule \<Rightarrow> f64 \<Rightarrow> string" where
  "evaluated a x =
     (if is_firing a x then ''firing'' else if alert_state a = ''firing'' then ''ok'' else alert_state a)"

theorem alert_evaluation:
  assumes "alerts_get (fst st) name = Some a"
  shows "(\<exists>t. fst (alerts_evaluate C w name x now st) = Some (a\<lparr>alert_state := evaluated a x, alert_updated_at := t\<rparr>)) \<and>
    alerts_get (fst (snd (alerts_evaluate C w name x now st))) =
      (alerts_get (fst st))(name := fst (alerts_evaluate C w name x now st))"
proof -
  have keep: "\<exists>t. a = a\<lparr>alert_updated_at := t\<rparr>"
    "alert_state a = ''firing'' \<Longrightarrow> \<exists>t. a = a\<lparr>alert_state := ''firing'', alert_updated_at := t\<rparr>"
    by (auto intro!: exI [of _ "alert_updated_at a"] alert_rule.equality)
  show ?thesis
    using assms
    by (auto simp: alerts_evaluate_def alerts_get_def store_get_def evaluated_def Let_def fun_eq_iff keep)
qed

theorem alert_evaluation_witness:
  "fst (alerts_evaluate (numbered_codec (\<lambda>_. 0)) Written ''cpu'' (Fin 95) 7
      (\<lparr>entries = [(''cpu'', \<lparr>alert_name = ''cpu'', alert_metric = ''m'', alert_condition = ''above'', alert_threshold = Fin 90,
          alert_state = ''ok'', alert_created_at = 1, alert_updated_at = 1\<rparr>)], store_path = []\<rparr>, \<lambda>_. None)) \<noteq> None"
  using alert_evaluation [of "(\<lparr>entries = [(''cpu'', \<lparr>alert_name = ''cpu'', alert_metric = ''m'', alert_condition = ''above'',
      alert_threshold = Fin 90, alert_state = ''ok'', alert_created_at = 1, alert_updated_at = 1\<rparr>)], store_path = []\<rparr>, \<lambda>_. None)" "''cpu''"]
  by (simp add: alerts_get_def store_get_def) (metis option.distinct(1))

text \<open>
  An acknowledgement lasts only while the metric is back within bounds: the next evaluation that is still past the
  threshold fires the alert again, and one that is within bounds leaves it acknowledged instead of ok.
\<close>

theorem acknowledgement_not_kept:
  assumes "alerts_acknowledge C w name now st = (Inr (), st')"
    and "alerts_get (fst st) name = Some a"
  shows "map_option alert_state (fst (alerts_evaluate C w2 name x now2 st')) =
    Some (if is_firing a x then ''firing'' else ''acknowledged'')"
proof -
  have st': "st' = snapshot C w (put name (a\<lparr>alert_state := ''acknowledged'', alert_updated_at := now\<rparr>) st)"
    using assms by (auto simp: alerts_acknowledge_def alerts_get_def store_get_def split: if_splits)
  have "is_firing (a\<lparr>alert_state := ''acknowledged'', alert_updated_at := now\<rparr>) x = is_firing a x"
    by (simp add: is_firing_def)
  then show ?thesis by (simp add: st' alerts_evaluate_def Let_def)
qed

theorem acknowledgement_not_kept_witness:
  "map_option alert_state (fst (alerts_evaluate (numbered_codec (\<lambda>_. 0)) Written ''cpu'' (Fin 95) 9
      (snd (alerts_acknowledge (numbered_codec (\<lambda>_. 0)) Written ''cpu'' 8
        (\<lparr>entries = [(''cpu'', \<lparr>alert_name = ''cpu'', alert_metric = ''m'', alert_condition = ''above'', alert_threshold = Fin 90,
          alert_state = ''firing'', alert_created_at = 1, alert_updated_at = 1\<rparr>)], store_path = []\<rparr>, \<lambda>_. None))))) = Some ''firing''"
proof -
  let ?a = "\<lparr>alert_name = ''cpu'', alert_metric = ''m'', alert_condition = ''above'', alert_threshold = Fin 90,
    alert_state = ''firing'', alert_created_at = 1, alert_updated_at = 1\<rparr>"
  let ?st = "(\<lparr>entries = [(''cpu'', ?a)], store_path = []\<rparr>, \<lambda>_. None)" and ?C = "numbered_codec (\<lambda>_. 0)"
  have "alerts_acknowledge ?C Written ''cpu'' 8 ?st = (Inr (), snd (alerts_acknowledge ?C Written ''cpu'' 8 ?st))"
    by (simp add: alerts_acknowledge_def)
  from acknowledgement_not_kept [OF this, of ?a Written "Fin 95" 9] show ?thesis
    by (simp add: alerts_get_def store_get_def is_firing_def)
qed

section \<open>The audit trail survives a restart\<close>

lemma audit_map_keys: "map fst (audit_map es) = map show_nat [0..<length es]"
  by (rule nth_equalityI) (simp_all add: audit_map_def nth_enumerate_eq)

lemma audit_map_wf [simp]: "hm_wf (audit_map es)"
  unfolding audit_map_keys by (simp add: distinct_map inj_on_subset [OF inj_show_nat])

lemma audit_map_values [simp]: "hm_values (audit_map es) = es"
  by (simp add: audit_map_def enumerate_eq_zip comp_def case_prod_beta)

lemma same_lookups_same_values:
  assumes "hm_wf m" "hm_wf m'" "hm_get m' = hm_get m"
  shows "mset (hm_values m') = mset (hm_values m)"
proof -
  have "set m' = set m" using assms by (metis map_of_eq_Some_iff subrelI subset_antisym)
  moreover have "distinct m" "distinct m'" using assms(1,2) by (simp_all add: distinct_map)
  ultimately have "mset m' = mset m" by (simp add: set_eq_iff_mset_eq_distinct)
  then show ?thesis by (metis mset_map)
qed

text \<open>What the file holds: the entries in memory, up to their order.\<close>

definition audit_synced :: "audit_entry codec \<Rightarrow> audit_store \<times> disk \<Rightarrow> bool" where
  "audit_synced C st \<longleftrightarrow> mset (hm_values (load C (audit_path (fst st)) (snd st))) = mset (audit_entries (fst st))"

context codec_roundtrip begin

lemma saved_map:
  assumes "hm_wf m"
  shows "mset (hm_values (load C p (snd (save C Written p m d)))) = mset (hm_values m)"
proof -
  obtain s m' where "to_json C m = Some s" "from_json C s = Some m'" "hm_get m' = hm_get m"
    using encodes [OF assms] by blast
  then show ?thesis
    using same_lookups_same_values [OF assms decodes] by (simp add: save_def load_def)
qed

end

lemma audit_new_synced: "audit_synced C (audit_new C sp d, d)"
  by (simp add: audit_synced_def audit_new_def Let_def)

lemma audit_run:
  assumes "codec_roundtrip C" and "audit_synced C st"
  shows "audit_synced C (run (audit_record C Written) st es) \<and>
    audit_path (fst (run (audit_record C Written) st es)) = audit_path (fst st)"
  using assms(2)
proof (induction es arbitrary: st)
  case (Cons e es)
  have "audit_synced C (audit_record C Written st e)"
    using codec_roundtrip.saved_map [OF assms(1) audit_map_wf, of "audit_path (fst st)" "audit_entries (fst st) @ [e]" "snd st"]
    by (simp add: audit_synced_def audit_record_def Let_def del: mset_map)
  from Cons.IH [OF this] show ?case by (simp add: audit_record_def Let_def)
qed simp

lemma sort_key_unique:
  assumes "mset xs = mset ys" and "sorted_wrt (<) (map f ys)"
  shows "sort_key f xs = ys"
proof (rule properties_for_sort_key)
  show "mset ys = mset xs" using assms(1) by simp
  have d: "distinct (map f ys)" using assms(2) by (simp add: strict_sorted_iff)
  show "filter (\<lambda>x. f k = f x) ys = filter (\<lambda>x. f k = f x) xs" if "k \<in> set ys" for k
  proof -
    have "filter (\<lambda>x. f k = f x) ys = [k]"
      using d that by (induction ys) (auto simp: filter_empty_conv image_iff)
    moreover from this have "mset (filter (\<lambda>x. f k = f x) xs) = {#k#}"
      using assms(1) by (metis mset_filter mset_single_iff)
    ultimately show ?thesis by (metis mset_single_iff_right)
  qed
  show "sorted (map f ys)" using assms(2) by (simp add: strict_sorted_iff)
qed

text \<open>
  However many entries are recorded, a restart reads back the same entries, in the order of their timestamps; when
  the timestamps increase strictly, as a clock that never stands still gives them, the list is the one in memory.
\<close>

theorem audit_trail_restored:
  fixes es sp d
  assumes "codec_roundtrip C"
  defines "st \<equiv> run (audit_record C Written) (audit_new C sp d, d) es"
  shows "mset (audit_entries (audit_new C sp (snd st))) = mset (audit_entries (fst st)) \<and>
    sorted (map audit_timestamp (audit_entries (audit_new C sp (snd st)))) \<and>
    (sorted_wrt (<) (map audit_timestamp (audit_entries (fst st))) \<longrightarrow>
       audit_entries (audit_new C sp (snd st)) = audit_entries (fst st))"
proof -
  have s: "audit_synced C st" "audit_path (fst st) = json_store_new sp ''audit''"
    using audit_run [OF assms(1) audit_new_synced, of sp d es] by (simp_all add: st_def audit_new_def Let_def)
  then show ?thesis
    by (auto simp: audit_synced_def audit_new_def Let_def intro: sort_key_unique)
qed

text \<open>The demonstration codec for audit entries.\<close>

definition audit_number :: "audit_entry \<Rightarrow> nat" where
  "audit_number e = to_nat (principal e, audit_action e, audit_resource e, audit_result e, audit_timestamp e)"

lemma audit_number_inj: "inj audit_number"
  by (rule injI) (auto simp: audit_number_def intro: audit_entry.equality)

theorem audit_trail_restored_witness:
  "audit_entries (audit_new (numbered_codec audit_number) [] (snd (run (audit_record (numbered_codec audit_number) Written)
      (audit_new (numbered_codec audit_number) [] (\<lambda>_. None), \<lambda>_. None)
      [\<lparr>principal = ''p'', audit_action = ''a'', audit_resource = ''r'', audit_result = ''ok'', audit_timestamp = 1\<rparr>,
       \<lparr>principal = ''p'', audit_action = ''b'', audit_resource = ''r'', audit_result = ''ok'', audit_timestamp = 2\<rparr>]))) =
    [\<lparr>principal = ''p'', audit_action = ''a'', audit_resource = ''r'', audit_result = ''ok'', audit_timestamp = 1\<rparr>,
     \<lparr>principal = ''p'', audit_action = ''b'', audit_resource = ''r'', audit_result = ''ok'', audit_timestamp = 2\<rparr>]"
  using audit_trail_restored [OF numbered_codec_roundtrip [OF audit_number_inj], where sp = "[]" and d = "\<lambda>_. None" and
      es = "[\<lparr>principal = ''p'', audit_action = ''a'', audit_resource = ''r'', audit_result = ''ok'', audit_timestamp = 1\<rparr>,
       \<lparr>principal = ''p'', audit_action = ''b'', audit_resource = ''r'', audit_result = ''ok'', audit_timestamp = 2\<rparr>]"]
  by (simp add: audit_record_def audit_new_def load_def Let_def)

section \<open>Job and cron stores across restarts\<close>

text \<open>The calls of the job store; the handlers follow every change through \<open>get_mut\<close> with \<open>update\<close>.\<close>

datatype job_call =
    Job_create job_entry
  | Job_edit string "job_entry \<Rightarrow> job_entry"
  | Job_delete string

fun job_step :: "job_entry codec \<Rightarrow> write_result \<Rightarrow> job_entry file_map \<times> disk \<Rightarrow> job_call \<Rightarrow> job_entry file_map \<times> disk" where
  "job_step C w st (Job_create e) = snd (jobs_create C w e st)"
| "job_step C w st (Job_edit name f) =
     (if jobs_get (fst st) name = None then st else jobs_update C w (jobs_get_mut name f st))"
| "job_step C w st (Job_delete name) = snd (jobs_delete C w name st)"

lemma jobs_delete_state: "snd (jobs_delete C w name st) = snd (store_remove C name w st)"
  by (simp add: jobs_delete_def split: prod.splits option.splits)

lemma job_step_writes: "hm_wf (entries (fst st)) \<Longrightarrow> writes_map C st (\<lambda>w. job_step C w st e)"
proof (cases e)
  case (Job_edit name f)
  assume "hm_wf (entries (fst st))"
  with Job_edit show ?thesis
    by (cases "hm_get (entries (fst st)) name")
      (simp_all add: jobs_get_def store_get_def jobs_update_def jobs_get_mut_def store_mutate_def put_writes)
qed (simp_all add: jobs_create_def store_create_writes jobs_delete_state store_remove_writes)

lemma jobs_writing: "codec_roundtrip C \<Longrightarrow> writing_steps C (job_step C)"
  by (intro writing_steps.intro writing_steps_axioms.intro) (simp_all add: job_step_writes)

definition job_number :: "job_entry \<Rightarrow> nat" where
  "job_number e = to_nat ((job_name e, job_image e, job_command e, unat (completions e), unat (completed e), unat (failed e)),
     (unat (parallelism e), unat (backoff_limit e), job_container_ids e, job_state e, job_created_at e, finished_at e))"

lemma job_number_inj: "inj job_number"
  by (rule injI) (auto simp: job_number_def simp flip: word_unat_eq_iff intro: job_entry.equality)

interpretation jobs: writing_steps "numbered_codec job_number" "job_step (numbered_codec job_number)"
  by (rule jobs_writing [OF numbered_codec_roundtrip [OF job_number_inj]])

text \<open>
  Whatever sequence of job calls runs, with its writes succeeding, a restart finds every job exactly as it was.
\<close>

theorem jobs_restored:
  assumes "codec_roundtrip C"
  shows "jobs_get (jobs_new C sp (snd (run (job_step C Written) (jobs_new C sp d, d) es))) =
    jobs_get (fst (run (job_step C Written) (jobs_new C sp d, d) es))"
  using writing_steps.restart_recovers [OF jobs_writing [OF assms], of sp "''jobs''" d es]
  by (simp add: jobs_new_def jobs_get_def fun_eq_iff)

theorem jobs_restored_witness:
  "jobs_get (jobs_new (numbered_codec job_number) [] (snd (run (job_step (numbered_codec job_number) Written)
      (jobs_new (numbered_codec job_number) [] (\<lambda>_. None), \<lambda>_. None) [Job_create \<lparr>job_name = ''train'', job_image = ''i'', job_command = [], completions = 1, completed = 0, failed = 0, parallelism = 1,
        backoff_limit = 3, job_container_ids = [], job_state = ''pending'', job_created_at = 1, finished_at = None\<rparr>, Job_delete ''x'']))) =
   jobs_get (fst (run (job_step (numbered_codec job_number) Written)
      (jobs_new (numbered_codec job_number) [] (\<lambda>_. None), \<lambda>_. None) [Job_create \<lparr>job_name = ''train'', job_image = ''i'', job_command = [], completions = 1, completed = 0, failed = 0, parallelism = 1,
        backoff_limit = 3, job_container_ids = [], job_state = ''pending'', job_created_at = 1, finished_at = None\<rparr>, Job_delete ''x'']))"
  by (rule jobs_restored [OF numbered_codec_roundtrip [OF job_number_inj]])

end
