(* ===== verification/Node_Stores.thy ===== *)
theory Node_Stores
  imports Json_Store
begin

text \<open>
  The other stores a node keeps: \<open>crates/claw-config\<close>, \<open>claw-secrets\<close>, \<open>claw-auth\<close>, \<open>claw-deploy\<close>,
  \<open>claw-autoscaler\<close>, \<open>claw-storage\<close> and \<open>claw-ingress\<close>, each \<open>src/lib.rs\<close>, all on the file-backed maps of
  \<open>claw-persist\<close>. Handlers change an entry through \<open>get_mut\<close> and then call \<open>update\<close>; the reference is modelled as the
  function the handler applies to the entry.
\<close>

section \<open>Configurations\<close>

record config_entry =
  cfg_data :: "(string, string) hashmap"
  cfg_immutable :: bool
  cfg_created_at :: timestamp
  cfg_updated_at :: timestamp

definition configs_new :: "config_entry codec \<Rightarrow> path \<Rightarrow> disk \<Rightarrow> config_entry file_map" where
  "configs_new C sp d = open_store C sp ''configs'' d"

definition configs_get :: "config_entry file_map \<Rightarrow> string \<Rightarrow> config_entry option" where
  "configs_get s name = store_get s name"

definition configs_create ::
  "config_entry codec \<Rightarrow> write_result \<Rightarrow> string \<Rightarrow> (string, string) hashmap \<Rightarrow> bool \<Rightarrow> timestamp \<Rightarrow> config_entry file_map \<times> disk
   \<Rightarrow> (string, unit, config_entry file_map \<times> disk) outcome" where
  "configs_create C w name dat immut now st =
     store_create C ''config'' name
       \<lparr>cfg_data = dat, cfg_immutable = immut, cfg_created_at = now, cfg_updated_at = now\<rparr> w st"

definition configs_update ::
  "config_entry codec \<Rightarrow> write_result \<Rightarrow> string \<Rightarrow> (string, string) hashmap \<Rightarrow> timestamp \<Rightarrow> config_entry file_map \<times> disk
   \<Rightarrow> (string, unit, config_entry file_map \<times> disk) outcome" where
  "configs_update C w name dat now st =
     (case hm_get (entries (fst st)) name of
        None \<Rightarrow> (Inl (quoted ''config'' name ''not found''), st)
      | Some e \<Rightarrow>
          if cfg_immutable e then (Inl (quoted ''config'' name ''is immutable''), st)
          else (Inr (), snapshot C w (put name (e\<lparr>cfg_data := dat, cfg_updated_at := now\<rparr>) st)))"

definition configs_delete ::
  "config_entry codec \<Rightarrow> write_result \<Rightarrow> string \<Rightarrow> config_entry file_map \<times> disk \<Rightarrow> (string, unit, config_entry file_map \<times> disk) outcome" where
  "configs_delete C w name st =
     (case store_remove C name w st of
        (None, st') \<Rightarrow> (Inl (quoted ''config'' name ''not found''), st')
      | (Some e, st') \<Rightarrow> (Inr (), st'))"

definition starts_with :: "string \<Rightarrow> string \<Rightarrow> bool" where
  "starts_with p s \<longleftrightarrow> take (length p) s = p"

definition configs_list :: "config_entry file_map \<Rightarrow> string option \<Rightarrow> (string \<times> config_entry) list" where
  "configs_list s pfx =
     filter (\<lambda>(k, e). pfx = None \<or> starts_with (case pfx of Some p \<Rightarrow> p | None \<Rightarrow> []) k) (entries s)"

section \<open>Secrets\<close>

record secret_entry =
  secret_name :: string
  encrypted_data :: string
  secret_nonce :: string
  key_version :: u32
  secret_created_at :: timestamp
  rotated_at :: timestamp

definition secrets_new :: "secret_entry codec \<Rightarrow> path \<Rightarrow> disk \<Rightarrow> secret_entry file_map" where
  "secrets_new C sp d = open_store C sp ''secrets'' d"

definition secrets_create ::
  "secret_entry codec \<Rightarrow> write_result \<Rightarrow> secret_entry \<Rightarrow> secret_entry file_map \<times> disk \<Rightarrow> (string, unit, secret_entry file_map \<times> disk) outcome" where
  "secrets_create C w r st = store_create C ''secret'' (secret_name r) r w st"

definition secrets_get :: "secret_entry file_map \<Rightarrow> string \<Rightarrow> secret_entry option" where
  "secrets_get s name = store_get s name"

definition secrets_delete :: "secret_entry codec \<Rightarrow> write_result \<Rightarrow> string \<Rightarrow> secret_entry file_map \<times> disk \<Rightarrow> secret_entry option \<times> secret_entry file_map \<times> disk" where
  "secrets_delete C w name st = store_remove C name w st"

definition secrets_list :: "secret_entry file_map \<Rightarrow> secret_entry list" where
  "secrets_list s = store_list s"

definition secrets_update ::
  "secret_entry codec \<Rightarrow> write_result \<Rightarrow> string \<Rightarrow> secret_entry \<Rightarrow> secret_entry file_map \<times> disk
   \<Rightarrow> (string, unit, secret_entry file_map \<times> disk) outcome" where
  "secrets_update C w name e st =
     (if \<not> hm_contains (entries (fst st)) name then (Inl (quoted ''secret'' name ''not found''), st)
      else (Inr (), snapshot C w (put name e st)))"

section \<open>API keys\<close>

record api_key_record =
  key_id :: string
  ak_name :: string
  secret_hash :: string
  scopes :: "string list"
  ak_role :: string
  ak_active :: bool
  ak_created_at :: timestamp
  last_used :: "timestamp option"

definition keys_new :: "api_key_record codec \<Rightarrow> path \<Rightarrow> disk \<Rightarrow> api_key_record file_map" where
  "keys_new C sp d = open_store C sp ''apikeys'' d"

definition keys_create ::
  "api_key_record codec \<Rightarrow> write_result \<Rightarrow> api_key_record \<Rightarrow> api_key_record file_map \<times> disk \<Rightarrow> (string, unit, api_key_record file_map \<times> disk) outcome" where
  "keys_create C w r st = store_create C ''key'' (key_id r) r w st"

definition keys_get :: "api_key_record file_map \<Rightarrow> string \<Rightarrow> api_key_record option" where
  "keys_get s name = store_get s name"

definition keys_get_mut :: "string \<Rightarrow> (api_key_record \<Rightarrow> api_key_record) \<Rightarrow> api_key_record file_map \<times> disk \<Rightarrow> api_key_record file_map \<times> disk" where
  "keys_get_mut name f st = store_mutate name f st"

definition keys_update :: "api_key_record codec \<Rightarrow> write_result \<Rightarrow> string \<Rightarrow> api_key_record file_map \<times> disk \<Rightarrow> api_key_record file_map \<times> disk" where
  "keys_update C w name st = store_update C name w st"

definition keys_delete :: "api_key_record codec \<Rightarrow> write_result \<Rightarrow> string \<Rightarrow> api_key_record file_map \<times> disk \<Rightarrow> api_key_record option \<times> api_key_record file_map \<times> disk" where
  "keys_delete C w name st = store_remove C name w st"

definition keys_list :: "api_key_record file_map \<Rightarrow> api_key_record list" where
  "keys_list s = store_list s"

definition find_by_hash :: "api_key_record file_map \<Rightarrow> string \<Rightarrow> api_key_record option" where
  "find_by_hash s h = find (\<lambda>k. secret_hash k = h \<and> ak_active k) (hm_values (entries s))"

definition keys_revoke ::
  "api_key_record codec \<Rightarrow> write_result \<Rightarrow> string \<Rightarrow> api_key_record file_map \<times> disk
   \<Rightarrow> (string, unit, api_key_record file_map \<times> disk) outcome" where
  "keys_revoke C w kid st =
     (case hm_get (entries (fst st)) kid of
        None \<Rightarrow> (Inl (quoted ''key'' kid ''not found''), st)
      | Some k \<Rightarrow> (Inr (), snapshot C w (put kid (k\<lparr>ak_active := False\<rparr>) st)))"

section \<open>The access log\<close>

record audit_log_entry =
  log_id :: string
  log_timestamp :: timestamp
  log_actor :: string
  log_action :: string
  log_resource :: string
  log_resource_id :: "string option"
  log_result :: string
  log_details :: "string option"

definition log_new :: "audit_log_entry codec \<Rightarrow> path \<Rightarrow> disk \<Rightarrow> audit_log_entry file_map" where
  "log_new C sp d = open_store C sp ''audit_log'' d"

definition log_append ::
  "audit_log_entry codec \<Rightarrow> write_result \<Rightarrow> audit_log_entry \<Rightarrow> audit_log_entry file_map \<times> disk \<Rightarrow> audit_log_entry file_map \<times> disk" where
  "log_append C w e st = snapshot C w (put (log_id e) e st)"

text \<open>The filters of a query, and the stable sort, newest first, that it cuts to the limit.\<close>

definition log_matches :: "string option \<Rightarrow> string option \<Rightarrow> audit_log_entry \<Rightarrow> bool" where
  "log_matches act what e \<longleftrightarrow>
     (case act of None \<Rightarrow> True | Some a \<Rightarrow> log_actor e = a) \<and> (case what of None \<Rightarrow> True | Some a \<Rightarrow> log_action e = a)"

definition log_query :: "audit_log_entry file_map \<Rightarrow> string option \<Rightarrow> string option \<Rightarrow> nat \<Rightarrow> audit_log_entry list" where
  "log_query s act what limit =
     take limit (sort_key (\<lambda>e. - log_timestamp e) (filter (log_matches act what) (hm_values (entries s))))"

section \<open>Workloads\<close>

record workload_record =
  wl_id :: string
  wl_image :: string
  wl_container_id :: "string option"
  gpu_ids :: "u32 list"
  wl_state :: string
  wl_name :: "string option"
  wl_env :: "string list"
  wl_created_at :: timestamp
  wl_updated_at :: timestamp
  exit_code :: "32 word option"

definition workloads_new :: "workload_record codec \<Rightarrow> path \<Rightarrow> disk \<Rightarrow> workload_record file_map" where
  "workloads_new C sp d = open_store C sp ''workloads'' d"

definition workloads_get :: "workload_record file_map \<Rightarrow> string \<Rightarrow> workload_record option" where
  "workloads_get s name = store_get s name"

definition workloads_get_mut :: "string \<Rightarrow> (workload_record \<Rightarrow> workload_record) \<Rightarrow> workload_record file_map \<times> disk \<Rightarrow> workload_record file_map \<times> disk" where
  "workloads_get_mut name f st = store_mutate name f st"

definition workloads_remove :: "workload_record codec \<Rightarrow> write_result \<Rightarrow> string \<Rightarrow> workload_record file_map \<times> disk \<Rightarrow> workload_record option \<times> workload_record file_map \<times> disk" where
  "workloads_remove C w name st = store_remove C name w st"

definition workloads_list :: "workload_record file_map \<Rightarrow> workload_record list" where
  "workloads_list s = store_list s"

definition workloads_upsert ::
  "workload_record codec \<Rightarrow> write_result \<Rightarrow> workload_record \<Rightarrow> workload_record file_map \<times> disk \<Rightarrow> workload_record file_map \<times> disk" where
  "workloads_upsert C w r st = snapshot C w (put (wl_id r) r st)"

definition workloads_update_state ::
  "workload_record codec \<Rightarrow> write_result \<Rightarrow> string \<Rightarrow> string \<Rightarrow> 32 word option \<Rightarrow> timestamp
   \<Rightarrow> workload_record file_map \<times> disk \<Rightarrow> workload_record file_map \<times> disk" where
  "workloads_update_state C w wid s code now st =
     (case hm_get (entries (fst st)) wid of
        None \<Rightarrow> st
      | Some r \<Rightarrow> snapshot C w (put wid (r\<lparr>wl_state := s, exit_code := code, wl_updated_at := now\<rparr>) st))"

definition workloads_running :: "workload_record file_map \<Rightarrow> workload_record list" where
  "workloads_running s = filter (\<lambda>r. wl_state r = ''running'') (hm_values (entries s))"

definition find_by_container_id :: "workload_record file_map \<Rightarrow> string \<Rightarrow> workload_record option" where
  "find_by_container_id s cid = find (\<lambda>r. wl_container_id r = Some cid) (hm_values (entries s))"

section \<open>Deployments\<close>

record deploy_revision =
  rev_revision :: u32
  rev_image :: string
  rev_replicas :: u32
  rev_timestamp :: timestamp
  rev_reason :: "string option"

record deploy_record =
  dep_name :: string
  dep_image :: string
  previous_image :: "string option"
  replicas :: u32
  dep_container_ids :: "string list"
  gpus_per_replica :: u32
  dep_memory :: "string option"
  dep_cpu :: "f64 option"
  dep_strategy :: string
  dep_state :: string
  dep_revision :: u32
  dep_history :: "deploy_revision list"
  dep_created_at :: timestamp
  dep_updated_at :: timestamp

definition deploys_new :: "deploy_record codec \<Rightarrow> path \<Rightarrow> disk \<Rightarrow> deploy_record file_map" where
  "deploys_new C sp d = open_store C sp ''deploys'' d"

definition deploys_create ::
  "deploy_record codec \<Rightarrow> write_result \<Rightarrow> deploy_record \<Rightarrow> deploy_record file_map \<times> disk \<Rightarrow> (string, unit, deploy_record file_map \<times> disk) outcome" where
  "deploys_create C w r st = store_create C ''deployment'' (dep_name r) r w st"

definition deploys_get :: "deploy_record file_map \<Rightarrow> string \<Rightarrow> deploy_record option" where
  "deploys_get s name = store_get s name"

definition deploys_get_mut :: "string \<Rightarrow> (deploy_record \<Rightarrow> deploy_record) \<Rightarrow> deploy_record file_map \<times> disk \<Rightarrow> deploy_record file_map \<times> disk" where
  "deploys_get_mut name f st = store_mutate name f st"

definition deploys_update :: "deploy_record codec \<Rightarrow> write_result \<Rightarrow> string \<Rightarrow> deploy_record file_map \<times> disk \<Rightarrow> deploy_record file_map \<times> disk" where
  "deploys_update C w name st = store_update C name w st"

definition deploys_delete :: "deploy_record codec \<Rightarrow> write_result \<Rightarrow> string \<Rightarrow> deploy_record file_map \<times> disk \<Rightarrow> deploy_record option \<times> deploy_record file_map \<times> disk" where
  "deploys_delete C w name st = store_remove C name w st"

definition deploys_list :: "deploy_record file_map \<Rightarrow> deploy_record list" where
  "deploys_list s = store_list s"

section \<open>Autoscaling policies\<close>

record autoscale_record =
  as_name :: string
  as_target :: string
  min_replicas :: u32
  max_replicas :: u32
  current_replicas :: u32
  as_policy_type :: string
  as_metric :: "string option"
  as_threshold :: "f64 option"
  as_state :: string
  as_created_at :: timestamp
  as_updated_at :: timestamp

definition autoscale_new :: "autoscale_record codec \<Rightarrow> path \<Rightarrow> disk \<Rightarrow> autoscale_record file_map" where
  "autoscale_new C sp d = open_store C sp ''autoscale'' d"

definition autoscale_create ::
  "autoscale_record codec \<Rightarrow> write_result \<Rightarrow> autoscale_record \<Rightarrow> autoscale_record file_map \<times> disk \<Rightarrow> (string, unit, autoscale_record file_map \<times> disk) outcome" where
  "autoscale_create C w r st = store_create C ''policy'' (as_name r) r w st"

definition autoscale_get :: "autoscale_record file_map \<Rightarrow> string \<Rightarrow> autoscale_record option" where
  "autoscale_get s name = store_get s name"

definition autoscale_get_mut :: "string \<Rightarrow> (autoscale_record \<Rightarrow> autoscale_record) \<Rightarrow> autoscale_record file_map \<times> disk \<Rightarrow> autoscale_record file_map \<times> disk" where
  "autoscale_get_mut name f st = store_mutate name f st"

definition autoscale_update :: "autoscale_record codec \<Rightarrow> write_result \<Rightarrow> string \<Rightarrow> autoscale_record file_map \<times> disk \<Rightarrow> autoscale_record file_map \<times> disk" where
  "autoscale_update C w name st = store_update C name w st"

definition autoscale_delete :: "autoscale_record codec \<Rightarrow> write_result \<Rightarrow> string \<Rightarrow> autoscale_record file_map \<times> disk \<Rightarrow> autoscale_record option \<times> autoscale_record file_map \<times> disk" where
  "autoscale_delete C w name st = store_remove C name w st"

definition autoscale_list :: "autoscale_record file_map \<Rightarrow> autoscale_record list" where
  "autoscale_list s = store_list s"

section \<open>Volumes and backups\<close>

record volume_record =
  vol_name :: string
  volume_type :: string
  host_path :: "string option"
  vol_size :: "string option"
  vol_state :: string
  bound_to :: "string option"
  mount_path :: "string option"
  vol_created_at :: timestamp

definition volumes_new :: "volume_record codec \<Rightarrow> path \<Rightarrow> disk \<Rightarrow> volume_record file_map" where
  "volumes_new C sp d = open_store C sp ''volumes'' d"

definition volumes_create ::
  "volume_record codec \<Rightarrow> write_result \<Rightarrow> volume_record \<Rightarrow> volume_record file_map \<times> disk \<Rightarrow> (string, unit, volume_record file_map \<times> disk) outcome" where
  "volumes_create C w r st = store_create C ''volume'' (vol_name r) r w st"

definition volumes_get :: "volume_record file_map \<Rightarrow> string \<Rightarrow> volume_record option" where
  "volumes_get s name = store_get s name"

definition volumes_get_mut :: "string \<Rightarrow> (volume_record \<Rightarrow> volume_record) \<Rightarrow> volume_record file_map \<times> disk \<Rightarrow> volume_record file_map \<times> disk" where
  "volumes_get_mut name f st = store_mutate name f st"

definition volumes_update :: "volume_record codec \<Rightarrow> write_result \<Rightarrow> string \<Rightarrow> volume_record file_map \<times> disk \<Rightarrow> volume_record file_map \<times> disk" where
  "volumes_update C w name st = store_update C name w st"

definition volumes_delete :: "volume_record codec \<Rightarrow> write_result \<Rightarrow> string \<Rightarrow> volume_record file_map \<times> disk \<Rightarrow> volume_record option \<times> volume_record file_map \<times> disk" where
  "volumes_delete C w name st = store_remove C name w st"

definition volumes_list :: "volume_record file_map \<Rightarrow> volume_record list" where
  "volumes_list s = store_list s"

record backup_entry =
  backup_id :: string
  backup_scope :: string
  destination :: string
  backup_state :: string
  backup_created_at :: timestamp

definition backups_new :: "backup_entry codec \<Rightarrow> path \<Rightarrow> disk \<Rightarrow> backup_entry file_map" where
  "backups_new C sp d = open_store C sp ''backups'' d"

definition backups_create ::
  "backup_entry codec \<Rightarrow> write_result \<Rightarrow> backup_entry \<Rightarrow> backup_entry file_map \<times> disk \<Rightarrow> (string, unit, backup_entry file_map \<times> disk) outcome" where
  "backups_create C w r st = store_create C ''backup'' (backup_id r) r w st"

definition backups_get :: "backup_entry file_map \<Rightarrow> string \<Rightarrow> backup_entry option" where
  "backups_get s name = store_get s name"

definition backups_get_mut :: "string \<Rightarrow> (backup_entry \<Rightarrow> backup_entry) \<Rightarrow> backup_entry file_map \<times> disk \<Rightarrow> backup_entry file_map \<times> disk" where
  "backups_get_mut name f st = store_mutate name f st"

definition backups_update :: "backup_entry codec \<Rightarrow> write_result \<Rightarrow> backup_entry file_map \<times> disk \<Rightarrow> backup_entry file_map \<times> disk" where
  "backups_update C w st = snapshot C w st"

definition backups_list :: "backup_entry file_map \<Rightarrow> backup_entry list" where
  "backups_list s = store_list s"

section \<open>Services, ingresses and network policies\<close>

record service_entry =
  svc_name :: string
  svc_selector :: "(string, string) hashmap"
  svc_port :: u16
  svc_protocol :: string
  svc_endpoints :: "string list"
  svc_created_at :: timestamp

record ingress_rule =
  rule_host :: string
  rule_path :: string
  rule_service :: string

record ingress_entry =
  ing_name :: string
  ing_rules :: "ingress_rule list"
  ing_tls :: bool
  ing_created_at :: timestamp

record network_policy_entry =
  np_name :: string
  np_selector :: "(string, string) hashmap"
  np_ingress_rules :: "json list"
  np_egress_rules :: "json list"
  np_created_at :: timestamp

record service_store =
  svc_map :: "service_entry file_map"
  ing_map :: "ingress_entry file_map"
  np_map :: "network_policy_entry file_map"

definition service_store_new ::
  "service_entry codec \<Rightarrow> ingress_entry codec \<Rightarrow> network_policy_entry codec \<Rightarrow> path \<Rightarrow> disk \<Rightarrow> service_store" where
  "service_store_new CS CI CP sp d =
     \<lparr>svc_map = open_store CS sp ''services'' d, ing_map = open_store CI sp ''ingresses'' d,
      np_map = open_store CP sp ''network_policies'' d\<rparr>"

definition create_service ::
  "service_entry codec \<Rightarrow> write_result \<Rightarrow> service_entry \<Rightarrow> service_store \<times> disk \<Rightarrow> (string, unit, service_store \<times> disk) outcome" where
  "create_service C w e st =
     (case store_create C ''service'' (svc_name e) e w (svc_map (fst st), snd st) of
        (r, fm, d) \<Rightarrow> (r, (fst st)\<lparr>svc_map := fm\<rparr>, d))"

definition get_service :: "service_store \<Rightarrow> string \<Rightarrow> service_entry option" where
  "get_service s name = store_get (svc_map s) name"

definition delete_service ::
  "service_entry codec \<Rightarrow> write_result \<Rightarrow> string \<Rightarrow> service_store \<times> disk \<Rightarrow> (string, unit, service_store \<times> disk) outcome" where
  "delete_service C w name st =
     (case store_remove C name w (svc_map (fst st), snd st) of
        (None, fm, d) \<Rightarrow> (Inl (quoted ''service'' name ''not found''), (fst st)\<lparr>svc_map := fm\<rparr>, d)
      | (Some e, fm, d) \<Rightarrow> (Inr (), (fst st)\<lparr>svc_map := fm\<rparr>, d))"

definition list_stored_services :: "service_store \<Rightarrow> service_entry list" where
  "list_stored_services s = store_list (svc_map s)"

definition create_ingress ::
  "ingress_entry codec \<Rightarrow> write_result \<Rightarrow> ingress_entry \<Rightarrow> service_store \<times> disk \<Rightarrow> (string, unit, service_store \<times> disk) outcome" where
  "create_ingress C w e st =
     (case store_create C ''ingress'' (ing_name e) e w (ing_map (fst st), snd st) of
        (r, fm, d) \<Rightarrow> (r, (fst st)\<lparr>ing_map := fm\<rparr>, d))"

definition delete_ingress ::
  "ingress_entry codec \<Rightarrow> write_result \<Rightarrow> string \<Rightarrow> service_store \<times> disk \<Rightarrow> (string, unit, service_store \<times> disk) outcome" where
  "delete_ingress C w name st =
     (case store_remove C name w (ing_map (fst st), snd st) of
        (None, fm, d) \<Rightarrow> (Inl (quoted ''ingress'' name ''not found''), (fst st)\<lparr>ing_map := fm\<rparr>, d)
      | (Some e, fm, d) \<Rightarrow> (Inr (), (fst st)\<lparr>ing_map := fm\<rparr>, d))"

definition create_network_policy ::
  "network_policy_entry codec \<Rightarrow> write_result \<Rightarrow> network_policy_entry \<Rightarrow> service_store \<times> disk \<Rightarrow> (string, unit, service_store \<times> disk) outcome" where
  "create_network_policy C w e st =
     (case store_create C ''network policy'' (np_name e) e w (np_map (fst st), snd st) of
        (r, fm, d) \<Rightarrow> (r, (fst st)\<lparr>np_map := fm\<rparr>, d))"

definition delete_network_policy ::
  "network_policy_entry codec \<Rightarrow> write_result \<Rightarrow> string \<Rightarrow> service_store \<times> disk \<Rightarrow> (string, unit, service_store \<times> disk) outcome" where
  "delete_network_policy C w name st =
     (case store_remove C name w (np_map (fst st), snd st) of
        (None, fm, d) \<Rightarrow> (Inl (quoted ''network policy'' name ''not found''), (fst st)\<lparr>np_map := fm\<rparr>, d)
      | (Some e, fm, d) \<Rightarrow> (Inr (), (fst st)\<lparr>np_map := fm\<rparr>, d))"

definition list_stored_network_policies :: "service_store \<Rightarrow> network_policy_entry list" where
  "list_stored_network_policies s = store_list (np_map s)"

section \<open>Immutable configurations\<close>

datatype config_call =
    Config_create string "(string, string) hashmap" bool timestamp
  | Config_update string "(string, string) hashmap" timestamp
  | Config_delete string

fun config_step :: "config_entry codec \<Rightarrow> write_result \<Rightarrow> config_entry file_map \<times> disk \<Rightarrow> config_call \<Rightarrow> config_entry file_map \<times> disk" where
  "config_step C w st (Config_create n dat i t) = snd (configs_create C w n dat i t st)"
| "config_step C w st (Config_update n dat t) = snd (configs_update C w n dat t st)"
| "config_step C w st (Config_delete n) = snd (configs_delete C w n st)"

lemma configs_delete_state: "snd (configs_delete C w n st) = snd (store_remove C n w st)"
  by (simp add: configs_delete_def split: prod.splits option.splits)

lemma configs_update_writes: "hm_wf (entries (fst st)) \<Longrightarrow> writes_map C st (\<lambda>w. snd (configs_update C w n dat t st))"
proof (cases "hm_get (entries (fst st)) n")
  case (Some e)
  then show "hm_wf (entries (fst st)) \<Longrightarrow> ?thesis"
    by (cases "cfg_immutable e") (simp_all add: configs_update_def put_writes)
qed (simp add: configs_update_def)

lemma configs_writing: "codec_roundtrip C \<Longrightarrow> writing_steps C (config_step C)"
proof (intro writing_steps.intro writing_steps_axioms.intro)
  fix st :: "config_entry file_map \<times> disk" and e :: config_call
  assume "hm_wf (entries (fst st))"
  then show "writes_map C st (\<lambda>w. config_step C w st e)"
    by (cases e) (simp_all add: configs_create_def store_create_writes configs_update_writes configs_delete_state store_remove_writes)
qed

definition config_number :: "config_entry \<Rightarrow> nat" where
  "config_number e = to_nat (cfg_data e, cfg_immutable e, cfg_created_at e, cfg_updated_at e)"

lemma config_number_inj: "inj config_number"
  by (rule injI) (auto simp: config_number_def intro: config_entry.equality)

interpretation configs: writing_steps "numbered_codec config_number" "config_step (numbered_codec config_number)"
  by (rule configs_writing [OF numbered_codec_roundtrip [OF config_number_inj]])

lemma store_remove_entries:
  "entries (fst (snd (store_remove C k w st))) = (if hm_contains (entries (fst st)) k then hm_remove k (entries (fst st)) else entries (fst st))"
  by (auto simp: store_remove_def hm_contains_def split: option.splits)

lemma store_create_entries:
  "entries (fst (snd (store_create C noun k v w st))) =
     (if hm_contains (entries (fst st)) k then entries (fst st) else hm_insert k v (entries (fst st)))"
  by (auto simp: store_create_def)

lemma config_step_immutable:
  assumes "configs_get (fst st) name = Some e" "cfg_immutable e" "c \<noteq> Config_delete name"
  shows "configs_get (fst (config_step C w st c)) name = Some e"
  using assms
  by (cases c) (auto simp: configs_get_def store_get_def configs_create_def store_create_entries configs_delete_state
      store_remove_entries hm_contains_def configs_update_def split: option.splits if_splits)

text \<open>
  The calls of a run, each with what happened to its write. An immutable configuration stays exactly as it was created, whatever is called
  on the store and however the writes end, unless it is deleted.
\<close>

theorem immutable_config_kept:
  assumes "configs_get (fst st) name = Some e" and "cfg_immutable e"
    and "Config_delete name \<notin> snd ` set calls"
  shows "configs_get (fst (run (\<lambda>st (w, c). config_step C w st c) st calls)) name = Some e"
  using assms(1,3)
proof (induction calls arbitrary: st)
  case (Cons p calls)
  obtain w c where p: "p = (w, c)" by (cases p)
  have "configs_get (fst (config_step C w st c)) name = Some e"
    using Cons.prems assms(2) p by (intro config_step_immutable) auto
  then show ?case using Cons.IH [of "config_step C w st c"] Cons.prems p by simp
qed simp

theorem immutable_config_kept_witness:
  "configs_get (fst (run (\<lambda>st (w, c). config_step (numbered_codec config_number) w st c)
      (\<lparr>entries = [(''db'', \<lparr>cfg_data = [(''k'', ''v'')], cfg_immutable = True, cfg_created_at = 1, cfg_updated_at = 1\<rparr>)],
        store_path = []\<rparr>, \<lambda>_. None)
      [(Written, Config_update ''db'' [] 2), (Write_failed None, Config_create ''db'' [] False 3)])) ''db'' =
    Some \<lparr>cfg_data = [(''k'', ''v'')], cfg_immutable = True, cfg_created_at = 1, cfg_updated_at = 1\<rparr>"
  by (rule immutable_config_kept) (simp_all add: configs_get_def store_get_def)

section \<open>Revoked keys\<close>

datatype key_call = Key_create api_key_record | Key_revoke string | Key_delete string

fun key_step :: "api_key_record codec \<Rightarrow> write_result \<Rightarrow> api_key_record file_map \<times> disk \<Rightarrow> key_call \<Rightarrow> api_key_record file_map \<times> disk" where
  "key_step C w st (Key_create r) = snd (keys_create C w r st)"
| "key_step C w st (Key_revoke kid) = snd (keys_revoke C w kid st)"
| "key_step C w st (Key_delete kid) = snd (keys_delete C w kid st)"

text \<open>Every key is stored under its own identifier.\<close>

definition keys_wf :: "api_key_record file_map \<Rightarrow> bool" where
  "keys_wf s \<longleftrightarrow> hm_wf (entries s) \<and> (\<forall>k r. hm_get (entries s) k = Some r \<longrightarrow> key_id r = k)"

definition inactive :: "string \<Rightarrow> api_key_record file_map \<Rightarrow> bool" where
  "inactive kid s \<longleftrightarrow> (\<exists>r. hm_get (entries s) kid = Some r \<and> \<not> ak_active r)"

lemma keys_revoke_entries:
  "entries (fst (snd (keys_revoke C w kid st))) =
     (case hm_get (entries (fst st)) kid of None \<Rightarrow> entries (fst st)
      | Some k \<Rightarrow> hm_insert kid (k\<lparr>ak_active := False\<rparr>) (entries (fst st)))"
  by (simp add: keys_revoke_def split: option.splits)

lemmas key_entries = keys_create_def store_create_entries keys_revoke_entries keys_delete_def store_remove_entries

lemma key_step_wf: "keys_wf (fst st) \<Longrightarrow> keys_wf (fst (key_step C w st c))"
  by (cases c) (auto simp: keys_wf_def key_entries simp del: map_of_eq_Some_iff split: option.splits if_splits)

lemma key_step_inactive:
  "inactive kid (fst st) \<Longrightarrow> c \<noteq> Key_delete kid \<Longrightarrow> inactive kid (fst (key_step C w st c))"
  by (cases c) (auto simp: inactive_def key_entries hm_contains_def split: option.splits)

lemma key_run:
  assumes "keys_wf (fst st)" "inactive kid (fst st)" "Key_delete kid \<notin> snd ` set calls"
  shows "keys_wf (fst (run (\<lambda>st (w, c). key_step C w st c) st calls)) \<and>
    inactive kid (fst (run (\<lambda>st (w, c). key_step C w st c) st calls))"
  using assms
proof (induction calls arbitrary: st)
  case (Cons p calls)
  obtain w c where p: "p = (w, c)" by (cases p)
  have "keys_wf (fst (key_step C w st c))" "inactive kid (fst (key_step C w st c))"
    using key_step_wf [OF Cons.prems(1)] key_step_inactive [OF Cons.prems(2), of c] Cons.prems(3) p by auto
  then show ?case using Cons.IH [of "key_step C w st c"] Cons.prems p by simp
qed simp

text \<open>The key a hash finds is in the store, active and has that hash; nothing is found only when there is no such key.\<close>

lemma find_by_hash_Some:
  "keys_wf s \<Longrightarrow> find_by_hash s h = Some r \<Longrightarrow>
   hm_get (entries s) (key_id r) = Some r \<and> secret_hash r = h \<and> ak_active r"
  unfolding find_by_hash_def find_Some_iff keys_wf_def
  by (auto simp: in_set_conv_nth) (metis hm_get_Some_iff nth_mem prod.collapse)

text \<open>
  Once a key is revoked, no secret authenticates as it any more: whatever keys are created, revoked or
  deleted afterwards, with failing writes or not, the lookup by hash never returns the revoked identifier unless that key
  was deleted.
\<close>

theorem revoked_key_never_found:
  assumes "keys_wf (fst st)" and "keys_revoke C w kid st = (Inr (), st')"
    and "Key_delete kid \<notin> snd ` set calls"
    and "find_by_hash (fst (run (\<lambda>st (w, c). key_step C w st c) st' calls)) h = Some r"
  shows "key_id r \<noteq> kid"
proof
  assume eq: "key_id r = kid"
  have "inactive kid (fst st')" using assms(2) by (auto simp: keys_revoke_def inactive_def split: option.splits)
  moreover have "keys_wf (fst st')" using key_step_wf [OF assms(1), of C w "Key_revoke kid"] assms(2) by simp
  ultimately show False
    using key_run [OF _ _ assms(3), of st' C] find_by_hash_Some [OF _ assms(4)] eq by (auto simp: inactive_def)
qed

theorem revoked_key_never_found_witness:
  "let C = numbered_codec (\<lambda>_ :: api_key_record. 0);
       k = (\<lambda>i. \<lparr>key_id = i, ak_name = i, secret_hash = ''h'', scopes = [], ak_role = ''admin'', ak_active = True, ak_created_at = 1,
            last_used = None\<rparr>);
       st = (\<lparr>entries = [(''a'', k ''a''), (''b'', k ''b'')], store_path = []\<rparr>, \<lambda>_ :: path. None :: string option);
       st' = snd (keys_revoke C Written ''a'' st)
   in find_by_hash (fst st') ''h'' = Some (k ''b'') \<and> key_id (k ''b'') \<noteq> ''a''"
proof -
  let ?C = "numbered_codec (\<lambda>_ :: api_key_record. 0)"
  let ?k = "\<lambda>i. \<lparr>key_id = i, ak_name = i, secret_hash = ''h'', scopes = [], ak_role = ''admin'', ak_active = True, ak_created_at = 1,
            last_used = None\<rparr>"
  let ?st = "(\<lparr>entries = [(''a'', ?k ''a''), (''b'', ?k ''b'')], store_path = []\<rparr>, \<lambda>_ :: path. None :: string option)"
  have f: "find_by_hash (fst (snd (keys_revoke ?C Written ''a'' ?st))) ''h'' = Some (?k ''b'')"
    by (simp add: find_by_hash_def keys_revoke_entries hm_insert_def)
  have wf: "keys_wf (fst ?st)" by (auto simp: keys_wf_def split: if_splits)
  have rv: "keys_revoke ?C Written ''a'' ?st = (Inr (), snd (keys_revoke ?C Written ''a'' ?st))"
    by (simp add: keys_revoke_def)
  have "key_id (?k ''b'') \<noteq> ''a''"
    using revoked_key_never_found [OF wf rv, of "[]" "''h''" "?k ''b''"] f by simp
  with f show ?thesis by (simp add: Let_def)
qed

section \<open>Queries of the access log\<close>

lemma take_sorted_bound:
  assumes "sorted (map f xs)" and "x \<in> set (take n xs)" and "y \<in> set (drop n xs)"
  shows "f x \<le> f y"
proof -
  have "sorted (map f (take n xs) @ map f (drop n xs))" using assms(1) by (metis append_take_drop_id map_append)
  then show ?thesis using assms(2,3) by (auto simp: sorted_append)
qed

text \<open>
  A query returns the newest matching entries: they are entries of the log, newest first, as many as the limit allows,
  and every matching entry that is left out is no newer than any that is returned.
\<close>

theorem log_query_newest:
  fixes s act what n
  defines "matching \<equiv> filter (log_matches act what) (hm_values (entries s))"
  shows "\<exists>rest. mset matching = mset (log_query s act what n) + mset rest \<and>
    length (log_query s act what n) = min n (length matching) \<and>
    sorted (map (\<lambda>e. - log_timestamp e) (log_query s act what n)) \<and>
    (\<forall>e\<in>set (log_query s act what n). \<forall>r\<in>set rest. log_timestamp r \<le> log_timestamp e)"
proof -
  let ?f = "\<lambda>e. - log_timestamp e" and ?xs = "sort_key (\<lambda>e. - log_timestamp e) matching"
  have q: "log_query s act what n = take n ?xs" by (simp add: log_query_def matching_def)
  have "mset matching = mset (take n ?xs) + mset (drop n ?xs)"
    by (metis append_take_drop_id mset_append mset_sort)
  moreover have "sorted (map ?f (take n ?xs))" by (simp add: sorted_wrt_take flip: take_map)
  moreover have "log_timestamp r \<le> log_timestamp e" if "e \<in> set (take n ?xs)" "r \<in> set (drop n ?xs)" for e r
    using take_sorted_bound [of ?f ?xs e n r] that by simp
  ultimately show ?thesis unfolding q by (intro exI [of _ "drop n ?xs"]) auto
qed

theorem log_query_newest_witness:
  "length (log_query
      \<lparr>entries = [(''1'', \<lparr>log_id = ''1'', log_timestamp = 10, log_actor = ''a'', log_action = ''x'', log_resource = ''r'',
           log_resource_id = None, log_result = ''ok'', log_details = None\<rparr>),
         (''2'', \<lparr>log_id = ''2'', log_timestamp = 20, log_actor = ''a'', log_action = ''x'', log_resource = ''r'',
           log_resource_id = None, log_result = ''ok'', log_details = None\<rparr>)], store_path = []\<rparr> (Some ''a'') None 1) = 1"
  using log_query_newest [of "Some ''a''" None
      "\<lparr>entries = [(''1'', \<lparr>log_id = ''1'', log_timestamp = 10, log_actor = ''a'', log_action = ''x'', log_resource = ''r'',
           log_resource_id = None, log_result = ''ok'', log_details = None\<rparr>),
         (''2'', \<lparr>log_id = ''2'', log_timestamp = 20, log_actor = ''a'', log_action = ''x'', log_resource = ''r'',
           log_resource_id = None, log_result = ''ok'', log_details = None\<rparr>)], store_path = []\<rparr>" 1]
  by (auto simp: log_matches_def)

end
