(* ===== verification/Deploy_Commands.thy ===== *)
theory Deploy_Commands
  imports Node_Stores Firewall
begin

text \<open>
  The deployment and autoscaling handlers of a node, \<open>crates/clawnode/src/deploy_cmd.rs\<close> and \<open>autoscale_cmd.rs\<close>: they start and
  remove containers through the container runtime's command line and keep records in their stores. The runtime is a parameter
  with a contract; so is the text form of a floating-point number. Handlers take their decoded parameters (decoding fails before
  anything happens) and run to the end; the queries that only print a record are not modelled.
\<close>

section \<open>Containers\<close>

record 'd node_env =
  docker :: "'d runner"
  container_runtime :: string
  show_f32 :: "f64 \<Rightarrow> string"
  io_text :: string

definition replica_name :: "string \<Rightarrow> nat \<Rightarrow> string" where
  "replica_name name i = ''claw-deploy-'' @ name @ ''-'' @ show_nat i"

definition pull_image :: "'d node_env \<Rightarrow> string \<Rightarrow> 'd \<Rightarrow> (string, unit, 'd) outcome" where
  "pull_image env img d =
     (case docker env [''pull'', img] d of
        (None, d') \<Rightarrow> (Inl (io_text env), d')
      | (Some out, d') \<Rightarrow>
          if cmd_success out then (Inr (), d') else (Inl (''image pull failed: '' @ cmd_stderr out), d'))"

fun join :: "string \<Rightarrow> string list \<Rightarrow> string" where
  "join sep [] = []"
| "join sep [x] = x"
| "join sep (x # xs) = x @ sep @ join sep xs"

definition gpu_args :: "'d node_env \<Rightarrow> u32 \<Rightarrow> string list" where
  "gpu_args env gpus =
     (if 0 < gpus then
        (if container_runtime env = ''docker''
         then [''--gpus'', CHR 0x22 # ''device='' @ join '','' (map show_nat [0..<unat gpus]) @ [CHR 0x22]]
         else if container_runtime env = ''podman'' then [''--device'', ''nvidia.com/gpu=all''] else [])
      else [])"

definition replica_options :: "'d node_env \<Rightarrow> string \<Rightarrow> string \<Rightarrow> nat \<Rightarrow> u32 \<Rightarrow> string option \<Rightarrow> f64 option \<Rightarrow> string list" where
  "replica_options env name img i gpus memory cpu =
     [''--label'', ''managed-by=clawbernetes'', ''--label'', ''deploy-name='' @ name,
      ''--label'', ''deploy-replica='' @ show_nat i, ''--restart'', ''unless-stopped''] @
     gpu_args env gpus @
     (case memory of None \<Rightarrow> [] | Some m \<Rightarrow> [''--memory'', m]) @
     (case cpu of None \<Rightarrow> [] | Some c \<Rightarrow> [''--cpus'', show_f32 env c]) @ [img]"

definition start_replica ::
  "'d node_env \<Rightarrow> string \<Rightarrow> string \<Rightarrow> nat \<Rightarrow> u32 \<Rightarrow> string option \<Rightarrow> f64 option \<Rightarrow> 'd \<Rightarrow> (string, string, 'd) outcome" where
  "start_replica env name img i gpus memory cpu d =
     (case docker env (''run'' # ''-d'' # ''--name'' # replica_name name i # replica_options env name img i gpus memory cpu) d of
        (None, d') \<Rightarrow> (Inl (io_text env), d')
      | (Some out, d') \<Rightarrow>
          if cmd_success out then (Inr (trim (cmd_stdout out)), d')
          else (Inl (''replica start failed: '' @ cmd_stderr out), d'))"

definition remove_container :: "'d node_env \<Rightarrow> string \<Rightarrow> 'd \<Rightarrow> 'd" where
  "remove_container env cid d = run_all (docker env) [[''stop'', ''--time'', ''10'', cid], [''rm'', ''-f'', cid]] d"

definition remove_containers :: "'d node_env \<Rightarrow> string list \<Rightarrow> 'd \<Rightarrow> 'd" where
  "remove_containers env cids d = fold (remove_container env) cids d"

text \<open>The loop that starts the replicas: the first failure removes those already started.\<close>

fun start_replicas ::
  "'d node_env \<Rightarrow> string \<Rightarrow> string \<Rightarrow> u32 \<Rightarrow> string option \<Rightarrow> f64 option \<Rightarrow> nat list \<Rightarrow> string list \<Rightarrow> 'd
   \<Rightarrow> (nat \<times> string, string list, 'd) outcome" where
  "start_replicas env name img gpus memory cpu [] cids d = (Inr cids, d)"
| "start_replicas env name img gpus memory cpu (i # is) cids d =
     (case start_replica env name img i gpus memory cpu d of
        (Inr cid, d') \<Rightarrow> start_replicas env name img gpus memory cpu is (cids @ [cid]) d'
      | (Inl e, d') \<Rightarrow> (Inl (i, e), remove_containers env cids d'))"

section \<open>Deployment handlers\<close>

type_synonym deploys = "deploy_record file_map \<times> disk"

record deploy_create_params =
  dc_name :: string
  dc_image :: string
  dc_replicas :: u32
  dc_strategy :: "string option"
  dc_gpus :: "u32 option"
  dc_memory :: "string option"
  dc_cpu :: "f64 option"

definition create_gpus :: "deploy_create_params \<Rightarrow> u32" where
  "create_gpus p = (case dc_gpus p of Some g \<Rightarrow> g | None \<Rightarrow> 0)"

definition new_deploy_record :: "timestamp \<Rightarrow> deploy_create_params \<Rightarrow> u32 \<Rightarrow> string list \<Rightarrow> deploy_record" where
  "new_deploy_record now p gpus cids =
     \<lparr>dep_name = dc_name p, dep_image = dc_image p, previous_image = None,
      replicas = dc_replicas p, dep_container_ids = cids, gpus_per_replica = gpus, dep_memory = dc_memory p,
      dep_cpu = dc_cpu p, dep_strategy = (case dc_strategy p of Some x \<Rightarrow> x | None \<Rightarrow> ''rolling''),
      dep_state = ''active'', dep_revision = 1,
      dep_history = [\<lparr>rev_revision = 1, rev_image = dc_image p, rev_replicas = dc_replicas p,
        rev_timestamp = now, rev_reason = Some ''initial deployment''\<rparr>],
      dep_created_at = now, dep_updated_at = now\<rparr>"

definition handle_deploy_create ::
  "'d node_env \<Rightarrow> deploy_record codec \<Rightarrow> write_result \<Rightarrow> timestamp \<Rightarrow> deploy_create_params \<Rightarrow> deploys \<times> 'd
   \<Rightarrow> (string, deploy_record, deploys \<times> 'd) outcome" where
  "handle_deploy_create env C w now p s =
     (case s of (st, d) \<Rightarrow>
        if deploys_get (fst st) (dc_name p) \<noteq> None then (Inl (quoted ''deployment'' (dc_name p) ''already exists''), s)
        else
          let gpus = create_gpus p
          in case pull_image env (dc_image p) d of
               (Inl e, d1) \<Rightarrow> (Inl e, st, d1)
             | (Inr _, d1) \<Rightarrow>
                 (case start_replicas env (dc_name p) (dc_image p) gpus (dc_memory p) (dc_cpu p) [0..<unat (dc_replicas p)] [] d1 of
                    (Inl (i, e), d2) \<Rightarrow> (Inl e, st, d2)
                  | (Inr cids, d2) \<Rightarrow>
                      (let r = new_deploy_record now p gpus cids
                       in case deploys_create C w r st of
                            (Inl e, st') \<Rightarrow> (Inl e, st', d2)
                          | (Inr _, st') \<Rightarrow> (Inr r, st', d2))))"

record deploy_update_params =
  du_name :: string
  du_image :: "string option"
  du_replicas :: "u32 option"

text \<open>
  The change of a record by an update or a rollback. \<open>None\<close>: the revision counter overflows in a build with
  checks.
\<close>

definition revise ::
  "bool \<Rightarrow> timestamp \<Rightarrow> timestamp \<Rightarrow> string \<Rightarrow> string \<Rightarrow> u32 \<Rightarrow> string list \<Rightarrow> string \<Rightarrow> deploy_record \<Rightarrow> deploy_record option" where
  "revise checks now now' old_image new_image n cids why r =
     map_option (\<lambda>rev. r\<lparr>previous_image := Some old_image, dep_image := new_image, replicas := n, dep_container_ids := cids,
         dep_revision := rev, dep_state := ''active'', dep_updated_at := now,
         dep_history := dep_history r @ [\<lparr>rev_revision = rev, rev_image = new_image, rev_replicas = n,
           rev_timestamp = now', rev_reason = Some why\<rparr>]\<rparr>)
       (add_op checks (dep_revision r) 1)"

definition commit_revision ::
  "deploy_record codec \<Rightarrow> write_result \<Rightarrow> string \<Rightarrow> (deploy_record \<Rightarrow> deploy_record option) \<Rightarrow> deploys \<Rightarrow> deploys option" where
  "commit_revision C w name f st =
     (case deploys_get (fst st) name of
        None \<Rightarrow> Some (deploys_update C w name st)
      | Some r \<Rightarrow> map_option (\<lambda>r'. deploys_update C w name (deploys_get_mut name (\<lambda>_. r') st)) (f r))"

definition handle_deploy_update ::
  "bool \<Rightarrow> 'd node_env \<Rightarrow> deploy_record codec \<Rightarrow> write_result \<Rightarrow> timestamp \<Rightarrow> timestamp \<Rightarrow> deploy_update_params \<Rightarrow> deploys \<times> 'd
   \<Rightarrow> (string, string list, deploys \<times> 'd) outcome option" where
  "handle_deploy_update checks env C w now now' p s =
     (case s of (st, d) \<Rightarrow>
        case deploys_get (fst st) (du_name p) of
          None \<Rightarrow> Some (Inl (quoted ''deployment'' (du_name p) ''not found''), s)
        | Some r \<Rightarrow>
            if dep_state r = ''paused'' then Some (Inl ''deployment is paused, resume before updating'', s)
            else
              let old_image = dep_image r;
                  new_image = (case du_image p of Some x \<Rightarrow> x | None \<Rightarrow> old_image);
                  new_replicas = (case du_replicas p of Some n \<Rightarrow> n | None \<Rightarrow> replicas r)
              in case (if new_image \<noteq> old_image then pull_image env new_image d else (Inr (), d)) of
                   (Inl e, d1) \<Rightarrow> Some (Inl e, st, d1)
                 | (Inr _, d1) \<Rightarrow>
                     (case start_replicas env (du_name p) new_image (gpus_per_replica r) (dep_memory r) (dep_cpu r)
                         [0..<unat new_replicas] [] d1 of
                        (Inl (i, e), d2) \<Rightarrow> Some (Inl (''update failed at replica '' @ show_nat i @ '': '' @ e), st, d2)
                      | (Inr cids, d2) \<Rightarrow>
                          (let d3 = remove_containers env (dep_container_ids r) d2
                           in map_option (\<lambda>st'. (Inr cids, st', d3))
                                (commit_revision C w (du_name p) (revise checks now now' old_image new_image new_replicas cids ''update'') st))))"

definition handle_deploy_rollback ::
  "bool \<Rightarrow> 'd node_env \<Rightarrow> deploy_record codec \<Rightarrow> write_result \<Rightarrow> timestamp \<Rightarrow> timestamp \<Rightarrow> string \<Rightarrow> string option \<Rightarrow> deploys \<times> 'd
   \<Rightarrow> (string, string list, deploys \<times> 'd) outcome option" where
  "handle_deploy_rollback checks env C w now now' name why s =
     (case s of (st, d) \<Rightarrow>
        case deploys_get (fst st) name of
          None \<Rightarrow> Some (Inl (quoted ''deployment'' name ''not found''), s)
        | Some r \<Rightarrow>
            (case previous_image r of
               None \<Rightarrow> Some (Inl ''no previous image to rollback to'', s)
             | Some prev \<Rightarrow>
                 (let reason = (case why of Some x \<Rightarrow> x | None \<Rightarrow> ''manual rollback'')
                  in case start_replicas env name prev (gpus_per_replica r) (dep_memory r) (dep_cpu r) [0..<unat (replicas r)] [] d of
                       (Inl (i, e), d2) \<Rightarrow> Some (Inl (''rollback failed at replica '' @ show_nat i @ '': '' @ e), st, d2)
                     | (Inr cids, d2) \<Rightarrow>
                         (let d3 = remove_containers env (dep_container_ids r) d2
                          in map_option (\<lambda>st'. (Inr cids, st', d3))
                               (commit_revision C w name
                                 (\<lambda>r. revise checks now now' (dep_image r) prev (replicas r) cids (''rollback: '' @ reason) r) st)))))"

definition edit_deploy ::
  "deploy_record codec \<Rightarrow> write_result \<Rightarrow> string option \<Rightarrow> (deploy_record \<Rightarrow> deploy_record) \<Rightarrow> deploys \<Rightarrow> (string, string, deploys) outcome" where
  "edit_deploy C w nm f st =
     (case nm of
        None \<Rightarrow> (Inl ''name required'', st)
      | Some name \<Rightarrow>
          if deploys_get (fst st) name = None then (Inl (quoted ''deployment'' name ''not found''), st)
          else (Inr name, deploys_update C w name (deploys_get_mut name f st)))"

definition handle_deploy_promote ::
  "deploy_record codec \<Rightarrow> write_result \<Rightarrow> timestamp \<Rightarrow> string option \<Rightarrow> deploys \<Rightarrow> (string, string, deploys) outcome" where
  "handle_deploy_promote C w now nm st =
     edit_deploy C w nm (\<lambda>r. r\<lparr>previous_image := None, dep_state := ''active'', dep_updated_at := now\<rparr>) st"

definition handle_deploy_pause ::
  "deploy_record codec \<Rightarrow> write_result \<Rightarrow> timestamp \<Rightarrow> string option \<Rightarrow> deploys \<Rightarrow> (string, string, deploys) outcome" where
  "handle_deploy_pause C w now nm st = edit_deploy C w nm (\<lambda>r. r\<lparr>dep_state := ''paused'', dep_updated_at := now\<rparr>) st"

definition handle_deploy_delete ::
  "'d node_env \<Rightarrow> deploy_record codec \<Rightarrow> write_result \<Rightarrow> string option \<Rightarrow> deploys \<times> 'd \<Rightarrow> (string, nat, deploys \<times> 'd) outcome" where
  "handle_deploy_delete env C w nm s =
     (case s of (st, d) \<Rightarrow>
        case nm of
          None \<Rightarrow> (Inl ''name required'', s)
        | Some name \<Rightarrow>
            (case deploys_get (fst st) name of
               None \<Rightarrow> (Inl (quoted ''deployment'' name ''not found''), s)
             | Some r \<Rightarrow>
                 (Inr (length (dep_container_ids r)), snd (deploys_delete C w name st),
                  remove_containers env (dep_container_ids r) d)))"

section \<open>Autoscaling handlers\<close>

record autoscale_create_params =
  ac_name :: string
  ac_target :: string
  ac_min :: u32
  ac_max :: u32
  ac_policy_type :: string
  ac_metric :: "string option"
  ac_threshold :: "f64 option"

type_synonym autoscales = "autoscale_record file_map \<times> disk"

definition handle_autoscale_create ::
  "autoscale_record codec \<Rightarrow> write_result \<Rightarrow> timestamp \<Rightarrow> autoscale_create_params \<Rightarrow> autoscales \<Rightarrow> (string, unit, autoscales) outcome" where
  "handle_autoscale_create C w now p st =
     (if ac_max p < ac_min p then (Inl ''minReplicas cannot exceed maxReplicas'', st)
      else autoscale_create C w \<lparr>as_name = ac_name p, as_target = ac_target p, min_replicas = ac_min p, max_replicas = ac_max p,
        current_replicas = ac_min p, as_policy_type = ac_policy_type p, as_metric = ac_metric p, as_threshold = ac_threshold p,
        as_state = ''active'', as_created_at = now, as_updated_at = now\<rparr> st)"

record autoscale_adjust_params =
  aa_name :: string
  aa_replicas :: "u32 option"
  aa_min :: "u32 option"
  aa_max :: "u32 option"
  aa_enabled :: "bool option"

text \<open>\<open>Ord::clamp\<close> panics when the bounds are the wrong way round.\<close>

definition clamp :: "u32 \<Rightarrow> u32 \<Rightarrow> u32 \<Rightarrow> u32 option" where
  "clamp x lo hi = (if lo \<le> hi then Some (if x < lo then lo else if hi < x then hi else x) else None)"

definition set_bounds :: "autoscale_adjust_params \<Rightarrow> autoscale_record \<Rightarrow> autoscale_record" where
  "set_bounds p r =
     (let r1 = (case aa_min p of Some m \<Rightarrow> r\<lparr>min_replicas := m\<rparr> | None \<Rightarrow> r)
      in case aa_max p of Some m \<Rightarrow> r1\<lparr>max_replicas := m\<rparr> | None \<Rightarrow> r1)"

definition adjust :: "timestamp \<Rightarrow> autoscale_adjust_params \<Rightarrow> autoscale_record \<Rightarrow> autoscale_record option" where
  "adjust now p r =
     (let r1 = set_bounds p r
      in map_option (\<lambda>r2.
           (let r3 = (case aa_enabled p of Some b \<Rightarrow> r2\<lparr>as_state := if b then ''active'' else ''disabled''\<rparr> | None \<Rightarrow> r2)
            in r3\<lparr>as_updated_at := now\<rparr>))
           (case aa_replicas p of
              None \<Rightarrow> Some r1
            | Some n \<Rightarrow> map_option (\<lambda>c. r1\<lparr>current_replicas := c\<rparr>) (clamp n (min_replicas r1) (max_replicas r1))))"

text \<open>
  The second component of the result is the store as the handler leaves it. A panic, first component \<open>None\<close>, happens after
  the bounds have been set in memory and before the store is written.
\<close>

definition handle_autoscale_adjust ::
  "autoscale_record codec \<Rightarrow> write_result \<Rightarrow> timestamp \<Rightarrow> autoscale_adjust_params \<Rightarrow> autoscales \<Rightarrow> (string + unit) option \<times> autoscales" where
  "handle_autoscale_adjust C w now p st =
     (case autoscale_get (fst st) (aa_name p) of
        None \<Rightarrow> (Some (Inl (quoted ''autoscale policy'' (aa_name p) ''not found'')), st)
      | Some r \<Rightarrow>
          (case adjust now p r of
             None \<Rightarrow> (None, autoscale_get_mut (aa_name p) (set_bounds p) st)
           | Some r' \<Rightarrow> (Some (Inr ()), autoscale_update C w (aa_name p) (autoscale_get_mut (aa_name p) (\<lambda>_. r') st))))"

definition handle_autoscale_delete ::
  "autoscale_record codec \<Rightarrow> write_result \<Rightarrow> string \<Rightarrow> autoscales \<Rightarrow> (string, unit, autoscales) outcome" where
  "handle_autoscale_delete C w name st =
     (case autoscale_delete C w name st of
        (None, st') \<Rightarrow> (Inl (quoted ''autoscale policy'' name ''not found''), st')
      | (Some r, st') \<Rightarrow> (Inr (), st'))"

section \<open>How a creation can end\<close>

lemma create_cases [consumes 1, case_names refused failed started]:
  assumes "handle_deploy_create env C w now p (st, d) = (r, st', d')"
  obtains e where "r = Inl e" "st' = st" "d' = d \<or> d' = snd (pull_image env (dc_image p) d)"
  | d1 i e where "r = Inl e" "st' = st" "d1 = snd (pull_image env (dc_image p) d)"
      "start_replicas env (dc_name p) (dc_image p) (create_gpus p) (dc_memory p) (dc_cpu p) [0..<unat (dc_replicas p)] [] d1 = (Inl (i, e), d')"
  | d1 cids where "d1 = snd (pull_image env (dc_image p) d)"
      "start_replicas env (dc_name p) (dc_image p) (create_gpus p) (dc_memory p) (dc_cpu p) [0..<unat (dc_replicas p)] [] d1 = (Inr cids, d')"
      "r = Inr (new_deploy_record now p (create_gpus p) cids)"
      "hm_get (entries (fst st')) (dc_name p) = Some (new_deploy_record now p (create_gpus p) cids)"
proof (cases "deploys_get (fst st) (dc_name p)")
  case (Some x)
  then show ?thesis using assms that(1) by (auto simp: handle_deploy_create_def)
next
  case None
  obtain q d1 where q: "pull_image env (dc_image p) d = (q, d1)" by fastforce
  obtain rs d2 where rs: "start_replicas env (dc_name p) (dc_image p) (create_gpus p) (dc_memory p) (dc_cpu p)
      [0..<unat (dc_replicas p)] [] d1 = (rs, d2)" by fastforce
  have new: "\<not> hm_contains (entries (fst st)) (dc_name p)"
    using None by (simp add: deploys_get_def store_get_def hm_contains_def)
  have unf: "handle_deploy_create env C w now p (st, d) = (case q of Inl e \<Rightarrow> (Inl e, st, d1) | Inr _ \<Rightarrow>
      (case rs of Inl (i, e) \<Rightarrow> (Inl e, st, d2)
       | Inr cids \<Rightarrow> (Inr (new_deploy_record now p (create_gpus p) cids),
           snapshot C w (put (dc_name p) (new_deploy_record now p (create_gpus p) cids) st), d2)))"
    using None q rs new
    by (cases q; cases rs) (auto simp: handle_deploy_create_def Let_def deploys_create_def store_create_def new_deploy_record_def)
  show ?thesis
  proof (cases q)
    case (Inl e)
    then show ?thesis using that(1) assms unf q by auto
  next
    case (Inr u)
    show ?thesis
    proof (cases rs)
      case (Inl ie)
      then show ?thesis using that(2) [of "snd ie" d1 "fst ie"] assms unf q rs Inr by (cases ie) simp
    next
      case (Inr cids)
      then show ?thesis using that(3) [of d1 cids] assms unf q rs \<open>q = Inr u\<close> by auto
    qed
  qed
qed

section \<open>The contract of the container runtime\<close>

text \<open>
  What the handlers rely on of the command line of the runtime. \<open>taken\<close>: a container of that name exists, running or not.
  \<open>running\<close>: the identifiers of the containers that were started and have been neither stopped nor removed since (when the program inside a container
  exits is not the command line's doing). A container cannot be created under a name that is taken; one that was
  created keeps its name until it is removed; a \<open>run -d\<close> that succeeds starts one container and prints its new identifier, one that fails
  starts none; \<open>stop\<close> and \<open>rm -f\<close> affect no other container than the one they name, and an \<open>rm -f\<close> that succeeds has removed it, also
  while it runs. Nothing is said of a \<open>stop\<close> or \<open>rm -f\<close> that fails.
\<close>

definition removals_work :: "'d node_env \<Rightarrow> bool" where
  "removals_work env \<longleftrightarrow> (\<forall>cid d. succeeded (fst (docker env [''rm'', ''-f'', cid] d)))"

locale runtime_contract =
  fixes env :: "'d node_env"
    and taken :: "'d \<Rightarrow> string \<Rightarrow> bool"
    and running :: "'d \<Rightarrow> string set"
  assumes run_taken: "taken d n \<Longrightarrow> \<not> succeeded (fst (docker env (''run'' # ''-d'' # ''--name'' # n # opts) d))"
    and run_names: "succeeded (fst (docker env (''run'' # ''-d'' # ''--name'' # n # opts) d)) \<Longrightarrow>
      taken (snd (docker env (''run'' # ''-d'' # ''--name'' # n # opts) d)) n"
    and run_keeps: "taken d m \<Longrightarrow> taken (snd (docker env (''run'' # opts) d)) m"
    and run_running: "docker env (''run'' # opts) d = (r, d') \<Longrightarrow>
      (case r of
         Some out \<Rightarrow> if cmd_success out then trim (cmd_stdout out) \<notin> running d \<and> running d' = insert (trim (cmd_stdout out)) (running d)
                     else running d' = running d
       | None \<Rightarrow> running d' = running d)"
    and pull_names: "taken d m \<Longrightarrow> taken (snd (docker env [''pull'', im] d)) m"
    and pull_running: "running (snd (docker env [''pull'', im] d)) = running d"
    and stop_running: "running d - {cid} \<subseteq> running (snd (docker env [''stop'', ''--time'', ''10'', cid] d)) \<and>
      running (snd (docker env [''stop'', ''--time'', ''10'', cid] d)) \<subseteq> running d"
    and rm_others: "running d - {cid} \<subseteq> running (snd (docker env [''rm'', ''-f'', cid] d)) \<and>
      running (snd (docker env [''rm'', ''-f'', cid] d)) \<subseteq> running d"
    and rm_removes: "succeeded (fst (docker env [''rm'', ''-f'', cid] d)) \<Longrightarrow> cid \<notin> running (snd (docker env [''rm'', ''-f'', cid] d))"
begin

lemma remove_container_running:
  "running d - {cid} \<subseteq> running (remove_container env cid d) \<and> running (remove_container env cid d) \<subseteq> running d \<and>
   (removals_work env \<longrightarrow> cid \<notin> running (remove_container env cid d))"
  using stop_running [of d cid] rm_others [of "snd (docker env [''stop'', ''--time'', ''10'', cid] d)" cid] rm_removes
  by (auto simp: remove_container_def removals_work_def)

lemma remove_containers_running:
  "running d - set cids \<subseteq> running (remove_containers env cids d) \<and> running (remove_containers env cids d) \<subseteq> running d \<and>
   (removals_work env \<longrightarrow> running (remove_containers env cids d) = running d - set cids)"
proof (induction cids arbitrary: d)
  case (Cons c cs)
  have "remove_containers env (c # cs) d = remove_containers env cs (remove_container env c d)"
    by (simp add: remove_containers_def)
  with Cons.IH [of "remove_container env c d"] remove_container_running [of d c] show ?case by auto
qed (simp add: remove_containers_def)

lemma pull_image_running: "running (snd (pull_image env im d)) = running d"
  using pull_running [of im d] by (cases "docker env [''pull'', im] d") (simp add: pull_image_def split: option.split)

lemma pull_image_names: "taken d m \<Longrightarrow> taken (snd (pull_image env im d)) m"
  using pull_names [of d m im] by (cases "docker env [''pull'', im] d") (simp add: pull_image_def split: option.split)

lemma start_replica_run:
  obtains r d' opts where "docker env (''run'' # ''-d'' # ''--name'' # replica_name name i # opts) d = (r, d')"
    and "start_replica env name im i gpus memory cpu d =
      (case r of None \<Rightarrow> (Inl (io_text env), d')
       | Some out \<Rightarrow> if cmd_success out then (Inr (trim (cmd_stdout out)), d')
                     else (Inl (''replica start failed: '' @ cmd_stderr out), d'))"
  by (cases "docker env (''run'' # ''-d'' # ''--name'' # replica_name name i # replica_options env name im i gpus memory cpu) d")
    (simp add: start_replica_def)

lemma start_replica_taken:
  assumes "taken d (replica_name name i)"
  shows "\<exists>e. fst (start_replica env name im i gpus memory cpu d) = Inl e"
proof -
  obtain r d' opts where r: "docker env (''run'' # ''-d'' # ''--name'' # replica_name name i # opts) d = (r, d')"
    "start_replica env name im i gpus memory cpu d =
      (case r of None \<Rightarrow> (Inl (io_text env), d')
       | Some out \<Rightarrow> if cmd_success out then (Inr (trim (cmd_stdout out)), d')
                     else (Inl (''replica start failed: '' @ cmd_stderr out), d'))"
    by (rule start_replica_run)
  then show ?thesis using run_taken [OF assms, of opts] by (cases r) (auto simp: succeeded_def)
qed

lemma start_replica_names:
  assumes "start_replica env name im i gpus memory cpu d = (Inr cid, d')"
  shows "taken d' (replica_name name i)"
proof -
  obtain r d1 opts where r: "docker env (''run'' # ''-d'' # ''--name'' # replica_name name i # opts) d = (r, d1)"
    "start_replica env name im i gpus memory cpu d =
      (case r of None \<Rightarrow> (Inl (io_text env), d1)
       | Some out \<Rightarrow> if cmd_success out then (Inr (trim (cmd_stdout out)), d1)
                     else (Inl (''replica start failed: '' @ cmd_stderr out), d1))"
    by (rule start_replica_run)
  then show ?thesis
    using run_names [of "replica_name name i" opts d] assms by (cases r) (auto simp: succeeded_def split: if_splits)
qed

lemma start_replica_keeps:
  assumes "taken d m"
  shows "taken (snd (start_replica env name im i gpus memory cpu d)) m"
proof -
  obtain r d1 opts where r: "docker env (''run'' # ''-d'' # ''--name'' # replica_name name i # opts) d = (r, d1)"
    "start_replica env name im i gpus memory cpu d =
      (case r of None \<Rightarrow> (Inl (io_text env), d1)
       | Some out \<Rightarrow> if cmd_success out then (Inr (trim (cmd_stdout out)), d1)
                     else (Inl (''replica start failed: '' @ cmd_stderr out), d1))"
    by (rule start_replica_run)
  then show ?thesis
    using run_keeps [OF assms, of "''-d'' # ''--name'' # replica_name name i # opts"] by (cases r) simp_all
qed

lemma start_replica_running:
  assumes "start_replica env name im i gpus memory cpu d = (r, d')"
  shows "case r of Inr cid \<Rightarrow> cid \<notin> running d \<and> running d' = insert cid (running d) | Inl _ \<Rightarrow> running d' = running d"
  by (rule start_replica_run [of name i d im gpus memory cpu])
    (use assms in \<open>auto dest!: run_running split: option.splits if_splits\<close>)

lemma start_replicas_keeps:
  "start_replicas env name im gpus memory cpu is cids d = (Inr cids', d') \<Longrightarrow> taken d m \<Longrightarrow> taken d' m"
proof (induction "is" arbitrary: cids d)
  case (Cons i "is")
  then show ?case
    using start_replica_keeps [of d m name im i gpus memory cpu] by (auto split: prod.splits sum.splits)
qed simp

lemma start_replicas_running:
  assumes "set cids \<subseteq> running d" and "distinct cids"
    and "start_replicas env name im gpus memory cpu is cids d = (r, d')"
  shows "case r of
      Inr cids' \<Rightarrow> length cids' = length cids + length is \<and> distinct cids' \<and> set cids \<subseteq> set cids' \<and>
        running d' = running d \<union> set cids' \<and> set cids' \<inter> running d \<subseteq> set cids
    | Inl _ \<Rightarrow> running d - set cids \<subseteq> running d' \<and>
        (\<exists>new. length new < length is \<and> running d' \<subseteq> running d \<union> set new) \<and>
        (removals_work env \<longrightarrow> running d' = running d - set cids)"
  using assms
proof (induction "is" arbitrary: cids d)
  case (Cons i "is")
  obtain q d1 where q: "start_replica env name im i gpus memory cpu d = (q, d1)" by fastforce
  note run1 = start_replica_running [OF q]
  show ?case
  proof (cases q)
    case (Inl e)
    then have "r = Inl (i, e) \<and> d' = remove_containers env cids d1 \<and> running d1 = running d" using Cons.prems(3) q run1 by simp
    then show ?thesis using remove_containers_running [of d1 cids] by (auto intro!: exI [of _ "[]"])
  next
    case (Inr cid)
    have "set (cids @ [cid]) \<subseteq> running d1" "distinct (cids @ [cid])" using Cons.prems(1,2) run1 Inr by auto
    moreover have "start_replicas env name im gpus memory cpu is (cids @ [cid]) d1 = (r, d')" using Cons.prems(3) q Inr by simp
    ultimately have ih: "case r of
        Inr cids' \<Rightarrow> length cids' = length (cids @ [cid]) + length is \<and> distinct cids' \<and> set (cids @ [cid]) \<subseteq> set cids' \<and>
          running d' = running d1 \<union> set cids' \<and> set cids' \<inter> running d1 \<subseteq> set (cids @ [cid])
      | Inl _ \<Rightarrow> running d1 - set (cids @ [cid]) \<subseteq> running d' \<and>
          (\<exists>new. length new < length is \<and> running d' \<subseteq> running d1 \<union> set new) \<and>
          (removals_work env \<longrightarrow> running d' = running d1 - set (cids @ [cid]))"
      by (rule Cons.IH)
    show ?thesis
    proof (cases r)
      case (Inl e)
      with ih obtain new where "length new < length is" "running d' \<subseteq> running d1 \<union> set new" by auto
      then have "\<exists>new. length new < length (i # is) \<and> running d' \<subseteq> running d \<union> set new"
        using run1 \<open>q = Inr cid\<close> by (intro exI [of _ "cid # new"]) auto
      then show ?thesis using ih run1 \<open>q = Inr cid\<close> Inl by auto
    qed (use ih run1 Inr in auto)
  qed
qed auto

lemma blocked_start:
  assumes "taken d (replica_name name 0)" and "0 < n"
  shows "\<exists>e d'. start_replicas env name im gpus memory cpu [0..<n] [] d = (Inl (0, e), d') \<and> running d' = running d"
proof -
  obtain e d' where e: "start_replica env name im 0 gpus memory cpu d = (Inl e, d')"
    using start_replica_taken [OF assms(1), of im gpus memory cpu] by (metis prod.collapse)
  then have "running d' = running d" using start_replica_running [OF e] by simp
  then show ?thesis using e assms(2) by (simp add: upt_conv_Cons remove_containers_def)
qed

text \<open>
  A creation that succeeds leaves its replicas running and the record stored; one that fails leaves the store as it was and
  all containers running that ran before, and no others when the removals succeed.
\<close>

lemma create_all_or_nothing:
  assumes "handle_deploy_create env C w now p (st, d) = (r, st', d')"
  shows "case r of
      Inr rec \<Rightarrow> length (dep_container_ids rec) = unat (dc_replicas p) \<and> distinct (dep_container_ids rec) \<and>
        running d' = running d \<union> set (dep_container_ids rec) \<and> set (dep_container_ids rec) \<inter> running d = {} \<and>
        deploys_get (fst st') (dc_name p) = Some rec
    | Inl _ \<Rightarrow> st' = st \<and> running d \<subseteq> running d' \<and>
        (\<exists>new. length new \<le> unat (dc_replicas p) - 1 \<and> running d' \<subseteq> running d \<union> set new) \<and>
        (removals_work env \<longrightarrow> running d' = running d)"
  using assms
proof (cases rule: create_cases)
  case refused
  then show ?thesis by (auto simp: pull_image_running intro!: exI [of _ "[]"])
next
  case (failed d1 i e)
  then have run: "running d \<subseteq> running d'" "removals_work env \<longrightarrow> running d' = running d"
    "\<exists>new. length new < unat (dc_replicas p) \<and> running d' \<subseteq> running d \<union> set new"
    using start_replicas_running [OF _ _ failed(4)] pull_image_running [of "dc_image p" d] by simp_all
  then obtain new where "length new < unat (dc_replicas p)" "running d' \<subseteq> running d \<union> set new" by blast
  then have "length new \<le> unat (dc_replicas p) - 1 \<and> running d' \<subseteq> running d \<union> set new" by simp
  then show ?thesis using failed(1,2) run by auto
next
  case (started d1 cids)
  then show ?thesis
    using start_replicas_running [OF _ _ started(2)] pull_image_running [of "dc_image p" d]
    by (simp add: new_deploy_record_def deploys_get_def store_get_def)
qed

lemma created_name_taken:
  assumes "handle_deploy_create env C w now p (st, d) = (Inr rec, st', d')" and "0 < dc_replicas p"
  shows "taken d' (replica_name (dc_name p) 0)"
  using assms(1)
proof (cases rule: create_cases)
  case (started d1 cids)
  let ?gpus = "create_gpus p"
  have "0 < unat (dc_replicas p)" using assms(2) by (simp add: word_less_nat_alt)
  then have idx: "[0..<unat (dc_replicas p)] = 0 # [1..<unat (dc_replicas p)]" by (simp add: upt_conv_Cons)
  obtain q d2 where s: "start_replica env (dc_name p) (dc_image p) 0 ?gpus (dc_memory p) (dc_cpu p) d1 = (q, d2)" by fastforce
  then obtain cid where q: "q = Inr cid" using started(2) unfolding idx by (cases q) auto
  have "start_replicas env (dc_name p) (dc_image p) ?gpus (dc_memory p) (dc_cpu p) [1..<unat (dc_replicas p)] [cid] d2 = (Inr cids, d')"
    using started(2) s q unfolding idx by simp
  from start_replicas_keeps [OF this start_replica_names [OF s [unfolded q]]] show ?thesis .
qed simp_all

lemma update_blocked:
  assumes "taken d (replica_name (du_name u) 0)" and "deploys_get (fst st) (du_name u) = Some r"
    and "0 < (case du_replicas u of Some n \<Rightarrow> n | None \<Rightarrow> replicas r)"
  shows "\<exists>e d'. handle_deploy_update checks env C w now now' u (st, d) = Some (Inl e, st, d') \<and> running d' = running d"
proof (cases "dep_state r = ''paused''")
  case False
  let ?img = "case du_image u of Some x \<Rightarrow> x | None \<Rightarrow> dep_image r"
  let ?n = "case du_replicas u of Some n \<Rightarrow> n | None \<Rightarrow> replicas r"
  obtain q d1 where q: "(if ?img \<noteq> dep_image r then pull_image env ?img d else (Inr (), d)) = (q, d1)" by fastforce
  have d1: "running d1 = running d" "taken d1 (replica_name (du_name u) 0)"
    using q pull_image_running [of ?img d] pull_image_names [OF assms(1), of ?img] assms(1) by (auto split: if_splits)
  have "0 < unat ?n" using assms(3) by (simp add: word_less_nat_alt)
  from blocked_start [OF d1(2) this] obtain e d' where
    "start_replicas env (du_name u) ?img (gpus_per_replica r) (dep_memory r) (dep_cpu r) [0..<unat ?n] [] d1 = (Inl (0, e), d')"
    "running d' = running d1" by blast
  then show ?thesis
    using assms(2) False q d1(1) by (cases q) (simp_all add: handle_deploy_update_def Let_def)
qed (use assms(2) in \<open>simp add: handle_deploy_update_def\<close>)

end

section \<open>A runtime that keeps a list of containers\<close>

definition fresh_id :: "(string \<times> string) list \<Rightarrow> string" where
  "fresh_id d = replicate (Suc (sum_list (map (length \<circ> snd) d))) CHR ''x''"

definition cmd_ok :: "string \<Rightarrow> cmd_output option" where
  "cmd_ok out = Some \<lparr>cmd_success = True, cmd_stdout = out, cmd_stderr = []\<rparr>"

definition cmd_fail :: "cmd_output option" where
  "cmd_fail = Some \<lparr>cmd_success = False, cmd_stdout = [], cmd_stderr = ''Conflict''\<rparr>"

fun list_docker :: "(string \<times> string) list runner" where
  "list_docker (c # rest) d =
     (if c = ''run'' then
        (case rest of
           a # b # n # opts \<Rightarrow>
             if a = ''-d'' \<and> b = ''--name'' \<and> n \<notin> fst ` set d then (cmd_ok (fresh_id d), (n, fresh_id d) # d) else (cmd_fail, d)
         | _ \<Rightarrow> (cmd_fail, d))
      else if c = ''rm'' then (cmd_ok [], filter (\<lambda>x. snd x \<noteq> last rest) d)
      else (cmd_ok [], d))"
| "list_docker [] d = (cmd_fail, d)"

definition list_env :: "(string \<times> string) list node_env" where
  "list_env = \<lparr>docker = list_docker, container_runtime = ''docker'', show_f32 = (\<lambda>_. ''1''), io_text = ''io''\<rparr>"

lemma trim_fresh_id: "trim (fresh_id d) = fresh_id d"
proof -
  have "dropWhile is_space (fresh_id d) = fresh_id d" "rev (fresh_id d) = fresh_id d"
    by (simp_all add: fresh_id_def is_space_def dropWhile_eq_self_iff del: replicate_Suc)
  then show ?thesis by (simp add: trim_def)
qed

lemma fresh_id_new: "fresh_id d \<notin> snd ` set d"
proof
  assume "fresh_id d \<in> snd ` set d"
  then obtain x where "x \<in> set d" "fresh_id d = snd x" by auto
  then have "length (fresh_id d) \<le> sum_list (map (length \<circ> snd) d)"
    using member_le_sum_list [of "length (snd x)" "map (length \<circ> snd) d"] by auto
  then show False by (simp add: fresh_id_def)
qed

interpretation list_runtime: runtime_contract list_env "\<lambda>d n. n \<in> fst ` set d" "\<lambda>d. snd ` set d"
proof unfold_locales
  fix d d' :: "(string \<times> string) list" and opts r
  assume "docker list_env (''run'' # opts) d = (r, d')"
  then show "case r of
      Some out \<Rightarrow> if cmd_success out then trim (cmd_stdout out) \<notin> snd ` set d \<and> snd ` set d' = insert (trim (cmd_stdout out)) (snd ` set d)
                  else snd ` set d' = snd ` set d
    | None \<Rightarrow> snd ` set d' = snd ` set d"
    using fresh_id_new [of d]
    by (auto simp: list_env_def cmd_ok_def cmd_fail_def trim_fresh_id split: list.splits if_splits)
next
  fix d :: "(string \<times> string) list" and m opts
  assume "m \<in> fst ` set d"
  then show "m \<in> fst ` set (snd (docker list_env (''run'' # opts) d))"
    by (auto simp: list_env_def split: list.split)
qed (auto simp: list_env_def cmd_ok_def cmd_fail_def succeeded_def split: if_splits)

section \<open>Properties of deployments\<close>

text \<open>
  C28. Creating a deployment is all or nothing, as far as the runtime removes what it is told to: when it succeeds, as many new
  containers as there are replicas were started, all different, and the record that names them is stored; when it fails at any point, the store is
  unchanged, no container that ran before was stopped, no new container or fewer of them than replicas run, and none if \<open>rm -f\<close> never
  fails in that runtime. (The results of the removals are ignored, so a removal that fails leaves its container behind, which the
  theorem below shows.)
\<close>

theorem deploy_create_atomic:
  assumes "runtime_contract env taken running"
    and "handle_deploy_create env C w now p (st, d) = (r, st', d')"
  shows "case r of
      Inr rec \<Rightarrow> length (dep_container_ids rec) = unat (dc_replicas p) \<and> distinct (dep_container_ids rec) \<and>
        running d' = running d \<union> set (dep_container_ids rec) \<and> set (dep_container_ids rec) \<inter> running d = {} \<and>
        deploys_get (fst st') (dc_name p) = Some rec
    | Inl _ \<Rightarrow> st' = st \<and> running d \<subseteq> running d' \<and>
        (\<exists>new. length new \<le> unat (dc_replicas p) - 1 \<and> running d' \<subseteq> running d \<union> set new) \<and>
        (removals_work env \<longrightarrow> running d' = running d)"
  by (rule runtime_contract.create_all_or_nothing [OF assms])

definition demo_create :: deploy_create_params where
  "demo_create = \<lparr>dc_name = ''web'', dc_image = ''nginx'', dc_replicas = 1, dc_strategy = None, dc_gpus = None, dc_memory = None,
     dc_cpu = None\<rparr>"

definition empty_deploys :: deploys where
  "empty_deploys = (\<lparr>entries = [], store_path = []\<rparr>, \<lambda>_. None)"

lemma demo_created:
  "\<exists>r st. handle_deploy_create list_env (numbered_codec (\<lambda>_. 0)) Written 1 demo_create (empty_deploys, []) =
     (Inr r, st, [(replica_name ''web'' 0, ''x'')]) \<and> deploys_get (fst st) ''web'' = Some r \<and> replicas r = 1"
  by (simp add: handle_deploy_create_def demo_create_def empty_deploys_def deploys_get_def store_get_def pull_image_def list_env_def
      cmd_ok_def start_replica_def fresh_id_def trim_def is_space_def deploys_create_def store_create_def new_deploy_record_def
      hm_contains_def Let_def)

theorem deploy_create_atomic_witness:
  "\<exists>r st. handle_deploy_create list_env (numbered_codec (\<lambda>_. 0)) Written 1 demo_create (empty_deploys, []) =
     (Inr r, st, [(replica_name ''web'' 0, ''x'')]) \<and> dep_container_ids r = [''x'']"
proof -
  obtain r st where c: "handle_deploy_create list_env (numbered_codec (\<lambda>_. 0)) Written 1 demo_create (empty_deploys, []) =
     (Inr r, st, [(replica_name ''web'' 0, ''x'')])" using demo_created by blast
  have l: "length (dep_container_ids r) = 1" "{''x''} = set (dep_container_ids r)"
    using deploy_create_atomic [OF list_runtime.runtime_contract_axioms c] by (simp_all add: demo_create_def)
  then have "dep_container_ids r = [''x'']" by (cases "dep_container_ids r") auto
  with c show ?thesis by blast
qed

text \<open>
  The condition on the removals is needed: in a runtime whose \<open>rm\<close> fails, a creation of two replicas whose second name is taken fails
  and leaves the container of the first one behind, which no record names.
\<close>

definition stuck_env :: "(string \<times> string) list node_env" where
  "stuck_env = list_env\<lparr>docker := (\<lambda>args d. if hd args = ''rm'' then (cmd_fail, d) else list_docker args d)\<rparr>"

theorem failed_removal_leaves_container:
  "\<exists>e cid. handle_deploy_create stuck_env (numbered_codec (\<lambda>_. 0)) Written 1 (demo_create\<lparr>dc_replicas := 2\<rparr>)
       (empty_deploys, [(replica_name ''web'' 1, ''old'')]) =
     (Inl e, empty_deploys, [(replica_name ''web'' 0, cid), (replica_name ''web'' 1, ''old'')])"
proof -
  have two: "[0..<2] = [0, Suc 0]" by (simp add: upt_rec)
  have names: "replica_name ''web'' 0 \<noteq> replica_name ''web'' (Suc 0)" by code_simp
  show ?thesis
    by (simp add: handle_deploy_create_def demo_create_def empty_deploys_def deploys_get_def store_get_def pull_image_def
        stuck_env_def list_env_def cmd_ok_def cmd_fail_def start_replica_def fresh_id_def Let_def two names
        remove_containers_def remove_container_def)
qed

text \<open>
  A deployment with a replica can never be updated while it runs: the new replicas are started under
  the names of the old ones, which the runtime refuses, before the old ones are removed. Whatever image and
  positive replica count an update of a freshly created deployment asks for, it fails and leaves the record and the containers as
  they were.
\<close>

theorem created_deployment_not_updatable:
  assumes "runtime_contract env taken running"
    and "handle_deploy_create env C w now p (st, d) = (Inr rec, st1, d1)"
    and "0 < dc_replicas p" and "du_name u = dc_name p" and "du_replicas u \<noteq> Some 0"
  shows "\<exists>e d2. handle_deploy_update checks env C w2 now2 now3 u (st1, d1) = Some (Inl e, st1, d2) \<and> running d2 = running d1"
proof -
  have g: "deploys_get (fst st1) (du_name u) = Some rec"
    using runtime_contract.create_all_or_nothing [OF assms(1,2)] assms(4) by simp
  have "replicas rec = dc_replicas p"
    using assms(2) by (cases rule: create_cases) (simp_all add: new_deploy_record_def)
  then have "0 < (case du_replicas u of Some n \<Rightarrow> n | None \<Rightarrow> replicas rec)"
    using assms(3,5) by (auto simp: word_neq_0_conv split: option.split)
  moreover have "taken d1 (replica_name (du_name u) 0)"
    using runtime_contract.created_name_taken [OF assms(1,2,3)] assms(4) by simp
  ultimately show ?thesis using runtime_contract.update_blocked [OF assms(1) _ g] by blast
qed

theorem created_deployment_not_updatable_witness:
  "\<exists>r st e d2. handle_deploy_create list_env (numbered_codec (\<lambda>_. 0)) Written 1 demo_create (empty_deploys, []) =
     (Inr r, st, [(replica_name ''web'' 0, ''x'')]) \<and>
     handle_deploy_update True list_env (numbered_codec (\<lambda>_. 0)) Written 2 3
       \<lparr>du_name = ''web'', du_image = Some ''nginx:2'', du_replicas = None\<rparr> (st, [(replica_name ''web'' 0, ''x'')]) = Some (Inl e, st, d2)"
proof -
  obtain r st where c: "handle_deploy_create list_env (numbered_codec (\<lambda>_. 0)) Written 1 demo_create (empty_deploys, []) =
     (Inr r, st, [(replica_name ''web'' 0, ''x'')])" using demo_created by blast
  let ?u = "\<lparr>du_name = ''web'', du_image = Some ''nginx:2'', du_replicas = None\<rparr>"
  have "\<exists>e d2. handle_deploy_update True list_env (numbered_codec (\<lambda>_. 0)) Written 2 3 ?u
      (st, [(replica_name ''web'' 0, ''x'')]) = Some (Inl e, st, d2) \<and> snd ` set d2 = snd ` set [(replica_name ''web'' 0, ''x'')]"
    by (rule created_deployment_not_updatable [OF list_runtime.runtime_contract_axioms c]) (simp_all add: demo_create_def)
  then obtain e d2 where "handle_deploy_update True list_env (numbered_codec (\<lambda>_. 0)) Written 2 3 ?u
      (st, [(replica_name ''web'' 0, ''x'')]) = Some (Inl e, st, d2)" by (elim exE conjE)
  with c show ?thesis by (intro exI conjI)
qed

section \<open>The revision history\<close>

text \<open>A record whose history lists the revisions from 1 to the current one, the last with the current image and replica count.\<close>

definition history_ok :: "deploy_record \<Rightarrow> bool" where
  "history_ok r \<longleftrightarrow> map (unat \<circ> rev_revision) (dep_history r) = [1..<Suc (unat (dep_revision r))] \<and>
     dep_history r \<noteq> [] \<and> rev_image (last (dep_history r)) = dep_image r \<and> rev_replicas (last (dep_history r)) = replicas r"

definition all_history_ok :: "deploys \<Rightarrow> bool" where
  "all_history_ok st \<longleftrightarrow> (\<forall>k r. deploys_get (fst st) k = Some r \<longrightarrow> history_ok r)"

lemma history_ok_new: "history_ok (new_deploy_record now p gpus cids)"
  by (simp add: history_ok_def new_deploy_record_def)

lemma history_ok_revise:
  assumes "history_ok r" and "revise True now now' old new n cids why r = Some r'"
  shows "history_ok r'"
proof -
  obtain v where v: "checked_add (dep_revision r) 1 = Some v" using assms(2) by (auto simp: revise_def add_op_def)
  have "unat v = Suc (unat (dep_revision r))" using checked_add_Some [OF v] by simp
  then show ?thesis using assms v by (auto simp: revise_def add_op_def history_ok_def)
qed

lemma all_history_put: "all_history_ok st \<Longrightarrow> history_ok r \<Longrightarrow> all_history_ok (put k r st)"
  by (simp add: all_history_ok_def deploys_get_def store_get_def)

lemma all_history_snapshot [simp]: "all_history_ok (snapshot C w st) = all_history_ok st"
  by (simp add: all_history_ok_def deploys_get_def store_get_def)

lemma all_history_update [simp]: "all_history_ok (deploys_update C w k st) = all_history_ok st"
  by (simp add: deploys_update_def store_update_def)

lemma all_history_mutate:
  "all_history_ok st \<Longrightarrow> (\<And>r. deploys_get (fst st) k = Some r \<Longrightarrow> history_ok (f r)) \<Longrightarrow> all_history_ok (deploys_get_mut k f st)"
  by (cases "hm_get (entries (fst st)) k")
    (simp_all add: deploys_get_mut_def store_mutate_def all_history_put deploys_get_def store_get_def)

lemma commit_history:
  assumes "all_history_ok st" and "commit_revision C w k f st = Some st'"
    and "\<And>r r'. history_ok r \<Longrightarrow> f r = Some r' \<Longrightarrow> history_ok r'"
  shows "all_history_ok st'"
proof (cases "deploys_get (fst st) k")
  case (Some r)
  then obtain r' where r': "f r = Some r'" "st' = deploys_update C w k (deploys_get_mut k (\<lambda>_. r') st)"
    using assms(2) by (auto simp: commit_revision_def)
  have "history_ok r'" using assms(1,3) Some r'(1) by (auto simp: all_history_ok_def)
  then show ?thesis using assms(1) r'(2) by (simp add: all_history_mutate)
qed (use assms in \<open>auto simp: commit_revision_def\<close>)

datatype deploy_call =
    Deploy_create timestamp deploy_create_params
  | Deploy_update timestamp timestamp deploy_update_params
  | Deploy_rollback timestamp timestamp string "string option"
  | Deploy_promote timestamp "string option"
  | Deploy_pause timestamp "string option"
  | Deploy_delete "string option"

text \<open>One call in a build that checks overflow; \<open>None\<close> is a panic.\<close>

fun deploy_step ::
  "'d node_env \<Rightarrow> deploy_record codec \<Rightarrow> write_result \<Rightarrow> deploy_call \<Rightarrow> deploys \<times> 'd \<Rightarrow> (deploys \<times> 'd) option" where
  "deploy_step env C w (Deploy_create t p) s = Some (snd (handle_deploy_create env C w t p s))"
| "deploy_step env C w (Deploy_update t t' p) s = map_option snd (handle_deploy_update True env C w t t' p s)"
| "deploy_step env C w (Deploy_rollback t t' n why) s = map_option snd (handle_deploy_rollback True env C w t t' n why s)"
| "deploy_step env C w (Deploy_promote t n) s = Some (snd (handle_deploy_promote C w t n (fst s)), snd s)"
| "deploy_step env C w (Deploy_pause t n) s = Some (snd (handle_deploy_pause C w t n (fst s)), snd s)"
| "deploy_step env C w (Deploy_delete n) s = Some (snd (handle_deploy_delete env C w n s))"

primrec deploy_run ::
  "'d node_env \<Rightarrow> deploy_record codec \<Rightarrow> (write_result \<times> deploy_call) list \<Rightarrow> deploys \<times> 'd \<Rightarrow> (deploys \<times> 'd) option" where
  "deploy_run env C [] s = Some s"
| "deploy_run env C (c # cs) s = Option.bind (deploy_step env C (fst c) (snd c) s) (deploy_run env C cs)"

lemma create_history: "all_history_ok st \<Longrightarrow> all_history_ok (fst (snd (handle_deploy_create env C w t p (st, d))))"
proof -
  assume ok: "all_history_ok st"
  obtain r st' d' where h: "handle_deploy_create env C w t p (st, d) = (r, st', d')" by (metis prod.exhaust)
  have "all_history_ok (snd (deploys_create C w (new_deploy_record t p g cids) st))" for g cids
    using ok by (simp add: deploys_create_def store_create_def all_history_put history_ok_new)
  then have "all_history_ok st'"
    using h ok by (auto simp: handle_deploy_create_def Let_def split: if_splits prod.splits sum.splits) (metis snd_conv)+
  with h show ?thesis by simp
qed

lemma update_history:
  assumes "all_history_ok st" and "handle_deploy_update True env C w t t' p (st, d) = Some (r, st', d')"
  shows "all_history_ok st'"
proof -
  have "st' = st \<or> (\<exists>old new n cids. commit_revision C w (du_name p) (revise True t t' old new n cids ''update'') st = Some st')"
    using assms(2) by (auto simp: handle_deploy_update_def Let_def split: option.splits if_splits prod.splits sum.splits)
  then show ?thesis using commit_history [OF assms(1)] history_ok_revise assms(1) by blast
qed

lemma rollback_history:
  assumes "all_history_ok st" and "handle_deploy_rollback True env C w t t' n why (st, d) = Some (r, st', d')"
  shows "all_history_ok st'"
proof -
  have "st' = st \<or> (\<exists>prev cids why'. commit_revision C w n
      (\<lambda>r. revise True t t' (dep_image r) prev (replicas r) cids why' r) st = Some st')"
    using assms(2) by (auto simp: handle_deploy_rollback_def Let_def split: option.splits prod.splits sum.splits)
  then show ?thesis using commit_history [OF assms(1)] history_ok_revise assms(1) by blast
qed

lemma edit_history:
  "all_history_ok st \<Longrightarrow> (\<And>r. history_ok r \<Longrightarrow> history_ok (f r)) \<Longrightarrow> all_history_ok (snd (edit_deploy C w nm f st))"
  by (cases nm) (auto simp: edit_deploy_def intro!: all_history_mutate, simp add: all_history_ok_def)

lemma delete_history: "all_history_ok st \<Longrightarrow> all_history_ok (fst (snd (handle_deploy_delete env C w nm (st, d))))"
  by (auto simp: handle_deploy_delete_def deploys_delete_def all_history_ok_def deploys_get_def store_get_def store_remove_entries
      split: option.splits if_splits)

lemma deploy_step_history:
  assumes "all_history_ok (fst s)" and "deploy_step env C w c s = Some s'"
  shows "all_history_ok (fst s')"
proof -
  obtain st d where s: "s = (st, d)" by (cases s)
  obtain st' d' where s': "s' = (st', d')" by (cases s')
  have ok: "all_history_ok st" using assms(1) s by simp
  show ?thesis
  proof (cases c)
    case (Deploy_promote t n)
    then show ?thesis using assms(2) s edit_history [OF ok] by (auto simp: handle_deploy_promote_def history_ok_def)
  next
    case (Deploy_pause t n)
    then show ?thesis using assms(2) s edit_history [OF ok] by (auto simp: handle_deploy_pause_def history_ok_def)
  next
    case (Deploy_update t t' p)
    then show ?thesis using assms(2) s s' update_history [OF ok] by auto
  next
    case (Deploy_rollback t t' n why)
    then show ?thesis using assms(2) s s' rollback_history [OF ok] by auto
  qed (use assms(2) s create_history [OF ok] delete_history [OF ok] in auto)
qed

text \<open>
  Whatever calls are made, with whatever outcome of container commands and writes, the history of every stored
  deployment is complete: its entries are numbered from 1 to the current revision, and the last one describes the current
  image and replica count.
\<close>

theorem deploy_history_complete:
  assumes "deploy_run env C calls (empty_deploys, d) = Some s" and "deploys_get (fst (fst s)) k = Some r"
  shows "map (unat \<circ> rev_revision) (dep_history r) = [1..<Suc (unat (dep_revision r))] \<and>
    rev_image (last (dep_history r)) = dep_image r \<and> rev_replicas (last (dep_history r)) = replicas r"
proof -
  have "deploy_run env C calls s0 = Some s \<Longrightarrow> all_history_ok (fst s0) \<Longrightarrow> all_history_ok (fst s)" for s0
    by (induction calls arbitrary: s0) (auto simp: bind_eq_Some_conv dest: deploy_step_history)
  from this [OF assms(1)] have "all_history_ok (fst s)"
    by (simp add: all_history_ok_def empty_deploys_def deploys_get_def store_get_def)
  then show ?thesis using assms(2) by (auto simp: all_history_ok_def history_ok_def)
qed

theorem deploy_history_complete_witness:
  "\<exists>s r. deploy_run list_env (numbered_codec (\<lambda>_. 0)) [(Written, Deploy_create 1 demo_create)] (empty_deploys, []) = Some s \<and>
     deploys_get (fst (fst s)) ''web'' = Some r \<and>
     map (unat \<circ> rev_revision) (dep_history r) = [1..<Suc (unat (dep_revision r))]"
proof -
  obtain r st where c: "handle_deploy_create list_env (numbered_codec (\<lambda>_. 0)) Written 1 demo_create (empty_deploys, []) =
     (Inr r, st, [(replica_name ''web'' 0, ''x'')])" "deploys_get (fst st) ''web'' = Some r" using demo_created by blast
  have run: "deploy_run list_env (numbered_codec (\<lambda>_. 0)) [(Written, Deploy_create 1 demo_create)] (empty_deploys, []) =
      Some (st, [(replica_name ''web'' 0, ''x'')])" using c(1) by simp
  from deploy_history_complete [OF run, of "''web''" r] c(2) have
    "map (unat \<circ> rev_revision) (dep_history r) = [1..<Suc (unat (dep_revision r))]" by simp
  with run c(2) show ?thesis by (intro exI conjI) auto
qed

section \<open>Autoscaling bounds\<close>

text \<open>A new policy has its replica count within its bounds, and an adjustment of a policy whose bounds are in order clamps to them.\<close>

lemma clamp_within: "clamp x lo hi = Some c \<Longrightarrow> lo \<le> c \<and> c \<le> hi"
  by (auto simp: clamp_def split: if_splits)

text \<open>
  An adjustment does not check its bounds. After one that sets the minimum above the maximum, which succeeds, every
  adjustment of the replica count that leaves the bounds alone panics.
\<close>

theorem inverted_bounds_panic:
  assumes "autoscale_get (fst st) (aa_name p) = Some r"
    and "aa_min p = Some lo" and "aa_max p = Some hi" and "hi < lo" and "aa_replicas p = None"
    and "aa_name q = aa_name p" and "aa_replicas q = Some n" and "aa_min q = None" and "aa_max q = None"
  shows "fst (handle_autoscale_adjust C w now p st) = Some (Inr ()) \<and>
    fst (handle_autoscale_adjust C w2 now2 q (snd (handle_autoscale_adjust C w now p st))) = None"
proof -
  obtain r' where r': "adjust now p r = Some r'" "min_replicas r' = lo" "max_replicas r' = hi"
    using assms(2,3,5) by (cases "aa_enabled p") (auto simp: adjust_def set_bounds_def Let_def)
  let ?st = "snd (handle_autoscale_adjust C w now p st)"
  have "autoscale_get (fst ?st) (aa_name p) = Some r'"
    using assms(1) r'(1)
    by (simp add: handle_autoscale_adjust_def autoscale_get_def store_get_def autoscale_update_def store_update_def
        autoscale_get_mut_def store_mutate_def)
  moreover have "adjust now2 q r' = None"
    using assms(4,7-9) r' by (simp add: adjust_def set_bounds_def clamp_def)
  ultimately show ?thesis using assms(1,6) r'(1) by (simp add: handle_autoscale_adjust_def)
qed

theorem inverted_bounds_panic_witness:
  "let C = numbered_codec (\<lambda>_. 0); r = \<lparr>as_name = ''p'', as_target = ''t'', min_replicas = 1, max_replicas = 10, current_replicas = 1,
         as_policy_type = ''x'', as_metric = None, as_threshold = None, as_state = ''active'', as_created_at = 0, as_updated_at = 0\<rparr>;
       p = \<lparr>aa_name = ''p'', aa_replicas = None, aa_min = Some 5, aa_max = Some 2, aa_enabled = None\<rparr>;
       q = \<lparr>aa_name = ''p'', aa_replicas = Some 3, aa_min = None, aa_max = None, aa_enabled = None\<rparr>
   in fst (handle_autoscale_adjust C Written 2 q
        (snd (handle_autoscale_adjust C Written 1 p (\<lparr>entries = [(''p'', r)], store_path = []\<rparr>, \<lambda>_. None)))) = None"
proof -
  have lt: "(2 :: u32) < 5" by code_simp
  let ?r = "\<lparr>as_name = ''p'', as_target = ''t'', min_replicas = 1, max_replicas = 10, current_replicas = 1,
         as_policy_type = ''x'', as_metric = None, as_threshold = None, as_state = ''active'', as_created_at = 0, as_updated_at = 0\<rparr>"
  let ?p = "\<lparr>aa_name = ''p'', aa_replicas = None, aa_min = Some 5, aa_max = Some 2, aa_enabled = None\<rparr>"
  let ?q = "\<lparr>aa_name = ''p'', aa_replicas = Some 3, aa_min = None, aa_max = None, aa_enabled = None\<rparr>"
  let ?st = "(\<lparr>entries = [(''p'', ?r)], store_path = []\<rparr>, \<lambda>_. None)"
  have get: "autoscale_get (fst ?st) (aa_name ?p) = Some ?r" by (simp add: autoscale_get_def store_get_def)
  from inverted_bounds_panic [OF get _ _ lt, of ?q 3 "numbered_codec (\<lambda>_. 0)" Written 1 Written 2] show ?thesis by simp
qed

end
