(* ===== verification/Connection_Pool.thy ===== *)
theory Connection_Pool
  imports Diversity Gossip_Message
begin

text \<open>
  Peer connections and the pool that holds them, \<open>crates/molt-p2p/src/connection.rs\<close>. The pool owns a diversity tracker;
  the theorems say what the tracker's limits mean for the connections themselves. The clock is an argument, the text form of a peer
  identifier (base58) a parameter. Message channels, which are queues of the async runtime, and the floating-point ping
  success rate are not modelled.
\<close>

section \<open>A connection\<close>

datatype connection_state = Connecting | Connected | Disconnecting | Disconnected | Failed

fun conn_state_usable :: "connection_state \<Rightarrow> bool" where
  "conn_state_usable Connected = True"
| "conn_state_usable _ = False"

fun conn_state_terminal :: "connection_state \<Rightarrow> bool" where
  "conn_state_terminal Disconnected = True"
| "conn_state_terminal Failed = True"
| "conn_state_terminal _ = False"

record connection_health =
  last_rtt :: "duration option"
  successful_pings :: u64
  failed_pings :: u64
  health_last_seen :: int
  messages_sent :: u64
  messages_received :: u64

definition health_new :: "int \<Rightarrow> connection_health" where
  "health_new now = \<lparr>last_rtt = None, successful_pings = 0, failed_pings = 0, health_last_seen = now,
     messages_sent = 0, messages_received = 0\<rparr>"

definition health_ping_success :: "bool \<Rightarrow> duration \<Rightarrow> int \<Rightarrow> connection_health \<Rightarrow> connection_health option" where
  "health_ping_success checks rtt now h =
     map_option (\<lambda>n. h\<lparr>last_rtt := Some rtt, successful_pings := n, health_last_seen := now\<rparr>)
       (add_op checks (successful_pings h) 1)"

definition health_ping_failure :: "bool \<Rightarrow> connection_health \<Rightarrow> connection_health option" where
  "health_ping_failure checks h = map_option (\<lambda>n. h\<lparr>failed_pings := n\<rparr>) (add_op checks (failed_pings h) 1)"

definition health_message_sent :: "bool \<Rightarrow> int \<Rightarrow> connection_health \<Rightarrow> connection_health option" where
  "health_message_sent checks now h =
     map_option (\<lambda>n. h\<lparr>messages_sent := n, health_last_seen := now\<rparr>) (add_op checks (messages_sent h) 1)"

definition health_message_received :: "bool \<Rightarrow> int \<Rightarrow> connection_health \<Rightarrow> connection_health option" where
  "health_message_received checks now h =
     map_option (\<lambda>n. h\<lparr>messages_received := n, health_last_seen := now\<rparr>) (add_op checks (messages_received h) 1)"

datatype socket_addr = SocketAddr (sock_ip: ip_addr) (sock_port: u16)

record peer_connection =
  conn_peer_id :: peer_id
  remote_addr :: socket_addr
  conn_state :: connection_state
  conn_health :: connection_health
  established_at :: "int option"
  error_message :: "string option"

definition peer_connection_new :: "int \<Rightarrow> peer_id \<Rightarrow> socket_addr \<Rightarrow> peer_connection" where
  "peer_connection_new now p a = \<lparr>conn_peer_id = p, remote_addr = a, conn_state = Connecting,
     conn_health = health_new now, established_at = None, error_message = None\<rparr>"

definition mark_connected :: "int \<Rightarrow> peer_connection \<Rightarrow> peer_connection" where
  "mark_connected now c = c\<lparr>conn_state := Connected, established_at := Some now, error_message := None\<rparr>"

definition mark_disconnecting :: "peer_connection \<Rightarrow> peer_connection" where
  "mark_disconnecting c = (if conn_state c = Connected then c\<lparr>conn_state := Disconnecting\<rparr> else c)"

definition mark_disconnected :: "peer_connection \<Rightarrow> peer_connection" where
  "mark_disconnected c = c\<lparr>conn_state := Disconnected\<rparr>"

definition mark_failed :: "string \<Rightarrow> peer_connection \<Rightarrow> peer_connection" where
  "mark_failed e c = c\<lparr>conn_state := Failed, error_message := Some e\<rparr>"

definition conn_is_usable :: "peer_connection \<Rightarrow> bool" where
  "conn_is_usable c \<longleftrightarrow> conn_state_usable (conn_state c)"

definition record_ping_success :: "bool \<Rightarrow> duration \<Rightarrow> int \<Rightarrow> peer_connection \<Rightarrow> peer_connection option" where
  "record_ping_success checks rtt now c = map_option (\<lambda>h. c\<lparr>conn_health := h\<rparr>) (health_ping_success checks rtt now (conn_health c))"

definition record_ping_failure :: "bool \<Rightarrow> peer_connection \<Rightarrow> peer_connection option" where
  "record_ping_failure checks c = map_option (\<lambda>h. c\<lparr>conn_health := h\<rparr>) (health_ping_failure checks (conn_health c))"

definition record_message_sent :: "bool \<Rightarrow> int \<Rightarrow> peer_connection \<Rightarrow> peer_connection option" where
  "record_message_sent checks now c = map_option (\<lambda>h. c\<lparr>conn_health := h\<rparr>) (health_message_sent checks now (conn_health c))"

definition record_message_received :: "bool \<Rightarrow> int \<Rightarrow> peer_connection \<Rightarrow> peer_connection option" where
  "record_message_received checks now c =
     map_option (\<lambda>h. c\<lparr>conn_health := h\<rparr>) (health_message_received checks now (conn_health c))"

definition connection_duration :: "int \<Rightarrow> peer_connection \<Rightarrow> duration option" where
  "connection_duration now c = map_option (\<lambda>t. nat (now - t)) (established_at c)"

section \<open>The pool\<close>

record connection_pool_config =
  max_connections :: nat
  connect_timeout :: duration
  ping_interval :: duration
  max_silence :: duration
  pool_diversity :: diversity_config

definition pool_config_new :: "nat \<Rightarrow> connection_pool_config" where
  "pool_config_new n = \<lparr>max_connections = n, connect_timeout = 10 * 1000000000, ping_interval = 30 * 1000000000,
     max_silence = 90 * 1000000000, pool_diversity = diversity_default\<rparr>"

definition pool_config_default :: connection_pool_config where
  "pool_config_default = \<lparr>max_connections = 100, connect_timeout = 10 * 1000000000, ping_interval = 30 * 1000000000,
     max_silence = 90 * 1000000000, pool_diversity = diversity_default\<rparr>"

definition with_connect_timeout :: "duration \<Rightarrow> connection_pool_config \<Rightarrow> connection_pool_config" where
  "with_connect_timeout d c = c\<lparr>connect_timeout := d\<rparr>"

definition with_ping_interval :: "duration \<Rightarrow> connection_pool_config \<Rightarrow> connection_pool_config" where
  "with_ping_interval d c = c\<lparr>ping_interval := d\<rparr>"

definition with_max_silence :: "duration \<Rightarrow> connection_pool_config \<Rightarrow> connection_pool_config" where
  "with_max_silence d c = c\<lparr>max_silence := d\<rparr>"

definition with_diversity :: "diversity_config \<Rightarrow> connection_pool_config \<Rightarrow> connection_pool_config" where
  "with_diversity d c = c\<lparr>pool_diversity := d\<rparr>"

record connection_pool =
  pool_config :: connection_pool_config
  pool_connections :: "(peer_id, peer_connection) hashmap"
  pool_tracker :: diversity_tracker

definition connection_pool_new :: "connection_pool_config \<Rightarrow> connection_pool" where
  "connection_pool_new cfg =
     \<lparr>pool_config = cfg, pool_connections = [], pool_tracker = diversity_tracker_new (pool_diversity cfg)\<rparr>"

definition pool_len :: "connection_pool \<Rightarrow> nat" where
  "pool_len p = length (pool_connections p)"

definition active_count :: "connection_pool \<Rightarrow> nat" where
  "active_count p = length (filter conn_is_usable (hm_values (pool_connections p)))"

definition pool_is_full :: "connection_pool \<Rightarrow> bool" where
  "pool_is_full p \<longleftrightarrow> length (pool_connections p) \<ge> max_connections (pool_config p)"

definition conn_ip :: "peer_connection \<Rightarrow> ip_addr" where
  "conn_ip c = sock_ip (remote_addr c)"

definition add_connection_with_metadata ::
  "(peer_id \<Rightarrow> string) \<Rightarrow> peer_connection \<Rightarrow> asn option \<Rightarrow> geo_region option \<Rightarrow> connection_pool
   \<Rightarrow> (p2p_error, unit, connection_pool) outcome" where
  "add_connection_with_metadata show_peer c as geo p =
     (if pool_is_full p
      then (Inl (P2pConnection (''Connection pool is full (max: '' @ show_nat (max_connections (pool_config p)) @ '')'')), p)
      else if hm_contains (pool_connections p) (conn_peer_id c)
      then (Inl (P2pConnection (''Connection to peer '' @ show_peer (conn_peer_id c) @ '' already exists'')), p)
      else case check_and_add (conn_ip c) as geo (pool_tracker p) of
        (r, t) \<Rightarrow>
          (let p1 = p\<lparr>pool_tracker := t\<rparr>
           in case r of
                Accepted \<Rightarrow> (Inr (), p1\<lparr>pool_connections := hm_insert (conn_peer_id c) c (pool_connections p1)\<rparr>)
              | Disabled \<Rightarrow> (Inr (), p1\<lparr>pool_connections := hm_insert (conn_peer_id c) c (pool_connections p1)\<rparr>)
              | RejectedPrivateIp \<Rightarrow> (Inl PrivateIpRejected, p1)
              | _ \<Rightarrow> (case rejection_reason r of
                        Some reason \<Rightarrow> (Inl (DiversityLimitExceeded reason), p1)
                      | None \<Rightarrow> (Inl (DiversityLimitExceeded ''unknown diversity constraint''), p1))))"

definition add_connection ::
  "(peer_id \<Rightarrow> string) \<Rightarrow> peer_connection \<Rightarrow> connection_pool \<Rightarrow> (p2p_error, unit, connection_pool) outcome" where
  "add_connection show_peer c p = add_connection_with_metadata show_peer c None None p"

definition would_accept :: "connection_pool \<Rightarrow> socket_addr \<Rightarrow> asn option \<Rightarrow> diversity_result" where
  "would_accept p a as =
     (if pool_is_full p
      then RejectedSubnetLimit ''pool'' (length (pool_connections p)) (max_connections (pool_config p))
      else check (pool_tracker p) (sock_ip a) as)"

definition pool_get :: "connection_pool \<Rightarrow> peer_id \<Rightarrow> peer_connection option" where
  "pool_get p i = hm_get (pool_connections p) i"

definition pool_remove :: "peer_id \<Rightarrow> connection_pool \<Rightarrow> peer_connection option \<times> connection_pool" where
  "pool_remove i p =
     (case hm_get (pool_connections p) i of
        None \<Rightarrow> (None, p)
      | Some c \<Rightarrow> (Some c, p\<lparr>pool_connections := hm_remove i (pool_connections p),
                             pool_tracker := snd (div_remove (conn_ip c) (pool_tracker p))\<rparr>))"

definition pool_contains :: "connection_pool \<Rightarrow> peer_id \<Rightarrow> bool" where
  "pool_contains p i = hm_contains (pool_connections p) i"

definition pool_peer_ids :: "connection_pool \<Rightarrow> peer_id list" where
  "pool_peer_ids p = map fst (pool_connections p)"

definition active_connections :: "connection_pool \<Rightarrow> peer_connection list" where
  "active_connections p = filter conn_is_usable (hm_values (pool_connections p))"

definition connections_in_state :: "connection_pool \<Rightarrow> connection_state \<Rightarrow> peer_connection list" where
  "connections_in_state p s = filter (\<lambda>c. conn_state c = s) (hm_values (pool_connections p))"

definition drop_connection :: "peer_id \<times> ip_addr \<Rightarrow> connection_pool \<Rightarrow> connection_pool" where
  "drop_connection x p = p\<lparr>pool_connections := hm_remove (fst x) (pool_connections p),
     pool_tracker := snd (div_remove (snd x) (pool_tracker p))\<rparr>"

definition cleanup_terminal :: "connection_pool \<Rightarrow> nat \<times> connection_pool" where
  "cleanup_terminal p =
     (let to_remove = map (\<lambda>(i, c). (i, conn_ip c))
            (filter (\<lambda>(i, c). conn_state_terminal (conn_state c)) (pool_connections p))
      in (length to_remove, fold drop_connection to_remove p))"

text \<open>A change through \<open>get_mut\<close> or \<open>iter_mut\<close>: the callers use the methods of the connection.\<close>

datatype conn_op =
    Op_connected int | Op_disconnecting | Op_disconnected | Op_failed string
  | Op_ping_success duration int | Op_ping_failure | Op_sent int | Op_received int

fun conn_apply :: "bool \<Rightarrow> conn_op \<Rightarrow> peer_connection \<Rightarrow> peer_connection option" where
  "conn_apply checks (Op_connected t) c = Some (mark_connected t c)"
| "conn_apply checks Op_disconnecting c = Some (mark_disconnecting c)"
| "conn_apply checks Op_disconnected c = Some (mark_disconnected c)"
| "conn_apply checks (Op_failed e) c = Some (mark_failed e c)"
| "conn_apply checks (Op_ping_success rtt t) c = record_ping_success checks rtt t c"
| "conn_apply checks Op_ping_failure c = record_ping_failure checks c"
| "conn_apply checks (Op_sent t) c = record_message_sent checks t c"
| "conn_apply checks (Op_received t) c = record_message_received checks t c"

definition pool_get_mut :: "bool \<Rightarrow> peer_id \<Rightarrow> conn_op \<Rightarrow> connection_pool \<Rightarrow> connection_pool option" where
  "pool_get_mut checks i op p =
     (case hm_get (pool_connections p) i of
        None \<Rightarrow> Some p
      | Some c \<Rightarrow> map_option (\<lambda>c'. p\<lparr>pool_connections := hm_insert i c' (pool_connections p)\<rparr>) (conn_apply checks op c))"

section \<open>The limits, in terms of the connections\<close>

text \<open>How many connections of the pool have a given key.\<close>

definition connected_with :: "(ip_addr \<Rightarrow> 'k option) \<Rightarrow> (peer_id, peer_connection) hashmap \<Rightarrow> 'k \<Rightarrow> nat" where
  "connected_with key conns k = hm_sum (\<lambda>c. if key (conn_ip c) = Some k then 1 else 0) conns"

text \<open>Every count of a table is at least the number of connections it limits.\<close>

definition counts_cover :: "(ip_addr \<Rightarrow> 'k option) \<Rightarrow> (peer_id, peer_connection) hashmap \<Rightarrow> ('k, nat) hashmap \<Rightarrow> bool" where
  "counts_cover key conns counts \<longleftrightarrow> (\<forall>k. connected_with key conns k \<le> count_of counts k)"

lemma connected_insert_new:
  "hm_wf m \<Longrightarrow> hm_get m i = None \<Longrightarrow>
   connected_with key (hm_insert i c m) k = connected_with key m k + (if key (conn_ip c) = Some k then 1 else 0)"
  using hm_sum_insert [of m "\<lambda>c. if key (conn_ip c) = Some k then 1 else 0" i c] by (simp add: connected_with_def)

lemma connected_update:
  "hm_wf m \<Longrightarrow> hm_get m i = Some c \<Longrightarrow> conn_ip c' = conn_ip c \<Longrightarrow>
   connected_with key (hm_insert i c' m) k = connected_with key m k"
  using hm_sum_insert [of m "\<lambda>c. if key (conn_ip c) = Some k then 1 else 0" i c'] by (simp add: connected_with_def)

lemma connected_remove:
  "hm_wf m \<Longrightarrow> hm_get m i = Some c \<Longrightarrow>
   connected_with key (hm_remove i m) k = connected_with key m k - (if key (conn_ip c) = Some k then 1 else 0)"
  using hm_sum_remove [of m "\<lambda>c. if key (conn_ip c) = Some k then 1 else 0" i] by (simp add: connected_with_def)

lemma cover_bump:
  "hm_wf m \<Longrightarrow> hm_get m i = None \<Longrightarrow> counts_cover key m counts \<Longrightarrow>
   counts_cover key (hm_insert i c m) (bump (key (conn_ip c)) counts)"
  by (simp add: counts_cover_def connected_insert_new count_of_bump)

lemma cover_unbump:
  "hm_wf m \<Longrightarrow> hm_get m i = Some c \<Longrightarrow> counts_cover key m counts \<Longrightarrow>
   counts_cover key (hm_remove i m) (unbump (key (conn_ip c)) counts)"
  by (simp add: counts_cover_def connected_remove count_of_unbump diff_le_mono)

lemma cover_forget:
  "hm_wf m \<Longrightarrow> hm_get m i = Some c \<Longrightarrow> counts_cover key m counts \<Longrightarrow> counts_cover key (hm_remove i m) counts"
  by (auto simp: counts_cover_def connected_remove intro: le_trans [OF diff_le_self])

text \<open>The tracker files every peer under its own address.\<close>

definition filed_by_ip :: "diversity_tracker \<Rightarrow> bool" where
  "filed_by_ip t \<longleftrightarrow> (\<forall>ip i. hm_get (tracked_peers t) ip = Some i \<longrightarrow> info_ip i = ip)"

definition pool_inv :: "connection_pool_config \<Rightarrow> connection_pool \<Rightarrow> bool" where
  "pool_inv cfg p \<longleftrightarrow>
     pool_config p = cfg \<and> hm_wf (pool_connections p) \<and> length (pool_connections p) \<le> max_connections cfg \<and>
     within_limits (pool_diversity cfg) (pool_tracker p) \<and> filed_by_ip (pool_tracker p) \<and>
     (div_enabled (pool_diversity cfg) \<longrightarrow>
        counts_cover subnet_key (pool_connections p) (ipv4_subnet_counts (pool_tracker p)) \<and>
        counts_cover prefix_key (pool_connections p) (ipv6_prefix_counts (pool_tracker p)))"

lemma pool_inv_new: "pool_inv cfg (connection_pool_new cfg)"
  using div_inv_new [of "pool_diversity cfg"]
  by (simp add: pool_inv_def connection_pool_new_def div_inv_def filed_by_ip_def counts_cover_def connected_with_def
      diversity_tracker_new_def)

lemma add_rejected:
  assumes "pool_is_full p \<or> hm_contains (pool_connections p) (conn_peer_id c) \<or>
    \<not> is_accepted (check (pool_tracker p) (conn_ip c) as)"
  shows "\<exists>e. add_connection_with_metadata show_peer c as geo p = (Inl e, p)"
  using assms
  by (cases "check (pool_tracker p) (conn_ip c) as")
    (auto simp: add_connection_with_metadata_def check_and_add_def Let_def is_accepted_def)

lemma add_accepted:
  assumes "\<not> pool_is_full p" and "\<not> hm_contains (pool_connections p) (conn_peer_id c)"
    and "is_accepted (check (pool_tracker p) (conn_ip c) as)"
  shows "add_connection_with_metadata show_peer c as geo p =
    (Inr (), p\<lparr>pool_tracker := snd (check_and_add (conn_ip c) as geo (pool_tracker p)),
               pool_connections := hm_insert (conn_peer_id c) c (pool_connections p)\<rparr>)"
  using assms
  by (cases "check (pool_tracker p) (conn_ip c) as")
    (simp_all add: add_connection_with_metadata_def check_and_add_def Let_def is_accepted_def)

lemma filed_add: "filed_by_ip t \<Longrightarrow> filed_by_ip (snd (check_and_add ip as geo t))"
  by (simp add: filed_by_ip_def check_and_add_def add_peer_internal_def Let_def)

lemma filed_remove: "filed_by_ip t \<Longrightarrow> filed_by_ip (snd (div_remove ip t))"
  by (auto simp: filed_by_ip_def div_remove_def split: option.splits)

lemma add_connection_inv:
  assumes inv: "pool_inv cfg p"
  shows "pool_inv cfg (snd (add_connection_with_metadata show_peer c as geo p))"
proof (cases "pool_is_full p \<or> hm_contains (pool_connections p) (conn_peer_id c) \<or>
    \<not> is_accepted (check (pool_tracker p) (conn_ip c) as)")
  case True
  then show ?thesis using add_rejected [OF True, of show_peer geo] inv by auto
next
  case False
  let ?t = "snd (check_and_add (conn_ip c) as geo (pool_tracker p))"
  have "within_limits (pool_diversity cfg) ?t"
    using within_limits_step [of "pool_diversity cfg" "pool_tracker p" "D_add (conn_ip c) as geo"] inv by (simp add: pool_inv_def)
  moreover have "counts_cover subnet_key (hm_insert (conn_peer_id c) c (pool_connections p)) (ipv4_subnet_counts ?t) \<and>
      counts_cover prefix_key (hm_insert (conn_peer_id c) c (pool_connections p)) (ipv6_prefix_counts ?t)"
    if "div_enabled (pool_diversity cfg)"
  proof -
    have "?t = add_peer_internal (conn_ip c) as geo (pool_tracker p)"
      using that inv False by (simp add: check_and_add_def Let_def pool_inv_def within_limits_def)
    moreover have "hm_get (pool_connections p) (conn_peer_id c) = None" using False by (simp add: hm_contains_def)
    ultimately show ?thesis using inv that by (simp add: pool_inv_def add_peer_internal_def cover_bump)
  qed
  ultimately show ?thesis
    using inv False by (simp add: pool_inv_def add_accepted hm_len_insert pool_is_full_def filed_add)
qed

lemma drop_connection_inv:
  assumes inv: "pool_inv cfg p" and get: "hm_get (pool_connections p) i = Some c"
  shows "pool_inv cfg (drop_connection (i, conn_ip c) p)"
proof -
  let ?t = "pool_tracker p" and ?t' = "snd (div_remove (conn_ip c) (pool_tracker p))" and ?m = "hm_remove i (pool_connections p)"
  have len: "length ?m \<le> length (pool_connections p)" by (simp add: hm_remove_def length_delete_le)
  have "within_limits (pool_diversity cfg) ?t'"
    using within_limits_step [of "pool_diversity cfg" ?t "D_remove (conn_ip c)"] inv by (simp add: pool_inv_def)
  moreover have "counts_cover subnet_key ?m (ipv4_subnet_counts ?t')" "counts_cover prefix_key ?m (ipv6_prefix_counts ?t')"
    if "div_enabled (pool_diversity cfg)"
    using inv get that
    by (cases "hm_get (tracked_peers ?t) (conn_ip c)";
        auto simp: pool_inv_def filed_by_ip_def div_remove_def cover_forget cover_unbump)+
  ultimately show ?thesis using inv len by (auto simp: pool_inv_def drop_connection_def filed_remove)
qed

lemma pool_remove_inv: "pool_inv cfg p \<Longrightarrow> pool_inv cfg (snd (pool_remove i p))"
  using drop_connection_inv [of cfg p i]
  by (cases "hm_get (pool_connections p) i") (simp_all add: pool_remove_def drop_connection_def)

lemma fold_drop_inv:
  assumes "pool_inv cfg p" and "distinct (map fst xs)"
    and "\<forall>(i, ip) \<in> set xs. \<exists>c. hm_get (pool_connections p) i = Some c \<and> conn_ip c = ip"
  shows "pool_inv cfg (fold drop_connection xs p)"
  using assms
proof (induction xs arbitrary: p)
  case (Cons x xs)
  obtain i ip where x: "x = (i, ip)" by (cases x)
  obtain c where c: "hm_get (pool_connections p) i = Some c" "conn_ip c = ip" using Cons.prems(3) x by auto
  have "pool_inv cfg (drop_connection x p)" using drop_connection_inv [OF Cons.prems(1) c(1)] c(2) x by simp
  moreover have "\<exists>c. hm_get (pool_connections (drop_connection x p)) j = Some c \<and> conn_ip c = jp" if "(j, jp) \<in> set xs" for j jp
  proof -
    have "j \<noteq> i" using that Cons.prems(2) x by force
    then show ?thesis using Cons.prems(3) that x by (auto simp: drop_connection_def)
  qed
  ultimately show ?case using Cons.IH [of "drop_connection x p"] Cons.prems(2) by auto
qed simp

lemma cleanup_terminal_inv: "pool_inv cfg p \<Longrightarrow> pool_inv cfg (snd (cleanup_terminal p))"
proof -
  assume inv: "pool_inv cfg p"
  let ?xs = "filter (\<lambda>(i, c). conn_state_terminal (conn_state c)) (pool_connections p)"
  have "distinct (map fst (map (\<lambda>(i, c). (i, conn_ip c)) ?xs))"
    using inv by (auto simp: pool_inv_def case_prod_beta comp_def distinct_map_filter)
  moreover have "\<forall>(i, ip) \<in> set (map (\<lambda>(i, c). (i, conn_ip c)) ?xs). \<exists>c. hm_get (pool_connections p) i = Some c \<and> conn_ip c = ip"
    using inv by (auto simp: pool_inv_def)
  ultimately show ?thesis using fold_drop_inv [OF inv] by (simp add: cleanup_terminal_def Let_def)
qed

lemma conn_apply_ip: "conn_apply checks op c = Some c' \<Longrightarrow> conn_ip c' = conn_ip c"
  by (cases op) (auto simp: conn_ip_def mark_connected_def mark_disconnecting_def mark_disconnected_def mark_failed_def
      record_ping_success_def record_ping_failure_def record_message_sent_def record_message_received_def)

lemma pool_get_mut_inv: "pool_inv cfg p \<Longrightarrow> pool_get_mut checks i op p = Some p' \<Longrightarrow> pool_inv cfg p'"
  by (auto simp: pool_get_mut_def pool_inv_def hm_len_insert hm_contains_def counts_cover_def connected_update conn_apply_ip
      split: option.splits)

section \<open>Sequences of calls\<close>

datatype pool_op =
    P_add peer_connection "asn option" "geo_region option"
  | P_remove peer_id
  | P_cleanup
  | P_change peer_id conn_op

text \<open>A panic of a checked counter ends the run of the process; the step then keeps the pool.\<close>

fun pool_step :: "(peer_id \<Rightarrow> string) \<Rightarrow> bool \<Rightarrow> connection_pool \<Rightarrow> pool_op \<Rightarrow> connection_pool" where
  "pool_step show_peer checks p (P_add c as geo) = snd (add_connection_with_metadata show_peer c as geo p)"
| "pool_step show_peer checks p (P_remove i) = snd (pool_remove i p)"
| "pool_step show_peer checks p P_cleanup = snd (cleanup_terminal p)"
| "pool_step show_peer checks p (P_change i op) = (case pool_get_mut checks i op p of None \<Rightarrow> p | Some p' \<Rightarrow> p')"

interpretation pool: invariant_steps "pool_step show_peer checks" "pool_inv cfg" for show_peer checks cfg
proof
  fix p op assume "pool_inv cfg p"
  then show "pool_inv cfg (pool_step show_peer checks p op)"
    by (cases op) (auto simp: add_connection_inv pool_remove_inv cleanup_terminal_inv pool_get_mut_inv split: option.split)
qed

text \<open>
  C27. Eclipse protection of the pool: after any sequence of additions (with any metadata), removals,
  clean-ups and changes of connections, also with several peers behind one address, the pool holds at most the configured
  number of connections and, with diversity enabled, at most the configured number to one IPv4 subnet and to one IPv6 prefix.
\<close>

theorem pool_eclipse_bound:
  "let p = run (pool_step show_peer checks) (connection_pool_new cfg) ops
   in pool_len p \<le> max_connections cfg \<and>
      (div_enabled (pool_diversity cfg) \<longrightarrow>
         connected_with subnet_key (pool_connections p) k \<le> max_per_ipv4_subnet (pool_diversity cfg) \<and>
         connected_with prefix_key (pool_connections p) q \<le> max_per_ipv6_prefix (pool_diversity cfg))"
proof -
  have "pool_inv cfg (run (pool_step show_peer checks) (connection_pool_new cfg) ops)"
    by (rule pool.run_inv [OF pool_inv_new])
  then show ?thesis
    by (auto simp: pool_inv_def pool_len_def Let_def counts_cover_def within_limits_def bounded_by_def intro: le_trans)
qed

theorem pool_eclipse_bound_witness:
  "connected_with subnet_key (pool_connections (run (pool_step (\<lambda>i. i) True) (connection_pool_new pool_config_default)
      [P_add (peer_connection_new 0 ''a'' (SocketAddr (V4 8 8 8 8) 1)) None None,
       P_add (peer_connection_new 0 ''b'' (SocketAddr (V4 8 8 8 8) 2)) None None,
       P_add (peer_connection_new 0 ''c'' (SocketAddr (V4 8 8 8 9) 2)) None None])) (Ipv4Subnet 8 8 8) \<le> 2"
proof -
  have "div_enabled (pool_diversity pool_config_default)" "max_per_ipv4_subnet (pool_diversity pool_config_default) = 2"
    by (simp_all add: pool_config_default_def diversity_default_def)
  then show ?thesis
    using pool_eclipse_bound [of "\<lambda>i. i" True pool_config_default
      "[P_add (peer_connection_new 0 ''a'' (SocketAddr (V4 8 8 8 8) 1)) None None,
       P_add (peer_connection_new 0 ''b'' (SocketAddr (V4 8 8 8 8) 2)) None None,
       P_add (peer_connection_new 0 ''c'' (SocketAddr (V4 8 8 8 9) 2)) None None]" "Ipv4Subnet 8 8 8"]
    unfolding Let_def by (simp only: simp_thms)
qed

section \<open>What the tracker's key misses\<close>

text \<open>
  The tracker files peers by address, so a second peer behind one address replaces the record of the first, and removing
  the first takes back what the second added. A pool that allows one connection per autonomous
  system ends up with two: a peer without metadata and a peer of the system share an address, the first leaves, and another peer of
  the system is accepted.
\<close>

definition one_per_asn :: connection_pool_config where
  "one_per_asn = with_diversity (diversity_default\<lparr>max_per_asn := 1\<rparr>) (pool_config_new 100)"

definition peer_at :: "string \<Rightarrow> u8 \<Rightarrow> u16 \<Rightarrow> peer_connection" where
  "peer_at i d port = peer_connection_new 0 i (SocketAddr (V4 8 8 8 d) port)"

lemma peer_at_simps [simp]: "conn_peer_id (peer_at i d port) = i" "conn_ip (peer_at i d port) = V4 8 8 8 d"
  by (simp_all add: peer_at_def peer_connection_new_def conn_ip_def)

lemmas pool_eval = add_connection_def add_connection_with_metadata_def pool_is_full_def pool_remove_def check_and_add_def check_def
  check_address_def check_asn_def is_accepted_def add_peer_internal_def div_remove_def bump_def unbump_def count_of_def
  subnet_from_addr_def hm_contains_def hm_insert_def hm_remove_def Let_def

theorem asn_limit_bypassed:
  "let p1 = snd (add_connection id (peer_at ''a'' 8 1) (connection_pool_new one_per_asn));
       (r2, p2) = add_connection_with_metadata id (peer_at ''b'' 8 2) (Some (Asn 7)) None p1;
       p3 = snd (pool_remove ''a'' p2);
       (r4, p4) = add_connection_with_metadata id (peer_at ''c'' 9 1) (Some (Asn 7)) None p3
   in r2 = Inr () \<and> r4 = Inr () \<and> pool_peer_ids p4 = [''b'', ''c''] \<and> max_per_asn (pool_diversity (pool_config p4)) = 1"
  by (simp add: pool_eval connection_pool_new_def one_per_asn_def with_diversity_def pool_config_new_def diversity_default_def
      diversity_tracker_new_def pool_peer_ids_def)

text \<open>
  The same key leaks capacity: two peers behind one address connect and leave, the pool is empty, and the subnet still counts a
  connection. Under the default limit of two, the subnet has room for a single connection from then on.
\<close>

theorem shared_address_leaks_slots:
  "let p1 = run (pool_step id True) (connection_pool_new pool_config_default)
         [P_add (peer_at ''a'' 8 1) None None, P_add (peer_at ''b'' 8 2) None None, P_remove ''a'', P_remove ''b''];
       p2 = pool_step id True p1 (P_add (peer_at ''c'' 9 1) None None)
   in pool_connections p1 = [] \<and> pool_peer_ids p2 = [''c''] \<and>
      \<not> is_accepted (would_accept p2 (SocketAddr (V4 8 8 8 10) 1) None)"
  by (simp add: pool_eval connection_pool_new_def pool_config_default_def diversity_default_def
      diversity_tracker_new_def pool_peer_ids_def would_accept_def)

end
