(* ===== verification/Workload_Spec.thy ===== *)
theory Workload_Spec
  imports Json_Store
begin

text \<open>
  Workload specifications, \<open>crates/claw-proto/src/workload.rs\<close>, with the scheduling requirements of \<open>scheduling.rs\<close>, the
  validation of \<open>validation.rs\<close>, the errors of \<open>error.rs\<close> and the life cycle of a workload's status. Characters are bytes and the classes of characters
  are those of ASCII. The clock is an argument.
\<close>

section \<open>Scheduling requirements\<close>

record scheduling_gate =
  gate_name :: string
  gate_reason :: "string option"
  gate_controller :: "string option"

definition gate_new :: "string \<Rightarrow> scheduling_gate" where
  "gate_new n = \<lparr>gate_name = n, gate_reason = None, gate_controller = None\<rparr>"

definition gate_with_reason :: "string \<Rightarrow> scheduling_gate \<Rightarrow> scheduling_gate" where
  "gate_with_reason r g = g\<lparr>gate_reason := Some r\<rparr>"

definition gate_with_controller :: "string \<Rightarrow> scheduling_gate \<Rightarrow> scheduling_gate" where
  "gate_with_controller c g = g\<lparr>gate_controller := Some c\<rparr>"

datatype gate_status = Ready | Gated "string list"

definition gate_is_ready :: "gate_status \<Rightarrow> bool" where
  "gate_is_ready s \<longleftrightarrow> s = Ready"

datatype gpu_requirement = GpuRequirement
  (gr_count: u32) (gr_selector: "string option") (gr_min_memory_mib: "u64 option") (gr_model_pattern: "string option")
  (gr_fallback: "gpu_requirement option") (gr_priority: u32)

definition gpu_requirement_new :: "u32 \<Rightarrow> gpu_requirement" where
  "gpu_requirement_new n = GpuRequirement n None None None None 0"

fun gr_with_selector :: "string \<Rightarrow> gpu_requirement \<Rightarrow> gpu_requirement" where
  "gr_with_selector x (GpuRequirement c s m p f q) = GpuRequirement c (Some x) m p f q"

fun gr_with_min_memory_mib :: "u64 \<Rightarrow> gpu_requirement \<Rightarrow> gpu_requirement" where
  "gr_with_min_memory_mib x (GpuRequirement c s m p f q) = GpuRequirement c s (Some x) p f q"

fun gr_with_model_pattern :: "string \<Rightarrow> gpu_requirement \<Rightarrow> gpu_requirement" where
  "gr_with_model_pattern x (GpuRequirement c s m p f q) = GpuRequirement c s m (Some x) f q"

fun gr_with_fallback :: "gpu_requirement \<Rightarrow> gpu_requirement \<Rightarrow> gpu_requirement" where
  "gr_with_fallback x (GpuRequirement c s m p f q) = GpuRequirement c s m p (Some x) q"

fun gr_with_priority :: "u32 \<Rightarrow> gpu_requirement \<Rightarrow> gpu_requirement" where
  "gr_with_priority x (GpuRequirement c s m p f q) = GpuRequirement c s m p f x"

definition has_selection_criteria :: "gpu_requirement \<Rightarrow> bool" where
  "has_selection_criteria r \<longleftrightarrow> gr_selector r \<noteq> None \<or> gr_min_memory_mib r \<noteq> None \<or> gr_model_pattern r \<noteq> None"

text \<open>The items the fallback iterator yields.\<close>

fun fallback_chain :: "gpu_requirement \<Rightarrow> gpu_requirement list" where
  "fallback_chain (GpuRequirement c s m p None q) = [GpuRequirement c s m p None q]"
| "fallback_chain (GpuRequirement c s m p (Some f) q) = GpuRequirement c s m p (Some f) q # fallback_chain f"

datatype completion_mode = NonIndexed | Indexed

record parallel_config =
  pc_completions :: u32
  pc_parallelism :: u32
  pc_completion_mode :: completion_mode
  pc_backoff_limit :: u32
  pc_backoff_limit_per_index :: "u32 option"

definition parallel_new :: "u32 \<Rightarrow> u32 \<Rightarrow> parallel_config" where
  "parallel_new c p = \<lparr>pc_completions = c, pc_parallelism = p, pc_completion_mode = NonIndexed, pc_backoff_limit = 6,
     pc_backoff_limit_per_index = None\<rparr>"

definition parallel_indexed :: "u32 \<Rightarrow> parallel_config" where
  "parallel_indexed n = \<lparr>pc_completions = n, pc_parallelism = n, pc_completion_mode = Indexed, pc_backoff_limit = 6,
     pc_backoff_limit_per_index = Some 1\<rparr>"

definition parallel_with_completion_mode :: "completion_mode \<Rightarrow> parallel_config \<Rightarrow> parallel_config" where
  "parallel_with_completion_mode m p = p\<lparr>pc_completion_mode := m\<rparr>"

definition parallel_with_backoff_limit :: "u32 \<Rightarrow> parallel_config \<Rightarrow> parallel_config" where
  "parallel_with_backoff_limit n p = p\<lparr>pc_backoff_limit := n\<rparr>"

datatype condition_status = CondTrue | CondFalse | CondUnknown

record node_condition =
  condition_type :: string
  condition_status :: condition_status
  last_transition_time :: timestamp
  last_probe_time :: timestamp
  condition_reason :: "string option"
  condition_message :: "string option"
  observed_generation :: u64

definition node_condition_new :: "timestamp \<Rightarrow> string \<Rightarrow> condition_status \<Rightarrow> node_condition" where
  "node_condition_new now t s = \<lparr>condition_type = t, condition_status = s, last_transition_time = now, last_probe_time = now,
     condition_reason = None, condition_message = None, observed_generation = 0\<rparr>"

definition condition_with_reason :: "string \<Rightarrow> node_condition \<Rightarrow> node_condition" where
  "condition_with_reason r c = c\<lparr>condition_reason := Some r\<rparr>"

definition condition_with_message :: "string \<Rightarrow> node_condition \<Rightarrow> node_condition" where
  "condition_with_message m c = c\<lparr>condition_message := Some m\<rparr>"

definition condition_is_satisfied :: "node_condition \<Rightarrow> bool" where
  "condition_is_satisfied c \<longleftrightarrow> condition_status c = CondTrue"

definition update_status :: "timestamp \<Rightarrow> timestamp \<Rightarrow> condition_status \<Rightarrow> node_condition \<Rightarrow> node_condition" where
  "update_status now now' s c =
     (let c1 = (if condition_status c \<noteq> s then c\<lparr>condition_status := s, last_transition_time := now\<rparr> else c)
      in c1\<lparr>last_probe_time := now'\<rparr>)"

record condition_requirement =
  req_condition_type :: string
  required_status :: condition_status

definition must_be_true :: "string \<Rightarrow> condition_requirement" where
  "must_be_true t = \<lparr>req_condition_type = t, required_status = CondTrue\<rparr>"

definition must_be_false :: "string \<Rightarrow> condition_requirement" where
  "must_be_false t = \<lparr>req_condition_type = t, required_status = CondFalse\<rparr>"

definition is_satisfied_by :: "condition_requirement \<Rightarrow> node_condition \<Rightarrow> bool" where
  "is_satisfied_by r c \<longleftrightarrow> condition_type c = req_condition_type r \<and> condition_status c = required_status r"

record scheduling_requirements =
  scheduling_gates :: "scheduling_gate list"
  gpu_req :: "gpu_requirement option"
  required_conditions :: "condition_requirement list"
  parallel :: "parallel_config option"
  node_selector :: "(string, string) hashmap"

definition scheduling_default :: scheduling_requirements where
  "scheduling_default = \<lparr>scheduling_gates = [], gpu_req = None, required_conditions = [], parallel = None, node_selector = []\<rparr>"

definition sr_with_gate :: "scheduling_gate \<Rightarrow> scheduling_requirements \<Rightarrow> scheduling_requirements" where
  "sr_with_gate g s = s\<lparr>scheduling_gates := scheduling_gates s @ [g]\<rparr>"

definition sr_with_gpu_requirement :: "gpu_requirement \<Rightarrow> scheduling_requirements \<Rightarrow> scheduling_requirements" where
  "sr_with_gpu_requirement r s = s\<lparr>gpu_req := Some r\<rparr>"

definition sr_with_condition :: "condition_requirement \<Rightarrow> scheduling_requirements \<Rightarrow> scheduling_requirements" where
  "sr_with_condition c s = s\<lparr>required_conditions := required_conditions s @ [c]\<rparr>"

definition sr_with_parallel :: "parallel_config \<Rightarrow> scheduling_requirements \<Rightarrow> scheduling_requirements" where
  "sr_with_parallel p s = s\<lparr>parallel := Some p\<rparr>"

definition sr_with_node_selector :: "string \<Rightarrow> string \<Rightarrow> scheduling_requirements \<Rightarrow> scheduling_requirements" where
  "sr_with_node_selector k v s = s\<lparr>node_selector := hm_insert k v (node_selector s)\<rparr>"

definition sr_is_gated :: "scheduling_requirements \<Rightarrow> bool" where
  "sr_is_gated s \<longleftrightarrow> scheduling_gates s \<noteq> []"

definition sr_is_parallel :: "scheduling_requirements \<Rightarrow> bool" where
  "sr_is_parallel s \<longleftrightarrow> (case parallel s of None \<Rightarrow> False | Some p \<Rightarrow> 1 < pc_completions p)"

definition sr_is_indexed :: "scheduling_requirements \<Rightarrow> bool" where
  "sr_is_indexed s \<longleftrightarrow> (case parallel s of None \<Rightarrow> False | Some p \<Rightarrow> pc_completion_mode p = Indexed)"

section \<open>Validation\<close>

definition MAX_MEMORY_MB :: u64 where "MAX_MEMORY_MB = 1024000"
definition MAX_CPU_CORES :: u32 where "MAX_CPU_CORES = 1024"
definition MAX_GPU_COUNT :: u32 where "MAX_GPU_COUNT = 64"

record validation_error =
  ve_field :: string
  ve_message :: string

definition verr :: "string \<Rightarrow> string \<Rightarrow> validation_error" where
  "verr f m = \<lparr>ve_field = f, ve_message = m\<rparr>"

definition show_validation_error :: "validation_error \<Rightarrow> string" where
  "show_validation_error e = ve_field e @ '': '' @ ve_message e"

definition ascii_alphabetic :: "char \<Rightarrow> bool" where
  "ascii_alphabetic c \<longleftrightarrow>
     (65 \<le> (of_char c :: nat) \<and> (of_char c :: nat) \<le> 90) \<or> (97 \<le> (of_char c :: nat) \<and> (of_char c :: nat) \<le> 122)"

definition ascii_alphanumeric :: "char \<Rightarrow> bool" where
  "ascii_alphanumeric c \<longleftrightarrow> ascii_alphabetic c \<or> is_digit c"

text \<open>The part of the text behind the first occurrence of a character.\<close>

definition after_first :: "char \<Rightarrow> string \<Rightarrow> string option" where
  "after_first c s = (if c \<in> set s then Some (tl (dropWhile (\<lambda>x. x \<noteq> c) s)) else None)"

definition validate_image :: "string \<Rightarrow> validation_error + unit" where
  "validate_image s =
     (if s = [] then Inl (verr ''image'' ''image cannot be empty'')
      else if \<exists>c \<in> set s. is_space c then Inl (verr ''image'' ''image cannot contain whitespace'')
      else
        let name_tag = last (split_on CHR ''/'' s)
        in if name_tag = [] then Inl (verr ''image'' ''image must have a name component'')
           else if hd s = CHR '':'' \<or> hd s = CHR ''@'' then Inl (verr ''image'' (''image cannot start with '' @ [CHR 0x27] @ '':'' @ [CHR 0x27] @ '' or '' @ [CHR 0x27] @ ''@'' @ [CHR 0x27]))
           else if last s = CHR '':'' \<or> last s = CHR ''/'' then Inl (verr ''image'' (''image cannot end with '' @ [CHR 0x27] @ '':'' @ [CHR 0x27] @ '' or '' @ [CHR 0x27] @ ''/'' @ [CHR 0x27]))
           else (case after_first CHR ''@'' name_tag of
                   None \<Rightarrow> Inr ()
                 | Some digest \<Rightarrow>
                     if \<not> has_prefix ''sha256:'' digest \<and> \<not> has_prefix ''sha512:'' digest
                     then Inl (verr ''image'' (''digest must start with '' @ [CHR 0x27] @ ''sha256:'' @ [CHR 0x27] @ '' or '' @ [CHR 0x27] @ ''sha512:'' @ [CHR 0x27]))
                     else Inr ()))"

definition validate_resources :: "u64 \<Rightarrow> u32 \<Rightarrow> u32 \<Rightarrow> validation_error + unit" where
  "validate_resources mem cpu gpus =
     (if MAX_MEMORY_MB < mem then Inl (verr ''memory_mb'' (''memory_mb cannot exceed '' @ show_nat (unat MAX_MEMORY_MB)))
      else if MAX_CPU_CORES < cpu then Inl (verr ''cpu_cores'' (''cpu_cores cannot exceed '' @ show_nat (unat MAX_CPU_CORES)))
      else if MAX_GPU_COUNT < gpus then Inl (verr ''gpu_count'' (''gpu_count cannot exceed '' @ show_nat (unat MAX_GPU_COUNT)))
      else Inr ())"

definition validate_env_key :: "string \<Rightarrow> validation_error + unit" where
  "validate_env_key key =
     (case key of
        [] \<Rightarrow> Inl (verr ''env'' ''environment variable key cannot be empty'')
      | c # cs \<Rightarrow>
          if \<not> ascii_alphabetic c \<and> c \<noteq> CHR ''_''
          then Inl (verr ''env'' (quoted ''environment variable key'' key ''must start with a letter or underscore''))
          else (case find (\<lambda>c. \<not> ascii_alphanumeric c \<and> c \<noteq> CHR ''_'') key of
                  Some x \<Rightarrow> Inl (verr ''env'' (quoted ''environment variable key'' key (''contains invalid character '' @ [CHR 0x27, x, CHR 0x27])))
                | None \<Rightarrow> Inr ()))"

record workload_spec =
  ws_image :: string
  ws_command :: "string list"
  ws_env :: "(string, string) hashmap"
  ws_gpu_count :: u32
  ws_memory_mb :: u64
  ws_cpu_cores :: u32
  ws_scheduling :: scheduling_requirements

definition workload_spec_new :: "string \<Rightarrow> workload_spec" where
  "workload_spec_new img = \<lparr>ws_image = img, ws_command = [], ws_env = [], ws_gpu_count = 0, ws_memory_mb = 512, ws_cpu_cores = 1,
     ws_scheduling = scheduling_default\<rparr>"

definition ws_with_command :: "string list \<Rightarrow> workload_spec \<Rightarrow> workload_spec" where
  "ws_with_command c s = s\<lparr>ws_command := c\<rparr>"

definition ws_with_env :: "string \<Rightarrow> string \<Rightarrow> workload_spec \<Rightarrow> workload_spec" where
  "ws_with_env k v s = s\<lparr>ws_env := hm_insert k v (ws_env s)\<rparr>"

definition ws_with_gpu_count :: "u32 \<Rightarrow> workload_spec \<Rightarrow> workload_spec" where
  "ws_with_gpu_count n s = s\<lparr>ws_gpu_count := n\<rparr>"

definition ws_with_memory_mb :: "u64 \<Rightarrow> workload_spec \<Rightarrow> workload_spec" where
  "ws_with_memory_mb n s = s\<lparr>ws_memory_mb := n\<rparr>"

definition ws_with_cpu_cores :: "u32 \<Rightarrow> workload_spec \<Rightarrow> workload_spec" where
  "ws_with_cpu_cores n s = s\<lparr>ws_cpu_cores := n\<rparr>"

definition ws_with_scheduling_gate :: "scheduling_gate \<Rightarrow> workload_spec \<Rightarrow> workload_spec" where
  "ws_with_scheduling_gate g s = s\<lparr>ws_scheduling := sr_with_gate g (ws_scheduling s)\<rparr>"

definition ws_with_gpu_requirement :: "gpu_requirement \<Rightarrow> workload_spec \<Rightarrow> workload_spec" where
  "ws_with_gpu_requirement r s = s\<lparr>ws_scheduling := sr_with_gpu_requirement r (ws_scheduling s)\<rparr>"

definition ws_with_required_condition :: "condition_requirement \<Rightarrow> workload_spec \<Rightarrow> workload_spec" where
  "ws_with_required_condition c s = s\<lparr>ws_scheduling := sr_with_condition c (ws_scheduling s)\<rparr>"

definition ws_with_parallel :: "parallel_config \<Rightarrow> workload_spec \<Rightarrow> workload_spec" where
  "ws_with_parallel p s = s\<lparr>ws_scheduling := sr_with_parallel p (ws_scheduling s)\<rparr>"

definition ws_with_indexed_workers :: "u32 \<Rightarrow> workload_spec \<Rightarrow> workload_spec" where
  "ws_with_indexed_workers n s = s\<lparr>ws_scheduling := sr_with_parallel (parallel_indexed n) (ws_scheduling s)\<rparr>"

definition ws_with_node_selector :: "string \<Rightarrow> string \<Rightarrow> workload_spec \<Rightarrow> workload_spec" where
  "ws_with_node_selector k v s = s\<lparr>ws_scheduling := sr_with_node_selector k v (ws_scheduling s)\<rparr>"

definition effective_gpu_count :: "workload_spec \<Rightarrow> u32" where
  "effective_gpu_count s = (case gpu_req (ws_scheduling s) of None \<Rightarrow> ws_gpu_count s | Some r \<Rightarrow> gr_count r)"

definition spec_completion_mode :: "workload_spec \<Rightarrow> completion_mode" where
  "spec_completion_mode s = (case parallel (ws_scheduling s) of None \<Rightarrow> NonIndexed | Some p \<Rightarrow> pc_completion_mode p)"

fun err_list :: "'e + 'a \<Rightarrow> 'e list" where
  "err_list (Inl e) = [e]"
| "err_list (Inr _) = []"

definition spec_errors :: "workload_spec \<Rightarrow> validation_error list" where
  "spec_errors s =
     err_list (validate_image (ws_image s)) @
     err_list (validate_resources (ws_memory_mb s) (ws_cpu_cores s) (effective_gpu_count s)) @
     concat (map (\<lambda>(k, v). err_list (validate_env_key k)) (ws_env s)) @
     (case parallel (ws_scheduling s) of
        None \<Rightarrow> []
      | Some p \<Rightarrow>
          (if pc_parallelism p = 0 then [verr ''scheduling.parallel.parallelism'' ''parallelism must be > 0''] else []) @
          (if pc_completions p = 0 then [verr ''scheduling.parallel.completions'' ''completions must be > 0''] else []))"

text \<open>\<open>into_result\<close>: the first error, if there is one.\<close>

definition validate_spec :: "workload_spec \<Rightarrow> validation_error + unit" where
  "validate_spec s = (case spec_errors s of [] \<Rightarrow> Inr () | e # _ \<Rightarrow> Inl e)"

section \<open>The life cycle of a workload\<close>

datatype proto_error =
    Encoding string
  | Decoding string
  | InvalidMessageType u32
  | MissingField string
  | Validation string

fun show_proto_error :: "proto_error \<Rightarrow> string" where
  "show_proto_error (Encoding s) = ''encoding error: '' @ s"
| "show_proto_error (Decoding s) = ''decoding error: '' @ s"
| "show_proto_error (InvalidMessageType n) = ''invalid message type: '' @ show_nat (unat n)"
| "show_proto_error (MissingField s) = ''missing required field: '' @ s"
| "show_proto_error (Validation s) = ''validation error: '' @ s"

definition validation_to_proto :: "validation_error \<Rightarrow> proto_error" where
  "validation_to_proto e = Validation (show_validation_error e)"

datatype workload_state = WPending | WStarting | WRunning | WStopping | WStopped | WCompleted | WFailed

fun wstate_terminal :: "workload_state \<Rightarrow> bool" where
  "wstate_terminal s = (s \<in> {WCompleted, WFailed, WStopped})"

fun show_wstate :: "workload_state \<Rightarrow> string" where
  "show_wstate WPending = ''pending''"
| "show_wstate WStarting = ''starting''"
| "show_wstate WRunning = ''running''"
| "show_wstate WStopping = ''stopping''"
| "show_wstate WStopped = ''stopped''"
| "show_wstate WCompleted = ''completed''"
| "show_wstate WFailed = ''failed''"

fun is_valid_transition :: "workload_state \<Rightarrow> workload_state \<Rightarrow> bool" where
  "is_valid_transition WPending t = (t \<in> {WStarting, WFailed, WStopped, WPending})"
| "is_valid_transition WStarting t = (t \<in> {WRunning, WFailed, WStopped})"
| "is_valid_transition WRunning t = (t \<in> {WStopping, WCompleted, WFailed, WRunning})"
| "is_valid_transition WStopping t = (t \<in> {WStopped, WFailed})"
| "is_valid_transition _ t = False"

record workload_status =
  st_state :: workload_state
  st_started_at :: "timestamp option"
  st_finished_at :: "timestamp option"
  st_exit_code :: "32 word option"
  st_gpu_ids :: "u32 list"

definition status_pending :: workload_status where
  "status_pending = \<lparr>st_state = WPending, st_started_at = None, st_finished_at = None, st_exit_code = None, st_gpu_ids = []\<rparr>"

definition status_running :: "timestamp \<Rightarrow> u32 list \<Rightarrow> workload_status" where
  "status_running t g = \<lparr>st_state = WRunning, st_started_at = Some t, st_finished_at = None, st_exit_code = None, st_gpu_ids = g\<rparr>"

definition status_completed :: "timestamp \<Rightarrow> timestamp \<Rightarrow> 32 word \<Rightarrow> workload_status" where
  "status_completed a b c = \<lparr>st_state = WCompleted, st_started_at = Some a, st_finished_at = Some b, st_exit_code = Some c, st_gpu_ids = []\<rparr>"

definition status_failed :: "timestamp option \<Rightarrow> timestamp \<Rightarrow> 32 word option \<Rightarrow> workload_status" where
  "status_failed a b c = \<lparr>st_state = WFailed, st_started_at = a, st_finished_at = Some b, st_exit_code = c, st_gpu_ids = []\<rparr>"

definition transition_status ::
  "timestamp \<Rightarrow> workload_state \<Rightarrow> workload_status \<Rightarrow> (proto_error, unit, workload_status) outcome" where
  "transition_status now t s =
     (if \<not> is_valid_transition (st_state s) t
      then (Inl (Validation (''invalid state transition from '' @ show_wstate (st_state s) @ '' to '' @ show_wstate t)), s)
      else
        let s1 = (case t of
              WRunning \<Rightarrow> if st_started_at s = None then s\<lparr>st_started_at := Some now\<rparr> else s
            | WCompleted \<Rightarrow> s\<lparr>st_finished_at := Some now\<rparr>
            | WFailed \<Rightarrow> s\<lparr>st_finished_at := Some now\<rparr>
            | WStopped \<Rightarrow> s\<lparr>st_finished_at := Some now\<rparr>
            | _ \<Rightarrow> s)
        in (Inr (), s1\<lparr>st_state := t\<rparr>))"

definition status_set_exit_code :: "32 word \<Rightarrow> workload_status \<Rightarrow> workload_status" where
  "status_set_exit_code c s = s\<lparr>st_exit_code := Some c\<rparr>"

definition status_set_gpu_ids :: "u32 list \<Rightarrow> workload_status \<Rightarrow> workload_status" where
  "status_set_gpu_ids g s = s\<lparr>st_gpu_ids := g\<rparr>"

definition status_duration :: "workload_status \<Rightarrow> int option" where
  "status_duration s = (case (st_started_at s, st_finished_at s) of (Some a, Some b) \<Rightarrow> Some (b - a) | _ \<Rightarrow> None)"

text \<open>The full record. Identifiers are 128-bit numbers; a new one is an argument.\<close>

record workload =
  wl_id :: uuid
  wl_spec :: workload_spec
  wl_status :: workload_status
  wl_created_at :: timestamp
  wl_name :: "string option"

definition workload_with_id :: "timestamp \<Rightarrow> uuid \<Rightarrow> workload_spec \<Rightarrow> workload" where
  "workload_with_id now i s = \<lparr>wl_id = i, wl_spec = s, wl_status = status_pending, wl_created_at = now, wl_name = None\<rparr>"

definition workload_with_name :: "string \<Rightarrow> workload \<Rightarrow> workload" where
  "workload_with_name n w = w\<lparr>wl_name := Some n\<rparr>"

definition workload_is_terminal :: "workload \<Rightarrow> bool" where
  "workload_is_terminal w = wstate_terminal (st_state (wl_status w))"

text \<open>
  The states and timestamps that can occur: a workload has a start time exactly when it has run, a finish time exactly when
  it has ended, and both lie in order when the clock does not go back.
\<close>

definition status_inv :: "timestamp \<Rightarrow> workload_status \<Rightarrow> bool" where
  "status_inv now s \<longleftrightarrow>
     (st_state s \<in> {WPending, WStarting} \<longrightarrow> st_started_at s = None) \<and>
     (st_state s \<in> {WRunning, WStopping, WCompleted} \<longrightarrow> st_started_at s \<noteq> None) \<and>
     (st_finished_at s \<noteq> None \<longleftrightarrow> wstate_terminal (st_state s)) \<and>
     (\<forall>a. st_started_at s = Some a \<longrightarrow> a \<le> now) \<and>
     (\<forall>b. st_finished_at s = Some b \<longrightarrow> b \<le> now \<and> (\<forall>a. st_started_at s = Some a \<longrightarrow> a \<le> b))"

fun life_step :: "workload_status \<Rightarrow> timestamp \<times> workload_state \<Rightarrow> workload_status" where
  "life_step s (now, t) = snd (transition_status now t s)"

lemma status_inv_step:
  assumes "status_inv now s" and "now \<le> now'"
  shows "status_inv now' (snd (transition_status now' t s))"
  using assms
  by (cases "st_state s"; cases t) (auto simp: transition_status_def status_inv_def)

lemma terminal_step: "wstate_terminal (st_state s) \<Longrightarrow> snd (transition_status now t s) = s"
  by (cases "st_state s") (simp_all add: transition_status_def)

interpretation wstatus: final_steps life_step "\<lambda>s. wstate_terminal (st_state s)" "\<lambda>s. s"
  by unfold_locales (auto simp: terminal_step simp del: wstate_terminal.simps)

lemma status_run_inv:
  "status_inv now s \<Longrightarrow> sorted (now # map fst calls) \<Longrightarrow>
   status_inv (last (now # map fst calls)) (run life_step s calls)"
proof (induction calls arbitrary: now s)
  case (Cons c calls)
  obtain n t where c: "c = (n, t)" by (cases c)
  have "status_inv n (snd (transition_status n t s))" using Cons.prems c by (intro status_inv_step) auto
  from Cons.IH [OF this] Cons.prems(2) show ?case by (simp add: c)
qed simp

lemma completed_duration:
  assumes "status_inv now s" and "st_state s = WCompleted"
  shows "\<exists>d. status_duration s = Some d \<and> 0 \<le> d"
proof -
  obtain a b where ab: "st_started_at s = Some a" "st_finished_at s = Some b" using assms by (auto simp: status_inv_def)
  then have "a \<le> b" using assms by (simp add: status_inv_def)
  with ab show ?thesis by (simp add: status_duration_def)
qed

text \<open>
  C19. Life cycle: whatever transitions are requested at times that do not go back, a workload that has completed has run, its start
  and finish times are set and in order, a finish time is set exactly in the terminal states, and in a terminal state nothing changes
  any more.
\<close>

theorem workload_lifecycle:
  assumes "sorted (map fst calls)"
  shows "let s = run life_step status_pending calls
    in (st_state s = WCompleted \<longrightarrow> (\<exists>d. status_duration s = Some d \<and> 0 \<le> d)) \<and>
       (st_finished_at s \<noteq> None \<longleftrightarrow> wstate_terminal (st_state s)) \<and>
       (wstate_terminal (st_state s) \<longrightarrow> run life_step s later = s)"
proof -
  let ?s = "run life_step status_pending calls"
  let ?t0 = "case calls of [] \<Rightarrow> 0 | c # _ \<Rightarrow> fst c"
  have "sorted (?t0 # map fst calls)" using assms by (cases calls) auto
  moreover have "status_inv ?t0 status_pending" by (simp add: status_inv_def status_pending_def)
  ultimately have inv: "status_inv (last (?t0 # map fst calls)) ?s" by (intro status_run_inv)
  have "\<exists>d. status_duration ?s = Some d \<and> 0 \<le> d" if "st_state ?s = WCompleted"
    using completed_duration [OF inv that] .
  moreover have "st_finished_at ?s \<noteq> None \<longleftrightarrow> wstate_terminal (st_state ?s)" using inv unfolding status_inv_def by blast
  moreover have "run life_step ?s later = ?s" if "wstate_terminal (st_state ?s)" using wstatus.run_final [OF that] by blast
  ultimately show ?thesis unfolding Let_def by blast
qed

theorem workload_lifecycle_witness:
  "\<exists>d. status_duration (run life_step status_pending
      [(1, WStarting), (2, WRunning), (5, WCompleted), (6, WRunning)]) = Some d \<and> 0 \<le> d"
  using workload_lifecycle [of "[(1, WStarting), (2, WRunning), (5, WCompleted), (6, WRunning)]" "[]"]
  by (simp add: transition_status_def status_pending_def)

section \<open>What a valid specification guarantees\<close>

lemma err_list_Nil: "err_list r = [] \<longleftrightarrow> is_ok r"
  by (cases r) auto

lemma valid_spec_iff: "validate_spec s = Inr () \<longleftrightarrow> spec_errors s = []"
  by (simp add: validate_spec_def split: list.split)

lemma valid_memory: "validate_spec s = Inr () \<Longrightarrow> unat (ws_memory_mb s) \<le> 1024000"
  by (auto simp: valid_spec_iff spec_errors_def err_list_Nil validate_resources_def MAX_MEMORY_MB_def word_less_nat_alt
      split: if_splits)

lemma valid_gpus: "validate_spec s = Inr () \<Longrightarrow> unat (effective_gpu_count s) \<le> 64"
  by (auto simp: valid_spec_iff spec_errors_def err_list_Nil validate_resources_def MAX_GPU_COUNT_def word_less_nat_alt
      split: if_splits)

end
