(* ===== verification/Gpu_Selector.thy ===== *)
theory Gpu_Selector
  imports Workload_Spec
begin

text \<open>
  Matching GPU requirements against what a node has: the capabilities of \<open>crates/claw-proto/src/types.rs\<close> and the selector of
  \<open>selector.rs\<close> with its small expression language. Text is a list of ASCII characters, so byte positions and
  character positions agree.
\<close>

section \<open>Capabilities\<close>

record gpu_capability =
  gpu_index :: u32
  gpu_name :: string
  gpu_memory_mib :: u64
  gpu_uuid :: string

record node_capabilities =
  cap_gpus :: "gpu_capability list"
  cap_memory_mib :: u64
  cap_cpu_cores :: u32
  cap_runtimes :: "string list"
  cap_conditions :: "node_condition list"
  cap_labels :: "(string, string) hashmap"

definition capabilities_new :: "u32 \<Rightarrow> u64 \<Rightarrow> node_capabilities" where
  "capabilities_new cores mem = \<lparr>cap_gpus = [], cap_memory_mib = mem, cap_cpu_cores = cores, cap_runtimes = [],
     cap_conditions = [], cap_labels = []\<rparr>"

definition with_gpu :: "gpu_capability \<Rightarrow> node_capabilities \<Rightarrow> node_capabilities" where
  "with_gpu g c = c\<lparr>cap_gpus := cap_gpus c @ [g]\<rparr>"

definition with_runtime :: "string \<Rightarrow> node_capabilities \<Rightarrow> node_capabilities" where
  "with_runtime r c = c\<lparr>cap_runtimes := cap_runtimes c @ [r]\<rparr>"

definition with_condition :: "node_condition \<Rightarrow> node_capabilities \<Rightarrow> node_capabilities" where
  "with_condition d c = c\<lparr>cap_conditions := cap_conditions c @ [d]\<rparr>"

definition with_cap_label :: "string \<Rightarrow> string \<Rightarrow> node_capabilities \<Rightarrow> node_capabilities" where
  "with_cap_label k v c = c\<lparr>cap_labels := hm_insert k v (cap_labels c)\<rparr>"

text \<open>\<open>Iterator::sum\<close> adds with the operator: a checked build panics on overflow, the release build wraps.\<close>

definition total_vram_mib :: "bool \<Rightarrow> node_capabilities \<Rightarrow> u64 option" where
  "total_vram_mib checks c = fold (\<lambda>g s. Option.bind s (\<lambda>t. add_op checks t (gpu_memory_mib g))) (cap_gpus c) (Some 0)"

definition get_condition :: "node_capabilities \<Rightarrow> string \<Rightarrow> node_condition option" where
  "get_condition c t = find (\<lambda>d. condition_type d = t) (cap_conditions c)"

definition cap_condition_satisfied :: "node_capabilities \<Rightarrow> string \<Rightarrow> bool" where
  "cap_condition_satisfied c t = (case get_condition c t of None \<Rightarrow> False | Some d \<Rightarrow> condition_is_satisfied d)"

definition matches_selector :: "node_capabilities \<Rightarrow> (string, string) hashmap \<Rightarrow> bool" where
  "matches_selector c sel = list_all (\<lambda>(k, v). hm_get (cap_labels c) k = Some v) sel"

section \<open>Selector expressions\<close>

text \<open>\<open>str::split\<close> at \<open>&&\<close>.\<close>

fun split_and :: "string \<Rightarrow> string list" where
  "split_and [] = [[]]"
| "split_and [c] = [[c]]"
| "split_and (c # d # s) =
     (if c = CHR ''&'' \<and> d = CHR ''&'' then [] # split_and s
      else (case split_and (d # s) of [] \<Rightarrow> [[c]] | p # ps \<Rightarrow> (c # p) # ps))"

definition extract_numeric_value :: "string \<Rightarrow> u64 option" where
  "extract_numeric_value e = parse_u64 (rev (takeWhile is_digit (rev e)))"

definition is_quote :: "char \<Rightarrow> bool" where
  "is_quote c \<longleftrightarrow> c = CHR 0x27 \<or> c = CHR 0x22"

definition extract_string_value :: "string \<Rightarrow> string option" where
  "extract_string_value e =
     (case dropWhile (\<lambda>c. \<not> is_quote c) e of
        [] \<Rightarrow> None
      | q # rest \<Rightarrow> if q \<in> set rest then Some (takeWhile (\<lambda>c. c \<noteq> q) rest) else None)"

text \<open>The tests both comparisons make of the expression's text, in their order.\<close>

definition compare_with :: "string \<Rightarrow> u64 \<Rightarrow> bool" where
  "compare_with e x =
     (case extract_numeric_value e of
        None \<Rightarrow> False
      | Some v \<Rightarrow>
          if contains_text e ''>='' then v \<le> x
          else if contains_text e ''<='' then x \<le> v
          else if contains_text e ''>'' then v < x
          else if contains_text e ''<'' then x < v
          else if contains_text e ''=='' \<or> contains_text e ''='' then x = v
          else False)"

definition evaluate_memory_comparison :: "string \<Rightarrow> u64 \<Rightarrow> bool" where
  "evaluate_memory_comparison e m = compare_with e m"

definition evaluate_name_contains :: "string \<Rightarrow> string \<Rightarrow> bool" where
  "evaluate_name_contains e name = (case extract_string_value e of None \<Rightarrow> False | Some p \<Rightarrow> contains_text name p)"

definition evaluate_index_comparison :: "string \<Rightarrow> u32 \<Rightarrow> bool" where
  "evaluate_index_comparison e i = compare_with e (ucast i)"

definition evaluate_cel_part :: "string \<Rightarrow> gpu_capability \<Rightarrow> bool" where
  "evaluate_cel_part s g =
     (let p = trim s
      in if contains_text p ''device.memory_mib'' \<or> contains_text p ''memory_mib''
         then evaluate_memory_comparison p (gpu_memory_mib g)
         else if contains_text p ''device.name.contains'' \<or> contains_text p ''name.contains''
         then evaluate_name_contains p (gpu_name g)
         else if contains_text p ''device.index'' \<or> contains_text p ''index''
         then evaluate_index_comparison p (gpu_index g)
         else True)"

definition evaluate_cel_selector :: "string \<Rightarrow> gpu_capability \<Rightarrow> bool" where
  "evaluate_cel_selector s g = list_all (\<lambda>p. evaluate_cel_part p g) (map trim (split_and s))"

section \<open>Matching\<close>

definition gpu_matches_requirement :: "gpu_requirement \<Rightarrow> gpu_capability \<Rightarrow> bool" where
  "gpu_matches_requirement r g \<longleftrightarrow>
     (case gr_min_memory_mib r of None \<Rightarrow> True | Some m \<Rightarrow> \<not> gpu_memory_mib g < m) \<and>
     (case gr_model_pattern r of None \<Rightarrow> True | Some p \<Rightarrow> contains_text (gpu_name g) p) \<and>
     (case gr_selector r of None \<Rightarrow> True | Some s \<Rightarrow> evaluate_cel_selector s g)"

definition try_match_single :: "gpu_requirement \<Rightarrow> node_capabilities \<Rightarrow> u32 list option" where
  "try_match_single r c =
     (if length (cap_gpus c) < unat (gr_count r) then None
      else let ms = map gpu_index (filter (gpu_matches_requirement r) (cap_gpus c))
           in if unat (gr_count r) \<le> length ms then Some (take (unat (gr_count r)) ms) else None)"

datatype match_result = Match (matched_gpus: "u32 list") (match_priority: u32) | NoMatch string

fun is_match :: "match_result \<Rightarrow> bool" where
  "is_match (Match _ _) = True"
| "is_match (NoMatch _) = False"

definition build_mismatch_reason :: "gpu_requirement \<Rightarrow> node_capabilities \<Rightarrow> string" where
  "build_mismatch_reason r c =
     (let available = length (cap_gpus c); required = gr_count r;
          big = (\<lambda>m. length (filter (\<lambda>g. m \<le> gpu_memory_mib g) (cap_gpus c)));
          named = (\<lambda>p. length (filter (\<lambda>g. contains_text (gpu_name g) p) (cap_gpus c)));
          pattern_reason = (case gr_model_pattern r of
              Some p \<Rightarrow>
                if named p < unat required
                then ''need '' @ show_nat (unat required) @ '' GPUs matching '' @ CHR 0x27 # p @ CHR 0x27 # '', node has '' @ show_nat (named p)
                else ''GPU requirements not satisfied''
            | None \<Rightarrow> ''GPU requirements not satisfied'')
      in if available < unat required then ''need '' @ show_nat (unat required) @ '' GPUs, node has '' @ show_nat available
         else (case gr_min_memory_mib r of
                 Some m \<Rightarrow>
                   if big m < unat required
                   then ''need '' @ show_nat (unat required) @ '' GPUs with >= '' @ show_nat (unat m) @ ''MiB VRAM, node has '' @ show_nat (big m)
                   else pattern_reason
               | None \<Rightarrow> pattern_reason))"

text \<open>The loop over the chain.\<close>

fun match_chain :: "gpu_requirement list \<Rightarrow> node_capabilities \<Rightarrow> match_result option" where
  "match_chain [] c = None"
| "match_chain (q # qs) c = (case try_match_single q c of Some ms \<Rightarrow> Some (Match ms (gr_priority q)) | None \<Rightarrow> match_chain qs c)"

definition match_requirement :: "gpu_requirement \<Rightarrow> node_capabilities \<Rightarrow> match_result" where
  "match_requirement r c =
     (case match_chain (fallback_chain r) c of Some m \<Rightarrow> m | None \<Rightarrow> NoMatch (build_mismatch_reason r c))"

definition is_condition_satisfied :: "node_capabilities \<Rightarrow> condition_requirement \<Rightarrow> bool" where
  "is_condition_satisfied c r =
     (case get_condition c (req_condition_type r) of None \<Rightarrow> False | Some d \<Rightarrow> is_satisfied_by r d)"

definition node_satisfies_requirements :: "node_capabilities \<Rightarrow> scheduling_requirements \<Rightarrow> bool" where
  "node_satisfies_requirements c s =
     (if (case gpu_req s of None \<Rightarrow> False | Some r \<Rightarrow> \<not> is_match (match_requirement r c)) then False
      else if \<not> matches_selector c (node_selector s) then False
      else list_all (is_condition_satisfied c) (required_conditions s))"

section \<open>What matching means\<close>

text \<open>The GPUs of a node that meet every criterion of one requirement, in the node's order.\<close>

definition suitable_gpus :: "gpu_requirement \<Rightarrow> node_capabilities \<Rightarrow> gpu_capability list" where
  "suitable_gpus r c = filter (gpu_matches_requirement r) (cap_gpus c)"

definition enough :: "node_capabilities \<Rightarrow> gpu_requirement \<Rightarrow> bool" where
  "enough c r \<longleftrightarrow> unat (gr_count r) \<le> length (suitable_gpus r c)"

lemma try_match_suitable:
  "try_match_single r c =
     (if enough c r then Some (map gpu_index (take (unat (gr_count r)) (suitable_gpus r c))) else None)"
proof -
  have "\<not> enough c r" if "length (cap_gpus c) < unat (gr_count r)"
    using le_less_trans [OF length_filter_le that] by (simp add: enough_def suitable_gpus_def not_le)
  then show ?thesis by (auto simp: try_match_single_def enough_def suitable_gpus_def Let_def take_map)
qed

lemma match_chain_find:
  "match_chain qs c =
     map_option (\<lambda>q. Match (map gpu_index (take (unat (gr_count q)) (suitable_gpus q c))) (gr_priority q)) (find (enough c) qs)"
  by (induction qs) (simp_all add: try_match_suitable)

lemma find_first_split: "find P xs = Some q \<longleftrightarrow> (\<exists>pre post. xs = pre @ q # post \<and> P q \<and> list_all (\<lambda>x. \<not> P x) pre)"
proof (induction xs)
  case (Cons x xs)
  show ?case
  proof (cases "P x")
    case True
    then show ?thesis by (auto simp: Cons_eq_append_conv)
  next
    case False
    have "(\<exists>pre post. x # xs = pre @ q # post \<and> P q \<and> list_all (\<lambda>x. \<not> P x) pre) \<longleftrightarrow>
        (\<exists>pre post. xs = pre @ q # post \<and> P q \<and> list_all (\<lambda>x. \<not> P x) pre)" (is "?L \<longleftrightarrow> ?R")
    proof
      assume ?L
      then show ?R using False by (auto simp: Cons_eq_append_conv)
    next
      assume ?R
      then obtain pre post where "x # xs = (x # pre) @ q # post" "P q" "list_all (\<lambda>x. \<not> P x) (x # pre)" using False by auto
      then show ?L by blast
    qed
    with Cons False show ?thesis by simp
  qed
qed simp

text \<open>
  A requirement is matched by the first member of its fallback chain for which the node has enough suitable GPUs: the result names
  exactly that many, the first suitable ones, with the member's priority; a node is refused exactly when every member
  lacks GPUs.
\<close>

theorem match_requirement_first:
  "match_requirement r c = Match gs p \<longleftrightarrow>
   (\<exists>pre q post. fallback_chain r = pre @ q # post \<and> list_all (\<lambda>x. \<not> enough c x) pre \<and> enough c q \<and>
      gs = map gpu_index (take (unat (gr_count q)) (suitable_gpus q c)) \<and> p = gr_priority q)"
proof -
  have "match_requirement r c = Match gs p \<longleftrightarrow>
      (\<exists>q. find (enough c) (fallback_chain r) = Some q \<and>
        gs = map gpu_index (take (unat (gr_count q)) (suitable_gpus q c)) \<and> p = gr_priority q)"
    by (auto simp: match_requirement_def match_chain_find split: option.splits)
  then show ?thesis unfolding find_first_split by blast
qed

lemma is_match_iff: "is_match (match_requirement r c) \<longleftrightarrow> (\<exists>q \<in> set (fallback_chain r). enough c q)"
proof (cases "find (enough c) (fallback_chain r)")
  case None
  moreover have "\<not> (\<exists>q \<in> set (fallback_chain r). enough c q)" using None by (auto simp: find_None_iff)
  ultimately show ?thesis by (simp add: match_requirement_def match_chain_find)
next
  case (Some q)
  then have "q \<in> set (fallback_chain r)" "enough c q" by (auto simp: find_first_split)
  with Some show ?thesis by (auto simp: match_requirement_def match_chain_find)
qed

text \<open>
  A node satisfies scheduling requirements exactly when some member of the GPU requirement's chain finds enough suitable GPUs (where there is a
  GPU requirement), every selector label is set on the node to the wanted value, and for every required condition the first
  condition of that type that the node reports has the wanted status.
\<close>

theorem node_satisfies_iff:
  "node_satisfies_requirements c s \<longleftrightarrow>
     (case gpu_req s of None \<Rightarrow> True
      | Some r \<Rightarrow> \<exists>q \<in> set (fallback_chain r). enough c q) \<and>
     (\<forall>(k, v) \<in> set (node_selector s). hm_get (cap_labels c) k = Some v) \<and>
     (\<forall>r \<in> set (required_conditions s). \<exists>d. find (\<lambda>d. condition_type d = req_condition_type r) (cap_conditions c) = Some d \<and>
        condition_status d = required_status r)"
proof -
  have cond: "is_condition_satisfied c r \<longleftrightarrow>
      (\<exists>d. find (\<lambda>d. condition_type d = req_condition_type r) (cap_conditions c) = Some d \<and> condition_status d = required_status r)" for r
    by (auto simp: is_condition_satisfied_def get_condition_def is_satisfied_by_def split: option.split)
      (auto simp: find_Some_iff)
  show ?thesis
    by (auto simp: node_satisfies_requirements_def matches_selector_def is_match_iff cond list_all_iff split: option.splits)
qed

section \<open>What selector expressions mean\<close>

text \<open>The documented expressions: conjunctions of comparisons of the memory and the index and of tests of the name.\<close>

datatype cel_op = Ge | Le | Gt | Lt | Eql

datatype cel_atom = Memory cel_op u64 | Index cel_op u64 | Name_contains string

fun render_op :: "cel_op \<Rightarrow> string" where
  "render_op Ge = ''>=''"
| "render_op Le = ''<=''"
| "render_op Gt = ''>''"
| "render_op Lt = ''<''"
| "render_op Eql = ''==''"

fun render_atom :: "cel_atom \<Rightarrow> string" where
  "render_atom (Memory p n) = ''device.memory_mib '' @ render_op p @ '' '' @ show_nat (unat n)"
| "render_atom (Index p n) = ''device.index '' @ render_op p @ '' '' @ show_nat (unat n)"
| "render_atom (Name_contains t) = ''device.name.contains('' @ CHR 0x27 # t @ [CHR 0x27, CHR '')'']"

fun render :: "cel_atom list \<Rightarrow> string" where
  "render [] = []"
| "render [a] = render_atom a"
| "render (a # b # as) = render_atom a @ '' && '' @ render (b # as)"

fun holds_op :: "cel_op \<Rightarrow> u64 \<Rightarrow> u64 \<Rightarrow> bool" where
  "holds_op Ge x v = (v \<le> x)"
| "holds_op Le x v = (x \<le> v)"
| "holds_op Gt x v = (v < x)"
| "holds_op Lt x v = (x < v)"
| "holds_op Eql x v = (x = v)"

fun holds_atom :: "gpu_capability \<Rightarrow> cel_atom \<Rightarrow> bool" where
  "holds_atom g (Memory p n) = holds_op p (gpu_memory_mib g) n"
| "holds_atom g (Index p n) = holds_op p (ucast (gpu_index g)) n"
| "holds_atom g (Name_contains t) = contains_text (gpu_name g) t"

text \<open>Name patterns without the characters that the textual tests confuse.\<close>

fun plain_atom :: "cel_atom \<Rightarrow> bool" where
  "plain_atom (Name_contains t) = (\<not> (CHR 0x27 \<in> set t \<or> CHR ''&'' \<in> set t \<or> CHR ''_'' \<in> set t))"
| "plain_atom _ = True"

lemma split_and_append: "CHR ''&'' \<notin> set u \<Longrightarrow> split_and (u @ ''&&'' @ v) = u # split_and v"
  by (induction u rule: split_and.induct) auto

lemma split_and_plain: "CHR ''&'' \<notin> set u \<Longrightarrow> split_and u = [u]"
  by (induction u rule: split_and.induct) auto

lemma split_and_nonempty: "split_and u \<noteq> []"
  by (induction u rule: split_and.induct) (auto split: list.split)

lemma trim_lead: "trim (CHR '' '' # s) = trim s"
  by (simp add: trim_def is_space_def)

lemma trim_pad: "s \<noteq> [] \<Longrightarrow> \<not> is_space (hd s) \<Longrightarrow> \<not> is_space (last s) \<Longrightarrow> trim (s @ '' '') = s"
  using is_space_def [of "CHR '' ''"] by (simp add: trim_def hd_rev dropWhile_eq_self_iff [THEN iffD2])

lemma trim_split_lead: "map trim (split_and (CHR '' '' # s)) = map trim (split_and s)"
proof (cases s)
  case (Cons c t)
  then obtain p ps where "split_and s = p # ps" using split_and_nonempty [of s] by (cases "split_and s") auto
  with Cons show ?thesis by (simp add: trim_lead)
qed (simp add: trim_def is_space_def)

lemma rendered_ends:
  "render_atom a \<noteq> []" "\<not> is_space (hd (render_atom a))" "\<not> is_space (last (render_atom a))"
proof -
  have "\<not> is_space (last (show_nat n))" for n
    using show_nat_digits [of n] by (intro digit_not_space) (simp add: list_all_iff)
  then show "\<not> is_space (last (render_atom a))" by (cases a) (simp_all add: is_space_def del: show_nat.simps)
qed (cases a; simp add: is_space_def)+

lemma show_nat_no: "\<not> is_digit c \<Longrightarrow> c \<notin> set (show_nat n)"
  using show_nat_digits [of n] by (auto simp: list_all_iff)

lemma rendered_no_amp: "plain_atom a \<Longrightarrow> CHR ''&'' \<notin> set (render_atom a)"
proof (cases a)
  case (Memory p n)
  then show ?thesis by (cases p) (simp_all add: show_nat_no is_digit_def)
next
  case (Index p n)
  then show ?thesis by (cases p) (simp_all add: show_nat_no is_digit_def)
qed simp

lemma trimmed_parts:
  "list_all plain_atom as \<Longrightarrow> map trim (split_and (render as)) = (if as = [] then [[]] else map render_atom as)"
proof (induction as rule: render.induct)
  case (2 a)
  then show ?case by (simp add: split_and_plain rendered_no_amp trim_id rendered_ends)
next
  case (3 a b as)
  have "split_and (render_atom a @ '' && '' @ render (b # as)) =
      (render_atom a @ '' '') # split_and (CHR '' '' # render (b # as))"
    using split_and_append [of "render_atom a @ '' ''"] rendered_no_amp [of a] 3(2) by simp
  with 3 show ?case by (simp add: trim_split_lead trim_pad rendered_ends del: split_and.simps)
qed (simp add: trim_def)

lemma numeric_suffix:
  assumes "\<not> is_digit (last u)" and "u \<noteq> []"
  shows "extract_numeric_value (u @ show_nat (unat (n :: u64))) = Some n"
proof -
  have "takeWhile is_digit (rev u) = []" using assms by (cases "rev u") (auto simp: hd_rev [symmetric])
  then have "takeWhile is_digit (rev (show_nat (unat n)) @ rev u) = rev (show_nat (unat n))"
    using show_nat_digits [of "unat n"] by (subst takeWhile_append2) (auto simp: list_all_iff)
  then show ?thesis by (simp add: extract_numeric_value_def parse_show_u64)
qed

lemma not_contains: "c \<in> set t \<Longrightarrow> c \<notin> set s \<Longrightarrow> \<not> contains_text s t"
  using contains_set by blast

text \<open>A comparison reads its operator from the text; no operator's text contains another that is tested before it.\<close>

lemma compare_by_chars:
  assumes "extract_numeric_value e = Some n" and "contains_text e (render_op p)"
    and "set e \<inter> {CHR ''<'', CHR ''>'', CHR ''=''} \<subseteq> set (render_op p)"
  shows "compare_with e x = holds_op p x n"
proof -
  have no: "\<not> contains_text e t"
    if "c \<notin> set (render_op p)" "c \<in> {CHR ''<'', CHR ''>'', CHR ''=''}" "c \<in> set t" for c t
    using not_contains [of c t e] that assms(3) by blast
  show ?thesis
    using assms(1,2) no [of "CHR ''<''"] no [of "CHR ''>''"] no [of "CHR ''=''"] by (cases p) (simp_all add: compare_with_def)
qed

lemma compare_rendered:
  assumes "set u \<inter> {CHR ''<'', CHR ''>'', CHR ''=''} = {}" and "u \<noteq> []"
  shows "compare_with (u @ render_op p @ '' '' @ show_nat (unat n)) x = holds_op p x n"
proof (rule compare_by_chars)
  show "extract_numeric_value (u @ render_op p @ '' '' @ show_nat (unat n)) = Some n"
    using numeric_suffix [of "u @ render_op p @ '' ''" n] by (simp add: is_digit_def)
  show "contains_text (u @ render_op p @ '' '' @ show_nat (unat n)) (render_op p)"
    by (intro contains_append contains_prefix)
  show "set (u @ render_op p @ '' '' @ show_nat (unat n)) \<inter> {CHR ''<'', CHR ''>'', CHR ''=''} \<subseteq> set (render_op p)"
    using assms(1) show_nat_no [of "CHR ''<''"] show_nat_no [of "CHR ''>''"] show_nat_no [of "CHR ''=''"]
    by (auto simp: is_digit_def)
qed

lemma rendered_part:
  assumes "plain_atom a"
  shows "evaluate_cel_part (render_atom a) g = holds_atom g a"
proof -
  have t: "trim (render_atom a) = render_atom a" by (intro trim_id rendered_ends)
  show ?thesis
  proof (cases a)
    case (Memory p n)
    have "contains_text (render_atom a) ''device.memory_mib''"
      unfolding Memory using contains_prefix [of "''device.memory_mib''"] by simp
    moreover have "compare_with (render_atom a) (gpu_memory_mib g) = holds_op p (gpu_memory_mib g) n"
      unfolding Memory using compare_rendered [of "''device.memory_mib ''" p n] by simp
    ultimately show ?thesis
      by (simp add: evaluate_cel_part_def t evaluate_memory_comparison_def Let_def del: render_atom.simps) (simp add: Memory)
  next
    case (Index p n)
    have no: "c \<notin> set (render_atom a)" if "c \<in> {CHR ''m'', CHR ''_''}" for c
      unfolding Index using that by (cases p) (auto simp: show_nat_no is_digit_def)
    have "contains_text (render_atom a) ''device.index''"
      unfolding Index using contains_prefix [of "''device.index''"] by simp
    moreover have "compare_with (render_atom a) (ucast (gpu_index g)) = holds_op p (ucast (gpu_index g)) n"
      unfolding Index using compare_rendered [of "''device.index ''" p n] by simp
    ultimately show ?thesis
      using not_contains [of "CHR ''m''" _ "render_atom a"] no [of "CHR ''m''"]
      by (simp add: evaluate_cel_part_def t evaluate_index_comparison_def Let_def del: render_atom.simps) (simp add: Index)
  next
    case (Name_contains p)
    have "contains_text (render_atom a) ''device.name.contains''"
      unfolding Name_contains using contains_prefix [of "''device.name.contains''"] by simp
    moreover have "CHR ''_'' \<notin> set (render_atom a)" using assms by (simp add: Name_contains)
    then have "\<not> contains_text (render_atom a) ''device.memory_mib''" "\<not> contains_text (render_atom a) ''memory_mib''"
      by (simp_all add: not_contains [of "CHR ''_''"] del: render_atom.simps)
    moreover have "extract_string_value (render_atom a) = Some p"
      using assms by (simp add: Name_contains extract_string_value_def is_quote_def takeWhile_append)
    ultimately show ?thesis
      by (simp add: evaluate_cel_part_def t evaluate_name_contains_def Let_def del: render_atom.simps) (simp add: Name_contains)
  qed
qed

text \<open>
  C17. Selector expressions: a conjunction of memory and index comparisons and name tests, written as the documentation writes them, holds of a
  GPU exactly when each of its parts does, for every number of 64 bits and every name pattern without quote, ampersand and underscore.
\<close>

theorem selector_correct:
  assumes "list_all plain_atom as"
  shows "evaluate_cel_selector (render as) g \<longleftrightarrow> list_all (holds_atom g) as"
proof (cases as)
  case Nil
  then show ?thesis by (simp add: evaluate_cel_selector_def evaluate_cel_part_def trim_def)
next
  case (Cons a bs)
  have "list_all (\<lambda>p. evaluate_cel_part p g) (map render_atom as) \<longleftrightarrow> list_all (holds_atom g) as"
    using assms by (auto simp: list_all_iff rendered_part)
  then show ?thesis using trimmed_parts [OF assms] Cons by (simp add: evaluate_cel_selector_def)
qed

definition a100 :: gpu_capability where
  "a100 = \<lparr>gpu_index = 0, gpu_name = ''NVIDIA A100'', gpu_memory_mib = 81920, gpu_uuid = ''GPU-1''\<rparr>"

theorem selector_correct_witness:
  "evaluate_cel_selector (render [Memory Ge 40960, Name_contains ''A100'']) a100"
  using selector_correct [of "[Memory Ge 40960, Name_contains ''A100'']" a100] by (simp add: a100_def)

text \<open>
  Outside that fragment: inequality is read as equality, and a test of the documented variable \<open>device.uuid\<close> is
  ignored.
\<close>

lemma inequality_is_equality: "evaluate_cel_selector ''device.memory_mib != 81920'' a100"
  by (simp add: evaluate_cel_selector_def evaluate_cel_part_def evaluate_memory_comparison_def compare_with_def
      extract_numeric_value_def parse_u64_def is_digit_def digits_val_def digit_val_def trim_def is_space_def a100_def)

lemma uuid_ignored: "evaluate_cel_selector (''device.uuid == '' @ [CHR 0x22] @ ''GPU-2'' @ [CHR 0x22]) a100"
  by (simp add: evaluate_cel_selector_def evaluate_cel_part_def trim_def is_space_def)

definition a100_node :: node_capabilities where
  "a100_node = with_cap_label ''zone'' ''eu'' (with_gpu a100 (capabilities_new 8 65536))"

theorem node_satisfies_iff_witness:
  "node_satisfies_requirements a100_node
     (sr_with_node_selector ''zone'' ''eu'' (sr_with_gpu_requirement
        (gr_with_fallback (gr_with_model_pattern ''A100'' (gpu_requirement_new 1)) (gr_with_model_pattern ''H100'' (gpu_requirement_new 1)))
        scheduling_default))"
  unfolding node_satisfies_iff
  by (simp add: sr_with_node_selector_def sr_with_gpu_requirement_def scheduling_default_def gpu_requirement_new_def
      enough_def suitable_gpus_def a100_node_def with_cap_label_def with_gpu_def capabilities_new_def a100_def
      gpu_matches_requirement_def hm_insert_def)

end
