(* ===== verification/Proto_Messages.thy ===== *)
theory Proto_Messages
  imports Gpu_Selector
begin

text \<open>
  The messages between nodes and the gateway, \<open>crates/claw-proto/src/messages.rs\<close>, and the life-cycle events of
  \<open>events.rs\<close>. The clock is an argument; JSON encoding is derived code and not modelled.
\<close>

section \<open>Messages\<close>

text \<open>Values of \<open>f32\<close> are given by the number they stand for, as those of \<open>f64\<close>.\<close>

type_synonym f32 = f64
type_synonym node_id = uuid
type_synonym workload_id = uuid

record gpu_metrics =
  gm_index :: u32
  gm_utilization_percent :: u8
  gm_memory_used_mib :: u64
  gm_memory_total_mib :: u64
  gm_temperature_celsius :: u32
  gm_power_watts :: "f32 option"

datatype node_message =
    Register node_id string node_capabilities u32 "string option" "string option"
  | Heartbeat node_id timestamp
  | Metrics node_id "gpu_metrics list" timestamp
  | WorkloadUpdate workload_id workload_state "string option" timestamp
  | WorkloadLogs workload_id "string list" bool
  | MeshReady node_id string u32 "string option"

record node_config =
  nc_heartbeat_interval_secs :: "u32 option"
  nc_metrics_interval_secs :: "u32 option"
  nc_max_concurrent_workloads :: "u32 option"
  nc_log_level :: "string option"

definition node_config_new :: node_config where
  "node_config_new = \<lparr>nc_heartbeat_interval_secs = None, nc_metrics_interval_secs = None, nc_max_concurrent_workloads = None,
     nc_log_level = None\<rparr>"

definition with_heartbeat_interval :: "u32 \<Rightarrow> node_config \<Rightarrow> node_config" where
  "with_heartbeat_interval n c = c\<lparr>nc_heartbeat_interval_secs := Some n\<rparr>"

definition with_metrics_interval :: "u32 \<Rightarrow> node_config \<Rightarrow> node_config" where
  "with_metrics_interval n c = c\<lparr>nc_metrics_interval_secs := Some n\<rparr>"

definition with_max_concurrent_workloads :: "u32 \<Rightarrow> node_config \<Rightarrow> node_config" where
  "with_max_concurrent_workloads n c = c\<lparr>nc_max_concurrent_workloads := Some n\<rparr>"

definition with_log_level :: "string \<Rightarrow> node_config \<Rightarrow> node_config" where
  "with_log_level l c = c\<lparr>nc_log_level := Some l\<rparr>"

record mesh_peer_config =
  mp_public_key :: string
  mp_mesh_ip :: string
  mp_endpoint :: "string option"
  mp_keepalive_secs :: "u16 option"
  mp_allowed_ips :: "string list"

definition mesh_peer_config_new :: "string \<Rightarrow> string \<Rightarrow> mesh_peer_config" where
  "mesh_peer_config_new k ip = \<lparr>mp_public_key = k, mp_mesh_ip = ip, mp_endpoint = None, mp_keepalive_secs = Some 25, mp_allowed_ips = []\<rparr>"

definition mp_with_endpoint :: "string \<Rightarrow> mesh_peer_config \<Rightarrow> mesh_peer_config" where
  "mp_with_endpoint e p = p\<lparr>mp_endpoint := Some e\<rparr>"

definition mp_with_keepalive :: "u16 \<Rightarrow> mesh_peer_config \<Rightarrow> mesh_peer_config" where
  "mp_with_keepalive n p = p\<lparr>mp_keepalive_secs := Some n\<rparr>"

definition mp_with_allowed_ip :: "string \<Rightarrow> mesh_peer_config \<Rightarrow> mesh_peer_config" where
  "mp_with_allowed_ip ip p = p\<lparr>mp_allowed_ips := mp_allowed_ips p @ [ip]\<rparr>"

datatype gateway_message =
    Registered node_id u32 u32
  | HeartbeatAck timestamp
  | StartWorkload workload_id workload_spec
  | StopWorkload workload_id u32
  | ConfigUpdate node_config
  | RequestMetrics
  | RequestCapabilities
  | MeshPeerConfig string "string option" "mesh_peer_config list" string u16
  | MeshPeerRemove "string list"
  | RawEvent string json
  | GatewayError u32 string

definition msg_register :: "node_id \<Rightarrow> string \<Rightarrow> node_capabilities \<Rightarrow> node_message" where
  "msg_register i name c = Register i name c 1 None None"

definition msg_register_with_mesh :: "node_id \<Rightarrow> string \<Rightarrow> node_capabilities \<Rightarrow> string \<Rightarrow> string option \<Rightarrow> node_message" where
  "msg_register_with_mesh i name c key ep = Register i name c 1 (Some key) ep"

definition msg_mesh_ready :: "node_id \<Rightarrow> string \<Rightarrow> u32 \<Rightarrow> node_message" where
  "msg_mesh_ready i ip n = MeshReady i ip n None"

definition msg_mesh_ready_with_error :: "node_id \<Rightarrow> string \<Rightarrow> u32 \<Rightarrow> string \<Rightarrow> node_message" where
  "msg_mesh_ready_with_error i ip n e = MeshReady i ip n (Some e)"

definition msg_heartbeat :: "timestamp \<Rightarrow> node_id \<Rightarrow> node_message" where
  "msg_heartbeat now i = Heartbeat i now"

definition msg_metrics :: "timestamp \<Rightarrow> node_id \<Rightarrow> gpu_metrics list \<Rightarrow> node_message" where
  "msg_metrics now i ms = Metrics i ms now"

definition workload_update :: "timestamp \<Rightarrow> workload_id \<Rightarrow> workload_state \<Rightarrow> string option \<Rightarrow> node_message" where
  "workload_update now i s m = WorkloadUpdate i s m now"

definition MAX_WORKLOAD_LOG_LINES :: nat where "MAX_WORKLOAD_LOG_LINES = 10000"

definition workload_logs :: "workload_id \<Rightarrow> string list \<Rightarrow> bool \<Rightarrow> node_message" where
  "workload_logs i ls err =
     WorkloadLogs i (if MAX_WORKLOAD_LOG_LINES < length ls then take MAX_WORKLOAD_LOG_LINES ls else ls) err"

definition validate_message :: "node_message \<Rightarrow> proto_error + unit" where
  "validate_message m =
     (case m of
        WorkloadLogs i ls err \<Rightarrow>
          if MAX_WORKLOAD_LOG_LINES < length ls
          then Inl (Validation (''WorkloadLogs exceeds maximum line count: '' @ show_nat (length ls) @ '' > '' @
                 show_nat MAX_WORKLOAD_LOG_LINES))
          else Inr ()
      | _ \<Rightarrow> Inr ())"

definition message_is_valid :: "node_message \<Rightarrow> bool" where
  "message_is_valid m = is_ok (validate_message m)"

definition msg_registered :: "node_id \<Rightarrow> u32 \<Rightarrow> u32 \<Rightarrow> gateway_message" where
  "msg_registered i h m = Registered i h m"

definition heartbeat_ack :: "timestamp \<Rightarrow> gateway_message" where
  "heartbeat_ack now = HeartbeatAck now"

definition msg_error :: "u32 \<Rightarrow> string \<Rightarrow> gateway_message" where
  "msg_error c m = GatewayError c m"

definition config_update :: "node_config \<Rightarrow> gateway_message" where
  "config_update c = ConfigUpdate c"

text \<open>
  A message that a constructor builds is within the limits that validation checks; log messages keep the first lines.
\<close>

lemma workload_logs_valid:
  "message_is_valid (workload_logs i ls err)" "workload_logs i ls err = WorkloadLogs i (take MAX_WORKLOAD_LOG_LINES ls) err"
  by (auto simp: message_is_valid_def workload_logs_def validate_message_def)

section \<open>Events\<close>

datatype workload_event_kind = EvCreated | EvStarted | EvRunning | EvCompleted | EvFailed | EvStopped

fun show_event_kind :: "workload_event_kind \<Rightarrow> string" where
  "show_event_kind EvCreated = ''created''"
| "show_event_kind EvStarted = ''started''"
| "show_event_kind EvRunning = ''running''"
| "show_event_kind EvCompleted = ''completed''"
| "show_event_kind EvFailed = ''failed''"
| "show_event_kind EvStopped = ''stopped''"

record event_metadata =
  em_message :: "string option"
  em_exit_code :: "32 word option"
  em_error :: "string option"
  em_gpu_ids :: "u32 list"
  em_node_id :: "string option"

definition event_metadata_new :: event_metadata where
  "event_metadata_new = \<lparr>em_message = None, em_exit_code = None, em_error = None, em_gpu_ids = [], em_node_id = None\<rparr>"

definition em_with_message :: "string \<Rightarrow> event_metadata \<Rightarrow> event_metadata" where
  "em_with_message m e = e\<lparr>em_message := Some m\<rparr>"

definition em_with_exit_code :: "32 word \<Rightarrow> event_metadata \<Rightarrow> event_metadata" where
  "em_with_exit_code c e = e\<lparr>em_exit_code := Some c\<rparr>"

definition em_with_error :: "string \<Rightarrow> event_metadata \<Rightarrow> event_metadata" where
  "em_with_error x e = e\<lparr>em_error := Some x\<rparr>"

definition em_with_gpu_ids :: "u32 list \<Rightarrow> event_metadata \<Rightarrow> event_metadata" where
  "em_with_gpu_ids g e = e\<lparr>em_gpu_ids := g\<rparr>"

definition em_with_node_id :: "string \<Rightarrow> event_metadata \<Rightarrow> event_metadata" where
  "em_with_node_id n e = e\<lparr>em_node_id := Some n\<rparr>"

record workload_event =
  ev_workload_id :: workload_id
  ev_kind :: workload_event_kind
  ev_timestamp :: timestamp
  ev_metadata :: event_metadata

definition event_at :: "workload_id \<Rightarrow> workload_event_kind \<Rightarrow> timestamp \<Rightarrow> workload_event" where
  "event_at i k t = \<lparr>ev_workload_id = i, ev_kind = k, ev_timestamp = t, ev_metadata = event_metadata_new\<rparr>"

definition event_new :: "timestamp \<Rightarrow> workload_id \<Rightarrow> workload_event_kind \<Rightarrow> workload_event" where
  "event_new now i k = \<lparr>ev_workload_id = i, ev_kind = k, ev_timestamp = now, ev_metadata = event_metadata_new\<rparr>"

definition event_created :: "timestamp \<Rightarrow> workload_id \<Rightarrow> workload_event" where
  "event_created now i = event_new now i EvCreated"

definition event_started :: "timestamp \<Rightarrow> workload_id \<Rightarrow> workload_event" where
  "event_started now i = event_new now i EvStarted"

definition event_running :: "timestamp \<Rightarrow> workload_id \<Rightarrow> workload_event" where
  "event_running now i = event_new now i EvRunning"

definition event_completed :: "timestamp \<Rightarrow> workload_id \<Rightarrow> 32 word \<Rightarrow> workload_event" where
  "event_completed now i c = \<lparr>ev_workload_id = i, ev_kind = EvCompleted, ev_timestamp = now,
     ev_metadata = em_with_exit_code c event_metadata_new\<rparr>"

definition event_failed :: "timestamp \<Rightarrow> workload_id \<Rightarrow> string \<Rightarrow> workload_event" where
  "event_failed now i e = \<lparr>ev_workload_id = i, ev_kind = EvFailed, ev_timestamp = now,
     ev_metadata = em_with_error e event_metadata_new\<rparr>"

definition event_stopped :: "timestamp \<Rightarrow> workload_id \<Rightarrow> workload_event" where
  "event_stopped now i = event_new now i EvStopped"

definition event_with_metadata :: "event_metadata \<Rightarrow> workload_event \<Rightarrow> workload_event" where
  "event_with_metadata m e = e\<lparr>ev_metadata := m\<rparr>"

definition event_with_message :: "string \<Rightarrow> workload_event \<Rightarrow> workload_event" where
  "event_with_message m e = e\<lparr>ev_metadata := (ev_metadata e)\<lparr>em_message := Some m\<rparr>\<rparr>"

definition event_with_gpu_ids :: "u32 list \<Rightarrow> workload_event \<Rightarrow> workload_event" where
  "event_with_gpu_ids g e = e\<lparr>ev_metadata := (ev_metadata e)\<lparr>em_gpu_ids := g\<rparr>\<rparr>"

definition event_with_node_id :: "string \<Rightarrow> workload_event \<Rightarrow> workload_event" where
  "event_with_node_id n e = e\<lparr>ev_metadata := (ev_metadata e)\<lparr>em_node_id := Some n\<rparr>\<rparr>"

record event_log =
  log_events :: "workload_event list"

definition log_push :: "workload_event \<Rightarrow> event_log \<Rightarrow> event_log" where
  "log_push e l = l\<lparr>log_events := log_events l @ [e]\<rparr>"

definition log_latest :: "event_log \<Rightarrow> workload_event option" where
  "log_latest l = (if log_events l = [] then None else Some (last (log_events l)))"

definition events_of_kind :: "workload_event_kind \<Rightarrow> event_log \<Rightarrow> workload_event list" where
  "events_of_kind k l = filter (\<lambda>e. ev_kind e = k) (log_events l)"

definition has_event :: "workload_event_kind \<Rightarrow> event_log \<Rightarrow> bool" where
  "has_event k l = list_ex (\<lambda>e. ev_kind e = k) (log_events l)"

definition events_between :: "timestamp \<Rightarrow> timestamp \<Rightarrow> event_log \<Rightarrow> workload_event list" where
  "events_between a b l = filter (\<lambda>e. a \<le> ev_timestamp e \<and> ev_timestamp e \<le> b) (log_events l)"

lemma log_push_latest: "log_latest (log_push e l) = Some e"
  by (simp add: log_latest_def log_push_def)

lemma has_event_iff: "has_event k l \<longleftrightarrow> events_of_kind k l \<noteq> []"
  by (auto simp: has_event_def events_of_kind_def list_ex_iff filter_empty_conv)

lemma events_between_push:
  "events_between a b (log_push e l) = events_between a b l @ (if a \<le> ev_timestamp e \<and> ev_timestamp e \<le> b then [e] else [])"
  by (simp add: events_between_def log_push_def)

end
