(* ===== verification/Container_Runtime.thy ===== *)
theory Container_Runtime
  imports Proto_Messages
begin

text \<open>
  The container runtime interface of the node, \<open>crates/clawnode/src/runtime.rs\<close>: container specifications, the trait as a record of
  operations over a runtime state, the in-memory runtime, and the GPU allocator; with the errors of \<open>error.rs\<close>. The counter of the in-memory
  runtime wraps as in the release build; its locks are never poisoned, since no operation panics while it holds one.
\<close>

section \<open>Errors\<close>

datatype node_error =
    GatewayConnection string
  | GpuDetection string
  | ContainerRuntime string
  | Config string
  | MetricsError string
  | WorkloadExists uuid
  | WorkloadNotFound uuid
  | InsufficientGpus u32 u32
  | WorkloadValidation string
  | ResourceLimitInvalid string
  | ResourceExceedsCapacity string u64 u64
  | MaxWorkloadsExceeded u32 u32
  | InsufficientMemory u64 u64
  | InsufficientCpu f32 f32
  | InsufficientDisk u64 u64
  | ResourceLimitExceeded uuid string string
  | ExecutionTimeout uuid u64
  | Io string
  | Protocol proto_error

text \<open>How identifiers and floating-point numbers (with two decimals) are printed is a parameter.\<close>

record printers =
  print_uuid :: "uuid \<Rightarrow> string"
  print_f32_2 :: "f32 \<Rightarrow> string"

fun show_node_error :: "printers \<Rightarrow> node_error \<Rightarrow> string" where
  "show_node_error P (GatewayConnection s) = ''gateway connection failed: '' @ s"
| "show_node_error P (GpuDetection s) = ''GPU detection failed: '' @ s"
| "show_node_error P (ContainerRuntime s) = ''container runtime error: '' @ s"
| "show_node_error P (Config s) = ''configuration error: '' @ s"
| "show_node_error P (MetricsError s) = ''metrics collection failed: '' @ s"
| "show_node_error P (WorkloadExists i) = ''workload already exists: '' @ print_uuid P i"
| "show_node_error P (WorkloadNotFound i) = ''workload not found: '' @ print_uuid P i"
| "show_node_error P (InsufficientGpus r a) =
     ''insufficient GPUs: requested '' @ show_nat (unat r) @ '', available '' @ show_nat (unat a)"
| "show_node_error P (WorkloadValidation s) = ''workload validation failed: '' @ s"
| "show_node_error P (ResourceLimitInvalid s) = ''invalid resource limit: '' @ s"
| "show_node_error P (ResourceExceedsCapacity x r a) =
     ''resource '' @ x @ '' exceeds capacity: requested '' @ show_nat (unat r) @ '', available '' @ show_nat (unat a)"
| "show_node_error P (MaxWorkloadsExceeded c m) =
     ''maximum workloads exceeded: current '' @ show_nat (unat c) @ '', max '' @ show_nat (unat m)"
| "show_node_error P (InsufficientMemory r a) =
     ''insufficient memory: requested '' @ show_nat (unat r) @ '' bytes, available '' @ show_nat (unat a) @ '' bytes''"
| "show_node_error P (InsufficientCpu r a) =
     ''insufficient CPU: requested '' @ print_f32_2 P r @ '' cores, available '' @ print_f32_2 P a @ '' cores''"
| "show_node_error P (InsufficientDisk r a) =
     ''insufficient disk: requested '' @ show_nat (unat r) @ '' bytes, available '' @ show_nat (unat a) @ '' bytes''"
| "show_node_error P (ResourceLimitExceeded i x m) = ''workload '' @ print_uuid P i @ '' exceeded '' @ x @ '' limit: '' @ m"
| "show_node_error P (ExecutionTimeout i n) =
     ''workload '' @ print_uuid P i @ '' timed out after '' @ show_nat (unat n) @ '' seconds''"
| "show_node_error P (Io s) = ''io error: '' @ s"
| "show_node_error P (Protocol e) = ''protocol error: '' @ show_proto_error e"

section \<open>Containers\<close>

datatype container_state = CCreating | CRunning | CPaused | CStopping | CStopped | CExited | CFailed

fun container_terminal :: "container_state \<Rightarrow> bool" where
  "container_terminal s = (s \<in> {CStopped, CExited, CFailed})"

fun container_running :: "container_state \<Rightarrow> bool" where
  "container_running s = (s = CRunning)"

record container =
  ct_id :: string
  ct_image :: string
  ct_state :: container_state
  ct_gpu_ids :: "u32 list"
  ct_created_at :: timestamp
  ct_labels :: "(string, string) hashmap"
  ct_exit_code :: "32 word option"

definition container_new :: "timestamp \<Rightarrow> string \<Rightarrow> string \<Rightarrow> container" where
  "container_new now i img = \<lparr>ct_id = i, ct_image = img, ct_state = CCreating, ct_gpu_ids = [], ct_created_at = now,
     ct_labels = [], ct_exit_code = None\<rparr>"

definition ct_with_gpus :: "u32 list \<Rightarrow> container \<Rightarrow> container" where
  "ct_with_gpus g c = c\<lparr>ct_gpu_ids := g\<rparr>"

definition ct_with_label :: "string \<Rightarrow> string \<Rightarrow> container \<Rightarrow> container" where
  "ct_with_label k v c = c\<lparr>ct_labels := hm_insert k v (ct_labels c)\<rparr>"

definition uses_gpu :: "container \<Rightarrow> u32 \<Rightarrow> bool" where
  "uses_gpu c g \<longleftrightarrow> g \<in> set (ct_gpu_ids c)"

record port_mapping =
  host_port :: u16
  container_port :: u16
  pm_protocol :: string

record container_spec =
  cs_image :: string
  cs_command :: "string list option"
  cs_env :: "(string, string) hashmap"
  cs_gpu_ids :: "u32 list"
  cs_memory_limit :: "u64 option"
  cs_cpu_limit :: "f32 option"
  cs_labels :: "(string, string) hashmap"
  cs_working_dir :: "string option"
  cs_network :: "string option"
  cs_ip_address :: "string option"
  cs_port_mappings :: "port_mapping list"
  cs_dns :: "string list"

definition container_spec_new :: "string \<Rightarrow> container_spec" where
  "container_spec_new img = \<lparr>cs_image = img, cs_command = None, cs_env = [], cs_gpu_ids = [], cs_memory_limit = None,
     cs_cpu_limit = None, cs_labels = [], cs_working_dir = None, cs_network = None, cs_ip_address = None,
     cs_port_mappings = [], cs_dns = []\<rparr>"

definition cs_with_command :: "string list \<Rightarrow> container_spec \<Rightarrow> container_spec" where
  "cs_with_command c s = s\<lparr>cs_command := Some c\<rparr>"

definition cs_with_env :: "string \<Rightarrow> string \<Rightarrow> container_spec \<Rightarrow> container_spec" where
  "cs_with_env k v s = s\<lparr>cs_env := hm_insert k v (cs_env s)\<rparr>"

definition cs_with_gpus :: "u32 list \<Rightarrow> container_spec \<Rightarrow> container_spec" where
  "cs_with_gpus g s = s\<lparr>cs_gpu_ids := g\<rparr>"

definition cs_with_memory_limit :: "u64 \<Rightarrow> container_spec \<Rightarrow> container_spec" where
  "cs_with_memory_limit n s = s\<lparr>cs_memory_limit := Some n\<rparr>"

definition cs_with_cpu_limit :: "f32 \<Rightarrow> container_spec \<Rightarrow> container_spec" where
  "cs_with_cpu_limit x s = s\<lparr>cs_cpu_limit := Some x\<rparr>"

definition cs_with_label :: "string \<Rightarrow> string \<Rightarrow> container_spec \<Rightarrow> container_spec" where
  "cs_with_label k v s = s\<lparr>cs_labels := hm_insert k v (cs_labels s)\<rparr>"

section \<open>The runtime interface\<close>

record 'r container_runtime =
  rt_create :: "container_spec \<Rightarrow> 'r \<Rightarrow> (node_error, container, 'r) outcome"
  rt_start :: "string \<Rightarrow> 'r \<Rightarrow> (node_error, unit, 'r) outcome"
  rt_stop :: "string \<Rightarrow> u32 \<Rightarrow> 'r \<Rightarrow> (node_error, unit, 'r) outcome"
  rt_remove :: "string \<Rightarrow> 'r \<Rightarrow> (node_error, unit, 'r) outcome"
  rt_get :: "string \<Rightarrow> 'r \<Rightarrow> node_error + container"
  rt_list :: "'r \<Rightarrow> node_error + container list"
  rt_logs :: "string \<Rightarrow> nat option \<Rightarrow> 'r \<Rightarrow> node_error + string list"

record fake_runtime =
  fk_containers :: "(string, container) hashmap"
  fk_next_id :: u64

definition fake_new :: fake_runtime where
  "fake_new = \<lparr>fk_containers = [], fk_next_id = 0\<rparr>"

definition container_count :: "fake_runtime \<Rightarrow> nat" where
  "container_count r = length (fk_containers r)"

text \<open>At least eight digits wide.\<close>

definition hex8 :: "u64 \<Rightarrow> string" where
  "hex8 n = (let s = show_hex (unat n) in replicate (8 - length s) CHR ''0'' @ s)"

definition generate_id :: "fake_runtime \<Rightarrow> string \<times> fake_runtime" where
  "generate_id r = (let n = fk_next_id r + 1 in (''container-'' @ hex8 n, r\<lparr>fk_next_id := n\<rparr>))"

definition not_found :: "string \<Rightarrow> node_error" where
  "not_found i = ContainerRuntime (''container not found: '' @ i)"

definition fake_create :: "timestamp \<Rightarrow> container_spec \<Rightarrow> fake_runtime \<Rightarrow> (node_error, container, fake_runtime) outcome" where
  "fake_create now s r =
     (case generate_id r of (i, r1) \<Rightarrow>
        let c = fold (\<lambda>(k, v) c. ct_with_label k v c) (cs_labels s) (ct_with_gpus (cs_gpu_ids s) (container_new now i (cs_image s)));
            c' = c\<lparr>ct_state := CRunning\<rparr>
        in (Inr c', r1\<lparr>fk_containers := hm_insert i c' (fk_containers r1)\<rparr>))"

definition fake_start :: "string \<Rightarrow> fake_runtime \<Rightarrow> (node_error, unit, fake_runtime) outcome" where
  "fake_start i r =
     (case hm_get (fk_containers r) i of
        None \<Rightarrow> (Inl (not_found i), r)
      | Some c \<Rightarrow>
          if container_terminal (ct_state c) then (Inl (ContainerRuntime ''cannot start terminal container''), r)
          else (Inr (), r\<lparr>fk_containers := hm_insert i (c\<lparr>ct_state := CRunning\<rparr>) (fk_containers r)\<rparr>))"

definition fake_stop :: "string \<Rightarrow> u32 \<Rightarrow> fake_runtime \<Rightarrow> (node_error, unit, fake_runtime) outcome" where
  "fake_stop i timeout r =
     (case hm_get (fk_containers r) i of
        None \<Rightarrow> (Inl (not_found i), r)
      | Some c \<Rightarrow> (Inr (), r\<lparr>fk_containers := hm_insert i (c\<lparr>ct_state := CStopped, ct_exit_code := Some 0\<rparr>) (fk_containers r)\<rparr>))"

definition fake_remove :: "string \<Rightarrow> fake_runtime \<Rightarrow> (node_error, unit, fake_runtime) outcome" where
  "fake_remove i r =
     (case hm_get (fk_containers r) i of
        None \<Rightarrow> (Inl (not_found i), r)
      | Some c \<Rightarrow> (Inr (), r\<lparr>fk_containers := hm_remove i (fk_containers r)\<rparr>))"

definition fake_get :: "string \<Rightarrow> fake_runtime \<Rightarrow> node_error + container" where
  "fake_get i r = (case hm_get (fk_containers r) i of None \<Rightarrow> Inl (not_found i) | Some c \<Rightarrow> Inr c)"

definition fake_list :: "fake_runtime \<Rightarrow> node_error + container list" where
  "fake_list r = Inr (hm_values (fk_containers r))"

definition fake_logs :: "string \<Rightarrow> nat option \<Rightarrow> fake_runtime \<Rightarrow> node_error + string list" where
  "fake_logs i tail r =
     (if \<not> hm_contains (fk_containers r) i then Inl (not_found i)
      else let ls = [''Starting container...'', ''Application initialized'', ''Ready to serve requests'']
           in Inr (case tail of Some n \<Rightarrow> rev (take n (rev ls)) | None \<Rightarrow> ls))"

definition fake_container_runtime :: "timestamp \<Rightarrow> fake_runtime container_runtime" where
  "fake_container_runtime now = \<lparr>rt_create = fake_create now, rt_start = fake_start, rt_stop = fake_stop, rt_remove = fake_remove,
     rt_get = fake_get, rt_list = fake_list, rt_logs = fake_logs\<rparr>"

section \<open>The GPU allocator\<close>

type_synonym gpu_allocator = "(u32, string) hashmap"

text \<open>The check looks for the first GPU of the list that is taken; nothing is stored before it has passed.\<close>

definition allocator_allocate :: "string \<Rightarrow> u32 list \<Rightarrow> gpu_allocator \<Rightarrow> (node_error, unit, gpu_allocator) outcome" where
  "allocator_allocate cid gs a =
     (case find (\<lambda>g. hm_get a g \<noteq> None) gs of
        Some g \<Rightarrow> (Inl (ContainerRuntime (''GPU '' @ show_nat (unat g) @ '' already allocated to container '' @ the (hm_get a g))), a)
      | None \<Rightarrow> (Inr (), fold (\<lambda>g m. hm_insert g cid m) gs a))"

definition allocator_release :: "string \<Rightarrow> gpu_allocator \<Rightarrow> gpu_allocator" where
  "allocator_release cid a = hm_retain (\<lambda>_ v. v \<noteq> cid) a"

definition is_available :: "gpu_allocator \<Rightarrow> u32 \<Rightarrow> bool" where
  "is_available a g \<longleftrightarrow> \<not> hm_contains a g"

definition available_gpus :: "gpu_allocator \<Rightarrow> u32 list \<Rightarrow> u32 list" where
  "available_gpus a gs = filter (is_available a) gs"

definition allocator_get_container :: "gpu_allocator \<Rightarrow> u32 \<Rightarrow> string option" where
  "allocator_get_container a g = hm_get a g"

lemma fold_insert_get: "hm_get (fold (\<lambda>g m. hm_insert g cid m) gs a) g = (if g \<in> set gs then Some cid else hm_get a g)"
  by (induction gs arbitrary: a) auto

lemma fold_insert_wf: "hm_wf a \<Longrightarrow> hm_wf (fold (\<lambda>g m. hm_insert g cid m) gs a)"
  by (induction gs arbitrary: a) auto

text \<open>
  Allocation is all or nothing: it succeeds exactly when every GPU of the list is free, then hands all of them to the container and
  touches no other; otherwise nothing changes. Releasing the container gives back what it had, and with it the state before the
  allocation if it held nothing then.
\<close>

theorem allocator_all_or_nothing:
  assumes "hm_wf a"
  shows "case allocator_allocate cid gs a of (r, a') \<Rightarrow>
    (is_ok r \<longleftrightarrow> (\<forall>g \<in> set gs. is_available a g)) \<and>
    (\<not> is_ok r \<longrightarrow> a' = a) \<and>
    (is_ok r \<longrightarrow> (\<forall>g. allocator_get_container a' g = (if g \<in> set gs then Some cid else allocator_get_container a g)) \<and>
       ((\<forall>g. allocator_get_container a g \<noteq> Some cid) \<longrightarrow>
          (\<forall>g. allocator_get_container (allocator_release cid a') g = allocator_get_container a g)))"
proof (cases "find (\<lambda>g. hm_get a g \<noteq> None) gs")
  case None
  then have free: "\<forall>g \<in> set gs. hm_get a g = None" by (auto simp: find_None_iff)
  show ?thesis
    unfolding allocator_allocate_def None using free
    by (auto simp: allocator_get_container_def allocator_release_def hm_get_retain fold_insert_wf assms fold_insert_get
        is_available_def hm_contains_def split: option.split)
next
  case (Some g)
  then have "g \<in> set gs" "\<not> is_available a g" by (auto simp: find_Some_iff is_available_def hm_contains_def)
  then show ?thesis unfolding allocator_allocate_def Some by auto
qed

theorem allocator_all_or_nothing_witness:
  "\<forall>g. allocator_get_container (allocator_release ''b'' (snd (allocator_allocate ''b'' [2, 3] [(0, ''a'')]))) g
     = allocator_get_container [(0, ''a'')] g"
  using allocator_all_or_nothing [where a = "[(0, ''a'')]" and cid = "''b''" and gs = "[2, 3]"]
  by (simp add: allocator_allocate_def is_available_def hm_contains_def allocator_get_container_def)

end
