(* ===== verification/Node_Workloads.thy ===== *)
theory Node_Workloads
  imports Container_Runtime
begin

text \<open>
  The node's workloads and GPUs, \<open>crates/clawnode/src/state.rs\<close>, and the handlers of gateway messages, \<open>handlers.rs\<close>. The container
  runtime is a parameter; a handler that panics is \<^const>\<open>None\<close>. One reading of the clock is an argument of each handler.
\<close>

section \<open>Node state\<close>

datatype gateway_connection_state = Disconnected | Connecting | Connected | Reconnecting

record workload_info =
  wi_id :: uuid
  wi_image :: string
  wi_gpu_ids :: "u32 list"
  wi_started_at :: timestamp
  wi_container_id :: "string option"

definition workload_info_new :: "timestamp \<Rightarrow> uuid \<Rightarrow> string \<Rightarrow> u32 list \<Rightarrow> workload_info" where
  "workload_info_new now i img g = \<lparr>wi_id = i, wi_image = img, wi_gpu_ids = g, wi_started_at = now, wi_container_id = None\<rparr>"

definition with_container_id :: "string \<Rightarrow> workload_info \<Rightarrow> workload_info" where
  "with_container_id c w = w\<lparr>wi_container_id := Some c\<rparr>"

record node_state =
  ns_connection :: gateway_connection_state
  ns_workloads :: "(uuid, workload_info) hashmap"
  ns_allocated_gpus :: "u32 list"
  ns_total_gpus :: u32

definition state_with_gpus :: "u32 \<Rightarrow> node_state" where
  "state_with_gpus n = \<lparr>ns_connection = Disconnected, ns_workloads = [], ns_allocated_gpus = [], ns_total_gpus = n\<rparr>"

definition is_gpu_allocated :: "node_state \<Rightarrow> u32 \<Rightarrow> bool" where
  "is_gpu_allocated s g \<longleftrightarrow> g \<in> set (ns_allocated_gpus s)"

definition workload_count :: "node_state \<Rightarrow> nat" where
  "workload_count s = length (ns_workloads s)"

text \<open>The length is cast to 32 bits.\<close>

definition available_gpu_count :: "node_state \<Rightarrow> u32" where
  "available_gpu_count s = saturating_sub (ns_total_gpus s) (of_nat (length (ns_allocated_gpus s)))"

fun track_gpus :: "u32 list \<Rightarrow> u32 list \<Rightarrow> u32 list" where
  "track_gpus [] used = used"
| "track_gpus (g # gs) used = track_gpus gs (if g \<notin> set used then used @ [g] else used)"

definition add_workload :: "workload_info \<Rightarrow> node_state \<Rightarrow> (node_error, unit, node_state) outcome" where
  "add_workload w s =
     (if hm_contains (ns_workloads s) (wi_id w) then (Inl (WorkloadExists (wi_id w)), s)
      else (Inr (), s\<lparr>ns_allocated_gpus := track_gpus (wi_gpu_ids w) (ns_allocated_gpus s),
                     ns_workloads := hm_insert (wi_id w) w (ns_workloads s)\<rparr>))"

definition release_gpus :: "u32 list \<Rightarrow> node_state \<Rightarrow> node_state" where
  "release_gpus gs s = s\<lparr>ns_allocated_gpus := fold (\<lambda>g used. filter (\<lambda>x. x \<noteq> g) used) gs (ns_allocated_gpus s)\<rparr>"

definition remove_workload :: "uuid \<Rightarrow> node_state \<Rightarrow> (node_error, workload_info, node_state) outcome" where
  "remove_workload i s =
     (case hm_get (ns_workloads s) i of
        None \<Rightarrow> (Inl (WorkloadNotFound i), s)
      | Some w \<Rightarrow> (Inr w, s\<lparr>ns_workloads := hm_remove i (ns_workloads s),
          ns_allocated_gpus := fold (\<lambda>g used. filter (\<lambda>x. x \<noteq> g) used) (wi_gpu_ids w) (ns_allocated_gpus s)\<rparr>))"

definition get_workload :: "node_state \<Rightarrow> uuid \<Rightarrow> workload_info option" where
  "get_workload s i = hm_get (ns_workloads s) i"

text \<open>The loop over the GPU numbers: what it has allocated so far and the node's list, which it extends.\<close>

fun allocate_loop :: "nat \<Rightarrow> u32 list \<Rightarrow> u32 list \<Rightarrow> u32 list \<Rightarrow> u32 list \<times> u32 list" where
  "allocate_loop n [] acc used = (acc, used)"
| "allocate_loop n (g # gs) acc used =
     (if g \<notin> set used
      then if Suc (length acc) = n then (acc @ [g], used @ [g]) else allocate_loop n gs (acc @ [g]) (used @ [g])
      else allocate_loop n gs acc used)"

definition gpu_numbers :: "u32 \<Rightarrow> u32 list" where
  "gpu_numbers n = map of_nat [0..<unat n]"

definition allocate_gpus :: "u32 \<Rightarrow> node_state \<Rightarrow> (node_error, u32 list, node_state) outcome" where
  "allocate_gpus n s =
     (if n = 0 then (Inr [], s)
      else if available_gpu_count s < n then (Inl (InsufficientGpus n (available_gpu_count s)), s)
      else case allocate_loop (unat n) (gpu_numbers (ns_total_gpus s)) [] (ns_allocated_gpus s) of
             (gs, used) \<Rightarrow> (Inr gs, s\<lparr>ns_allocated_gpus := used\<rparr>))"

section \<open>Handlers\<close>

type_synonym 'r reply = "(node_error, node_message option, node_state \<times> 'r) outcome"

definition build_container_spec :: "printers \<Rightarrow> bool \<Rightarrow> uuid \<Rightarrow> workload_spec \<Rightarrow> u32 list \<Rightarrow> container_spec option" where
  "build_container_spec P checks i sp gs =
     (let c1 = cs_with_label ''workload-id'' (print_uuid P i) (cs_with_gpus gs (container_spec_new (ws_image sp)));
          c2 = (if ws_command sp \<noteq> [] then cs_with_command (ws_command sp) c1 else c1);
          c3 = fold (\<lambda>(k, v) c. cs_with_env k v c) (ws_env sp) c2;
          c4 = (if 0 < ws_memory_mb sp
                then map_option (\<lambda>m. cs_with_memory_limit m c3)
                       (Option.bind (mul_op checks (ws_memory_mb sp) 1024) (\<lambda>m. mul_op checks m 1024))
                else Some c3)
      in map_option (\<lambda>c. if 0 < ws_cpu_cores sp then cs_with_cpu_limit (Fin (of_nat (unat (ws_cpu_cores sp)))) c else c) c4)"

definition handle_start_workload ::
  "printers \<Rightarrow> bool \<Rightarrow> 'r container_runtime \<Rightarrow> timestamp \<Rightarrow> uuid \<Rightarrow> workload_spec \<Rightarrow> node_state \<times> 'r \<Rightarrow> 'r reply option" where
  "handle_start_workload P checks R now i sp st =
     (case st of (s, r) \<Rightarrow>
        case validate_spec sp of
          Inl e \<Rightarrow> Some (Inr (Some (workload_update now i WFailed (Some (''validation failed: '' @ show_validation_error e)))), st)
        | Inr _ \<Rightarrow>
            if get_workload s i \<noteq> None then Some (Inl (WorkloadExists i), st)
            else
              (case (if 0 < ws_gpu_count sp then allocate_gpus (ws_gpu_count sp) s else (Inr [], s)) of
                 (Inl e, s1) \<Rightarrow>
                   Some (Inr (Some (workload_update now i WFailed (Some (''GPU allocation failed: '' @ show_node_error P e)))), (s1, r))
               | (Inr gs, s1) \<Rightarrow>
                   Option.bind (build_container_spec P checks i sp gs) (\<lambda>cs.
                     Some (case rt_create R cs r of
                       (Inl e, r1) \<Rightarrow>
                         (Inr (Some (workload_update now i WFailed (Some (''container creation failed: '' @ show_node_error P e)))),
                          (release_gpus gs s1, r1))
                     | (Inr c, r1) \<Rightarrow>
                         (case add_workload (with_container_id (ct_id c) (workload_info_new now i (ws_image sp) gs)) s1 of
                            (Inl e, s2) \<Rightarrow> (Inl e, (s2, snd (rt_remove R (ct_id c) r1)))
                          | (Inr _, s2) \<Rightarrow>
                              (Inr (Some (workload_update now i WRunning (Some (''Container '' @ ct_id c @ '' started'')))), (s2, r1)))))))"

definition handle_stop_workload ::
  "'r container_runtime \<Rightarrow> timestamp \<Rightarrow> uuid \<Rightarrow> u32 \<Rightarrow> node_state \<times> 'r \<Rightarrow> 'r reply" where
  "handle_stop_workload R now i grace st =
     (case st of (s, r) \<Rightarrow>
        case get_workload s i of
          None \<Rightarrow> (Inl (WorkloadNotFound i), st)
        | Some w \<Rightarrow>
            let r1 = (case wi_container_id w of
                  None \<Rightarrow> r
                | Some cid \<Rightarrow> snd (rt_remove R cid (snd (rt_stop R cid grace r))))
            in (case remove_workload i s of
                  (Inl e, s1) \<Rightarrow> (Inl e, (s1, r1))
                | (Inr _, s1) \<Rightarrow> (Inr (Some (workload_update now i WStopped (Some ''Workload stopped''))), (s1, r1))))"

definition handle_gateway_message ::
  "printers \<Rightarrow> bool \<Rightarrow> 'r container_runtime \<Rightarrow> timestamp \<Rightarrow> gateway_message \<Rightarrow> node_state \<times> 'r \<Rightarrow> 'r reply option" where
  "handle_gateway_message P checks R now m st =
     (case m of
        StartWorkload i sp \<Rightarrow> handle_start_workload P checks R now i sp st
      | StopWorkload i grace \<Rightarrow> Some (handle_stop_workload R now i grace st)
      | Registered _ _ _ \<Rightarrow> Some (Inr None, st)
      | HeartbeatAck _ \<Rightarrow> Some (Inr None, st)
      | RequestMetrics \<Rightarrow> Some (Inr None, st)
      | RequestCapabilities \<Rightarrow> Some (Inr None, st)
      | GatewayError _ _ \<Rightarrow> Some (Inr None, st)
      | ConfigUpdate _ \<Rightarrow> Some (Inr None, st)
      | MeshPeerConfig _ _ _ _ _ \<Rightarrow> Some (Inr None, st)
      | MeshPeerRemove _ \<Rightarrow> Some (Inr None, st)
      | RawEvent _ _ \<Rightarrow> Some (Inr None, st))"

definition get_workload_status :: "uuid \<Rightarrow> node_state \<Rightarrow> node_error + workload_state" where
  "get_workload_status i s = (case get_workload s i of Some _ \<Rightarrow> Inr WRunning | None \<Rightarrow> Inl (WorkloadNotFound i))"

section \<open>Allocating GPUs\<close>

lemma allocate_loop_take:
  assumes "distinct gs" and "length acc < n"
  shows "allocate_loop n gs acc used =
    (let new = take (n - length acc) (filter (\<lambda>g. g \<notin> set used) gs) in (acc @ new, used @ new))"
  using assms
proof (induction gs arbitrary: acc used)
  case (Cons g gs)
  have eq: "filter (\<lambda>x. x \<noteq> g \<and> x \<notin> set used) gs = filter (\<lambda>x. x \<notin> set used) gs"
    using Cons.prems(1) by (intro filter_cong) auto
  show ?case
  proof (cases "g \<in> set used")
    case False
    obtain k where k: "n - length acc = Suc k" using Cons.prems(2) by (metis Suc_diff_Suc)
    then have "n - Suc (length acc) = k" by simp
    with Cons False eq k show ?thesis by (auto simp: Let_def)
  qed (use Cons in simp)
qed simp

lemma gpu_numbers_set: "set (gpu_numbers n) = {g. g < n}"
proof -
  have "g \<in> set (gpu_numbers n)" if "g < n" for g
    using that by (auto simp: gpu_numbers_def word_less_nat_alt intro!: image_eqI [of _ _ "unat g"])
  moreover have "g < n" if "g \<in> set (gpu_numbers n)" for g
    using that unat_lt_len [of n] by (auto simp: gpu_numbers_def word_less_nat_alt unat_of_nat)
  ultimately show ?thesis by blast
qed

lemma gpu_numbers_distinct: "distinct (gpu_numbers n)"
proof -
  have "inj_on (of_nat :: nat \<Rightarrow> u32) {0..<unat n}"
    using unat_lt_len [of n] by (intro inj_onI) (metis atLeastLessThan_iff less_trans of_nat_inverse)
  then show ?thesis by (simp add: gpu_numbers_def distinct_map)
qed

lemma gpu_numbers_length: "length (gpu_numbers n) = unat n"
  by (simp add: gpu_numbers_def)

text \<open>The GPUs on the node's list are distinct GPUs of the node.\<close>

definition gpus_wf :: "node_state \<Rightarrow> bool" where
  "gpus_wf s \<longleftrightarrow> distinct (ns_allocated_gpus s) \<and> (\<forall>g \<in> set (ns_allocated_gpus s). g < ns_total_gpus s)"

definition free_gpus :: "node_state \<Rightarrow> u32 list" where
  "free_gpus s = filter (\<lambda>g. g \<notin> set (ns_allocated_gpus s)) (gpu_numbers (ns_total_gpus s))"

lemma free_gpus_length:
  assumes "gpus_wf s"
  shows "length (free_gpus s) = unat (available_gpu_count s)"
proof -
  let ?u = "ns_allocated_gpus s" and ?n = "ns_total_gpus s"
  have sub: "set ?u \<subseteq> set (gpu_numbers ?n)" using assms by (auto simp: gpus_wf_def gpu_numbers_set)
  have card: "length ?u \<le> unat ?n"
    using card_mono [OF finite_set sub] assms
    by (simp add: gpus_wf_def distinct_card gpu_numbers_distinct gpu_numbers_length)
  have "length (free_gpus s) = card (set (gpu_numbers ?n) - set ?u)"
    by (simp add: free_gpus_def gpu_numbers_distinct set_diff_eq flip: distinct_card)
  also have "\<dots> = unat ?n - length ?u"
    using assms sub by (simp add: card_Diff_subset gpus_wf_def distinct_card gpu_numbers_distinct gpu_numbers_length)
  also have "\<dots> = unat (available_gpu_count s)"
    using card unat_lt_len [of ?n] by (simp add: available_gpu_count_def unat_of_nat)
  finally show ?thesis .
qed

lemma allocate_free:
  assumes "gpus_wf s"
  shows "allocate_gpus n s =
    (if unat n \<le> length (free_gpus s)
     then (Inr (take (unat n) (free_gpus s)), s\<lparr>ns_allocated_gpus := ns_allocated_gpus s @ take (unat n) (free_gpus s)\<rparr>)
     else (Inl (InsufficientGpus n (available_gpu_count s)), s))"
proof (cases "n = 0")
  case False
  then have "0 < unat n" by (simp add: unat_gt_0)
  then have "allocate_loop (unat n) (gpu_numbers (ns_total_gpus s)) [] (ns_allocated_gpus s) =
      (take (unat n) (free_gpus s), ns_allocated_gpus s @ take (unat n) (free_gpus s))"
    by (simp add: allocate_loop_take gpu_numbers_distinct free_gpus_def Let_def)
  with False show ?thesis
    by (auto simp: allocate_gpus_def word_less_nat_alt free_gpus_length [OF assms])
qed (simp add: allocate_gpus_def)

section \<open>Ownership of GPUs\<close>

definition owned :: "(uuid, workload_info) hashmap \<Rightarrow> u32 list" where
  "owned m = concat (map (\<lambda>(i, w). wi_gpu_ids w) m)"

lemma owned_simps [simp]:
  "owned [] = []" "owned (p # m) = wi_gpu_ids (snd p) @ owned m" "owned (m @ m') = owned m @ owned m'"
  by (auto simp: owned_def split: prod.split)

lemma owned_remove:
  "hm_wf m \<Longrightarrow> hm_get m i = Some w \<Longrightarrow> mset (owned m) = mset (wi_gpu_ids w @ owned (hm_remove i m))"
proof (induction m)
  case (Cons p m)
  have "i \<notin> fst ` set m \<Longrightarrow> AList.delete i m = m" by (simp add: AList.delete_id)
  with Cons show ?case by (cases p) (auto simp: hm_remove_def AList.delete_eq map_of_eq_None_iff split: if_splits)
qed simp

lemma owned_member: "hm_get m i = Some w \<Longrightarrow> set (wi_gpu_ids w) \<subseteq> set (owned m)"
  by (induction m) (auto split: if_splits)

lemma in_owned: "g \<in> set (owned m) \<Longrightarrow> hm_wf m \<Longrightarrow> \<exists>i w. hm_get m i = Some w \<and> g \<in> set (wi_gpu_ids w)"
  by (force simp: owned_def hm_get_Some_iff)

lemma owned_disjoint:
  assumes "distinct (owned m)" and "hm_wf m" and "hm_get m i = Some w" and "hm_get m j = Some v" and "i \<noteq> j"
  shows "set (wi_gpu_ids w) \<inter> set (wi_gpu_ids v) = {}"
proof -
  have "distinct (wi_gpu_ids w @ owned (hm_remove i m))"
    using owned_remove [OF assms(2,3)] assms(1) by (metis mset_eq_imp_distinct_iff)
  moreover have "set (wi_gpu_ids v) \<subseteq> set (owned (hm_remove i m))" using assms(4,5) by (intro owned_member [of _ j]) simp
  ultimately show ?thesis by auto
qed

definition node_inv :: "node_state \<Rightarrow> bool" where
  "node_inv s \<longleftrightarrow> hm_wf (ns_workloads s) \<and> gpus_wf s \<and> distinct (owned (ns_workloads s)) \<and>
     set (owned (ns_workloads s)) = set (ns_allocated_gpus s)"

lemma retain_others: "fold (\<lambda>g used. filter (\<lambda>x. x \<noteq> g) used) gs u = filter (\<lambda>x. x \<notin> set gs) u"
  by (induction gs arbitrary: u) (simp_all add: conj_commute)

lemma track_known: "set gs \<subseteq> set used \<Longrightarrow> track_gpus gs used = used"
  by (induction gs) auto

lemma free_gpus_props:
  "set (free_gpus s) \<inter> set (ns_allocated_gpus s) = {}" "g \<in> set (free_gpus s) \<Longrightarrow> g < ns_total_gpus s" "distinct (free_gpus s)"
  by (auto simp: free_gpus_def gpu_numbers_set gpu_numbers_distinct)

text \<open>Taking GPUs from the free ones and giving them back changes nothing.\<close>

lemma release_taken:
  assumes "set gs \<subseteq> set (free_gpus s)"
  shows "release_gpus gs (s\<lparr>ns_allocated_gpus := ns_allocated_gpus s @ gs\<rparr>) = s"
proof -
  have "filter (\<lambda>x. x \<notin> set gs) (ns_allocated_gpus s) = ns_allocated_gpus s"
    using assms free_gpus_props(1) [of s] by (intro filter_True) blast
  then show ?thesis by (simp add: release_gpus_def retain_others)
qed

definition take_free :: "u32 \<Rightarrow> node_state \<Rightarrow> u32 list" where
  "take_free n s = take (unat n) (free_gpus s)"

lemma take_free_sub: "set (take_free n s) \<subseteq> set (free_gpus s)"
  unfolding take_free_def by (rule set_take_subset)

definition started :: "workload_info \<Rightarrow> node_state \<Rightarrow> node_state" where
  "started w s = s\<lparr>ns_allocated_gpus := ns_allocated_gpus s @ wi_gpu_ids w, ns_workloads := ns_workloads s @ [(wi_id w, w)]\<rparr>"

lemma add_taken:
  assumes "hm_get (ns_workloads s) (wi_id w) = None"
  shows "add_workload w (s\<lparr>ns_allocated_gpus := ns_allocated_gpus s @ wi_gpu_ids w\<rparr>) = (Inr (), started w s)"
  using assms by (simp add: add_workload_def hm_contains_def started_def track_known hm_insert_new)

lemma started_inv:
  assumes "node_inv s" and "hm_get (ns_workloads s) (wi_id w) = None" and "wi_gpu_ids w = take_free n s"
  shows "node_inv (started w s)"
proof -
  have "set (wi_gpu_ids w) \<inter> set (ns_allocated_gpus s) = {}" "distinct (wi_gpu_ids w)"
    "\<forall>g \<in> set (wi_gpu_ids w). g < ns_total_gpus s"
    unfolding assms(3) using take_free_sub [of n s] free_gpus_props [where s = s] by (auto simp: take_free_def)
  with assms(1,2) show ?thesis
    by (auto simp: node_inv_def started_def gpus_wf_def map_of_eq_None_iff)
qed

lemma remove_inv:
  assumes "node_inv s"
  shows "node_inv (snd (remove_workload i s))"
proof (cases "hm_get (ns_workloads s) i")
  case (Some w)
  let ?m = "ns_workloads s"
  have eq: "mset (owned ?m) = mset (wi_gpu_ids w @ owned (hm_remove i ?m))"
    using assms Some by (intro owned_remove) (auto simp: node_inv_def)
  have d: "distinct (wi_gpu_ids w @ owned (hm_remove i ?m))" using eq assms by (metis mset_eq_imp_distinct_iff node_inv_def)
  have "set (owned ?m) = set (wi_gpu_ids w) \<union> set (owned (hm_remove i ?m))" using mset_eq_setD [OF eq] by simp
  with d assms Some show ?thesis by (auto simp: node_inv_def remove_workload_def retain_others gpus_wf_def)
qed (use assms in \<open>simp add: remove_workload_def\<close>)

section \<open>What the handlers do\<close>

lemma memory_limit_exact:
  assumes "unat (m :: u64) \<le> 1024000"
  shows "Option.bind (mul_op checks m 1024) (\<lambda>m. mul_op checks m 1024) = Some (m * 1024 * 1024)"
proof -
  have m1: "unat (m * 1024) = unat m * 1024" using assms by (subst unat_mul_exact) simp_all
  then show ?thesis using assms by (simp add: mul_op_def checked_mul_def)
qed

text \<open>A validated specification always gives a container specification: the memory limit in bytes does not overflow.\<close>

lemma build_container_spec_total: "validate_spec sp = Inr () \<Longrightarrow> \<exists>cs. build_container_spec P checks i sp gs = Some cs"
  using memory_limit_exact [OF valid_memory, of sp checks] by (simp add: build_container_spec_def Let_def)

definition taken :: "workload_spec \<Rightarrow> node_state \<Rightarrow> u32 list" where
  "taken sp s = take_free (ws_gpu_count sp) s"

lemma start_allocation:
  assumes "gpus_wf s"
  shows "(if 0 < ws_gpu_count sp then allocate_gpus (ws_gpu_count sp) s else (Inr [], s)) =
    (if unat (ws_gpu_count sp) \<le> length (free_gpus s)
     then (Inr (taken sp s), s\<lparr>ns_allocated_gpus := ns_allocated_gpus s @ taken sp s\<rparr>)
     else (Inl (InsufficientGpus (ws_gpu_count sp) (available_gpu_count s)), s))"
  using allocate_free [OF assms, of "ws_gpu_count sp"]
  by (auto simp: taken_def take_free_def word_gt_0)

definition new_workload :: "timestamp \<Rightarrow> uuid \<Rightarrow> workload_spec \<Rightarrow> container \<Rightarrow> node_state \<Rightarrow> workload_info" where
  "new_workload now i sp c s = with_container_id (ct_id c) (workload_info_new now i (ws_image sp) (taken sp s))"

lemma new_workload_fields [simp]:
  "wi_id (new_workload now i sp c s) = i" "wi_gpu_ids (new_workload now i sp c s) = taken sp s"
  "wi_container_id (new_workload now i sp c s) = Some (ct_id c)"
  by (simp_all add: new_workload_def with_container_id_def workload_info_new_def)

text \<open>
  The start handler by its outcome: it never panics; it either reports the workload running, and then the workload has been added with
  exactly as many GPUs as asked, or it leaves the node's state as it was.
\<close>

lemma start_outcome:
  assumes "gpus_wf s"
  obtains (started) c cs r1 where "validate_spec sp = Inr ()" and "get_workload s i = None"
      and "unat (ws_gpu_count sp) \<le> length (free_gpus s)"
      and "build_container_spec P checks i sp (taken sp s) = Some cs" and "rt_create R cs r = (Inr c, r1)"
      and "handle_start_workload P checks R now i sp (s, r) =
        Some (Inr (Some (workload_update now i WRunning (Some (''Container '' @ ct_id c @ '' started'')))),
          (started (new_workload now i sp c s) s, r1))"
  | (refused) rep r1 where "handle_start_workload P checks R now i sp (s, r) = Some (rep, (s, r1))"
      and "rep = Inl (WorkloadExists i) \<or> (\<exists>m. rep = Inr (Some (workload_update now i WFailed (Some m))))"
proof (cases "validate_spec sp")
  case (Inl e)
  then show ?thesis by (intro refused) (auto simp: handle_start_workload_def)
next
  case (Inr u)
  then have valid: "validate_spec sp = Inr ()" by simp
  show ?thesis
  proof (cases "get_workload s i = None \<and> unat (ws_gpu_count sp) \<le> length (free_gpus s)")
    case False
    show ?thesis
    proof (cases "get_workload s i")
      case None
      with False show ?thesis by (intro refused) (auto simp: handle_start_workload_def valid start_allocation [OF assms])
    next
      case (Some w)
      then show ?thesis by (intro refused) (auto simp: handle_start_workload_def valid)
    qed
  next
    case True
    then have new: "get_workload s i = None" and enough: "unat (ws_gpu_count sp) \<le> length (free_gpus s)" by auto
    obtain cs where cs: "build_container_spec P checks i sp (taken sp s) = Some cs"
      using build_container_spec_total [OF valid] by blast
    let ?s1 = "s\<lparr>ns_allocated_gpus := ns_allocated_gpus s @ taken sp s\<rparr>"
    have rel: "release_gpus (taken sp s) ?s1 = s"
      by (intro release_taken) (simp add: taken_def take_free_sub)
    have add: "add_workload (with_container_id (ct_id c) (workload_info_new now i (ws_image sp) (taken sp s))) ?s1 =
        (Inr (), started (new_workload now i sp c s) s)" for c
      using new add_taken [of s "new_workload now i sp c s"] by (simp add: get_workload_def) (simp add: new_workload_def)
    show ?thesis
    proof (cases "rt_create R cs r")
      case (Pair res r1)
      show ?thesis
      proof (cases res)
        case (Inl e)
        with Pair show ?thesis
          by (intro refused) (auto simp: handle_start_workload_def valid new start_allocation [OF assms] enough cs rel)
      next
        case (Inr c)
        with Pair show ?thesis
          by (intro started [OF valid new enough cs])
            (auto simp: handle_start_workload_def valid new start_allocation [OF assms] enough cs add)
      qed
    qed
  qed
qed

lemma stop_state: "fst (snd (handle_stop_workload R now i grace (s, r))) = snd (remove_workload i s)"
  by (auto simp: handle_stop_workload_def remove_workload_def get_workload_def Let_def split: option.split)

lemma message_inv:
  assumes "node_inv s"
  shows "\<exists>rep s' r'. handle_gateway_message P checks R now m (s, r) = Some (rep, (s', r')) \<and> node_inv s' \<and>
    ns_total_gpus s' = ns_total_gpus s"
proof (cases m)
  case (StartWorkload i sp)
  have g: "gpus_wf s" using assms by (simp add: node_inv_def)
  show ?thesis
  proof (cases rule: start_outcome [OF g, where sp = sp and i = i and P = P and checks = checks and R = R and r = r and now = now, case_names started refused])
    case (started c cs r1)
    have "node_inv (started (new_workload now i sp c s) s)"
      using assms started(2) by (intro started_inv) (simp_all add: get_workload_def taken_def)
    with started(6) StartWorkload show ?thesis by (simp add: handle_gateway_message_def) (simp add: started_def)
  next
    case (refused rep r1)
    with assms StartWorkload show ?thesis by (simp add: handle_gateway_message_def)
  qed
next
  case (StopWorkload i grace)
  obtain rep s' r' where h: "handle_stop_workload R now i grace (s, r) = (rep, (s', r'))" by (metis prod.exhaust)
  have "s' = snd (remove_workload i s)" using stop_state [of R now i grace s r] h by simp
  then have "node_inv s'" "ns_total_gpus s' = ns_total_gpus s"
    using remove_inv [OF assms] by (auto simp: remove_workload_def split: option.split)
  with h StopWorkload show ?thesis by (simp add: handle_gateway_message_def)
qed (use assms in \<open>simp_all add: handle_gateway_message_def\<close>)

section \<open>Properties\<close>

primrec run_messages ::
  "printers \<Rightarrow> bool \<Rightarrow> 'r container_runtime \<Rightarrow> (timestamp \<times> gateway_message) list \<Rightarrow> node_state \<times> 'r \<Rightarrow> (node_state \<times> 'r) option" where
  "run_messages P checks R [] st = Some st"
| "run_messages P checks R (m # ms) st =
     Option.bind (handle_gateway_message P checks R (fst m) (snd m) st) (\<lambda>(rep, st'). run_messages P checks R ms st')"

lemma run_messages_inv:
  "node_inv s \<Longrightarrow> \<exists>s' r'. run_messages P checks R ms (s, r) = Some (s', r') \<and> node_inv s' \<and> ns_total_gpus s' = ns_total_gpus s"
proof (induction ms arbitrary: s r)
  case (Cons m ms)
  obtain rep s1 r1 where m: "handle_gateway_message P checks R (fst m) (snd m) (s, r) = Some (rep, (s1, r1))"
    "node_inv s1" "ns_total_gpus s1 = ns_total_gpus s"
    using message_inv [OF Cons.prems, of P checks R "fst m" "snd m" r] by blast
  with Cons.IH [OF m(2), of r1] show ?case by auto
qed simp

lemma initial_inv: "node_inv (state_with_gpus n)"
  by (simp add: node_inv_def state_with_gpus_def gpus_wf_def)

text \<open>
  C16. GPUs are exclusive: whatever messages the gateway sends and however the container runtime answers, no message makes the node panic, two
  workloads never share a GPU, every workload's GPUs are distinct GPUs of the node, and the node's list of allocated GPUs
  names exactly the GPUs of its workloads, so none is lost.
\<close>

theorem gpus_exclusive:
  "\<exists>s r. run_messages P checks R ms (state_with_gpus n, r0) = Some (s, r) \<and>
     (\<forall>i j w v. get_workload s i = Some w \<longrightarrow> get_workload s j = Some v \<longrightarrow> i \<noteq> j \<longrightarrow>
        set (wi_gpu_ids w) \<inter> set (wi_gpu_ids v) = {}) \<and>
     (\<forall>i w. get_workload s i = Some w \<longrightarrow> distinct (wi_gpu_ids w) \<and> (\<forall>g \<in> set (wi_gpu_ids w). g < n)) \<and>
     (\<forall>g. is_gpu_allocated s g \<longleftrightarrow> (\<exists>i w. get_workload s i = Some w \<and> g \<in> set (wi_gpu_ids w)))"
proof -
  obtain s r where run: "run_messages P checks R ms (state_with_gpus n, r0) = Some (s, r)" and inv: "node_inv s"
    and total: "ns_total_gpus s = n"
    using run_messages_inv [OF initial_inv, of P checks R ms n r0] by (auto simp: state_with_gpus_def)
  let ?m = "ns_workloads s"
  note inv' = inv [unfolded node_inv_def]
  have excl: "set (wi_gpu_ids w) \<inter> set (wi_gpu_ids v) = {}"
    if "get_workload s i = Some w" "get_workload s j = Some v" "i \<noteq> j" for i j w v
    using owned_disjoint [of ?m i w j v] inv' that by (simp add: get_workload_def)
  have own: "distinct (wi_gpu_ids w) \<and> (\<forall>g \<in> set (wi_gpu_ids w). g < n)" if w: "get_workload s i = Some w" for i w
  proof -
    have "distinct (wi_gpu_ids w @ owned (hm_remove i ?m))"
      using owned_remove [of ?m i w] inv' w by (metis get_workload_def mset_eq_imp_distinct_iff)
    moreover have "set (wi_gpu_ids w) \<subseteq> set (ns_allocated_gpus s)"
      using owned_member [of ?m i w] inv' w by (simp add: get_workload_def)
    ultimately show ?thesis using inv' total by (auto simp: gpus_wf_def)
  qed
  have "is_gpu_allocated s g \<longleftrightarrow> (\<exists>i w. get_workload s i = Some w \<and> g \<in> set (wi_gpu_ids w))" for g
    using inv' in_owned [of g ?m] owned_member [of ?m] by (auto simp: is_gpu_allocated_def get_workload_def)
  with run excl own show ?thesis by blast
qed


section \<open>Instances\<close>

definition plain_printers :: printers where
  "plain_printers = \<lparr>print_uuid = (\<lambda>i. show_nat (unat i)), print_f32_2 = (\<lambda>x. [])\<rparr>"

definition gpu_spec :: "u32 \<Rightarrow> workload_spec" where
  "gpu_spec n = ws_with_gpu_count n (workload_spec_new ''cuda'')"

lemma gpu_spec_valid: "n \<le> 64 \<Longrightarrow> validate_spec (gpu_spec n) = Inr ()"
  by (simp add: validate_spec_def spec_errors_def gpu_spec_def ws_with_gpu_count_def workload_spec_new_def scheduling_default_def
      validate_image_def is_space_def after_first_def validate_resources_def effective_gpu_count_def MAX_MEMORY_MB_def
      MAX_CPU_CORES_def MAX_GPU_COUNT_def not_less)

lemma gpu_spec_fields [simp]:
  "ws_gpu_count (gpu_spec n) = n" "ws_image (gpu_spec n) = ''cuda''" "ws_command (gpu_spec n) = []" "ws_env (gpu_spec n) = []"
  "ws_memory_mb (gpu_spec n) = 512" "ws_cpu_cores (gpu_spec n) = 1"
  by (simp_all add: gpu_spec_def ws_with_gpu_count_def workload_spec_new_def)

lemmas node_defs = handle_start_workload_def state_with_gpus_def get_workload_def
  allocate_gpus_def available_gpu_count_def build_container_spec_def mul_op_def fake_container_runtime_def
  fake_create_def generate_id_def fake_new_def add_workload_def workload_info_new_def with_container_id_def hm_contains_def
  hm_insert_def saturating_sub_def

lemma four_gpus [simp]: "gpu_numbers 4 = [0, 1, 2, 3]"
  by (simp add: gpu_numbers_def upt_rec)

lemma start_two:
  "\<exists>s r w v. run_messages plain_printers False (fake_container_runtime 0)
       [(0, StartWorkload 1 (gpu_spec 2)), (1, StartWorkload 2 (gpu_spec 1))] (state_with_gpus 4, fake_new) = Some (s, r) \<and>
     get_workload s 1 = Some w \<and> get_workload s 2 = Some v \<and> wi_gpu_ids w = [0, 1] \<and> wi_gpu_ids v = [2]"
  by (simp add: handle_gateway_message_def) (simp add: node_defs gpu_spec_valid Let_def)

theorem gpus_exclusive_witness:
  "\<exists>s r w v. run_messages plain_printers False (fake_container_runtime 0)
       [(0, StartWorkload 1 (gpu_spec 2)), (1, StartWorkload 2 (gpu_spec 1))] (state_with_gpus 4, fake_new) = Some (s, r) \<and>
     get_workload s 1 = Some w \<and> get_workload s 2 = Some v \<and> set (wi_gpu_ids w) \<inter> set (wi_gpu_ids v) = {} \<and> is_gpu_allocated s 2"
proof -
  obtain s r w v where run: "run_messages plain_printers False (fake_container_runtime 0)
       [(0, StartWorkload 1 (gpu_spec 2)), (1, StartWorkload 2 (gpu_spec 1))] (state_with_gpus 4, fake_new) = Some (s, r)"
    and w: "get_workload s 1 = Some w" and v: "get_workload s 2 = Some v" "wi_gpu_ids v = [2]"
    using start_two by blast
  from gpus_exclusive [of plain_printers False "fake_container_runtime 0"
      "[(0, StartWorkload 1 (gpu_spec 2)), (1, StartWorkload 2 (gpu_spec 1))]" 4 fake_new] run
  have excl: "\<And>i j w v. get_workload s i = Some w \<Longrightarrow> get_workload s j = Some v \<Longrightarrow> i \<noteq> j \<Longrightarrow>
      set (wi_gpu_ids w) \<inter> set (wi_gpu_ids v) = {}"
    and listed: "\<And>g. is_gpu_allocated s g \<longleftrightarrow> (\<exists>i w. get_workload s i = Some w \<and> g \<in> set (wi_gpu_ids w))"
    by (simp_all del: run_messages.simps)
  have "2 \<in> set (wi_gpu_ids v)" using v(2) by simp
  then have "is_gpu_allocated s 2" unfolding listed using v(1) by blast
  with excl [OF w v(1)] have "set (wi_gpu_ids w) \<inter> set (wi_gpu_ids v) = {} \<and> is_gpu_allocated s 2" by simp
  then show ?thesis using run w v by blast
qed



text \<open>
  Validation reads the advanced GPU requirement where there is one, but the start handler allocates by the simple count: a workload that
  asks for two GPUs by requirement runs without any.
\<close>

definition required_spec :: workload_spec where
  "required_spec = ws_with_gpu_requirement (gpu_requirement_new 2) (gpu_spec 0)"

lemma required_gpus_ignored:
  "effective_gpu_count required_spec = 2 \<and>
   (\<exists>m s r. handle_start_workload plain_printers False (fake_container_runtime 0) 0 1 required_spec (state_with_gpus 4, fake_new) =
       Some (Inr (Some (WorkloadUpdate 1 WRunning m 0)), (s, r)) \<and> map_option wi_gpu_ids (get_workload s 1) = Some [])"
proof -
  have v: "validate_spec required_spec = Inr ()" "effective_gpu_count required_spec = 2"
    by (simp_all add: validate_spec_def spec_errors_def required_spec_def ws_with_gpu_requirement_def sr_with_gpu_requirement_def
        gpu_spec_def ws_with_gpu_count_def workload_spec_new_def scheduling_default_def gpu_requirement_new_def
        validate_image_def is_space_def after_first_def validate_resources_def effective_gpu_count_def MAX_MEMORY_MB_def
        MAX_CPU_CORES_def MAX_GPU_COUNT_def)
  have f: "ws_gpu_count required_spec = 0" "ws_image required_spec = ''cuda''" "ws_command required_spec = []" "ws_env required_spec = []"
    "ws_memory_mb required_spec = 512" "ws_cpu_cores required_spec = 1"
    by (simp_all add: required_spec_def ws_with_gpu_requirement_def)
  show ?thesis by (simp add: v) (simp add: node_defs v f Let_def workload_update_def)
qed

text \<open>
  \<open>add_workload\<close> does not check that the GPUs are free: with a GPU listed by two workloads, removing one frees it under the other.
\<close>

lemma shared_gpu_freed:
  "let s = snd (add_workload (workload_info_new 0 2 ''b'' [0]) (snd (add_workload (workload_info_new 0 1 ''a'' [0]) (state_with_gpus 1))));
       s' = snd (remove_workload 2 s)
   in map_option wi_gpu_ids (get_workload s' 1) = Some [0] \<and> \<not> is_gpu_allocated s' 0"
  by (simp add: add_workload_def workload_info_new_def state_with_gpus_def hm_contains_def hm_insert_def remove_workload_def
      get_workload_def is_gpu_allocated_def hm_remove_def)

end
