(* ===== verification/Attestation_Challenge.thy ===== *)
theory Attestation_Challenge
  imports Byte_Encoding Json_Store
begin

text \<open>
  Challenges against replayed attestations, \<open>crates/molt-attestation/src/challenge.rs\<close>, with the errors of \<open>error.rs\<close>. Points of time
  are integers in nanoseconds, the clock is an argument, and the random nonce is an argument of the constructor. The loop
  that evicts old nonces is a partial function: \<^const>\<open>None\<close> when it does not end.
\<close>

section \<open>Challenges\<close>

datatype attestation_error =
    HardwareVerification string
  | InvalidExecutionProof string
  | CheckpointVerification string
  | SignatureVerification
  | AttestationExpired
  | ChallengeExpired u64 u64
  | NonceReplay
  | VerifierMismatch string string
  | ChallengeMissing
  | RateLimitExceeded u64
  | CooldownActive u64

fun show_attestation_error :: "attestation_error \<Rightarrow> string" where
  "show_attestation_error (HardwareVerification s) = ''hardware verification failed: '' @ s"
| "show_attestation_error (InvalidExecutionProof s) = ''execution proof invalid: '' @ s"
| "show_attestation_error (CheckpointVerification s) = ''checkpoint verification failed: '' @ s"
| "show_attestation_error SignatureVerification = ''signature verification failed''"
| "show_attestation_error AttestationExpired = ''attestation expired''"
| "show_attestation_error (ChallengeExpired a m) =
     ''challenge expired: age '' @ show_nat (unat a) @ ''s exceeds max '' @ show_nat (unat m) @ ''s''"
| "show_attestation_error NonceReplay = ''nonce replay detected: nonce has already been used''"
| "show_attestation_error (VerifierMismatch e a) = ''challenge verifier mismatch: expected '' @ e @ '', got '' @ a"
| "show_attestation_error ChallengeMissing = ''challenge required but not provided''"
| "show_attestation_error (RateLimitExceeded n) =
     ''verification rate limit exceeded: must wait '' @ show_nat (unat n) @ ''s before next verification''"
| "show_attestation_error (CooldownActive n) =
     ''verification cooldown active: '' @ show_nat (unat n) @ ''s remaining after failed verification''"

type_synonym nonce = "u8 list"

record attestation_challenge =
  ch_nonce :: nonce
  ch_issued_at :: int
  ch_verifier_id :: string

definition challenge_new :: "nonce \<Rightarrow> int \<Rightarrow> string \<Rightarrow> attestation_challenge" where
  "challenge_new n now v = \<lparr>ch_nonce = n, ch_issued_at = now, ch_verifier_id = v\<rparr>"

text \<open>\<open>num_seconds\<close> rounds towards zero, and what is negative counts as 0.\<close>

definition age_secs :: "int \<Rightarrow> attestation_challenge \<Rightarrow> u64" where
  "age_secs now c = (if now < ch_issued_at c then 0 else of_int ((now - ch_issued_at c) div 1000000000))"

record challenge_config =
  cc_max_age_secs :: u64
  cc_nonce_cache_size :: nat

definition challenge_config_default :: challenge_config where
  "challenge_config_default = \<lparr>cc_max_age_secs = 300, cc_nonce_cache_size = 10000\<rparr>"

definition challenge_config_new :: "u64 \<Rightarrow> nat \<Rightarrow> challenge_config" where
  "challenge_config_new a n = \<lparr>cc_max_age_secs = a, cc_nonce_cache_size = n\<rparr>"

definition challenge_is_expired :: "int \<Rightarrow> challenge_config \<Rightarrow> attestation_challenge \<Rightarrow> bool" where
  "challenge_is_expired now cfg c \<longleftrightarrow> cc_max_age_secs cfg < age_secs now c"

definition nonce_hex :: "attestation_challenge \<Rightarrow> string" where
  "nonce_hex c = concat (map (\<lambda>b. [hex_digit (unat b div 16), hex_digit (unat b mod 16)]) (ch_nonce c))"

text \<open>\<open>timestamp()\<close> as a 64-bit integer: whole seconds, rounded down.\<close>

definition secs :: "int \<Rightarrow> u64" where
  "secs t = of_int (t div 1000000000)"

definition to_signing_bytes :: "attestation_challenge \<Rightarrow> u8 list" where
  "to_signing_bytes c = ch_nonce c @ le_bytes 8 (secs (ch_issued_at c)) @ bytes_of (ch_verifier_id c)"

section \<open>The nonce cache\<close>

record nonce_cache =
  nc_nonces :: "nonce set"
  nc_order :: "nonce list"
  nc_max_size :: nat

definition nonce_cache_new :: "nat \<Rightarrow> nonce_cache" where
  "nonce_cache_new n = \<lparr>nc_nonces = {}, nc_order = [], nc_max_size = n\<rparr>"

definition cache_contains :: "nonce_cache \<Rightarrow> nonce \<Rightarrow> bool" where
  "cache_contains c n \<longleftrightarrow> n \<in> nc_nonces c"

partial_function (option) evict_nonces :: "nonce_cache \<Rightarrow> nonce_cache option" where
  "evict_nonces c =
     (if nc_max_size c \<le> length (nc_order c)
      then (case nc_order c of
              [] \<Rightarrow> evict_nonces c
            | x # xs \<Rightarrow> evict_nonces (c\<lparr>nc_order := xs, nc_nonces := nc_nonces c - {x}\<rparr>))
      else Some c)"

definition cache_insert :: "nonce \<Rightarrow> nonce_cache \<Rightarrow> (bool \<times> nonce_cache) option" where
  "cache_insert n c =
     (if n \<in> nc_nonces c then Some (False, c)
      else map_option (\<lambda>c1. (True, c1\<lparr>nc_nonces := insert n (nc_nonces c1), nc_order := nc_order c1 @ [n]\<rparr>)) (evict_nonces c))"

definition cache_len :: "nonce_cache \<Rightarrow> nat" where
  "cache_len c = card (nc_nonces c)"

definition cache_clear :: "nonce_cache \<Rightarrow> nonce_cache" where
  "cache_clear c = c\<lparr>nc_nonces := {}, nc_order := []\<rparr>"

definition verify_challenge ::
  "int \<Rightarrow> attestation_challenge \<Rightarrow> string \<Rightarrow> challenge_config \<Rightarrow> nonce_cache \<Rightarrow> (attestation_error, unit, nonce_cache) outcome option" where
  "verify_challenge now ch v cfg c =
     (if ch_verifier_id ch \<noteq> v then Some (Inl (VerifierMismatch v (ch_verifier_id ch)), c)
      else if cc_max_age_secs cfg < age_secs now ch
      then Some (Inl (ChallengeExpired (age_secs now ch) (cc_max_age_secs cfg)), c)
      else if cache_contains c (ch_nonce ch) then Some (Inl NonceReplay, c)
      else map_option (\<lambda>(_, c1). (Inr (), c1)) (cache_insert (ch_nonce ch) c))"

section \<open>Eviction\<close>

text \<open>The cache's set and its order hold the same nonces, and no more than the limit.\<close>

definition cache_wf :: "nonce_cache \<Rightarrow> bool" where
  "cache_wf c \<longleftrightarrow> 0 < nc_max_size c \<and> nc_nonces c = set (nc_order c) \<and> distinct (nc_order c) \<and> length (nc_order c) \<le> nc_max_size c"

lemma new_cache_wf: "0 < n \<Longrightarrow> cache_wf (nonce_cache_new n)"
  by (simp add: cache_wf_def nonce_cache_new_def)

lemma evict_keeps_newest:
  assumes "cache_wf c"
  shows "evict_nonces c = Some (c\<lparr>nc_order := drop (Suc (length (nc_order c)) - nc_max_size c) (nc_order c),
     nc_nonces := set (drop (Suc (length (nc_order c)) - nc_max_size c) (nc_order c))\<rparr>)"
proof (cases "nc_max_size c \<le> length (nc_order c)")
  case True
  then have full: "length (nc_order c) = nc_max_size c" using assms by (simp add: cache_wf_def)
  then obtain x xs where o: "nc_order c = x # xs" using assms by (cases "nc_order c") (auto simp: cache_wf_def)
  let ?c = "c\<lparr>nc_order := xs, nc_nonces := nc_nonces c - {x}\<rparr>"
  have "evict_nonces ?c = Some ?c" using full o by (subst evict_nonces.simps) simp
  moreover have "nc_nonces c - {x} = set xs" using assms o by (auto simp: cache_wf_def)
  ultimately show ?thesis using full o by (subst evict_nonces.simps) simp
next
  case False
  then have "Suc (length (nc_order c)) - nc_max_size c = 0" by simp
  with False assms show ?thesis by (subst evict_nonces.simps) (simp add: cache_wf_def)
qed

lemma insert_new:
  assumes "cache_wf c" and "n \<notin> nc_nonces c"
  shows "\<exists>c'. cache_insert n c = Some (True, c') \<and> cache_wf c' \<and> nc_max_size c' = nc_max_size c \<and>
    nc_order c' = drop (Suc (length (nc_order c)) - nc_max_size c) (nc_order c @ [n])"
proof -
  let ?d = "drop (Suc (length (nc_order c)) - nc_max_size c) (nc_order c)"
  have "Suc (length (nc_order c)) - nc_max_size c \<le> length (nc_order c)" using assms(1) by (auto simp: cache_wf_def)
  moreover have "n \<notin> set ?d" "distinct ?d" using assms by (auto simp: cache_wf_def dest: in_set_dropD)
  ultimately show ?thesis
    using assms unfolding cache_insert_def evict_keeps_newest [OF assms(1)] by (auto simp: cache_wf_def)
qed

text \<open>With a limit of 0 the loop never ends.\<close>

lemma evict_needs_room: "evict_nonces c = Some d \<Longrightarrow> nc_max_size c \<noteq> 0"
proof (rule evict_nonces.raw_induct [of "\<lambda>c d. nc_max_size c \<noteq> 0"])
  fix f c d
  assume IH: "\<And>c d. f c = Some d \<Longrightarrow> nc_max_size c \<noteq> 0"
    and b: "(if nc_max_size c \<le> length (nc_order c)
      then (case nc_order c of [] \<Rightarrow> f c | x # xs \<Rightarrow> f (c\<lparr>nc_order := xs, nc_nonces := nc_nonces c - {x}\<rparr>)) else Some c) = Some d"
  show "nc_max_size c \<noteq> 0"
  proof (cases "nc_order c")
    case Nil
    with IH [of c d] b show ?thesis by (auto split: if_splits)
  next
    case (Cons x xs)
    with IH [of "c\<lparr>nc_order := xs, nc_nonces := nc_nonces c - {x}\<rparr>" d] b show ?thesis by (auto split: if_splits)
  qed
qed

theorem zero_cache_hangs:
  "cc_max_age_secs cfg \<ge> age_secs now ch \<Longrightarrow> verify_challenge now ch (ch_verifier_id ch) cfg (nonce_cache_new 0) = None"
  using evict_needs_room [of "nonce_cache_new 0"]
  by (cases "evict_nonces (nonce_cache_new 0)")
    (auto simp: verify_challenge_def cache_contains_def cache_insert_def nonce_cache_new_def)

section \<open>Replay protection\<close>

text \<open>The nonces accepted by a sequence of verifications.\<close>

fun accept_run ::
  "string \<Rightarrow> challenge_config \<Rightarrow> (int \<times> attestation_challenge) list \<Rightarrow> nonce_cache \<Rightarrow> (nonce list \<times> nonce_cache) option" where
  "accept_run v cfg [] c = Some ([], c)"
| "accept_run v cfg ((now, ch) # es) c =
     Option.bind (verify_challenge now ch v cfg c) (\<lambda>(r, c1).
       map_option (\<lambda>(ns, c2). (if is_ok r then ch_nonce ch # ns else ns, c2)) (accept_run v cfg es c1))"

lemma verify_cases:
  assumes "cache_wf c"
  obtains (accepted) c' where "verify_challenge now ch v cfg c = Some (Inr (), c')" and "ch_nonce ch \<notin> set (nc_order c)"
      and "cache_wf c'" and "nc_max_size c' = nc_max_size c" and "ch_verifier_id ch = v" and "age_secs now ch \<le> cc_max_age_secs cfg"
      and "nc_order c' = drop (Suc (length (nc_order c)) - nc_max_size c) (nc_order c @ [ch_nonce ch])"
  | (refused) e where "verify_challenge now ch v cfg c = Some (Inl e, c)"
proof (cases "ch_verifier_id ch \<noteq> v \<or> cc_max_age_secs cfg < age_secs now ch \<or> cache_contains c (ch_nonce ch)")
  case True
  then show ?thesis
    by (intro refused [of "if ch_verifier_id ch \<noteq> v then VerifierMismatch v (ch_verifier_id ch)
          else if cc_max_age_secs cfg < age_secs now ch then ChallengeExpired (age_secs now ch) (cc_max_age_secs cfg) else NonceReplay"])
      (auto simp: verify_challenge_def)
next
  case False
  then have "ch_nonce ch \<notin> nc_nonces c" by (simp add: cache_contains_def)
  with insert_new [OF assms] obtain c' where "cache_insert (ch_nonce ch) c = Some (True, c')" "cache_wf c'" "nc_max_size c' = nc_max_size c"
    "nc_order c' = drop (Suc (length (nc_order c)) - nc_max_size c) (nc_order c @ [ch_nonce ch])" by blast
  with False assms show ?thesis by (intro accepted [of c']) (auto simp: verify_challenge_def cache_contains_def cache_wf_def)
qed

text \<open>The last \<open>k\<close> items of a history, and that an item recurs only after more than \<open>k\<close> others.\<close>

definition lastn :: "nat \<Rightarrow> 'a list \<Rightarrow> 'a list" where
  "lastn k xs = drop (length xs - k) xs"

definition spaced :: "nat \<Rightarrow> 'a list \<Rightarrow> bool" where
  "spaced k xs \<longleftrightarrow> (\<forall>i j. i < j \<longrightarrow> j < length xs \<longrightarrow> xs ! i = xs ! j \<longrightarrow> k < j - i)"

lemma spaced_snoc:
  assumes "spaced k xs" and "x \<notin> set (lastn k xs)"
  shows "spaced k (xs @ [x])"
  unfolding spaced_def
proof (intro allI impI)
  fix i j
  assume ij: "i < j" "j < length (xs @ [x])" "(xs @ [x]) ! i = (xs @ [x]) ! j"
  show "k < j - i"
  proof (cases "j < length xs")
    case True
    with ij assms(1) show ?thesis by (simp add: spaced_def nth_append)
  next
    case False
    then have j: "j = length xs" "xs ! i = x" using ij by (simp_all add: nth_append split: if_splits)
    have "xs ! i \<in> set (lastn k xs)" if "length xs - k \<le> i"
      using that ij(1) j(1) nth_mem [of "i - (length xs - k)" "lastn k xs"] by (simp add: lastn_def)
    then have "\<not> length xs - k \<le> i" using assms(2) j(2) by blast
    then show ?thesis using j(1) by simp
  qed
qed

lemma lastn_snoc:
  "0 < k \<Longrightarrow> lastn k (xs @ [x]) = drop (Suc (length (lastn k xs)) - k) (lastn k xs @ [x])"
  by (cases "length xs < k") (auto simp: lastn_def Suc_diff_le)

text \<open>The cache holds the last accepted nonces, as many as its limit.\<close>

definition remembers :: "nonce list \<Rightarrow> nonce_cache \<Rightarrow> bool" where
  "remembers hist c \<longleftrightarrow> cache_wf c \<and> nc_order c = lastn (nc_max_size c) hist \<and> spaced (nc_max_size c) hist"

lemma accept_run_remembers:
  assumes "remembers hist c"
  shows "\<exists>ns c'. accept_run v cfg es c = Some (ns, c') \<and> remembers (hist @ ns) c' \<and> nc_max_size c' = nc_max_size c"
  using assms
proof (induction es arbitrary: c hist)
  case (Cons e es)
  obtain now ch where e: "e = (now, ch)" by (cases e)
  have wf: "cache_wf c" using Cons.prems by (simp add: remembers_def)
  show ?case
  proof (cases rule: verify_cases [OF wf, where now = now and ch = ch and v = v and cfg = cfg, case_names accepted refused])
    case (accepted c1)
    have "remembers (hist @ [ch_nonce ch]) c1"
      using Cons.prems accepted wf by (auto simp: remembers_def cache_wf_def lastn_snoc intro: spaced_snoc)
    from Cons.IH [OF this] obtain ns c2 where "accept_run v cfg es c1 = Some (ns, c2)"
      "remembers (hist @ [ch_nonce ch] @ ns) c2" "nc_max_size c2 = nc_max_size c1" by auto
    with accepted e show ?thesis by auto
  next
    case (refused r)
    with Cons e show ?thesis by auto
  qed
qed (auto simp: remembers_def)

text \<open>
  C20. Replay protection: with a cache of \<open>k > 0\<close> nonces every sequence of verifications ends, the cache never exceeds its limit, and a nonce
  that is accepted a second time has been followed by at least \<open>k\<close> other accepted challenges.
\<close>

theorem nonces_not_replayed:
  assumes "0 < k"
  shows "\<exists>ns c. accept_run v cfg es (nonce_cache_new k) = Some (ns, c) \<and> cache_len c \<le> k \<and>
    (\<forall>i j. i < j \<longrightarrow> j < length ns \<longrightarrow> ns ! i = ns ! j \<longrightarrow> k < j - i)"
proof -
  have init: "remembers [] (nonce_cache_new k)"
    using new_cache_wf [OF assms] by (simp add: remembers_def spaced_def lastn_def nonce_cache_new_def)
  obtain ns c where run: "accept_run v cfg es (nonce_cache_new k) = Some (ns, c)" and "remembers ([] @ ns) c" and "nc_max_size c = k"
    using accept_run_remembers [OF init, of v cfg es] by (auto simp: nonce_cache_new_def)
  then have "spaced k ns" "cache_len c \<le> k"
    by (auto simp: remembers_def cache_wf_def cache_len_def distinct_card)
  with run show ?thesis by (auto simp: spaced_def)
qed

definition demo_challenge :: "u8 \<Rightarrow> attestation_challenge" where
  "demo_challenge b = challenge_new (replicate 32 b) 0 ''v''"

theorem nonces_not_replayed_witness:
  "\<exists>ns c. accept_run ''v'' challenge_config_default [(1, demo_challenge 1), (2, demo_challenge 2), (3, demo_challenge 1)] (nonce_cache_new 2) = Some (ns, c) \<and>
     cache_len c \<le> 2 \<and> \<not> (2 < length ns \<and> ns ! 0 = ns ! 2)"
proof -
  obtain ns c where "accept_run ''v'' challenge_config_default [(1, demo_challenge 1), (2, demo_challenge 2), (3, demo_challenge 1)] (nonce_cache_new 2) = Some (ns, c)"
    "cache_len c \<le> 2" "\<forall>i j. i < j \<longrightarrow> j < length ns \<longrightarrow> ns ! i = ns ! j \<longrightarrow> 2 < j - i"
    using nonces_not_replayed [of 2 "''v''" challenge_config_default "[(1, demo_challenge 1), (2, demo_challenge 2), (3, demo_challenge 1)]"] by auto
  moreover from this(3) [rule_format, of 0 2] have "\<not> (2 < length ns \<and> ns ! 0 = ns ! 2)" by auto
  ultimately show ?thesis by blast
qed

text \<open>
  The cache forgets by number, not by age, and the verifier does not check that it issued the challenge: after as many other
  challenges as the cache holds, a fresh challenge is accepted a second time. A challenge dated in the future never counts as
  old before its date.
\<close>

lemma replay_after_eviction:
  "map_option fst (accept_run ''v'' challenge_config_default [(1, demo_challenge 1), (2, demo_challenge 2), (3, demo_challenge 1)] (nonce_cache_new 1)) =
     Some [replicate 32 1, replicate 32 2, replicate 32 1]"
proof -
  have e0: "evict_nonces \<lparr>nc_nonces = {}, nc_order = [], nc_max_size = Suc 0\<rparr> = Some \<lparr>nc_nonces = {}, nc_order = [], nc_max_size = Suc 0\<rparr>"
    by (subst evict_nonces.simps) simp
  have e1: "evict_nonces \<lparr>nc_nonces = {n}, nc_order = [n], nc_max_size = Suc 0\<rparr> = Some \<lparr>nc_nonces = {}, nc_order = [], nc_max_size = Suc 0\<rparr>" for n
    by (subst evict_nonces.simps) (simp add: e0)
  show ?thesis
    by (simp add: verify_challenge_def demo_challenge_def challenge_new_def nonce_cache_new_def age_secs_def challenge_config_default_def
        cache_contains_def cache_insert_def e0 e1)
qed

lemma future_challenge_not_expired: "now < ch_issued_at c \<Longrightarrow> \<not> challenge_is_expired now cfg c"
  by (simp add: challenge_is_expired_def age_secs_def)

text \<open>The bytes of a challenge determine its nonce, its second of issue and its verifier.\<close>

lemma challenge_bytes_inj:
  assumes "to_signing_bytes c = to_signing_bytes d" and "length (ch_nonce c) = 32" and "length (ch_nonce d) = 32"
  shows "ch_nonce c = ch_nonce d \<and> secs (ch_issued_at c) = secs (ch_issued_at d) \<and> ch_verifier_id c = ch_verifier_id d"
proof -
  have "ch_nonce c = ch_nonce d" "le_bytes 8 (secs (ch_issued_at c)) = le_bytes 8 (secs (ch_issued_at d))"
    "bytes_of (ch_verifier_id c) = bytes_of (ch_verifier_id d)"
    using assms by (auto simp: to_signing_bytes_def)
  then show ?thesis by (simp add: bytes_of_inj le_bytes_inj)
qed

end
