(* ===== verification/Attestation_Proofs.thy ===== *)
theory Attestation_Proofs
  imports Attestation_Challenge
begin

text \<open>
  Hardware and execution attestations, \<open>crates/molt-attestation/src/hardware.rs\<close>, \<open>execution.rs\<close> and \<open>verification.rs\<close>. The hash
  function (\<open>blake3\<close>), signing with a key and strict verification under the matching public key (\<open>ed25519_dalek\<close>), and the printing of
  identifiers are parameters. Points of time and durations are integers in nanoseconds; a floating-point number is given by its bits. The trust
  score, a floating-point ratio, is not modelled.
\<close>

section \<open>Hardware attestations\<close>

datatype gpu_vendor = Nvidia | Amd | Intel | Apple | UnknownVendor

definition vendor_from_str :: "string \<Rightarrow> gpu_vendor" where
  "vendor_from_str s =
     (let t = map to_lower s
      in if t = ''nvidia'' then Nvidia else if t = ''amd'' \<or> t = ''radeon'' then Amd else if t = ''intel'' then Intel
         else if t = ''apple'' then Apple else UnknownVendor)"

fun vendor_as_str :: "gpu_vendor \<Rightarrow> string" where
  "vendor_as_str Nvidia = ''nvidia''"
| "vendor_as_str Amd = ''amd''"
| "vendor_as_str Intel = ''intel''"
| "vendor_as_str Apple = ''apple''"
| "vendor_as_str UnknownVendor = ''unknown''"

record attested_gpu =
  ag_vendor :: gpu_vendor
  ag_model :: string
  ag_vram_mb :: u64
  ag_compute_capability :: string

record hardware_attestation =
  ha_node_id :: uuid
  ha_gpus :: "attested_gpu list"
  ha_timestamp :: int
  ha_expires_at :: int
  ha_signature :: "u8 list"

type_synonym hash_fun = "u8 list \<Rightarrow> u8 list"

definition uuid_bytes :: "uuid \<Rightarrow> u8 list" where
  "uuid_bytes i = rev (le_bytes 16 i)"

definition gpu_bytes :: "attested_gpu \<Rightarrow> u8 list" where
  "gpu_bytes g = bytes_of (vendor_as_str (ag_vendor g)) @ bytes_of (ag_model g) @ le_bytes 8 (ag_vram_mb g) @
     bytes_of (ag_compute_capability g)"

definition hw_signing_message :: "hash_fun \<Rightarrow> uuid \<Rightarrow> attested_gpu list \<Rightarrow> int \<Rightarrow> int \<Rightarrow> u8 list" where
  "hw_signing_message H i gs t e =
     H (bytes_of ''hardware_attestation_v1'' @ uuid_bytes i @ concat (map gpu_bytes gs) @ le_bytes 8 (secs t) @ le_bytes 8 (secs e))"

definition hw_create_and_sign ::
  "hash_fun \<Rightarrow> (u8 list \<Rightarrow> u8 list) \<Rightarrow> int \<Rightarrow> uuid \<Rightarrow> attested_gpu list \<Rightarrow> int \<Rightarrow> hardware_attestation" where
  "hw_create_and_sign H sign now i gs validity =
     \<lparr>ha_node_id = i, ha_gpus = gs, ha_timestamp = now, ha_expires_at = now + validity,
      ha_signature = sign (hw_signing_message H i gs now (now + validity))\<rparr>"

definition hw_verify_signature :: "hash_fun \<Rightarrow> (u8 list \<Rightarrow> u8 list \<Rightarrow> bool) \<Rightarrow> hardware_attestation \<Rightarrow> attestation_error + unit" where
  "hw_verify_signature H verify a =
     (if verify (hw_signing_message H (ha_node_id a) (ha_gpus a) (ha_timestamp a) (ha_expires_at a)) (ha_signature a)
      then Inr () else Inl SignatureVerification)"

definition hw_is_expired :: "int \<Rightarrow> hardware_attestation \<Rightarrow> bool" where
  "hw_is_expired now a \<longleftrightarrow> ha_expires_at a < now"

definition hw_verify :: "hash_fun \<Rightarrow> (u8 list \<Rightarrow> u8 list \<Rightarrow> bool) \<Rightarrow> int \<Rightarrow> hardware_attestation \<Rightarrow> attestation_error + unit" where
  "hw_verify H verify now a = (if hw_is_expired now a then Inl AttestationExpired else hw_verify_signature H verify a)"

section \<open>The chain of verifications\<close>

record attestation_entry =
  ae_attestation :: hardware_attestation
  ae_previous_hash :: "u8 list option"
  ae_verified_at :: int
  ae_verification_passed :: bool

definition entry_bytes :: "attestation_entry \<Rightarrow> u8 list" where
  "entry_bytes e = bytes_of ''attestation_entry_v1'' @ uuid_bytes (ha_node_id (ae_attestation e)) @
     le_bytes 8 (secs (ha_timestamp (ae_attestation e))) @ ha_signature (ae_attestation e) @
     (case ae_previous_hash e of Some p \<Rightarrow> p | None \<Rightarrow> []) @ le_bytes 8 (secs (ae_verified_at e)) @
     [if ae_verification_passed e then 1 else 0]"

definition compute_hash :: "hash_fun \<Rightarrow> attestation_entry \<Rightarrow> u8 list" where
  "compute_hash H e = H (entry_bytes e)"

record rate_limit_config =
  min_verification_interval_secs :: u64
  failed_verification_cooldown_secs :: u64

definition rate_limit_default :: rate_limit_config where
  "rate_limit_default = \<lparr>min_verification_interval_secs = 3600, failed_verification_cooldown_secs = 7200\<rparr>"

definition rate_limit_no_limit :: rate_limit_config where
  "rate_limit_no_limit = \<lparr>min_verification_interval_secs = 0, failed_verification_cooldown_secs = 0\<rparr>"

record attestation_chain =
  ac_node_id :: uuid
  ac_entries :: "attestation_entry list"
  ac_rate_limit_config :: rate_limit_config
  ac_last_failed_verification :: "int option"

definition chain_with_rate_limit :: "uuid \<Rightarrow> rate_limit_config \<Rightarrow> attestation_chain" where
  "chain_with_rate_limit i cfg = \<lparr>ac_node_id = i, ac_entries = [], ac_rate_limit_config = cfg, ac_last_failed_verification = None\<rparr>"

definition chain_new :: "uuid \<Rightarrow> attestation_chain" where
  "chain_new i = \<lparr>ac_node_id = i, ac_entries = [], ac_rate_limit_config = rate_limit_default, ac_last_failed_verification = None\<rparr>"

definition set_rate_limit_config :: "rate_limit_config \<Rightarrow> attestation_chain \<Rightarrow> attestation_chain" where
  "set_rate_limit_config cfg c = c\<lparr>ac_rate_limit_config := cfg\<rparr>"

definition latest_hash :: "hash_fun \<Rightarrow> attestation_chain \<Rightarrow> u8 list option" where
  "latest_hash H c = (if ac_entries c = [] then None else Some (compute_hash H (last (ac_entries c))))"

text \<open>
  \<open>chrono::Duration\<close> holds at most \<open>i64::MAX\<close> milliseconds; \<open>Duration::seconds\<close> and the subtraction panic beyond, here
  \<^const>\<open>None\<close>. A number of seconds above \<open>i64::MAX\<close> is first replaced by that.
\<close>

definition MAX_DURATION :: int where "MAX_DURATION = 9223372036854775807 * 1000000"

definition duration_seconds :: "u64 \<Rightarrow> int option" where
  "duration_seconds n =
     (let s = min (uint n) 9223372036854775807 in if s \<le> 9223372036854775 then Some (s * 1000000000) else None)"

definition duration_sub :: "int \<Rightarrow> int \<Rightarrow> int option" where
  "duration_sub a b = (if \<bar>a - b\<bar> \<le> MAX_DURATION then Some (a - b) else None)"

text \<open>One test of \<open>check_rate_limit\<close>: the error to return while less than the given time has passed.\<close>

definition too_early :: "int \<Rightarrow> int \<Rightarrow> u64 \<Rightarrow> (u64 \<Rightarrow> attestation_error) \<Rightarrow> attestation_error option option" where
  "too_early now since wait err =
     Option.bind (duration_seconds wait) (\<lambda>w.
       if now - since < w
       then map_option (\<lambda>rest. Some (err (of_int (max (rest div 1000000000) 0)))) (duration_sub w (now - since))
       else Some None)"

definition cooldown_check :: "int \<Rightarrow> attestation_chain \<Rightarrow> attestation_error option option" where
  "cooldown_check now c =
     (case ac_last_failed_verification c of
        Some t \<Rightarrow> too_early now t (failed_verification_cooldown_secs (ac_rate_limit_config c)) CooldownActive
      | None \<Rightarrow> Some None)"

definition interval_check :: "int \<Rightarrow> attestation_chain \<Rightarrow> attestation_error option option" where
  "interval_check now c =
     (if ac_entries c = [] then Some None
      else too_early now (ae_verified_at (last (ac_entries c))) (min_verification_interval_secs (ac_rate_limit_config c)) RateLimitExceeded)"

definition check_rate_limit :: "int \<Rightarrow> attestation_chain \<Rightarrow> (attestation_error + unit) option" where
  "check_rate_limit now c =
     (case cooldown_check now c of
        None \<Rightarrow> None
      | Some (Some e) \<Rightarrow> Some (Inl e)
      | Some None \<Rightarrow>
          (case interval_check now c of
             None \<Rightarrow> None
           | Some (Some e) \<Rightarrow> Some (Inl e)
           | Some None \<Rightarrow> Some (Inr ())))"

definition last_verification_time :: "attestation_chain \<Rightarrow> int option" where
  "last_verification_time c = (if ac_entries c = [] then None else Some (ae_verified_at (last (ac_entries c))))"

definition is_cooldown_active :: "int \<Rightarrow> attestation_chain \<Rightarrow> bool option" where
  "is_cooldown_active now c = map_option (\<lambda>r. case r of Inl (CooldownActive _) \<Rightarrow> True | _ \<Rightarrow> False) (check_rate_limit now c)"

definition seconds_until_verification_allowed :: "int \<Rightarrow> attestation_chain \<Rightarrow> u64 option" where
  "seconds_until_verification_allowed now c =
     map_option (\<lambda>r. case r of Inl (RateLimitExceeded n) \<Rightarrow> n | Inl (CooldownActive n) \<Rightarrow> n | _ \<Rightarrow> 0) (check_rate_limit now c)"

definition add_attestation_unchecked ::
  "hash_fun \<Rightarrow> (uuid \<Rightarrow> string) \<Rightarrow> int \<Rightarrow> hardware_attestation \<Rightarrow> bool \<Rightarrow> attestation_chain \<Rightarrow> (attestation_error, unit, attestation_chain) outcome" where
  "add_attestation_unchecked H show_id now a passed c =
     (if ha_node_id a \<noteq> ac_node_id c
      then (Inl (HardwareVerification (''attestation node_id '' @ show_id (ha_node_id a) @ '' does not match chain node_id '' @
              show_id (ac_node_id c))), c)
      else
        let e = \<lparr>ae_attestation = a, ae_previous_hash = latest_hash H c, ae_verified_at = now, ae_verification_passed = passed\<rparr>;
            c1 = (if \<not> passed then c\<lparr>ac_last_failed_verification := Some now\<rparr> else c)
        in (Inr (), c1\<lparr>ac_entries := ac_entries c @ [e]\<rparr>))"

text \<open>The clock is read once for the limits and once for the entry.\<close>

definition add_attestation ::
  "hash_fun \<Rightarrow> (uuid \<Rightarrow> string) \<Rightarrow> int \<Rightarrow> int \<Rightarrow> hardware_attestation \<Rightarrow> bool \<Rightarrow> attestation_chain \<Rightarrow>
   (attestation_error, unit, attestation_chain) outcome option" where
  "add_attestation H show_id now now' a passed c =
     map_option (\<lambda>r. case r of Inl e \<Rightarrow> (Inl e, c) | Inr _ \<Rightarrow> add_attestation_unchecked H show_id now' a passed c)
       (check_rate_limit now c)"

definition clear_cooldown :: "attestation_chain \<Rightarrow> attestation_chain" where
  "clear_cooldown c = c\<lparr>ac_last_failed_verification := None\<rparr>"

text \<open>The loop over the entries, with the entry before the current one.\<close>

fun check_entries :: "hash_fun \<Rightarrow> uuid \<Rightarrow> nat \<Rightarrow> attestation_entry option \<Rightarrow> attestation_entry list \<Rightarrow> attestation_error + unit" where
  "check_entries H i k before [] = Inr ()"
| "check_entries H i k before (e # es) =
     (if ha_node_id (ae_attestation e) \<noteq> i then Inl (HardwareVerification (''entry '' @ show_nat k @ '' has wrong node_id''))
      else (case before of
              None \<Rightarrow>
                if ae_previous_hash e \<noteq> None then Inl (HardwareVerification ''genesis entry should have no previous hash'')
                else check_entries H i (Suc k) (Some e) es
            | Some p \<Rightarrow>
                (case ae_previous_hash e of
                   Some h \<Rightarrow>
                     if h = compute_hash H p then check_entries H i (Suc k) (Some e) es
                     else Inl (HardwareVerification (''entry '' @ show_nat k @ '' has incorrect previous hash''))
                 | None \<Rightarrow> Inl (HardwareVerification (''entry '' @ show_nat k @ '' missing previous hash'')))))"

definition verify_integrity :: "hash_fun \<Rightarrow> attestation_chain \<Rightarrow> attestation_error + unit" where
  "verify_integrity H c = check_entries H (ac_node_id c) 0 None (ac_entries c)"

definition successful_verification_count :: "attestation_chain \<Rightarrow> nat" where
  "successful_verification_count c = length (filter ae_verification_passed (ac_entries c))"

definition failed_verification_count :: "attestation_chain \<Rightarrow> nat" where
  "failed_verification_count c = length (filter (\<lambda>e. \<not> ae_verification_passed e) (ac_entries c))"

definition time_span :: "attestation_chain \<Rightarrow> int option" where
  "time_span c =
     (if length (ac_entries c) < 2 then None
      else Some (ae_verified_at (last (ac_entries c)) - ae_verified_at (ac_entries c ! 0)))"

section \<open>Execution attestations\<close>

record checkpoint =
  cp_sequence :: u64
  cp_hash :: "u8 list"
  cp_timestamp :: int

definition checkpoint_new :: "hash_fun \<Rightarrow> int \<Rightarrow> u64 \<Rightarrow> u8 list \<Rightarrow> checkpoint" where
  "checkpoint_new H now n d = \<lparr>cp_sequence = n, cp_hash = H d, cp_timestamp = now\<rparr>"

definition chain_from :: "hash_fun \<Rightarrow> bool \<Rightarrow> int \<Rightarrow> checkpoint \<Rightarrow> u8 list \<Rightarrow> checkpoint option" where
  "chain_from H checks now p d =
     map_option (\<lambda>n. \<lparr>cp_sequence = n, cp_hash = H (cp_hash p @ d), cp_timestamp = now\<rparr>) (add_op checks (cp_sequence p) 1)"

definition verify_chain :: "hash_fun \<Rightarrow> bool \<Rightarrow> checkpoint \<Rightarrow> checkpoint \<Rightarrow> u8 list \<Rightarrow> bool option" where
  "verify_chain H checks c p d =
     map_option (\<lambda>n. if cp_sequence c \<noteq> n then False else cp_hash c = H (cp_hash p @ d)) (add_op checks (cp_sequence p) 1)"

record execution_metrics =
  em_gpu_utilization :: u64
  em_memory_used_mb :: u64
  em_compute_ops :: u64

record execution_attestation =
  ea_job_id :: uuid
  ea_checkpoints :: "checkpoint list"
  ea_duration :: int
  ea_metrics :: execution_metrics
  ea_timestamp :: int
  ea_signature :: "u8 list"

definition checkpoint_bytes :: "checkpoint \<Rightarrow> u8 list" where
  "checkpoint_bytes c = le_bytes 8 (cp_sequence c) @ cp_hash c @ le_bytes 8 (secs (cp_timestamp c))"

text \<open>\<open>num_milliseconds\<close> rounds towards zero.\<close>

definition millis :: "int \<Rightarrow> u64" where
  "millis d = of_int (if d < 0 then - ((- d) div 1000000) else d div 1000000)"

definition exec_bytes :: "uuid \<Rightarrow> checkpoint list \<Rightarrow> int \<Rightarrow> execution_metrics \<Rightarrow> int \<Rightarrow> u8 list" where
  "exec_bytes j cps d m t = bytes_of ''execution_attestation_v1'' @ uuid_bytes j @ concat (map checkpoint_bytes cps) @
     le_bytes 8 (millis d) @ le_bytes 8 (em_gpu_utilization m) @ le_bytes 8 (em_memory_used_mb m) @ le_bytes 8 (em_compute_ops m) @
     le_bytes 8 (secs t)"

definition exec_signing_message :: "hash_fun \<Rightarrow> uuid \<Rightarrow> checkpoint list \<Rightarrow> int \<Rightarrow> execution_metrics \<Rightarrow> int \<Rightarrow> u8 list" where
  "exec_signing_message H j cps d m t = H (exec_bytes j cps d m t)"

text \<open>The first checkpoint whose sequence number is not its index, with that index.\<close>

fun bad_sequence :: "nat \<Rightarrow> checkpoint list \<Rightarrow> (nat \<times> checkpoint) option" where
  "bad_sequence i [] = None"
| "bad_sequence i (c # cs) = (if cp_sequence c \<noteq> of_nat i then Some (i, c) else bad_sequence (Suc i) cs)"

definition exec_create_and_sign ::
  "hash_fun \<Rightarrow> (u8 list \<Rightarrow> u8 list) \<Rightarrow> int \<Rightarrow> uuid \<Rightarrow> checkpoint list \<Rightarrow> int \<Rightarrow> execution_metrics \<Rightarrow> attestation_error + execution_attestation" where
  "exec_create_and_sign H sign now j cps d m =
     (if cps = [] then Inl (InvalidExecutionProof ''at least one checkpoint is required'')
      else (case bad_sequence 0 cps of
              Some (i, c) \<Rightarrow> Inl (CheckpointVerification (''checkpoint sequence mismatch: expected '' @ show_nat i @ '', got '' @
                show_nat (unat (cp_sequence c))))
            | None \<Rightarrow> Inr \<lparr>ea_job_id = j, ea_checkpoints = cps, ea_duration = d, ea_metrics = m, ea_timestamp = now,
                ea_signature = sign (exec_signing_message H j cps d m now)\<rparr>))"

definition exec_verify_signature :: "hash_fun \<Rightarrow> (u8 list \<Rightarrow> u8 list \<Rightarrow> bool) \<Rightarrow> execution_attestation \<Rightarrow> attestation_error + unit" where
  "exec_verify_signature H verify a =
     (if verify (exec_signing_message H (ea_job_id a) (ea_checkpoints a) (ea_duration a) (ea_metrics a) (ea_timestamp a)) (ea_signature a)
      then Inr () else Inl SignatureVerification)"

definition final_checkpoint_hash :: "execution_attestation \<Rightarrow> u8 list option" where
  "final_checkpoint_hash a = (if ea_checkpoints a = [] then None else Some (cp_hash (last (ea_checkpoints a))))"

definition checkpoint_count :: "execution_attestation \<Rightarrow> nat" where
  "checkpoint_count a = length (ea_checkpoints a)"

type_synonym checkpoint_chain = "checkpoint list"

definition checkpoint_chain_new :: "hash_fun \<Rightarrow> int \<Rightarrow> u8 list \<Rightarrow> checkpoint_chain" where
  "checkpoint_chain_new H now d = [checkpoint_new H now 0 d]"

definition add_checkpoint :: "hash_fun \<Rightarrow> bool \<Rightarrow> int \<Rightarrow> u8 list \<Rightarrow> checkpoint_chain \<Rightarrow> checkpoint_chain option" where
  "add_checkpoint H checks now d cs =
     (if cs = [] then None else map_option (\<lambda>n. cs @ [n]) (chain_from H checks now (last cs) d))"

section \<open>Verification\<close>

datatype verification_details =
    HardwareDetails nat bool
  | ExecutionDetails nat "u8 list option"

record verification_result =
  vr_valid :: bool
  vr_details :: verification_details

definition verify_hardware_attestation ::
  "hash_fun \<Rightarrow> (u8 list \<Rightarrow> u8 list \<Rightarrow> bool) \<Rightarrow> int \<Rightarrow> hardware_attestation \<Rightarrow> attestation_error + verification_result" where
  "verify_hardware_attestation H verify now a =
     (if hw_is_expired now a then Inl AttestationExpired
      else (case hw_verify_signature H verify a of
              Inl e \<Rightarrow> Inl e
            | Inr _ \<Rightarrow> Inr \<lparr>vr_valid = True, vr_details = HardwareDetails (length (ha_gpus a)) True\<rparr>))"

definition exec_result :: "execution_attestation \<Rightarrow> verification_result" where
  "exec_result a = \<lparr>vr_valid = True, vr_details = ExecutionDetails (checkpoint_count a) (final_checkpoint_hash a)\<rparr>"

definition verify_execution_attestation ::
  "hash_fun \<Rightarrow> (u8 list \<Rightarrow> u8 list \<Rightarrow> bool) \<Rightarrow> execution_attestation \<Rightarrow> attestation_error + verification_result" where
  "verify_execution_attestation H verify a =
     (case bad_sequence 0 (ea_checkpoints a) of
        Some (i, c) \<Rightarrow> Inl (CheckpointVerification (''checkpoint sequence mismatch at index '' @ show_nat i @ '': expected '' @
          show_nat i @ '', got '' @ show_nat (unat (cp_sequence c))))
      | None \<Rightarrow> (case exec_verify_signature H verify a of Inl e \<Rightarrow> Inl e | Inr _ \<Rightarrow> Inr (exec_result a)))"

text \<open>The loop over the chain from index 1: the previous checkpoint, and the rest with its data.\<close>

fun check_links :: "hash_fun \<Rightarrow> bool \<Rightarrow> nat \<Rightarrow> checkpoint \<Rightarrow> (checkpoint \<times> u8 list) list \<Rightarrow> (attestation_error + unit) option" where
  "check_links H checks i p [] = Some (Inr ())"
| "check_links H checks i p ((c, d) # rest) =
     Option.bind (verify_chain H checks c p d) (\<lambda>ok.
       if \<not> ok then Some (Inl (CheckpointVerification (''checkpoint chain verification failed at index '' @ show_nat i)))
       else check_links H checks (Suc i) c rest)"

definition verify_execution_with_data ::
  "hash_fun \<Rightarrow> bool \<Rightarrow> (u8 list \<Rightarrow> u8 list \<Rightarrow> bool) \<Rightarrow> execution_attestation \<Rightarrow> u8 list list \<Rightarrow> (attestation_error + verification_result) option" where
  "verify_execution_with_data H checks verify a ds =
     (case verify_execution_attestation H verify a of
        Inl e \<Rightarrow> Some (Inl e)
      | Inr _ \<Rightarrow>
          if length ds \<noteq> length (ea_checkpoints a)
          then Some (Inl (CheckpointVerification (''checkpoint data count mismatch: expected '' @ show_nat (length (ea_checkpoints a)) @
                 '', got '' @ show_nat (length ds))))
          else (case zip (ea_checkpoints a) ds of
                  [] \<Rightarrow> Some (Inr (exec_result a))
                | (c, d) # rest \<Rightarrow>
                    if cp_hash c \<noteq> H d then Some (Inl (CheckpointVerification ''first checkpoint hash mismatch''))
                    else map_option (\<lambda>r. case r of Inl e \<Rightarrow> Inl e | Inr _ \<Rightarrow> Inr (exec_result a)) (check_links H checks 1 c rest)))"

definition batch_verify_hardware ::
  "hash_fun \<Rightarrow> int \<Rightarrow> (hardware_attestation \<times> (u8 list \<Rightarrow> u8 list \<Rightarrow> bool)) list \<Rightarrow> (attestation_error + verification_result) list" where
  "batch_verify_hardware H now as = map (\<lambda>(a, verify). verify_hardware_attestation H verify now a) as"

definition batch_verify_execution ::
  "hash_fun \<Rightarrow> (execution_attestation \<times> (u8 list \<Rightarrow> u8 list \<Rightarrow> bool)) list \<Rightarrow> (attestation_error + verification_result) list" where
  "batch_verify_execution H as = map (\<lambda>(a, verify). verify_execution_attestation H verify a) as"

section \<open>What a chain of verifications guarantees\<close>

text \<open>Signatures have 64 bytes and hashes 32.\<close>

definition entry_sized :: "attestation_entry \<Rightarrow> bool" where
  "entry_sized e \<longleftrightarrow> length (ha_signature (ae_attestation e)) = 64 \<and>
     (case ae_previous_hash e of None \<Rightarrow> True | Some h \<Rightarrow> length h = 32)"

text \<open>What the hash of an entry covers.\<close>

definition entry_content :: "attestation_entry \<Rightarrow> uuid \<times> u64 \<times> u8 list \<times> u8 list option \<times> u64 \<times> bool" where
  "entry_content e = (ha_node_id (ae_attestation e), secs (ha_timestamp (ae_attestation e)), ha_signature (ae_attestation e),
     ae_previous_hash e, secs (ae_verified_at e), ae_verification_passed e)"

lemma uuid_bytes_inj: "uuid_bytes i = uuid_bytes j \<longleftrightarrow> i = j"
  using le_bytes_inj [of 16 i j] by (auto simp: uuid_bytes_def)

lemma length_uuid_bytes [simp]: "length (uuid_bytes i) = 16"
  by (simp add: uuid_bytes_def)

lemma le_bytes_eq_iff: "le_bytes 8 (v :: u64) = le_bytes 8 w \<longleftrightarrow> v = w"
  using le_bytes_inj [of 8 v w] by auto

lemma entry_bytes_inj:
  assumes "entry_bytes e = entry_bytes f" and "entry_sized e" and "entry_sized f"
  shows "entry_content e = entry_content f"
proof -
  have len: "length (entry_bytes e) = length (entry_bytes f)" using assms(1) by simp
  then have "length (case ae_previous_hash e of Some p \<Rightarrow> p | None \<Rightarrow> []) = length (case ae_previous_hash f of Some p \<Rightarrow> p | None \<Rightarrow> [])"
    using assms(2,3) by (simp add: entry_bytes_def entry_sized_def)
  then have "ae_previous_hash e = ae_previous_hash f \<and> entry_content e = entry_content f"
    using assms by (auto simp: entry_bytes_def entry_sized_def entry_content_def uuid_bytes_inj le_bytes_eq_iff
        split: option.splits if_splits)
  then show ?thesis by simp
qed

lemma check_entries_append:
  "check_entries H i k b (es @ [e]) = Inr () \<longleftrightarrow>
   check_entries H i k b es = Inr () \<and> ha_node_id (ae_attestation e) = i \<and>
   ae_previous_hash e = map_option (compute_hash H) (if es = [] then b else Some (last es))"
  by (induction es arbitrary: k b) (auto split: option.splits)

definition last_entry_hash :: "hash_fun \<Rightarrow> attestation_entry list \<Rightarrow> u8 list option" where
  "last_entry_hash H es = map_option (compute_hash H) (if es = [] then None else Some (last es))"

lemma last_entry_hash_simps [simp]:
  "last_entry_hash H [] = None" "last_entry_hash H (es @ [e]) = Some (compute_hash H e)"
  by (simp_all add: last_entry_hash_def)

lemma linked_content:
  assumes "inj_on H (entry_bytes ` (set es \<union> set fs))"
    and "check_entries H i 0 None es = Inr ()" and "check_entries H j 0 None fs = Inr ()"
    and "last_entry_hash H es = last_entry_hash H fs" and "list_all entry_sized es" and "list_all entry_sized fs"
  shows "map entry_content es = map entry_content fs"
  using assms
proof (induction es arbitrary: fs rule: rev_induct)
  case Nil
  then show ?case by (cases fs rule: rev_cases) auto
next
  case (snoc e es)
  then obtain f gs where fs: "fs = gs @ [f]" by (cases fs rule: rev_cases) auto
  have "H (entry_bytes e) = H (entry_bytes f)" using snoc.prems(4) fs by (simp add: compute_hash_def)
  then have "entry_bytes e = entry_bytes f" by (rule inj_onD [OF snoc.prems(1)]) (simp_all add: fs)
  then have c: "entry_content e = entry_content f" using snoc.prems(5,6) fs by (intro entry_bytes_inj) auto
  then have "ae_previous_hash e = ae_previous_hash f" by (simp add: entry_content_def)
  then have "last_entry_hash H es = last_entry_hash H gs"
    using snoc.prems(2,3) fs by (simp add: check_entries_append last_entry_hash_def)
  moreover have "inj_on H (entry_bytes ` (set es \<union> set gs))"
    by (rule inj_on_subset [OF snoc.prems(1)]) (auto simp: fs)
  ultimately show ?case using snoc.IH [of gs] snoc.prems fs c by (simp add: check_entries_append)
qed

text \<open>
  C21. Tampering with the past shows: two chains that both pass the integrity check and end in the same hash have equally many entries with the
  same content throughout (node, second of the attestation, its signature, link, second of the verification and outcome), provided the hash
  function does not map the bytes of two different entries of these two chains to one value. Signatures have 64 bytes and links 32, as their
  types say.
\<close>

theorem chain_tamper_evident:
  assumes "verify_integrity H c = Inr ()" and "verify_integrity H d = Inr ()" and "latest_hash H c = latest_hash H d"
    and "list_all entry_sized (ac_entries c)" and "list_all entry_sized (ac_entries d)"
    and "inj_on H (entry_bytes ` (set (ac_entries c) \<union> set (ac_entries d)))"
  shows "map entry_content (ac_entries c) = map entry_content (ac_entries d)"
proof -
  have "last_entry_hash H (ac_entries c) = last_entry_hash H (ac_entries d)"
    using assms(3) by (simp add: latest_hash_def last_entry_hash_def split: if_splits)
  with assms show ?thesis
    by (intro linked_content [of H _ _ "ac_node_id c" "ac_node_id d"]) (simp_all add: verify_integrity_def)
qed

lemma unchecked_integrity:
  assumes "verify_integrity H c = Inr ()"
  shows "verify_integrity H (snd (add_attestation_unchecked H show_id now a passed c)) = Inr ()"
  using assms
  by (auto simp: add_attestation_unchecked_def verify_integrity_def check_entries_append latest_hash_def Let_def)

section \<open>Rate limits\<close>

fun add_run ::
  "hash_fun \<Rightarrow> (uuid \<Rightarrow> string) \<Rightarrow> (int \<times> int \<times> hardware_attestation \<times> bool) list \<Rightarrow> attestation_chain \<Rightarrow> attestation_chain option" where
  "add_run H show_id [] c = Some c"
| "add_run H show_id ((t, t', a, passed) # ops) c =
     Option.bind (add_attestation H show_id t t' a passed c) (\<lambda>(r, c1). add_run H show_id ops c1)"

text \<open>The readings of the clock do not go back.\<close>

fun clock_ok :: "int \<Rightarrow> (int \<times> int \<times> hardware_attestation \<times> bool) list \<Rightarrow> bool" where
  "clock_ok t0 [] = True"
| "clock_ok t0 ((t, t', a, passed) # ops) = (t0 \<le> t \<and> t \<le> t' \<and> clock_ok t' ops)"

definition config_ok :: "rate_limit_config \<Rightarrow> bool" where
  "config_ok cfg \<longleftrightarrow> unat (min_verification_interval_secs cfg) \<le> 9223372036854775 \<and>
     unat (failed_verification_cooldown_secs cfg) \<le> 9223372036854775"

definition gap :: "rate_limit_config \<Rightarrow> attestation_entry \<Rightarrow> attestation_entry \<Rightarrow> bool" where
  "gap cfg e f \<longleftrightarrow> uint (min_verification_interval_secs cfg) * 1000000000 \<le> ae_verified_at f - ae_verified_at e \<and>
     (ae_verification_passed e \<or>
      uint (failed_verification_cooldown_secs cfg) * 1000000000 \<le> ae_verified_at f - ae_verified_at e)"

lemma uint_small: "unat (n :: u64) \<le> 9223372036854775 \<Longrightarrow> uint n \<le> 9223372036854775"
  by (metis of_nat_le_iff of_nat_numeral uint_nat)

lemma duration_seconds_small:
  assumes "unat n \<le> 9223372036854775"
  shows "duration_seconds n = Some (uint n * 1000000000)"
  using uint_small [OF assms] by (simp add: duration_seconds_def Let_def)

lemma too_early_small:
  assumes "unat n \<le> 9223372036854775" and "since \<le> now"
  shows "(too_early now since n err = Some None \<and> uint n * 1000000000 \<le> now - since) \<or> (\<exists>e. too_early now since n err = Some (Some e))"
proof (cases "now - since < uint n * 1000000000")
  case True
  have "\<bar>uint n * 1000000000 - (now - since)\<bar> \<le> MAX_DURATION"
    using uint_small [OF assms(1)] True assms(2) by (simp add: MAX_DURATION_def)
  with True show ?thesis by (auto simp: too_early_def duration_seconds_small [OF assms(1)] duration_sub_def)
qed (auto simp: too_early_def duration_seconds_small [OF assms(1)])

definition limited :: "hash_fun \<Rightarrow> rate_limit_config \<Rightarrow> int \<Rightarrow> attestation_chain \<Rightarrow> bool" where
  "limited H cfg t0 c \<longleftrightarrow> ac_rate_limit_config c = cfg \<and> verify_integrity H c = Inr () \<and> successively (gap cfg) (ac_entries c) \<and>
     (ac_entries c \<noteq> [] \<longrightarrow> ae_verified_at (last (ac_entries c)) \<le> t0 \<and>
        (ae_verification_passed (last (ac_entries c)) \<or>
         ac_last_failed_verification c = Some (ae_verified_at (last (ac_entries c))))) \<and>
     (\<forall>t. ac_last_failed_verification c = Some t \<longrightarrow> t \<le> t0)"

lemma cooldown_limited:
  assumes "limited H cfg t0 c" and "config_ok cfg" and "t0 \<le> now"
  shows "(\<exists>e. cooldown_check now c = Some (Some e)) \<or> (cooldown_check now c = Some None \<and>
    (\<forall>t. ac_last_failed_verification c = Some t \<longrightarrow> uint (failed_verification_cooldown_secs cfg) * 1000000000 \<le> now - t))"
proof (cases "ac_last_failed_verification c")
  case (Some t)
  then have "t \<le> now" using assms(1,3) by (auto simp: limited_def)
  moreover have "unat (failed_verification_cooldown_secs cfg) \<le> 9223372036854775" using assms(2) by (simp add: config_ok_def)
  ultimately show ?thesis
    using too_early_small [of "failed_verification_cooldown_secs cfg" t now CooldownActive] Some assms(1)
    by (auto simp: cooldown_check_def limited_def)
qed (simp add: cooldown_check_def)

lemma interval_limited:
  assumes "limited H cfg t0 c" and "config_ok cfg" and "t0 \<le> now"
  shows "(\<exists>e. interval_check now c = Some (Some e)) \<or> (interval_check now c = Some None \<and> (ac_entries c = [] \<or>
    uint (min_verification_interval_secs cfg) * 1000000000 \<le> now - ae_verified_at (last (ac_entries c))))"
proof (cases "ac_entries c = []")
  case False
  then have "ae_verified_at (last (ac_entries c)) \<le> now" using assms(1,3) by (auto simp: limited_def)
  moreover have "unat (min_verification_interval_secs cfg) \<le> 9223372036854775" using assms(2) by (simp add: config_ok_def)
  ultimately show ?thesis
    using too_early_small [of "min_verification_interval_secs cfg" "ae_verified_at (last (ac_entries c))" now RateLimitExceeded] False assms(1)
    by (auto simp: interval_check_def limited_def)
qed (simp add: interval_check_def)

text \<open>When the limits let a verification pass, an entry at that time or later keeps its distance to the last one.\<close>

definition far_enough :: "rate_limit_config \<Rightarrow> int \<Rightarrow> attestation_chain \<Rightarrow> bool" where
  "far_enough cfg t c \<longleftrightarrow> ac_entries c = [] \<or>
     (uint (min_verification_interval_secs cfg) * 1000000000 \<le> t - ae_verified_at (last (ac_entries c)) \<and>
      (ae_verification_passed (last (ac_entries c)) \<or>
       uint (failed_verification_cooldown_secs cfg) * 1000000000 \<le> t - ae_verified_at (last (ac_entries c))))"

lemma check_limited:
  assumes "limited H cfg t0 c" and "config_ok cfg" and "t0 \<le> now"
  shows "(\<exists>e. check_rate_limit now c = Some (Inl e)) \<or> (check_rate_limit now c = Some (Inr ()) \<and> far_enough cfg now c)"
  using cooldown_limited [OF assms] interval_limited [OF assms] assms(1)
  by (auto simp: check_rate_limit_def far_enough_def limited_def)

lemma add_limited:
  assumes "limited H cfg t0 c" and "config_ok cfg" and "t0 \<le> t" and "t \<le> t'"
  shows "\<exists>r c1. add_attestation H show_id t t' a passed c = Some (r, c1) \<and> limited H cfg t' c1"
proof -
  have later: "limited H cfg t' c" using assms(1,3,4) by (auto simp: limited_def)
  have grown: "limited H cfg t' (snd (add_attestation_unchecked H show_id t' a passed c))" if "far_enough cfg t c"
    using later that assms(4) unchecked_integrity [of H c show_id t' a passed]
    by (auto simp: limited_def far_enough_def add_attestation_unchecked_def Let_def successively_append_iff gap_def)
  obtain r c1 where u: "add_attestation_unchecked H show_id t' a passed c = (r, c1)" by (metis surj_pair)
  from check_limited [OF assms(1,2,3)] later grown u show ?thesis by (auto simp: add_attestation_def)
qed

lemma run_limited:
  "limited H cfg t0 c \<Longrightarrow> config_ok cfg \<Longrightarrow> clock_ok t0 ops \<Longrightarrow> \<exists>c' t. add_run H show_id ops c = Some c' \<and> limited H cfg t c'"
proof (induction ops arbitrary: c t0)
  case (Cons op ops)
  obtain t t' a passed where op: "op = (t, t', a, passed)" by (cases op)
  obtain r c1 where "add_attestation H show_id t t' a passed c = Some (r, c1)" "limited H cfg t' c1"
    using add_limited [OF Cons.prems(1,2)] Cons.prems(3) op by auto blast
  with Cons.IH [of t' c1] Cons.prems op show ?case by auto
qed auto

text \<open>
  C22. Rate limits hold: with limits that fit a duration and a clock that does not go back, no sequence of rate-limited additions panics, the chain
  passes its integrity check, and two consecutive verifications lie at least the minimum interval apart, and after a failed
  one at least the cooldown as well.
\<close>

theorem verifications_spaced:
  assumes "config_ok cfg" and "clock_ok t0 ops"
  shows "\<exists>c. add_run H show_id ops (chain_with_rate_limit i cfg) = Some c \<and> verify_integrity H c = Inr () \<and>
    (\<forall>k. Suc k < length (ac_entries c) \<longrightarrow> gap cfg (ac_entries c ! k) (ac_entries c ! Suc k))"
proof -
  have "limited H cfg t0 (chain_with_rate_limit i cfg)"
    by (simp add: limited_def chain_with_rate_limit_def verify_integrity_def)
  from run_limited [OF this assms, of show_id] show ?thesis
    by (auto simp: limited_def successively_conv_nth)
qed

section \<open>What an execution attestation guarantees\<close>

definition checkpoint_content :: "checkpoint \<Rightarrow> u64 \<times> u8 list \<times> u64" where
  "checkpoint_content c = (cp_sequence c, cp_hash c, secs (cp_timestamp c))"

definition exec_content :: "execution_attestation \<Rightarrow> uuid \<times> (u64 \<times> u8 list \<times> u64) list \<times> u64 \<times> execution_metrics \<times> u64" where
  "exec_content a = (ea_job_id a, map checkpoint_content (ea_checkpoints a), millis (ea_duration a), ea_metrics a, secs (ea_timestamp a))"

abbreviation attested_bytes :: "execution_attestation \<Rightarrow> u8 list" where
  "attested_bytes a \<equiv> exec_bytes (ea_job_id a) (ea_checkpoints a) (ea_duration a) (ea_metrics a) (ea_timestamp a)"

lemma exec_bytes_inj:
  assumes eq: "attested_bytes a = attested_bytes b"
    and "list_all (\<lambda>c. length (cp_hash c) = 32) (ea_checkpoints a)" and "list_all (\<lambda>c. length (cp_hash c) = 32) (ea_checkpoints b)"
  shows "exec_content a = exec_content b"
proof -
  let ?ca = "concat (map checkpoint_bytes (ea_checkpoints a))" and ?cb = "concat (map checkpoint_bytes (ea_checkpoints b))"
  have "length (attested_bytes a) = length (attested_bytes b)" using eq by simp
  then have len: "length ?ca = length ?cb" unfolding exec_bytes_def by simp
  have parts: "uuid_bytes (ea_job_id a) = uuid_bytes (ea_job_id b)" "?ca = ?cb"
    "le_bytes 8 (millis (ea_duration a)) = le_bytes 8 (millis (ea_duration b))"
    "le_bytes 8 (em_gpu_utilization (ea_metrics a)) = le_bytes 8 (em_gpu_utilization (ea_metrics b))"
    "le_bytes 8 (em_memory_used_mb (ea_metrics a)) = le_bytes 8 (em_memory_used_mb (ea_metrics b))"
    "le_bytes 8 (em_compute_ops (ea_metrics a)) = le_bytes 8 (em_compute_ops (ea_metrics b))"
    "le_bytes 8 (secs (ea_timestamp a)) = le_bytes 8 (secs (ea_timestamp b))"
    using eq len unfolding exec_bytes_def by (simp_all add: append_eq_append_conv)
  have "map checkpoint_content (ea_checkpoints a) = map checkpoint_content (ea_checkpoints b)"
    using parts(2) assms(2,3)
    by (rule blocks_inj [where n = 47]) (auto simp: checkpoint_bytes_def checkpoint_content_def le_bytes_eq_iff)
  moreover have "ea_metrics a = ea_metrics b"
    using parts(4-6) by (intro execution_metrics.equality) (simp_all add: le_bytes_eq_iff)
  ultimately show ?thesis using parts by (simp add: exec_content_def uuid_bytes_inj le_bytes_eq_iff)
qed

text \<open>
  What the signature of an execution attestation covers: two attestations with the same signed message state the same job, the same
  checkpoints (sequence, hash and second), the same duration in milliseconds, metrics and second of creation, unless the bytes of
  these two attestations are themselves a collision of the hash function.
\<close>

theorem execution_signature_binds:
  assumes "exec_signing_message H (ea_job_id a) (ea_checkpoints a) (ea_duration a) (ea_metrics a) (ea_timestamp a) =
      exec_signing_message H (ea_job_id b) (ea_checkpoints b) (ea_duration b) (ea_metrics b) (ea_timestamp b)"
    and "list_all (\<lambda>c. length (cp_hash c) = 32) (ea_checkpoints a)" and "list_all (\<lambda>c. length (cp_hash c) = 32) (ea_checkpoints b)"
  shows "exec_content a = exec_content b \<or> attested_bytes a \<noteq> attested_bytes b \<and> H (attested_bytes a) = H (attested_bytes b)"
proof (cases "attested_bytes a = attested_bytes b")
  case True
  then show ?thesis using exec_bytes_inj assms(2,3) by blast
next
  case False
  then show ?thesis using assms(1) unfolding exec_signing_message_def by blast
qed

text \<open>Building a chain of checkpoints from data, as a job does.\<close>

fun add_all :: "hash_fun \<Rightarrow> bool \<Rightarrow> (int \<times> u8 list) list \<Rightarrow> checkpoint_chain \<Rightarrow> checkpoint_chain option" where
  "add_all H checks [] cs = Some cs"
| "add_all H checks ((now, d) # ds) cs = Option.bind (add_checkpoint H checks now d cs) (add_all H checks ds)"

definition build_chain :: "hash_fun \<Rightarrow> bool \<Rightarrow> int \<Rightarrow> u8 list \<Rightarrow> (int \<times> u8 list) list \<Rightarrow> checkpoint_chain option" where
  "build_chain H checks now d ds = add_all H checks ds (checkpoint_chain_new H now d)"

text \<open>A chain from a checkpoint on, with the data of each.\<close>

fun links :: "hash_fun \<Rightarrow> nat \<Rightarrow> checkpoint \<Rightarrow> checkpoint list \<Rightarrow> u8 list list \<Rightarrow> bool" where
  "links H n p [] [] = True"
| "links H n p (c # cs) (d # ds) = (cp_sequence c = of_nat (Suc n) \<and> cp_hash c = H (cp_hash p @ d) \<and> links H (Suc n) c cs ds)"
| "links H n p _ _ = False"

lemma seq_next:
  assumes "n < 18446744073709551615"
  shows "add_op checks (of_nat n :: u64) 1 = Some (1 + of_nat n)"
proof -
  have "unat (of_nat n :: u64) = n" using assms by (simp add: unat_of_nat)
  then have "unat (of_nat n :: u64) + unat (1 :: u64) < 2 ^ LENGTH(64)" using assms by simp
  then have "add_op checks (of_nat n :: u64) 1 = Some (of_nat n + 1)" by (simp only: add_op_def checked_add_def if_True if_cancel)
  then show ?thesis by (simp only: add.commute)
qed

lemma links_snoc:
  "links H n p cs ds \<Longrightarrow> cp_sequence c = of_nat (Suc (n + length cs)) \<Longrightarrow> cp_hash c = H (cp_hash (last (p # cs)) @ d) \<Longrightarrow>
   links H n p (cs @ [c]) (ds @ [d])"
  by (induction H n p cs ds rule: links.induct) auto

lemma links_last: "links H n p cs ds \<Longrightarrow> cp_sequence p = of_nat n \<Longrightarrow> cp_sequence (last (p # cs)) = of_nat (n + length cs)"
  by (induction H n p cs ds rule: links.induct) auto

lemma links_length: "links H n p cs ds \<Longrightarrow> length cs = length ds"
  by (induction H n p cs ds rule: links.induct) auto

lemma links_sequences: "links H n p cs ds \<Longrightarrow> bad_sequence (Suc n) cs = None"
  by (induction H n p cs ds rule: links.induct) auto

lemma links_check:
  "links H n p cs ds \<Longrightarrow> cp_sequence p = of_nat n \<Longrightarrow> n + length cs < 2 ^ 64 \<Longrightarrow>
   check_links H checks k p (zip cs ds) = Some (Inr ())"
proof (induction H n p cs ds arbitrary: k rule: links.induct)
  case (2 H n p c cs d ds)
  then have "add_op checks (of_nat n :: u64) 1 = Some (1 + of_nat n)" by (intro seq_next) simp
  with 2 show ?case by (simp add: verify_chain_def)
qed auto

lemma add_all_links:
  assumes "links H 0 p cs ds" and "cp_sequence p = 0" and "length cs + length es < 2 ^ 64"
  shows "\<exists>cs'. add_all H checks es (p # cs) = Some (p # cs') \<and> links H 0 p cs' (ds @ map snd es) \<and> length cs' = length cs + length es"
  using assms
proof (induction es arbitrary: cs ds)
  case (Cons e es)
  obtain now d where e: "e = (now, d)" by (cases e)
  let ?c = "\<lparr>cp_sequence = of_nat (Suc (length cs)), cp_hash = H (cp_hash (last (p # cs)) @ d), cp_timestamp = now\<rparr>"
  have "cp_sequence (last (p # cs)) = of_nat (length cs)" using links_last [OF Cons.prems(1)] Cons.prems(2) by simp
  then have "add_checkpoint H checks now d (p # cs) = Some (p # (cs @ [?c]))"
    using Cons.prems(3) seq_next [of "length cs" checks] by (simp add: add_checkpoint_def chain_from_def del: last.simps)
  moreover have "links H 0 p (cs @ [?c]) (ds @ [d])" using Cons.prems(1) by (intro links_snoc) simp_all
  ultimately show ?case using Cons.IH [of "cs @ [?c]" "ds @ [d]"] Cons.prems e by auto
qed auto

text \<open>
  C23. An honest proof is accepted: for the checkpoints a job builds from its data, fewer than \<open>2 ^ 64\<close>, signing succeeds, and verification with the
  same data, under a scheme that accepts its own signatures, reports the number of checkpoints and the final hash.
\<close>

theorem execution_proof_roundtrip:
  assumes sound: "\<And>m. verify m (sign m)" and "length ds < 2 ^ 64 - 1"
  shows "\<exists>cps a. build_chain H checks t0 d ds = Some cps \<and> exec_create_and_sign H sign now j cps dur m = Inr a \<and>
    verify_execution_with_data H checks verify a (d # map snd ds) =
      Some (Inr \<lparr>vr_valid = True, vr_details = ExecutionDetails (Suc (length ds)) (Some (cp_hash (last cps)))\<rparr>)"
proof -
  let ?p = "checkpoint_new H t0 0 d"
  have p: "cp_sequence ?p = of_nat 0" "cp_hash ?p = H d" by (simp_all add: checkpoint_new_def)
  obtain cs where b: "build_chain H checks t0 d ds = Some (?p # cs)" and l: "links H 0 ?p cs (map snd ds)" "length cs = length ds"
    using add_all_links [of H ?p "[]" "[]" ds checks] assms(2) p by (auto simp: build_chain_def checkpoint_chain_new_def)
  have seq: "bad_sequence 0 (?p # cs) = None" using links_sequences [OF l(1)] p by simp
  have chk: "check_links H checks 1 ?p (zip cs (map snd ds)) = Some (Inr ())"
    using links_check [OF l(1) p(1)] l(2) assms(2) by simp
  let ?a = "\<lparr>ea_job_id = j, ea_checkpoints = ?p # cs, ea_duration = dur, ea_metrics = m, ea_timestamp = now,
      ea_signature = sign (exec_signing_message H j (?p # cs) dur m now)\<rparr>"
  have sg: "exec_create_and_sign H sign now j (?p # cs) dur m = Inr ?a"
    using seq by (simp add: exec_create_and_sign_def del: bad_sequence.simps)
  have "verify_execution_attestation H verify ?a = Inr (exec_result ?a)"
    using seq by (simp add: verify_execution_attestation_def exec_verify_signature_def sound del: bad_sequence.simps)
  then have "verify_execution_with_data H checks verify ?a (d # map snd ds) =
      Some (Inr \<lparr>vr_valid = True, vr_details = ExecutionDetails (Suc (length ds)) (Some (cp_hash (last (?p # cs))))\<rparr>)"
    using chk p l(2) by (simp add: verify_execution_with_data_def exec_result_def checkpoint_count_def final_checkpoint_hash_def)
  with b sg show ?thesis by blast
qed

section \<open>Instances and gaps\<close>

definition pad_hash :: hash_fun where
  "pad_hash x = take 32 (x @ replicate 32 0)"

definition demo_gpu :: attested_gpu where
  "demo_gpu = \<lparr>ag_vendor = Nvidia, ag_model = ''RTX'', ag_vram_mb = 24576, ag_compute_capability = ''8.9''\<rparr>"

definition demo_attestation :: "attested_gpu list \<Rightarrow> hardware_attestation" where
  "demo_attestation gs = \<lparr>ha_node_id = 7, ha_gpus = gs, ha_timestamp = 0, ha_expires_at = 10, ha_signature = replicate 64 1\<rparr>"

text \<open>A hash of 32 bytes that keeps the end of its input, so it tells the two entries below apart.\<close>

definition tail_hash :: hash_fun where
  "tail_hash x = pad_hash (rev x)"

definition demo_chain :: "attested_gpu list \<Rightarrow> attestation_chain" where
  "demo_chain gs = snd (add_attestation_unchecked tail_hash (\<lambda>_. []) 5 (demo_attestation gs) True
     (snd (add_attestation_unchecked tail_hash (\<lambda>_. []) 3 (demo_attestation gs) False (chain_new 7))))"

lemma demo_chain_facts:
  "verify_integrity tail_hash (demo_chain gs) = Inr ()" "list_all entry_sized (ac_entries (demo_chain gs))"
  "latest_hash tail_hash (demo_chain gs) = latest_hash tail_hash (demo_chain [])" "length (ac_entries (demo_chain gs)) = 2"
proof -
  have "verify_integrity tail_hash (chain_new 7) = Inr ()" by (simp add: verify_integrity_def chain_new_def)
  then show "verify_integrity tail_hash (demo_chain gs) = Inr ()" unfolding demo_chain_def by (intro unchecked_integrity)
qed (simp_all add: demo_chain_def add_attestation_unchecked_def chain_new_def demo_attestation_def latest_hash_def compute_hash_def
    entry_bytes_def entry_sized_def tail_hash_def pad_hash_def)

lemma demo_chain_collision_free:
  "inj_on tail_hash (entry_bytes ` (set (ac_entries (demo_chain gs)) \<union> set (ac_entries (demo_chain []))))"
  by (auto simp: inj_on_def demo_chain_def add_attestation_unchecked_def chain_new_def demo_attestation_def latest_hash_def
      compute_hash_def entry_bytes_def tail_hash_def pad_hash_def)

theorem chain_tamper_evident_witness:
  "map entry_content (ac_entries (demo_chain [demo_gpu])) = map entry_content (ac_entries (demo_chain []))"
  by (rule chain_tamper_evident [OF demo_chain_facts(1) demo_chain_facts(1) demo_chain_facts(3) demo_chain_facts(2) demo_chain_facts(2)
      demo_chain_collision_free])

theorem verifications_spaced_witness:
  "\<exists>c. add_run pad_hash (\<lambda>_. []) [(0, 1, demo_attestation [], False), (5, 6, demo_attestation [], True),
       (7200000000001, 7200000000002, demo_attestation [], True)] (chain_with_rate_limit 7 rate_limit_default) = Some c \<and>
     verify_integrity pad_hash c = Inr ()"
  using verifications_spaced [of rate_limit_default 0 "[(0, 1, demo_attestation [], False), (5, 6, demo_attestation [], True),
       (7200000000001, 7200000000002, demo_attestation [], True)]" pad_hash "\<lambda>_. []" 7]
  by (auto simp: config_ok_def rate_limit_default_def)

definition demo_execution :: "int \<Rightarrow> execution_attestation" where
  "demo_execution t = \<lparr>ea_job_id = 1, ea_checkpoints = [\<lparr>cp_sequence = 0, cp_hash = replicate 32 5, cp_timestamp = t\<rparr>], ea_duration = 9,
     ea_metrics = \<lparr>em_gpu_utilization = 0, em_memory_used_mb = 1, em_compute_ops = 2\<rparr>, ea_timestamp = t, ea_signature = []\<rparr>"

theorem execution_signature_binds_witness:
  "exec_content (demo_execution 3) = exec_content (demo_execution 4)"
  using execution_signature_binds [of pad_hash "demo_execution 3" "demo_execution 4"]
  by (simp add: demo_execution_def exec_signing_message_def exec_bytes_def checkpoint_bytes_def secs_def)

theorem execution_proof_roundtrip_witness:
  "\<exists>cps a. build_chain pad_hash True 0 [1] [(1, [2])] = Some cps \<and>
     exec_create_and_sign pad_hash (\<lambda>m. m) 2 1 cps 9 (ea_metrics (demo_execution 0)) = Inr a \<and>
     verify_execution_with_data pad_hash True (\<lambda>m s. s = m) a [[1], [2]] =
       Some (Inr \<lparr>vr_valid = True, vr_details = ExecutionDetails (Suc (Suc 0)) (Some (cp_hash (last cps)))\<rparr>)"
  using execution_proof_roundtrip [of "\<lambda>m s. s = m" "\<lambda>m. m" "[(1, [2])]" pad_hash True 0 "[1]" 2 1 9 "ea_metrics (demo_execution 0)"]
  by simp

text \<open>
  The signed bytes of a hardware attestation do not separate the fields of a GPU: a signature for a card with 24 GiB is a
  signature for a card whose model name ends in a zero byte and whose memory has the shifted bytes.
\<close>

definition forged_gpu :: attested_gpu where
  "forged_gpu = \<lparr>ag_vendor = Nvidia, ag_model = ''RTX'' @ [CHR 0x00], ag_vram_mb = 4035225266123964512, ag_compute_capability = ''.9''\<rparr>"

lemma forged_gpu_bytes: "gpu_bytes forged_gpu = gpu_bytes demo_gpu"
  by code_simp

lemma hardware_signature_ambiguous:
  "hw_verify_signature H verify (a\<lparr>ha_gpus := [forged_gpu]\<rparr>) = hw_verify_signature H verify (a\<lparr>ha_gpus := [demo_gpu]\<rparr>)"
  "ag_vram_mb demo_gpu < ag_vram_mb forged_gpu"
  by (simp_all add: hw_verify_signature_def hw_signing_message_def forged_gpu_bytes) (simp add: demo_gpu_def forged_gpu_def)

text \<open>The integrity check does not protect the outcome of the last entry.\<close>

lemma last_outcome_unprotected:
  "verify_integrity H (c\<lparr>ac_entries := es @ [e]\<rparr>) = Inr () \<Longrightarrow>
   verify_integrity H (c\<lparr>ac_entries := es @ [e\<lparr>ae_verification_passed := True\<rparr>]\<rparr>) = Inr ()"
  by (simp add: verify_integrity_def check_entries_append)

text \<open>An interval above \<open>i64::MAX / 1000\<close> seconds makes every later check panic.\<close>

lemma huge_interval_panics:
  "check_rate_limit now ((demo_chain [])\<lparr>ac_rate_limit_config := \<lparr>min_verification_interval_secs = 18446744073709551615,
     failed_verification_cooldown_secs = 18446744073709551615\<rparr>\<rparr>) = None"
  by (simp add: demo_chain_def add_attestation_unchecked_def chain_new_def demo_attestation_def check_rate_limit_def cooldown_check_def
      too_early_def duration_seconds_def)

text \<open>Signing refuses an execution proof without checkpoints, verification accepts one.\<close>

lemma empty_proof_accepted:
  "exec_create_and_sign H sign now j [] d m = Inl (InvalidExecutionProof ''at least one checkpoint is required'')"
  "(\<And>x. verify x (sign x)) \<Longrightarrow> is_ok (verify_execution_attestation H verify \<lparr>ea_job_id = j, ea_checkpoints = [], ea_duration = d,
     ea_metrics = m, ea_timestamp = now, ea_signature = sign (exec_signing_message H j [] d m now)\<rparr>)"
  by (simp_all add: exec_create_and_sign_def verify_execution_attestation_def exec_verify_signature_def)

end
