(* ===== verification/Metric_Store.thy ===== *)
theory Metric_Store
  imports Workload_Spec
begin

text \<open>
  In-memory metrics, \<open>crates/claw-metrics/src/types.rs\<close>, \<open>storage.rs\<close>, \<open>query.rs\<close> and \<open>error.rs\<close>: validated names, time ranges, aggregation,
  series of points with retention, and the query helpers. Timestamps are 64-bit integers in milliseconds, written as integers with the
  wrap-around spelled out; an overflow in a checked build is \<^const>\<open>None\<close>. Floating-point arithmetic is a parameter, and so is the binary
  search of the standard library, whose result among equal keys is unspecified.
\<close>

section \<open>Integers\<close>

definition wrap_i64 :: "int \<Rightarrow> int" where
  "wrap_i64 x = (x + 9223372036854775808) mod 18446744073709551616 - 9223372036854775808"

definition in_i64 :: "int \<Rightarrow> bool" where
  "in_i64 x \<longleftrightarrow> - 9223372036854775808 \<le> x \<and> x \<le> 9223372036854775807"

definition op_i64 :: "bool \<Rightarrow> int \<Rightarrow> int option" where
  "op_i64 checks x = (if in_i64 x then Some x else if checks then None else Some (wrap_i64 x))"

section \<open>Types\<close>

datatype metrics_error =
    InvalidMetricName string
  | InvalidTimeRange int int
  | MetricNotFound string
  | StorageError string
  | CollectionError string
  | InsufficientData string

record metric_point =
  pt_timestamp :: int
  pt_value :: f64
  pt_labels :: "(string, string) hashmap"

definition point_new :: "int \<Rightarrow> f64 \<Rightarrow> metric_point" where
  "point_new t v = \<lparr>pt_timestamp = t, pt_value = v, pt_labels = []\<rparr>"

definition point_with_labels :: "int \<Rightarrow> f64 \<Rightarrow> (string, string) hashmap \<Rightarrow> metric_point" where
  "point_with_labels t v ls = \<lparr>pt_timestamp = t, pt_value = v, pt_labels = ls\<rparr>"

definition point_label :: "string \<Rightarrow> string \<Rightarrow> metric_point \<Rightarrow> metric_point" where
  "point_label k v p = p\<lparr>pt_labels := hm_insert k v (pt_labels p)\<rparr>"

type_synonym metric_name = string

definition MAX_LENGTH :: nat where "MAX_LENGTH = 256"

definition metric_name_new :: "string \<Rightarrow> metrics_error + metric_name" where
  "metric_name_new name =
     (case name of
        [] \<Rightarrow> Inl (InvalidMetricName ''metric name cannot be empty'')
      | c # cs \<Rightarrow>
          if MAX_LENGTH < length name
          then Inl (InvalidMetricName (''metric name exceeds maximum length of '' @ show_nat MAX_LENGTH @ '' characters''))
          else if \<not> ascii_alphabetic c \<and> c \<noteq> CHR ''_''
          then Inl (InvalidMetricName ''metric name must start with a letter or underscore'')
          else (case find (\<lambda>c. \<not> ascii_alphanumeric c \<and> c \<noteq> CHR ''_'' \<and> c \<noteq> CHR '':'') name of
                  Some x \<Rightarrow> Inl (InvalidMetricName (''invalid character '' @ [CHR 0x27, x, CHR 0x27] @ '' in metric name''))
                | None \<Rightarrow> Inr name))"

record time_range =
  tr_start :: int
  tr_end :: int

definition time_range_new :: "int \<Rightarrow> int \<Rightarrow> metrics_error + time_range" where
  "time_range_new a b = (if b < a then Inl (InvalidTimeRange a b) else Inr \<lparr>tr_start = a, tr_end = b\<rparr>)"

definition last_millis :: "bool \<Rightarrow> int \<Rightarrow> int \<Rightarrow> time_range option" where
  "last_millis checks now ms = map_option (\<lambda>a. \<lparr>tr_start = a, tr_end = now\<rparr>) (op_i64 checks (now - ms))"

definition last_seconds :: "bool \<Rightarrow> int \<Rightarrow> int \<Rightarrow> time_range option" where
  "last_seconds checks now s = Option.bind (op_i64 checks (s * 1000)) (last_millis checks now)"

definition last_minutes :: "bool \<Rightarrow> int \<Rightarrow> int \<Rightarrow> time_range option" where
  "last_minutes checks now m = Option.bind (op_i64 checks (m * 60)) (last_seconds checks now)"

definition last_hours :: "bool \<Rightarrow> int \<Rightarrow> int \<Rightarrow> time_range option" where
  "last_hours checks now h = Option.bind (op_i64 checks (h * 60)) (last_minutes checks now)"

definition duration_millis :: "bool \<Rightarrow> time_range \<Rightarrow> int option" where
  "duration_millis checks r = op_i64 checks (tr_end r - tr_start r)"

definition range_contains :: "time_range \<Rightarrow> int \<Rightarrow> bool" where
  "range_contains r t \<longleftrightarrow> tr_start r \<le> t \<and> t \<le> tr_end r"

record float_ops =
  fl_add :: "f64 \<Rightarrow> f64 \<Rightarrow> f64"
  fl_sub :: "f64 \<Rightarrow> f64 \<Rightarrow> f64"
  fl_mul :: "f64 \<Rightarrow> f64 \<Rightarrow> f64"
  fl_div :: "f64 \<Rightarrow> f64 \<Rightarrow> f64"
  fl_of_int :: "int \<Rightarrow> f64"
  fl_to_u64 :: "f64 \<Rightarrow> u64"

text \<open>\<open>f64::min\<close> and \<open>f64::max\<close> ignore what is not a number.\<close>

definition f64_min :: "f64 \<Rightarrow> f64 \<Rightarrow> f64" where
  "f64_min a b = (if a = NaN then b else if b = NaN then a else if f64_less b a then b else a)"

definition f64_max :: "f64 \<Rightarrow> f64 \<Rightarrow> f64" where
  "f64_max a b = (if a = NaN then b else if b = NaN then a else if f64_less a b then b else a)"

datatype aggregation = AggSum | AggAvg | AggMin | AggMax | AggLast | AggCount

definition sum_values :: "float_ops \<Rightarrow> f64 list \<Rightarrow> f64" where
  "sum_values F vs = fold (\<lambda>v s. fl_add F s v) vs (Fin 0)"

fun agg_apply :: "float_ops \<Rightarrow> aggregation \<Rightarrow> f64 list \<Rightarrow> f64 option" where
  "agg_apply F a [] = None"
| "agg_apply F AggSum (v # vs) = Some (sum_values F (v # vs))"
| "agg_apply F AggAvg (v # vs) = Some (fl_div F (sum_values F (v # vs)) (fl_of_int F (int (length (v # vs)))))"
| "agg_apply F AggMin (v # vs) = Some (fold (\<lambda>x m. f64_min m x) vs v)"
| "agg_apply F AggMax (v # vs) = Some (fold (\<lambda>x m. f64_max m x) vs v)"
| "agg_apply F AggLast (v # vs) = Some (last (v # vs))"
| "agg_apply F AggCount (v # vs) = Some (fl_of_int F (int (length (v # vs))))"

section \<open>Storage\<close>

record metric_store =
  ms_retention_millis :: int
  ms_data :: "(metric_name, metric_point list) hashmap"

text \<open>The retention is a duration in nanoseconds, cast from 128 bits.\<close>

definition store_new :: "nat \<Rightarrow> metric_store" where
  "store_new retention = \<lparr>ms_retention_millis = wrap_i64 (int (retention div 1000000)), ms_data = []\<rparr>"

definition store_default :: metric_store where
  "store_default = store_new (3600 * 1000000000)"

text \<open>\<open>binary_search_by_key\<close>: the index of an equal key, or the place for a new one.\<close>

type_synonym searcher = "int list \<Rightarrow> int \<Rightarrow> nat + nat"

definition place_of :: "searcher \<Rightarrow> int list \<Rightarrow> int \<Rightarrow> nat" where
  "place_of search ks k = (case search ks k of Inr i \<Rightarrow> i | Inl i \<Rightarrow> i)"

definition insert_at :: "nat \<Rightarrow> 'a \<Rightarrow> 'a list \<Rightarrow> 'a list" where
  "insert_at i x xs = take i xs @ x # drop i xs"

definition push_point :: "searcher \<Rightarrow> int \<Rightarrow> metric_name \<Rightarrow> metric_point \<Rightarrow> (metric_name, metric_point list) hashmap \<Rightarrow> (metric_name, metric_point list) hashmap" where
  "push_point search cutoff name p data =
     (let ps = filter (\<lambda>q. cutoff \<le> pt_timestamp q) (case hm_get data name of None \<Rightarrow> [] | Some ps \<Rightarrow> ps);
          pos = place_of search (map pt_timestamp ps) (pt_timestamp p)
      in hm_insert name (insert_at pos p ps) data)"

definition store_push :: "searcher \<Rightarrow> bool \<Rightarrow> int \<Rightarrow> metric_name \<Rightarrow> metric_point \<Rightarrow> metric_store \<Rightarrow> metric_store option" where
  "store_push search checks now name p st =
     map_option (\<lambda>cutoff. st\<lparr>ms_data := push_point search cutoff name p (ms_data st)\<rparr>) (op_i64 checks (now - ms_retention_millis st))"

definition store_push_batch :: "searcher \<Rightarrow> bool \<Rightarrow> int \<Rightarrow> (metric_name \<times> metric_point) list \<Rightarrow> metric_store \<Rightarrow> metric_store option" where
  "store_push_batch search checks now ms st =
     map_option (\<lambda>cutoff. st\<lparr>ms_data := fold (\<lambda>(name, p) d. push_point search cutoff name p d) ms (ms_data st)\<rparr>)
       (op_i64 checks (now - ms_retention_millis st))"

definition aggregate_points :: "float_ops \<Rightarrow> aggregation option \<Rightarrow> metric_point list \<Rightarrow> metric_point list" where
  "aggregate_points F agg ps =
     (case agg of
        Some a \<Rightarrow>
          (case agg_apply F a (map pt_value ps) of
             None \<Rightarrow> []
           | Some v \<Rightarrow> [point_new (pt_timestamp (last ps)) v])
      | None \<Rightarrow> ps)"

definition store_query :: "float_ops \<Rightarrow> metric_store \<Rightarrow> metric_name \<Rightarrow> time_range \<Rightarrow> aggregation option \<Rightarrow> metrics_error + metric_point list" where
  "store_query F st name r agg =
     (case hm_get (ms_data st) name of
        None \<Rightarrow> Inl (MetricNotFound name)
      | Some ps \<Rightarrow> Inr (aggregate_points F agg (filter (\<lambda>p. range_contains r (pt_timestamp p)) ps)))"

definition metrics_list :: "metric_store \<Rightarrow> metric_name list" where
  "metrics_list st = map fst (ms_data st)"

definition metric_count :: "metric_store \<Rightarrow> metric_name \<Rightarrow> nat" where
  "metric_count st name = (case hm_get (ms_data st) name of None \<Rightarrow> 0 | Some ps \<Rightarrow> length ps)"

definition remove_metric :: "metric_name \<Rightarrow> metric_store \<Rightarrow> bool \<times> metric_store" where
  "remove_metric name st = (hm_get (ms_data st) name \<noteq> None, st\<lparr>ms_data := hm_remove name (ms_data st)\<rparr>)"

definition store_clear :: "metric_store \<Rightarrow> metric_store" where
  "store_clear st = st\<lparr>ms_data := []\<rparr>"

definition expire_old_data :: "bool \<Rightarrow> int \<Rightarrow> metric_store \<Rightarrow> metric_store option" where
  "expire_old_data checks now st =
     map_option (\<lambda>cutoff. st\<lparr>ms_data := hm_retain (\<lambda>_ ps. ps \<noteq> [])
         (map (\<lambda>(n, ps). (n, filter (\<lambda>q. cutoff \<le> pt_timestamp q) ps)) (ms_data st))\<rparr>)
       (op_i64 checks (now - ms_retention_millis st))"

section \<open>Query helpers\<close>

definition duration_to_millis :: "nat \<Rightarrow> int" where
  "duration_to_millis d = wrap_i64 (int (d div 1000000))"

definition first_value :: "metrics_error + metric_point list \<Rightarrow> f64 option" where
  "first_value r = (case r of Inr (p # _) \<Rightarrow> Some (pt_value p) | _ \<Rightarrow> None)"

definition last_value :: "float_ops \<Rightarrow> bool \<Rightarrow> int \<Rightarrow> metric_store \<Rightarrow> metric_name \<Rightarrow> f64 option option" where
  "last_value F checks now st name =
     map_option (\<lambda>r. first_value (store_query F st name r (Some AggLast))) (last_hours checks now 24)"

definition value_over :: "float_ops \<Rightarrow> bool \<Rightarrow> int \<Rightarrow> aggregation \<Rightarrow> metric_store \<Rightarrow> metric_name \<Rightarrow> nat \<Rightarrow> f64 option option" where
  "value_over F checks now agg st name d =
     map_option (\<lambda>r. first_value (store_query F st name r (Some agg))) (last_millis checks now (duration_to_millis d))"

definition average_over where "average_over F checks now st name d = value_over F checks now AggAvg st name d"
definition max_over where "max_over F checks now st name d = value_over F checks now AggMax st name d"
definition min_over where "min_over F checks now st name d = value_over F checks now AggMin st name d"
definition sum_over where "sum_over F checks now st name d = value_over F checks now AggSum st name d"

definition count_over :: "float_ops \<Rightarrow> bool \<Rightarrow> int \<Rightarrow> metric_store \<Rightarrow> metric_name \<Rightarrow> nat \<Rightarrow> u64 option option" where
  "count_over F checks now st name d = map_option (map_option (fl_to_u64 F)) (value_over F checks now AggCount st name d)"

definition f64_le :: "f64 \<Rightarrow> f64 \<Rightarrow> bool" where
  "f64_le a b \<longleftrightarrow> f64_less a b \<or> (a = b \<and> a \<noteq> NaN)"

text \<open>The difference of the timestamps is taken in 64 bits before it is converted.\<close>

definition rate :: "float_ops \<Rightarrow> bool \<Rightarrow> int \<Rightarrow> metric_store \<Rightarrow> metric_name \<Rightarrow> nat \<Rightarrow> f64 option option" where
  "rate F checks now st name d =
     Option.bind (last_millis checks now (duration_to_millis d)) (\<lambda>r.
       case store_query F st name r None of
         Inl _ \<Rightarrow> Some None
       | Inr ps \<Rightarrow>
           if length ps < 2 then Some None
           else map_option (\<lambda>diff.
               let secs = fl_div F (fl_of_int F diff) (Fin 1000)
               in if f64_le secs (Fin 0) then None
                  else Some (fl_div F (fl_sub F (pt_value (last ps)) (pt_value (hd ps))) secs))
             (op_i64 checks (pt_timestamp (last ps) - pt_timestamp (hd ps))))"

fun f64_abs :: "f64 \<Rightarrow> f64" where
  "f64_abs (Fin x) = Fin \<bar>x\<bar>"
| "f64_abs Neg_inf = Pos_inf"
| "f64_abs x = x"

definition percentage_change :: "float_ops \<Rightarrow> bool \<Rightarrow> int \<Rightarrow> metric_store \<Rightarrow> metric_name \<Rightarrow> nat \<Rightarrow> f64 option option" where
  "percentage_change F checks now st name d =
     map_option (\<lambda>r.
       case store_query F st name r None of
         Inl _ \<Rightarrow> None
       | Inr ps \<Rightarrow>
           if length ps < 2 then None
           else if f64_less (f64_abs (pt_value (hd ps))) (Fin (1 / 4503599627370496)) then None
           else Some (fl_mul F (fl_div F (fl_sub F (pt_value (last ps)) (pt_value (hd ps))) (pt_value (hd ps))) (Fin 100)))
       (last_millis checks now (duration_to_millis d))"

definition has_label :: "string \<times> string \<Rightarrow> metric_point \<Rightarrow> bool" where
  "has_label kv p \<longleftrightarrow> hm_get (pt_labels p) (fst kv) = Some (snd kv)"

definition points_with_filter ::
  "float_ops \<Rightarrow> metric_store \<Rightarrow> metric_name \<Rightarrow> time_range \<Rightarrow> (string \<times> string) option \<Rightarrow> metrics_error + metric_point list" where
  "points_with_filter F st name r flt =
     (case store_query F st name r None of
        Inl e \<Rightarrow> Inl e
      | Inr ps \<Rightarrow> Inr (case flt of Some kv \<Rightarrow> filter (has_label kv) ps | None \<Rightarrow> ps))"

record query_builder =
  qb_name :: metric_name
  qb_range :: "time_range option"
  qb_aggregation :: "aggregation option"
  qb_label_filters :: "(string \<times> string) list"

definition query_builder_new :: "metric_name \<Rightarrow> query_builder" where
  "query_builder_new name = \<lparr>qb_name = name, qb_range = None, qb_aggregation = None, qb_label_filters = []\<rparr>"

definition qb_with_range :: "time_range \<Rightarrow> query_builder \<Rightarrow> query_builder" where
  "qb_with_range r q = q\<lparr>qb_range := Some r\<rparr>"

definition qb_last :: "bool \<Rightarrow> int \<Rightarrow> nat \<Rightarrow> query_builder \<Rightarrow> query_builder option" where
  "qb_last checks now d q = map_option (\<lambda>r. q\<lparr>qb_range := Some r\<rparr>) (last_millis checks now (duration_to_millis d))"

definition qb_aggregate :: "aggregation \<Rightarrow> query_builder \<Rightarrow> query_builder" where
  "qb_aggregate a q = q\<lparr>qb_aggregation := Some a\<rparr>"

definition qb_filter :: "string \<Rightarrow> string \<Rightarrow> query_builder \<Rightarrow> query_builder" where
  "qb_filter k v q = q\<lparr>qb_label_filters := qb_label_filters q @ [(k, v)]\<rparr>"

definition qb_execute :: "float_ops \<Rightarrow> bool \<Rightarrow> int \<Rightarrow> metric_store \<Rightarrow> query_builder \<Rightarrow> (metrics_error + metric_point list) option" where
  "qb_execute F checks now st q =
     map_option (\<lambda>r.
       case store_query F st (qb_name q) r None of
         Inl e \<Rightarrow> Inl e
       | Inr ps \<Rightarrow> Inr (aggregate_points F (qb_aggregation q)
           (filter (\<lambda>p. list_all (\<lambda>kv. has_label kv p) (qb_label_filters q)) ps)))
       (case qb_range q of Some r \<Rightarrow> Some r | None \<Rightarrow> last_hours checks now 1)"

definition qb_value :: "float_ops \<Rightarrow> bool \<Rightarrow> int \<Rightarrow> metric_store \<Rightarrow> query_builder \<Rightarrow> (metrics_error + f64 option) option" where
  "qb_value F checks now st q =
     map_option (\<lambda>r. case r of Inl e \<Rightarrow> Inl e | Inr ps \<Rightarrow> Inr (if ps = [] then None else Some (pt_value (hd ps))))
       (qb_execute F checks now st q)"

section \<open>Names\<close>

text \<open>
  The type of metric names: the constructor accepts exactly the texts of at most 256 characters that begin with a letter or an underscore and
  go on with letters, digits, underscores and colons, and returns them unchanged.
\<close>

theorem metric_names_exact:
  "metric_name_new s = Inr n \<longleftrightarrow>
     n = s \<and> (\<exists>c cs. s = c # cs \<and> length s \<le> 256 \<and> (ascii_alphabetic c \<or> c = CHR ''_'') \<and>
       list_all (\<lambda>c. ascii_alphanumeric c \<or> c = CHR ''_'' \<or> c = CHR '':'') s)"
proof (cases s)
  case (Cons c cs)
  have "find (\<lambda>c. \<not> ascii_alphanumeric c \<and> c \<noteq> CHR ''_'' \<and> c \<noteq> CHR '':'') s = None \<longleftrightarrow>
      list_all (\<lambda>c. ascii_alphanumeric c \<or> c = CHR ''_'' \<or> c = CHR '':'') s"
    by (auto simp: find_None_iff list_all_iff)
  then show ?thesis
    by (cases "find (\<lambda>c. \<not> ascii_alphanumeric c \<and> c \<noteq> CHR ''_'' \<and> c \<noteq> CHR '':'') s")
      (auto simp: metric_name_new_def Cons MAX_LENGTH_def)
qed (simp add: metric_name_new_def)

section \<open>Series stay sorted\<close>

text \<open>What the standard library documents of the search in a sorted list.\<close>

locale key_search =
  fixes search :: searcher
  assumes found: "sorted ks \<Longrightarrow> search ks k = Inr i \<Longrightarrow> i < length ks \<and> ks ! i = k"
    and missing: "sorted ks \<Longrightarrow> search ks k = Inl i \<Longrightarrow>
      i \<le> length ks \<and> (\<forall>j < i. ks ! j < k) \<and> (\<forall>j. i \<le> j \<longrightarrow> j < length ks \<longrightarrow> k < ks ! j)"
begin

lemma place_between:
  assumes "sorted ks"
  shows "place_of search ks k \<le> length ks" "\<And>x. x \<in> set (take (place_of search ks k) ks) \<Longrightarrow> x \<le> k" "\<And>x. x \<in> set (drop (place_of search ks k) ks) \<Longrightarrow> k \<le> x"
proof -
  have "place_of search ks k \<le> length ks \<and> (\<forall>j < place_of search ks k. ks ! j \<le> k) \<and> (\<forall>j. place_of search ks k \<le> j \<longrightarrow> j < length ks \<longrightarrow> k \<le> ks ! j)"
  proof (cases "search ks k")
    case (Inl i)
    with missing [OF assms Inl] show ?thesis by (auto simp: place_of_def intro: less_imp_le)
  next
    case (Inr i)
    from found [OF assms Inr] have i: "i < length ks" "ks ! i = k" by auto
    have "ks ! j \<le> k" if "j < i" for j using sorted_nth_mono [OF assms, of j i] that i by simp
    moreover have "k \<le> ks ! j" if "i \<le> j" "j < length ks" for j using sorted_nth_mono [OF assms, of i j] that i by simp
    ultimately show ?thesis using i by (simp add: place_of_def Inr)
  qed
  then show "place_of search ks k \<le> length ks" "\<And>x. x \<in> set (take (place_of search ks k) ks) \<Longrightarrow> x \<le> k" "\<And>x. x \<in> set (drop (place_of search ks k) ks) \<Longrightarrow> k \<le> x"
    by (auto simp: in_set_conv_nth)
qed

lemma insert_sorted:
  assumes "sorted (map pt_timestamp ps)"
  shows "sorted (map pt_timestamp (insert_at (place_of search (map pt_timestamp ps) (pt_timestamp p)) p ps))"
proof -
  let ?ks = "map pt_timestamp ps" and ?k = "pt_timestamp p"
  have "map pt_timestamp (insert_at (place_of search ?ks ?k) p ps) = take (place_of search ?ks ?k) ?ks @ ?k # drop (place_of search ?ks ?k) ?ks"
    by (simp add: insert_at_def take_map drop_map)
  moreover have "x \<le> y" if "x \<in> set (take (place_of search ?ks ?k) ?ks)" "y \<in> set (drop (place_of search ?ks ?k) ?ks)" for x y
    using place_between(2,3) [OF assms] that by (meson order_trans)
  ultimately show ?thesis
    using assms place_between [OF assms, where k = ?k] by (auto simp: sorted_append sorted_wrt_take sorted_wrt_drop)
qed

end

definition linear_search :: searcher where
  "linear_search ks k =
     (let i = length (takeWhile (\<lambda>x. x < k) ks) in if i < length ks \<and> ks ! i = k then Inr i else Inl i)"

interpretation linear: key_search linear_search
proof
  fix ks :: "int list" and k i
  assume s: "sorted ks"
  let ?i = "length (takeWhile (\<lambda>x. x < k) ks)"
  show "linear_search ks k = Inr i \<Longrightarrow> i < length ks \<and> ks ! i = k" by (auto simp: linear_search_def Let_def split: if_splits)
  assume "linear_search ks k = Inl i"
  then have i: "i = ?i" "\<not> (?i < length ks \<and> ks ! ?i = k)" by (auto simp: linear_search_def Let_def split: if_splits)
  have low: "ks ! j < k" if "j < ?i" for j using that by (metis nth_mem set_takeWhileD takeWhile_nth)
  have high: "k < ks ! j" if "?i \<le> j" "j < length ks" for j
  proof -
    have "\<not> ks ! ?i < k" using that nth_length_takeWhile [of "\<lambda>x. x < k" ks] by auto
    then have "k < ks ! ?i" using i(2) that by auto
    also have "ks ! ?i \<le> ks ! j" using s that by (simp add: sorted_nth_mono)
    finally show ?thesis .
  qed
  show "i \<le> length ks \<and> (\<forall>j < i. ks ! j < k) \<and> (\<forall>j. i \<le> j \<longrightarrow> j < length ks \<longrightarrow> k < ks ! j)"
    using low high i(1) length_takeWhile_le by auto
qed

section \<open>The store against its history\<close>

datatype store_op =
    Push int metric_name metric_point
  | PushBatch int "(metric_name \<times> metric_point) list"
  | RemoveMetric metric_name
  | Clear
  | Expire int

fun store_step :: "searcher \<Rightarrow> bool \<Rightarrow> store_op \<Rightarrow> metric_store \<Rightarrow> metric_store option" where
  "store_step search checks (Push now n p) st = store_push search checks now n p st"
| "store_step search checks (PushBatch now ms) st = store_push_batch search checks now ms st"
| "store_step search checks (RemoveMetric n) st = Some (snd (remove_metric n st))"
| "store_step search checks Clear st = Some (store_clear st)"
| "store_step search checks (Expire now) st = expire_old_data checks now st"

primrec run_store :: "searcher \<Rightarrow> bool \<Rightarrow> store_op list \<Rightarrow> metric_store \<Rightarrow> metric_store option" where
  "run_store search checks [] st = Some st"
| "run_store search checks (x # xs) st = Option.bind (store_step search checks x st) (run_store search checks xs)"

text \<open>The abstract store: a multiset of points per name, without any order.\<close>

type_synonym points = "metric_name \<Rightarrow> metric_point multiset"

definition keep_since :: "int \<Rightarrow> metric_point multiset \<Rightarrow> metric_point multiset" where
  "keep_since cutoff M = filter_mset (\<lambda>q. cutoff \<le> pt_timestamp q) M"

definition add_abs :: "int \<Rightarrow> metric_name \<Rightarrow> metric_point \<Rightarrow> points \<Rightarrow> points" where
  "add_abs cutoff n p M = M(n := add_mset p (keep_since cutoff (M n)))"

fun abs_step :: "int \<Rightarrow> store_op \<Rightarrow> points \<Rightarrow> points" where
  "abs_step ret (Push now n p) M = add_abs (now - ret) n p M"
| "abs_step ret (PushBatch now ms) M = fold (\<lambda>(n, p). add_abs (now - ret) n p) ms M"
| "abs_step ret (RemoveMetric n) M = M(n := {#})"
| "abs_step ret Clear M = (\<lambda>_. {#})"
| "abs_step ret (Expire now) M = (\<lambda>n. keep_since (now - ret) (M n))"

definition history :: "int \<Rightarrow> store_op list \<Rightarrow> points" where
  "history ret ops = fold (abs_step ret) ops (\<lambda>_. {#})"

fun op_time_ok :: "int \<Rightarrow> store_op \<Rightarrow> bool" where
  "op_time_ok ret (Push now n p) = in_i64 (now - ret)"
| "op_time_ok ret (PushBatch now ms) = in_i64 (now - ret)"
| "op_time_ok ret (Expire now) = in_i64 (now - ret)"
| "op_time_ok ret _ = True"

definition abs_data :: "(metric_name, metric_point list) hashmap \<Rightarrow> points" where
  "abs_data d n = (case hm_get d n of None \<Rightarrow> {#} | Some ps \<Rightarrow> mset ps)"

definition data_ok :: "(metric_name, metric_point list) hashmap \<Rightarrow> bool" where
  "data_ok d \<longleftrightarrow> hm_wf d \<and> (\<forall>n ps. hm_get d n = Some ps \<longrightarrow> sorted (map pt_timestamp ps))"

lemma sorted_kept: "sorted (map pt_timestamp ps) \<Longrightarrow> sorted (map pt_timestamp (filter P ps))"
  by (induction ps) auto

lemma mset_insert_at: "mset (insert_at i x xs) = add_mset x (mset xs)"
  by (simp add: insert_at_def) (metis append_take_drop_id mset_append)

lemma retained_map:
  "hm_get (map (\<lambda>(n, ps). (n, f ps)) d) n = map_option f (hm_get d n)" "map fst (map (\<lambda>(n, ps). (n, f ps)) d) = map fst d"
  by (induction d) (auto split: prod.split)

context key_search
begin

lemma push_point_ok:
  assumes "data_ok d"
  shows "data_ok (push_point search cutoff n p d)" "abs_data (push_point search cutoff n p d) = add_abs cutoff n p (abs_data d)"
proof -
  let ?ps = "filter (\<lambda>q. cutoff \<le> pt_timestamp q) (case hm_get d n of None \<Rightarrow> [] | Some ps \<Rightarrow> ps)"
  have "sorted (map pt_timestamp ?ps)" using assms by (auto simp: data_ok_def sorted_kept split: option.split)
  then show "data_ok (push_point search cutoff n p d)"
    using assms insert_sorted [of ?ps p] by (auto simp: data_ok_def push_point_def Let_def)
  show "abs_data (push_point search cutoff n p d) = add_abs cutoff n p (abs_data d)"
    by (rule ext) (auto simp: abs_data_def push_point_def Let_def add_abs_def keep_since_def mset_insert_at split: option.split)
qed

lemma push_all_ok:
  "data_ok d \<Longrightarrow> data_ok (fold (\<lambda>(n, p) d. push_point search cutoff n p d) ms d) \<and>
     abs_data (fold (\<lambda>(n, p) d. push_point search cutoff n p d) ms d) = fold (\<lambda>(n, p). add_abs cutoff n p) ms (abs_data d)"
  by (induction ms arbitrary: d) (auto simp: push_point_ok)

lemma step_ok:
  assumes "data_ok (ms_data st)" and "op_time_ok (ms_retention_millis st) x"
  shows "\<exists>st'. store_step search checks x st = Some st' \<and> data_ok (ms_data st') \<and> ms_retention_millis st' = ms_retention_millis st \<and>
    abs_data (ms_data st') = abs_step (ms_retention_millis st) x (abs_data (ms_data st))"
proof (cases x)
  case (Expire now)
  let ?f = "filter (\<lambda>q. now - ms_retention_millis st \<le> pt_timestamp q)"
  let ?d = "map (\<lambda>(n, ps). (n, ?f ps)) (ms_data st)"
  have wf: "hm_wf ?d" using assms(1) unfolding data_ok_def retained_map(2) by blast
  have "data_ok (hm_retain (\<lambda>_ ps. ps \<noteq> []) ?d)"
    using assms(1) wf by (auto simp: data_ok_def hm_get_retain retained_map(1) sorted_kept split: option.splits if_splits)
  moreover have "abs_data (hm_retain (\<lambda>_ ps. ps \<noteq> []) ?d) = (\<lambda>n. keep_since (now - ms_retention_millis st) (abs_data (ms_data st) n))"
    by (rule ext) (auto simp: abs_data_def hm_get_retain [OF wf] retained_map(1) keep_since_def filter_empty_conv simp flip: mset_filter split: option.split)
  ultimately show ?thesis using assms(2) Expire by (simp add: expire_old_data_def op_i64_def)
next
  case (Push now n p)
  then have "op_i64 checks (now - ms_retention_millis st) = Some (now - ms_retention_millis st)" using assms(2) by (simp add: op_i64_def)
  then show ?thesis using push_point_ok [OF assms(1)] Push by (simp add: store_push_def)
next
  case (PushBatch now ms)
  then have "op_i64 checks (now - ms_retention_millis st) = Some (now - ms_retention_millis st)" using assms(2) by (simp add: op_i64_def)
  then show ?thesis using push_all_ok [OF assms(1)] PushBatch by (simp add: store_push_batch_def)
next
  case (RemoveMetric n)
  then show ?thesis using assms(1) by (auto simp: remove_metric_def data_ok_def abs_data_def fun_eq_iff split: if_splits)
next
  case Clear
  then show ?thesis by (simp add: store_clear_def data_ok_def abs_data_def fun_eq_iff)
qed

lemma run_ok:
  "data_ok (ms_data st) \<Longrightarrow> list_all (op_time_ok (ms_retention_millis st)) ops \<Longrightarrow>
   \<exists>st'. run_store search checks ops st = Some st' \<and> data_ok (ms_data st') \<and>
     abs_data (ms_data st') = fold (abs_step (ms_retention_millis st)) ops (abs_data (ms_data st))"
proof (induction ops arbitrary: st)
  case (Cons x ops)
  then obtain st1 where "store_step search checks x st = Some st1" "data_ok (ms_data st1)" "ms_retention_millis st1 = ms_retention_millis st"
    "abs_data (ms_data st1) = abs_step (ms_retention_millis st) x (abs_data (ms_data st))"
    using step_ok [of st x checks] by auto
  with Cons.IH [of st1] Cons.prems show ?case by auto
qed auto

end

text \<open>
  The store and its history: after any operations whose cutoff fits 64 bits, a query returns exactly the points of the range that
  the pushes, expiries and removals leave for the name, in ascending order of time; a name is unknown only when the history has no point of it.
  Queries filter by the range alone, so a point that has expired since is returned until a push or an expiry run drops it, contrary
  to the constructor's documentation.
\<close>

lemma store_matches_history:
  assumes "key_search search" and "list_all (op_time_ok (ms_retention_millis (store_new ret))) ops"
  shows "\<exists>st. run_store search checks ops (store_new ret) = Some st \<and>
    (\<forall>n r. case store_query F st n r None of
       Inl e \<Rightarrow> e = MetricNotFound n \<and> history (ms_retention_millis (store_new ret)) ops n = {#}
     | Inr ps \<Rightarrow> sorted (map pt_timestamp ps) \<and>
         mset ps = filter_mset (\<lambda>p. range_contains r (pt_timestamp p)) (history (ms_retention_millis (store_new ret)) ops n))"
proof -
  let ?h = "history (ms_retention_millis (store_new ret)) ops"
  have init: "data_ok (ms_data (store_new ret))" "abs_data (ms_data (store_new ret)) = (\<lambda>_. {#})"
    by (auto simp: store_new_def data_ok_def abs_data_def)
  obtain st where run: "run_store search checks ops (store_new ret) = Some st" and ok: "data_ok (ms_data st)"
    and h: "abs_data (ms_data st) = ?h"
    using key_search.run_ok [OF assms(1) init(1) assms(2), of checks] by (auto simp: init(2) history_def)
  have "case store_query F st n r None of
       Inl e \<Rightarrow> e = MetricNotFound n \<and> ?h n = {#}
     | Inr ps \<Rightarrow> sorted (map pt_timestamp ps) \<and> mset ps = filter_mset (\<lambda>p. range_contains r (pt_timestamp p)) (?h n)" for n r
    using ok unfolding h [symmetric]
    by (cases "hm_get (ms_data st) n") (auto simp: store_query_def aggregate_points_def abs_data_def data_ok_def sorted_kept)
  with run show ?thesis by blast
qed

text \<open>The points recorded for each name since it was last removed, as if nothing ever expired.\<close>

fun record_step :: "store_op \<Rightarrow> points \<Rightarrow> points" where
  "record_step (Push now n p) M = M(n := add_mset p (M n))"
| "record_step (PushBatch now ms) M = fold (\<lambda>(n, p) M. M(n := add_mset p (M n))) ms M"
| "record_step (RemoveMetric n) M = M(n := {#})"
| "record_step Clear M = (\<lambda>_. {#})"
| "record_step (Expire now) M = M"

definition recorded :: "store_op list \<Rightarrow> points" where
  "recorded ops = fold record_step ops (\<lambda>_. {#})"

fun op_until :: "int \<Rightarrow> store_op \<Rightarrow> bool" where
  "op_until now (Push t n p) = (t \<le> now)"
| "op_until now (PushBatch t ms) = (t \<le> now)"
| "op_until now (Expire t) = (t \<le> now)"
| "op_until now _ = True"

text \<open>Expiry never touches what lies at or after a later cutoff.\<close>

definition same_since :: "int \<Rightarrow> points \<Rightarrow> points \<Rightarrow> bool" where
  "same_since t M N \<longleftrightarrow> (\<forall>n. keep_since t (M n) = keep_since t (N n))"

lemma keep_since_keep: "c \<le> t \<Longrightarrow> keep_since t (keep_since c M) = keep_since t M"
  by (auto simp: keep_since_def filter_filter_mset intro: filter_mset_cong)

lemma keep_since_add: "keep_since t (add_mset p M) = (if t \<le> pt_timestamp p then add_mset p (keep_since t M) else keep_since t M)"
  by (simp add: keep_since_def)

lemma same_since_add:
  "same_since t M N \<Longrightarrow> c \<le> t \<Longrightarrow> same_since t (add_abs c n p M) (N(n := add_mset p (N n)))"
  by (simp add: same_since_def add_abs_def keep_since_add keep_since_keep)

lemma same_since_batch:
  "same_since t M N \<Longrightarrow> c \<le> t \<Longrightarrow>
   same_since t (fold (\<lambda>(n, p). add_abs c n p) ms M) (fold (\<lambda>(n, p) M. M(n := add_mset p (M n))) ms N)"
  by (induction ms arbitrary: M N) (auto simp: same_since_add)

lemma same_since_step:
  "same_since t M N \<Longrightarrow> op_until now x \<Longrightarrow> now - ret \<le> t \<Longrightarrow> same_since t (abs_step ret x M) (record_step x N)"
  by (cases x) (auto simp: same_since_add same_since_batch, auto simp: same_since_def keep_since_keep)

lemma same_since_run:
  "same_since t M N \<Longrightarrow> list_all (op_until now) ops \<Longrightarrow> now - ret \<le> t \<Longrightarrow>
   same_since t (fold (abs_step ret) ops M) (fold record_step ops N)"
  by (induction ops arbitrary: M N) (auto simp: same_since_step)

lemma recent_history:
  assumes "list_all (op_until now) ops" "now - ret \<le> tr_start r"
  shows "filter_mset (\<lambda>p. range_contains r (pt_timestamp p)) (history ret ops n) =
         filter_mset (\<lambda>p. range_contains r (pt_timestamp p)) (recorded ops n)"
proof -
  have in_range: "filter_mset (\<lambda>p. range_contains r (pt_timestamp p)) M =
      filter_mset (\<lambda>p. range_contains r (pt_timestamp p)) (keep_since (tr_start r) M)" for M
    by (auto simp: keep_since_def filter_filter_mset range_contains_def intro: filter_mset_cong)
  have "same_since (tr_start r) (history ret ops) (recorded ops)"
    unfolding history_def recorded_def by (rule same_since_run [OF _ assms]) (simp add: same_since_def)
  then show ?thesis
    unfolding in_range [of "history ret ops n"] in_range [of "recorded ops n"] by (simp add: same_since_def)
qed

text \<open>
  C24. Nothing within the retention period is lost, invented or misplaced: after any pushes, batches, expiry runs, removals and clearings
  whose cutoffs fit 64 bits, made no later than the time \<open>now\<close>, a query of a range that starts within the retention period before \<open>now\<close>
  returns exactly the points recorded for the name since it was last removed whose time lies in the range, in ascending order of
  time, and reports the name as unknown only when there is none; no operation panics. (What a query of an older range returns is not part
  of this: points that have expired are dropped by pushes and expiry runs but not by queries.)
\<close>

theorem retained_points_exact:
  assumes "key_search search" and "list_all (op_time_ok (ms_retention_millis (store_new ret))) ops"
    and "list_all (op_until now) ops" and "now - ms_retention_millis (store_new ret) \<le> tr_start r"
  shows "\<exists>st. run_store search checks ops (store_new ret) = Some st \<and>
    (case store_query F st n r None of
       Inl e \<Rightarrow> e = MetricNotFound n \<and> filter_mset (\<lambda>p. range_contains r (pt_timestamp p)) (recorded ops n) = {#}
     | Inr ps \<Rightarrow> sorted (map pt_timestamp ps) \<and>
         mset ps = filter_mset (\<lambda>p. range_contains r (pt_timestamp p)) (recorded ops n))"
  using store_matches_history [OF assms(1,2), of checks F]
  unfolding recent_history [OF assms(3,4), symmetric]
  by (fastforce split: sum.splits)

section \<open>Instances and gaps\<close>

definition zero_ops :: float_ops where
  "zero_ops = \<lparr>fl_add = (\<lambda>a b. a), fl_sub = (\<lambda>a b. a), fl_mul = (\<lambda>a b. a), fl_div = (\<lambda>a b. a), fl_of_int = (\<lambda>i. Fin (of_int i)),
     fl_to_u64 = (\<lambda>x. 0)\<rparr>"

definition demo_ops :: "store_op list" where
  "demo_ops = [Push 10000 ''gpu'' (point_new 9000 (Fin 1)), Push 10000 ''gpu'' (point_new 8000 (Fin 2)),
     Push 10000 ''gpu'' (point_new 9000 (Fin 3))]"

theorem retained_points_exact_witness:
  "\<exists>st. run_store linear_search True demo_ops store_default = Some st \<and>
     (case store_query zero_ops st ''gpu'' \<lparr>tr_start = 8500, tr_end = 9500\<rparr> None of
        Inl e \<Rightarrow> False
      | Inr ps \<Rightarrow> mset ps = {#point_new 9000 (Fin 1), point_new 9000 (Fin 3)#})"
proof -
  let ?r = "\<lparr>tr_start = 8500, tr_end = 9500\<rparr>"
  have ok: "list_all (op_time_ok (ms_retention_millis store_default)) demo_ops" "list_all (op_until 10000) demo_ops"
    "10000 - ms_retention_millis store_default \<le> tr_start ?r"
    by (simp_all add: demo_ops_def in_i64_def store_default_def store_new_def wrap_i64_def)
  have "filter_mset (\<lambda>p. range_contains ?r (pt_timestamp p)) (recorded demo_ops ''gpu'') =
      {#point_new 9000 (Fin 1), point_new 9000 (Fin 3)#}"
    by (simp add: recorded_def demo_ops_def range_contains_def point_new_def)
  with retained_points_exact [OF linear.key_search_axioms ok [unfolded store_default_def], where checks = True and F = zero_ops and n = "''gpu''"]
  show ?thesis unfolding store_default_def by (auto split: sum.splits)
qed

text \<open>
  A point with the timestamp of a stored one is inserted before it, so the last value of a series is the older of two measurements
  of the same millisecond. And queries do not drop expired points, although the constructor's documentation says so.
\<close>

lemmas demo_store_defs = store_push_def op_i64_def in_i64_def store_default_def store_new_def wrap_i64_def push_point_def place_of_def
  linear_search_def insert_at_def hm_insert_def store_query_def aggregate_points_def range_contains_def point_new_def Let_def

lemma same_instant_keeps_older:
  "map_option (\<lambda>st. last_value zero_ops True 10000 st ''gpu'') (run_store linear_search True demo_ops store_default) =
     Some (Some (Some (Fin 1)))"
  by (simp add: demo_ops_def demo_store_defs last_value_def last_hours_def last_minutes_def last_seconds_def last_millis_def
      first_value_def)

lemma expired_point_returned:
  "map_option (\<lambda>st. store_query zero_ops st ''gpu'' \<lparr>tr_start = 0, tr_end = 99999999\<rparr> None)
     (run_store linear_search True [Push 10000 ''gpu'' (point_new 9000 (Fin 1))] (store_new 1000000)) =
   Some (Inr [point_new 9000 (Fin 1)])"
  by (simp add: demo_store_defs)

end
