(* ===== verification/Gossip_Node.thy ===== *)
theory Gossip_Node
  imports Gossip_Broadcast
begin

text \<open>
  The local gossip node, \<open>crates/molt-p2p/src/gossip/node.rs\<close>: a broadcaster behind a life-cycle state, with queues of messages to
  send and of events. The node drives the broadcaster through its public operations, which the refinement below makes
  precise, so the bounds of the broadcaster hold for the node. The asynchronous trait \<open>GossipNode\<close> has no implementation.
\<close>

section \<open>Data\<close>

datatype gossip_event =
    AnnouncementReceived announcement peer_id
  | QueryReceived message_id peer_id query_filter
  | ResponseReceived message_id peer_id "announcement list"
  | PeerDisconnected peer_id
  | PeerConnected peer_id

datatype node_state = Initializing | Running | Syncing | ShuttingDown | Stopped

fun can_process :: "node_state \<Rightarrow> bool" where
  "can_process Running = True"
| "can_process Syncing = True"
| "can_process _ = False"

fun node_is_active :: "node_state \<Rightarrow> bool" where
  "node_is_active ShuttingDown = False"
| "node_is_active Stopped = False"
| "node_is_active _ = True"

fun show_node_state :: "node_state \<Rightarrow> string" where
  "show_node_state Initializing = ''Initializing''"
| "show_node_state Running = ''Running''"
| "show_node_state Syncing = ''Syncing''"
| "show_node_state ShuttingDown = ''ShuttingDown''"
| "show_node_state Stopped = ''Stopped''"

record gossip_node =
  gn_broadcaster :: broadcaster
  gn_state :: node_state
  pending_sends :: "(peer_id \<times> gossip_message) list"
  pending_events :: "gossip_event list"

section \<open>Operations\<close>

definition gossip_node_new :: "instant \<Rightarrow> peer_id \<Rightarrow> broadcast_config \<Rightarrow> gossip_node" where
  "gossip_node_new now p cfg =
     \<lparr>gn_broadcaster = broadcaster_new now p cfg, gn_state = Initializing, pending_sends = [], pending_events = []\<rparr>"

definition gn_with_defaults :: "instant \<Rightarrow> peer_id \<Rightarrow> gossip_node" where
  "gn_with_defaults now p = gossip_node_new now p broadcast_default"

definition gn_peer_id :: "gossip_node \<Rightarrow> peer_id" where
  "gn_peer_id n = local_peer_id (gn_broadcaster n)"

definition gn_set_state :: "node_state \<Rightarrow> gossip_node \<Rightarrow> gossip_node" where
  "gn_set_state s n = n\<lparr>gn_state := s\<rparr>"

definition gn_start :: "gossip_node \<Rightarrow> gossip_node" where
  "gn_start n = n\<lparr>gn_state := Running\<rparr>"

definition gn_stop :: "gossip_node \<Rightarrow> gossip_node" where
  "gn_stop n = n\<lparr>gn_state := Stopped\<rparr>"

definition push_event :: "gossip_event \<Rightarrow> gossip_node \<Rightarrow> gossip_node" where
  "push_event e n = n\<lparr>pending_events := pending_events n @ [e]\<rparr>"

definition queue_send :: "peer_id \<Rightarrow> gossip_message \<Rightarrow> gossip_node \<Rightarrow> gossip_node" where
  "queue_send p m n = n\<lparr>pending_sends := pending_sends n @ [(p, m)]\<rparr>"

text \<open>The loop over the target peers.\<close>

definition queue_all :: "peer_id list \<Rightarrow> gossip_message \<Rightarrow> gossip_node \<Rightarrow> gossip_node" where
  "queue_all ps m n = fold (\<lambda>p. queue_send p m) ps n"

definition gn_add_peer :: "peer_id \<Rightarrow> gossip_node \<Rightarrow> gossip_node" where
  "gn_add_peer p n = push_event (PeerConnected p) (n\<lparr>gn_broadcaster := bc_add_peer p (gn_broadcaster n)\<rparr>)"

definition gn_remove_peer :: "peer_id \<Rightarrow> gossip_node \<Rightarrow> gossip_node" where
  "gn_remove_peer p n = push_event (PeerDisconnected p) (n\<lparr>gn_broadcaster := bc_remove_peer p (gn_broadcaster n)\<rparr>)"

fun event_of :: "gossip_message \<Rightarrow> peer_id \<Rightarrow> gossip_event list" where
  "event_of (Announce i a ttl) from = [AnnouncementReceived a from]"
| "event_of (Query q) from = [QueryReceived (query_id q) (gq_from_peer q) (gq_filter q)]"
| "event_of (Response i p as) from = [ResponseReceived i p as]"
| "event_of _ from = []"

definition gn_handle_message ::
  "gossip_env \<Rightarrow> instant \<Rightarrow> utc_clock \<Rightarrow> message_id \<Rightarrow> gossip_message \<Rightarrow> peer_id \<Rightarrow> gossip_node
   \<Rightarrow> (p2p_error, broadcast_result, gossip_node) outcome" where
  "gn_handle_message env now utc fresh m from n =
     (if \<not> can_process (gn_state n)
      then (Inl (P2pGossip (''Node cannot process messages in state '' @ show_node_state (gn_state n))), n)
      else case handle_message env now utc fresh m from (gn_broadcaster n) of
        (Inl e, g) \<Rightarrow> (Inl e, n\<lparr>gn_broadcaster := g\<rparr>)
      | (Inr r, g) \<Rightarrow>
          (let n1 = n\<lparr>gn_broadcaster := g\<rparr>
           in if \<not> was_duplicate r
              then (Inr r, queue_all (target_peers r) m (fold push_event (event_of m from) n1))
              else (Inr r, n1)))"

definition gn_prepare_announce ::
  "gossip_env \<Rightarrow> instant \<Rightarrow> message_id \<Rightarrow> announcement \<Rightarrow> gossip_node \<Rightarrow> (p2p_error, broadcast_result, gossip_node) outcome" where
  "gn_prepare_announce env now fresh a n =
     (if \<not> can_process (gn_state n)
      then (Inl (P2pGossip (''Node cannot announce in state '' @ show_node_state (gn_state n))), n)
      else case prepare_announce env now fresh a (gn_broadcaster n) of
        (r, g) \<Rightarrow>
          (let n1 = n\<lparr>gn_broadcaster := g\<rparr>;
               m = Announce (br_message_id r) a (max_ttl_hops (bc_config g))
           in (Inr r, queue_all (target_peers r) m n1)))"

definition gn_prepare_query ::
  "message_id \<Rightarrow> query_filter \<Rightarrow> u32 \<Rightarrow> gossip_node \<Rightarrow> (p2p_error, message_id, gossip_node) outcome" where
  "gn_prepare_query fresh f max_results n =
     (if \<not> can_process (gn_state n)
      then (Inl (P2pGossip (''Node cannot query in state '' @ show_node_state (gn_state n))), n)
      else let ttl = max_ttl_hops (bc_config (gn_broadcaster n));
               m = Query \<lparr>query_id = fresh, gq_from_peer = gn_peer_id n, gq_filter = f, gq_max_results = max_results, gq_ttl_hops = ttl\<rparr>
           in case message_id_of m of
                None \<Rightarrow> (Inl (P2pGossip ''Failed to get query ID''), n)
              | Some i \<Rightarrow> (Inr i, queue_all (known_peers (gn_broadcaster n)) m n))"

definition send_response ::
  "message_id \<Rightarrow> peer_id \<Rightarrow> announcement list \<Rightarrow> gossip_node \<Rightarrow> (p2p_error, unit, gossip_node) outcome" where
  "send_response i to_peer as n =
     (if \<not> can_process (gn_state n)
      then (Inl (P2pGossip (''Node cannot respond in state '' @ show_node_state (gn_state n))), n)
      else (Inr (), queue_send to_peer (Response i (gn_peer_id n) as) n))"

definition query_local :: "int \<Rightarrow> gossip_node \<Rightarrow> query_filter \<Rightarrow> u32 \<Rightarrow> announcement list" where
  "query_local utc n f max_results = query_cache utc (gn_broadcaster n) f max_results"

definition take_pending_send :: "gossip_node \<Rightarrow> (peer_id \<times> gossip_message) option \<times> gossip_node" where
  "take_pending_send n =
     (case pending_sends n of [] \<Rightarrow> (None, n) | x # xs \<Rightarrow> (Some x, n\<lparr>pending_sends := xs\<rparr>))"

definition take_all_pending_sends :: "gossip_node \<Rightarrow> (peer_id \<times> gossip_message) list \<times> gossip_node" where
  "take_all_pending_sends n = (pending_sends n, n\<lparr>pending_sends := []\<rparr>)"

definition take_pending_event :: "gossip_node \<Rightarrow> gossip_event option \<times> gossip_node" where
  "take_pending_event n =
     (case pending_events n of [] \<Rightarrow> (None, n) | x # xs \<Rightarrow> (Some x, n\<lparr>pending_events := xs\<rparr>))"

definition take_all_pending_events :: "gossip_node \<Rightarrow> gossip_event list \<times> gossip_node" where
  "take_all_pending_events n = (pending_events n, n\<lparr>pending_events := []\<rparr>)"

definition gn_tick :: "instant \<Rightarrow> utc_clock \<Rightarrow> gossip_node \<Rightarrow> gossip_node" where
  "gn_tick now utc n = n\<lparr>gn_broadcaster := bc_cleanup now utc (gn_broadcaster n)\<rparr>"

section \<open>The queues\<close>

lemma queue_all_fields [simp]:
  "gn_broadcaster (queue_all ps m n) = gn_broadcaster n" "gn_state (queue_all ps m n) = gn_state n"
  "pending_events (queue_all ps m n) = pending_events n"
  "pending_sends (queue_all ps m n) = pending_sends n @ map (\<lambda>p. (p, m)) ps"
  unfolding queue_all_def by (induction ps arbitrary: n) (simp_all add: queue_send_def)

lemma push_events_fields [simp]:
  "gn_broadcaster (fold push_event es n) = gn_broadcaster n" "gn_state (fold push_event es n) = gn_state n"
  "pending_events (fold push_event es n) = pending_events n @ es" "pending_sends (fold push_event es n) = pending_sends n"
  by (induction es arbitrary: n) (simp_all add: push_event_def)

text \<open>Taking one by one gives the same as taking all, in the order of queueing.\<close>

fun drain_sends :: "nat \<Rightarrow> gossip_node \<Rightarrow> (peer_id \<times> gossip_message) list \<times> gossip_node" where
  "drain_sends 0 n = ([], n)"
| "drain_sends (Suc k) n =
     (case take_pending_send n of
        (None, n1) \<Rightarrow> ([], n1)
      | (Some x, n1) \<Rightarrow> (case drain_sends k n1 of (xs, n2) \<Rightarrow> (x # xs, n2)))"

theorem drain_is_take_all:
  "length (pending_sends n) \<le> k \<Longrightarrow> drain_sends k n = take_all_pending_sends n"
proof (induction k arbitrary: n)
  case (Suc k)
  then show ?case by (cases "pending_sends n") (simp_all add: take_pending_send_def take_all_pending_sends_def)
qed (simp add: take_all_pending_sends_def)

section \<open>Received messages\<close>

text \<open>What an accepted message does to the queues and the events.\<close>

lemma handle_message_queues:
  assumes "gn_handle_message env now utc fresh m from n = (Inr r, n')"
  shows "pending_sends n' = pending_sends n @ (if was_duplicate r then [] else map (\<lambda>p. (p, m)) (target_peers r))"
    and "pending_events n' = pending_events n @ (if was_duplicate r then [] else event_of m from)"
    and "handle_message env now utc fresh m from (gn_broadcaster n) = (Inr r, gn_broadcaster n')"
    and "gn_state n' = gn_state n"
  using assms by (auto simp: gn_handle_message_def Let_def split: if_splits prod.splits sum.splits)

lemma handle_accepted:
  assumes "can_process (gn_state n)" and "fst (handle_message env now utc fresh m from (gn_broadcaster n)) = Inr r"
  obtains n' where "gn_handle_message env now utc fresh m from n = (Inr r, n')"
proof -
  obtain g where "handle_message env now utc fresh m from (gn_broadcaster n) = (Inr r, g)" using assms(2) by (metis prod.collapse)
  then have "\<exists>n'. gn_handle_message env now utc fresh m from n = (Inr r, n')"
    using assms(1) by (simp add: gn_handle_message_def Let_def)
  then show ?thesis using that by blast
qed

text \<open>
  A received message is passed on to few and to nobody twice: given that the shuffle permutes, the messages that one
  accepted message adds to the send queue are copies of it for distinct known peers, at most as many as the fanout, and none of them for the
  peer it came from; it raises at most one event.
\<close>

theorem node_forwards_within_fanout:
  assumes "\<And>xs. mset (shuffle env xs) = mset xs" and "distinct (known_peers (gn_broadcaster n))"
    and "gn_handle_message env now utc fresh m from n = (Inr r, n')"
  shows "\<exists>ps. pending_sends n' = pending_sends n @ map (\<lambda>p. (p, m)) ps \<and> distinct ps \<and>
      length ps \<le> fanout (bc_config (gn_broadcaster n)) \<and> set ps \<subseteq> set (known_peers (gn_broadcaster n)) - {from}"
    and "length (pending_events n') \<le> length (pending_events n) + 1"
proof -
  let ?ps = "if was_duplicate r then [] else target_peers r"
  have "fst (handle_message env now utc fresh m from (gn_broadcaster n)) = Inr r"
    using handle_message_queues(3) [OF assms(3)] by simp
  then have t: "distinct (target_peers r) \<and> length (target_peers r) \<le> fanout (bc_config (gn_broadcaster n)) \<and>
      set (target_peers r) \<subseteq> set (known_peers (gn_broadcaster n)) - {from}"
    by (rule targets_sound [OF assms(1,2)])
  have "pending_sends n' = pending_sends n @ map (\<lambda>p. (p, m)) ?ps"
    using handle_message_queues(1) [OF assms(3)] by simp
  moreover have "distinct ?ps \<and> length ?ps \<le> fanout (bc_config (gn_broadcaster n)) \<and>
      set ?ps \<subseteq> set (known_peers (gn_broadcaster n)) - {from}" using t by simp
  ultimately show "\<exists>ps. pending_sends n' = pending_sends n @ map (\<lambda>p. (p, m)) ps \<and> distinct ps \<and>
      length ps \<le> fanout (bc_config (gn_broadcaster n)) \<and> set ps \<subseteq> set (known_peers (gn_broadcaster n)) - {from}" by blast
  have "length (event_of m from) \<le> 1" by (cases m) simp_all
  then show "length (pending_events n') \<le> length (pending_events n) + 1"
    using handle_message_queues(2) [OF assms(3)] by simp
qed

text \<open>The hops that a message may still travel are never counted down: what a node passes on has the hop count it came with.\<close>

theorem hop_count_not_decremented:
  assumes "gn_handle_message env now utc fresh (Announce i a ttl) from n = (Inr r, n')"
    and "(p, m) \<in> set (drop (length (pending_sends n)) (pending_sends n'))"
  shows "m = Announce i a ttl"
  using assms(2) handle_message_queues(1) [OF assms(1)] by (auto split: if_splits)

section \<open>The node refines the broadcaster\<close>

datatype node_op =
    N_handle instant utc_clock message_id gossip_message peer_id
  | N_announce instant message_id announcement
  | N_query message_id query_filter u32
  | N_respond message_id peer_id "announcement list"
  | N_add_peer peer_id
  | N_remove_peer peer_id
  | N_set_state node_state
  | N_take_send
  | N_take_sends
  | N_take_event
  | N_take_events
  | N_tick instant utc_clock

fun node_step :: "gossip_env \<Rightarrow> gossip_node \<Rightarrow> node_op \<Rightarrow> gossip_node" where
  "node_step env n (N_handle now utc fresh m from) = snd (gn_handle_message env now utc fresh m from n)"
| "node_step env n (N_announce now fresh a) = snd (gn_prepare_announce env now fresh a n)"
| "node_step env n (N_query fresh f k) = snd (gn_prepare_query fresh f k n)"
| "node_step env n (N_respond i p as) = snd (send_response i p as n)"
| "node_step env n (N_add_peer p) = gn_add_peer p n"
| "node_step env n (N_remove_peer p) = gn_remove_peer p n"
| "node_step env n (N_set_state s) = gn_set_state s n"
| "node_step env n N_take_send = snd (take_pending_send n)"
| "node_step env n N_take_sends = snd (take_all_pending_sends n)"
| "node_step env n N_take_event = snd (take_pending_event n)"
| "node_step env n N_take_events = snd (take_all_pending_events n)"
| "node_step env n (N_tick now utc) = gn_tick now utc n"

text \<open>The calls of the broadcaster that an operation of the node makes.\<close>

fun calls :: "node_state \<Rightarrow> node_op \<Rightarrow> gossip_op list" where
  "calls s (N_handle now utc fresh m from) = (if can_process s then [G_handle now utc fresh m from] else [])"
| "calls s (N_announce now fresh a) = (if can_process s then [G_announce now fresh a] else [])"
| "calls s (N_add_peer p) = [G_add_peer p]"
| "calls s (N_remove_peer p) = [G_remove_peer p]"
| "calls s (N_tick now utc) = [G_cleanup now utc]"
| "calls s _ = []"

lemma step_calls:
  "gn_broadcaster (node_step env n e) = run (gossip_step env) (gn_broadcaster n) (calls (gn_state n) e)"
  by (cases e)
    (auto simp: gn_handle_message_def gn_prepare_announce_def gn_prepare_query_def send_response_def gn_add_peer_def
      gn_remove_peer_def gn_set_state_def take_pending_send_def take_all_pending_sends_def take_pending_event_def
      take_all_pending_events_def gn_tick_def push_event_def queue_send_def Let_def split: prod.split sum.split option.split list.split)

lemma calls_length: "length (calls s e) \<le> 1"
  by (cases e) simp_all

lemma node_refines:
  "\<exists>gops. length gops \<le> length ops \<and>
     gn_broadcaster (run (node_step env) n ops) = run (gossip_step env) (gn_broadcaster n) gops"
proof (induction ops arbitrary: n)
  case (Cons e ops)
  obtain gops where "length gops \<le> length ops"
    "gn_broadcaster (run (node_step env) (node_step env n e) ops) =
       run (gossip_step env) (gn_broadcaster (node_step env n e)) gops"
    using Cons by blast
  then have "length (calls (gn_state n) e @ gops) \<le> length (e # ops)"
    "gn_broadcaster (run (node_step env) n (e # ops)) = run (gossip_step env) (gn_broadcaster n) (calls (gn_state n) e @ gops)"
    using calls_length [of "gn_state n" e] by (simp_all add: step_calls run_append)
  then show ?case by blast
qed simp

text \<open>
  \<^bold>\<open>The node drives its broadcaster only through the broadcaster's operations\<close>: after any operations of the node, its broadcaster is in a
  state that at most as many calls of the broadcaster reach, so the limits of the announcement cache hold for a node as well, the total
  one under the same condition on the clock readings of these calls.
\<close>

theorem node_cache_bounded:
  assumes "1 \<le> max_total_announcements cfg" and "length ops < 2 ^ 64"
  shows "let g = gn_broadcaster (run (node_step env) (gossip_node_new now p cfg) ops)
    in length (entries_of (announcement_cache g) q) \<le> max_announcements_per_peer cfg \<and>
       (\<exists>gops. length gops \<le> length ops \<and> g = run (gossip_step env) (broadcaster_new now p cfg) gops \<and>
          (steady_ops gops \<longrightarrow> cached_announcement_count g \<le> max_total_announcements cfg))"
proof -
  obtain gops where g: "length gops \<le> length ops"
    "gn_broadcaster (run (node_step env) (gossip_node_new now p cfg) ops) = run (gossip_step env) (broadcaster_new now p cfg) gops"
    using node_refines [of ops env "gossip_node_new now p cfg"] by (auto simp: gossip_node_new_def)
  have "cache_inv cfg (run (gossip_step env) (broadcaster_new now p cfg) gops)" if "steady_ops gops"
    using assms g(1) that by (intro cache_inv_run) simp_all
  then show ?thesis using g by (auto simp: cache_inv_def Let_def peer_bound_run)
qed

theorem node_cache_bounded_witness:
  "length (entries_of (announcement_cache (gn_broadcaster (run (node_step example_env) (gossip_node_new 0 ''me'' broadcast_default)
     [N_set_state Running, N_announce 1 [1] (example_announcement 5 []), N_announce 2 [2] (example_announcement 6 [])]))) ''q'') \<le> 5"
proof -
  have "1 \<le> max_total_announcements broadcast_default"
    and "length [N_set_state Running, N_announce 1 [1] (example_announcement 5 []), N_announce 2 [2] (example_announcement 6 [])] < 2 ^ 64"
    by (simp_all add: broadcast_default_def)
  from node_cache_bounded [OF this, of example_env 0 "''me''" "''q''"]
  show ?thesis by (simp add: Let_def broadcast_default_def del: run.simps node_step.simps)
qed

text \<open>A node that does not run refuses messages, announcements, queries and responses and stays as it is.\<close>

theorem idle_node_refuses:
  assumes "\<not> can_process (gn_state n)"
  shows "\<exists>e. gn_handle_message env now utc fresh m from n = (Inl e, n)"
    and "\<exists>e. gn_prepare_announce env now fresh a n = (Inl e, n)"
    and "\<exists>e. gn_prepare_query fresh f k n = (Inl e, n)"
    and "\<exists>e. send_response i p as n = (Inl e, n)"
  using assms by (simp_all add: gn_handle_message_def gn_prepare_announce_def gn_prepare_query_def send_response_def)

section \<open>Concrete nodes\<close>

definition demo_node :: "peer_id \<Rightarrow> peer_id list \<Rightarrow> gossip_node" where
  "demo_node p peers = \<lparr>gn_broadcaster = (broadcaster_new 0 p broadcast_default)\<lparr>known_peers := peers\<rparr>, gn_state = Running,
     pending_sends = [], pending_events = []\<rparr>"

definition demo_announce :: "u8 \<Rightarrow> gossip_message" where
  "demo_announce ttl = Announce [1] (ann_sign (\<lambda>m. []) (example_announcement 5 [])) ttl"

lemmas eval_handle = handle_message_def broadcaster_new_def broadcast_default_def rate_limiter_new_def config_default_def
  check_and_record_def rl_maybe_cleanup_def secs_def check_peer_def ban_active_def peer_entry_def peer_rate_state_new_def
  bc_maybe_cleanup_def has_seen_def hm_contains_def clock_at_def Let_def

lemma demo_handle:
  assumes "ttl \<noteq> 0" and "u \<noteq> v"
  obtains n' where "gn_handle_message example_env 1 (clock_at 6) [9] (demo_announce ttl) u (demo_node p [u, v]) =
      (Inr \<lparr>br_message_id = [1], target_peers = [v], was_duplicate = False\<rparr>, n')"
proof (rule handle_accepted)
  show "fst (handle_message example_env 1 (clock_at 6) [9] (demo_announce ttl) u (gn_broadcaster (demo_node p [u, v]))) =
      Inr \<lparr>br_message_id = [1], target_peers = [v], was_duplicate = False\<rparr>"
    using assms by (simp add: demo_node_def demo_announce_def eval_handle handle_announce_def example_env_def ann_verify_def ann_sign_def
        example_announcement_def announcement_new_def ann_is_expired_def select_fanout_peers_def pick_fanout_def)
qed (simp_all add: demo_node_def)

theorem node_forwards_within_fanout_witness:
  "\<exists>n' ps. gn_handle_message example_env 1 (clock_at 6) [9] (demo_announce 3) ''x'' (demo_node ''me'' [''x'', ''y'']) =
      (Inr \<lparr>br_message_id = [1], target_peers = [''y''], was_duplicate = False\<rparr>, n') \<and>
     pending_sends n' = map (\<lambda>p. (p, demo_announce 3)) ps \<and> set ps \<subseteq> {''x'', ''y''} - {''x''}"
proof -
  let ?n = "demo_node ''me'' [''x'', ''y'']"
  obtain n' where h: "gn_handle_message example_env 1 (clock_at 6) [9] (demo_announce 3) ''x'' ?n =
      (Inr \<lparr>br_message_id = [1], target_peers = [''y''], was_duplicate = False\<rparr>, n')"
    by (rule demo_handle [of 3 "''x''" "''y''" "''me''"]) simp_all
  have s: "mset (shuffle example_env xs) = mset xs" for xs by (simp add: example_env_def)
  have d: "distinct (known_peers (gn_broadcaster ?n))" by (simp add: demo_node_def)
  from node_forwards_within_fanout(1) [OF s d h] h show ?thesis by (fastforce simp: demo_node_def)
qed

text \<open>An allowance of one hop takes an announcement along any line of nodes: each passes it on, with its allowance, to the next.\<close>

theorem single_hop_message_travels_on:
  assumes "u \<noteq> v"
  shows "pending_sends (snd (gn_handle_message example_env 1 (clock_at 6) [9] (demo_announce 1) u (demo_node p [u, v]))) = [(v, demo_announce 1)]"
proof -
  let ?n = "demo_node p [u, v]"
  obtain n' where h: "gn_handle_message example_env 1 (clock_at 6) [9] (demo_announce 1) u ?n =
      (Inr \<lparr>br_message_id = [1], target_peers = [v], was_duplicate = False\<rparr>, n')"
    by (rule demo_handle [of 1 u v p]) (use assms in simp_all)
  from handle_message_queues(1) [OF this] h show ?thesis by (simp add: demo_node_def)
qed

text \<open>A node does not remember its own query: when a peer sends it back, the node treats it as a query of somebody else.\<close>

definition own_query :: gossip_query where
  "own_query = \<lparr>query_id = [7], gq_from_peer = ''me'', gq_filter = filter_any, gq_max_results = 5, gq_ttl_hops = 6\<rparr>"

lemma own_query_sent:
  "gn_prepare_query [7] filter_any 5 (demo_node ''me'' [''x'']) =
     (Inr [7], (demo_node ''me'' [''x''])\<lparr>pending_sends := [(''x'', Query own_query)]\<rparr>)"
  by (simp add: gn_prepare_query_def demo_node_def gn_peer_id_def queue_all_def queue_send_def own_query_def
      broadcaster_new_def broadcast_default_def Let_def)

theorem own_query_processed:
  "pending_events (snd (gn_handle_message example_env 1 (clock_at 6) [9] (Query own_query) ''x'' (snd (gn_prepare_query [7] filter_any 5 (demo_node ''me'' [''x'']))))) =
     [QueryReceived [7] ''me'' filter_any]"
proof -
  let ?n = "(demo_node ''me'' [''x''])\<lparr>pending_sends := [(''x'', Query own_query)]\<rparr>"
  have "fst (handle_message example_env 1 (clock_at 6) [9] (Query own_query) ''x'' (gn_broadcaster ?n)) =
      Inr \<lparr>br_message_id = [7], target_peers = [], was_duplicate = False\<rparr>"
    by (simp add: demo_node_def own_query_def eval_handle handle_query_def select_fanout_peers_excluding_def pick_fanout_def mark_seen_def)
  then obtain n' where h: "gn_handle_message example_env 1 (clock_at 6) [9] (Query own_query) ''x'' ?n =
      (Inr \<lparr>br_message_id = [7], target_peers = [], was_duplicate = False\<rparr>, n')"
    by (rule handle_accepted [rotated]) (simp_all add: demo_node_def)
  from handle_message_queues(2) [OF this] show ?thesis
    unfolding own_query_sent using h by (simp add: demo_node_def own_query_def)
qed

end
