(* ===== verification/P2p_Network.thy ===== *)
theory P2p_Network
  imports Connection_Pool
begin

text \<open>
  Peers, messages and the network interface of \<open>crates/molt-p2p/src\<close>: \<open>protocol.rs\<close>, \<open>discovery.rs\<close>, \<open>message.rs\<close> and \<open>network.rs\<close>.
  The clock, the durations measured, random numbers and JSON are arguments; text is a list of ASCII characters, a
  WireGuard key its 32 bytes. \<open>leave\<close> releases its lock between its parts, so it is split at those points and the parts of several
  tasks interleave with the other operations.
\<close>

section \<open>Peers\<close>

type_synonym wireguard_key = string

definition peer_id_from_wireguard_key :: "wireguard_key \<Rightarrow> peer_id" where
  "peer_id_from_wireguard_key k = k"

definition peer_id_from_public_key :: "string \<Rightarrow> peer_id" where
  "peer_id_from_public_key k = k"

definition to_wireguard_key :: "peer_id \<Rightarrow> wireguard_key" where
  "to_wireguard_key p = p"

text \<open>Whether bytes are a point of the curve is known to \<open>ed25519_dalek\<close> only.\<close>

definition peer_verifying_key :: "(string \<Rightarrow> 'key option) \<Rightarrow> peer_id \<Rightarrow> 'key option" where
  "peer_verifying_key from_bytes p = from_bytes p"

definition peer_id_display :: "(string \<Rightarrow> string) \<Rightarrow> peer_id \<Rightarrow> string" where
  "peer_id_display base58 p = base58 p"

record peer_info =
  pi_peer_id :: peer_id
  pi_addresses :: "string list"
  pi_capabilities :: "string list"
  pi_last_seen :: int
  pi_wireguard_key :: wireguard_key
  pi_mesh_ip :: "(u8 \<times> u8 \<times> u8 \<times> u8) option"

definition peer_info_new :: "int \<Rightarrow> peer_id \<Rightarrow> string list \<Rightarrow> string list \<Rightarrow> peer_info" where
  "peer_info_new now p as cs = \<lparr>pi_peer_id = p, pi_addresses = as, pi_capabilities = cs, pi_last_seen = now,
     pi_wireguard_key = to_wireguard_key p, pi_mesh_ip = None\<rparr>"

definition peer_info_from_wireguard_key :: "int \<Rightarrow> wireguard_key \<Rightarrow> string list \<Rightarrow> string list \<Rightarrow> peer_info" where
  "peer_info_from_wireguard_key now k as cs = \<lparr>pi_peer_id = peer_id_from_wireguard_key k, pi_addresses = as, pi_capabilities = cs,
     pi_last_seen = now, pi_wireguard_key = k, pi_mesh_ip = None\<rparr>"

definition set_mesh_ip :: "u8 \<times> u8 \<times> u8 \<times> u8 \<Rightarrow> peer_info \<Rightarrow> peer_info" where
  "set_mesh_ip ip i = i\<lparr>pi_mesh_ip := Some ip\<rparr>"

definition peer_touch :: "int \<Rightarrow> peer_info \<Rightarrow> peer_info" where
  "peer_touch now i = i\<lparr>pi_last_seen := now\<rparr>"

definition add_address :: "string \<Rightarrow> peer_info \<Rightarrow> peer_info" where
  "add_address a i = (if List.member (pi_addresses i) a then i else i\<lparr>pi_addresses := pi_addresses i @ [a]\<rparr>)"

section \<open>Peer table and bootstrap nodes\<close>

type_synonym peer_table = "(peer_id, peer_info) hashmap"

definition table_insert :: "peer_info \<Rightarrow> peer_table \<Rightarrow> peer_table" where
  "table_insert i t = hm_insert (pi_peer_id i) i t"

definition table_get :: "peer_table \<Rightarrow> peer_id \<Rightarrow> peer_info option" where
  "table_get t p = hm_get t p"

definition table_remove :: "peer_id \<Rightarrow> peer_table \<Rightarrow> peer_table" where
  "table_remove p t = hm_remove p t"

definition table_len :: "peer_table \<Rightarrow> nat" where
  "table_len t = length t"

definition table_is_empty :: "peer_table \<Rightarrow> bool" where
  "table_is_empty t \<longleftrightarrow> t = []"

definition all_peers :: "peer_table \<Rightarrow> peer_info list" where
  "all_peers t = hm_values t"

definition find_by_capability :: "peer_table \<Rightarrow> string \<Rightarrow> peer_info list" where
  "find_by_capability t c = filter (\<lambda>i. List.member (pi_capabilities i) c) (hm_values t)"

record bootstrap_node =
  boot_address :: string
  boot_connected :: bool
  boot_last_connected :: "int option"

definition bootstrap_new :: "string \<Rightarrow> bootstrap_node" where
  "bootstrap_new a = \<lparr>boot_address = a, boot_connected = False, boot_last_connected = None\<rparr>"

definition boot_mark_connected :: "int \<Rightarrow> bootstrap_node \<Rightarrow> bootstrap_node" where
  "boot_mark_connected now b = b\<lparr>boot_connected := True, boot_last_connected := Some now\<rparr>"

definition boot_mark_disconnected :: "bootstrap_node \<Rightarrow> bootstrap_node" where
  "boot_mark_disconnected b = b\<lparr>boot_connected := False\<rparr>"

section \<open>Messages\<close>

record capacity_requirements =
  cr_min_vram_gb :: "u32 option"
  cr_gpu_model :: "string option"
  cr_min_gpu_count :: "u32 option"
  cr_job_type :: "string option"
  cr_max_gpu_hour_cents :: "u64 option"

definition requirements_any :: capacity_requirements where
  "requirements_any = \<lparr>cr_min_vram_gb = None, cr_gpu_model = None, cr_min_gpu_count = None, cr_job_type = None,
     cr_max_gpu_hour_cents = None\<rparr>"

definition with_min_vram :: "u32 \<Rightarrow> capacity_requirements \<Rightarrow> capacity_requirements" where
  "with_min_vram v r = r\<lparr>cr_min_vram_gb := Some v\<rparr>"

definition with_required_model :: "string \<Rightarrow> capacity_requirements \<Rightarrow> capacity_requirements" where
  "with_required_model m r = r\<lparr>cr_gpu_model := Some m\<rparr>"

definition with_min_gpu_count :: "u32 \<Rightarrow> capacity_requirements \<Rightarrow> capacity_requirements" where
  "with_min_gpu_count n r = r\<lparr>cr_min_gpu_count := Some n\<rparr>"

definition with_job_type :: "string \<Rightarrow> capacity_requirements \<Rightarrow> capacity_requirements" where
  "with_job_type j r = r\<lparr>cr_job_type := Some j\<rparr>"

definition with_max_price :: "u64 \<Rightarrow> capacity_requirements \<Rightarrow> capacity_requirements" where
  "with_max_price c r = r\<lparr>cr_max_gpu_hour_cents := Some c\<rparr>"

datatype p2p_message =
    Ping u64
  | Pong u64
  | CapacityAnnounce announcement
  | CapacityRequest uuid capacity_requirements u32
  | CapacityResponse uuid "announcement list"
  | Join peer_id "string list" "string list"
  | JoinAck peer_id "(peer_id \<times> string list) list"
  | Leave peer_id

fun p2p_message_type :: "p2p_message \<Rightarrow> string" where
  "p2p_message_type (Ping _) = ''Ping''"
| "p2p_message_type (Pong _) = ''Pong''"
| "p2p_message_type (CapacityAnnounce _) = ''CapacityAnnounce''"
| "p2p_message_type (CapacityRequest _ _ _) = ''CapacityRequest''"
| "p2p_message_type (CapacityResponse _ _) = ''CapacityResponse''"
| "p2p_message_type (Join _ _ _) = ''Join''"
| "p2p_message_type (JoinAck _ _) = ''JoinAck''"
| "p2p_message_type (Leave _) = ''Leave''"

section \<open>The network\<close>

datatype network_state = Offline | Joining | Online | Leaving

fun is_operational :: "network_state \<Rightarrow> bool" where
  "is_operational Online = True"
| "is_operational _ = False"

fun can_operate :: "network_state \<Rightarrow> bool" where
  "can_operate Online = True"
| "can_operate Joining = True"
| "can_operate _ = False"

fun show_network_state :: "network_state \<Rightarrow> string" where
  "show_network_state Offline = ''Offline''"
| "show_network_state Joining = ''Joining''"
| "show_network_state Online = ''Online''"
| "show_network_state Leaving = ''Leaving''"

record network_config =
  bind_addresses :: "socket_addr list"
  bootstrap_nodes :: "string list"
  max_peers :: nat
  announce_interval :: duration
  provider_timeout :: duration
  connection_config :: connection_pool_config

definition network_config_default :: network_config where
  "network_config_default = \<lparr>bind_addresses = [], bootstrap_nodes = [], max_peers = 50, announce_interval = 60 * 1000000000,
     provider_timeout = 10 * 1000000000, connection_config = pool_config_default\<rparr>"

definition with_bind_addresses :: "socket_addr list \<Rightarrow> network_config \<Rightarrow> network_config" where
  "with_bind_addresses as c = c\<lparr>bind_addresses := as\<rparr>"

definition with_bootstrap_nodes :: "string list \<Rightarrow> network_config \<Rightarrow> network_config" where
  "with_bootstrap_nodes ns c = c\<lparr>bootstrap_nodes := ns\<rparr>"

definition with_max_peers :: "nat \<Rightarrow> network_config \<Rightarrow> network_config" where
  "with_max_peers n c = c\<lparr>max_peers := n\<rparr>"

definition with_announce_interval :: "duration \<Rightarrow> network_config \<Rightarrow> network_config" where
  "with_announce_interval d c = c\<lparr>announce_interval := d\<rparr>"

definition with_provider_timeout :: "duration \<Rightarrow> network_config \<Rightarrow> network_config" where
  "with_provider_timeout d c = c\<lparr>provider_timeout := d\<rparr>"

record network_stats =
  ns_messages_sent :: u64
  ns_messages_received :: u64
  successful_joins :: u64
  failed_joins :: u64
  announcements_broadcast :: u64
  provider_searches :: u64
  online_since :: "int option"

definition network_stats_new :: network_stats where
  "network_stats_new = \<lparr>ns_messages_sent = 0, ns_messages_received = 0, successful_joins = 0, failed_joins = 0,
     announcements_broadcast = 0, provider_searches = 0, online_since = None\<rparr>"

definition uptime :: "int \<Rightarrow> network_stats \<Rightarrow> duration option" where
  "uptime now s = map_option (\<lambda>t. if now - t \<ge> 0 then nat (now - t) else 0) (online_since s)"

definition mark_online :: "int \<Rightarrow> network_stats \<Rightarrow> network_stats" where
  "mark_online now s = s\<lparr>online_since := Some now\<rparr>"

definition mark_offline :: "network_stats \<Rightarrow> network_stats" where
  "mark_offline s = s\<lparr>online_since := None\<rparr>"

definition count_message_sent :: "bool \<Rightarrow> network_stats \<Rightarrow> network_stats option" where
  "count_message_sent checks s = map_option (\<lambda>n. s\<lparr>ns_messages_sent := n\<rparr>) (add_op checks (ns_messages_sent s) 1)"

definition count_message_received :: "bool \<Rightarrow> network_stats \<Rightarrow> network_stats option" where
  "count_message_received checks s = map_option (\<lambda>n. s\<lparr>ns_messages_received := n\<rparr>) (add_op checks (ns_messages_received s) 1)"

definition record_successful_join :: "bool \<Rightarrow> network_stats \<Rightarrow> network_stats option" where
  "record_successful_join checks s = map_option (\<lambda>n. s\<lparr>successful_joins := n\<rparr>) (add_op checks (successful_joins s) 1)"

definition record_failed_join :: "bool \<Rightarrow> network_stats \<Rightarrow> network_stats option" where
  "record_failed_join checks s = map_option (\<lambda>n. s\<lparr>failed_joins := n\<rparr>) (add_op checks (failed_joins s) 1)"

definition record_announcement_broadcast :: "bool \<Rightarrow> network_stats \<Rightarrow> network_stats option" where
  "record_announcement_broadcast checks s =
     map_option (\<lambda>n. s\<lparr>announcements_broadcast := n\<rparr>) (add_op checks (announcements_broadcast s) 1)"

definition record_provider_search :: "bool \<Rightarrow> network_stats \<Rightarrow> network_stats option" where
  "record_provider_search checks s = map_option (\<lambda>n. s\<lparr>provider_searches := n\<rparr>) (add_op checks (provider_searches s) 1)"

record provider_search_result =
  providers :: "announcement list"
  search_duration :: duration
  peers_queried :: nat

definition search_result_new :: "announcement list \<Rightarrow> duration \<Rightarrow> nat \<Rightarrow> provider_search_result" where
  "search_result_new ps d n = \<lparr>providers = ps, search_duration = d, peers_queried = n\<rparr>"

definition has_providers :: "provider_search_result \<Rightarrow> bool" where
  "has_providers r \<longleftrightarrow> providers r \<noteq> []"

definition provider_count :: "provider_search_result \<Rightarrow> nat" where
  "provider_count r = length (providers r)"

text \<open>\<open>NetworkInner\<close> together with the fields of \<open>MoltNetwork\<close>, which have locks of their own.\<close>

record network =
  net_config :: network_config
  net_local_peer_id :: peer_id
  net_connections :: connection_pool
  net_state :: network_state
  net_peer_table :: peer_table
  net_known_capacities :: "(peer_id, announcement) hashmap"
  net_stats :: network_stats
  net_our_announcement :: "announcement option"

definition network_new :: "network_config \<Rightarrow> string \<Rightarrow> network" where
  "network_new cfg verifying_key =
     \<lparr>net_config = cfg, net_local_peer_id = peer_id_from_public_key verifying_key,
      net_connections = connection_pool_new (pool_config_new (max_peers cfg)), net_state = Offline, net_peer_table = [],
      net_known_capacities = [], net_stats = network_stats_new, net_our_announcement = None\<rparr>"

definition network_known_peers :: "network \<Rightarrow> peer_id list" where
  "network_known_peers n = map pi_peer_id (all_peers (net_peer_table n))"

definition connection_count :: "network \<Rightarrow> nat" where
  "connection_count n = active_count (net_connections n)"

text \<open>The last two steps of a join. The bootstrap nodes are built and dropped.\<close>

definition come_online :: "bool \<Rightarrow> int \<Rightarrow> network \<Rightarrow> (p2p_error, unit, network) outcome option" where
  "come_online checks now n =
     map_option (\<lambda>s. (Inr (), n\<lparr>net_state := Online, net_stats := s\<rparr>))
       (record_successful_join checks (mark_online now (net_stats n)))"

definition join_network :: "bool \<Rightarrow> int \<Rightarrow> string list \<Rightarrow> network \<Rightarrow> (p2p_error, unit, network) outcome option" where
  "join_network checks now nodes n =
     (case net_state n of
        Online \<Rightarrow> Some (Inl (P2pProtocol ''Already online''), n)
      | Joining \<Rightarrow> Some (Inl (P2pProtocol ''Already joining''), n)
      | Leaving \<Rightarrow> Some (Inl (P2pProtocol ''Currently leaving''), n)
      | Offline \<Rightarrow>
          (let n1 = n\<lparr>net_state := Joining\<rparr>
           in if nodes = [] then come_online checks now n1
              else (let bs = map bootstrap_new nodes in come_online checks now n1)))"

text \<open>\<open>leave\<close>: up to the release of the lock, one removal of a connection, and from the second lock on.\<close>

definition leave_begin :: "network \<Rightarrow> (p2p_error, unit, network) outcome" where
  "leave_begin n =
     (if net_state n \<noteq> Online
      then (Inl (P2pProtocol (''Cannot leave: not online (state: '' @ show_network_state (net_state n) @ '')'')), n)
      else (Inr (), n\<lparr>net_state := Leaving\<rparr>))"

definition leave_remove :: "peer_id \<Rightarrow> network \<Rightarrow> network" where
  "leave_remove p n = n\<lparr>net_connections := snd (pool_remove p (net_connections n))\<rparr>"

definition leave_finish :: "network \<Rightarrow> network" where
  "leave_finish n = n\<lparr>net_state := Offline, net_stats := mark_offline (net_stats n), net_known_capacities := []\<rparr>"

definition leave :: "network \<Rightarrow> (p2p_error, unit, network) outcome" where
  "leave n =
     (case leave_begin n of
        (Inl e, n1) \<Rightarrow> (Inl e, n1)
      | (Inr _, n1) \<Rightarrow> (Inr (), leave_finish (fold leave_remove (pool_peer_ids (net_connections n1)) n1)))"

fun count_sent_times :: "bool \<Rightarrow> nat \<Rightarrow> network_stats \<Rightarrow> network_stats option" where
  "count_sent_times checks 0 s = Some s"
| "count_sent_times checks (Suc k) s = Option.bind (count_message_sent checks s) (count_sent_times checks k)"

definition broadcast_capacity ::
  "bool \<Rightarrow> announcement \<Rightarrow> network \<Rightarrow> (p2p_error, nat, network) outcome option" where
  "broadcast_capacity checks a n =
     (if \<not> is_operational (net_state n)
      then Some (Inl (P2pProtocol (''Cannot broadcast: not operational (state: '' @ show_network_state (net_state n) @ '')'')), n)
      else let n1 = n\<lparr>net_our_announcement := Some a\<rparr>; active_peers = connection_count n
           in map_option (\<lambda>s. (Inr active_peers, n1\<lparr>net_stats := s\<rparr>))
                (Option.bind (record_announcement_broadcast checks (net_stats n1)) (count_sent_times checks active_peers)))"

fun sum_counts :: "bool \<Rightarrow> u32 \<Rightarrow> gpu_info list \<Rightarrow> u32 option" where
  "sum_counts checks acc [] = Some acc"
| "sum_counts checks acc (g # gs) = Option.bind (add_op checks acc (gpu_count g)) (\<lambda>a. sum_counts checks a gs)"

definition lowercase :: "string \<Rightarrow> string" where
  "lowercase s = map to_lower s"

definition unmet_vram :: "announcement \<Rightarrow> capacity_requirements \<Rightarrow> bool" where
  "unmet_vram a r = (case cr_min_vram_gb r of None \<Rightarrow> False | Some v \<Rightarrow> \<not> list_ex (\<lambda>g. vram_gb g \<ge> v) (ann_gpus a))"

definition unmet_model :: "announcement \<Rightarrow> capacity_requirements \<Rightarrow> bool" where
  "unmet_model a r = (case cr_gpu_model r of None \<Rightarrow> False
     | Some m \<Rightarrow> \<not> list_ex (\<lambda>g. contains_text (lowercase (gpu_model_name g)) (lowercase m)) (ann_gpus a))"

definition unmet_job :: "announcement \<Rightarrow> capacity_requirements \<Rightarrow> bool" where
  "unmet_job a r = (case cr_job_type r of None \<Rightarrow> False | Some j \<Rightarrow> \<not> list_ex (\<lambda>t. t = j) (ann_job_types a))"

definition unmet_price :: "announcement \<Rightarrow> capacity_requirements \<Rightarrow> bool" where
  "unmet_price a r = (case cr_max_gpu_hour_cents r of None \<Rightarrow> False | Some c \<Rightarrow> gpu_hour_cents (ann_pricing a) > c)"

definition matches_requirements :: "bool \<Rightarrow> announcement \<Rightarrow> capacity_requirements \<Rightarrow> bool option" where
  "matches_requirements checks a r =
     (if unmet_vram a r then Some False
      else if unmet_model a r then Some False
      else case cr_min_gpu_count r of
        None \<Rightarrow> Some (\<not> unmet_job a r \<and> \<not> unmet_price a r)
      | Some min_count \<Rightarrow>
          (case sum_counts checks 0 (ann_gpus a) of
             None \<Rightarrow> None
           | Some gpus \<Rightarrow>
               if gpus < min_count then Some False else Some (\<not> unmet_job a r \<and> \<not> unmet_price a r)))"

text \<open>The filter of the search; it stops at the first announcement whose check panics.\<close>

fun matching :: "bool \<Rightarrow> int \<Rightarrow> capacity_requirements \<Rightarrow> announcement list \<Rightarrow> announcement list option" where
  "matching checks now r [] = Some []"
| "matching checks now r (a # as) =
     (if ann_is_expired now a then matching checks now r as
      else case matches_requirements checks a r of
        None \<Rightarrow> None
      | Some ok \<Rightarrow> map_option (\<lambda>bs. if ok then a # bs else bs) (matching checks now r as))"

definition find_providers ::
  "bool \<Rightarrow> int \<Rightarrow> duration \<Rightarrow> capacity_requirements \<Rightarrow> nat \<Rightarrow> network \<Rightarrow> (p2p_error, provider_search_result, network) outcome option" where
  "find_providers checks now elapsed r max_results n =
     (if \<not> is_operational (net_state n)
      then Some (Inl (P2pProtocol (''Cannot search: not operational (state: '' @ show_network_state (net_state n) @ '')'')), n)
      else case record_provider_search checks (net_stats n) of
        None \<Rightarrow> None
      | Some s \<Rightarrow>
          (let n1 = n\<lparr>net_stats := s\<rparr>
           in map_option (\<lambda>ms. (Inr (search_result_new (take max_results ms) elapsed (connection_count n1)), n1))
                (matching checks now r (hm_values (net_known_capacities n1)))))"

definition store_capacity :: "int \<Rightarrow> announcement \<Rightarrow> network \<Rightarrow> network" where
  "store_capacity now a n =
     (if ann_is_expired now a then n
      else n\<lparr>net_known_capacities := hm_insert (ann_peer_id a) a (net_known_capacities n)\<rparr>)"

definition cleanup_expired_capacities :: "int \<Rightarrow> network \<Rightarrow> nat \<times> network" where
  "cleanup_expired_capacities now n =
     (let initial = length (net_known_capacities n);
          kept = hm_retain (\<lambda>_ a. \<not> ann_is_expired now a) (net_known_capacities n)
      in (initial - length kept, n\<lparr>net_known_capacities := kept\<rparr>))"

definition add_peer :: "peer_info \<Rightarrow> network \<Rightarrow> network" where
  "add_peer i n = n\<lparr>net_peer_table := table_insert i (net_peer_table n)\<rparr>"

definition remove_peer :: "peer_id \<Rightarrow> network \<Rightarrow> network" where
  "remove_peer p n = n\<lparr>net_peer_table := table_remove p (net_peer_table n),
     net_known_capacities := hm_remove p (net_known_capacities n)\<rparr>"

definition get_peer :: "network \<Rightarrow> peer_id \<Rightarrow> peer_info option" where
  "get_peer n p = table_get (net_peer_table n) p"

section \<open>Searches\<close>

text \<open>What a search asks for, with the number of GPUs as a natural number.\<close>

definition total_gpus :: "gpu_info list \<Rightarrow> nat" where
  "total_gpus gs = sum_list (map (\<lambda>g. unat (gpu_count g)) gs)"

definition meets :: "announcement \<Rightarrow> capacity_requirements \<Rightarrow> bool" where
  "meets a r \<longleftrightarrow>
     (\<forall>v. cr_min_vram_gb r = Some v \<longrightarrow> (\<exists>g \<in> set (ann_gpus a). v \<le> vram_gb g)) \<and>
     (\<forall>m. cr_gpu_model r = Some m \<longrightarrow> (\<exists>g \<in> set (ann_gpus a). contains_text (lowercase (gpu_model_name g)) (lowercase m))) \<and>
     (\<forall>k. cr_min_gpu_count r = Some k \<longrightarrow> unat k \<le> total_gpus (ann_gpus a)) \<and>
     (\<forall>j. cr_job_type r = Some j \<longrightarrow> j \<in> set (ann_job_types a)) \<and>
     (\<forall>c. cr_max_gpu_hour_cents r = Some c \<longrightarrow> gpu_hour_cents (ann_pricing a) \<le> c)"

lemma unat_sum_counts:
  "unat acc + total_gpus gs < 2 ^ 32 \<Longrightarrow>
   \<exists>n. sum_counts checks acc gs = Some n \<and> unat n = unat acc + total_gpus gs"
proof (induction gs arbitrary: acc)
  case (Cons g gs)
  let ?a = "acc + gpu_count g"
  have s: "unat acc + unat (gpu_count g) < 2 ^ LENGTH(32)" using Cons.prems by (simp add: total_gpus_def)
  then have a: "unat ?a = unat acc + unat (gpu_count g)" by (rule unat_add_exact)
  have "unat ?a + total_gpus gs < 2 ^ 32" using Cons.prems a by (simp add: total_gpus_def)
  from Cons.IH [OF this] show ?case using a s by (auto simp: add_op_def checked_add_def total_gpus_def)
qed (simp add: total_gpus_def)

lemma matches_requirements_meets:
  assumes "total_gpus (ann_gpus a) < 2 ^ 32"
  shows "matches_requirements checks a r = Some (meets a r)"
proof -
  obtain n where "sum_counts checks 0 (ann_gpus a) = Some n" "unat n = total_gpus (ann_gpus a)"
    using unat_sum_counts [of 0 "ann_gpus a" checks] assms by auto
  then show ?thesis
    by (auto simp: matches_requirements_def meets_def unmet_vram_def unmet_model_def unmet_job_def unmet_price_def list_ex_iff
        word_less_nat_alt word_le_nat_alt not_le not_less split: option.split)
qed

lemma matching_filter:
  "\<forall>a \<in> set as. total_gpus (ann_gpus a) < 2 ^ 32 \<Longrightarrow>
   matching checks now r as = Some (filter (\<lambda>a. \<not> ann_is_expired now a \<and> meets a r) as)"
  by (induction as) (simp_all add: matches_requirements_meets)

lemma add_one_Some:
  fixes x :: u64
  assumes "x < u64_max"
  shows "add_op checks x 1 = Some (x + 1)"
  using assms by (simp add: add_op_def checked_add_def word_less_nat_alt)

text \<open>
  A search is exact: on an online network, while the announced counts of GPUs fit 32 bits, \<open>find_providers\<close> returns the first
  \<open>max_results\<close> of exactly those known announcements that are not expired and meet every requirement, and changes nothing but its
  counter; on any other network it fails and changes nothing.
\<close>

theorem find_providers_exact:
  assumes "\<forall>a \<in> set (hm_values (net_known_capacities n)). total_gpus (ann_gpus a) < 2 ^ 32"
    and "provider_searches (net_stats n) < u64_max"
  shows "find_providers checks now elapsed r k n =
    (if net_state n = Online
     then Some (Inr \<lparr>providers = take k (filter (\<lambda>a. \<not> ann_is_expired now a \<and> meets a r) (hm_values (net_known_capacities n))),
                     search_duration = elapsed, peers_queried = connection_count n\<rparr>,
                n\<lparr>net_stats := (net_stats n)\<lparr>provider_searches := provider_searches (net_stats n) + 1\<rparr>\<rparr>)
     else Some (Inl (P2pProtocol (''Cannot search: not operational (state: '' @ show_network_state (net_state n) @ '')'')), n))"
proof (cases "net_state n = Online")
  case True
  let ?n = "n\<lparr>net_stats := (net_stats n)\<lparr>provider_searches := provider_searches (net_stats n) + 1\<rparr>\<rparr>"
  have "connection_count ?n = connection_count n" by (simp add: connection_count_def)
  then show ?thesis using True assms
    by (simp add: find_providers_def record_provider_search_def add_one_Some matching_filter search_result_new_def)
next
  case False
  then have "\<not> is_operational (net_state n)" by (cases "net_state n") simp_all
  then show ?thesis using False by (simp add: find_providers_def)
qed

definition demo_gpu_info :: "string \<Rightarrow> u32 \<Rightarrow> u32 \<Rightarrow> gpu_info" where
  "demo_gpu_info m v c = \<lparr>gpu_model_name = m, vram_gb = v, gpu_count = c\<rparr>"

definition demo_offer_of :: "string \<Rightarrow> gpu_info list \<Rightarrow> u64 \<Rightarrow> announcement" where
  "demo_offer_of p gs c = announcement_new 0 p gs \<lparr>gpu_hour_cents = c, cpu_hour_cents = 1\<rparr> [''training''] 1000"

definition demo_network :: "announcement list \<Rightarrow> network" where
  "demo_network as = (network_new network_config_default ''me'')\<lparr>net_state := Online,
     net_known_capacities := map (\<lambda>a. (ann_peer_id a, a)) as\<rparr>"

lemmas demo_network_simps = demo_network_def demo_offer_of_def demo_gpu_info_def announcement_new_def network_new_def
  network_stats_new_def total_gpus_def meets_def ann_is_expired_def

theorem find_providers_exact_witness:
  "map_option (\<lambda>(x, _). case x of Inr res \<Rightarrow> map ann_peer_id (providers res) | Inl _ \<Rightarrow> [])
     (find_providers True 5 1 (with_max_price 50 (with_min_vram 40 requirements_any)) 10
        (demo_network [demo_offer_of ''dear'' [demo_gpu_info ''A100'' 80 8] 90, demo_offer_of ''small'' [demo_gpu_info ''T4'' 16 4] 10,
           demo_offer_of ''fits'' [demo_gpu_info ''A100'' 80 2] 50])) = Some [''fits'']"
  by (subst find_providers_exact) (simp_all add: demo_network_simps with_max_price_def with_min_vram_def requirements_any_def)

text \<open>Memory and model are asked of the GPUs one by one, so two GPUs together satisfy what neither does.\<close>

lemma split_requirement_matches:
  "let r = with_required_model ''4090'' (with_min_vram 80 requirements_any);
       a = demo_offer_of ''p'' [demo_gpu_info ''RTX 4090'' 24 1, demo_gpu_info ''A100'' 80 1] 10
   in matches_requirements checks a r = Some True \<and>
      \<not> (\<exists>g \<in> set (ann_gpus a). vram_gb g \<ge> 80 \<and> contains_text (gpu_model_name g) ''4090'')"
proof -
  let ?r = "with_required_model ''4090'' (with_min_vram 80 requirements_any)"
  let ?a = "demo_offer_of ''p'' [demo_gpu_info ''RTX 4090'' 24 1, demo_gpu_info ''A100'' 80 1] 10"
  have "matches_requirements checks ?a ?r = Some (meets ?a ?r)"
    by (rule matches_requirements_meets) (simp add: demo_network_simps)
  moreover have "meets ?a ?r"
    by (simp add: demo_network_simps with_required_model_def with_min_vram_def requirements_any_def lowercase_def)
  moreover have "\<not> (\<exists>g \<in> set (ann_gpus ?a). vram_gb g \<ge> 80 \<and> contains_text (gpu_model_name g) ''4090'')"
    by (simp add: demo_network_simps)
  ultimately show ?thesis by (simp add: Let_def)
qed

text \<open>One announcement whose counts do not fit 32 bits together makes every search with a minimum count panic in a build with checks.\<close>

lemma huge_counts_panic:
  "find_providers True 5 1 (with_min_gpu_count 1 requirements_any) 10
     (demo_network [demo_offer_of ''p'' [demo_gpu_info ''A100'' 80 4294967295, demo_gpu_info ''A100'' 80 1] 10]) = None"
  by (simp add: find_providers_def record_provider_search_def demo_network_simps with_min_gpu_count_def requirements_any_def
      matches_requirements_def unmet_vram_def unmet_model_def add_op_def checked_add_def)

section \<open>Life cycle\<close>

text \<open>The operations that run under one lock. An operation that panics has no successor.\<close>

datatype net_op =
    Do_join int "string list" | Do_broadcast announcement | Do_find int duration capacity_requirements nat
  | Do_store int announcement | Do_cleanup int | Do_add_peer peer_info | Do_remove_peer peer_id

fun net_apply :: "bool \<Rightarrow> net_op \<Rightarrow> network \<Rightarrow> network option" where
  "net_apply checks (Do_join t ns) n = map_option snd (join_network checks t ns n)"
| "net_apply checks (Do_broadcast a) n = map_option snd (broadcast_capacity checks a n)"
| "net_apply checks (Do_find t d r k) n = map_option snd (find_providers checks t d r k n)"
| "net_apply checks (Do_store t a) n = Some (store_capacity t a n)"
| "net_apply checks (Do_cleanup t) n = Some (snd (cleanup_expired_capacities t n))"
| "net_apply checks (Do_add_peer i) n = Some (add_peer i n)"
| "net_apply checks (Do_remove_peer p) n = Some (remove_peer p n)"

text \<open>Where a call of \<open>leave\<close> stands after its first lock: before it lists the connections, or with connections left to remove.\<close>

datatype leave_task = Listing | Removing "peer_id list"

text \<open>The network and the calls of \<open>leave\<close> in flight. A call may also be dropped, as a future that is not polled any more is.\<close>

inductive net_step :: "bool \<Rightarrow> bool \<Rightarrow> network \<times> leave_task list \<Rightarrow> network \<times> leave_task list \<Rightarrow> bool"
  for checks drops :: bool where
  op: "net_apply checks e n = Some n' \<Longrightarrow> net_step checks drops (n, ts) (n', ts)"
| begin_leave: "leave_begin n = (Inr (), n') \<Longrightarrow> net_step checks drops (n, ts) (n', Listing # ts)"
| refuse_leave: "leave_begin n = (Inl e, n') \<Longrightarrow> net_step checks drops (n, ts) (n', ts)"
| list_connections: "net_step checks drops (n, us @ Listing # ts) (n, us @ Removing (pool_peer_ids (net_connections n)) # ts)"
| remove_one: "net_step checks drops (n, us @ Removing (p # ps) # ts) (leave_remove p n, us @ Removing ps # ts)"
| finish: "net_step checks drops (n, us @ Removing [] # ts) (leave_finish n, us @ ts)"
| drop: "drops \<Longrightarrow> net_step checks drops (n, us @ t # ts) (n, us @ ts)"

inductive_cases net_stepE: "net_step checks drops s s'"

definition net_reachable :: "bool \<Rightarrow> bool \<Rightarrow> network_config \<Rightarrow> string \<Rightarrow> network \<times> leave_task list \<Rightarrow> bool" where
  "net_reachable checks drops cfg key s \<longleftrightarrow> (net_step checks drops)\<^sup>*\<^sup>* (network_new cfg key, []) s"

text \<open>What an operation does to the state, the time of joining and the pool.\<close>

lemma join_cases:
  assumes "join_network checks t ns n = Some (x, n')"
  obtains (refused) e where "net_state n \<noteq> Offline" "x = Inl e" "n' = n"
  | (joined) "net_state n = Offline" "x = Inr ()" "net_state n' = Online" "online_since (net_stats n') = Some t"
      "net_connections n' = net_connections n" "net_known_capacities n' = net_known_capacities n"
  using assms
  by (cases "net_state n")
    (auto simp: join_network_def Let_def come_online_def record_successful_join_def mark_online_def split: if_splits)

lemma count_sent_times_online: "count_sent_times checks k s = Some s' \<Longrightarrow> online_since s' = online_since s"
  by (induction k arbitrary: s) (auto simp: bind_eq_Some_conv count_message_sent_def)

lemma net_apply_frame:
  assumes "net_apply checks e n = Some n'" and "\<And>t ns. e \<noteq> Do_join t ns"
  shows "net_state n' = net_state n" "online_since (net_stats n') = online_since (net_stats n)"
    "net_connections n' = net_connections n"
proof -
  have "net_state n' = net_state n \<and> online_since (net_stats n') = online_since (net_stats n) \<and> net_connections n' = net_connections n"
    using assms
  proof (cases e)
    case (Do_broadcast a)
    then show ?thesis using assms
      by (auto simp: broadcast_capacity_def Let_def bind_eq_Some_conv record_announcement_broadcast_def
          dest!: count_sent_times_online split: if_splits)
  next
    case (Do_find t d r k)
    then show ?thesis using assms
      by (auto simp: find_providers_def Let_def record_provider_search_def split: if_splits option.splits)
  qed (auto simp: store_capacity_def cleanup_expired_capacities_def Let_def add_peer_def remove_peer_def)
  then show "net_state n' = net_state n" "online_since (net_stats n') = online_since (net_stats n)"
    "net_connections n' = net_connections n" by auto
qed

definition net_inv :: "bool \<Rightarrow> network \<times> leave_task list \<Rightarrow> bool" where
  "net_inv drops s \<longleftrightarrow> (case s of (n, ts) \<Rightarrow>
     length ts \<le> 1 \<and> (ts \<noteq> [] \<longrightarrow> net_state n = Leaving) \<and> (\<not> drops \<and> net_state n = Leaving \<longrightarrow> ts \<noteq> []) \<and>
     net_state n \<noteq> Joining \<and> (online_since (net_stats n) = None \<longleftrightarrow> net_state n = Offline) \<and>
     pool_connections (net_connections n) = [])"

lemma leave_remove_frame:
  "net_state (leave_remove p n) = net_state n" "net_stats (leave_remove p n) = net_stats n"
  "pool_connections (net_connections n) = [] \<Longrightarrow> net_connections (leave_remove p n) = net_connections n"
  by (simp_all add: leave_remove_def pool_remove_def)

lemma op_net_inv:
  assumes "net_apply checks e n = Some n'" and "net_inv drops (n, ts)"
  shows "net_inv drops (n', ts)"
proof (cases "\<exists>t ns. e = Do_join t ns")
  case True
  then obtain t ns x where "join_network checks t ns n = Some (x, n')" using assms(1) by auto
  then show ?thesis using assms(2) by (cases rule: join_cases) (auto simp: net_inv_def)
next
  case False
  then show ?thesis using assms net_apply_frame [OF assms(1)] by (simp add: net_inv_def)
qed

lemma net_step_inv: "net_step checks drops s s' \<Longrightarrow> net_inv drops s \<Longrightarrow> net_inv drops s'"
proof (induction rule: net_step.induct)
  case (op e n n' ts)
  then show ?case by (rule op_net_inv)
qed (auto simp: net_inv_def leave_begin_def leave_remove_frame leave_finish_def mark_offline_def split: if_splits)

lemma net_reachable_inv: "net_reachable checks drops cfg key s \<Longrightarrow> net_inv drops s"
  unfolding net_reachable_def
proof (induction rule: rtranclp_induct)
  case base
  show ?case by (simp add: net_inv_def network_new_def network_stats_new_def connection_pool_new_def)
qed (blast intro: net_step_inv)

text \<open>
  C33. \<^bold>\<open>Joining and leaving exclude each other.\<close> In every state that interleaved operations reach, also when calls are dropped midway, at
  most one call of \<open>leave\<close> is in flight, and only while the network is leaving; nobody ever sees the network joining; and the time it came
  online is known exactly while it is not offline. When no call is dropped, a call of \<open>leave\<close> is in flight exactly while the network is leaving.
\<close>

theorem network_lifecycle:
  assumes "net_reachable checks drops cfg key (n, ts)"
  shows "length ts \<le> 1 \<and> (ts \<noteq> [] \<longrightarrow> net_state n = Leaving) \<and> net_state n \<noteq> Joining \<and>
    (online_since (net_stats n) = None \<longleftrightarrow> net_state n = Offline) \<and>
    (\<not> drops \<longrightarrow> (ts \<noteq> [] \<longleftrightarrow> net_state n = Leaving))"
  using net_reachable_inv [OF assms] by (auto simp: net_inv_def)

theorem network_lifecycle_witness:
  "let n = (network_new network_config_default ''me'')\<lparr>net_state := Leaving,
       net_stats := network_stats_new\<lparr>successful_joins := 1, online_since := Some 7\<rparr>\<rparr>
   in net_reachable True False network_config_default ''me'' (n, [Listing]) \<and>
      length [Listing] \<le> 1 \<and> (online_since (net_stats n) = None \<longleftrightarrow> net_state n = Offline)"
proof -
  let ?s = "network_stats_new\<lparr>successful_joins := 1, online_since := Some 7\<rparr>"
  let ?start = "network_new network_config_default ''me''" and ?online = "(network_new network_config_default ''me'')\<lparr>net_state := Online, net_stats := ?s\<rparr>"
  let ?n = "(network_new network_config_default ''me'')\<lparr>net_state := Leaving, net_stats := ?s\<rparr>"
  have "net_apply True (Do_join 7 []) ?start = Some ?online"
    by (simp add: join_network_def come_online_def record_successful_join_def mark_online_def network_new_def network_stats_new_def add_one_Some)
  then have "net_step True False (?start, []) (?online, [])" by (rule net_step.op)
  moreover have "net_step True False (?online, []) (?n, [Listing])"
    by (rule net_step.begin_leave) (simp add: leave_begin_def)
  ultimately have r: "net_reachable True False network_config_default ''me'' (?n, [Listing])"
    unfolding net_reachable_def by (meson converse_rtranclp_into_rtranclp rtranclp.rtrancl_refl)
  show ?thesis using network_lifecycle [OF r] r by (simp add: Let_def)
qed

section \<open>Consequences\<close>

text \<open>The operations never add a connection, so a broadcast reaches no peer, whatever the peer table holds.\<close>

theorem broadcast_reaches_nobody:
  assumes "net_reachable checks drops cfg key (n, ts)" and "broadcast_capacity checks a n = Some (Inr k, n')"
  shows "k = 0" and "ns_messages_sent (net_stats n') = ns_messages_sent (net_stats n)"
proof -
  have z: "connection_count n = 0"
    using net_reachable_inv [OF assms(1)] by (simp add: net_inv_def connection_count_def active_count_def)
  then show "k = 0" using assms(2) by (auto simp: broadcast_capacity_def Let_def split: if_splits)
  show "ns_messages_sent (net_stats n') = ns_messages_sent (net_stats n)"
    using assms(2) z
    by (auto simp: broadcast_capacity_def Let_def record_announcement_broadcast_def bind_eq_Some_conv split: if_splits)
qed

text \<open>A call of \<open>leave\<close> that is dropped after its first lock leaves the network in the leaving state for good: joining, leaving, broadcasting and searching all fail.\<close>

theorem dropped_leave_is_final:
  assumes "(net_step checks drops)\<^sup>*\<^sup>* (n, []) (n', ts)" and "net_state n = Leaving"
  shows "net_state n' = Leaving \<and> ts = []"
  using assms(1)
proof (induction "(n', ts)" arbitrary: n' ts rule: rtranclp_induct)
  case base
  then show ?case using assms(2) by simp
next
  case (step s)
  obtain m where s: "s = (m, [])" "net_state m = Leaving" using step.hyps(3) [of "fst s" "snd s"] by (cases s) auto
  from step.hyps(2) show ?case unfolding s(1)
  proof (cases rule: net_step.cases)
    case (op e)
    then show ?thesis using s(2) net_apply_frame(1) [OF op(2)]
      by (cases e) (auto simp: join_network_def)
  qed (use s(2) in \<open>auto simp: leave_begin_def\<close>)
qed

text \<open>Leaving without interference: the network is offline and has forgotten the announcements of its peers but not the peers.\<close>

theorem leave_effect:
  assumes "net_state n = Online" and "pool_connections (net_connections n) = []"
  shows "leave n = (Inr (), n\<lparr>net_state := Offline, net_stats := mark_offline (net_stats n), net_known_capacities := []\<rparr>)"
  using assms by (simp add: leave_def leave_begin_def leave_finish_def pool_peer_ids_def)

text \<open>The pool takes the number of peers from the configuration but none of the limits of its \<open>connection_config\<close>.\<close>

lemma connection_config_ignored:
  "network_new (cfg\<lparr>connection_config := c\<rparr>) key = (network_new cfg key)\<lparr>net_config := cfg\<lparr>connection_config := c\<rparr>\<rparr>"
  by (simp add: network_new_def)

text \<open>Known announcements stay filed under their peer.\<close>

definition caps_wf :: "network \<Rightarrow> bool" where
  "caps_wf n \<longleftrightarrow> hm_wf (net_known_capacities n) \<and> (\<forall>x \<in> set (net_known_capacities n). ann_peer_id (snd x) = fst x)"

lemma hm_insert_subset: "set (hm_insert k v m) \<subseteq> insert (k, v) (set m)"
  unfolding hm_insert_def by (induction m) auto

lemma hm_remove_subset: "set (hm_remove k m) \<subseteq> set m"
  unfolding hm_remove_def by (induction m) auto

lemma store_caps: "caps_wf n \<Longrightarrow> caps_wf (store_capacity t a n)"
  using hm_insert_subset [of "ann_peer_id a" a "net_known_capacities n"]
  by (fastforce simp: caps_wf_def store_capacity_def)

lemma remove_caps: "caps_wf n \<Longrightarrow> caps_wf (remove_peer p n)"
  using hm_remove_subset [of p "net_known_capacities n"] by (auto simp: caps_wf_def remove_peer_def)

lemma cleanup_caps: "caps_wf n \<Longrightarrow> caps_wf (snd (cleanup_expired_capacities t n))"
  using hm_wf_retain [of "net_known_capacities n" "\<lambda>_ a. \<not> ann_is_expired t a"]
  by (auto simp: caps_wf_def cleanup_expired_capacities_def Let_def hm_retain_def)

lemma caps_frame: "net_known_capacities n' = net_known_capacities n \<Longrightarrow> caps_wf n' = caps_wf n"
  by (simp add: caps_wf_def)

lemma op_caps: "net_apply checks e n = Some n' \<Longrightarrow> caps_wf n \<Longrightarrow> caps_wf n'"
proof (induction e)
  case (Do_join t ns)
  then obtain x where "join_network checks t ns n = Some (x, n')" by auto
  then have "net_known_capacities n' = net_known_capacities n" by (cases rule: join_cases) simp_all
  then show ?case using Do_join(2) by (metis caps_frame)
next
  case (Do_broadcast a)
  then have "net_known_capacities n' = net_known_capacities n"
    by (auto simp: broadcast_capacity_def Let_def split: if_splits)
  then show ?case using Do_broadcast(2) by (metis caps_frame)
next
  case (Do_find t d r k)
  then have "net_known_capacities n' = net_known_capacities n"
    by (auto simp: find_providers_def Let_def split: if_splits option.splits)
  then show ?case using Do_find(2) by (metis caps_frame)
next
  case (Do_add_peer i)
  then show ?case by (auto simp: caps_wf_def add_peer_def)
qed (auto simp: store_caps cleanup_caps remove_caps)

lemma step_caps: "net_step checks drops s s' \<Longrightarrow> caps_wf (fst s) \<Longrightarrow> caps_wf (fst s')"
proof (induction rule: net_step.induct)
  case (op e n n' ts)
  then show ?case by (simp add: op_caps)
qed (auto simp: caps_wf_def leave_begin_def leave_remove_def leave_finish_def split: if_splits)

theorem announcements_filed_by_peer:
  assumes "net_reachable checks drops cfg key (n, ts)" and "(p, a) \<in> set (net_known_capacities n)"
  shows "ann_peer_id a = p" and "hm_get (net_known_capacities n) p = Some a"
proof -
  have "caps_wf (fst (n, ts))" using assms(1) unfolding net_reachable_def
    by (induction rule: rtranclp_induct) (simp add: caps_wf_def network_new_def, blast intro: step_caps)
  then show "ann_peer_id a = p" "hm_get (net_known_capacities n) p = Some a"
    using assms(2) by (auto simp: caps_wf_def)
qed

end
