(* ===== verification/Nat_Traversal.thy ===== *)
theory Nat_Traversal
  imports P2p_Network
begin

text \<open>
  Endpoint discovery behind address translation, \<open>crates/molt-p2p/src/nat.rs\<close>: the request, the parser of STUN responses, the
  classification and the search over the configured servers. Sockets are parameters: what binding gives, and for every request the
  datagram that comes back or the text of an error. An index out of range is \<^const>\<open>None\<close>; the parser is shown never to
  have one.
\<close>

unbundle bit_operations_syntax

section \<open>Data\<close>

datatype nat_type = NoNat | FullCone | RestrictedCone | PortRestrictedCone | Symmetric | UnknownNat

fun supports_direct_connection :: "nat_type \<Rightarrow> bool" where
  "supports_direct_connection NoNat = True"
| "supports_direct_connection FullCone = True"
| "supports_direct_connection RestrictedCone = True"
| "supports_direct_connection PortRestrictedCone = True"
| "supports_direct_connection _ = False"

fun may_need_relay :: "nat_type \<Rightarrow> bool" where
  "may_need_relay Symmetric = True"
| "may_need_relay UnknownNat = True"
| "may_need_relay _ = False"

fun show_nat_type :: "nat_type \<Rightarrow> string" where
  "show_nat_type NoNat = ''No NAT''"
| "show_nat_type FullCone = ''Full Cone''"
| "show_nat_type RestrictedCone = ''Restricted Cone''"
| "show_nat_type PortRestrictedCone = ''Port Restricted Cone''"
| "show_nat_type Symmetric = ''Symmetric''"
| "show_nat_type UnknownNat = ''Unknown''"

definition DEFAULT_STUN_SERVERS :: "string list" where
  "DEFAULT_STUN_SERVERS = [''stun.l.google.com:19302'', ''stun1.l.google.com:19302'', ''stun2.l.google.com:19302'',
     ''stun3.l.google.com:19302'']"

record endpoint_discovery =
  external_endpoint :: socket_addr
  local_endpoint :: socket_addr
  ed_nat_type :: nat_type
  ed_stun_server :: string

record nat_traversal =
  stun_servers :: "socket_addr list"
  stun_timeout :: duration
  cached_endpoint :: "endpoint_discovery option"

definition nat_traversal_new :: "socket_addr list \<Rightarrow> p2p_error + nat_traversal" where
  "nat_traversal_new servers =
     (if servers = [] then Inl (P2pDiscovery ''At least one STUN server is required'')
      else Inr \<lparr>stun_servers = servers, stun_timeout = 5 * 1000000000, cached_endpoint = None\<rparr>)"

text \<open>The resolver is a parameter: the addresses of a name, if it resolves.\<close>

definition first_addresses :: "(string \<Rightarrow> socket_addr list option) \<Rightarrow> string list \<Rightarrow> socket_addr list" where
  "first_addresses resolve names =
     concat (map (\<lambda>s. case resolve s of Some (a # _) \<Rightarrow> [a] | _ \<Rightarrow> []) names)"

definition nat_with_defaults :: "(string \<Rightarrow> socket_addr list option) \<Rightarrow> p2p_error + nat_traversal" where
  "nat_with_defaults resolve =
     (let servers = first_addresses resolve DEFAULT_STUN_SERVERS
      in if servers = [] then Inl (P2pDiscovery ''Failed to resolve any default STUN servers'')
         else Inr \<lparr>stun_servers = servers, stun_timeout = 5 * 1000000000, cached_endpoint = None\<rparr>)"

definition nat_with_timeout :: "duration \<Rightarrow> nat_traversal \<Rightarrow> nat_traversal" where
  "nat_with_timeout d t = t\<lparr>stun_timeout := d\<rparr>"

definition nat_default :: nat_traversal where
  "nat_default = \<lparr>stun_servers = [], stun_timeout = 5 * 1000000000, cached_endpoint = None\<rparr>"

section \<open>Reading responses\<close>

definition from_be_u16 :: "u8 \<Rightarrow> u8 \<Rightarrow> u16" where
  "from_be_u16 a b = of_nat (256 * unat a + unat b)"

definition from_be_u32 :: "u8 \<Rightarrow> u8 \<Rightarrow> u8 \<Rightarrow> u8 \<Rightarrow> u32" where
  "from_be_u32 a b c d = of_nat (16777216 * unat a + 65536 * unat b + 256 * unat c + unat d)"

definition ipv4_from_u32 :: "u32 \<Rightarrow> ip_addr" where
  "ipv4_from_u32 w = V4 (of_nat (unat w div 16777216)) (of_nat (unat w div 65536)) (of_nat (unat w div 256)) (of_nat (unat w))"

definition parse_xor_mapped_address :: "u8 list \<Rightarrow> p2p_error + socket_addr" where
  "parse_xor_mapped_address data =
     (if length data < 8 then Inl (P2pDiscovery ''XOR-MAPPED-ADDRESS too short'')
      else let family = data ! 1; xor_port = from_be_u16 (data ! 2) (data ! 3); port = xor_port XOR 0x2112
           in if family = 1
              then let xor_addr = from_be_u32 (data ! 4) (data ! 5) (data ! 6) (data ! 7); addr = xor_addr XOR 0x2112a442
                   in Inr (SocketAddr (ipv4_from_u32 addr) port)
              else if family = 2 then Inl (P2pDiscovery ''IPv6 XOR-MAPPED-ADDRESS not supported'')
              else Inl (P2pDiscovery (''Unknown address family: '' @ show_nat (unat family))))"

definition parse_mapped_address :: "u8 list \<Rightarrow> p2p_error + socket_addr" where
  "parse_mapped_address data =
     (if length data < 8 then Inl (P2pDiscovery ''MAPPED-ADDRESS too short'')
      else let family = data ! 1; port = from_be_u16 (data ! 2) (data ! 3)
           in if family = 1 then Inr (SocketAddr (V4 (data ! 4) (data ! 5) (data ! 6) (data ! 7)) port)
              else Inl (P2pDiscovery (''Unknown address family: '' @ show_nat (unat family))))"

definition byte_at :: "u8 list \<Rightarrow> nat \<Rightarrow> u8 option" where
  "byte_at r i = (if i < length r then Some (r ! i) else None)"

definition byte_slice :: "u8 list \<Rightarrow> nat \<Rightarrow> nat \<Rightarrow> u8 list option" where
  "byte_slice r a b = (if a \<le> b \<and> b \<le> length r then Some (take (b - a) (drop a r)) else None)"

definition u16_at :: "u8 list \<Rightarrow> nat \<Rightarrow> u16 option" where
  "u16_at r i = Option.bind (byte_at r i) (\<lambda>a. Option.bind (byte_at r (i + 1)) (\<lambda>b. Some (from_be_u16 a b)))"

text \<open>\<open>(n + 3) & !3\<close>.\<close>

definition pad4 :: "nat \<Rightarrow> nat" where
  "pad4 n = 4 * ((n + 3) div 4)"

text \<open>The loop over the attributes, up to the end that the header announces.\<close>

function parse_attributes :: "u8 list \<Rightarrow> nat \<Rightarrow> nat \<Rightarrow> (p2p_error + socket_addr) option" where
  "parse_attributes r stop offset =
     (if offset + 4 \<le> stop
      then Option.bind (u16_at r offset) (\<lambda>attr_type. Option.bind (u16_at r (offset + 2)) (\<lambda>l.
        let attr_len = unat l
        in if offset + 4 + attr_len > length r then Some (Inl (P2pDiscovery ''No mapped address in STUN response''))
           else if attr_type = 0x20 then map_option parse_xor_mapped_address (byte_slice r (offset + 4) (offset + 4 + attr_len))
           else if attr_type = 1 then map_option parse_mapped_address (byte_slice r (offset + 4) (offset + 4 + attr_len))
           else parse_attributes r stop (offset + (4 + pad4 attr_len))))
      else Some (Inl (P2pDiscovery ''No mapped address in STUN response'')))"
  by pat_completeness auto

termination
  by (relation "measure (\<lambda>(r, stop, offset). stop - offset)") auto

declare parse_attributes.simps [simp del]

text \<open>\<open>{:02x}\<close> of a byte.\<close>

definition show_hex2 :: "u8 \<Rightarrow> string" where
  "show_hex2 b = [hex_digit (unat b div 16), hex_digit (unat b mod 16)]"

definition parse_stun_response :: "u8 list \<Rightarrow> (p2p_error + socket_addr) option" where
  "parse_stun_response r =
     (if length r < 20 then Some (Inl (P2pDiscovery ''STUN response too short''))
      else if r ! 0 \<noteq> 1 \<or> r ! 1 \<noteq> 1
      then Some (Inl (P2pDiscovery (''Unexpected STUN message type: '' @ show_hex2 (r ! 0) @ show_hex2 (r ! 1))))
      else if byte_slice r 4 8 \<noteq> Some [0x21, 0x12, 0xa4, 0x42] then Some (Inl (P2pDiscovery ''Invalid STUN magic cookie''))
      else let msg_len = unat (from_be_u16 (r ! 2) (r ! 3))
           in if length r < 20 + msg_len then Some (Inl (P2pDiscovery ''STUN response truncated''))
              else parse_attributes r (20 + msg_len) 20)"

section \<open>Discovery\<close>

definition binding_request :: "u8 list" where
  "binding_request = [0, 1, 0, 0, 0x21, 0x12, 0xa4, 0x42] @ map (\<lambda>i. of_nat i + 1) [0..<12]"

text \<open>What the sockets do: the results of binding, of setting the timeout, of asking for the local address, of sending, and of receiving.\<close>

record socket_env =
  bind_result :: "string + unit"
  set_timeout_result :: "string + unit"
  local_addr_result :: "string + socket_addr"
  send_result :: "socket_addr \<Rightarrow> u8 list \<Rightarrow> string + unit"
  recv_result :: "socket_addr \<Rightarrow> string + u8 list"
  show_socket :: "socket_addr \<Rightarrow> string"

text \<open>The buffer takes the first 512 bytes of a datagram; its sender is not looked at.\<close>

definition query_stun_server :: "socket_env \<Rightarrow> socket_addr \<Rightarrow> (p2p_error + socket_addr) option" where
  "query_stun_server env server =
     (case send_result env server binding_request of
        Inl e \<Rightarrow> Some (Inl (P2pConnection (''Failed to send STUN request: '' @ e)))
      | Inr _ \<Rightarrow>
          (case recv_result env server of
             Inl e \<Rightarrow> Some (Inl (P2pConnection (''Failed to receive STUN response: '' @ e)))
           | Inr datagram \<Rightarrow> parse_stun_response (take 512 datagram)))"

fun determine_nat_type :: "socket_addr \<Rightarrow> socket_addr \<Rightarrow> nat_type" where
  "determine_nat_type (SocketAddr (V4 a b c d) p) (SocketAddr (V4 a' b' c' d') p') =
     (if V4 a b c d = V4 a' b' c' d' \<and> p = p' then NoNat
      else if p = p' then FullCone
      else UnknownNat)"
| "determine_nat_type _ _ = UnknownNat"

fun try_servers ::
  "socket_env \<Rightarrow> socket_addr \<Rightarrow> socket_addr list \<Rightarrow> nat_traversal \<Rightarrow> (p2p_error, socket_addr, nat_traversal) outcome option" where
  "try_servers env local [] t = Some (Inl (P2pDiscovery ''All STUN servers failed to respond''), t)"
| "try_servers env local (s # ss) t =
     (case query_stun_server env s of
        None \<Rightarrow> None
      | Some (Inr external) \<Rightarrow>
          Some (Inr external, t\<lparr>cached_endpoint := Some \<lparr>external_endpoint = external, local_endpoint = local,
            ed_nat_type = determine_nat_type local external, ed_stun_server = show_socket env s\<rparr>\<rparr>)
      | Some (Inl _) \<Rightarrow> try_servers env local ss t)"

definition discover_external_endpoint ::
  "socket_env \<Rightarrow> nat_traversal \<Rightarrow> (p2p_error, socket_addr, nat_traversal) outcome option" where
  "discover_external_endpoint env t =
     (case bind_result env of
        Inl e \<Rightarrow> Some (Inl (P2pConnection (''Failed to bind UDP socket: '' @ e)), t)
      | Inr _ \<Rightarrow>
     (case set_timeout_result env of
        Inl e \<Rightarrow> Some (Inl (P2pConnection (''Failed to set socket timeout: '' @ e)), t)
      | Inr _ \<Rightarrow>
     (case local_addr_result env of
        Inl e \<Rightarrow> Some (Inl (P2pConnection (''Failed to get local address: '' @ e)), t)
      | Inr local \<Rightarrow> try_servers env local (stun_servers t) t)))"

text \<open>The packets that \<open>setup_hole_punch\<close> sends, whose failures it ignores; parsing of addresses is a parameter.\<close>

definition setup_hole_punch ::
  "(string \<Rightarrow> string + socket_addr) \<Rightarrow> socket_env \<Rightarrow> peer_info \<Rightarrow> p2p_error + (socket_addr \<times> u8 list) list" where
  "setup_hole_punch parse_addr env peer =
     (case pi_addresses peer of
        [] \<Rightarrow> Inl (P2pConnection ''Peer has no addresses'')
      | endpoint # _ \<Rightarrow>
          (case parse_addr endpoint of
             Inl e \<Rightarrow> Inl (P2pConnection (''Invalid peer address: '' @ e))
           | Inr a \<Rightarrow>
               (case bind_result env of
                  Inl e \<Rightarrow> Inl (P2pConnection (''Failed to bind socket: '' @ e))
                | Inr _ \<Rightarrow> Inr (replicate 3 (a, bytes_of ''MOLT_HOLE_PUNCH'')))))"

definition can_connect_directly :: "nat_traversal \<Rightarrow> bool" where
  "can_connect_directly t =
     (case cached_endpoint t of None \<Rightarrow> False | Some e \<Rightarrow> supports_direct_connection (ed_nat_type e))"

section \<open>The parser returns\<close>

lemma u16_at_Some: "i + 1 < length r \<Longrightarrow> u16_at r i = Some (from_be_u16 (r ! i) (r ! (i + 1)))"
  by (simp add: u16_at_def byte_at_def)

lemma byte_slice_Some: "a \<le> b \<Longrightarrow> b \<le> length r \<Longrightarrow> byte_slice r a b = Some (take (b - a) (drop a r))"
  by (simp add: byte_slice_def)

lemma parse_attributes_total: "stop \<le> length r \<Longrightarrow> \<exists>x. parse_attributes r stop offset = Some x"
proof (induction r stop offset rule: parse_attributes.induct)
  case (1 r stop offset)
  show ?case
  proof (cases "offset + 4 \<le> stop")
    case True
    with "1.prems" have u: "u16_at r offset = Some (from_be_u16 (r ! offset) (r ! (offset + 1)))"
      "u16_at r (offset + 2) = Some (from_be_u16 (r ! (offset + 2)) (r ! (offset + 2 + 1)))"
      by (intro u16_at_Some; simp)+
    show ?thesis
      by (subst parse_attributes.simps) (use True u "1.IH" [OF True u(1) u(2) refl] "1.prems" in \<open>auto simp: byte_slice_Some Let_def not_less\<close>)
  qed (simp add: parse_attributes.simps)
qed

lemma parse_total: "\<exists>x. parse_stun_response r = Some x"
  using parse_attributes_total [of "20 + unat (from_be_u16 (r ! 2) (r ! 3))" r 20]
  by (auto simp: parse_stun_response_def Let_def not_less)

text \<open>
  \<^bold>\<open>No response makes the parser panic or loop\<close>: for every datagram the parser ends without an index out of range, with an address or an
  error of discovery.
\<close>

theorem stun_parser_total: "\<exists>x. parse_stun_response r = Some x \<and> (\<forall>e. x = Inl e \<longrightarrow> (\<exists>s. e = P2pDiscovery s))"
proof -
  have m: "\<exists>s. e = P2pDiscovery s" if "parse_xor_mapped_address v = Inl e \<or> parse_mapped_address v = Inl e" for v e
    using that by (auto simp: parse_xor_mapped_address_def parse_mapped_address_def Let_def split: if_splits)
  have "parse_attributes r stop offset = Some (Inl e) \<Longrightarrow> \<exists>s. e = P2pDiscovery s" for stop offset e
  proof (induction r stop offset rule: parse_attributes.induct)
    case (1 r stop offset)
    show ?case
      using "1.prems" "1.IH" m by (subst (asm) parse_attributes.simps) (auto simp: bind_eq_Some_conv Let_def split: if_splits)
  qed
  moreover obtain x where "parse_stun_response r = Some x" using parse_total by blast
  ultimately show ?thesis by (auto simp: parse_stun_response_def Let_def split: if_splits)
qed

section \<open>What a server sends is read back\<close>

definition be_u16 :: "nat \<Rightarrow> u8 list" where
  "be_u16 n = [of_nat (n div 256), of_nat n]"

lemma unat_low_byte: "unat (of_nat n :: u8) = n mod 256"
  by (simp add: unat_of_nat)

lemma from_be_u16_inverse: "n < 65536 \<Longrightarrow> from_be_u16 (of_nat (n div 256)) (of_nat n) = of_nat n"
proof -
  assume "n < 65536"
  then have "n div 256 < 256" by (simp add: div_less_iff_less_mult)
  then have "256 * unat (of_nat (n div 256) :: u8) + unat (of_nat n :: u8) = n" by (simp add: unat_low_byte)
  then show ?thesis by (simp add: from_be_u16_def)
qed

lemma from_be_u16_word: "from_be_u16 (of_nat (unat t div 256)) (ucast (t :: u16)) = t"
  using from_be_u16_inverse [of "unat t"] unat_lt_len [of t] by simp

definition attribute_bytes :: "u16 \<times> u8 list \<Rightarrow> u8 list" where
  "attribute_bytes a = (case a of (t, v) \<Rightarrow> be_u16 (unat t) @ be_u16 (length v) @ v @ replicate (pad4 (length v) - length v) 0)"

definition stun_response :: "u8 list \<Rightarrow> (u16 \<times> u8 list) list \<Rightarrow> u8 list" where
  "stun_response tx attrs =
     (let body = concat (map attribute_bytes attrs)
      in [1, 1] @ be_u16 (length body) @ [0x21, 0x12, 0xa4, 0x42] @ tx @ body)"

fun first_mapped :: "(u16 \<times> u8 list) list \<Rightarrow> p2p_error + socket_addr" where
  "first_mapped [] = Inl (P2pDiscovery ''No mapped address in STUN response'')"
| "first_mapped ((t, v) # as) =
     (if t = 0x20 then parse_xor_mapped_address v else if t = 1 then parse_mapped_address v else first_mapped as)"

lemma pad4_ge: "n \<le> pad4 n"
  by (simp add: pad4_def)

lemma length_attribute [simp]: "length (attribute_bytes (t, v)) = 4 + pad4 (length v)"
  using pad4_ge [of "length v"] by (simp add: attribute_bytes_def be_u16_def)

lemma parse_encoded_attributes:
  assumes "\<forall>(t, v) \<in> set attrs. length v < 65536"
  shows "parse_attributes (pre @ concat (map attribute_bytes attrs)) (length (pre @ concat (map attribute_bytes attrs))) (length pre) =
    Some (first_mapped attrs)"
  using assms
proof (induction attrs arbitrary: pre)
  case Nil
  then show ?case by (simp add: parse_attributes.simps)
next
  case (Cons a attrs)
  obtain t v where a: "a = (t, v)" by (cases a)
  let ?rest = "concat (map attribute_bytes attrs)" and ?pad = "replicate (pad4 (length v) - length v) (0 :: u8)"
  let ?r = "pre @ attribute_bytes (t, v) @ ?rest"
  have r: "?r = pre @ (of_nat (unat t div 256) # of_nat (unat t) # of_nat (length v div 256) # of_nat (length v) # v @ ?pad @ ?rest)"
    by (simp add: attribute_bytes_def be_u16_def)
  have v: "length v < 65536" using Cons.prems a by simp
  have t: "u16_at ?r (length pre) = Some t"
    unfolding r by (simp add: u16_at_def byte_at_def nth_append from_be_u16_word)
  have l: "u16_at ?r (length pre + 2) = Some (of_nat (length v))"
    unfolding r using v by (simp add: u16_at_def byte_at_def nth_append from_be_u16_inverse)
  have u: "unat (of_nat (length v) :: u16) = length v" using v by (simp add: unat_of_nat)
  have s: "byte_slice ?r (length pre + 4) (length pre + 4 + length v) = Some v"
    unfolding r by (simp add: byte_slice_def)
  have b: "length pre + 4 + length v \<le> length ?r" using pad4_ge [of "length v"] by simp
  have ih: "parse_attributes ((pre @ attribute_bytes (t, v)) @ ?rest) (length ((pre @ attribute_bytes (t, v)) @ ?rest))
      (length (pre @ attribute_bytes (t, v))) = Some (first_mapped attrs)"
    using Cons.IH [of "pre @ attribute_bytes (t, v)"] Cons.prems by auto
  have "parse_attributes r (length r) (length pre) =
      (if t = 0x20 then Some (parse_xor_mapped_address v) else if t = 1 then Some (parse_mapped_address v)
       else parse_attributes r (length r) (length pre + (4 + pad4 (length v))))" if "r = ?r" for r
    by (subst parse_attributes.simps) (use t l u s b that [symmetric] in \<open>simp add: Let_def\<close>)
  note step = this [OF refl]
  show ?case using ih step unfolding a by simp
qed

text \<open>The value of an XOR-MAPPED-ADDRESS attribute for an IPv4 address.\<close>

definition be_u32 :: "u32 \<Rightarrow> u8 list" where
  "be_u32 w = [of_nat (unat w div 16777216), of_nat (unat w div 65536), of_nat (unat w div 256), of_nat (unat w)]"

definition xor_mapped_value :: "u8 \<times> u8 \<times> u8 \<times> u8 \<Rightarrow> u16 \<Rightarrow> u8 list" where
  "xor_mapped_value ip port = (case ip of (a, b, c, d) \<Rightarrow>
     [0, 1] @ be_u16 (unat (port XOR 0x2112)) @ be_u32 (from_be_u32 a b c d XOR 0x2112a442))"

text \<open>The digits of a number to the base 256.\<close>

lemma digits_256:
  fixes n :: nat
  assumes "n < 4294967296"
  shows "16777216 * (n div 16777216 mod 256) + 65536 * (n div 65536 mod 256) + 256 * (n div 256 mod 256) + n mod 256 = n"
proof -
  let ?x = "n div 256"
  let ?y = "?x div 256"
  let ?z = "?y div 256"
  have d: "n div 65536 = ?y" "n div 16777216 = ?z" by (simp_all add: div_mult2_eq [symmetric])
  have z: "?z < 256" using assms by (simp add: div_mult2_eq [symmetric] div_less_iff_less_mult)
  have "256 * ?x + n mod 256 = n" "256 * ?y + ?x mod 256 = ?x" "256 * ?z + ?y mod 256 = ?y" by (simp_all only: mult_div_mod_eq)
  moreover have "?z mod 256 = ?z" using z by (rule mod_less)
  ultimately show ?thesis unfolding d by linarith
qed

lemma digits_256_inverse:
  fixes a b c d :: nat
  assumes "b < 256" and "c < 256" and "d < 256"
  shows "(16777216 * a + 65536 * b + 256 * c + d) div 256 = 65536 * a + 256 * b + c"
    and "(16777216 * a + 65536 * b + 256 * c + d) div 65536 = 256 * a + b"
    and "(16777216 * a + 65536 * b + 256 * c + d) div 16777216 = a"
proof -
  have q: "(256 * x + r) div 256 = x" if "r < 256" for x r :: nat using that by simp
  let ?n = "16777216 * a + 65536 * b + 256 * c + d"
  have "?n = 256 * (65536 * a + 256 * b + c) + d" by simp
  then show x: "?n div 256 = 65536 * a + 256 * b + c" using q [OF assms(3)] by presburger
  have "?n div 65536 = ?n div 256 div 256" by (simp add: div_mult2_eq [symmetric])
  also have "\<dots> = (256 * (256 * a + b) + c) div 256" unfolding x by simp
  finally show y: "?n div 65536 = 256 * a + b" using q [OF assms(2)] by presburger
  have "?n div 16777216 = ?n div 65536 div 256" by (simp add: div_mult2_eq [symmetric])
  then show "?n div 16777216 = a" unfolding y using q [OF assms(1)] by presburger
qed

lemma from_be_u32_bytes:
  "from_be_u32 (of_nat (unat w div 16777216)) (of_nat (unat w div 65536)) (of_nat (unat w div 256)) (ucast (w :: u32)) = w"
proof -
  have "unat w < 4294967296" using unat_lt_len [of w] by simp
  note d = digits_256 [OF this]
  have "unat (ucast w :: u8) = unat w mod 256" by (simp add: unat_cast)
  then have "16777216 * unat (of_nat (unat w div 16777216) :: u8) + 65536 * unat (of_nat (unat w div 65536) :: u8) +
      256 * unat (of_nat (unat w div 256) :: u8) + unat (ucast w :: u8) = unat w"
    using d unfolding unat_low_byte by metis
  then show ?thesis unfolding from_be_u32_def by simp
qed

lemma ipv4_from_be_u32: "ipv4_from_u32 (from_be_u32 a b c d) = V4 a b c d"
proof -
  have l: "unat a < 256" "unat b < 256" "unat c < 256" "unat d < 256"
    using unat_lt_len [of a] unat_lt_len [of b] unat_lt_len [of c] unat_lt_len [of d] by simp_all
  let ?n = "16777216 * unat a + 65536 * unat b + 256 * unat c + unat d"
  have n: "unat (from_be_u32 a b c d) = ?n" unfolding from_be_u32_def using l by (subst unat_of_nat) simp
  have m: "(256 * x + r) mod 256 = r" if "r < 256" for x r :: nat using that by simp
  have "unat (of_nat (unat a) :: u8) = unat a" "unat (of_nat (256 * unat a + unat b) :: u8) = unat b"
    "unat (of_nat (65536 * unat a + 256 * unat b + unat c) :: u8) = unat c" "unat (of_nat ?n :: u8) = unat d"
    unfolding unat_low_byte using l m [of "unat b" "unat a"] m [of "unat c" "256 * unat a + unat b"]
      m [of "unat d" "65536 * unat a + 256 * unat b + unat c"] by (simp_all add: algebra_simps)
  then show ?thesis unfolding ipv4_from_u32_def n digits_256_inverse [OF l(2-4)] by (metis word_unat_eq_iff)
qed

lemma xor_mapped_roundtrip:
  "parse_xor_mapped_address (xor_mapped_value (a, b, c, d) port) = Inr (SocketAddr (V4 a b c d) port)"
proof -
  have x: "(w XOR k) XOR k = w" for w k :: "'a::len word" by (simp add: xor.assoc)
  let ?p = "port XOR 0x2112" and ?w = "from_be_u32 a b c d XOR 0x2112a442"
  have "xor_mapped_value (a, b, c, d) port = [0, 1, of_nat (unat ?p div 256), ucast ?p, of_nat (unat ?w div 16777216),
      of_nat (unat ?w div 65536), of_nat (unat ?w div 256), ucast ?w]"
    unfolding xor_mapped_value_def be_u16_def be_u32_def by simp
  moreover have "parse_xor_mapped_address [0, 1, p1, p2, a1, a2, a3, a4] =
      Inr (SocketAddr (ipv4_from_u32 (from_be_u32 a1 a2 a3 a4 XOR 0x2112a442)) (from_be_u16 p1 p2 XOR 0x2112))" for p1 p2 a1 a2 a3 a4
    by (simp add: parse_xor_mapped_address_def Let_def)
  ultimately show ?thesis by (simp only: from_be_u16_word from_be_u32_bytes x ipv4_from_be_u32)
qed

lemma stun_response_parsed:
  assumes "length tx = 12" and "length (concat (map attribute_bytes attrs)) < 65536" and "\<forall>(t, v) \<in> set attrs. length v < 65536"
  shows "parse_stun_response (stun_response tx attrs) = Some (first_mapped attrs)"
proof -
  let ?body = "concat (map attribute_bytes attrs)"
  let ?pre = "[1, 1] @ be_u16 (length ?body) @ [0x21, 0x12, 0xa4, 0x42] @ tx"
  have r: "stun_response tx attrs = ?pre @ ?body" by (simp add: stun_response_def Let_def)
  have p: "length ?pre = 20" using assms(1) by (simp add: be_u16_def)
  have l: "unat (from_be_u16 ((?pre @ ?body) ! 2) ((?pre @ ?body) ! 3)) = length ?body"
    using assms(2) by (simp add: be_u16_def from_be_u16_inverse unat_of_nat)
  have k: "byte_slice (?pre @ ?body) 4 8 = Some [0x21, 0x12, 0xa4, 0x42]"
    using assms(1) by (simp add: byte_slice_def be_u16_def)
  have "parse_attributes (?pre @ ?body) (20 + length ?body) 20 = Some (first_mapped attrs)"
    using parse_encoded_attributes [OF assms(3), of ?pre] p length_append [of ?pre ?body] by metis
  moreover have "20 + length ?body \<le> length (?pre @ ?body)" "\<not> length (?pre @ ?body) < 20" using p by simp_all
  moreover have "(?pre @ ?body) ! 0 = 1" "(?pre @ ?body) ! 1 = 1" by simp_all
  ultimately show ?thesis
    unfolding r parse_stun_response_def using l k by (simp del: append_Cons append.simps append_assoc)
qed

lemma first_mapped_skip: "\<forall>(t, v) \<in> set as. t \<noteq> 0x20 \<and> t \<noteq> 1 \<Longrightarrow> first_mapped (as @ bs) = first_mapped bs"
  by (induction as) auto

text \<open>The two attributes that carry an address: the XOR-mapped form and the legacy plain form.\<close>

definition mapped_value :: "u8 \<times> u8 \<times> u8 \<times> u8 \<Rightarrow> u16 \<Rightarrow> u8 list" where
  "mapped_value ip port = (case ip of (a, b, c, d) \<Rightarrow> [0, 1] @ be_u16 (unat port) @ [a, b, c, d])"

definition address_attribute :: "bool \<Rightarrow> u8 \<times> u8 \<times> u8 \<times> u8 \<Rightarrow> u16 \<Rightarrow> u16 \<times> u8 list" where
  "address_attribute legacy ip port = (if legacy then (1, mapped_value ip port) else (0x20, xor_mapped_value ip port))"

lemma mapped_roundtrip: "parse_mapped_address (mapped_value (a, b, c, d) port) = Inr (SocketAddr (V4 a b c d) port)"
  using from_be_u16_word [of port] by (simp add: parse_mapped_address_def mapped_value_def be_u16_def)

lemma first_address_attribute:
  "first_mapped (address_attribute legacy (a, b, c, d) port # bs) = Inr (SocketAddr (V4 a b c d) port)"
  by (simp add: address_attribute_def xor_mapped_roundtrip mapped_roundtrip)

text \<open>
  C38. \<^bold>\<open>A server's answer is read back\<close>: from a success response with any transaction identifier whose attributes are well formed (below 64 KiB in all),
  the parser recovers the IPv4 address and port of the first attribute that carries an address, in the XOR-mapped (\<open>0x0020\<close>) or the
  legacy plain (\<open>0x0001\<close>) form, whatever attributes of other types come before it and whatever attributes come after it. So a plain address
  that precedes an XOR-mapped one wins.
\<close>

theorem stun_roundtrip:
  assumes "length tx = 12"
    and "length (concat (map attribute_bytes (as @ address_attribute legacy (a, b, c, d) port # bs))) < 65536"
    and "\<forall>(t, v) \<in> set as. t \<noteq> 0x20 \<and> t \<noteq> 1"
  shows "parse_stun_response (stun_response tx (as @ address_attribute legacy (a, b, c, d) port # bs)) =
    Some (Inr (SocketAddr (V4 a b c d) port))"
proof -
  let ?attrs = "as @ address_attribute legacy (a, b, c, d) port # bs"
  have "length v < 65536" if "(t, v) \<in> set ?attrs" for t v
  proof -
    have "length (attribute_bytes (t, v)) \<le> length (concat (map attribute_bytes ?attrs))"
      unfolding length_concat using that by (intro member_le_sum_list) (auto simp del: length_attribute)
    then show ?thesis using assms(2) pad4_ge [of "length v"] by simp
  qed
  then have "parse_stun_response (stun_response tx ?attrs) = Some (first_mapped ?attrs)"
    by (intro stun_response_parsed [OF assms(1,2)]) blast
  then show ?thesis using assms(3) by (simp add: first_mapped_skip first_address_attribute)
qed

theorem stun_roundtrip_witness:
  "parse_stun_response (stun_response (replicate 12 7)
      ([(0x8022, [1, 2, 3])] @ address_attribute False (203, 0, 113, 9) 51820 # [address_attribute True (10, 0, 0, 1) 7])) =
    Some (Inr (SocketAddr (V4 203 0 113 9) 51820))"
  by (rule stun_roundtrip)
    (simp_all add: pad4_def address_attribute_def xor_mapped_value_def mapped_value_def be_u16_def be_u32_def)

section \<open>Discovery\<close>

definition answers :: "socket_env \<Rightarrow> socket_addr \<Rightarrow> socket_addr option" where
  "answers env s = (case query_stun_server env s of Some (Inr a) \<Rightarrow> Some a | _ \<Rightarrow> None)"

lemma query_total: "\<exists>x. query_stun_server env s = Some x"
  using parse_total by (auto simp: query_stun_server_def split: sum.split)

lemma try_servers_first:
  "try_servers env local ss t =
     (case List.find (\<lambda>s. answers env s \<noteq> None) ss of
        None \<Rightarrow> Some (Inl (P2pDiscovery ''All STUN servers failed to respond''), t)
      | Some s \<Rightarrow> Some (Inr (the (answers env s)), t\<lparr>cached_endpoint := Some \<lparr>external_endpoint = the (answers env s),
          local_endpoint = local, ed_nat_type = determine_nat_type local (the (answers env s)), ed_stun_server = show_socket env s\<rparr>\<rparr>))"
proof (induction ss)
  case (Cons s ss)
  obtain x where "query_stun_server env s = Some x" using query_total by blast
  with Cons show ?case by (cases x) (simp_all add: answers_def)
qed simp

text \<open>Discovery asks the servers in turn: it returns what the first server that answers reports, and fails only when none does.\<close>

theorem discovery_first_answer:
  assumes "bind_result env = Inr ()" and "set_timeout_result env = Inr ()" and "local_addr_result env = Inr local"
    and "stun_servers t = us @ s # vs" and "\<forall>u \<in> set us. answers env u = None" and "answers env s = Some a"
  shows "discover_external_endpoint env t = Some (Inr a, t\<lparr>cached_endpoint := Some \<lparr>external_endpoint = a, local_endpoint = local,
    ed_nat_type = determine_nat_type local a, ed_stun_server = show_socket env s\<rparr>\<rparr>)"
proof -
  have "List.find (\<lambda>s. answers env s \<noteq> None) (us @ s # vs) = Some s" using assms(5,6) by (induction us) auto
  then show ?thesis using assms by (simp add: discover_external_endpoint_def try_servers_first)
qed

text \<open>The socket is bound to the wildcard address, so a host with a public address is not recognised as one.\<close>

theorem public_host_not_recognised:
  assumes "local = SocketAddr (V4 0 0 0 0) p" and "external = SocketAddr ip q" and "ip \<noteq> V4 0 0 0 0"
  shows "determine_nat_type local external \<noteq> NoNat"
  using assms by (cases ip) auto

text \<open>The request carries the same transaction identifier every time, and the answer's is not compared with it.\<close>

theorem any_transaction_accepted:
  "length tx = 12 \<Longrightarrow> parse_stun_response (stun_response tx [(0x20, xor_mapped_value (a, b, c, d) port)]) = Some (Inr (SocketAddr (V4 a b c d) port))"
  using stun_response_parsed [of tx "[(0x20, xor_mapped_value (a, b, c, d) port)]"]
  by (simp add: xor_mapped_roundtrip) (simp add: xor_mapped_value_def be_u16_def be_u32_def pad4_def)

end
