(* ===== verification/Job_Tunnels.thy ===== *)
theory Job_Tunnels
  imports P2p_Network
begin

text \<open>
  Tunnels between the buyer and the provider of a job, \<open>crates/molt-p2p/src/tunnel.rs\<close>: their states, the allocator of addresses and the manager. The
  clock and fresh job identifiers are arguments. The traffic counters are shared through \<open>Arc\<close>: a tunnel holds a reference, and
  the manager's store maps references to counters. Addresses are 32-bit integers.
\<close>

section \<open>Data\<close>

type_synonym job_id = uuid

record bandwidth_stats =
  bytes_sent :: u64
  bytes_received :: u64

definition bandwidth_new :: bandwidth_stats where
  "bandwidth_new = \<lparr>bytes_sent = 0, bytes_received = 0\<rparr>"

text \<open>\<open>fetch_add\<close> wraps in every build.\<close>

definition record_sent :: "u64 \<Rightarrow> bandwidth_stats \<Rightarrow> bandwidth_stats" where
  "record_sent b s = s\<lparr>bytes_sent := bytes_sent s + b\<rparr>"

definition record_received :: "u64 \<Rightarrow> bandwidth_stats \<Rightarrow> bandwidth_stats" where
  "record_received b s = s\<lparr>bytes_received := bytes_received s + b\<rparr>"

definition total_bytes :: "bool \<Rightarrow> bandwidth_stats \<Rightarrow> u64 option" where
  "total_bytes checks s = add_op checks (bytes_sent s) (bytes_received s)"

datatype tunnel_state = Establishing | Active | Closing | Closed | TunnelFailed

fun tunnel_is_active :: "tunnel_state \<Rightarrow> bool" where
  "tunnel_is_active Active = True"
| "tunnel_is_active _ = False"

fun tunnel_is_terminal :: "tunnel_state \<Rightarrow> bool" where
  "tunnel_is_terminal Closed = True"
| "tunnel_is_terminal TunnelFailed = True"
| "tunnel_is_terminal _ = False"

type_synonym counter_ref = nat

record job_tunnel =
  tunnel_job_id :: job_id
  tunnel_provider :: peer_info
  tunnel_buyer :: peer_info
  tunnel_allocated_ip :: u32
  tunnel_created_at :: int
  tunnel_state :: tunnel_state
  tunnel_bandwidth :: counter_ref

definition job_tunnel_new :: "int \<Rightarrow> counter_ref \<Rightarrow> job_id \<Rightarrow> peer_info \<Rightarrow> peer_info \<Rightarrow> u32 \<Rightarrow> job_tunnel" where
  "job_tunnel_new now ref j p b ip = \<lparr>tunnel_job_id = j, tunnel_provider = p, tunnel_buyer = b, tunnel_allocated_ip = ip,
     tunnel_created_at = now, tunnel_state = Establishing, tunnel_bandwidth = ref\<rparr>"

definition tunnel_mark_active :: "job_tunnel \<Rightarrow> job_tunnel" where
  "tunnel_mark_active t = (if tunnel_state t = Establishing then t\<lparr>tunnel_state := Active\<rparr> else t)"

definition tunnel_mark_closing :: "job_tunnel \<Rightarrow> job_tunnel" where
  "tunnel_mark_closing t = (if tunnel_state t = Active then t\<lparr>tunnel_state := Closing\<rparr> else t)"

definition tunnel_mark_closed :: "job_tunnel \<Rightarrow> job_tunnel" where
  "tunnel_mark_closed t = t\<lparr>tunnel_state := Closed\<rparr>"

definition tunnel_mark_failed :: "job_tunnel \<Rightarrow> job_tunnel" where
  "tunnel_mark_failed t = t\<lparr>tunnel_state := TunnelFailed\<rparr>"

definition tunnel_duration :: "int \<Rightarrow> job_tunnel \<Rightarrow> duration" where
  "tunnel_duration now t = (if now - tunnel_created_at t \<ge> 0 then nat (now - tunnel_created_at t) else 0)"

record tunnel_job =
  tj_id :: job_id
  tj_provider_id :: peer_id

definition tunnel_job_new :: "job_id \<Rightarrow> peer_id \<Rightarrow> tunnel_job" where
  "tunnel_job_new fresh p = \<lparr>tj_id = fresh, tj_provider_id = p\<rparr>"

section \<open>Addresses\<close>

record ip_allocator =
  alloc_base :: u32
  alloc_next :: u32
  alloc_allocated :: "(job_id, u32) hashmap"

definition ip_allocator_new :: "u32 \<Rightarrow> ip_allocator" where
  "ip_allocator_new base = \<lparr>alloc_base = base, alloc_next = 1, alloc_allocated = []\<rparr>"

definition ip_allocate :: "bool \<Rightarrow> job_id \<Rightarrow> ip_allocator \<Rightarrow> (u32 \<times> ip_allocator) option" where
  "ip_allocate checks j al =
     Option.bind (add_op checks (alloc_base al) (alloc_next al)) (\<lambda>ip.
       map_option (\<lambda>nxt. (ip, al\<lparr>alloc_next := nxt, alloc_allocated := hm_insert j ip (alloc_allocated al)\<rparr>))
         (add_op checks (alloc_next al) 1))"

definition ip_release :: "job_id \<Rightarrow> ip_allocator \<Rightarrow> u32 option \<times> ip_allocator" where
  "ip_release j al = (hm_get (alloc_allocated al) j, al\<lparr>alloc_allocated := hm_remove j (alloc_allocated al)\<rparr>)"

definition ip_get :: "ip_allocator \<Rightarrow> job_id \<Rightarrow> u32 option" where
  "ip_get al j = hm_get (alloc_allocated al) j"

section \<open>The manager\<close>

record tunnel_manager =
  tm_tunnels :: "(job_id, job_tunnel) hashmap"
  tm_allocator :: ip_allocator
  tm_peers :: "(peer_id, peer_info) hashmap"
  tm_counters :: "bandwidth_stats list"

definition with_base_ip :: "u32 \<Rightarrow> tunnel_manager" where
  "with_base_ip base = \<lparr>tm_tunnels = [], tm_allocator = ip_allocator_new base, tm_peers = [], tm_counters = []\<rparr>"

text \<open>10.200.0.0.\<close>

definition tunnel_manager_new :: tunnel_manager where
  "tunnel_manager_new = with_base_ip 0x0ac80000"

definition tm_register_peer :: "peer_info \<Rightarrow> tunnel_manager \<Rightarrow> tunnel_manager" where
  "tm_register_peer i m = m\<lparr>tm_peers := hm_insert (pi_peer_id i) i (tm_peers m)\<rparr>"

text \<open>A tunnel made by \<open>JobTunnel::new\<close> gets a counter of its own.\<close>

definition fresh_tunnel :: "int \<Rightarrow> job_id \<Rightarrow> peer_info \<Rightarrow> peer_info \<Rightarrow> u32 \<Rightarrow> tunnel_manager \<Rightarrow> job_tunnel \<times> tunnel_manager" where
  "fresh_tunnel now j p b ip m =
     (job_tunnel_new now (length (tm_counters m)) j p b ip, m\<lparr>tm_counters := tm_counters m @ [bandwidth_new]\<rparr>)"

definition create_job_tunnel ::
  "(peer_id \<Rightarrow> string) \<Rightarrow> bool \<Rightarrow> int \<Rightarrow> tunnel_job \<Rightarrow> peer_info \<Rightarrow> tunnel_manager \<Rightarrow> (p2p_error, job_tunnel, tunnel_manager) outcome option" where
  "create_job_tunnel show_peer checks now job buyer m =
     (case hm_get (tm_peers m) (tj_provider_id job) of
        None \<Rightarrow> Some (Inl (PeerNotFound (''Provider '' @ show_peer (tj_provider_id job) @ '' not found'')), m)
      | Some provider \<Rightarrow>
          map_option (\<lambda>(ip, al).
            let m1 = m\<lparr>tm_allocator := al\<rparr>;
                (t, m2) = fresh_tunnel now (tj_id job) provider buyer ip m1;
                m3 = m2\<lparr>tm_tunnels := hm_insert (tj_id job) (tunnel_mark_active t) (tm_tunnels m2)\<rparr>;
                (t', m4) = fresh_tunnel now (tj_id job) provider buyer ip m3
            in (Inr t', m4))
          (ip_allocate checks (tj_id job) (tm_allocator m)))"

definition close_tunnel :: "(job_id \<Rightarrow> string) \<Rightarrow> job_id \<Rightarrow> tunnel_manager \<Rightarrow> (p2p_error, unit, tunnel_manager) outcome" where
  "close_tunnel show_job j m =
     (case hm_get (tm_tunnels m) j of
        None \<Rightarrow> (Inl (PeerNotFound (''Tunnel for job '' @ show_job j @ '' not found'')), m)
      | Some t \<Rightarrow>
          (let t1 = tunnel_mark_closed (tunnel_mark_closing t);
               m1 = m\<lparr>tm_tunnels := hm_insert j t1 (tm_tunnels m)\<rparr>;
               m2 = m1\<lparr>tm_allocator := snd (ip_release j (tm_allocator m1))\<rparr>
           in (Inr (), m2\<lparr>tm_tunnels := hm_remove j (tm_tunnels m2)\<rparr>)))"

definition get_tunnel :: "int \<Rightarrow> job_id \<Rightarrow> tunnel_manager \<Rightarrow> job_tunnel option \<times> tunnel_manager" where
  "get_tunnel now j m =
     (case hm_get (tm_tunnels m) j of
        None \<Rightarrow> (None, m)
      | Some t \<Rightarrow>
          (case fresh_tunnel now (tunnel_job_id t) (tunnel_provider t) (tunnel_buyer t) (tunnel_allocated_ip t) m of
             (t', m') \<Rightarrow> (Some t', m')))"

definition tm_active_count :: "tunnel_manager \<Rightarrow> nat" where
  "tm_active_count m = length (filter (\<lambda>t. tunnel_is_active (tunnel_state t)) (hm_values (tm_tunnels m)))"

definition active_job_ids :: "tunnel_manager \<Rightarrow> job_id list" where
  "active_job_ids m = map fst (filter (\<lambda>(_, t). tunnel_is_active (tunnel_state t)) (tm_tunnels m))"

definition get_bandwidth :: "tunnel_manager \<Rightarrow> job_id \<Rightarrow> counter_ref option" where
  "get_bandwidth m j = map_option tunnel_bandwidth (hm_get (tm_tunnels m) j)"

text \<open>Traffic recorded through a reference, whoever holds it.\<close>

definition count_traffic :: "counter_ref \<Rightarrow> u64 \<Rightarrow> u64 \<Rightarrow> tunnel_manager \<Rightarrow> tunnel_manager" where
  "count_traffic ref s r m =
     m\<lparr>tm_counters := (tm_counters m)[ref := record_received r (record_sent s (tm_counters m ! ref))]\<rparr>"

definition add_traffic :: "bool \<Rightarrow> tunnel_manager \<Rightarrow> job_tunnel \<Rightarrow> (u64 \<times> u64) \<Rightarrow> (u64 \<times> u64) option" where
  "add_traffic checks m t acc =
     (let b = tm_counters m ! tunnel_bandwidth t
      in Option.bind (add_op checks (fst acc) (bytes_sent b)) (\<lambda>s.
           map_option (\<lambda>r. (s, r)) (add_op checks (snd acc) (bytes_received b))))"

fun total_traffic :: "bool \<Rightarrow> tunnel_manager \<Rightarrow> job_tunnel list \<Rightarrow> u64 \<times> u64 \<Rightarrow> (u64 \<times> u64) option" where
  "total_traffic checks m [] acc = Some acc"
| "total_traffic checks m (t # ts) acc = Option.bind (add_traffic checks m t acc) (total_traffic checks m ts)"

definition total_bandwidth :: "bool \<Rightarrow> tunnel_manager \<Rightarrow> (u64 \<times> u64) option" where
  "total_bandwidth checks m = total_traffic checks m (hm_values (tm_tunnels m)) (0, 0)"

section \<open>Sequences of operations\<close>

datatype tunnel_op =
    T_register peer_info | T_create int tunnel_job peer_info | T_close job_id | T_get int job_id | T_traffic counter_ref u64 u64

fun tunnel_step :: "bool \<Rightarrow> tunnel_op \<Rightarrow> tunnel_manager \<Rightarrow> tunnel_manager option" where
  "tunnel_step checks (T_register i) m = Some (tm_register_peer i m)"
| "tunnel_step checks (T_create now job buyer) m = map_option snd (create_job_tunnel id checks now job buyer m)"
| "tunnel_step checks (T_close j) m = Some (snd (close_tunnel (\<lambda>_. []) j m))"
| "tunnel_step checks (T_get now j) m = Some (snd (get_tunnel now j m))"
| "tunnel_step checks (T_traffic ref s r) m = Some (if ref < length (tm_counters m) then count_traffic ref s r m else m)"

fun tunnel_run :: "bool \<Rightarrow> tunnel_op list \<Rightarrow> tunnel_manager \<Rightarrow> tunnel_manager option" where
  "tunnel_run checks [] m = Some m"
| "tunnel_run checks (e # es) m = Option.bind (tunnel_step checks e m) (tunnel_run checks es)"

text \<open>Tunnels are active, filed by their job, and hold the address and a counter that no other tunnel holds.\<close>

definition tunnel_wf :: "tunnel_manager \<Rightarrow> bool" where
  "tunnel_wf m \<longleftrightarrow>
     hm_wf (tm_tunnels m) \<and>
     (\<forall>j t. hm_get (tm_tunnels m) j = Some t \<longrightarrow>
        tunnel_job_id t = j \<and> tunnel_state t = Active \<and> ip_get (tm_allocator m) j = Some (tunnel_allocated_ip t) \<and>
        tunnel_allocated_ip t - alloc_base (tm_allocator m) < alloc_next (tm_allocator m) \<and>
        tunnel_bandwidth t < length (tm_counters m)) \<and>
     (\<forall>j t j' t'. hm_get (tm_tunnels m) j = Some t \<longrightarrow> hm_get (tm_tunnels m) j' = Some t' \<longrightarrow> j \<noteq> j' \<longrightarrow>
        tunnel_allocated_ip t \<noteq> tunnel_allocated_ip t' \<and> tunnel_bandwidth t \<noteq> tunnel_bandwidth t')"

lemma ip_allocate_SomeD:
  assumes "ip_allocate checks j al = Some (ip, al')"
  shows "ip = alloc_base al + alloc_next al"
    and "al' = al\<lparr>alloc_next := alloc_next al + 1, alloc_allocated := hm_insert j ip (alloc_allocated al)\<rparr>"
  using assms by (auto simp: ip_allocate_def bind_eq_Some_conv add_op_def checked_add_def split: if_splits)

lemma tunnel_create_cases:
  assumes "create_job_tunnel sp checks now job buyer m = Some (x, m')"
  obtains (unknown) e where "x = Inl e" "m' = m"
  | (created) p where "hm_get (tm_peers m) (tj_provider_id job) = Some p"
      "x = Inr (job_tunnel_new now (Suc (length (tm_counters m))) (tj_id job) p buyer
         (alloc_base (tm_allocator m) + alloc_next (tm_allocator m)))"
      "m' = m\<lparr>tm_allocator := (tm_allocator m)\<lparr>alloc_next := alloc_next (tm_allocator m) + 1,
           alloc_allocated := hm_insert (tj_id job) (alloc_base (tm_allocator m) + alloc_next (tm_allocator m)) (alloc_allocated (tm_allocator m))\<rparr>,
         tm_tunnels := hm_insert (tj_id job) ((job_tunnel_new now (length (tm_counters m)) (tj_id job) p buyer
           (alloc_base (tm_allocator m) + alloc_next (tm_allocator m)))\<lparr>tunnel_state := Active\<rparr>) (tm_tunnels m),
         tm_counters := tm_counters m @ [bandwidth_new, bandwidth_new]\<rparr>"
proof (cases "hm_get (tm_peers m) (tj_provider_id job)")
  case None
  then show ?thesis using assms unknown by (auto simp: create_job_tunnel_def)
next
  case (Some p)
  then obtain ip al where a: "ip_allocate checks (tj_id job) (tm_allocator m) = Some (ip, al)"
    using assms by (auto simp: create_job_tunnel_def)
  note al = ip_allocate_SomeD [OF a]
  show ?thesis
    by (rule created [OF Some])
      (use assms Some a in \<open>auto simp: create_job_tunnel_def fresh_tunnel_def Let_def tunnel_mark_active_def job_tunnel_new_def al\<close>)
qed

lemma create_wf:
  assumes "tunnel_wf m" and "create_job_tunnel sp checks now job buyer m = Some (x, m')" and "unat (alloc_next (tm_allocator m)) + 1 < 2 ^ 32"
  shows "tunnel_wf m'"
  using assms(2)
proof (cases rule: tunnel_create_cases)
  case (created p)
  let ?al = "tm_allocator m" and ?j = "tj_id job"
  have n: "alloc_next ?al < alloc_next ?al + 1" using assms(3) unat_add_exact [of "alloc_next ?al" 1] by (simp add: word_less_nat_alt)
  have lt: "i < alloc_next ?al + 1" if "i < alloc_next ?al" for i using that n by (rule less_trans)
  have w: "hm_wf (tm_tunnels m)" using assms(1) by (simp add: tunnel_wf_def)
  have old: "tunnel_job_id t = j \<and> tunnel_state t = Active \<and> hm_get (alloc_allocated ?al) j = Some (tunnel_allocated_ip t) \<and>
      tunnel_allocated_ip t - alloc_base ?al < alloc_next ?al + 1 \<and> tunnel_bandwidth t < Suc (Suc (length (tm_counters m))) \<and>
      tunnel_bandwidth t \<noteq> length (tm_counters m) \<and> tunnel_allocated_ip t \<noteq> alloc_base ?al + alloc_next ?al"
    if "hm_get (tm_tunnels m) j = Some t" for j t
    using assms(1) that lt [of "tunnel_allocated_ip t - alloc_base ?al"] by (fastforce simp: tunnel_wf_def ip_get_def)
  have two: "tunnel_allocated_ip t \<noteq> tunnel_allocated_ip t' \<and> tunnel_bandwidth t \<noteq> tunnel_bandwidth t'"
    if "hm_get (tm_tunnels m) j = Some t" "hm_get (tm_tunnels m) j' = Some t'" "j \<noteq> j'" for j t j' t'
    using assms(1) that unfolding tunnel_wf_def by blast
  let ?t = "(job_tunnel_new now (length (tm_counters m)) ?j p buyer (alloc_base ?al + alloc_next ?al))\<lparr>tunnel_state := Active\<rparr>"
  have g: "hm_get (tm_tunnels m') j = (if j = ?j then Some ?t else hm_get (tm_tunnels m) j)" for j
    by (simp add: created(3))
  have t: "tunnel_job_id ?t = ?j" "tunnel_state ?t = Active" "tunnel_allocated_ip ?t = alloc_base ?al + alloc_next ?al"
    "tunnel_bandwidth ?t = length (tm_counters m)" by (simp_all add: job_tunnel_new_def)
  have m': "hm_wf (tm_tunnels m')" "alloc_base (tm_allocator m') = alloc_base ?al" "alloc_next (tm_allocator m') = alloc_next ?al + 1"
    "ip_get (tm_allocator m') j = (if j = ?j then Some (alloc_base ?al + alloc_next ?al) else hm_get (alloc_allocated ?al) j)"
    "length (tm_counters m') = Suc (Suc (length (tm_counters m)))" for j
    using w by (simp_all add: created(3) ip_get_def)
  show ?thesis unfolding tunnel_wf_def g m'(2-5) using m'(1) old two n by (auto simp: t split: if_splits) metis+
qed (use assms(1) in simp)

lemma shrink_wf:
  assumes "tunnel_wf m" and "hm_wf (tm_tunnels m')" and "length (tm_counters m) \<le> length (tm_counters m')"
    and "alloc_base (tm_allocator m') = alloc_base (tm_allocator m)" and "alloc_next (tm_allocator m') = alloc_next (tm_allocator m)"
    and sub: "\<And>j t. hm_get (tm_tunnels m') j = Some t \<Longrightarrow> hm_get (tm_tunnels m) j = Some t \<and> ip_get (tm_allocator m') j = ip_get (tm_allocator m) j"
  shows "tunnel_wf m'"
proof -
  have one: "tunnel_job_id t = j \<and> tunnel_state t = Active \<and> ip_get (tm_allocator m) j = Some (tunnel_allocated_ip t) \<and>
      tunnel_allocated_ip t - alloc_base (tm_allocator m) < alloc_next (tm_allocator m) \<and> tunnel_bandwidth t < length (tm_counters m)"
    if "hm_get (tm_tunnels m) j = Some t" for j t using assms(1) that unfolding tunnel_wf_def by blast
  have two: "tunnel_allocated_ip t \<noteq> tunnel_allocated_ip t' \<and> tunnel_bandwidth t \<noteq> tunnel_bandwidth t'"
    if "hm_get (tm_tunnels m) j = Some t" "hm_get (tm_tunnels m) j' = Some t'" "j \<noteq> j'" for j t j' t'
    using assms(1) that unfolding tunnel_wf_def by blast
  show ?thesis unfolding tunnel_wf_def assms(4,5)
  proof (intro conjI allI impI)
    fix j t assume "hm_get (tm_tunnels m') j = Some t"
    from one [of j t] sub [OF this] assms(3)
    show "tunnel_job_id t = j" "tunnel_state t = Active" "ip_get (tm_allocator m') j = Some (tunnel_allocated_ip t)"
      "tunnel_allocated_ip t - alloc_base (tm_allocator m) < alloc_next (tm_allocator m)" "tunnel_bandwidth t < length (tm_counters m')"
      by simp_all
  next
    fix j t j' t' assume "hm_get (tm_tunnels m') j = Some t" "hm_get (tm_tunnels m') j' = Some t'" "j \<noteq> j'"
    from two [OF sub [OF this(1), THEN conjunct1] sub [OF this(2), THEN conjunct1] this(3)]
    show "tunnel_allocated_ip t \<noteq> tunnel_allocated_ip t'" "tunnel_bandwidth t \<noteq> tunnel_bandwidth t'" by simp_all
  qed (rule assms(2))
qed

lemma close_wf: "tunnel_wf m \<Longrightarrow> tunnel_wf (snd (close_tunnel sj j m))"
proof (cases "hm_get (tm_tunnels m) j")
  case (Some t)
  assume "tunnel_wf m"
  then show ?thesis
    by (rule shrink_wf) (use Some \<open>tunnel_wf m\<close> in \<open>simp_all add: close_tunnel_def Let_def ip_release_def ip_get_def tunnel_wf_def split: if_splits\<close>)
qed (simp add: close_tunnel_def)

lemma get_wf: "tunnel_wf m \<Longrightarrow> tunnel_wf (snd (get_tunnel now j m))"
proof (rule shrink_wf [of m])
  assume "tunnel_wf m"
  then show "hm_wf (tm_tunnels (snd (get_tunnel now j m)))"
    by (simp add: get_tunnel_def fresh_tunnel_def tunnel_wf_def split: option.split)
qed (auto simp: get_tunnel_def fresh_tunnel_def split: option.splits)

lemma other_wf:
  "tunnel_wf m \<Longrightarrow> tunnel_wf (tm_register_peer i m)"
  "tunnel_wf m \<Longrightarrow> tunnel_wf (count_traffic ref s r m)"
  by (simp_all add: tunnel_wf_def tm_register_peer_def count_traffic_def)

lemma close_allocator: "alloc_next (tm_allocator (snd (close_tunnel sj j m))) = alloc_next (tm_allocator m)"
  by (simp add: close_tunnel_def Let_def ip_release_def split: option.split)

lemma tunnel_step_wf:
  assumes "tunnel_wf m" and "tunnel_step checks e m = Some m'" and "unat (alloc_next (tm_allocator m)) + 1 < 2 ^ 32"
  shows "tunnel_wf m'" and "unat (alloc_next (tm_allocator m')) \<le> unat (alloc_next (tm_allocator m)) + 1"
proof -
  have n: "unat (alloc_next (tm_allocator m) + 1) = unat (alloc_next (tm_allocator m)) + 1"
    using assms(3) unat_add_exact [of "alloc_next (tm_allocator m)" 1] by simp
  have "tunnel_wf m' \<and> unat (alloc_next (tm_allocator m')) \<le> unat (alloc_next (tm_allocator m)) + 1"
  proof (cases e)
    case (T_create now job buyer)
    then obtain x where c: "create_job_tunnel id checks now job buyer m = Some (x, m')" using assms(2) by auto
    have "unat (alloc_next (tm_allocator m')) \<le> unat (alloc_next (tm_allocator m)) + 1"
      using c by (cases rule: tunnel_create_cases) (simp_all add: n)
    then show ?thesis using create_wf [OF assms(1) c assms(3)] by simp
  next
    case (T_close j)
    then show ?thesis using assms close_wf close_allocator by auto
  next
    case (T_get now j)
    have "tm_allocator (snd (get_tunnel now j m)) = tm_allocator m"
      by (simp add: get_tunnel_def fresh_tunnel_def split: option.split)
    then show ?thesis using T_get assms get_wf [OF assms(1)] by auto
  next
    case (T_register i)
    then show ?thesis using assms other_wf(1) by (auto simp: tm_register_peer_def)
  next
    case (T_traffic ref s r)
    then show ?thesis using assms other_wf(2) [OF assms(1), of ref s r] by (auto simp: count_traffic_def)
  qed
  then show "tunnel_wf m'" "unat (alloc_next (tm_allocator m')) \<le> unat (alloc_next (tm_allocator m)) + 1" by simp_all
qed

lemma tunnel_run_wf:
  "tunnel_wf m \<Longrightarrow> tunnel_run checks es m = Some m' \<Longrightarrow> unat (alloc_next (tm_allocator m)) + length es < 2 ^ 32 \<Longrightarrow> tunnel_wf m'"
proof (induction es arbitrary: m)
  case (Cons e es)
  from Cons.prems(2) obtain m1 where m1: "tunnel_step checks e m = Some m1" "tunnel_run checks es m1 = Some m'"
    by (auto simp: bind_eq_Some_conv)
  have "unat (alloc_next (tm_allocator m)) + 1 < 2 ^ 32" using Cons.prems(3) by simp
  from tunnel_step_wf [OF Cons.prems(1) m1(1) this] show ?case using Cons.IH [of m1] m1(2) Cons.prems(3) by simp
qed simp

lemma tunnel_wf_new: "tunnel_wf (with_base_ip base)"
  by (simp add: tunnel_wf_def with_base_ip_def)

text \<open>
  \<^bold>\<open>Tunnels do not share addresses or counters\<close>: after fewer than \<open>2 ^ 32 - 1\<close> operations every stored tunnel is active and filed under
  its job, the allocator knows its address, and the tunnels of two jobs have different addresses and different traffic counters.
\<close>

theorem tunnel_addresses_unique:
  assumes "tunnel_run checks es (with_base_ip base) = Some m" and "length es < 2 ^ 32 - 1"
    and "hm_get (tm_tunnels m) j = Some t"
  shows "tunnel_job_id t = j \<and> tunnel_state t = Active \<and> ip_get (tm_allocator m) j = Some (tunnel_allocated_ip t) \<and>
    (\<forall>j' t'. hm_get (tm_tunnels m) j' = Some t' \<and> j' \<noteq> j \<longrightarrow>
       tunnel_allocated_ip t' \<noteq> tunnel_allocated_ip t \<and> tunnel_bandwidth t' \<noteq> tunnel_bandwidth t)"
proof -
  have "unat (alloc_next (tm_allocator (with_base_ip base))) + length es < 2 ^ 32"
    using assms(2) by (simp add: with_base_ip_def ip_allocator_new_def)
  then have "tunnel_wf m" using tunnel_run_wf [OF tunnel_wf_new assms(1)] by blast
  then show ?thesis using assms(3) by (auto simp: tunnel_wf_def)
qed

definition demo_provider :: peer_info where
  "demo_provider = peer_info_new 0 ''prov'' [] []"

definition demo_tunnel_ops :: "tunnel_op list" where
  "demo_tunnel_ops = [T_register demo_provider, T_create 5 (tunnel_job_new 1 ''prov'') demo_provider,
     T_create 6 (tunnel_job_new 2 ''prov'') demo_provider]"

lemma demo_tunnel_run:
  "\<exists>m t t'. tunnel_run True demo_tunnel_ops tunnel_manager_new = Some m \<and> hm_get (tm_tunnels m) 1 = Some t \<and>
     hm_get (tm_tunnels m) 2 = Some t' \<and> tunnel_allocated_ip t = 0x0ac80001"
  by (simp add: demo_tunnel_ops_def tm_register_peer_def create_job_tunnel_def tunnel_manager_new_def with_base_ip_def ip_allocator_new_def
      ip_allocate_def add_op_def checked_add_def fresh_tunnel_def job_tunnel_new_def tunnel_mark_active_def tunnel_job_new_def
      demo_provider_def peer_info_new_def Let_def)

theorem tunnel_addresses_unique_witness:
  "\<exists>m t t'. tunnel_run True demo_tunnel_ops tunnel_manager_new = Some m \<and> hm_get (tm_tunnels m) 1 = Some t \<and>
     hm_get (tm_tunnels m) 2 = Some t' \<and> tunnel_state t = Active \<and> tunnel_allocated_ip t' \<noteq> tunnel_allocated_ip t"
proof -
  obtain m t t' where m: "tunnel_run True demo_tunnel_ops tunnel_manager_new = Some m" "hm_get (tm_tunnels m) 1 = Some t"
    "hm_get (tm_tunnels m) 2 = Some t'" using demo_tunnel_run by blast
  have two_ne_one: "(2 :: job_id) \<noteq> 1" by simp
  have "length demo_tunnel_ops < 2 ^ 32 - 1" by (simp add: demo_tunnel_ops_def)
  note u = tunnel_addresses_unique [OF m(1) [unfolded tunnel_manager_new_def] this m(2)]
  have "tunnel_allocated_ip t' \<noteq> tunnel_allocated_ip t" using u m(3) two_ne_one by blast
  then show ?thesis using m u by blast
qed

section \<open>Consequences\<close>

text \<open>The tunnel that creation returns is not the one that is stored: it is still being established, and traffic recorded through its counter does not show in the totals.\<close>

theorem returned_tunnel_detached:
  assumes "tunnel_wf m" and "create_job_tunnel sp checks now job buyer m = Some (Inr t, m')"
  shows "tunnel_state t = Establishing"
    and "hm_get (tm_tunnels m') (tj_id job) = Some (t\<lparr>tunnel_state := Active, tunnel_bandwidth := length (tm_counters m)\<rparr>)"
    and "tunnel_bandwidth t \<noteq> length (tm_counters m)"
    and "total_bandwidth checks (count_traffic (tunnel_bandwidth t) s r m') = total_bandwidth checks m'"
proof -
  from assms(2) obtain p where t: "t = job_tunnel_new now (Suc (length (tm_counters m))) (tj_id job) p buyer
         (alloc_base (tm_allocator m) + alloc_next (tm_allocator m))"
    and m': "tm_tunnels m' = hm_insert (tj_id job) (t\<lparr>tunnel_state := Active, tunnel_bandwidth := length (tm_counters m)\<rparr>) (tm_tunnels m)"
    by (cases rule: tunnel_create_cases) (simp_all add: job_tunnel_new_def)
  show "tunnel_state t = Establishing" "tunnel_bandwidth t \<noteq> length (tm_counters m)" by (simp_all add: t job_tunnel_new_def)
  show "hm_get (tm_tunnels m') (tj_id job) = Some (t\<lparr>tunnel_state := Active, tunnel_bandwidth := length (tm_counters m)\<rparr>)"
    by (simp add: m')
  have "tunnel_bandwidth u \<noteq> tunnel_bandwidth t" if "u \<in> set (hm_values (tm_tunnels m'))" for u
  proof -
    have w: "hm_wf (tm_tunnels m')" using assms(1) by (simp add: m' tunnel_wf_def)
    from that obtain j where "hm_get (tm_tunnels m') j = Some u" using w by auto
    then show ?thesis using assms(1) by (fastforce simp: m' t job_tunnel_new_def tunnel_wf_def split: if_splits)
  qed
  then have "add_traffic checks (count_traffic (tunnel_bandwidth t) s r m') u = add_traffic checks m' u"
    if "u \<in> set (hm_values (tm_tunnels m'))" for u
    using that by (intro ext) (simp add: add_traffic_def count_traffic_def nth_list_update_neq [OF not_sym])
  then have "total_traffic checks (count_traffic (tunnel_bandwidth t) s r m') us acc = total_traffic checks m' us acc"
    if "set us \<subseteq> set (hm_values (tm_tunnels m'))" for us acc
    using that by (induction us arbitrary: acc) (auto intro: Option.bind_cong)
  then show "total_bandwidth checks (count_traffic (tunnel_bandwidth t) s r m') = total_bandwidth checks m'"
    by (simp add: total_bandwidth_def count_traffic_def)
qed

text \<open>Closing a tunnel does not make its address available again, so that a manager leaves its network after 65535 jobs, one at a time.\<close>

theorem addresses_not_reused:
  assumes "alloc_base (tm_allocator m) = 0x0ac80000" and "alloc_next (tm_allocator m) = 65536"
    and "create_job_tunnel sp checks now job buyer m = Some (Inr t, m')"
  shows "tunnel_allocated_ip t = 0x0ac90000" and "alloc_next (tm_allocator (snd (close_tunnel sj j m'))) = 65537"
  using assms(3)
  by (cases rule: tunnel_create_cases; use assms(1,2) in \<open>simp add: job_tunnel_new_def close_allocator\<close>)+

text \<open>Looking a tunnel up gives a copy that is being established again, created now, with an empty counter.\<close>

lemma get_tunnel_resets:
  assumes "hm_get (tm_tunnels m) j = Some t"
  shows "fst (get_tunnel now j m) = Some (t\<lparr>tunnel_created_at := now, tunnel_state := Establishing, tunnel_bandwidth := length (tm_counters m)\<rparr>)"
  using assms by (simp add: get_tunnel_def fresh_tunnel_def job_tunnel_new_def)

end
