(* ===== verification/Store_Commands.thy ===== *)
theory Store_Commands
  imports Deploy_Commands Scheduler_Stores
begin

text \<open>
  The handlers of a node for configurations, batch jobs, cron jobs, namespaces, taints and admission policies:
  \<open>crates/clawnode/src/config_cmd.rs\<close>, \<open>job_cmd.rs\<close>, \<open>namespace_cmd.rs\<close> and \<open>policy_cmd.rs\<close>. A handler takes the result of decoding its
  parameters, which is derived code, and answers with a JSON value. The clock, the text form of a timestamp and the container runtime are arguments;
  timestamps count nanoseconds.
\<close>

section \<open>Answers\<close>

type_synonym 'a decoded = "string + 'a"

definition jopt :: "('a \<Rightarrow> json) \<Rightarrow> 'a option \<Rightarrow> json" where
  "jopt f x = (case x of None \<Rightarrow> JNull | Some v \<Rightarrow> f v)"

definition jword :: "'a::len word \<Rightarrow> json" where
  "jword w = JNum (uint w)"

definition jlen :: "'a list \<Rightarrow> json" where
  "jlen xs = JNum (int (length xs))"

definition jmap :: "(string, string) hashmap \<Rightarrow> json" where
  "jmap m = JObj (map (\<lambda>(k, v). (k, JStr v)) m)"

text \<open>\<open>timestamp()\<close> rounds down, \<open>num_seconds()\<close> of a duration towards zero.\<close>

definition unix_seconds :: "timestamp \<Rightarrow> int" where
  "unix_seconds t = t div 1000000000"

definition num_seconds :: "int \<Rightarrow> int" where
  "num_seconds d = (if 0 \<le> d then d div 1000000000 else - ((- d) div 1000000000))"

section \<open>Configurations\<close>

record config_create_params =
  cc_name :: string
  cc_data :: "(string, string) hashmap"
  cc_immutable :: bool

definition handle_config_create ::
  "config_entry codec \<Rightarrow> write_result \<Rightarrow> timestamp \<Rightarrow> config_create_params decoded \<Rightarrow> config_entry file_map \<times> disk
   \<Rightarrow> (string, json, config_entry file_map \<times> disk) outcome" where
  "handle_config_create C w now dec st =
     (case dec of
        Inl e \<Rightarrow> (Inl e, st)
      | Inr p \<Rightarrow>
          (case configs_create C w (cc_name p) (cc_data p) (cc_immutable p) now st of
             (Inl e, st') \<Rightarrow> (Inl e, st')
           | (Inr _, st') \<Rightarrow>
               (Inr (JObj [(''name'', JStr (cc_name p)), (''success'', JBool True), (''immutable'', JBool (cc_immutable p))]), st')))"

definition handle_config_get ::
  "(timestamp \<Rightarrow> string) \<Rightarrow> string decoded \<Rightarrow> config_entry file_map \<Rightarrow> string + json" where
  "handle_config_get rfc dec s =
     (case dec of
        Inl e \<Rightarrow> Inl e
      | Inr name \<Rightarrow>
          (case configs_get s name of
             None \<Rightarrow> Inl (quoted ''config'' name ''not found'')
           | Some e \<Rightarrow> Inr (JObj [(''name'', JStr name), (''data'', jmap (cfg_data e)), (''immutable'', JBool (cfg_immutable e)),
               (''created_at'', JStr (rfc (cfg_created_at e))), (''updated_at'', JStr (rfc (cfg_updated_at e)))])))"

definition handle_config_update ::
  "config_entry codec \<Rightarrow> write_result \<Rightarrow> timestamp \<Rightarrow> (string \<times> (string, string) hashmap) decoded \<Rightarrow> config_entry file_map \<times> disk
   \<Rightarrow> (string, json, config_entry file_map \<times> disk) outcome" where
  "handle_config_update C w now dec st =
     (case dec of
        Inl e \<Rightarrow> (Inl e, st)
      | Inr (name, dat) \<Rightarrow>
          (case configs_update C w name dat now st of
             (Inl e, st') \<Rightarrow> (Inl e, st')
           | (Inr _, st') \<Rightarrow> (Inr (JObj [(''name'', JStr name), (''success'', JBool True)]), st')))"

definition handle_config_delete ::
  "config_entry codec \<Rightarrow> write_result \<Rightarrow> string decoded \<Rightarrow> config_entry file_map \<times> disk
   \<Rightarrow> (string, json, config_entry file_map \<times> disk) outcome" where
  "handle_config_delete C w dec st =
     (case dec of
        Inl e \<Rightarrow> (Inl e, st)
      | Inr name \<Rightarrow>
          (case configs_delete C w name st of
             (Inl e, st') \<Rightarrow> (Inl e, st')
           | (Inr _, st') \<Rightarrow> (Inr (JObj [(''name'', JStr name), (''deleted'', JBool True)]), st')))"

text \<open>A prefix that cannot be decoded counts as none.\<close>

definition handle_config_list ::
  "(timestamp \<Rightarrow> string) \<Rightarrow> string option decoded \<Rightarrow> config_entry file_map \<Rightarrow> string + json" where
  "handle_config_list rfc dec s =
     (let pfx = (case dec of Inl _ \<Rightarrow> None | Inr p \<Rightarrow> p);
          es = map (\<lambda>(name, e). JObj [(''name'', JStr name), (''immutable'', JBool (cfg_immutable e)),
                 (''keys'', JList (map (\<lambda>kv. JStr (fst kv)) (cfg_data e))), (''created_at'', JStr (rfc (cfg_created_at e))),
                 (''updated_at'', JStr (rfc (cfg_updated_at e)))]) (configs_list s pfx)
      in Inr (JObj [(''count'', jlen es), (''configs'', JList es)]))"

section \<open>Batch jobs\<close>

record job_create_params =
  jc_name :: string
  jc_image :: string
  jc_command :: "string list"
  jc_completions :: u32
  jc_parallelism :: u32
  jc_backoff_limit :: u32

definition new_job :: "timestamp \<Rightarrow> string \<Rightarrow> string \<Rightarrow> string list \<Rightarrow> u32 \<Rightarrow> u32 \<Rightarrow> u32 \<Rightarrow> job_entry" where
  "new_job now name img cmd cs par backoff =
     \<lparr>job_name = name, job_image = img, job_command = cmd, completions = cs, completed = 0, failed = 0, parallelism = par,
      backoff_limit = backoff, job_container_ids = [], job_state = ''running'', job_created_at = now, finished_at = None\<rparr>"

definition handle_job_create ::
  "job_entry codec \<Rightarrow> write_result \<Rightarrow> timestamp \<Rightarrow> job_create_params decoded \<Rightarrow> job_entry file_map \<times> disk
   \<Rightarrow> (string, json, job_entry file_map \<times> disk) outcome" where
  "handle_job_create C w now dec st =
     (case dec of
        Inl e \<Rightarrow> (Inl e, st)
      | Inr p \<Rightarrow>
          (case jobs_create C w (new_job now (jc_name p) (jc_image p) (jc_command p) (jc_completions p) (jc_parallelism p)
                  (jc_backoff_limit p)) st of
             (Inl e, st') \<Rightarrow> (Inl e, st')
           | (Inr _, st') \<Rightarrow>
               (Inr (JObj [(''name'', JStr (jc_name p)), (''image'', JStr (jc_image p)), (''completions'', jword (jc_completions p)),
                  (''parallelism'', jword (jc_parallelism p)), (''state'', JStr ''running''), (''success'', JBool True)]), st')))"

definition handle_job_status ::
  "(timestamp \<Rightarrow> string) \<Rightarrow> timestamp \<Rightarrow> string decoded \<Rightarrow> job_entry file_map \<Rightarrow> string + json" where
  "handle_job_status rfc now dec s =
     (case dec of
        Inl e \<Rightarrow> Inl e
      | Inr name \<Rightarrow>
          (case jobs_get s name of
             None \<Rightarrow> Inl (quoted ''job'' name ''not found'')
           | Some j \<Rightarrow>
               (let d = (case finished_at j of Some f \<Rightarrow> num_seconds (f - job_created_at j) | None \<Rightarrow> num_seconds (now - job_created_at j))
                in Inr (JObj [(''name'', JStr (job_name j)), (''image'', JStr (job_image j)), (''state'', JStr (job_state j)),
                     (''completions'', JStr (show_nat (unat (completed j)) @ ''/'' @ show_nat (unat (completions j)))),
                     (''completed'', jword (completed j)), (''failed'', jword (failed j)), (''parallelism'', jword (parallelism j)),
                     (''duration_secs'', JNum d), (''created_at'', JStr (rfc (job_created_at j))),
                     (''finished_at'', jopt (\<lambda>t. JStr (rfc t)) (finished_at j))]))))"

text \<open>The logs of one container: nothing when the command cannot run or prints nothing.\<close>

definition container_logs :: "'d node_env \<Rightarrow> u32 option \<Rightarrow> string \<Rightarrow> 'd \<Rightarrow> string \<times> 'd" where
  "container_logs env last_lines cid d =
     (case docker env (''logs'' # (case last_lines of None \<Rightarrow> [] | Some n \<Rightarrow> [''--tail'', show_nat (unat n)]) @ [cid]) d of
        (None, d') \<Rightarrow> ([], d')
      | (Some out, d') \<Rightarrow>
          (if cmd_stdout out = [] then [] else ''=== '' @ cid @ '' ==='' @ [CHR 0x0A] @ cmd_stdout out @ [CHR 0x0A], d'))"

fun collect_logs :: "'d node_env \<Rightarrow> u32 option \<Rightarrow> string list \<Rightarrow> 'd \<Rightarrow> string \<times> 'd" where
  "collect_logs env last_lines [] d = ([], d)"
| "collect_logs env last_lines (c # cs) d =
     (case container_logs env last_lines c d of (l, d1) \<Rightarrow> (case collect_logs env last_lines cs d1 of (ls, d2) \<Rightarrow> (l @ ls, d2)))"

definition handle_job_logs ::
  "'d node_env \<Rightarrow> (string \<times> u32 option) decoded \<Rightarrow> job_entry file_map \<Rightarrow> 'd \<Rightarrow> (string, json, 'd) outcome" where
  "handle_job_logs env dec s d =
     (case dec of
        Inl e \<Rightarrow> (Inl e, d)
      | Inr (name, last_lines) \<Rightarrow>
          (case jobs_get s name of
             None \<Rightarrow> (Inl (quoted ''job'' name ''not found''), d)
           | Some j \<Rightarrow>
               if job_container_ids j = []
               then (Inr (JObj [(''name'', JStr name), (''logs'', JStr []), (''message'', JStr ''no containers spawned yet'')]), d)
               else (case collect_logs env last_lines (job_container_ids j) d of
                       (ls, d') \<Rightarrow> (Inr (JObj [(''name'', JStr name), (''logs'', JStr ls), (''containers'', jlen (job_container_ids j))]), d'))))"

definition handle_job_delete ::
  "'d node_env \<Rightarrow> job_entry codec \<Rightarrow> write_result \<Rightarrow> string decoded \<Rightarrow> (job_entry file_map \<times> disk) \<times> 'd
   \<Rightarrow> (string, json, (job_entry file_map \<times> disk) \<times> 'd) outcome" where
  "handle_job_delete env C w dec s =
     (case s of (st, d) \<Rightarrow>
        case dec of
          Inl e \<Rightarrow> (Inl e, s)
        | Inr name \<Rightarrow>
            (case jobs_delete C w name st of
               (Inl e, st') \<Rightarrow> (Inl e, st', d)
             | (Inr j, st') \<Rightarrow>
                 (Inr (JObj [(''name'', JStr name), (''deleted'', JBool True), (''containers_stopped'', jlen (job_container_ids j))]),
                  st', run_all (docker env) (map (\<lambda>c. [''stop'', c]) (job_container_ids j)) d)))"

section \<open>Cron jobs\<close>

record cron_create_params =
  cp_name :: string
  cp_schedule :: string
  cp_image :: string
  cp_command :: "string list"

definition validate_cron_expression :: "string \<Rightarrow> string + unit" where
  "validate_cron_expression expr =
     (if length (split_whitespace expr) \<noteq> 5
      then Inl ''cron expression must have 5 fields: minute hour day-of-month month day-of-week'' else Inr ())"

definition handle_cron_create ::
  "cron_entry codec \<Rightarrow> write_result \<Rightarrow> timestamp \<Rightarrow> cron_create_params decoded \<Rightarrow> cron_entry file_map \<times> disk
   \<Rightarrow> (string, json, cron_entry file_map \<times> disk) outcome" where
  "handle_cron_create C w now dec st =
     (case dec of
        Inl e \<Rightarrow> (Inl e, st)
      | Inr p \<Rightarrow>
          (case validate_cron_expression (cp_schedule p) of
             Inl e \<Rightarrow> (Inl e, st)
           | Inr _ \<Rightarrow>
               (case crons_create C w \<lparr>cron_name = cp_name p, cron_schedule = cp_schedule p, cron_image = cp_image p,
                       cron_command = cp_command p, suspended = False, last_run = None, next_run = None, cron_created_at = now\<rparr> st of
                  (Inl e, st') \<Rightarrow> (Inl e, st')
                | (Inr _, st') \<Rightarrow>
                    (Inr (JObj [(''name'', JStr (cp_name p)), (''schedule'', JStr (cp_schedule p)), (''image'', JStr (cp_image p)),
                       (''success'', JBool True)]), st'))))"

definition handle_cron_list :: "(timestamp \<Rightarrow> string) \<Rightarrow> cron_entry file_map \<Rightarrow> string + json" where
  "handle_cron_list rfc s =
     (let es = map (\<lambda>c. JObj [(''name'', JStr (cron_name c)), (''schedule'', JStr (cron_schedule c)), (''image'', JStr (cron_image c)),
                 (''suspended'', JBool (suspended c)), (''last_run'', jopt (\<lambda>t. JStr (rfc t)) (last_run c)),
                 (''next_run'', jopt (\<lambda>t. JStr (rfc t)) (next_run c)), (''created_at'', JStr (rfc (cron_created_at c)))]) (crons_list s)
      in Inr (JObj [(''count'', jlen es), (''crons'', JList es)]))"

text \<open>The stores of jobs and cron jobs share the disk.\<close>

type_synonym job_stores = "job_entry file_map \<times> cron_entry file_map \<times> disk"

definition manual_job_name :: "string \<Rightarrow> timestamp \<Rightarrow> string" where
  "manual_job_name name now = name @ ''-manual-'' @ show_int (unix_seconds now)"

definition handle_cron_trigger ::
  "job_entry codec \<Rightarrow> cron_entry codec \<Rightarrow> write_result \<Rightarrow> write_result \<Rightarrow> timestamp \<Rightarrow> string decoded \<Rightarrow> job_stores
   \<Rightarrow> (string, json, job_stores) outcome" where
  "handle_cron_trigger CJ CC w w' now dec s =
     (case s of (jobs, crons, d) \<Rightarrow>
        case dec of
          Inl e \<Rightarrow> (Inl e, s)
        | Inr name \<Rightarrow>
            (case crons_get crons name of
               None \<Rightarrow> (Inl (quoted ''cron'' name ''not found''), s)
             | Some c \<Rightarrow>
                 (case jobs_create CJ w (new_job now (manual_job_name name now) (cron_image c) (cron_command c) 1 1 3) (jobs, d) of
                    (Inl e, jobs', d') \<Rightarrow> (Inl e, jobs', crons, d')
                  | (Inr _, jobs', d') \<Rightarrow>
                      (case crons_update CC w' (crons_get_mut name (\<lambda>c. c\<lparr>last_run := Some now\<rparr>) (crons, d')) of
                         (crons', d'') \<Rightarrow>
                           (Inr (JObj [(''triggered'', JBool True), (''cronName'', JStr name), (''jobName'', JStr (manual_job_name name now)),
                              (''image'', JStr (cron_image c))]), jobs', crons', d'')))))"

definition set_suspended ::
  "cron_entry codec \<Rightarrow> write_result \<Rightarrow> bool \<Rightarrow> (string \<times> json) list \<Rightarrow> string decoded \<Rightarrow> cron_entry file_map \<times> disk
   \<Rightarrow> (string, json, cron_entry file_map \<times> disk) outcome" where
  "set_suspended C w b extra dec st =
     (case dec of
        Inl e \<Rightarrow> (Inl e, st)
      | Inr name \<Rightarrow>
          if crons_get (fst st) name = None then (Inl (quoted ''cron'' name ''not found''), st)
          else (Inr (JObj ([(''name'', JStr name), (''suspended'', JBool b)] @ extra)),
                crons_update C w (crons_get_mut name (\<lambda>c. c\<lparr>suspended := b\<rparr>) st)))"

definition handle_cron_suspend ::
  "cron_entry codec \<Rightarrow> write_result \<Rightarrow> string decoded \<Rightarrow> cron_entry file_map \<times> disk \<Rightarrow> (string, json, cron_entry file_map \<times> disk) outcome" where
  "handle_cron_suspend C w dec st = set_suspended C w True [] dec st"

definition handle_cron_resume ::
  "cron_entry codec \<Rightarrow> write_result \<Rightarrow> string decoded \<Rightarrow> cron_entry file_map \<times> disk \<Rightarrow> (string, json, cron_entry file_map \<times> disk) outcome" where
  "handle_cron_resume C w dec st = set_suspended C w False [(''resumed'', JBool True)] dec st"

section \<open>Namespaces, labels and taints\<close>

record quota_params =
  qp_cpu :: "f64 option"
  qp_memory :: "u64 option"
  qp_gpus :: "u32 option"
  qp_storage :: "u64 option"

record namespace_create_params =
  nc_name :: string
  nc_quotas :: quota_params
  nc_labels :: "(string, string) hashmap"

definition handle_namespace_create ::
  "namespace_entry codec \<Rightarrow> write_result \<Rightarrow> timestamp \<Rightarrow> namespace_create_params decoded \<Rightarrow> namespace_store \<times> disk
   \<Rightarrow> (string, json, namespace_store \<times> disk) outcome" where
  "handle_namespace_create C w now dec st =
     (case dec of
        Inl e \<Rightarrow> (Inl e, st)
      | Inr p \<Rightarrow>
          (let q = nc_quotas p
           in case namespaces_create C w \<lparr>ns_name = nc_name p, quotas = \<lparr>max_cpu = qp_cpu q, max_memory_mb = qp_memory q,
                     max_gpus = qp_gpus q, max_storage_gb = qp_storage q\<rparr>, ns_labels = nc_labels p, ns_created_at = now\<rparr> st of
                (Inl e, st') \<Rightarrow> (Inl e, st')
              | (Inr _, st') \<Rightarrow> (Inr (JObj [(''name'', JStr (nc_name p)), (''success'', JBool True)]), st')))"

definition override :: "'a option \<Rightarrow> 'a option \<Rightarrow> 'a option" where
  "override new old = (case new of None \<Rightarrow> old | Some v \<Rightarrow> Some v)"

definition merge_quotas :: "quota_params \<Rightarrow> resource_quota \<Rightarrow> resource_quota" where
  "merge_quotas p q = \<lparr>max_cpu = override (qp_cpu p) (max_cpu q), max_memory_mb = override (qp_memory p) (max_memory_mb q),
     max_gpus = override (qp_gpus p) (max_gpus q), max_storage_gb = override (qp_storage p) (max_storage_gb q)\<rparr>"

definition quota_json :: "resource_quota \<Rightarrow> json" where
  "quota_json q = JObj [(''cpu'', jopt JFloat (max_cpu q)), (''memory_mb'', jopt jword (max_memory_mb q)), (''gpus'', jopt jword (max_gpus q)),
     (''storage_gb'', jopt jword (max_storage_gb q))]"

definition handle_namespace_set_quota ::
  "namespace_entry codec \<Rightarrow> write_result \<Rightarrow> (string \<times> quota_params) decoded \<Rightarrow> namespace_store \<times> disk
   \<Rightarrow> (string, json, namespace_store \<times> disk) outcome" where
  "handle_namespace_set_quota C w dec st =
     (case dec of
        Inl e \<Rightarrow> (Inl e, st)
      | Inr (name, p) \<Rightarrow>
          (case namespaces_get (fst st) name of
             None \<Rightarrow> (Inl (quoted ''namespace'' name ''not found''), st)
           | Some ns \<Rightarrow>
               (Inr (JObj [(''name'', JStr name), (''success'', JBool True), (''quotas'', quota_json (merge_quotas p (quotas ns)))]),
                namespaces_update C w (namespaces_get_mut name (\<lambda>ns. ns\<lparr>quotas := merge_quotas p (quotas ns)\<rparr>) st))))"

definition handle_namespace_usage :: "string decoded \<Rightarrow> namespace_store \<Rightarrow> string + json" where
  "handle_namespace_usage dec s =
     (case dec of
        Inl e \<Rightarrow> Inl e
      | Inr name \<Rightarrow>
          (case namespaces_get s name of
             None \<Rightarrow> Inl (quoted ''namespace'' name ''not found'')
           | Some ns \<Rightarrow>
               Inr (JObj [(''name'', JStr (ns_name ns)), (''quotas'', quota_json (quotas ns)),
                 (''usage'', JObj [(''cpu'', JFloat (Fin 0)), (''memory_mb'', JNum 0), (''gpus'', JNum 0), (''storage_gb'', JNum 0)]),
                 (''labels'', jmap (ns_labels ns))])))"

definition handle_namespace_list :: "(timestamp \<Rightarrow> string) \<Rightarrow> namespace_store \<Rightarrow> string + json" where
  "handle_namespace_list rfc s =
     (let es = map (\<lambda>ns. JObj [(''name'', JStr (ns_name ns)), (''quotas'', quota_json (quotas ns)), (''labels'', jmap (ns_labels ns)),
                 (''created_at'', JStr (rfc (ns_created_at ns)))]) (namespaces_list s)
      in Inr (JObj [(''count'', jlen es), (''namespaces'', JList es)]))"

text \<open>Labels are part of the node's configuration in memory.\<close>

definition handle_node_label ::
  "(string, string) hashmap decoded \<Rightarrow> (string, string) hashmap \<Rightarrow> (string, json, (string, string) hashmap) outcome" where
  "handle_node_label dec labels =
     (case dec of
        Inl e \<Rightarrow> (Inl e, labels)
      | Inr new \<Rightarrow>
          (let labels' = fold (\<lambda>(k, v). hm_insert k v) new labels
           in (Inr (JObj [(''labels'', jmap labels'), (''success'', JBool True)]), labels')))"

definition handle_node_taint :: "taint_entry decoded \<Rightarrow> namespace_store \<Rightarrow> (string, json, namespace_store) outcome" where
  "handle_node_taint dec s =
     (case dec of
        Inl e \<Rightarrow> (Inl e, s)
      | Inr t \<Rightarrow>
          if taint_effect t \<notin> set [''NoSchedule'', ''PreferNoSchedule'', ''NoExecute'']
          then (Inl ''effect must be one of: NoSchedule, PreferNoSchedule, NoExecute'', s)
          else (Inr (JObj [(''key'', JStr (taint_key t)), (''value'', JStr (taint_value t)), (''effect'', JStr (taint_effect t)),
                  (''success'', JBool True)]), s\<lparr>taints := taints s @ [t]\<rparr>))"

text \<open>A grace period that cannot be decoded is 30 seconds. The listing may fail; so may each stop, which is ignored.\<close>

definition handle_node_drain :: "'d node_env \<Rightarrow> u32 decoded \<Rightarrow> 'd \<Rightarrow> (string, json, 'd) outcome" where
  "handle_node_drain env dec d =
     (let grace = (case dec of Inl _ \<Rightarrow> 30 | Inr g \<Rightarrow> g)
      in case docker env [''ps'', ''-q'', ''--filter'', ''label=managed-by=clawbernetes''] d of
           (r, d1) \<Rightarrow>
             (let ids = (case r of None \<Rightarrow> [] | Some out \<Rightarrow> filter (\<lambda>l. l \<noteq> []) (text_lines (cmd_stdout out)))
              in (Inr (JObj [(''drained'', JBool True), (''stopped_workloads'', jlen ids), (''grace_period'', jword grace)]),
                  run_all (docker env) (map (\<lambda>i. [''stop'', ''-t'', show_nat (unat grace), i]) ids) d1)))"

section \<open>Admission policies\<close>

record policy_create_params =
  pc_name :: string
  pc_type :: string
  pc_rules :: "json list"
  pc_enabled :: bool

definition POLICY_TYPES :: "string list" where
  "POLICY_TYPES = [''resource-limit'', ''image-whitelist'', ''label-required'', ''custom'']"

definition handle_policy_create ::
  "policy_entry codec \<Rightarrow> write_result \<Rightarrow> timestamp \<Rightarrow> policy_create_params decoded \<Rightarrow> policy_entry file_map \<times> disk
   \<Rightarrow> (string, json, policy_entry file_map \<times> disk) outcome" where
  "handle_policy_create C w now dec st =
     (case dec of
        Inl e \<Rightarrow> (Inl e, st)
      | Inr p \<Rightarrow>
          if pc_type p \<notin> set POLICY_TYPES
          then (Inl (''unknown policy type: '' @ pc_type p @ '' (use '' @ join ''/'' POLICY_TYPES @ '')''), st)
          else (case policies_create C w \<lparr>pol_name = pc_name p, pol_type = pc_type p, pol_rules = pc_rules p, pol_enabled = pc_enabled p,
                        pol_created_at = now\<rparr> st of
                  (Inl e, st') \<Rightarrow> (Inl e, st')
                | (Inr _, st') \<Rightarrow>
                    (Inr (JObj [(''name'', JStr (pc_name p)), (''type'', JStr (pc_type p)), (''enabled'', JBool (pc_enabled p)),
                       (''success'', JBool True)]), st')))"

fun jget :: "json \<Rightarrow> string \<Rightarrow> json option" where
  "jget (JObj fs) k = map_of fs k"
| "jget _ k = None"

fun as_u64 :: "json \<Rightarrow> u64 option" where
  "as_u64 (JNum i) = (if 0 \<le> i \<and> i < 2 ^ 64 then Some (of_int i) else None)"
| "as_u64 _ = None"

fun as_str :: "json \<Rightarrow> string option" where
  "as_str (JStr s) = Some s"
| "as_str _ = None"

fun as_object :: "json \<Rightarrow> (string \<times> json) list option" where
  "as_object (JObj fs) = Some fs"
| "as_object _ = None"

definition get_u64 :: "json \<Rightarrow> string \<Rightarrow> u64 option" where
  "get_u64 j k = Option.bind (jget j k) as_u64"

definition get_str :: "json \<Rightarrow> string \<Rightarrow> string option" where
  "get_str j k = Option.bind (jget j k) as_str"

definition violation :: "string \<Rightarrow> string \<Rightarrow> string \<Rightarrow> json" where
  "violation pol rule msg = JObj [(''policy'', JStr pol), (''rule'', JStr rule), (''message'', JStr msg)]"

text \<open>One numeric limit of one rule.\<close>

definition limit_violations :: "string \<Rightarrow> json \<Rightarrow> json \<Rightarrow> string \<Rightarrow> string \<Rightarrow> (u64 \<Rightarrow> u64 \<Rightarrow> string) \<Rightarrow> json list" where
  "limit_violations pol spec rule limit field msg =
     (case get_u64 rule limit of
        None \<Rightarrow> []
      | Some m \<Rightarrow>
          (case get_u64 spec field of
             None \<Rightarrow> []
           | Some x \<Rightarrow> if m < x then [violation pol ''resource-limit'' (msg x m)] else []))"

definition show_u64 :: "u64 \<Rightarrow> string" where
  "show_u64 x = show_nat (unat x)"

definition policy_violations :: "json \<Rightarrow> policy_entry \<Rightarrow> json list" where
  "policy_violations spec p =
     (if pol_type p = ''resource-limit''
      then concat (map (\<lambda>rule.
             limit_violations (pol_name p) spec rule ''maxGpus'' ''gpus'' (\<lambda>x m. ''gpus '' @ show_u64 x @ '' exceeds limit '' @ show_u64 m) @
             limit_violations (pol_name p) spec rule ''maxMemoryMb'' ''memoryMb''
               (\<lambda>x m. ''memory '' @ show_u64 x @ ''MB exceeds limit '' @ show_u64 m @ ''MB'')) (pol_rules p))
      else if pol_type p = ''image-whitelist''
      then (case get_str spec ''image'' of
              None \<Rightarrow> []
            | Some img \<Rightarrow>
                (let allowed = List.map_filter (\<lambda>r. get_str r ''pattern'') (pol_rules p)
                 in if allowed \<noteq> [] \<and> \<not> list_ex (\<lambda>pat. has_prefix pat img) allowed
                    then [violation (pol_name p) ''image-whitelist'' (''image '' @ CHR 0x27 # img @ CHR 0x27 # '' not in whitelist'')] else []))
      else if pol_type p = ''label-required''
      then (let labels = Option.bind (jget spec ''labels'') as_object
            in concat (map (\<lambda>rule. case get_str rule ''key'' of
                 None \<Rightarrow> []
               | Some k \<Rightarrow>
                   if (case labels of None \<Rightarrow> False | Some l \<Rightarrow> map_of l k \<noteq> None) then []
                   else [violation (pol_name p) ''label-required'' (''missing required label: '' @ k)]) (pol_rules p)))
      else [])"

definition handle_policy_validate :: "json decoded \<Rightarrow> policy_entry file_map \<Rightarrow> string + json" where
  "handle_policy_validate dec s =
     (case dec of
        Inl e \<Rightarrow> Inl e
      | Inr spec \<Rightarrow>
          (let ps = policies_list_enabled s; vs = concat (map (policy_violations spec) ps)
           in Inr (JObj [(''valid'', JBool (vs = [])), (''violations'', JList vs), (''policiesChecked'', jlen ps)])))"

definition handle_policy_list :: "(timestamp \<Rightarrow> string) \<Rightarrow> policy_entry file_map \<Rightarrow> string + json" where
  "handle_policy_list rfc s =
     (let es = map (\<lambda>p. JObj [(''name'', JStr (pol_name p)), (''type'', JStr (pol_type p)), (''enabled'', JBool (pol_enabled p)),
                 (''rules'', jlen (pol_rules p)), (''created_at'', JStr (rfc (pol_created_at p)))]) (policies_list s)
      in Inr (JObj [(''count'', jlen es), (''policies'', JList es)]))"

section \<open>What validation decides\<close>

text \<open>
  A workload that a specification describes: the numbers of GPUs and megabytes it asks for (none when it does not mention
  them), the image it runs, which it must name, and the keys of its labels.
\<close>

record workload_request =
  wr_gpus :: u64
  wr_memory_mb :: u64
  wr_image :: string
  wr_labels :: "string list"

definition describes_number :: "json \<Rightarrow> string \<Rightarrow> u64 \<Rightarrow> bool" where
  "describes_number spec field x \<longleftrightarrow> jget spec field = None \<and> x = 0 \<or> get_u64 spec field = Some x"

definition describes :: "json \<Rightarrow> workload_request \<Rightarrow> bool" where
  "describes spec req \<longleftrightarrow>
     describes_number spec ''gpus'' (wr_gpus req) \<and> describes_number spec ''memoryMb'' (wr_memory_mb req) \<and>
     get_str spec ''image'' = Some (wr_image req) \<and>
     (case jget spec ''labels'' of
        None \<Rightarrow> wr_labels req = []
      | Some l \<Rightarrow> (case as_object l of Some ls \<Rightarrow> wr_labels req = map fst ls | None \<Rightarrow> False))"

text \<open>
  What a policy demands: the numeric limits, the image prefixes and the label keys that its rules name, and the workloads
  that meet them.
\<close>

definition limits_of :: "policy_entry \<Rightarrow> string \<Rightarrow> u64 set" where
  "limits_of p k = {m. \<exists>r \<in> set (pol_rules p). get_u64 r k = Some m}"

definition texts_of :: "policy_entry \<Rightarrow> string \<Rightarrow> string set" where
  "texts_of p k = {t. \<exists>r \<in> set (pol_rules p). get_str r k = Some t}"

definition meets :: "workload_request \<Rightarrow> policy_entry \<Rightarrow> bool" where
  "meets req p \<longleftrightarrow>
     (pol_type p = ''resource-limit'' \<longrightarrow>
        (\<forall>m \<in> limits_of p ''maxGpus''. wr_gpus req \<le> m) \<and> (\<forall>m \<in> limits_of p ''maxMemoryMb''. wr_memory_mb req \<le> m)) \<and>
     (pol_type p = ''image-whitelist'' \<longrightarrow>
        texts_of p ''pattern'' = {} \<or> (\<exists>pat \<in> texts_of p ''pattern''. has_prefix pat (wr_image req))) \<and>
     (pol_type p = ''label-required'' \<longrightarrow> texts_of p ''key'' \<subseteq> set (wr_labels req))"

lemma limit_violations_Nil:
  assumes "describes_number spec field x"
  shows "limit_violations pol spec rule limit field msg = [] \<longleftrightarrow> (\<forall>m. get_u64 rule limit = Some m \<longrightarrow> x \<le> m)"
  using assms
  by (auto simp: limit_violations_def describes_number_def get_u64_def not_less split: option.splits)

lemma as_object_Some: "as_object j = Some fs \<longleftrightarrow> j = JObj fs"
  by (cases j) auto

lemma label_present:
  assumes "describes spec req"
  shows "(case Option.bind (jget spec ''labels'') as_object of None \<Rightarrow> False | Some l \<Rightarrow> map_of l k \<noteq> None) \<longleftrightarrow> k \<in> set (wr_labels req)"
  using assms
  by (auto simp: describes_def map_of_eq_None_iff split: option.splits)

lemma map_filter_Nil: "List.map_filter f xs = [] \<longleftrightarrow> (\<forall>x \<in> set xs. f x = None)"
  by (induction xs) (auto simp: List.map_filter_simps split: option.split)

lemma set_map_filter: "set (List.map_filter f xs) = {y. \<exists>x \<in> set xs. f x = Some y}"
  by (induction xs) (auto simp: List.map_filter_simps split: option.split)

lemma policy_violations_Nil:
  assumes d: "describes spec req"
  shows "policy_violations spec p = [] \<longleftrightarrow> meets req p"
proof -
  have numbers: "describes_number spec ''gpus'' (wr_gpus req)" "describes_number spec ''memoryMb'' (wr_memory_mb req)"
    and img: "get_str spec ''image'' = Some (wr_image req)"
    using d by (simp_all add: describes_def)
  consider "pol_type p = ''resource-limit''" | "pol_type p = ''image-whitelist''" | "pol_type p = ''label-required''"
    | "pol_type p \<notin> {''resource-limit'', ''image-whitelist'', ''label-required''}" by blast
  then show ?thesis
  proof cases
    case 1
    then show ?thesis
      using limit_violations_Nil [OF numbers(1)] limit_violations_Nil [OF numbers(2)]
      by (auto simp: policy_violations_def meets_def limits_of_def)
  next
    case 2
    have "List.map_filter (\<lambda>r. get_str r ''pattern'') (pol_rules p) = [] \<longleftrightarrow> texts_of p ''pattern'' = {}"
      unfolding map_filter_Nil texts_of_def by (auto simp: not_Some_eq [symmetric] simp del: not_Some_eq)
    moreover have "list_ex P (List.map_filter (\<lambda>r. get_str r ''pattern'') (pol_rules p)) \<longleftrightarrow> (\<exists>pat \<in> texts_of p ''pattern''. P pat)" for P
      by (auto simp: list_ex_iff set_map_filter texts_of_def)
    ultimately show ?thesis using 2 img by (simp add: policy_violations_def meets_def Let_def)
  next
    case 3
    have key: "((case get_str r ''key'' of None \<Rightarrow> [] | Some k \<Rightarrow> if P k then [] else [f k]) = []) =
        (\<forall>k. get_str r ''key'' = Some k \<longrightarrow> P k)" for r P and f :: "string \<Rightarrow> json"
      by (simp split: option.split)
    from 3 show ?thesis
      by (auto simp: policy_violations_def meets_def Let_def key label_present [OF d] texts_of_def)
  next
    case 4
    then show ?thesis by (simp add: policy_violations_def meets_def)
  qed
qed

text \<open>
  C32. Validation is exact for well-formed specifications: when a specification describes a workload (it names its image as a text, and
  its GPUs, memory and labels are absent or well typed), it is reported valid if and only if every enabled policy is met: the
  GPUs and the memory are at most every limit that a resource policy sets (as an unsigned number), the image begins with one of the patterns of a
  whitelist that has any, and every label key that a label policy names is present. The report also counts the policies that were
  checked. (A specification that is not well formed can pass where it should not, which the lemmas below show.)
\<close>

theorem policy_validation_exact:
  assumes "describes spec req"
  shows "\<exists>ans. handle_policy_validate (Inr spec) s = Inr ans \<and>
     jget ans ''valid'' = Some (JBool (\<forall>p \<in> set (policies_list s). pol_enabled p \<longrightarrow> meets req p)) \<and>
     jget ans ''policiesChecked'' = Some (jlen (filter pol_enabled (policies_list s)))"
proof -
  have "(concat (map (policy_violations spec) (policies_list_enabled s)) = []) =
      (\<forall>p \<in> set (policies_list s). pol_enabled p \<longrightarrow> meets req p)"
    by (auto simp: policies_list_enabled_def policies_list_def policy_violations_Nil [OF assms])
  then show ?thesis
    by (simp add: handle_policy_validate_def Let_def policies_list_enabled_def policies_list_def)
qed

definition demo_policies :: "policy_entry file_map" where
  "demo_policies = \<lparr>entries = [(''p'', \<lparr>pol_name = ''p'', pol_type = ''resource-limit'', pol_rules = [JObj [(''maxGpus'', JNum 2)]],
     pol_enabled = True, pol_created_at = 0\<rparr>)], store_path = []\<rparr>"

theorem policy_validation_exact_witness:
  "\<exists>ans. handle_policy_validate (Inr (JObj [(''image'', JStr ''nginx''), (''gpus'', JNum 4)])) demo_policies = Inr ans \<and>
     jget ans ''valid'' = Some (JBool False)"
proof -
  let ?spec = "JObj [(''image'', JStr ''nginx''), (''gpus'', JNum 4)]"
  let ?req = "\<lparr>wr_gpus = 4, wr_memory_mb = 0, wr_image = ''nginx'', wr_labels = []\<rparr>"
  have d: "describes ?spec ?req" by (simp add: describes_def describes_number_def get_u64_def get_str_def)
  have "\<not> meets ?req (snd (hd (entries demo_policies)))"
    by (simp add: meets_def demo_policies_def limits_of_def get_u64_def)
  then have "(\<forall>p \<in> set (policies_list demo_policies). pol_enabled p \<longrightarrow> meets ?req p) = False"
    by (simp add: policies_list_def store_list_def demo_policies_def)
  with policy_validation_exact [OF d, of demo_policies] show ?thesis
    by (elim exE conjE) (rule exI, rule conjI, assumption, simp only:)
qed

text \<open>A specification that does not name its image passes every whitelist, and one whose number of GPUs is negative every limit.\<close>

lemma unnamed_image_admitted: "pol_type p = ''image-whitelist'' \<Longrightarrow> jget spec ''image'' = None \<Longrightarrow> policy_violations spec p = []"
  by (simp add: policy_violations_def get_str_def)

lemma negative_gpus_admitted: "limit_violations pol (JObj [(''gpus'', JNum (- 1))]) rule ''maxGpus'' ''gpus'' msg = []"
  by (simp add: limit_violations_def get_u64_def split: option.split)

section \<open>Jobs and cron jobs under any sequence of commands\<close>

text \<open>The commands that write to the two stores. The result of each write is part of the command, and so is the time.\<close>

datatype job_command =
    JobCreate write_result timestamp "job_create_params decoded"
  | JobDelete write_result "string decoded"
  | CronCreate write_result timestamp "cron_create_params decoded"
  | CronTrigger write_result write_result timestamp "string decoded"
  | CronSuspend write_result "string decoded"
  | CronResume write_result "string decoded"

fun job_command_step :: "'d node_env \<Rightarrow> job_entry codec \<Rightarrow> cron_entry codec \<Rightarrow> job_stores \<times> 'd \<Rightarrow> job_command \<Rightarrow> job_stores \<times> 'd" where
  "job_command_step env CJ CC ((jobs, crons, d), h) (JobCreate w now dec) =
     (case handle_job_create CJ w now dec (jobs, d) of (_, jobs', d') \<Rightarrow> ((jobs', crons, d'), h))"
| "job_command_step env CJ CC ((jobs, crons, d), h) (JobDelete w dec) =
     (case handle_job_delete env CJ w dec ((jobs, d), h) of (_, (jobs', d'), h') \<Rightarrow> ((jobs', crons, d'), h'))"
| "job_command_step env CJ CC ((jobs, crons, d), h) (CronCreate w now dec) =
     (case handle_cron_create CC w now dec (crons, d) of (_, crons', d') \<Rightarrow> ((jobs, crons', d'), h))"
| "job_command_step env CJ CC ((jobs, crons, d), h) (CronTrigger w w' now dec) =
     (case handle_cron_trigger CJ CC w w' now dec (jobs, crons, d) of (_, s') \<Rightarrow> (s', h))"
| "job_command_step env CJ CC ((jobs, crons, d), h) (CronSuspend w dec) =
     (case handle_cron_suspend CC w dec (crons, d) of (_, crons', d') \<Rightarrow> ((jobs, crons', d'), h))"
| "job_command_step env CJ CC ((jobs, crons, d), h) (CronResume w dec) =
     (case handle_cron_resume CC w dec (crons, d) of (_, crons', d') \<Rightarrow> ((jobs, crons', d'), h))"

definition job_commands :: "'d node_env \<Rightarrow> job_entry codec \<Rightarrow> cron_entry codec \<Rightarrow> job_stores \<times> 'd \<Rightarrow> job_command list \<Rightarrow> job_stores \<times> 'd" where
  "job_commands env CJ CC = foldl (job_command_step env CJ CC)"

text \<open>A job that has not been started: no container, no completion.\<close>

definition idle_job :: "job_entry \<Rightarrow> bool" where
  "idle_job j \<longleftrightarrow> job_container_ids j = [] \<and> completed j = 0 \<and> failed j = 0 \<and> job_state j = ''running'' \<and> finished_at j = None"

definition idle_jobs :: "job_entry file_map \<Rightarrow> bool" where
  "idle_jobs s \<longleftrightarrow> (\<forall>name j. jobs_get s name = Some j \<longrightarrow> idle_job j)"

lemma new_job_idle [simp]: "idle_job (new_job now name img cmd cs par backoff)"
  by (simp add: idle_job_def new_job_def)

lemma jobs_create_idle:
  "idle_jobs (fst st) \<Longrightarrow> idle_job e \<Longrightarrow> idle_jobs (fst (snd (jobs_create C w e st)))"
  by (simp add: jobs_create_def store_create_def idle_jobs_def jobs_get_def store_get_def)

lemma jobs_delete_idle: "idle_jobs (fst st) \<Longrightarrow> idle_jobs (fst (snd (jobs_delete C w name st)))"
  by (simp add: jobs_delete_def store_remove_def idle_jobs_def jobs_get_def store_get_def split: option.split prod.split)

lemma jobs_delete_returns: "jobs_delete C w name st = (Inr j, st') \<Longrightarrow> jobs_get (fst st) name = Some j"
  by (auto simp: jobs_delete_def store_remove_def jobs_get_def store_get_def split: option.splits)

lemma handle_job_create_idle:
  "idle_jobs jobs \<Longrightarrow> idle_jobs (fst (snd (handle_job_create C w now dec (jobs, d))))"
  using jobs_create_idle [of "(jobs, d)"]
  by (simp add: handle_job_create_def split: sum.split prod.split) (metis fst_conv new_job_idle snd_conv)

lemma handle_job_delete_idle:
  assumes "idle_jobs jobs"
  shows "idle_jobs (fst (fst (snd (handle_job_delete env C w dec ((jobs, d), h))))) \<and> snd (snd (handle_job_delete env C w dec ((jobs, d), h))) = h"
proof (cases dec)
  case (Inr name)
  obtain r st where del: "jobs_delete C w name (jobs, d) = (r, st)" by (cases "jobs_delete C w name (jobs, d)")
  then have "idle_jobs (fst st)" using jobs_delete_idle [of "(jobs, d)" C w name] assms by simp
  moreover have "job_container_ids j = []" if "r = Inr j" for j
    using jobs_delete_returns del that assms by (fastforce simp: idle_jobs_def idle_job_def)
  ultimately show ?thesis using Inr del by (simp add: handle_job_delete_def split: sum.split)
qed (simp add: handle_job_delete_def assms)

lemma handle_cron_trigger_idle:
  assumes "idle_jobs jobs"
  shows "idle_jobs (fst (snd (handle_cron_trigger CJ CC w w' now dec (jobs, crons, d))))"
proof (cases dec)
  case (Inr name)
  show ?thesis
  proof (cases "crons_get crons name")
    case (Some c)
    let ?j = "new_job now (manual_job_name name now) (cron_image c) (cron_command c) 1 1 3"
    obtain r jobs' d' where c: "jobs_create CJ w ?j (jobs, d) = (r, jobs', d')" by (metis prod.collapse)
    moreover have "idle_jobs jobs'" using jobs_create_idle [of "(jobs, d)" ?j CJ w] assms c by simp
    ultimately show ?thesis using Inr Some by (simp add: handle_cron_trigger_def split: sum.split prod.split)
  qed (simp add: handle_cron_trigger_def Inr assms)
qed (simp add: handle_cron_trigger_def assms)

lemma job_command_idle:
  assumes "idle_jobs (fst (fst s))"
  shows "idle_jobs (fst (fst (job_command_step env CJ CC s c))) \<and> snd (job_command_step env CJ CC s c) = snd s"
proof -
  obtain jobs crons d h where s: "s = ((jobs, crons, d), h)" by (metis prod.collapse)
  show ?thesis
  proof (cases c)
    case (JobCreate w now dec)
    then show ?thesis using handle_job_create_idle [of jobs CJ w now dec d] assms s by (simp add: case_prod_beta)
  next
    case (JobDelete w dec)
    then show ?thesis using handle_job_delete_idle [of jobs env CJ w dec d h] assms s by (simp add: case_prod_beta)
  next
    case (CronTrigger w w' now dec)
    then show ?thesis using handle_cron_trigger_idle [of jobs CJ CC w w' now dec crons d] assms s by (simp add: case_prod_beta)
  qed (use assms s in \<open>simp_all add: case_prod_beta\<close>)
qed

text \<open>
  No job ever runs: whatever commands a node is given, starting from stores without started jobs, every job in its store still has no container
  and no completion and is reported as running, and no command has reached the container runtime.
\<close>

theorem jobs_never_run:
  assumes "idle_jobs (fst (fst s))"
  shows "idle_jobs (fst (fst (job_commands env CJ CC s cs))) \<and> snd (job_commands env CJ CC s cs) = snd s"
  using assms unfolding job_commands_def
proof (induction cs arbitrary: s)
  case (Cons c cs)
  show ?case using Cons.IH [of "job_command_step env CJ CC s c"] job_command_idle [OF Cons.prems] by simp
qed simp

text \<open>
  What a manual trigger does: if the cron job exists and no job has the derived name, a job with one completion and the cron job's image and command is
  in the store, and the cron job's last run is the time of the trigger; a suspended cron job is triggered like any other.
\<close>

theorem cron_trigger_exact:
  assumes c: "crons_get crons name = Some c"
    and fresh: "jobs_get jobs (manual_job_name name now) = None"
  shows "\<exists>ans jobs' crons' d'. handle_cron_trigger CJ CC w w' now (Inr name) (jobs, crons, d) = (Inr ans, jobs', crons', d') \<and>
     (\<forall>k. jobs_get jobs' k = (if k = manual_job_name name now
        then Some (new_job now k (cron_image c) (cron_command c) 1 1 3) else jobs_get jobs k)) \<and>
     (\<forall>k. crons_get crons' k = (if k = name then Some (c\<lparr>last_run := Some now\<rparr>) else crons_get crons k))"
proof -
  have "\<not> hm_contains (entries jobs) (manual_job_name name now)"
    using fresh by (simp add: jobs_get_def store_get_def hm_contains_def)
  then show ?thesis using c
    by (simp add: handle_cron_trigger_def jobs_create_def store_create_def crons_update_def crons_get_mut_def store_mutate_def
        crons_get_def store_get_def jobs_get_def new_job_def snapshot_def put_def)
qed

definition suspended_cron :: cron_entry where
  "suspended_cron = \<lparr>cron_name = ''c'', cron_schedule = ''* * * * *'', cron_image = ''img'', cron_command = [''run''], suspended = True,
     last_run = None, next_run = None, cron_created_at = 0\<rparr>"

theorem cron_trigger_exact_witness:
  "\<exists>ans jobs' crons' d'. handle_cron_trigger (numbered_codec (\<lambda>_. 0)) (numbered_codec (\<lambda>_. 0)) Written Written 5 (Inr ''c'')
       (\<lparr>entries = [], store_path = []\<rparr>, \<lparr>entries = [(''c'', suspended_cron)], store_path = []\<rparr>, \<lambda>_. None) = (Inr ans, jobs', crons', d') \<and>
     crons_get crons' ''c'' = Some (suspended_cron\<lparr>last_run := Some 5\<rparr>)"
  using cron_trigger_exact [of "\<lparr>entries = [(''c'', suspended_cron)], store_path = []\<rparr>" "''c''" suspended_cron
      "\<lparr>entries = [], store_path = []\<rparr>" 5 "numbered_codec (\<lambda>_. 0)" "numbered_codec (\<lambda>_. 0)" Written Written "\<lambda>_. None"]
  by (fastforce simp: crons_get_def jobs_get_def store_get_def)

text \<open>A second trigger within the same second is refused, and changes nothing.\<close>

lemma trigger_once_a_second:
  assumes "crons_get crons name = Some c" "jobs_get jobs (manual_job_name name now) = Some j" "unix_seconds now' = unix_seconds now"
  shows "handle_cron_trigger CJ CC w w' now' (Inr name) (jobs, crons, d) =
     (Inl (quoted ''job'' (manual_job_name name now) ''already exists''), jobs, crons, d)"
  using assms
  by (simp add: handle_cron_trigger_def jobs_create_def store_create_def new_job_def manual_job_name_def jobs_get_def store_get_def hm_contains_def)

section \<open>Quotas and taints\<close>

text \<open>
  Setting a quota is partial: the fields that are given replace the stored ones, the others and every other namespace keep theirs, and after a
  successful write the stored file has the change.
\<close>

theorem set_quota_exact:
  assumes C: "codec_roundtrip C" and wf: "hm_wf (entries (namespaces (fst st)))"
    and get: "namespaces_get (fst st) name = Some ns"
  shows "\<exists>ans st'. handle_namespace_set_quota C Written (Inr (name, p)) st = (Inr ans, st') \<and>
     (\<forall>k. namespaces_get (fst st') k = (if k = name then Some (ns\<lparr>quotas := merge_quotas p (quotas ns)\<rparr>) else namespaces_get (fst st) k)) \<and>
     synced C (namespaces (fst st'), snd st')"
proof -
  let ?ns = "ns\<lparr>quotas := merge_quotas p (quotas ns)\<rparr>"
  let ?m = "put name ?ns (namespaces (fst st), snd st)"
  have "synced C (snapshot C Written ?m)"
    using codec_roundtrip.snapshot_synced [OF C, of ?m] wf by simp
  then show ?thesis using get
    by (simp add: handle_namespace_set_quota_def namespaces_update_def namespaces_get_mut_def namespaces_get_def store_get_def
        store_mutate_def snapshot_def put_def)
qed

text \<open>A taint is only in memory: after a restart there is none, whatever was set.\<close>

lemma taint_added:
  assumes "taint_effect t \<in> {''NoSchedule'', ''PreferNoSchedule'', ''NoExecute''}"
  shows "\<exists>ans. handle_node_taint (Inr t) s = (Inr ans, s\<lparr>taints := taints s @ [t]\<rparr>)"
  using assms by (auto simp: handle_node_taint_def)

lemma taints_lost_on_restart: "taints (namespaces_new C sp d) = []"
  by (simp add: namespaces_new_def)

end
