(* ===== verification/Secret_Commands.thy ===== *)
theory Secret_Commands
  imports Store_Commands
begin

text \<open>
  The handlers for secrets, API keys and the access log of a node: \<open>crates/clawnode/src/secrets_cmd.rs\<close> and \<open>auth_cmd.rs\<close>, over the stores of
  \<open>claw-secrets\<close> and \<open>claw-auth\<close>. The cipher, the digest, the base-64 text form and the encoding of the data are libraries: they are a record of
  functions that the handlers take, with a contract. The random bytes are arguments.
\<close>

section \<open>The libraries\<close>

text \<open>AES-256-GCM with an empty associated text, SHA-256, base-64 and the JSON encoding of a map of texts.\<close>

record secret_lib =
  seal :: "u8 list \<Rightarrow> u8 list \<Rightarrow> u8 list \<Rightarrow> u8 list option"
  unseal :: "u8 list \<Rightarrow> u8 list \<Rightarrow> u8 list \<Rightarrow> u8 list option"
  sha256 :: "u8 list \<Rightarrow> u8 list"
  b64_encode :: "u8 list \<Rightarrow> string"
  b64_decode :: "string \<Rightarrow> u8 list option"
  data_to_vec :: "(string, string) hashmap \<Rightarrow> string + u8 list"
  data_from_slice :: "u8 list \<Rightarrow> (string, string) hashmap option"

definition text_bytes :: "string \<Rightarrow> u8 list" where
  "text_bytes s = map (\<lambda>c. of_nat (of_char c)) s"

definition hex_encode :: "u8 list \<Rightarrow> string" where
  "hex_encode bs = concat (map (\<lambda>b. [hex_digit (unat b div 16), hex_digit (unat b mod 16)]) bs)"

section \<open>Encryption\<close>

definition KEY_VERSION :: u32 where
  "KEY_VERSION = 1"

definition derive_key :: "secret_lib \<Rightarrow> u8 list \<Rightarrow> u8 list" where
  "derive_key L seed = sha256 L seed"

definition get_node_key :: "secret_lib \<Rightarrow> string \<Rightarrow> u8 list" where
  "get_node_key L host = derive_key L (text_bytes (''clawbernetes-secret-key-'' @ host))"

text \<open>\<open>rng\<close> is what the system's generator gives for the nonce of twelve bytes, if it gives one.\<close>

definition encrypt :: "secret_lib \<Rightarrow> u8 list option \<Rightarrow> u8 list \<Rightarrow> u8 list \<Rightarrow> string + string \<times> string" where
  "encrypt L rng key plain =
     (case rng of
        None \<Rightarrow> Inl ''failed to generate nonce''
      | Some nonce \<Rightarrow>
          (case seal L key nonce plain of
             None \<Rightarrow> Inl ''encryption failed''
           | Some c \<Rightarrow> Inr (b64_encode L c, b64_encode L nonce)))"

definition decrypt :: "secret_lib \<Rightarrow> u8 list \<Rightarrow> string \<Rightarrow> string \<Rightarrow> string + u8 list" where
  "decrypt L key cipher nonce =
     (case b64_decode L cipher of
        None \<Rightarrow> Inl ''invalid ciphertext encoding''
      | Some c \<Rightarrow>
          (case b64_decode L nonce of
             None \<Rightarrow> Inl ''invalid nonce encoding''
           | Some n \<Rightarrow>
               if length n \<noteq> 12 then Inl ''invalid nonce length''
               else (case unseal L key n c of
                       None \<Rightarrow> Inl ''decryption failed (wrong key or corrupted data)''
                     | Some p \<Rightarrow> Inr p)))"

section \<open>Secrets\<close>

definition sealed_entry :: "timestamp \<Rightarrow> string \<Rightarrow> string \<times> string \<Rightarrow> secret_entry" where
  "sealed_entry now name cn = \<lparr>secret_name = name, encrypted_data = fst cn, secret_nonce = snd cn, key_version = KEY_VERSION,
     secret_created_at = now, rotated_at = now\<rparr>"

definition handle_secret_create ::
  "secret_lib \<Rightarrow> string \<Rightarrow> secret_entry codec \<Rightarrow> write_result \<Rightarrow> u8 list option \<Rightarrow> timestamp \<Rightarrow> (string \<times> (string, string) hashmap) decoded
   \<Rightarrow> secret_entry file_map \<times> disk \<Rightarrow> (string, json, secret_entry file_map \<times> disk) outcome" where
  "handle_secret_create L host C w rng now dec st =
     (case dec of
        Inl e \<Rightarrow> (Inl e, st)
      | Inr (name, dat) \<Rightarrow>
          (case data_to_vec L dat of
             Inl e \<Rightarrow> (Inl e, st)
           | Inr plain \<Rightarrow>
               (case encrypt L rng (get_node_key L host) plain of
                  Inl e \<Rightarrow> (Inl e, st)
                | Inr cn \<Rightarrow>
                    (case secrets_create C w (sealed_entry now name cn) st of
                       (Inl e, st') \<Rightarrow> (Inl e, st')
                     | (Inr _, st') \<Rightarrow>
                         (Inr (JObj [(''name'', JStr name), (''keys'', JList (map (\<lambda>kv. JStr (fst kv)) dat)), (''keyVersion'', jword KEY_VERSION),
                            (''success'', JBool True)]), st')))))"

definition handle_secret_get ::
  "secret_lib \<Rightarrow> string \<Rightarrow> (timestamp \<Rightarrow> string) \<Rightarrow> string decoded \<Rightarrow> secret_entry file_map \<Rightarrow> string + json" where
  "handle_secret_get L host rfc dec s =
     (case dec of
        Inl e \<Rightarrow> Inl e
      | Inr name \<Rightarrow>
          (case secrets_get s name of
             None \<Rightarrow> Inl (quoted ''secret'' name ''not found'')
           | Some e \<Rightarrow>
               (case decrypt L (get_node_key L host) (encrypted_data e) (secret_nonce e) of
                  Inl x \<Rightarrow> Inl x
                | Inr plain \<Rightarrow>
                    (case data_from_slice L plain of
                       None \<Rightarrow> Inl ''failed to deserialize secret data''
                     | Some dat \<Rightarrow>
                         Inr (JObj [(''name'', JStr (secret_name e)), (''data'', jmap dat), (''keyVersion'', jword (key_version e)),
                           (''createdAt'', JStr (rfc (secret_created_at e))), (''rotatedAt'', JStr (rfc (rotated_at e)))])))))"


definition handle_secret_list :: "(timestamp \<Rightarrow> string) \<Rightarrow> secret_entry file_map \<Rightarrow> string + json" where
  "handle_secret_list rfc s =
     (let es = map (\<lambda>e. JObj [(''name'', JStr (secret_name e)), (''keyVersion'', jword (key_version e)),
                 (''createdAt'', JStr (rfc (secret_created_at e))), (''rotatedAt'', JStr (rfc (rotated_at e)))]) (secrets_list s)
      in Inr (JObj [(''count'', jlen es), (''secrets'', JList es)]))"

text \<open>The text to encrypt: the new data, or what the stored secret decrypts to.\<close>

definition rotation_text ::
  "secret_lib \<Rightarrow> string \<Rightarrow> string \<Rightarrow> (string, string) hashmap option \<Rightarrow> secret_entry file_map \<Rightarrow> string + u8 list" where
  "rotation_text L host name new s =
     (case new of
        Some dat \<Rightarrow> data_to_vec L dat
      | None \<Rightarrow>
          (case secrets_get s name of
             None \<Rightarrow> Inl (quoted ''secret'' name ''not found'')
           | Some e \<Rightarrow> decrypt L (get_node_key L host) (encrypted_data e) (secret_nonce e)))"

definition handle_secret_rotate ::
  "secret_lib \<Rightarrow> string \<Rightarrow> secret_entry codec \<Rightarrow> write_result \<Rightarrow> u8 list option \<Rightarrow> timestamp
   \<Rightarrow> (string \<times> (string, string) hashmap option) decoded \<Rightarrow> secret_entry file_map \<times> disk
   \<Rightarrow> (string, json, secret_entry file_map \<times> disk) outcome" where
  "handle_secret_rotate L host C w rng now dec st =
     (case dec of
        Inl e \<Rightarrow> (Inl e, st)
      | Inr (name, new) \<Rightarrow>
          (case rotation_text L host name new (fst st) of
             Inl e \<Rightarrow> (Inl e, st)
           | Inr plain \<Rightarrow>
               (case encrypt L rng (get_node_key L host) plain of
                  Inl e \<Rightarrow> (Inl e, st)
                | Inr cn \<Rightarrow>
                    (case secrets_update C w name (sealed_entry now name cn) st of
                       (Inl e, st') \<Rightarrow> (Inl e, st')
                     | (Inr _, st') \<Rightarrow>
                         (Inr (JObj [(''name'', JStr name), (''rotated'', JBool True), (''keyVersion'', jword KEY_VERSION)]), st')))))"

section \<open>API keys and the access log\<close>

text \<open>The stores of keys and log entries share the disk.\<close>

type_synonym auth_stores = "api_key_record file_map \<times> audit_log_entry file_map \<times> disk"

definition generate_api_secret :: "u8 list option \<Rightarrow> string + string" where
  "generate_api_secret rng = (case rng of None \<Rightarrow> Inl ''failed to generate random bytes'' | Some bs \<Rightarrow> Inr (hex_encode bs))"

definition hash_secret :: "secret_lib \<Rightarrow> string \<Rightarrow> string" where
  "hash_secret L secret = hex_encode (sha256 L (text_bytes secret))"

record create_key_params =
  ck_name :: string
  ck_role :: string
  ck_scopes :: "string list"

definition key_id_of :: "string \<Rightarrow> string" where
  "key_id_of secret = ''claw-'' @ take 12 secret"

definition key_log :: "string \<Rightarrow> timestamp \<Rightarrow> string \<Rightarrow> string \<Rightarrow> string option \<Rightarrow> audit_log_entry" where
  "key_log uuid now action kid details = \<lparr>log_id = uuid, log_timestamp = now, log_actor = ''system'', log_action = action, log_resource = ''api_key'',
     log_resource_id = Some kid, log_result = ''success'', log_details = details\<rparr>"

definition handle_create_key ::
  "secret_lib \<Rightarrow> api_key_record codec \<Rightarrow> audit_log_entry codec \<Rightarrow> write_result \<Rightarrow> write_result \<Rightarrow> u8 list option \<Rightarrow> string \<Rightarrow> timestamp \<Rightarrow> timestamp
   \<Rightarrow> create_key_params decoded \<Rightarrow> auth_stores \<Rightarrow> (string, json, auth_stores) outcome" where
  "handle_create_key L CK CL w w' rng uuid now now' dec s =
     (case s of (keys, log, d) \<Rightarrow>
        case dec of
          Inl e \<Rightarrow> (Inl e, s)
        | Inr p \<Rightarrow>
            (case generate_api_secret rng of
               Inl e \<Rightarrow> (Inl e, s)
             | Inr secret \<Rightarrow>
                 (case keys_create CK w \<lparr>key_id = key_id_of secret, ak_name = ck_name p, secret_hash = hash_secret L secret, scopes = ck_scopes p,
                         ak_role = ck_role p, ak_active = True, ak_created_at = now, last_used = None\<rparr> (keys, d) of
                    (Inl e, keys', d') \<Rightarrow> (Inl e, keys', log, d')
                  | (Inr _, keys', d') \<Rightarrow>
                      (case log_append CL w' (key_log uuid now' ''auth.create_key'' (key_id_of secret)
                              (Some (''role='' @ ck_role p @ '', name='' @ ck_name p))) (log, d') of
                         (log', d'') \<Rightarrow>
                           (Inr (JObj [(''keyId'', JStr (key_id_of secret)), (''name'', JStr (ck_name p)), (''role'', JStr (ck_role p)),
                              (''secret'', JStr secret), (''scopes'', JList (map JStr (ck_scopes p))), (''success'', JBool True),
                              (''note'', JStr (''Store the secret securely '' @ [CHR 0xE2, CHR 0x80, CHR 0x94] @ '' it cannot be retrieved later.''))]),
                            keys', log', d'')))))"

definition handle_revoke_key ::
  "api_key_record codec \<Rightarrow> audit_log_entry codec \<Rightarrow> write_result \<Rightarrow> write_result \<Rightarrow> string \<Rightarrow> timestamp
   \<Rightarrow> string decoded \<Rightarrow> auth_stores \<Rightarrow> (string, json, auth_stores) outcome" where
  "handle_revoke_key CK CL w w' uuid now dec s =
     (case s of (keys, log, d) \<Rightarrow>
        case dec of
          Inl e \<Rightarrow> (Inl e, s)
        | Inr kid \<Rightarrow>
            (case keys_revoke CK w kid (keys, d) of
               (Inl e, keys', d') \<Rightarrow> (Inl e, keys', log, d')
             | (Inr _, keys', d') \<Rightarrow>
                 (case log_append CL w' (key_log uuid now ''auth.revoke_key'' kid None) (log, d') of
                    (log', d'') \<Rightarrow> (Inr (JObj [(''keyId'', JStr kid), (''revoked'', JBool True)]), keys', log', d''))))"

definition handle_list_keys :: "(timestamp \<Rightarrow> string) \<Rightarrow> api_key_record file_map \<Rightarrow> string + json" where
  "handle_list_keys rfc s =
     (let es = map (\<lambda>k. JObj [(''keyId'', JStr (key_id k)), (''name'', JStr (ak_name k)), (''role'', JStr (ak_role k)),
                 (''scopes'', JList (map JStr (scopes k))), (''active'', JBool (ak_active k)), (''createdAt'', JStr (rfc (ak_created_at k))),
                 (''lastUsed'', jopt (\<lambda>t. JStr (rfc t)) (last_used k))]) (keys_list s)
      in Inr (JObj [(''count'', jlen es), (''keys'', JList es)]))"

definition handle_audit_query ::
  "(timestamp \<Rightarrow> string) \<Rightarrow> (string option \<times> string option \<times> nat) decoded \<Rightarrow> audit_log_entry file_map \<Rightarrow> string + json" where
  "handle_audit_query rfc dec s =
     (case dec of
        Inl e \<Rightarrow> Inl e
      | Inr (act, what, limit) \<Rightarrow>
          (let es = map (\<lambda>e. JObj [(''id'', JStr (log_id e)), (''timestamp'', JStr (rfc (log_timestamp e))), (''actor'', JStr (log_actor e)),
                      (''action'', JStr (log_action e)), (''resource'', JStr (log_resource e)), (''resourceId'', jopt JStr (log_resource_id e)),
                      (''result'', JStr (log_result e)), (''details'', jopt JStr (log_details e))]) (log_query s act what limit)
           in Inr (JObj [(''count'', jlen es), (''entries'', JList es)])))"

section \<open>The contract of the libraries\<close>

text \<open>
  What the handlers rely on: opening what was sealed with the same key and nonce gives the text back, base-64 and the
  encoding of the data are inverted by their decoders (the data up to the order of its keys), and sealing succeeds for data that is not too long for
  the cipher. \<open>short\<close> says which data that is.
\<close>

locale secret_library =
  fixes L :: secret_lib and short :: "(string, string) hashmap \<Rightarrow> bool"
  assumes unseal_seal: "length n = 12 \<Longrightarrow> seal L k n p = Some c \<Longrightarrow> unseal L k n c = Some p"
    and b64: "b64_decode L (b64_encode L bs) = Some bs"
    and encoded: "hm_wf m \<Longrightarrow> \<exists>p m'. data_to_vec L m = Inr p \<and> data_from_slice L p = Some m' \<and> hm_get m' = hm_get m"
    and seals: "hm_wf m \<Longrightarrow> short m \<Longrightarrow> data_to_vec L m = Inr p \<Longrightarrow> length n = 12 \<Longrightarrow> seal L k n p \<noteq> None"
begin

lemma decrypt_encrypt:
  assumes "length n = 12" "encrypt L (Some n) k p = Inr (c, n64)"
  shows "decrypt L k c n64 = Inr p"
  using assms by (auto simp: encrypt_def decrypt_def b64 unseal_seal split: option.splits)

lemma encrypt_succeeds:
  assumes "hm_wf m" "short m"
  obtains p m' where "data_to_vec L m = Inr p" "data_from_slice L p = Some m'" "hm_get m' = hm_get m"
    "\<And>k n. length n = 12 \<Longrightarrow> \<exists>c n64. encrypt L (Some n) k p = Inr (c, n64)"
proof -
  obtain p m' where p: "data_to_vec L m = Inr p" "data_from_slice L p = Some m'" "hm_get m' = hm_get m"
    using encoded [OF assms(1)] by blast
  have "\<exists>c n64. encrypt L (Some n) k p = Inr (c, n64)" if n: "length n = 12" for k n
  proof -
    obtain c where "seal L k n p = Some c" using seals [OF assms p(1) n] by blast
    then show ?thesis by (simp add: encrypt_def)
  qed
  with p show thesis by (rule that)
qed

end

text \<open>The secret \<open>name\<close> holds \<open>dat\<close>: a request for it succeeds and shows a map with the same lookups.\<close>

definition reveals :: "secret_lib \<Rightarrow> string \<Rightarrow> secret_entry file_map \<Rightarrow> string \<Rightarrow> (string, string) hashmap \<Rightarrow> bool" where
  "reveals L host s name dat \<longleftrightarrow> (\<forall>rfc. \<exists>ans shown. handle_secret_get L host rfc (Inr name) s = Inr ans \<and>
     jget ans ''name'' = Some (JStr name) \<and> jget ans ''data'' = Some (jmap shown) \<and> hm_get shown = hm_get dat)"

text \<open>What an entry must have for that.\<close>

definition holds_data :: "secret_lib \<Rightarrow> string \<Rightarrow> string \<Rightarrow> (string, string) hashmap \<Rightarrow> secret_entry \<Rightarrow> bool" where
  "holds_data L host name dat e \<longleftrightarrow> secret_name e = name \<and>
     (\<exists>p m'. decrypt L (get_node_key L host) (encrypted_data e) (secret_nonce e) = Inr p \<and> data_from_slice L p = Some m' \<and> hm_get m' = hm_get dat)"

lemma reveals_entry:
  "secrets_get s name = Some e \<Longrightarrow> holds_data L host name dat e \<Longrightarrow> reveals L host s name dat"
  by (auto simp: reveals_def holds_data_def handle_secret_get_def)

context secret_library
begin

lemma sealed_holds:
  assumes "length n = 12" "encrypt L (Some n) (get_node_key L host) p = Inr cn" "data_from_slice L p = Some m'" "hm_get m' = hm_get dat"
  shows "holds_data L host name dat (sealed_entry now name cn)"
  using decrypt_encrypt [OF assms(1), of _ p "fst cn" "snd cn"] assms by (simp add: holds_data_def sealed_entry_def)

lemma create_stores:
  assumes wf: "hm_wf dat" and sh: "short dat" and n: "length n = 12" and fresh: "secrets_get (fst st) name = None"
  shows "\<exists>ans e. handle_secret_create L host C w (Some n) now (Inr (name, dat)) st = (Inr ans, snapshot C w (put name e st)) \<and>
     holds_data L host name dat e"
proof -
  obtain p m' where p: "data_to_vec L dat = Inr p" "data_from_slice L p = Some m'" "hm_get m' = hm_get dat"
    and enc: "\<And>k n. length n = 12 \<Longrightarrow> \<exists>c n64. encrypt L (Some n) k p = Inr (c, n64)"
    using encrypt_succeeds [OF wf sh] by blast
  obtain cn where cn: "encrypt L (Some n) (get_node_key L host) p = Inr cn" using enc [OF n] by blast
  have "\<not> hm_contains (entries (fst st)) name" using fresh by (simp add: secrets_get_def store_get_def hm_contains_def)
  moreover have "secret_name (sealed_entry now name cn) = name" by (simp add: sealed_entry_def)
  ultimately show ?thesis using p cn sealed_holds [OF n cn p(2,3)]
    by (simp add: handle_secret_create_def secrets_create_def store_create_def) blast
qed

text \<open>The same without a condition on the data or the name, for a creation that succeeds.\<close>

lemma created_holds:
  assumes wf: "hm_wf dat" and n: "length n = 12"
    and ok: "handle_secret_create L host C w (Some n) now (Inr (name, dat)) st = (Inr ans, st')"
  shows "\<exists>e. st' = snapshot C w (put name e st) \<and> holds_data L host name dat e"
proof -
  obtain p m' where p: "data_to_vec L dat = Inr p" "data_from_slice L p = Some m'" "hm_get m' = hm_get dat"
    using encoded [OF wf] by blast
  obtain cn where cn: "encrypt L (Some n) (get_node_key L host) p = Inr cn" and c: "st' = snapshot C w (put name (sealed_entry now name cn) st)"
    using ok p(1)
    by (auto simp: handle_secret_create_def secrets_create_def store_create_def sealed_entry_def split: sum.splits if_splits prod.splits)
  then show ?thesis using sealed_holds [OF n cn p(2,3)] by blast
qed

lemma rotate_stores:
  assumes e: "secrets_get (fst st) name = Some e" and n: "length n = 12"
    and p: "rotation_text L host name new (fst st) = Inr p" "data_from_slice L p = Some m'" "hm_get m' = hm_get dat"
    and enc: "encrypt L (Some n) (get_node_key L host) p = Inr cn"
  shows "\<exists>ans. handle_secret_rotate L host C w (Some n) now (Inr (name, new)) st =
      (Inr ans, snapshot C w (put name (sealed_entry now name cn) st)) \<and> holds_data L host name dat (sealed_entry now name cn)"
proof -
  have "hm_contains (entries (fst st)) name" using e by (simp add: secrets_get_def store_get_def hm_contains_def)
  then show ?thesis using p enc sealed_holds [OF n enc p(2,3)] by (simp add: handle_secret_rotate_def secrets_update_def)
qed

end

section \<open>A library that satisfies the contract\<close>

text \<open>
  Texts with every character marked, so that their end can be found; a cipher that appends a tag of sixteen bytes made of the key and the nonce and
  checks it.
\<close>

definition marked :: "string \<Rightarrow> u8 list" where
  "marked s = concat (map (\<lambda>c. [1, of_nat (of_char c)]) s) @ [0]"

fun unmark :: "u8 list \<Rightarrow> (string \<times> u8 list) option" where
  "unmark [] = None"
| "unmark [b] = (if b = 0 then Some ([], []) else None)"
| "unmark (b # c # bs) =
     (if b = 0 then Some ([], c # bs) else map_option (\<lambda>(s, r). (char_of (unat c) # s, r)) (unmark bs))"





lemma byte_of_char [simp]: "char_of (unat (word_of_nat (of_char c) :: u8)) = c"
proof -
  have "(of_char c :: nat) < 256" by simp
  then show ?thesis by (simp add: unat_of_nat)
qed

lemma byte_mod [simp]: "word_of_nat (unat b mod 256) = (b :: u8)"
proof -
  have "unat b < 2 ^ 8" using unsigned_less [of b, where ?'a = nat] by simp
  then show ?thesis by simp
qed

lemma unmark_marked [simp]: "unmark (marked s @ r) = Some (s, r)"
  by (induction s) (auto simp: marked_def intro: list.exhaust [of r])




section \<open>Secrets are kept\<close>



definition opened_at :: "path \<Rightarrow> secret_entry file_map \<times> disk \<Rightarrow> bool" where
  "opened_at sp st \<longleftrightarrow> hm_wf (entries (fst st)) \<and> store_path (fst st) = json_store_new sp ''secrets''"

lemma opened_snapshot [simp]: "opened_at sp (snapshot C w st) = opened_at sp st"
  by (simp add: opened_at_def snapshot_def)










text \<open>
  Rotation: without new data the secret still reveals what it revealed, with new data it reveals that; the stored entry is under a
  fresh nonce, and its creation time is the time of the rotation.
\<close>

theorem rotation_keeps_data:
  assumes L: "secret_library L short" and n: "length n = 12"
    and e: "secrets_get (fst st) name = Some e" and dat: "hm_wf dat" "short dat"
    and new: "data_to_vec L dat = Inr p" "new = Some dat \<or> new = None \<and> decrypt L (get_node_key L host) (encrypted_data e) (secret_nonce e) = Inr p"
  shows "\<exists>ans st' e'. handle_secret_rotate L host C w (Some n) now (Inr (name, new)) st = (Inr ans, st') \<and>
     reveals L host (fst st') name dat \<and> secrets_get (fst st') name = Some e' \<and>
     secret_nonce e' = b64_encode L n \<and> secret_created_at e' = now \<and> rotated_at e' = now"
proof -
  obtain m' where p: "data_from_slice L p = Some m'" "hm_get m' = hm_get dat"
    and enc: "\<And>k n. length n = 12 \<Longrightarrow> \<exists>c n64. encrypt L (Some n) k p = Inr (c, n64)"
    using secret_library.encrypt_succeeds [OF L dat] new(1) by (metis sum.inject(2))
  obtain cn where cn: "encrypt L (Some n) (get_node_key L host) p = Inr cn" using enc [OF n] by blast
  have "rotation_text L host name new (fst st) = Inr p" using new e by (auto simp: rotation_text_def)
  then obtain ans where rot: "handle_secret_rotate L host C w (Some n) now (Inr (name, new)) st =
      (Inr ans, snapshot C w (put name (sealed_entry now name cn) st))" "holds_data L host name dat (sealed_entry now name cn)"
    using secret_library.rotate_stores [OF L e n _ p cn] by blast
  moreover have get: "secrets_get (fst (snapshot C w (put name (sealed_entry now name cn) st))) name = Some (sealed_entry now name cn)"
    by (simp add: secrets_get_def store_get_def)
  moreover have "snd cn = b64_encode L n" using cn by (auto simp: encrypt_def split: option.splits)
  ultimately show ?thesis using reveals_entry [OF get rot(2)] by (auto simp: sealed_entry_def)
qed

section \<open>The life of a key\<close>

lemma hex_encode_length [simp]: "length (hex_encode bs) = 2 * length bs"
  by (induction bs) (auto simp: hex_encode_def)

text \<open>
  A created key is found by the hash of its secret, unless another active key has the same hash, and no longer after it is revoked; both
  commands leave their entry in the access log.
\<close>

theorem created_key_usable_until_revoked:
  assumes rng: "length bs = 32" and fresh: "hm_get (entries keys) (key_id_of (hex_encode bs)) = None"
    and wf: "hm_wf (entries keys)"
    and others: "\<And>k. k \<in> set (keys_list keys) \<Longrightarrow> secret_hash k \<noteq> hash_secret L (hex_encode bs)"
  shows "\<exists>ans ans2 keys1 keys2 log1 log2 d1 d2 k.
     handle_create_key L CK CL w1 w2 (Some bs) u1 t0 t1 (Inr p) (keys, log, d) = (Inr ans, keys1, log1, d1) \<and>
     find_by_hash keys1 (hash_secret L (hex_encode bs)) = Some k \<and> ak_role k = ck_role p \<and> scopes k = ck_scopes p \<and>
     handle_revoke_key CK CL w3 w4 u2 t2 (Inr (key_id k)) (keys1, log1, d1) = (Inr ans2, keys2, log2, d2) \<and>
     find_by_hash keys2 (hash_secret L (hex_encode bs)) = None \<and>
     hm_get (entries log2) u2 = Some (key_log u2 t2 ''auth.revoke_key'' (key_id k) None)"
proof -
  let ?s = "hex_encode bs" and ?h = "hash_secret L (hex_encode bs)"
  let ?r = "\<lparr>key_id = key_id_of ?s, ak_name = ck_name p, secret_hash = ?h, scopes = ck_scopes p, ak_role = ck_role p, ak_active = True,
    ak_created_at = t0, last_used = None\<rparr>"
  have others': "find (\<lambda>k. secret_hash k = ?h \<and> ak_active k) (map snd (entries keys)) = None"
    using others by (auto simp: find_None_iff keys_list_def store_list_def)
  have ins: "hm_insert (key_id_of ?s) v (entries keys) = entries keys @ [(key_id_of ?s, v)]" for v
    using hm_insert_new [OF fresh] .
  have found: "find P (xs @ [x]) = (case find P xs of None \<Rightarrow> if P x then Some x else None | Some y \<Rightarrow> Some y)" for P xs and x :: api_key_record
    by (induction xs) auto
  let ?keys1 = "keys\<lparr>entries := hm_insert (key_id_of ?s) ?r (entries keys)\<rparr>"
  have create: "\<exists>ans log1 d1. handle_create_key L CK CL w1 w2 (Some bs) u1 t0 t1 (Inr p) (keys, log, d) = (Inr ans, ?keys1, log1, d1)"
    using fresh by (simp add: handle_create_key_def generate_api_secret_def keys_create_def store_create_def hm_contains_def snapshot_def put_def
        log_append_def split: prod.split)
  have find1: "find_by_hash ?keys1 ?h = Some ?r"
    using others' by (simp add: find_by_hash_def ins found)
  let ?keys2 = "keys\<lparr>entries := hm_insert (key_id_of ?s) (?r\<lparr>ak_active := False\<rparr>) (entries keys)\<rparr>"
  have revoke: "\<exists>ans log2 d2. handle_revoke_key CK CL w3 w4 u2 t2 (Inr (key_id ?r)) (?keys1, log1, d1) = (Inr ans, ?keys2, log2, d2) \<and>
      hm_get (entries log2) u2 = Some (key_log u2 t2 ''auth.revoke_key'' (key_id ?r) None)" for log1 d1
    by (simp add: handle_revoke_key_def keys_revoke_def snapshot_def put_def log_append_def key_log_def split: prod.split)
  have find2: "find_by_hash ?keys2 ?h = None"
    using others' by (simp add: find_by_hash_def ins found)
  obtain ans log1 d1 where c: "handle_create_key L CK CL w1 w2 (Some bs) u1 t0 t1 (Inr p) (keys, log, d) = (Inr ans, ?keys1, log1, d1)"
    using create by blast
  obtain ans2 log2 d2 where r: "handle_revoke_key CK CL w3 w4 u2 t2 (Inr (key_id ?r)) (?keys1, log1, d1) = (Inr ans2, ?keys2, log2, d2)"
    "hm_get (entries log2) u2 = Some (key_log u2 t2 ''auth.revoke_key'' (key_id ?r) None)"
    using revoke by blast
  show ?thesis
    by (intro exI conjI) (rule c, rule find1, simp, simp, rule r(1), rule find2, rule r(2))
qed

text \<open>The identifier, which the listing and the log show, discloses twelve of the sixty-four digits of the secret.\<close>

lemma key_id_discloses: "length bs = 32 \<Longrightarrow> drop 5 (key_id_of (hex_encode bs)) = take 12 (hex_encode bs) \<and> length (key_id_of (hex_encode bs)) = 17"
  by (simp add: key_id_of_def)

end
