(* ===== verification/Storage_Commands.thy ===== *)
theory Storage_Commands
  imports Store_Commands
begin

text \<open>
  The handlers for volumes and backups of a node, \<open>crates/clawnode/src/storage_cmd.rs\<close>, over the stores of \<open>claw-storage\<close>. Directories are created and
  copied by the operating system: creating a directory and running \<open>cp\<close> are arguments over a state \<open>'d\<close> that only they change. Paths are texts, joined as
  \<open>Path::join\<close> does.
\<close>

section \<open>The operating system\<close>

record 'd host =
  create_dir_all :: "string \<Rightarrow> 'd \<Rightarrow> (string, unit, 'd) outcome"
  cp :: "'d runner"
  cp_error :: string
  state_dir :: string

definition path_join :: "string \<Rightarrow> string \<Rightarrow> string" where
  "path_join a b =
     (if has_prefix ''/'' b then b else if a = [] \<or> last a = CHR ''/'' then a @ b else a @ ''/'' @ b)"

section \<open>Volumes\<close>

record volume_create_params =
  vc_name :: string
  vc_type :: string
  vc_host_path :: "string option"
  vc_size :: "string option"

text \<open>The path of a new volume, whose directory is made for the two types of volume that live on the host.\<close>

definition volume_path :: "'d host \<Rightarrow> volume_create_params \<Rightarrow> 'd \<Rightarrow> (string, string option, 'd) outcome" where
  "volume_path H p d =
     (if vc_type p = ''hostpath''
      then (case vc_host_path p of
              None \<Rightarrow> (Inl ''hostPath required for hostpath volume type'', d)
            | Some hp \<Rightarrow>
                (case create_dir_all H hp d of
                   (Inl e, d') \<Rightarrow> (Inl (''failed to create host path '' @ hp @ '': '' @ e), d')
                 | (Inr _, d') \<Rightarrow> (Inr (Some hp), d')))
      else if vc_type p = ''emptydir''
      then (let vp = path_join (path_join (state_dir H) ''volumes'') (vc_name p)
            in case create_dir_all H vp d of
                 (Inl e, d') \<Rightarrow> (Inl (''failed to create volume dir: '' @ e), d')
               | (Inr _, d') \<Rightarrow> (Inr (Some vp), d'))
      else (Inr (vc_host_path p), d))"

definition new_volume :: "timestamp \<Rightarrow> volume_create_params \<Rightarrow> string option \<Rightarrow> volume_record" where
  "new_volume now p hp = \<lparr>vol_name = vc_name p, volume_type = vc_type p, host_path = hp, vol_size = vc_size p, vol_state = ''available'',
     bound_to = None, mount_path = None, vol_created_at = now\<rparr>"

definition handle_volume_create ::
  "'d host \<Rightarrow> volume_record codec \<Rightarrow> write_result \<Rightarrow> timestamp \<Rightarrow> volume_create_params decoded \<Rightarrow> (volume_record file_map \<times> disk) \<times> 'd
   \<Rightarrow> (string, json, (volume_record file_map \<times> disk) \<times> 'd) outcome" where
  "handle_volume_create H C w now dec s =
     (case s of (st, d) \<Rightarrow>
        case dec of
          Inl e \<Rightarrow> (Inl e, s)
        | Inr p \<Rightarrow>
            (case volume_path H p d of
               (Inl e, d') \<Rightarrow> (Inl e, st, d')
             | (Inr hp, d') \<Rightarrow>
                 (case volumes_create C w (new_volume now p hp) st of
                    (Inl e, st') \<Rightarrow> (Inl e, st', d')
                  | (Inr _, st') \<Rightarrow>
                      (Inr (JObj [(''name'', JStr (vc_name p)), (''type'', JStr (vc_type p)), (''state'', JStr ''available''), (''success'', JBool True)]),
                       st', d'))))"

definition handle_volume_mount ::
  "volume_record codec \<Rightarrow> write_result \<Rightarrow> (string \<times> string \<times> string) decoded \<Rightarrow> volume_record file_map \<times> disk
   \<Rightarrow> (string, json, volume_record file_map \<times> disk) outcome" where
  "handle_volume_mount C w dec st =
     (case dec of
        Inl e \<Rightarrow> (Inl e, st)
      | Inr (name, cid, mp) \<Rightarrow>
          (case volumes_get (fst st) name of
             None \<Rightarrow> (Inl (quoted ''volume'' name ''not found''), st)
           | Some v \<Rightarrow>
               if vol_state v = ''bound''
               then (Inl (quoted ''volume'' name (''already bound to '' @ (case bound_to v of None \<Rightarrow> ''unknown'' | Some c \<Rightarrow> c))), st)
               else (Inr (JObj [(''name'', JStr name), (''state'', JStr ''bound''), (''container'', JStr cid), (''mountPath'', JStr mp),
                       (''success'', JBool True)]),
                     volumes_update C w name (volumes_get_mut name (\<lambda>v. v\<lparr>vol_state := ''bound'', bound_to := Some cid, mount_path := Some mp\<rparr>) st))))"

definition handle_volume_unmount ::
  "volume_record codec \<Rightarrow> write_result \<Rightarrow> string decoded \<Rightarrow> volume_record file_map \<times> disk
   \<Rightarrow> (string, json, volume_record file_map \<times> disk) outcome" where
  "handle_volume_unmount C w dec st =
     (case dec of
        Inl e \<Rightarrow> (Inl e, st)
      | Inr name \<Rightarrow>
          if volumes_get (fst st) name = None then (Inl (quoted ''volume'' name ''not found''), st)
          else (Inr (JObj [(''name'', JStr name), (''state'', JStr ''available''), (''success'', JBool True)]),
                volumes_update C w name (volumes_get_mut name (\<lambda>v. v\<lparr>vol_state := ''available'', bound_to := None, mount_path := None\<rparr>) st)))"

definition handle_volume_snapshot ::
  "'d host \<Rightarrow> timestamp \<Rightarrow> string decoded \<Rightarrow> volume_record file_map \<Rightarrow> 'd \<Rightarrow> (string, json, 'd) outcome" where
  "handle_volume_snapshot H now dec s d =
     (case dec of
        Inl e \<Rightarrow> (Inl e, d)
      | Inr name \<Rightarrow>
          (case volumes_get s name of
             None \<Rightarrow> (Inl (quoted ''volume'' name ''not found''), d)
           | Some v \<Rightarrow>
               (case host_path v of
                  None \<Rightarrow> (Inl ''volume has no host path to snapshot'', d)
                | Some hp \<Rightarrow>
                    (let snap = name @ ''-snap-'' @ show_int (unix_seconds now);
                         sp = path_join (path_join (state_dir H) ''snapshots'') snap
                     in case create_dir_all H sp d of
                          (Inl e, d1) \<Rightarrow> (Inl (''mkdir failed: '' @ e), d1)
                        | (Inr _, d1) \<Rightarrow>
                            (case cp H [''-a'', hp, sp] d1 of
                               (None, d2) \<Rightarrow> (Inl (cp_error H), d2)
                             | (Some out, d2) \<Rightarrow>
                                 if \<not> cmd_success out then (Inl (''snapshot failed: '' @ cmd_stderr out), d2)
                                 else (Inr (JObj [(''name'', JStr name), (''snapshot'', JStr snap), (''path'', JStr sp), (''success'', JBool True)]), d2))))))"

definition handle_volume_list :: "(timestamp \<Rightarrow> string) \<Rightarrow> volume_record file_map \<Rightarrow> string + json" where
  "handle_volume_list rfc s =
     (let es = map (\<lambda>v. JObj [(''name'', JStr (vol_name v)), (''type'', JStr (volume_type v)), (''state'', JStr (vol_state v)),
                 (''hostPath'', jopt JStr (host_path v)), (''size'', jopt JStr (vol_size v)), (''boundTo'', jopt JStr (bound_to v)),
                 (''mountPath'', jopt JStr (mount_path v)), (''createdAt'', JStr (rfc (vol_created_at v)))]) (volumes_list s)
      in Inr (JObj [(''count'', jlen es), (''volumes'', JList es)]))"

text \<open>Deletion checks under one lock and deletes under another, so it is two steps.\<close>

definition volume_delete_check :: "string \<Rightarrow> volume_record file_map \<Rightarrow> string + unit" where
  "volume_delete_check name s =
     (case volumes_get s name of
        Some v \<Rightarrow> if vol_state v = ''bound'' then Inl (quoted ''volume'' name ''is currently bound, unmount first'') else Inr ()
      | None \<Rightarrow> Inr ())"

definition volume_delete_commit ::
  "volume_record codec \<Rightarrow> write_result \<Rightarrow> string \<Rightarrow> volume_record file_map \<times> disk \<Rightarrow> (string, json, volume_record file_map \<times> disk) outcome" where
  "volume_delete_commit C w name st =
     (case volumes_delete C w name st of
        (None, st') \<Rightarrow> (Inl (quoted ''volume'' name ''not found''), st')
      | (Some _, st') \<Rightarrow> (Inr (JObj [(''name'', JStr name), (''deleted'', JBool True)]), st'))"

definition handle_volume_delete ::
  "volume_record codec \<Rightarrow> write_result \<Rightarrow> (volume_record file_map \<times> disk \<Rightarrow> volume_record file_map \<times> disk) \<Rightarrow> string decoded
   \<Rightarrow> volume_record file_map \<times> disk \<Rightarrow> (string, json, volume_record file_map \<times> disk) outcome" where
  "handle_volume_delete C w between dec st =
     (case dec of
        Inl e \<Rightarrow> (Inl e, st)
      | Inr name \<Rightarrow>
          (case volume_delete_check name (fst st) of
             Inl e \<Rightarrow> (Inl e, st)
           | Inr _ \<Rightarrow> volume_delete_commit C w name (between st)))"

section \<open>Backups\<close>

definition backup_dest :: "string \<Rightarrow> string option \<Rightarrow> string" where
  "backup_dest bid dst = (case dst of Some d \<Rightarrow> d | None \<Rightarrow> path_join ''/tmp/clawbernetes-backups'' bid)"

definition handle_backup_create ::
  "'d host \<Rightarrow> backup_entry codec \<Rightarrow> write_result \<Rightarrow> timestamp \<Rightarrow> timestamp \<Rightarrow> (string \<times> string option) decoded
   \<Rightarrow> (backup_entry file_map \<times> disk) \<times> 'd \<Rightarrow> (string, json, (backup_entry file_map \<times> disk) \<times> 'd) outcome" where
  "handle_backup_create H C w now now' dec s =
     (case s of (st, d) \<Rightarrow>
        case dec of
          Inl e \<Rightarrow> (Inl e, s)
        | Inr (scope, dst) \<Rightarrow>
            (let bid = ''backup-'' @ show_int (unix_seconds now); dest = backup_dest bid dst
             in case create_dir_all H dest d of
                  (Inl e, d1) \<Rightarrow> (Inl (''mkdir failed: '' @ e), st, d1)
                | (Inr _, d1) \<Rightarrow>
                    (case cp H [''-a'', state_dir H, dest] d1 of
                       (None, d2) \<Rightarrow> (Inl (cp_error H), st, d2)
                     | (Some out, d2) \<Rightarrow>
                         (let bs = (if cmd_success out then ''completed'' else ''failed'')
                          in case backups_create C w \<lparr>backup_id = bid, backup_scope = scope, destination = dest, backup_state = bs,
                                    backup_created_at = now'\<rparr> st of
                               (Inl e, st') \<Rightarrow> (Inl e, st', d2)
                             | (Inr _, st') \<Rightarrow>
                                 (Inr (JObj [(''id'', JStr bid), (''scope'', JStr scope), (''destination'', JStr dest), (''state'', JStr bs),
                                    (''success'', JBool (bs = ''completed''))]), st', d2)))))"

definition handle_backup_restore ::
  "'d host \<Rightarrow> string decoded \<Rightarrow> backup_entry file_map \<Rightarrow> 'd \<Rightarrow> (string, json, 'd) outcome" where
  "handle_backup_restore H dec s d =
     (case dec of
        Inl e \<Rightarrow> (Inl e, d)
      | Inr bid \<Rightarrow>
          (case backups_get s bid of
             None \<Rightarrow> (Inl (quoted ''backup'' bid ''not found''), d)
           | Some b \<Rightarrow>
               if backup_state b \<noteq> ''completed''
               then (Inl (quoted ''backup'' bid (''is in state '' @ CHR 0x27 # backup_state b @ CHR 0x27 # '', cannot restore'')), d)
               else (case cp H [''-a'', destination b @ ''/.'', state_dir H] d of
                       (None, d') \<Rightarrow> (Inl (cp_error H), d')
                     | (Some out, d') \<Rightarrow>
                         if \<not> cmd_success out then (Inl (''restore failed: '' @ cmd_stderr out), d')
                         else (Inr (JObj [(''id'', JStr bid), (''restored'', JBool True), (''source'', JStr (destination b))]), d'))))"

definition handle_backup_list :: "(timestamp \<Rightarrow> string) \<Rightarrow> backup_entry file_map \<Rightarrow> string + json" where
  "handle_backup_list rfc s =
     (let es = map (\<lambda>b. JObj [(''id'', JStr (backup_id b)), (''scope'', JStr (backup_scope b)), (''destination'', JStr (destination b)),
                 (''state'', JStr (backup_state b)), (''createdAt'', JStr (rfc (backup_created_at b)))]) (backups_list s)
      in Inr (JObj [(''count'', jlen es), (''backups'', JList es)]))"

section \<open>A volume belongs to one container\<close>

text \<open>The commands that change the volumes, each run to its end.\<close>

datatype volume_command =
    VolumeCreate write_result timestamp "volume_create_params decoded"
  | VolumeMount write_result "(string \<times> string \<times> string) decoded"
  | VolumeUnmount write_result "string decoded"
  | VolumeDelete write_result "string decoded"

fun volume_step ::
  "'d host \<Rightarrow> volume_record codec \<Rightarrow> (volume_record file_map \<times> disk) \<times> 'd \<Rightarrow> volume_command \<Rightarrow> (volume_record file_map \<times> disk) \<times> 'd" where
  "volume_step H C s (VolumeCreate w now dec) = snd (handle_volume_create H C w now dec s)"
| "volume_step H C s (VolumeMount w dec) = (snd (handle_volume_mount C w dec (fst s)), snd s)"
| "volume_step H C s (VolumeUnmount w dec) = (snd (handle_volume_unmount C w dec (fst s)), snd s)"
| "volume_step H C s (VolumeDelete w dec) = (snd (handle_volume_delete C w id dec (fst s)), snd s)"

definition volume_run ::
  "'d host \<Rightarrow> volume_record codec \<Rightarrow> (volume_record file_map \<times> disk) \<times> 'd \<Rightarrow> volume_command list \<Rightarrow> (volume_record file_map \<times> disk) \<times> 'd" where
  "volume_run H C = foldl (volume_step H C)"

text \<open>A volume is bound exactly when it names its container and its mount point.\<close>

definition volume_ok :: "volume_record \<Rightarrow> bool" where
  "volume_ok v \<longleftrightarrow> vol_state v \<in> {''available'', ''bound''} \<and>
     (vol_state v = ''bound'' \<longleftrightarrow> bound_to v \<noteq> None) \<and> (vol_state v = ''bound'' \<longleftrightarrow> mount_path v \<noteq> None) \<and>
     (volume_type v \<in> {''hostpath'', ''emptydir''} \<longrightarrow> host_path v \<noteq> None)"

definition volumes_ok :: "volume_record file_map \<Rightarrow> bool" where
  "volumes_ok s \<longleftrightarrow> (\<forall>name v. volumes_get s name = Some v \<longrightarrow> volume_ok v)"

text \<open>What each command does to one volume: the table of the life of a volume.\<close>

definition bound_volume :: "string \<Rightarrow> string \<Rightarrow> volume_record \<Rightarrow> volume_record" where
  "bound_volume cid mp v = v\<lparr>vol_state := ''bound'', bound_to := Some cid, mount_path := Some mp\<rparr>"

definition freed_volume :: "volume_record \<Rightarrow> volume_record" where
  "freed_volume v = v\<lparr>vol_state := ''available'', bound_to := None, mount_path := None\<rparr>"

inductive volume_change :: "volume_command \<Rightarrow> string \<Rightarrow> volume_record option \<Rightarrow> volume_record option \<Rightarrow> bool" where
  same: "volume_change c name v v"
| created: "vc_type p \<in> {''hostpath'', ''emptydir''} \<longrightarrow> hp \<noteq> None \<Longrightarrow> volume_change (VolumeCreate w now (Inr p)) (vc_name p) None (Some (new_volume now p hp))"
| mounted: "vol_state v \<noteq> ''bound'' \<Longrightarrow> volume_change (VolumeMount w (Inr (name, cid, mp))) name (Some v) (Some (bound_volume cid mp v))"
| unmounted: "volume_change (VolumeUnmount w (Inr name)) name (Some v) (Some (freed_volume v))"
| deleted: "vol_state v \<noteq> ''bound'' \<Longrightarrow> volume_change (VolumeDelete w (Inr name)) name (Some v) None"

lemmas volume_lookup = volumes_get_def store_get_def volumes_create_def store_create_def volumes_update_def store_update_def
  volumes_get_mut_def store_mutate_def volumes_delete_def store_remove_def hm_contains_def

lemma volume_path_type: "volume_path H p d = (Inr hp, d') \<Longrightarrow> vc_type p \<in> {''hostpath'', ''emptydir''} \<Longrightarrow> hp \<noteq> None"
  by (cases "vc_host_path p") (auto simp: volume_path_def Let_def split: if_splits sum.splits prod.splits dest: sym)

lemma create_change:
  "volume_change (VolumeCreate w now dec) name (volumes_get (fst (fst s)) name) (volumes_get (fst (fst (snd (handle_volume_create H C w now dec s)))) name)"
proof (cases dec)
  case (Inr p)
  obtain st d where s: "s = (st, d)" by (cases s)
  obtain r d' where vp: "volume_path H p d = (r, d')" by (cases "volume_path H p d")
  show ?thesis
  proof (cases "\<exists>hp. r = Inr hp \<and> hm_get (entries (fst st)) (vc_name p) = None \<and> name = vc_name p")
    case True
    then obtain hp where hp: "r = Inr hp" "hm_get (entries (fst st)) (vc_name p) = None" "name = vc_name p" by blast
    have "volume_change (VolumeCreate w now dec) name None (Some (new_volume now p hp))"
      unfolding Inr hp(3) by (rule volume_change.created [OF impI]) (rule volume_path_type [OF vp [unfolded hp(1)]])
    then show ?thesis using hp vp by (simp add: handle_volume_create_def Inr s volume_lookup new_volume_def)
  next
    case False
    then have "volumes_get (fst (fst (snd (handle_volume_create H C w now dec s)))) name = volumes_get (fst (fst s)) name"
      using vp by (cases r) (auto simp: handle_volume_create_def Inr s volume_lookup new_volume_def)
    then show ?thesis by (simp add: volume_change.same)
  qed
qed (simp add: handle_volume_create_def volume_change.same split: prod.split)

lemma mount_change:
  "volume_change (VolumeMount w dec) name (volumes_get (fst st) name) (volumes_get (fst (snd (handle_volume_mount C w dec st))) name)"
  by (auto simp: handle_volume_mount_def volume_lookup bound_volume_def [symmetric] split: sum.split prod.split option.split
      intro: volume_change.intros)

lemma unmount_change:
  "volume_change (VolumeUnmount w dec) name (volumes_get (fst st) name) (volumes_get (fst (snd (handle_volume_unmount C w dec st))) name)"
  by (auto simp: handle_volume_unmount_def volume_lookup freed_volume_def [symmetric] split: sum.split prod.split option.split
      intro: volume_change.intros)

lemma delete_change:
  "volume_change (VolumeDelete w dec) name (volumes_get (fst st) name) (volumes_get (fst (snd (handle_volume_delete C w id dec st))) name)"
  by (auto simp: handle_volume_delete_def volume_delete_check_def volume_delete_commit_def volume_lookup snapshot_def
      split: sum.split prod.split option.split intro: volume_change.intros)

lemma volume_step_change: "volume_change c name (volumes_get (fst (fst s)) name) (volumes_get (fst (fst (volume_step H C s c))) name)"
  by (cases c) (simp_all add: create_change mount_change unmount_change delete_change)

lemma change_ok: "volume_change c name u v \<Longrightarrow> (\<And>x. u = Some x \<Longrightarrow> volume_ok x) \<Longrightarrow> v = Some y \<Longrightarrow> volume_ok y"
  by (induction rule: volume_change.induct) (auto simp: volume_ok_def new_volume_def bound_volume_def freed_volume_def)

lemma change_keeps_bound:
  "volume_change c name u v \<Longrightarrow> u = Some x \<Longrightarrow> vol_state x = ''bound'' \<Longrightarrow> (\<And>w. c \<noteq> VolumeUnmount w (Inr name)) \<Longrightarrow> v = Some x"
  by (induction rule: volume_change.induct) auto

text \<open>
  C35. Volumes keep their invariant under every sequence of commands, and a bound volume stays with its container, unchanged and undeleted, until it is
  unmounted: no other container can mount it.
\<close>

theorem volume_exclusive:
  assumes "volumes_ok (fst (fst s))"
  shows "volumes_ok (fst (fst (volume_run H C s cs))) \<and>
    (\<forall>name v. volumes_get (fst (fst s)) name = Some v \<longrightarrow> vol_state v = ''bound'' \<longrightarrow> (\<forall>w. VolumeUnmount w (Inr name) \<notin> set cs) \<longrightarrow>
       volumes_get (fst (fst (volume_run H C s cs))) name = Some v)"
  using assms
proof (induction cs arbitrary: s)
  case Nil
  then show ?case by (simp add: volume_run_def)
next
  case (Cons c cs)
  let ?s = "volume_step H C s c"
  have run: "volume_run H C s (c # cs) = volume_run H C ?s cs" by (simp add: volume_run_def)
  have "volumes_ok (fst (fst ?s))"
    using Cons.prems change_ok [OF volume_step_change] unfolding volumes_ok_def by blast
  then have IH: "volumes_ok (fst (fst (volume_run H C ?s cs)))"
    "\<And>name v. volumes_get (fst (fst ?s)) name = Some v \<Longrightarrow> vol_state v = ''bound'' \<Longrightarrow> (\<And>w. VolumeUnmount w (Inr name) \<notin> set cs) \<Longrightarrow>
       volumes_get (fst (fst (volume_run H C ?s cs))) name = Some v"
    using Cons.IH by blast+
  show ?case unfolding run using IH change_keeps_bound [OF volume_step_change [of c _ s H C]] by (metis list.set_intros)
qed

definition demo_volume :: volume_record where
  "demo_volume = \<lparr>vol_name = ''v'', volume_type = ''hostpath'', host_path = Some ''/data'', vol_size = None, vol_state = ''bound'', bound_to = Some ''c1'',
     mount_path = Some ''/mnt'', vol_created_at = 0\<rparr>"

definition one_volume :: "volume_record file_map \<times> disk" where
  "one_volume = (\<lparr>entries = [(''v'', demo_volume)], store_path = []\<rparr>, \<lambda>_. None)"

definition no_host :: "unit host" where
  "no_host = \<lparr>create_dir_all = \<lambda>p d. (Inl p, d), cp = \<lambda>args d. (None, d), cp_error = [], state_dir = []\<rparr>"

lemma one_volume_get: "volumes_get (fst one_volume) name = (if name = ''v'' then Some demo_volume else None)"
  by (simp add: volumes_get_def store_get_def one_volume_def)

theorem volume_exclusive_witness:
  "volumes_get (fst (fst (volume_run no_host (numbered_codec (\<lambda>_. 0)) (one_volume, ())
     [VolumeMount Written (Inr (''v'', ''c2'', ''/x'')), VolumeDelete Written (Inr ''v'')]))) ''v'' = Some demo_volume"
proof -
  have "volumes_ok (fst (fst (one_volume, ())))"
    by (simp add: volumes_ok_def one_volume_get) (simp add: volume_ok_def demo_volume_def)
  from volume_exclusive [OF this, THEN conjunct2, rule_format, of "''v''" demo_volume] show ?thesis
    by (simp add: one_volume_get) (simp add: demo_volume_def)
qed

text \<open>If a mount gets between the check and the deletion, the volume is deleted although it is bound.\<close>

lemma delete_race:
  assumes "volumes_get (fst st) name = Some v" "vol_state v \<noteq> ''bound''"
  shows "\<exists>ans st'. handle_volume_delete C w (\<lambda>s. snd (handle_volume_mount C w (Inr (name, cid, mp)) s)) (Inr name) st = (Inr ans, st') \<and>
     volumes_get (fst st') name = None \<and>
     volumes_get (fst (snd (handle_volume_mount C w (Inr (name, cid, mp)) st))) name = Some (bound_volume cid mp v)"
  using assms
  by (auto simp: handle_volume_delete_def volume_delete_check_def volume_delete_commit_def handle_volume_mount_def bound_volume_def volume_lookup
      snapshot_def)

text \<open>The directory of a volume without a host path is the one its name gives: with an absolute name it is not below the node's state.\<close>

lemma emptydir_outside_state:
  assumes "vc_type p = ''emptydir''" "has_prefix ''/'' (vc_name p)" "create_dir_all H (vc_name p) d = (Inr (), d')"
  shows "volume_path H p d = (Inr (Some (vc_name p)), d')"
  using assms by (simp add: volume_path_def path_join_def Let_def)

section \<open>Backups\<close>

text \<open>
  What \<open>cp -a\<close> does with a directory, as documented: the content of a source that ends in \<open>/.\<close> is copied into the target directory; any other
  source directory becomes an entry of the target under its own last component. Files are named by their full path.
\<close>

type_synonym files = "string \<Rightarrow> string option"

definition below :: "string \<Rightarrow> string \<Rightarrow> string" where
  "below dir name = dir @ ''/'' @ name"

definition relative :: "string \<Rightarrow> string \<Rightarrow> string option" where
  "relative dir p = (if has_prefix (dir @ ''/'') p then Some (drop (Suc (length dir)) p) else None)"

definition base_name :: "string \<Rightarrow> string" where
  "base_name dir = last (split_on CHR ''/'' dir)"

definition copy_into :: "string \<Rightarrow> string \<Rightarrow> files \<Rightarrow> files" where
  "copy_into src dst fs p =
     (case relative dst p of
        Some r \<Rightarrow> (case fs (below src r) of Some c \<Rightarrow> Some c | None \<Rightarrow> fs p)
      | None \<Rightarrow> fs p)"

locale directory_copy =
  fixes H :: "'d host" and files_of :: "'d \<Rightarrow> files"
  assumes mkdir_ok: "\<exists>d'. create_dir_all H p d = (Inr (), d') \<and> files_of d' = files_of d"
    and copy_content: "\<exists>out d'. cp H [''-a'', src @ ''/.'', dst] d = (Some out, d') \<and> cmd_success out \<and>
      files_of d' = copy_into src dst (files_of d)"
    and copy_directory: "\<not> (\<exists>s. src = s @ ''/.'') \<Longrightarrow> \<exists>out d'. cp H [''-a'', src, dst] d = (Some out, d') \<and> cmd_success out \<and>
      files_of d' = copy_into src (below dst (base_name src)) (files_of d)"
begin

lemma backup_copies:
  assumes "\<not> (\<exists>s. state_dir H = s @ ''/.'')" "backups_get (fst st) (''backup-'' @ show_int (unix_seconds now)) = None"
  shows "\<exists>ans st' d'. handle_backup_create H C w now now' (Inr (scope, Some dest)) (st, d) = (Inr ans, st', d') \<and>
     files_of d' = copy_into (state_dir H) (below dest (base_name (state_dir H))) (files_of d) \<and>
     (\<exists>b. backups_get (fst st') (''backup-'' @ show_int (unix_seconds now)) = Some b \<and> backup_state b = ''completed'' \<and> destination b = dest)"
proof -
  obtain d1 where d1: "create_dir_all H dest d = (Inr (), d1)" "files_of d1 = files_of d" using mkdir_ok by blast
  obtain out d2 where d2: "cp H [''-a'', state_dir H, dest] d1 = (Some out, d2)" "cmd_success out"
    "files_of d2 = copy_into (state_dir H) (below dest (base_name (state_dir H))) (files_of d1)"
    using copy_directory [OF assms(1)] by blast
  show ?thesis using assms(2) d1 d2
    by (simp add: handle_backup_create_def Let_def backup_dest_def backups_create_def store_create_def backups_get_def store_get_def hm_contains_def)
qed

lemma restore_copies:
  assumes "backups_get s bid = Some b" "backup_state b = ''completed''"
  shows "\<exists>ans d'. handle_backup_restore H (Inr bid) s d = (Inr ans, d') \<and> files_of d' = copy_into (destination b) (state_dir H) (files_of d)"
  using copy_content [of "destination b" "state_dir H" d] assms by (auto simp: handle_backup_restore_def)

end

lemma relative_below [simp]: "relative dir (below dir r) = Some r"
  by (simp add: relative_def below_def has_prefix_def)

lemma relative_Some: "relative dir p = Some r \<longleftrightarrow> p = below dir r"
proof
  assume "relative dir p = Some r"
  then have "take (Suc (length dir)) p = dir @ ''/''" "drop (Suc (length dir)) p = r"
    by (simp_all add: relative_def has_prefix_def split: if_splits)
  then show "p = below dir r" using append_take_drop_id [of "Suc (length dir)" p] by (simp add: below_def)
qed simp

text \<open>
  A restore does not bring a file of the state back: after a backup, whatever content a file is given stays through the restore, which puts the saved
  content into a subdirectory of the state named after the state directory itself.
\<close>

theorem restore_not_in_place:
  assumes copies: "directory_copy H files_of"
    and S: "\<not> (\<exists>s. state_dir H = s @ ''/.'')" and B: "B = base_name (state_dir H)"
    and fresh: "backups_get (fst st) (''backup-'' @ show_int (unix_seconds now)) = None"
    and saved: "files_of d (below (state_dir H) f) = Some c0"
    and dest: "files_of d (below dest f) = None" "\<And>r. f \<noteq> below B r" "below dest (below B f) \<noteq> below (state_dir H) f" "below dest f \<noteq> below (state_dir H) f"
    and edit: "\<And>d'. files_of (edit d') = (files_of d')(below (state_dir H) f := Some c1)"
  shows "\<exists>ans1 ans2 st' d1 d2. handle_backup_create H C w now now' (Inr (scope, Some dest)) (st, d) = (Inr ans1, st', d1) \<and>
     handle_backup_restore H (Inr (''backup-'' @ show_int (unix_seconds now))) (fst st') (edit d1) = (Inr ans2, d2) \<and>
     files_of d2 (below (state_dir H) f) = Some c1 \<and> files_of d2 (below (state_dir H) (below B f)) = Some c0"
proof -
  let ?S = "state_dir H" and ?bid = "''backup-'' @ show_int (unix_seconds now)"
  obtain ans1 st' d1 b where create: "handle_backup_create H C w now now' (Inr (scope, Some dest)) (st, d) = (Inr ans1, st', d1)"
    and d1: "files_of d1 = copy_into ?S (below dest B) (files_of d)"
    and b: "backups_get (fst st') ?bid = Some b" "backup_state b = ''completed''" "destination b = dest"
    using directory_copy.backup_copies [OF copies S fresh, of C w now' scope dest d] unfolding B by blast
  obtain ans2 d2 where restore: "handle_backup_restore H (Inr ?bid) (fst st') (edit d1) = (Inr ans2, d2)"
    and d2: "files_of d2 = copy_into dest ?S (files_of (edit d1))"
    using directory_copy.restore_copies [OF copies b(1,2), of "edit d1"] unfolding b(3) by blast
  have nested: "below dest (below B r) = below (below dest B) r" for r by (simp add: below_def)
  have "relative (below dest B) (below dest f) = None"
  proof (rule ccontr)
    assume "relative (below dest B) (below dest f) \<noteq> None"
    then obtain r where "below dest f = below (below dest B) r" by (auto simp: relative_Some)
    then have "f = below B r" by (simp add: below_def)
    with dest(2) show False by blast
  qed
  then have "files_of d1 (below dest f) = None" using dest(1) by (simp add: d1 copy_into_def)
  then have kept: "files_of d2 (below ?S f) = Some c1" using dest(4) by (simp add: d2 copy_into_def edit)
  have "files_of d1 (below dest (below B f)) = Some c0" using saved by (simp add: d1 copy_into_def nested)
  then have "files_of d2 (below ?S (below B f)) = Some c0" using dest(3) by (simp add: d2 copy_into_def edit)
  then show ?thesis using create restore kept by blast
qed

text \<open>A host whose state is its files.\<close>

definition run_cp :: "files runner" where
  "run_cp args fs =
     (case args of
        [a, src, dst] \<Rightarrow>
          (Some \<lparr>cmd_success = True, cmd_stdout = [], cmd_stderr = []\<rparr>,
           if 2 \<le> length src \<and> drop (length src - 2) src = ''/.'' then copy_into (take (length src - 2) src) dst fs
           else copy_into src (below dst (base_name src)) fs)
      | _ \<Rightarrow> (None, fs))"

definition file_host :: "files host" where
  "file_host = \<lparr>create_dir_all = \<lambda>p d. (Inr (), d), cp = run_cp, cp_error = ''cp'', state_dir = ''/var/claw''\<rparr>"

interpretation file_host: directory_copy file_host "\<lambda>fs. fs"
proof
  fix src dst :: string and d :: files
  show "\<exists>d'. create_dir_all file_host p d = (Inr (), d') \<and> d' = d" for p by (simp add: file_host_def)
  show "\<exists>out d'. cp file_host [''-a'', src @ ''/.'', dst] d = (Some out, d') \<and> cmd_success out \<and> d' = copy_into src dst d"
    by (simp add: file_host_def run_cp_def)
  assume no: "\<not> (\<exists>s. src = s @ ''/.'')"
  have "\<not> (2 \<le> length src \<and> drop (length src - 2) src = ''/.'')" using no by (metis append_take_drop_id)
  then show "\<exists>out d'. cp file_host [''-a'', src, dst] d = (Some out, d') \<and> cmd_success out \<and> d' = copy_into src (below dst (base_name src)) d"
    by (auto simp: file_host_def run_cp_def)
qed

theorem restore_not_in_place_witness:
  "\<exists>ans1 ans2 st' d1 d2.
     handle_backup_create file_host (numbered_codec (\<lambda>_. 0)) Written 0 0 (Inr (''all'', Some ''/bk''))
       ((\<lparr>entries = [], store_path = []\<rparr>, \<lambda>_. None), [''/var/claw/f'' \<mapsto> ''old'']) = (Inr ans1, st', d1) \<and>
     handle_backup_restore file_host (Inr (''backup-'' @ show_int (unix_seconds 0))) (fst st') (d1(''/var/claw/f'' \<mapsto> ''new'')) = (Inr ans2, d2) \<and>
     d2 ''/var/claw/f'' = Some ''new'' \<and> d2 ''/var/claw/claw/f'' = Some ''old''"
proof -
  let ?d = "[''/var/claw/f'' \<mapsto> ''old'']" and ?edit = "\<lambda>d :: files. d(''/var/claw/f'' \<mapsto> ''new'')"
  have dir: "state_dir file_host = ''/var/claw''" by (simp add: file_host_def)
  have base: "''claw'' = base_name (state_dir file_host)" by (simp add: dir base_name_def)
  have dot: "\<not> (\<exists>s. state_dir file_host = s @ ''/.'')" by (auto simp: dir append_eq_Cons_conv Cons_eq_append_conv)
  have paths: "below (state_dir file_host) ''f'' = ''/var/claw/f''" "below (state_dir file_host) (below ''claw'' ''f'') = ''/var/claw/claw/f''"
    by (simp_all add: below_def dir)
  have fresh: "backups_get (fst (\<lparr>entries = [], store_path = []\<rparr> :: backup_entry file_map, (\<lambda>_. None) :: disk)) b = None" for b
    by (simp add: backups_get_def store_get_def)
  have other: "''f'' \<noteq> below ''claw'' r" for r by (simp add: below_def)
  show ?thesis
    using restore_not_in_place [OF file_host.directory_copy_axioms dot base fresh, of ?d "''f''" "''old''" "''/bk''" ?edit "''new''",
        unfolded paths, OF _ _ other]
    by (simp add: below_def)
qed

end
