(* ===== verification/Workload_Commands.thy ===== *)
theory Workload_Commands
  imports Container_Runtime Workload_Net Store_Commands
begin

text \<open>
  The workload commands of a node, \<open>crates/clawnode/src/commands.rs\<close>: running and stopping containers through the container runtime of the
  node or its command line, with the address of the workload network and the record of the workload; the logs, the listing and commands inside a container.
  The build with both the \<open>docker\<close> and the \<open>network\<close> feature is modelled. In the command-line path the answer is then extended through a binding
  that is not declared mutable; the model takes the declaration as meant.
\<close>

section \<open>Parameters\<close>

record workload_run_params =
  wr_image :: string
  wr_name :: "string option"
  wr_gpus :: "u32 option"
  wr_command :: "string list option"
  wr_env :: "string list option"
  wr_volumes :: "string list option"
  wr_detach :: "bool option"
  wr_memory :: "string option"
  wr_cpu :: "f32 option"
  wr_shm_size :: "string option"

text \<open>\<open>str::strip_suffix\<close>, and \<open>split_once\<close> at a character.\<close>

definition strip_suffix :: "string \<Rightarrow> string \<Rightarrow> string option" where
  "strip_suffix suf s =
     (if length suf \<le> length s \<and> drop (length s - length suf) s = suf then Some (take (length s - length suf) s) else None)"

definition split_once :: "char \<Rightarrow> string \<Rightarrow> (string \<times> string) option" where
  "split_once c s = (if c \<in> set s then Some (takeWhile (\<lambda>x. x \<noteq> c) s, drop 1 (dropWhile (\<lambda>x. x \<noteq> c) s)) else None)"

text \<open>A size with a unit; the product wraps, as in the release build.\<close>

definition parse_memory_string :: "string \<Rightarrow> u64 option" where
  "parse_memory_string txt =
     (let s = map to_lower (trim txt);
          units = [(''g'', 1024 * 1024 * 1024), (''gb'', 1024 * 1024 * 1024), (''m'', 1024 * 1024), (''mb'', 1024 * 1024), (''k'', 1024), (''kb'', 1024)]
      in case List.find (\<lambda>(u, k). strip_suffix u s \<noteq> None) units of
           Some (u, k) \<Rightarrow> map_option (\<lambda>n. n * k) (Option.bind (strip_suffix u s) parse_u64)
         | None \<Rightarrow> parse_u64 s)"

definition gpu_indices :: "u32 \<Rightarrow> u32 list" where
  "gpu_indices g = map of_nat [0..<unat g]"

section \<open>State\<close>

text \<open>
  What the commands change: the workload network, if there is one, and the store of workload records with its disk. The runtime and the command line
  act on a state \<open>'d\<close> of their own.
\<close>

record 'net workload_state =
  ws_net :: "'net workload_net_manager option"
  ws_store :: "workload_record file_map \<times> disk"

definition workload_record_of :: "string \<Rightarrow> string \<Rightarrow> timestamp \<Rightarrow> timestamp \<Rightarrow> workload_run_params \<Rightarrow> workload_record" where
  "workload_record_of wid cid now now' p = \<lparr>wl_id = wid, wl_image = wr_image p, wl_container_id = Some cid,
     gpu_ids = (case wr_gpus p of None \<Rightarrow> [] | Some g \<Rightarrow> gpu_indices g), wl_state = ''running'', wl_name = wr_name p,
     wl_env = (case wr_env p of None \<Rightarrow> [] | Some e \<Rightarrow> e), wl_created_at = now, wl_updated_at = now', exit_code = None\<rparr>"

definition run_answer :: "string \<Rightarrow> string \<Rightarrow> workload_run_params \<Rightarrow> string \<Rightarrow> (string \<times> json) list \<Rightarrow> json" where
  "run_answer cid wid p how extra =
     JObj ([(''containerId'', JStr cid), (''workloadId'', JStr wid), (''image'', JStr (wr_image p)), (''name'', jopt JStr (wr_name p)),
       (''success'', JBool True), (''runtime'', JStr how)] @ extra)"

section \<open>Running a workload through the runtime\<close>

definition sdk_spec :: "string \<Rightarrow> workload_run_params \<Rightarrow> container_spec" where
  "sdk_spec wid p =
     (let s0 = cs_with_label ''workload-id'' wid (cs_with_label ''managed-by'' ''clawbernetes'' (container_spec_new (wr_image p)));
          s1 = (case wr_command p of None \<Rightarrow> s0 | Some c \<Rightarrow> cs_with_command c s0);
          s2 = (case wr_env p of
                  None \<Rightarrow> s1
                | Some es \<Rightarrow> fold (\<lambda>e s. case split_once CHR ''='' e of None \<Rightarrow> s | Some (k, v) \<Rightarrow> cs_with_env k v s) es s1);
          s3 = (case wr_gpus p of None \<Rightarrow> s2 | Some g \<Rightarrow> if 0 < g then cs_with_gpus (gpu_indices g) s2 else s2);
          s4 = (case wr_memory p of None \<Rightarrow> s3 | Some m \<Rightarrow> (case parse_memory_string m of None \<Rightarrow> s3 | Some b \<Rightarrow> cs_with_memory_limit b s3));
          s5 = (case wr_cpu p of None \<Rightarrow> s4 | Some c \<Rightarrow> cs_with_cpu_limit c s4)
      in case wr_name p of None \<Rightarrow> s5 | Some n \<Rightarrow> cs_with_label ''workload-name'' n s5)"

text \<open>The address of the workload on the network, if there is a network; here an exhausted network refuses the workload.\<close>

definition sdk_address ::
  "'net ipnet_ops \<Rightarrow> string \<Rightarrow> 'net workload_net_manager option \<Rightarrow> (string, (string \<times> string) option, 'net workload_net_manager option) outcome" where
  "sdk_address ops wid net =
     (case net of
        None \<Rightarrow> (Inr None, None)
      | Some m \<Rightarrow>
          (case allocate_ip ops wid m of
             (Inl e, m') \<Rightarrow> (Inl e, Some m')
           | (Inr ip, m') \<Rightarrow> (Inr (Some (show_ipv4 ip, network_name m')), Some m')))"

definition free_address :: "string \<Rightarrow> 'net workload_net_manager option \<Rightarrow> 'net workload_net_manager option" where
  "free_address wid net = map_option (\<lambda>m. snd (release_ip wid m)) net"

definition handle_workload_run_sdk ::
  "'net ipnet_ops \<Rightarrow> 'd container_runtime \<Rightarrow> printers \<Rightarrow> workload_record codec \<Rightarrow> write_result \<Rightarrow> string \<Rightarrow> timestamp \<Rightarrow> timestamp \<Rightarrow> workload_run_params
   \<Rightarrow> 'net workload_state \<times> 'd \<Rightarrow> (string, json, 'net workload_state \<times> 'd) outcome" where
  "handle_workload_run_sdk ops R P C w wid now now' p sd =
     (case sd of (s, d) \<Rightarrow>
        case sdk_address ops wid (ws_net s) of
          (Inl e, net) \<Rightarrow> (Inl e, s\<lparr>ws_net := net\<rparr>, d)
        | (Inr addr, net) \<Rightarrow>
            (let spec = (case addr of None \<Rightarrow> sdk_spec wid p | Some (ip, nw) \<Rightarrow> (sdk_spec wid p)\<lparr>cs_network := Some nw, cs_ip_address := Some ip\<rparr>)
             in case rt_create R spec d of
                  (Inl e, d') \<Rightarrow>
                    (Inl (''Docker SDK container creation failed: '' @ show_node_error P e), s\<lparr>ws_net := free_address wid net\<rparr>, d')
                | (Inr c, d') \<Rightarrow>
                    (Inr (run_answer (ct_id c) wid p ''docker-sdk''
                       (case addr of None \<Rightarrow> [] | Some (ip, nw) \<Rightarrow> [(''meshIp'', JStr ip), (''network'', JStr nw)])),
                     s\<lparr>ws_net := (if addr = None then net else map_option (track_container (ct_id c) wid) net),
                       ws_store := workloads_upsert C w (workload_record_of wid (ct_id c) now now' p) (ws_store s)\<rparr>, d')))"

section \<open>Running a workload through the command line\<close>

text \<open>Here an exhausted network only means that the container gets the default network.\<close>

definition cli_address ::
  "'net ipnet_ops \<Rightarrow> string \<Rightarrow> 'net workload_net_manager option \<Rightarrow> (string \<times> string) option \<times> 'net workload_net_manager option" where
  "cli_address ops wid net =
     (case net of
        None \<Rightarrow> (None, None)
      | Some m \<Rightarrow>
          (case allocate_ip ops wid m of
             (Inl e, m') \<Rightarrow> (None, Some m')
           | (Inr ip, m') \<Rightarrow> (Some (show_ipv4 ip, network_name m'), Some m')))"

definition opt_args :: "string \<Rightarrow> string option \<Rightarrow> string list" where
  "opt_args flag v = (case v of None \<Rightarrow> [] | Some x \<Rightarrow> [flag, x])"

definition each_arg :: "string \<Rightarrow> string list option \<Rightarrow> string list" where
  "each_arg flag vs = (case vs of None \<Rightarrow> [] | Some xs \<Rightarrow> concat (map (\<lambda>x. [flag, x]) xs))"

definition run_args :: "'d node_env \<Rightarrow> string \<Rightarrow> (string \<times> string) option \<Rightarrow> workload_run_params \<Rightarrow> string list" where
  "run_args env wid addr p =
     [''run''] @ (if case wr_detach p of None \<Rightarrow> True | Some b \<Rightarrow> b then [''-d''] else []) @ opt_args ''--name'' (wr_name p) @
     [''--label'', ''managed-by=clawbernetes'', ''--label'', ''workload-id='' @ wid] @
     (case addr of None \<Rightarrow> [] | Some (ip, nw) \<Rightarrow> [''--network'', nw, ''--ip'', ip]) @
     (case wr_gpus p of None \<Rightarrow> [] | Some g \<Rightarrow> gpu_args env g) @ opt_args ''--memory'' (wr_memory p) @
     opt_args ''--cpus'' (map_option (show_f32 env) (wr_cpu p)) @ opt_args ''--shm-size'' (wr_shm_size p) @
     each_arg ''-e'' (wr_env p) @ each_arg ''-v'' (wr_volumes p) @ [wr_image p] @ (case wr_command p of None \<Rightarrow> [] | Some c \<Rightarrow> c)"

definition handle_workload_run_cli ::
  "'net ipnet_ops \<Rightarrow> 'd node_env \<Rightarrow> workload_record codec \<Rightarrow> write_result \<Rightarrow> string \<Rightarrow> timestamp \<Rightarrow> timestamp \<Rightarrow> workload_run_params
   \<Rightarrow> 'net workload_state \<times> 'd \<Rightarrow> (string, json, 'net workload_state \<times> 'd) outcome" where
  "handle_workload_run_cli ops env C w wid now now' p sd =
     (case sd of (s, d) \<Rightarrow>
        case cli_address ops wid (ws_net s) of
          (addr, net) \<Rightarrow>
            (case docker env (run_args env wid addr p) d of
               (None, d') \<Rightarrow> (Inl (io_text env), s\<lparr>ws_net := net\<rparr>, d')
             | (Some out, d') \<Rightarrow>
                 if cmd_success out
                 then (let cid = trim (cmd_stdout out)
                       in (Inr (run_answer cid wid p ''cli'' (case addr of None \<Rightarrow> [] | Some (ip, nw) \<Rightarrow> [(''meshIp'', JStr ip), (''network'', JStr nw)])),
                           s\<lparr>ws_net := net, ws_store := workloads_upsert C w (workload_record_of wid cid now now' p) (ws_store s)\<rparr>, d'))
                 else (Inl (''container run failed: '' @ cmd_stderr out), s\<lparr>ws_net := free_address wid net\<rparr>, d')))"

section \<open>Stopping a workload\<close>

definition target_of :: "string option \<Rightarrow> string option \<Rightarrow> string + string" where
  "target_of cid name = (case cid of Some c \<Rightarrow> Inr c | None \<Rightarrow> (case name of Some n \<Rightarrow> Inr n | None \<Rightarrow> Inl ''containerId or name required''))"

text \<open>What both paths do once the container is stopped.\<close>

definition record_stop :: "workload_record codec \<Rightarrow> write_result \<Rightarrow> timestamp \<Rightarrow> string \<Rightarrow> 'net workload_state \<Rightarrow> 'net workload_state" where
  "record_stop C w now target s = s\<lparr>ws_net := map_option (\<lambda>m. snd (release_by_container target m)) (ws_net s),
     ws_store := (case find_by_container_id (fst (ws_store s)) target of
                    None \<Rightarrow> ws_store s
                  | Some r \<Rightarrow> workloads_update_state C w (wl_id r) ''stopped'' (Some 0) now (ws_store s))\<rparr>"

definition stop_answer :: "string \<Rightarrow> string \<Rightarrow> json" where
  "stop_answer target how = JObj [(''stopped'', JStr target), (''success'', JBool True), (''runtime'', JStr how)]"

definition handle_workload_stop_cli ::
  "'d node_env \<Rightarrow> workload_record codec \<Rightarrow> write_result \<Rightarrow> timestamp \<Rightarrow> string \<Rightarrow> bool \<Rightarrow> 'net workload_state \<times> 'd
   \<Rightarrow> (string, json, 'net workload_state \<times> 'd) outcome" where
  "handle_workload_stop_cli env C w now target force sd =
     (case sd of (s, d) \<Rightarrow>
        case docker env [if force then ''kill'' else ''stop'', target] d of
          (None, d') \<Rightarrow> (Inl (io_text env), s, d')
        | (Some out, d') \<Rightarrow>
            if cmd_success out then (Inr (stop_answer target ''cli''), record_stop C w now target s, d')
            else (Inl (''stop failed: '' @ cmd_stderr out), s, d'))"

definition handle_workload_stop_sdk ::
  "'d container_runtime \<Rightarrow> printers \<Rightarrow> workload_record codec \<Rightarrow> write_result \<Rightarrow> timestamp \<Rightarrow> string \<Rightarrow> bool \<Rightarrow> 'net workload_state \<times> 'd
   \<Rightarrow> (string, json, 'net workload_state \<times> 'd) outcome" where
  "handle_workload_stop_sdk R P C w now target force sd =
     (case sd of (s, d) \<Rightarrow>
        case rt_stop R target (if force then 0 else 10) d of
          (Inl e, d') \<Rightarrow> (Inl (''stop failed: '' @ show_node_error P e), s, d')
        | (Inr _, d') \<Rightarrow> (Inr (stop_answer target ''docker-sdk''), record_stop C w now target s, d'))"

text \<open>The node runs workloads through its runtime if it has one (\<open>Some R\<close>), else through the command line.\<close>

definition handle_workload_run ::
  "'net ipnet_ops \<Rightarrow> 'd container_runtime option \<Rightarrow> 'd node_env \<Rightarrow> printers \<Rightarrow> workload_record codec \<Rightarrow> write_result \<Rightarrow> string \<Rightarrow> timestamp \<Rightarrow> timestamp
   \<Rightarrow> workload_run_params decoded \<Rightarrow> 'net workload_state \<times> 'd \<Rightarrow> (string, json, 'net workload_state \<times> 'd) outcome" where
  "handle_workload_run ops rt env P C w wid now now' dec sd =
     (case dec of
        Inl e \<Rightarrow> (Inl e, sd)
      | Inr p \<Rightarrow>
          (case rt of
             Some R \<Rightarrow> handle_workload_run_sdk ops R P C w wid now now' p sd
           | None \<Rightarrow> handle_workload_run_cli ops env C w wid now now' p sd))"

definition handle_workload_stop ::
  "'d container_runtime option \<Rightarrow> 'd node_env \<Rightarrow> printers \<Rightarrow> workload_record codec \<Rightarrow> write_result \<Rightarrow> timestamp
   \<Rightarrow> (string option \<times> string option \<times> bool option) decoded \<Rightarrow> 'net workload_state \<times> 'd \<Rightarrow> (string, json, 'net workload_state \<times> 'd) outcome" where
  "handle_workload_stop rt env P C w now dec sd =
     (case dec of
        Inl e \<Rightarrow> (Inl e, sd)
      | Inr (cid, name, force) \<Rightarrow>
          (case target_of cid name of
             Inl e \<Rightarrow> (Inl e, sd)
           | Inr target \<Rightarrow>
               (let f = (case force of None \<Rightarrow> False | Some b \<Rightarrow> b)
                in case rt of
                     Some R \<Rightarrow> handle_workload_stop_sdk R P C w now target f sd
                   | None \<Rightarrow> handle_workload_stop_cli env C w now target f sd)))"

section \<open>Logs, the listing and commands in a container\<close>

definition handle_workload_logs_cli :: "'d node_env \<Rightarrow> string \<Rightarrow> u32 option \<Rightarrow> 'd \<Rightarrow> (string, json, 'd) outcome" where
  "handle_workload_logs_cli env target last_lines d =
     (case docker env ([''logs''] @ opt_args ''--tail'' (map_option (\<lambda>n. show_nat (unat n)) last_lines) @ [target]) d of
        (None, d') \<Rightarrow> (Inl (io_text env), d')
      | (Some out, d') \<Rightarrow>
          (Inr (JObj [(''logs'', JStr (cmd_stdout out)), (''stderr'', JStr (cmd_stderr out)), (''container'', JStr target), (''runtime'', JStr ''cli'')]), d'))"

definition handle_workload_logs ::
  "'d container_runtime option \<Rightarrow> 'd node_env \<Rightarrow> printers \<Rightarrow> (string option \<times> string option \<times> u32 option) decoded \<Rightarrow> 'd \<Rightarrow> (string, json, 'd) outcome" where
  "handle_workload_logs rt env P dec d =
     (case dec of
        Inl e \<Rightarrow> (Inl e, d)
      | Inr (cid, name, last_lines) \<Rightarrow>
          (case target_of cid name of
             Inl e \<Rightarrow> (Inl e, d)
           | Inr target \<Rightarrow>
               (case rt of
                  Some R \<Rightarrow>
                    (case rt_logs R target (map_option unat last_lines) d of
                       Inl e \<Rightarrow> (Inl (''logs failed: '' @ show_node_error P e), d)
                     | Inr ls \<Rightarrow>
                         (Inr (JObj [(''logs'', JStr (join [CHR 0x0A] ls)), (''container'', JStr target), (''runtime'', JStr ''docker-sdk'')]), d))
                | None \<Rightarrow> handle_workload_logs_cli env target last_lines d)))"

text \<open>\<open>splitn\<close>: at most \<open>n\<close> parts, the last with the rest.\<close>

fun splitn :: "nat \<Rightarrow> char \<Rightarrow> string \<Rightarrow> string list" where
  "splitn 0 c s = []"
| "splitn (Suc 0) c s = [s]"
| "splitn (Suc (Suc n)) c s = (case split_once c s of None \<Rightarrow> [s] | Some (a, b) \<Rightarrow> a # splitn (Suc n) c b)"

definition part :: "string list \<Rightarrow> nat \<Rightarrow> json" where
  "part ps i = JStr (if i < length ps then ps ! i else [])"

definition handle_workload_list_cli :: "'d node_env \<Rightarrow> 'd \<Rightarrow> (string, json, 'd) outcome" where
  "handle_workload_list_cli env d =
     (let t = [CHR 0x09]; fmt = ''{{.ID}}'' @ t @ ''{{.Image}}'' @ t @ ''{{.Status}}'' @ t @ ''{{.Names}}'' @ t @ ''{{.Labels}}''
      in case docker env [''ps'', ''-a'', ''--filter'', ''label=managed-by=clawbernetes'', ''--format'', fmt] d of
           (None, d') \<Rightarrow> (Inl (io_text env), d')
         | (Some out, d') \<Rightarrow>
             (let ws = map (\<lambda>l. let ps = splitn 5 (CHR 0x09) l
                         in JObj [(''containerId'', part ps 0), (''image'', part ps 1), (''status'', part ps 2), (''name'', part ps 3)])
                       (filter (\<lambda>l. l \<noteq> []) (text_lines (cmd_stdout out)))
              in (Inr (JObj [(''count'', jlen ws), (''workloads'', JList ws), (''runtime'', JStr ''cli'')]), d')))"

text \<open>Commands in a container also report their exit code, which \<open>exec_run\<close> gives next to the output.\<close>

definition handle_container_exec_cli ::
  "(string list \<Rightarrow> 'd \<Rightarrow> (int option \<times> cmd_output) option \<times> 'd) \<Rightarrow> string \<Rightarrow> string \<Rightarrow> string list \<Rightarrow> string option \<Rightarrow> 'd \<Rightarrow> (string, json, 'd) outcome" where
  "handle_container_exec_cli exec_run io target cmd workdir d =
     (case exec_run ([''exec''] @ opt_args ''-w'' workdir @ [target] @ cmd) d of
        (None, d') \<Rightarrow> (Inl io, d')
      | (Some (code, out), d') \<Rightarrow>
          (Inr (JObj [(''exitCode'', JNum (case code of None \<Rightarrow> - 1 | Some c \<Rightarrow> c)), (''stdout'', JStr (cmd_stdout out)),
             (''stderr'', JStr (cmd_stderr out)), (''success'', JBool (cmd_success out))]), d'))"

definition handle_container_exec ::
  "(string list \<Rightarrow> 'd \<Rightarrow> (int option \<times> cmd_output) option \<times> 'd) \<Rightarrow> string
   \<Rightarrow> (string option \<times> string option \<times> string list \<times> string option) decoded \<Rightarrow> 'd \<Rightarrow> (string, json, 'd) outcome" where
  "handle_container_exec exec_run io dec d =
     (case dec of
        Inl e \<Rightarrow> (Inl e, d)
      | Inr (cid, name, cmd, workdir) \<Rightarrow>
          (case target_of cid name of
             Inl e \<Rightarrow> (Inl e, d)
           | Inr target \<Rightarrow> if cmd = [] then (Inl ''command required'', d) else handle_container_exec_cli exec_run io target cmd workdir d))"

section \<open>Addresses of workloads\<close>

definition net_inv :: "'net ipnet_ops \<Rightarrow> 'net workload_net_manager option \<Rightarrow> bool" where
  "net_inv ops net \<longleftrightarrow> (\<forall>m. net = Some m \<longrightarrow> wn_inv ops m)"

lemma net_inv_None [simp]: "net_inv ops None"
  by (simp add: net_inv_def)

lemma net_inv_map: "net_inv ops net \<Longrightarrow> (\<And>m. wn_inv ops m \<Longrightarrow> wn_inv ops (f m)) \<Longrightarrow> net_inv ops (map_option f net)"
  by (auto simp: net_inv_def)

lemma allocated_inv: "allocate_ip ops i m = (r, m') \<Longrightarrow> wn_inv ops m \<Longrightarrow> wn_inv ops m'"
  using allocate_ip_inv [of ops m i] by simp

lemma sdk_address_inv: "sdk_address ops i net = (r, net') \<Longrightarrow> net_inv ops net \<Longrightarrow> net_inv ops net'"
  by (auto simp: sdk_address_def net_inv_def split: option.splits prod.splits sum.splits dest: allocated_inv)

lemma cli_address_inv: "cli_address ops i net = (r, net') \<Longrightarrow> net_inv ops net \<Longrightarrow> net_inv ops net'"
  by (auto simp: cli_address_def net_inv_def split: option.splits prod.splits sum.splits dest: allocated_inv)

lemma release_by_container_inv: "wn_inv ops m \<Longrightarrow> wn_inv ops (snd (release_by_container c m))"
  by (auto simp: release_by_container_def wn_inv_containers split: option.split intro: release_ip_inv)

lemma track_container_inv: "wn_inv ops m \<Longrightarrow> wn_inv ops (track_container c w m)"
  by (simp add: track_container_def wn_inv_containers)

lemma free_address_inv: "net_inv ops net \<Longrightarrow> net_inv ops (free_address i net)"
  unfolding free_address_def by (rule net_inv_map) (simp_all add: release_ip_inv)

lemma record_stop_inv: "net_inv ops (ws_net s) \<Longrightarrow> net_inv ops (ws_net (record_stop C w now target s))"
  unfolding record_stop_def by (simp add: net_inv_map release_by_container_inv)

lemma run_sdk_inv:
  assumes "net_inv ops (ws_net s)"
  shows "net_inv ops (ws_net (fst (snd (handle_workload_run_sdk ops R P C w wid now now' p (s, d)))))"
proof -
  obtain r net where a: "sdk_address ops wid (ws_net s) = (r, net)" by (cases "sdk_address ops wid (ws_net s)")
  then have "net_inv ops net" using sdk_address_inv assms by blast
  then show ?thesis
    by (auto simp: handle_workload_run_sdk_def a Let_def net_inv_map track_container_inv free_address_inv split: sum.split prod.split)
qed

lemma run_cli_inv:
  assumes "net_inv ops (ws_net s)"
  shows "net_inv ops (ws_net (fst (snd (handle_workload_run_cli ops env C w wid now now' p (s, d)))))"
proof -
  obtain r net where a: "cli_address ops wid (ws_net s) = (r, net)" by (cases "cli_address ops wid (ws_net s)")
  then have "net_inv ops net" using cli_address_inv assms by blast
  then show ?thesis
    by (auto simp: handle_workload_run_cli_def a Let_def free_address_inv split: option.split prod.split)
qed

lemma stop_inv:
  "net_inv ops (ws_net s) \<Longrightarrow> net_inv ops (ws_net (fst (snd (handle_workload_stop_cli env C w now target force (s, d)))))"
  "net_inv ops (ws_net s) \<Longrightarrow> net_inv ops (ws_net (fst (snd (handle_workload_stop_sdk R P C w now target force (s, d)))))"
  by (auto simp: handle_workload_stop_cli_def handle_workload_stop_sdk_def record_stop_inv split: option.split prod.split sum.split)

section \<open>Any sequence of commands\<close>

text \<open>The commands; the identifier that \<open>run\<close> draws, the times and the results of the writes are part of them.\<close>

datatype workload_command =
    Run write_result string timestamp timestamp "workload_run_params decoded"
  | Stop write_result timestamp "(string option \<times> string option \<times> bool option) decoded"

fun workload_command_step ::
  "'net ipnet_ops \<Rightarrow> 'd container_runtime option \<Rightarrow> 'd node_env \<Rightarrow> printers \<Rightarrow> workload_record codec \<Rightarrow> 'net workload_state \<times> 'd
   \<Rightarrow> workload_command \<Rightarrow> 'net workload_state \<times> 'd" where
  "workload_command_step ops rt env P C sd (Run w wid now now' dec) = snd (handle_workload_run ops rt env P C w wid now now' dec sd)"
| "workload_command_step ops rt env P C sd (Stop w now dec) = snd (handle_workload_stop rt env P C w now dec sd)"

lemma workload_command_inv:
  assumes "net_inv ops (ws_net (fst sd))"
  shows "net_inv ops (ws_net (fst (workload_command_step ops rt env P C sd c)))"
proof -
  obtain s d where sd: "sd = (s, d)" by (cases sd)
  show ?thesis
  proof (cases c)
    case (Run w wid now now' dec)
    then show ?thesis using assms sd
      by (auto simp: handle_workload_run_def run_sdk_inv run_cli_inv split: sum.split option.split)
  next
    case (Stop w now dec)
    then show ?thesis using assms sd
      by (auto simp: handle_workload_stop_def stop_inv Let_def split: sum.split option.split prod.split)
  qed
qed

interpretation workload_commands: invariant_steps "workload_command_step ops rt env P C" "\<lambda>sd. net_inv ops (ws_net (fst sd))" for ops rt env P C
  by unfold_locales (rule workload_command_inv)

text \<open>
  Workloads that the commands run never share an address: after any sequence of run and stop commands, through the runtime or the command line, an
  address belongs to one workload.
\<close>

theorem command_addresses_unique:
  assumes "wn_init ops created subnet wg = Inr m0" and "ws_net s0 = Some m0"
    and "ws_net (fst (run (workload_command_step ops rt env P C) (s0, d) cs)) = Some m"
    and "get_ip m i = Some ip" and "get_ip m j = Some ip"
  shows "i = j"
proof -
  have "net_inv ops (ws_net (fst (s0, d)))" using wn_inv_init [OF assms(1)] assms(2) by (simp add: net_inv_def)
  then have "net_inv ops (ws_net (fst (run (workload_command_step ops rt env P C) (s0, d) cs)))"
    by (rule workload_commands.run_inv)
  then have "wn_inv ops m" using assms(3) by (simp add: net_inv_def)
  then have "distinct (map last_octet (hm_values (allocated_ips m)))" using wn_used_distinct [of ops m] by (simp only: used_def)
  then show ?thesis by (rule distinct_values_inj [OF _ assms(4,5) [unfolded get_ip_def] refl])
qed

section \<open>Running and stopping\<close>

lemma allocated_address:
  assumes "allocate_ip ops wid m = (Inr ip, m')"
  shows "get_ip m' wid = Some ip" "container_to_workload m' = container_to_workload m" "i \<noteq> wid \<Longrightarrow> get_ip m' i = get_ip m i"
proof -
  obtain r m1 where t: "take_suffix m = (r, m1)" by (cases "take_suffix m")
  then have m1: "allocated_ips m1 = allocated_ips m" "container_to_workload m1 = container_to_workload m"
    by (auto simp: take_suffix_def split: if_splits)
  have "get_ip m' wid = Some ip \<and> container_to_workload m' = container_to_workload m \<and> (i \<noteq> wid \<longrightarrow> get_ip m' i = get_ip m i)"
  proof (cases "hm_get (allocated_ips m) wid")
    case None
    then show ?thesis using assms m1 by (cases r) (auto simp: allocate_ip_def t get_ip_def Let_def)
  qed (use assms in \<open>simp add: allocate_ip_def get_ip_def\<close>)
  then show "get_ip m' wid = Some ip" "container_to_workload m' = container_to_workload m" "i \<noteq> wid \<Longrightarrow> get_ip m' i = get_ip m i" by auto
qed

lemma upserted: "hm_get (entries (fst (workloads_upsert C w r st))) k = (if k = wl_id r then Some r else hm_get (entries (fst st)) k)"
  by (simp add: workloads_upsert_def)

lemma find_upserted:
  assumes "hm_get (entries (fst st)) (wl_id r) = None" "find_by_container_id (fst st) cid = None" "wl_container_id r = Some cid"
  shows "find_by_container_id (fst (workloads_upsert C w r st)) cid = Some r"
proof -
  have "find P (xs @ [x]) = (case find P xs of None \<Rightarrow> if P x then Some x else None | Some y \<Rightarrow> Some y)" for P xs and x :: workload_record
    by (induction xs) auto
  then show ?thesis using assms by (simp add: find_by_container_id_def workloads_upsert_def hm_insert_new)
qed

text \<open>
  Through the runtime, running a workload and stopping its container by identifier gives the address back, leaves the other workloads' addresses as
  they were and records the workload as stopped.
\<close>

theorem sdk_run_then_stop:
  assumes net: "ws_net s = Some m" "get_ip m wid = None" "allocate_ip ops wid m = (Inr ip, m1)"
    and fresh: "hm_get (entries (fst (ws_store s))) wid = None" "find_by_container_id (fst (ws_store s)) (ct_id c) = None"
    and create: "\<And>spec. rt_create R spec d = (Inr c, d1)" and stop: "\<And>t. rt_stop R (ct_id c) t d1 = (Inr (), d2)"
  shows "\<exists>ans ans2 s1 s2 m2 r. handle_workload_run ops (Some R) env P C w wid t0 t1 (Inr p) (s, d) = (Inr ans, s1, d1) \<and>
     handle_workload_stop (Some R) env P C w' t2 (Inr (Some (ct_id c), None, force)) (s1, d1) = (Inr ans2, s2, d2) \<and>
     ws_net s2 = Some m2 \<and> get_ip m2 wid = None \<and> (\<forall>i. i \<noteq> wid \<longrightarrow> get_ip m2 i = get_ip m i) \<and>
     workloads_get (fst (ws_store s2)) wid = Some r \<and> wl_state r = ''stopped''"
proof -
  let ?r = "workload_record_of wid (ct_id c) t0 t1 p"
  let ?s1 = "s\<lparr>ws_net := Some (track_container (ct_id c) wid m1), ws_store := workloads_upsert C w ?r (ws_store s)\<rparr>"
  have run: "\<exists>ans. handle_workload_run ops (Some R) env P C w wid t0 t1 (Inr p) (s, d) = (Inr ans, ?s1, d1)"
    by (simp add: handle_workload_run_def handle_workload_run_sdk_def sdk_address_def net create Let_def)
  have stopped: "\<exists>ans. handle_workload_stop (Some R) env P C w' t2 (Inr (Some (ct_id c), None, force)) (?s1, d1) =
      (Inr ans, record_stop C w' t2 (ct_id c) ?s1, d2)"
    by (simp add: handle_workload_stop_def target_of_def handle_workload_stop_sdk_def stop Let_def)
  have found: "find_by_container_id (fst (ws_store ?s1)) (ct_id c) = Some ?r"
    using fresh by (simp add: find_upserted workload_record_of_def)
  have "workloads_get (fst (ws_store (record_stop C w' t2 (ct_id c) ?s1))) wid =
      Some (?r\<lparr>wl_state := ''stopped'', exit_code := Some 0, wl_updated_at := t2\<rparr>)"
    using found by (simp add: record_stop_def workloads_update_state_def upserted workloads_get_def store_get_def)
      (simp add: workload_record_of_def)
  moreover have "ws_net (record_stop C w' t2 (ct_id c) ?s1) = Some (snd (release_by_container (ct_id c) (track_container (ct_id c) wid m1)))"
    by (simp add: record_stop_def)
  moreover have "get_ip (snd (release_by_container (ct_id c) (track_container (ct_id c) wid m1))) i = (if i = wid then None else get_ip m i)" for i
    using allocated_address [OF net(3)] by (simp add: release_by_container_def track_container_def release_ip_def get_ip_def)
  ultimately show ?thesis using run stopped by fastforce
qed

text \<open>
  Through the command line the container is never entered in the map from containers to workloads, so stopping it does not give the address back. The same
  holds in both paths when a workload is stopped by its name. If the command line cannot be started at all, the address is not given back either.
\<close>

lemma cli_run_then_stop_leaks:
  assumes net: "ws_net s = Some m" "allocate_ip ops wid m = (Inr ip, m1)"
    and started: "\<And>args. docker env (''run'' # args) d = (Some out, d1)" "cmd_success out"
    and stopped: "docker env [''stop'', trim (cmd_stdout out)] d1 = (Some out2, d2)" "cmd_success out2"
    and cid: "trim (cmd_stdout out) \<noteq> wid" "hm_get (container_to_workload m) (trim (cmd_stdout out)) = None"
  shows "\<exists>ans ans2 s1 s2 m2. handle_workload_run ops None env P C w wid t0 t1 (Inr p) (s, d) = (Inr ans, s1, d1) \<and>
     handle_workload_stop None env P C w' t2 (Inr (Some (trim (cmd_stdout out)), None, None)) (s1, d1) = (Inr ans2, s2, d2) \<and>
     ws_net s2 = Some m2 \<and> get_ip m2 wid = Some ip"
proof -
  let ?cid = "trim (cmd_stdout out)"
  let ?s1 = "s\<lparr>ws_net := Some m1, ws_store := workloads_upsert C w (workload_record_of wid ?cid t0 t1 p) (ws_store s)\<rparr>"
  have "\<exists>ans. handle_workload_run ops None env P C w wid t0 t1 (Inr p) (s, d) = (Inr ans, ?s1, d1)"
    using started by (simp add: handle_workload_run_def handle_workload_run_cli_def cli_address_def net run_args_def Let_def)
  moreover have "\<exists>ans. handle_workload_stop None env P C w' t2 (Inr (Some ?cid, None, None)) (?s1, d1) = (Inr ans, record_stop C w' t2 ?cid ?s1, d2)"
    using stopped by (simp add: handle_workload_stop_def target_of_def handle_workload_stop_cli_def)
  moreover have "get_ip (snd (release_by_container ?cid m1)) wid = Some ip"
    using allocated_address [OF net(2)] cid by (auto simp: release_by_container_def release_ip_def get_ip_def split: option.split)
  moreover have "ws_net (record_stop C w' t2 ?cid ?s1) = Some (snd (release_by_container ?cid m1))" by (simp add: record_stop_def)
  ultimately show ?thesis by fastforce
qed

lemma stop_by_name_leaks:
  assumes "ws_net s = Some m" "get_ip m wid = Some ip" "name \<noteq> wid" "hm_get (container_to_workload m) name = None"
    and "find_by_container_id (fst (ws_store s)) name = None"
  shows "\<exists>m2. ws_net (record_stop C w now name s) = Some m2 \<and> get_ip m2 wid = Some ip" "ws_store (record_stop C w now name s) = ws_store s"
  using assms by (auto simp: record_stop_def release_by_container_def release_ip_def get_ip_def split: option.split)

lemma unstartable_cli_leaks:
  assumes "ws_net s = Some m" "allocate_ip ops wid m = (Inr ip, m1)" "\<And>args. docker env args d = (None, d1)"
  shows "\<exists>e s1 m2. handle_workload_run_cli ops env C w wid t0 t1 p (s, d) = (Inl e, s1, d1) \<and> ws_net s1 = Some m2 \<and> get_ip m2 wid = Some ip"
  using assms allocated_address [OF assms(2)] by (simp add: handle_workload_run_cli_def cli_address_def)

section \<open>Memory sizes\<close>

text \<open>A product that does not fit wraps: seventeen thousand million gigabytes and one are one gigabyte.\<close>

lemma memory_wraps: "parse_memory_string ''17179869185g'' = Some 1073741824"
  by (simp add: parse_memory_string_def strip_suffix_def trim_def is_space_def to_lower_def parse_u64_def is_digit_def digits_val_def digit_val_def Let_def)

lemma memory_examples: "parse_memory_string '' 8gb '' = Some (8 * 1024 * 1024 * 1024)" "parse_memory_string ''abc'' = None"
  by (simp_all add: parse_memory_string_def strip_suffix_def trim_def is_space_def to_lower_def parse_u64_def is_digit_def digits_val_def digit_val_def Let_def)

end
