(* ===== verification/Market_Commands.thy ===== *)
theory Market_Commands
  imports P2p_Network Order_Book Store_Commands
begin

text \<open>
  The marketplace commands of a node, \<open>crates/clawnode/src/molt_cmd.rs\<close>, over the peer table of \<open>molt-p2p\<close> and the order book of \<open>molt-market\<close>. The
  identifier and the time of an order are arguments; so is the base-58 text form of a peer identifier.
\<close>

section \<open>Hexadecimal texts\<close>

definition hex_value :: "char \<Rightarrow> nat option" where
  "hex_value c =
     (let n = (of_char c :: nat)
      in if 48 \<le> n \<and> n \<le> 57 then Some (n - 48) else if 65 \<le> n \<and> n \<le> 70 then Some (n - 55)
         else if 97 \<le> n \<and> n \<le> 102 then Some (n - 87) else None)"

text \<open>\<open>hex::decode\<close>: an odd length or another character is an error, whose text is the argument \<open>msg\<close>.\<close>

fun hex_decode :: "string \<Rightarrow> string option" where
  "hex_decode [] = Some []"
| "hex_decode [c] = None"
| "hex_decode (a # b # cs) =
     (case hex_value a of
        None \<Rightarrow> None
      | Some x \<Rightarrow> (case hex_value b of None \<Rightarrow> None | Some y \<Rightarrow> map_option ((#) (char_of (16 * x + y))) (hex_decode cs)))"

definition hex_text :: "string \<Rightarrow> string" where
  "hex_text s = concat (map (\<lambda>c. [hex_digit (of_char c div 16), hex_digit (of_char c mod 16)]) s)"

section \<open>Handlers\<close>

record molt_discover_params =
  md_gpu_type :: "string option"
  md_min_vram :: "u32 option"
  md_max_price :: "u64 option"

text \<open>Parameters that cannot be decoded count as none.\<close>

definition handle_molt_discover :: "(string \<Rightarrow> string) \<Rightarrow> molt_discover_params decoded \<Rightarrow> peer_table \<Rightarrow> string + json" where
  "handle_molt_discover base58 dec t =
     (let p = (case dec of Inl _ \<Rightarrow> \<lparr>md_gpu_type = None, md_min_vram = None, md_max_price = None\<rparr> | Inr p \<Rightarrow> p);
          peers = find_by_capability t (case md_gpu_type p of None \<Rightarrow> ''gpu'' | Some g \<Rightarrow> g);
          rs = map (\<lambda>i. JObj [(''peerId'', JStr (peer_id_display base58 (pi_peer_id i))), (''capabilities'', JList (map JStr (pi_capabilities i)))]) peers
      in Inr (JObj [(''count'', jlen rs), (''providers'', JList rs),
           (''filter'', JObj [(''gpuType'', jopt JStr (md_gpu_type p)), (''minVram'', jopt jword (md_min_vram p)), (''maxPrice'', jopt jword (md_max_price p))])]))"

text \<open>A number of the job specification, cut to 32 bits by the conversion \<open>as u32\<close>.\<close>

definition spec_u32 :: "json \<Rightarrow> string \<Rightarrow> u64 \<Rightarrow> u32" where
  "spec_u32 spec k dflt = ucast (case get_u64 spec k of None \<Rightarrow> dflt | Some x \<Rightarrow> x)"

definition bid_requirements :: "json \<Rightarrow> job_requirements" where
  "bid_requirements spec = \<lparr>min_gpus = spec_u32 spec ''gpus'' 1, gpu_model = get_str spec ''gpuModel'', min_memory_gb = spec_u32 spec ''memoryGb'' 8,
     max_duration_hours = spec_u32 spec ''durationHours'' 24\<rparr>"

definition handle_molt_bid ::
  "string \<Rightarrow> i64 \<Rightarrow> (string \<times> json \<times> u64) decoded \<Rightarrow> order_book \<Rightarrow> (string, json, order_book) outcome" where
  "handle_molt_bid uuid now dec b =
     (case dec of
        Inl e \<Rightarrow> (Inl e, b)
      | Inr (prov, spec, price) \<Rightarrow>
          (let ord = job_order_new uuid now ''clawnode'' (bid_requirements spec) price
           in (Inr (JObj [(''orderId'', JStr (order_id ord)), (''providerId'', JStr prov), (''maxPrice'', jword price), (''state'', JStr ''submitted''),
                 (''success'', JBool True)]), insert_order ord b)))"

definition handle_molt_status :: "(string option \<times> string option) decoded \<Rightarrow> order_book \<Rightarrow> string + json" where
  "handle_molt_status dec b =
     (case dec of
        Inl e \<Rightarrow> Inl e
      | Inr (jid, oid) \<Rightarrow>
          (case override oid jid of
             None \<Rightarrow> Inl ''orderId or jobId required''
           | Some i \<Rightarrow>
               (case get_order b i of
                  Some ord \<Rightarrow> Inr (JObj [(''orderId'', JStr (order_id ord)), (''buyer'', JStr (order_buyer ord)), (''maxPrice'', jword (max_price ord)),
                    (''state'', JStr ''active'')])
                | None \<Rightarrow> Inl (''order/job '' @ CHR 0x27 # i @ CHR 0x27 # '' not found''))))"

definition handle_molt_balance :: "string \<Rightarrow> string + json" where
  "handle_molt_balance pubkey =
     Inr (JObj [(''publicKey'', JStr (hex_text pubkey)), (''balance'', JStr ''0 MOLT''), (''message'', JStr ''balance tracking requires on-chain integration'')])"

definition handle_molt_reputation :: "string \<Rightarrow> string decoded \<Rightarrow> peer_table \<Rightarrow> string + json" where
  "handle_molt_reputation msg dec t =
     (case dec of
        Inl e \<Rightarrow> Inl e
      | Inr pid \<Rightarrow>
          (case hex_decode pid of
             None \<Rightarrow> Inl (''invalid peer ID hex: '' @ msg)
           | Some bs \<Rightarrow>
               if length bs \<noteq> 32 then Inl ''peer ID must be 32 bytes (64 hex chars)''
               else (case table_get t bs of
                       None \<Rightarrow> Inl (quoted ''peer'' pid ''not found'')
                     | Some i \<Rightarrow> Inr (JObj [(''peerId'', JStr pid), (''capabilities'', JList (map JStr (pi_capabilities i))),
                         (''reputation'', JStr ''unknown''), (''message'', JStr ''reputation scoring requires attestation history'')]))))"

section \<open>Bids\<close>

lemma get_u64_small: "get_u64 spec k = Some x \<Longrightarrow> unat x < 2 ^ 32 \<Longrightarrow> unat (spec_u32 spec k n) = unat x"
  by (simp add: spec_u32_def unat_cast)

text \<open>
  A bid is an order: the status of the returned identifier shows the node as buyer and the price of the bid, and every match of the order is an offer with at
  least the GPUs the job asks for, if that number fits in 32 bits, of its model.
\<close>

theorem bid_is_an_order:
  assumes bid: "handle_molt_bid uuid now (Inr (prov, spec, price)) b = (Inr ans, b')"
    and gpus: "get_u64 spec ''gpus'' = Some x" "unat x < 2 ^ 32"
  shows "\<exists>st ord. handle_molt_status (Inr (None, Some uuid)) b' = Inr st \<and> jget st ''buyer'' = Some (JStr ''clawnode'') \<and>
     jget st ''maxPrice'' = Some (jword price) \<and> get_order b' uuid = Some ord \<and>
     (\<forall>off. satisfies off (requirements ord) \<longrightarrow> unat x \<le> unat (count (gpus off)) \<and>
        (\<forall>m. get_str spec ''gpuModel'' = Some m \<longrightarrow> model (gpus off) = m))"
proof -
  let ?o = "job_order_new uuid now ''clawnode'' (bid_requirements spec) price"
  have b': "b' = insert_order ?o b" using bid by (simp add: handle_molt_bid_def Let_def)
  have get: "get_order b' uuid = Some ?o" by (simp add: b' get_order_def insert_order_def job_order_new_def)
  have "unat x \<le> unat (count (gpus off)) \<and> (\<forall>m. get_str spec ''gpuModel'' = Some m \<longrightarrow> model (gpus off) = m)"
    if "satisfies off (requirements ?o)" for off
    using that get_u64_small [OF gpus, of 1]
    by (auto simp: satisfies_def job_order_new_def bid_requirements_def not_less word_le_nat_alt split: if_splits option.splits)
  moreover have "\<exists>st. handle_molt_status (Inr (None, Some uuid)) b' = Inr st \<and> jget st ''buyer'' = Some (JStr ''clawnode'') \<and> jget st ''maxPrice'' = Some (jword price)"
    using get by (simp add: handle_molt_status_def override_def job_order_new_def)
  ultimately show ?thesis using get by blast
qed

text \<open>A number that does not fit in 32 bits is cut: a job that asks for 4294967297 GPUs is satisfied by one.\<close>

lemma large_bid_cut: "spec_u32 (JObj [(''gpus'', JNum 4294967297)]) ''gpus'' 1 = 1"
  by (simp add: spec_u32_def get_u64_def)

section \<open>Discovery\<close>

text \<open>The memory and the price of a search are echoed and do not restrict it; nor does the provider of a bid restrict the order.\<close>

lemma discover_ignores_limits:
  "jget j ''providers'' = jget j' ''providers''"
  if "handle_molt_discover base58 (Inr p) t = Inr j" "handle_molt_discover base58 (Inr (p\<lparr>md_min_vram := v, md_max_price := m\<rparr>)) t = Inr j'"
  using that by (auto simp: handle_molt_discover_def Let_def)

lemma bid_ignores_provider: "snd (handle_molt_bid uuid now (Inr (prov, spec, price)) b) = snd (handle_molt_bid uuid now (Inr (prov', spec, price)) b)"
  by (simp add: handle_molt_bid_def Let_def)

text \<open>Decoding inverts the text form, so a peer is found by the hexadecimal text of its identifier.\<close>

lemma hex_value_digit: "d < 16 \<Longrightarrow> hex_value (hex_digit d) = Some d"
  by (auto simp: hex_value_def hex_digit_def Let_def)

lemma hex_decode_text [simp]: "hex_decode (hex_text s) = Some s"
proof (induction s)
  case (Cons c s)
  have "(of_char c :: nat) < 256" by simp
  then have "(of_char c :: nat) div 16 < 16" by (simp add: less_mult_imp_div_less)
  then have "hex_value (hex_digit (of_char c div 16)) = Some (of_char c div 16)" "hex_value (hex_digit (of_char c mod 16)) = Some (of_char c mod 16)"
    by (simp_all add: hex_value_digit)
  then show ?case using Cons by (simp add: hex_text_def)
qed (simp add: hex_text_def)

lemma hex_decode_length: "hex_decode s = Some bs \<Longrightarrow> length s = 2 * length bs"
  by (induction s arbitrary: bs rule: hex_decode.induct) (auto split: option.splits)

lemma reputation_of_peer:
  assumes "table_get t pid = Some i" "length pid = 32"
  shows "\<exists>j. handle_molt_reputation msg (Inr (hex_text pid)) t = Inr j \<and> jget j ''capabilities'' = Some (JList (map JStr (pi_capabilities i)))"
  using assms by (simp add: handle_molt_reputation_def)

text \<open>
  The identifiers that discovery shows are another text form: a base-58 text of 32 bytes has at most 44 characters, and none such is accepted.
\<close>

lemma discovered_identifier_refused:
  assumes "length (base58 pid) \<le> 44"
  shows "\<exists>e. handle_molt_reputation msg (Inr (peer_id_display base58 pid)) t = Inl e"
  using assms hex_decode_length [of "base58 pid"]
  by (auto simp: handle_molt_reputation_def peer_id_display_def split: option.split)

end
