(* ===== verification/Network_Commands.thy ===== *)
theory Network_Commands
  imports Service_Discovery Net_Policy Store_Commands
begin

text \<open>
  The networking commands of a node, \<open>crates/clawnode/src/network_cmd.rs\<close>: services, ingresses and network policies, which are kept in the store and
  handed to service discovery and to the policy engine. The node starts both without services and policies, whatever its store holds
  (\<open>main.rs\<close>). A handler that removes rules may not return, since the loops it calls may not; the printed form of an address is an argument. The status
  of the mesh is not modelled.
\<close>

section \<open>State\<close>

record 'fw network_state =
  nw_store :: "service_store \<times> disk"
  nw_sd :: "service_discovery option"
  nw_pe :: "policy_engine option"
  nw_fw :: 'fw

definition network_start ::
  "'fw runner \<Rightarrow> service_entry codec \<Rightarrow> ingress_entry codec \<Rightarrow> network_policy_entry codec \<Rightarrow> path \<Rightarrow> disk \<Rightarrow> 'fw \<Rightarrow> 'fw network_state" where
  "network_start ipt CS CI CP sp d fw =
     (case sd_new ipt fw of (sd, fw1) \<Rightarrow>
        case engine_new ipt fw1 of (pe, fw2) \<Rightarrow>
          \<lparr>nw_store = (service_store_new CS CI CP sp d, d), nw_sd = Some sd, nw_pe = Some pe, nw_fw = fw2\<rparr>)"

section \<open>Services\<close>

record service_create_params =
  sc_name :: string
  sc_selector :: "(string, string) hashmap"
  sc_port :: u16
  sc_protocol :: string

text \<open>A service that cannot be registered is only logged.\<close>

definition register_with ::
  "service_create_params \<Rightarrow> service_discovery option \<Rightarrow> ip_addr option \<times> service_discovery option" where
  "register_with p sd =
     (case sd of
        None \<Rightarrow> (None, None)
      | Some s \<Rightarrow>
          (case register_service (sc_name p) (sc_port p) (sc_protocol p) (sc_selector p) s of
             (Inl _, s') \<Rightarrow> (None, Some s')
           | (Inr vip, s') \<Rightarrow> (Some vip, Some s')))"

definition handle_service_create ::
  "(ip_addr \<Rightarrow> string) \<Rightarrow> service_entry codec \<Rightarrow> write_result \<Rightarrow> timestamp \<Rightarrow> service_create_params decoded \<Rightarrow> 'fw network_state
   \<Rightarrow> (string, json, 'fw network_state) outcome" where
  "handle_service_create ip C w now dec s =
     (case dec of
        Inl e \<Rightarrow> (Inl e, s)
      | Inr p \<Rightarrow>
          (case create_service C w \<lparr>svc_name = sc_name p, svc_selector = sc_selector p, svc_port = sc_port p, svc_protocol = sc_protocol p,
                  svc_endpoints = [], svc_created_at = now\<rparr> (nw_store s) of
             (Inl e, st) \<Rightarrow> (Inl e, s\<lparr>nw_store := st\<rparr>)
           | (Inr _, st) \<Rightarrow>
               (case register_with p (nw_sd s) of
                  (vip, sd) \<Rightarrow>
                    (Inr (JObj ([(''name'', JStr (sc_name p)), (''port'', jword (sc_port p)), (''protocol'', JStr (sc_protocol p)), (''success'', JBool True)] @
                       (case vip of None \<Rightarrow> [] | Some v \<Rightarrow> [(''clusterIp'', JStr (ip v))]))),
                     s\<lparr>nw_store := st, nw_sd := sd\<rparr>))))"

definition endpoint_json :: "(ip_addr \<Rightarrow> string) \<Rightarrow> endpoint \<Rightarrow> json" where
  "endpoint_json ip e = JObj [(''ip'', JStr (ip (ep_ip e))), (''port'', jword (ep_port e)), (''containerId'', JStr (ep_container_id e)),
     (''healthy'', JBool (ep_healthy e))]"

definition cluster_ip_field :: "(ip_addr \<Rightarrow> string) \<Rightarrow> service_discovery option \<Rightarrow> string \<Rightarrow> (string \<times> json) list" where
  "cluster_ip_field ip sd name =
     (case Option.bind sd (\<lambda>s. get_cluster_ip s name) of None \<Rightarrow> [] | Some v \<Rightarrow> [(''clusterIp'', JStr (ip v))])"

definition handle_service_get ::
  "(ip_addr \<Rightarrow> string) \<Rightarrow> (timestamp \<Rightarrow> string) \<Rightarrow> string decoded \<Rightarrow> 'fw network_state \<Rightarrow> string + json" where
  "handle_service_get ip rfc dec s =
     (case dec of
        Inl e \<Rightarrow> Inl e
      | Inr name \<Rightarrow>
          (case get_service (fst (nw_store s)) name of
             None \<Rightarrow> Inl (quoted ''service'' name ''not found'')
           | Some v \<Rightarrow>
               Inr (JObj ([(''name'', JStr (svc_name v)), (''selector'', jmap (svc_selector v)), (''port'', jword (svc_port v)),
                 (''protocol'', JStr (svc_protocol v)), (''endpoints'', JList (map JStr (svc_endpoints v))), (''created_at'', JStr (rfc (svc_created_at v)))] @
                 cluster_ip_field ip (nw_sd s) name @
                 (case Option.bind (nw_sd s) (\<lambda>sd. resolve sd name) of
                    None \<Rightarrow> []
                  | Some (_, eps) \<Rightarrow> [(''liveEndpoints'', JList (map (endpoint_json ip) eps))])))))"

definition handle_service_delete ::
  "'fw runner \<Rightarrow> service_entry codec \<Rightarrow> write_result \<Rightarrow> string decoded \<Rightarrow> 'fw network_state \<Rightarrow> (string, json, 'fw network_state) outcome option" where
  "handle_service_delete ipt C w dec s =
     (case dec of
        Inl e \<Rightarrow> Some (Inl e, s)
      | Inr name \<Rightarrow>
          (case delete_service C w name (nw_store s) of
             (Inl e, st) \<Rightarrow> Some (Inl e, s\<lparr>nw_store := st\<rparr>)
           | (Inr _, st) \<Rightarrow>
               (let ans = JObj [(''name'', JStr name), (''deleted'', JBool True)]
                in case nw_sd s of
                     None \<Rightarrow> Some (Inr ans, s\<lparr>nw_store := st\<rparr>)
                   | Some sd \<Rightarrow>
                       map_option (\<lambda>(_, sd', fw). (Inr ans, s\<lparr>nw_store := st, nw_sd := Some sd', nw_fw := fw\<rparr>)) (remove_service ipt name (sd, nw_fw s)))))"

definition handle_service_list :: "(ip_addr \<Rightarrow> string) \<Rightarrow> (timestamp \<Rightarrow> string) \<Rightarrow> 'fw network_state \<Rightarrow> string + json" where
  "handle_service_list ip rfc s =
     (let es = map (\<lambda>v. JObj ([(''name'', JStr (svc_name v)), (''port'', jword (svc_port v)), (''protocol'', JStr (svc_protocol v)),
                 (''endpoints'', jlen (svc_endpoints v)), (''created_at'', JStr (rfc (svc_created_at v)))] @
                 cluster_ip_field ip (nw_sd s) (svc_name v))) (list_stored_services (fst (nw_store s)))
      in Inr (JObj [(''count'', jlen es), (''services'', JList es)]))"

definition handle_service_endpoints :: "(ip_addr \<Rightarrow> string) \<Rightarrow> string decoded \<Rightarrow> 'fw network_state \<Rightarrow> string + json" where
  "handle_service_endpoints ip dec s =
     (case dec of
        Inl e \<Rightarrow> Inl e
      | Inr name \<Rightarrow>
          (case nw_sd s of
             None \<Rightarrow> Inl ''service discovery not initialized''
           | Some sd \<Rightarrow>
               (case resolve sd name of
                  None \<Rightarrow> Inl (quoted ''service'' name ''not found in service discovery'')
                | Some (vip, eps) \<Rightarrow>
                    Inr (JObj [(''name'', JStr name), (''clusterIp'', JStr (ip vip)), (''total'', jlen eps), (''healthy'', jlen (filter ep_healthy eps)),
                      (''endpoints'', JList (map (endpoint_json ip) eps))]))))"

section \<open>Ingresses\<close>

definition handle_ingress_create ::
  "ingress_entry codec \<Rightarrow> write_result \<Rightarrow> timestamp \<Rightarrow> (string \<times> ingress_rule list \<times> bool) decoded \<Rightarrow> 'fw network_state
   \<Rightarrow> (string, json, 'fw network_state) outcome" where
  "handle_ingress_create C w now dec s =
     (case dec of
        Inl e \<Rightarrow> (Inl e, s)
      | Inr (name, rules, tls) \<Rightarrow>
          (case create_ingress C w \<lparr>ing_name = name, ing_rules = rules, ing_tls = tls, ing_created_at = now\<rparr> (nw_store s) of
             (Inl e, st) \<Rightarrow> (Inl e, s\<lparr>nw_store := st\<rparr>)
           | (Inr _, st) \<Rightarrow> (Inr (JObj [(''name'', JStr name), (''tls'', JBool tls), (''success'', JBool True)]), s\<lparr>nw_store := st\<rparr>)))"

definition handle_ingress_delete ::
  "ingress_entry codec \<Rightarrow> write_result \<Rightarrow> string decoded \<Rightarrow> 'fw network_state \<Rightarrow> (string, json, 'fw network_state) outcome" where
  "handle_ingress_delete C w dec s =
     (case dec of
        Inl e \<Rightarrow> (Inl e, s)
      | Inr name \<Rightarrow>
          (case delete_ingress C w name (nw_store s) of
             (Inl e, st) \<Rightarrow> (Inl e, s\<lparr>nw_store := st\<rparr>)
           | (Inr _, st) \<Rightarrow> (Inr (JObj [(''name'', JStr name), (''deleted'', JBool True)]), s\<lparr>nw_store := st\<rparr>)))"

section \<open>Network policies\<close>

record network_policy_params =
  npp_name :: string
  npp_selector :: "(string, string) hashmap"
  npp_ingress :: "json list"
  npp_egress :: "json list"

definition handle_network_policy_create ::
  "json json_ops \<Rightarrow> 'fw runner \<Rightarrow> network_policy_entry codec \<Rightarrow> write_result \<Rightarrow> timestamp \<Rightarrow> network_policy_params decoded \<Rightarrow> 'fw network_state
   \<Rightarrow> (string, json, 'fw network_state) outcome" where
  "handle_network_policy_create J ipt C w now dec s =
     (case dec of
        Inl e \<Rightarrow> (Inl e, s)
      | Inr p \<Rightarrow>
          (case create_network_policy C w \<lparr>np_name = npp_name p, np_selector = npp_selector p, np_ingress_rules = npp_ingress p,
                  np_egress_rules = npp_egress p, np_created_at = now\<rparr> (nw_store s) of
             (Inl e, st) \<Rightarrow> (Inl e, s\<lparr>nw_store := st\<rparr>)
           | (Inr _, st) \<Rightarrow>
               (let ans = JObj [(''name'', JStr (npp_name p)), (''success'', JBool True)]
                in case nw_pe s of
                     None \<Rightarrow> (Inr ans, s\<lparr>nw_store := st\<rparr>)
                   | Some pe \<Rightarrow>
                       (case add_policy J ipt (npp_name p) (npp_selector p) (npp_ingress p) (npp_egress p) [] (pe, nw_fw s) of
                          (Inl e, pe', fw) \<Rightarrow> (Inl e, s\<lparr>nw_store := st, nw_pe := Some pe', nw_fw := fw\<rparr>)
                        | (Inr _, pe', fw) \<Rightarrow> (Inr ans, s\<lparr>nw_store := st, nw_pe := Some pe', nw_fw := fw\<rparr>)))))"

definition handle_network_policy_delete ::
  "'fw runner \<Rightarrow> network_policy_entry codec \<Rightarrow> write_result \<Rightarrow> string decoded \<Rightarrow> 'fw network_state
   \<Rightarrow> (string, json, 'fw network_state) outcome option" where
  "handle_network_policy_delete ipt C w dec s =
     (case dec of
        Inl e \<Rightarrow> Some (Inl e, s)
      | Inr name \<Rightarrow>
          (case delete_network_policy C w name (nw_store s) of
             (Inl e, st) \<Rightarrow> Some (Inl e, s\<lparr>nw_store := st\<rparr>)
           | (Inr _, st) \<Rightarrow>
               (let ans = JObj [(''name'', JStr name), (''deleted'', JBool True)]
                in case nw_pe s of
                     None \<Rightarrow> Some (Inr ans, s\<lparr>nw_store := st\<rparr>)
                   | Some pe \<Rightarrow>
                       map_option (\<lambda>(_, pe', fw). (Inr ans, s\<lparr>nw_store := st, nw_pe := Some pe', nw_fw := fw\<rparr>)) (remove_policy ipt name (pe, nw_fw s)))))"

definition handle_network_policy_list :: "(timestamp \<Rightarrow> string) \<Rightarrow> 'fw network_state \<Rightarrow> string + json" where
  "handle_network_policy_list rfc s =
     (let es = map (\<lambda>p. JObj [(''name'', JStr (np_name p)), (''selector'', jmap (np_selector p)), (''ingressRules'', jlen (np_ingress_rules p)),
                 (''egressRules'', jlen (np_egress_rules p)), (''created_at'', JStr (rfc (np_created_at p)))]) (list_stored_network_policies (fst (nw_store s)))
      in Inr (JObj [(''count'', jlen es), (''policies'', JList es),
           (''enforcement'', jopt (\<lambda>pe. JObj [(''active'', JNum (int (policy_count pe))), (''iptablesAvailable'', JBool (pe_iptables_available pe))]) (nw_pe s))]))"

section \<open>Any sequence of commands\<close>

datatype network_command =
    ServiceCreate write_result timestamp "service_create_params decoded"
  | ServiceDelete write_result "string decoded"
  | IngressCreate write_result timestamp "(string \<times> ingress_rule list \<times> bool) decoded"
  | IngressDelete write_result "string decoded"
  | PolicyCreate write_result timestamp "network_policy_params decoded"
  | PolicyDelete write_result "string decoded"

text \<open>The parameters that stay the same through a run.\<close>

record 'fw network_env =
  ne_ip :: "ip_addr \<Rightarrow> string"
  ne_json :: "json json_ops"
  ne_ipt :: "'fw runner"
  ne_services :: "service_entry codec"
  ne_ingresses :: "ingress_entry codec"
  ne_policies :: "network_policy_entry codec"

fun network_step :: "'fw network_env \<Rightarrow> 'fw network_state \<Rightarrow> network_command \<Rightarrow> 'fw network_state option" where
  "network_step E s (ServiceCreate w now dec) = Some (snd (handle_service_create (ne_ip E) (ne_services E) w now dec s))"
| "network_step E s (ServiceDelete w dec) = map_option snd (handle_service_delete (ne_ipt E) (ne_services E) w dec s)"
| "network_step E s (IngressCreate w now dec) = Some (snd (handle_ingress_create (ne_ingresses E) w now dec s))"
| "network_step E s (IngressDelete w dec) = Some (snd (handle_ingress_delete (ne_ingresses E) w dec s))"
| "network_step E s (PolicyCreate w now dec) = Some (snd (handle_network_policy_create (ne_json E) (ne_ipt E) (ne_policies E) w now dec s))"
| "network_step E s (PolicyDelete w dec) = map_option snd (handle_network_policy_delete (ne_ipt E) (ne_policies E) w dec s)"

primrec network_run :: "'fw network_env \<Rightarrow> 'fw network_state \<Rightarrow> network_command list \<Rightarrow> 'fw network_state option" where
  "network_run E s [] = Some s"
| "network_run E s (c # cs) = Option.bind (network_step E s c) (\<lambda>s1. network_run E s1 cs)"

section \<open>Services and policies have no effect\<close>

text \<open>Listing and deleting rules keep \<open>P\<close>.\<close>

definition kept_by_removal :: "'fw runner \<Rightarrow> ('fw \<Rightarrow> bool) \<Rightarrow> bool" where
  "kept_by_removal ipt P \<longleftrightarrow> (\<forall>args fw. ''-D'' \<in> set args \<or> ''-L'' \<in> set args \<longrightarrow> P fw \<longrightarrow> P (snd (ipt args fw)))"

lemma removal_keeps: "kept_by_removal ipt P \<Longrightarrow> ''-D'' \<in> set args \<or> ''-L'' \<in> set args \<Longrightarrow> P fw \<Longrightarrow> P (snd (ipt args fw))"
  unfolding kept_by_removal_def by blast

lemma remove_dnat_rules_keeps:
  assumes keep: "kept_by_removal ipt P"
  shows "remove_dnat_rules ipt vip fw = Some fw' \<Longrightarrow> P fw \<Longrightarrow> P fw'"
proof (rule remove_dnat_rules.raw_induct [of "\<lambda>i v fw fw'. i = ipt \<longrightarrow> P fw \<longrightarrow> P fw'", THEN mp, THEN mp])
  fix f i v fw fw'
  assume IH: "\<And>i v fw fw'. f i v fw = Some fw' \<Longrightarrow> i = ipt \<longrightarrow> P fw \<longrightarrow> P fw'"
    and b: "(let r = i [''-t'', ''nat'', ''-D'', IPTABLES_CHAIN, ''-d'', show_ipv4 v @ ''/32''] fw
      in if succeeded (fst r) then f i v (snd r) else Some (snd r)) = Some fw'"
  show "i = ipt \<longrightarrow> P fw \<longrightarrow> P fw'"
  proof (intro impI)
    assume i: "i = ipt" and "P fw"
    then have "P (snd (ipt [''-t'', ''nat'', ''-D'', IPTABLES_CHAIN, ''-d'', show_ipv4 v @ ''/32''] fw))"
      by (intro removal_keeps [OF keep]) simp_all
    then show "P fw'" using b IH i by (auto simp: Let_def split: if_splits)
  qed
qed simp_all

lemma remove_policy_rules_keeps:
  fixes ipt :: "'fw runner"
  assumes keep: "kept_by_removal ipt P"
  shows "remove_policy_rules ipt name fw = Some fw' \<Longrightarrow> P fw \<Longrightarrow> P fw'"
proof (rule remove_policy_rules.raw_induct [of "\<lambda>i n fw fw'. i = ipt \<longrightarrow> P fw \<longrightarrow> P fw'", THEN mp, THEN mp])
  fix f and i :: "'fw runner" and n fw fw'
  let ?r = "i [''-L'', POLICY_CHAIN, ''--line-numbers'', ''-n''] fw"
  assume IH: "\<And>i n fw fw'. f i n fw = Some fw' \<Longrightarrow> i = ipt \<longrightarrow> P fw \<longrightarrow> P fw'"
    and b: "(let r = ?r in case fst r of None \<Rightarrow> Some (snd r)
         | Some out \<Rightarrow>
             if cmd_success out
             then (case find_rule_number (tag n) (cmd_stdout out) of
                     Some num \<Rightarrow> f i n (snd (i [''-D'', POLICY_CHAIN, show_nat (unat num)] (snd r)))
                   | None \<Rightarrow> Some (snd r))
             else Some (snd r)) = Some fw'"
  show "i = ipt \<longrightarrow> P fw \<longrightarrow> P fw'"
  proof (intro impI)
    assume i: "i = ipt" and "P fw"
    then have r: "P (snd ?r)" using removal_keeps [OF keep, of "[''-L'', POLICY_CHAIN, ''--line-numbers'', ''-n'']" fw] by simp
    have "P (snd (i [''-D'', POLICY_CHAIN, show_nat (unat num)] (snd ?r)))" for num :: u32
      using removal_keeps [OF keep, of "[''-D'', POLICY_CHAIN, show_nat (unat num)]", OF _ r] i by simp
    then show "P fw'" using b IH i r by (auto simp: Let_def split: option.splits if_splits)
  qed
qed simp_all

text \<open>What every state reached by commands has: no service with an endpoint, no service in discovery that is not in the store, and \<open>P\<close> of the firewall.\<close>

definition network_inv :: "('fw \<Rightarrow> bool) \<Rightarrow> 'fw network_state \<Rightarrow> bool" where
  "network_inv P s \<longleftrightarrow> P (nw_fw s) \<and>
     (\<forall>sd name r. nw_sd s = Some sd \<longrightarrow> hm_get (services sd) name = Some r \<longrightarrow>
        sr_endpoints r = [] \<and> get_service (fst (nw_store s)) name \<noteq> None)"

lemma create_service_effect:
  assumes "create_service C w e st = (r, st')"
  shows "get_service (fst st') n = (if n = svc_name e \<and> r = Inr () then Some e else get_service (fst st) n)"
  using assms by (cases "hm_contains (entries (svc_map (fst st))) (svc_name e)")
    (auto simp: create_service_def store_create_def get_service_def store_get_def snapshot_def put_def)

lemma delete_service_effect:
  assumes "delete_service C w name st = (r, st')"
  shows "get_service (fst st') n = (if n = name \<and> r = Inr () then None else get_service (fst st) n)"
  using assms by (cases "hm_get (entries (svc_map (fst st))) name")
    (auto simp: delete_service_def store_remove_def get_service_def store_get_def snapshot_def)

lemma register_with_effect:
  assumes "register_with p sd0 = (v, Some sd)" "hm_get (services sd) name = Some r"
  shows "(name = sc_name p \<and> sr_endpoints r = []) \<or> (\<exists>sd1. sd0 = Some sd1 \<and> hm_get (services sd1) name = Some r)"
  using assms by (auto simp: register_with_def register_service_def allocate_vip_def split: option.splits if_splits)

lemma service_create_inv:
  assumes inv: "network_inv P s"
  shows "network_inv P (snd (handle_service_create ip C w now dec s))"
proof (cases dec)
  case (Inr p)
  let ?e = "\<lparr>svc_name = sc_name p, svc_selector = sc_selector p, svc_port = sc_port p, svc_protocol = sc_protocol p,
      svc_endpoints = [], svc_created_at = now\<rparr>"
  obtain r st where c: "create_service C w ?e (nw_store s) = (r, st)" by (metis surj_pair)
  obtain v sd where reg: "register_with p (nw_sd s) = (v, sd)" by (metis surj_pair)
  show ?thesis
  proof (cases r)
    case (Inl e)
    then show ?thesis using inv create_service_effect [OF c] by (simp add: handle_service_create_def Inr c network_inv_def)
  next
    case Ok: (Inr u)
    then have state: "snd (handle_service_create ip C w now dec s) = s\<lparr>nw_store := st, nw_sd := sd\<rparr>"
      by (simp add: handle_service_create_def Inr c reg)
    have "sr_endpoints r' = [] \<and> get_service (fst st) name \<noteq> None"
      if "sd = Some sd'" "hm_get (services sd') name = Some r'" for sd' name r'
      using register_with_effect [of p "nw_sd s" v sd' name r'] that reg inv create_service_effect [OF c] Ok
      by (auto simp: network_inv_def)
    then show ?thesis using inv unfolding state by (simp add: network_inv_def)
  qed
qed (use assms in \<open>simp add: handle_service_create_def\<close>)

lemma service_delete_inv:
  assumes "network_inv P s" "kept_by_removal ipt P" "handle_service_delete ipt C w dec s = Some (r, s')"
  shows "network_inv P s'"
proof (cases dec)
  case (Inr name)
  obtain q st where d: "delete_service C w name (nw_store s) = (q, st)" by (metis surj_pair)
  note other = delete_service_effect [OF d]
  show ?thesis
  proof (cases q)
    case (Inl e)
    then show ?thesis using assms Inr d other by (auto simp: handle_service_delete_def network_inv_def)
  next
    case Ok: (Inr u)
    show ?thesis
    proof (cases "nw_sd s")
      case None
      then show ?thesis using assms Inr Ok d by (auto simp: handle_service_delete_def network_inv_def)
    next
      case (Some sd)
      obtain x sd' fw where rm: "remove_service ipt name (sd, nw_fw s) = Some (x, sd', fw)"
        and s': "s' = s\<lparr>nw_store := st, nw_sd := Some sd', nw_fw := fw\<rparr>"
        using assms(3) Inr Ok d Some by (auto simp: handle_service_delete_def)
      have "P fw \<and> (\<forall>n. hm_get (services sd') n = (if n = name then None else hm_get (services sd) n))"
        using rm assms(1) remove_dnat_rules_keeps [OF assms(2)]
        by (auto simp: remove_service_def network_inv_def Let_def split: option.splits if_splits)
      then show ?thesis using assms(1) Some other by (auto simp: s' network_inv_def)
    qed
  qed
qed (use assms in \<open>simp add: handle_service_delete_def\<close>)

text \<open>Ingresses and policies do not touch the stored services.\<close>

lemma other_entries_kept:
  "svc_map (fst (snd (create_ingress CI w i st))) = svc_map (fst st)" "svc_map (fst (snd (delete_ingress CI w n st))) = svc_map (fst st)"
  "svc_map (fst (snd (create_network_policy CP w e st))) = svc_map (fst st)" "svc_map (fst (snd (delete_network_policy CP w n st))) = svc_map (fst st)"
  by (auto simp: create_ingress_def delete_ingress_def create_network_policy_def delete_network_policy_def split: prod.split option.split)

lemma network_inv_same_services:
  "network_inv P s \<Longrightarrow> svc_map (fst st) = svc_map (fst (nw_store s)) \<Longrightarrow> P fw \<Longrightarrow> network_inv P (s\<lparr>nw_store := st, nw_pe := pe, nw_fw := fw\<rparr>)"
  by (simp add: network_inv_def get_service_def)

lemma network_inv_store: "network_inv P s \<Longrightarrow> svc_map (fst st) = svc_map (fst (nw_store s)) \<Longrightarrow> network_inv P (s\<lparr>nw_store := st\<rparr>)"
  by (simp add: network_inv_def get_service_def)

lemma ingress_inv:
  assumes "network_inv P s"
  shows "network_inv P (snd (handle_ingress_create C w now dec s))" "network_inv P (snd (handle_ingress_delete C w dec' s))"
  using assms by (auto simp: handle_ingress_create_def handle_ingress_delete_def case_prod_beta other_entries_kept split: sum.split intro!: network_inv_store)

text \<open>The engine is given no workloads, so it has nothing to apply the policy to.\<close>

lemma policy_without_workloads: "snd (snd (add_policy J ipt name sel ing eg [] st)) = snd st"
  by (simp add: add_policy_def compile_policy_def Let_def find_matching_ips_def apply_policy_rules_def)

lemma policy_create_fw: "nw_fw (snd (handle_network_policy_create J ipt C w now dec s)) = nw_fw s"
  by (auto simp: handle_network_policy_create_def Let_def case_prod_beta policy_without_workloads split: sum.split option.split)

lemma policy_create_inv:
  assumes "network_inv P s"
  shows "network_inv P (snd (handle_network_policy_create J ipt C w now dec s))"
proof -
  let ?s = "snd (handle_network_policy_create J ipt C w now dec s)"
  have "nw_sd ?s = nw_sd s \<and> svc_map (fst (nw_store ?s)) = svc_map (fst (nw_store s))"
    by (auto simp: handle_network_policy_create_def Let_def case_prod_beta other_entries_kept split: sum.split option.split)
  then show ?thesis using assms policy_create_fw [of J ipt C w now dec s] by (simp add: network_inv_def get_service_def)
qed

lemma policy_delete_inv:
  assumes "network_inv P s" "kept_by_removal ipt P" "handle_network_policy_delete ipt C w dec s = Some (r, s')"
  shows "network_inv P s'"
proof (cases dec)
  case (Inr name)
  obtain q st where d: "delete_network_policy C w name (nw_store s) = (q, st)" by (metis surj_pair)
  have same: "svc_map (fst st) = svc_map (fst (nw_store s))" using other_entries_kept(4) [of C w name "nw_store s"] d by simp
  have keep: "P fw" if "remove_policy ipt name (pe, nw_fw s) = Some (x, pe', fw)" for pe x pe' fw
    using that assms(1) remove_policy_rules_keeps [OF assms(2)]
    by (auto simp: remove_policy_def network_inv_def Let_def split: option.splits if_splits)
  show ?thesis using assms(1,3) Inr d same
    by (auto simp: handle_network_policy_delete_def Let_def split: sum.splits option.splits prod.splits
        intro!: network_inv_store network_inv_same_services dest: keep)
qed (use assms in \<open>simp add: handle_network_policy_delete_def\<close>)

lemma network_step_inv:
  assumes "network_inv P s" "kept_by_removal (ne_ipt E) P" "network_step E s c = Some s'"
  shows "network_inv P s'"
  using assms
  by (cases c) (auto simp: service_create_inv ingress_inv policy_create_inv intro: service_delete_inv policy_delete_inv)

lemma network_run_inv:
  "network_run E s cs = Some s' \<Longrightarrow> network_inv P s \<Longrightarrow> kept_by_removal (ne_ipt E) P \<Longrightarrow> network_inv P s'"
  by (induction cs arbitrary: s) (auto simp: bind_eq_Some_conv dest: network_step_inv)

text \<open>
  Services get no backends and policies no rules: after any commands that return, from a node's start on whatever store, no service has an endpoint, every
  service of discovery is in the store, and whatever holds of the firewall after the start and is kept by listing and deleting rules still holds, so no
  rule has been added.
\<close>

theorem network_commands_inert:
  assumes "network_run E (network_start (ne_ipt E) (ne_services E) (ne_ingresses E) (ne_policies E) sp d fw) cs = Some s"
    and "kept_by_removal (ne_ipt E) P" and "P (nw_fw (network_start (ne_ipt E) (ne_services E) (ne_ingresses E) (ne_policies E) sp d fw))"
  shows "P (nw_fw s) \<and> (\<forall>sd name vip eps. nw_sd s = Some sd \<longrightarrow> resolve sd name = Some (vip, eps) \<longrightarrow>
     eps = [] \<and> get_service (fst (nw_store s)) name \<noteq> None)"
proof -
  have "network_inv P (network_start (ne_ipt E) (ne_services E) (ne_ingresses E) (ne_policies E) sp d fw)"
    using assms(3) by (auto simp: network_inv_def network_start_def sd_new_def split: prod.splits)
  then have inv: "network_inv P s" using network_run_inv [OF assms(1)] assms(2) by blast
  then show ?thesis by (auto simp: network_inv_def resolve_def)
qed

text \<open>After a restart no stored service has an address and no stored policy is enforced.\<close>

lemma restart_forgets:
  "\<exists>sd pe. nw_sd (network_start ipt CS CI CP sp d fw) = Some sd \<and> resolve sd name = None \<and>
     nw_pe (network_start ipt CS CI CP sp d fw) = Some pe \<and> policy_count pe = 0"
  by (auto simp: network_start_def sd_new_def engine_new_def resolve_def policy_count_def split: prod.split)

end
