(* ===== verification/Ingress_Proxy.thy ===== *)
theory Ingress_Proxy
  imports Node_Stores
begin

text \<open>
  The reverse proxy of a node, \<open>crates/clawnode/src/ingress_proxy.rs\<close>: the route table made from ingress rules, the choice of a route and the forwarding of a
  request. Reading a body and the HTTP client are arguments; the accept loop is not modelled.
\<close>

section \<open>Routes\<close>

record ingress_route =
  ir_host :: string
  path_prefix :: string
  backend_addr :: string
  ingress_name :: string

record ingress_route_input =
  iri_name :: string
  iri_rules :: "ingress_rule list"

text \<open>A rule whose service has no address is skipped.\<close>

definition rule_route :: "(string, string) hashmap \<Rightarrow> string \<Rightarrow> ingress_rule \<Rightarrow> ingress_route list" where
  "rule_route ips name r =
     (case hm_get ips (rule_service r) of
        None \<Rightarrow> []
      | Some addr \<Rightarrow> [\<lparr>ir_host = rule_host r, path_prefix = rule_path r, backend_addr = addr, ingress_name = name\<rparr>])"

definition build_route_table :: "ingress_route_input list \<Rightarrow> (string, string) hashmap \<Rightarrow> ingress_route list" where
  "build_route_table ins ips = concat (map (\<lambda>i. concat (map (rule_route ips (iri_name i)) (iri_rules i))) ins)"

section \<open>Requests\<close>

record http_request =
  host_header :: "string option"
  req_method :: string
  req_path :: string
  path_and_query :: "string option"
  req_headers :: "(string \<times> string) list"
  req_body :: "string option"

record http_response =
  resp_status :: nat
  resp_headers :: "(string \<times> string) list"
  resp_body :: string

text \<open>\<open>Iterator::max_by_key\<close>: the last of the elements with the greatest key.\<close>

fun max_by_key :: "('a \<Rightarrow> nat) \<Rightarrow> 'a list \<Rightarrow> 'a option" where
  "max_by_key f [] = None"
| "max_by_key f (x # xs) = (case max_by_key f xs of None \<Rightarrow> Some x | Some y \<Rightarrow> if f x \<le> f y then Some y else Some x)"

text \<open>The part of the header before the first colon; a header that is missing or not a text counts as empty.\<close>

definition request_host :: "http_request \<Rightarrow> string" where
  "request_host q = hd (split_on CHR '':'' (case host_header q of None \<Rightarrow> [] | Some h \<Rightarrow> h))"

definition route_matches :: "string \<Rightarrow> string \<Rightarrow> ingress_route \<Rightarrow> bool" where
  "route_matches host p r \<longleftrightarrow> ir_host r = host \<and> has_prefix (path_prefix r) p"

definition find_route :: "ingress_route list \<Rightarrow> http_request \<Rightarrow> ingress_route option" where
  "find_route rs q = max_by_key (\<lambda>r. length (path_prefix r)) (filter (route_matches (request_host q) (req_path q)) rs)"

text \<open>
  The client gets a method, an address and a body, nothing else, and answers with a status and a body, which may fail to arrive, or an error text. A method that the
  client does not know becomes \<open>GET\<close>, and a status that the server does not know 502: \<open>known\<close> and \<open>valid_status\<close>.
\<close>

record client =
  send :: "string \<Rightarrow> string \<Rightarrow> string \<Rightarrow> string + nat \<times> string option"
  known_method :: "string \<Rightarrow> bool"
  valid_status :: "nat \<Rightarrow> bool"

definition proxy_to_backend :: "client \<Rightarrow> ingress_route \<Rightarrow> http_request \<Rightarrow> http_response" where
  "proxy_to_backend c r q =
     (let url = ''http://'' @ backend_addr r @ (case path_and_query q of None \<Rightarrow> ''/'' | Some pq \<Rightarrow> pq)
      in case req_body q of
           None \<Rightarrow> \<lparr>resp_status = 400, resp_headers = [], resp_body = ''failed to read request body''\<rparr>
         | Some b \<Rightarrow>
             (case send c (if known_method c (req_method q) then req_method q else ''GET'') url b of
                Inr (st, body) \<Rightarrow>
                  \<lparr>resp_status = (if valid_status c st then st else 502), resp_headers = [], resp_body = (case body of None \<Rightarrow> [] | Some t \<Rightarrow> t)\<rparr>
              | Inl e \<Rightarrow> \<lparr>resp_status = 502, resp_headers = [], resp_body = ''backend unavailable: '' @ e\<rparr>))"

definition handle_request :: "client \<Rightarrow> ingress_route list \<Rightarrow> http_request \<Rightarrow> http_response" where
  "handle_request c rs q =
     (case find_route rs q of
        None \<Rightarrow> \<lparr>resp_status = 404, resp_headers = [], resp_body = ''no route for host='' @ request_host q @ '' path='' @ req_path q\<rparr>
      | Some r \<Rightarrow> proxy_to_backend c r q)"

section \<open>The chosen route\<close>

lemma max_by_key_None [simp]: "max_by_key f xs = None \<longleftrightarrow> xs = []"
  by (cases xs) (auto split: option.split)

lemma max_by_key_Some: "max_by_key f xs = Some y \<Longrightarrow> y \<in> set xs \<and> (\<forall>x \<in> set xs. f x \<le> f y)"
  by (induction xs arbitrary: y) (fastforce split: option.splits if_splits)+

lemma rule_route_member:
  "r \<in> set (rule_route ips name u) \<longleftrightarrow>
     hm_get ips (rule_service u) = Some (backend_addr r) \<and> ir_host r = rule_host u \<and> path_prefix r = rule_path u \<and> ingress_name r = name"
  by (cases "hm_get ips (rule_service u)") (auto simp: rule_route_def intro: ingress_route.equality)

lemma route_table_member:
  "r \<in> set (build_route_table ins ips) \<longleftrightarrow>
     (\<exists>i \<in> set ins. \<exists>u \<in> set (iri_rules i). hm_get ips (rule_service u) = Some (backend_addr r) \<and> ir_host r = rule_host u \<and>
        path_prefix r = rule_path u \<and> ingress_name r = iri_name i)"
  by (auto simp: build_route_table_def rule_route_member)

text \<open>
  Routing is exact: a request is refused with 404 if and only if no ingress rule with a known service has its host and a prefix of its path; otherwise it goes
  to the backend of such a rule with the longest prefix.
\<close>

theorem routing_exact:
  "find_route (build_route_table ins ips) q = None \<longleftrightarrow>
     \<not> (\<exists>i \<in> set ins. \<exists>u \<in> set (iri_rules i). hm_get ips (rule_service u) \<noteq> None \<and> rule_host u = request_host q \<and> has_prefix (rule_path u) (req_path q))"
  "find_route (build_route_table ins ips) q = Some r \<Longrightarrow>
     (\<exists>i \<in> set ins. \<exists>u \<in> set (iri_rules i). hm_get ips (rule_service u) = Some (backend_addr r) \<and> rule_host u = request_host q \<and>
        rule_path u = path_prefix r \<and> has_prefix (rule_path u) (req_path q)) \<and>
     (\<forall>i \<in> set ins. \<forall>u \<in> set (iri_rules i). hm_get ips (rule_service u) \<noteq> None \<longrightarrow> rule_host u = request_host q \<longrightarrow>
        has_prefix (rule_path u) (req_path q) \<longrightarrow> length (rule_path u) \<le> length (path_prefix r))"
proof -
  let ?rs = "build_route_table ins ips" and ?m = "route_matches (request_host q) (req_path q)"
  let ?rule = "\<lambda>u. hm_get ips (rule_service u) \<noteq> None \<and> rule_host u = request_host q \<and> has_prefix (rule_path u) (req_path q)"
  have route: "\<exists>r \<in> set ?rs. ?m r \<and> path_prefix r = rule_path u" if i: "i \<in> set ins" "u \<in> set (iri_rules i)" and u: "?rule u" for i u
  proof -
    obtain a where a: "hm_get ips (rule_service u) = Some a" using u by blast
    let ?r = "\<lparr>ir_host = rule_host u, path_prefix = rule_path u, backend_addr = a, ingress_name = iri_name i\<rparr>"
    have "?r \<in> set ?rs" using i a unfolding route_table_member by auto
    moreover have "?m ?r" using u by (simp add: route_matches_def)
    ultimately show ?thesis by (intro bexI [of _ ?r]) simp_all
  qed
  have rule: "\<exists>i \<in> set ins. \<exists>u \<in> set (iri_rules i). hm_get ips (rule_service u) = Some (backend_addr r) \<and> rule_host u = request_host q \<and>
      rule_path u = path_prefix r \<and> has_prefix (rule_path u) (req_path q)" if "r \<in> set ?rs" "?m r" for r
    using that unfolding route_table_member route_matches_def by metis
  have "filter ?m ?rs = [] \<longleftrightarrow> \<not> (\<exists>i \<in> set ins. \<exists>u \<in> set (iri_rules i). ?rule u)"
  proof
    assume "filter ?m ?rs = []"
    then show "\<not> (\<exists>i \<in> set ins. \<exists>u \<in> set (iri_rules i). ?rule u)" using route by (force simp: filter_empty_conv)
  next
    assume "\<not> (\<exists>i \<in> set ins. \<exists>u \<in> set (iri_rules i). ?rule u)"
    then show "filter ?m ?rs = []" using rule by (force simp: filter_empty_conv)
  qed
  then show "find_route ?rs q = None \<longleftrightarrow> \<not> (\<exists>i \<in> set ins. \<exists>u \<in> set (iri_rules i). ?rule u)"
    by (simp add: find_route_def)
  assume "find_route ?rs q = Some r"
  then have r: "r \<in> set ?rs" "?m r" and best: "\<And>r'. r' \<in> set ?rs \<Longrightarrow> ?m r' \<Longrightarrow> length (path_prefix r') \<le> length (path_prefix r)"
    using max_by_key_Some [of "\<lambda>r. length (path_prefix r)" "filter ?m ?rs" r] by (auto simp: find_route_def)
  moreover have "length (rule_path u) \<le> length (path_prefix r)" if "i \<in> set ins" "u \<in> set (iri_rules i)" "?rule u" for i u
    using route [OF that] best by metis
  ultimately show "(\<exists>i \<in> set ins. \<exists>u \<in> set (iri_rules i). hm_get ips (rule_service u) = Some (backend_addr r) \<and> rule_host u = request_host q \<and>
        rule_path u = path_prefix r \<and> has_prefix (rule_path u) (req_path q)) \<and>
     (\<forall>i \<in> set ins. \<forall>u \<in> set (iri_rules i). hm_get ips (rule_service u) \<noteq> None \<longrightarrow> rule_host u = request_host q \<longrightarrow>
        has_prefix (rule_path u) (req_path q) \<longrightarrow> length (rule_path u) \<le> length (path_prefix r))"
    using rule [OF r] by blast
qed

section \<open>What forwarding loses\<close>

text \<open>A prefix is a prefix of the text: a rule for \<open>/api\<close> also takes the requests for \<open>/apiary\<close>.\<close>

lemma prefix_is_textual: "route_matches ''h'' ''/apiary'' \<lparr>ir_host = ''h'', path_prefix = ''/api'', backend_addr = ''b'', ingress_name = ''i''\<rparr>"
  by (simp add: route_matches_def has_prefix_def)

text \<open>The headers of a request do not reach the backend (only the host picks the route), and no header of the backend reaches the client.\<close>

lemma headers_are_dropped:
  "handle_request c rs (q\<lparr>req_headers := hs\<rparr>) = handle_request c rs q" "resp_headers (handle_request c rs q) = []"
  by (auto simp: handle_request_def proxy_to_backend_def find_route_def request_host_def Let_def split: option.split sum.split prod.split)

text \<open>The host is compared as written, so a host in capitals has no route.\<close>

lemma host_case_sensitive:
  "find_route [\<lparr>ir_host = ''a.io'', path_prefix = ''/'', backend_addr = ''b'', ingress_name = ''i''\<rparr>]
     \<lparr>host_header = Some ''A.io'', req_method = ''GET'', req_path = ''/'', path_and_query = Some ''/'', req_headers = [], req_body = Some []\<rparr> = None"
  by (simp add: find_route_def route_matches_def request_host_def)

end
