(* ===== verification/Container_Config.thy ===== *)
theory Container_Config
  imports Decimal Json_Store
begin

text \<open>
  Containers of the compute crate: configurations and their validation (\<open>crates/claw-compute/src/container/config.rs\<close>), identifiers and errors
  (\<open>error.rs\<close>), states and summaries (\<open>status.rs\<close>), the runtime interface with its derived operations (\<open>runtime.rs\<close>) and the translation to
  Docker's terms (\<open>docker.rs\<close>). Sizes wrap as in the release build; a floating-point number of CPUs is converted by an argument; Docker's client is
  the interface it is used through.
\<close>

section \<open>Errors and identifiers\<close>

datatype container_error =
    ConnectionFailed string
  | NotFound string
  | ImageNotFound string
  | CreateFailed string
  | StartFailed string string
  | StopFailed string string
  | RemoveFailed string string
  | GpuNotAvailable string
  | InvalidConfig string
  | ResourceLimitExceeded string string string
  | Timeout u64
  | Internal string

datatype container_id = ContainerId (as_str: string)

definition is_alnum :: "char \<Rightarrow> bool" where
  "is_alnum c \<longleftrightarrow> (let n = (of_char c :: nat) in 48 \<le> n \<and> n \<le> 57 \<or> 65 \<le> n \<and> n \<le> 90 \<or> 97 \<le> n \<and> n \<le> 122)"

definition is_hexdigit :: "char \<Rightarrow> bool" where
  "is_hexdigit c \<longleftrightarrow> (let n = (of_char c :: nat) in 48 \<le> n \<and> n \<le> 57 \<or> 65 \<le> n \<and> n \<le> 70 \<or> 97 \<le> n \<and> n \<le> 102)"

definition name_char :: "char \<Rightarrow> bool" where
  "name_char c \<longleftrightarrow> is_alnum c \<or> c = CHR ''_'' \<or> c = CHR ''-'' \<or> c = CHR ''.''"

definition container_id_new :: "string \<Rightarrow> container_error + container_id" where
  "container_id_new i =
     (if i = [] then Inl (InvalidConfig ''container ID cannot be empty'')
      else if \<not> list_all is_hexdigit i \<and> \<not> list_all name_char i then Inl (InvalidConfig (''invalid container ID: '' @ i))
      else Inr (ContainerId i))"

definition short_id :: "container_id \<Rightarrow> string" where
  "short_id i = (if length (as_str i) \<ge> 12 then take 12 (as_str i) else as_str i)"

section \<open>GPUs\<close>

record gpu_device =
  gd_index :: u32
  gd_uuid :: "string option"
  gd_memory_limit :: u64
  compute_capability :: "string option"
  mig_enabled :: bool
  mig_device_id :: "string option"

definition by_index :: "u32 \<Rightarrow> gpu_device" where
  "by_index i = \<lparr>gd_index = i, gd_uuid = None, gd_memory_limit = 0, compute_capability = None, mig_enabled = False, mig_device_id = None\<rparr>"

definition by_uuid :: "string \<Rightarrow> gpu_device" where
  "by_uuid u = (by_index 0)\<lparr>gd_uuid := Some u\<rparr>"

definition with_memory_limit :: "u64 \<Rightarrow> gpu_device \<Rightarrow> gpu_device" where
  "with_memory_limit l d = d\<lparr>gd_memory_limit := l\<rparr>"

definition with_memory_limit_gb :: "u64 \<Rightarrow> gpu_device \<Rightarrow> gpu_device" where
  "with_memory_limit_gb g d = d\<lparr>gd_memory_limit := g * 1024 * 1024 * 1024\<rparr>"

definition with_compute_capability :: "string \<Rightarrow> gpu_device \<Rightarrow> gpu_device" where
  "with_compute_capability c d = d\<lparr>compute_capability := Some c\<rparr>"

definition with_mig :: "string \<Rightarrow> gpu_device \<Rightarrow> gpu_device" where
  "with_mig i d = d\<lparr>mig_enabled := True, mig_device_id := Some i\<rparr>"

definition device_specifier :: "gpu_device \<Rightarrow> string" where
  "device_specifier d =
     (case gd_uuid d of
        Some u \<Rightarrow> u
      | None \<Rightarrow>
          if mig_enabled d
          then (case mig_device_id d of Some m \<Rightarrow> ''MIG-'' @ m | None \<Rightarrow> show_nat (unat (gd_index d)))
          else show_nat (unat (gd_index d)))"

record gpu_requirements =
  gr_devices :: "gpu_device list"
  gr_capabilities :: "string list"
  gr_driver_version :: "string option"
  gr_cuda_version :: "string option"

definition gpu_none :: gpu_requirements where
  "gpu_none = \<lparr>gr_devices = [], gr_capabilities = [], gr_driver_version = None, gr_cuda_version = None\<rparr>"

definition gpu_devices :: "gpu_device list \<Rightarrow> gpu_requirements" where
  "gpu_devices ds = \<lparr>gr_devices = ds, gr_capabilities = [''compute'', ''utility''], gr_driver_version = None, gr_cuda_version = None\<rparr>"

definition gpu_all :: gpu_requirements where
  "gpu_all = \<lparr>gr_devices = [], gr_capabilities = [''compute'', ''utility''], gr_driver_version = None, gr_cuda_version = None\<rparr>"

definition gpu_count_of :: "u32 \<Rightarrow> gpu_requirements" where
  "gpu_count_of n = \<lparr>gr_devices = map (\<lambda>i. by_index (of_nat i)) [0..<unat n], gr_capabilities = [''compute'', ''utility''], gr_driver_version = None,
     gr_cuda_version = None\<rparr>"

definition with_capabilities :: "string list \<Rightarrow> gpu_requirements \<Rightarrow> gpu_requirements" where
  "with_capabilities cs g = g\<lparr>gr_capabilities := cs\<rparr>"

definition with_driver_version :: "string \<Rightarrow> gpu_requirements \<Rightarrow> gpu_requirements" where
  "with_driver_version v g = g\<lparr>gr_driver_version := Some v\<rparr>"

definition with_cuda_version :: "string \<Rightarrow> gpu_requirements \<Rightarrow> gpu_requirements" where
  "with_cuda_version v g = g\<lparr>gr_cuda_version := Some v\<rparr>"

definition gpu_is_enabled :: "gpu_requirements \<Rightarrow> bool" where
  "gpu_is_enabled g \<longleftrightarrow> gr_capabilities g \<noteq> [] \<or> gr_devices g \<noteq> []"

section \<open>Memory and CPUs\<close>

record memory_config =
  mc_limit :: u64
  mc_reservation :: u64
  mc_swap :: int
  mc_swappiness :: "u8 option"
  oom_kill_disable :: bool

definition limit_bytes :: "u64 \<Rightarrow> memory_config" where
  "limit_bytes b = \<lparr>mc_limit = b, mc_reservation = 0, mc_swap = 0, mc_swappiness = None, oom_kill_disable = False\<rparr>"

definition limit_mb :: "u64 \<Rightarrow> memory_config" where
  "limit_mb m = limit_bytes (m * 1024 * 1024)"

definition limit_gb :: "u64 \<Rightarrow> memory_config" where
  "limit_gb g = limit_bytes (g * 1024 * 1024 * 1024)"

definition with_reservation_bytes :: "u64 \<Rightarrow> memory_config \<Rightarrow> memory_config" where
  "with_reservation_bytes b m = m\<lparr>mc_reservation := b\<rparr>"

definition with_swap_bytes :: "int \<Rightarrow> memory_config \<Rightarrow> memory_config" where
  "with_swap_bytes b m = m\<lparr>mc_swap := b\<rparr>"

definition with_no_swap :: "memory_config \<Rightarrow> memory_config" where
  "with_no_swap m = m\<lparr>mc_swap := - 1\<rparr>"

definition with_swappiness :: "u8 \<Rightarrow> memory_config \<Rightarrow> memory_config" where
  "with_swappiness v m = m\<lparr>mc_swappiness := Some (min v 100)\<rparr>"

definition with_oom_kill_disabled :: "memory_config \<Rightarrow> memory_config" where
  "with_oom_kill_disabled m = m\<lparr>oom_kill_disable := True\<rparr>"

definition memory_default :: memory_config where
  "memory_default = limit_bytes 0"

record cpu_config =
  cpu_shares :: u64
  cpu_quota :: u64
  cpu_period :: u64
  cpuset_cpus :: "string option"
  cpuset_mems :: "string option"
  nano_cpus :: u64

definition cpu_default :: cpu_config where
  "cpu_default = \<lparr>cpu_shares = 1024, cpu_quota = 0, cpu_period = 100000, cpuset_cpus = None, cpuset_mems = None, nano_cpus = 0\<rparr>"

definition cpu_cpus :: "(f64 \<Rightarrow> u64) \<Rightarrow> f64 \<Rightarrow> cpu_config" where
  "cpu_cpus nano x = cpu_default\<lparr>nano_cpus := nano x\<rparr>"

definition cpu_pinned :: "string \<Rightarrow> cpu_config" where
  "cpu_pinned s = cpu_default\<lparr>cpuset_cpus := Some s\<rparr>"

definition with_shares :: "u64 \<Rightarrow> cpu_config \<Rightarrow> cpu_config" where
  "with_shares n c = c\<lparr>cpu_shares := n\<rparr>"

definition with_quota :: "u64 \<Rightarrow> u64 \<Rightarrow> cpu_config \<Rightarrow> cpu_config" where
  "with_quota q p c = c\<lparr>cpu_quota := q, cpu_period := p\<rparr>"

definition with_numa_nodes :: "string \<Rightarrow> cpu_config \<Rightarrow> cpu_config" where
  "with_numa_nodes n c = c\<lparr>cpuset_mems := Some n\<rparr>"

section \<open>Networks, mounts, restarts and health\<close>

datatype network_mode = Bridge | Host | NoNetwork | ContainerNet string | Custom string

fun as_docker_mode :: "network_mode \<Rightarrow> string" where
  "as_docker_mode Bridge = ''bridge''"
| "as_docker_mode Host = ''host''"
| "as_docker_mode NoNetwork = ''none''"
| "as_docker_mode (ContainerNet i) = ''container:'' @ i"
| "as_docker_mode (Custom n) = n"

datatype mount_type = Bind | Volume | Tmpfs

record volume_mount =
  vm_source :: string
  vm_target :: string
  vm_read_only :: bool
  vm_type :: mount_type

definition mount_bind :: "string \<Rightarrow> string \<Rightarrow> volume_mount" where
  "mount_bind s t = \<lparr>vm_source = s, vm_target = t, vm_read_only = False, vm_type = Bind\<rparr>"

definition mount_volume :: "string \<Rightarrow> string \<Rightarrow> volume_mount" where
  "mount_volume n t = \<lparr>vm_source = n, vm_target = t, vm_read_only = False, vm_type = Volume\<rparr>"

definition mount_tmpfs :: "string \<Rightarrow> volume_mount" where
  "mount_tmpfs t = \<lparr>vm_source = [], vm_target = t, vm_read_only = False, vm_type = Tmpfs\<rparr>"

definition mount_read_only :: "volume_mount \<Rightarrow> volume_mount" where
  "mount_read_only v = v\<lparr>vm_read_only := True\<rparr>"

datatype restart_policy = RestartNo | RestartAlways | OnFailure (max_retries: u32) | UnlessStopped

record health_check =
  hc_test :: "string list"
  interval_secs :: u32
  hc_timeout_secs :: u32
  hc_retries :: u32
  start_period_secs :: u32

definition health_cmd :: "string list \<Rightarrow> health_check" where
  "health_cmd c = \<lparr>hc_test = c, interval_secs = 30, hc_timeout_secs = 30, hc_retries = 3, start_period_secs = 0\<rparr>"

definition health_default :: health_check where
  "health_default = health_cmd [''CMD'', ''true'']"

section \<open>Configurations\<close>

record container_config =
  co_name :: string
  co_image :: string
  co_command :: "string list option"
  co_entrypoint :: "string list option"
  co_env :: "(string, string) hashmap"
  co_working_dir :: "string option"
  co_user :: "string option"
  co_memory :: memory_config
  co_cpu :: cpu_config
  co_gpu :: gpu_requirements
  co_network_mode :: network_mode
  co_volumes :: "volume_mount list"
  co_ports :: "(u16, u16) hashmap"
  co_labels :: "(string, string) hashmap"
  co_restart_policy :: restart_policy
  co_privileged :: bool
  co_auto_remove :: bool
  co_hostname :: "string option"
  co_stop_timeout :: "u32 option"
  co_healthcheck :: "health_check option"

definition container_config_new :: "string \<Rightarrow> string \<Rightarrow> container_config" where
  "container_config_new n i = \<lparr>co_name = n, co_image = i, co_command = None, co_entrypoint = None, co_env = [], co_working_dir = None, co_user = None,
     co_memory = memory_default, co_cpu = cpu_default, co_gpu = gpu_none, co_network_mode = Bridge, co_volumes = [], co_ports = [], co_labels = [],
     co_restart_policy = RestartNo, co_privileged = False, co_auto_remove = False, co_hostname = None, co_stop_timeout = None, co_healthcheck = None\<rparr>"

definition co_with_env :: "string \<Rightarrow> string \<Rightarrow> container_config \<Rightarrow> container_config" where
  "co_with_env k v c = c\<lparr>co_env := hm_insert k v (co_env c)\<rparr>"

definition co_with_envs :: "(string, string) hashmap \<Rightarrow> container_config \<Rightarrow> container_config" where
  "co_with_envs es c = c\<lparr>co_env := fold (\<lambda>(k, v). hm_insert k v) es (co_env c)\<rparr>"

definition co_with_volume :: "volume_mount \<Rightarrow> container_config \<Rightarrow> container_config" where
  "co_with_volume v c = c\<lparr>co_volumes := co_volumes c @ [v]\<rparr>"

definition co_with_port :: "u16 \<Rightarrow> u16 \<Rightarrow> container_config \<Rightarrow> container_config" where
  "co_with_port cp hp c = c\<lparr>co_ports := hm_insert cp hp (co_ports c)\<rparr>"

definition co_with_label :: "string \<Rightarrow> string \<Rightarrow> container_config \<Rightarrow> container_config" where
  "co_with_label k v c = c\<lparr>co_labels := hm_insert k v (co_labels c)\<rparr>"

definition validate_config :: "container_config \<Rightarrow> container_error + unit" where
  "validate_config c =
     (if co_name c = [] then Inl (InvalidConfig ''container name cannot be empty'')
      else if co_image c = [] then Inl (InvalidConfig ''image cannot be empty'')
      else if \<not> list_all name_char (co_name c) then Inl (InvalidConfig (''invalid container name: '' @ co_name c))
      else if mc_limit (co_memory c) < mc_reservation (co_memory c) \<and> 0 < mc_limit (co_memory c)
      then Inl (InvalidConfig ''memory reservation cannot exceed limit'')
      else Inr ())"

end
