(* ===== verification/Docker_Runtime.thy ===== *)
theory Docker_Runtime
  imports Container_Config
begin

text \<open>
  States and summaries of containers (\<open>crates/claw-compute/src/container/status.rs\<close>), the runtime interface and the operations derived from it
  (\<open>runtime.rs\<close>), and the translation of configurations and states to and from Docker's terms (\<open>docker.rs\<close>). Numbers that Docker takes as signed 64-bit
  integers are the signed reading of the word. The statistics, which are floating-point, the logs and the execution streams are not modelled.
\<close>

section \<open>States\<close>

datatype cstate = Creating | Created | Starting | Running | Paused | Stopping | Exited | Removed | Error | Unknown

fun cs_is_active :: "cstate \<Rightarrow> bool" where
  "cs_is_active s = (s \<in> {Running, Paused})"

fun can_start :: "cstate \<Rightarrow> bool" where
  "can_start s = (s \<in> {Created, Exited})"

fun can_stop :: "cstate \<Rightarrow> bool" where
  "can_stop s = (s \<in> {Running, Paused})"

fun cs_is_terminal :: "cstate \<Rightarrow> bool" where
  "cs_is_terminal s = (s \<in> {Exited, Removed, Error})"

fun cstate_name :: "cstate \<Rightarrow> string" where
  "cstate_name Creating = ''creating''"
| "cstate_name Created = ''created''"
| "cstate_name Starting = ''starting''"
| "cstate_name Running = ''running''"
| "cstate_name Paused = ''paused''"
| "cstate_name Stopping = ''stopping''"
| "cstate_name Exited = ''exited''"
| "cstate_name Removed = ''removed''"
| "cstate_name Error = ''error''"
| "cstate_name Unknown = ''unknown''"

datatype health_status = NoHealth | HealthStarting | Healthy | Unhealthy

fun health_name :: "health_status \<Rightarrow> string" where
  "health_name NoHealth = ''none''"
| "health_name HealthStarting = ''starting''"
| "health_name Healthy = ''healthy''"
| "health_name Unhealthy = ''unhealthy''"

record port_binding_status =
  pb_container_port :: u16
  pb_protocol :: string
  pb_host_ip :: "string option"
  pb_host_port :: "u16 option"

text \<open>The status, without the resource statistics and the network settings. Times are in nanoseconds.\<close>

record container_status =
  st_id :: string
  st_name :: string
  st_image :: string
  st_state :: cstate
  st_health :: health_status
  st_exit_code :: "int option"
  st_error :: "string option"
  st_created_at :: "int option"
  st_started_at :: "int option"
  st_finished_at :: "int option"
  st_ports :: "port_binding_status list"
  st_labels :: "(string, string) hashmap"
  st_restart_count :: u32
  st_platform :: "string option"

definition status_default :: container_status where
  "status_default = \<lparr>st_id = [], st_name = [], st_image = [], st_state = Unknown, st_health = NoHealth, st_exit_code = None, st_error = None,
     st_created_at = None, st_started_at = None, st_finished_at = None, st_ports = [], st_labels = [], st_restart_count = 0, st_platform = None\<rparr>"

definition status_created :: "int \<Rightarrow> string \<Rightarrow> string \<Rightarrow> string \<Rightarrow> container_status" where
  "status_created now i n img = status_default\<lparr>st_id := i, st_name := n, st_image := img, st_state := Created, st_created_at := Some now\<rparr>"

definition st_is_running :: "container_status \<Rightarrow> bool" where
  "st_is_running s \<longleftrightarrow> st_state s = Running"

definition exited_successfully :: "container_status \<Rightarrow> bool" where
  "exited_successfully s \<longleftrightarrow> st_state s = Exited \<and> st_exit_code s = Some 0"

text \<open>\<open>duration_since\<close> fails when the later time is earlier.\<close>

definition duration_since :: "int \<Rightarrow> int \<Rightarrow> nat option" where
  "duration_since a b = (if b \<le> a then Some (nat (a - b)) else None)"

definition uptime :: "int \<Rightarrow> container_status \<Rightarrow> nat option" where
  "uptime now s = (if st_state s = Running then Option.bind (st_started_at s) (duration_since now) else None)"

definition runtime_duration :: "container_status \<Rightarrow> nat option" where
  "runtime_duration s = (case (st_started_at s, st_finished_at s) of (Some a, Some b) \<Rightarrow> duration_since b a | _ \<Rightarrow> None)"

definition format_duration :: "nat \<Rightarrow> string" where
  "format_duration d =
     (let secs = d div 1000000000
      in if secs < 60 then show_nat secs @ '' seconds'' else if secs < 3600 then show_nat (secs div 60) @ '' minutes''
         else if secs < 86400 then show_nat (secs div 3600) @ '' hours'' else show_nat (secs div 86400) @ '' days'')"

definition status_message :: "int \<Rightarrow> container_status \<Rightarrow> string" where
  "status_message now s =
     (case st_state s of
        Running \<Rightarrow> (case uptime now s of Some u \<Rightarrow> ''Up '' @ format_duration u | None \<Rightarrow> ''Running'')
      | Exited \<Rightarrow>
          (let code = (case st_exit_code s of None \<Rightarrow> - 1 | Some c \<Rightarrow> c)
           in case runtime_duration s of
                Some r \<Rightarrow> ''Exited ('' @ show_int code @ '') '' @ format_duration r
              | None \<Rightarrow> ''Exited ('' @ show_int code @ '')'')
      | x \<Rightarrow> cstate_name x)"

record container_summary =
  su_id :: string
  su_name :: string
  su_image :: string
  su_state :: cstate
  su_health :: health_status
  su_created_at :: "int option"
  su_status_message :: string

definition from_status :: "int \<Rightarrow> container_status \<Rightarrow> container_summary" where
  "from_status now s = \<lparr>su_id = st_id s, su_name = st_name s, su_image = st_image s, su_state = st_state s, su_health = st_health s,
     su_created_at = st_created_at s, su_status_message = status_message now s\<rparr>"

section \<open>Docker's terms\<close>

record docker_mount =
  dm_target :: "string option"
  dm_source :: "string option"
  dm_type :: "mount_type option"
  dm_read_only :: "bool option"

datatype restart_name = R_NO | R_ALWAYS | R_ON_FAILURE | R_UNLESS_STOPPED

record device_request =
  dr_driver :: "string option"
  dr_count :: "int option"
  dr_device_ids :: "string list option"
  dr_capabilities :: "string list list option"
  dr_options :: "(string, string) hashmap option"

record host_config =
  h_memory :: "int option"
  h_memory_reservation :: "int option"
  h_memory_swap :: "int option"
  h_memory_swappiness :: "int option"
  h_oom_kill_disable :: "bool option"
  h_cpu_shares :: "int option"
  h_cpu_quota :: "int option"
  h_cpu_period :: "int option"
  h_cpuset_cpus :: "string option"
  h_cpuset_mems :: "string option"
  h_nano_cpus :: "int option"
  h_network_mode :: "string option"
  h_mounts :: "docker_mount list option"
  h_port_bindings :: "(string, string \<times> string) hashmap option"
  h_restart_policy :: "(restart_name \<times> int option) option"
  h_privileged :: "bool option"
  h_auto_remove :: "bool option"
  h_device_requests :: "device_request list option"
  h_runtime :: "string option"

definition volume_to_mount :: "volume_mount \<Rightarrow> docker_mount" where
  "volume_to_mount v = \<lparr>dm_target = Some (vm_target v), dm_source = Some (vm_source v), dm_type = Some (vm_type v), dm_read_only = Some (vm_read_only v)\<rparr>"

fun restart_policy_to_bollard :: "restart_policy \<Rightarrow> restart_name \<times> int option" where
  "restart_policy_to_bollard RestartNo = (R_NO, None)"
| "restart_policy_to_bollard RestartAlways = (R_ALWAYS, None)"
| "restart_policy_to_bollard (OnFailure n) = (R_ON_FAILURE, Some (uint n))"
| "restart_policy_to_bollard UnlessStopped = (R_UNLESS_STOPPED, None)"

definition when_pos :: "u64 \<Rightarrow> int option" where
  "when_pos x = (if 0 < x then Some (sint x) else None)"

definition configure_gpu :: "string option \<Rightarrow> gpu_requirements \<Rightarrow> host_config \<Rightarrow> host_config" where
  "configure_gpu rt g h =
     (let opts = (case gr_driver_version g of None \<Rightarrow> [] | Some v \<Rightarrow> hm_insert ''driver'' v []);
          opts' = (case gr_cuda_version g of None \<Rightarrow> opts | Some v \<Rightarrow> hm_insert ''cuda'' v opts);
          r = \<lparr>dr_driver = Some ''nvidia'', dr_count = (if gr_devices g = [] then Some (- 1) else None),
               dr_device_ids = (if gr_devices g = [] then None else Some (map device_specifier (gr_devices g))),
               dr_capabilities = (if gr_capabilities g = [] then None else Some [gr_capabilities g]),
               dr_options = (if opts' = [] then None else Some opts')\<rparr>
      in h\<lparr>h_device_requests := Some [r], h_runtime := (case rt of None \<Rightarrow> h_runtime h | Some x \<Rightarrow> Some x)\<rparr>)"

definition port_key :: "u16 \<Rightarrow> string" where
  "port_key p = show_nat (unat p) @ ''/tcp''"

definition build_host_config :: "string option \<Rightarrow> container_config \<Rightarrow> host_config" where
  "build_host_config rt c =
     (let m = co_memory c; u = co_cpu c; ms = map volume_to_mount (co_volumes c);
          h = \<lparr>h_memory = when_pos (mc_limit m), h_memory_reservation = when_pos (mc_reservation m),
               h_memory_swap = (if mc_swap m \<noteq> 0 then Some (mc_swap m) else None), h_memory_swappiness = map_option uint (mc_swappiness m),
               h_oom_kill_disable = Some (oom_kill_disable m), h_cpu_shares = when_pos (cpu_shares u), h_cpu_quota = when_pos (cpu_quota u),
               h_cpu_period = when_pos (cpu_period u), h_cpuset_cpus = cpuset_cpus u, h_cpuset_mems = cpuset_mems u, h_nano_cpus = when_pos (nano_cpus u),
               h_network_mode = Some (as_docker_mode (co_network_mode c)), h_mounts = (if ms = [] then None else Some ms),
               h_port_bindings = (if co_ports c = [] then None
                 else Some (fold (\<lambda>(cp, hp). hm_insert (port_key cp) (''0.0.0.0'', show_nat (unat hp))) (co_ports c) [])),
               h_restart_policy = Some (restart_policy_to_bollard (co_restart_policy c)), h_privileged = Some (co_privileged c),
               h_auto_remove = Some (co_auto_remove c), h_device_requests = None, h_runtime = None\<rparr>
      in if gpu_is_enabled (co_gpu c) then configure_gpu rt (co_gpu c) h else h)"

text \<open>What Docker is asked to create. The list of environment variables is in the order of the map.\<close>

record docker_config =
  d_name :: string
  d_image :: "string option"
  d_cmd :: "string list option"
  d_entrypoint :: "string list option"
  d_env :: "string list option"
  d_working_dir :: "string option"
  d_user :: "string option"
  d_hostname :: "string option"
  d_labels :: "(string, string) hashmap option"
  d_exposed_ports :: "string list option"
  d_host_config :: "host_config option"
  d_stop_timeout :: "int option"
  d_healthcheck :: "health_check option"

definition docker_config_of :: "string option \<Rightarrow> container_config \<Rightarrow> docker_config" where
  "docker_config_of rt c = \<lparr>d_name = co_name c, d_image = Some (co_image c), d_cmd = co_command c, d_entrypoint = co_entrypoint c,
     d_env = Some (map (\<lambda>(k, v). k @ ''='' @ v) (co_env c)), d_working_dir = co_working_dir c, d_user = co_user c, d_hostname = co_hostname c,
     d_labels = Some (co_labels c), d_exposed_ports = (if co_ports c = [] then None else Some (map (\<lambda>(p, _). port_key p) (co_ports c))),
     d_host_config = Some (build_host_config rt c), d_stop_timeout = None, d_healthcheck = None\<rparr>"

text \<open>Errors of the client: an answer of the server with its status, or something else.\<close>

datatype bollard_error = ServerError nat string | OtherError string

text \<open>The client, over a state of the server; the text of an error is an argument.\<close>

record 'd docker_client =
  create_container :: "docker_config \<Rightarrow> 'd \<Rightarrow> (bollard_error, string, 'd) outcome"
  start_container :: "string \<Rightarrow> 'd \<Rightarrow> (bollard_error, unit, 'd) outcome"
  stop_container :: "string \<Rightarrow> int \<Rightarrow> 'd \<Rightarrow> (bollard_error, unit, 'd) outcome"
  remove_container_call :: "string \<Rightarrow> bool \<Rightarrow> bool \<Rightarrow> 'd \<Rightarrow> (bollard_error, unit, 'd) outcome"
  error_text :: "bollard_error \<Rightarrow> string"

definition docker_create :: "'d docker_client \<Rightarrow> string option \<Rightarrow> container_config \<Rightarrow> 'd \<Rightarrow> (container_error, container_id, 'd) outcome" where
  "docker_create D rt c d =
     (case validate_config c of
        Inl e \<Rightarrow> (Inl e, d)
      | Inr _ \<Rightarrow>
          (case create_container D (docker_config_of rt c) d of
             (Inr i, d') \<Rightarrow> (Inr (ContainerId i), d')
           | (Inl e, d') \<Rightarrow>
               (Inl (case e of
                       ServerError s m \<Rightarrow>
                         if s = 404 then ImageNotFound (co_image c)
                         else if s = 409 then CreateFailed (''container already exists: '' @ m) else CreateFailed (error_text D e)
                     | OtherError _ \<Rightarrow> CreateFailed (error_text D e)), d')))"

definition not_found_or :: "container_id \<Rightarrow> bollard_error \<Rightarrow> container_error \<Rightarrow> container_error" where
  "not_found_or i e other = (case e of ServerError s m \<Rightarrow> if s = 404 then NotFound (short_id i) else other | OtherError _ \<Rightarrow> other)"

definition docker_start :: "'d docker_client \<Rightarrow> container_id \<Rightarrow> 'd \<Rightarrow> (container_error, unit, 'd) outcome" where
  "docker_start D i d =
     (case start_container D (as_str i) d of
        (Inr _, d') \<Rightarrow> (Inr (), d')
      | (Inl e, d') \<Rightarrow> (Inl (not_found_or i e (StartFailed (short_id i) (error_text D e))), d'))"

definition docker_stop :: "'d docker_client \<Rightarrow> container_id \<Rightarrow> u32 option \<Rightarrow> 'd \<Rightarrow> (container_error, unit, 'd) outcome" where
  "docker_stop D i t d =
     (case stop_container D (as_str i) (case t of None \<Rightarrow> 10 | Some s \<Rightarrow> uint s) d of
        (Inr _, d') \<Rightarrow> (Inr (), d')
      | (Inl e, d') \<Rightarrow>
          (case e of
             ServerError s m \<Rightarrow>
               if s = 404 then (Inl (NotFound (short_id i)), d') else if s = 304 then (Inr (), d')
               else (Inl (StopFailed (short_id i) (error_text D e)), d')
           | OtherError _ \<Rightarrow> (Inl (StopFailed (short_id i) (error_text D e)), d')))"

definition docker_remove :: "'d docker_client \<Rightarrow> container_id \<Rightarrow> bool \<Rightarrow> bool \<Rightarrow> 'd \<Rightarrow> (container_error, unit, 'd) outcome" where
  "docker_remove D i force volumes d =
     (case remove_container_call D (as_str i) force volumes d of
        (Inr _, d') \<Rightarrow> (Inr (), d')
      | (Inl e, d') \<Rightarrow> (Inl (not_found_or i e (RemoveFailed (short_id i) (error_text D e))), d'))"

section \<open>States that Docker reports\<close>

datatype status_enum = S_CREATED | S_RUNNING | S_PAUSED | S_RESTARTING | S_REMOVING | S_EXITED | S_DEAD | S_EMPTY

record bollard_state =
  b_status :: "status_enum option"
  b_running :: "bool option"
  b_paused :: "bool option"
  b_restarting :: "bool option"
  b_dead :: "bool option"

definition bollard_state_to_state :: "bollard_state option \<Rightarrow> cstate" where
  "bollard_state_to_state st =
     (case st of
        None \<Rightarrow> Unknown
      | Some s \<Rightarrow>
          if b_running s = Some True then Running else if b_paused s = Some True then Paused
          else if b_restarting s = Some True then Starting else if b_dead s = Some True then Error
          else (case b_status s of
                  Some S_CREATED \<Rightarrow> Created | Some S_EXITED \<Rightarrow> Exited | Some S_RUNNING \<Rightarrow> Running | Some S_PAUSED \<Rightarrow> Paused
                | Some S_RESTARTING \<Rightarrow> Starting | Some S_DEAD \<Rightarrow> Error | Some S_REMOVING \<Rightarrow> Stopping | _ \<Rightarrow> Unknown))"

datatype health_enum = H_EMPTY | H_NONE | H_STARTING | H_HEALTHY | H_UNHEALTHY

definition parse_health_status :: "health_enum option option \<Rightarrow> health_status" where
  "parse_health_status h =
     (case h of
        Some (Some H_HEALTHY) \<Rightarrow> Healthy | Some (Some H_UNHEALTHY) \<Rightarrow> Unhealthy | Some (Some H_STARTING) \<Rightarrow> HealthStarting | _ \<Rightarrow> NoHealth)"

text \<open>The state in a listing is a text.\<close>

definition listed_state :: "string option \<Rightarrow> cstate" where
  "listed_state s =
     (if s = Some ''running'' then Running else if s = Some ''paused'' then Paused else if s = Some ''created'' then Created
      else if s = Some ''exited'' then Exited else if s = Some ''dead'' then Error else Unknown)"

text \<open>A port specification like \<open>80/tcp\<close>; a number that cannot be read is 0.\<close>

definition parse_u16 :: "string \<Rightarrow> u16 option" where
  "parse_u16 s = (case parse_u64 s of Some x \<Rightarrow> if unat x < 2 ^ 16 then Some (ucast x) else None | None \<Rightarrow> None)"

definition parse_port_spec :: "string \<Rightarrow> u16 \<times> string" where
  "parse_port_spec spec =
     (let ps = split_on CHR ''/'' spec
      in (case parse_u16 (hd ps) of None \<Rightarrow> 0 | Some p \<Rightarrow> p, if 1 < length ps then ps ! 1 else ''tcp''))"

section \<open>The runtime interface\<close>

record 'd cruntime =
  cr_create :: "container_config \<Rightarrow> 'd \<Rightarrow> (container_error, container_id, 'd) outcome"
  cr_start :: "container_id \<Rightarrow> 'd \<Rightarrow> (container_error, unit, 'd) outcome"
  cr_stop :: "container_id \<Rightarrow> u32 option \<Rightarrow> 'd \<Rightarrow> (container_error, unit, 'd) outcome"
  cr_remove :: "container_id \<Rightarrow> bool \<Rightarrow> bool \<Rightarrow> 'd \<Rightarrow> (container_error, unit, 'd) outcome"

definition docker_runtime :: "'d docker_client \<Rightarrow> string option \<Rightarrow> 'd cruntime" where
  "docker_runtime D rt = \<lparr>cr_create = docker_create D rt, cr_start = docker_start D, cr_stop = docker_stop D, cr_remove = docker_remove D\<rparr>"

definition rt_run :: "'d cruntime \<Rightarrow> container_config \<Rightarrow> 'd \<Rightarrow> (container_error, container_id, 'd) outcome" where
  "rt_run R c d =
     (case cr_create R c d of
        (Inl e, d') \<Rightarrow> (Inl e, d')
      | (Inr i, d') \<Rightarrow> (case cr_start R i d' of (Inl e, d'') \<Rightarrow> (Inl e, d'') | (Inr _, d'') \<Rightarrow> (Inr i, d'')))"

text \<open>An error of the stop is ignored; the default timeout is ten seconds, the removal is forced and keeps the volumes.\<close>

definition stop_and_remove :: "'d cruntime \<Rightarrow> container_id \<Rightarrow> 'd \<Rightarrow> (container_error, unit, 'd) outcome" where
  "stop_and_remove R i d = cr_remove R i True False (snd (cr_stop R i (Some 10) d))"

text \<open>
  Waiting polls: \<open>look k\<close> is what the \<open>k\<close>th request for the status gives and \<open>elapsed k\<close> the time in seconds when it is compared with the timeout. The loop
  may not end, so not returning is \<^const>\<open>None\<close>.
\<close>

partial_function (option) wait_from ::
  "(nat \<Rightarrow> container_error + cstate) \<Rightarrow> (nat \<Rightarrow> nat) \<Rightarrow> cstate \<Rightarrow> u64 \<Rightarrow> nat \<Rightarrow> (container_error + unit) option" where
  "wait_from look elapsed tgt secs k =
     (case look k of
        Inl e \<Rightarrow> Some (Inl e)
      | Inr s \<Rightarrow>
          if s = tgt then Some (Inr ())
          else if unat secs \<le> elapsed k then Some (Inl (Timeout secs))
          else wait_from look elapsed tgt secs (Suc k))"

definition wait_for_state :: "(nat \<Rightarrow> container_error + cstate) \<Rightarrow> (nat \<Rightarrow> nat) \<Rightarrow> cstate \<Rightarrow> u64 \<Rightarrow> (container_error + unit) option" where
  "wait_for_state look elapsed tgt secs = wait_from look elapsed tgt secs 0"

section \<open>Configurations\<close>

text \<open>
  Validation accepts exactly the configurations with a name of letters, digits, underscores, hyphens and dots, an image, and a reservation within the
  memory limit, if there is a limit.
\<close>

theorem validation_exact:
  "validate_config c = Inr () \<longleftrightarrow> co_name c \<noteq> [] \<and> co_image c \<noteq> [] \<and> list_all name_char (co_name c) \<and>
     (mc_limit (co_memory c) = 0 \<or> mc_reservation (co_memory c) \<le> mc_limit (co_memory c))"
  by (auto simp: validate_config_def not_less word_gt_0 split: if_splits)

text \<open>No container is created for an invalid configuration: Docker is not asked.\<close>

lemma invalid_not_created: "validate_config c = Inl e \<Longrightarrow> docker_create D rt c d = (Inl e, d)"
  by (simp add: docker_create_def)

text \<open>Asking for no GPUs asks for all of them.\<close>

lemma zero_gpus_are_all: "gpu_count_of 0 = gpu_all" "gpu_is_enabled (gpu_count_of 0)"
  by (simp_all add: gpu_count_of_def gpu_all_def gpu_is_enabled_def)

lemma zero_gpus_request: "\<exists>r. h_device_requests (configure_gpu rt (gpu_count_of 0) h) = Some [r] \<and> dr_count r = Some (- 1) \<and> dr_device_ids r = None"
  by (simp add: configure_gpu_def gpu_count_of_def Let_def)

text \<open>A positive number asks for exactly the devices below it.\<close>

lemma some_gpus_request:
  assumes "0 < n"
  shows "\<exists>r. h_device_requests (configure_gpu rt (gpu_count_of n) h) = Some [r] \<and> dr_count r = None \<and> dr_device_ids r = Some (map show_nat [0..<unat n])"
proof -
  have "unat n \<noteq> 0" using assms by (simp add: unat_eq_0 word_gt_0)
  moreover have "unat (word_of_nat i :: u32) = i" if "i < unat n" for i
    using that unat_lt_len [of n] by (simp add: unat_of_nat)
  ultimately show ?thesis by (simp add: configure_gpu_def gpu_count_of_def Let_def device_specifier_def by_index_def)
qed

text \<open>The option that is meant to disable swap asks Docker for unlimited swap.\<close>

lemma no_swap_is_unlimited: "h_memory_swap (build_host_config rt (c\<lparr>co_memory := with_no_swap m\<rparr>)) = Some (- 1)"
  by (simp add: build_host_config_def Let_def with_no_swap_def configure_gpu_def)

text \<open>A memory limit reaches Docker as it is below two to the power of 63, and above it is negative.\<close>

lemma memory_limit_reaches_docker:
  assumes "0 < l"
  shows "h_memory (build_host_config rt (c\<lparr>co_memory := limit_bytes l\<rparr>)) = Some (if unat l < 2 ^ 63 then int (unat l) else int (unat l) - 2 ^ 64)"
proof -
  have "uint l < 2 * 2 ^ 63" using uint_bounded [of l] by simp
  then have "uint l div 2 ^ 63 = (if uint l < 2 ^ 63 then 0 else 1)"
    by (auto simp: not_less intro: int_div_pos_eq [of _ _ _ "uint l - 2 ^ 63"])
  then have "odd (uint l div 2 ^ 63) \<longleftrightarrow> \<not> uint l < 2 ^ 63" by simp
  moreover have "sint l = uint l - 2 ^ 64 * of_bool (odd (uint l div 2 ^ 63))"
    using uint_bounded [of l] by (simp add: sint_uint signed_take_bit_eq_take_bit_minus take_bit_eq_mod bit_iff_odd)
  moreover have "uint l < 2 ^ 63 \<longleftrightarrow> unat l < 2 ^ 63" using of_nat_less_iff [of "unat l" "2 ^ 63", where ?'a = int] by simp
  ultimately have "sint l = (if unat l < 2 ^ 63 then int (unat l) else int (unat l) - 2 ^ 64)" by simp
  then show ?thesis using assms by (simp add: build_host_config_def Let_def limit_bytes_def configure_gpu_def when_pos_def)
qed

text \<open>The health check and the stop timeout of a configuration do not reach Docker.\<close>

lemma health_check_dropped: "docker_config_of rt (c\<lparr>co_healthcheck := h, co_stop_timeout := t\<rparr>) = docker_config_of rt c"
  by (simp add: docker_config_of_def build_host_config_def Let_def)

section \<open>Ports\<close>

lemma port_spec_roundtrip: "parse_port_spec (port_key p) = (p, ''tcp'')"
proof -
  have "CHR ''/'' \<notin> set (show_nat (unat p))" using show_nat_digits [of "unat p"] by (auto simp: list_all_iff is_digit_def)
  then have "split_on CHR ''/'' (port_key p) = [show_nat (unat p), ''tcp'']" by (simp add: port_key_def split_on_one)
  moreover have "unat p < 2 ^ 16" using unat_lt_len [of p] by simp
  moreover from this have "parse_u64 (show_nat (unat p)) = Some (ucast p)"
    using parse_show_u64 [of "ucast p :: u64"] by (simp add: unat_cast)
  moreover from calculation(2) have "ucast (ucast p :: u64) = p" by (simp add: word_unat_eq_iff unat_cast)
  ultimately show ?thesis by (simp add: parse_port_spec_def parse_u16_def unat_cast)
qed

lemma port_key_inj: "port_key p = port_key q \<longleftrightarrow> p = q"
  using port_spec_roundtrip by (metis prod.inject)

section \<open>States\<close>

text \<open>Docker reports a paused container as running and paused, and a restarting one as running and restarting: both are taken as running.\<close>

lemma paused_taken_as_running: "b_running s = Some True \<Longrightarrow> bollard_state_to_state (Some s) = Running"
  by (simp add: bollard_state_to_state_def)

text \<open>The states that a listing can show.\<close>

lemma listed_states: "listed_state (Some (cstate_name s)) = s \<longleftrightarrow> s \<in> {Running, Paused, Created, Exited, Unknown}"
  by (cases s) (simp_all add: listed_state_def)

section \<open>Waiting\<close>

lemma wait_from_step:
  "wait_from look elapsed tgt secs k =
     (if look k = Inr tgt then Some (Inr ()) else
      case look k of Inl e \<Rightarrow> Some (Inl e) | Inr s \<Rightarrow> if unat secs \<le> elapsed k then Some (Inl (Timeout secs)) else wait_from look elapsed tgt secs (Suc k))"
  by (subst wait_from.simps) (auto split: sum.split)

text \<open>A poll that decides: the target is seen, the request fails, or the time is up.\<close>

definition decides :: "(nat \<Rightarrow> container_error + cstate) \<Rightarrow> (nat \<Rightarrow> nat) \<Rightarrow> cstate \<Rightarrow> u64 \<Rightarrow> nat \<Rightarrow> bool" where
  "decides look elapsed tgt secs k \<longleftrightarrow> look k = Inr tgt \<or> (\<exists>e. look k = Inl e) \<or> unat secs \<le> elapsed k"

lemma wait_from_skips:
  "k \<le> n \<Longrightarrow> (\<And>j. k \<le> j \<Longrightarrow> j < n \<Longrightarrow> \<not> decides look elapsed tgt secs j) \<Longrightarrow> wait_from look elapsed tgt secs k = wait_from look elapsed tgt secs n"
proof (induction n)
  case (Suc n)
  show ?case
  proof (cases "k = Suc n")
    case False
    then have k: "k \<le> n" using Suc.prems(1) by simp
    have "wait_from look elapsed tgt secs k = wait_from look elapsed tgt secs n" using Suc k by simp
    also have "\<dots> = wait_from look elapsed tgt secs (Suc n)"
      using Suc.prems(2) [of n] k by (subst wait_from_step) (auto simp: decides_def split: sum.split)
    finally show ?thesis .
  qed simp
qed simp

text \<open>
  Waiting for a state ends as soon as the clock passes the timeout, or earlier, and its result is that of the first poll that decides: success if it sees the
  state, the error of a failed request, and otherwise a timeout.
\<close>

theorem waiting_ends:
  assumes "decides look elapsed tgt secs n" and "\<And>j. j < n \<Longrightarrow> \<not> decides look elapsed tgt secs j"
  shows "wait_for_state look elapsed tgt secs = Some (case look n of Inl e \<Rightarrow> Inl e | Inr s \<Rightarrow> if s = tgt then Inr () else Inl (Timeout secs))"
proof -
  have "wait_for_state look elapsed tgt secs = wait_from look elapsed tgt secs n"
    unfolding wait_for_state_def using assms(2) by (intro wait_from_skips) simp_all
  then show ?thesis using assms(1) by (subst (asm) wait_from_step) (auto simp: decides_def split: sum.splits)
qed

lemma waiting_returns: "unat secs \<le> elapsed n \<Longrightarrow> \<exists>r. wait_for_state look elapsed tgt secs = Some r"
proof -
  assume "unat secs \<le> elapsed n"
  then have "\<exists>n. decides look elapsed tgt secs n" by (auto simp: decides_def)
  then obtain n where "decides look elapsed tgt secs n" "\<And>j. j < n \<Longrightarrow> \<not> decides look elapsed tgt secs j"
    using exists_least_iff [of "decides look elapsed tgt secs"] by blast
  from waiting_ends [OF this] show ?thesis by blast
qed

section \<open>Derived operations\<close>

text \<open>A container whose start fails stays behind: the failed run returns no identifier by which to remove it.\<close>

lemma failed_start_leaves_container:
  assumes "cr_create R c d = (Inr i, d1)" "cr_start R i d1 = (Inl e, d2)"
  shows "rt_run R c d = (Inl e, d2)"
  using assms by (simp add: rt_run_def)

text \<open>The removal is asked for whether the stop succeeded or not.\<close>

lemma removed_after_failed_stop:
  assumes "docker_stop D i (Some 10) d = (Inl e, d1)" "remove_container_call D (as_str i) True False d1 = (Inr (), d2)"
  shows "stop_and_remove (docker_runtime D rt) i d = (Inr (), d2)"
  using assms by (simp add: stop_and_remove_def docker_runtime_def docker_remove_def)

end
