(* ===== verification/Metrics_Commands.thy ===== *)
theory Metrics_Commands
  imports Metric_Store Store_Commands
begin

text \<open>
  The handlers of a node for metrics, events and alerts, \<open>crates/clawnode/src/metrics_cmd.rs\<close>, over the metric store and the alert
  store. Events are points of value zero in the series \<open>_events\<close> whose labels carry the text. A handler that can overflow in
  a checked build returns \<^const>\<open>None\<close> there. The clock, the samples of the operating system and of the GPUs and the text form of a
  timestamp are arguments.
\<close>

section \<open>Metrics\<close>

fun metrics_error_text :: "metrics_error \<Rightarrow> string" where
  "metrics_error_text (InvalidMetricName r) = ''invalid metric name: '' @ r"
| "metrics_error_text (InvalidTimeRange a b) = ''invalid time range: start='' @ show_int a @ '', end='' @ show_int b"
| "metrics_error_text (MetricNotFound n) = ''metric not found: '' @ n"
| "metrics_error_text (StorageError r) = ''storage error: '' @ r"
| "metrics_error_text (CollectionError r) = ''collection error: '' @ r"
| "metrics_error_text (InsufficientData r) = ''insufficient data: '' @ r"

text \<open>A JSON number is finite: the other values become null.\<close>

fun jfloat :: "f64 \<Rightarrow> json" where
  "jfloat (Fin x) = JFloat (Fin x)"
| "jfloat _ = JNull"

record metrics_query_params =
  mq_name :: string
  mq_range_minutes :: "int option"
  mq_aggregation :: "string option"

definition parse_aggregation :: "string \<Rightarrow> string + aggregation" where
  "parse_aggregation s =
     (let t = map to_lower s
      in if t = ''sum'' then Inr AggSum
         else if t = ''avg'' \<or> t = ''average'' then Inr AggAvg
         else if t = ''min'' then Inr AggMin
         else if t = ''max'' then Inr AggMax
         else if t = ''last'' then Inr AggLast
         else if t = ''count'' then Inr AggCount
         else Inl (''unknown aggregation: '' @ s @ '' (use sum/avg/min/max/last/count)''))"

definition transposed :: "('e + 'a) option \<Rightarrow> 'e + 'a option" where
  "transposed x = (case x of None \<Rightarrow> Inr None | Some (Inl e) \<Rightarrow> Inl e | Some (Inr v) \<Rightarrow> Inr (Some v))"

definition point_json :: "metric_point \<Rightarrow> json" where
  "point_json p = JObj [(''timestamp'', JNum (pt_timestamp p)), (''value'', jfloat (pt_value p)), (''labels'', jmap (pt_labels p))]"

definition or_default :: "'a option \<Rightarrow> 'a \<Rightarrow> 'a" where
  "or_default x d = (case x of None \<Rightarrow> d | Some v \<Rightarrow> v)"

definition handle_metrics_query ::
  "float_ops \<Rightarrow> bool \<Rightarrow> int \<Rightarrow> metrics_query_params decoded \<Rightarrow> metric_store \<Rightarrow> (string + json) option" where
  "handle_metrics_query F checks now dec ms =
     (case dec of
        Inl e \<Rightarrow> Some (Inl e)
      | Inr p \<Rightarrow>
          (case metric_name_new (mq_name p) of
             Inl e \<Rightarrow> Some (Inl (''invalid metric name: '' @ metrics_error_text e))
           | Inr name \<Rightarrow>
               map_option (\<lambda>r.
                   case transposed (map_option parse_aggregation (mq_aggregation p)) of
                     Inl e \<Rightarrow> Inl e
                   | Inr agg \<Rightarrow>
                       (case store_query F ms name r agg of
                          Inl e \<Rightarrow> Inl (''query failed: '' @ metrics_error_text e)
                        | Inr ps \<Rightarrow> Inr (JObj [(''name'', JStr (mq_name p)), (''count'', jlen ps), (''points'', JList (map point_json ps))])))
                 (last_minutes checks now (or_default (mq_range_minutes p) 60))))"

definition handle_metrics_list :: "metric_store \<Rightarrow> json" where
  "handle_metrics_list ms =
     (let names = metrics_list ms
      in JObj [(''count'', jlen names),
           (''metrics'', JList (map (\<lambda>n. JObj [(''name'', JStr n), (''points'', JNum (int (metric_count ms n)))]) names))])"

fun snapshot_entries :: "(metric_name \<Rightarrow> f64 option option) \<Rightarrow> metric_name list \<Rightarrow> (string \<times> json) list option" where
  "snapshot_entries look [] = Some []"
| "snapshot_entries look (n # ns) =
     Option.bind (look n) (\<lambda>v. map_option (\<lambda>es. (case v of None \<Rightarrow> [] | Some x \<Rightarrow> [(n, jfloat x)]) @ es) (snapshot_entries look ns))"

definition handle_metrics_snapshot :: "float_ops \<Rightarrow> bool \<Rightarrow> (metric_name \<Rightarrow> int) \<Rightarrow> string \<Rightarrow> metric_store \<Rightarrow> json option" where
  "handle_metrics_snapshot F checks now stamp ms =
     map_option (\<lambda>es. JObj [(''timestamp'', JStr stamp), (''metrics'', JObj es)])
       (snapshot_entries (\<lambda>n. last_value F checks (now n) ms n) (metrics_list ms))"

section \<open>Events\<close>

record events_query_params =
  eq_severity :: "string option"
  eq_source :: "string option"
  eq_range_minutes :: "int option"
  eq_limit :: "nat option"

definition event_matches :: "string \<Rightarrow> string option \<Rightarrow> metric_point \<Rightarrow> bool" where
  "event_matches key want p \<longleftrightarrow> (case want of None \<Rightarrow> True | Some v \<Rightarrow> hm_get (pt_labels p) key = Some v)"

definition event_json :: "metric_point \<Rightarrow> json" where
  "event_json p =
     JObj [(''timestamp'', JNum (pt_timestamp p)), (''source'', JStr (or_default (hm_get (pt_labels p) ''source'') [])),
       (''severity'', JStr (or_default (hm_get (pt_labels p) ''severity'') [])),
       (''message'', JStr (or_default (hm_get (pt_labels p) ''message'') []))]"

definition selected_events :: "events_query_params \<Rightarrow> metric_point list \<Rightarrow> metric_point list" where
  "selected_events p ps =
     (let es = rev (filter (event_matches ''source'' (eq_source p)) (filter (event_matches ''severity'' (eq_severity p)) ps))
      in case eq_limit p of None \<Rightarrow> es | Some n \<Rightarrow> take n es)"

text \<open>Parameters that do not decode are taken as absent.\<close>

definition handle_events_query ::
  "float_ops \<Rightarrow> bool \<Rightarrow> int \<Rightarrow> events_query_params decoded \<Rightarrow> metric_store \<Rightarrow> (string + json) option" where
  "handle_events_query F checks now dec ms =
     (let p = (case dec of
                 Inl _ \<Rightarrow> \<lparr>eq_severity = None, eq_source = None, eq_range_minutes = None, eq_limit = None\<rparr>
               | Inr p \<Rightarrow> p)
      in map_option (\<lambda>r.
           case metric_name_new ''_events'' of
             Inl e \<Rightarrow> Inl (''internal error: '' @ metrics_error_text e)
           | Inr name \<Rightarrow>
               (let ps = (case store_query F ms name r None of Inl _ \<Rightarrow> [] | Inr ps \<Rightarrow> ps);
                    es = selected_events p ps
                in Inr (JObj [(''count'', jlen es), (''events'', JList (map event_json es))])))
         (last_minutes checks now (or_default (eq_range_minutes p) 60)))"

record events_emit_params =
  ee_source :: string
  ee_severity :: string
  ee_message :: string

definition event_point :: "int \<Rightarrow> events_emit_params \<Rightarrow> metric_point" where
  "event_point t p =
     point_label ''message'' (ee_message p) (point_label ''severity'' (ee_severity p) (point_label ''source'' (ee_source p) (point_new t (Fin 0))))"

text \<open>The clock is read for the point and again for the cutoff of the push.\<close>

definition handle_events_emit ::
  "searcher \<Rightarrow> bool \<Rightarrow> int \<Rightarrow> int \<Rightarrow> events_emit_params decoded \<Rightarrow> metric_store \<Rightarrow> ((string + json) \<times> metric_store) option" where
  "handle_events_emit search checks t now dec ms =
     (case dec of
        Inl e \<Rightarrow> Some (Inl e, ms)
      | Inr p \<Rightarrow>
          if ee_severity p \<notin> {''info'', ''warning'', ''error''}
          then Some (Inl ''severity must be one of: info, warning, error'', ms)
          else (case metric_name_new ''_events'' of
                  Inl e \<Rightarrow> Some (Inl (''internal error: '' @ metrics_error_text e), ms)
                | Inr name \<Rightarrow>
                    map_option (\<lambda>ms'. (Inr (JObj [(''emitted'', JBool True), (''source'', JStr (ee_source p)), (''severity'', JStr (ee_severity p))]), ms'))
                      (store_push search checks now name (event_point t p) ms)))"

section \<open>Alerts\<close>

record alert_create_params =
  ac_name :: string
  ac_metric :: string
  ac_condition :: string
  ac_threshold :: f64

definition handle_alerts_create ::
  "alert_rule codec \<Rightarrow> write_result \<Rightarrow> timestamp \<Rightarrow> alert_create_params decoded \<Rightarrow> alert_rule file_map \<times> disk
   \<Rightarrow> (string, json, alert_rule file_map \<times> disk) outcome" where
  "handle_alerts_create C w now dec st =
     (case dec of
        Inl e \<Rightarrow> (Inl e, st)
      | Inr p \<Rightarrow>
          if ac_condition p \<notin> {''above'', ''below''}
          then (Inl (''condition must be '' @ CHR 0x27 # ''above'' @ CHR 0x27 # '' or '' @ CHR 0x27 # ''below'' @ [CHR 0x27]), st)
          else (case alerts_create C w
                  \<lparr>alert_name = ac_name p, alert_metric = ac_metric p, alert_condition = ac_condition p, alert_threshold = ac_threshold p,
                    alert_state = ''ok'', alert_created_at = now, alert_updated_at = now\<rparr> st of
                  (Inl e, st') \<Rightarrow> (Inl e, st')
                | (Inr _, st') \<Rightarrow>
                    (Inr (JObj [(''name'', JStr (ac_name p)), (''metric'', JStr (ac_metric p)), (''condition'', JStr (ac_condition p)),
                       (''threshold'', jfloat (ac_threshold p)), (''success'', JBool True)]), st')))"

definition alert_json :: "(timestamp \<Rightarrow> string) \<Rightarrow> alert_rule \<Rightarrow> json" where
  "alert_json rfc a =
     JObj [(''name'', JStr (alert_name a)), (''metric'', JStr (alert_metric a)), (''condition'', JStr (alert_condition a)),
       (''threshold'', jfloat (alert_threshold a)), (''state'', JStr (alert_state a)),
       (''created_at'', JStr (rfc (alert_created_at a))), (''updated_at'', JStr (rfc (alert_updated_at a)))]"

definition handle_alerts_list :: "(timestamp \<Rightarrow> string) \<Rightarrow> alert_rule file_map \<Rightarrow> json" where
  "handle_alerts_list rfc s = JObj [(''count'', jlen (alerts_list s)), (''alerts'', JList (map (alert_json rfc) (alerts_list s)))]"

record alert_acknowledge_params =
  aa_alert_id :: "string option"
  aa_name :: "string option"

definition handle_alerts_acknowledge ::
  "alert_rule codec \<Rightarrow> write_result \<Rightarrow> timestamp \<Rightarrow> alert_acknowledge_params decoded \<Rightarrow> alert_rule file_map \<times> disk
   \<Rightarrow> (string, json, alert_rule file_map \<times> disk) outcome" where
  "handle_alerts_acknowledge C w now dec st =
     (case dec of
        Inl e \<Rightarrow> (Inl e, st)
      | Inr p \<Rightarrow>
          (case (case aa_name p of Some n \<Rightarrow> Some n | None \<Rightarrow> aa_alert_id p) of
             None \<Rightarrow> (Inl ''name or alertId required'', st)
           | Some name \<Rightarrow>
               (case alerts_acknowledge C w name now st of
                  (Inl e, st') \<Rightarrow> (Inl e, st')
                | (Inr _, st') \<Rightarrow> (Inr (JObj [(''name'', JStr name), (''acknowledged'', JBool True)]), st'))))"

section \<open>Background tasks\<close>

definition push_metric :: "searcher \<Rightarrow> bool \<Rightarrow> int \<Rightarrow> int \<Rightarrow> string \<Rightarrow> f64 \<Rightarrow> metric_store \<Rightarrow> metric_store option" where
  "push_metric search checks t now name v ms =
     (case metric_name_new name of
        Inl _ \<Rightarrow> Some ms
      | Inr n \<Rightarrow> store_push search checks now n (point_new t v) ms)"

definition push_metric_labeled :: "searcher \<Rightarrow> bool \<Rightarrow> int \<Rightarrow> int \<Rightarrow> string \<Rightarrow> f64 \<Rightarrow> string \<Rightarrow> string \<Rightarrow> metric_store \<Rightarrow> metric_store option" where
  "push_metric_labeled search checks t now name v lk lv ms =
     (case metric_name_new name of
        Inl _ \<Rightarrow> Some ms
      | Inr n \<Rightarrow> store_push search checks now n (point_label lk lv (point_new t v)) ms)"

record system_sample =
  ss_cpus :: nat
  ss_load_one :: f64
  ss_load_five :: f64
  ss_load_fifteen :: f64
  ss_total_memory :: u64
  ss_used_memory :: u64
  ss_available_memory :: u64

record gpu_sample =
  gs_index :: u32
  gs_uuid :: string
  gs_utilization_percent :: u32
  gs_memory_used_mb :: u64
  gs_memory_total_mb :: u64
  gs_temperature_c :: u32
  gs_power_draw_w :: "f64 option"
  gs_power_limit_w :: "f64 option"

type_synonym measurement = "string \<times> f64 \<times> (string \<times> string) option"

definition push_measurement :: "searcher \<Rightarrow> bool \<Rightarrow> int \<Rightarrow> int \<Rightarrow> measurement \<Rightarrow> metric_store \<Rightarrow> metric_store option" where
  "push_measurement search checks t now m ms =
     (case m of
        (name, v, None) \<Rightarrow> push_metric search checks t now name v ms
      | (name, v, Some (k, l)) \<Rightarrow> push_metric_labeled search checks t now name v k l ms)"

definition fl_u64 :: "float_ops \<Rightarrow> u64 \<Rightarrow> f64" where
  "fl_u64 F x = fl_of_int F (uint x)"

definition mebibytes :: "float_ops \<Rightarrow> f64 \<Rightarrow> f64" where
  "mebibytes F x = fl_div F (fl_div F x (Fin 1024)) (Fin 1024)"

definition system_measurements :: "float_ops \<Rightarrow> system_sample \<Rightarrow> measurement list" where
  "system_measurements F s =
     (let total_mem = fl_u64 F (ss_total_memory s); used_mem = fl_u64 F (ss_used_memory s)
      in [(''cpu:usage_percent'', fl_mul F (fl_div F (ss_load_one s) (fl_of_int F (int (ss_cpus s)))) (Fin 100), None),
          (''cpu:load_1m'', ss_load_one s, None), (''cpu:load_5m'', ss_load_five s, None), (''cpu:load_15m'', ss_load_fifteen s, None)] @
         (if f64_less (Fin 0) total_mem then [(''memory:usage_percent'', fl_mul F (fl_div F used_mem total_mem) (Fin 100), None)] else []) @
         [(''memory:used_mb'', mebibytes F used_mem, None), (''memory:available_mb'', mebibytes F (fl_u64 F (ss_available_memory s)), None)])"

definition gpu_measurements :: "float_ops \<Rightarrow> gpu_sample \<Rightarrow> measurement list" where
  "gpu_measurements F g =
     (let idx = Some (''gpu'', show_nat (unat (gs_index g)))
      in [(''gpu:utilization_percent'', fl_of_int F (uint (gs_utilization_percent g)), idx),
          (''gpu:memory_used_mb'', fl_u64 F (gs_memory_used_mb g), idx),
          (''gpu:temperature_c'', fl_of_int F (uint (gs_temperature_c g)), idx)] @
         (case gs_power_draw_w g of None \<Rightarrow> [] | Some w \<Rightarrow> [(''gpu:power_draw_w'', w, idx)]))"

fun push_all :: "(nat \<Rightarrow> measurement \<Rightarrow> 's \<Rightarrow> 's option) \<Rightarrow> nat \<Rightarrow> measurement list \<Rightarrow> 's \<Rightarrow> 's option" where
  "push_all f i [] s = Some s"
| "push_all f i (m # ms) s = Option.bind (f i m s) (push_all f (Suc i) ms)"

text \<open>The clock gives the time of the point and of the cutoff of the \<open>i\<close>-th push; the query of the GPUs may fail.\<close>

definition collect_system_metrics ::
  "searcher \<Rightarrow> float_ops \<Rightarrow> bool \<Rightarrow> (nat \<Rightarrow> int \<times> int) \<Rightarrow> system_sample \<Rightarrow> (string + gpu_sample list) \<Rightarrow> metric_store \<Rightarrow> metric_store option" where
  "collect_system_metrics search F checks clock s g ms =
     push_all (\<lambda>i. push_measurement search checks (fst (clock i)) (snd (clock i))) 0
       (system_measurements F s @ (case g of Inl _ \<Rightarrow> [] | Inr gs \<Rightarrow> concat (map (gpu_measurements F) gs))) ms"

text \<open>The clocks and the results of the writes are given per alert.\<close>

definition evaluate_one ::
  "float_ops \<Rightarrow> bool \<Rightarrow> (string \<Rightarrow> int) \<Rightarrow> alert_rule codec \<Rightarrow> (string \<Rightarrow> write_result) \<Rightarrow> (string \<Rightarrow> timestamp) \<Rightarrow> metric_store
   \<Rightarrow> string \<times> string \<Rightarrow> alert_rule file_map \<times> disk \<Rightarrow> (alert_rule file_map \<times> disk) option" where
  "evaluate_one F checks now C w t ms am st =
     (case metric_name_new (snd am) of
        Inl _ \<Rightarrow> Some st
      | Inr name \<Rightarrow>
          map_option (\<lambda>v. case v of None \<Rightarrow> st | Some x \<Rightarrow> snd (alerts_evaluate C (w (fst am)) (fst am) x (t (fst am)) st))
            (last_value F checks (now (fst am)) ms name))"

fun evaluate_each ::
  "(string \<times> string \<Rightarrow> 's \<Rightarrow> 's option) \<Rightarrow> (string \<times> string) list \<Rightarrow> 's \<Rightarrow> 's option" where
  "evaluate_each f [] s = Some s"
| "evaluate_each f (x # xs) s = Option.bind (f x s) (evaluate_each f xs)"

definition evaluate_alerts ::
  "float_ops \<Rightarrow> bool \<Rightarrow> (string \<Rightarrow> int) \<Rightarrow> alert_rule codec \<Rightarrow> (string \<Rightarrow> write_result) \<Rightarrow> (string \<Rightarrow> timestamp) \<Rightarrow> metric_store
   \<Rightarrow> alert_rule file_map \<times> disk \<Rightarrow> (alert_rule file_map \<times> disk) option" where
  "evaluate_alerts F checks now C w t ms st =
     evaluate_each (evaluate_one F checks now C w t ms) (map (\<lambda>a. (alert_name a, alert_metric a)) (alerts_list (fst st))) st"

section \<open>Queries\<close>

lemma aggregations_exact:
  "(\<exists>a. parse_aggregation s = Inr a) \<longleftrightarrow> map to_lower s \<in> {''sum'', ''avg'', ''average'', ''min'', ''max'', ''last'', ''count''}"
  by (auto simp: parse_aggregation_def Let_def)

lemma events_name [simp]: "metric_name_new ''_events'' = Inr ''_events''"
  by (simp add: metric_name_new_def MAX_LENGTH_def ascii_alphanumeric_def ascii_alphabetic_def)

text \<open>
  A range of minutes so large that the product overflows stops a checked build; a release build wraps it, and the query
  of a longer range returns nothing although the series has points.
\<close>

definition busy_store :: metric_store where
  "busy_store = (store_new (86400 * 1000000000))\<lparr>ms_data := [(''cpu'', [point_new 9000 (Fin 1)])]\<rparr>"

definition long_query :: "metrics_query_params decoded" where
  "long_query = Inr \<lparr>mq_name = ''cpu'', mq_range_minutes = Some 300000000000000, mq_aggregation = None\<rparr>"

lemmas range_defs = last_minutes_def last_seconds_def last_millis_def last_hours_def op_i64_def in_i64_def wrap_i64_def or_default_def

lemma cpu_name: "metric_name_new ''cpu'' = Inr ''cpu''"
  by (simp add: metric_name_new_def MAX_LENGTH_def ascii_alphanumeric_def ascii_alphabetic_def)

lemma long_range_panics: "handle_metrics_query F True 10000 long_query busy_store = None"
  by (simp add: handle_metrics_query_def long_query_def cpu_name range_defs)

lemma long_range_misses_points:
  "handle_metrics_query F False 10000 long_query busy_store =
     Some (Inr (JObj [(''name'', JStr ''cpu''), (''count'', JNum 0), (''points'', JList [])]))"
  by (simp add: handle_metrics_query_def long_query_def cpu_name range_defs transposed_def busy_store_def store_query_def
      aggregate_points_def range_contains_def point_new_def jlen_def)

section \<open>Events are read back\<close>

text \<open>The events that a query selects, before they are printed.\<close>

definition events_found :: "float_ops \<Rightarrow> time_range \<Rightarrow> events_query_params \<Rightarrow> metric_store \<Rightarrow> metric_point list" where
  "events_found F r p ms = selected_events p (case store_query F ms ''_events'' r None of Inl _ \<Rightarrow> [] | Inr ps \<Rightarrow> ps)"

lemma events_query_answer:
  "handle_events_query F checks now (Inr p) ms =
     map_option (\<lambda>r. Inr (JObj [(''count'', jlen (events_found F r p ms)), (''events'', JList (map event_json (events_found F r p ms)))]))
       (last_minutes checks now (or_default (eq_range_minutes p) 60))"
  by (simp add: handle_events_query_def events_found_def Let_def)

lemma event_point_json:
  "event_json (event_point t p) =
     JObj [(''timestamp'', JNum t), (''source'', JStr (ee_source p)), (''severity'', JStr (ee_severity p)), (''message'', JStr (ee_message p))]"
  by (simp add: event_json_def event_point_def point_label_def point_new_def or_default_def)

lemma pushed_is_queried:
  assumes "store_push search checks now n p ms = Some ms'" and "range_contains r (pt_timestamp p)"
  shows "\<exists>ps. store_query F ms' n r None = Inr ps \<and> p \<in> set ps"
  using assms by (auto simp: store_push_def push_point_def Let_def store_query_def aggregate_points_def insert_at_def)

lemma last_minutes_contains:
  assumes "last_minutes checks now m = Some r" "in_i64 (m * 60)" "in_i64 (m * 60 * 1000)" "in_i64 (now - m * 60 * 1000)"
  shows "range_contains r x \<longleftrightarrow> now - m * 60000 \<le> x \<and> x \<le> now"
  using assms by (auto simp: last_minutes_def last_seconds_def last_millis_def op_i64_def range_contains_def)

definition wants_event :: "events_query_params \<Rightarrow> events_emit_params \<Rightarrow> bool" where
  "wants_event q p \<longleftrightarrow> (\<forall>s. eq_severity q = Some s \<longrightarrow> s = ee_severity p) \<and> (\<forall>s. eq_source q = Some s \<longrightarrow> s = ee_source p)"

lemma selected_iff:
  "eq_limit q = None \<Longrightarrow> event_point t p \<in> set (selected_events q ps) \<longleftrightarrow> event_point t p \<in> set ps \<and> wants_event q p"
  by (auto simp: selected_events_def Let_def event_matches_def wants_event_def event_point_def point_label_def point_new_def split: option.splits)

theorem emitted_event_is_found:
  assumes "handle_events_emit search checks t now (Inr p) ms = Some (Inr answer, ms')"
    and "last_minutes checks now2 (or_default (eq_range_minutes q) 60) = Some r" and "range_contains r t"
    and "eq_limit q = None" and "wants_event q p"
  shows "\<exists>es. handle_events_query F checks now2 (Inr q) ms' = Some (Inr (JObj [(''count'', jlen es), (''events'', JList es)])) \<and>
    JObj [(''timestamp'', JNum t), (''source'', JStr (ee_source p)), (''severity'', JStr (ee_severity p)), (''message'', JStr (ee_message p))] \<in> set es"
proof -
  have "store_push search checks now ''_events'' (event_point t p) ms = Some ms'"
    using assms(1) by (auto simp: handle_events_emit_def split: if_splits)
  moreover have "pt_timestamp (event_point t p) = t" by (simp add: event_point_def point_label_def point_new_def)
  ultimately obtain ps where "store_query F ms' ''_events'' r None = Inr ps" "event_point t p \<in> set ps"
    using pushed_is_queried [of search checks now "''_events''" "event_point t p" ms ms' r F] assms(3) by auto
  then have "event_point t p \<in> set (events_found F r q ms')" using assms(4,5) by (simp add: events_found_def selected_iff)
  then show ?thesis using assms(2)
    by (intro exI [of _ "map event_json (events_found F r q ms')"]) (auto simp: events_query_answer jlen_def simp flip: event_point_json intro!: imageI)
qed

text \<open>A limit keeps the most recent events that match, and the answer is never longer than it.\<close>

lemma limited_events:
  "eq_limit q = Some n \<Longrightarrow> selected_events q ps = take n (selected_events (q\<lparr>eq_limit := None\<rparr>) ps)"
  by (simp add: selected_events_def Let_def)

lemma newest_first:
  assumes "sorted (map pt_timestamp ps)"
  shows "sorted_wrt (\<ge>) (map pt_timestamp (selected_events q ps))"
proof -
  let ?es = "filter (event_matches ''source'' (eq_source q)) (filter (event_matches ''severity'' (eq_severity q)) ps)"
  have "sorted_wrt (\<ge>) (map pt_timestamp (rev ?es))" using sorted_kept [OF sorted_kept [OF assms]]
    by (simp add: sorted_wrt_rev flip: rev_map)
  then show ?thesis by (auto simp: selected_events_def Let_def take_map [symmetric] sorted_wrt_take split: option.split)
qed

section \<open>Alerts follow the last value of their metric\<close>

definition alerts_keyed :: "alert_rule file_map \<Rightarrow> bool" where
  "alerts_keyed s \<longleftrightarrow> hm_wf (entries s) \<and> (\<forall>k a. hm_get (entries s) k = Some a \<longrightarrow> alert_name a = k)"

text \<open>What is measured for a metric: nothing for an invalid name or without a point of the last day.\<close>

definition measured :: "float_ops \<Rightarrow> bool \<Rightarrow> int \<Rightarrow> metric_store \<Rightarrow> string \<Rightarrow> f64 option" where
  "measured F checks now ms m =
     (case metric_name_new m of Inl _ \<Rightarrow> None | Inr n \<Rightarrow> (case last_value F checks now ms n of None \<Rightarrow> None | Some v \<Rightarrow> v))"

definition next_state :: "f64 option \<Rightarrow> alert_rule \<Rightarrow> string" where
  "next_state v a = (case v of None \<Rightarrow> alert_state a | Some x \<Rightarrow> evaluated a x)"

lemma last_value_returns: "in_i64 (now - 86400000) \<Longrightarrow> last_value F checks now ms n \<noteq> None"
  by (simp add: last_value_def range_defs)

definition states :: "alert_rule file_map \<times> disk \<Rightarrow> string \<Rightarrow> string option" where
  "states st n = map_option alert_state (alerts_get (fst st) n)"

definition rule_of :: "alert_rule \<Rightarrow> string \<times> string \<times> string \<times> f64" where
  "rule_of a = (alert_name a, alert_metric a, alert_condition a, alert_threshold a)"

definition rules :: "alert_rule file_map \<times> disk \<Rightarrow> string \<Rightarrow> (string \<times> string \<times> string \<times> f64) option" where
  "rules st n = map_option rule_of (alerts_get (fst st) n)"

lemma evaluation_effect:
  assumes "alerts_get (fst st) name = Some a"
  shows "states (snd (alerts_evaluate C w name x now st)) = (states st)(name \<mapsto> evaluated a x)"
    and "rules (snd (alerts_evaluate C w name x now st)) = rules st"
  using assms by (auto simp: alerts_evaluate_def alerts_get_def store_get_def states_def rules_def rule_of_def evaluated_def Let_def fun_eq_iff)

lemma evaluated_rule: "rule_of a = rule_of b \<Longrightarrow> alert_state a = alert_state b \<Longrightarrow> evaluated a x = evaluated b x"
  by (simp add: rule_of_def evaluated_def is_firing_def)

lemma evaluate_one_effect:
  assumes "in_i64 (now (fst am) - 86400000)" and "alerts_get (fst st) (fst am) = Some a"
  shows "\<exists>st'. evaluate_one F checks now C w t ms am st = Some st' \<and> rules st' = rules st \<and>
    states st' = (states st)(fst am \<mapsto> next_state (measured F checks (now (fst am)) ms (snd am)) a)"
proof (cases "metric_name_new (snd am)")
  case (Inl e)
  then show ?thesis using assms(2) by (auto simp: evaluate_one_def measured_def next_state_def states_def)
next
  case (Inr n)
  obtain v where v: "last_value F checks (now (fst am)) ms n = Some v" using last_value_returns [OF assms(1)] by blast
  show ?thesis
  proof (cases v)
    case None
    then show ?thesis using assms(2) Inr v by (auto simp: evaluate_one_def measured_def next_state_def states_def)
  next
    case (Some x)
    then show ?thesis using Inr v evaluation_effect [OF assms(2)] by (auto simp: evaluate_one_def measured_def next_state_def)
  qed
qed

lemma evaluate_each_effect:
  assumes "\<forall>x \<in> set xs. in_i64 (now (fst x) - 86400000) \<and> alerts_get (fst st0) (fst x) \<noteq> None" and "distinct (map fst xs)"
    and "rules st = rules st0" and "\<forall>x \<in> set xs. states st (fst x) = states st0 (fst x)"
  shows "\<exists>st'. evaluate_each (evaluate_one F checks now C w t ms) xs st = Some st' \<and> rules st' = rules st0 \<and>
    (\<forall>n. states st' n = (case map_of xs n of None \<Rightarrow> states st n
        | Some m \<Rightarrow> Some (next_state (measured F checks (now n) ms m) (the (alerts_get (fst st0) n)))))"
  using assms
proof (induction xs arbitrary: st)
  case (Cons x xs)
  obtain a0 where a0: "alerts_get (fst st0) (fst x) = Some a0" using Cons.prems(1) by auto
  obtain a where a: "alerts_get (fst st) (fst x) = Some a" and ra: "rule_of a = rule_of a0"
    using a0 fun_cong [OF Cons.prems(3), of "fst x"] by (auto simp: rules_def)
  have sa: "alert_state a = alert_state a0" using a a0 Cons.prems(4) by (auto simp: states_def)
  have same: "next_state v a = next_state v a0" for v
    by (simp add: next_state_def sa evaluated_rule [OF ra sa] split: option.split)
  obtain st1 where st1: "evaluate_one F checks now C w t ms x st = Some st1" "rules st1 = rules st"
    "states st1 = (states st)(fst x \<mapsto> next_state (measured F checks (now (fst x)) ms (snd x)) a0)"
    using evaluate_one_effect [of now x st a F checks C w t ms] a Cons.prems(1) by (auto simp: same)
  have "\<forall>y \<in> set xs. states st1 (fst y) = states st0 (fst y)" using Cons.prems(2,4) st1(3) by (auto simp: image_iff)
  from Cons.IH [OF _ _ _ this] Cons.prems st1(2) obtain st' where st':
    "evaluate_each (evaluate_one F checks now C w t ms) xs st1 = Some st'" "rules st' = rules st0"
    "\<forall>n. states st' n = (case map_of xs n of None \<Rightarrow> states st1 n
        | Some m \<Rightarrow> Some (next_state (measured F checks (now n) ms m) (the (alerts_get (fst st0) n))))" by auto
  have "fst x \<notin> dom (map_of xs)" using Cons.prems(2) by (simp add: dom_map_of_conv_image_fst)
  then show ?case using st' st1(1,3) a0 by (cases x) (auto split: option.splits)
qed auto

theorem alerts_follow_metrics:
  assumes "alerts_keyed (fst st)" and "\<forall>n. in_i64 (now n - 86400000)"
  shows "\<exists>st'. evaluate_alerts F checks now C w t ms st = Some st' \<and> rules st' = rules st \<and>
    (\<forall>n. states st' n = map_option (\<lambda>a. next_state (measured F checks (now n) ms (alert_metric a)) a) (alerts_get (fst st) n))"
proof -
  let ?xs = "map (\<lambda>a. (alert_name a, alert_metric a)) (alerts_list (fst st))"
  have key: "alert_name a = k" if "(k, a) \<in> set (entries (fst st))" for k a using assms(1) that by (auto simp: alerts_keyed_def)
  have xs: "?xs = map (\<lambda>(k, a). (k, alert_metric a)) (entries (fst st))" using key by (auto simp: alerts_list_def store_list_def)
  have of: "map_of ?xs n = map_option alert_metric (alerts_get (fst st) n)" for n
    unfolding xs by (simp add: map_of_map alerts_get_def store_get_def)
  have "distinct (map fst ?xs)" unfolding xs using assms(1) by (simp add: alerts_keyed_def comp_def case_prod_beta)
  moreover have "\<forall>x \<in> set ?xs. in_i64 (now (fst x) - 86400000) \<and> alerts_get (fst st) (fst x) \<noteq> None"
    using assms(2) unfolding xs by (auto simp: alerts_get_def store_get_def map_of_eq_None_iff image_iff) force
  ultimately obtain st' where "evaluate_alerts F checks now C w t ms st = Some st'" "rules st' = rules st"
    "\<forall>n. states st' n = (case map_of ?xs n of None \<Rightarrow> states st n
        | Some m \<Rightarrow> Some (next_state (measured F checks (now n) ms m) (the (alerts_get (fst st) n))))"
    using evaluate_each_effect [of ?xs now st st F checks C w t ms] unfolding evaluate_alerts_def by auto
  then show ?thesis unfolding of by (auto simp: states_def split: option.splits)
qed

lemma keyed_put: "alerts_keyed (fst st) \<Longrightarrow> alert_name a = n \<Longrightarrow> alerts_keyed (fst (snapshot C w (put n a st)))"
  by (simp add: alerts_keyed_def)

lemma keyed_get: "alerts_keyed s \<Longrightarrow> hm_get (entries s) n = Some a \<Longrightarrow> alert_name a = n"
  by (simp add: alerts_keyed_def)

lemma created_alerts_keyed:
  assumes "alerts_keyed (fst st)" shows "alerts_keyed (fst (snd (handle_alerts_create C w now dec st)))"
  using assms by (simp add: handle_alerts_create_def alerts_create_def store_create_def keyed_put split: sum.split)

lemma evaluation_keeps_keyed:
  assumes "alerts_keyed (fst st)" shows "alerts_keyed (fst (snd (alerts_evaluate C w n x now st)))"
  using assms keyed_get [OF assms, of n] by (simp add: alerts_evaluate_def Let_def keyed_put split: option.split)

lemma acknowledge_keeps_keyed:
  assumes "alerts_keyed (fst st)" shows "alerts_keyed (fst (snd (handle_alerts_acknowledge C w now dec st)))"
  using assms keyed_get [OF assms] by (simp add: handle_alerts_acknowledge_def alerts_acknowledge_def keyed_put split: sum.split option.split)

text \<open>The creation of an alert does not check the name of its metric: with an invalid name it is accepted and never changes its state.\<close>

lemma invalid_metric_never_fires:
  "metric_name_new (alert_metric a) = Inl e \<Longrightarrow> next_state (measured F checks now ms (alert_metric a)) a = alert_state a"
  by (simp add: measured_def next_state_def)

text \<open>
  The GPUs of a node share one series: the last value is that of one of them. Here the first GPU is at 95 degrees and the second at
  40, and an alert above 90 sees 40.
\<close>

definition two_gpus :: "gpu_sample list" where
  "two_gpus = [\<lparr>gs_index = 0, gs_uuid = ''GPU-0'', gs_utilization_percent = 50, gs_memory_used_mb = 1, gs_memory_total_mb = 80,
      gs_temperature_c = 95, gs_power_draw_w = None, gs_power_limit_w = None\<rparr>,
     \<lparr>gs_index = 1, gs_uuid = ''GPU-1'', gs_utilization_percent = 50, gs_memory_used_mb = 1, gs_memory_total_mb = 80,
      gs_temperature_c = 40, gs_power_draw_w = None, gs_power_limit_w = None\<rparr>]"

lemma gpu_names:
  "metric_name_new ''gpu:utilization_percent'' = Inr ''gpu:utilization_percent''"
  "metric_name_new ''gpu:memory_used_mb'' = Inr ''gpu:memory_used_mb''"
  "metric_name_new ''gpu:temperature_c'' = Inr ''gpu:temperature_c''"
  by (simp_all add: metric_name_new_def MAX_LENGTH_def ascii_alphanumeric_def ascii_alphabetic_def)

lemma hot_gpu_hidden:
  "map_option (\<lambda>ms. measured zero_ops True 100000 ms ''gpu:temperature_c'')
     (push_all (\<lambda>i. push_measurement linear_search True (90000 + int i) (90000 + int i)) 0
       (concat (map (gpu_measurements zero_ops) two_gpus)) (store_new (86400 * 1000000000))) =
   Some (Some (Fin 40))"
  by (simp add: two_gpus_def gpu_measurements_def push_measurement_def push_metric_labeled_def gpu_names measured_def zero_ops_def
      last_value_def range_defs demo_store_defs first_value_def point_label_def fl_u64_def)

end
