(* ===== verification/Tensors.thy ===== *)
theory Tensors
  imports Byte_Encoding
begin

text \<open>
  Tensors and the operations on them, \<open>crates/claw-compute/src/tensor.rs\<close>, \<open>kernels.rs\<close>, \<open>error.rs\<close>, the GPU dispatch of \<open>gpu.rs\<close> and
  the choice of a device of \<open>device.rs\<close>. Values of \<open>f32\<close> are their 32 bits, and the arithmetic on them is a parameter. A \<open>usize\<close> is a
  natural number with the wrap-around at 64 bits written out; a panic (a failed assertion, an index out of range, an overflow in a
  checked build, a vector that exceeds the address space) is \<^const>\<open>None\<close>.
\<close>

unbundle bit_operations_syntax

section \<open>Machine integers and loops\<close>

definition op_usize :: "bool \<Rightarrow> nat \<Rightarrow> nat option" where
  "op_usize checks x = (if x < 2 ^ 64 then Some x else if checks then None else Some (x mod 2 ^ 64))"

text \<open>A vector of \<open>n\<close> elements of a size; more than \<open>isize::MAX\<close> bytes panics.\<close>

definition vec_of :: "nat \<Rightarrow> nat \<Rightarrow> 'a \<Rightarrow> 'a list option" where
  "vec_of width n x = (if n * width < 2 ^ 63 then Some (replicate n x) else None)"

definition index_of :: "'a list \<Rightarrow> nat \<Rightarrow> 'a option" where
  "index_of xs i = (if i < length xs then Some (xs ! i) else None)"

definition store_at :: "'a list \<Rightarrow> nat \<Rightarrow> 'a \<Rightarrow> 'a list option" where
  "store_at xs i x = (if i < length xs then Some (xs[i := x]) else None)"

fun for_each :: "('x \<Rightarrow> 's \<Rightarrow> 's option) \<Rightarrow> 'x list \<Rightarrow> 's \<Rightarrow> 's option" where
  "for_each f [] s = Some s"
| "for_each f (x # xs) s = Option.bind (f x s) (for_each f xs)"

section \<open>Types and shapes\<close>

datatype compute_error =
    NoDevice
  | DeviceInit string
  | KernelCompilation string
  | KernelLaunch string
  | MemoryAllocation nat
  | InvalidShape "nat list" "nat list"
  | UnsupportedOperation string string
  | Sync string

datatype dtype = F32 | F16 | Bf16 | F64 | I32 | I64

fun dtype_size_bytes :: "dtype \<Rightarrow> nat" where
  "dtype_size_bytes F32 = 4"
| "dtype_size_bytes I32 = 4"
| "dtype_size_bytes F16 = 2"
| "dtype_size_bytes Bf16 = 2"
| "dtype_size_bytes F64 = 8"
| "dtype_size_bytes I64 = 8"

fun dtype_name :: "dtype \<Rightarrow> string" where
  "dtype_name F32 = ''f32''"
| "dtype_name F16 = ''f16''"
| "dtype_name Bf16 = ''bf16''"
| "dtype_name F64 = ''f64''"
| "dtype_name I32 = ''i32''"
| "dtype_name I64 = ''i64''"

record shape =
  sh_dims :: "nat list"

definition shape_new :: "nat list \<Rightarrow> shape" where "shape_new ds = \<lparr>sh_dims = ds\<rparr>"
definition shape_scalar :: shape where "shape_scalar = \<lparr>sh_dims = []\<rparr>"
definition shape_d1 :: "nat \<Rightarrow> shape" where "shape_d1 n = \<lparr>sh_dims = [n]\<rparr>"
definition shape_d2 :: "nat \<Rightarrow> nat \<Rightarrow> shape" where "shape_d2 r c = \<lparr>sh_dims = [r, c]\<rparr>"
definition shape_d3 :: "nat \<Rightarrow> nat \<Rightarrow> nat \<Rightarrow> shape" where "shape_d3 a b c = \<lparr>sh_dims = [a, b, c]\<rparr>"
definition shape_d4 :: "nat \<Rightarrow> nat \<Rightarrow> nat \<Rightarrow> nat \<Rightarrow> shape" where "shape_d4 a b c d = \<lparr>sh_dims = [a, b, c, d]\<rparr>"

definition ndim :: "shape \<Rightarrow> nat" where
  "ndim s = length (sh_dims s)"

definition numel :: "bool \<Rightarrow> shape \<Rightarrow> nat option" where
  "numel checks s = (if sh_dims s = [] then Some 1 else for_each (\<lambda>d p. op_usize checks (p * d)) (sh_dims s) 1)"

definition dim :: "shape \<Rightarrow> nat \<Rightarrow> nat option" where
  "dim s i = index_of (sh_dims s) i"

text \<open>\<open>get(ndim.saturating_sub(i + 1)).unwrap_or(1)\<close>\<close>

definition dim_from_end :: "shape \<Rightarrow> nat \<Rightarrow> nat" where
  "dim_from_end s i = (case index_of (sh_dims s) (ndim s - (i + 1)) of None \<Rightarrow> 1 | Some d \<Rightarrow> d)"

definition is_broadcastable_with :: "shape \<Rightarrow> shape \<Rightarrow> bool" where
  "is_broadcastable_with a b \<longleftrightarrow>
     list_all (\<lambda>i. \<not> (dim_from_end a i \<noteq> dim_from_end b i \<and> dim_from_end a i \<noteq> 1 \<and> dim_from_end b i \<noteq> 1))
       [0..<max (ndim a) (ndim b)]"

definition show_shape :: "shape \<Rightarrow> string" where
  "show_shape s = ''['' @ concat (map (\<lambda>(i, d). (if 0 < i then '', '' else []) @ show_nat d) (enumerate 0 (sh_dims s))) @ '']''"

section \<open>Tensors\<close>

record tensor_meta =
  tm_shape :: shape
  tm_dtype :: dtype

definition meta_size_bytes :: "bool \<Rightarrow> tensor_meta \<Rightarrow> nat option" where
  "meta_size_bytes checks m = Option.bind (numel checks (tm_shape m)) (\<lambda>n. op_usize checks (n * dtype_size_bytes (tm_dtype m)))"

record cpu_tensor =
  ct_meta :: tensor_meta
  ct_data :: "u8 list"

type_synonym f32b = "32 word"

definition f32_from_le_bytes :: "u8 list \<Rightarrow> f32b" where
  "f32_from_le_bytes bs = foldr (\<lambda>b w. push_bit 8 w OR ucast b) bs 0"

definition from_f32 :: "bool \<Rightarrow> shape \<Rightarrow> f32b list \<Rightarrow> cpu_tensor option" where
  "from_f32 checks s xs =
     Option.bind (numel checks s) (\<lambda>n.
       if n = length xs
       then Some \<lparr>ct_meta = \<lparr>tm_shape = s, tm_dtype = F32\<rparr>, ct_data = concat (map (le_bytes 4) xs)\<rparr>
       else None)"

definition tensor_zeros :: "bool \<Rightarrow> shape \<Rightarrow> dtype \<Rightarrow> cpu_tensor option" where
  "tensor_zeros checks s d =
     Option.bind (numel checks s) (\<lambda>n. Option.bind (op_usize checks (n * dtype_size_bytes d)) (\<lambda>len.
       map_option (\<lambda>bs. \<lparr>ct_meta = \<lparr>tm_shape = s, tm_dtype = d\<rparr>, ct_data = bs\<rparr>) (vec_of 1 len 0)))"

text \<open>The bits of 1.0.\<close>

definition one_f32 :: f32b where
  "one_f32 = 0x3F800000"

definition tensor_ones :: "bool \<Rightarrow> shape \<Rightarrow> cpu_tensor option" where
  "tensor_ones checks s =
     Option.bind (numel checks s) (\<lambda>n. Option.bind (vec_of 4 n one_f32) (\<lambda>xs. from_f32 checks s xs))"

fun chunks4 :: "'a list \<Rightarrow> 'a list list" where
  "chunks4 (a # b # c # d # xs) = [a, b, c, d] # chunks4 xs"
| "chunks4 xs = []"

definition as_f32 :: "cpu_tensor \<Rightarrow> compute_error + f32b list" where
  "as_f32 t =
     (if tm_dtype (ct_meta t) \<noteq> F32 then Inl (InvalidShape [] [])
      else Inr (map f32_from_le_bytes (chunks4 (ct_data t))))"

section \<open>Kernels on the processor\<close>

record f32_ops =
  f_add :: "f32b \<Rightarrow> f32b \<Rightarrow> f32b"
  f_sub :: "f32b \<Rightarrow> f32b \<Rightarrow> f32b"
  f_mul :: "f32b \<Rightarrow> f32b \<Rightarrow> f32b"
  f_div :: "f32b \<Rightarrow> f32b \<Rightarrow> f32b"
  f_sum :: "f32b list \<Rightarrow> f32b"
  f_neg :: "f32b \<Rightarrow> f32b"
  f_max :: "f32b \<Rightarrow> f32b \<Rightarrow> f32b"
  f_exp :: "f32b \<Rightarrow> f32b"
  f_erf :: "f32b \<Rightarrow> f32b"
  f_sqrt :: "f32b \<Rightarrow> f32b"
  f_tanh :: "f32b \<Rightarrow> f32b"

text \<open>The bits of 0.5, 2.0 and of the negative infinity; those of 0.0 are zero.\<close>

definition half_f32 :: f32b where "half_f32 = 0x3F000000"
definition two_f32 :: f32b where "two_f32 = 0x40000000"
definition neg_inf_f32 :: f32b where "neg_inf_f32 = 0xFF800000"

text \<open>An answer: \<^const>\<open>None\<close> for a panic, or the library's result.\<close>

type_synonym answer = "(compute_error + cpu_tensor) option"

definition elementwise :: "bool \<Rightarrow> (f32b list \<Rightarrow> f32b list) \<Rightarrow> cpu_tensor \<Rightarrow> answer" where
  "elementwise checks f t =
     (case as_f32 t of
        Inl e \<Rightarrow> Some (Inl e)
      | Inr xs \<Rightarrow> map_option Inr (from_f32 checks (tm_shape (ct_meta t)) (f xs)))"

definition gelu :: "f32_ops \<Rightarrow> bool \<Rightarrow> cpu_tensor \<Rightarrow> answer" where
  "gelu F checks =
     elementwise checks (map (\<lambda>x. f_mul F (f_mul F x half_f32) (f_add F one_f32 (f_erf F (f_div F x (f_sqrt F two_f32))))))"

definition relu :: "f32_ops \<Rightarrow> bool \<Rightarrow> cpu_tensor \<Rightarrow> answer" where
  "relu F checks = elementwise checks (map (\<lambda>x. f_max F x 0))"

definition silu :: "f32_ops \<Rightarrow> bool \<Rightarrow> cpu_tensor \<Rightarrow> answer" where
  "silu F checks = elementwise checks (map (\<lambda>x. f_div F x (f_add F one_f32 (f_exp F (f_neg F x)))))"

definition softmax_values :: "f32_ops \<Rightarrow> f32b list \<Rightarrow> f32b list" where
  "softmax_values F xs =
     (let m = foldl (f_max F) neg_inf_f32 xs;
          es = map (\<lambda>x. f_exp F (f_sub F x m)) xs;
          s = f_sum F es
      in map (\<lambda>x. f_div F x s) es)"

definition softmax :: "f32_ops \<Rightarrow> bool \<Rightarrow> cpu_tensor \<Rightarrow> answer" where
  "softmax F checks = elementwise checks (softmax_values F)"

definition pairwise :: "bool \<Rightarrow> (f32b \<Rightarrow> f32b \<Rightarrow> f32b) \<Rightarrow> cpu_tensor \<Rightarrow> cpu_tensor \<Rightarrow> answer" where
  "pairwise checks f a b =
     (if tm_shape (ct_meta a) \<noteq> tm_shape (ct_meta b)
      then Some (Inl (InvalidShape (sh_dims (tm_shape (ct_meta a))) (sh_dims (tm_shape (ct_meta b)))))
      else (case as_f32 a of
              Inl e \<Rightarrow> Some (Inl e)
            | Inr xs \<Rightarrow>
                (case as_f32 b of
                   Inl e \<Rightarrow> Some (Inl e)
                 | Inr ys \<Rightarrow> map_option Inr (from_f32 checks (tm_shape (ct_meta a)) (map2 f xs ys)))))"

definition tensor_add :: "f32_ops \<Rightarrow> bool \<Rightarrow> cpu_tensor \<Rightarrow> cpu_tensor \<Rightarrow> answer" where
  "tensor_add F checks = pairwise checks (f_add F)"

definition tensor_mul :: "f32_ops \<Rightarrow> bool \<Rightarrow> cpu_tensor \<Rightarrow> cpu_tensor \<Rightarrow> answer" where
  "tensor_mul F checks = pairwise checks (f_mul F)"

definition scale :: "f32_ops \<Rightarrow> bool \<Rightarrow> f32b \<Rightarrow> cpu_tensor \<Rightarrow> answer" where
  "scale F checks k = elementwise checks (map (\<lambda>x. f_mul F x k))"

text \<open>The three loops of the matrix product; each index is computed in machine arithmetic.\<close>

definition flat_index :: "bool \<Rightarrow> nat \<Rightarrow> nat \<Rightarrow> nat \<Rightarrow> nat option" where
  "flat_index checks i width j = Option.bind (op_usize checks (i * width)) (\<lambda>p. op_usize checks (p + j))"

definition dot_loop :: "f32_ops \<Rightarrow> bool \<Rightarrow> f32b list \<Rightarrow> f32b list \<Rightarrow> nat \<Rightarrow> nat \<Rightarrow> nat \<Rightarrow> nat \<Rightarrow> f32b option" where
  "dot_loop F checks xs ys inner cols row col =
     for_each (\<lambda>idx sum.
         Option.bind (Option.bind (flat_index checks row inner idx) (index_of xs)) (\<lambda>x.
         Option.bind (Option.bind (flat_index checks idx cols col) (index_of ys)) (\<lambda>y.
         Some (f_add F sum (f_mul F x y))))) [0..<inner] 0"

definition product_loop :: "f32_ops \<Rightarrow> bool \<Rightarrow> f32b list \<Rightarrow> f32b list \<Rightarrow> nat \<Rightarrow> nat \<Rightarrow> nat \<Rightarrow> f32b list option" where
  "product_loop F checks xs ys rows inner cols =
     Option.bind (op_usize checks (rows * cols)) (\<lambda>n. Option.bind (vec_of 4 n 0) (\<lambda>out.
       for_each (\<lambda>row out.
           for_each (\<lambda>col out.
               Option.bind (dot_loop F checks xs ys inner cols row col) (\<lambda>sum.
               Option.bind (flat_index checks row cols col) (\<lambda>p. store_at out p sum))) [0..<cols] out) [0..<rows] out))"

definition matmul :: "f32_ops \<Rightarrow> bool \<Rightarrow> cpu_tensor \<Rightarrow> cpu_tensor \<Rightarrow> answer" where
  "matmul F checks lhs rhs =
     (case (sh_dims (tm_shape (ct_meta lhs)), sh_dims (tm_shape (ct_meta rhs))) of
        ([rows, inner], [inner2, cols]) \<Rightarrow>
          if inner \<noteq> inner2 then Some (Inl (InvalidShape [inner, cols] [inner2, cols]))
          else (case as_f32 lhs of
                  Inl e \<Rightarrow> Some (Inl e)
                | Inr xs \<Rightarrow>
                    (case as_f32 rhs of
                       Inl e \<Rightarrow> Some (Inl e)
                     | Inr ys \<Rightarrow>
                         Option.bind (product_loop F checks xs ys rows inner cols) (\<lambda>out.
                           map_option Inr (from_f32 checks (shape_new [rows, cols]) out))))
      | _ \<Rightarrow> Some (Inl (UnsupportedOperation ''CPU'' ''matmul requires 2D tensors'')))"

section \<open>Kernels on the GPU\<close>

definition MAX_WORKGROUP_SIZE :: u32 where "MAX_WORKGROUP_SIZE = 256"

definition compute_dispatch :: "bool \<Rightarrow> nat \<Rightarrow> (u32 \<times> u32) option" where
  "compute_dispatch checks n =
     (let len = of_nat n :: u32
      in if len \<le> MAX_WORKGROUP_SIZE then Some (1, len)
         else if checks \<and> 2 ^ 32 \<le> unat len + unat MAX_WORKGROUP_SIZE then None
         else Some ((len + MAX_WORKGROUP_SIZE - 1) div MAX_WORKGROUP_SIZE, MAX_WORKGROUP_SIZE))"

text \<open>A kernel is run at each of the positions of the dispatch, in an order that the library chooses; it writes at its own position.\<close>

type_synonym kernel = "nat \<Rightarrow> f32b list \<Rightarrow> f32b list"

definition pointwise :: "nat \<Rightarrow> (nat \<Rightarrow> f32b) \<Rightarrow> kernel" where
  "pointwise n f p out = (if p < n then out[p := f p] else out)"

definition vector_add_kernel :: "f32_ops \<Rightarrow> f32b list \<Rightarrow> f32b list \<Rightarrow> kernel" where
  "vector_add_kernel F a b = pointwise (length a) (\<lambda>p. f_add F (a ! p) (b ! p))"

definition vector_mul_kernel :: "f32_ops \<Rightarrow> f32b list \<Rightarrow> f32b list \<Rightarrow> kernel" where
  "vector_mul_kernel F a b = pointwise (length a) (\<lambda>p. f_mul F (a ! p) (b ! p))"

definition scalar_mul_kernel :: "f32_ops \<Rightarrow> f32b list \<Rightarrow> f32b \<Rightarrow> kernel" where
  "scalar_mul_kernel F xs k = pointwise (length xs) (\<lambda>p. f_mul F (xs ! p) k)"

text \<open>The approximation by the hyperbolic tangent, with the bits of 0.7978845608 and 0.044715.\<close>

definition gelu_approx :: "f32_ops \<Rightarrow> f32b \<Rightarrow> f32b" where
  "gelu_approx F x =
     (let x3 = f_mul F (f_mul F x x) x;
          inner = f_mul F 0x3F4C422A (f_add F x (f_mul F 0x3D372713 x3))
      in f_mul F (f_mul F x half_f32) (f_add F one_f32 (f_tanh F inner)))"

definition gelu_kernel :: "f32_ops \<Rightarrow> f32b list \<Rightarrow> kernel" where
  "gelu_kernel F xs = pointwise (length xs) (\<lambda>p. gelu_approx F (xs ! p))"

definition relu_kernel :: "f32_ops \<Rightarrow> f32b list \<Rightarrow> kernel" where
  "relu_kernel F xs = pointwise (length xs) (\<lambda>p. f_max F (xs ! p) 0)"

text \<open>
  The library: the positions at which a dispatch runs the kernel, the contents of a fresh buffer, and the failure of a launch.
\<close>

record gpu_client =
  positions :: "nat \<Rightarrow> nat \<Rightarrow> nat list"
  fresh_buffer :: "nat \<Rightarrow> f32b list"
  launch_error :: "u32 \<times> u32 \<Rightarrow> string option"

definition run_kernel :: "gpu_client \<Rightarrow> bool \<Rightarrow> nat \<Rightarrow> kernel \<Rightarrow> (string + f32b list) option" where
  "run_kernel G checks n k =
     map_option (\<lambda>d.
         case launch_error G d of
           Some e \<Rightarrow> Inl (''Kernel launch failed: '' @ e)
         | None \<Rightarrow> Inr (fold k (positions G (unat (fst d)) (unat (snd d))) (fresh_buffer G n)))
       (compute_dispatch checks n)"

definition gpu_add :: "gpu_client \<Rightarrow> f32_ops \<Rightarrow> bool \<Rightarrow> f32b list \<Rightarrow> f32b list \<Rightarrow> (string + f32b list) option" where
  "gpu_add G F checks a b =
     (if length a \<noteq> length b then Some (Inl ''Vector lengths must match'')
      else run_kernel G checks (length a) (vector_add_kernel F a b))"

definition gpu_mul :: "gpu_client \<Rightarrow> f32_ops \<Rightarrow> bool \<Rightarrow> f32b list \<Rightarrow> f32b list \<Rightarrow> (string + f32b list) option" where
  "gpu_mul G F checks a b =
     (if length a \<noteq> length b then Some (Inl ''Vector lengths must match'')
      else run_kernel G checks (length a) (vector_mul_kernel F a b))"

definition gpu_scale :: "gpu_client \<Rightarrow> f32_ops \<Rightarrow> bool \<Rightarrow> f32b list \<Rightarrow> f32b \<Rightarrow> (string + f32b list) option" where
  "gpu_scale G F checks xs k = run_kernel G checks (length xs) (scalar_mul_kernel F xs k)"

definition gpu_gelu :: "gpu_client \<Rightarrow> f32_ops \<Rightarrow> bool \<Rightarrow> f32b list \<Rightarrow> (string + f32b list) option" where
  "gpu_gelu G F checks xs = run_kernel G checks (length xs) (gelu_kernel F xs)"

definition gpu_relu :: "gpu_client \<Rightarrow> f32_ops \<Rightarrow> bool \<Rightarrow> f32b list \<Rightarrow> (string + f32b list) option" where
  "gpu_relu G F checks xs = run_kernel G checks (length xs) (relu_kernel F xs)"

section \<open>Devices\<close>

datatype platform = Cuda | Metal | Rocm | Vulkan | WebGpu | Cpu

fun platform_name :: "platform \<Rightarrow> string" where
  "platform_name Cuda = ''CUDA''"
| "platform_name Metal = ''Metal''"
| "platform_name Rocm = ''ROCm''"
| "platform_name Vulkan = ''Vulkan''"
| "platform_name WebGpu = ''WebGPU''"
| "platform_name Cpu = ''CPU''"

definition supports_tensor_cores :: "platform \<Rightarrow> bool" where "supports_tensor_cores p \<longleftrightarrow> p = Cuda"
definition platform_is_gpu :: "platform \<Rightarrow> bool" where "platform_is_gpu p \<longleftrightarrow> p \<noteq> Cpu"

record device_info =
  dv_platform :: platform
  dv_name :: string
  dv_index :: nat
  dv_memory_bytes :: u64
  dv_tensor_cores :: bool
  dv_compute_capability :: "string option"
  dv_fp16_support :: bool
  dv_bf16_support :: bool

text \<open>The features of the build and its target; a device is given by its information.\<close>

record build =
  with_cuda :: bool
  with_wgpu :: bool
  with_cpu :: bool
  on_macos :: bool

definition device_cuda :: "nat \<Rightarrow> compute_error + device_info" where
  "device_cuda i = Inr \<lparr>dv_platform = Cuda, dv_name = ''CUDA Device '' @ show_nat i, dv_index = i, dv_memory_bytes = 0, dv_tensor_cores = True,
     dv_compute_capability = Some ''8.0'', dv_fp16_support = True, dv_bf16_support = True\<rparr>"

definition device_metal :: "build \<Rightarrow> nat \<Rightarrow> compute_error + device_info" where
  "device_metal B i =
     (if \<not> on_macos B then Inl (UnsupportedOperation ''non-macOS'' ''Metal'')
      else Inr \<lparr>dv_platform = Metal, dv_name = ''Metal Device '' @ show_nat i, dv_index = i, dv_memory_bytes = 0, dv_tensor_cores = False,
        dv_compute_capability = Some ''Apple GPU'', dv_fp16_support = True, dv_bf16_support = False\<rparr>)"

definition device_vulkan :: "nat \<Rightarrow> compute_error + device_info" where
  "device_vulkan i = Inr \<lparr>dv_platform = Vulkan, dv_name = ''Vulkan Device '' @ show_nat i, dv_index = i, dv_memory_bytes = 0, dv_tensor_cores = False,
     dv_compute_capability = None, dv_fp16_support = True, dv_bf16_support = False\<rparr>"

definition device_rocm :: "nat \<Rightarrow> compute_error + device_info" where
  "device_rocm i = Inr \<lparr>dv_platform = Rocm, dv_name = ''ROCm Device '' @ show_nat i, dv_index = i, dv_memory_bytes = 0, dv_tensor_cores = False,
     dv_compute_capability = Some ''gfx90a'', dv_fp16_support = True, dv_bf16_support = True\<rparr>"

definition device_cpu :: "nat \<Rightarrow> compute_error + device_info" where
  "device_cpu cores = Inr \<lparr>dv_platform = Cpu, dv_name = ''CPU ('' @ show_nat cores @ '' cores)'', dv_index = 0, dv_memory_bytes = 0,
     dv_tensor_cores = False, dv_compute_capability = None, dv_fp16_support = False, dv_bf16_support = False\<rparr>"

text \<open>The devices that the build compiles in, in the order in which \<open>auto\<close> and \<open>discover_devices\<close> try them.\<close>

definition candidates :: "build \<Rightarrow> (compute_error + device_info) list" where
  "candidates B =
     (if with_cuda B then [device_cuda 0, device_rocm 0] else []) @
     (if with_wgpu B \<and> on_macos B then [device_metal B 0] else []) @
     (if with_wgpu B \<and> \<not> on_macos B then [device_vulkan 0] else [])"

definition device_auto :: "build \<Rightarrow> nat \<Rightarrow> compute_error + device_info" where
  "device_auto B cores =
     (case find (\<lambda>d. \<not> isl d) (candidates B) of
        Some d \<Rightarrow> d
      | None \<Rightarrow> if with_cpu B then device_cpu cores else Inl NoDevice)"

definition discover_devices :: "build \<Rightarrow> nat \<Rightarrow> device_info list" where
  "discover_devices B cores = map projr (filter (\<lambda>d. \<not> isl d) (candidates B @ (if with_cpu B then [device_cpu cores] else [])))"

lemmas device_defs = device_auto_def discover_devices_def candidates_def device_cuda_def device_rocm_def device_metal_def device_vulkan_def device_cpu_def

text \<open>The device that \<open>auto\<close> picks is the first that is discovered; it fails only when nothing is.\<close>

lemma auto_is_first:
  "device_auto B cores = (case discover_devices B cores of [] \<Rightarrow> Inl NoDevice | d # _ \<Rightarrow> Inr d)"
  by (simp add: device_defs)

text \<open>No device is asked for: a build with CUDA always picks CUDA, on a machine without a GPU too.\<close>

lemma auto_never_probes: "with_cuda B \<Longrightarrow> \<exists>d. device_auto B cores = Inr d \<and> dv_platform d = Cuda"
  by (simp add: device_defs)

section \<open>Reading a tensor back\<close>

lemma from_le_bytes_inverse [simp]: "f32_from_le_bytes (le_bytes 4 w) = w"
proof (rule bit_word_eqI)
  fix k assume "k < LENGTH(32)"
  then consider "k < 8" | "8 \<le> k" "k < 16" | "16 \<le> k" "k < 24" | "24 \<le> k" "k < 32" by fastforce
  then show "bit (f32_from_le_bytes (le_bytes 4 w)) k = bit w k"
    by cases (auto simp: f32_from_le_bytes_def le_bytes_def upt_rec bit_or_iff bit_push_bit_iff bit_ucast_iff bit_drop_bit_eq)
qed

lemma chunks4_block: "length b = 4 \<Longrightarrow> chunks4 (b @ bs) = b # chunks4 bs"
  by (auto simp: length_Suc_conv numeral_eq_Suc)

lemma chunks4_bytes: "chunks4 (concat (map (le_bytes 4) xs)) = map (le_bytes 4) xs"
  by (induction xs) (simp_all add: chunks4_block)

lemma length_bytes: "length (concat (map (le_bytes 4) xs)) = 4 * length xs"
  by (induction xs) simp_all

lemma from_f32_iff:
  "from_f32 checks s xs = Some t \<longleftrightarrow> numel checks s = Some (length xs) \<and>
     t = \<lparr>ct_meta = \<lparr>tm_shape = s, tm_dtype = F32\<rparr>, ct_data = concat (map (le_bytes 4) xs)\<rparr>"
  by (auto simp: from_f32_def bind_eq_Some_conv)

theorem tensor_roundtrip:
  assumes "from_f32 checks s xs = Some t"
  shows "as_f32 t = Inr xs \<and> tm_shape (ct_meta t) = s"
  using assms by (auto simp: from_f32_iff as_f32_def chunks4_bytes comp_def)

text \<open>What the operations keep: as many bytes as the shape and the type ask for.\<close>

definition tensor_ok :: "bool \<Rightarrow> cpu_tensor \<Rightarrow> bool" where
  "tensor_ok checks t \<longleftrightarrow> map_option (\<lambda>n. n * dtype_size_bytes (tm_dtype (ct_meta t))) (numel checks (tm_shape (ct_meta t))) = Some (length (ct_data t))"

lemma from_f32_ok: "from_f32 checks s xs = Some t \<Longrightarrow> tensor_ok checks t"
  by (auto simp: from_f32_iff tensor_ok_def length_bytes)

lemma length_chunks4: "length bs = 4 * n \<Longrightarrow> length (chunks4 bs) = n"
proof (induction n arbitrary: bs)
  case (Suc n)
  then obtain a b c d bs' where "bs = a # b # c # d # bs'" by (auto simp: length_Suc_conv numeral_eq_Suc)
  with Suc show ?case by simp
qed simp

lemma as_f32_length:
  assumes "tensor_ok checks t" and "as_f32 t = Inr xs"
  shows "numel checks (tm_shape (ct_meta t)) = Some (length xs)"
proof -
  have t: "tm_dtype (ct_meta t) = F32" "xs = map f32_from_le_bytes (chunks4 (ct_data t))"
    using assms(2) by (auto simp: as_f32_def split: if_splits)
  then obtain n where "numel checks (tm_shape (ct_meta t)) = Some n" "n * 4 = length (ct_data t)"
    using assms(1) by (auto simp: tensor_ok_def)
  with t(2) show ?thesis using length_chunks4 [of "ct_data t" n] by simp
qed

lemma elementwise_total:
  assumes "tensor_ok checks t" and "tm_dtype (ct_meta t) = F32" and "\<And>xs. length (f xs) = length xs"
  shows "\<exists>t' xs. elementwise checks f t = Some (Inr t') \<and> tensor_ok checks t' \<and> as_f32 t = Inr xs \<and> as_f32 t' = Inr (f xs) \<and>
    tm_shape (ct_meta t') = tm_shape (ct_meta t)"
proof -
  obtain xs where xs: "as_f32 t = Inr xs" using assms(2) by (simp add: as_f32_def)
  have "numel checks (tm_shape (ct_meta t)) = Some (length (f xs))" using as_f32_length [OF assms(1) xs] assms(3) by simp
  then obtain t' where "from_f32 checks (tm_shape (ct_meta t)) (f xs) = Some t'" by (auto simp: from_f32_iff)
  with xs show ?thesis using from_f32_ok tensor_roundtrip by (auto simp: elementwise_def)
qed

section \<open>The matrix product\<close>

lemma for_each_total:
  assumes "\<And>x s. x \<in> set xs \<Longrightarrow> I s \<Longrightarrow> f x s = Some (g x s) \<and> I (g x s)" and "I s"
  shows "for_each f xs s = Some (fold g xs s) \<and> I (fold g xs s)"
  using assms by (induction xs arbitrary: s) auto

lemma fold_update_other: "k \<notin> h ` set ps \<Longrightarrow> fold (\<lambda>p out. out[h p := v p]) ps out ! k = out ! k"
  by (induction ps arbitrary: out) auto

lemma fold_update_length [simp]: "length (fold (\<lambda>p out. out[h p := v p]) ps out) = length out"
  by (induction ps arbitrary: out) auto

lemma fold_update_nth:
  "inj_on h (set ps) \<Longrightarrow> p \<in> set ps \<Longrightarrow> h p < length out \<Longrightarrow> fold (\<lambda>p out. out[h p := v p]) ps out ! h p = v p"
proof (induction ps arbitrary: out)
  case (Cons q ps)
  show ?case
  proof (cases "p \<in> set ps")
    case True
    with Cons show ?thesis by simp
  next
    case False
    then have "p = q" "h p \<notin> h ` set ps" using Cons.prems by (auto simp: inj_on_def)
    then show ?thesis using Cons.prems by (simp add: fold_update_other)
  qed
qed simp

lemma fold_nested: "fold (\<lambda>x. fold (\<lambda>y. f (x, y)) ys) xs s = fold f (List.product xs ys) s"
  by (induction xs arbitrary: s) (simp_all add: fold_append fold_map comp_def)

lemma cell_bound: "i < r \<Longrightarrow> j < c \<Longrightarrow> i * c + j < r * (c :: nat)"
proof -
  assume "i < r" "j < c"
  then have "i * c + j < Suc i * c" by simp
  also have "\<dots> \<le> r * c" using \<open>i < r\<close> by (intro mult_le_mono) auto
  finally show ?thesis .
qed

lemma quarter: "(n :: nat) * 4 < 2 ^ 63 \<Longrightarrow> n < 2 ^ 64"
  by simp

lemma cell_inj: "inj_on (\<lambda>(i, j). i * c + j) {(i, j). j < (c :: nat)}"
proof (rule inj_onI, clarify)
  fix i j i' j' assume "j < c" "j' < c" "i * c + j = i' * c + j'"
  moreover have "(a * c + b) div c = a" "(a * c + b) mod c = b" if "b < c" for a b using that by simp_all
  ultimately show "i = i' \<and> j = j'" by metis
qed

lemma flat_index_in: "i < r \<Longrightarrow> j < c \<Longrightarrow> r * c < 2 ^ 64 \<Longrightarrow> flat_index checks i c j = Some (i * c + j)"
  using cell_bound [of i r j c] by (simp add: flat_index_def op_usize_def)

text \<open>The mathematical product: the terms of an element are added in the order of the inner index, from zero.\<close>

definition dot :: "f32_ops \<Rightarrow> f32b list \<Rightarrow> f32b list \<Rightarrow> nat \<Rightarrow> nat \<Rightarrow> nat \<Rightarrow> nat \<Rightarrow> f32b" where
  "dot F xs ys inner cols i j = fold (\<lambda>k s. f_add F s (f_mul F (xs ! (i * inner + k)) (ys ! (k * cols + j)))) [0..<inner] 0"

lemma dot_loop_dot:
  assumes "length xs = rows * inner" "length ys = inner * cols" "rows * inner < 2 ^ 64" "inner * cols < 2 ^ 64" "i < rows" "j < cols"
  shows "dot_loop F checks xs ys inner cols i j = Some (dot F xs ys inner cols i j)"
  unfolding dot_loop_def dot_def
proof (rule for_each_total [where I = "\<lambda>_. True", THEN conjunct1])
  fix k s assume "k \<in> set [0..<inner]"
  then have k: "k < inner" by simp
  show "Option.bind (Option.bind (flat_index checks i inner k) (index_of xs)) (\<lambda>x.
      Option.bind (Option.bind (flat_index checks k cols j) (index_of ys)) (\<lambda>y. Some (f_add F s (f_mul F x y)))) =
    Some (f_add F s (f_mul F (xs ! (i * inner + k)) (ys ! (k * cols + j)))) \<and> True"
    using k assms cell_bound [of i rows k inner] cell_bound [of k inner j cols]
    by (simp add: flat_index_in [of i rows] flat_index_in [of k inner] index_of_def)
qed simp

lemma product_loop_cells:
  assumes "length xs = rows * inner" "length ys = inner * cols" "rows * inner < 2 ^ 64" "inner * cols < 2 ^ 64" "rows * cols * 4 < 2 ^ 63"
  shows "\<exists>out. product_loop F checks xs ys rows inner cols = Some out \<and> length out = rows * cols \<and>
    (\<forall>i < rows. \<forall>j < cols. out ! (i * cols + j) = dot F xs ys inner cols i j)"
proof -
  let ?h = "\<lambda>(i, j). i * cols + j" and ?v = "\<lambda>(i, j). dot F xs ys inner cols i j" and ?ps = "List.product [0..<rows] [0..<cols]"
  let ?cell = "\<lambda>row col out. Option.bind (dot_loop F checks xs ys inner cols row col) (\<lambda>sum.
               Option.bind (flat_index checks row cols col) (\<lambda>p. store_at out p sum))"
  let ?upd = "\<lambda>p out. out[?h p := ?v p]"
  have size: "rows * cols < 2 ^ 64" by (rule quarter [OF assms(5)])
  have alloc: "vec_of 4 (rows * cols) (0 :: f32b) = Some (replicate (rows * cols) 0)"
    unfolding vec_of_def by (rule if_P [OF assms(5)])
  have nested: "fold (\<lambda>i. fold (\<lambda>j. ?upd (i, j)) [0..<cols]) [0..<rows] s = fold ?upd ?ps s" for s by (rule fold_nested)
  have cell: "?cell i j out = Some (?upd (i, j) out)" if "i < rows" "j < cols" "length out = rows * cols" for i j out
    using that cell_bound [of i rows j cols] size
    by (simp add: dot_loop_dot [OF assms(1-4)] flat_index_in [of i rows] store_at_def)
  have inner: "for_each (?cell i) [0..<cols] out = Some (fold (\<lambda>j. ?upd (i, j)) [0..<cols] out) \<and> length (fold (\<lambda>j. ?upd (i, j)) [0..<cols] out) = rows * cols"
    if "i < rows" "length out = rows * cols" for i out
    using that cell by (intro for_each_total [where I = "\<lambda>out. length out = rows * cols"]) simp_all
  have "for_each (\<lambda>i. for_each (?cell i) [0..<cols]) [0..<rows] (replicate (rows * cols) 0) =
      Some (fold (\<lambda>i. fold (\<lambda>j. ?upd (i, j)) [0..<cols]) [0..<rows] (replicate (rows * cols) 0)) \<and>
      length (fold (\<lambda>i. fold (\<lambda>j. ?upd (i, j)) [0..<cols]) [0..<rows] (replicate (rows * cols) 0)) = rows * cols"
    by (rule for_each_total [where I = "\<lambda>out. length out = rows * cols"]) (simp_all add: inner)
  then have "product_loop F checks xs ys rows inner cols = Some (fold ?upd ?ps (replicate (rows * cols) 0))"
    using size alloc by (simp add: product_loop_def op_usize_def flip: nested)
  moreover have "fold ?upd ?ps (replicate (rows * cols) 0) ! (i * cols + j) = dot F xs ys inner cols i j" if "i < rows" "j < cols" for i j
    using fold_update_nth [of ?h ?ps "(i, j)" "replicate (rows * cols) 0" ?v] that cell_bound [OF that]
    by (simp add: inj_on_subset [OF cell_inj] subset_iff)
  ultimately show ?thesis by auto
qed

lemma numel_matrix: "r < 2 ^ 64 \<Longrightarrow> r * c < 2 ^ 64 \<Longrightarrow> numel checks (shape_new [r, c]) = Some (r * c)"
  by (simp add: numel_def shape_new_def op_usize_def)

definition is_matrix :: "bool \<Rightarrow> cpu_tensor \<Rightarrow> nat \<Rightarrow> nat \<Rightarrow> f32b list \<Rightarrow> bool" where
  "is_matrix checks t r c xs \<longleftrightarrow> tensor_ok checks t \<and> tm_shape (ct_meta t) = shape_new [r, c] \<and> r < 2 ^ 64 \<and> r * c < 2 ^ 64 \<and> as_f32 t = Inr xs"

lemma is_matrix_length: "is_matrix checks t r c xs \<Longrightarrow> length xs = r * c"
  using as_f32_length [of checks t xs] by (auto simp: is_matrix_def numel_matrix)

lemma matrix_of:
  assumes "from_f32 checks (shape_new [r, c]) xs = Some t" and "r < 2 ^ 64" "r * c < 2 ^ 64"
  shows "is_matrix checks t r c xs"
  using from_f32_ok [OF assms(1)] tensor_roundtrip [OF assms(1)] assms(2,3) by (simp add: is_matrix_def)

text \<open>
  C37. The matrix product: for two sound matrices that fit together, with a result that fits the address space, in either build the
  loops over the flat vectors never leave the range of a vector nor overflow an index, and the result is the sound matrix of the product's
  shape whose element in row i and column j is the sum, in the order of the inner index, of the products of row i with column j.
\<close>

theorem matmul_correct:
  assumes "is_matrix checks a r k xs" and "is_matrix checks b k c ys" and "r * c * 4 < 2 ^ 63"
  shows "\<exists>t zs. matmul F checks a b = Some (Inr t) \<and> is_matrix checks t r c zs \<and>
    (\<forall>i < r. \<forall>j < c. zs ! (i * c + j) = dot F xs ys k c i j)"
proof -
  have ab: "tm_shape (ct_meta a) = shape_new [r, k]" "tm_shape (ct_meta b) = shape_new [k, c]" "as_f32 a = Inr xs" "as_f32 b = Inr ys"
    "r < 2 ^ 64" "r * k < 2 ^ 64" "k * c < 2 ^ 64"
    using assms(1,2) by (simp_all add: is_matrix_def)
  obtain out where out: "product_loop F checks xs ys r k c = Some out" "length out = r * c"
    "\<forall>i < r. \<forall>j < c. out ! (i * c + j) = dot F xs ys k c i j"
    using product_loop_cells [OF is_matrix_length [OF assms(1)] is_matrix_length [OF assms(2)] ab(6,7) assms(3)] by blast
  have rc: "r * c < 2 ^ 64" by (rule quarter [OF assms(3)])
  then obtain t where t: "from_f32 checks (shape_new [r, c]) out = Some t"
    using out(2) ab(5) by (auto simp: from_f32_iff numel_matrix)
  have "matmul F checks a b = Some (Inr t)" using ab out(1) t by (simp add: matmul_def shape_new_def)
  moreover have "is_matrix checks t r c out" by (rule matrix_of [OF t ab(5) rc])
  ultimately show ?thesis using out(3) by blast
qed

definition word_ops :: f32_ops where
  "word_ops = \<lparr>f_add = (+), f_sub = (-), f_mul = (*), f_div = (\<lambda>x y. x), f_sum = sum_list, f_neg = uminus, f_max = max, f_exp = id,
     f_erf = id, f_sqrt = id, f_tanh = id\<rparr>"

theorem matmul_correct_witness:
  "\<exists>a b t zs. from_f32 True (shape_new [2, 2]) [1, 2, 3, 4] = Some a \<and> from_f32 True (shape_new [2, 1]) [5, 6] = Some b \<and>
     matmul word_ops True a b = Some (Inr t) \<and> is_matrix True t 2 1 zs \<and> zs ! 0 = 17 \<and> zs ! 1 = 39"
proof -
  obtain a b where ab: "from_f32 True (shape_new [2, 2]) [1, 2, 3, 4] = Some a" "from_f32 True (shape_new [2, 1]) [5, 6] = Some b"
    by (simp add: from_f32_def numel_def shape_new_def op_usize_def)
  obtain t zs where t: "matmul word_ops True a b = Some (Inr t)" "is_matrix True t 2 1 zs"
    and z: "\<forall>i < 2. \<forall>j < 1. zs ! (i * 1 + j) = dot word_ops [1, 2, 3, 4] [5, 6] 2 1 i j"
    using matmul_correct [OF matrix_of [OF ab(1)] matrix_of [OF ab(2)], of word_ops] by auto
  have "zs ! 0 = 17" "zs ! 1 = 39" using z [rule_format, of 0 0] z [rule_format, of 1 0]
    by (simp_all add: dot_def word_ops_def upt_rec numeral_eq_Suc)
  with ab t show ?thesis by blast
qed

text \<open>Every operation on sound tensors keeps the shape and returns a sound tensor, or an error for another type of elements.\<close>

lemma kernels_total:
  assumes "tensor_ok checks t" and "tm_dtype (ct_meta t) = F32"
  shows "\<exists>t'. gelu F checks t = Some (Inr t') \<and> tensor_ok checks t' \<and> tm_shape (ct_meta t') = tm_shape (ct_meta t)"
    and "\<exists>t'. relu F checks t = Some (Inr t') \<and> tensor_ok checks t' \<and> tm_shape (ct_meta t') = tm_shape (ct_meta t)"
    and "\<exists>t'. silu F checks t = Some (Inr t') \<and> tensor_ok checks t' \<and> tm_shape (ct_meta t') = tm_shape (ct_meta t)"
    and "\<exists>t'. softmax F checks t = Some (Inr t') \<and> tensor_ok checks t' \<and> tm_shape (ct_meta t') = tm_shape (ct_meta t)"
    and "\<exists>t'. scale F checks k t = Some (Inr t') \<and> tensor_ok checks t' \<and> tm_shape (ct_meta t') = tm_shape (ct_meta t)"
  unfolding gelu_def relu_def silu_def softmax_def scale_def
  using elementwise_total [OF assms, of "map f" for f] elementwise_total [OF assms, of "softmax_values F"]
  by (fastforce simp: softmax_values_def Let_def)+

lemma pairwise_total:
  assumes "tensor_ok checks a" "tensor_ok checks b" "as_f32 a = Inr xs" "as_f32 b = Inr ys"
    and "tm_shape (ct_meta a) = tm_shape (ct_meta b)"
  shows "\<exists>t. pairwise checks f a b = Some (Inr t) \<and> tensor_ok checks t \<and> as_f32 t = Inr (map2 f xs ys)"
proof -
  have "numel checks (tm_shape (ct_meta a)) = Some (length (map2 f xs ys))"
    using as_f32_length [OF assms(1,3)] as_f32_length [OF assms(2,4)] assms(5) by simp
  then obtain t where "from_f32 checks (tm_shape (ct_meta a)) (map2 f xs ys) = Some t" by (auto simp: from_f32_iff)
  then show ?thesis using assms from_f32_ok tensor_roundtrip by (auto simp: pairwise_def)
qed

text \<open>
  The documentation of \<open>softmax\<close> says that it runs along the last dimension; it normalises over the whole tensor, whatever the shape.
\<close>

lemma softmax_ignores_shape:
  assumes "from_f32 checks s xs = Some t" "from_f32 checks s' xs = Some t'"
    and "softmax F checks t = Some (Inr u)" "softmax F checks t' = Some (Inr u')"
  shows "as_f32 u = as_f32 u'"
  using assms tensor_roundtrip [OF assms(1)] tensor_roundtrip [OF assms(2)]
  by (auto simp: softmax_def elementwise_def dest!: tensor_roundtrip)

text \<open>In the release profile the number of elements wraps: a shape of 2^64 elements takes no data.\<close>

lemma wrapped_shape_accepted:
  "from_f32 False (shape_new [4294967296, 4294967296]) [] \<noteq> None" "from_f32 True (shape_new [4294967296, 4294967296]) xs = None"
  by (simp_all add: from_f32_def numel_def shape_new_def op_usize_def)

section \<open>Broadcasting\<close>

text \<open>The usual rule, on the dimensions from the last to the first; missing ones count as one.\<close>

definition compatible :: "nat \<Rightarrow> nat \<Rightarrow> bool" where
  "compatible d e \<longleftrightarrow> d = e \<or> d = 1 \<or> e = 1"

definition broadcast_rule :: "shape \<Rightarrow> shape \<Rightarrow> bool" where
  "broadcast_rule a b \<longleftrightarrow> list_all2 compatible (take (min (ndim a) (ndim b)) (rev (sh_dims a))) (take (min (ndim a) (ndim b)) (rev (sh_dims b)))"

lemma dim_from_end_rev: "i < ndim s \<Longrightarrow> dim_from_end s i = rev (sh_dims s) ! i"
  by (auto simp: dim_from_end_def index_of_def ndim_def rev_nth)

lemma broadcastable_iff:
  "is_broadcastable_with a b \<longleftrightarrow> (\<forall>i < max (ndim a) (ndim b). compatible (dim_from_end a i) (dim_from_end b i))"
  by (auto simp: is_broadcastable_with_def list_all_iff compatible_def)

lemma broadcast_rule_iff: "broadcast_rule a b \<longleftrightarrow> (\<forall>i < min (ndim a) (ndim b). compatible (dim_from_end a i) (dim_from_end b i))"
  by (simp add: broadcast_rule_def list_all2_conv_all_nth dim_from_end_rev ndim_def)

theorem broadcast_same_rank: "ndim a = ndim b \<Longrightarrow> is_broadcastable_with a b \<longleftrightarrow> broadcast_rule a b"
  by (simp add: broadcastable_iff broadcast_rule_iff)

lemma broadcast_sound: "is_broadcastable_with a b \<Longrightarrow> broadcast_rule a b"
  by (auto simp: broadcastable_iff broadcast_rule_iff less_max_iff_disj)

lemma scalar_broadcasts: "is_broadcastable_with shape_scalar b" "is_broadcastable_with b shape_scalar"
  by (simp_all add: broadcastable_iff compatible_def dim_from_end_def shape_scalar_def ndim_def index_of_def)

text \<open>
  Past the rank of the shorter shape the saturating subtraction reads its first dimension again instead of one: a row vector does
  not broadcast with a batch of matrices.
\<close>

lemma row_not_broadcast:
  "broadcast_rule (shape_d3 2 3 4) (shape_d1 4)" "\<not> is_broadcastable_with (shape_d3 2 3 4) (shape_d1 4)"
  by (simp_all add: broadcast_rule_def is_broadcastable_with_def shape_d3_def shape_d1_def ndim_def dim_from_end_def index_of_def compatible_def
      upt_rec numeral_eq_Suc)

section \<open>The GPU kernels compute every element\<close>

text \<open>What the library promises: a dispatch runs the kernel at exactly its positions, and a buffer has the size asked for.\<close>

locale kernel_launcher =
  fixes G :: gpu_client
  assumes all_positions: "set (positions G c d) = {..<c * d}"
    and buffer_size: "length (fresh_buffer G n) = n"
begin

lemma pointwise_fold:
  assumes "length out = n"
  shows "fold (pointwise n f) ps out = map (\<lambda>i. if i \<in> set ps then f i else out ! i) [0..<n]"
  using assms
proof (induction ps arbitrary: out)
  case (Cons p ps)
  have "length (pointwise n f p out) = n" using Cons.prems by (simp add: pointwise_def)
  from Cons.IH [OF this] show ?case using Cons.prems by (auto simp: pointwise_def nth_list_update)
qed (simp, metis map_nth)

lemma covered:
  assumes "n \<le> unat (fst d) * unat (snd d)" and "compute_dispatch checks n = Some d" and "launch_error G d = None"
  shows "run_kernel G checks n (pointwise n f) = Some (Inr (map f [0..<n]))"
  using assms pointwise_fold [OF buffer_size, of n f] by (auto simp: run_kernel_def all_positions)

end

definition sequential_client :: gpu_client where
  "sequential_client = \<lparr>positions = (\<lambda>c d. [0..<c * d]), fresh_buffer = (\<lambda>n. replicate n 0), launch_error = (\<lambda>_. None)\<rparr>"

interpretation sequential: kernel_launcher sequential_client
  by unfold_locales (auto simp: sequential_client_def)

lemma dispatch_covers:
  assumes "n + 256 < 2 ^ 32"
  shows "\<exists>d. compute_dispatch checks n = Some d \<and> n \<le> unat (fst d) * unat (snd d)"
proof -
  have u: "unat (of_nat n :: u32) = n" using assms by (simp add: unat_of_nat)
  show ?thesis
  proof (cases "(of_nat n :: u32) \<le> 256")
    case True
    then show ?thesis using u by (simp add: compute_dispatch_def MAX_WORKGROUP_SIZE_def)
  next
    case False
    have "255 + of_nat n = (of_nat (n + 255) :: u32)" by simp
    moreover have "unat (of_nat (n + 255) :: u32) = n + 255" using assms by (simp only: unat_of_nat) simp
    ultimately have add: "unat (255 + of_nat n :: u32) = n + 255" by (simp only:)
    have "n \<le> (n + 255) div 256 * 256"
      using div_mult_mod_eq [of "n + 255" 256] mod_less_divisor [of 256 "n + 255"] by linarith
    then show ?thesis using False u assms by (simp add: compute_dispatch_def MAX_WORKGROUP_SIZE_def unat_div add)
  qed
qed

lemma run_kernel_pointwise:
  assumes "kernel_launcher G" and "\<And>d. launch_error G d = None" and "n + 256 < 2 ^ 32"
  shows "run_kernel G checks n (pointwise n f) = Some (Inr (map f [0..<n]))"
  using dispatch_covers [OF assms(3), of checks] kernel_launcher.covered [OF assms(1) _ _ assms(2)] by blast

lemma map2_nths: "length a = length b \<Longrightarrow> map (\<lambda>i. f (a ! i) (b ! i)) [0..<length a] = map2 f a b"
  by (rule nth_equalityI) simp_all

lemma map_nths: "map (\<lambda>i. f (xs ! i)) [0..<length xs] = map f xs"
  by (rule nth_equalityI) simp_all

theorem gpu_matches_cpu:
  assumes "kernel_launcher G" and "\<And>d. launch_error G d = None" and "length a = length b" and "length a + 256 < 2 ^ 32"
  shows "gpu_add G F checks a b = Some (Inr (map2 (f_add F) a b))"
    and "gpu_mul G F checks a b = Some (Inr (map2 (f_mul F) a b))"
    and "gpu_scale G F checks a k = Some (Inr (map (\<lambda>x. f_mul F x k) a))"
    and "gpu_relu G F checks a = Some (Inr (map (\<lambda>x. f_max F x 0) a))"
    and "gpu_gelu G F checks a = Some (Inr (map (gelu_approx F) a))"
  by (simp_all add: assms(3) [symmetric] gpu_add_def gpu_mul_def gpu_scale_def gpu_relu_def gpu_gelu_def vector_add_kernel_def vector_mul_kernel_def scalar_mul_kernel_def
      relu_kernel_def gelu_kernel_def run_kernel_pointwise [OF assms(1,2,4)] map2_nths map_nths
      map_nths [of "\<lambda>x. f_mul F x k"] map_nths [of "\<lambda>x. f_max F x 0"])

text \<open>A length of 2^32 is cut to zero: the kernel runs nowhere and the fresh buffer is returned as the sum.\<close>

lemma long_vectors_uncomputed:
  assumes "kernel_launcher G" and "\<And>d. launch_error G d = None" and "length a = 4294967296" "length b = 4294967296"
  shows "gpu_add G F checks a b = Some (Inr (fresh_buffer G 4294967296))"
proof -
  have "of_nat 4294967296 = (0 :: u32)" by simp
  then have d: "compute_dispatch checks 4294967296 = Some (1, 0)" unfolding compute_dispatch_def Let_def by (simp only: word_zero_le if_True)
  have "positions G 1 0 = []" using kernel_launcher.all_positions [OF assms(1), of 1 0] by simp
  with d show ?thesis using assms(2-4) by (simp add: gpu_add_def run_kernel_def)
qed

end
