(* ===== verification/Key_Material.thy ===== *)
theory Key_Material
  imports Json_Store Byte_Encoding Molt_Amount
begin

text \<open>
  Keys, wallets and device identities: \<open>crates/claw-wireguard/src/keys.rs\<close>, \<open>molt-core/src/wallet.rs\<close>, \<open>molt-token/src/wallet.rs\<close> and
  \<open>claw-identity/src/lib.rs\<close>. Curve and signature arithmetic, digests, the text encodings and JSON are a record of functions with a contract;
  random bytes are arguments. Files carry their contents and their mode.
\<close>

section \<open>The libraries\<close>

record stored_identity =
  si_version :: u8
  si_device_id :: string
  si_public_key :: string
  si_secret_key :: string
  si_created_at_ms :: u64

type_synonym bytes = "u8 list"

record key_library =
  ed_public :: "bytes \<Rightarrow> bytes"
  ed_sign :: "bytes \<Rightarrow> bytes \<Rightarrow> bytes"
  ed_valid_public :: "bytes \<Rightarrow> string option"
  ed_verify_strict :: "bytes \<Rightarrow> bytes \<Rightarrow> bytes \<Rightarrow> bool"
  x_public :: "bytes \<Rightarrow> bytes"
  sha256_hex :: "bytes \<Rightarrow> string"
  b58_encode :: "bytes \<Rightarrow> string"
  b58_decode :: "string \<Rightarrow> string + bytes"
  b64_encode :: "bytes \<Rightarrow> string"
  b64_decode :: "string \<Rightarrow> string + bytes"
  b64url_encode :: "bytes \<Rightarrow> string"
  b64url_decode :: "string \<Rightarrow> string + bytes"
  bytes_to_json :: "bytes \<Rightarrow> string + string"
  bytes_from_json :: "string \<Rightarrow> string + bytes"
  stored_to_json :: "stored_identity \<Rightarrow> string + string"
  stored_from_json :: "string \<Rightarrow> string + stored_identity"

section \<open>WireGuard keys\<close>

datatype wireguard_error = InvalidKey string | InvalidBase64 string | InvalidKeyLength nat

definition KEY_SIZE :: nat where "KEY_SIZE = 32"

type_synonym wg_key = bytes

definition key_from_bytes :: "bytes \<Rightarrow> wireguard_error + wg_key" where
  "key_from_bytes bs = (if length bs \<noteq> KEY_SIZE then Inl (InvalidKeyLength (length bs)) else Inr bs)"

definition key_to_base64 :: "key_library \<Rightarrow> wg_key \<Rightarrow> string" where
  "key_to_base64 K k = b64_encode K k"

definition key_from_base64 :: "key_library \<Rightarrow> string \<Rightarrow> wireguard_error + wg_key" where
  "key_from_base64 K s = (case b64_decode K s of Inl e \<Rightarrow> Inl (InvalidBase64 e) | Inr bs \<Rightarrow> key_from_bytes bs)"

definition key_to_base58 :: "key_library \<Rightarrow> wg_key \<Rightarrow> string" where
  "key_to_base58 K k = b58_encode K k"

definition key_from_base58 :: "key_library \<Rightarrow> string \<Rightarrow> wireguard_error + wg_key" where
  "key_from_base58 K s = (case b58_decode K s of Inl e \<Rightarrow> Inl (InvalidBase64 e) | Inr bs \<Rightarrow> key_from_bytes bs)"

definition private_generate :: "bytes \<Rightarrow> wg_key" where
  "private_generate random = random"

definition private_public_key :: "key_library \<Rightarrow> wg_key \<Rightarrow> wg_key" where
  "private_public_key K k = x_public K k"

definition private_eq :: "wg_key \<Rightarrow> wg_key \<Rightarrow> bool" where
  "private_eq a b \<longleftrightarrow> a = b"

record key_pair =
  kp_private :: wg_key
  kp_public :: wg_key

definition from_private_key :: "key_library \<Rightarrow> wg_key \<Rightarrow> key_pair" where
  "from_private_key K k = \<lparr>kp_private = k, kp_public = private_public_key K k\<rparr>"

definition key_pair_generate :: "key_library \<Rightarrow> bytes \<Rightarrow> key_pair" where
  "key_pair_generate K random =
     (let k = private_generate random in \<lparr>kp_private = k, kp_public = private_public_key K k\<rparr>)"

definition generate_keypair :: "key_library \<Rightarrow> bytes \<Rightarrow> wg_key \<times> wg_key" where
  "generate_keypair K random = (let k = private_generate random in (k, private_public_key K k))"

section \<open>Wallets of the core crate\<close>

record core_wallet =
  cw_signing_key :: bytes

definition wallet_new :: "bytes \<Rightarrow> core_wallet" where
  "wallet_new random = \<lparr>cw_signing_key = random\<rparr>"

definition wallet_public_key :: "key_library \<Rightarrow> core_wallet \<Rightarrow> bytes" where
  "wallet_public_key K w = ed_public K (cw_signing_key w)"

definition wallet_sign :: "key_library \<Rightarrow> core_wallet \<Rightarrow> bytes \<Rightarrow> bytes" where
  "wallet_sign K w m = ed_sign K (cw_signing_key w) m"

definition wallet_to_bytes :: "core_wallet \<Rightarrow> bytes" where
  "wallet_to_bytes w = cw_signing_key w"

definition wallet_from_bytes :: "bytes \<Rightarrow> molt_error + core_wallet" where
  "wallet_from_bytes bs = Inr \<lparr>cw_signing_key = bs\<rparr>"

definition public_from_bytes :: "key_library \<Rightarrow> bytes \<Rightarrow> molt_error + bytes" where
  "public_from_bytes K bs = (case ed_valid_public K bs of None \<Rightarrow> Inr bs | Some e \<Rightarrow> Inl (Crypto e))"

definition public_verify :: "key_library \<Rightarrow> bytes \<Rightarrow> bytes \<Rightarrow> bytes \<Rightarrow> molt_error + unit" where
  "public_verify K pk m sg = (if ed_verify_strict K pk m sg then Inr () else Inl InvalidSignature)"

section \<open>Wallets of the token crate\<close>

datatype wallet_error =
    InvalidAddress string
  | WalletFailure string
  | WalletIo string
  | WalletJson string

type_synonym address = string

definition length_text :: "bytes \<Rightarrow> string" where
  "length_text bs = ''address must be 32 bytes, got '' @ show_nat (length bs)"

definition address_from_base58 :: "key_library \<Rightarrow> string \<Rightarrow> wallet_error + address" where
  "address_from_base58 K s =
     (case b58_decode K s of
        Inl e \<Rightarrow> Inl (InvalidAddress (''invalid base58: '' @ e))
      | Inr bs \<Rightarrow> if length bs \<noteq> 32 then Inl (InvalidAddress (length_text bs)) else Inr s)"

definition address_from_bytes :: "key_library \<Rightarrow> bytes \<Rightarrow> wallet_error + address" where
  "address_from_bytes K bs = (if length bs \<noteq> 32 then Inl (InvalidAddress (length_text bs)) else Inr (b58_encode K bs))"

definition address_to_bytes :: "key_library \<Rightarrow> address \<Rightarrow> bytes" where
  "address_to_bytes K a = (case b58_decode K a of Inl _ \<Rightarrow> [] | Inr bs \<Rightarrow> bs)"

record token_wallet =
  tw_signing_key :: bytes
  tw_address :: address

definition wallet_of_secret :: "key_library \<Rightarrow> bytes \<Rightarrow> wallet_error + token_wallet" where
  "wallet_of_secret K secret =
     (case address_from_bytes K (ed_public K secret) of
        Inl e \<Rightarrow> Inl e
      | Inr a \<Rightarrow> Inr \<lparr>tw_signing_key = secret, tw_address = a\<rparr>)"

definition tw_generate :: "key_library \<Rightarrow> bytes \<Rightarrow> wallet_error + token_wallet" where
  "tw_generate K random = wallet_of_secret K random"

definition from_secret_key :: "key_library \<Rightarrow> bytes \<Rightarrow> wallet_error + token_wallet" where
  "from_secret_key K secret =
     (if length secret \<noteq> 32 then Inl (WalletFailure (''secret key must be 32 bytes, got '' @ show_nat (length secret)))
      else wallet_of_secret K secret)"

definition from_base58_secret :: "key_library \<Rightarrow> string \<Rightarrow> wallet_error + token_wallet" where
  "from_base58_secret K s =
     (case b58_decode K s of
        Inl e \<Rightarrow> Inl (WalletFailure (''invalid base58: '' @ e))
      | Inr bs \<Rightarrow> from_secret_key K bs)"

text \<open>Reading gives the contents or the text of the system's error.\<close>

definition tw_from_file :: "key_library \<Rightarrow> string + string \<Rightarrow> wallet_error + token_wallet" where
  "tw_from_file K content =
     (case content of
        Inl e \<Rightarrow> Inl (WalletIo e)
      | Inr s \<Rightarrow>
          (case bytes_from_json K s of
             Inl e \<Rightarrow> Inl (WalletJson e)
           | Inr bs \<Rightarrow>
               if length bs \<noteq> 64 then Inl (WalletFailure (''wallet file must contain 64 bytes, got '' @ show_nat (length bs)))
               else from_secret_key K (take 32 bs)))"

definition tw_save :: "key_library \<Rightarrow> token_wallet \<Rightarrow> write_result \<Rightarrow> path \<Rightarrow> disk \<Rightarrow> (wallet_error, unit, disk) outcome" where
  "tw_save K w res p d =
     (case bytes_to_json K (tw_signing_key w @ ed_public K (tw_signing_key w)) of
        Inl e \<Rightarrow> (Inl (WalletJson e), d)
      | Inr s \<Rightarrow>
          (case res of
             Written \<Rightarrow> (Inr (), d(p := Some s))
           | Write_failed c \<Rightarrow> (Inl (WalletIo ''write''), d(p := c))))"

definition secret_key_base58 :: "key_library \<Rightarrow> token_wallet \<Rightarrow> string" where
  "secret_key_base58 K w = b58_encode K (tw_signing_key w)"

definition tw_sign :: "key_library \<Rightarrow> token_wallet \<Rightarrow> bytes \<Rightarrow> bytes" where
  "tw_sign K w m = ed_sign K (tw_signing_key w) m"

section \<open>Device identities\<close>

record device_identity =
  di_device_id :: string
  di_public_key_raw :: bytes
  di_signing_key :: bytes

definition identity_of :: "key_library \<Rightarrow> bytes \<Rightarrow> device_identity" where
  "identity_of K secret =
     \<lparr>di_device_id = sha256_hex K (ed_public K secret), di_public_key_raw = ed_public K secret, di_signing_key = secret\<rparr>"

definition identity_generate :: "key_library \<Rightarrow> bytes \<Rightarrow> device_identity" where
  "identity_generate K random = identity_of K random"

text \<open>Contents and modes of the files; the answers of the system to the calls; \<open>sc_chmod\<close> is that to reading and setting the mode.\<close>

record files =
  fs_disk :: disk
  fs_mode :: "path \<Rightarrow> nat"

record save_calls =
  sc_read :: "string option"
  sc_mkdir :: "string option"
  sc_write :: write_result
  sc_chmod :: "string option"
  sc_default_mode :: nat

definition stored_of :: "key_library \<Rightarrow> u64 \<Rightarrow> device_identity \<Rightarrow> stored_identity" where
  "stored_of K now d =
     \<lparr>si_version = 1, si_device_id = di_device_id d, si_public_key = b64url_encode K (di_public_key_raw d),
       si_secret_key = b64url_encode K (di_signing_key d), si_created_at_ms = now\<rparr>"

text \<open>\<open>fs::write\<close>: a new file takes the default mode, an existing one keeps its own.\<close>

definition write_file :: "save_calls \<Rightarrow> path \<Rightarrow> string \<Rightarrow> files \<Rightarrow> files" where
  "write_file c p s f =
     f\<lparr>fs_disk := (fs_disk f)(p := (case sc_write c of Written \<Rightarrow> Some s | Write_failed t \<Rightarrow> t)),
       fs_mode := (if fs_disk f p = None then (fs_mode f)(p := sc_default_mode c) else fs_mode f)\<rparr>"

definition identity_save :: "key_library \<Rightarrow> save_calls \<Rightarrow> u64 \<Rightarrow> device_identity \<Rightarrow> path \<Rightarrow> files \<Rightarrow> (string, unit, files) outcome" where
  "identity_save K c now d p f =
     (case sc_mkdir c of
        Some e \<Rightarrow> (Inl e, f)
      | None \<Rightarrow>
          (case stored_to_json K (stored_of K now d) of
             Inl e \<Rightarrow> (Inl e, f)
           | Inr s \<Rightarrow>
               (let f' = write_file c p s f
                in case sc_write c of
                     Write_failed _ \<Rightarrow> (Inl ''write'', f')
                   | Written \<Rightarrow>
                       (case sc_chmod c of
                          Some e \<Rightarrow> (Inl e, f')
                        | None \<Rightarrow> (Inr (), f'\<lparr>fs_mode := (fs_mode f')(p := 384)\<rparr>)))))"

definition identity_load :: "key_library \<Rightarrow> string \<Rightarrow> string + device_identity" where
  "identity_load K content =
     (case stored_from_json K content of
        Inl e \<Rightarrow> Inl e
      | Inr si \<Rightarrow>
          if si_version si \<noteq> 1 then Inl (''unsupported identity version: '' @ show_nat (unat (si_version si)))
          else (case b64url_decode K (si_secret_key si) of
                  Inl e \<Rightarrow> Inl e
                | Inr secret \<Rightarrow>
                    if length secret \<noteq> 32 then Inl ''invalid secret key length''
                    else if sha256_hex K (ed_public K secret) \<noteq> si_device_id si then Inl ''device ID mismatch''
                    else Inr \<lparr>di_device_id = si_device_id si, di_public_key_raw = ed_public K secret, di_signing_key = secret\<rparr>))"

definition load_or_create :: "key_library \<Rightarrow> save_calls \<Rightarrow> u64 \<Rightarrow> bytes \<Rightarrow> path \<Rightarrow> files \<Rightarrow> (string, device_identity, files) outcome" where
  "load_or_create K c now random p f =
     (case fs_disk f p of
        Some s \<Rightarrow> (case sc_read c of Some e \<Rightarrow> (Inl e, f) | None \<Rightarrow> (identity_load K s, f))
      | None \<Rightarrow>
          (let d = identity_generate K random
           in case identity_save K c now d p f of
                (Inl e, f') \<Rightarrow> (Inl e, f')
              | (Inr _, f') \<Rightarrow> (Inr d, f')))"

fun intercalate :: "char \<Rightarrow> string list \<Rightarrow> string" where
  "intercalate c [] = []"
| "intercalate c [s] = s"
| "intercalate c (s # t # ts) = s @ c # intercalate c (t # ts)"

record auth_request =
  ar_client_id :: string
  ar_client_mode :: string
  ar_role :: string
  ar_scopes :: "string list"
  ar_token :: "string option"
  ar_nonce :: "string option"

definition text_or_empty :: "string option \<Rightarrow> string" where
  "text_or_empty t = (case t of None \<Rightarrow> [] | Some s \<Rightarrow> s)"

definition auth_parts :: "string \<Rightarrow> auth_request \<Rightarrow> u64 \<Rightarrow> string list" where
  "auth_parts device_id r signed_at =
     [if ar_nonce r \<noteq> None then ''v2'' else ''v1'', device_id, ar_client_id r, ar_client_mode r, ar_role r,
       intercalate (CHR '','') (ar_scopes r), show_nat (unat signed_at), text_or_empty (ar_token r)] @
     (if ar_nonce r \<noteq> None then [text_or_empty (ar_nonce r)] else [])"

definition build_auth_payload :: "device_identity \<Rightarrow> auth_request \<Rightarrow> u64 \<Rightarrow> string" where
  "build_auth_payload d r signed_at = intercalate (CHR ''|'') (auth_parts (di_device_id d) r signed_at)"

definition identity_sign :: "key_library \<Rightarrow> device_identity \<Rightarrow> string \<Rightarrow> string" where
  "identity_sign K d payload = b64url_encode K (ed_sign K (di_signing_key d) (bytes_of payload))"

record device_params =
  dp_id :: string
  dp_public_key :: string
  dp_signature :: string
  dp_signed_at :: u64
  dp_nonce :: "string option"

definition device_params_of :: "key_library \<Rightarrow> device_identity \<Rightarrow> u64 \<Rightarrow> auth_request \<Rightarrow> device_params" where
  "device_params_of K d signed_at r =
     \<lparr>dp_id = di_device_id d, dp_public_key = b64url_encode K (di_public_key_raw d),
       dp_signature = identity_sign K d (build_auth_payload d r signed_at), dp_signed_at = signed_at, dp_nonce = ar_nonce r\<rparr>"

section \<open>The contract of the libraries\<close>

locale key_contract =
  fixes K :: key_library
  assumes b58: "b58_decode K (b58_encode K bs) = Inr bs"
    and b64: "b64_decode K (b64_encode K bs) = Inr bs"
    and b64url: "b64url_decode K (b64url_encode K bs) = Inr bs"
    and bytes_json: "\<exists>s. bytes_to_json K bs = Inr s \<and> bytes_from_json K s = Inr bs"
    and stored_json: "\<exists>s. stored_to_json K si = Inr s \<and> stored_from_json K s = Inr si"
    and public_length: "length sk = 32 \<Longrightarrow> length (ed_public K sk) = 32"
    and signatures: "ed_verify_strict K (ed_public K sk) m (ed_sign K sk m)"
begin

lemma key_roundtrips:
  assumes "length k = KEY_SIZE"
  shows "key_from_base64 K (key_to_base64 K k) = Inr k" "key_from_base58 K (key_to_base58 K k) = Inr k"
  using assms by (simp_all add: key_from_base64_def key_to_base64_def key_from_base58_def key_to_base58_def b58 b64 key_from_bytes_def)

lemma wallet_of_secret_ok:
  assumes "length sk = 32"
  shows "wallet_of_secret K sk = Inr \<lparr>tw_signing_key = sk, tw_address = b58_encode K (ed_public K sk)\<rparr>"
  using public_length [OF assms] by (simp add: wallet_of_secret_def address_from_bytes_def)

lemma own_signature: "public_verify K (wallet_public_key K w) m (wallet_sign K w m) = Inr ()"
  by (simp add: public_verify_def wallet_public_key_def wallet_sign_def signatures)

lemma wallet_secret_roundtrips:
  assumes "tw_generate K random = Inr w" and "length random = 32"
  shows "from_secret_key K (tw_signing_key w) = Inr w" "from_base58_secret K (secret_key_base58 K w) = Inr w"
    "address_from_base58 K (tw_address w) = Inr (tw_address w)" "address_to_bytes K (tw_address w) = ed_public K (tw_signing_key w)"
  using assms public_length [OF assms(2)]
  by (auto simp: tw_generate_def wallet_of_secret_ok from_secret_key_def from_base58_secret_def secret_key_base58_def b58
      address_from_base58_def address_to_bytes_def)

lemma wallet_file_roundtrip:
  assumes "tw_generate K random = Inr w" "length random = 32" and "tw_save K w Written p d = (r, d')"
  shows "r = Inr () \<and> (\<exists>s. d' p = Some s \<and> tw_from_file K (Inr s) = Inr w)"
proof -
  have w: "w = \<lparr>tw_signing_key = random, tw_address = b58_encode K (ed_public K random)\<rparr>"
    using assms(1) wallet_of_secret_ok [OF assms(2)] by (simp add: tw_generate_def)
  obtain s where s: "bytes_to_json K (random @ ed_public K random) = Inr s" "bytes_from_json K s = Inr (random @ ed_public K random)"
    using bytes_json by blast
  have "tw_from_file K (Inr s) = Inr w"
    using s(2) assms(2) public_length [OF assms(2)] wallet_of_secret_ok [OF assms(2)] by (simp add: tw_from_file_def from_secret_key_def w)
  then show ?thesis using assms(3) s(1) by (auto simp: tw_save_def w)
qed

lemma stored_is_loaded:
  assumes "length sk = 32"
  shows "\<exists>s. stored_to_json K (stored_of K now (identity_of K sk)) = Inr s \<and> identity_load K s = Inr (identity_of K sk)"
proof -
  obtain s where s: "stored_to_json K (stored_of K now (identity_of K sk)) = Inr s" "stored_from_json K s = Inr (stored_of K now (identity_of K sk))"
    using stored_json by blast
  then have "identity_load K s = Inr (identity_of K sk)" using assms by (simp add: identity_load_def stored_of_def identity_of_def b64url)
  with s(1) show ?thesis by blast
qed

text \<open>The first start makes an identity and every later start finds the same one, from a file that only its owner can read.\<close>

lemma identity_survives:
  assumes "length random = 32" and "fs_disk f p = None" and "load_or_create K c now random p f = (Inr d, f')"
    and "sc_read c2 = None"
  shows "load_or_create K c2 now2 random2 p f' = (Inr d, f') \<and> fs_mode f' p = 384"
proof -
  obtain s where s: "stored_to_json K (stored_of K now (identity_of K random)) = Inr s" "identity_load K s = Inr (identity_of K random)"
    using stored_is_loaded [OF assms(1)] by blast
  have "d = identity_of K random \<and> fs_disk f' p = Some s \<and> fs_mode f' p = 384"
    using assms(2,3) s(1) by (auto simp: load_or_create_def identity_generate_def identity_save_def write_file_def Let_def
        split: option.splits write_result.splits)
  then show ?thesis using s(2) assms(4) by (simp add: load_or_create_def)
qed

end

section \<open>An instance\<close>

text \<open>Fields as text: each character is marked, each field is closed.\<close>

fun enc_fields :: "string list \<Rightarrow> string" where
  "enc_fields [] = []"
| "enc_fields (f # fs) = concat (map (\<lambda>c. [CHR ''x'', c]) f) @ CHR ''.'' # enc_fields fs"

fun dec_fields :: "string \<Rightarrow> string \<Rightarrow> string list" where
  "dec_fields acc (CHR ''x'' # c # r) = dec_fields (acc @ [c]) r"
| "dec_fields acc (_ # r) = acc # dec_fields [] r"
| "dec_fields acc [] = []"

lemma dec_enc: "dec_fields acc (concat (map (\<lambda>c. [CHR ''x'', c]) f) @ CHR ''.'' # r) = (acc @ f) # dec_fields [] r"
  by (induction f arbitrary: acc) simp_all

lemma dec_enc_fields: "dec_fields [] (enc_fields fs) = fs"
  by (induction fs) (simp_all add: dec_enc)

definition text_of :: "bytes \<Rightarrow> string" where
  "text_of bs = map (\<lambda>b. char_of (unat b)) bs"

lemma bytes_of_text: "bytes_of (text_of bs) = bs"
proof -
  have "unat b mod 256 = unat b" for b :: u8 using unsigned_less [of b, where ?'a = nat] by simp
  then show ?thesis by (simp add: bytes_of_def text_of_def comp_def)
qed

definition plain_keys :: key_library where
  "plain_keys = \<lparr>ed_public = id, ed_sign = (\<lambda>sk m. sk @ m), ed_valid_public = (\<lambda>_. None), ed_verify_strict = (\<lambda>pk m s. s = pk @ m),
     x_public = id, sha256_hex = text_of, b58_encode = text_of, b58_decode = Inr \<circ> bytes_of, b64_encode = text_of, b64_decode = Inr \<circ> bytes_of,
     b64url_encode = text_of, b64url_decode = Inr \<circ> bytes_of, bytes_to_json = Inr \<circ> text_of, bytes_from_json = Inr \<circ> bytes_of,
     stored_to_json = (\<lambda>si. Inr (enc_fields [show_nat (unat (si_version si)), si_device_id si, si_public_key si, si_secret_key si,
       show_nat (unat (si_created_at_ms si))])),
     stored_from_json = (\<lambda>s. case dec_fields [] s of
         [v, i, p, k, t] \<Rightarrow> Inr \<lparr>si_version = of_nat (digits_val v), si_device_id = i, si_public_key = p, si_secret_key = k,
           si_created_at_ms = of_nat (digits_val t)\<rparr>
       | _ \<Rightarrow> Inl ''malformed'')\<rparr>"

interpretation plain: key_contract plain_keys
  by unfold_locales (simp_all add: plain_keys_def bytes_of_text dec_enc_fields del: enc_fields.simps)

section \<open>What a signature of a request binds\<close>

lemma split_intercalate:
  assumes "ss \<noteq> []" and "\<forall>s \<in> set ss. c \<notin> set s"
  shows "split_on c (intercalate c ss) = ss"
  using assms
proof (induction c ss rule: intercalate.induct)
  case (3 c s t ts)
  have "split_on c (s @ c # u) = s # split_on c u" if "c \<notin> set s" for s u using that by (induction s) auto
  with 3 show ?case by simp
qed (simp_all add: split_on_no_sep)

definition plain_request :: "string \<Rightarrow> auth_request \<Rightarrow> bool" where
  "plain_request device_id r \<longleftrightarrow> CHR ''|'' \<notin> set device_id \<union> set (ar_client_id r) \<union> set (ar_client_mode r) \<union> set (ar_role r) \<union>
     set (text_or_empty (ar_token r)) \<union> set (text_or_empty (ar_nonce r)) \<union> (\<Union>s \<in> set (ar_scopes r). set s)"

lemma set_intercalate: "set (intercalate c ss) \<subseteq> insert c (\<Union>s \<in> set ss. set s)"
  by (induction c ss rule: intercalate.induct) auto

lemma digit_no_bar: "CHR ''|'' \<notin> set (show_nat n)"
  using show_nat_digits [of n] by (auto simp: list_all_iff is_digit_def)

lemma plain_parts: "plain_request i r \<Longrightarrow> \<forall>s \<in> set (auth_parts i r t). CHR ''|'' \<notin> set s"
  using set_intercalate [of "CHR '',''" "ar_scopes r"] by (auto simp: plain_request_def auth_parts_def digit_no_bar split: if_splits)

lemma payload_binds:
  assumes "plain_request (di_device_id d) r" "plain_request (di_device_id d') r'"
    and "build_auth_payload d r t = build_auth_payload d' r' t'"
  shows "di_device_id d = di_device_id d'" "ar_client_id r = ar_client_id r'" "ar_client_mode r = ar_client_mode r'" "ar_role r = ar_role r'"
    "intercalate (CHR '','') (ar_scopes r) = intercalate (CHR '','') (ar_scopes r')" "t = t'"
    "text_or_empty (ar_token r) = text_or_empty (ar_token r')" "ar_nonce r = ar_nonce r'"
proof -
  have ne: "auth_parts i r t \<noteq> []" for i r t by (simp add: auth_parts_def)
  have parts: "auth_parts (di_device_id d) r t = auth_parts (di_device_id d') r' t'"
    using split_intercalate [OF ne plain_parts [OF assms(1)]] split_intercalate [OF ne plain_parts [OF assms(2)]] assms(3)
    by (metis build_auth_payload_def)
  then show "di_device_id d = di_device_id d'" "ar_client_id r = ar_client_id r'" "ar_client_mode r = ar_client_mode r'" "ar_role r = ar_role r'"
    "intercalate (CHR '','') (ar_scopes r) = intercalate (CHR '','') (ar_scopes r')"
    "text_or_empty (ar_token r) = text_or_empty (ar_token r')" "ar_nonce r = ar_nonce r'"
    by (auto simp: auth_parts_def text_or_empty_def split: if_splits option.splits)
  from parts have "show_nat (unat t) = show_nat (unat t')" by (simp add: auth_parts_def split: if_splits)
  then show "t = t'" by (simp add: inj_eq [OF inj_show_nat] word_unat_eq_iff)
qed

text \<open>
  The separators are not escaped: a token with a bar borrows from the nonce, a scope with a comma is two scopes, and a missing token
  is an empty one. A signature of one request is valid for the other.
\<close>

definition demo_request :: "string list \<Rightarrow> string option \<Rightarrow> string option \<Rightarrow> auth_request" where
  "demo_request ss t n = \<lparr>ar_client_id = ''node'', ar_client_mode = ''node'', ar_role = ''node'', ar_scopes = ss, ar_token = t, ar_nonce = n\<rparr>"

lemma token_borrows_from_nonce:
  "build_auth_payload d (demo_request [] (Some ''a|b'') (Some ''c'')) t = build_auth_payload d (demo_request [] (Some ''a'') (Some ''b|c'')) t"
  by (simp add: build_auth_payload_def auth_parts_def demo_request_def text_or_empty_def)

lemma scope_splits:
  "build_auth_payload d (demo_request [''read,write''] k n) t = build_auth_payload d (demo_request [''read'', ''write''] k n) t"
  by (simp add: build_auth_payload_def auth_parts_def demo_request_def)

section \<open>Gaps\<close>

text \<open>A wallet file is accepted whatever its public half is.\<close>

lemma public_half_ignored:
  assumes "bytes_from_json K s = Inr (sk @ pk)" "bytes_from_json K s' = Inr (sk @ pk')" "length sk = 32" "length pk = 32" "length pk' = 32"
  shows "tw_from_file K (Inr s) = tw_from_file K (Inr s')"
  using assms by (simp add: tw_from_file_def)

text \<open>An address that was deserialised without validation has no bytes.\<close>

lemma invalid_address_is_empty: "b58_decode K a = Inl e \<Longrightarrow> address_to_bytes K a = []"
  by (simp add: address_to_bytes_def)

text \<open>Where the mode cannot be set, the call fails but the key stays in a file of the default mode, and the next start accepts it.\<close>

lemma failed_chmod_keeps_key:
  assumes "fs_disk f p = None" "sc_mkdir c = None" "sc_write c = Written" "sc_chmod c = Some e"
    and "stored_to_json K (stored_of K now (identity_of K random)) = Inr s"
  shows "fst (load_or_create K c now random p f) = Inl e" "fs_disk (snd (load_or_create K c now random p f)) p = Some s"
    "fs_mode (snd (load_or_create K c now random p f)) p = sc_default_mode c"
  using assms by (simp_all add: load_or_create_def identity_generate_def identity_save_def write_file_def Let_def)

end
