(* ===== verification/Core_Policy.thy ===== *)
theory Core_Policy
  imports Metric_Store Molt_Amount
begin

text \<open>
  Spending policies, reputations and pricing: \<open>crates/molt-core/src/policy.rs\<close>, \<open>reputation.rs\<close> and \<open>molt-agent/src/strategy.rs\<close>. Floating-point
  arithmetic is a parameter; the constants are the doubles that the literals denote.
\<close>

section \<open>Policies\<close>

text \<open>Amounts are ordered by their number of units.\<close>

instantiation amount :: linorder
begin

definition less_eq_amount :: "amount \<Rightarrow> amount \<Rightarrow> bool" where
  "less_eq_amount a b \<longleftrightarrow> as_nano a \<le> as_nano b"

definition less_amount :: "amount \<Rightarrow> amount \<Rightarrow> bool" where
  "less_amount a b \<longleftrightarrow> as_nano a < as_nano b"

instance
  by standard (auto simp: less_eq_amount_def less_amount_def intro: amount.expand)

end

datatype autonomy_level = Conservative | Moderate | Aggressive

record policy =
  po_autonomy_level :: autonomy_level
  po_max_spend_per_job :: "amount option"
  po_allowed_job_types :: "string list option"

definition allows_spend :: "policy \<Rightarrow> amount \<Rightarrow> bool" where
  "allows_spend p a \<longleftrightarrow> (case po_max_spend_per_job p of None \<Rightarrow> True | Some m \<Rightarrow> a \<le> m)"

definition allows_job_type :: "policy \<Rightarrow> string \<Rightarrow> bool" where
  "allows_job_type p t \<longleftrightarrow> (case po_allowed_job_types p of None \<Rightarrow> True | Some ts \<Rightarrow> list_ex (\<lambda>u. u = t) ts)"

record policy_builder =
  pb_autonomy_level :: autonomy_level
  pb_max_spend_per_job :: "amount option"
  pb_allowed_job_types :: "string list option"

definition builder_default :: policy_builder where
  "builder_default = \<lparr>pb_autonomy_level = Conservative, pb_max_spend_per_job = None, pb_allowed_job_types = None\<rparr>"

definition build_autonomy_level :: "autonomy_level \<Rightarrow> policy_builder \<Rightarrow> policy_builder" where
  "build_autonomy_level l b = b\<lparr>pb_autonomy_level := l\<rparr>"

definition build_max_spend :: "amount \<Rightarrow> policy_builder \<Rightarrow> policy_builder" where
  "build_max_spend a b = b\<lparr>pb_max_spend_per_job := Some a\<rparr>"

definition build_job_types :: "string list \<Rightarrow> policy_builder \<Rightarrow> policy_builder" where
  "build_job_types ts b = b\<lparr>pb_allowed_job_types := Some ts\<rparr>"

definition policy_build :: "policy_builder \<Rightarrow> policy" where
  "policy_build b = \<lparr>po_autonomy_level = pb_autonomy_level b, po_max_spend_per_job = pb_max_spend_per_job b,
     po_allowed_job_types = pb_allowed_job_types b\<rparr>"

section \<open>Reputation\<close>

type_synonym score = f64

definition score_new :: "(f64 \<Rightarrow> string) \<Rightarrow> f64 \<Rightarrow> molt_error + score" where
  "score_new print v =
     (if \<not> (f64_le (Fin 0) v \<and> f64_le v (Fin 1)) then Inl (InvalidAmount (''score must be between 0.0 and 1.0, got '' @ print v)) else Inr v)"

definition score_is_good :: "score \<Rightarrow> bool" where
  "score_is_good s \<longleftrightarrow> f64_le (Fin (3152519739159347 / 4503599627370496)) s"

definition score_is_poor :: "score \<Rightarrow> bool" where
  "score_is_poor s \<longleftrightarrow> f64_less s (Fin (5404319552844595 / 18014398509481984))"

record reputation =
  rp_successful :: u64
  rp_failed :: u64

definition reputation_new :: reputation where
  "reputation_new = \<lparr>rp_successful = 0, rp_failed = 0\<rparr>"

definition record_success :: "reputation \<Rightarrow> reputation" where
  "record_success r = r\<lparr>rp_successful := saturating_add (rp_successful r) 1\<rparr>"

definition record_failure :: "reputation \<Rightarrow> reputation" where
  "record_failure r = r\<lparr>rp_failed := saturating_add (rp_failed r) 1\<rparr>"

definition total_transactions :: "reputation \<Rightarrow> u64" where
  "total_transactions r = saturating_add (rp_successful r) (rp_failed r)"

definition reputation_score :: "float_ops \<Rightarrow> reputation \<Rightarrow> score" where
  "reputation_score F r =
     (let s = fl_add F (fl_of_int F (uint (rp_successful r))) (Fin 1);
          f = fl_add F (fl_of_int F (uint (rp_failed r))) (Fin 1)
      in fl_div F s (fl_add F s f))"

section \<open>Pricing\<close>

record pricing_ops = float_ops +
  fl_ceil :: "f64 \<Rightarrow> f64"
  fl_mul_add :: "f64 \<Rightarrow> f64 \<Rightarrow> f64 \<Rightarrow> f64"

datatype pricing_strategy = FixedMarkup | UtilizationBased | MarketBased

definition marked_up :: "pricing_ops \<Rightarrow> u64 \<Rightarrow> f64 \<Rightarrow> u64" where
  "marked_up F c m = fl_to_u64 F (fl_ceil F (fl_mul F (fl_of_int F (uint c)) m))"

fun calculate_price :: "pricing_ops \<Rightarrow> pricing_strategy \<Rightarrow> u64 \<Rightarrow> f64 \<Rightarrow> u64 option \<Rightarrow> u64" where
  "calculate_price F FixedMarkup c u market_rate = marked_up F c (Fin (5404319552844595 / 4503599627370496))"
| "calculate_price F UtilizationBased c u market_rate =
     marked_up F c (fl_mul_add F u (Fin (8106479329266893 / 9007199254740992)) (Fin (2476979795053773 / 2251799813685248)))"
| "calculate_price F MarketBased c u market_rate =
     (case market_rate of Some r \<Rightarrow> r | None \<Rightarrow> marked_up F c (Fin (5404319552844595 / 4503599627370496)))"

section \<open>Properties\<close>

text \<open>A policy allows what its builder was told, the last setting of a field counting.\<close>

lemma built_policy_allows:
  "allows_spend (policy_build (build_max_spend m b)) a \<longleftrightarrow> a \<le> m"
  "allows_spend (policy_build builder_default) a"
  "allows_job_type (policy_build (build_job_types ts b)) t \<longleftrightarrow> t \<in> set ts"
  "allows_job_type (policy_build builder_default) t"
  by (auto simp: allows_spend_def allows_job_type_def policy_build_def build_max_spend_def build_job_types_def builder_default_def list_ex_iff)

lemma spend_downward_closed: "allows_spend p a \<Longrightarrow> b \<le> a \<Longrightarrow> allows_spend p b"
  by (auto simp: allows_spend_def split: option.splits)

text \<open>Scores that pass the constructor are numbers between zero and one.\<close>

lemma score_new_exact: "score_new print v = Inr s \<longleftrightarrow> (\<exists>x. v = Fin x \<and> 0 \<le> x \<and> x \<le> 1 \<and> s = v)"
  by (cases v) (auto simp: score_new_def f64_le_def)

lemma good_not_poor: "score_is_good s \<Longrightarrow> \<not> score_is_poor s"
  by (cases s) (auto simp: score_is_good_def score_is_poor_def f64_le_def)

primrec record_outcome :: "bool \<Rightarrow> reputation \<Rightarrow> reputation" where
  "record_outcome True r = record_success r"
| "record_outcome False r = record_failure r"

lemma outcomes_counted:
  "unat (rp_successful (fold record_outcome os r)) = min (unat (rp_successful r) + length (filter id os)) (2 ^ 64 - 1) \<and>
   unat (rp_failed (fold record_outcome os r)) = min (unat (rp_failed r) + length (filter Not os)) (2 ^ 64 - 1)"
proof (induction os arbitrary: r)
  case Nil
  have "min (unat x) (2 ^ 64 - 1) = unat x" for x :: u64 using unsigned_less [of x, where ?'a = nat] by (simp add: min_def)
  then show ?case by simp
next
  case (Cons b os)
  then show ?case by (cases b) (simp_all add: record_success_def record_failure_def unat_saturating_add min_def)
qed

text \<open>
  The documentation says that recent transactions weigh more; the score depends only on how many succeeded and failed, in whatever order.
\<close>

lemma score_ignores_order:
  assumes "mset os = mset os'"
  shows "fold record_outcome os reputation_new = fold record_outcome os' reputation_new"
proof -
  have "length (filter P os) = length (filter P os')" for P using assms by (metis mset_filter size_mset)
  then have "unat (rp_successful (fold record_outcome os reputation_new)) = unat (rp_successful (fold record_outcome os' reputation_new))"
    "unat (rp_failed (fold record_outcome os reputation_new)) = unat (rp_failed (fold record_outcome os' reputation_new))"
    using outcomes_counted [of os reputation_new] outcomes_counted [of os' reputation_new] by simp_all
  then show ?thesis by (auto simp: word_unat_eq_iff intro!: reputation.equality)
qed

end
