(* ===== verification/Metric_Collectors.thy ===== *)
theory Metric_Collectors
  imports Metric_Store
begin

text \<open>
  Collection and export of metrics, \<open>crates/claw-metrics/src/collector.rs\<close> and \<open>prometheus.rs\<close>. Gauges are 64-bit signed integers of the
  client library: their bits are a word, set and read through casts, with increments that wrap; a family of gauges creates the one of
  a label when it is first asked for. The text format is the library's encoder, a parameter.
\<close>

section \<open>Collectors of GPU metrics\<close>

record gpu_info =
  gi_id :: string
  gi_model :: string
  gi_utilization :: f64
  gi_memory_total :: u64
  gi_memory_used :: u64
  gi_temperature :: f64
  gi_power_watts :: f64

record gpu_collector =
  gc_node_id :: string
  gc_gpu_data :: "(string, gpu_info) hashmap"

definition gpu_collector_new :: "string \<Rightarrow> gpu_collector" where
  "gpu_collector_new n = \<lparr>gc_node_id = n, gc_gpu_data = []\<rparr>"

definition update_gpu :: "gpu_info \<Rightarrow> gpu_collector \<Rightarrow> gpu_collector" where
  "update_gpu i c = c\<lparr>gc_gpu_data := hm_insert (gi_id i) i (gc_gpu_data c)\<rparr>"

definition remove_gpu :: "string \<Rightarrow> gpu_collector \<Rightarrow> gpu_collector" where
  "remove_gpu i c = c\<lparr>gc_gpu_data := hm_remove i (gc_gpu_data c)\<rparr>"

definition gpu_count :: "gpu_collector \<Rightarrow> nat" where
  "gpu_count c = length (gc_gpu_data c)"

text \<open>The names are validated in order, the first failure is returned.\<close>

fun names_new :: "string list \<Rightarrow> metrics_error + metric_name list" where
  "names_new [] = Inr []"
| "names_new (s # ss) =
     (case metric_name_new s of
        Inl e \<Rightarrow> Inl e
      | Inr n \<Rightarrow> (case names_new ss of Inl e \<Rightarrow> Inl e | Inr ns \<Rightarrow> Inr (n # ns)))"

definition gpu_names :: "string list" where
  "gpu_names = [''gpu_utilization_percent'', ''gpu_memory_used_bytes'', ''gpu_memory_total_bytes'', ''gpu_memory_percent'',
     ''gpu_temperature_celsius'', ''gpu_power_watts'']"

definition gpu_metric_names :: "metrics_error + metric_name list" where
  "gpu_metric_names = names_new gpu_names"

definition percent_of :: "float_ops \<Rightarrow> u64 \<Rightarrow> u64 \<Rightarrow> f64" where
  "percent_of F used whole =
     (if 0 < whole then fl_mul F (fl_div F (fl_of_int F (uint used)) (fl_of_int F (uint whole))) (Fin 100) else Fin 0)"

definition gpu_values :: "float_ops \<Rightarrow> gpu_info \<Rightarrow> f64 list" where
  "gpu_values F g = [gi_utilization g, fl_of_int F (uint (gi_memory_used g)), fl_of_int F (uint (gi_memory_total g)),
     percent_of F (gi_memory_used g) (gi_memory_total g), gi_temperature g, gi_power_watts g]"

definition gpu_point :: "string \<Rightarrow> int \<Rightarrow> gpu_info \<Rightarrow> f64 \<Rightarrow> metric_point" where
  "gpu_point node t g v =
     (point_label ''gpu_model'' (gi_model g) (point_label ''gpu_id'' (gi_id g) (point_label ''node_id'' node (point_new t (Fin 0)))))\<lparr>pt_value := v\<rparr>"

definition gpu_collect :: "float_ops \<Rightarrow> int \<Rightarrow> gpu_collector \<Rightarrow> metrics_error + (metric_name \<times> metric_point) list" where
  "gpu_collect F t c =
     (case gpu_metric_names of
        Inl e \<Rightarrow> Inl e
      | Inr names \<Rightarrow>
          if gc_gpu_data c = [] then Inr []
          else Inr (concat (map (\<lambda>g. zip names (map (gpu_point (gc_node_id c) t g) (gpu_values F g))) (hm_values (gc_gpu_data c)))))"

section \<open>Collectors of system metrics\<close>

record system_info =
  sy_cpu_percent :: f64
  sy_memory_total :: u64
  sy_memory_used :: u64
  sy_disk_total :: u64
  sy_disk_used :: u64
  sy_uptime_seconds :: u64
  sy_load_1m :: f64
  sy_load_5m :: f64
  sy_load_15m :: f64

record system_collector =
  yc_node_id :: string
  yc_system_data :: system_info

definition system_collector_new :: "string \<Rightarrow> system_collector" where
  "system_collector_new n = \<lparr>yc_node_id = n, yc_system_data = \<lparr>sy_cpu_percent = Fin 0, sy_memory_total = 0, sy_memory_used = 0, sy_disk_total = 0,
     sy_disk_used = 0, sy_uptime_seconds = 0, sy_load_1m = Fin 0, sy_load_5m = Fin 0, sy_load_15m = Fin 0\<rparr>\<rparr>"

definition update_system :: "system_info \<Rightarrow> system_collector \<Rightarrow> system_collector" where
  "update_system i c = c\<lparr>yc_system_data := i\<rparr>"

definition system_names :: "string list" where
  "system_names = [''system_cpu_percent'', ''system_memory_used_bytes'', ''system_memory_total_bytes'', ''system_memory_percent'',
     ''system_disk_used_bytes'', ''system_disk_total_bytes'', ''system_disk_percent'', ''system_uptime_seconds'', ''system_load_1m'',
     ''system_load_5m'', ''system_load_15m'']"

definition system_metric_names :: "metrics_error + metric_name list" where
  "system_metric_names = names_new system_names"

definition system_values :: "float_ops \<Rightarrow> system_info \<Rightarrow> f64 list" where
  "system_values F s = [sy_cpu_percent s, fl_of_int F (uint (sy_memory_used s)), fl_of_int F (uint (sy_memory_total s)),
     percent_of F (sy_memory_used s) (sy_memory_total s), fl_of_int F (uint (sy_disk_used s)), fl_of_int F (uint (sy_disk_total s)),
     percent_of F (sy_disk_used s) (sy_disk_total s), fl_of_int F (uint (sy_uptime_seconds s)), sy_load_1m s, sy_load_5m s, sy_load_15m s]"

definition system_collect :: "float_ops \<Rightarrow> int \<Rightarrow> system_collector \<Rightarrow> metrics_error + (metric_name \<times> metric_point) list" where
  "system_collect F t c =
     (case system_metric_names of
        Inl e \<Rightarrow> Inl e
      | Inr names \<Rightarrow>
          Inr (zip names (map (\<lambda>v. (point_label ''node_id'' (yc_node_id c) (point_new t (Fin 0)))\<lparr>pt_value := v\<rparr>)
             (system_values F (yc_system_data c)))))"

section \<open>Composition and storage\<close>

text \<open>A collector of the trait, by what it collects at this moment.\<close>

type_synonym collected = "metrics_error + (metric_name \<times> metric_point) list"

fun composite_collect :: "collected list \<Rightarrow> collected" where
  "composite_collect [] = Inr []"
| "composite_collect (c # cs) =
     (case composite_collect cs of
        Inl e \<Rightarrow> Inl e
      | Inr ms \<Rightarrow> (case c of Inl _ \<Rightarrow> Inr ms | Inr ns \<Rightarrow> Inr (ns @ ms)))"

definition collect_and_push :: "searcher \<Rightarrow> bool \<Rightarrow> int \<Rightarrow> collected \<Rightarrow> metric_store \<Rightarrow> ((metrics_error + unit) \<times> metric_store) option" where
  "collect_and_push search checks now c st =
     (case c of
        Inl e \<Rightarrow> Some (Inl e, st)
      | Inr ms \<Rightarrow> map_option (Pair (Inr ())) (store_push_batch search checks now ms st))"

section \<open>Gauges\<close>

type_synonym gauge = "64 word"
type_synonym 'l family = "('l, gauge) hashmap"

definition get_or_create :: "'l \<Rightarrow> 'l family \<Rightarrow> gauge \<times> 'l family" where
  "get_or_create l m = (case hm_get m l of Some g \<Rightarrow> (g, m) | None \<Rightarrow> (0, hm_insert l 0 m))"

definition family_change :: "'l \<Rightarrow> (gauge \<Rightarrow> gauge) \<Rightarrow> 'l family \<Rightarrow> 'l family" where
  "family_change l f m = (case get_or_create l m of (g, m') \<Rightarrow> hm_insert l (f g) m')"

record gateway_metrics =
  gm_nodes_total :: gauge
  gm_workloads_total :: "string family"
  gm_scheduling :: "f64 list"

definition gateway_new :: gateway_metrics where
  "gateway_new = \<lparr>gm_nodes_total = 0, gm_workloads_total = [], gm_scheduling = []\<rparr>"

definition set_nodes_total :: "u64 \<Rightarrow> gateway_metrics \<Rightarrow> gateway_metrics" where
  "set_nodes_total n g = g\<lparr>gm_nodes_total := n\<rparr>"

definition get_nodes_total :: "gateway_metrics \<Rightarrow> u64" where
  "get_nodes_total g = gm_nodes_total g"

definition inc_nodes :: "gateway_metrics \<Rightarrow> gateway_metrics" where
  "inc_nodes g = g\<lparr>gm_nodes_total := gm_nodes_total g + 1\<rparr>"

definition dec_nodes :: "gateway_metrics \<Rightarrow> gateway_metrics" where
  "dec_nodes g = g\<lparr>gm_nodes_total := gm_nodes_total g - 1\<rparr>"

definition set_workloads_total :: "string \<Rightarrow> u64 \<Rightarrow> gateway_metrics \<Rightarrow> gateway_metrics" where
  "set_workloads_total s n g = g\<lparr>gm_workloads_total := family_change s (\<lambda>_. n) (gm_workloads_total g)\<rparr>"

definition inc_workloads_total :: "string \<Rightarrow> gateway_metrics \<Rightarrow> gateway_metrics" where
  "inc_workloads_total s g = g\<lparr>gm_workloads_total := family_change s (\<lambda>x. x + 1) (gm_workloads_total g)\<rparr>"

definition dec_workloads_total :: "string \<Rightarrow> gateway_metrics \<Rightarrow> gateway_metrics" where
  "dec_workloads_total s g = g\<lparr>gm_workloads_total := family_change s (\<lambda>x. x - 1) (gm_workloads_total g)\<rparr>"

definition get_workloads_total :: "string \<Rightarrow> gateway_metrics \<Rightarrow> u64 \<times> gateway_metrics" where
  "get_workloads_total s g = (case get_or_create s (gm_workloads_total g) of (x, m) \<Rightarrow> (x, g\<lparr>gm_workloads_total := m\<rparr>))"

definition observe_scheduling_duration :: "f64 \<Rightarrow> gateway_metrics \<Rightarrow> gateway_metrics" where
  "observe_scheduling_duration d g = g\<lparr>gm_scheduling := gm_scheduling g @ [d]\<rparr>"

record node_metrics =
  nm_gpu_utilization :: "(string \<times> string) family"
  nm_memory_usage :: "string family"
  nm_container_count :: "string family"
  nm_container_restarts :: "(string \<times> string) family"

definition node_metrics_new :: node_metrics where
  "node_metrics_new = \<lparr>nm_gpu_utilization = [], nm_memory_usage = [], nm_container_count = [], nm_container_restarts = []\<rparr>"

text \<open>The cast of a floating-point number to \<open>i64\<close> is a parameter.\<close>

definition set_gpu_utilization :: "float_ops \<Rightarrow> (f64 \<Rightarrow> gauge) \<Rightarrow> string \<Rightarrow> string \<Rightarrow> f64 \<Rightarrow> node_metrics \<Rightarrow> node_metrics" where
  "set_gpu_utilization F to_i64 n g u m =
     m\<lparr>nm_gpu_utilization := family_change (n, g) (\<lambda>_. to_i64 (fl_mul F u (Fin 100))) (nm_gpu_utilization m)\<rparr>"

definition get_gpu_utilization :: "float_ops \<Rightarrow> string \<Rightarrow> string \<Rightarrow> node_metrics \<Rightarrow> f64 \<times> node_metrics" where
  "get_gpu_utilization F n g m =
     (case get_or_create (n, g) (nm_gpu_utilization m) of
        (x, f) \<Rightarrow> (fl_div F (fl_of_int F (sint x)) (Fin 100), m\<lparr>nm_gpu_utilization := f\<rparr>))"

definition set_memory_usage :: "string \<Rightarrow> u64 \<Rightarrow> node_metrics \<Rightarrow> node_metrics" where
  "set_memory_usage n b m = m\<lparr>nm_memory_usage := family_change n (\<lambda>_. b) (nm_memory_usage m)\<rparr>"

definition get_memory_usage :: "string \<Rightarrow> node_metrics \<Rightarrow> u64 \<times> node_metrics" where
  "get_memory_usage n m = (case get_or_create n (nm_memory_usage m) of (x, f) \<Rightarrow> (x, m\<lparr>nm_memory_usage := f\<rparr>))"

definition set_container_count :: "string \<Rightarrow> u64 \<Rightarrow> node_metrics \<Rightarrow> node_metrics" where
  "set_container_count n b m = m\<lparr>nm_container_count := family_change n (\<lambda>_. b) (nm_container_count m)\<rparr>"

definition get_container_count :: "string \<Rightarrow> node_metrics \<Rightarrow> u64 \<times> node_metrics" where
  "get_container_count n m = (case get_or_create n (nm_container_count m) of (x, f) \<Rightarrow> (x, m\<lparr>nm_container_count := f\<rparr>))"

definition inc_container_count :: "string \<Rightarrow> node_metrics \<Rightarrow> node_metrics" where
  "inc_container_count n m = m\<lparr>nm_container_count := family_change n (\<lambda>x. x + 1) (nm_container_count m)\<rparr>"

definition dec_container_count :: "string \<Rightarrow> node_metrics \<Rightarrow> node_metrics" where
  "dec_container_count n m = m\<lparr>nm_container_count := family_change n (\<lambda>x. x - 1) (nm_container_count m)\<rparr>"

definition inc_container_restarts :: "string \<Rightarrow> string \<Rightarrow> node_metrics \<Rightarrow> node_metrics" where
  "inc_container_restarts n w m = m\<lparr>nm_container_restarts := family_change (n, w) (\<lambda>x. x + 1) (nm_container_restarts m)\<rparr>"

definition get_container_restarts :: "string \<Rightarrow> string \<Rightarrow> node_metrics \<Rightarrow> u64 \<times> node_metrics" where
  "get_container_restarts n w m = (case get_or_create (n, w) (nm_container_restarts m) of (x, f) \<Rightarrow> (x, m\<lparr>nm_container_restarts := f\<rparr>))"

record prometheus_registry =
  pr_gateway :: gateway_metrics
  pr_node :: node_metrics

definition registry_new :: prometheus_registry where
  "registry_new = \<lparr>pr_gateway = gateway_new, pr_node = node_metrics_new\<rparr>"

definition registry_encode :: "(prometheus_registry \<Rightarrow> string option) \<Rightarrow> prometheus_registry \<Rightarrow> string" where
  "registry_encode enc r = (case enc r of None \<Rightarrow> [] | Some s \<Rightarrow> s)"

record metrics_response =
  mr_body :: string
  mr_content_type :: string

definition content_type :: string where
  "content_type = ''text/plain; version=0.0.4; charset=utf-8''"

definition handle_metrics :: "(prometheus_registry \<Rightarrow> string option) \<Rightarrow> prometheus_registry \<Rightarrow> metrics_response" where
  "handle_metrics enc r = \<lparr>mr_body = registry_encode enc r, mr_content_type = content_type\<rparr>"

section \<open>Collected points reach the store\<close>

lemma names_valid: "gpu_metric_names = Inr gpu_names" "system_metric_names = Inr system_names"
  by (simp_all add: gpu_metric_names_def system_metric_names_def gpu_names_def system_names_def metric_name_new_def MAX_LENGTH_def
      ascii_alphanumeric_def ascii_alphabetic_def is_digit_def)

lemma collections_succeed: "\<exists>ms. gpu_collect F t c = Inr ms \<and> length ms = 6 * gpu_count c" "\<exists>ms. system_collect F t y = Inr ms \<and> length ms = 11"
proof -
  have "length (concat (map (\<lambda>g. zip gpu_names (map (gpu_point n t g) (gpu_values F g))) gs)) = 6 * length gs" for gs n
    by (induction gs) (simp_all add: gpu_names_def gpu_values_def)
  from this [of "gc_node_id c" "hm_values (gc_gpu_data c)"]
  show "\<exists>ms. gpu_collect F t c = Inr ms \<and> length ms = 6 * gpu_count c" by (simp add: gpu_collect_def names_valid gpu_count_def)
  show "\<exists>ms. system_collect F t y = Inr ms \<and> length ms = 11" by (simp add: system_collect_def names_valid system_names_def system_values_def)
qed

lemma zip_map_member: "(n, p) \<in> set (zip ns (map f vs)) \<longleftrightarrow> (\<exists>v. (n, v) \<in> set (zip ns vs) \<and> p = f v)"
  by (auto simp: zip_map2)

lemma gpu_collect_members:
  "gpu_collect F t c = Inr ms \<Longrightarrow> (n, p) \<in> set ms \<longleftrightarrow>
     (\<exists>g v. g \<in> set (hm_values (gc_gpu_data c)) \<and> (n, v) \<in> set (zip gpu_names (gpu_values F g)) \<and> p = gpu_point (gc_node_id c) t g v)"
proof -
  assume "gpu_collect F t c = Inr ms"
  then have ms: "ms = concat (map (\<lambda>g. zip gpu_names (map (gpu_point (gc_node_id c) t g) (gpu_values F g))) (hm_values (gc_gpu_data c)))"
    by (simp add: gpu_collect_def names_valid split: if_splits)
  show ?thesis unfolding ms by (simp only: set_concat set_map UN_iff bex_simps zip_map_member) blast
qed

text \<open>A composite skips the collectors that fail and keeps what the others collect, in order.\<close>

lemma composite_collects: "composite_collect cs = Inr (concat (map (\<lambda>c. case c of Inl _ \<Rightarrow> [] | Inr ms \<Rightarrow> ms) cs))"
  by (induction cs) (auto split: sum.split)

lemma added_points_kept:
  assumes "\<forall>(n, p) \<in> set ms. cutoff \<le> pt_timestamp p" and "(n, p) \<in> set ms \<or> p \<in># M n \<and> cutoff \<le> pt_timestamp p"
  shows "p \<in># fold (\<lambda>(n, p). add_abs cutoff n p) ms M n"
  using assms
proof (induction ms arbitrary: M)
  case (Cons x ms)
  obtain a b where x: "x = (a, b)" by (cases x)
  have "(n, p) \<in> set ms \<or> p \<in># add_abs cutoff a b M n \<and> cutoff \<le> pt_timestamp p"
    using Cons.prems by (auto simp: x add_abs_def keep_since_def)
  then have "p \<in># fold (\<lambda>(n, p). add_abs cutoff n p) ms (add_abs cutoff a b M) n" using Cons.prems(1) by (intro Cons.IH) simp_all
  then show ?case by (simp add: x)
qed simp

theorem collected_points_stored:
  assumes "key_search search" and "data_ok (ms_data st)" and "in_i64 (now - ms_retention_millis st)" and "0 \<le> ms_retention_millis st"
    and "gpu_collect F now c = Inr ms"
  shows "\<exists>st'. collect_and_push search checks now (Inr ms) st = Some (Inr (), st') \<and>
    (\<forall>g v n r. g \<in> set (hm_values (gc_gpu_data c)) \<longrightarrow> (n, v) \<in> set (zip gpu_names (gpu_values F g)) \<longrightarrow> range_contains r now \<longrightarrow>
       (\<exists>ps. store_query F st' n r None = Inr ps \<and> gpu_point (gc_node_id c) now g v \<in> set ps))"
proof -
  let ?cut = "now - ms_retention_millis st" and ?d = "fold (\<lambda>(n, p) d. push_point search (now - ms_retention_millis st) n p d) ms (ms_data st)"
  have ts: "\<forall>(n, p) \<in> set ms. ?cut \<le> pt_timestamp p"
    using gpu_collect_members [OF assms(5)] assms(4) by (auto simp: gpu_point_def point_label_def point_new_def)
  have abs: "abs_data ?d = fold (\<lambda>(n, p). add_abs ?cut n p) ms (abs_data (ms_data st))"
    using key_search.push_all_ok [OF assms(1,2)] by blast
  have "\<exists>ps. store_query F (st\<lparr>ms_data := ?d\<rparr>) n r None = Inr ps \<and> p \<in> set ps" if "(n, p) \<in> set ms" "range_contains r (pt_timestamp p)" for n p r
  proof -
    have "p \<in># abs_data ?d n" unfolding abs using added_points_kept [OF ts] that(1) by blast
    then show ?thesis using that(2) by (auto simp: abs_data_def store_query_def aggregate_points_def split: option.splits)
  qed
  moreover have "pt_timestamp (gpu_point n now g v) = now" for n g v by (simp add: gpu_point_def point_label_def point_new_def)
  ultimately have "\<exists>ps. store_query F (st\<lparr>ms_data := ?d\<rparr>) n r None = Inr ps \<and> gpu_point (gc_node_id c) now g v \<in> set ps"
    if "g \<in> set (hm_values (gc_gpu_data c))" "(n, v) \<in> set (zip gpu_names (gpu_values F g))" "range_contains r now" for g v n r
    using that gpu_collect_members [OF assms(5)] by metis
  moreover have "collect_and_push search checks now (Inr ms) st = Some (Inr (), st\<lparr>ms_data := ?d\<rparr>)"
    using assms(3) by (simp add: collect_and_push_def store_push_batch_def op_i64_def)
  ultimately show ?thesis by blast
qed

section \<open>Gauges count modulo 2^64\<close>

lemma set_get:
  "fst (get_workloads_total s (set_workloads_total s n g)) = n" "fst (get_memory_usage k (set_memory_usage k n m)) = n"
  "fst (get_container_count k (set_container_count k n m)) = n" "get_nodes_total (set_nodes_total n g) = n"
  by (simp_all add: get_workloads_total_def set_workloads_total_def get_memory_usage_def set_memory_usage_def get_container_count_def
      set_container_count_def get_nodes_total_def set_nodes_total_def family_change_def get_or_create_def split: option.split)

lemma family_change_get: "hm_get (family_change l f m) l' = (if l = l' then Some (f (case hm_get m l of None \<Rightarrow> 0 | Some g \<Rightarrow> g)) else hm_get m l')"
  by (auto simp: family_change_def get_or_create_def split: option.split)

text \<open>A sequence of increments (true) and decrements of a node count.\<close>

definition node_steps :: "bool list \<Rightarrow> gateway_metrics \<Rightarrow> gateway_metrics" where
  "node_steps bs g = fold (\<lambda>b. if b then inc_nodes else dec_nodes) bs g"

lemma node_steps_count:
  "gm_nodes_total (node_steps bs g) = gm_nodes_total g + of_nat (length (filter id bs)) - of_nat (length (filter Not bs))"
proof -
  have "gm_nodes_total (fold (\<lambda>b. if b then inc_nodes else dec_nodes) bs g) =
      gm_nodes_total g + of_nat (length (filter id bs)) - of_nat (length (filter Not bs))"
    by (induction bs arbitrary: g) (simp_all add: inc_nodes_def dec_nodes_def)
  then show ?thesis by (simp add: node_steps_def)
qed

theorem node_count_exact:
  assumes "length (filter Not bs) \<le> unat n + length (filter id bs)" and "unat n + length (filter id bs) < 2 ^ 64"
  shows "unat (get_nodes_total (node_steps bs (set_nodes_total n g))) = unat n + length (filter id bs) - length (filter Not bs)"
proof -
  let ?i = "length (filter id bs)" and ?d = "length (filter Not bs)"
  have "n + of_nat ?i - of_nat ?d = (of_nat (unat n + ?i - ?d) :: u64)" using assms(1) by (simp add: of_nat_diff)
  moreover have "unat (of_nat (unat n + ?i - ?d) :: u64) = unat n + ?i - ?d" using assms(2) by (simp only: unat_of_nat) simp
  ultimately show ?thesis by (simp add: get_nodes_total_def node_steps_count set_nodes_total_def)
qed

text \<open>A decrement of zero is read as the largest number, although a comment says that the value is never negative.\<close>

lemma decrement_below_zero: "get_nodes_total (dec_nodes gateway_new) = - 1"
  by (simp add: get_nodes_total_def dec_nodes_def gateway_new_def)

text \<open>Asking for the count of an unknown label adds a series of zero to what is exported.\<close>

lemma reading_adds_series:
  "hm_get (gm_workloads_total g) s = None \<Longrightarrow> hm_get (gm_workloads_total (snd (get_workloads_total s g))) s = Some 0"
  by (simp add: get_workloads_total_def get_or_create_def)

text \<open>The gauge that is exported as a percentage holds a hundred times the percentage.\<close>

lemma utilization_exported_hundredfold:
  assumes "fl_mul F (Fin u) (Fin 100) = Fin (u * 100)" "\<And>k. to_i64 (Fin (of_int k)) = of_int k" "u * 100 = of_int k"
  shows "hm_get (nm_gpu_utilization (set_gpu_utilization F to_i64 n g (Fin u) m)) (n, g) = Some (of_int k)"
  using assms by (simp add: set_gpu_utilization_def family_change_get)

end
