(* ===== verification/Gateway_Client.thy ===== *)
theory Gateway_Client
  imports Key_Material
begin

text \<open>
  A node's connection to its gateway, \<open>crates/clawnode/src/client.rs\<close>, with the command names that \<open>lib.rs\<close> announces and \<open>commands.rs\<close> dispatches.
  The socket gives messages or failures; the parser of JSON, the derived decoder of an invocation and the execution of a command are arguments.
  The build without the network feature is modelled: with it, the client does not compile, since the heartbeat changes a binding that
  is not mutable.
\<close>

section \<open>Command names\<close>

record features =
  feat_metrics :: bool
  feat_network :: bool
  feat_molt :: bool

definition core_commands :: "string list" where
  "core_commands = [''system.info'', ''system.run'', ''system.which'', ''gpu.list'', ''gpu.metrics'', ''workload.run'', ''workload.stop'',
     ''workload.logs'', ''workload.list'', ''workload.inspect'', ''workload.stats'', ''container.exec'', ''node.capabilities'', ''node.health'',
     ''config.create'', ''config.get'', ''config.update'', ''config.delete'', ''config.list'',
     ''job.create'', ''job.status'', ''job.logs'', ''job.delete'', ''cron.create'', ''cron.list'', ''cron.trigger'', ''cron.suspend'', ''cron.resume'',
     ''namespace.create'', ''namespace.set_quota'', ''namespace.usage'', ''namespace.list'', ''node.label'', ''node.taint'', ''node.drain'',
     ''policy.create'', ''policy.validate'', ''policy.list'']"

definition announced_commands :: "features \<Rightarrow> string list" where
  "announced_commands B =
     core_commands @
     [''secret.create'', ''secret.get'', ''secret.delete'', ''secret.list'', ''secret.rotate''] @
     (if feat_metrics B
      then [''metrics.query'', ''metrics.list'', ''metrics.snapshot'', ''events.query'', ''events.emit'', ''alerts.create'', ''alerts.list'', ''alerts.acknowledge'']
      else []) @
     [''deploy.create'', ''deploy.status'', ''deploy.update'', ''deploy.rollback'', ''deploy.history'', ''deploy.promote'', ''deploy.pause'', ''deploy.delete''] @
     (if feat_network B
      then [''service.create'', ''service.get'', ''service.delete'', ''service.list'', ''service.endpoints'', ''ingress.create'', ''ingress.delete'',
        ''network.status'', ''network.policy.create'', ''network.policy.delete'', ''network.policy.list'']
      else []) @
     [''volume.create'', ''volume.mount'', ''volume.unmount'', ''volume.snapshot'', ''volume.list'', ''volume.delete'', ''backup.create'', ''backup.restore'',
       ''backup.list''] @
     [''auth.create_key'', ''auth.revoke_key'', ''auth.list_keys'', ''audit.query''] @
     [''autoscale.create'', ''autoscale.status'', ''autoscale.adjust'', ''autoscale.delete''] @
     (if feat_molt B then [''molt.discover'', ''molt.bid'', ''molt.status'', ''molt.balance'', ''molt.reputation''] else [])"

datatype handler_group =
    Core_Handler | Config_Handler | Secret_Handler | Metrics_Handler | Deploy_Handler | Job_Handler | Network_Handler | Storage_Handler
  | Auth_Handler | Namespace_Handler | Autoscale_Handler | Molt_Handler | Policy_Handler

text \<open>The dispatch of \<open>handle_command\<close>; \<^const>\<open>None\<close> is the error for an unknown command.\<close>

definition handle_command_group :: "features \<Rightarrow> string \<Rightarrow> handler_group option" where
  "handle_command_group B c =
     (if c \<in> {''gpu.list'', ''gpu.metrics'', ''system.info'', ''system.run'', ''system.which'', ''workload.run'', ''workload.stop'', ''workload.logs'',
        ''workload.list'', ''workload.inspect'', ''workload.stats'', ''container.exec'', ''node.capabilities'', ''node.health''} then Some Core_Handler
      else if c \<in> {''config.create'', ''config.get'', ''config.update'', ''config.delete'', ''config.list''} then Some Config_Handler
      else if c \<in> {''secret.create'', ''secret.get'', ''secret.delete'', ''secret.list'', ''secret.rotate''} then Some Secret_Handler
      else if feat_metrics B \<and> c \<in> {''metrics.query'', ''metrics.list'', ''metrics.snapshot'', ''events.query'', ''events.emit'', ''alerts.create'',
        ''alerts.list'', ''alerts.acknowledge''} then Some Metrics_Handler
      else if c \<in> {''deploy.create'', ''deploy.status'', ''deploy.update'', ''deploy.rollback'', ''deploy.history'', ''deploy.promote'', ''deploy.pause'',
        ''deploy.delete''} then Some Deploy_Handler
      else if c \<in> {''job.create'', ''job.status'', ''job.logs'', ''job.delete'', ''cron.create'', ''cron.list'', ''cron.trigger'', ''cron.suspend'',
        ''cron.resume''} then Some Job_Handler
      else if feat_network B \<and> c \<in> {''service.create'', ''service.get'', ''service.delete'', ''service.list'', ''service.endpoints'', ''ingress.create'',
        ''ingress.delete'', ''network.status'', ''network.policy.create'', ''network.policy.delete'', ''network.policy.list''} then Some Network_Handler
      else if c \<in> {''volume.create'', ''volume.mount'', ''volume.unmount'', ''volume.snapshot'', ''volume.list'', ''volume.delete'', ''backup.create'',
        ''backup.restore'', ''backup.list''} then Some Storage_Handler
      else if c \<in> {''auth.create_key'', ''auth.revoke_key'', ''auth.list_keys'', ''audit.query''} then Some Auth_Handler
      else if c \<in> {''namespace.create'', ''namespace.set_quota'', ''namespace.usage'', ''namespace.list'', ''node.label'', ''node.taint'', ''node.drain''}
        then Some Namespace_Handler
      else if c \<in> {''autoscale.create'', ''autoscale.status'', ''autoscale.adjust'', ''autoscale.delete''} then Some Autoscale_Handler
      else if feat_molt B \<and> c \<in> {''molt.discover'', ''molt.bid'', ''molt.status'', ''molt.balance'', ''molt.reputation''} then Some Molt_Handler
      else if c \<in> {''policy.create'', ''policy.validate'', ''policy.list''} then Some Policy_Handler
      else None)"

section \<open>Frames\<close>

record request_frame =
  rf_type :: string
  rf_id :: string
  rf_method :: string
  rf_params :: "json option"

definition request_frame_new :: "string \<Rightarrow> string \<Rightarrow> json option \<Rightarrow> request_frame" where
  "request_frame_new i m p = \<lparr>rf_type = ''req'', rf_id = i, rf_method = m, rf_params = p\<rparr>"

record invoke_request =
  iv_id :: string
  iv_node_id :: string
  iv_command :: string
  iv_params_json :: "string option"
  iv_timeout_ms :: "u64 option"
  iv_idempotency_key :: "string option"

fun jget :: "json \<Rightarrow> string \<Rightarrow> json option" where
  "jget (JObj kvs) k = map_of kvs k"
| "jget _ k = None"

fun as_str :: "json \<Rightarrow> string option" where
  "as_str (JStr s) = Some s"
| "as_str _ = None"

fun as_bool :: "json \<Rightarrow> bool option" where
  "as_bool (JBool b) = Some b"
| "as_bool _ = None"

definition get_str :: "json \<Rightarrow> string \<Rightarrow> string option" where
  "get_str j k = Option.bind (jget j k) as_str"

definition str_or :: "string option \<Rightarrow> string \<Rightarrow> string" where
  "str_or s d = (case s of None \<Rightarrow> d | Some t \<Rightarrow> t)"

text \<open>What a read of the socket gives, within its time limit.\<close>

datatype ws_message = Text string | Ping | Close string | Other_message
datatype read_result = Got ws_message | Read_failed string | Ended | Timed_out

type_synonym parser = "string \<Rightarrow> string + json"

section \<open>The handshake\<close>

definition client_identity :: "key_library \<Rightarrow> save_calls \<Rightarrow> u64 \<Rightarrow> bytes \<Rightarrow> bytes \<Rightarrow> path \<Rightarrow> files \<Rightarrow> device_identity \<times> files" where
  "client_identity K c now random random2 p f =
     (case load_or_create K c now random p f of
        (Inr d, f') \<Rightarrow> (d, f')
      | (Inl _, f') \<Rightarrow> (identity_generate K random2, f'))"

definition read_challenge :: "parser \<Rightarrow> read_result \<Rightarrow> string + string" where
  "read_challenge parse r =
     (case r of
        Timed_out \<Rightarrow> Inl ''challenge timeout''
      | Ended \<Rightarrow> Inl ''connection closed waiting for challenge''
      | Read_failed e \<Rightarrow> Inl e
      | Got (Text t) \<Rightarrow>
          (case parse t of
             Inl e \<Rightarrow> Inl e
           | Inr frame \<Rightarrow>
               (case get_str frame ''event'' of
                  Some ev \<Rightarrow>
                    (case (if ev = ''connect.challenge'' then Option.bind (jget frame ''payload'') (\<lambda>p. get_str p ''nonce'') else None) of
                       None \<Rightarrow> Inl ''no challenge nonce received''
                     | Some n \<Rightarrow> Inr n)
                | None \<Rightarrow>
                    (case jget frame ''error'' of
                       Some e \<Rightarrow> Inl (''gateway error on connect: '' @ str_or (get_str e ''message'') ''unknown'')
                     | None \<Rightarrow> Inl ''no challenge nonce received'')))
      | Got (Close reason) \<Rightarrow> Inl (''gateway closed connection: '' @ reason)
      | Got _ \<Rightarrow> Inl ''no challenge nonce received'')"

definition connect_request :: "string option \<Rightarrow> string \<Rightarrow> auth_request" where
  "connect_request token nonce =
     \<lparr>ar_client_id = ''node-host'', ar_client_mode = ''node'', ar_role = ''node'', ar_scopes = [''node''], ar_token = token, ar_nonce = Some nonce\<rparr>"

definition connect_device :: "key_library \<Rightarrow> device_identity \<Rightarrow> u64 \<Rightarrow> string option \<Rightarrow> string \<Rightarrow> device_params" where
  "connect_device K d signed_at token nonce = device_params_of K d signed_at (connect_request token nonce)"

definition is_hello_ok :: "json \<Rightarrow> bool" where
  "is_hello_ok frame \<longleftrightarrow> Option.bind (jget frame ''ok'') as_bool = Some True \<and> Option.bind (jget frame ''payload'') (\<lambda>p. get_str p ''type'') = Some ''hello-ok''"

text \<open>Whether the node is already paired.\<close>

definition read_hello :: "parser \<Rightarrow> read_result \<Rightarrow> string + bool" where
  "read_hello parse r =
     (case r of
        Timed_out \<Rightarrow> Inl ''hello timeout''
      | Ended \<Rightarrow> Inl ''connection closed by gateway''
      | Read_failed e \<Rightarrow> Inl (''websocket error: '' @ e)
      | Got (Text t) \<Rightarrow>
          (case parse t of
             Inl e \<Rightarrow> Inl e
           | Inr frame \<Rightarrow>
               if is_hello_ok frame then Inr True
               else (case jget frame ''error'' of
                       Some e \<Rightarrow> Inl (''gateway error: '' @ str_or (get_str e ''message'') ''unknown error'')
                     | None \<Rightarrow> if jget frame ''event'' \<noteq> None then Inl ''device signature rejected'' else Inr False))
      | Got _ \<Rightarrow> Inr False)"

text \<open>
  The loop that waits for the answer to the pairing request: each read comes with whether the deadline has not passed before it. The
  token that is kept, if any; the end of the list stands for the deadline.
\<close>

fun pairing_loop :: "parser \<Rightarrow> (bool \<times> read_result) list \<Rightarrow> string + string option" where
  "pairing_loop parse [] = Inr None"
| "pairing_loop parse ((in_time, r) # rs) =
     (if \<not> in_time then Inr None
      else case r of
             Got (Text t) \<Rightarrow>
               (case parse t of
                  Inl e \<Rightarrow> Inl e
                | Inr frame \<Rightarrow>
                    if jget frame ''id'' = None then pairing_loop parse rs
                    else (case jget frame ''result'' of
                            Some res \<Rightarrow> Inr (get_str res ''token'')
                          | None \<Rightarrow> if jget frame ''error'' \<noteq> None then Inr None else pairing_loop parse rs))
           | Got Ping \<Rightarrow> pairing_loop parse rs
           | Got (Close _) \<Rightarrow> Inl ''connection closed during pairing''
           | Got Other_message \<Rightarrow> pairing_loop parse rs
           | Read_failed e \<Rightarrow> Inl (''websocket error: '' @ e)
           | Ended \<Rightarrow> Inl ''connection closed''
           | Timed_out \<Rightarrow> Inr None)"

text \<open>The whole handshake: the results of the sends, the reads, and the token of the node afterwards.\<close>

definition handshake ::
  "parser \<Rightarrow> string option \<Rightarrow> string option \<Rightarrow> read_result \<Rightarrow> read_result \<Rightarrow> (bool \<times> read_result) list \<Rightarrow> string option \<Rightarrow> string + string option" where
  "handshake parse send_connect send_pair r1 r2 rs token =
     (case read_challenge parse r1 of
        Inl e \<Rightarrow> Inl e
      | Inr nonce \<Rightarrow>
          (case send_connect of
             Some e \<Rightarrow> Inl (''failed to send connect: '' @ e)
           | None \<Rightarrow>
               (case read_hello parse r2 of
                  Inl e \<Rightarrow> Inl e
                | Inr True \<Rightarrow> Inr token
                | Inr False \<Rightarrow>
                    (case send_pair of
                       Some e \<Rightarrow> Inl e
                     | None \<Rightarrow>
                         (case pairing_loop parse rs of
                            Inl e \<Rightarrow> Inl e
                          | Inr t \<Rightarrow> Inr (case t of Some s \<Rightarrow> Some s | None \<Rightarrow> token))))))"

section \<open>Messages\<close>

text \<open>What the code takes from its environment: the parser, the decoder and the commands over a state of the node.\<close>

record 's client_env =
  ce_parse :: parser
  ce_decode :: "json \<Rightarrow> string + invoke_request"
  ce_command :: "string \<Rightarrow> json \<Rightarrow> 's \<Rightarrow> (string + json) \<times> 's"

definition result_params :: "invoke_request \<Rightarrow> string \<Rightarrow> string + json \<Rightarrow> json" where
  "result_params iv node_id r =
     (case r of
        Inr payload \<Rightarrow> JObj [(''id'', JStr (iv_id iv)), (''nodeId'', JStr node_id), (''ok'', JBool True), (''payload'', payload)]
      | Inl e \<Rightarrow> JObj [(''id'', JStr (iv_id iv)), (''nodeId'', JStr node_id), (''ok'', JBool False),
          (''error'', JObj [(''code'', JStr ''COMMAND_ERROR''), (''message'', JStr e)])])"

definition invoke_params :: "parser \<Rightarrow> invoke_request \<Rightarrow> json" where
  "invoke_params parse iv =
     (case iv_params_json iv of
        None \<Rightarrow> JNull
      | Some s \<Rightarrow> (case parse s of Inl _ \<Rightarrow> JNull | Inr j \<Rightarrow> j))"

definition handle_invoke :: "'s client_env \<Rightarrow> string \<Rightarrow> string \<Rightarrow> invoke_request \<Rightarrow> 's \<Rightarrow> request_frame \<times> 's" where
  "handle_invoke E fresh node_id iv s =
     (case ce_command E (iv_command iv) (invoke_params (ce_parse E) iv) s of
        (r, s') \<Rightarrow> (request_frame_new fresh ''node.invoke.result'' (Some (result_params iv node_id r)), s'))"

text \<open>The invocation that a message carries, if it decodes to one.\<close>

definition invocation :: "'s client_env \<Rightarrow> string \<Rightarrow> string + invoke_request option" where
  "invocation E text =
     (case ce_parse E text of
        Inl e \<Rightarrow> Inl e
      | Inr frame \<Rightarrow>
          if get_str frame ''event'' \<noteq> Some ''node.invoke.request'' then Inr None
          else (case jget frame ''payload'' of
                  None \<Rightarrow> Inr None
                | Some p \<Rightarrow> (case ce_decode E p of Inl e \<Rightarrow> Inl e | Inr iv \<Rightarrow> Inr (Some iv))))"

definition handle_message :: "'s client_env \<Rightarrow> string \<Rightarrow> string \<Rightarrow> string \<Rightarrow> 's \<Rightarrow> (string + request_frame list) \<times> 's" where
  "handle_message E fresh node_id text s =
     (case invocation E text of
        Inl e \<Rightarrow> (Inl e, s)
      | Inr None \<Rightarrow> (Inr [], s)
      | Inr (Some iv) \<Rightarrow> (case handle_invoke E fresh node_id iv s of (f, s') \<Rightarrow> (Inr [f], s')))"

section \<open>The event loop\<close>

definition CHANNEL_SIZE :: nat where "CHANNEL_SIZE = 32"

text \<open>
  One task runs the loop: it takes frames from a bounded channel and puts frames into it. A put into a full channel waits for a
  take, which only the same task makes. A frame that was taken and could not be written to the connection is lost, and the loop ends.
\<close>

record 's loop_state =
  ls_queue :: "request_frame list"
  ls_sent :: "request_frame list"
  ls_lost :: "request_frame option"
  ls_waiting :: "request_frame option"
  ls_node :: 's
  ls_done :: bool

definition loop_start :: "'s \<Rightarrow> 's loop_state" where
  "loop_start s = \<lparr>ls_queue = [], ls_sent = [], ls_lost = None, ls_waiting = None, ls_node = s, ls_done = False\<rparr>"

definition put_frame :: "request_frame \<Rightarrow> 's loop_state \<Rightarrow> 's loop_state" where
  "put_frame f st =
     (if length (ls_queue st) < CHANNEL_SIZE then st\<lparr>ls_queue := ls_queue st @ [f]\<rparr> else st\<lparr>ls_waiting := Some f\<rparr>)"

definition heartbeat_frame :: "string \<Rightarrow> string \<Rightarrow> request_frame" where
  "heartbeat_frame fresh node_id = request_frame_new fresh ''node.event''
     (Some (JObj [(''event'', JStr ''heartbeat''), (''payload'', JObj [(''nodeId'', JStr node_id)])]))"

datatype loop_event = Took | Send_failed | Received string string | Ponged | Beat string | Closed

inductive loop_step :: "'s client_env \<Rightarrow> string \<Rightarrow> loop_event \<Rightarrow> 's loop_state \<Rightarrow> 's loop_state \<Rightarrow> bool" for E node_id where
  take_frame: "ls_waiting st = None \<Longrightarrow> \<not> ls_done st \<Longrightarrow> ls_queue st = f # fs \<Longrightarrow>
     loop_step E node_id Took st (st\<lparr>ls_queue := fs, ls_sent := ls_sent st @ [f]\<rparr>)"
| lose_frame: "ls_waiting st = None \<Longrightarrow> \<not> ls_done st \<Longrightarrow> ls_queue st = f # fs \<Longrightarrow>
     loop_step E node_id Send_failed st (st\<lparr>ls_queue := fs, ls_lost := Some f, ls_done := True\<rparr>)"
| got_message: "ls_waiting st = None \<Longrightarrow> \<not> ls_done st \<Longrightarrow> handle_message E fresh node_id text (ls_node st) = (r, s') \<Longrightarrow>
     loop_step E node_id (Received fresh text) st
       (case r of Inr [f] \<Rightarrow> put_frame f (st\<lparr>ls_node := s'\<rparr>) | _ \<Rightarrow> st\<lparr>ls_node := s'\<rparr>)"
| pong: "ls_waiting st = None \<Longrightarrow> \<not> ls_done st \<Longrightarrow> loop_step E node_id Ponged st st"
| beat: "ls_waiting st = None \<Longrightarrow> \<not> ls_done st \<Longrightarrow> loop_step E node_id (Beat fresh) st (put_frame (heartbeat_frame fresh node_id) st)"
| close: "ls_waiting st = None \<Longrightarrow> \<not> ls_done st \<Longrightarrow> loop_step E node_id Closed st (st\<lparr>ls_done := True\<rparr>)"

inductive_cases stepE: "loop_step E node_id e st st'"

inductive loop_run :: "'s client_env \<Rightarrow> string \<Rightarrow> loop_event list \<Rightarrow> 's loop_state \<Rightarrow> 's loop_state \<Rightarrow> bool" for E node_id where
  no_event: "loop_run E node_id [] st st"
| one_more: "loop_run E node_id es st st' \<Longrightarrow> loop_step E node_id e st' st'' \<Longrightarrow> loop_run E node_id (es @ [e]) st st''"

section \<open>Announced commands\<close>

lemma dispatched_iff:
  "handle_command_group B c \<noteq> None \<longleftrightarrow>
     c \<in> {''gpu.list'', ''gpu.metrics'', ''system.info'', ''system.run'', ''system.which'', ''workload.run'', ''workload.stop'', ''workload.logs'',
        ''workload.list'', ''workload.inspect'', ''workload.stats'', ''container.exec'', ''node.capabilities'', ''node.health''} \<union>
       {''config.create'', ''config.get'', ''config.update'', ''config.delete'', ''config.list''} \<union>
       {''secret.create'', ''secret.get'', ''secret.delete'', ''secret.list'', ''secret.rotate''} \<union>
       {c. feat_metrics B \<and> c \<in> {''metrics.query'', ''metrics.list'', ''metrics.snapshot'', ''events.query'', ''events.emit'', ''alerts.create'',
          ''alerts.list'', ''alerts.acknowledge''}} \<union>
       {''deploy.create'', ''deploy.status'', ''deploy.update'', ''deploy.rollback'', ''deploy.history'', ''deploy.promote'', ''deploy.pause'',
         ''deploy.delete''} \<union>
       {''job.create'', ''job.status'', ''job.logs'', ''job.delete'', ''cron.create'', ''cron.list'', ''cron.trigger'', ''cron.suspend'',
         ''cron.resume''} \<union>
       {c. feat_network B \<and> c \<in> {''service.create'', ''service.get'', ''service.delete'', ''service.list'', ''service.endpoints'', ''ingress.create'',
          ''ingress.delete'', ''network.status'', ''network.policy.create'', ''network.policy.delete'', ''network.policy.list''}} \<union>
       {''volume.create'', ''volume.mount'', ''volume.unmount'', ''volume.snapshot'', ''volume.list'', ''volume.delete'', ''backup.create'',
         ''backup.restore'', ''backup.list''} \<union>
       {''auth.create_key'', ''auth.revoke_key'', ''auth.list_keys'', ''audit.query''} \<union>
       {''namespace.create'', ''namespace.set_quota'', ''namespace.usage'', ''namespace.list'', ''node.label'', ''node.taint'', ''node.drain''} \<union>
       {''autoscale.create'', ''autoscale.status'', ''autoscale.adjust'', ''autoscale.delete''} \<union>
       {c. feat_molt B \<and> c \<in> {''molt.discover'', ''molt.bid'', ''molt.status'', ''molt.balance'', ''molt.reputation''}} \<union>
       {''policy.create'', ''policy.validate'', ''policy.list''}"
  unfolding handle_command_group_def by (simp only: if_split_eq1 Un_iff mem_Collect_eq option.simps not_False_eq_True) argo

text \<open>A node announces exactly the commands that it dispatches, in every build.\<close>

theorem announced_iff_dispatched: "c \<in> set (announced_commands B) \<longleftrightarrow> handle_command_group B c \<noteq> None"
  unfolding dispatched_iff
  by (cases "feat_metrics B"; cases "feat_network B"; cases "feat_molt B")
    (simp_all only: announced_commands_def core_commands_def set_append list.set if_True if_False Un_iff mem_Collect_eq insert_iff empty_iff simp_thms; argo)+

section \<open>The handshake\<close>

text \<open>Only a challenge with a nonce is followed by the signed request, and what is signed contains that nonce.\<close>

lemma challenge_required:
  "read_challenge parse r = Inr n \<longleftrightarrow>
     (\<exists>t frame p. r = Got (Text t) \<and> parse t = Inr frame \<and> get_str frame ''event'' = Some ''connect.challenge'' \<and>
        jget frame ''payload'' = Some p \<and> get_str p ''nonce'' = Some n)"
  by (auto simp: read_challenge_def bind_eq_Some_conv split: read_result.splits ws_message.splits sum.splits option.splits if_splits)

lemma nonce_is_signed:
  assumes "plain_request (di_device_id d) (connect_request tok n)" "plain_request (di_device_id d) (connect_request tok' n')"
    and "build_auth_payload d (connect_request tok n) t = build_auth_payload d (connect_request tok' n') t'"
  shows "n = n' \<and> t = t'"
  using payload_binds(6,8) [OF assms] by (simp add: connect_request_def)

text \<open>The pairing loop only ends early with an answer, a failure or a silence; a refusal counts as an answer.\<close>

lemma refused_pairing_continues:
  assumes "parse t = Inr frame" "jget frame ''id'' \<noteq> None" "jget frame ''result'' = None" "jget frame ''error'' = Some e"
    and "read_challenge parse r1 = Inr n" "read_hello parse r2 = Inr False"
  shows "handshake parse None None r1 r2 ((True, Got (Text t)) # rs) token = Inr token"
  using assms by (auto simp: handshake_def)

lemma silent_pairing_continues:
  "read_challenge parse r1 = Inr n \<Longrightarrow> read_hello parse r2 = Inr False \<Longrightarrow> handshake parse None None r1 r2 ((True, Timed_out) # rs) token = Inr token"
  by (simp add: handshake_def)

text \<open>An identity file that cannot be loaded is kept, and the client uses a fresh identity that is not saved.\<close>

lemma unreadable_identity_replaced:
  assumes "fs_disk f p = Some s" "sc_read c = None" "identity_load K s = Inl e"
  shows "client_identity K c now random random2 p f = (identity_of K random2, f)"
  using assms by (simp add: client_identity_def load_or_create_def identity_generate_def)

section \<open>Every invocation that decodes is answered once, in order\<close>

definition all_frames :: "'s loop_state \<Rightarrow> request_frame list" where
  "all_frames st = ls_sent st @ (case ls_lost st of None \<Rightarrow> [] | Some f \<Rightarrow> [f]) @ ls_queue st @
     (case ls_waiting st of None \<Rightarrow> [] | Some f \<Rightarrow> [f])"

definition answered_id :: "request_frame \<Rightarrow> string option" where
  "answered_id f = (if rf_method f = ''node.invoke.result'' then Option.bind (rf_params f) (\<lambda>p. get_str p ''id'') else None)"

definition invoked_ids :: "'s client_env \<Rightarrow> loop_event \<Rightarrow> string list" where
  "invoked_ids E e =
     (case e of
        Received fresh text \<Rightarrow> (case invocation E text of Inr (Some iv) \<Rightarrow> [iv_id iv] | _ \<Rightarrow> [])
      | _ \<Rightarrow> [])"

definition channel_ok :: "'s loop_state \<Rightarrow> bool" where
  "channel_ok st \<longleftrightarrow> length (ls_queue st) \<le> CHANNEL_SIZE \<and> (ls_waiting st \<noteq> None \<longrightarrow> length (ls_queue st) = CHANNEL_SIZE) \<and>
     (ls_lost st \<noteq> None \<longrightarrow> ls_done st)"

lemma filter_ids_append: "List.map_filter g (xs @ ys) = List.map_filter g xs @ List.map_filter g ys"
  by (induction xs) (auto simp: map_filter_simps split: option.split)

lemma put_frame_all: "ls_waiting st = None \<Longrightarrow> all_frames (put_frame f st) = all_frames st @ [f]"
  by (simp add: put_frame_def all_frames_def)

lemma put_frame_ok: "ls_waiting st = None \<Longrightarrow> channel_ok st \<Longrightarrow> channel_ok (put_frame f st)"
  by (auto simp: put_frame_def channel_ok_def)

lemma all_frames_node [simp]: "all_frames (st\<lparr>ls_node := s\<rparr>) = all_frames st" "all_frames (st\<lparr>ls_done := b\<rparr>) = all_frames st"
  by (simp_all add: all_frames_def)

lemma channel_ok_node [simp]: "channel_ok (st\<lparr>ls_node := s\<rparr>) = channel_ok st"
  "channel_ok st \<Longrightarrow> channel_ok (st\<lparr>ls_done := True\<rparr>)"
  by (auto simp: channel_ok_def)

lemma invoke_answer: "answered_id (fst (handle_invoke E fresh n iv s)) = Some (iv_id iv)"
  by (simp add: handle_invoke_def case_prod_beta answered_id_def request_frame_new_def result_params_def get_str_def split: sum.split)

lemma beat_no_answer: "answered_id (heartbeat_frame fresh n) = None"
  by (simp add: heartbeat_frame_def answered_id_def request_frame_new_def)

lemma step_answers:
  assumes "loop_step E n e st st'" and "channel_ok st"
  shows "List.map_filter answered_id (all_frames st') = List.map_filter answered_id (all_frames st) @ invoked_ids E e \<and> channel_ok st'"
  using assms
proof cases
  case (take_frame f fs)
  then show ?thesis using assms(2) by (auto simp: all_frames_def channel_ok_def invoked_ids_def)
next
  case (lose_frame f fs)
  then show ?thesis using assms(2) by (auto simp: all_frames_def channel_ok_def invoked_ids_def)
next
  case (got_message fresh msg r s')
  then show ?thesis using assms(2) invoke_answer [of E fresh n _ "ls_node st"]
    by (auto simp: handle_message_def invoked_ids_def put_frame_all put_frame_ok filter_ids_append map_filter_simps case_prod_beta
        split: sum.splits option.splits)
next
  case (beat fresh)
  then show ?thesis using assms(2) by (simp add: put_frame_all put_frame_ok filter_ids_append map_filter_simps beat_no_answer invoked_ids_def)
qed (use assms(2) in \<open>simp_all add: invoked_ids_def\<close>)

section \<open>The loop can block itself\<close>

lemma waiting_is_stuck: "ls_waiting st \<noteq> None \<Longrightarrow> \<not> loop_step E n e st st'"
  by (auto elim: stepE)

lemma queue_fills:
  assumes "invocation E msg = Inr (Some iv)" and "k \<le> CHANNEL_SIZE"
  shows "\<exists>st. loop_run E n (replicate k (Received fresh msg)) (loop_start s) st \<and> ls_waiting st = None \<and> \<not> ls_done st \<and> length (ls_queue st) = k"
  using assms(2)
proof (induction k)
  case 0
  have "loop_run E n [] (loop_start s) (loop_start s)" by (rule loop_run.no_event)
  then show ?case by (auto simp: loop_start_def)
next
  case (Suc k)
  then obtain st where st: "loop_run E n (replicate k (Received fresh msg)) (loop_start s) st" "ls_waiting st = None" "\<not> ls_done st" "length (ls_queue st) = k"
    by auto
  obtain f s' where f: "handle_invoke E fresh n iv (ls_node st) = (f, s')" by (cases "handle_invoke E fresh n iv (ls_node st)")
  have "loop_step E n (Received fresh msg) st (put_frame f (st\<lparr>ls_node := s'\<rparr>))"
    using loop_step.got_message [OF st(2,3), of E fresh n msg "Inr [f]" s'] assms(1) f by (simp add: handle_message_def)
  from loop_run.one_more [OF st(1) this] show ?case using st Suc.prems
    by (intro exI [of _ "put_frame f (st\<lparr>ls_node := s'\<rparr>)"]) (simp add: replicate_append_same put_frame_def)
qed

text \<open>
  C34. Every invocation that decodes gets one result, in order: after any sequence of events of the loop from its start, failing writes included, the
  identifiers of the results that were sent, then of one that may have been lost, then of those still queued or waiting for the channel are
  exactly those of the received invocations that decode, in the order of their arrival. At most one frame is lost, by a write that failed, and then the loop
  has ended; what is queued when the loop ends is not sent any more. The channel never holds more than 32 frames, and a frame waits only while it is
  full. (An invocation that does not decode is not answered.)
\<close>

theorem answers_in_order:
  assumes "loop_run E node_id es (loop_start s) st"
  shows "List.map_filter answered_id (ls_sent st @ (case ls_lost st of None \<Rightarrow> [] | Some f \<Rightarrow> [f]) @ ls_queue st @
      (case ls_waiting st of None \<Rightarrow> [] | Some f \<Rightarrow> [f])) = concat (map (invoked_ids E) es) \<and>
    (ls_lost st \<noteq> None \<longrightarrow> ls_done st) \<and> (ls_done st \<longrightarrow> \<not> loop_step E node_id e st st') \<and> length (ls_queue st) \<le> 32 \<and> (ls_waiting st \<noteq> None \<longrightarrow> length (ls_queue st) = 32)"
proof -
  have start: "List.map_filter answered_id (all_frames (loop_start s)) = []" "channel_ok (loop_start s)"
    by (simp_all add: all_frames_def loop_start_def channel_ok_def map_filter_simps)
  have "List.map_filter answered_id (all_frames st) = List.map_filter answered_id (all_frames st0) @ concat (map (invoked_ids E) es) \<and> channel_ok st"
    if "loop_run E node_id es st0 st" "channel_ok st0" for st0
    using that by (induction rule: loop_run.induct) (auto dest: step_answers)
  from this [OF assms start(2)] show ?thesis unfolding all_frames_def channel_ok_def CHANNEL_SIZE_def
    by (auto simp: start(1) [unfolded all_frames_def] elim: stepE)
qed

definition echo_env :: "unit client_env" where
  "echo_env = \<lparr>ce_parse = (\<lambda>t. Inr (JObj [(''event'', JStr ''node.invoke.request''), (''payload'', JStr t)])),
     ce_decode = (\<lambda>j. Inr \<lparr>iv_id = str_or (as_str j) [], iv_node_id = [], iv_command = ''node.health'', iv_params_json = None, iv_timeout_ms = None,
       iv_idempotency_key = None\<rparr>),
     ce_command = (\<lambda>c j s. (Inr j, s))\<rparr>"

theorem answers_in_order_witness:
  "\<exists>st. loop_run echo_env ''n'' (replicate 2 (Received ''f'' ''m'')) (loop_start ()) st \<and>
     List.map_filter answered_id (all_frames st) = [''m'', ''m'']"
proof -
  have iv: "\<exists>iv. invocation echo_env ''m'' = Inr (Some iv) \<and> iv_id iv = ''m''"
    by (simp add: invocation_def echo_env_def get_str_def str_or_def)
  then obtain st where run: "loop_run echo_env ''n'' (replicate 2 (Received ''f'' ''m'')) (loop_start ()) st"
    using queue_fills [of echo_env "''m''" _ 2 "''n''" "''f''" "()"] by (auto simp: CHANNEL_SIZE_def)
  from answers_in_order [OF run] iv have "List.map_filter answered_id (all_frames st) = [''m'', ''m'']"
    by (auto simp: all_frames_def invoked_ids_def numeral_2_eq_2)
  with run show ?thesis by blast
qed

text \<open>When the loop takes 33 invocations before it takes a frame from the channel, it waits for itself: no event is possible any more.\<close>

theorem loop_can_deadlock:
  assumes "invocation E msg = Inr (Some iv)"
  shows "\<exists>st. loop_run E n (replicate 33 (Received fresh msg)) (loop_start s) st \<and> \<not> ls_done st \<and> (\<forall>e st'. \<not> loop_step E n e st st')"
proof -
  obtain st where st: "loop_run E n (replicate 32 (Received fresh msg)) (loop_start s) st" "ls_waiting st = None" "\<not> ls_done st" "length (ls_queue st) = 32"
    using queue_fills [OF assms, of 32 n fresh s] by (auto simp: CHANNEL_SIZE_def)
  obtain f s' where f: "handle_invoke E fresh n iv (ls_node st) = (f, s')" by (cases "handle_invoke E fresh n iv (ls_node st)")
  let ?st = "put_frame f (st\<lparr>ls_node := s'\<rparr>)"
  have "loop_step E n (Received fresh msg) st ?st"
    using loop_step.got_message [OF st(2,3), of E fresh n msg "Inr [f]" s'] assms f by (simp add: handle_message_def)
  from loop_run.one_more [OF st(1) this]
  have "loop_run E n (replicate (Suc 32) (Received fresh msg)) (loop_start s) ?st" by (simp only: replicate_append_same replicate_Suc)
  then have "loop_run E n (replicate 33 (Received fresh msg)) (loop_start s) ?st" by simp
  moreover have "ls_waiting ?st \<noteq> None" "\<not> ls_done ?st" using st by (simp_all add: put_frame_def CHANNEL_SIZE_def)
  ultimately show ?thesis using waiting_is_stuck by blast
qed

text \<open>
  Parameters that are not JSON are passed as null instead of being refused, the time limit and the key against repetition have no effect, and an
  invocation that does not decode is not answered.
\<close>

lemma limits_ignored:
  "handle_invoke E fresh n (iv\<lparr>iv_timeout_ms := t, iv_idempotency_key := k\<rparr>) s = handle_invoke E fresh n iv s"
  by (simp add: handle_invoke_def invoke_params_def result_params_def split: prod.splits sum.splits)

lemma malformed_params_null: "iv_params_json iv = Some t \<Longrightarrow> parse t = Inl e \<Longrightarrow> invoke_params parse iv = JNull"
  by (simp add: invoke_params_def)

lemma undecodable_unanswered: "invocation E msg = Inl e \<Longrightarrow> handle_message E fresh n msg s = (Inl e, s)"
  by (simp add: handle_message_def)

end
