(* ===== verification/Spec2Isabelle.thy ===== *)
theory Spec2Isabelle
  imports Payment Order_Book Agents Diversity Gossip_Broadcast Mesh_Manager Net_Policy Scheduler_Stores Deploy_Commands Connection_Pool Node_Workloads Attestation_Proofs Metric_Store Gossip_Node Nat_Traversal Job_Tunnels Store_Commands Secret_Commands Storage_Commands Workload_Commands Market_Commands Network_Commands Ingress_Proxy Docker_Runtime Metrics_Commands Tensors Key_Material Core_Policy Metric_Collectors Gateway_Client
begin

text \<open>
  \<^bold>\<open>Clawbernetes: marketplace, agents, gossip network, mesh, node commands and state, attestation, metrics and compute.\<close>

  Clawbernetes manages clusters of GPU nodes and runs a token marketplace on top. Providers announce capacity over a
  gossip network, buyers post orders, matched jobs are paid through escrows on a token ledger, agents act within
  autonomy policies; nodes join a WireGuard mesh, give addresses to their workloads, publish services behind virtual
  addresses, filter traffic with iptables, run workloads on their GPUs for the gateway, attest their hardware and the work they did, and keep
  their state in JSON files. All paths below are under
  \<open>src/crates/\<close>.

  \<^bold>\<open>Theories and the code they model.\<close>

  \<^item> \<open>Rust_Prelude\<close>: fixed-width integers as words with the checked, saturating and panicking operations, hash maps as
    association lists with distinct keys (any order of the list is a possible iteration order), results that leave a
    receiver behind, and the generic contracts \<open>invariant_steps\<close>, \<open>final_steps\<close> and \<open>keyed_map\<close>.
    \<open>Decimal\<close>: printing and parsing of unsigned numbers and the operations on text. \<open>Byte_Encoding\<close>: the bytes of text and of
    integers and when a sequence of them determines its parts.
  \<^item> \<open>Molt_Amount\<close>: \<open>molt-core/src/amount.rs\<close> and \<open>molt-token/src/amount.rs\<close>. Amounts are 64-bit words; arithmetic is
    exact or refused, and the decimal text form is read back exactly.
  \<^item> \<open>Token_Escrow\<close>: \<open>molt-token/src/escrow.rs\<close>. The fee split is exact for rates up to the cap; an escrow is released
    or refunded at most once.
  \<^item> \<open>Token_Client\<close>: \<open>molt-token/src/client.rs\<close> and \<open>transaction.rs\<close>. No sequence of calls creates money, the total is
    exact while no addition saturates, a settled escrow is never paid out again whatever calls follow, and a failing call changes nothing. Interleaved
    transfers are modelled by splitting a transfer at its two lock acquisitions.
  \<^item> \<open>Market_Escrow\<close>, \<open>Settlement\<close>, \<open>Order_Book\<close>, \<open>Payment\<close>: the files of \<open>molt-market/src\<close> of these names. State
    changes only by the authorised party along the allowed edges; the payment is the ceiling of the hourly price; matches
    are exactly the suitable offers, best first; the payment service simulates the market escrow.
  \<^item> \<open>Autonomy\<close>, \<open>Agents\<close>: \<open>molt-agent/src/autonomy/mod.rs\<close>, \<open>provider.rs\<close>, \<open>buyer.rs\<close>, \<open>negotiation.rs\<close>. What is accepted in a
    budget hour stays within the hourly budget; providers never over-commit, buyers stay within their budget.
  \<^item> \<open>Rate_Limit\<close>, \<open>Diversity\<close>, \<open>Gossip_Message\<close>, \<open>Gossip_Broadcast\<close>: \<open>molt-p2p/src/gossip/rate_limit.rs\<close>,
    \<open>diversity.rs\<close>, \<open>gossip/announcement.rs\<close> with \<open>gossip/message.rs\<close>, \<open>gossip/broadcast.rs\<close>. No window admits more messages than
    the limit; peers stay within the diversity limits; the wire format is read back; the announcement cache holds only
    verified announcements, is bounded per peer, and in total as long as no clean-up straddles the date of an announcement; duplicates are not forwarded. \<open>Connection_Pool\<close>: \<open>molt-p2p/src/connection.rs\<close>; the
    connections of the pool stay within its size and, with diversity enabled, within the limits per subnet and prefix whatever peers share an address.
  \<^item> \<open>Mesh_Network\<close>, \<open>Mesh_Manager\<close>: \<open>claw-network/src/lib.rs\<close> and \<open>clawnode/src/mesh.rs\<close>. Registered nodes have
    distinct addresses and subnets; synchronising peers reaches the gateway's list.
  \<^item> \<open>Workload_Net\<close>: \<open>clawnode/src/workload_net.rs\<close>. Container addresses are unique, and one is given while any is free.
  \<^item> \<open>Firewall\<close>, \<open>Service_Discovery\<close>, \<open>Net_Policy\<close>: \<open>clawnode/src/service_discovery.rs\<close> and \<open>netpolicy.rs\<close> over a
    command runner for iptables. Virtual addresses are unique; the rules spread connections evenly;
    a selected workload receives only what a rule admits; removing a policy removes its rules.
  \<^item> \<open>Json_Store\<close>: \<open>claw-persist/src/lib.rs\<close> and the pattern of the stores on it. \<open>Scheduler_Stores\<close>:
    \<open>claw-scheduler/src/lib.rs\<close>. \<open>Node_Stores\<close>: \<open>src/lib.rs\<close> of \<open>claw-config\<close>, \<open>claw-secrets\<close>, \<open>claw-auth\<close>,
    \<open>claw-deploy\<close>, \<open>claw-autoscaler\<close>, \<open>claw-storage\<close> and \<open>claw-ingress\<close>. A restart finds what was written; immutable configurations
    do not change; a revoked key authenticates nobody; log queries return the newest entries.
  \<^item> \<open>Deploy_Commands\<close>: \<open>clawnode/src/deploy_cmd.rs\<close> and \<open>autoscale_cmd.rs\<close>. Creating a deployment is all or nothing
    as far as the runtime removes what it is told to (failing removals are ignored by the code), its revision history is complete, and an update of a running deployment is refused by the container runtime.

  \<^item> \<open>Workload_Spec\<close>, \<open>Gpu_Selector\<close>, \<open>Proto_Messages\<close>: \<open>workload.rs\<close>, \<open>scheduling.rs\<close>, \<open>validation.rs\<close>, \<open>error.rs\<close>,
    \<open>types.rs\<close>, \<open>selector.rs\<close>, \<open>messages.rs\<close> and \<open>events.rs\<close> of \<open>claw-proto/src\<close>. A workload's status moves only along the edges of its
    life cycle; a selector picks exactly the GPUs its expressions admit, and a node satisfies a requirement exactly when
    each part of it is met.
  \<^item> \<open>Container_Runtime\<close>, \<open>Node_Workloads\<close>: \<open>clawnode/src/runtime.rs\<close>, \<open>error.rs\<close>, \<open>state.rs\<close> and \<open>handlers.rs\<close>. A GPU is given to at
    most one running workload, an allocation takes all GPUs it asks for or none, and stopping a started workload restores the node.
  \<^item> \<open>Attestation_Challenge\<close>, \<open>Attestation_Proofs\<close>: \<open>molt-attestation/src/challenge.rs\<close>, \<open>error.rs\<close>, \<open>hardware.rs\<close>, \<open>execution.rs\<close> and
    \<open>verification.rs\<close>. A nonce is accepted once while it is cached; a chain of attestations reveals a change unless entries of the compared chains
    collide under the hash; signatures bind what they sign
    except for the ambiguities the lemmas name; verifications are spaced by the interval.
  \<^item> \<open>Metric_Store\<close>: \<open>claw-metrics/src/types.rs\<close>, \<open>storage.rs\<close>, \<open>query.rs\<close> and \<open>error.rs\<close>. Names that pass validation are exactly
    those of the documented form, and a query of a range within the retention period returns exactly the recorded points (expired points are
    dropped by pushes and expiry runs, not by queries).
    \<open>Metric_Collectors\<close>: \<open>collector.rs\<close> and \<open>prometheus.rs\<close>; collected points reach the store, and gauges count exactly while they stay in range.
  \<^item> \<open>Gossip_Node\<close>, \<open>P2p_Network\<close>, \<open>Nat_Traversal\<close>, \<open>Job_Tunnels\<close>: \<open>gossip/node.rs\<close>, then \<open>network.rs\<close>, \<open>protocol.rs\<close>, \<open>message.rs\<close>
    and \<open>discovery.rs\<close>, then \<open>nat.rs\<close> and \<open>tunnel.rs\<close> of \<open>molt-p2p/src\<close>. The node reaches only states of its broadcaster; joining and
    leaving exclude each other although a leave takes its locks one by one; the first address in the answer of a STUN server is read back and the parser is
    total; tunnels have distinct addresses.
  \<^item> \<open>Store_Commands\<close>, \<open>Secret_Commands\<close>, \<open>Storage_Commands\<close>, \<open>Workload_Commands\<close>, \<open>Market_Commands\<close>, \<open>Network_Commands\<close>,
    \<open>Metrics_Commands\<close>: the handlers of \<open>clawnode/src\<close> in \<open>config_cmd.rs\<close>, \<open>job_cmd.rs\<close>, \<open>namespace_cmd.rs\<close>, \<open>policy_cmd.rs\<close>, then
    \<open>secrets_cmd.rs\<close>, \<open>auth_cmd.rs\<close>, then \<open>storage_cmd.rs\<close>, \<open>commands.rs\<close>, \<open>molt_cmd.rs\<close>, \<open>network_cmd.rs\<close> and \<open>metrics_cmd.rs\<close>, over the stores and managers
    above. A well-formed specification is reported valid exactly when the workload it describes meets every enabled policy; a secret
    is read back, also after a restart under the same host name;
    a bound volume stays with its container; a workload that was run and stopped gives its address back; an emitted event is found; an evaluation
    moves every alert by the last value of its metric.
  \<^item> \<open>Gateway_Client\<close>: \<open>clawnode/src/client.rs\<close>, with the command names of \<open>lib.rs\<close> and \<open>commands.rs\<close>. The node announces exactly the commands it
    dispatches; the event loop makes one result for every invocation that decodes, in order, loses at most one frame (to a failing write, which ends it), and
    can block itself on its full channel.
  \<^item> \<open>Ingress_Proxy\<close>: \<open>clawnode/src/ingress_proxy.rs\<close>; a request goes to the route with the longest matching prefix.
  \<^item> \<open>Container_Config\<close>, \<open>Docker_Runtime\<close>: \<open>config.rs\<close>, \<open>error.rs\<close>, \<open>status.rs\<close>, \<open>docker.rs\<close> and \<open>runtime.rs\<close> of \<open>claw-compute/src/container\<close>.
    Validation accepts exactly the documented configurations, the request to Docker carries what the lemmas say and drops what they name, and
    waiting for a state ends.
  \<^item> \<open>Tensors\<close>: \<open>tensor.rs\<close>, \<open>kernels.rs\<close>, \<open>gpu.rs\<close>, \<open>device.rs\<close> and \<open>error.rs\<close> of \<open>claw-compute/src\<close>. The matrix product is computed with machine
    indices and equals its definition; the GPU kernels compute every element in any order of their positions.
  \<^item> \<open>Key_Material\<close>: \<open>claw-wireguard/src/keys.rs\<close>, \<open>molt-core/src/wallet.rs\<close>, \<open>molt-token/src/wallet.rs\<close> and \<open>claw-identity/src/lib.rs\<close>. Keys, wallets and
    identities are read back from their texts and files; a signed request binds its fields when they are free of separators.
    \<open>Core_Policy\<close>: \<open>molt-core/src/policy.rs\<close>, \<open>reputation.rs\<close> and \<open>molt-agent/src/strategy.rs\<close>.

  This theory composes components: a matched order, settled by its offer's rate, is paid in full.

  \<^bold>\<open>Parameters and their contracts.\<close> What the code takes from other crates and the system is an argument:
  signatures, hashes and the serialisation of payloads (\<open>Gossip_Message\<close>, \<open>Gossip_Broadcast\<close>, \<open>Attestation_Proofs\<close>), the binary
  search among equal keys (\<open>key_search\<close>, \<open>Metric_Store\<close>), base64 and address
  prefixes (\<open>Mesh_Network\<close>, the locale \<open>subnet_parser\<close>, \<open>Workload_Net\<close>), iptables (the locales
  \<open>iptables_chain\<close>, \<open>iptables_listing\<close>, \<open>packet_matching\<close>), the container runtime (\<open>runtime_contract\<close>), JSON (\<open>codec_roundtrip\<close>), ciphers and digests (\<open>secret_library\<close>),
  keys and text encodings (\<open>key_contract\<close>), copies of directories (\<open>directory_copy\<close>), the GPU library (\<open>kernel_launcher\<close>), the clock, random choices (any permutation) and
  fresh identifiers. Each contract is interpreted on a concrete instance, and the
  witnesses use it. Scores computed in floating point are parameters with a comparison.

  \<^bold>\<open>Integers and loops.\<close> Integers keep their width. Operators without a checked form take a flag for the
  build profile: the development profile panics on overflow, the release profile wraps. All functions are total except four loops, which are
  partial functions with value \<open>None\<close> when they do not end: \<open>remove_dnat_rules\<close> and \<open>remove_policy_rules\<close>, which call iptables until it
  fails, \<open>wait_from\<close>, which polls a container, and \<open>evict_nonces\<close>. The theorems about them show that they return, and for which cache size the last one does not.

  \<^bold>\<open>Not modelled.\<close> The process around the handlers: \<open>main.rs\<close>, the Docker client and the GPU detection of
  \<open>clawnode\<close>, which are calls of libraries and of the operating system; the command line and its printing (\<open>claw-cli\<close>, \<open>claw-proto/src/cli.rs\<close>); the text format of
  exported metrics; the streams of the Docker library (logs, statistics, executions);
  serialisation that is derived; rounding of floating-point numbers, so scores and prices are stated over the operations as parameters. Locks are modelled where
  interleaving changes the outcome (transfers, leaving a network, deleting a volume); elsewhere an operation runs to its end.
\<close>

section \<open>From a match to its settlement\<close>

text \<open>The offer behind a match of a well-formed book.\<close>

lemma match_offer:
  assumes "book_wf b" and "get_order b oid = Some ord" and "find_matches True b oid = Some (Inr ms)" and "m \<in> set ms"
  obtains off where "get_offer b (match_offer_id m) = Some off" and "suitable ord off"
proof -
  have "mset ms = image_mset (match_of oid) (filter_mset (suitable ord) (mset (hm_values (offers b))))"
    using assms(2,3) by (rule find_matches_checked_sound)
  then have "m \<in># image_mset (match_of oid) (filter_mset (suitable ord) (mset (hm_values (offers b))))"
    using assms(4) by (metis set_mset_mset)
  then obtain k off where o: "(k, off) \<in> set (offers b)" "suitable ord off" "m = match_of oid off"
    by auto
  have "offer_id off = k" using o(1) assms(1) by (auto simp: book_wf_def list_all_iff)
  then have "get_offer b (match_offer_id m) = Some off"
    using o assms(1) by (simp add: get_offer_def book_wf_def match_of_def)
  then show ?thesis using o(2) that by blast
qed

text \<open>A job that stays within the hours it asked for costs at most the price of those hours.\<close>

lemma hourly_price_le:
  assumes "d \<le> 3600 * h"
  shows "hourly_price d p \<le> p * h"
proof -
  have "d * p \<le> 3600 * h * p" using assms by (rule mult_le_mono1)
  moreover have "3600 * h * p = p * h * 3600" by simp
  ultimately have "d * p + 3599 < p * h * 3600 + 3600" by linarith
  then have "d * p + 3599 < (p * h + 1) * 3600" by simp
  then have "hourly_price d p < p * h + 1"
    unfolding hourly_price_def by (rule less_mult_imp_div_less)
  then show ?thesis by simp
qed

lemma settles_in_full:
  assumes "suitable ord off"
    and "escrow_amount inp = max_price ord \<and> rate_per_hour inp = price_per_hour off \<and>
       sint (start_time inp) \<le> sint (end_time inp) \<and>
       sint (end_time inp) - sint (start_time inp) \<le> 3600 * int (unat (max_duration_hours (requirements ord)))"
  shows "\<exists>r. settle_job True inp = Some (Inr r) \<and> success r \<and> amount_paid r \<le> max_price ord \<and>
    unat (amount_paid r) = hourly_price (nat (sint (end_time inp) - sint (start_time inp))) (unat (price_per_hour off))"
proof -
  let ?d = "sint (end_time inp) - sint (start_time inp)" and ?h = "max_duration_hours (requirements ord)"
  let ?p = "hourly_price (nat ?d) (unat (price_per_hour off))"
  have "nat ?d \<le> 3600 * unat ?h" using assms(2) by linarith
  then have "?p \<le> unat (price_per_hour off) * unat ?h" by (rule hourly_price_le)
  also have "\<dots> \<le> unat (max_price ord)" using assms(1) by (simp add: suitable_def)
  finally have p: "?p \<le> unat (max_price ord)" .
  have "unat ?h < 4294967296" using unsigned_less [of ?h] by simp
  then have "int (unat ?h) < 4294967296" by linarith
  moreover have "?d \<le> 3600 * int (unat ?h)" using assms(2) by blast
  ultimately have "?d < 9223372036854775808" by linarith
  then have "?d < 2 ^ 63" by simp
  then have s: "settle_job True inp = Some (Inr \<lparr>result_job_id = input_job_id inp, amount_paid = of_nat ?p,
      duration_seconds = of_int ?d, success = True\<rparr>)"
    using assms(2) p unfolding settle_job_value [of True inp] by (simp add: Let_def)
  have "?p < 2 ^ 64" using p unat_lt_len [of "max_price ord"] by simp
  then have "unat (of_nat ?p :: u64) = ?p" by (simp add: unat_of_nat)
  then show ?thesis using s p by (simp add: word_le_nat_alt)
qed

text \<open>
  C8. \<^bold>\<open>A matched job is paid in full out of its escrow.\<close> In a build with overflow checks, take any match that
  \<open>OrderBook::find_matches\<close> returns for an order of a book built by any sequence of insertions and removals. The book
  holds the matched offer, and when the job is settled at the offer's hourly price out of an escrow of the order's
  maximum price, after at most the order's maximum number of hours, \<open>settle_job\<close> returns the exact price of the time
  used: neither the cap at the escrow nor the 64-bit saturation takes anything from the provider.
\<close>

theorem matched_job_settles_in_full:
  assumes "b = run book_step order_book_new ops" and "get_order b oid = Some ord"
    and "find_matches True b oid = Some (Inr ms)" and "m \<in> set ms"
  shows "\<exists>off. get_offer b (match_offer_id m) = Some off \<and>
    (\<forall>inp. escrow_amount inp = max_price ord \<and> rate_per_hour inp = price_per_hour off \<and>
       sint (start_time inp) \<le> sint (end_time inp) \<and>
       sint (end_time inp) - sint (start_time inp) \<le> 3600 * int (unat (max_duration_hours (requirements ord))) \<longrightarrow>
       (\<exists>r. settle_job True inp = Some (Inr r) \<and> success r \<and> amount_paid r \<le> max_price ord \<and>
          unat (amount_paid r) =
            hourly_price (nat (sint (end_time inp) - sint (start_time inp))) (unat (price_per_hour off))))"
proof -
  have "book_wf b" unfolding assms(1) by (simp add: ob.run_inv book_wf_new)
  then obtain off where off: "get_offer b (match_offer_id m) = Some off" "suitable ord off"
    using match_offer assms(2-4) by blast
  then show ?thesis by (intro exI [of _ off] conjI allI impI settles_in_full) simp_all
qed

theorem matched_job_settles_in_full_witness:
  "let b = run book_step order_book_new [Insert_order example_order, Insert_offer (example_offer 50)];
       inp = \<lparr>input_job_id = ''j'', start_time = 0, end_time = 7200, rate_per_hour = 50, escrow_amount = 1000\<rparr>
   in find_matches True b ''o1'' = Some (Inr [match_of ''o1'' (example_offer 50)]) \<and>
      (\<exists>r. settle_job True inp = Some (Inr r) \<and> unat (amount_paid r) = 100)"
proof -
  let ?b = "run book_step order_book_new [Insert_order example_order, Insert_offer (example_offer 50)]"
  let ?inp = "\<lparr>input_job_id = ''j'', start_time = 0, end_time = 7200, rate_per_hour = 50, escrow_amount = 1000\<rparr>"
  let ?m = "match_of ''o1'' (example_offer 50)"
  note ex = get_order_def get_offer_def insert_offer_def insert_order_def order_book_new_def hm_insert_def example_order_def
    example_offer_def job_order_new_def capacity_offer_new_def match_of_def
  have o: "get_order ?b ''o1'' = Some example_order" by (simp add: ex)
  have f: "find_matches True ?b ''o1'' = Some (Inr [?m])"
    by (simp add: find_matches_def affordable_def satisfies_def mul_op_def checked_mul_def sort_matches_def ex)
  have g: "get_offer ?b (match_offer_id ?m) = Some (example_offer 50)" by (simp add: ex)
  have c: "escrow_amount ?inp = max_price example_order" "rate_per_hour ?inp = price_per_hour (example_offer 50)"
    "sint (start_time ?inp) \<le> sint (end_time ?inp)"
    "sint (end_time ?inp) - sint (start_time ?inp) \<le> 3600 * int (unat (max_duration_hours (requirements example_order)))"
    by (simp_all add: ex)
  have "\<exists>r. settle_job True ?inp = Some (Inr r) \<and>
      unat (amount_paid r) = hourly_price (nat (sint (end_time ?inp) - sint (start_time ?inp))) (unat (price_per_hour (example_offer 50)))"
  proof -
    obtain off where off: "get_offer ?b (match_offer_id ?m) = Some off" and all: "\<forall>inp. escrow_amount inp = max_price example_order \<and>
       rate_per_hour inp = price_per_hour off \<and> sint (start_time inp) \<le> sint (end_time inp) \<and>
       sint (end_time inp) - sint (start_time inp) \<le> 3600 * int (unat (max_duration_hours (requirements example_order))) \<longrightarrow>
       (\<exists>r. settle_job True inp = Some (Inr r) \<and> success r \<and> amount_paid r \<le> max_price example_order \<and>
          unat (amount_paid r) = hourly_price (nat (sint (end_time inp) - sint (start_time inp))) (unat (price_per_hour off)))"
      using matched_job_settles_in_full [OF refl o f, of ?m] by auto
    have "off = example_offer 50" using off g by simp
    then show ?thesis using all [rule_format, of ?inp] c by blast
  qed
  then show ?thesis using f by (simp add: hourly_price_def ex)
qed

end
